(* ===== verification/Go_Prelude.thy ===== *)
theory Go_Prelude
  imports Complex_Main
    "HOL-Library.AList" "HOL-Library.Char_ord" "HOL-Library.List_Lexorder"
    "HOL-Library.Word" "HOL-Library.Multiset"
begin

text \<open>
  What every component of the model shares: Go's maps, integers, times and strings as HOL
  values, the best-of scan that the queue and the scheduler both run, and the lemma
  collections the component proofs use.
\<close>

named_theorems gomap_simps \<open>lookups after updates and deletes of a Go map\<close>
named_theorems inv_intros \<open>preservation of the components' invariants\<close>

section \<open>Maps\<close>

text \<open>
  A Go map is an association list with distinct keys. The order of the list stands for the
  order in which one \<open>range\<close> loop happens to visit the map, which Go leaves open; every
  theorem quantifies over the list and so holds for every order.
\<close>

type_synonym ('k, 'v) gomap = "('k \<times> 'v) list"

abbreviation mget :: "('k, 'v) gomap \<Rightarrow> 'k \<Rightarrow> 'v option" where
  "mget m k \<equiv> map_of m k"

abbreviation mput :: "'k \<Rightarrow> 'v \<Rightarrow> ('k, 'v) gomap \<Rightarrow> ('k, 'v) gomap" where
  "mput k v m \<equiv> AList.update k v m"

abbreviation mdel :: "'k \<Rightarrow> ('k, 'v) gomap \<Rightarrow> ('k, 'v) gomap" where
  "mdel k m \<equiv> AList.delete k m"

abbreviation mkeys :: "('k, 'v) gomap \<Rightarrow> 'k list" where
  "mkeys m \<equiv> map fst m"

abbreviation wf_map :: "('k, 'v) gomap \<Rightarrow> bool" where
  "wf_map m \<equiv> distinct (map fst m)"

text \<open>Reading a missing key yields the zero value of the element type.\<close>

definition get_or :: "'v \<Rightarrow> ('k, 'v) gomap \<Rightarrow> 'k \<Rightarrow> 'v" where
  "get_or z m k = (case map_of m k of None \<Rightarrow> z | Some v \<Rightarrow> v)"

lemma mget_mput [gomap_simps]:
  "mget (mput k v m) k' = (if k' = k then Some v else mget m k')"
  by (simp add: update_conv')

lemma mget_mdel [gomap_simps]:
  "mget (mdel k m) k' = (if k' = k then None else mget m k')"
  by (simp add: delete_conv')

lemma get_or_mput [gomap_simps]:
  "get_or z (mput k v m) k' = (if k' = k then v else get_or z m k')"
  by (simp add: get_or_def mget_mput)

lemma get_or_mdel [gomap_simps]:
  "get_or z (mdel k m) k' = (if k' = k then z else get_or z m k')"
  by (simp add: get_or_def mget_mdel)

lemma get_or_Nil [simp]: "get_or z [] k = z"
  by (simp add: get_or_def)

lemma wf_map_mput [simp, intro]: "wf_map m \<Longrightarrow> wf_map (mput k v m)"
  by (rule distinct_update)

lemma wf_map_mdel [simp, intro]: "wf_map m \<Longrightarrow> wf_map (mdel k m)"
  by (rule distinct_delete)

lemma set_mkeys_mput [simp]: "fst ` set (mput k v m) = insert k (fst ` set m)"
  by (simp add: dom_update)

lemma set_mkeys_mdel [simp]: "fst ` set (mdel k m) = fst ` set m - {k}"
  by (induction m) auto

lemma mget_SomeD: "mget m k = Some v \<Longrightarrow> (k, v) \<in> set m"
  by (rule map_of_SomeD)

lemma mget_in: "wf_map m \<Longrightarrow> (k, v) \<in> set m \<Longrightarrow> mget m k = Some v"
  by simp

lemma wf_map_set_iff: "wf_map m \<Longrightarrow> (k, v) \<in> set m \<longleftrightarrow> mget m k = Some v"
  by auto

text \<open>Component proofs keep lookups as lookups.\<close>

declare map_of_eq_Some_iff [simp del]

lemma mget_None_iff: "mget m k = None \<longleftrightarrow> k \<notin> fst ` set m"
  by (rule map_of_eq_None_iff)

lemma set_mdel: "set (mdel k m) = {p \<in> set m. fst p \<noteq> k}"
  by (induction m) auto

lemma mdel_absent: "k \<notin> fst ` set m \<Longrightarrow> mdel k m = m"
  by (induction m) auto

lemma map_filter_in: "y \<in> set (List.map_filter f xs) \<longleftrightarrow> (\<exists>x \<in> set xs. f x = Some y)"
  by (force simp: List.map_filter_def image_iff)

lemma map_filter_Cons:
  "List.map_filter f (x # xs) =
     (case f x of None \<Rightarrow> List.map_filter f xs | Some y \<Rightarrow> y # List.map_filter f xs)"
  by (simp add: List.map_filter_def split: option.split)

lemma map_filter_Nil: "List.map_filter f [] = []"
  by (simp add: List.map_filter_def)

section \<open>Integers, times and strings\<close>

text \<open>
  Go's \<open>int\<close> has 64 bits and wraps: \<open>wrap64\<close> is the value a 64-bit two's
  complement register holds for a mathematical result, \<open>quot_trunc\<close> is division, which
  truncates towards zero.
\<close>

definition wrap64 :: "int \<Rightarrow> int" where
  "wrap64 x = signed_take_bit 63 x"

definition in64 :: "int \<Rightarrow> bool" where
  "in64 x \<longleftrightarrow> - (2 ^ 63) \<le> x \<and> x < 2 ^ 63"

definition quot_trunc :: "int \<Rightarrow> int \<Rightarrow> int" where
  "quot_trunc a b = sgn a * sgn b * (\<bar>a\<bar> div \<bar>b\<bar>)"

lemma wrap64_id: "in64 x \<Longrightarrow> wrap64 x = x"
  by (simp add: wrap64_def in64_def signed_take_bit_int_eq_self)

lemma in64_wrap64: "in64 (wrap64 x)"
  using signed_take_bit_int_greater_eq_minus_exp [of 63 x]
    signed_take_bit_int_less_exp [of 63 x]
  by (simp add: wrap64_def in64_def)

text \<open>
  A \<open>time.Time\<close> is its nanoseconds since the Unix epoch; the zero \<open>time.Time\<close> is
  1 January of year 1. \<open>Sub\<close> saturates at the range of a 64-bit \<open>time.Duration\<close>.
\<close>

type_synonym gotime = int
type_synonym duration = int

definition zero_time :: gotime where
  "zero_time = - 62135596800000000000"

definition time_sub :: "gotime \<Rightarrow> gotime \<Rightarrow> duration" where
  "time_sub a b = max (- (2 ^ 63)) (min (2 ^ 63 - 1) (a - b))"

definition second_ns :: int where
  "second_ns = 1000000000"

text \<open>Strings are byte strings, as Go's are. These are the functions of package \<open>strings\<close>.\<close>

definition has_prefix :: "string \<Rightarrow> string \<Rightarrow> bool" where
  "has_prefix s p \<longleftrightarrow> take (length p) s = p"

definition trim_prefix :: "string \<Rightarrow> string \<Rightarrow> string" where
  "trim_prefix s p = (if has_prefix s p then drop (length p) s else s)"

fun cut_byte :: "char \<Rightarrow> string \<Rightarrow> string \<times> string \<times> bool" where
  "cut_byte c [] = ([], [], False)"
| "cut_byte c (x # xs) =
     (if x = c then ([], xs, True)
      else (case cut_byte c xs of (a, b, ok) \<Rightarrow> if ok then (x # a, b, True) else (x # xs, [], False)))"

fun contains_sub :: "string \<Rightarrow> string \<Rightarrow> bool" where
  "contains_sub [] p = (p = [])"
| "contains_sub (x # xs) p = (has_prefix (x # xs) p \<or> contains_sub xs p)"

text \<open>\<open>strings.LastIndexByte\<close>: the split around the last occurrence, if there is one.\<close>

definition cut_last_byte :: "char \<Rightarrow> string \<Rightarrow> (string \<times> string) option" where
  "cut_last_byte c s =
     (case cut_byte c (rev s) of (b, a, ok) \<Rightarrow> if ok then Some (rev a, rev b) else None)"

fun join_with :: "string \<Rightarrow> string list \<Rightarrow> string" where
  "join_with sep [] = []"
| "join_with sep [s] = s"
| "join_with sep (s # t # ts) = s @ sep @ join_with sep (t # ts)"

lemma cut_before_byte:
  assumes "c \<notin> set a" and "c \<notin> set a'" and "a @ [c] @ b = a' @ [c] @ b'"
  shows "a = a' \<and> b = b'"
  using assms
proof (induction a arbitrary: a')
  case Nil
  then show ?case by (cases a') auto
next
  case (Cons x a)
  then show ?case by (cases a') auto
qed

lemma join_comma_cases:
  obtains "xs = []" | u where "xs = [u]" | u v vs where "xs = u # v # vs"
  by (cases xs rule: remdups_adj.cases) auto

lemma join_with_comma_inj:
  assumes "join_with '','' xs = join_with '','' ys"
    and "\<forall>m \<in> set xs \<union> set ys. m \<noteq> [] \<and> CHR '','' \<notin> set m"
  shows "xs = ys"
  using assms
proof (induction xs arbitrary: ys)
  case Nil
  then show ?case by (cases ys rule: join_comma_cases) auto
next
  case (Cons x xs)
  have x: "x \<noteq> []" "CHR '','' \<notin> set x" using Cons.prems(2) by simp_all
  show ?case
  proof (cases ys rule: join_comma_cases)
    case 1
    then show ?thesis using Cons.prems x by (cases xs) auto
  next
    case (2 u)
    show ?thesis
    proof (cases xs)
      case Nil
      then show ?thesis using 2 Cons.prems by simp
    next
      case (Cons y zs)
      then have "CHR '','' \<in> set u" using Cons.prems(1) 2 by (auto dest!: arg_cong [where f = set])
      then show ?thesis using Cons.prems(2) 2 by simp
    qed
  next
    case (3 u v vs)
    have u: "CHR '','' \<notin> set u" using Cons.prems(2) 3 by simp
    show ?thesis
    proof (cases xs)
      case Nil
      then have "CHR '','' \<in> set x" using Cons.prems(1) 3 by auto
      then show ?thesis using x by simp
    next
      case ys: (Cons y zs)
      then have "x @ [CHR '',''] @ join_with '','' xs = u @ [CHR '',''] @ join_with '','' (v # vs)"
        using Cons.prems(1) 3 by simp
      from cut_before_byte [OF x(2) u this] have "x = u" "join_with '','' xs = join_with '','' (v # vs)" by blast+
      then show ?thesis using Cons.IH [of "v # vs"] Cons.prems(2) 3 by auto
    qed
  qed
qed

section \<open>The best-of scan\<close>

text \<open>
  The queue and the scheduler choose by one pass that keeps the best index so far: the first
  acceptable element starts as best, and a later acceptable one replaces it only when it is
  better. Ties therefore keep the earlier element.
\<close>

fun scan_best ::
  "('a \<Rightarrow> bool) \<Rightarrow> ('a \<Rightarrow> 'a \<Rightarrow> bool) \<Rightarrow> nat \<Rightarrow> 'a list \<Rightarrow> (nat \<times> 'a) option \<Rightarrow> (nat \<times> 'a) option"
where
  "scan_best ok better i [] best = best"
| "scan_best ok better i (x # xs) best =
     scan_best ok better (Suc i) xs
       (if \<not> ok x then best
        else (case best of
                None \<Rightarrow> Some (i, x)
              | Some (j, y) \<Rightarrow> if better x y then Some (i, x) else best))"

lemma scan_best_in:
  "scan_best ok better i xs best = Some (j, y) \<Longrightarrow>
     best = Some (j, y) \<or> (i \<le> j \<and> j < i + length xs \<and> xs ! (j - i) = y \<and> ok y)"
proof (induction xs arbitrary: i best)
  case Nil
  then show ?case by simp
next
  case (Cons x xs)
  have "scan_best ok better (Suc i) xs
      (if \<not> ok x then best
       else (case best of None \<Rightarrow> Some (i, x)
             | Some (j, y) \<Rightarrow> if better x y then Some (i, x) else best)) = Some (j, y)"
    using Cons.prems by simp
  from Cons.IH [OF this] consider
      (old) "(if \<not> ok x then best
       else (case best of None \<Rightarrow> Some (i, x)
             | Some (j, y) \<Rightarrow> if better x y then Some (i, x) else best)) = Some (j, y)"
    | (new) "Suc i \<le> j" "j < Suc i + length xs" "xs ! (j - Suc i) = y" "ok y" by blast
  then show ?case
  proof cases
    case old
    then have "best = Some (j, y) \<or> (j = i \<and> y = x \<and> ok x)"
      by (cases best) (auto split: if_splits)
    then show ?thesis by auto
  next
    case new
    then have "(x # xs) ! (j - i) = y" by (simp add: nth_Cons')
    with new show ?thesis by simp
  qed
qed

lemma scan_best_None:
  "scan_best ok better i xs best = None \<longleftrightarrow> best = None \<and> (\<forall>x \<in> set xs. \<not> ok x)"
proof (induction xs arbitrary: i best)
  case Nil
  then show ?case by simp
next
  case (Cons x xs)
  show ?case by (cases best) (auto simp: Cons.IH split: prod.splits)
qed

lemma scan_best_Some_ex:
  "x \<in> set xs \<Longrightarrow> ok x \<Longrightarrow> \<exists>j y. scan_best ok better i xs None = Some (j, y)"
  using scan_best_None [of ok better i xs None] by (cases "scan_best ok better i xs None") auto

lemma scan_best_nth:
  assumes "scan_best ok better 0 xs None = Some (j, y)"
  shows "j < length xs" and "xs ! j = y" and "ok y" and "y \<in> set xs"
  using scan_best_in [OF assms] by auto

text \<open>
  When the comparison is a strict weak order, the scan finds a maximum, and among equals the
  one that comes first.
\<close>

locale choice_order =
  fixes better :: "'a \<Rightarrow> 'a \<Rightarrow> bool"
  assumes better_asym: "better x y \<Longrightarrow> \<not> better y x"
    and better_negtrans: "better x z \<Longrightarrow> better x y \<or> better y z"
begin

lemma better_irrefl: "\<not> better x x"
  using better_asym by blast

lemma better_trans: "better x y \<Longrightarrow> better y z \<Longrightarrow> better x z"
  using better_asym [of y z] better_negtrans [of x y z] by blast

lemma scan_beats_start:
  "scan_best ok better i xs (Some (j, y)) = Some (k, z) \<Longrightarrow> (k, z) = (j, y) \<or> better z y"
proof (induction xs arbitrary: i j y)
  case Nil
  then show ?case by simp
next
  case (Cons x xs)
  show ?case
  proof (cases "ok x \<and> better x y")
    case True
    with Cons.prems have "scan_best ok better (Suc i) xs (Some (i, x)) = Some (k, z)" by simp
    from Cons.IH [OF this] True show ?thesis using better_trans by blast
  next
    case False
    with Cons.prems have "scan_best ok better (Suc i) xs (Some (j, y)) = Some (k, z)"
      by (auto split: if_splits)
    then show ?thesis by (rule Cons.IH)
  qed
qed

lemma scan_maximal_gen:
  "scan_best ok better i xs best = Some (k, z) \<Longrightarrow> x \<in> set xs \<Longrightarrow> ok x \<Longrightarrow> \<not> better x z"
proof (induction xs arbitrary: i best)
  case Nil
  then show ?case by simp
next
  case (Cons a xs)
  let ?b = "if \<not> ok a then best
       else (case best of None \<Rightarrow> Some (i, a)
             | Some (j, y) \<Rightarrow> if better a y then Some (i, a) else best)"
  have step: "scan_best ok better (Suc i) xs ?b = Some (k, z)" using Cons.prems(1) by simp
  show ?case
  proof (cases "x \<in> set xs")
    case True
    then show ?thesis using Cons.IH [OF step] Cons.prems by blast
  next
    case False
    with Cons.prems have xa: "x = a" "ok a" by auto
    then have "\<exists>j y. ?b = Some (j, y) \<and> \<not> better a y"
      using better_irrefl by (cases best) auto
    then obtain j y where b: "?b = Some (j, y)" and "\<not> better a y" by blast
    from scan_beats_start [of ok "Suc i" xs j y k z] step b
    have "(k, z) = (j, y) \<or> better z y" by simp
    then show ?thesis using \<open>\<not> better a y\<close> xa better_asym better_trans by blast
  qed
qed

lemma scan_maximal:
  assumes "scan_best ok better 0 xs None = Some (j, y)" and "x \<in> set xs" and "ok x"
  shows "\<not> better x y"
  using scan_maximal_gen assms by blast

text \<open>Elements that come before the chosen one and are acceptable are strictly worse.\<close>

lemma scan_earliest_gen:
  "scan_best ok better i xs best = Some (k, z) \<Longrightarrow> l < length xs \<Longrightarrow> i + l < k \<Longrightarrow> ok (xs ! l)
    \<Longrightarrow> (\<forall>j y. best = Some (j, y) \<longrightarrow> j < i) \<Longrightarrow> better z (xs ! l)"
proof (induction xs arbitrary: i best l)
  case Nil
  then show ?case by simp
next
  case (Cons a xs)
  let ?b = "if \<not> ok a then best
       else (case best of None \<Rightarrow> Some (i, a)
             | Some (j, y) \<Rightarrow> if better a y then Some (i, a) else best)"
  have step: "scan_best ok better (Suc i) xs ?b = Some (k, z)" using Cons.prems(1) by simp
  have older: "\<forall>j y. ?b = Some (j, y) \<longrightarrow> j < Suc i"
    using Cons.prems(5) by (auto split: if_splits option.splits simp: less_SucI)
  show ?case
  proof (cases l)
    case (Suc l')
    then show ?thesis using Cons.IH [OF step, of l'] Cons.prems older by simp
  next
    case 0
    with Cons.prems(4) have "\<exists>j y. ?b = Some (j, y) \<and> \<not> better a y"
      using better_irrefl by (cases best) auto
    then obtain j y where b: "?b = Some (j, y)" and ay: "\<not> better a y" by blast
    from b older have "j < Suc i" by blast
    from scan_beats_start [of ok "Suc i" xs j y k z] step b
    have "(k, z) = (j, y) \<or> better z y" by simp
    with \<open>j < Suc i\<close> Cons.prems(3) 0 have "better z y" by auto
    then show ?thesis using ay 0 better_negtrans [of z y a] by simp
  qed
qed

lemma scan_earliest:
  assumes "scan_best ok better 0 xs None = Some (k, z)" and "l < k" and "ok (xs ! l)"
    and "l < length xs"
  shows "better z (xs ! l)"
  using scan_earliest_gen [OF assms(1) assms(4)] assms by simp

end

text \<open>
  A comparison of integers is a strict weak order, and refining any such order by a key that is
  compared first gives another: the lexicographic orders of the program are built this way.
\<close>

interpretation int_order: choice_order "\<lambda>x y :: int. x < y"
  by unfold_locales auto

lemma choice_order_lex:
  fixes k :: "'a \<Rightarrow> 'b :: linorder"
  assumes "choice_order better"
  shows "choice_order (\<lambda>a b. if k a \<noteq> k b then k a < k b else better a b)"
proof
  show "\<not> (if k y \<noteq> k x then k y < k x else better y x)"
    if "if k x \<noteq> k y then k x < k y else better x y" for x y
    using that choice_order.better_asym [OF assms, of x y] by (auto split: if_splits)
  show "(if k x \<noteq> k y then k x < k y else better x y) \<or> (if k y \<noteq> k z then k y < k z else better y z)"
    if "if k x \<noteq> k z then k x < k z else better x z" for x y z
    using that choice_order.better_negtrans [OF assms, of x z y] by (auto split: if_splits)
qed

lemma choice_order_map: "choice_order better \<Longrightarrow> choice_order (\<lambda>a b. better (f a) (f b))"
  unfolding choice_order_def by blast

text \<open>The scan only looks at the comparison of two acceptable elements of the list.\<close>

lemma scan_best_cong:
  assumes "\<And>x y. x \<in> S \<Longrightarrow> y \<in> S \<Longrightarrow> x \<noteq> y \<Longrightarrow> b1 x y = b2 x y"
  shows "set xs \<subseteq> S \<Longrightarrow> distinct xs \<Longrightarrow> (\<forall>j y. best = Some (j, y) \<longrightarrow> y \<in> S \<and> y \<notin> set xs) \<Longrightarrow>
    scan_best ok b1 i xs best = scan_best ok b2 i xs best"
proof (induction xs arbitrary: i best)
  case Nil
  then show ?case by simp
next
  case (Cons x xs)
  have pick: "(case best of None \<Rightarrow> Some (i, x) | Some (j, y) \<Rightarrow> if b1 x y then Some (i, x) else best)
      = (case best of None \<Rightarrow> Some (i, x) | Some (j, y) \<Rightarrow> if b2 x y then Some (i, x) else best)"
    using Cons.prems assms by (cases best) auto
  have "scan_best ok b1 (Suc i) xs (if \<not> ok x then best
        else (case best of None \<Rightarrow> Some (i, x) | Some (j, y) \<Rightarrow> if b2 x y then Some (i, x) else best))
      = scan_best ok b2 (Suc i) xs (if \<not> ok x then best
        else (case best of None \<Rightarrow> Some (i, x) | Some (j, y) \<Rightarrow> if b2 x y then Some (i, x) else best))"
    using Cons.prems by (intro Cons.IH) (auto split: option.splits if_splits)
  then show ?case unfolding scan_best.simps pick .
qed

end
