(* ===== verification/Wire_Types.thy ===== *)
theory Wire_Types
  imports Go_Prelude
begin

text \<open>
  \<open>pkg/types/types.go\<close>: the requests, messages and snapshots the components exchange, and
  the pure functions on them. A Go \<open>int\<close> field is an \<open>int\<close> (with \<open>wrap64\<close> where its
  arithmetic can leave 64 bits), a \<open>json.RawMessage\<close> its bytes, a \<open>float64\<close> that only
  carries a JSON number a rational, a pointer an \<open>option\<close>, and a slice whose \<open>nil\<close> has a
  meaning of its own an \<open>option\<close> of a list.
\<close>

section \<open>Modalities\<close>

definition modality_text :: string where "modality_text = ''text''"
definition modality_vision :: string where "modality_vision = ''vision''"
definition modality_audio :: string where "modality_audio = ''audio''"
definition modality_video :: string where "modality_video = ''video''"

definition modality_for_content_type :: "string \<Rightarrow> string" where
  "modality_for_content_type t =
     (if contains_sub t ''image'' then modality_vision
      else if contains_sub t ''audio'' then modality_audio
      else if contains_sub t ''video'' then modality_video
      else [])"

definition modalities_compatible :: "string list \<Rightarrow> string list \<Rightarrow> bool" where
  "modalities_compatible advertised required =
     (if required = [] \<or> advertised = [] then True
      else list_all (\<lambda>r. list_ex (\<lambda>a. a = r) advertised) required)"

lemma modalities_compatible_iff:
  "modalities_compatible advertised required \<longleftrightarrow>
     advertised = [] \<or> set required \<subseteq> set advertised"
  by (auto simp: modalities_compatible_def list_all_iff list_ex_iff)

section \<open>Requests\<close>

type_synonym priority = int

definition priority_high :: priority where "priority_high = 0"
definition priority_normal :: priority where "priority_normal = 1"
definition priority_low :: priority where "priority_low = 2"

definition priority_from_string :: "string \<Rightarrow> priority" where
  "priority_from_string s =
     (if s = ''high'' then priority_high
      else if s = ''low'' then priority_low
      else priority_normal)"

type_synonym raw_json = string

record message =
  ms_role :: string
  ms_content :: raw_json
  ms_tool_calls :: raw_json
  ms_tool_call_id :: string
  ms_name :: string

record inference_request =
  rq_id :: string
  rq_model :: string
  rq_messages :: "message list"
  rq_max_tokens :: int
  rq_temperature :: "rat option"
  rq_top_p :: "rat option"
  rq_stop :: "string list"
  rq_stream :: bool
  rq_tools :: raw_json
  rq_tool_choice :: raw_json
  rq_source_fmt :: string
  rq_priority :: priority
  rq_owner :: string
  rq_api_key_label :: string
  rq_word_count :: int
  rq_modalities :: "string list"
  rq_enqueued_at :: gotime
  rq_attempts :: int
  rq_requested_model :: string
  rq_allowed_models :: "string list option"

definition model_allowed :: "inference_request \<Rightarrow> string \<Rightarrow> bool" where
  "model_allowed r m =
     (case rq_allowed_models r of
        None \<Rightarrow> True
      | Some ms \<Rightarrow> list_ex (\<lambda>x. x = m) ms)"

lemma model_allowed_iff:
  "model_allowed r m \<longleftrightarrow> (\<forall>ms. rq_allowed_models r = Some ms \<longrightarrow> m \<in> set ms)"
  by (auto simp: model_allowed_def list_ex_iff split: option.splits)

definition for_worker :: "inference_request \<Rightarrow> inference_request" where
  "for_worker r = r\<lparr>rq_owner := [], rq_api_key_label := [], rq_allowed_models := None\<rparr>"

record request_optimization =
  op_coalesce_normalize :: bool
  op_prefix_affinity :: bool
  op_clean_requests :: bool
  op_clean_aggressive :: bool
  op_clamp_params :: bool

section \<open>Messages between the router and a worker\<close>

record model_info =
  mi_name :: string
  mi_context_size :: int
  mi_context_train :: int
  mi_modalities :: "string list"

record model_slots =
  sl_model :: string
  sl_available :: int
  sl_total :: int
  sl_context_size :: int

record register_msg =
  rm_models :: "model_info list"
  rm_max_concurrent :: int
  rm_version :: string
  rm_kind :: string

record timings =
  tm_prompt_n :: int
  tm_prompt_ms :: rat
  tm_predicted_n :: int
  tm_predicted_ms :: rat

definition timings_usable :: "timings option \<Rightarrow> bool" where
  "timings_usable t =
     (case t of
        None \<Rightarrow> False
      | Some t \<Rightarrow> (tm_prompt_n t > 0 \<and> tm_prompt_ms t > 0)
               \<or> (tm_predicted_n t > 0 \<and> tm_predicted_ms t > 0))"

record usage_info =
  us_prompt_tokens :: int
  us_completion_tokens :: int
  us_total_tokens :: int
  us_cache_read_tokens :: int
  us_cache_creation_tokens :: int
  us_timings :: "timings option"

record chunk_msg =
  ck_request_id :: string
  ck_delta :: string
  ck_tool_calls_delta :: raw_json
  ck_reasoning_delta :: string
  ck_done :: bool
  ck_finish_reason :: string
  ck_usage :: "usage_info option"
  ck_model :: string
  ck_error :: string

record error_msg =
  em_request_id :: string
  em_message :: string
  em_final :: bool

definition release_shutdown :: string where "release_shutdown = ''client_shutdown''"
definition release_busy :: string where "release_busy = ''client_busy''"
definition feature_local_busy :: string where "feature_local_busy = ''local_busy''"
definition feature_drain :: string where "feature_drain = ''drain''"

text \<open>
  The messages the router sends a worker. The constructor is the value of the message's
  \<open>type\<close> field: \<open>JobMsg\<close>, \<open>CancelMsg\<close>, \<open>RegisteredMsg\<close>.
\<close>

datatype out_msg =
    Job_Msg inference_request
  | Cancel_Msg string
  | Registered_Msg "string list"

definition max_attempts :: int where "max_attempts = 3"

section \<open>Aliases, client snapshots and the dispatch order\<close>

record alias_target =
  at_model :: string
  at_priority :: int

record client_summary =
  cs_id :: string
  cs_owner :: string
  cs_token :: string
  cs_models :: "(string, bool) gomap"
  cs_max_concurrent :: int
  cs_in_flight :: int
  cs_local_busy :: int
  cs_context_sizes :: "(string, int) gomap"
  cs_owner_slots :: "(string, int) gomap"
  cs_modalities :: "(string, string list) gomap"

record job_ref =
  jr_owner :: string
  jr_model :: string

definition estimate_tokens :: "int \<Rightarrow> int \<Rightarrow> int" where
  "estimate_tokens word_count max_tokens =
     wrap64 (quot_trunc (wrap64 (word_count * 4)) 3 + max_tokens)"

definition better_request ::
  "inference_request \<Rightarrow> inference_request \<Rightarrow> bool \<Rightarrow> bool \<Rightarrow> bool" where
  "better_request a b a_owner_match b_owner_match =
     (if a_owner_match \<noteq> b_owner_match then a_owner_match
      else if rq_priority a \<noteq> rq_priority b then rq_priority a < rq_priority b
      else rq_enqueued_at a < rq_enqueued_at b)"

section \<open>Facts\<close>

text \<open>What a worker receives names neither the requester nor what they may use.\<close>

lemma for_worker_fields [simp]:
  "rq_id (for_worker r) = rq_id r" "rq_model (for_worker r) = rq_model r"
  "rq_messages (for_worker r) = rq_messages r" "rq_owner (for_worker r) = []"
  "rq_api_key_label (for_worker r) = []" "rq_allowed_models (for_worker r) = None"
  by (simp_all add: for_worker_def)

text \<open>A worker learns the same from two requests that differ only in who sent them.\<close>

lemma for_worker_blind:
  "for_worker (r\<lparr>rq_owner := o1, rq_api_key_label := l1, rq_allowed_models := a1\<rparr>)
     = for_worker (r\<lparr>rq_owner := o2, rq_api_key_label := l2, rq_allowed_models := a2\<rparr>)"
  by (simp add: for_worker_def)

text \<open>
  In the range where no step leaves 64 bits the estimate is the mathematical
  \<open>\<lfloor>4 w / 3\<rfloor> + m\<close>, and it is monotone there.
\<close>

lemma quot_trunc_nonneg: "0 \<le> a \<Longrightarrow> 0 < b \<Longrightarrow> quot_trunc a b = a div b"
  by (cases "a = 0") (auto simp: quot_trunc_def)

lemma estimate_tokens_exact:
  assumes "0 \<le> w" and "w < 2 ^ 61" and "0 \<le> m" and "m < 2 ^ 62"
  shows "estimate_tokens w m = w * 4 div 3 + m"
proof -
  have "in64 (w * 4)" using assms by (simp add: in64_def)
  moreover have "w * 4 div 3 < 2 ^ 62" using assms by simp
  then have "in64 (w * 4 div 3 + m)" using assms by (simp add: in64_def)
  ultimately show ?thesis using assms
    by (simp add: estimate_tokens_def wrap64_id quot_trunc_nonneg)
qed

text \<open>
  The comparison of two requests by a client's preferred owner is a strict weak order, so the
  best-of scan over it returns a maximum.
\<close>

definition owner_match :: "string \<Rightarrow> inference_request \<Rightarrow> bool" where
  "owner_match prefer_owner r \<longleftrightarrow> prefer_owner \<noteq> [] \<and> rq_owner r = prefer_owner"

interpretation request_order: choice_order
  "\<lambda>a b. better_request a b (owner_match p a) (owner_match p b)" for p
  by unfold_locales (auto simp: better_request_def split: if_splits)

interpretation tier_order: choice_order
  "\<lambda>a b. rq_priority a < rq_priority b \<or>
     (rq_priority a = rq_priority b \<and> rq_enqueued_at a < rq_enqueued_at b)"
  by unfold_locales auto

section \<open>Channels\<close>

text \<open>
  Go's buffered channels, which the response path is built of: a value is the unread elements and
  whether the channel is closed. A send on a closed channel and a second close panic.
\<close>

record 'a chan =
  cn_cap :: nat
  cn_buf :: "'a list"
  cn_closed :: bool

definition make_chan :: "nat \<Rightarrow> 'a chan" where
  "make_chan cap = \<lparr>cn_cap = cap, cn_buf = [], cn_closed = False\<rparr>"

datatype 'a sent = Sent "'a chan" | Send_Full | Send_Panic

text \<open>A send in a \<open>select\<close> with a default branch.\<close>

definition try_send :: "'a chan \<Rightarrow> 'a \<Rightarrow> 'a sent" where
  "try_send ch x =
     (if cn_closed ch then Send_Panic
      else if length (cn_buf ch) < cn_cap ch then Sent (ch\<lparr>cn_buf := cn_buf ch @ [x]\<rparr>)
      else Send_Full)"

definition close_chan :: "'a chan \<Rightarrow> 'a chan option" where
  "close_chan ch = (if cn_closed ch then None else Some (ch\<lparr>cn_closed := True\<rparr>))"

text \<open>A receive: an element, the end of a closed and drained channel, or nothing yet.\<close>

datatype 'a received = Got 'a | Ended | Nothing_Yet

definition recv_chan :: "'a chan \<Rightarrow> 'a received \<times> 'a chan" where
  "recv_chan ch =
     (case cn_buf ch of
        x # xs \<Rightarrow> (Got x, ch\<lparr>cn_buf := xs\<rparr>)
      | [] \<Rightarrow> (if cn_closed ch then Ended else Nothing_Yet, ch))"

lemma make_chan_simps [simp]:
  "cn_buf (make_chan n) = []" "\<not> cn_closed (make_chan n)" "cn_cap (make_chan n) = n"
  by (simp_all add: make_chan_def)

lemma recv_chan_cases:
  "(\<exists>x. recv_chan ch = (Got x, ch\<lparr>cn_buf := tl (cn_buf ch)\<rparr>) \<and> cn_buf ch = x # tl (cn_buf ch)) \<or>
   (cn_buf ch = [] \<and> recv_chan ch = (if cn_closed ch then Ended else Nothing_Yet, ch))"
  by (auto simp: recv_chan_def split: list.split)

end
