(* ===== verification/Request_Queue.thy ===== *)
theory Request_Queue
  imports Wire_Types
begin

text \<open>
  \<open>router/internal/queue/queue.go\<close>: the router's queue of waiting requests, a slice with an
  index by request id. Each operation runs under the queue's lock, so it is one atomic step on
  the state. \<open>Signal\<close> and the condition variable have no waiter in the program and no state.
\<close>

section \<open>State and operations\<close>

record queue =
  qu_items :: "inference_request list"
  qu_by_id :: "(string, nat) gomap"
  qu_max_depth :: int

definition queue_new :: queue where
  "queue_new = \<lparr>qu_items = [], qu_by_id = [], qu_max_depth = 0\<rparr>"

text \<open>
  \<open>pushLocked\<close>. An index the map holds is always in range (\<open>queue_wf_in_range\<close>), so the
  slice assignment of the replacing branch never panics.
\<close>

definition push_append :: "queue \<Rightarrow> inference_request \<Rightarrow> queue" where
  "push_append q req =
     q\<lparr>qu_by_id := mput (rq_id req) (length (qu_items q)) (qu_by_id q),
       qu_items := qu_items q @ [req]\<rparr>"

definition push_locked :: "queue \<Rightarrow> inference_request \<Rightarrow> queue" where
  "push_locked q req =
     (if rq_id req \<noteq> []
      then (case mget (qu_by_id q) (rq_id req) of
              Some i \<Rightarrow> q\<lparr>qu_items := (qu_items q)[i := req]\<rparr>
            | None \<Rightarrow> push_append q req)
      else push_append q req)"

text \<open>\<open>removeAt\<close>: swap-and-pop; the index entry is dropped before the moved item is re-indexed.\<close>

definition remove_at :: "queue \<Rightarrow> nat \<Rightarrow> inference_request \<times> queue" where
  "remove_at q i =
     (let items = qu_items q;
          req = items ! i;
          last_i = length items - 1;
          by_id = mdel (rq_id req) (qu_by_id q);
          moved = items ! last_i
      in (req,
          if i \<noteq> last_i
          then q\<lparr>qu_items := take last_i (items[i := moved]),
                 qu_by_id := mput (rq_id moved) i by_id\<rparr>
          else q\<lparr>qu_items := take last_i items, qu_by_id := by_id\<rparr>))"

definition push :: "queue \<Rightarrow> inference_request \<Rightarrow> queue" where
  "push q req = push_locked q req"

definition try_push :: "queue \<Rightarrow> inference_request \<Rightarrow> bool \<times> queue" where
  "try_push q req =
     (if qu_max_depth q > 0 \<and> int (length (qu_items q)) \<ge> qu_max_depth q then (False, q)
      else (True, push_locked q req))"

definition queue_len :: "queue \<Rightarrow> nat" where
  "queue_len q = length (qu_items q)"

definition can_handle ::
  "inference_request \<Rightarrow> (string, bool) gomap \<Rightarrow> (string, string list) gomap \<Rightarrow> bool" where
  "can_handle req models aliases =
     (if rq_model req = ''any''
      then list_ex (\<lambda>m. model_allowed req m) (mkeys models)
      else if get_or False models (rq_model req) \<and> model_allowed req (rq_model req) then True
      else list_ex (\<lambda>target. get_or False models target \<and> model_allowed req target)
             (get_or [] aliases (rq_model req)))"

definition pop_best_locked ::
  "queue \<Rightarrow> (string, bool) gomap \<Rightarrow> (string, string list) gomap \<Rightarrow> (inference_request \<times> queue) option"
where
  "pop_best_locked q models aliases =
     (case scan_best (\<lambda>req. can_handle req models aliases)
             (\<lambda>req best. rq_priority req < rq_priority best \<or>
                (rq_priority req = rq_priority best \<and> rq_enqueued_at req < rq_enqueued_at best))
             0 (qu_items q) None of
        None \<Rightarrow> None
      | Some (i, _) \<Rightarrow> Some (remove_at q i))"

definition pop_best ::
  "queue \<Rightarrow> (string, bool) gomap \<Rightarrow> (string, string list) gomap \<Rightarrow> (inference_request \<times> queue) option"
where
  "pop_best q models aliases = pop_best_locked q models aliases"

definition better_for_client :: "inference_request \<Rightarrow> inference_request \<Rightarrow> string \<Rightarrow> bool" where
  "better_for_client a b prefer_owner =
     better_request a b
       (prefer_owner \<noteq> [] \<and> rq_owner a = prefer_owner)
       (prefer_owner \<noteq> [] \<and> rq_owner b = prefer_owner)"

definition peek_best_for_client ::
  "queue \<Rightarrow> (string, bool) gomap \<Rightarrow> (string, string list) gomap \<Rightarrow> string \<Rightarrow>
     (string \<Rightarrow> bool) option \<Rightarrow> inference_request option"
where
  "peek_best_for_client q models aliases prefer_owner eligible =
     map_option snd
       (scan_best
          (\<lambda>req. can_handle req models aliases \<and>
             (case eligible of None \<Rightarrow> True | Some f \<Rightarrow> f (rq_owner req)))
          (\<lambda>a b. better_for_client a b prefer_owner)
          0 (qu_items q) None)"

definition pop_by_id :: "queue \<Rightarrow> string \<Rightarrow> (inference_request \<times> queue) option" where
  "pop_by_id q rid =
     (case mget (qu_by_id q) rid of
        None \<Rightarrow> None
      | Some i \<Rightarrow> Some (remove_at q i))"

definition queue_snapshot :: "queue \<Rightarrow> inference_request list" where
  "queue_snapshot q = qu_items q"

definition queue_drain :: "queue \<Rightarrow> inference_request list \<times> queue" where
  "queue_drain q = (qu_items q, q\<lparr>qu_items := [], qu_by_id := []\<rparr>)"

section \<open>The index invariant\<close>

text \<open>
  The index is exact: it maps an id to the position that holds the request with that id. It
  follows that ids are unique and that every indexed position is in range.
\<close>

definition queue_wf :: "queue \<Rightarrow> bool" where
  "queue_wf q \<longleftrightarrow> wf_map (qu_by_id q) \<and>
     (\<forall>rid i. mget (qu_by_id q) rid = Some i \<longleftrightarrow>
        i < length (qu_items q) \<and> rq_id (qu_items q ! i) = rid)"

abbreviation queue_ids :: "queue \<Rightarrow> string set" where
  "queue_ids q \<equiv> rq_id ` set (qu_items q)"

text \<open>The abstract content of a queue: which request is waiting under an id.\<close>

definition queue_content :: "queue \<Rightarrow> string \<Rightarrow> inference_request option" where
  "queue_content q rid = map_option (\<lambda>i. qu_items q ! i) (mget (qu_by_id q) rid)"

lemma queue_wf_in_range:
  "queue_wf q \<Longrightarrow> mget (qu_by_id q) rid = Some i \<Longrightarrow>
     i < length (qu_items q) \<and> rq_id (qu_items q ! i) = rid"
  by (simp add: queue_wf_def)

lemma queue_wf_index:
  "queue_wf q \<Longrightarrow> i < length (qu_items q) \<Longrightarrow> mget (qu_by_id q) (rq_id (qu_items q ! i)) = Some i"
  by (simp add: queue_wf_def)

lemma queue_wf_inj:
  "queue_wf q \<Longrightarrow> i < length (qu_items q) \<Longrightarrow> j < length (qu_items q) \<Longrightarrow>
     rq_id (qu_items q ! i) = rq_id (qu_items q ! j) \<Longrightarrow> i = j"
  using queue_wf_index by (metis option.inject)

lemma queue_wf_distinct: "queue_wf q \<Longrightarrow> distinct (map rq_id (qu_items q))"
  by (auto simp: distinct_conv_nth intro: queue_wf_inj)

lemma queue_content_iff:
  assumes "queue_wf q"
  shows "queue_content q rid = Some r \<longleftrightarrow> r \<in> set (qu_items q) \<and> rq_id r = rid"
  using assms
  by (auto simp: queue_content_def in_set_conv_nth queue_wf_index dest: queue_wf_in_range)

lemma queue_content_None:
  assumes "queue_wf q"
  shows "queue_content q rid = None \<longleftrightarrow> rid \<notin> queue_ids q"
proof -
  have "rid \<notin> queue_ids q \<longleftrightarrow> (\<forall>r. queue_content q rid \<noteq> Some r)"
    using queue_content_iff [OF assms] by auto
  then show ?thesis by simp
qed

lemma queue_content_rq_id: "queue_wf q \<Longrightarrow> queue_content q rid = Some r \<Longrightarrow> rq_id r = rid"
  by (simp add: queue_content_iff)

lemma queue_wf_new: "queue_wf queue_new"
  by (simp add: queue_wf_def queue_new_def)

lemma push_append_wf:
  assumes "queue_wf q" and "rq_id req \<notin> queue_ids q"
  shows "queue_wf (push_append q req)"
proof -
  have "mget (qu_by_id q) (rq_id req) = None"
    using assms queue_content_None [OF assms(1), of "rq_id req"] by (simp add: queue_content_def)
  moreover have "rq_id (qu_items q ! i) \<noteq> rq_id req" if "i < length (qu_items q)" for i
    using assms(2) that by (metis image_eqI nth_mem)
  ultimately show ?thesis using assms(1)
    by (auto simp: queue_wf_def push_append_def gomap_simps nth_append)
qed

lemma push_locked_cases:
  assumes "queue_wf q" and "rq_id req \<noteq> []"
  obtains (replace) i where "mget (qu_by_id q) (rq_id req) = Some i" "i < length (qu_items q)"
      "rq_id (qu_items q ! i) = rq_id req"
      "push_locked q req = q\<lparr>qu_items := (qu_items q)[i := req]\<rparr>"
    | (append) "rq_id req \<notin> queue_ids q" "mget (qu_by_id q) (rq_id req) = None"
      "push_locked q req = push_append q req"
proof (cases "mget (qu_by_id q) (rq_id req)")
  case None
  then have "rq_id req \<notin> queue_ids q"
    using queue_content_None [OF assms(1), of "rq_id req"] by (simp add: queue_content_def)
  with None assms(2) show thesis by (intro append) (simp_all add: push_locked_def)
next
  case (Some i)
  with assms show thesis
    by (intro replace [of i]) (auto simp: push_locked_def dest: queue_wf_in_range)
qed

lemma push_locked_wf [inv_intros]:
  assumes "queue_wf q" and "rq_id req \<noteq> []"
  shows "queue_wf (push_locked q req)"
proof (cases rule: push_locked_cases [OF assms])
  case 1
  then show ?thesis using assms(1)
    by (auto simp: queue_wf_def nth_list_update)
next
  case 2
  then show ?thesis using push_append_wf assms(1) by simp
qed

lemma push_locked_content:
  assumes "queue_wf q" and "rq_id req \<noteq> []"
  shows "queue_content (push_locked q req) = (queue_content q)(rq_id req \<mapsto> req)"
proof (cases rule: push_locked_cases [OF assms])
  case (1 i)
  have "k \<noteq> i" if "mget (qu_by_id q) rid = Some k" "rid \<noteq> rq_id req" for k rid
    using that 1 queue_wf_in_range [OF assms(1)] by metis
  then show ?thesis using 1
    by (auto simp: queue_content_def fun_eq_iff map_option_case nth_list_update split: option.split)
next
  case 2
  then show ?thesis using queue_wf_in_range [OF assms(1)]
    by (auto simp: push_append_def queue_content_def fun_eq_iff map_option_case gomap_simps nth_append
        split: option.split)
qed

lemma push_locked_items:
  assumes "queue_wf q" and "rq_id req \<noteq> []"
  shows "set (qu_items (push_locked q req)) =
    insert req {r \<in> set (qu_items q). rq_id r \<noteq> rq_id req}"
proof -
  have "x \<in> set (qu_items (push_locked q req)) \<longleftrightarrow>
      x \<in> insert req {r \<in> set (qu_items q). rq_id r \<noteq> rq_id req}" for x
    using queue_content_iff [OF push_locked_wf [OF assms], of "rq_id x" x]
      queue_content_iff [OF assms(1), of "rq_id x" x]
    by (auto simp: push_locked_content [OF assms] split: if_splits)
  then show ?thesis by blast
qed

lemma push_locked_max_depth [simp]: "qu_max_depth (push_locked q req) = qu_max_depth q"
  by (simp add: push_locked_def push_append_def split: option.split)

text \<open>The shape \<open>removeAt\<close> leaves: the removed position is filled with the last element.\<close>

lemma remove_at_items:
  assumes "i < length (qu_items q)"
  shows "qu_items (snd (remove_at q i)) =
    take (length (qu_items q) - 1) ((qu_items q)[i := qu_items q ! (length (qu_items q) - 1)])"
  using assms by (auto simp: remove_at_def Let_def)

lemma remove_at_nth:
  assumes "i < length (qu_items q)" and "k < length (qu_items q) - 1"
  shows "qu_items (snd (remove_at q i)) ! k =
    (if k = i then qu_items q ! (length (qu_items q) - 1) else qu_items q ! k)"
  using assms by (simp add: remove_at_items)

lemma remove_at_length:
  "i < length (qu_items q) \<Longrightarrow> length (qu_items (snd (remove_at q i))) = length (qu_items q) - 1"
  by (simp add: remove_at_items)

lemma remove_at_fst: "fst (remove_at q i) = qu_items q ! i"
  by (simp add: remove_at_def Let_def)

lemma remove_at_by_id:
  "mget (qu_by_id (snd (remove_at q i))) rid =
    (let l = length (qu_items q) - 1 in
     if i \<noteq> l \<and> rid = rq_id (qu_items q ! l) then Some i
     else if rid = rq_id (qu_items q ! i) then None
     else mget (qu_by_id q) rid)"
  by (simp add: remove_at_def Let_def gomap_simps)

lemma remove_at_wf [inv_intros]:
  assumes wf: "queue_wf q" and i: "i < length (qu_items q)"
  shows "queue_wf (snd (remove_at q i))"
proof -
  let ?l = "length (qu_items q) - 1"
  let ?q = "snd (remove_at q i)"
  have l: "?l < length (qu_items q)" using i by simp
  have "wf_map (qu_by_id ?q)"
    using wf by (simp add: queue_wf_def remove_at_def Let_def)
  moreover have "mget (qu_by_id ?q) rid = Some k \<longleftrightarrow>
      k < length (qu_items ?q) \<and> rq_id (qu_items ?q ! k) = rid" for rid k
  proof (cases "k < ?l")
    case True
    then have k: "k < length (qu_items q)" "k \<noteq> ?l" using l by auto
    have last_k: "rq_id (qu_items q ! ?l) \<noteq> rq_id (qu_items q ! k)"
      using queue_wf_inj [OF wf k(1) l] k(2) by auto
    have old: "mget (qu_by_id q) rid = Some k \<longleftrightarrow> rq_id (qu_items q ! k) = rid"
      using queue_wf_index [OF wf k(1)] queue_wf_in_range [OF wf, of rid k] by auto
    show ?thesis
    proof (cases "k = i")
      case same: True
      then show ?thesis using True old l
        by (auto simp: remove_at_by_id remove_at_nth [OF i] remove_at_length [OF i] Let_def)
    next
      case other: False
      then have "rq_id (qu_items q ! i) \<noteq> rq_id (qu_items q ! k)"
        using queue_wf_inj [OF wf k(1) i] by auto
      then show ?thesis using True other old last_k
        by (auto simp: remove_at_by_id remove_at_nth [OF i] remove_at_length [OF i] Let_def)
    qed
  next
    case False
    then have "\<not> k < length (qu_items ?q)" using remove_at_length [OF i] by simp
    moreover have "k < length (qu_items q) \<Longrightarrow> k = ?l" using False by simp
    then have "mget (qu_by_id ?q) rid \<noteq> Some k"
      using False queue_wf_in_range [OF wf, of rid k] i l
      by (auto simp: remove_at_by_id Let_def)
    ultimately show ?thesis by blast
  qed
  ultimately show ?thesis by (simp add: queue_wf_def)
qed

lemma remove_at_content:
  assumes wf: "queue_wf q" and i: "i < length (qu_items q)"
  shows "queue_content (snd (remove_at q i)) = (queue_content q)(rq_id (qu_items q ! i) := None)"
proof
  fix rid
  let ?l = "length (qu_items q) - 1"
  have l: "?l < length (qu_items q)" using i by simp
  show "queue_content (snd (remove_at q i)) rid =
      ((queue_content q)(rq_id (qu_items q ! i) := None)) rid"
  proof (cases "rid = rq_id (qu_items q ! i) \<or> mget (qu_by_id q) rid = None")
    case True
    then show ?thesis using queue_wf_index [OF wf l] queue_wf_inj [OF wf i l]
      by (auto simp: queue_content_def remove_at_by_id Let_def)
  next
    case False
    then obtain k where k: "mget (qu_by_id q) rid = Some k" by blast
    from queue_wf_in_range [OF wf k] have r: "k < length (qu_items q)" "rq_id (qu_items q ! k) = rid"
      by auto
    show ?thesis
    proof (cases "k = ?l")
      case True
      with False k r i show ?thesis
        by (auto simp: queue_content_def remove_at_by_id Let_def remove_at_nth [OF i])
    next
      case k_l: False
      with r queue_wf_inj [OF wf r(1) l] have "rid \<noteq> rq_id (qu_items q ! ?l)" by auto
      with False k k_l r show ?thesis
        by (auto simp: queue_content_def remove_at_by_id Let_def remove_at_nth [OF i])
    qed
  qed
qed

lemma remove_at_max_depth [simp]: "qu_max_depth (snd (remove_at q i)) = qu_max_depth q"
  by (simp add: remove_at_def Let_def)

section \<open>What the operations return\<close>

lemma pop_by_id_None:
  assumes "queue_wf q"
  shows "pop_by_id q rid = None \<longleftrightarrow> rid \<notin> queue_ids q"
  using queue_content_None [OF assms, of rid]
  by (cases "mget (qu_by_id q) rid") (simp_all add: pop_by_id_def queue_content_def)

lemma pop_by_id_absent: "queue_content q rid = None \<Longrightarrow> pop_by_id q rid = None"
  by (simp add: pop_by_id_def queue_content_def)

lemma pop_by_id_Some:
  assumes wf: "queue_wf q" and pop: "pop_by_id q rid = Some (r, q')"
  shows "queue_content q rid = Some r" and "rq_id r = rid" and "r \<in> set (qu_items q)"
    and "queue_wf q'" and "queue_content q' = (queue_content q)(rid := None)"
    and "queue_len q' < queue_len q" and "queue_len q = Suc (queue_len q')"
    and "qu_max_depth q' = qu_max_depth q"
proof -
  from pop obtain i where i: "mget (qu_by_id q) rid = Some i" and rem: "remove_at q i = (r, q')"
    by (auto simp: pop_by_id_def split: option.splits)
  from queue_wf_in_range [OF wf i] have l: "i < length (qu_items q)" and id: "rq_id (qu_items q ! i) = rid"
    by auto
  have r: "r = qu_items q ! i" and q': "q' = snd (remove_at q i)"
    using rem remove_at_fst [of q i] by auto
  show "queue_content q rid = Some r" using i r by (simp add: queue_content_def)
  show "rq_id r = rid" using id r by simp
  show "r \<in> set (qu_items q)" using l r by simp
  show "queue_wf q'" using remove_at_wf [OF wf l] q' by simp
  show "queue_content q' = (queue_content q)(rid := None)"
    using remove_at_content [OF wf l] q' id by simp
  show "queue_len q' < queue_len q" "queue_len q = Suc (queue_len q')"
    using remove_at_length [OF l] q' l by (auto simp: queue_len_def)
  show "qu_max_depth q' = qu_max_depth q" using q' by simp
qed

lemma pop_by_id_items:
  assumes wf: "queue_wf q" and pop: "pop_by_id q rid = Some (r, q')"
  shows "set (qu_items q') = {x \<in> set (qu_items q). rq_id x \<noteq> rid}"
proof -
  have "x \<in> set (qu_items q') \<longleftrightarrow> x \<in> {x \<in> set (qu_items q). rq_id x \<noteq> rid}" for x
    using queue_content_iff [OF pop_by_id_Some(4) [OF wf pop], of "rq_id x" x]
      queue_content_iff [OF wf, of "rq_id x" x] pop_by_id_Some(5) [OF wf pop]
    by (auto split: if_splits)
  then show ?thesis by blast
qed

lemma pop_by_id_total:
  assumes "queue_wf q" and "r \<in> set (qu_items q)"
  shows "\<exists>q'. pop_by_id q (rq_id r) = Some (r, q')"
proof (cases "pop_by_id q (rq_id r)")
  case None
  then show ?thesis using pop_by_id_None [OF assms(1)] assms(2) by auto
next
  case (Some p)
  obtain r' q' where "p = (r', q')" by fastforce
  with Some have pop: "pop_by_id q (rq_id r) = Some (r', q')" by simp
  have "queue_content q (rq_id r) = Some r"
    using assms by (simp add: queue_content_iff)
  with pop_by_id_Some(1) [OF assms(1) pop] have "r' = r" by simp
  with pop show ?thesis by blast
qed

text \<open>Which requests a client may be offered, and the order in which they are.\<close>

definition offered ::
  "(string, bool) gomap \<Rightarrow> (string, string list) gomap \<Rightarrow> (string \<Rightarrow> bool) option \<Rightarrow>
     inference_request \<Rightarrow> bool"
where
  "offered models aliases eligible req \<longleftrightarrow> can_handle req models aliases \<and>
     (case eligible of None \<Rightarrow> True | Some f \<Rightarrow> f (rq_owner req))"

lemma better_for_client_eq:
  "better_for_client a b p = better_request a b (owner_match p a) (owner_match p b)"
  by (simp add: better_for_client_def owner_match_def)

lemma peek_unfold:
  "peek_best_for_client q models aliases p eligible =
     map_option snd (scan_best (offered models aliases eligible)
       (\<lambda>a b. better_request a b (owner_match p a) (owner_match p b)) 0 (qu_items q) None)"
proof -
  have "(\<lambda>req. can_handle req models aliases \<and>
           (case eligible of None \<Rightarrow> True | Some f \<Rightarrow> f (rq_owner req))) = offered models aliases eligible"
    by (simp add: offered_def fun_eq_iff)
  then show ?thesis by (simp add: peek_best_for_client_def better_for_client_eq)
qed

lemma peek_Some:
  assumes "peek_best_for_client q models aliases p eligible = Some r"
  shows "r \<in> set (qu_items q)" and "offered models aliases eligible r"
    and "\<And>x. x \<in> set (qu_items q) \<Longrightarrow> offered models aliases eligible x \<Longrightarrow>
           \<not> better_for_client x r p"
proof -
  from assms obtain i where sc: "scan_best (offered models aliases eligible)
       (\<lambda>a b. better_request a b (owner_match p a) (owner_match p b)) 0 (qu_items q) None = Some (i, r)"
    by (auto simp: peek_unfold)
  show "r \<in> set (qu_items q)" and "offered models aliases eligible r"
    using scan_best_nth [OF sc] by blast+
  show "\<not> better_for_client x r p"
    if "x \<in> set (qu_items q)" "offered models aliases eligible x" for x
    using request_order.scan_maximal [OF sc that] by (simp add: better_for_client_eq)
qed

lemma peek_None_iff:
  "peek_best_for_client q models aliases p eligible = None \<longleftrightarrow>
     (\<forall>r \<in> set (qu_items q). \<not> offered models aliases eligible r)"
  by (simp add: peek_unfold scan_best_None)

lemma pop_best_Some:
  assumes "pop_best q models aliases = Some (r, q')"
  shows "\<exists>i < length (qu_items q). qu_items q ! i = r \<and> q' = snd (remove_at q i)"
    and "can_handle r models aliases"
    and "\<And>x. x \<in> set (qu_items q) \<Longrightarrow> can_handle x models aliases \<Longrightarrow>
           rq_priority r < rq_priority x \<or>
           (rq_priority r = rq_priority x \<and> rq_enqueued_at r \<le> rq_enqueued_at x)"
proof -
  from assms obtain i y where sc: "scan_best (\<lambda>req. can_handle req models aliases)
             (\<lambda>req best. rq_priority req < rq_priority best \<or>
                (rq_priority req = rq_priority best \<and> rq_enqueued_at req < rq_enqueued_at best))
             0 (qu_items q) None = Some (i, y)" and rem: "remove_at q i = (r, q')"
    by (auto simp: pop_best_def pop_best_locked_def split: option.splits)
  note nth = scan_best_nth [OF sc]
  have r: "r = y" using rem remove_at_fst [of q i] nth by simp
  have "q' = snd (remove_at q i)" using rem by simp
  then show "\<exists>i < length (qu_items q). qu_items q ! i = r \<and> q' = snd (remove_at q i)"
    using nth r by blast
  show "can_handle r models aliases" using nth r by simp
  show "rq_priority r < rq_priority x \<or>
      (rq_priority r = rq_priority x \<and> rq_enqueued_at r \<le> rq_enqueued_at x)"
    if "x \<in> set (qu_items q)" "can_handle x models aliases" for x
    using tier_order.scan_maximal [OF sc that] r by auto
qed

section \<open>The interface the scheduler relies on\<close>

text \<open>
  \<open>JobQueue\<close> of \<open>router/internal/scheduler/scheduler.go\<close>: the three methods the dispatch
  loop calls, with the laws it needs. \<open>content\<close> is what waits under an id and \<open>measure\<close>
  how much waits.
\<close>

locale job_queue =
  fixes peek :: "'q \<Rightarrow> (string, bool) gomap \<Rightarrow> (string, string list) gomap \<Rightarrow> string \<Rightarrow>
      (string \<Rightarrow> bool) option \<Rightarrow> inference_request option"
    and pop :: "'q \<Rightarrow> string \<Rightarrow> (inference_request \<times> 'q) option"
    and put :: "'q \<Rightarrow> inference_request \<Rightarrow> 'q"
    and content :: "'q \<Rightarrow> string \<Rightarrow> inference_request option"
    and measure_of :: "'q \<Rightarrow> nat"
    and ok :: "'q \<Rightarrow> bool"
  assumes peek_content: "ok q \<Longrightarrow> peek q m a p e = Some r \<Longrightarrow> content q (rq_id r) = Some r"
    and peek_offered: "ok q \<Longrightarrow> peek q m a p e = Some r \<Longrightarrow> offered m a e r"
    and peek_best: "ok q \<Longrightarrow> peek q m a p e = Some r \<Longrightarrow> content q k = Some x \<Longrightarrow>
      offered m a e x \<Longrightarrow> \<not> better_for_client x r p"
    and peek_none: "ok q \<Longrightarrow> peek q m a p e = None \<Longrightarrow> content q k = Some x \<Longrightarrow> \<not> offered m a e x"
    and pop_content: "ok q \<Longrightarrow> content q k = Some r \<Longrightarrow> \<exists>q'. pop q k = Some (r, q')"
    and pop_none: "ok q \<Longrightarrow> content q k = None \<Longrightarrow> pop q k = None"
    and pop_removes: "ok q \<Longrightarrow> pop q k = Some (r, q') \<Longrightarrow> content q' = (content q)(k := None)"
    and pop_ok: "ok q \<Longrightarrow> pop q k = Some (r, q') \<Longrightarrow> ok q'"
    and pop_smaller: "ok q \<Longrightarrow> pop q k = Some (r, q') \<Longrightarrow> measure_of q' < measure_of q"
    and put_content: "ok q \<Longrightarrow> rq_id r \<noteq> [] \<Longrightarrow> content (put q r) = (content q)(rq_id r \<mapsto> r)"
    and put_ok: "ok q \<Longrightarrow> rq_id r \<noteq> [] \<Longrightarrow> ok (put q r)"
    and content_id: "ok q \<Longrightarrow> content q k = Some r \<Longrightarrow> rq_id r = k"
begin

lemma pop_result:
  assumes "ok q" and "pop q k = Some (r, q')"
  shows "content q k = Some r"
proof (cases "content q k")
  case None
  then show ?thesis using pop_none assms by simp
next
  case (Some r2)
  then show ?thesis using pop_content [OF assms(1) Some] assms(2) by auto
qed

text \<open>Whatever the selection returns can be removed, and the removal returns the same request.\<close>

lemma peek_pop:
  assumes "ok q" and "peek q m a p e = Some r"
  obtains q' where "pop q (rq_id r) = Some (r, q')" "ok q'"
    "content q' = (content q)(rq_id r := None)" "measure_of q' < measure_of q"
proof -
  from pop_content [OF assms(1) peek_content [OF assms]]
  obtain q' where pop: "pop q (rq_id r) = Some (r, q')" by blast
  show thesis
    using that [OF pop pop_ok [OF assms(1) pop] pop_removes [OF assms(1) pop]
        pop_smaller [OF assms(1) pop]] .
qed

text \<open>Putting a popped request back under its id restores what waits.\<close>

lemma pop_put:
  assumes "ok q" and "pop q k = Some (r, q')" and "rq_id r2 = k" and "k \<noteq> []"
  shows "content (put q' r2) = (content q)(k \<mapsto> r2)" and "ok (put q' r2)"
  using put_content [OF pop_ok [OF assms(1,2)], of r2] pop_removes [OF assms(1,2)]
    put_ok [OF pop_ok [OF assms(1,2)], of r2] assms(3,4) by auto

end

interpretation jobs: job_queue peek_best_for_client pop_by_id push queue_content queue_len queue_wf
  by unfold_locales
    (auto simp: queue_content_iff peek_None_iff push_def push_locked_content
      intro: peek_Some(1,2) pop_by_id_total pop_by_id_Some(4) push_locked_wf pop_by_id_absent
      dest: peek_Some(3) pop_by_id_Some(5,6))

end
