(* ===== verification/Queue_Properties.thy ===== *)
theory Queue_Properties
  imports Request_Queue
begin

text \<open>
  What the queue promises: seen from outside it is a map from ids to waiting requests with a
  depth limit, the selection returns the request the dispatch order puts first, and what is
  selected can be taken out. Requests without an id are the exception the last section shows.
\<close>

section \<open>The queue as a map\<close>

datatype queue_op =
    Op_Push inference_request
  | Op_Try_Push inference_request
  | Op_Pop string
  | Op_Drain

datatype queue_res =
    Res_Unit
  | Res_Accepted bool
  | Res_Popped "inference_request option"
  | Res_Drained "inference_request set"

fun queue_step :: "queue \<Rightarrow> queue_op \<Rightarrow> queue \<times> queue_res" where
  "queue_step q (Op_Push r) = (push q r, Res_Unit)"
| "queue_step q (Op_Try_Push r) = (case try_push q r of (b, q') \<Rightarrow> (q', Res_Accepted b))"
| "queue_step q (Op_Pop rid) =
     (case pop_by_id q rid of None \<Rightarrow> (q, Res_Popped None) | Some (r, q') \<Rightarrow> (q', Res_Popped (Some r)))"
| "queue_step q Op_Drain = (case queue_drain q of (rs, q') \<Rightarrow> (q', Res_Drained (set rs)))"

text \<open>The abstract queue: what waits under each id, and the limit.\<close>

type_synonym queue_spec = "(string \<Rightarrow> inference_request option) \<times> int"

fun spec_step :: "queue_spec \<Rightarrow> queue_op \<Rightarrow> queue_spec \<times> queue_res" where
  "spec_step (m, d) (Op_Push r) = ((m(rq_id r \<mapsto> r), d), Res_Unit)"
| "spec_step (m, d) (Op_Try_Push r) =
     (if d > 0 \<and> int (card (dom m)) \<ge> d then ((m, d), Res_Accepted False)
      else ((m(rq_id r \<mapsto> r), d), Res_Accepted True))"
| "spec_step (m, d) (Op_Pop rid) = ((m(rid := None), d), Res_Popped (m rid))"
| "spec_step (m, d) Op_Drain = ((Map.empty, d), Res_Drained (ran m))"

fun run_steps :: "('s \<Rightarrow> queue_op \<Rightarrow> 's \<times> queue_res) \<Rightarrow> 's \<Rightarrow> queue_op list \<Rightarrow> 's \<times> queue_res list" where
  "run_steps f s [] = (s, [])"
| "run_steps f s (x # xs) =
     (case f s x of (s', r) \<Rightarrow> (case run_steps f s' xs of (s'', rs) \<Rightarrow> (s'', r # rs)))"

fun op_has_id :: "queue_op \<Rightarrow> bool" where
  "op_has_id (Op_Push r) = (rq_id r \<noteq> [])"
| "op_has_id (Op_Try_Push r) = (rq_id r \<noteq> [])"
| "op_has_id _ = True"

definition queue_abs :: "queue \<Rightarrow> queue_spec" where
  "queue_abs q = (queue_content q, qu_max_depth q)"

lemma content_dom: "queue_wf q \<Longrightarrow> dom (queue_content q) = queue_ids q"
  by (auto simp: dom_def queue_content_iff)

lemma content_ran: "queue_wf q \<Longrightarrow> ran (queue_content q) = set (qu_items q)"
  by (auto simp: ran_def queue_content_iff)

lemma content_card: "queue_wf q \<Longrightarrow> card (dom (queue_content q)) = queue_len q"
  using distinct_card [OF queue_wf_distinct] by (simp add: content_dom queue_len_def)

lemma queue_step_refines:
  assumes wf: "queue_wf q" and id: "op_has_id x" and step: "queue_step q x = (q', res)"
  shows "queue_wf q' \<and> spec_step (queue_abs q) x = (queue_abs q', res)"
proof (cases x)
  case (Op_Push r)
  then show ?thesis using wf id step
    by (auto simp: queue_abs_def push_def push_locked_content push_locked_wf)
next
  case (Op_Try_Push r)
  then show ?thesis using wf id step content_card [OF wf]
    by (auto simp: queue_abs_def try_push_def queue_len_def push_locked_content push_locked_wf
        split: if_splits)
next
  case (Op_Pop rid)
  show ?thesis
  proof (cases "pop_by_id q rid")
    case None
    then have "queue_content q rid = None"
      using pop_by_id_None [OF wf] queue_content_None [OF wf] by blast
    then show ?thesis using Op_Pop None wf step by (auto simp: queue_abs_def)
  next
    case (Some p)
    obtain r q'' where p: "p = (r, q'')" by fastforce
    note f = pop_by_id_Some [OF wf Some [unfolded p]]
    show ?thesis using Op_Pop Some p step f by (auto simp: queue_abs_def)
  qed
next
  case Op_Drain
  have "queue_content (q\<lparr>qu_items := [], qu_by_id := []\<rparr>) = Map.empty"
    by (simp add: queue_content_def fun_eq_iff)
  then show ?thesis using Op_Drain wf step content_ran [OF wf]
    by (auto simp: queue_abs_def queue_drain_def queue_wf_def)
qed

text \<open>
  C9. The queue is a map from request ids to waiting requests with a depth limit: on any
  sequence of Push, TryPush, PopByID and Drain with non-empty ids, every result is the map's and
  the final contents agree, whatever swap-and-pop does to the positions.
\<close>

theorem queue_refines_map:
  assumes "queue_wf q" and "list_all op_has_id ops"
  shows "queue_wf (fst (run_steps queue_step q ops)) \<and>
    queue_abs (fst (run_steps queue_step q ops)) = fst (run_steps spec_step (queue_abs q) ops) \<and>
    snd (run_steps queue_step q ops) = snd (run_steps spec_step (queue_abs q) ops)"
  using assms
proof (induction ops arbitrary: q)
  case Nil
  then show ?case by simp
next
  case (Cons x ops)
  obtain q' res where step: "queue_step q x = (q', res)" by fastforce
  from queue_step_refines [OF Cons.prems(1) _ step] Cons.prems(2)
  have q': "queue_wf q'" "spec_step (queue_abs q) x = (queue_abs q', res)" by simp_all
  from Cons.IH [OF q'(1)] Cons.prems(2) show ?case
    by (simp add: step q'(2) case_prod_beta)
qed

section \<open>Selection\<close>

text \<open>
  PeekBestForClient returns the request the dispatch order puts first for the client: it
  waits, the client may be offered it, no other waiting request that may be offered beats it
  (owner affinity, then priority, then time of arrival), and any one that stands before it in the
  queue is strictly worse; it returns nothing only when nothing may be offered.
\<close>

theorem peek_returns_first:
  "case peek_best_for_client q models aliases p eligible of
     None \<Rightarrow> \<not> list_ex (offered models aliases eligible) (qu_items q)
   | Some r \<Rightarrow> \<exists>i < length (qu_items q). qu_items q ! i = r \<and> offered models aliases eligible r \<and>
       list_all (\<lambda>x. offered models aliases eligible x \<longrightarrow> \<not> better_for_client x r p) (qu_items q) \<and>
       list_all (\<lambda>x. offered models aliases eligible x \<longrightarrow> better_for_client r x p) (take i (qu_items q))"
proof (cases "peek_best_for_client q models aliases p eligible")
  case None
  then have "\<not> list_ex (offered models aliases eligible) (qu_items q)"
    by (simp add: peek_None_iff list_ex_iff)
  with None show ?thesis by simp
next
  case (Some r)
  then obtain i where sc: "scan_best (offered models aliases eligible)
       (\<lambda>a b. better_request a b (owner_match p a) (owner_match p b)) 0 (qu_items q) None = Some (i, r)"
    by (auto simp: peek_unfold)
  note nth = scan_best_nth [OF sc]
  have "better_for_client r x p" if x: "x \<in> set (take i (qu_items q))" "offered models aliases eligible x" for x
  proof -
    from x(1) obtain l where l: "l < i" "l < length (qu_items q)" "qu_items q ! l = x"
      by (auto simp: in_set_conv_nth)
    with request_order.scan_earliest [OF sc l(1) _ l(2)] x(2) show ?thesis
      by (simp add: better_for_client_eq)
  qed
  then show ?thesis
    using Some nth peek_Some(3) [OF Some] by (auto simp: list_all_iff)
qed

text \<open>
  What the selection returns can be taken out: on a well-formed queue PopByID under the id of
  the request PeekBestForClient returned hands over that very request and leaves the rest.
\<close>

theorem peek_then_pop:
  assumes "queue_wf q" and "peek_best_for_client q models aliases p eligible = Some r"
  shows "\<exists>q'. pop_by_id q (rq_id r) = Some (r, q') \<and> queue_wf q' \<and>
    queue_content q' = (queue_content q)(rq_id r := None) \<and> queue_len q = Suc (queue_len q')"
  using jobs.peek_pop [OF assms] pop_by_id_Some(7) [OF assms(1)] by metis

text \<open>
  Without ids the index is not exact: after two pushes of requests with an empty id and one
  PopByID, a request is left that the selection still offers and PopByID cannot remove.
\<close>

theorem empty_id_strands_request:
  "\<exists>q r q'. q = push (push queue_new r) r \<and> pop_by_id q (rq_id r) = Some (r, q') \<and>
     peek_best_for_client q' [(rq_model r, True)] [] [] None = Some r \<and>
     pop_by_id q' (rq_id r) = None"
proof -
  let ?r = "\<lparr>rq_id = [], rq_model = ''m'', rq_messages = [], rq_max_tokens = 0,
     rq_temperature = None, rq_top_p = None, rq_stop = [], rq_stream = False, rq_tools = [],
     rq_tool_choice = [], rq_source_fmt = [], rq_priority = 1, rq_owner = [],
     rq_api_key_label = [], rq_word_count = 0, rq_modalities = [], rq_enqueued_at = 0,
     rq_attempts = 0, rq_requested_model = [], rq_allowed_models = None\<rparr>"
  let ?p = "the (pop_by_id (push (push queue_new ?r) ?r) (rq_id ?r))"
  have "pop_by_id (push (push queue_new ?r) ?r) (rq_id ?r) = Some (?r, snd ?p) \<and>
      peek_best_for_client (snd ?p) [(rq_model ?r, True)] [] [] None = Some ?r \<and>
      pop_by_id (snd ?p) (rq_id ?r) = None"
    by (simp add: push_def push_locked_def push_append_def queue_new_def pop_by_id_def remove_at_def
        peek_best_for_client_def can_handle_def get_or_def model_allowed_def Let_def)
  then show ?thesis by blast
qed

end
