(* ===== verification/Hub.thy ===== *)
theory Hub
  imports Wire_Types
begin

text \<open>
  \<open>router/internal/hub/hub.go\<close>, the registry of connected workers and of the jobs they hold:
  its state, the counters, and the operations that track, untrack, cancel and expire jobs.
  Message handling is in \<open>Hub_Dispatch\<close>, the read-only reports in \<open>Hub_Views\<close>.

  Each operation is one atomic step of the state, as its lock makes it; what it tells the rest
  of the router (the \<open>On...\<close> callbacks, the latency and performance recorders) is the list of
  events it returns, in the order of the calls. \<open>json.Marshal\<close> is taken to succeed: each raw
  field of a request was itself read by a JSON decoder. The per-client counters are Go's
  \<open>atomic.Int32\<close>, hence 32-bit words.
\<close>

section \<open>Origin check\<close>

text \<open>\<open>indexStr\<close>: the first index at which the substring starts.\<close>

fun index_str :: "string \<Rightarrow> string \<Rightarrow> nat option" where
  "index_str [] p = (if p = [] then Some 0 else None)"
| "index_str (x # xs) p =
     (if has_prefix (x # xs) p then Some 0 else map_option Suc (index_str xs p))"

record scheme_host =
  sh_scheme :: string
  sh_host :: string

definition parse_origin :: "string \<Rightarrow> scheme_host option" where
  "parse_origin origin =
     (case index_str origin ''://'' of
        None \<Rightarrow> None
      | Some idx \<Rightarrow>
          (let scheme = take idx origin; rest = drop (idx + length ''://'') origin
           in if scheme = [] \<or> rest = [] then None
              else Some \<lparr>sh_scheme = scheme, sh_host = rest\<rparr>))"

definition is_valid_origin :: "string \<Rightarrow> string \<Rightarrow> bool" where
  "is_valid_origin origin host =
     (if origin = [] then True
      else (case parse_origin origin of None \<Rightarrow> False | Some u \<Rightarrow> sh_host u = host))"

section \<open>State\<close>

record client =
  cl_id :: string
  cl_send :: "out_msg list"
  cl_models :: "(string, bool) gomap option"
  cl_context_sizes :: "(string, int) gomap"
  cl_context_train_sizes :: "(string, int) gomap"
  cl_modalities :: "(string, string list) gomap"
  cl_max_concurrent :: int
  cl_in_flight :: "32 word"
  cl_local_busy :: "32 word"
  cl_draining :: bool
  cl_name :: string
  cl_owner :: string
  cl_token :: string
  cl_version :: string
  cl_kind :: string
  cl_owner_slots :: "(string, int) gomap"
  cl_send_closed :: bool
  cl_conn_closed :: bool

definition send_capacity :: nat where "send_capacity = 64"

definition client_in_flight :: "client \<Rightarrow> int" where
  "client_in_flight c = sint (cl_in_flight c)"

definition client_busy :: "client \<Rightarrow> int" where
  "client_busy c = sint (cl_in_flight c + cl_local_busy c)"

definition has_room :: "client \<Rightarrow> bool" where
  "has_room c \<longleftrightarrow> \<not> cl_draining c \<and> client_busy c < cl_max_concurrent c"

definition client_incr :: "client \<Rightarrow> client" where
  "client_incr c = c\<lparr>cl_in_flight := cl_in_flight c + 1\<rparr>"

definition client_decr :: "client \<Rightarrow> client" where
  "client_decr c = c\<lparr>cl_in_flight := cl_in_flight c - 1\<rparr>"

definition client_close :: "client \<Rightarrow> client" where
  "client_close c = c\<lparr>cl_conn_closed := True\<rparr>"

definition close_send :: "client \<Rightarrow> client" where
  "close_send c = c\<lparr>cl_send_closed := True\<rparr>"

record job_live_stats =
  lv_first_chunk_at :: "gotime option"
  lv_delta_count :: int
  lv_last_activity :: gotime
  lv_produced_output :: bool

definition live_new :: job_live_stats where
  "live_new = \<lparr>lv_first_chunk_at = None, lv_delta_count = 0, lv_last_activity = 0,
     lv_produced_output = False\<rparr>"

record in_flight_record =
  fr_client_id :: string
  fr_client_token :: string
  fr_client_owner :: string
  fr_client_name :: string
  fr_req :: inference_request
  fr_dispatched_at :: gotime
  fr_lease_expiry :: gotime
  fr_live :: "job_live_stats option"

definition lease_deadline :: "duration \<Rightarrow> in_flight_record \<Rightarrow> gotime" where
  "lease_deadline lease r =
     (case fr_live r of
        None \<Rightarrow> fr_lease_expiry r
      | Some l \<Rightarrow>
          if \<not> lv_produced_output l then fr_lease_expiry r
          else if lv_last_activity l = 0 then fr_lease_expiry r
          else (let d = lv_last_activity l + lease
                in if d > fr_lease_expiry r then d else fr_lease_expiry r))"

definition client_label :: "in_flight_record \<Rightarrow> string" where
  "client_label r =
     (if fr_client_owner r = [] \<or> fr_client_name r = [] then []
      else fr_client_owner r @ ''/'' @ fr_client_name r)"

definition produced_output :: "in_flight_record \<Rightarrow> bool" where
  "produced_output r = (case fr_live r of None \<Rightarrow> False | Some l \<Rightarrow> lv_produced_output l)"

definition first_chunk_at :: "in_flight_record \<Rightarrow> gotime option" where
  "first_chunk_at r = (case fr_live r of None \<Rightarrow> None | Some l \<Rightarrow> lv_first_chunk_at l)"

definition first_token_at :: "in_flight_record \<Rightarrow> gotime option" where
  "first_token_at r = (if \<not> rq_stream (fr_req r) then None else first_chunk_at r)"

definition delta_count :: "in_flight_record \<Rightarrow> int" where
  "delta_count r = (case fr_live r of None \<Rightarrow> 0 | Some l \<Rightarrow> lv_delta_count l)"

record perf_sample =
  ps_owner :: string
  ps_key_label :: string
  ps_model :: string
  ps_client :: string
  ps_queue_ms :: rat
  ps_total_ms :: rat
  ps_ttft_ms :: rat
  ps_prefill_ms :: rat
  ps_prefill_tokens :: int
  ps_decode_ms :: rat
  ps_decode_tokens :: int
  ps_from_backend :: bool

text \<open>
  The hub. A callback or recorder that may be \<open>nil\<close> is a flag that says whether it is set;
  \<open>hb_lease_duration\<close> is the package variable \<open>LeaseDuration\<close>. The value of a key of
  \<open>jobsByClient\<close>, a Go set, is the list of its members.
\<close>

record hub =
  hb_clients :: "(string, client) gomap"
  hb_last_seen :: "(string, gotime) gomap"
  hb_jobs :: "(string, in_flight_record) gomap"
  hb_jobs_by_client :: "(string, string list) gomap"
  hb_on_chunk :: bool
  hb_on_error :: bool
  hb_on_available :: bool
  hb_on_release :: bool
  hb_latency :: bool
  hb_perf :: bool
  hb_lease_duration :: duration

datatype hub_event =
    Ev_Chunk chunk_msg
  | Ev_Error error_msg
  | Ev_Available
  | Ev_Release inference_request
  | Ev_Queue_Wait string duration
  | Ev_TTFT string duration
  | Ev_Duration string duration
  | Ev_Prompt_Throughput string rat
  | Ev_Gen_Throughput string rat
  | Ev_Tokens string int int
  | Ev_Perf perf_sample

definition hub_new :: "duration \<Rightarrow> hub" where
  "hub_new lease = \<lparr>hb_clients = [], hb_last_seen = [], hb_jobs = [], hb_jobs_by_client = [],
     hb_on_chunk = True, hb_on_error = True, hb_on_available = True, hb_on_release = True,
     hb_latency = True, hb_perf = True, hb_lease_duration = lease\<rparr>"

definition ev_available :: "hub \<Rightarrow> hub_event list" where
  "ev_available h = (if hb_on_available h then [Ev_Available] else [])"

definition ev_error :: "hub \<Rightarrow> error_msg \<Rightarrow> hub_event list" where
  "ev_error h e = (if hb_on_error h then [Ev_Error e] else [])"

text \<open>A change of one connected client, found by its id.\<close>

definition upd_client :: "hub \<Rightarrow> string \<Rightarrow> (client \<Rightarrow> client) \<Rightarrow> hub" where
  "upd_client h cid f =
     (case mget (hb_clients h) cid of
        None \<Rightarrow> h
      | Some c \<Rightarrow> h\<lparr>hb_clients := mput cid (f c) (hb_clients h)\<rparr>)"

abbreviation jobs_of :: "hub \<Rightarrow> string \<Rightarrow> string list" where
  "jobs_of h cid \<equiv> get_or [] (hb_jobs_by_client h) cid"

section \<open>Operations\<close>

text \<open>The first half of \<open>ServeWS\<close>: the connection is in the registry before any message.\<close>

definition connect ::
  "hub \<Rightarrow> string \<Rightarrow> string \<Rightarrow> string \<Rightarrow> string \<Rightarrow> (string, int) gomap \<Rightarrow> hub" where
  "connect h cid name owner token slots =
     h\<lparr>hb_clients := mput cid
         \<lparr>cl_id = cid, cl_send = [], cl_models = None, cl_context_sizes = [],
          cl_context_train_sizes = [], cl_modalities = [], cl_max_concurrent = 0,
          cl_in_flight = 0, cl_local_busy = 0, cl_draining = False, cl_name = name,
          cl_owner = owner, cl_token = token, cl_version = [], cl_kind = [],
          cl_owner_slots = slots, cl_send_closed = False, cl_conn_closed = False\<rparr>
         (hb_clients h)\<rparr>"

definition retry_request :: "inference_request \<Rightarrow> inference_request" where
  "retry_request req =
     (let r = req\<lparr>rq_attempts := rq_attempts req + 1\<rparr>
      in if rq_requested_model r \<noteq> [] then r\<lparr>rq_model := rq_requested_model r\<rparr> else r)"

text \<open>\<open>SendToClient\<close> on a found client: false when the channel is closed or full.\<close>

definition client_enqueue :: "out_msg \<Rightarrow> client \<Rightarrow> bool \<times> client" where
  "client_enqueue msg c =
     (if cl_send_closed c then (False, c)
      else if length (cl_send c) < send_capacity then (True, c\<lparr>cl_send := cl_send c @ [msg]\<rparr>)
      else (False, c))"

definition send_to_client :: "hub \<Rightarrow> string \<Rightarrow> out_msg \<Rightarrow> bool \<times> hub" where
  "send_to_client h cid msg =
     (case mget (hb_clients h) cid of
        None \<Rightarrow> (False, h)
      | Some c \<Rightarrow> (fst (client_enqueue msg c), upd_client h cid (\<lambda>c. snd (client_enqueue msg c))))"

text \<open>\<open>writeLoop\<close>: the next buffered frame goes out; a failed write closes the connection.\<close>

definition write_loop_step :: "hub \<Rightarrow> string \<Rightarrow> bool \<Rightarrow> out_msg option \<times> hub" where
  "write_loop_step h cid write_ok =
     (case mget (hb_clients h) cid of
        None \<Rightarrow> (None, h)
      | Some c \<Rightarrow>
          (case cl_send c of
             [] \<Rightarrow> (None, h)
           | m # ms \<Rightarrow>
               if cl_conn_closed c then (None, h)
               else (Some m, upd_client h cid (\<lambda>c.
                  if write_ok then c\<lparr>cl_send := ms\<rparr> else client_close (c\<lparr>cl_send := ms\<rparr>)))))"

definition incr_in_flight :: "hub \<Rightarrow> string \<Rightarrow> hub" where
  "incr_in_flight h cid = upd_client h cid client_incr"

definition decr_in_flight :: "hub \<Rightarrow> string \<Rightarrow> hub" where
  "decr_in_flight h cid = upd_client h cid client_decr"

definition track_job ::
  "hub \<Rightarrow> gotime \<Rightarrow> string \<Rightarrow> inference_request \<Rightarrow> bool \<times> hub \<times> hub_event list" where
  "track_job h now cid req =
     (case mget (hb_clients h) cid of
        None \<Rightarrow> (False, h, [])
      | Some c \<Rightarrow>
          (True,
           h\<lparr>hb_jobs := mput (rq_id req)
               \<lparr>fr_client_id = cid, fr_client_token = cl_token c, fr_client_owner = cl_owner c,
                fr_client_name = cl_name c, fr_req = req, fr_dispatched_at = now,
                fr_lease_expiry = now + hb_lease_duration h, fr_live = Some live_new\<rparr>
               (hb_jobs h),
             hb_jobs_by_client :=
               mput cid (List.insert (rq_id req) (jobs_of h cid)) (hb_jobs_by_client h)\<rparr>,
           if hb_latency h then [Ev_Queue_Wait (rq_model req) (time_sub now (rq_enqueued_at req))]
           else []))"

text \<open>Deleting a job's record and its entry in the holder's set (a no-op on a missing set).\<close>

definition drop_job :: "hub \<Rightarrow> string \<Rightarrow> string \<Rightarrow> hub" where
  "drop_job h rid cid =
     h\<lparr>hb_jobs := mdel rid (hb_jobs h),
       hb_jobs_by_client :=
         (case mget (hb_jobs_by_client h) cid of
            None \<Rightarrow> hb_jobs_by_client h
          | Some ids \<Rightarrow> mput cid (removeAll rid ids) (hb_jobs_by_client h))\<rparr>"

definition untrack_job_rec ::
  "hub \<Rightarrow> gotime \<Rightarrow> string \<Rightarrow> string \<Rightarrow> in_flight_record option \<times> hub \<times> hub_event list" where
  "untrack_job_rec h now rid cid =
     (case mget (hb_jobs h) rid of
        None \<Rightarrow> (None, h, [])
      | Some r \<Rightarrow>
          if fr_client_id r \<noteq> cid then (None, h, [])
          else (Some r, drop_job h rid (fr_client_id r),
                if hb_latency h
                then [Ev_Duration (rq_model (fr_req r)) (time_sub now (fr_dispatched_at r))]
                else []))"

definition untrack_job ::
  "hub \<Rightarrow> gotime \<Rightarrow> string \<Rightarrow> string \<Rightarrow> bool \<times> hub \<times> hub_event list" where
  "untrack_job h now cid rid =
     (case untrack_job_rec h now rid cid of (r, h', evs) \<Rightarrow> (r \<noteq> None, h', evs))"

definition lookup_in_flight_job :: "hub \<Rightarrow> string \<Rightarrow> in_flight_record option" where
  "lookup_in_flight_job h rid = mget (hb_jobs h) rid"

definition in_flight_jobs_by_client_id :: "hub \<Rightarrow> string \<Rightarrow> in_flight_record list" where
  "in_flight_jobs_by_client_id h cid = List.map_filter (mget (hb_jobs h)) (jobs_of h cid)"

definition all_in_flight_jobs :: "hub \<Rightarrow> in_flight_record list" where
  "all_in_flight_jobs h = map snd (hb_jobs h)"

definition job_refs_on :: "hub \<Rightarrow> string \<Rightarrow> job_ref list" where
  "job_refs_on h cid =
     map (\<lambda>r. \<lparr>jr_owner = rq_owner (fr_req r), jr_model = rq_model (fr_req r)\<rparr>)
       (in_flight_jobs_by_client_id h cid)"

text \<open>
  \<open>CancelRequest\<close>: free the slot of the job if it runs, then tell every connected client that
  has room in its send buffer.
\<close>

definition cancel_untrack :: "hub \<Rightarrow> string \<Rightarrow> hub \<times> hub_event list" where
  "cancel_untrack h rid =
     (case mget (hb_jobs h) rid of
        None \<Rightarrow> (h, [])
      | Some r \<Rightarrow>
          (decr_in_flight (drop_job h rid (fr_client_id r)) (fr_client_id r), ev_available h))"

definition broadcast :: "hub \<Rightarrow> out_msg \<Rightarrow> hub" where
  "broadcast h msg =
     h\<lparr>hb_clients := map (\<lambda>(k, c). (k, snd (client_enqueue msg c))) (hb_clients h)\<rparr>"

definition cancel_request :: "hub \<Rightarrow> string \<Rightarrow> hub \<times> hub_event list" where
  "cancel_request h rid =
     (case cancel_untrack h rid of (h', evs) \<Rightarrow> (broadcast h' (Cancel_Msg rid), evs))"

text \<open>
  \<open>handleExpiredLeases\<close>: collect and drop the expired jobs under the lock, then free each
  slot and tell its worker to stop.
\<close>

definition expired_jobs :: "hub \<Rightarrow> gotime \<Rightarrow> (string \<times> in_flight_record) list" where
  "expired_jobs h now =
     filter (\<lambda>(rid, r). lease_deadline (hb_lease_duration h) r < now) (hb_jobs h)"

definition drop_expired :: "(string \<times> in_flight_record) list \<Rightarrow> hub \<Rightarrow> hub" where
  "drop_expired rs h = fold (\<lambda>(rid, r) h. drop_job h rid (fr_client_id r)) rs h"

definition reclaim_one :: "string \<times> in_flight_record \<Rightarrow> hub \<Rightarrow> hub" where
  "reclaim_one p h =
     (let r = snd p
      in snd (send_to_client (decr_in_flight h (fr_client_id r)) (fr_client_id r)
                (Cancel_Msg (rq_id (fr_req r)))))"

definition handle_expired_leases :: "hub \<Rightarrow> gotime \<Rightarrow> hub \<times> hub_event list" where
  "handle_expired_leases h now =
     (let expired = expired_jobs h now; h1 = drop_expired expired h
      in if expired = [] then (h1, [])
         else (fold reclaim_one expired h1, ev_available h))"

definition close_by_token :: "hub \<Rightarrow> string \<Rightarrow> hub" where
  "close_by_token h token =
     h\<lparr>hb_clients := map (\<lambda>(k, c). (k, if cl_token c = token then client_close c else c))
         (hb_clients h)\<rparr>"

definition set_client_owner_slots :: "hub \<Rightarrow> string \<Rightarrow> string \<Rightarrow> int \<Rightarrow> hub" where
  "set_client_owner_slots h token model slots =
     h\<lparr>hb_clients := map (\<lambda>(k, c).
         (k, if cl_token c = token
             then c\<lparr>cl_owner_slots :=
                      (if slots \<le> 0 then mdel model (cl_owner_slots c)
                       else mput model slots (cl_owner_slots c))\<rparr>
             else c)) (hb_clients h)\<rparr>"

end
