(* ===== verification/Hub_Invariant.thy ===== *)
theory Hub_Invariant
  imports Hub
begin

text \<open>
  The hub's two invariants and what each operation does to them: the job records and the
  per-client sets agree (\<open>job_index\<close>), and every connected client's counter is the number
  of jobs it holds plus what is pending between two steps of a dispatch or of a completion
  (\<open>slots_exact\<close>). The scheduler's view of the hub is the locale \<open>dispatcher\<close>.
\<close>

section \<open>The invariants\<close>

definition job_index :: "hub \<Rightarrow> bool" where
  "job_index h \<longleftrightarrow> wf_map (hb_jobs h) \<and> wf_map (hb_jobs_by_client h) \<and>
     (\<forall>rid r. mget (hb_jobs h) rid = Some r \<longrightarrow>
        rq_id (fr_req r) = rid \<and> rid \<in> set (jobs_of h (fr_client_id r))) \<and>
     (\<forall>cid. \<forall>rid \<in> set (jobs_of h cid).
        \<exists>r. mget (hb_jobs h) rid = Some r \<and> fr_client_id r = cid) \<and>
     (\<forall>cid. distinct (jobs_of h cid))"

text \<open>
  \<open>d cid\<close> is what the counter of a client is ahead of the jobs it holds: 1 between counting
  a slot and tracking the job, or between untracking a job and freeing its slot.
\<close>

definition slots_exact :: "(string \<Rightarrow> 32 word) \<Rightarrow> hub \<Rightarrow> bool" where
  "slots_exact d h \<longleftrightarrow> wf_map (hb_clients h) \<and>
     (\<forall>cid c. mget (hb_clients h) cid = Some c \<longrightarrow>
        cl_id c = cid \<and> cl_in_flight c = of_nat (length (jobs_of h cid)) + d cid)"

definition hub_exact :: "(string \<Rightarrow> 32 word) \<Rightarrow> hub \<Rightarrow> bool" where
  "hub_exact d h \<longleftrightarrow> job_index h \<and> slots_exact d h"

definition holder_of :: "hub \<Rightarrow> string \<Rightarrow> string option" where
  "holder_of h rid = map_option fr_client_id (mget (hb_jobs h) rid)"

abbreviation settled :: "hub \<Rightarrow> bool" where
  "settled h \<equiv> hub_exact (\<lambda>_. 0) h"

lemma job_indexD:
  assumes "job_index h" and "mget (hb_jobs h) rid = Some r"
  shows "rq_id (fr_req r) = rid" and "rid \<in> set (jobs_of h (fr_client_id r))"
  using assms by (auto simp: job_index_def)

lemma job_index_held:
  assumes "job_index h" and "rid \<in> set (jobs_of h cid)"
  obtains r where "mget (hb_jobs h) rid = Some r" "fr_client_id r = cid"
  using assms unfolding job_index_def by blast

lemma job_index_distinct: "job_index h \<Longrightarrow> distinct (jobs_of h cid)"
  by (simp add: job_index_def)

lemma holder_of_held:
  assumes "job_index h"
  shows "holder_of h rid = Some cid \<longleftrightarrow> rid \<in> set (jobs_of h cid)"
  using assms by (auto simp: holder_of_def elim: job_index_held dest: job_indexD)

text \<open>The jobs a client holds, counted as records, are the entries of its set.\<close>

lemma jobs_of_card:
  assumes "job_index h"
  shows "length (jobs_of h cid) = card {rid. holder_of h rid = Some cid}"
proof -
  have "{rid. holder_of h rid = Some cid} = set (jobs_of h cid)"
    using holder_of_held [OF assms] by blast
  then show ?thesis using distinct_card [OF job_index_distinct [OF assms]] by simp
qed

section \<open>Frames\<close>

lemma mget_upd_client [gomap_simps]:
  "mget (hb_clients (upd_client h cid f)) k =
     (if k = cid then map_option f (mget (hb_clients h) k) else mget (hb_clients h) k)"
  by (auto simp: upd_client_def gomap_simps split: option.split)

lemma upd_client_frame [simp]:
  "hb_jobs (upd_client h cid f) = hb_jobs h"
  "hb_jobs_by_client (upd_client h cid f) = hb_jobs_by_client h"
  "hb_last_seen (upd_client h cid f) = hb_last_seen h"
  "hb_lease_duration (upd_client h cid f) = hb_lease_duration h"
  "hb_on_available (upd_client h cid f) = hb_on_available h"
  "hb_on_release (upd_client h cid f) = hb_on_release h"
  "hb_on_error (upd_client h cid f) = hb_on_error h"
  "hb_latency (upd_client h cid f) = hb_latency h"
  by (auto simp: upd_client_def split: option.split)

lemma wf_upd_client [simp]: "wf_map (hb_clients h) \<Longrightarrow> wf_map (hb_clients (upd_client h cid f))"
  by (auto simp: upd_client_def split: option.split)

lemma send_to_client_hub: "snd (send_to_client h cid m) = upd_client h cid (\<lambda>c. snd (client_enqueue m c))"
  by (simp add: send_to_client_def upd_client_def split: option.split)

lemma client_enqueue_frame [simp]:
  "cl_id (snd (client_enqueue m c)) = cl_id c"
  "cl_in_flight (snd (client_enqueue m c)) = cl_in_flight c"
  by (simp_all add: client_enqueue_def)

lemma drop_job_frame [simp]:
  "hb_clients (drop_job h rid cid) = hb_clients h"
  "hb_last_seen (drop_job h rid cid) = hb_last_seen h"
  "hb_lease_duration (drop_job h rid cid) = hb_lease_duration h"
  "hb_on_available (drop_job h rid cid) = hb_on_available h"
  "hb_on_release (drop_job h rid cid) = hb_on_release h"
  "hb_on_error (drop_job h rid cid) = hb_on_error h"
  "hb_jobs (drop_job h rid cid) = mdel rid (hb_jobs h)"
  by (simp_all add: drop_job_def)

lemma jobs_of_drop_job [gomap_simps]:
  "jobs_of (drop_job h rid cid) k = (if k = cid then removeAll rid (jobs_of h k) else jobs_of h k)"
  by (auto simp: drop_job_def get_or_def gomap_simps split: option.split)

lemma wf_drop_job [simp]:
  "wf_map (hb_jobs_by_client h) \<Longrightarrow> wf_map (hb_jobs_by_client (drop_job h rid cid))"
  by (auto simp: drop_job_def split: option.split)

section \<open>The primitive operations\<close>

lemma job_index_frame:
  "hb_jobs h' = hb_jobs h \<Longrightarrow> hb_jobs_by_client h' = hb_jobs_by_client h \<Longrightarrow>
     job_index h' = job_index h"
  by (simp add: job_index_def)

lemma job_index_drop [inv_intros]:
  assumes "job_index h" and "mget (hb_jobs h) rid = Some r"
  shows "job_index (drop_job h rid (fr_client_id r))"
proof -
  have "rid \<in> set (jobs_of h cid) \<Longrightarrow> cid = fr_client_id r" for cid
    using assms by (auto elim: job_index_held)
  then show ?thesis using assms
    unfolding job_index_def by (auto simp: gomap_simps distinct_removeAll) metis+
qed

lemma holder_of_drop: "holder_of (drop_job h rid cid) = (holder_of h)(rid := None)"
  by (auto simp: holder_of_def gomap_simps)

lemma slots_exact_drop:
  assumes ix: "job_index h" and r: "mget (hb_jobs h) rid = Some r" and ex: "slots_exact d h"
  shows "slots_exact (d(fr_client_id r := d (fr_client_id r) + 1)) (drop_job h rid (fr_client_id r))"
proof -
  let ?c = "fr_client_id r"
  have "rid \<in> set (jobs_of h ?c)" using job_indexD [OF ix r] by simp
  then have "0 < length (jobs_of h ?c)" by (auto simp: length_pos_if_in_set)
  moreover have "length (removeAll rid (jobs_of h ?c)) = length (jobs_of h ?c) - 1"
    using \<open>rid \<in> set (jobs_of h ?c)\<close> distinct_remove1_removeAll [OF job_index_distinct [OF ix, of ?c]]
    by (simp add: length_remove1 flip: distinct_remove1_removeAll [OF job_index_distinct [OF ix, of ?c]])
  ultimately have "of_nat (length (jobs_of h ?c)) =
      (of_nat (length (removeAll rid (jobs_of h ?c))) + 1 :: 32 word)"
    by (metis Suc_pred' add.commute of_nat_Suc)
  then show ?thesis using ex by (auto simp: slots_exact_def gomap_simps)
qed

lemma slots_exact_upd:
  assumes "slots_exact d h" and "\<And>c. cl_id (f c) = cl_id c"
    and "\<And>c. cl_in_flight (f c) = cl_in_flight c + k"
  shows "slots_exact (d(cid := d cid + k)) (upd_client h cid f)"
  using assms by (auto simp: slots_exact_def gomap_simps)

lemma job_index_upd_client [simp]: "job_index (upd_client h cid f) = job_index h"
  by (rule job_index_frame) simp_all

lemma hub_exact_incr:
  "hub_exact d h \<Longrightarrow> hub_exact (d(cid := d cid + 1)) (incr_in_flight h cid)"
  using slots_exact_upd [of d h client_incr 1 cid]
  by (simp add: hub_exact_def incr_in_flight_def client_incr_def)

lemma hub_exact_decr:
  "hub_exact d h \<Longrightarrow> hub_exact (d(cid := d cid - 1)) (decr_in_flight h cid)"
  using slots_exact_upd [of d h client_decr "- 1" cid]
  by (simp add: hub_exact_def decr_in_flight_def client_decr_def)

lemma hub_exact_send [inv_intros]:
  "hub_exact d h \<Longrightarrow> hub_exact d (snd (send_to_client h cid m))"
  using slots_exact_upd [of d h "\<lambda>c. snd (client_enqueue m c)" 0 cid]
  by (simp add: hub_exact_def send_to_client_hub)

lemma hub_exact_drop:
  "hub_exact d h \<Longrightarrow> mget (hb_jobs h) rid = Some r \<Longrightarrow>
     hub_exact (d(fr_client_id r := d (fr_client_id r) + 1)) (drop_job h rid (fr_client_id r))"
  by (simp add: hub_exact_def job_index_drop slots_exact_drop)

text \<open>Freeing a job's slot right after dropping its record leaves nothing pending.\<close>

lemma hub_exact_drop_decr:
  assumes "hub_exact d h" and "mget (hb_jobs h) rid = Some r"
  shows "hub_exact d (decr_in_flight (drop_job h rid (fr_client_id r)) (fr_client_id r))"
  using hub_exact_decr [OF hub_exact_drop [OF assms], of "fr_client_id r"] by simp

lemma untrack_job_rec_Some:
  assumes "untrack_job_rec h now rid cid = (Some r, h', evs)"
  shows "mget (hb_jobs h) rid = Some r" and "fr_client_id r = cid" and "h' = drop_job h rid cid"
  using assms by (auto simp: untrack_job_rec_def split: option.splits if_splits)

lemma untrack_job_rec_None:
  assumes "untrack_job_rec h now rid cid = (None, h', evs)"
  shows "h' = h" and "evs = []" and "holder_of h rid \<noteq> Some cid"
  using assms by (auto simp: untrack_job_rec_def holder_of_def split: option.splits if_splits)

lemma untrack_job_cases:
  assumes "untrack_job h now cid rid = (b, h', evs)"
  obtains (gone) "\<not> b" "h' = h" "holder_of h rid \<noteq> Some cid"
    | (held) r where "b" "mget (hb_jobs h) rid = Some r" "fr_client_id r = cid"
        "h' = drop_job h rid cid"
proof (cases "untrack_job_rec h now rid cid")
  case (fields r h2 evs2)
  show thesis
  proof (cases r)
    case None
    then show thesis
      using fields assms untrack_job_rec_None [of h now rid cid h2 evs2] gone
      by (simp add: untrack_job_def)
  next
    case (Some x)
    then show thesis
      using fields assms untrack_job_rec_Some [of h now rid cid x h2 evs2] held [of x]
      by (simp add: untrack_job_def)
  qed
qed

lemma track_job_True:
  assumes "track_job h now cid req = (True, h', evs)"
  obtains c where "mget (hb_clients h) cid = Some c" "hb_clients h' = hb_clients h"
    "mget (hb_jobs h') = (mget (hb_jobs h))(rq_id req \<mapsto>
       \<lparr>fr_client_id = cid, fr_client_token = cl_token c, fr_client_owner = cl_owner c,
        fr_client_name = cl_name c, fr_req = req, fr_dispatched_at = now,
        fr_lease_expiry = now + hb_lease_duration h, fr_live = Some live_new\<rparr>)"
    "\<And>k. jobs_of h' k = (if k = cid then List.insert (rq_id req) (jobs_of h k) else jobs_of h k)"
    "wf_map (hb_jobs h) \<Longrightarrow> wf_map (hb_jobs h')"
    "wf_map (hb_jobs_by_client h) \<Longrightarrow> wf_map (hb_jobs_by_client h')"
proof (cases "mget (hb_clients h) cid")
  case None
  then show thesis using assms by (simp add: track_job_def)
next
  case (Some c)
  with assms show thesis
    by (intro that [of c]) (auto simp: track_job_def gomap_simps fun_eq_iff)
qed

lemma track_job_False:
  assumes "track_job h now cid req = (False, h', evs)"
  shows "h' = h" and "mget (hb_clients h) cid = None" and "evs = []"
  using assms by (auto simp: track_job_def split: option.splits)

lemma job_index_track:
  assumes ix: "job_index h" and fresh: "holder_of h (rq_id req) = None"
    and tr: "track_job h now cid req = (True, h', evs)"
  shows "job_index h'"
proof -
  have free: "mget (hb_jobs h) (rq_id req) = None" using fresh by (simp add: holder_of_def)
  then have nowhere: "rq_id req \<notin> set (jobs_of h k)" for k
    using ix by (auto elim: job_index_held)
  from tr show ?thesis
  proof (rule track_job_True)
    fix c
    assume jobs: "mget (hb_jobs h') = (mget (hb_jobs h))(rq_id req \<mapsto>
       \<lparr>fr_client_id = cid, fr_client_token = cl_token c, fr_client_owner = cl_owner c,
        fr_client_name = cl_name c, fr_req = req, fr_dispatched_at = now,
        fr_lease_expiry = now + hb_lease_duration h, fr_live = Some live_new\<rparr>)"
      and by_client: "\<And>k. jobs_of h' k =
        (if k = cid then List.insert (rq_id req) (jobs_of h k) else jobs_of h k)"
      and wf: "wf_map (hb_jobs h) \<Longrightarrow> wf_map (hb_jobs h')"
        "wf_map (hb_jobs_by_client h) \<Longrightarrow> wf_map (hb_jobs_by_client h')"
    show "job_index h'" using ix wf nowhere
      unfolding job_index_def jobs by_client by (auto simp: free)
  qed
qed

lemma holder_of_track:
  assumes "track_job h now cid req = (True, h', evs)"
  shows "holder_of h' = (holder_of h)(rq_id req \<mapsto> cid)"
  using assms by (rule track_job_True) (auto simp: holder_of_def)

lemma hub_exact_track:
  assumes ex: "hub_exact d h" and fresh: "holder_of h (rq_id req) = None"
    and tr: "track_job h now cid req = (True, h', evs)"
  shows "hub_exact (d(cid := d cid - 1)) h'"
proof -
  have ix: "job_index h" using ex by (simp add: hub_exact_def)
  have "rq_id req \<notin> set (jobs_of h cid)"
    using fresh ix holder_of_held [OF ix] by (metis option.distinct(1))
  then have "of_nat (length (List.insert (rq_id req) (jobs_of h cid))) =
      (of_nat (length (jobs_of h cid)) + 1 :: 32 word)"
    by (simp add: add.commute)
  with tr ex have "slots_exact (d(cid := d cid - 1)) h'"
    by (elim track_job_True) (auto simp: hub_exact_def slots_exact_def)
  then show ?thesis using job_index_track [OF ix fresh tr] by (simp add: hub_exact_def)
qed

section \<open>The interface the scheduler relies on\<close>

text \<open>
  \<open>Dispatcher\<close> of \<open>scheduler.go\<close>: \<open>exact d\<close> says that the counters are right but for
  what \<open>d\<close> has pending, \<open>held_by\<close> who holds a job.
\<close>

locale dispatcher =
  fixes incr decr :: "'h \<Rightarrow> string \<Rightarrow> 'h"
    and track :: "'h \<Rightarrow> string \<Rightarrow> inference_request \<Rightarrow> bool \<times> 'h"
    and untrack :: "'h \<Rightarrow> string \<Rightarrow> string \<Rightarrow> bool \<times> 'h"
    and send :: "'h \<Rightarrow> string \<Rightarrow> out_msg \<Rightarrow> bool \<times> 'h"
    and exact :: "(string \<Rightarrow> 32 word) \<Rightarrow> 'h \<Rightarrow> bool"
    and held_by :: "'h \<Rightarrow> string \<Rightarrow> string option"
  assumes incr_exact: "exact d h \<Longrightarrow> exact (d(c := d c + 1)) (incr h c)"
    and decr_exact: "exact d h \<Longrightarrow> exact (d(c := d c - 1)) (decr h c)"
    and track_exact: "exact d h \<Longrightarrow> held_by h (rq_id r) = None \<Longrightarrow> track h c r = (True, h') \<Longrightarrow>
      exact (d(c := d c - 1)) h'"
    and untrack_exact: "exact d h \<Longrightarrow> untrack h c k = (True, h') \<Longrightarrow> exact (d(c := d c + 1)) h'"
    and send_exact: "exact d h \<Longrightarrow> exact d (snd (send h c m))"
    and track_held: "track h c r = (True, h') \<Longrightarrow> held_by h' = (held_by h)(rq_id r \<mapsto> c)"
    and track_refused: "track h c r = (False, h') \<Longrightarrow> h' = h"
    and untrack_held: "untrack h c k = (True, h') \<Longrightarrow>
      held_by h k = Some c \<and> held_by h' = (held_by h)(k := None)"
    and untrack_gone: "untrack h c k = (False, h') \<Longrightarrow> h' = h \<and> held_by h k \<noteq> Some c"
    and incr_held: "held_by (incr h c) = held_by h"
    and decr_held: "held_by (decr h c) = held_by h"
    and send_held: "held_by (snd (send h c m)) = held_by h"
begin

text \<open>Count, track, send: nothing is pending afterwards, and the client holds the job.\<close>

lemma dispatched:
  assumes "exact d h" and "held_by h (rq_id r) = None"
    and "track (incr h c) c r = (True, h1)" and "send h1 c m = (True, h2)"
  shows "exact d h2" and "held_by h2 = (held_by h)(rq_id r \<mapsto> c)"
proof -
  have "exact (d(c := d c + 1)) (incr h c)" by (rule incr_exact [OF assms(1)])
  from track_exact [OF this _ assms(3)] have "exact d h1" using assms(2) by (simp add: incr_held)
  from send_exact [OF this, of c m] show "exact d h2" using assms(4) by simp
  show "held_by h2 = (held_by h)(rq_id r \<mapsto> c)"
    using track_held [OF assms(3)] send_held [of h1 c m] assms(4) by (simp add: incr_held)
qed

text \<open>A refused track, undone: the counter is back where it was.\<close>

lemma refused:
  assumes "exact d h" and "track (incr h c) c r = (False, h1)"
  shows "exact d (decr h1 c)" and "held_by (decr h1 c) = held_by h"
  using decr_exact [OF incr_exact [OF assms(1)], of c c] track_refused [OF assms(2)]
  by (simp_all add: decr_held incr_held)

text \<open>A failed send, undone: the job is nowhere and the counter is back.\<close>

lemma unsent:
  assumes "exact d h" and "held_by h (rq_id r) = None"
    and "track (incr h c) c r = (True, h1)" and "send h1 c m = (False, h2)"
    and "untrack h2 c (rq_id r) = (True, h3)"
  shows "exact d (decr h3 c)" and "held_by (decr h3 c) = held_by h"
proof -
  have "exact (d(c := d c + 1)) (incr h c)" by (rule incr_exact [OF assms(1)])
  from track_exact [OF this _ assms(3)] have "exact d h1" using assms(2) by (simp add: incr_held)
  from send_exact [OF this, of c m] have "exact d h2" using assms(4) by simp
  from untrack_exact [OF this assms(5)] have "exact (d(c := d c + 1)) h3" .
  from decr_exact [OF this, of c] show "exact d (decr h3 c)" by simp
  show "held_by (decr h3 c) = held_by h"
    using untrack_held [OF assms(5)] track_held [OF assms(3)] send_held [of h1 c m] assms(2,4)
    by (auto simp: decr_held incr_held fun_eq_iff)
qed

text \<open>With no other actor in between, a job just tracked is always there to untrack.\<close>

lemma unsent_untracks:
  assumes "track (incr h c) c r = (True, h1)" and "send h1 c m = (b, h2)"
  shows "fst (untrack h2 c (rq_id r))"
proof -
  have "held_by h2 (rq_id r) = Some c"
    using track_held [OF assms(1)] send_held [of h1 c m] assms(2) by simp
  then show ?thesis using untrack_gone [of h2 c "rq_id r" "snd (untrack h2 c (rq_id r))"]
    by (cases "untrack h2 c (rq_id r)") (metis (full_types) fst_conv snd_conv)
qed

end

definition track_only :: "gotime \<Rightarrow> hub \<Rightarrow> string \<Rightarrow> inference_request \<Rightarrow> bool \<times> hub" where
  "track_only now h cid r = (case track_job h now cid r of (b, h', _) \<Rightarrow> (b, h'))"

definition untrack_only :: "gotime \<Rightarrow> hub \<Rightarrow> string \<Rightarrow> string \<Rightarrow> bool \<times> hub" where
  "untrack_only now h cid rid = (case untrack_job h now cid rid of (b, h', _) \<Rightarrow> (b, h'))"

lemma track_only_iff: "track_only now h c r = (b, h') \<longleftrightarrow> (\<exists>evs. track_job h now c r = (b, h', evs))"
  by (auto simp: track_only_def split: prod.splits)

lemma untrack_only_iff:
  "untrack_only now h c k = (b, h') \<longleftrightarrow> (\<exists>evs. untrack_job h now c k = (b, h', evs))"
  by (auto simp: untrack_only_def split: prod.splits)

lemma holder_of_frame: "hb_jobs h' = hb_jobs h \<Longrightarrow> holder_of h' = holder_of h"
  by (simp add: holder_of_def fun_eq_iff)

lemma hub_exact_untrack:
  assumes "hub_exact d h" and "untrack_job h now c k = (True, h', evs)"
  shows "hub_exact (d(c := d c + 1)) h'"
  using assms(2)
proof (cases rule: untrack_job_cases)
  case gone
  then show ?thesis by simp
next
  case (held r)
  then show ?thesis using hub_exact_drop [OF assms(1), of k r] by simp
qed

interpretation hub_ops: dispatcher incr_in_flight decr_in_flight "track_only now" "untrack_only now"
  send_to_client hub_exact holder_of for now
proof unfold_locales
  show "hub_exact (d(c := d c + 1)) (incr_in_flight h c)" if "hub_exact d h" for d h c
    using that by (rule hub_exact_incr)
  show "hub_exact (d(c := d c - 1)) (decr_in_flight h c)" if "hub_exact d h" for d h c
    using that by (rule hub_exact_decr)
  show "hub_exact (d(c := d c - 1)) h'"
    if "hub_exact d h" "holder_of h (rq_id r) = None" "track_only now h c r = (True, h')" for d h c r h'
    using that by (auto simp: track_only_iff intro: hub_exact_track)
  show "hub_exact (d(c := d c + 1)) h'"
    if "hub_exact d h" "untrack_only now h c k = (True, h')" for d h c k h'
    using that by (auto simp: untrack_only_iff intro: hub_exact_untrack)
  show "hub_exact d (snd (send_to_client h c m))" if "hub_exact d h" for d h c m
    using that by (rule hub_exact_send)
  show "holder_of h' = (holder_of h)(rq_id r \<mapsto> c)" if "track_only now h c r = (True, h')" for h c r h'
    using that by (auto simp: track_only_iff dest: holder_of_track)
  show "h' = h" if "track_only now h c r = (False, h')" for h c r h'
    using that by (auto simp: track_only_iff dest: track_job_False)
  show "holder_of h k = Some c \<and> holder_of h' = (holder_of h)(k := None)"
    if "untrack_only now h c k = (True, h')" for h c k h'
    using that by (auto simp: untrack_only_iff holder_of_def gomap_simps elim!: untrack_job_cases)
  show "h' = h \<and> holder_of h k \<noteq> Some c" if "untrack_only now h c k = (False, h')" for h c k h'
    using that by (auto simp: untrack_only_iff elim!: untrack_job_cases)
  show "holder_of (incr_in_flight h c) = holder_of h" for h c
    by (rule holder_of_frame) (simp add: incr_in_flight_def)
  show "holder_of (decr_in_flight h c) = holder_of h" for h c
    by (rule holder_of_frame) (simp add: decr_in_flight_def)
  show "holder_of (snd (send_to_client h c m)) = holder_of h" for h c m
    by (rule holder_of_frame) (simp add: send_to_client_hub)
qed

end
