(* ===== verification/Hub_Dispatch.thy ===== *)
theory Hub_Dispatch
  imports Hub_Invariant
begin

text \<open>
  \<open>hub.go\<close>, what the hub does with a worker's messages (\<open>dispatch\<close>), with a finished job's
  measurements (\<open>recordPerf\<close>) and with a connection that ends (the second half of
  \<open>ServeWS\<close>). One handler is one step: the several \<open>time.Now()\<close> of a handler are one
  \<open>now\<close>. Floating-point quotients are exact rationals.
\<close>

section \<open>Performance samples\<close>

definition millis :: "duration \<Rightarrow> rat" where
  "millis d = (if d \<le> 0 then 0 else of_int d / 1000000)"

text \<open>
  The split of a job into prefill and decode, as the fields \<open>recordPerf\<close> fills in: from the
  backend's own timings when they are usable, else from what the router observed of a stream.
\<close>

record perf_split =
  sp_from_backend :: bool
  sp_prefill_ms :: rat
  sp_prefill_tokens :: int
  sp_decode_ms :: rat
  sp_decode_tokens :: int

definition perf_backend :: "timings \<Rightarrow> perf_split" where
  "perf_backend t =
     (let p = tm_prompt_n t > 0 \<and> tm_prompt_ms t > 0;
          d = tm_predicted_n t > 0 \<and> tm_predicted_ms t > 0
      in \<lparr>sp_from_backend = True,
          sp_prefill_ms = (if p then tm_prompt_ms t else 0),
          sp_prefill_tokens = (if p then tm_prompt_n t else 0),
          sp_decode_ms = (if d then tm_predicted_ms t else 0),
          sp_decode_tokens = (if d then tm_predicted_n t else 0)\<rparr>)"

definition perf_observed ::
  "gotime \<Rightarrow> gotime \<Rightarrow> gotime \<Rightarrow> usage_info \<Rightarrow> perf_split" where
  "perf_observed dispatched first_token done_at u =
     (let evaluated = us_prompt_tokens u - us_cache_read_tokens u
      in \<lparr>sp_from_backend = False,
          sp_prefill_ms = (if evaluated > 0 then millis (time_sub first_token dispatched) else 0),
          sp_prefill_tokens = (if evaluated > 0 then evaluated else 0),
          sp_decode_ms =
            (if us_completion_tokens u > 0 then millis (time_sub done_at first_token) else 0),
          sp_decode_tokens = (if us_completion_tokens u > 0 then us_completion_tokens u else 0)\<rparr>)"

definition perf_none :: perf_split where
  "perf_none = \<lparr>sp_from_backend = False, sp_prefill_ms = 0, sp_prefill_tokens = 0,
     sp_decode_ms = 0, sp_decode_tokens = 0\<rparr>"

definition perf_of :: "in_flight_record \<Rightarrow> usage_info option \<Rightarrow> gotime \<Rightarrow> perf_split" where
  "perf_of rec usage done_at =
     (case usage of
        None \<Rightarrow> perf_none
      | Some u \<Rightarrow>
          if timings_usable (us_timings u) then perf_backend (the (us_timings u))
          else (case first_token_at rec of
                  None \<Rightarrow> perf_none
                | Some ft \<Rightarrow> perf_observed (fr_dispatched_at rec) ft done_at u))"

definition record_perf ::
  "hub \<Rightarrow> in_flight_record \<Rightarrow> usage_info option \<Rightarrow> gotime \<Rightarrow> hub_event list" where
  "record_perf h rec usage done_at =
     (if \<not> hb_perf h \<and> \<not> hb_latency h then []
      else
        (let m = rq_model (fr_req rec);
             sp = perf_of rec usage done_at;
             s = \<lparr>ps_owner = rq_owner (fr_req rec), ps_key_label = rq_api_key_label (fr_req rec),
                  ps_model = m, ps_client = client_label rec,
                  ps_queue_ms = millis (time_sub (fr_dispatched_at rec) (rq_enqueued_at (fr_req rec))),
                  ps_total_ms = millis (time_sub done_at (rq_enqueued_at (fr_req rec))),
                  ps_ttft_ms = (case first_token_at rec of None \<Rightarrow> 0
                     | Some ft \<Rightarrow> millis (time_sub ft (fr_dispatched_at rec))),
                  ps_prefill_ms = sp_prefill_ms sp, ps_prefill_tokens = sp_prefill_tokens sp,
                  ps_decode_ms = sp_decode_ms sp, ps_decode_tokens = sp_decode_tokens sp,
                  ps_from_backend = sp_from_backend sp\<rparr>
         in (if hb_latency h then
               (if sp_prefill_ms sp > 0 \<and> sp_prefill_tokens sp > 0
                then [Ev_Prompt_Throughput m (of_int (sp_prefill_tokens sp) / (sp_prefill_ms sp / 1000))]
                else []) @
               (if sp_decode_ms sp > 0 \<and> sp_decode_tokens sp > 0
                then [Ev_Gen_Throughput m (of_int (sp_decode_tokens sp) / (sp_decode_ms sp / 1000))]
                else []) @
               (case usage of None \<Rightarrow> []
                | Some u \<Rightarrow> [Ev_Tokens m (us_prompt_tokens u) (us_completion_tokens u)])
             else []) @
            (if hb_perf h then [Ev_Perf s] else [])))"

section \<open>A worker's messages\<close>

record inbound_msg =
  im_type :: string
  im_models :: "model_info list"
  im_max_concurrent :: int
  im_version :: string
  im_kind :: string
  im_request_id :: string
  im_delta :: string
  im_reasoning_delta :: string
  im_tool_calls_delta :: raw_json
  im_done :: bool
  im_finish_reason :: string
  im_usage :: "usage_info option"
  im_message :: string
  im_final :: bool
  im_reason :: string
  im_slots :: int

text \<open>\<open>case "register"\<close>: the advertised models replace whatever was advertised before.\<close>

definition register_models :: "model_info list \<Rightarrow> (string, bool) gomap" where
  "register_models ms = fold (\<lambda>m. mput (mi_name m) True) ms []"

definition register_sizes :: "(model_info \<Rightarrow> int) \<Rightarrow> model_info list \<Rightarrow> (string, int) gomap" where
  "register_sizes sz ms =
     fold (\<lambda>m acc. if sz m > 0 then mput (mi_name m) (sz m) acc else acc) ms []"

definition register_modalities :: "model_info list \<Rightarrow> (string, string list) gomap" where
  "register_modalities ms =
     fold (\<lambda>m acc. if mi_modalities m \<noteq> [] then mput (mi_name m) (mi_modalities m) acc else acc) ms []"

definition dispatch_register :: "hub \<Rightarrow> string \<Rightarrow> inbound_msg \<Rightarrow> hub \<times> hub_event list" where
  "dispatch_register h cid im =
     (let h1 = upd_client h cid (\<lambda>c. c\<lparr>
            cl_models := Some (register_models (im_models im)),
            cl_context_sizes := register_sizes mi_context_size (im_models im),
            cl_context_train_sizes := register_sizes mi_context_train (im_models im),
            cl_modalities := register_modalities (im_models im),
            cl_max_concurrent := im_max_concurrent im,
            cl_version := im_version im,
            cl_kind := im_kind im\<rparr>)
      in (snd (send_to_client h1 cid (Registered_Msg [feature_local_busy, feature_drain])),
          ev_available h))"

definition dispatch_draining :: "hub \<Rightarrow> string \<Rightarrow> hub \<times> hub_event list" where
  "dispatch_draining h cid = (upd_client h cid (\<lambda>c. c\<lparr>cl_draining := True\<rparr>), [])"

definition clamp_local_busy :: "int \<Rightarrow> int \<Rightarrow> int" where
  "clamp_local_busy slots max_c =
     (let n = (if slots < 0 then 0 else slots)
      in if max_c > 0 \<and> n > max_c then max_c else n)"

definition dispatch_local_busy :: "hub \<Rightarrow> string \<Rightarrow> inbound_msg \<Rightarrow> hub \<times> hub_event list" where
  "dispatch_local_busy h cid im =
     (case mget (hb_clients h) cid of
        None \<Rightarrow> (h, [])
      | Some c \<Rightarrow>
          (let n = (word_of_int (clamp_local_busy (im_slots im) (cl_max_concurrent c)) :: 32 word)
           in (upd_client h cid (\<lambda>c. c\<lparr>cl_local_busy := n\<rparr>),
               if sint n < sint (cl_local_busy c) then ev_available h else [])))"

definition upd_live :: "hub \<Rightarrow> string \<Rightarrow> (job_live_stats \<Rightarrow> job_live_stats) \<Rightarrow> hub" where
  "upd_live h rid f =
     (case mget (hb_jobs h) rid of
        None \<Rightarrow> h
      | Some r \<Rightarrow> h\<lparr>hb_jobs := mput rid (r\<lparr>fr_live := map_option f (fr_live r)\<rparr>) (hb_jobs h)\<rparr>)"

definition chunk_of :: "inbound_msg \<Rightarrow> chunk_msg" where
  "chunk_of im = \<lparr>ck_request_id = im_request_id im, ck_delta = im_delta im,
     ck_tool_calls_delta = im_tool_calls_delta im, ck_reasoning_delta = im_reasoning_delta im,
     ck_done = im_done im, ck_finish_reason = im_finish_reason im, ck_usage = im_usage im,
     ck_model = [], ck_error = []\<rparr>"

text \<open>A chunk from the client that holds the job renews its lease.\<close>

definition renew_live :: "gotime \<Rightarrow> chunk_msg \<Rightarrow> job_live_stats \<Rightarrow> job_live_stats" where
  "renew_live now msg l =
     l\<lparr>lv_last_activity := now,
       lv_produced_output := (lv_produced_output l \<or> ck_delta msg \<noteq> [] \<or> ck_reasoning_delta msg \<noteq> []
          \<or> ck_tool_calls_delta msg \<noteq> [] \<or> ck_done msg)\<rparr>"

definition count_delta :: "gotime \<Rightarrow> job_live_stats \<Rightarrow> job_live_stats" where
  "count_delta now l =
     l\<lparr>lv_delta_count := lv_delta_count l + 1,
       lv_first_chunk_at := (case lv_first_chunk_at l of None \<Rightarrow> Some now | Some t \<Rightarrow> Some t)\<rparr>"

text \<open>The first delta of a streamed job is a time-to-first-token observation.\<close>

definition first_delta_events :: "hub \<Rightarrow> gotime \<Rightarrow> in_flight_record \<Rightarrow> hub_event list" where
  "first_delta_events h now r =
     (if fr_live r \<noteq> None \<and> first_chunk_at r = None \<and> rq_stream (fr_req r) \<and> hb_latency h
      then [Ev_TTFT (rq_model (fr_req r)) (time_sub now (fr_dispatched_at r))] else [])"

definition chunk_live :: "hub \<Rightarrow> gotime \<Rightarrow> string \<Rightarrow> chunk_msg \<Rightarrow> chunk_msg \<times> hub \<times> hub_event list" where
  "chunk_live h now cid msg =
     (case mget (hb_jobs h) (ck_request_id msg) of
        None \<Rightarrow> (msg, h, [])
      | Some r \<Rightarrow>
          (let mine = (fr_client_id r = cid);
               msg1 = (if mine then msg\<lparr>ck_model := rq_model (fr_req r)\<rparr> else msg);
               h1 = (if mine then upd_live h (ck_request_id msg) (renew_live now msg) else h)
           in if ck_delta msg \<noteq> []
              then (msg1, upd_live h1 (ck_request_id msg) (count_delta now), first_delta_events h now r)
              else (msg1, h1, [])))"

definition dispatch_chunk ::
  "hub \<Rightarrow> gotime \<Rightarrow> string \<Rightarrow> inbound_msg \<Rightarrow> hub \<times> hub_event list" where
  "dispatch_chunk h now cid im =
     (case chunk_live h now cid (chunk_of im) of
        (msg, h1, evs1) \<Rightarrow>
          (case (if ck_done msg then untrack_job_rec h1 now (ck_request_id msg) cid else (None, h1, [])) of
             (None, h2, _) \<Rightarrow>
               (h2, evs1 @ (if hb_on_chunk h then [Ev_Chunk msg] else []))
           | (Some r, h2, evs2) \<Rightarrow>
               (decr_in_flight h2 cid,
                evs1 @ evs2 @ record_perf h r (ck_usage msg) now @ ev_available h
                  @ (if hb_on_chunk h then [Ev_Chunk msg] else []))))"

definition error_of :: "inbound_msg \<Rightarrow> error_msg" where
  "error_of im = \<lparr>em_request_id = im_request_id im, em_message = im_message im, em_final = im_final im\<rparr>"

definition retryable :: "hub \<Rightarrow> in_flight_record \<Rightarrow> bool" where
  "retryable h r \<longleftrightarrow> rq_attempts (retry_request (fr_req r)) < max_attempts
     \<and> \<not> produced_output r \<and> hb_on_release h"

definition dispatch_error ::
  "hub \<Rightarrow> gotime \<Rightarrow> string \<Rightarrow> inbound_msg \<Rightarrow> hub \<times> hub_event list" where
  "dispatch_error h now cid im =
     (case untrack_job_rec h now (im_request_id im) cid of
        (None, h1, _) \<Rightarrow> (h1, [])
      | (Some r, h1, evs1) \<Rightarrow>
          (decr_in_flight h1 cid,
           evs1 @ ev_available h @
           (if \<not> im_final im \<and> retryable h r then [Ev_Release (retry_request (fr_req r))]
            else ev_error h (error_of im))))"

definition release_error :: "string \<Rightarrow> string \<Rightarrow> error_msg" where
  "release_error rid reason =
     \<lparr>em_request_id = rid,
      em_message = ''client released job without completing it: '' @ reason, em_final = False\<rparr>"

text \<open>The request as it was asked for, at no cost of an attempt.\<close>

definition unresolve :: "inference_request \<Rightarrow> inference_request" where
  "unresolve req =
     (if rq_requested_model req \<noteq> [] then req\<lparr>rq_model := rq_requested_model req\<rparr> else req)"

definition local_busy_of :: "hub \<Rightarrow> string \<Rightarrow> int" where
  "local_busy_of h cid =
     (case mget (hb_clients h) cid of None \<Rightarrow> 0 | Some c \<Rightarrow> sint (cl_local_busy c))"

definition dispatch_release ::
  "hub \<Rightarrow> gotime \<Rightarrow> string \<Rightarrow> inbound_msg \<Rightarrow> hub \<times> hub_event list" where
  "dispatch_release h now cid im =
     (let h0 = (if im_reason im = release_shutdown
                then upd_client h cid (\<lambda>c. c\<lparr>cl_draining := True\<rparr>) else h)
      in case untrack_job_rec h0 now (im_request_id im) cid of
           (None, h1, _) \<Rightarrow> (h1, [])
         | (Some r, h1, evs1) \<Rightarrow>
             (decr_in_flight h1 cid,
              evs1 @
              (if im_reason im = release_busy \<and> local_busy_of h cid > 0 \<and> \<not> produced_output r
                  \<and> hb_on_release h
               then [Ev_Release (unresolve (fr_req r))]
               else if retryable h r then [Ev_Release (retry_request (fr_req r))]
               else ev_error h (release_error (rq_id (fr_req r)) (im_reason im)))
              @ ev_available h))"

text \<open>\<open>dispatch\<close>: a frame that is not JSON (\<open>None\<close>) or of an unknown type is ignored.\<close>

definition dispatch ::
  "hub \<Rightarrow> gotime \<Rightarrow> string \<Rightarrow> inbound_msg option \<Rightarrow> hub \<times> hub_event list" where
  "dispatch h now cid data =
     (case data of
        None \<Rightarrow> (h, [])
      | Some im \<Rightarrow>
          if im_type im = ''register'' then dispatch_register h cid im
          else if im_type im = ''draining'' then dispatch_draining h cid
          else if im_type im = ''local_busy'' then dispatch_local_busy h cid im
          else if im_type im = ''chunk'' then dispatch_chunk h now cid im
          else if im_type im = ''error'' then dispatch_error h now cid im
          else if im_type im = ''release'' then dispatch_release h now cid im
          else (h, []))"

section \<open>A connection that ends\<close>

definition disconnect_error :: "string \<Rightarrow> error_msg" where
  "disconnect_error rid =
     \<lparr>em_request_id = rid, em_message = ''client disconnected during inference'', em_final = False\<rparr>"

text \<open>
  One orphaned job. The client is no longer in the registry, so its own counter is decremented
  on the object the connection's goroutine still holds.
\<close>

definition orphan_one ::
  "gotime \<Rightarrow> string \<Rightarrow> in_flight_record \<Rightarrow> hub \<times> client \<times> hub_event list \<Rightarrow>
     hub \<times> client \<times> hub_event list"
where
  "orphan_one now cid orphan st =
     (case st of
        (h, c, evs) \<Rightarrow>
          (case untrack_job_rec h now (rq_id (fr_req orphan)) cid of
             (None, h1, _) \<Rightarrow> (h1, c, evs)
           | (Some r, h1, evs1) \<Rightarrow>
               (h1, client_decr c,
                evs @ evs1 @
                (if retryable h r then [Ev_Release (retry_request (fr_req r))]
                 else ev_error h (disconnect_error (rq_id (fr_req r)))))))"

definition unregister_client :: "hub \<Rightarrow> gotime \<Rightarrow> string \<Rightarrow> client \<Rightarrow> hub" where
  "unregister_client h now cid c =
     h\<lparr>hb_clients := mdel cid (hb_clients h),
       hb_last_seen := (if cl_token c \<noteq> [] then mput (cl_token c) now (hb_last_seen h)
                        else hb_last_seen h)\<rparr>"

definition disconnect :: "hub \<Rightarrow> gotime \<Rightarrow> string \<Rightarrow> hub \<times> client option \<times> hub_event list" where
  "disconnect h now cid =
     (case mget (hb_clients h) cid of
        None \<Rightarrow> (h, None, [])
      | Some c \<Rightarrow>
          (let h1 = unregister_client h now cid (close_send c);
               orphaned = in_flight_jobs_by_client_id h1 cid
           in case fold (orphan_one now cid) orphaned (h1, close_send c, []) of
                (h2, c2, evs) \<Rightarrow>
                  (h2\<lparr>hb_jobs_by_client := mdel cid (hb_jobs_by_client h2)\<rparr>, Some c2,
                   evs @ ev_available h)))"

section \<open>The invariants hold after every message\<close>

lemma hub_exact_upd [inv_intros]:
  assumes "hub_exact d h" and "\<And>c. cl_id (f c) = cl_id c"
    and "\<And>c. cl_in_flight (f c) = cl_in_flight c"
  shows "hub_exact d (upd_client h cid f)"
  using slots_exact_upd [of d h f 0 cid] assms by (simp add: hub_exact_def)

lemma upd_live_frame [simp]:
  "hb_clients (upd_live h rid f) = hb_clients h"
  "hb_jobs_by_client (upd_live h rid f) = hb_jobs_by_client h"
  by (auto simp: upd_live_def split: option.split)

lemma mget_upd_live [gomap_simps]:
  "mget (hb_jobs (upd_live h rid f)) k =
     (if k = rid then map_option (\<lambda>r. r\<lparr>fr_live := map_option f (fr_live r)\<rparr>) (mget (hb_jobs h) k)
      else mget (hb_jobs h) k)"
  by (auto simp: upd_live_def gomap_simps split: option.split)

lemma holder_of_upd_live [simp]: "holder_of (upd_live h rid f) = holder_of h"
  by (auto simp: holder_of_def fun_eq_iff gomap_simps option.map_comp comp_def)

lemma job_index_map:
  assumes ix: "job_index h" and wf: "wf_map (hb_jobs h')"
    and sets: "hb_jobs_by_client h' = hb_jobs_by_client h"
    and get: "\<And>k. mget (hb_jobs h') k = map_option (g k) (mget (hb_jobs h) k)"
    and frame: "\<And>k r. fr_client_id (g k r) = fr_client_id r" "\<And>k r. fr_req (g k r) = fr_req r"
  shows "job_index h'"
  unfolding job_index_def sets
proof (intro conjI allI impI ballI)
  show "wf_map (hb_jobs h')" "wf_map (hb_jobs_by_client h)" using ix wf by (simp_all add: job_index_def)
  show "distinct (jobs_of h cid)" for cid using ix by (rule job_index_distinct)
  show "rq_id (fr_req r) = rid" "rid \<in> set (jobs_of h (fr_client_id r))"
    if "mget (hb_jobs h') rid = Some r" for rid r
    using that get frame job_indexD [OF ix, of rid] by auto
  show "\<exists>r. mget (hb_jobs h') rid = Some r \<and> fr_client_id r = cid"
    if held: "rid \<in> set (jobs_of h cid)" for rid cid
    using job_index_held [OF ix held] get frame by (metis option.simps(9))
qed

lemma hub_exact_upd_live [inv_intros]:
  assumes ex: "hub_exact d h"
  shows "hub_exact d (upd_live h rid f)"
proof -
  have "wf_map (hb_jobs (upd_live h rid f))"
    using ex by (auto simp: hub_exact_def job_index_def upd_live_def split: option.split)
  then have "job_index (upd_live h rid f)"
    using ex job_index_map [of h "upd_live h rid f"
        "\<lambda>k r. if k = rid then r\<lparr>fr_live := map_option f (fr_live r)\<rparr> else r"]
    by (simp add: hub_exact_def gomap_simps option.map_ident)
  then show ?thesis using ex by (simp add: hub_exact_def slots_exact_def)
qed

lemma chunk_live_exact:
  assumes "hub_exact d h" and "chunk_live h now cid msg = (msg', h', evs)"
  shows "hub_exact d h'"
  using assms by (auto simp: chunk_live_def Let_def split: option.splits if_splits
      intro: hub_exact_upd_live)

lemma untrack_decr_exact:
  assumes "hub_exact d h" and "untrack_job_rec h now rid cid = (Some r, h', evs)"
  shows "hub_exact d (decr_in_flight h' cid)"
  using hub_exact_drop_decr [OF assms(1)] untrack_job_rec_Some [OF assms(2)] by blast

lemma dispatch_register_exact: "hub_exact d h \<Longrightarrow> hub_exact d (fst (dispatch_register h cid im))"
  by (auto simp: dispatch_register_def Let_def intro!: hub_exact_send hub_exact_upd)

lemma dispatch_draining_exact: "hub_exact d h \<Longrightarrow> hub_exact d (fst (dispatch_draining h cid))"
  by (auto simp: dispatch_draining_def intro!: hub_exact_upd)

lemma dispatch_local_busy_exact: "hub_exact d h \<Longrightarrow> hub_exact d (fst (dispatch_local_busy h cid im))"
  by (auto simp: dispatch_local_busy_def Let_def intro!: hub_exact_upd split: option.split)

lemma dispatch_chunk_exact:
  assumes "hub_exact d h"
  shows "hub_exact d (fst (dispatch_chunk h now cid im))"
proof -
  obtain msg h1 evs1 where live: "chunk_live h now cid (chunk_of im) = (msg, h1, evs1)"
    by (metis prod_cases3)
  have ex: "hub_exact d h1" by (rule chunk_live_exact [OF assms live])
  show ?thesis
  proof (cases "ck_done msg")
    case False
    then show ?thesis using live ex by (simp add: dispatch_chunk_def)
  next
    case True
    obtain r h2 evs2 where un: "untrack_job_rec h1 now (ck_request_id msg) cid = (r, h2, evs2)"
      by (metis prod_cases3)
    show ?thesis
    proof (cases r)
      case None
      then show ?thesis using live True un ex untrack_job_rec_None(1)
        by (fastforce simp: dispatch_chunk_def)
    next
      case (Some x)
      then show ?thesis using live True un untrack_decr_exact [OF ex]
        by (simp add: dispatch_chunk_def)
    qed
  qed
qed

lemma dispatch_error_exact:
  assumes "hub_exact d h"
  shows "hub_exact d (fst (dispatch_error h now cid im))"
proof (cases "untrack_job_rec h now (im_request_id im) cid")
  case (fields r h1 evs)
  then show ?thesis
    using assms untrack_job_rec_None(1) [of h now "im_request_id im" cid h1 evs]
      untrack_decr_exact [OF assms]
    by (cases r) (auto simp: dispatch_error_def)
qed

lemma dispatch_release_exact:
  assumes "hub_exact d h"
  shows "hub_exact d (fst (dispatch_release h now cid im))"
proof -
  let ?h0 = "if im_reason im = release_shutdown
      then upd_client h cid (\<lambda>c. c\<lparr>cl_draining := True\<rparr>) else h"
  have ex: "hub_exact d ?h0" using assms by (auto intro!: hub_exact_upd)
  show ?thesis
  proof (cases "untrack_job_rec ?h0 now (im_request_id im) cid")
    case (fields r h1 evs)
    then show ?thesis
      using ex untrack_job_rec_None(1) [of ?h0 now "im_request_id im" cid h1 evs]
        untrack_decr_exact [OF ex]
      by (cases r) (auto simp: dispatch_release_def Let_def)
  qed
qed

lemma dispatch_exact [inv_intros]:
  "hub_exact d h \<Longrightarrow> hub_exact d (fst (dispatch h now cid data))"
  by (auto simp: dispatch_def dispatch_register_exact dispatch_draining_exact
      dispatch_local_busy_exact dispatch_chunk_exact dispatch_error_exact dispatch_release_exact
      split: option.split)

end
