(* ===== verification/Hub_Lifecycle.thy ===== *)
theory Hub_Lifecycle
  imports Hub_Dispatch
begin

text \<open>
  What happens to the jobs of the hub when their caller gives up (\<open>CancelRequest\<close>), when
  their worker falls silent (\<open>handleExpiredLeases\<close>) and when its connection ends
  (\<open>ServeWS\<close>): the counters stay exact, and every job gets one outcome.
\<close>

section \<open>Connecting\<close>

lemma connect_exact [inv_intros]:
  assumes ex: "hub_exact d h" and new: "\<And>rid. holder_of h rid \<noteq> Some cid" and pend: "d cid = 0"
  shows "hub_exact d (connect h cid name owner token slots)"
proof -
  have "jobs_of h cid = []"
    using new holder_of_held [of h _ cid] ex by (force simp: hub_exact_def neq_Nil_conv)
  moreover have "job_index (connect h cid name owner token slots) = job_index h"
    by (rule job_index_frame) (simp_all add: connect_def)
  ultimately show ?thesis using ex pend
    by (auto simp: hub_exact_def slots_exact_def connect_def gomap_simps)
qed

lemma connect_holder [simp]: "holder_of (connect h cid name owner token slots) = holder_of h"
  by (rule holder_of_frame) (simp add: connect_def)

section \<open>Cancelling\<close>

lemma mget_map_values: "mget (map (\<lambda>(k, c). (k, f c)) m) k = map_option f (mget m k)"
  by (simp add: map_of_map)

lemma keys_map_values: "mkeys (map (\<lambda>(k, c). (k, f c)) m) = mkeys m"
  by (simp add: case_prod_beta comp_def)

lemma map_clients_exact:
  assumes ex: "hub_exact d h" and f: "\<And>c. cl_id (f c) = cl_id c" "\<And>c. cl_in_flight (f c) = cl_in_flight c"
  shows "hub_exact d (h\<lparr>hb_clients := map (\<lambda>(k, c). (k, f c)) (hb_clients h)\<rparr>)"
proof -
  let ?h = "h\<lparr>hb_clients := map (\<lambda>(k, c). (k, f c)) (hb_clients h)\<rparr>"
  have "job_index ?h = job_index h" by (rule job_index_frame) simp_all
  moreover have "slots_exact d ?h"
    using ex f by (auto simp: hub_exact_def slots_exact_def mget_map_values keys_map_values
        simp del: map_map)
  ultimately show ?thesis using ex by (simp add: hub_exact_def)
qed

lemma broadcast_exact [inv_intros]: "hub_exact d h \<Longrightarrow> hub_exact d (broadcast h m)"
  unfolding broadcast_def by (rule map_clients_exact) simp_all

lemma set_client_owner_slots_exact [inv_intros]:
  "hub_exact d h \<Longrightarrow> hub_exact d (set_client_owner_slots h token model slots)"
  unfolding set_client_owner_slots_def by (rule map_clients_exact) simp_all

lemma close_by_token_exact [inv_intros]: "hub_exact d h \<Longrightarrow> hub_exact d (close_by_token h token)"
  unfolding close_by_token_def by (rule map_clients_exact) (simp_all add: client_close_def)

lemma cancel_request_exact [inv_intros]:
  assumes "hub_exact d h"
  shows "hub_exact d (fst (cancel_request h rid))"
  using assms
  by (auto simp: cancel_request_def cancel_untrack_def
      intro!: broadcast_exact hub_exact_drop_decr split: option.split)

lemma cancel_request_holder: "holder_of (fst (cancel_request h rid)) = (holder_of h)(rid := None)"
proof -
  have "holder_of (broadcast h2 m) = holder_of h2" for h2 m
    by (rule holder_of_frame) (simp add: broadcast_def)
  then show ?thesis
    by (auto simp: cancel_request_def cancel_untrack_def hub_ops.decr_held holder_of_drop
        split: option.split) (auto simp: holder_of_def)
qed

section \<open>Expired leases\<close>

definition pending_of :: "(string \<times> in_flight_record) list \<Rightarrow> string \<Rightarrow> 32 word" where
  "pending_of rs cid = of_nat (length (filter (\<lambda>p. fr_client_id (snd p) = cid) rs))"

lemma pending_of_simps [simp]:
  "pending_of [] = (\<lambda>_. 0)"
  "pending_of (p # rs) = (pending_of rs)(fr_client_id (snd p) := pending_of rs (fr_client_id (snd p)) + 1)"
  by (auto simp: pending_of_def fun_eq_iff)

lemma drop_expired_exact:
  assumes "hub_exact d h" and "distinct (map fst rs)"
    and "\<And>rid r. (rid, r) \<in> set rs \<Longrightarrow> mget (hb_jobs h) rid = Some r"
  shows "hub_exact (\<lambda>c. d c + pending_of rs c) (drop_expired rs h)"
  using assms
proof (induction rs arbitrary: d h)
  case Nil
  then show ?case by (simp add: drop_expired_def)
next
  case (Cons p rs)
  obtain rid r where p: "p = (rid, r)" by fastforce
  let ?h = "drop_job h rid (fr_client_id r)" and ?d = "d(fr_client_id r := d (fr_client_id r) + 1)"
  have ex: "hub_exact ?d ?h" using Cons.prems p by (auto intro: hub_exact_drop)
  have get: "mget (hb_jobs ?h) k = Some x" if "(k, x) \<in> set rs" for k x
  proof -
    have "k \<noteq> rid" using Cons.prems(2) p that by (force simp: image_iff)
    then show ?thesis using Cons.prems(3) that by (simp add: gomap_simps)
  qed
  have "distinct (map fst rs)" using Cons.prems(2) by simp
  from Cons.IH [OF ex this get]
  have "hub_exact (\<lambda>c. ?d c + pending_of rs c) (drop_expired rs ?h)" .
  moreover have "(\<lambda>c. ?d c + pending_of rs c) = (\<lambda>c. d c + pending_of (p # rs) c)"
    using p by (auto simp: fun_eq_iff)
  ultimately show ?case using p by (simp add: drop_expired_def)
qed

lemma reclaim_exact:
  "hub_exact (\<lambda>c. d c + pending_of rs c) h \<Longrightarrow> hub_exact d (fold reclaim_one rs h)"
proof (induction rs arbitrary: h)
  case Nil
  then show ?case by simp
next
  case (Cons p rs)
  let ?c = "fr_client_id (snd p)"
  have "hub_exact ((\<lambda>c. d c + pending_of (p # rs) c)(?c := d ?c + pending_of (p # rs) ?c - 1))
      (decr_in_flight h ?c)"
    by (rule hub_exact_decr [OF Cons.prems])
  moreover have "(\<lambda>c. d c + pending_of (p # rs) c)(?c := d ?c + pending_of (p # rs) ?c - 1)
      = (\<lambda>c. d c + pending_of rs c)"
    by (auto simp: fun_eq_iff)
  ultimately have "hub_exact (\<lambda>c. d c + pending_of rs c) (reclaim_one p h)"
    by (auto simp: reclaim_one_def Let_def intro!: hub_exact_send)
  then show ?case using Cons.IH by simp
qed

lemma expired_jobs_in:
  assumes "job_index h" and "(rid, r) \<in> set (expired_jobs h now)"
  shows "mget (hb_jobs h) rid = Some r" and "lease_deadline (hb_lease_duration h) r < now"
  using assms by (auto simp: expired_jobs_def job_index_def)

lemma expired_jobs_distinct: "job_index h \<Longrightarrow> distinct (map fst (expired_jobs h now))"
  by (auto simp: expired_jobs_def job_index_def distinct_map_filter)

lemma handle_expired_leases_exact [inv_intros]:
  assumes ex: "hub_exact d h"
  shows "hub_exact d (fst (handle_expired_leases h now))"
proof -
  have ix: "job_index h" using ex by (simp add: hub_exact_def)
  have "hub_exact (\<lambda>c. d c + pending_of (expired_jobs h now) c) (drop_expired (expired_jobs h now) h)"
    by (rule drop_expired_exact [OF ex expired_jobs_distinct [OF ix]])
      (rule expired_jobs_in [OF ix])
  from reclaim_exact [OF this] ex show ?thesis
    by (simp add: handle_expired_leases_def Let_def drop_expired_def)
qed

lemma drop_expired_holder:
  "holder_of (drop_expired rs h) rid = (if rid \<in> fst ` set rs then None else holder_of h rid)"
  by (induction rs arbitrary: h) (auto simp: drop_expired_def holder_of_drop)

lemma reclaim_holder: "holder_of (fold reclaim_one rs h) = holder_of h"
  by (induction rs arbitrary: h)
    (simp_all add: reclaim_one_def Let_def hub_ops.send_held hub_ops.decr_held)

lemma handle_expired_leases_holder:
  assumes ix: "job_index h"
  shows "holder_of (fst (handle_expired_leases h now)) rid =
    (case mget (hb_jobs h) rid of
       None \<Rightarrow> None
     | Some r \<Rightarrow> if lease_deadline (hb_lease_duration h) r < now then None else Some (fr_client_id r))"
proof -
  have "rid \<in> fst ` set (expired_jobs h now) \<longleftrightarrow>
      (\<exists>r. mget (hb_jobs h) rid = Some r \<and> lease_deadline (hb_lease_duration h) r < now)"
  proof -
    have wf: "wf_map (hb_jobs h)" using ix by (simp add: job_index_def)
    show ?thesis by (auto simp: expired_jobs_def image_iff wf_map_set_iff [OF wf])
  qed
  moreover have "holder_of (fst (handle_expired_leases h now)) rid =
      (if rid \<in> fst ` set (expired_jobs h now) then None else holder_of h rid)"
    by (simp add: handle_expired_leases_def Let_def reclaim_holder drop_expired_holder)
  moreover have "holder_of h rid = map_option fr_client_id (mget (hb_jobs h) rid)"
    by (simp add: holder_of_def)
  ultimately show ?thesis by (auto split: option.split)
qed

text \<open>
  A job that has produced output keeps its slot as long as its worker was heard from within a
  lease; one that has not is reclaimed a lease after its dispatch.
\<close>

lemma lease_deadline_silence:
  assumes "fr_live r = Some l" and "lv_produced_output l" and "lv_last_activity l \<noteq> 0"
  shows "lease_deadline d r = max (fr_lease_expiry r) (lv_last_activity l + d)"
  using assms by (simp add: lease_deadline_def Let_def max_def)

lemma lease_deadline_floor: "fr_lease_expiry r \<le> lease_deadline d r"
  by (auto simp: lease_deadline_def Let_def split: option.split)

section \<open>Disconnecting\<close>

lemma hub_exact_absent:
  "mget (hb_clients h) cid = None \<Longrightarrow> hub_exact (d(cid := x)) h = hub_exact d h"
  unfolding hub_exact_def slots_exact_def by (metis fun_upd_apply option.distinct(1))

definition orphan_outcome :: "hub \<Rightarrow> in_flight_record \<Rightarrow> hub_event list" where
  "orphan_outcome h r =
     (if retryable h r then [Ev_Release (retry_request (fr_req r))]
      else ev_error h (disconnect_error (rq_id (fr_req r))))"

lemma drop_job_outcome [simp]:
  "orphan_outcome (drop_job h rid cid) = orphan_outcome h"
  "hb_latency (drop_job h rid cid) = hb_latency h"
  by (simp_all add: orphan_outcome_def retryable_def ev_error_def drop_job_def fun_eq_iff)

text \<open>
  The sweep over the orphans: every one of them is untracked, gets its outcome and frees its
  slot; nothing else changes.
\<close>

lemma orphan_sweep:
  assumes "hub_exact d h" and "mget (hb_clients h) cid = None"
    and "distinct (map (\<lambda>r. rq_id (fr_req r)) rs)"
    and "\<And>r. r \<in> set rs \<Longrightarrow> mget (hb_jobs h) (rq_id (fr_req r)) = Some r \<and> fr_client_id r = cid"
    and "fold (orphan_one now cid) rs (h, c, evs) = (h2, c2, evs2)"
  shows "hub_exact d h2 \<and> hb_clients h2 = hb_clients h \<and>
    holder_of h2 = (\<lambda>rid. if rid \<in> (\<lambda>r. rq_id (fr_req r)) ` set rs then None else holder_of h rid) \<and>
    cl_in_flight c2 = cl_in_flight c - of_nat (length rs) \<and>
    set evs2 \<supseteq> set evs \<union> (\<Union>r \<in> set rs. set (orphan_outcome h r)) \<and>
    hb_on_available h2 = hb_on_available h"
  using assms
proof (induction rs arbitrary: h c evs)
  case Nil
  then show ?case by simp
next
  case (Cons r rs)
  let ?rid = "rq_id (fr_req r)"
  let ?h = "drop_job h ?rid cid"
  have get: "mget (hb_jobs h) ?rid = Some r" and cid: "fr_client_id r = cid"
    using Cons.prems(4) [of r] by auto
  then obtain evs1 where un: "untrack_job_rec h now ?rid cid = (Some r, ?h, evs1)"
    by (simp add: untrack_job_rec_def)
  have step: "orphan_one now cid r (h, c, evs) = (?h, client_decr c, evs @ evs1 @ orphan_outcome h r)"
    using un by (simp add: orphan_one_def orphan_outcome_def retryable_def ev_error_def)
  have ex: "hub_exact d ?h"
    using hub_exact_drop [OF Cons.prems(1) get] Cons.prems(2) hub_exact_absent [of ?h cid] cid by simp
  have rest: "mget (hb_jobs ?h) (rq_id (fr_req x)) = Some x \<and> fr_client_id x = cid"
    if "x \<in> set rs" for x
  proof -
    have "rq_id (fr_req x) \<noteq> ?rid" using Cons.prems(3) that by (force simp: image_iff)
    then show ?thesis using Cons.prems(4) that by (simp add: gomap_simps)
  qed
  have IH: "hub_exact d h2 \<and> hb_clients h2 = hb_clients ?h \<and>
    holder_of h2 = (\<lambda>rid. if rid \<in> (\<lambda>r. rq_id (fr_req r)) ` set rs then None else holder_of ?h rid) \<and>
    cl_in_flight c2 = cl_in_flight (client_decr c) - of_nat (length rs) \<and>
    set evs2 \<supseteq> set (evs @ evs1 @ orphan_outcome h r) \<union> (\<Union>r \<in> set rs. set (orphan_outcome ?h r)) \<and>
    hb_on_available h2 = hb_on_available ?h"
    using Cons.prems(2,3,5) step rest by (intro Cons.IH [OF ex]) auto
  then show ?case by (auto simp: client_decr_def holder_of_drop fun_eq_iff)
qed

lemma held_records:
  fixes cid :: string
  assumes ix: "job_index h"
  defines "rs \<equiv> in_flight_jobs_by_client_id h cid"
  shows "\<And>r. r \<in> set rs \<longleftrightarrow> mget (hb_jobs h) (rq_id (fr_req r)) = Some r \<and> fr_client_id r = cid"
    and "distinct (map (\<lambda>r. rq_id (fr_req r)) rs)" and "length rs = length (jobs_of h cid)"
proof -
  have all: "filter (\<lambda>x. mget (hb_jobs h) x \<noteq> None) (jobs_of h cid) = jobs_of h cid"
    using ix by (intro filter_True) (auto elim: job_index_held)
  then have rs: "rs = map (\<lambda>x. the (mget (hb_jobs h) x)) (jobs_of h cid)"
    by (simp add: rs_def in_flight_jobs_by_client_id_def List.map_filter_def comp_def)
  have id: "rq_id (fr_req (the (mget (hb_jobs h) x))) = x" if "x \<in> set (jobs_of h cid)" for x
    using ix that job_indexD(1) [OF ix] by (auto elim!: job_index_held)
  then have "map (\<lambda>r. rq_id (fr_req r)) rs = jobs_of h cid"
    by (simp add: rs map_idI)
  then show "distinct (map (\<lambda>r. rq_id (fr_req r)) rs)" and "length rs = length (jobs_of h cid)"
    using job_index_distinct [OF ix] by (simp_all add: rs)
  show "r \<in> set rs \<longleftrightarrow> mget (hb_jobs h) (rq_id (fr_req r)) = Some r \<and> fr_client_id r = cid" for r
  proof
    assume "r \<in> set rs"
    then obtain x where x: "x \<in> set (jobs_of h cid)" and r: "r = the (mget (hb_jobs h) x)"
      by (auto simp: rs)
    from ix x obtain r' where "mget (hb_jobs h) x = Some r'" "fr_client_id r' = cid"
      by (rule job_index_held)
    then show "mget (hb_jobs h) (rq_id (fr_req r)) = Some r \<and> fr_client_id r = cid"
      using r id [OF x] by simp
  next
    assume r: "mget (hb_jobs h) (rq_id (fr_req r)) = Some r \<and> fr_client_id r = cid"
    then have "rq_id (fr_req r) \<in> set (jobs_of h cid)" using job_indexD(2) [OF ix] by blast
    then show "r \<in> set rs" using r by (force simp: rs)
  qed
qed

lemma unregister_exact:
  assumes "hub_exact d h"
  shows "hub_exact d (unregister_client h now cid c)"
proof -
  have "job_index (unregister_client h now cid c) = job_index h"
    by (rule job_index_frame) (simp_all add: unregister_client_def)
  then show ?thesis using assms
    by (auto simp: hub_exact_def slots_exact_def unregister_client_def gomap_simps)
qed

lemma disconnect_split:
  assumes ex: "hub_exact d h" and c: "mget (hb_clients h) cid = Some c"
    and dis: "disconnect h now cid = (h', c', evs)"
  shows "hub_exact d h'" and "hb_clients h' = mdel cid (hb_clients h)"
    and "holder_of h' = (\<lambda>rid. if holder_of h rid = Some cid then None else holder_of h rid)"
    and "\<exists>c2. c' = Some c2 \<and> cl_in_flight c2 = d cid"
    and "\<And>r. mget (hb_jobs h) (rq_id (fr_req r)) = Some r \<Longrightarrow> fr_client_id r = cid \<Longrightarrow>
      set (orphan_outcome h r) \<subseteq> set evs"
proof -
  let ?h1 = "unregister_client h now cid (close_send c)"
  let ?rs = "in_flight_jobs_by_client_id h cid"
  have ix: "job_index h" using ex by (simp add: hub_exact_def)
  have rs_eq: "in_flight_jobs_by_client_id ?h1 cid = ?rs"
    by (simp add: in_flight_jobs_by_client_id_def unregister_client_def)
  obtain h2 c2 evs2 where sweep: "fold (orphan_one now cid) ?rs (?h1, close_send c, []) = (h2, c2, evs2)"
    by (metis prod_cases3)
  have res: "h' = h2\<lparr>hb_jobs_by_client := mdel cid (hb_jobs_by_client h2)\<rparr>" "c' = Some c2"
    "set evs2 \<subseteq> set evs"
    using dis c sweep rs_eq by (auto simp: disconnect_def Let_def)
  have jobs1: "hb_jobs ?h1 = hb_jobs h" "holder_of ?h1 = holder_of h"
    "hb_clients ?h1 = mdel cid (hb_clients h)"
    by (simp_all add: unregister_client_def holder_of_def fun_eq_iff)
  have gone: "mget (hb_clients ?h1) cid = None" by (simp add: jobs1 gomap_simps)
  note held = held_records [OF ix, where cid = cid]
  have all: "hub_exact d h2 \<and> hb_clients h2 = hb_clients ?h1 \<and>
    holder_of h2 = (\<lambda>rid. if rid \<in> (\<lambda>r. rq_id (fr_req r)) ` set ?rs then None else holder_of ?h1 rid) \<and>
    cl_in_flight c2 = cl_in_flight (close_send c) - of_nat (length ?rs) \<and>
    set evs2 \<supseteq> set [] \<union> (\<Union>r \<in> set ?rs. set (orphan_outcome ?h1 r)) \<and>
    hb_on_available h2 = hb_on_available ?h1"
    by (rule orphan_sweep [OF unregister_exact [OF ex] gone held(2) _ sweep])
      (simp add: held(1) jobs1)
  have ids: "rid \<in> (\<lambda>r. rq_id (fr_req r)) ` set ?rs \<longleftrightarrow> holder_of h rid = Some cid" for rid
  proof
    assume "rid \<in> (\<lambda>r. rq_id (fr_req r)) ` set ?rs"
    then show "holder_of h rid = Some cid" using held(1) by (auto simp: holder_of_def)
  next
    assume "holder_of h rid = Some cid"
    then obtain r where r: "mget (hb_jobs h) rid = Some r" "fr_client_id r = cid"
      by (auto simp: holder_of_def)
    then have "r \<in> set ?rs" "rq_id (fr_req r) = rid" using held(1) job_indexD(1) [OF ix] by auto
    then show "rid \<in> (\<lambda>r. rq_id (fr_req r)) ` set ?rs" by blast
  qed
  have holder2: "holder_of h2 = (\<lambda>rid. if holder_of h rid = Some cid then None else holder_of h rid)"
    using all ids jobs1 by (simp add: fun_eq_iff)
  have ix2: "job_index h2" and ex2: "slots_exact d h2" using all by (auto simp: hub_exact_def)
  have "jobs_of h2 cid = []"
    using holder_of_held [OF ix2, of _ cid] holder2 by (metis last_in_set option.distinct(1))
  then have same: "jobs_of h' k = jobs_of h2 k" for k
    by (simp add: res gomap_simps)
  have "job_index h'" using ix2 unfolding job_index_def same by (simp add: res)
  moreover have "slots_exact d h'" using ex2 unfolding slots_exact_def same by (simp add: res)
  ultimately show "hub_exact d h'" by (simp add: hub_exact_def)
  show "hb_clients h' = mdel cid (hb_clients h)" using all jobs1 by (simp add: res)
  show "holder_of h' = (\<lambda>rid. if holder_of h rid = Some cid then None else holder_of h rid)"
    using holder2 holder_of_frame [of h' h2] by (simp add: res)
  have "cl_in_flight (close_send c) = of_nat (length (jobs_of h cid)) + d cid"
    using ex c by (simp add: hub_exact_def slots_exact_def close_send_def)
  then show "\<exists>c2. c' = Some c2 \<and> cl_in_flight c2 = d cid"
    using all res held(3) by simp
  show "set (orphan_outcome h r) \<subseteq> set evs"
    if "mget (hb_jobs h) (rq_id (fr_req r)) = Some r" "fr_client_id r = cid" for r
  proof -
    have "orphan_outcome ?h1 = orphan_outcome h"
      by (simp add: orphan_outcome_def retryable_def ev_error_def unregister_client_def fun_eq_iff)
    then show ?thesis using all res(3) held(1) [of r] that by auto
  qed
qed

end
