(* ===== verification/Hub_Outcomes.thy ===== *)
theory Hub_Outcomes
  imports Hub_Lifecycle
begin

text \<open>
  What becomes of a job: the effect of every worker message and of a disconnect on who holds
  what and on what the rest of the router is told. A job leaves the hub with exactly one
  outcome, and only a job that has shown its caller nothing is offered again.
\<close>

section \<open>Events\<close>

definition released :: "hub_event list \<Rightarrow> inference_request list" where
  "released evs = List.map_filter (\<lambda>e. case e of Ev_Release r \<Rightarrow> Some r | _ \<Rightarrow> None) evs"

text \<open>The events that end a request for its caller.\<close>

definition finished :: "hub_event list \<Rightarrow> string list" where
  "finished evs = List.map_filter (\<lambda>e. case e of
       Ev_Chunk c \<Rightarrow> if ck_done c then Some (ck_request_id c) else None
     | Ev_Error e \<Rightarrow> Some (em_request_id e)
     | _ \<Rightarrow> None) evs"

lemma map_filter_append: "List.map_filter f (xs @ ys) = List.map_filter f xs @ List.map_filter f ys"
  by (simp add: List.map_filter_def)

lemma released_simps [simp]:
  "released [] = []" "released (xs @ ys) = released xs @ released ys"
  "released (Ev_Release r # xs) = r # released xs" "released (Ev_Error e # xs) = released xs"
  "released (Ev_Chunk c # xs) = released xs" "released (Ev_Available # xs) = released xs"
  "released (Ev_Duration m d # xs) = released xs" "released (Ev_TTFT m d # xs) = released xs"
  "released (Ev_Queue_Wait m d # xs) = released xs" "released (Ev_Perf s # xs) = released xs"
  "released (Ev_Prompt_Throughput m t # xs) = released xs"
  "released (Ev_Gen_Throughput m t # xs) = released xs" "released (Ev_Tokens m a b # xs) = released xs"
  by (simp_all add: released_def map_filter_append map_filter_Cons map_filter_Nil)

lemma finished_simps [simp]:
  "finished [] = []" "finished (xs @ ys) = finished xs @ finished ys"
  "finished (Ev_Release r # xs) = finished xs" "finished (Ev_Error e # xs) = em_request_id e # finished xs"
  "finished (Ev_Chunk c # xs) = (if ck_done c then ck_request_id c # finished xs else finished xs)"
  "finished (Ev_Available # xs) = finished xs" "finished (Ev_Duration m d # xs) = finished xs"
  "finished (Ev_TTFT m d # xs) = finished xs" "finished (Ev_Queue_Wait m d # xs) = finished xs"
  "finished (Ev_Perf s # xs) = finished xs"
  "finished (Ev_Prompt_Throughput m t # xs) = finished xs"
  "finished (Ev_Gen_Throughput m t # xs) = finished xs" "finished (Ev_Tokens m a b # xs) = finished xs"
  by (simp_all add: finished_def map_filter_append map_filter_Cons map_filter_Nil)

lemma quiet_available [simp]: "released (ev_available h) = []" "finished (ev_available h) = []"
  by (simp_all add: ev_available_def)

lemma quiet_perf [simp]: "released (record_perf h r u t) = []" "finished (record_perf h r u t) = []"
  by (simp_all add: record_perf_def Let_def split: option.split)

lemma quiet_first_delta [simp]:
  "released (first_delta_events h now r) = []" "finished (first_delta_events h now r) = []"
  by (simp_all add: first_delta_events_def)

lemma quiet_untrack:
  "untrack_job_rec h now rid cid = (r, h', evs) \<Longrightarrow> released evs = [] \<and> finished evs = []"
  by (auto simp: untrack_job_rec_def split: option.splits if_splits)

lemma ev_error_simps [simp]:
  "released (ev_error h e) = []" "finished (ev_error h e) = (if hb_on_error h then [em_request_id e] else [])"
  by (simp_all add: ev_error_def)

section \<open>The hub keeps its wiring\<close>

definition wired :: "hub \<Rightarrow> bool" where
  "wired h \<longleftrightarrow> hb_on_chunk h \<and> hb_on_error h \<and> hb_on_release h \<and> hb_on_available h"

definition online :: "hub \<Rightarrow> string set" where
  "online h = fst ` set (hb_clients h)"

text \<open>
  A change of the hub that keeps its callbacks and its connections, and of the jobs still on
  record only the live statistics.
\<close>

definition job_core :: "in_flight_record \<Rightarrow> string \<times> inference_request" where
  "job_core r = (fr_client_id r, fr_req r)"

definition core_of :: "hub \<Rightarrow> string \<Rightarrow> (string \<times> inference_request) option" where
  "core_of h rid = map_option job_core (mget (hb_jobs h) rid)"

lemma holder_core: "holder_of h rid = map_option fst (core_of h rid)"
  by (simp add: holder_of_def core_of_def job_core_def option.map_comp comp_def)

definition same_frame :: "hub \<Rightarrow> hub \<Rightarrow> bool" where
  "same_frame h h' \<longleftrightarrow> wired h' = wired h \<and> online h' = online h"

lemma same_frame_refl [simp]: "same_frame h h"
  by (simp add: same_frame_def)

lemma same_frame_trans: "same_frame h1 h2 \<Longrightarrow> same_frame h2 h3 \<Longrightarrow> same_frame h1 h3"
  by (simp add: same_frame_def)

lemma online_upd [simp]: "online (upd_client h cid f) = online h"
  by (auto simp: online_def upd_client_def dest: mget_SomeD split: option.split)
    (force dest: mget_SomeD)+

lemma wired_upd [simp]: "wired (upd_client h cid f) = wired h"
  by (simp add: wired_def upd_client_def split: option.split)

lemma same_frame_upd [simp]: "same_frame h (upd_client h' cid f) = same_frame h h'"
  by (simp add: same_frame_def)

lemma same_frame_drop [simp]: "same_frame h (drop_job h' rid cid) = same_frame h h'"
  by (simp add: same_frame_def online_def wired_def drop_job_def)

lemma same_frame_live [simp]: "same_frame h (upd_live h' rid f) = same_frame h h'"
  by (simp add: same_frame_def online_def wired_def upd_live_def split: option.split)

lemma same_frame_decr [simp]: "same_frame h (decr_in_flight h' cid) = same_frame h h'"
  by (simp add: decr_in_flight_def)

lemma same_frame_send [simp]: "same_frame h (snd (send_to_client h' cid m)) = same_frame h h'"
  by (simp add: send_to_client_hub)

lemma core_upd [simp]: "core_of (upd_client h cid f) = core_of h"
  by (simp add: core_of_def fun_eq_iff)

lemma core_decr [simp]: "core_of (decr_in_flight h cid) = core_of h"
  by (simp add: decr_in_flight_def)

lemma core_send [simp]: "core_of (snd (send_to_client h cid m)) = core_of h"
  by (simp add: send_to_client_hub)

lemma core_live [simp]: "core_of (upd_live h rid f) = core_of h"
proof
  have "map_option job_core (map_option (\<lambda>r. r\<lparr>fr_live := map_option f (fr_live r)\<rparr>) x) =
      map_option job_core x" for x
    by (cases x) (simp_all add: job_core_def)
  then show "core_of (upd_live h rid f) k = core_of h k" for k
    by (simp add: core_of_def gomap_simps)
qed

lemma core_drop [simp]: "core_of (drop_job h rid cid) = (core_of h)(rid := None)"
  by (auto simp: core_of_def gomap_simps)

lemma same_untrack:
  assumes "untrack_job_rec h now rid cid = (r, h', evs)"
  shows "same_frame h h'" and "core_of h' = (if r = None then core_of h else (core_of h)(rid := None))"
  using assms by (auto simp: untrack_job_rec_def split: option.splits if_splits)

section \<open>One message, one outcome\<close>

text \<open>What a job is offered again as, and when: \<open>rec\<close> is its record, \<open>r\<close> the new request.\<close>

definition fair_release :: "in_flight_record \<Rightarrow> inference_request \<Rightarrow> bool" where
  "fair_release rec r \<longleftrightarrow> \<not> produced_output rec \<and>
     ((r = retry_request (fr_req rec) \<and> rq_attempts r < max_attempts) \<or> r = unresolve (fr_req rec))"

lemma retry_request_id [simp]: "rq_id (retry_request r) = rq_id r"
  by (simp add: retry_request_def Let_def)

lemma unresolve_id [simp]: "rq_id (unresolve r) = rq_id r"
  by (simp add: unresolve_def)

lemma fair_release_id:
  assumes "job_index h" and "mget (hb_jobs h) rid = Some rec" and "fair_release rec r"
  shows "rq_id r = rid"
  using job_indexD(1) [OF assms(1,2)] assms(3) by (auto simp: fair_release_def)

definition message_effect :: "hub \<Rightarrow> string \<Rightarrow> hub \<Rightarrow> hub_event list \<Rightarrow> bool" where
  "message_effect h cid h' evs \<longleftrightarrow> same_frame h h' \<and>
     ((core_of h' = core_of h \<and> released evs = []) \<or>
      (\<exists>rid rec. mget (hb_jobs h) rid = Some rec \<and> fr_client_id rec = cid \<and>
         core_of h' = (core_of h)(rid := None) \<and>
         ((released evs = [] \<and> finished evs = [rid]) \<or>
          (\<exists>r. released evs = [r] \<and> finished evs = [] \<and> fair_release rec r))))"

lemma quiet_effect: "same_frame h h' \<Longrightarrow> core_of h' = core_of h \<Longrightarrow> released evs = [] \<Longrightarrow> message_effect h cid h' evs"
  by (simp add: message_effect_def)

lemma effect_register: "message_effect h cid (fst (dispatch_register h cid im)) (snd (dispatch_register h cid im))"
  by (rule quiet_effect) (simp_all add: dispatch_register_def Let_def)

lemma effect_draining: "message_effect h cid (fst (dispatch_draining h cid)) (snd (dispatch_draining h cid))"
  by (rule quiet_effect) (simp_all add: dispatch_draining_def)

lemma effect_local_busy: "message_effect h cid (fst (dispatch_local_busy h cid im)) (snd (dispatch_local_busy h cid im))"
  by (rule quiet_effect) (simp_all add: dispatch_local_busy_def Let_def split: option.split)

lemma chunk_live_quiet:
  assumes "chunk_live h now cid msg = (msg', h', evs)"
  shows "same_frame h h'" and "core_of h' = core_of h" and "released evs = []" and "finished evs = []"
    and "ck_request_id msg' = ck_request_id msg" and "ck_done msg' = ck_done msg"
    and "ck_delta msg' = ck_delta msg"
  using assms by (auto simp: chunk_live_def Let_def split: option.splits if_splits)

lemma core_Some:
  assumes "core_of h' = core_of h" and "mget (hb_jobs h') rid = Some rec"
  obtains rec0 where "mget (hb_jobs h) rid = Some rec0" "job_core rec0 = job_core rec"
proof -
  have "map_option job_core (mget (hb_jobs h) rid) = Some (job_core rec)"
    using fun_cong [OF assms(1), of rid] assms(2) by (simp add: core_of_def)
  then show thesis using that by auto
qed

lemma effect_chunk:
  assumes "wired h"
  shows "message_effect h cid (fst (dispatch_chunk h now cid im)) (snd (dispatch_chunk h now cid im))"
proof -
  obtain msg h1 evs1 where live: "chunk_live h now cid (chunk_of im) = (msg, h1, evs1)"
    by (metis prod_cases3)
  note q = chunk_live_quiet [OF live]
  show ?thesis
  proof (cases "ck_done msg")
    case False
    then show ?thesis using live q by (intro quiet_effect) (simp_all add: dispatch_chunk_def)
  next
    case True
    obtain r h2 evs2 where un: "untrack_job_rec h1 now (ck_request_id msg) cid = (r, h2, evs2)"
      by (metis prod_cases3)
    note s = same_untrack [OF un] and qu = quiet_untrack [OF un]
    show ?thesis
    proof (cases r)
      case None
      then show ?thesis using live q True un s
        by (intro quiet_effect) (auto simp: dispatch_chunk_def intro: same_frame_trans)
    next
      case (Some x)
      from untrack_job_rec_Some [OF un [unfolded Some]]
      have x: "mget (hb_jobs h1) (ck_request_id msg) = Some x" "fr_client_id x = cid" by simp_all
      from core_Some [OF q(2) x(1)] obtain rec0 where
        rec0: "mget (hb_jobs h) (ck_request_id msg) = Some rec0" "job_core rec0 = job_core x" .
      then show ?thesis using live q True un s qu Some x assms
        by (auto simp: message_effect_def dispatch_chunk_def wired_def job_core_def
            intro: same_frame_trans)
    qed
  qed
qed

lemma retryable_fair: "retryable h r \<Longrightarrow> fair_release r (retry_request (fr_req r))"
  by (simp add: retryable_def fair_release_def)

lemma effect_error:
  assumes "wired h"
  shows "message_effect h cid (fst (dispatch_error h now cid im)) (snd (dispatch_error h now cid im))"
proof (cases "untrack_job_rec h now (im_request_id im) cid")
  case (fields r h1 evs1)
  note s = same_untrack [OF fields] and qu = quiet_untrack [OF fields]
  show ?thesis
  proof (cases r)
    case None
    then show ?thesis using fields s by (intro quiet_effect) (simp_all add: dispatch_error_def)
  next
    case (Some x)
    from untrack_job_rec_Some [OF fields [unfolded Some]] show ?thesis
      using fields Some s qu assms retryable_fair [of h x]
      by (auto simp: message_effect_def dispatch_error_def wired_def error_of_def)
  qed
qed

lemma effect_release:
  assumes ix: "job_index h" and "wired h"
  shows "message_effect h cid (fst (dispatch_release h now cid im)) (snd (dispatch_release h now cid im))"
proof -
  let ?h0 = "if im_reason im = release_shutdown
      then upd_client h cid (\<lambda>c. c\<lparr>cl_draining := True\<rparr>) else h"
  have h0: "same_frame h ?h0" "core_of ?h0 = core_of h" "hb_jobs ?h0 = hb_jobs h" by simp_all
  show ?thesis
  proof (cases "untrack_job_rec ?h0 now (im_request_id im) cid")
    case (fields r h1 evs1)
    note s = same_untrack [OF fields] and qu = quiet_untrack [OF fields]
    have frame: "same_frame h h1" using same_frame_trans [OF h0(1) s(1)] .
    show ?thesis
    proof (cases r)
      case None
      then show ?thesis using fields s(2) frame h0
        by (intro quiet_effect) (simp_all add: dispatch_release_def Let_def)
    next
      case (Some x)
      from untrack_job_rec_Some [OF fields [unfolded Some]] h0(3)
      have x: "mget (hb_jobs h) (im_request_id im) = Some x" "fr_client_id x = cid" by simp_all
      have "rq_id (fr_req x) = im_request_id im" using job_indexD(1) [OF ix x(1)] .
      then show ?thesis
        using fields Some s(2) frame h0 qu x assms(2) retryable_fair [of h x]
        by (auto simp: message_effect_def dispatch_release_def Let_def wired_def release_error_def
            fair_release_def)
    qed
  qed
qed

lemma dispatch_effect:
  assumes "job_index h" and "wired h" and "dispatch h now cid data = (h', evs)"
  shows "message_effect h cid h' evs"
proof -
  have "message_effect h cid (fst (dispatch h now cid data)) (snd (dispatch h now cid data))"
    using effect_register effect_draining effect_local_busy effect_chunk [OF assms(2)]
      effect_error [OF assms(2)] effect_release [OF assms(1,2)]
    by (auto simp: dispatch_def quiet_effect split: option.split)
  then show ?thesis using assms(3) by simp
qed

section \<open>One disconnect, one outcome per job\<close>

text \<open>What a disconnect tells the router, apart from measurements: each orphan's outcome in turn.\<close>

lemma orphan_events:
  assumes "distinct (map (\<lambda>r. rq_id (fr_req r)) rs)"
    and "\<And>r. r \<in> set rs \<Longrightarrow> mget (hb_jobs h) (rq_id (fr_req r)) = Some r \<and> fr_client_id r = cid"
    and "fold (orphan_one now cid) rs (h, c, evs) = (h2, c2, evs2)"
  shows "released evs2 = released evs @ concat (map (\<lambda>r. released (orphan_outcome h r)) rs)
    \<and> finished evs2 = finished evs @ concat (map (\<lambda>r. finished (orphan_outcome h r)) rs)
    \<and> core_of h2 = (\<lambda>k. if k \<in> (\<lambda>r. rq_id (fr_req r)) ` set rs then None else core_of h k)
    \<and> same_frame h h2"
  using assms
proof (induction rs arbitrary: h c evs)
  case Nil
  then show ?case by simp
next
  case (Cons r rs)
  let ?rid = "rq_id (fr_req r)"
  let ?h = "drop_job h ?rid cid"
  have get: "mget (hb_jobs h) ?rid = Some r" and cid: "fr_client_id r = cid"
    using Cons.prems(2) [of r] by auto
  then obtain evs1 where un: "untrack_job_rec h now ?rid cid = (Some r, ?h, evs1)"
    by (simp add: untrack_job_rec_def)
  have step: "orphan_one now cid r (h, c, evs) = (?h, client_decr c, evs @ evs1 @ orphan_outcome h r)"
    using un by (simp add: orphan_one_def orphan_outcome_def retryable_def ev_error_def)
  have rest: "mget (hb_jobs ?h) (rq_id (fr_req x)) = Some x \<and> fr_client_id x = cid"
    if "x \<in> set rs" for x
  proof -
    have "rq_id (fr_req x) \<noteq> ?rid" using Cons.prems(1) that by (force simp: image_iff)
    then show ?thesis using Cons.prems(2) that by (simp add: gomap_simps)
  qed
  have tail: "distinct (map (\<lambda>r. rq_id (fr_req r)) rs)" using Cons.prems(1) by simp
  have run: "fold (orphan_one now cid) rs (?h, client_decr c, evs @ evs1 @ orphan_outcome h r) = (h2, c2, evs2)"
    using Cons.prems(3) step by simp
  have "same_frame h ?h" by simp
  with Cons.IH [OF tail rest run] have "same_frame h h2" using same_frame_trans by blast
  with Cons.IH [OF tail rest run] quiet_untrack [OF un] show ?case
    by (auto simp: fun_eq_iff)
qed

text \<open>
  The effect of a disconnect on the router: the jobs of the client are off the record, each was
  either offered again, fairly, or failed to its caller, and no other job is touched.
\<close>

definition disconnect_effect :: "hub \<Rightarrow> string \<Rightarrow> hub \<Rightarrow> hub_event list \<Rightarrow> bool" where
  "disconnect_effect h cid h' evs \<longleftrightarrow> wired h' = wired h \<and> online h' = online h - {cid} \<and>
     core_of h' = (\<lambda>k. if holder_of h k = Some cid then None else core_of h k) \<and>
     distinct (map rq_id (released evs) @ finished evs) \<and>
     (\<forall>k. holder_of h k = Some cid \<longleftrightarrow> k \<in> set (map rq_id (released evs) @ finished evs)) \<and>
     (\<forall>r \<in> set (released evs). \<exists>rec. mget (hb_jobs h) (rq_id r) = Some rec \<and> fair_release rec r)"

lemma orphan_outcome_one:
  assumes "hb_on_error h"
  shows "(released (orphan_outcome h r) = [retry_request (fr_req r)] \<and> finished (orphan_outcome h r) = [] \<and>
      retryable h r) \<or>
    (released (orphan_outcome h r) = [] \<and> finished (orphan_outcome h r) = [rq_id (fr_req r)])"
  using assms by (simp add: orphan_outcome_def disconnect_error_def)

lemma split_outcomes:
  fixes h :: hub
  assumes "hb_on_error h" and "distinct (map (\<lambda>r. rq_id (fr_req r)) rs)"
  defines "rl \<equiv> concat (map (\<lambda>r. released (orphan_outcome h r)) rs)"
    and "fi \<equiv> concat (map (\<lambda>r. finished (orphan_outcome h r)) rs)"
  shows "distinct (map rq_id rl @ fi)"
    and "set (map rq_id rl @ fi) = (\<lambda>r. rq_id (fr_req r)) ` set rs"
    and "\<And>r. r \<in> set rl \<Longrightarrow> \<exists>x \<in> set rs. r = retry_request (fr_req x) \<and> retryable h x"
proof -
  have sets: "set (map rq_id (concat (map (\<lambda>r. released (orphan_outcome h r)) rs)) @
      concat (map (\<lambda>r. finished (orphan_outcome h r)) rs)) = (\<lambda>r. rq_id (fr_req r)) ` set rs" for rs
  proof (induction rs)
    case Nil
    then show ?case by simp
  next
    case (Cons r rs)
    have one: "set (map rq_id (released (orphan_outcome h r))) \<union> set (finished (orphan_outcome h r))
        = {rq_id (fr_req r)}"
      using orphan_outcome_one [OF assms(1), of r] by auto
    have "set (map rq_id (concat (map (\<lambda>r. released (orphan_outcome h r)) (r # rs))) @
        concat (map (\<lambda>r. finished (orphan_outcome h r)) (r # rs))) =
      (set (map rq_id (released (orphan_outcome h r))) \<union> set (finished (orphan_outcome h r))) \<union>
      set (map rq_id (concat (map (\<lambda>r. released (orphan_outcome h r)) rs)) @
        concat (map (\<lambda>r. finished (orphan_outcome h r)) rs))"
      by auto
    then show ?case unfolding one Cons.IH by simp
  qed
  then show "set (map rq_id rl @ fi) = (\<lambda>r. rq_id (fr_req r)) ` set rs" by (simp add: rl_def fi_def)
  show "distinct (map rq_id rl @ fi)"
    unfolding rl_def fi_def using assms(2)
  proof (induction rs)
    case Nil
    then show ?case by simp
  next
    case (Cons r rs)
    have "rq_id (fr_req r) \<notin> set (map rq_id (concat (map (\<lambda>r. released (orphan_outcome h r)) rs)) @
      concat (map (\<lambda>r. finished (orphan_outcome h r)) rs))"
      unfolding sets using Cons.prems by simp
    moreover have "distinct (map rq_id (concat (map (\<lambda>r. released (orphan_outcome h r)) rs)) @
      concat (map (\<lambda>r. finished (orphan_outcome h r)) rs))"
      using Cons by simp
    ultimately have "distinct ((map rq_id (released (orphan_outcome h r)) @
        map rq_id (concat (map (\<lambda>r. released (orphan_outcome h r)) rs))) @
        (finished (orphan_outcome h r) @ concat (map (\<lambda>r. finished (orphan_outcome h r)) rs)))"
      using orphan_outcome_one [OF assms(1), of r]
      by (elim disjE conjE) (simp_all only: distinct_append set_append list.map append_Nil append_Cons
          list.set distinct.simps retry_request_id, blast+)
    then show ?case by simp
  qed
  show "\<exists>x \<in> set rs. r = retry_request (fr_req x) \<and> retryable h x" if "r \<in> set rl" for r
  proof -
    from that obtain x where x: "x \<in> set rs" "r \<in> set (released (orphan_outcome h x))"
      by (auto simp: rl_def)
    then show ?thesis using orphan_outcome_one [OF assms(1), of x] by auto
  qed
qed

lemma disconnect_effect:
  assumes ix: "job_index h" and w: "wired h" and c: "mget (hb_clients h) cid = Some c"
    and dis: "disconnect h now cid = (h', c', evs)"
  shows "disconnect_effect h cid h' evs"
proof -
  let ?h1 = "unregister_client h now cid (close_send c)"
  let ?rs = "in_flight_jobs_by_client_id h cid"
  have rs_eq: "in_flight_jobs_by_client_id ?h1 cid = ?rs"
    by (simp add: in_flight_jobs_by_client_id_def unregister_client_def)
  obtain h2 c2 evs2 where sweep: "fold (orphan_one now cid) ?rs (?h1, close_send c, []) = (h2, c2, evs2)"
    by (metis prod_cases3)
  have res: "h' = h2\<lparr>hb_jobs_by_client := mdel cid (hb_jobs_by_client h2)\<rparr>"
    "evs = evs2 @ ev_available h"
    using dis c sweep rs_eq by (auto simp: disconnect_def Let_def)
  have h1: "hb_jobs ?h1 = hb_jobs h" "core_of ?h1 = core_of h" "wired ?h1 = wired h"
    "online ?h1 = online h - {cid}" "hb_on_error ?h1 = hb_on_error h"
    "orphan_outcome ?h1 = orphan_outcome h"
    by (simp_all add: unregister_client_def core_of_def wired_def online_def orphan_outcome_def
        retryable_def ev_error_def fun_eq_iff)
  note held = held_records [OF ix, where cid = cid]
  have get: "mget (hb_jobs ?h1) (rq_id (fr_req r)) = Some r \<and> fr_client_id r = cid" if "r \<in> set ?rs" for r
    using that held(1) h1(1) by simp
  note e = orphan_events [OF held(2) get sweep]
  have ids: "(\<lambda>r. rq_id (fr_req r)) ` set ?rs = {rid. holder_of h rid = Some cid}"
  proof -
    have "rid \<in> (\<lambda>r. rq_id (fr_req r)) ` set ?rs \<longleftrightarrow> holder_of h rid = Some cid" for rid
    proof
      assume "rid \<in> (\<lambda>r. rq_id (fr_req r)) ` set ?rs"
      then show "holder_of h rid = Some cid" using held(1) by (auto simp: holder_of_def)
    next
      assume "holder_of h rid = Some cid"
      then obtain r where r: "mget (hb_jobs h) rid = Some r" "fr_client_id r = cid"
        by (auto simp: holder_of_def)
      then have "r \<in> set ?rs" "rq_id (fr_req r) = rid" using held(1) job_indexD(1) [OF ix] by auto
      then show "rid \<in> (\<lambda>r. rq_id (fr_req r)) ` set ?rs" by blast
    qed
    then show ?thesis by blast
  qed
  have err: "hb_on_error h" using w by (simp add: wired_def)
  note s = split_outcomes [OF err held(2)]
  have rl: "released evs = concat (map (\<lambda>r. released (orphan_outcome h r)) ?rs)"
    and fi: "finished evs = concat (map (\<lambda>r. finished (orphan_outcome h r)) ?rs)"
    using e res h1 by simp_all
  have frame: "wired h' = wired h" "online h' = online h - {cid}"
    using e h1 res(1) by (auto simp: same_frame_def wired_def online_def)
  have core: "core_of h' = (\<lambda>k. if holder_of h k = Some cid then None else core_of h k)"
    using e h1(2) ids res(1) by (simp add: core_of_def fun_eq_iff)
  have fair: "\<exists>rec. mget (hb_jobs h) (rq_id r) = Some rec \<and> fair_release rec r"
    if "r \<in> set (released evs)" for r
  proof -
    from s(3) [of r] that obtain x where "x \<in> set ?rs" "r = retry_request (fr_req x)" "retryable h x"
      unfolding rl by blast
    then show ?thesis using held(1) [of x] retryable_fair by auto
  qed
  show ?thesis
    unfolding disconnect_effect_def
  proof (intro conjI allI ballI)
    show "distinct (map rq_id (released evs) @ finished evs)" using s(1) rl fi by simp
    show "holder_of h k = Some cid \<longleftrightarrow> k \<in> set (map rq_id (released evs) @ finished evs)" for k
      unfolding rl fi s(2) ids by simp
  qed (use frame core fair in blast)+
qed

end
