(* ===== verification/Hub_Views.thy ===== *)
theory Hub_Views
  imports Hub_Lifecycle
begin

text \<open>
  \<open>hub.go\<close>, the reports over the registry: what the scheduler sees of the clients
  (\<open>AvailableClientList\<close>), what the API checks before it queues a request, and what the
  portal shows. A \<open>range\<close> over a Go map is a fold over the association list; a Go set is the
  list of its members.
\<close>

section \<open>The scheduler's snapshot\<close>

definition cl_models_or_nil :: "client \<Rightarrow> (string, bool) gomap" where
  "cl_models_or_nil c = (case cl_models c of None \<Rightarrow> [] | Some m \<Rightarrow> m)"

definition available_models :: "hub \<Rightarrow> string list" where
  "available_models h =
     fold (\<lambda>(_, c) seen. if has_room c then fold List.insert (mkeys (cl_models_or_nil c)) seen else seen)
       (hb_clients h) []"

definition summary_of :: "client \<Rightarrow> (string, bool) gomap \<Rightarrow> client_summary" where
  "summary_of c models =
     \<lparr>cs_id = cl_id c, cs_owner = cl_owner c, cs_token = cl_token c, cs_models = models,
      cs_max_concurrent = cl_max_concurrent c, cs_in_flight = client_busy c,
      cs_local_busy = sint (cl_local_busy c), cs_context_sizes = cl_context_sizes c,
      cs_owner_slots = cl_owner_slots c, cs_modalities = cl_modalities c\<rparr>"

definition listed :: "client \<Rightarrow> client_summary option" where
  "listed c =
     (case cl_models c of
        None \<Rightarrow> None
      | Some models \<Rightarrow> if has_room c then Some (summary_of c models) else None)"

definition available_client_list :: "hub \<Rightarrow> client_summary list" where
  "available_client_list h = List.map_filter (\<lambda>(_, c). listed c) (hb_clients h)"

section \<open>Free slots per model for one caller\<close>

record slot_acc =
  sa_available :: int
  sa_total :: int
  sa_ctx :: int

definition slot_acc_zero :: slot_acc where
  "slot_acc_zero = \<lparr>sa_available = 0, sa_total = 0, sa_ctx = 0\<rparr>"

definition free_slots :: "client \<Rightarrow> int" where
  "free_slots c =
     (let free = cl_max_concurrent c - client_busy c
      in if free < 0 \<or> cl_draining c then 0 else free)"

definition reserved_slots :: "client \<Rightarrow> string \<Rightarrow> int" where
  "reserved_slots c m =
     (case mget (cl_owner_slots c) m of Some n \<Rightarrow> n | None \<Rightarrow> get_or 0 (cl_owner_slots c) ''*'')"

definition non_owner_used :: "hub \<Rightarrow> client \<Rightarrow> string \<Rightarrow> int" where
  "non_owner_used h c m =
     int (length (filter (\<lambda>r. rq_owner (fr_req r) \<noteq> cl_owner c \<and> rq_model (fr_req r) = m)
            (in_flight_jobs_by_client_id h (cl_id c))))"

definition add_model_slots :: "hub \<Rightarrow> string \<Rightarrow> client \<Rightarrow> string \<Rightarrow> slot_acc \<Rightarrow> slot_acc" where
  "add_model_slots h owner c m a0 =
     (let size = get_or 0 (cl_context_sizes c) m;
          a = (if size > sa_ctx a0 then a0\<lparr>sa_ctx := size\<rparr> else a0);
          free = free_slots c
      in if owner = cl_owner c
         then a\<lparr>sa_total := sa_total a + cl_max_concurrent c,
                sa_available := sa_available a + free\<rparr>
         else
           (let non_owner_cap = cl_max_concurrent c - reserved_slots c m
            in if non_owner_cap \<le> 0 then a
               else
                 (let a = a\<lparr>sa_total := sa_total a + non_owner_cap\<rparr>;
                      remaining = min (non_owner_cap - non_owner_used h c m) free
                  in if remaining > 0 then a\<lparr>sa_available := sa_available a + remaining\<rparr> else a)))"

definition slots_by_model :: "hub \<Rightarrow> string \<Rightarrow> (string, slot_acc) gomap" where
  "slots_by_model h owner =
     fold (\<lambda>(_, c) by_model.
         case cl_models c of
           None \<Rightarrow> by_model
         | Some models \<Rightarrow>
             fold (\<lambda>m by_model.
                 mput m (add_model_slots h owner c m (get_or slot_acc_zero by_model m)) by_model)
               (mkeys models) by_model)
       (hb_clients h) []"

definition available_slots_by_model :: "hub \<Rightarrow> string \<Rightarrow> model_slots list" where
  "available_slots_by_model h owner =
     map (\<lambda>(m, a). \<lparr>sl_model = m, sl_available = sa_available a, sl_total = sa_total a,
                    sl_context_size = sa_ctx a\<rparr>)
       (slots_by_model h owner)"

section \<open>What serves a model\<close>

text \<open>The clients that have registered and serve a model by this name.\<close>

definition serving :: "hub \<Rightarrow> string \<Rightarrow> client list" where
  "serving h m =
     filter (\<lambda>c. cl_models c \<noteq> None \<and> get_or False (cl_models_or_nil c) m) (map snd (hb_clients h))"

record model_attrs =
  ma_context_size :: "int option"
  ma_modalities :: "string list option"
  ma_served_by_kind :: "string option"

definition kind_of :: "client \<Rightarrow> string" where
  "kind_of c =
     (if has_prefix (cl_version c) ''router/'' then ''router''
      else if cl_kind c \<noteq> [] then cl_kind c
      else [])"

definition model_attrs_of :: "hub \<Rightarrow> string \<Rightarrow> model_attrs" where
  "model_attrs_of h m =
     (let cs = serving h m;
          ctx = fold (\<lambda>c n. max n (get_or 0 (cl_context_sizes c) m)) cs 0;
          mods = fold (\<lambda>c. fold List.insert (get_or [] (cl_modalities c) m)) cs [];
          kinds = fold (\<lambda>c. List.insert (kind_of c)) cs []
      in \<lparr>ma_context_size = (if ctx > 0 then Some ctx else None),
          ma_modalities = (if mods \<noteq> [] then Some (sort mods) else None),
          ma_served_by_kind =
            (if length kinds = 1 \<and> [] \<notin> set kinds then Some (hd kinds)
             else if length kinds > 1 \<and> [] \<notin> set kinds then Some ''mixed''
             else None)\<rparr>)"

definition context_best :: "hub \<Rightarrow> string \<Rightarrow> int \<Rightarrow> int" where
  "context_best h name best =
     fold (\<lambda>c best. let n = get_or 0 (cl_context_sizes c) name in if n > best then n else best)
       (serving h name) best"

definition max_context_for_model :: "hub \<Rightarrow> string \<Rightarrow> (string, string list) gomap \<Rightarrow> int" where
  "max_context_for_model h m aliases =
     fold (context_best h) (get_or [] aliases m) (context_best h m 0)"

definition verdict_check :: "hub \<Rightarrow> string list \<Rightarrow> string \<Rightarrow> bool \<times> bool \<Rightarrow> bool \<times> bool" where
  "verdict_check h required name v =
     fold (\<lambda>c v.
         let adv = get_or [] (cl_modalities c) name
         in if adv = [] then (fst v, True)
            else if modalities_compatible adv required then (True, snd v) else v)
       (serving h name) v"

definition model_modality_verdict ::
  "hub \<Rightarrow> string \<Rightarrow> (string, string list) gomap \<Rightarrow> string list \<Rightarrow> bool \<times> bool" where
  "model_modality_verdict h m aliases required =
     (if required = [] then (True, False)
      else if m = ''any'' then (False, True)
      else fold (verdict_check h required) (get_or [] aliases m)
             (verdict_check h required m (False, False)))"

definition has_worker_for_model :: "hub \<Rightarrow> string \<Rightarrow> (string, string list) gomap \<Rightarrow> bool" where
  "has_worker_for_model h m aliases =
     list_ex (\<lambda>(_, c).
        cl_models c \<noteq> None \<and>
        (m = ''any'' \<or> get_or False (cl_models_or_nil c) m \<or>
         list_ex (\<lambda>t. get_or False (cl_models_or_nil c) t) (get_or [] aliases m)))
       (hb_clients h)"

definition active_models :: "hub \<Rightarrow> string list" where
  "active_models h =
     fold (\<lambda>(_, c). fold List.insert (mkeys (cl_models_or_nil c))) (hb_clients h) []"

record info_acc =
  ia_ctx :: int
  ia_train :: int
  ia_mods :: "string list"

definition add_model_info :: "client \<Rightarrow> string \<Rightarrow> info_acc \<Rightarrow> info_acc" where
  "add_model_info c m a =
     a\<lparr>ia_ctx := max (ia_ctx a) (get_or 0 (cl_context_sizes c) m),
       ia_train := max (ia_train a) (get_or 0 (cl_context_train_sizes c) m),
       ia_mods := fold List.insert (get_or [] (cl_modalities c) m) (ia_mods a)\<rparr>"

definition active_model_infos :: "hub \<Rightarrow> model_info list" where
  "active_model_infos h =
     map (\<lambda>(m, a). \<lparr>mi_name = m, mi_context_size = ia_ctx a, mi_context_train = ia_train a,
                    mi_modalities = sort (ia_mods a)\<rparr>)
       (fold (\<lambda>(_, c) acc.
           fold (\<lambda>m acc. mput m (add_model_info c m
                   (get_or \<lparr>ia_ctx = 0, ia_train = 0, ia_mods = []\<rparr> acc m)) acc)
             (mkeys (cl_models_or_nil c)) acc)
         (hb_clients h) [])"

section \<open>Live activity per model\<close>

record model_activity =
  mv_model :: string
  mv_clients :: int
  mv_total_slots :: int
  mv_prompt_processing :: int
  mv_decoding :: int
  mv_context_size :: int
  mv_modalities :: "string list"

definition activity_busy :: "model_activity \<Rightarrow> int" where
  "activity_busy a = mv_prompt_processing a + mv_decoding a"

definition activity_zero :: "string \<Rightarrow> model_activity" where
  "activity_zero m = \<lparr>mv_model = m, mv_clients = 0, mv_total_slots = 0, mv_prompt_processing = 0,
     mv_decoding = 0, mv_context_size = 0, mv_modalities = []\<rparr>"

definition activity_add_client :: "client \<Rightarrow> string \<Rightarrow> model_activity \<Rightarrow> model_activity" where
  "activity_add_client c m a =
     a\<lparr>mv_clients := mv_clients a + 1,
       mv_total_slots := mv_total_slots a + cl_max_concurrent c,
       mv_context_size := max (mv_context_size a) (get_or 0 (cl_context_sizes c) m),
       mv_modalities := fold List.insert (get_or [] (cl_modalities c) m) (mv_modalities a)\<rparr>"

definition activity_add_job :: "in_flight_record \<Rightarrow> model_activity \<Rightarrow> model_activity" where
  "activity_add_job r a =
     (if first_chunk_at r = None then a\<lparr>mv_prompt_processing := mv_prompt_processing a + 1\<rparr>
      else a\<lparr>mv_decoding := mv_decoding a + 1\<rparr>)"

definition at_model_put ::
  "string \<Rightarrow> (model_activity \<Rightarrow> model_activity) \<Rightarrow> (string, model_activity) gomap \<Rightarrow>
     (string, model_activity) gomap" where
  "at_model_put m f acc = mput m (f (get_or (activity_zero m) acc m)) acc"

definition activity_by_model :: "hub \<Rightarrow> model_activity list" where
  "activity_by_model h =
     (let acc1 = fold (\<lambda>(_, c) acc.
            case cl_models c of
              None \<Rightarrow> acc
            | Some models \<Rightarrow> fold (\<lambda>m. at_model_put m (activity_add_client c m)) (mkeys models) acc)
            (hb_clients h) [];
          acc2 = fold (\<lambda>(_, r). at_model_put (rq_model (fr_req r)) (activity_add_job r)) (hb_jobs h) acc1
      in sort_key mv_model (map (\<lambda>(_, a). a\<lparr>mv_modalities := sort (mv_modalities a)\<rparr>) acc2))"

section \<open>Tokens and connections\<close>

definition by_token :: "hub \<Rightarrow> string \<Rightarrow> client list" where
  "by_token h token = filter (\<lambda>c. cl_token c = token) (map snd (hb_clients h))"

definition is_connected :: "hub \<Rightarrow> string \<Rightarrow> bool" where
  "is_connected h token = list_ex (\<lambda>(_, c). cl_token c = token) (hb_clients h)"

definition last_seen_time :: "hub \<Rightarrow> string \<Rightarrow> gotime" where
  "last_seen_time h token = get_or zero_time (hb_last_seen h) token"

definition connected_models :: "hub \<Rightarrow> string \<Rightarrow> string list" where
  "connected_models h token =
     fold (\<lambda>c. fold List.insert (mkeys (cl_models_or_nil c))) (by_token h token) []"

text \<open>The loop of \<open>ConnectedVersion\<close>: the first connection sets the baseline.\<close>

fun version_loop :: "string option \<Rightarrow> string list \<Rightarrow> string" where
  "version_loop version [] = (case version of None \<Rightarrow> [] | Some v \<Rightarrow> v)"
| "version_loop None (v # vs) = version_loop (Some v) vs"
| "version_loop (Some version) (v # vs) =
     (if v \<noteq> version then ''mixed'' else version_loop (Some version) vs)"

definition connected_version :: "hub \<Rightarrow> string \<Rightarrow> string" where
  "connected_version h token = version_loop None (map cl_version (by_token h token))"

definition connected_count_by_token :: "hub \<Rightarrow> string \<Rightarrow> int" where
  "connected_count_by_token h token = int (length (by_token h token))"

definition total_slots :: "hub \<Rightarrow> int" where
  "total_slots h =
     fold (\<lambda>(_, c) total. if cl_models c \<noteq> None then total + cl_max_concurrent c else total)
       (hb_clients h) 0"

definition active_client_count :: "hub \<Rightarrow> nat" where
  "active_client_count h = length (hb_clients h)"

definition key_in_flight :: "hub \<Rightarrow> string \<Rightarrow> nat" where
  "key_in_flight h label = length (filter (\<lambda>(_, r). rq_api_key_label (fr_req r) = label) (hb_jobs h))"

record token_state =
  ts_connections :: int
  ts_models :: "string list"
  ts_version :: string
  ts_last_seen :: gotime

definition token_state_zero :: token_state where
  "token_state_zero = \<lparr>ts_connections = 0, ts_models = [], ts_version = [], ts_last_seen = zero_time\<rparr>"

text \<open>
  The three loops of \<open>TokenStates\<close>. The first builds the rows with their model sets
  (unsorted) and notes which tokens have a baseline version; the second sorts the models; the
  third adds when a token was last seen.
\<close>

definition token_row :: "client \<Rightarrow> token_state option \<Rightarrow> token_state" where
  "token_row c row =
     (case row of
        None \<Rightarrow> \<lparr>ts_connections = 1, ts_models = fold List.insert (mkeys (cl_models_or_nil c)) [],
                 ts_version = cl_version c, ts_last_seen = zero_time\<rparr>
      | Some st \<Rightarrow>
          st\<lparr>ts_connections := ts_connections st + 1,
             ts_version := (if ts_version st \<noteq> cl_version c then ''mixed'' else ts_version st),
             ts_models := fold List.insert (mkeys (cl_models_or_nil c)) (ts_models st)\<rparr>)"

definition token_rows :: "(string \<times> client) list \<Rightarrow> (string, token_state) gomap" where
  "token_rows cs = fold (\<lambda>(_, c) out. mput (cl_token c) (token_row c (mget out (cl_token c))) out) cs []"

definition token_states :: "hub \<Rightarrow> (string, token_state) gomap" where
  "token_states h =
     fold (\<lambda>(token, ts) out. mput token ((get_or token_state_zero out token)\<lparr>ts_last_seen := ts\<rparr>) out)
       (hb_last_seen h)
       (map (\<lambda>(token, st). (token, st\<lparr>ts_models := sort (ts_models st)\<rparr>)) (token_rows (hb_clients h)))"

record connected_client_info =
  ci_id :: string
  ci_name :: string
  ci_version :: string
  ci_models :: "string list"
  ci_context_sizes :: "(string, int) gomap"
  ci_context_train_sizes :: "(string, int) gomap"
  ci_max_concurrent :: int
  ci_in_flight :: int
  ci_owner_slots :: "(string, int) gomap"

text \<open>
  The portal lists a token's connections by name and, where names tie, by id: ordering by id
  first and then stably by name is that order.
\<close>

definition connected_clients_by_token :: "hub \<Rightarrow> string \<Rightarrow> connected_client_info list" where
  "connected_clients_by_token h token =
     sort_key ci_name (sort_key ci_id
       (map (\<lambda>c. \<lparr>ci_id = cl_id c, ci_name = cl_name c, ci_version = cl_version c,
                  ci_models = sort (mkeys (cl_models_or_nil c)),
                  ci_context_sizes = cl_context_sizes c,
                  ci_context_train_sizes = cl_context_train_sizes c,
                  ci_max_concurrent = cl_max_concurrent c,
                  ci_in_flight = client_in_flight c,
                  ci_owner_slots = cl_owner_slots c\<rparr>)
         (by_token h token)))"

record connection_load =
  ll_id :: string
  ll_name :: string
  ll_owner :: string
  ll_in_flight :: int
  ll_max_concurrent :: int

definition connections_load :: "hub \<Rightarrow> connection_load list" where
  "connections_load h =
     sort_key ll_name (sort_key ll_id
       (map (\<lambda>c. \<lparr>ll_id = cl_id c, ll_name = cl_name c, ll_owner = cl_owner c,
                  ll_in_flight = client_in_flight c, ll_max_concurrent = cl_max_concurrent c\<rparr>)
         (filter (\<lambda>c. cl_models c \<noteq> None) (map snd (hb_clients h)))))"

section \<open>Facts\<close>

lemma listed_Some:
  "listed c = Some s \<longleftrightarrow> (\<exists>models. cl_models c = Some models \<and> has_room c \<and> s = summary_of c models)"
  by (auto simp: listed_def split: option.splits)

lemma available_client_list_iff:
  "s \<in> set (available_client_list h) \<longleftrightarrow>
     (\<exists>k c models. (k, c) \<in> set (hb_clients h) \<and> cl_models c = Some models \<and> has_room c \<and>
        s = summary_of c models)"
  by (force simp: available_client_list_def map_filter_in case_prod_beta listed_Some)

lemma available_client_room:
  "s \<in> set (available_client_list h) \<Longrightarrow> cs_in_flight s < cs_max_concurrent s"
  by (auto simp: available_client_list_iff summary_of_def has_room_def)

text \<open>The snapshot lists each connected client at most once, under its id.\<close>

lemma available_client_ids:
  assumes ex: "slots_exact d h" and s: "s \<in> set (available_client_list h)"
  shows "\<exists>c. mget (hb_clients h) (cs_id s) = Some c \<and> has_room c \<and> s = summary_of c (cs_models s)"
proof -
  obtain k c models where c: "(k, c) \<in> set (hb_clients h)" "has_room c" "s = summary_of c models"
    using s by (auto simp: available_client_list_iff)
  then have get: "mget (hb_clients h) k = Some c"
    using ex by (auto simp: slots_exact_def intro: mget_in)
  then have "cl_id c = k" using ex by (simp add: slots_exact_def)
  then show ?thesis using c get by (auto simp: summary_of_def)
qed

lemma listed_distinct:
  "wf_map cs \<Longrightarrow> (\<And>k c. (k, c) \<in> set cs \<Longrightarrow> cl_id c = k) \<Longrightarrow>
     distinct (map cs_id (List.map_filter (\<lambda>(_, c). listed c) cs)) \<and>
     cs_id ` set (List.map_filter (\<lambda>(_, c). listed c) cs) \<subseteq> fst ` set cs"
proof (induction cs)
  case Nil
  then show ?case by (simp add: map_filter_Nil)
next
  case (Cons p cs)
  obtain k c where p: "p = (k, c)" by fastforce
  have IH: "distinct (map cs_id (List.map_filter (\<lambda>(_, c). listed c) cs))"
    "cs_id ` set (List.map_filter (\<lambda>(_, c). listed c) cs) \<subseteq> fst ` set cs"
    using Cons by auto
  have "cl_id c = k" using Cons.prems(2) p by simp
  then have id: "cs_id s = k" if "listed c = Some s" for s
    using that by (auto simp: listed_Some summary_of_def)
  have "k \<notin> fst ` set cs" using Cons.prems(1) p by simp
  then show ?case using IH id by (auto simp: p map_filter_Cons split: option.split)
qed

lemma available_client_distinct:
  assumes ex: "slots_exact d h"
  shows "distinct (map cs_id (available_client_list h))"
proof -
  have "cl_id c = k" if "(k, c) \<in> set (hb_clients h)" for k c
    using ex mget_in [OF _ that] by (auto simp: slots_exact_def)
  then show ?thesis using listed_distinct [of "hb_clients h"] ex
    by (simp add: available_client_list_def slots_exact_def)
qed

lemma fold_insert_set [simp]: "set (fold List.insert xs acc) = set xs \<union> set acc"
  by (induction xs arbitrary: acc) auto

lemma fold_insert_distinct [simp]: "distinct acc \<Longrightarrow> distinct (fold List.insert xs acc)"
  by (induction xs arbitrary: acc) auto

section \<open>One pass agrees with the separate reports\<close>

lemma token_rows_get:
  "mget (fold (\<lambda>(_, c) out. mput (cl_token c) (token_row c (mget out (cl_token c))) out) cs out) t =
     fold (\<lambda>c row. Some (token_row c row)) (filter (\<lambda>c. cl_token c = t) (map snd cs)) (mget out t)"
  by (induction cs arbitrary: out) (auto simp: gomap_simps)

lemma version_fold_mixed [simp]: "fold (\<lambda>v st. if st \<noteq> v then ''mixed'' else st) vs ''mixed'' = ''mixed''"
  by (induction vs) auto

lemma version_fold_loop:
  "fold (\<lambda>v st. if st \<noteq> v then ''mixed'' else st) vs v0 = version_loop (Some v0) vs"
  by (induction vs) auto

lemma token_row_fields [simp]:
  "ts_connections (token_row c (Some st)) = ts_connections st + 1"
  "ts_version (token_row c (Some st)) = (if ts_version st \<noteq> cl_version c then ''mixed'' else ts_version st)"
  "ts_models (token_row c (Some st)) = fold List.insert (mkeys (cl_models_or_nil c)) (ts_models st)"
  "ts_last_seen (token_row c (Some st)) = ts_last_seen st"
  "ts_connections (token_row c None) = 1" "ts_version (token_row c None) = cl_version c"
  "ts_models (token_row c None) = fold List.insert (mkeys (cl_models_or_nil c)) []"
  "ts_last_seen (token_row c None) = zero_time"
  by (simp_all add: token_row_def)

lemma token_row_fold:
  "fold (\<lambda>c row. Some (token_row c row)) cs (Some st) = Some
     \<lparr>ts_connections = ts_connections st + int (length cs),
      ts_models = fold (\<lambda>c. fold List.insert (mkeys (cl_models_or_nil c))) cs (ts_models st),
      ts_version = fold (\<lambda>v st. if st \<noteq> v then ''mixed'' else st) (map cl_version cs) (ts_version st),
      ts_last_seen = ts_last_seen st\<rparr>"
proof (induction cs arbitrary: st)
  case Nil
  show ?case by simp
next
  case (Cons c cs)
  show ?case by (simp add: Cons)
qed

lemma token_row_fold_None:
  "fold (\<lambda>c row. Some (token_row c row)) cs None =
     (if cs = [] then None
      else Some \<lparr>ts_connections = int (length cs),
        ts_models = fold (\<lambda>c. fold List.insert (mkeys (cl_models_or_nil c))) cs [],
        ts_version = version_loop None (map cl_version cs), ts_last_seen = zero_time\<rparr>)"
  by (cases cs) (simp_all add: token_row_fold version_fold_loop)

lemma last_seen_fold:
  "wf_map ls \<Longrightarrow>
   mget (fold (\<lambda>(token, ts) out.
      mput token ((get_or token_state_zero out token)\<lparr>ts_last_seen := ts\<rparr>) out) ls out) t =
     (case mget ls t of
        None \<Rightarrow> mget out t
      | Some ts \<Rightarrow> Some ((get_or token_state_zero out t)\<lparr>ts_last_seen := ts\<rparr>))"
  by (induction ls arbitrary: out)
    (auto simp: gomap_simps mget_None_iff [symmetric] split: option.split)

lemma token_states_row:
  assumes "wf_map (hb_last_seen h)"
  shows "mget (token_states h) t =
    (if by_token h t = [] \<and> mget (hb_last_seen h) t = None then None
     else Some \<lparr>ts_connections = connected_count_by_token h t,
       ts_models = sort (connected_models h t), ts_version = connected_version h t,
       ts_last_seen = last_seen_time h t\<rparr>)"
proof -
  let ?out = "map (\<lambda>(token, st). (token, st\<lparr>ts_models := sort (ts_models st)\<rparr>))
      (token_rows (hb_clients h))"
  have "mget (token_rows (hb_clients h)) t =
      fold (\<lambda>c row. Some (token_row c row)) (by_token h t) None"
    by (simp add: token_rows_def token_rows_get by_token_def)
  then have rows: "mget ?out t =
      (if by_token h t = [] then None
       else Some \<lparr>ts_connections = connected_count_by_token h t,
         ts_models = sort (connected_models h t), ts_version = connected_version h t,
         ts_last_seen = zero_time\<rparr>)"
    by (simp add: mget_map_values token_row_fold_None connected_count_by_token_def
        connected_models_def connected_version_def)
  have "mget (token_states h) t =
      (case mget (hb_last_seen h) t of
        None \<Rightarrow> mget ?out t
      | Some ts \<Rightarrow> Some ((get_or token_state_zero ?out t)\<lparr>ts_last_seen := ts\<rparr>))"
    unfolding token_states_def by (rule last_seen_fold [OF assms])
  then show ?thesis
    by (simp add: rows get_or_def last_seen_time_def split: option.split)
      (simp add: token_state_zero_def connected_count_by_token_def connected_models_def
        connected_version_def)
qed

end
