(* ===== verification/Hub_Properties.thy ===== *)
theory Hub_Properties
  imports Hub_Outcomes Hub_Views
begin

text \<open>
  The hub's promises, message by message: slots are accounted exactly, a worker settles only its
  own jobs, a disconnect settles every job of the connection once, a lease is reclaimed exactly
  when it has passed, and the portal's one-pass report agrees with the separate ones.
\<close>

text \<open>
  Slot accounting is exact under every message a worker can send: if every client's counter is
  the number of jobs it holds, it still is after the hub has handled the message, whatever the
  message claims and whether or not the client holds the job it names.
\<close>

theorem message_keeps_slots_exact:
  assumes "settled h"
  shows "settled (fst (dispatch h now cid data))"
  using assms by (rule dispatch_exact)


text \<open>
  C11. A connection that ends settles all its jobs, each exactly once: its client is gone, every
  other client is untouched, each job it held is either failed to its caller or offered again
  (never both, never twice, never after output), its counter on the way out is zero, and all
  other jobs stay where they are.
\<close>

theorem disconnect_settles_each_job_once:
  assumes "settled h" and "wired h" and "mget (hb_clients h) cid = Some c"
    and "disconnect h now cid = (h', c', evs)"
  shows "settled h' \<and> hb_clients h' = mdel cid (hb_clients h) \<and>
    map_option cl_in_flight c' = Some 0 \<and>
    core_of h' = (\<lambda>k. if holder_of h k = Some cid then None else core_of h k) \<and>
    distinct (map rq_id (released evs) @ finished evs) \<and>
    (\<forall>k. holder_of h k = Some cid \<longleftrightarrow> k \<in> set (map rq_id (released evs) @ finished evs)) \<and>
    (\<forall>r \<in> set (released evs). \<exists>rec. mget (hb_jobs h) (rq_id r) = Some rec \<and> \<not> produced_output rec)"
proof -
  have ix: "job_index h" using assms(1) by (simp add: hub_exact_def)
  note s = disconnect_split(1,2,4) [OF assms(1,3,4)]
  have e: "disconnect_effect h cid h' evs" by (rule disconnect_effect [OF ix assms(2-4)])
  then have "\<forall>r \<in> set (released evs). \<exists>rec. mget (hb_jobs h) (rq_id r) = Some rec \<and> \<not> produced_output rec"
    unfolding disconnect_effect_def fair_release_def by blast
  then show ?thesis using s e unfolding disconnect_effect_def by auto
qed

text \<open>
  The lease reaper reclaims exactly the jobs whose deadline has passed: afterwards those have
  no holder, all others keep theirs, and every counter is again the number of jobs held.
\<close>

theorem reaper_reclaims_exactly_expired:
  assumes "settled h"
  shows "settled (fst (handle_expired_leases h now)) \<and>
    holder_of (fst (handle_expired_leases h now)) rid =
      (case mget (hb_jobs h) rid of
         None \<Rightarrow> None
       | Some r \<Rightarrow> if lease_deadline (hb_lease_duration h) r < now then None else Some (fr_client_id r))"
proof -
  have "job_index h" using assms by (simp add: hub_exact_def)
  then show ?thesis
    using handle_expired_leases_exact [OF assms] handle_expired_leases_holder by blast
qed

lemma renewed_record:
  assumes hold: "mget (hb_jobs h) (im_request_id im) = Some r" "fr_client_id r = cid" "fr_live r = Some l"
    and content: "im_type im = ''chunk''" "\<not> im_done im"
      "im_delta im \<noteq> [] \<or> im_reasoning_delta im \<noteq> [] \<or> im_tool_calls_delta im \<noteq> []"
  shows "\<exists>l'. mget (hb_jobs (fst (dispatch h now cid (Some im)))) (im_request_id im) = Some (r\<lparr>fr_live := Some l'\<rparr>)
    \<and> lv_produced_output l' \<and> lv_last_activity l' = now"
proof -
  have d: "fst (dispatch h now cid (Some im)) = fst (snd (chunk_live h now cid (chunk_of im)))"
    using content chunk_live_quiet(6) [of h now cid "chunk_of im"]
    by (cases "chunk_live h now cid (chunk_of im)")
      (auto simp: dispatch_def dispatch_chunk_def chunk_of_def)
  have req: "ck_request_id (chunk_of im) = im_request_id im" by (simp add: chunk_of_def)
  show ?thesis unfolding d
    using hold content
    by (auto simp: chunk_live_def Let_def gomap_simps req renew_live_def count_delta_def)
      (auto simp: chunk_of_def)
qed

text \<open>
  A worker that keeps producing keeps its job: after a chunk with content from the client that
  holds the job, the reaper does not reclaim it before a full lease has passed since that chunk.
\<close>

theorem output_renews_lease:
  assumes "mget (hb_jobs h) (im_request_id im) = Some r" and "fr_client_id r = cid"
    and "fr_live r = Some l" and "im_type im = ''chunk''" and "\<not> im_done im"
    and "im_delta im \<noteq> [] \<or> im_reasoning_delta im \<noteq> [] \<or> im_tool_calls_delta im \<noteq> []"
    and "now \<noteq> 0" and "dispatch h now cid (Some im) = (h', evs)"
  shows "\<exists>r'. mget (hb_jobs h') (im_request_id im) = Some r' \<and> fr_req r' = fr_req r \<and>
    now + d \<le> lease_deadline d r'"
proof -
  from renewed_record [OF assms(1-6), of now] assms(8) obtain l' where
    l: "mget (hb_jobs h') (im_request_id im) = Some (r\<lparr>fr_live := Some l'\<rparr>)"
    "lv_produced_output l'" "lv_last_activity l' = now" by auto
  have "lease_deadline d (r\<lparr>fr_live := Some l'\<rparr>) = max (fr_lease_expiry r) (now + d)"
    using lease_deadline_silence [of "r\<lparr>fr_live := Some l'\<rparr>" l'] l assms(7) by simp
  then show ?thesis using l(1) by (intro exI [of _ "r\<lparr>fr_live := Some l'\<rparr>"]) simp
qed

text \<open>
  Cancelling a running request frees exactly its slot: it has no holder afterwards, every other
  job keeps its holder, and the counters stay exact.
\<close>

theorem cancel_frees_one_slot:
  assumes "settled h"
  shows "settled (fst (cancel_request h rid)) \<and>
    holder_of (fst (cancel_request h rid)) = (holder_of h)(rid := None)"
  using cancel_request_exact [OF assms] cancel_request_holder by blast

text \<open>
  TokenStates, one pass over the connections, agrees with the four separate reports: a token has
  a row exactly when it is connected or was seen, and the row is ConnectedCountByToken, the sorted
  ConnectedModels, ConnectedVersion and LastSeenTime.
\<close>

theorem token_states_agree:
  assumes "wf_map (hb_last_seen h)"
  shows "mget (token_states h) t =
    (if by_token h t = [] \<and> mget (hb_last_seen h) t = None then None
     else Some \<lparr>ts_connections = connected_count_by_token h t,
       ts_models = sort (connected_models h t), ts_version = connected_version h t,
       ts_last_seen = last_seen_time h t\<rparr>)"
  using assms by (rule token_states_row)

section \<open>The origin check\<close>

lemma index_str_Some:
  "index_str s p = Some i \<Longrightarrow> i \<le> length s \<and> take (length p) (drop i s) = p"
proof (induction s p arbitrary: i rule: index_str.induct)
  case (1 p)
  then show ?case by (auto split: if_splits)
next
  case (2 x xs p)
  show ?case
  proof (cases "has_prefix (x # xs) p")
    case True
    then show ?thesis using 2 by (simp add: has_prefix_def)
  next
    case False
    with 2 obtain i' where "i = Suc i'" "index_str xs p = Some i'" by auto
    then show ?thesis using 2 False by simp
  qed
qed

text \<open>
  The WebSocket origin check accepts exactly the requests without an Origin header and those
  whose origin is a non-empty scheme, then \<open>://\<close> for the first time, then the host the request
  was sent to.
\<close>

theorem origin_check_exact:
  "is_valid_origin origin host \<longleftrightarrow>
     origin = [] \<or>
     (\<exists>scheme. scheme \<noteq> [] \<and> host \<noteq> [] \<and> origin = scheme @ ''://'' @ host \<and>
        index_str origin ''://'' = Some (length scheme))"
proof (cases "index_str origin ''://''")
  case None
  then show ?thesis by (simp add: is_valid_origin_def parse_origin_def)
next
  case (Some i)
  have i: "i \<le> length origin" "take 3 (drop i origin) = ''://''"
    using index_str_Some [OF Some] by (simp_all add: eval_nat_numeral)
  have split: "origin = take i origin @ ''://'' @ drop (i + 3) origin"
    using i(2) by (metis append_take_drop_id drop_drop add.commute)
  have len: "length (take i origin) = i" using i(1) by simp
  have "(\<exists>scheme. scheme \<noteq> [] \<and> host \<noteq> [] \<and> origin = scheme @ ''://'' @ host \<and> i = length scheme) \<longleftrightarrow>
      take i origin \<noteq> [] \<and> drop (i + 3) origin \<noteq> [] \<and> drop (i + 3) origin = host"
  proof
    assume "\<exists>scheme. scheme \<noteq> [] \<and> host \<noteq> [] \<and> origin = scheme @ ''://'' @ host \<and> i = length scheme"
    then obtain scheme where "scheme \<noteq> []" "host \<noteq> []" "origin = scheme @ ''://'' @ host" "i = length scheme"
      by blast
    then show "take i origin \<noteq> [] \<and> drop (i + 3) origin \<noteq> [] \<and> drop (i + 3) origin = host" by simp
  next
    assume "take i origin \<noteq> [] \<and> drop (i + 3) origin \<noteq> [] \<and> drop (i + 3) origin = host"
    then show "\<exists>scheme. scheme \<noteq> [] \<and> host \<noteq> [] \<and> origin = scheme @ ''://'' @ host \<and> i = length scheme"
      using split len by metis
  qed
  then show ?thesis using Some
    by (auto simp: is_valid_origin_def parse_origin_def Let_def eval_nat_numeral)
qed

end
