(* ===== verification/Scheduler.thy ===== *)
theory Scheduler
  imports Request_Queue Hub_Views
begin

text \<open>
  \<open>router/internal/scheduler/scheduler.go\<close>: one run of \<open>drainQueue\<close>, over the queue and
  the hub of this model. The pairing policy is a function for the length of a drain (the code
  memoises it by requester and client), and so is the prefix key of a request (memoised by
  request id); both are arguments. The goroutine that wakes the drain (\<open>loop\<close>, \<open>Wake\<close>)
  has no state a drain reads, and the log is kept where it says what was dispatched.
\<close>

section \<open>Pairings\<close>

record pairing =
  pr_allowed :: bool
  pr_owner_side :: bool
  pr_idle_only :: bool
  pr_reserved :: "(string, int) gomap"
  pr_per_requester_max :: int

definition reserved_for :: "pairing \<Rightarrow> string \<Rightarrow> int" where
  "reserved_for p model =
     (case mget (pr_reserved p) model of Some n \<Rightarrow> n | None \<Rightarrow> get_or 0 (pr_reserved p) ''*'')"

definition owner_pairing :: "string \<Rightarrow> client_summary \<Rightarrow> pairing" where
  "owner_pairing req_owner c =
     \<lparr>pr_allowed = True, pr_owner_side = (req_owner = cs_owner c), pr_idle_only = False,
      pr_reserved = cs_owner_slots c, pr_per_requester_max = 0\<rparr>"

section \<open>Candidates and their order\<close>

record candidate =
  ca_client :: client_summary
  ca_req :: inference_request
  ca_affinity :: bool
  ca_resolved :: string
  ca_tier :: int

definition better_client :: "client_summary \<Rightarrow> client_summary \<Rightarrow> bool" where
  "better_client a b =
     (let a_unloaded = cs_in_flight a = 0; b_unloaded = cs_in_flight b = 0
      in if a_unloaded \<noteq> b_unloaded then a_unloaded
         else if cs_in_flight a = 0 then cs_max_concurrent a > cs_max_concurrent b
         else cs_max_concurrent a - cs_in_flight a > cs_max_concurrent b - cs_in_flight b)"

definition better_pair ::
  "client_summary \<Rightarrow> inference_request \<Rightarrow> client_summary \<Rightarrow> inference_request \<Rightarrow> bool" where
  "better_pair ca ra cb rb =
     (if rq_id ra = rq_id rb then better_client ca cb
      else
        (let a_match = (cs_owner ca \<noteq> [] \<and> rq_owner ra = cs_owner ca);
             b_match = (cs_owner cb \<noteq> [] \<and> rq_owner rb = cs_owner cb)
         in if a_match \<noteq> b_match \<or> rq_priority ra \<noteq> rq_priority rb
            then better_request ra rb a_match b_match
            else if rq_enqueued_at ra \<noteq> rq_enqueued_at rb
            then rq_enqueued_at ra < rq_enqueued_at rb
            else better_client ca cb))"

definition better_candidate :: "candidate \<Rightarrow> candidate \<Rightarrow> bool" where
  "better_candidate a b =
     (if rq_id (ca_req a) = rq_id (ca_req b) \<and> ca_tier a \<noteq> ca_tier b then ca_tier a < ca_tier b
      else if ca_affinity a \<noteq> ca_affinity b then ca_affinity a
      else better_pair (ca_client a) (ca_req a) (ca_client b) (ca_req b))"

definition resolve_model ::
  "inference_request \<Rightarrow> (string, bool) gomap \<Rightarrow> (string, alias_target list) gomap \<Rightarrow> string \<times> int"
where
  "resolve_model req models aliases =
     (if rq_model req = ''any''
      then (case find (\<lambda>m. model_allowed req m) (mkeys models) of
              Some m \<Rightarrow> (m, 0)
            | None \<Rightarrow> (rq_model req, 0))
      else (case mget aliases (rq_model req) of
              None \<Rightarrow> (rq_model req, 0)
            | Some targets \<Rightarrow>
                (case find (\<lambda>t. get_or False models (at_model t) \<and> model_allowed req (at_model t)) targets of
                   Some t \<Rightarrow> (at_model t, at_priority t)
                 | None \<Rightarrow> (rq_model req, 0))))"

section \<open>The state of a drain\<close>

definition prefix_affinity_ttl :: duration where "prefix_affinity_ttl = 45 * 60 * second_ns"
definition prefix_affinity_max :: nat where "prefix_affinity_max = 4096"

record prefix_entry =
  pe_client_id :: string
  pe_at :: gotime

record drain_env =
  en_aliases :: "(string, string list) gomap"
  en_targets :: "(string, alias_target list) gomap"
  en_opts :: request_optimization
  en_pair :: "string \<Rightarrow> client_summary \<Rightarrow> pairing"
  en_prefix_key :: "inference_request \<Rightarrow> string"
  en_now :: gotime

record drain_state =
  ds_queue :: queue
  ds_hub :: hub
  ds_events :: "hub_event list"
  ds_in_flight :: "(string, int) gomap"
  ds_running :: "(string, job_ref list) gomap"
  ds_unpoppable :: "string list"
  ds_prefix_aff :: "(string, prefix_entry) gomap"
  ds_dispatched :: "(string \<times> inference_request) list"

definition prune_prefix_affinity ::
  "gotime \<Rightarrow> (string, prefix_entry) gomap \<Rightarrow> (string, prefix_entry) gomap" where
  "prune_prefix_affinity now aff =
     filter (\<lambda>(_, e). \<not> pe_at e < now - prefix_affinity_ttl) aff"

section \<open>Who may be served\<close>

text \<open>\<open>runningOn\<close>: the jobs on a client, as cached in this drain or as the hub has them.\<close>

definition running_on :: "drain_state \<Rightarrow> string \<Rightarrow> job_ref list" where
  "running_on st cid =
     (case mget (ds_running st) cid of Some refs \<Rightarrow> refs | None \<Rightarrow> job_refs_on (ds_hub st) cid)"

definition owner_side_busy :: "drain_env \<Rightarrow> drain_state \<Rightarrow> client_summary \<Rightarrow> bool" where
  "owner_side_busy env st c \<longleftrightarrow>
     cs_local_busy c > 0 \<or>
     list_ex (\<lambda>j. pr_owner_side (en_pair env (jr_owner j) c)) (running_on st (cs_id c))"

definition jobs_of_requester :: "drain_state \<Rightarrow> client_summary \<Rightarrow> string \<Rightarrow> int" where
  "jobs_of_requester st c req_owner =
     int (length (filter (\<lambda>j. jr_owner j = req_owner) (running_on st (cs_id c))))"

definition eligible :: "drain_env \<Rightarrow> drain_state \<Rightarrow> client_summary \<Rightarrow> string \<Rightarrow> bool" where
  "eligible env st c req_owner =
     (let p = en_pair env req_owner c
      in if \<not> pr_allowed p then False
         else if pr_owner_side p then True
         else if pr_idle_only p \<and> owner_side_busy env st c then False
         else if pr_per_requester_max p > 0 \<and>
                 jobs_of_requester st c req_owner \<ge> pr_per_requester_max p then False
         else True)"

definition others_on :: "drain_env \<Rightarrow> drain_state \<Rightarrow> client_summary \<Rightarrow> string \<Rightarrow> int" where
  "others_on env st c model =
     int (length (filter (\<lambda>j. jr_model j = model \<and> \<not> pr_owner_side (en_pair env (jr_owner j) c))
            (running_on st (cs_id c))))"

text \<open>Slots the client keeps back from requesters that are not on its owner's side.\<close>

definition reserved_ok ::
  "drain_env \<Rightarrow> drain_state \<Rightarrow> client_summary \<Rightarrow> inference_request \<Rightarrow> string \<Rightarrow> bool" where
  "reserved_ok env st c req resolved =
     (let p = en_pair env (rq_owner req) c
      in pr_owner_side p \<or>
         (let capacity = cs_max_concurrent c - reserved_for p resolved
          in capacity > 0 \<and> others_on env st c resolved < capacity))"

definition context_ok :: "client_summary \<Rightarrow> inference_request \<Rightarrow> string \<Rightarrow> bool" where
  "context_ok c req resolved =
     (if rq_word_count req > 0
      then (let ctx_size = get_or 0 (cs_context_sizes c) resolved
            in if ctx_size > 0
               then \<not> estimate_tokens (rq_word_count req) (rq_max_tokens req) > ctx_size
               else True)
      else True)"

definition modalities_ok :: "client_summary \<Rightarrow> inference_request \<Rightarrow> string \<Rightarrow> bool" where
  "modalities_ok c req resolved =
     (if rq_modalities req \<noteq> []
      then modalities_compatible (get_or [] (cs_modalities c) resolved) (rq_modalities req)
      else True)"

definition has_affinity :: "drain_env \<Rightarrow> drain_state \<Rightarrow> client_summary \<Rightarrow> inference_request \<Rightarrow> bool" where
  "has_affinity env st c req =
     (if op_prefix_affinity (en_opts env)
      then (let pk = en_prefix_key env req
            in pk \<noteq> [] \<and>
               (case mget (ds_prefix_aff st) pk of
                  None \<Rightarrow> False
                | Some e \<Rightarrow> pe_client_id e = cs_id c))
      else False)"

section \<open>Selection\<close>

definition peek_for :: "drain_env \<Rightarrow> drain_state \<Rightarrow> client_summary \<Rightarrow> inference_request option" where
  "peek_for env st c =
     peek_best_for_client (ds_queue st) (cs_models c) (en_aliases env) (cs_owner c)
       (Some (eligible env st c))"

definition full :: "drain_state \<Rightarrow> client_summary \<Rightarrow> bool" where
  "full st c \<longleftrightarrow> get_or 0 (ds_in_flight st) (cs_id c) \<ge> cs_max_concurrent c"

text \<open>One pass of the loop body over a client: the candidate it contributes, if any.\<close>

definition candidate_for :: "drain_env \<Rightarrow> drain_state \<Rightarrow> client_summary \<Rightarrow> candidate option" where
  "candidate_for env st c =
     (if full st c then None
      else case peek_for env st c of
        None \<Rightarrow> None
      | Some req \<Rightarrow>
          (case resolve_model req (cs_models c) (en_targets env) of
             (resolved, tier) \<Rightarrow>
               if \<not> reserved_ok env st c req resolved then None
               else if \<not> context_ok c req resolved then None
               else if \<not> modalities_ok c req resolved then None
               else Some \<lparr>ca_client = c\<lparr>cs_in_flight := get_or 0 (ds_in_flight st) (cs_id c)\<rparr>,
                          ca_req = req, ca_affinity = has_affinity env st c req,
                          ca_resolved = resolved, ca_tier = tier\<rparr>))"

fun select_best ::
  "drain_env \<Rightarrow> drain_state \<Rightarrow> client_summary list \<Rightarrow> candidate option \<Rightarrow> candidate option" where
  "select_best env st [] best = best"
| "select_best env st (c # cs) best =
     select_best env st cs
       (case candidate_for env st c of
          None \<Rightarrow> best
        | Some cand \<Rightarrow>
            (case best of
               None \<Rightarrow> Some cand
             | Some b \<Rightarrow> if better_candidate cand b then Some cand else best))"

text \<open>
  \<open>runningOn\<close> caches what it reads from the hub, and which clients it was asked about decides
  what is cached before the dispatch. \<open>asks_running\<close> says when the pass over a client asks.
\<close>

definition eligible_asks :: "drain_env \<Rightarrow> drain_state \<Rightarrow> client_summary \<Rightarrow> string \<Rightarrow> bool" where
  "eligible_asks env st c req_owner =
     (let p = en_pair env req_owner c
      in pr_allowed p \<and> \<not> pr_owner_side p \<and>
         ((pr_idle_only p \<and> \<not> cs_local_busy c > 0) \<or>
          (pr_per_requester_max p > 0 \<and> \<not> (pr_idle_only p \<and> owner_side_busy env st c))))"

definition asks_running :: "drain_env \<Rightarrow> drain_state \<Rightarrow> client_summary \<Rightarrow> bool" where
  "asks_running env st c \<longleftrightarrow> \<not> full st c \<and>
     (list_ex (\<lambda>req. can_handle req (cs_models c) (en_aliases env) \<and>
                 eligible_asks env st c (rq_owner req)) (qu_items (ds_queue st)) \<or>
      (case peek_for env st c of
         None \<Rightarrow> False
       | Some req \<Rightarrow>
           \<not> pr_owner_side (en_pair env (rq_owner req) c) \<and>
           cs_max_concurrent c
             - reserved_for (en_pair env (rq_owner req) c)
                 (fst (resolve_model req (cs_models c) (en_targets env))) > 0))"

definition cache_running :: "drain_state \<Rightarrow> string \<Rightarrow> drain_state" where
  "cache_running st cid = st\<lparr>ds_running := mput cid (running_on st cid) (ds_running st)\<rparr>"

definition seed_running :: "drain_env \<Rightarrow> client_summary list \<Rightarrow> drain_state \<Rightarrow> drain_state" where
  "seed_running env cs st =
     fold (\<lambda>c st'. if asks_running env st c then cache_running st' (cs_id c) else st') cs st"

section \<open>Dispatch\<close>

text \<open>The name the caller asked for is kept, once, before the rewrite to the concrete model.\<close>

definition rewrite_model :: "inference_request \<Rightarrow> string \<Rightarrow> inference_request" where
  "rewrite_model req resolved =
     (let r = (if rq_requested_model req = [] then req\<lparr>rq_requested_model := rq_model req\<rparr> else req)
      in r\<lparr>rq_model := resolved\<rparr>)"

definition record_affinity ::
  "drain_env \<Rightarrow> candidate \<Rightarrow> (string, prefix_entry) gomap \<Rightarrow> (string, prefix_entry) gomap" where
  "record_affinity env best aff =
     (if op_prefix_affinity (en_opts env)
      then (let pk = en_prefix_key env (ca_req best)
            in if pk \<noteq> [] \<and> (mget aff pk \<noteq> None \<or> length aff < prefix_affinity_max)
               then mput pk \<lparr>pe_client_id = cs_id (ca_client best), pe_at = en_now env\<rparr> aff
               else aff)
      else aff)"

definition account_dispatch :: "candidate \<Rightarrow> inference_request \<Rightarrow> drain_state \<Rightarrow> drain_state" where
  "account_dispatch best req st =
     (let cid = cs_id (ca_client best)
      in st\<lparr>ds_in_flight := mput cid (get_or 0 (ds_in_flight st) cid + 1) (ds_in_flight st),
            ds_running := mput cid
              (running_on st cid @ [\<lparr>jr_owner = rq_owner req, jr_model = rq_model req\<rparr>])
              (ds_running st),
            ds_dispatched := ds_dispatched st @ [(cid, req)]\<rparr>)"

text \<open>
  Count the slot, track the job, send it; undo on failure. The flag says whether the drain goes
  on.
\<close>

definition dispatch_best ::
  "drain_env \<Rightarrow> candidate \<Rightarrow> inference_request \<Rightarrow> drain_state \<Rightarrow> bool \<times> drain_state" where
  "dispatch_best env best popped st =
     (let cid = cs_id (ca_client best);
          req = rewrite_model popped (ca_resolved best);
          h1 = incr_in_flight (ds_hub st) cid
      in case track_job h1 (en_now env) cid req of
           (False, h2, evs) \<Rightarrow>
             (False, st\<lparr>ds_hub := decr_in_flight h2 cid, ds_queue := push (ds_queue st) req\<rparr>)
         | (True, h2, evs) \<Rightarrow>
             (case send_to_client h2 cid (Job_Msg (for_worker req)) of
                (False, h3) \<Rightarrow>
                  (case untrack_job h3 (en_now env) cid (rq_id req) of
                     (False, h4, evs2) \<Rightarrow>
                       (False, st\<lparr>ds_hub := h4, ds_events := ds_events st @ evs @ evs2\<rparr>)
                   | (True, h4, evs2) \<Rightarrow>
                       (False, st\<lparr>ds_hub := decr_in_flight h4 cid,
                                  ds_queue := push (ds_queue st) req,
                                  ds_events := ds_events st @ evs @ evs2\<rparr>))
              | (True, h3) \<Rightarrow>
                  (True, account_dispatch best req
                     (st\<lparr>ds_hub := h3, ds_events := ds_events st @ evs,
                         ds_prefix_aff := record_affinity env best (ds_prefix_aff st)\<rparr>))))"

definition drain_step ::
  "drain_env \<Rightarrow> client_summary list \<Rightarrow> drain_state \<Rightarrow> bool \<times> drain_state" where
  "drain_step env clients st =
     (let st1 = seed_running env clients st
      in case select_best env st clients None of
           None \<Rightarrow> (False, st1)
         | Some best \<Rightarrow>
             (case pop_by_id (ds_queue st1) (rq_id (ca_req best)) of
                None \<Rightarrow>
                  if rq_id (ca_req best) \<in> set (ds_unpoppable st1) then (False, st1)
                  else (True, st1\<lparr>ds_unpoppable := rq_id (ca_req best) # ds_unpoppable st1\<rparr>)
              | Some (req, q') \<Rightarrow> dispatch_best env best req (st1\<lparr>ds_queue := q'\<rparr>)))"

text \<open>The loop, with the number of its iterations bounded by the fuel: \<open>None\<close> is still looping.\<close>

fun drain_loop ::
  "nat \<Rightarrow> drain_env \<Rightarrow> client_summary list \<Rightarrow> drain_state \<Rightarrow> drain_state option" where
  "drain_loop 0 env clients st = None"
| "drain_loop (Suc fuel) env clients st =
     (case drain_step env clients st of
        (True, st') \<Rightarrow> drain_loop fuel env clients st'
      | (False, st') \<Rightarrow> Some st')"

definition drain_fuel :: "queue \<Rightarrow> nat" where
  "drain_fuel q = 2 * queue_len q + 1"

definition drain_start ::
  "drain_env \<Rightarrow> queue \<Rightarrow> hub \<Rightarrow> (string, prefix_entry) gomap \<Rightarrow> drain_state" where
  "drain_start env q h aff =
     \<lparr>ds_queue = q, ds_hub = h, ds_events = [],
      ds_in_flight = map (\<lambda>c. (cs_id c, cs_in_flight c)) (available_client_list h),
      ds_running = [], ds_unpoppable = [],
      ds_prefix_aff =
        (if op_prefix_affinity (en_opts env) then prune_prefix_affinity (en_now env) aff else aff),
      ds_dispatched = []\<rparr>"

definition drain_queue ::
  "drain_env \<Rightarrow> queue \<Rightarrow> hub \<Rightarrow> (string, prefix_entry) gomap \<Rightarrow> drain_state option" where
  "drain_queue env q h aff =
     (let clients = available_client_list h; st = drain_start env q h aff
      in if clients = [] then Some st
         else drain_loop (drain_fuel q) env clients st)"

end
