(* ===== verification/Scheduler_Select.thy ===== *)
theory Scheduler_Select
  imports Scheduler
begin

text \<open>
  What a candidate of the drain is worth: a client with a free slot that may serve the
  requester, on the pairing's terms, with a model it has, the requester may use, and whose
  context and modalities fit. Also where the comparison of candidates is not an order.
\<close>

section \<open>Resolving a model name\<close>

text \<open>
  The two alias views come from one snapshot: \<open>AliasMap\<close> lists the models of the targets
  \<open>AliasTargets\<close> gives, in the same order.
\<close>

definition alias_views :: "drain_env \<Rightarrow> bool" where
  "alias_views env \<longleftrightarrow>
     (\<forall>m. get_or [] (en_aliases env) m = map at_model (get_or [] (en_targets env) m))"

text \<open>A Go set of models: every key maps to \<open>true\<close>.\<close>

definition model_set :: "(string, bool) gomap \<Rightarrow> bool" where
  "model_set ms \<longleftrightarrow> (\<forall>m \<in> fst ` set ms. get_or False ms m)"

lemma find_Some_in: "find P xs = Some x \<Longrightarrow> x \<in> set xs \<and> P x"
  by (induction xs) (auto split: if_splits)

lemma find_None_all: "find P xs = None \<Longrightarrow> x \<in> set xs \<Longrightarrow> \<not> P x"
  by (induction xs) (auto split: if_splits)

lemma resolve_model_served:
  assumes can: "can_handle req models aliases" and ms: "model_set models"
    and views: "\<And>m. get_or [] aliases m = map at_model (get_or [] targets m)"
    and res: "resolve_model req models targets = (m, t)"
  shows "get_or False models m \<and> model_allowed req m"
proof (cases "rq_model req = ''any''")
  case True
  with can obtain x where "x \<in> fst ` set models" "model_allowed req x"
    by (auto simp: can_handle_def list_ex_iff)
  then obtain y where "find (model_allowed req) (mkeys models) = Some y"
    using find_None_all [of "model_allowed req" "mkeys models" x]
    by (cases "find (model_allowed req) (mkeys models)") auto
  with find_Some_in [OF this] True res ms show ?thesis
    by (auto simp: resolve_model_def model_set_def)
next
  case False
  show ?thesis
  proof (cases "mget targets (rq_model req)")
    case None
    then have "get_or [] aliases (rq_model req) = []" using views by (simp add: get_or_def)
    then show ?thesis using False None can res
      by (auto simp: resolve_model_def can_handle_def split: if_splits)
  next
    case (Some ts)
    let ?P = "\<lambda>t. get_or False models (at_model t) \<and> model_allowed req (at_model t)"
    have al: "get_or [] aliases (rq_model req) = map at_model ts"
      using views Some by (simp add: get_or_def)
    show ?thesis
    proof (cases "find ?P ts")
      case None
      then have "\<not> (\<exists>t \<in> set ts. ?P t)" using find_None_all by fastforce
      then show ?thesis using False Some None can res al
        by (auto simp: resolve_model_def can_handle_def list_ex_iff split: if_splits)
    next
      case target: (Some x)
      then show ?thesis using False Some res find_Some_in [OF target]
        by (auto simp: resolve_model_def)
    qed
  qed
qed

section \<open>Where a candidate comes from\<close>

lemma candidate_for_Some:
  assumes "candidate_for env st c = Some cand"
  shows "\<not> full st c" and "peek_for env st c = Some (ca_req cand)"
    and "resolve_model (ca_req cand) (cs_models c) (en_targets env) = (ca_resolved cand, ca_tier cand)"
    and "reserved_ok env st c (ca_req cand) (ca_resolved cand)"
    and "context_ok c (ca_req cand) (ca_resolved cand)"
    and "modalities_ok c (ca_req cand) (ca_resolved cand)"
    and "ca_client cand = c\<lparr>cs_in_flight := get_or 0 (ds_in_flight st) (cs_id c)\<rparr>"
    and "ca_affinity cand = has_affinity env st c (ca_req cand)"
  using assms by (auto simp: candidate_for_def split: if_splits option.splits prod.splits)

lemma select_best_from:
  "select_best env st cs best = Some cand \<Longrightarrow>
     best = Some cand \<or> (\<exists>c \<in> set cs. candidate_for env st c = Some cand)"
proof (induction cs arbitrary: best)
  case Nil
  then show ?case by simp
next
  case (Cons c cs)
  let ?b = "case candidate_for env st c of
          None \<Rightarrow> best
        | Some cand \<Rightarrow>
            (case best of
               None \<Rightarrow> Some cand
             | Some b \<Rightarrow> if better_candidate cand b then Some cand else best)"
  have "select_best env st cs ?b = Some cand" using Cons.prems by simp
  from Cons.IH [OF this] show ?case
    by (auto split: option.splits if_splits)
qed

lemma select_best_None:
  "select_best env st cs best = None \<longleftrightarrow>
     best = None \<and> (\<forall>c \<in> set cs. candidate_for env st c = None)"
proof (induction cs arbitrary: best)
  case Nil
  then show ?case by simp
next
  case (Cons c cs)
  show ?case
    by (cases "candidate_for env st c"; cases best) (auto simp: Cons.IH)
qed

text \<open>A candidate that runs on a client meets each of the conditions the client sets.\<close>

definition may_run :: "drain_env \<Rightarrow> drain_state \<Rightarrow> client_summary \<Rightarrow> inference_request \<Rightarrow> string \<Rightarrow> bool" where
  "may_run env st c req m \<longleftrightarrow>
     (let p = en_pair env (rq_owner req) c
      in get_or 0 (ds_in_flight st) (cs_id c) < cs_max_concurrent c \<and>
         pr_allowed p \<and>
         (pr_owner_side p \<or>
            ((pr_idle_only p \<longrightarrow> \<not> owner_side_busy env st c) \<and>
             (pr_per_requester_max p > 0 \<longrightarrow>
                jobs_of_requester st c (rq_owner req) < pr_per_requester_max p) \<and>
             others_on env st c m < cs_max_concurrent c - reserved_for p m)) \<and>
         get_or False (cs_models c) m \<and> model_allowed req m \<and>
         (rq_word_count req > 0 \<and> get_or 0 (cs_context_sizes c) m > 0 \<longrightarrow>
            estimate_tokens (rq_word_count req) (rq_max_tokens req) \<le> get_or 0 (cs_context_sizes c) m) \<and>
         (get_or [] (cs_modalities c) m = [] \<or>
            set (rq_modalities req) \<subseteq> set (get_or [] (cs_modalities c) m)))"

lemma candidate_may_run:
  assumes cand: "candidate_for env st c = Some cand" and ms: "model_set (cs_models c)"
    and views: "alias_views env"
  shows "may_run env st c (ca_req cand) (ca_resolved cand)"
proof -
  note cf = candidate_for_Some [OF cand]
  from cf(2) have off: "offered (cs_models c) (en_aliases env) (Some (eligible env st c)) (ca_req cand)"
    by (auto simp: peek_for_def dest: peek_Some(2))
  then have can: "can_handle (ca_req cand) (cs_models c) (en_aliases env)"
    and el: "eligible env st c (rq_owner (ca_req cand))" by (auto simp: offered_def)
  have served: "get_or False (cs_models c) (ca_resolved cand) \<and> model_allowed (ca_req cand) (ca_resolved cand)"
    using resolve_model_served [OF can ms _ cf(3)] views by (auto simp: alias_views_def)
  have ctx: "rq_word_count (ca_req cand) > 0 \<and> get_or 0 (cs_context_sizes c) (ca_resolved cand) > 0 \<longrightarrow>
      estimate_tokens (rq_word_count (ca_req cand)) (rq_max_tokens (ca_req cand))
        \<le> get_or 0 (cs_context_sizes c) (ca_resolved cand)"
    using cf(5) by (auto simp: context_ok_def Let_def)
  have mods: "get_or [] (cs_modalities c) (ca_resolved cand) = [] \<or>
      set (rq_modalities (ca_req cand)) \<subseteq> set (get_or [] (cs_modalities c) (ca_resolved cand))"
    using cf(6) by (auto simp: modalities_ok_def modalities_compatible_iff split: if_splits)
  show ?thesis
    using cf(1,4) el served ctx mods
    by (auto simp: may_run_def Let_def full_def eligible_def reserved_ok_def split: if_splits)
qed

lemma select_best_peeked:
  assumes "select_best env st cs None = Some cand"
  obtains c where "c \<in> set cs" "candidate_for env st c = Some cand"
    "cs_id (ca_client cand) = cs_id c" "ca_req cand \<in> set (qu_items (ds_queue st))"
proof -
  from select_best_from [OF assms] obtain c where
    c: "c \<in> set cs" "candidate_for env st c = Some cand" by auto
  have "ca_req cand \<in> set (qu_items (ds_queue st))"
    using candidate_for_Some(2) [OF c(2)] by (auto simp: peek_for_def dest: peek_Some(1))
  then show thesis using that [OF c] candidate_for_Some(7) [OF c(2)] by simp
qed

section \<open>Seeding the per-client job lists\<close>

lemma running_on_cache:
  "running_on (cache_running st cid) k = running_on st k"
  by (simp add: running_on_def cache_running_def gomap_simps split: option.split)

lemma cache_running_frame [simp]:
  "ds_queue (cache_running st cid) = ds_queue st" "ds_hub (cache_running st cid) = ds_hub st"
  "ds_events (cache_running st cid) = ds_events st"
  "ds_in_flight (cache_running st cid) = ds_in_flight st"
  "ds_unpoppable (cache_running st cid) = ds_unpoppable st"
  "ds_prefix_aff (cache_running st cid) = ds_prefix_aff st"
  "ds_dispatched (cache_running st cid) = ds_dispatched st"
  by (simp_all add: cache_running_def)

lemma seed_fold:
  fixes f :: "client_summary \<Rightarrow> bool"
  defines "sd \<equiv> fold (\<lambda>c st'. if f c then cache_running st' (cs_id c) else st')"
  shows "ds_queue (sd cs st) = ds_queue st" "ds_hub (sd cs st) = ds_hub st"
    "ds_events (sd cs st) = ds_events st" "ds_in_flight (sd cs st) = ds_in_flight st"
    "ds_unpoppable (sd cs st) = ds_unpoppable st" "ds_prefix_aff (sd cs st) = ds_prefix_aff st"
    "ds_dispatched (sd cs st) = ds_dispatched st" "running_on (sd cs st) = running_on st"
  unfolding sd_def by (induction cs arbitrary: st) (simp_all add: running_on_cache fun_eq_iff)

lemma seed_running_frame [simp]:
  "ds_queue (seed_running env cs st) = ds_queue st" "ds_hub (seed_running env cs st) = ds_hub st"
  "ds_events (seed_running env cs st) = ds_events st"
  "ds_in_flight (seed_running env cs st) = ds_in_flight st"
  "ds_unpoppable (seed_running env cs st) = ds_unpoppable st"
  "ds_prefix_aff (seed_running env cs st) = ds_prefix_aff st"
  "ds_dispatched (seed_running env cs st) = ds_dispatched st"
  "running_on (seed_running env cs st) = running_on st"
  by (simp_all add: seed_running_def seed_fold)

lemma cache_keeps:
  "mget (ds_running st) k \<noteq> None \<Longrightarrow>
     mget (ds_running (fold (\<lambda>c st'. if f c then cache_running st' (cs_id c) else st') cs st)) k \<noteq> None"
proof (induction cs arbitrary: st)
  case Nil
  then show ?case by simp
next
  case (Cons c cs)
  have "mget (ds_running (if f c then cache_running st (cs_id c) else st)) k \<noteq> None"
    using Cons.prems by (simp add: cache_running_def gomap_simps)
  from Cons.IH [OF this] show ?case by (simp del: not_None_eq)
qed

lemma seed_running_cached:
  assumes "c \<in> set cs" and "asks_running env st c"
  shows "mget (ds_running (seed_running env cs st)) (cs_id c) \<noteq> None"
proof -
  from assms(1) obtain pre post where cs: "cs = pre @ c # post" by (meson split_list)
  let ?f = "\<lambda>c st'. if asks_running env st c then cache_running st' (cs_id c) else st'"
  have "mget (ds_running (cache_running (fold ?f pre st) (cs_id c))) (cs_id c) \<noteq> None"
    by (simp add: cache_running_def gomap_simps)
  then have "mget (ds_running (fold ?f post (cache_running (fold ?f pre st) (cs_id c)))) (cs_id c) \<noteq> None"
    by (rule cache_keeps)
  then show ?thesis using assms(2)
    by (simp add: seed_running_def cs del: not_None_eq)
qed

text \<open>
  A requester that is not on the owner's side is only ever chosen after the jobs on that client
  were looked up, so the lookup happens before the hub sees the new job.
\<close>

lemma outsider_asks:
  assumes cand: "candidate_for env st c = Some cand"
    and out: "\<not> pr_owner_side (en_pair env (rq_owner (ca_req cand)) c)"
  shows "asks_running env st c"
proof -
  note cf = candidate_for_Some [OF cand]
  have "0 < cs_max_concurrent c - reserved_for (en_pair env (rq_owner (ca_req cand)) c) (ca_resolved cand)"
    using cf(4) out by (simp add: reserved_ok_def Let_def)
  then show ?thesis using cf(1,2,3) out by (simp add: asks_running_def)
qed

section \<open>When the choice is a best choice\<close>

text \<open>The comparison of two candidates that hold different requests is lexicographic.\<close>

abbreviation ca_match :: "candidate \<Rightarrow> bool" where
  "ca_match a \<equiv> cs_owner (ca_client a) \<noteq> [] \<and> rq_owner (ca_req a) = cs_owner (ca_client a)"

definition better_fresh :: "candidate \<Rightarrow> candidate \<Rightarrow> bool" where
  "better_fresh a b =
     (if (\<not> ca_affinity a) \<noteq> (\<not> ca_affinity b) then (\<not> ca_affinity a) < (\<not> ca_affinity b)
      else if (\<not> ca_match a) \<noteq> (\<not> ca_match b) then (\<not> ca_match a) < (\<not> ca_match b)
      else if rq_priority (ca_req a) \<noteq> rq_priority (ca_req b)
      then rq_priority (ca_req a) < rq_priority (ca_req b)
      else if rq_enqueued_at (ca_req a) \<noteq> rq_enqueued_at (ca_req b)
      then rq_enqueued_at (ca_req a) < rq_enqueued_at (ca_req b)
      else better_client (ca_client a) (ca_client b))"

lemma better_client_key:
  "better_client a b =
     (if (cs_in_flight a \<noteq> 0) \<noteq> (cs_in_flight b \<noteq> 0) then (cs_in_flight a \<noteq> 0) < (cs_in_flight b \<noteq> 0)
      else cs_in_flight b - cs_max_concurrent b > cs_in_flight a - cs_max_concurrent a)"
  by (auto simp: better_client_def Let_def)

interpretation client_order: choice_order better_client
  unfolding better_client_key [abs_def]
  by (rule choice_order_lex, rule choice_order_map [OF int_order.choice_order_axioms])

interpretation fresh_order: choice_order better_fresh
  unfolding better_fresh_def [abs_def]
  by (rule choice_order_lex, rule choice_order_lex, rule choice_order_lex, rule choice_order_lex,
      rule choice_order_map [OF client_order.choice_order_axioms])

lemma better_candidate_fresh:
  assumes "rq_id (ca_req a) \<noteq> rq_id (ca_req b)"
  shows "better_candidate a b = better_fresh a b"
proof -
  obtain am where am: "am = ca_match a" by blast
  obtain bm where bm: "bm = ca_match b" by blast
  show ?thesis using assms
    unfolding better_candidate_def better_fresh_def better_pair_def better_request_def Let_def
      am [symmetric] bm [symmetric]
    by (cases "ca_affinity a"; cases "ca_affinity b"; cases am; cases bm) auto
qed

lemma select_best_scan:
  "map_option snd best = b \<Longrightarrow> select_best env st cs b =
     map_option snd (scan_best (\<lambda>_. True) better_candidate i (List.map_filter (candidate_for env st) cs) best)"
proof (induction cs arbitrary: b best i)
  case Nil
  then show ?case by (simp add: map_filter_Nil)
next
  case (Cons c cs)
  show ?case
  proof (cases "candidate_for env st c")
    case None
    then show ?thesis using Cons by (simp add: map_filter_Cons)
  next
    case (Some cand)
    have "map_option snd (case best of None \<Rightarrow> Some (i, cand)
        | Some (j, y) \<Rightarrow> if better_candidate cand y then Some (i, cand) else best)
      = (case b of None \<Rightarrow> Some cand | Some b' \<Rightarrow> if better_candidate cand b' then Some cand else b)"
      using Cons.prems by (cases best) auto
    from Cons.IH [OF this, of "Suc i"] Some show ?thesis by (simp add: map_filter_Cons)
  qed
qed

lemma select_best_maximal:
  assumes sel: "select_best env st cs None = Some cand"
    and dist: "distinct (map (\<lambda>a. rq_id (ca_req a)) (List.map_filter (candidate_for env st) cs))"
    and c: "c \<in> set cs" "candidate_for env st c = Some other"
    and ne: "rq_id (ca_req other) \<noteq> rq_id (ca_req cand)"
  shows "\<not> better_candidate other cand"
proof -
  let ?l = "List.map_filter (candidate_for env st) cs"
  have "scan_best (\<lambda>_. True) better_candidate 0 ?l None = scan_best (\<lambda>_. True) better_fresh 0 ?l None"
  proof (rule scan_best_cong [where S = "set ?l"])
    show "better_candidate x y = better_fresh x y" if "x \<in> set ?l" "y \<in> set ?l" "x \<noteq> y" for x y
      using that dist by (intro better_candidate_fresh) (auto simp: distinct_map inj_on_def)
    show "distinct ?l" using dist by (simp add: distinct_map)
  qed simp_all
  with sel select_best_scan [of None None env st cs 0]
  obtain j where "scan_best (\<lambda>_. True) better_fresh 0 ?l None = Some (j, cand)" by auto
  moreover have "other \<in> set ?l" using c by (auto simp: map_filter_in)
  ultimately have "\<not> better_fresh other cand" using fresh_order.scan_maximal by blast
  then show ?thesis using better_candidate_fresh [OF ne] by simp
qed

end
