(* ===== verification/Scheduler_Drain.thy ===== *)
theory Scheduler_Drain
  imports Scheduler_Select
begin

text \<open>
  The run of \<open>drainQueue\<close>: it always returns, whatever state the queue's index is in; it
  loses no request and hands none out twice; every dispatch respects the client's limits; the
  prefix map stays bounded.
\<close>

section \<open>Termination\<close>

text \<open>
  What the queue's index satisfies even when requests share the empty id: an entry points at a
  request with that id. It is all the termination of the drain needs.
\<close>

definition index_ok :: "queue \<Rightarrow> bool" where
  "index_ok q \<longleftrightarrow> (\<forall>rid i. mget (qu_by_id q) rid = Some i \<longrightarrow>
     i < length (qu_items q) \<and> rq_id (qu_items q ! i) = rid)"

lemma queue_wf_index_ok: "queue_wf q \<Longrightarrow> index_ok q"
  by (simp add: queue_wf_def index_ok_def)

lemma push_index_ok:
  assumes "index_ok q"
  shows "index_ok (push q req)"
  using assms
  by (auto simp: index_ok_def push_def push_locked_def push_append_def gomap_simps nth_append
      nth_list_update less_SucI split: option.split) metis

lemma remove_at_index_ok:
  assumes ok: "index_ok q" and i: "i < length (qu_items q)"
  shows "index_ok (snd (remove_at q i))"
  unfolding index_ok_def
proof (intro allI impI)
  fix rid k
  let ?l = "length (qu_items q) - 1"
  assume k: "mget (qu_by_id (snd (remove_at q i))) rid = Some k"
  show "k < length (qu_items (snd (remove_at q i))) \<and> rq_id (qu_items (snd (remove_at q i)) ! k) = rid"
  proof (cases "i \<noteq> ?l \<and> rid = rq_id (qu_items q ! ?l)")
    case True
    with k have "k = i" by (simp add: remove_at_by_id Let_def)
    with True i have "k < ?l" by linarith
    then show ?thesis using True \<open>k = i\<close> i by (simp add: remove_at_nth remove_at_length)
  next
    case False
    with k have ne: "rid \<noteq> rq_id (qu_items q ! i)" and old: "mget (qu_by_id q) rid = Some k"
      by (auto simp: remove_at_by_id Let_def split: if_splits)
    from old ok have r: "k < length (qu_items q)" "rq_id (qu_items q ! k) = rid"
      by (auto simp: index_ok_def)
    then have "k \<noteq> i" "k \<noteq> ?l" using ne False by auto
    then show ?thesis using r i by (simp add: remove_at_nth remove_at_length)
  qed
qed

lemma pop_by_id_shrinks:
  assumes ok: "index_ok q" and pop: "pop_by_id q rid = Some (r, q')"
  shows "index_ok q'" and "queue_len q = Suc (queue_len q')" and "queue_ids q' \<subseteq> queue_ids q"
    and "rq_id r = rid" and "r \<in> set (qu_items q)"
proof -
  from pop obtain i where i: "mget (qu_by_id q) rid = Some i" and rem: "remove_at q i = (r, q')"
    by (auto simp: pop_by_id_def split: option.splits)
  from i ok have l: "i < length (qu_items q)" and id: "rq_id (qu_items q ! i) = rid"
    by (auto simp: index_ok_def)
  have q': "q' = snd (remove_at q i)" and r: "r = qu_items q ! i"
    using rem remove_at_fst [of q i] by auto
  show "index_ok q'" using remove_at_index_ok [OF ok l] q' by simp
  show "queue_len q = Suc (queue_len q')"
    using remove_at_length [OF l] l q' by (simp add: queue_len_def)
  have "set (qu_items q') \<subseteq> set (qu_items q)"
  proof
    fix x assume "x \<in> set (qu_items q')"
    then obtain k where k: "k < length (qu_items q')" "qu_items q' ! k = x"
      by (auto simp: in_set_conv_nth)
    then have "k < length (qu_items q) - 1" using remove_at_length [OF l] q' by simp
    then have "x = qu_items q ! (if k = i then length (qu_items q) - 1 else k)"
      using k(2) q' remove_at_nth [OF l, of k] by (auto split: if_splits)
    moreover have "(if k = i then length (qu_items q) - 1 else k) < length (qu_items q)"
      using l \<open>k < length (qu_items q) - 1\<close> by auto
    ultimately show "x \<in> set (qu_items q)" by simp
  qed
  then show "queue_ids q' \<subseteq> queue_ids q" by blast
  show "rq_id r = rid" "r \<in> set (qu_items q)" using id r l by auto
qed

lemma account_dispatch_frame [simp]:
  "ds_queue (account_dispatch best req st) = ds_queue st"
  "ds_hub (account_dispatch best req st) = ds_hub st"
  "ds_unpoppable (account_dispatch best req st) = ds_unpoppable st"
  "ds_prefix_aff (account_dispatch best req st) = ds_prefix_aff st"
  by (simp_all add: account_dispatch_def Let_def)

text \<open>The three ways a dispatch attempt ends, with what each leaves.\<close>

lemma dispatch_best_cases:
  fixes popped :: inference_request
  assumes "dispatch_best env best popped st = (b, st')"
  defines "cid \<equiv> cs_id (ca_client best)"
    and "req \<equiv> rewrite_model popped (ca_resolved best)"
  obtains (refused) h2 evs where "\<not> b"
      "track_job (incr_in_flight (ds_hub st) cid) (en_now env) cid req = (False, h2, evs)"
      "st' = st\<lparr>ds_hub := decr_in_flight h2 cid, ds_queue := push (ds_queue st) req\<rparr>"
    | (unsent) h2 evs h3 h4 evs2 where "\<not> b"
      "track_job (incr_in_flight (ds_hub st) cid) (en_now env) cid req = (True, h2, evs)"
      "send_to_client h2 cid (Job_Msg (for_worker req)) = (False, h3)"
      "untrack_job h3 (en_now env) cid (rq_id req) = (True, h4, evs2)"
      "st' = st\<lparr>ds_hub := decr_in_flight h4 cid, ds_queue := push (ds_queue st) req,
                ds_events := ds_events st @ evs @ evs2\<rparr>"
    | (sent) h2 evs h3 where "b"
      "track_job (incr_in_flight (ds_hub st) cid) (en_now env) cid req = (True, h2, evs)"
      "send_to_client h2 cid (Job_Msg (for_worker req)) = (True, h3)"
      "st' = account_dispatch best req
         (st\<lparr>ds_hub := h3, ds_events := ds_events st @ evs,
             ds_prefix_aff := record_affinity env best (ds_prefix_aff st)\<rparr>)"
proof -
  obtain tb h2 evs where tr: "track_job (incr_in_flight (ds_hub st) cid) (en_now env) cid req = (tb, h2, evs)"
    by (metis prod_cases3)
  obtain sb h3 where snd: "send_to_client h2 cid (Job_Msg (for_worker req)) = (sb, h3)"
    by fastforce
  obtain ub h4 evs2 where un: "untrack_job h3 (en_now env) cid (rq_id req) = (ub, h4, evs2)"
    by (metis prod_cases3)
  show thesis
  proof (cases tb)
    case False
    then show thesis using assms(1) tr refused [of h2 evs]
      by (simp add: dispatch_best_def Let_def cid_def req_def)
  next
    case tracked: True
    show thesis
    proof (cases sb)
      case True
      then show thesis using assms(1) tr snd tracked sent [of h2 evs h3]
        by (simp add: dispatch_best_def Let_def cid_def req_def)
    next
      case False
      have "track_only (en_now env) (incr_in_flight (ds_hub st) cid) cid req = (True, h2)"
        using tr tracked by (simp add: track_only_def)
      from hub_ops.unsent_untracks [OF this snd] have "ub"
        using un by (simp add: untrack_only_def)
      then show thesis using assms(1) tr snd un tracked False unsent [of h2 evs h3 h4 evs2]
        by (simp add: dispatch_best_def Let_def cid_def req_def)
    qed
  qed
qed

lemma dispatch_best_sent_queue:
  assumes "dispatch_best env best popped st = (True, st')"
  shows "ds_queue st' = ds_queue st" and "ds_unpoppable st' = ds_unpoppable st"
  using assms by (cases rule: dispatch_best_cases, auto)+

definition drain_measure :: "drain_state \<Rightarrow> nat" where
  "drain_measure st =
     queue_len (ds_queue st) + card (queue_ids (ds_queue st) - set (ds_unpoppable st))"

text \<open>A step that goes on has either taken a request out or marked one more id.\<close>

lemma drain_step_progress:
  assumes ok: "index_ok (ds_queue st)" and step: "drain_step env cs st = (True, st')"
  shows "index_ok (ds_queue st') \<and> drain_measure st' < drain_measure st"
proof -
  from step obtain best where sel: "select_best env st cs None = Some best"
    by (auto simp: drain_step_def Let_def split: option.splits)
  then have peeked: "rq_id (ca_req best) \<in> queue_ids (ds_queue st)"
    by (elim select_best_peeked) auto
  show ?thesis
  proof (cases "pop_by_id (ds_queue st) (rq_id (ca_req best))")
    case None
    let ?rid = "rq_id (ca_req best)"
    have st': "?rid \<notin> set (ds_unpoppable st)"
      "st' = (seed_running env cs st)\<lparr>ds_unpoppable := ?rid # ds_unpoppable st\<rparr>"
      using step sel None by (auto simp: drain_step_def Let_def split: if_splits)
    have "card (queue_ids (ds_queue st) - set (?rid # ds_unpoppable st))
        < card (queue_ids (ds_queue st) - set (ds_unpoppable st))"
      using peeked st'(1) by (intro psubset_card_mono) auto
    then show ?thesis using st'(2) ok by (simp add: drain_measure_def)
  next
    case (Some p)
    obtain r q' where p: "p = (r, q')" by fastforce
    have d: "dispatch_best env best r ((seed_running env cs st)\<lparr>ds_queue := q'\<rparr>) = (True, st')"
      using step sel Some p by (simp add: drain_step_def Let_def)
    have st': "ds_queue st' = q'" "ds_unpoppable st' = ds_unpoppable st"
      using dispatch_best_sent_queue [OF d] by simp_all
    note sh = pop_by_id_shrinks [OF ok Some [unfolded p]]
    have "card (queue_ids q' - set (ds_unpoppable st)) \<le> card (queue_ids (ds_queue st) - set (ds_unpoppable st))"
      using sh(3) by (intro card_mono) auto
    then show ?thesis using sh(1,2) st' by (simp add: drain_measure_def)
  qed
qed

lemma drain_loop_returns:
  "index_ok (ds_queue st) \<Longrightarrow> drain_measure st < fuel \<Longrightarrow> \<exists>st'. drain_loop fuel env cs st = Some st'"
proof (induction fuel arbitrary: st)
  case 0
  then show ?case by simp
next
  case (Suc fuel)
  obtain b st1 where step: "drain_step env cs st = (b, st1)" by fastforce
  show ?case
  proof (cases b)
    case False
    then show ?thesis using step by simp
  next
    case True
    with drain_step_progress [OF Suc.prems(1), of env cs st1] step
    have "index_ok (ds_queue st1)" "drain_measure st1 < drain_measure st" by simp_all
    with Suc.IH [of st1] Suc.prems(2) step True show ?thesis by simp
  qed
qed

lemma drain_measure_bound: "drain_measure st \<le> 2 * queue_len (ds_queue st)"
proof -
  have "card (queue_ids (ds_queue st) - set (ds_unpoppable st)) \<le> card (queue_ids (ds_queue st))"
    by (intro card_mono) auto
  also have "\<dots> \<le> card (set (qu_items (ds_queue st)))" by (rule card_image_le) simp
  also have "\<dots> \<le> queue_len (ds_queue st)" by (simp add: queue_len_def card_length)
  finally show ?thesis by (simp add: drain_measure_def)
qed

text \<open>More fuel than the drain needs changes nothing.\<close>

lemma drain_loop_more:
  "drain_loop fuel env cs st = Some st' \<Longrightarrow> drain_loop (fuel + k) env cs st = Some st'"
  by (induction fuel arbitrary: st) (auto split: prod.splits bool.splits)

lemma drain_returns:
  assumes "index_ok q"
  shows "\<exists>st. drain_queue env q h aff = Some st"
proof -
  have "drain_measure (drain_start env q h aff) < drain_fuel q"
    using drain_measure_bound [of "drain_start env q h aff"]
    by (simp add: drain_fuel_def drain_start_def)
  then show ?thesis
    using drain_loop_returns [of "drain_start env q h aff" "drain_fuel q"] assms
    by (simp add: drain_queue_def Let_def drain_start_def)
qed

text \<open>
  C8. Every drain returns: whatever the clients, the aliases, the pairing policy and the hub,
  and even on a queue whose requests share an empty id, the loop of drainQueue ends after at
  most twice as many rounds as requests were waiting, and its result does not change with more.
\<close>

theorem drain_terminates:
  assumes "index_ok q" and "available_client_list h \<noteq> []"
  shows "\<exists>st. drain_queue env q h aff = Some st \<and>
    drain_loop (2 * queue_len q + 1 + k) env (available_client_list h) (drain_start env q h aff) = Some st"
proof -
  obtain st where st: "drain_queue env q h aff = Some st" using drain_returns [OF assms(1)] by blast
  then have "drain_loop (2 * queue_len q + 1) env (available_client_list h) (drain_start env q h aff) = Some st"
    using assms(2) by (simp add: drain_queue_def Let_def drain_fuel_def)
  from drain_loop_more [OF this, of k] st show ?thesis by blast
qed

section \<open>No request is lost or handed out twice\<close>

abbreviation dispatch_ids :: "drain_state \<Rightarrow> string list" where
  "dispatch_ids st \<equiv> map (\<lambda>p. rq_id (snd p)) (ds_dispatched st)"

text \<open>
  Relative to the queue and hub at the start: what waits and what was dispatched make up the
  old queue, the hub holds what it held and each dispatched request at its client, and the
  counters are exact.
\<close>

definition drain_base :: "queue \<Rightarrow> hub \<Rightarrow> drain_state \<Rightarrow> bool" where
  "drain_base q0 h0 st \<longleftrightarrow>
     queue_wf (ds_queue st) \<and> [] \<notin> queue_ids q0 \<and> settled (ds_hub st) \<and>
     (\<forall>rid \<in> queue_ids q0. holder_of h0 rid = None) \<and>
     distinct (dispatch_ids st) \<and>
     set (dispatch_ids st) \<inter> queue_ids (ds_queue st) = {} \<and>
     set (dispatch_ids st) \<union> queue_ids (ds_queue st) = queue_ids q0 \<and>
     holder_of (ds_hub st) = holder_of h0 ++ map_of (map (\<lambda>(cid, r). (rq_id r, cid)) (ds_dispatched st)) \<and>
     (\<forall>(cid, r) \<in> set (ds_dispatched st). \<exists>r0 \<in> set (qu_items q0). \<exists>m. r = rewrite_model r0 m)"

definition waiting_as_queued :: "queue \<Rightarrow> drain_state \<Rightarrow> bool" where
  "waiting_as_queued q0 st \<longleftrightarrow> set (qu_items (ds_queue st)) \<subseteq> set (qu_items q0)"

definition waiting_rewritten :: "queue \<Rightarrow> drain_state \<Rightarrow> bool" where
  "waiting_rewritten q0 st \<longleftrightarrow>
     (\<forall>r \<in> set (qu_items (ds_queue st)). \<exists>r0 \<in> set (qu_items q0). r = r0 \<or> (\<exists>m. r = rewrite_model r0 m))"

lemma rewrite_model_id [simp]:
  "rq_id (rewrite_model r m) = rq_id r" "rq_owner (rewrite_model r m) = rq_owner r"
  "rq_model (rewrite_model r m) = m" "rq_allowed_models (rewrite_model r m) = rq_allowed_models r"
  "rq_word_count (rewrite_model r m) = rq_word_count r"
  "rq_max_tokens (rewrite_model r m) = rq_max_tokens r"
  "rq_modalities (rewrite_model r m) = rq_modalities r"
  by (simp_all add: rewrite_model_def Let_def)

lemma drain_base_frame:
  "ds_queue st' = ds_queue st \<Longrightarrow> ds_hub st' = ds_hub st \<Longrightarrow> ds_dispatched st' = ds_dispatched st \<Longrightarrow>
     drain_base q0 h0 st' = drain_base q0 h0 st \<and> waiting_as_queued q0 st' = waiting_as_queued q0 st"
  by (simp add: drain_base_def waiting_as_queued_def)

lemma dispatch_ids_keys: "fst ` set (map (\<lambda>(cid, r). (rq_id r, cid)) ds) = set (map (\<lambda>p. rq_id (snd p)) ds)"
  by (induction ds) auto

lemma drain_base_waiting:
  assumes base: "drain_base q0 h0 st" and rid: "rid \<in> queue_ids (ds_queue st)"
  shows "rid \<noteq> [] \<and> holder_of (ds_hub st) rid = None"
proof -
  have parts: "[] \<notin> queue_ids q0" "\<forall>rid \<in> queue_ids q0. holder_of h0 rid = None"
    "set (dispatch_ids st) \<inter> queue_ids (ds_queue st) = {}"
    "set (dispatch_ids st) \<union> queue_ids (ds_queue st) = queue_ids q0"
    using base by (simp_all add: drain_base_def)
  from parts(4) rid have "rid \<in> queue_ids q0" by blast
  then have "rid \<noteq> []" "holder_of h0 rid = None" using parts(1,2) by metis+
  moreover from parts(3) rid have "rid \<notin> set (dispatch_ids st)" by blast
  then have "map_of (map (\<lambda>(cid, r). (rq_id r, cid)) (ds_dispatched st)) rid = None"
    unfolding mget_None_iff dispatch_ids_keys .
  ultimately show ?thesis using base by (simp add: drain_base_def map_add_def)
qed

text \<open>Taking a request out and putting a rewritten copy back leaves the same ids waiting.\<close>

lemma put_back:
  assumes wf: "queue_wf q" and pop: "pop_by_id q rid = Some (r, q')" and ne: "rid \<noteq> []"
    and id: "rq_id r2 = rid"
  shows "queue_wf (push q' r2)" and "queue_ids (push q' r2) = queue_ids q"
    and "set (qu_items (push q' r2)) = insert r2 {x \<in> set (qu_items q). rq_id x \<noteq> rid}"
proof -
  have wf': "queue_wf q'" by (rule pop_by_id_Some(4) [OF wf pop])
  show "queue_wf (push q' r2)" using jobs.pop_put(2) [OF wf pop id ne] .
  show items: "set (qu_items (push q' r2)) = insert r2 {x \<in> set (qu_items q). rq_id x \<noteq> rid}"
    using push_locked_items [OF wf', of r2] pop_by_id_items [OF wf pop] id ne
    by (auto simp: push_def)
  have "rid \<in> queue_ids q" using pop_by_id_Some(2,3) [OF wf pop] by auto
  then show "queue_ids (push q' r2) = queue_ids q" using items id by auto
qed

lemma base_put_back:
  assumes base: "drain_base q0 h0 st" and queued: "waiting_as_queued q0 st"
    and pop: "pop_by_id (ds_queue st) rid = Some (r, q')"
    and h: "settled h" "holder_of h = holder_of (ds_hub st)"
    and st': "ds_queue st' = push q' (rewrite_model r m)" "ds_hub st' = h"
      "ds_dispatched st' = ds_dispatched st"
  shows "drain_base q0 h0 st' \<and> waiting_rewritten q0 st'"
proof -
  have wf: "queue_wf (ds_queue st)" using base by (simp add: drain_base_def)
  note p = pop_by_id_Some [OF wf pop]
  have "rid \<in> queue_ids (ds_queue st)" using p(2,3) by auto
  with drain_base_waiting [OF base] have ne: "rid \<noteq> []" by blast
  note pb = put_back [OF wf pop ne, of "rewrite_model r m"]
  have "drain_base q0 h0 st'"
    using base h pb(1,2) p(2) unfolding drain_base_def st' by simp
  moreover have "waiting_rewritten q0 st'"
    using queued pb(3) p(2,3) unfolding waiting_rewritten_def waiting_as_queued_def st' by auto
  ultimately show ?thesis by blast
qed

lemma base_dispatched:
  assumes base: "drain_base q0 h0 st" and queued: "waiting_as_queued q0 st"
    and pop: "pop_by_id (ds_queue st) rid = Some (r, q')"
    and h: "settled h" "holder_of h = (holder_of (ds_hub st))(rid \<mapsto> cid)"
    and st': "ds_queue st' = q'" "ds_hub st' = h"
      "ds_dispatched st' = ds_dispatched st @ [(cid, rewrite_model r m)]"
  shows "drain_base q0 h0 st' \<and> waiting_as_queued q0 st'"
proof -
  have wf: "queue_wf (ds_queue st)" using base by (simp add: drain_base_def)
  note p = pop_by_id_Some [OF wf pop] and items = pop_by_id_items [OF wf pop]
  have rid: "rid \<in> queue_ids (ds_queue st)" using p(2,3) by auto
  have new: "rid \<notin> set (dispatch_ids st)" using base rid by (auto simp: drain_base_def)
  have ids: "queue_ids q' = queue_ids (ds_queue st) - {rid}"
    using items by (auto simp: image_iff)
  have r0: "r \<in> set (qu_items q0)" using queued p(3) by (auto simp: waiting_as_queued_def)
  have "map_of (map (\<lambda>(cid, r). (rq_id r, cid)) (ds_dispatched st)) rid = None"
    using new unfolding mget_None_iff dispatch_ids_keys .
  then have maps: "(holder_of h0 ++ map_of (map (\<lambda>(cid, r). (rq_id r, cid)) (ds_dispatched st)))(rid \<mapsto> cid)
      = holder_of h0 ++ map_of (map (\<lambda>(cid, r). (rq_id r, cid)) (ds_dispatched st') )"
    using p(2) unfolding st'
    by (auto simp: fun_eq_iff map_add_def split: option.split)
  have sent: "dispatch_ids st' = dispatch_ids st @ [rid]" using p(2) st' by simp
  have old: "set (dispatch_ids st) \<inter> queue_ids (ds_queue st) = {}"
    "set (dispatch_ids st) \<union> queue_ids (ds_queue st) = queue_ids q0"
    using base by (simp_all add: drain_base_def)
  have "drain_base q0 h0 st'"
    unfolding drain_base_def
  proof (intro conjI)
    show "queue_wf (ds_queue st')" using p(4) st' by simp
    show "[] \<notin> queue_ids q0" "\<forall>rid \<in> queue_ids q0. holder_of h0 rid = None"
      using base by (simp_all add: drain_base_def)
    show "settled (ds_hub st')" using h st' by simp
    show "distinct (dispatch_ids st')" using base new unfolding sent by (simp add: drain_base_def)
    show "set (dispatch_ids st') \<inter> queue_ids (ds_queue st') = {}"
      using old(1) unfolding sent st'(1) ids set_append by auto
    show "set (dispatch_ids st') \<union> queue_ids (ds_queue st') = queue_ids q0"
      using old(2) rid unfolding sent st'(1) ids set_append by auto
    show "holder_of (ds_hub st') = holder_of h0 ++
        map_of (map (\<lambda>(cid, r). (rq_id r, cid)) (ds_dispatched st'))"
      using base h maps st'(2) by (simp add: drain_base_def)
    show "\<forall>(cid, r) \<in> set (ds_dispatched st'). \<exists>r0 \<in> set (qu_items q0). \<exists>m. r = rewrite_model r0 m"
      using base r0 unfolding drain_base_def st' by auto
  qed
  moreover have "waiting_as_queued q0 st'"
    using queued items st' by (auto simp: waiting_as_queued_def)
  ultimately show ?thesis by blast
qed

lemma dispatch_best_base:
  assumes base: "drain_base q0 h0 st" and queued: "waiting_as_queued q0 st"
    and pop: "pop_by_id (ds_queue st) (rq_id (ca_req best)) = Some (r, q')"
    and d: "dispatch_best env best r (st\<lparr>ds_queue := q'\<rparr>) = (b, st')"
  shows "drain_base q0 h0 st' \<and> (if b then waiting_as_queued q0 st' else waiting_rewritten q0 st')"
proof -
  let ?cid = "cs_id (ca_client best)" and ?req = "rewrite_model r (ca_resolved best)"
  have wf: "queue_wf (ds_queue st)" and ex: "settled (ds_hub st)"
    using base by (simp_all add: drain_base_def)
  note p = pop_by_id_Some [OF wf pop]
  have "rq_id ?req \<in> queue_ids (ds_queue st)" using imageI [OF p(3), of rq_id] by simp
  with drain_base_waiting [OF base] have fresh: "holder_of (ds_hub st) (rq_id ?req) = None" by blast
  show ?thesis
    using d
  proof (cases rule: dispatch_best_cases)
    case (refused h2 evs)
    then have "track_only (en_now env) (incr_in_flight (ds_hub st) ?cid) ?cid ?req = (False, h2)"
      by (simp add: track_only_def)
    from hub_ops.refused [OF ex this] refused base_put_back [OF base queued pop, of _ st']
    show ?thesis by simp
  next
    case (unsent h2 evs h3 h4 evs2)
    then have "track_only (en_now env) (incr_in_flight (ds_hub st) ?cid) ?cid ?req = (True, h2)"
      "untrack_only (en_now env) h3 ?cid (rq_id ?req) = (True, h4)"
      by (simp_all add: track_only_def untrack_only_def)
    from hub_ops.unsent [OF ex fresh this(1) unsent(3) this(2)] unsent
      base_put_back [OF base queued pop, of _ st']
    show ?thesis by simp
  next
    case (sent h2 evs h3)
    then have "track_only (en_now env) (incr_in_flight (ds_hub st) ?cid) ?cid ?req = (True, h2)"
      by (simp add: track_only_def)
    from hub_ops.dispatched [OF ex fresh this sent(3)] sent
      base_dispatched [OF base queued pop, of h3 ?cid st' "ca_resolved best"] p(2)
    show ?thesis by (simp add: account_dispatch_def Let_def)
  qed
qed

lemma waiting_weaken: "waiting_as_queued q0 st \<Longrightarrow> waiting_rewritten q0 st"
  by (auto simp: waiting_as_queued_def waiting_rewritten_def)

lemma drain_step_base:
  assumes base: "drain_base q0 h0 st" and queued: "waiting_as_queued q0 st"
    and step: "drain_step env cs st = (b, st')"
  shows "drain_base q0 h0 st' \<and> (if b then waiting_as_queued q0 st' else waiting_rewritten q0 st')"
proof -
  let ?st1 = "seed_running env cs st"
  have b1: "drain_base q0 h0 ?st1" "waiting_as_queued q0 ?st1"
    using base queued drain_base_frame [of ?st1 st q0 h0] by simp_all
  show ?thesis
  proof (cases "select_best env st cs None")
    case None
    then show ?thesis using step b1 waiting_weaken by (auto simp: drain_step_def Let_def)
  next
    case (Some best)
    show ?thesis
    proof (cases "pop_by_id (ds_queue st) (rq_id (ca_req best))")
      case None
      have "drain_base q0 h0 (?st1\<lparr>ds_unpoppable := u\<rparr>) \<and> waiting_as_queued q0 (?st1\<lparr>ds_unpoppable := u\<rparr>)" for u
        using b1 drain_base_frame [of "?st1\<lparr>ds_unpoppable := u\<rparr>" ?st1 q0 h0] by simp
      then show ?thesis using step None Some b1 waiting_weaken [OF b1(2)]
        by (auto simp: drain_step_def Let_def split: if_splits)
    next
      case pop: (Some p)
      then obtain r q' where p: "p = (r, q')" by fastforce
      from pop p have "pop_by_id (ds_queue ?st1) (rq_id (ca_req best)) = Some (r, q')" by simp
      moreover have "dispatch_best env best r (?st1\<lparr>ds_queue := q'\<rparr>) = (b, st')"
        using step pop p Some by (simp add: drain_step_def Let_def)
      ultimately show ?thesis using dispatch_best_base [OF b1] by blast
    qed
  qed
qed

lemma drain_loop_base:
  "drain_base q0 h0 st \<Longrightarrow> waiting_as_queued q0 st \<Longrightarrow> drain_loop fuel env cs st = Some st' \<Longrightarrow>
     drain_base q0 h0 st' \<and> waiting_rewritten q0 st'"
proof (induction fuel arbitrary: st)
  case 0
  then show ?case by simp
next
  case (Suc fuel)
  obtain b st1 where step: "drain_step env cs st = (b, st1)" by fastforce
  from drain_step_base [OF Suc.prems(1,2) step] Suc.IH [of st1] Suc.prems(3) step
  show ?case by (cases b) auto
qed

lemma drain_start_base:
  assumes "queue_wf q" and "[] \<notin> queue_ids q" and "settled h"
    and "\<forall>rid \<in> queue_ids q. holder_of h rid = None"
  shows "drain_base q h (drain_start env q h aff)" and "waiting_as_queued q (drain_start env q h aff)"
  using assms by (auto simp: drain_base_def drain_start_def waiting_as_queued_def)

lemma drain_queue_base:
  assumes "queue_wf q" and "[] \<notin> queue_ids q" and "settled h"
    and "\<forall>rid \<in> queue_ids q. holder_of h rid = None"
    and "drain_queue env q h aff = Some st"
  shows "drain_base q h st \<and> waiting_rewritten q st"
  using drain_loop_base [OF drain_start_base [OF assms(1-4)]] assms(5)
    drain_start_base [OF assms(1-4)] waiting_weaken
  by (auto simp: drain_queue_def Let_def split: if_splits)

end
