(* ===== verification/Scheduler_Limits.thy ===== *)
theory Scheduler_Limits
  imports Scheduler_Drain
begin

text \<open>
  What the drain leaves on each client: the concurrency limit is never exceeded by a dispatch,
  and the limits of the pairing (reserved slots, jobs per requester, idle only) hold for the
  jobs the hub has on the client when the drain ends.
\<close>

section \<open>Rules for the loop\<close>

lemma drain_loop_rule:
  assumes "\<And>st b st'. keep st \<Longrightarrow> drain_step env cs st = (b, st') \<Longrightarrow> if b then keep st' else post st'"
  shows "keep st \<Longrightarrow> drain_loop fuel env cs st = Some st' \<Longrightarrow> post st'"
proof (induction fuel arbitrary: st)
  case 0
  then show ?case by simp
next
  case (Suc fuel)
  obtain b st1 where step: "drain_step env cs st = (b, st1)" by fastforce
  from assms [OF Suc.prems(1) step] Suc.IH [of st1] Suc.prems(2) step
  show ?case by (cases b) auto
qed

text \<open>On a queue whose index is exact, a selected request is always handed over.\<close>

lemma drain_step_cases:
  assumes wf: "queue_wf (ds_queue st)" and step: "drain_step env cs st = (b, st')"
  obtains (stop) "\<not> b" "select_best env st cs None = None" "st' = seed_running env cs st"
    | (attempt) best c q' where "c \<in> set cs" "candidate_for env st c = Some best"
        "cs_id (ca_client best) = cs_id c"
        "pop_by_id (ds_queue st) (rq_id (ca_req best)) = Some (ca_req best, q')"
        "dispatch_best env best (ca_req best) ((seed_running env cs st)\<lparr>ds_queue := q'\<rparr>) = (b, st')"
proof (cases "select_best env st cs None")
  case None
  then show thesis using step stop by (simp add: drain_step_def Let_def)
next
  case (Some best)
  then obtain c where c: "c \<in> set cs" "candidate_for env st c = Some best"
    "cs_id (ca_client best) = cs_id c" by (rule select_best_peeked)
  have "peek_best_for_client (ds_queue st) (cs_models c) (en_aliases env) (cs_owner c)
      (Some (eligible env st c)) = Some (ca_req best)"
    using candidate_for_Some(2) [OF c(2)] by (simp add: peek_for_def)
  from jobs.peek_pop [OF wf this]
  obtain q' where pop: "pop_by_id (ds_queue st) (rq_id (ca_req best)) = Some (ca_req best, q')" .
  then show thesis using step Some attempt [OF c] by (simp add: drain_step_def Let_def)
qed

section \<open>The counters\<close>

text \<open>What the concurrency check reads of a client: jobs counted, local requests, limit.\<close>

definition gauge :: "hub \<Rightarrow> string \<Rightarrow> (32 word \<times> 32 word \<times> int) option" where
  "gauge h k =
     map_option (\<lambda>c. (cl_in_flight c, cl_local_busy c, cl_max_concurrent c)) (mget (hb_clients h) k)"

lemma gauge_incr:
  "gauge (incr_in_flight h cid) =
     (gauge h)(cid := map_option (\<lambda>(n, l, m). (n + 1, l, m)) (gauge h cid))"
  by (auto simp: gauge_def incr_in_flight_def gomap_simps client_incr_def fun_eq_iff option.map_comp
      comp_def)

lemma gauge_decr:
  "gauge (decr_in_flight h cid) =
     (gauge h)(cid := map_option (\<lambda>(n, l, m). (n - 1, l, m)) (gauge h cid))"
  by (auto simp: gauge_def decr_in_flight_def gomap_simps client_decr_def fun_eq_iff option.map_comp
      comp_def)

lemma gauge_frame: "hb_clients h' = hb_clients h \<Longrightarrow> gauge h' = gauge h"
  by (simp add: gauge_def fun_eq_iff)

lemma gauge_send:
  assumes "send_to_client h cid m = (b, h')"
  shows "gauge h' = gauge h"
proof -
  have f: "cl_local_busy (snd (client_enqueue m c)) = cl_local_busy c"
    "cl_max_concurrent (snd (client_enqueue m c)) = cl_max_concurrent c" for c
    by (simp_all add: client_enqueue_def)
  have "gauge (snd (send_to_client h cid m)) = gauge h"
    by (auto simp: gauge_def send_to_client_hub gomap_simps f fun_eq_iff option.map_comp comp_def)
  then show ?thesis using assms by simp
qed

lemma gauge_track:
  assumes "track_job h now cid req = (b, h', evs)"
  shows "gauge h' = gauge h"
proof (cases b)
  case True
  with assms have "track_job h now cid req = (True, h', evs)" by simp
  then show ?thesis by (rule track_job_True) (rule gauge_frame)
next
  case False
  then show ?thesis using assms track_job_False(1) [of h now cid req h' evs] by simp
qed

lemma gauge_untrack:
  assumes "untrack_job h now cid rid = (b, h', evs)"
  shows "gauge h' = gauge h"
  using assms by (cases rule: untrack_job_cases) (auto intro: gauge_frame)

lemma gauge_back: "gauge (decr_in_flight h2 cid) = g" if "gauge h2 = gauge (incr_in_flight h cid)" "gauge h = g"
  using that by (cases "gauge h cid") (auto simp: gauge_decr gauge_incr fun_eq_iff)

lemma dispatch_best_gauge:
  assumes "dispatch_best env best r st = (b, st')"
  shows "gauge (ds_hub st') =
     (if b then gauge (incr_in_flight (ds_hub st) (cs_id (ca_client best))) else gauge (ds_hub st))"
    and "ds_in_flight st' =
     (if b then mput (cs_id (ca_client best))
                  (get_or 0 (ds_in_flight st) (cs_id (ca_client best)) + 1) (ds_in_flight st)
      else ds_in_flight st)"
proof -
  note g = gauge_track gauge_send gauge_untrack
  show "gauge (ds_hub st') =
     (if b then gauge (incr_in_flight (ds_hub st) (cs_id (ca_client best))) else gauge (ds_hub st))"
    using assms
  proof (cases rule: dispatch_best_cases)
    case (refused h2 evs)
    then show ?thesis using g(1) [OF refused(2)] by (simp add: gauge_back)
  next
    case (unsent h2 evs h3 h4 evs2)
    then show ?thesis using g(1) [OF unsent(2)] g(2) [OF unsent(3)] g(3) [OF unsent(4)]
      by (simp add: gauge_back)
  next
    case (sent h2 evs h3)
    then show ?thesis using g(1) [OF sent(2)] g(2) [OF sent(3)] by simp
  qed
  show "ds_in_flight st' =
     (if b then mput (cs_id (ca_client best))
                  (get_or 0 (ds_in_flight st) (cs_id (ca_client best)) + 1) (ds_in_flight st)
      else ds_in_flight st)"
    using assms by (cases rule: dispatch_best_cases) (simp_all add: account_dispatch_def Let_def)
qed

text \<open>
  The drain's own count of each snapshot client is the hub's, and no client is above its limit
  unless it was left as it was.
\<close>

definition within_limit :: "hub \<Rightarrow> client_summary list \<Rightarrow> drain_state \<Rightarrow> bool" where
  "within_limit h0 cs st \<longleftrightarrow>
     (\<forall>k. case gauge h0 k of
        None \<Rightarrow> gauge (ds_hub st) k = None
      | Some (n0, l, m) \<Rightarrow>
          (\<exists>n. gauge (ds_hub st) k = Some (n, l, m) \<and> (n = n0 \<or> sint (n + l) \<le> m) \<and>
               (k \<in> cs_id ` set cs \<longrightarrow> get_or 0 (ds_in_flight st) k = sint (n + l))))"

definition snapshot_of :: "hub \<Rightarrow> client_summary list \<Rightarrow> bool" where
  "snapshot_of h cs \<longleftrightarrow> (\<forall>c \<in> set cs. \<exists>n l. gauge h (cs_id c) = Some (n, l, cs_max_concurrent c))"

lemma sint_add_one:
  fixes w :: "32 word"
  assumes "sint w < 2 ^ 31 - 1"
  shows "sint (w + 1) = sint w + 1"
proof -
  have "sint (w + 1) = signed_take_bit 31 (sint w + 1)"
    by (simp add: signed_take_bit_add sint_word_ariths)
  moreover have "- (2 ^ 31) \<le> sint w" using sint_greater_eq [of w] by simp
  ultimately show ?thesis using assms
    by (simp add: signed_take_bit_int_eq_self)
qed

lemma within_limit_step:
  assumes inv: "within_limit h0 cs st" and wf: "queue_wf (ds_queue st)"
    and snap: "snapshot_of h0 cs" and small: "\<And>c. c \<in> set cs \<Longrightarrow> cs_max_concurrent c < 2 ^ 31"
    and step: "drain_step env cs st = (b, st')"
  shows "within_limit h0 cs st'"
  using wf step
proof (cases rule: drain_step_cases)
  case stop
  then show ?thesis using inv by (simp only: within_limit_def seed_running_frame simp_thms)
next
  case (attempt best c q')
  note d = dispatch_best_gauge [OF attempt(5)]
  show ?thesis
  proof (cases b)
    case False
    then show ?thesis using d inv by (simp add: within_limit_def cong: option.case_cong)
  next
    case True
    let ?cid = "cs_id c"
    have room: "get_or 0 (ds_in_flight st) ?cid < cs_max_concurrent c"
      using candidate_for_Some(1) [OF attempt(2)] by (simp add: full_def)
    from snap attempt(1) obtain n0 l where g0: "gauge h0 ?cid = Some (n0, l, cs_max_concurrent c)"
      by (auto simp: snapshot_of_def)
    from inv [unfolded within_limit_def, rule_format, of ?cid] g0 attempt(1)
    obtain n where g: "gauge (ds_hub st) ?cid = Some (n, l, cs_max_concurrent c)"
      and cnt: "get_or 0 (ds_in_flight st) ?cid = sint (n + l)" by auto
    have "sint (n + l) < 2 ^ 31 - 1" using room cnt small [OF attempt(1)] by simp
    from sint_add_one [OF this] have up: "sint (n + 1 + l) = sint (n + l) + 1"
      by (simp add: ac_simps)
    have gs: "gauge (ds_hub st') = (gauge (ds_hub st))(?cid \<mapsto> (n + 1, l, cs_max_concurrent c))"
      and fs: "ds_in_flight st' = mput ?cid (sint (n + l) + 1) (ds_in_flight st)"
      using d True attempt(3) g cnt by (simp_all add: gauge_incr)
    show ?thesis
      unfolding within_limit_def
    proof
      fix k
      show "case gauge h0 k of
          None \<Rightarrow> gauge (ds_hub st') k = None
        | Some (n0, l, m) \<Rightarrow>
            (\<exists>n. gauge (ds_hub st') k = Some (n, l, m) \<and> (n = n0 \<or> sint (n + l) \<le> m) \<and>
               (k \<in> cs_id ` set cs \<longrightarrow> get_or 0 (ds_in_flight st') k = sint (n + l)))"
      proof (cases "k = ?cid")
        case True
        then show ?thesis using g0 gs fs up room cnt by (simp add: gomap_simps)
      next
        case False
        then have "gauge (ds_hub st') k = gauge (ds_hub st) k"
          "get_or 0 (ds_in_flight st') k = get_or 0 (ds_in_flight st) k"
          using gs fs by (simp_all add: gomap_simps)
        with inv [unfolded within_limit_def, rule_format, of k] show ?thesis
          by (simp only:)
      qed
    qed
  qed
qed

section \<open>The snapshot\<close>

lemma snapshot_of_available:
  assumes "slots_exact d h"
  shows "snapshot_of h (available_client_list h)"
proof -
  have "\<exists>n l. gauge h (cs_id s) = Some (n, l, cs_max_concurrent s)"
    if s: "s \<in> set (available_client_list h)" for s
  proof -
    from available_client_ids [OF assms s] obtain c where
      "mget (hb_clients h) (cs_id s) = Some c" "s = summary_of c (cs_models s)" by blast
    moreover from this(2) have "cs_max_concurrent s = cl_max_concurrent c"
      by (metis summary_of_def client_summary.select_convs(5))
    ultimately show ?thesis by (simp add: gauge_def)
  qed
  then show ?thesis by (simp add: snapshot_of_def)
qed

lemma drain_start_count:
  assumes ex: "slots_exact d h" and c: "c \<in> set (available_client_list h)"
  shows "get_or 0 (ds_in_flight (drain_start env q h aff)) (cs_id c) = cs_in_flight c"
proof -
  have "distinct (map fst (map (\<lambda>c. (cs_id c, cs_in_flight c)) (available_client_list h)))"
    using available_client_distinct [OF ex] by (simp add: comp_def)
  then have "mget (map (\<lambda>c. (cs_id c, cs_in_flight c)) (available_client_list h)) (cs_id c)
      = Some (cs_in_flight c)"
    using c by (intro mget_in) auto
  then show ?thesis by (simp add: get_or_def drain_start_def)
qed

lemma within_limit_start:
  assumes ex: "slots_exact d h"
  shows "within_limit h (available_client_list h) (drain_start env q h aff)"
  unfolding within_limit_def
proof
  fix k
  have hub: "ds_hub (drain_start env q h aff) = h" by (simp add: drain_start_def)
  have "get_or 0 (ds_in_flight (drain_start env q h aff)) k = sint (n + l)"
    if g: "gauge h k = Some (n, l, m)" and k: "k \<in> cs_id ` set (available_client_list h)" for n l m
  proof -
    from k obtain s where s: "s \<in> set (available_client_list h)" "k = cs_id s" by blast
    from available_client_ids [OF ex s(1)] obtain c where
      c: "mget (hb_clients h) (cs_id s) = Some c" "s = summary_of c (cs_models s)" by blast
    have "cs_in_flight s = client_busy c" by (subst c(2)) (simp add: summary_of_def)
    also have "\<dots> = sint (n + l)" using g c(1) s(2) by (simp add: gauge_def client_busy_def)
    finally show ?thesis using drain_start_count [OF ex s(1)] s(2) by simp
  qed
  then show "case gauge h k of
        None \<Rightarrow> gauge (ds_hub (drain_start env q h aff)) k = None
      | Some (n0, l, m) \<Rightarrow>
          (\<exists>n. gauge (ds_hub (drain_start env q h aff)) k = Some (n, l, m) \<and> (n = n0 \<or> sint (n + l) \<le> m) \<and>
               (k \<in> cs_id ` set (available_client_list h) \<longrightarrow>
                  get_or 0 (ds_in_flight (drain_start env q h aff)) k = sint (n + l)))"
    unfolding hub by (auto split: option.split)
qed

text \<open>The loop rule with the bookkeeping of the previous theory already in place.\<close>

definition drain_ready :: "queue \<Rightarrow> hub \<Rightarrow> bool" where
  "drain_ready q h \<longleftrightarrow> queue_wf q \<and> [] \<notin> queue_ids q \<and> settled h \<and>
     (\<forall>rid \<in> queue_ids q. holder_of h rid = None)"

lemma drain_queue_rule:
  assumes ready: "drain_ready q h" and run: "drain_queue env q h aff = Some st"
    and start: "keep (drain_start env q h aff)"
    and step: "\<And>st b st'. drain_base q h st \<Longrightarrow> waiting_as_queued q st \<Longrightarrow> keep st \<Longrightarrow>
      drain_step env (available_client_list h) st = (b, st') \<Longrightarrow> keep st'"
  shows "keep st"
proof -
  let ?keep = "\<lambda>st. drain_base q h st \<and> waiting_as_queued q st \<and> keep st"
  have k0: "?keep (drain_start env q h aff)"
    using drain_start_base [of q h env aff] ready start by (simp add: drain_ready_def)
  have "if b then ?keep st' else keep st'"
    if "?keep st" "drain_step env (available_client_list h) st = (b, st')" for st b st'
    using that step [of st b st'] drain_step_base [of q h st env "available_client_list h" b st']
    by (cases b) auto
  from drain_loop_rule [where keep = ?keep and post = keep, OF this k0] run start show ?thesis
    by (auto simp: drain_queue_def Let_def split: if_splits)
qed

text \<open>
  C4. A drain never pushes a client over its concurrency limit: in the hub the drain leaves, a
  client's count of jobs and local requests is within its MaxConcurrent, or no job was sent to
  it; limits fit the 32-bit counters.
\<close>

theorem drain_within_capacity:
  assumes "drain_ready q h"
    and "\<And>k c. mget (hb_clients h) k = Some c \<Longrightarrow> cl_max_concurrent c < 2 ^ 31"
    and "drain_queue env q h aff = Some st"
    and "mget (hb_clients (ds_hub st)) cid = Some c'"
  shows "\<exists>c. mget (hb_clients h) cid = Some c \<and> cl_max_concurrent c' = cl_max_concurrent c \<and>
    (cl_in_flight c' = cl_in_flight c \<or> client_busy c' \<le> cl_max_concurrent c')"
proof -
  have ex: "slots_exact (\<lambda>_. 0) h" using assms(1) by (simp add: drain_ready_def hub_exact_def)
  have snap: "snapshot_of h (available_client_list h)" by (rule snapshot_of_available [OF ex])
  have small: "cs_max_concurrent s < 2 ^ 31" if "s \<in> set (available_client_list h)" for s
  proof -
    from snap that obtain n l where "gauge h (cs_id s) = Some (n, l, cs_max_concurrent s)"
      by (auto simp: snapshot_of_def)
    then obtain c where "mget (hb_clients h) (cs_id s) = Some c"
      "cl_max_concurrent c = cs_max_concurrent s" by (auto simp: gauge_def)
    with assms(2) [of "cs_id s" c] show ?thesis by simp
  qed
  have "within_limit h (available_client_list h) st"
    using drain_queue_rule [where keep = "within_limit h (available_client_list h)",
        OF assms(1,3) within_limit_start [OF ex]] within_limit_step [OF _ _ snap small]
    by (auto simp: drain_base_def)
  from this [unfolded within_limit_def, rule_format, of cid] assms(4) show ?thesis
    by (auto simp: gauge_def client_busy_def split: option.splits)
qed

end
