(* ===== verification/Scheduler_Sharing.thy ===== *)
theory Scheduler_Sharing
  imports Scheduler_Limits
begin

text \<open>
  The pairing's terms at the end of a drain, counted on the hub's own jobs: slots kept back
  from requesters outside the owner's side, jobs per requester, idle-only clients. The drain
  works on its own copy of the job lists; they agree with the hub on every job that is not the
  owner side's.
\<close>

section \<open>The hub's jobs through a dispatch\<close>

abbreviation ref_of :: "inference_request \<Rightarrow> job_ref" where
  "ref_of r \<equiv> \<lparr>jr_owner = rq_owner r, jr_model = rq_model r\<rparr>"

abbreviation count_refs :: "(job_ref \<Rightarrow> bool) \<Rightarrow> job_ref list \<Rightarrow> nat" where
  "count_refs P js \<equiv> length (filter P js)"

lemma job_refs_frame:
  "hb_jobs h' = hb_jobs h \<Longrightarrow> hb_jobs_by_client h' = hb_jobs_by_client h \<Longrightarrow>
     job_refs_on h' = job_refs_on h"
  by (simp add: job_refs_on_def in_flight_jobs_by_client_id_def fun_eq_iff)

lemma job_refs_incr [simp]: "job_refs_on (incr_in_flight h cid) = job_refs_on h"
  by (rule job_refs_frame) (simp_all add: incr_in_flight_def)

lemma job_refs_decr [simp]: "job_refs_on (decr_in_flight h cid) = job_refs_on h"
  by (rule job_refs_frame) (simp_all add: decr_in_flight_def)

lemma job_refs_send:
  assumes "send_to_client h cid m = (b, h')"
  shows "job_refs_on h' = job_refs_on h"
proof -
  have "job_refs_on (snd (send_to_client h cid m)) = job_refs_on h"
    by (rule job_refs_frame) (simp_all add: send_to_client_hub)
  then show ?thesis using assms by simp
qed

lemma map_filter_cong:
  "(\<And>x. x \<in> set xs \<Longrightarrow> f x = g x) \<Longrightarrow> List.map_filter f xs = List.map_filter g xs"
  by (induction xs) (auto simp: map_filter_Cons map_filter_Nil split: option.split)

lemma job_refs_track:
  assumes ix: "job_index h" and fresh: "holder_of h (rq_id req) = None"
    and tr: "track_job h now cid req = (True, h', evs)"
  shows "job_refs_on h' k = (if k = cid then ref_of req # job_refs_on h k else job_refs_on h k)"
  using tr
proof (rule track_job_True)
  fix c
  assume jobs: "mget (hb_jobs h') = (mget (hb_jobs h))(rq_id req \<mapsto>
       \<lparr>fr_client_id = cid, fr_client_token = cl_token c, fr_client_owner = cl_owner c,
        fr_client_name = cl_name c, fr_req = req, fr_dispatched_at = now,
        fr_lease_expiry = now + hb_lease_duration h, fr_live = Some live_new\<rparr>)"
    and by_client: "\<And>k. jobs_of h' k =
        (if k = cid then List.insert (rq_id req) (jobs_of h k) else jobs_of h k)"
  have nowhere: "rq_id req \<notin> set (jobs_of h k)" for k
    using fresh holder_of_held [OF ix, of "rq_id req" k] by simp
  then have old: "List.map_filter (mget (hb_jobs h')) (jobs_of h k) = List.map_filter (mget (hb_jobs h)) (jobs_of h k)" for k
    by (intro map_filter_cong) (auto simp: jobs)
  show "job_refs_on h' k = (if k = cid then ref_of req # job_refs_on h k else job_refs_on h k)"
  proof (cases "k = cid")
    case True
    have "jobs_of h' cid = rq_id req # jobs_of h cid" using by_client nowhere by simp
    moreover have "List.map_filter (mget (hb_jobs h')) (rq_id req # jobs_of h cid) =
        the (mget (hb_jobs h') (rq_id req)) # List.map_filter (mget (hb_jobs h)) (jobs_of h cid)"
      unfolding map_filter_Cons old by (simp add: jobs)
    ultimately show ?thesis using True
      by (simp add: job_refs_on_def in_flight_jobs_by_client_id_def jobs)
  next
    case False
    then show ?thesis using old [of k] by_client [of k]
      by (simp add: job_refs_on_def in_flight_jobs_by_client_id_def)
  qed
qed

lemma job_refs_untrack:
  assumes ix: "job_index h" and un: "untrack_job h now cid rid = (True, h', evs)"
    and h: "job_index h0" "holder_of h0 rid = None"
    and sets: "\<And>k. jobs_of h k = (if k = cid then rid # jobs_of h0 k else jobs_of h0 k)"
    and jobs: "\<And>x. x \<noteq> rid \<Longrightarrow> mget (hb_jobs h) x = mget (hb_jobs h0) x"
  shows "job_refs_on h' k = job_refs_on h0 k"
  using un
proof (cases rule: untrack_job_cases)
  case gone
  then show ?thesis by simp
next
  case (held r)
  have nowhere: "rid \<notin> set (jobs_of h0 k)" for k
    using h holder_of_held [OF h(1), of rid k] by simp
  have same: "jobs_of h' k = jobs_of h0 k"
    using held(4) sets [of k] nowhere [of k] by (cases "k = cid") (simp_all add: gomap_simps)
  have "List.map_filter (mget (hb_jobs h')) (jobs_of h0 k) = List.map_filter (mget (hb_jobs h0)) (jobs_of h0 k)"
  proof (rule map_filter_cong)
    fix x assume "x \<in> set (jobs_of h0 k)"
    then have "x \<noteq> rid" using nowhere [of k] by blast
    then show "mget (hb_jobs h') x = mget (hb_jobs h0) x" using held jobs by (simp add: gomap_simps)
  qed
  then show ?thesis by (simp add: job_refs_on_def in_flight_jobs_by_client_id_def same)
qed

lemma send_jobs:
  assumes "send_to_client h cid m = (b, h')"
  shows "hb_jobs h' = hb_jobs h" and "hb_jobs_by_client h' = hb_jobs_by_client h"
  using assms send_to_client_hub [of h cid m] by auto

lemma dispatch_best_refs:
  assumes ex: "settled (ds_hub st)" and fresh: "holder_of (ds_hub st) (rq_id r) = None"
    and d: "dispatch_best env best r st = (b, st')"
  defines "cid \<equiv> cs_id (ca_client best)" and "req \<equiv> rewrite_model r (ca_resolved best)"
  shows "job_refs_on (ds_hub st') =
      (if b then (job_refs_on (ds_hub st))(cid := ref_of req # job_refs_on (ds_hub st) cid)
       else job_refs_on (ds_hub st))"
    and "ds_dispatched st' = (if b then ds_dispatched st @ [(cid, req)] else ds_dispatched st)"
    and "ds_running st' =
      (if b then mput cid ((case mget (ds_running st) cid of
           Some refs \<Rightarrow> refs | None \<Rightarrow> job_refs_on (ds_hub st') cid) @ [ref_of req]) (ds_running st)
       else ds_running st)"
proof -
  let ?h1 = "incr_in_flight (ds_hub st) cid"
  have ix: "job_index ?h1" using ex by (simp add: hub_exact_def incr_in_flight_def)
  have fresh1: "holder_of ?h1 (rq_id req) = None"
    using fresh hub_ops.incr_held [of "ds_hub st" cid] by (simp add: req_def)
  have "job_refs_on (ds_hub st') k =
      (if b then (job_refs_on (ds_hub st))(cid := ref_of req # job_refs_on (ds_hub st) cid)
       else job_refs_on (ds_hub st)) k" for k
    using d
  proof (cases rule: dispatch_best_cases)
    case (refused h2 evs)
    then show ?thesis using track_job_False(1) [OF refused(2)] by simp
  next
    case (unsent h2 evs h3 h4 evs2)
    note tr = unsent(2) [folded cid_def req_def] and sd = unsent(3) [folded cid_def req_def]
      and un = unsent(4) [folded cid_def req_def]
    have ix3: "job_index h3"
      using job_index_track [OF ix fresh1 tr] job_index_frame [OF send_jobs [OF sd]] by simp
    have nowhere: "rq_id req \<notin> set (jobs_of ?h1 k)" for k
      using fresh1 holder_of_held [OF ix, of "rq_id req" k] by simp
    from tr have "(\<forall>k. jobs_of h3 k = (if k = cid then rq_id req # jobs_of ?h1 k else jobs_of ?h1 k)) \<and>
        (\<forall>x. x \<noteq> rq_id req \<longrightarrow> mget (hb_jobs h3) x = mget (hb_jobs ?h1) x)"
      by (rule track_job_True) (simp add: send_jobs [OF sd] nowhere)
    then have "job_refs_on h4 k = job_refs_on ?h1 k"
      by (intro job_refs_untrack [OF ix3 un ix fresh1]) simp_all
    then show ?thesis using unsent by simp
  next
    case (sent h2 evs h3)
    note tr = sent(2) [folded cid_def req_def] and sd = sent(3) [folded cid_def req_def]
    show ?thesis
      using job_refs_track [OF ix fresh1 tr] job_refs_send [OF sd] sent(1,4)
      by (simp add: cid_def)
  qed
  then show "job_refs_on (ds_hub st') =
      (if b then (job_refs_on (ds_hub st))(cid := ref_of req # job_refs_on (ds_hub st) cid)
       else job_refs_on (ds_hub st))" by blast
  show "ds_dispatched st' = (if b then ds_dispatched st @ [(cid, req)] else ds_dispatched st)"
    using d by (cases rule: dispatch_best_cases) (simp_all add: account_dispatch_def Let_def cid_def req_def)
  show "ds_running st' =
      (if b then mput cid ((case mget (ds_running st) cid of
           Some refs \<Rightarrow> refs | None \<Rightarrow> job_refs_on (ds_hub st') cid) @ [ref_of req]) (ds_running st)
       else ds_running st)"
    using d
    by (cases rule: dispatch_best_cases)
      (simp_all add: account_dispatch_def Let_def cid_def req_def running_on_def split: option.split)
qed

section \<open>One limit at a time\<close>

text \<open>
  \<open>P\<close> selects jobs on client \<open>c\<close> that are not the owner side's, \<open>lmt\<close> is what a
  dispatched request allows of them. The drain's copy and the hub agree on how many there are,
  and if that number grew in the drain it is within what some request dispatched to the client
  in this drain allows.
\<close>

definition limit_kept ::
  "hub \<Rightarrow> client_summary \<Rightarrow> (job_ref \<Rightarrow> bool) \<Rightarrow> (inference_request \<Rightarrow> int) \<Rightarrow> drain_state \<Rightarrow> bool"
where
  "limit_kept h0 c P lmt st \<longleftrightarrow>
     count_refs P (running_on st (cs_id c)) = count_refs P (job_refs_on (ds_hub st) (cs_id c)) \<and>
     (count_refs P (job_refs_on (ds_hub st) (cs_id c)) = count_refs P (job_refs_on h0 (cs_id c)) \<or>
      (\<exists>r. (cs_id c, r) \<in> set (ds_dispatched st) \<and> P (ref_of r) \<and>
         int (count_refs P (job_refs_on (ds_hub st) (cs_id c))) \<le> lmt r))"

lemma limit_kept_start: "limit_kept h c P lmt (drain_start env q h aff)"
  by (simp add: limit_kept_def running_on_def drain_start_def)

lemma limit_kept_step:
  assumes base: "drain_base q0 h0 st" and kept: "limit_kept h0 c P lmt st"
    and c: "c \<in> set cs" and dist: "distinct (map cs_id cs)"
    and outside: "\<And>j. P j \<Longrightarrow> \<not> pr_owner_side (en_pair env (jr_owner j) c)"
    and room: "\<And>cand. candidate_for env st c = Some cand \<Longrightarrow>
      P (ref_of (rewrite_model (ca_req cand) (ca_resolved cand))) \<Longrightarrow>
      int (count_refs P (running_on st (cs_id c))) < lmt (rewrite_model (ca_req cand) (ca_resolved cand))"
    and step: "drain_step env cs st = (b, st')"
  shows "limit_kept h0 c P lmt st'"
proof -
  let ?st1 = "seed_running env cs st"
  have wf: "queue_wf (ds_queue st)" and ex: "settled (ds_hub st)"
    using base by (simp_all add: drain_base_def)
  show ?thesis
    using wf step
  proof (cases rule: drain_step_cases)
    case stop
    then show ?thesis using kept by (simp add: limit_kept_def)
  next
    case (attempt best c' q')
    let ?req = "rewrite_model (ca_req best) (ca_resolved best)"
    let ?st2 = "?st1\<lparr>ds_queue := q'\<rparr>"
    have fresh: "holder_of (ds_hub ?st2) (rq_id (ca_req best)) = None"
      using drain_base_waiting [OF base, of "rq_id (ca_req best)"] pop_by_id_Some(3) [OF wf attempt(4)]
      by simp
    have ex2: "settled (ds_hub ?st2)" using ex by simp
    note refs = dispatch_best_refs [OF ex2 fresh attempt(5)]
    show ?thesis
    proof (cases b)
      case False
      have "running_on st' (cs_id c) = running_on st (cs_id c)"
      proof -
        have "running_on st' (cs_id c) = running_on ?st1 (cs_id c)"
          using refs(1,3) False unfolding running_on_def by (simp split: option.split)
        then show ?thesis by simp
      qed
      then show ?thesis using refs False kept by (simp add: limit_kept_def)
    next
      case sent: True
      show ?thesis
      proof (cases "cs_id c = cs_id c'")
        case False
        have "running_on st' (cs_id c) = running_on ?st1 (cs_id c)"
          using refs(1,3) sent False attempt(3) unfolding running_on_def
          by (simp add: gomap_simps split: option.split)
        then show ?thesis using refs sent False attempt(3) kept by (auto simp: limit_kept_def)
      next
        case True
        then have same: "c' = c" using c attempt(1) dist by (metis distinct_map inj_onD)
        have hub': "job_refs_on (ds_hub st') (cs_id c) = ref_of ?req # job_refs_on (ds_hub st) (cs_id c)"
          using refs(1) sent attempt(3) same by simp
        show ?thesis
        proof (cases "P (ref_of ?req)")
          case False
          have "count_refs P (running_on st' (cs_id c)) = count_refs P (running_on st (cs_id c))"
          proof (cases "mget (ds_running ?st1) (cs_id c)")
            case None
            then have "running_on st (cs_id c) = job_refs_on (ds_hub st) (cs_id c)"
              using seed_running_frame(8) [of env cs st] by (metis running_on_def option.simps(4) seed_running_frame(2))
            then show ?thesis using refs(3) sent attempt(3) same None False hub'
              by (simp add: running_on_def gomap_simps)
          next
            case (Some js)
            then have "running_on st (cs_id c) = js"
              using seed_running_frame(8) [of env cs st] by (metis running_on_def option.simps(5))
            then show ?thesis using refs(3) sent attempt(3) same Some False
              by (simp add: running_on_def gomap_simps)
          qed
          then show ?thesis using kept hub' refs(2) sent False by (auto simp: limit_kept_def)
        next
          case True
          then have "\<not> pr_owner_side (en_pair env (rq_owner (ca_req best)) c)" using outside by fastforce
          with outsider_asks attempt(2) same have "asks_running env st c" by blast
          from seed_running_cached [OF c this] obtain js where
            js: "mget (ds_running ?st1) (cs_id c) = Some js" by blast
          then have "running_on st (cs_id c) = js"
            using seed_running_frame(8) [of env cs st] by (metis running_on_def option.simps(5))
          then have run': "running_on st' (cs_id c) = running_on st (cs_id c) @ [ref_of ?req]"
            using refs(3) sent attempt(3) same js by (simp add: running_on_def gomap_simps)
          have "int (count_refs P (running_on st (cs_id c))) < lmt ?req"
            using room [of best] attempt(2) same True by blast
          then have "int (count_refs P (job_refs_on (ds_hub st') (cs_id c))) \<le> lmt ?req"
            using kept hub' True by (simp add: limit_kept_def)
          moreover have "(cs_id c, ?req) \<in> set (ds_dispatched st')"
            using refs(2) sent attempt(3) same by simp
          ultimately show ?thesis using kept hub' run' True by (auto simp: limit_kept_def)
        qed
      qed
    qed
  qed
qed

lemma limit_kept_drain:
  assumes ready: "drain_ready q h" and run: "drain_queue env q h aff = Some st"
    and c: "c \<in> set (available_client_list h)"
    and outside: "\<And>j. P j \<Longrightarrow> \<not> pr_owner_side (en_pair env (jr_owner j) c)"
    and room: "\<And>st cand. candidate_for env st c = Some cand \<Longrightarrow>
      P (ref_of (rewrite_model (ca_req cand) (ca_resolved cand))) \<Longrightarrow>
      int (count_refs P (running_on st (cs_id c))) < lmt (rewrite_model (ca_req cand) (ca_resolved cand))"
  shows "limit_kept h c P lmt st"
proof -
  have "slots_exact (\<lambda>_. 0) h" using ready by (simp add: drain_ready_def hub_exact_def)
  from available_client_distinct [OF this] have dist: "distinct (map cs_id (available_client_list h))" .
  show ?thesis
  proof (rule drain_queue_rule [where keep = "limit_kept h c P lmt", OF ready run limit_kept_start])
    show "limit_kept h c P lmt st'"
      if "drain_base q h st" "limit_kept h c P lmt st"
        "drain_step env (available_client_list h) st = (b, st')" for st b st'
      using that by (intro limit_kept_step [OF _ _ c dist _ _ that(3)] outside room)
  qed
qed

section \<open>The three terms of a pairing\<close>

text \<open>Jobs the hub has on a client: for a model and outside its owner's side, or of a requester.\<close>

definition outsider_jobs :: "drain_env \<Rightarrow> client_summary \<Rightarrow> string \<Rightarrow> hub \<Rightarrow> nat" where
  "outsider_jobs env c m h =
     count_refs (\<lambda>j. jr_model j = m \<and> \<not> pr_owner_side (en_pair env (jr_owner j) c))
       (job_refs_on h (cs_id c))"

definition requester_jobs :: "client_summary \<Rightarrow> string \<Rightarrow> hub \<Rightarrow> nat" where
  "requester_jobs c requester h = count_refs (\<lambda>j. jr_owner j = requester) (job_refs_on h (cs_id c))"

text \<open>
  C6. Reserved slots stay reserved: if a drain raised the number of jobs for a model that a
  client runs for requesters outside its owner's side, then that number is at most the client's
  MaxConcurrent less the slots its pairing with one of them reserves for that model.
\<close>

theorem drain_keeps_reserved_slots:
  assumes "drain_ready q h" and "drain_queue env q h aff = Some st"
    and "c \<in> set (available_client_list h)"
  shows "outsider_jobs env c m (ds_hub st) = outsider_jobs env c m h \<or>
    (\<exists>r. (cs_id c, r) \<in> set (ds_dispatched st) \<and> rq_model r = m \<and>
       \<not> pr_owner_side (en_pair env (rq_owner r) c) \<and>
       int (outsider_jobs env c m (ds_hub st)) \<le> cs_max_concurrent c - reserved_for (en_pair env (rq_owner r) c) m)"
proof -
  let ?P = "\<lambda>j. jr_model j = m \<and> \<not> pr_owner_side (en_pair env (jr_owner j) c)"
  let ?l = "\<lambda>r. cs_max_concurrent c - reserved_for (en_pair env (rq_owner r) c) m"
  have "limit_kept h c ?P ?l st"
  proof (rule limit_kept_drain [OF assms(1-3)])
    show "int (count_refs ?P (running_on st' (cs_id c)))
        < ?l (rewrite_model (ca_req cand) (ca_resolved cand))"
      if "candidate_for env st' c = Some cand"
        "?P (ref_of (rewrite_model (ca_req cand) (ca_resolved cand)))" for st' cand
      using candidate_for_Some(4) [OF that(1)] that(2)
      by (simp add: reserved_ok_def others_on_def Let_def)
  qed simp
  then show ?thesis by (auto simp: limit_kept_def outsider_jobs_def)
qed

text \<open>
  No requester gets more of a client at once than their pairing allows: after a drain, the
  jobs of a requester outside the owner's side on a client are as many as before, or at most
  the pairing's PerRequesterMax.
\<close>

theorem drain_keeps_requester_cap:
  assumes "drain_ready q h" and "drain_queue env q h aff = Some st"
    and "c \<in> set (available_client_list h)"
    and "\<not> pr_owner_side (en_pair env requester c)"
    and "pr_per_requester_max (en_pair env requester c) > 0"
  shows "requester_jobs c requester (ds_hub st) = requester_jobs c requester h \<or>
    int (requester_jobs c requester (ds_hub st)) \<le> pr_per_requester_max (en_pair env requester c)"
proof -
  let ?P = "\<lambda>j. jr_owner j = requester"
  let ?l = "\<lambda>_. pr_per_requester_max (en_pair env requester c)"
  have "limit_kept h c ?P ?l st"
  proof (rule limit_kept_drain [OF assms(1-3)])
    show "int (count_refs ?P (running_on st' (cs_id c))) < ?l (rewrite_model (ca_req cand) (ca_resolved cand))"
      if cand: "candidate_for env st' c = Some cand"
        and P: "?P (ref_of (rewrite_model (ca_req cand) (ca_resolved cand)))" for st' cand
    proof -
      have "offered (cs_models c) (en_aliases env) (Some (eligible env st' c)) (ca_req cand)"
        using candidate_for_Some(2) [OF cand] by (auto simp: peek_for_def dest: peek_Some(2))
      then have "eligible env st' c requester" using P by (simp add: offered_def)
      then show ?thesis using assms(4,5)
        by (auto simp: eligible_def jobs_of_requester_def Let_def split: if_splits)
    qed
    show "\<not> pr_owner_side (en_pair env (jr_owner j) c)" if "?P j" for j
      using that assms(4) by simp
  qed
  then show ?thesis by (auto simp: limit_kept_def requester_jobs_def)
qed

definition idle_kept :: "drain_env \<Rightarrow> hub \<Rightarrow> client_summary \<Rightarrow> drain_state \<Rightarrow> bool" where
  "idle_kept env h0 c st \<longleftrightarrow>
     set (job_refs_on h0 (cs_id c)) \<subseteq> set (running_on st (cs_id c)) \<and>
     (\<forall>r. (cs_id c, r) \<in> set (ds_dispatched st) \<longrightarrow> \<not> pr_owner_side (en_pair env (rq_owner r) c) \<longrightarrow>
        pr_idle_only (en_pair env (rq_owner r) c) \<longrightarrow>
        cs_local_busy c \<le> 0 \<and>
        (\<forall>j \<in> set (job_refs_on h0 (cs_id c)). \<not> pr_owner_side (en_pair env (jr_owner j) c)))"

lemma running_on_grows:
  assumes base: "drain_base q0 h0 st" and step: "drain_step env cs st = (b, st')"
  shows "set (running_on st k) \<subseteq> set (running_on st' k)"
proof -
  let ?st1 = "seed_running env cs st"
  have wf: "queue_wf (ds_queue st)" and ex: "settled (ds_hub st)"
    using base by (simp_all add: drain_base_def)
  show ?thesis
    using wf step
  proof (cases rule: drain_step_cases)
    case stop
    then show ?thesis by simp
  next
    case (attempt best c q')
    have fresh: "holder_of (ds_hub (?st1\<lparr>ds_queue := q'\<rparr>)) (rq_id (ca_req best)) = None"
      using drain_base_waiting [OF base, of "rq_id (ca_req best)"] pop_by_id_Some(3) [OF wf attempt(4)]
      by simp
    have ex2: "settled (ds_hub (?st1\<lparr>ds_queue := q'\<rparr>))" using ex by simp
    note refs = dispatch_best_refs [OF ex2 fresh attempt(5)]
    have "set (running_on ?st1 k) \<subseteq> set (running_on st' k)"
      unfolding running_on_def using refs(1,3)
      by (cases b) (auto simp: gomap_simps split: option.split)
    then show ?thesis by simp
  qed
qed

lemma idle_kept_step:
  assumes base: "drain_base q0 hq st" and kept: "idle_kept env h0 c st" and c: "c \<in> set cs"
    and dist: "distinct (map cs_id cs)" and step: "drain_step env cs st = (b, st')"
  shows "idle_kept env h0 c st'"
proof -
  have wf: "queue_wf (ds_queue st)" and ex: "settled (ds_hub st)"
    using base by (simp_all add: drain_base_def)
  have grows: "set (job_refs_on h0 (cs_id c)) \<subseteq> set (running_on st' (cs_id c))"
    using kept running_on_grows [OF base step, of "cs_id c"] by (auto simp: idle_kept_def)
  show ?thesis
    using wf step
  proof (cases rule: drain_step_cases)
    case stop
    then show ?thesis using kept by (simp add: idle_kept_def)
  next
    case (attempt best c' q')
    let ?st1 = "seed_running env cs st"
    have fresh: "holder_of (ds_hub (?st1\<lparr>ds_queue := q'\<rparr>)) (rq_id (ca_req best)) = None"
      using drain_base_waiting [OF base, of "rq_id (ca_req best)"] pop_by_id_Some(3) [OF wf attempt(4)]
      by simp
    have ex2: "settled (ds_hub (?st1\<lparr>ds_queue := q'\<rparr>))" using ex by simp
    note disp = dispatch_best_refs(2) [OF ex2 fresh attempt(5)]
    have "\<not> pr_owner_side (en_pair env (rq_owner (ca_req best)) c) \<longrightarrow>
        pr_idle_only (en_pair env (rq_owner (ca_req best)) c) \<longrightarrow> \<not> owner_side_busy env st c"
      if same: "c' = c"
    proof -
      have "offered (cs_models c) (en_aliases env) (Some (eligible env st c)) (ca_req best)"
        using candidate_for_Some(2) [OF attempt(2)] same by (auto simp: peek_for_def dest: peek_Some(2))
      then have "eligible env st c (rq_owner (ca_req best))" by (simp add: offered_def)
      then show ?thesis by (auto simp: eligible_def Let_def split: if_splits)
    qed
    moreover have "cs_id c' = cs_id c \<longleftrightarrow> c' = c"
      using c attempt(1) dist by (metis distinct_map inj_onD)
    ultimately show ?thesis
      using kept grows disp attempt(3)
      by (auto simp: idle_kept_def owner_side_busy_def list_ex_iff split: if_splits)
  qed
qed

text \<open>
  An idle-only client serves strangers only when idle: a drain sends a job to such a client
  for a requester outside the owner's side only if neither a local request nor any job of the
  owner's side was running there when the drain began.
\<close>

theorem drain_idle_only:
  assumes "drain_ready q h" and "drain_queue env q h aff = Some st"
    and "c \<in> set (available_client_list h)" and "(cs_id c, r) \<in> set (ds_dispatched st)"
    and "\<not> pr_owner_side (en_pair env (rq_owner r) c)" and "pr_idle_only (en_pair env (rq_owner r) c)"
  shows "cs_local_busy c \<le> 0 \<and>
    (\<forall>j \<in> set (job_refs_on h (cs_id c)). \<not> pr_owner_side (en_pair env (jr_owner j) c))"
proof -
  have "slots_exact (\<lambda>_. 0) h" using assms(1) by (simp add: drain_ready_def hub_exact_def)
  from available_client_distinct [OF this] have dist: "distinct (map cs_id (available_client_list h))" .
  have "idle_kept env h c (drain_start env q h aff)"
    by (simp add: idle_kept_def running_on_def drain_start_def)
  from drain_queue_rule [where keep = "idle_kept env h c", OF assms(1,2) this]
    idle_kept_step [OF _ _ assms(3) dist]
  have "idle_kept env h c st" by blast
  then show ?thesis using assms(4-6) by (auto simp: idle_kept_def)
qed

end
