(* ===== verification/Scheduler_Outcome.thy ===== *)
theory Scheduler_Outcome
  imports Scheduler_Sharing
begin

text \<open>
  What a drain has done when it returns: where every request is, that what was sent fits the
  client it was sent to, that nothing dispatchable is left unless a client refused a message,
  and that the prefix map is bounded. The last section holds the places where the order of
  candidates or of clients shows.
\<close>

section \<open>Send buffers\<close>

definition outbox :: "hub \<Rightarrow> string \<Rightarrow> (bool \<times> out_msg list) option" where
  "outbox h k = map_option (\<lambda>c. (cl_send_closed c, cl_send c)) (mget (hb_clients h) k)"

lemma outbox_frame: "hb_clients h' = hb_clients h \<Longrightarrow> outbox h' = outbox h"
  by (simp add: outbox_def fun_eq_iff)

lemma outbox_incr [simp]: "outbox (incr_in_flight h cid) = outbox h"
  by (auto simp: outbox_def incr_in_flight_def gomap_simps client_incr_def fun_eq_iff option.map_comp
      comp_def)

lemma outbox_decr [simp]: "outbox (decr_in_flight h cid) = outbox h"
  by (auto simp: outbox_def decr_in_flight_def gomap_simps client_decr_def fun_eq_iff option.map_comp
      comp_def)

lemma outbox_track: "track_job h now cid req = (b, h', evs) \<Longrightarrow> outbox h' = outbox h"
  by (cases b) (auto elim!: track_job_True dest: track_job_False intro: outbox_frame)

lemma outbox_untrack: "untrack_job h now cid rid = (b, h', evs) \<Longrightarrow> outbox h' = outbox h"
  by (erule untrack_job_cases) (auto intro: outbox_frame)

lemma outbox_send:
  assumes "send_to_client h cid m = (b, h')"
  shows "b \<longleftrightarrow> (\<exists>ms. outbox h cid = Some (False, ms) \<and> length ms < send_capacity)"
    and "outbox h' = (if b then (outbox h)(cid \<mapsto> (False, snd (the (outbox h cid)) @ [m])) else outbox h)"
proof -
  show b: "b \<longleftrightarrow> (\<exists>ms. outbox h cid = Some (False, ms) \<and> length ms < send_capacity)"
    using assms
    by (auto simp: send_to_client_def outbox_def client_enqueue_def split: option.splits if_splits)
  have h': "h' = snd (send_to_client h cid m)" using assms by simp
  show "outbox h' = (if b then (outbox h)(cid \<mapsto> (False, snd (the (outbox h cid)) @ [m])) else outbox h)"
    using b unfolding h' send_to_client_hub
    by (cases "mget (hb_clients h) cid")
      (auto simp: outbox_def gomap_simps client_enqueue_def fun_eq_iff)
qed

lemma dispatch_best_outbox:
  assumes d: "dispatch_best env best r st = (b, st')"
    and known: "outbox (ds_hub st) (cs_id (ca_client best)) \<noteq> None"
  shows "b \<longleftrightarrow> (\<exists>ms. outbox (ds_hub st) (cs_id (ca_client best)) = Some (False, ms) \<and>
      length ms < send_capacity)"
    and "outbox (ds_hub st') =
      (if b then (outbox (ds_hub st))(cs_id (ca_client best) \<mapsto>
            (False, snd (the (outbox (ds_hub st) (cs_id (ca_client best)))) @
               [Job_Msg (for_worker (rewrite_model r (ca_resolved best)))]))
       else outbox (ds_hub st))"
proof -
  let ?cid = "cs_id (ca_client best)"
  have "(b \<longleftrightarrow> (\<exists>ms. outbox (ds_hub st) ?cid = Some (False, ms) \<and> length ms < send_capacity)) \<and>
    outbox (ds_hub st') =
      (if b then (outbox (ds_hub st))(?cid \<mapsto>
            (False, snd (the (outbox (ds_hub st) ?cid)) @
               [Job_Msg (for_worker (rewrite_model r (ca_resolved best)))]))
       else outbox (ds_hub st))"
    using d
  proof (cases rule: dispatch_best_cases)
    case (refused h2 evs)
    have "outbox (incr_in_flight (ds_hub st) ?cid) ?cid = None"
      unfolding outbox_def track_job_False(2) [OF refused(2)] by simp
    then show ?thesis using known by simp
  next
    case (unsent h2 evs h3 h4 evs2)
    show ?thesis
      using outbox_track [OF unsent(2)] outbox_send [OF unsent(3)] outbox_untrack [OF unsent(4)] unsent(1,5)
      by simp
  next
    case (sent h2 evs h3)
    show ?thesis using outbox_track [OF sent(2)] outbox_send [OF sent(3)] sent(1,4) by simp
  qed
  then show "b \<longleftrightarrow> (\<exists>ms. outbox (ds_hub st) ?cid = Some (False, ms) \<and> length ms < send_capacity)"
    and "outbox (ds_hub st') =
      (if b then (outbox (ds_hub st))(?cid \<mapsto>
            (False, snd (the (outbox (ds_hub st) ?cid)) @
               [Job_Msg (for_worker (rewrite_model r (ca_resolved best)))]))
       else outbox (ds_hub st))" by blast+
qed

section \<open>Nothing dispatchable is left\<close>

lemma candidate_for_seed: "candidate_for env (seed_running env cs st) c = candidate_for env st c"
proof -
  let ?s = "seed_running env cs st"
  have run: "owner_side_busy env ?s = owner_side_busy env st"
    "jobs_of_requester ?s = jobs_of_requester st" "others_on env ?s = others_on env st"
    by (simp_all add: owner_side_busy_def jobs_of_requester_def others_on_def fun_eq_iff)
  have "eligible env ?s = eligible env st" by (simp add: eligible_def run fun_eq_iff)
  then have "peek_for env ?s c = peek_for env st c" for c by (simp only: peek_for_def seed_running_frame)
  moreover have "full ?s = full st" "reserved_ok env ?s = reserved_ok env st"
    by (simp_all add: full_def reserved_ok_def run fun_eq_iff)
  moreover have "has_affinity env ?s = has_affinity env st"
    by (simp add: has_affinity_def Let_def fun_eq_iff cong: option.case_cong)
  ultimately show ?thesis by (simp only: candidate_for_def seed_running_frame)
qed

text \<open>Room in every send buffer for all that waits: no send can fail in the drain.\<close>

definition roomy :: "client_summary list \<Rightarrow> queue \<Rightarrow> hub \<Rightarrow> bool" where
  "roomy cs q h \<longleftrightarrow> (\<forall>c \<in> set cs. \<exists>ms. outbox h (cs_id c) = Some (False, ms) \<and>
     length ms + queue_len q \<le> send_capacity)"

lemma roomy_step:
  assumes base: "drain_base q0 h0 st" and room: "roomy cs (ds_queue st) (ds_hub st)"
    and step: "drain_step env cs st = (b, st')"
  shows "if b then roomy cs (ds_queue st') (ds_hub st')
    else \<forall>c \<in> set cs. candidate_for env st' c = None"
proof -
  have wf: "queue_wf (ds_queue st)" using base by (simp add: drain_base_def)
  show ?thesis
    using wf step
  proof (cases rule: drain_step_cases)
    case stop
    then show ?thesis using select_best_None [of env st cs None] by (simp add: candidate_for_seed)
  next
    case (attempt best c q')
    let ?st = "(seed_running env cs st)\<lparr>ds_queue := q'\<rparr>"
    have len: "queue_len (ds_queue st) = Suc (queue_len q')"
      by (rule pop_by_id_Some(7) [OF wf attempt(4)])
    from room attempt(1) obtain ms where
      ms: "outbox (ds_hub st) (cs_id c) = Some (False, ms)" "length ms + queue_len (ds_queue st) \<le> send_capacity"
      by (auto simp: roomy_def)
    have box: "outbox (ds_hub ?st) (cs_id (ca_client best)) = Some (False, ms)" using ms attempt(3) by simp
    then have "outbox (ds_hub ?st) (cs_id (ca_client best)) \<noteq> None" by simp
    note ob = dispatch_best_outbox [OF attempt(5) this]
    have b using ob(1) box ms(2) len by simp
    moreover have "roomy cs (ds_queue st') (ds_hub st')"
      unfolding roomy_def
    proof
      fix c' assume "c' \<in> set cs"
      with room obtain ms' where ms': "outbox (ds_hub st) (cs_id c') = Some (False, ms')"
        "length ms' + queue_len (ds_queue st) \<le> send_capacity" by (auto simp: roomy_def)
      show "\<exists>ms. outbox (ds_hub st') (cs_id c') = Some (False, ms) \<and>
          length ms + queue_len (ds_queue st') \<le> send_capacity"
        using ob(2) \<open>b\<close> box ms ms' len attempt(3) dispatch_best_sent_queue(1) [of env best "ca_req best" ?st st']
          attempt(5)
        by (cases "cs_id c' = cs_id c") auto
    qed
    ultimately show ?thesis by simp
  qed
qed


section \<open>Where every request is\<close>

text \<open>
  C3. A drain loses no request and hands none out twice. Queue and hub are as fit for the next
  drain as they were (exact index, exact counters, no job both waiting and running); a request
  that waited either still waits or runs on exactly one client, to which this drain sent it; no
  other job moves.
\<close>

theorem drain_conserves:
  assumes ready: "drain_ready q h" and run: "drain_queue env q h aff = Some st"
  shows "drain_ready (ds_queue st) (ds_hub st) \<and>
    (if rid \<in> queue_ids q
     then (if rid \<in> queue_ids (ds_queue st) then holder_of (ds_hub st) rid = None
           else (\<exists>cid r. (cid, r) \<in> set (ds_dispatched st) \<and> rq_id r = rid \<and>
                   holder_of (ds_hub st) rid = Some cid))
     else rid \<notin> queue_ids (ds_queue st) \<and> holder_of (ds_hub st) rid = holder_of h rid)"
proof -
  have base: "drain_base q h st"
    using drain_queue_base [of q h env aff st] ready run by (simp add: drain_ready_def)
  have ids: "set (dispatch_ids st) \<inter> queue_ids (ds_queue st) = {}"
    "set (dispatch_ids st) \<union> queue_ids (ds_queue st) = queue_ids q"
    and holder: "holder_of (ds_hub st) = holder_of h ++ map_of (map (\<lambda>(cid, r). (rq_id r, cid)) (ds_dispatched st))"
    and q: "[] \<notin> queue_ids q" "queue_wf (ds_queue st)" "settled (ds_hub st)"
    using base by (simp_all add: drain_base_def)
  have "\<forall>rid \<in> queue_ids (ds_queue st). holder_of (ds_hub st) rid = None"
    by (intro ballI) (rule conjunct2 [OF drain_base_waiting [OF base]])
  moreover have "[] \<notin> queue_ids (ds_queue st)" using q(1) ids(2) by blast
  ultimately have "drain_ready (ds_queue st) (ds_hub st)" using q by (simp add: drain_ready_def)
  moreover have "\<exists>cid r. (cid, r) \<in> set (ds_dispatched st) \<and> rq_id r = rid \<and> holder_of (ds_hub st) rid = Some cid"
    if "rid \<in> queue_ids q" "rid \<notin> queue_ids (ds_queue st)"
  proof -
    have "rid \<in> set (dispatch_ids st)" using that ids(2) by blast
    then have "map_of (map (\<lambda>(cid, r). (rq_id r, cid)) (ds_dispatched st)) rid \<noteq> None"
      unfolding mget_None_iff dispatch_ids_keys by simp
    then obtain cid where m: "map_of (map (\<lambda>(cid, r). (rq_id r, cid)) (ds_dispatched st)) rid = Some cid"
      by blast
    then show ?thesis using holder mget_SomeD [OF m] by (auto simp: map_add_def)
  qed
  moreover have "holder_of (ds_hub st) rid = holder_of h rid" if "rid \<notin> queue_ids q"
  proof -
    have "rid \<notin> set (dispatch_ids st)" using that ids(2) by blast
    then have "map_of (map (\<lambda>(cid, r). (rq_id r, cid)) (ds_dispatched st)) rid = None"
      unfolding mget_None_iff dispatch_ids_keys .
    then show ?thesis using holder by (simp add: map_add_def)
  qed
  ultimately show ?thesis using drain_base_waiting [OF base] ids(2) by auto
qed

section \<open>What was sent\<close>

text \<open>The request as dispatched suits the client: access, model, context window, modalities.\<close>

definition suits :: "drain_env \<Rightarrow> client_summary \<Rightarrow> inference_request \<Rightarrow> bool" where
  "suits env c r \<longleftrightarrow>
     pr_allowed (en_pair env (rq_owner r) c) \<and>
     get_or False (cs_models c) (rq_model r) \<and> model_allowed r (rq_model r) \<and>
     (rq_word_count r > 0 \<and> get_or 0 (cs_context_sizes c) (rq_model r) > 0 \<longrightarrow>
        estimate_tokens (rq_word_count r) (rq_max_tokens r) \<le> get_or 0 (cs_context_sizes c) (rq_model r)) \<and>
     (get_or [] (cs_modalities c) (rq_model r) = [] \<or>
        set (rq_modalities r) \<subseteq> set (get_or [] (cs_modalities c) (rq_model r)))"

lemma model_allowed_rewrite [simp]: "model_allowed (rewrite_model r m) x = model_allowed r x"
  by (simp add: model_allowed_def)

lemma may_run_suits: "may_run env st c r m \<Longrightarrow> suits env c (rewrite_model r m)"
  by (simp add: may_run_def suits_def Let_def)

definition recorded :: "hub \<Rightarrow> string \<Rightarrow> inference_request \<Rightarrow> bool" where
  "recorded h cid r \<longleftrightarrow>
     (\<exists>fr. mget (hb_jobs h) (rq_id r) = Some fr \<and> fr_req fr = r \<and> fr_client_id fr = cid)"

lemma dispatch_best_records:
  assumes fresh: "holder_of (ds_hub st) (rq_id r) = None"
    and d: "dispatch_best env best r st = (b, st')"
  shows "b \<Longrightarrow> recorded (ds_hub st') (cs_id (ca_client best)) (rewrite_model r (ca_resolved best))"
    and "x \<noteq> rq_id r \<Longrightarrow> mget (hb_jobs (ds_hub st')) x = mget (hb_jobs (ds_hub st)) x"
proof -
  let ?cid = "cs_id (ca_client best)" and ?req = "rewrite_model r (ca_resolved best)"
  have "(b \<longrightarrow> recorded (ds_hub st') ?cid ?req) \<and>
      (x \<noteq> rq_id r \<longrightarrow> mget (hb_jobs (ds_hub st')) x = mget (hb_jobs (ds_hub st)) x)"
    using d
  proof (cases rule: dispatch_best_cases)
    case (refused h2 evs)
    then show ?thesis using track_job_False(1) [OF refused(2)]
      by (simp add: decr_in_flight_def incr_in_flight_def)
  next
    case (unsent h2 evs h3 h4 evs2)
    note same = send_jobs(1) [OF unsent(3)]
    from unsent(2) have "x \<noteq> rq_id r \<longrightarrow> mget (hb_jobs h2) x = mget (hb_jobs (ds_hub st)) x"
      by (rule track_job_True) (simp add: incr_in_flight_def)
    moreover from unsent(4) have "x \<noteq> rq_id r \<longrightarrow> mget (hb_jobs h4) x = mget (hb_jobs h3) x"
      by (rule untrack_job_cases) (simp_all add: gomap_simps)
    ultimately show ?thesis using unsent(1,5) same by (simp add: decr_in_flight_def)
  next
    case (sent h2 evs h3)
    note same = send_jobs(1) [OF sent(3)]
    from sent(2) show ?thesis
    proof (rule track_job_True)
      fix c
      assume "mget (hb_jobs h2) = (mget (hb_jobs (incr_in_flight (ds_hub st) ?cid)))(rq_id ?req \<mapsto>
         \<lparr>fr_client_id = ?cid, fr_client_token = cl_token c, fr_client_owner = cl_owner c,
          fr_client_name = cl_name c, fr_req = ?req, fr_dispatched_at = en_now env,
          fr_lease_expiry = en_now env + hb_lease_duration (incr_in_flight (ds_hub st) ?cid),
          fr_live = Some live_new\<rparr>)"
      then show ?thesis using sent(1,4) same by (simp add: recorded_def incr_in_flight_def)
    qed
  qed
  then show "b \<Longrightarrow> recorded (ds_hub st') ?cid ?req"
    and "x \<noteq> rq_id r \<Longrightarrow> mget (hb_jobs (ds_hub st')) x = mget (hb_jobs (ds_hub st)) x" by blast+
qed

definition boxed :: "hub \<Rightarrow> string \<Rightarrow> inference_request \<Rightarrow> bool" where
  "boxed h cid r \<longleftrightarrow> (\<exists>ms. outbox h cid = Some (False, ms) \<and> Job_Msg (for_worker r) \<in> set ms)"

text \<open>Every dispatch so far suits its client, is on record and is in its send buffer.\<close>

definition sent_well :: "drain_env \<Rightarrow> client_summary list \<Rightarrow> drain_state \<Rightarrow> bool" where
  "sent_well env cs st \<longleftrightarrow>
     (\<forall>c \<in> set cs. outbox (ds_hub st) (cs_id c) \<noteq> None) \<and>
     (\<forall>(cid, r) \<in> set (ds_dispatched st).
        (\<exists>c \<in> set cs. cs_id c = cid \<and> suits env c r) \<and> recorded (ds_hub st) cid r \<and> boxed (ds_hub st) cid r)"

text \<open>What the buffers hold beyond what they held at the start are jobs of this drain.\<close>

definition sent_only :: "hub \<Rightarrow> drain_state \<Rightarrow> bool" where
  "sent_only h0 st \<longleftrightarrow>
     (\<forall>k. \<exists>ms. (outbox h0 k = None \<and> outbox (ds_hub st) k = None) \<or>
        (\<exists>cl ms0. outbox h0 k = Some (cl, ms0) \<and> outbox (ds_hub st) k = Some (cl, ms0 @ ms) \<and>
           (\<forall>m \<in> set ms. \<exists>r. (k, r) \<in> set (ds_dispatched st) \<and> m = Job_Msg (for_worker r))))"

lemma attempt_facts:
  assumes base: "drain_base q0 h0 st" and c: "c \<in> set cs" and cid: "cs_id (ca_client best) = cs_id c"
    and pop: "pop_by_id (ds_queue st) (rq_id (ca_req best)) = Some (ca_req best, q')"
    and d: "dispatch_best env best (ca_req best) ((seed_running env cs st)\<lparr>ds_queue := q'\<rparr>) = (b, st')"
    and known: "outbox (ds_hub st) (cs_id c) \<noteq> None"
  defines "req \<equiv> rewrite_model (ca_req best) (ca_resolved best)"
  shows "ds_dispatched st' = (if b then ds_dispatched st @ [(cs_id c, req)] else ds_dispatched st)"
    and "b \<Longrightarrow> recorded (ds_hub st') (cs_id c) req"
    and "x \<noteq> rq_id (ca_req best) \<Longrightarrow> mget (hb_jobs (ds_hub st')) x = mget (hb_jobs (ds_hub st)) x"
    and "b \<Longrightarrow> \<exists>ms. outbox (ds_hub st) (cs_id c) = Some (False, ms)"
    and "outbox (ds_hub st') =
      (if b then (outbox (ds_hub st))(cs_id c \<mapsto>
            (False, snd (the (outbox (ds_hub st) (cs_id c))) @ [Job_Msg (for_worker req)]))
       else outbox (ds_hub st))"
proof -
  let ?st = "(seed_running env cs st)\<lparr>ds_queue := q'\<rparr>"
  have wf: "queue_wf (ds_queue st)" and ex: "settled (ds_hub ?st)"
    using base by (simp_all add: drain_base_def)
  have fresh: "holder_of (ds_hub ?st) (rq_id (ca_req best)) = None"
    using drain_base_waiting [OF base, of "rq_id (ca_req best)"] pop_by_id_Some(3) [OF wf pop] by simp
  have box: "outbox (ds_hub ?st) (cs_id (ca_client best)) \<noteq> None" using known cid by simp
  show "ds_dispatched st' = (if b then ds_dispatched st @ [(cs_id c, req)] else ds_dispatched st)"
    using dispatch_best_refs(2) [OF ex fresh d] cid by (simp add: req_def)
  show "b \<Longrightarrow> recorded (ds_hub st') (cs_id c) req"
    using dispatch_best_records(1) [OF fresh d] cid by (simp add: req_def)
  show "x \<noteq> rq_id (ca_req best) \<Longrightarrow> mget (hb_jobs (ds_hub st')) x = mget (hb_jobs (ds_hub st)) x"
    using dispatch_best_records(2) [OF fresh d] by simp
  show "b \<Longrightarrow> \<exists>ms. outbox (ds_hub st) (cs_id c) = Some (False, ms)"
    using dispatch_best_outbox(1) [OF d box] cid by auto
  show "outbox (ds_hub st') =
      (if b then (outbox (ds_hub st))(cs_id c \<mapsto>
            (False, snd (the (outbox (ds_hub st) (cs_id c))) @ [Job_Msg (for_worker req)]))
       else outbox (ds_hub st))"
    using dispatch_best_outbox(2) [OF d box] cid by (simp add: req_def)
qed

lemma dispatched_not_waiting:
  assumes base: "drain_base q0 h0 st" and r: "(k, r) \<in> set (ds_dispatched st)" and x: "x \<in> set (qu_items (ds_queue st))"
  shows "rq_id r \<noteq> rq_id x"
proof -
  have "set (dispatch_ids st) \<inter> queue_ids (ds_queue st) = {}" using base by (simp add: drain_base_def)
  moreover have "rq_id r \<in> set (dispatch_ids st)" using r by force
  moreover have "rq_id x \<in> queue_ids (ds_queue st)" using x by blast
  ultimately show ?thesis by (metis disjoint_iff)
qed

lemma sent_well_step:
  assumes base: "drain_base q0 h0 st" and well: "sent_well env cs st"
    and views: "alias_views env" and ms: "\<And>c. c \<in> set cs \<Longrightarrow> model_set (cs_models c)"
    and step: "drain_step env cs st = (b, st')"
  shows "sent_well env cs st'"
proof -
  have wf: "queue_wf (ds_queue st)" using base by (simp add: drain_base_def)
  show ?thesis
    using wf step
  proof (cases rule: drain_step_cases)
    case stop
    then show ?thesis using well by (simp add: sent_well_def)
  next
    case (attempt best c q')
    let ?req = "rewrite_model (ca_req best) (ca_resolved best)"
    have known: "outbox (ds_hub st) (cs_id c) \<noteq> None" using well attempt(1) by (simp add: sent_well_def)
    note f = attempt_facts [OF base attempt(1,3,4,5) known]
    have suits: "suits env c ?req"
      by (rule may_run_suits, rule candidate_may_run [OF attempt(2) ms [OF attempt(1)] views])
    have item: "ca_req best \<in> set (qu_items (ds_queue st))" by (rule pop_by_id_Some(3) [OF wf attempt(4)])
    have rec: "recorded (ds_hub st') k r" if "(k, r) \<in> set (ds_dispatched st')" for k r
    proof (cases "(k, r) \<in> set (ds_dispatched st)")
      case True
      then have "recorded (ds_hub st) k r" using well by (auto simp: sent_well_def)
      then show ?thesis using f(3) [of "rq_id r"] dispatched_not_waiting [OF base True item]
        by (simp add: recorded_def)
    next
      case False
      then show ?thesis using that f(1,2) by (auto split: if_splits)
    qed
    have box: "boxed (ds_hub st') k r" if "(k, r) \<in> set (ds_dispatched st')" for k r
    proof (cases "(k, r) \<in> set (ds_dispatched st)")
      case True
      then have "boxed (ds_hub st) k r" using well by (auto simp: sent_well_def)
      then show ?thesis using f(5) by (auto simp: boxed_def)
    next
      case False
      then show ?thesis using that f(1,5) by (auto simp: boxed_def split: if_splits)
    qed
    have suit: "\<exists>c \<in> set cs. cs_id c = k \<and> suits env c r" if "(k, r) \<in> set (ds_dispatched st')" for k r
      using that f(1) well suits attempt(1) by (auto simp: sent_well_def split: if_splits)
    have "outbox (ds_hub st') (cs_id c') \<noteq> None" if "c' \<in> set cs" for c'
      using that well f(5) by (simp add: sent_well_def del: not_None_eq)
    then show ?thesis using rec box suit unfolding sent_well_def by blast
  qed
qed

lemma sent_only_step:
  assumes base: "drain_base q0 hq st" and only: "sent_only h0 st"
    and known: "\<And>c. c \<in> set cs \<Longrightarrow> outbox (ds_hub st) (cs_id c) \<noteq> None"
    and step: "drain_step env cs st = (b, st')"
  shows "sent_only h0 st'"
proof -
  have wf: "queue_wf (ds_queue st)" using base by (simp add: drain_base_def)
  show ?thesis
    using wf step
  proof (cases rule: drain_step_cases)
    case stop
    then show ?thesis using only by (simp add: sent_only_def)
  next
    case (attempt best c q')
    let ?req = "rewrite_model (ca_req best) (ca_resolved best)"
    note f = attempt_facts [OF base attempt(1,3,4,5) known [OF attempt(1)]]
    show ?thesis
      unfolding sent_only_def
    proof
      fix k
      from only obtain ms where "(outbox h0 k = None \<and> outbox (ds_hub st) k = None) \<or>
        (\<exists>cl ms0. outbox h0 k = Some (cl, ms0) \<and> outbox (ds_hub st) k = Some (cl, ms0 @ ms) \<and>
           (\<forall>m \<in> set ms. \<exists>r. (k, r) \<in> set (ds_dispatched st) \<and> m = Job_Msg (for_worker r)))"
        unfolding sent_only_def by blast
      then consider (none) "outbox h0 k = None" "outbox (ds_hub st) k = None"
        | (some) cl ms0 where "outbox h0 k = Some (cl, ms0)" "outbox (ds_hub st) k = Some (cl, ms0 @ ms)"
            "\<forall>m \<in> set ms. \<exists>r. (k, r) \<in> set (ds_dispatched st) \<and> m = Job_Msg (for_worker r)"
        by metis
      then show "\<exists>ms. (outbox h0 k = None \<and> outbox (ds_hub st') k = None) \<or>
        (\<exists>cl ms0. outbox h0 k = Some (cl, ms0) \<and> outbox (ds_hub st') k = Some (cl, ms0 @ ms) \<and>
           (\<forall>m \<in> set ms. \<exists>r. (k, r) \<in> set (ds_dispatched st') \<and> m = Job_Msg (for_worker r)))"
      proof cases
        case none
        then show ?thesis using f(5) known [OF attempt(1)] by (auto split: if_splits)
      next
        case some
        show ?thesis
        proof (cases "b \<and> k = cs_id c")
          case True
          then have "outbox (ds_hub st') k = Some (cl, ms0 @ (ms @ [Job_Msg (for_worker ?req)]))"
            using f(4,5) some(2) by auto
          moreover have "\<forall>m \<in> set (ms @ [Job_Msg (for_worker ?req)]).
              \<exists>r. (k, r) \<in> set (ds_dispatched st') \<and> m = Job_Msg (for_worker r)"
            using some(3) f(1) True by auto
          ultimately show ?thesis using some(1) by blast
        next
          case False
          then have "outbox (ds_hub st') k = Some (cl, ms0 @ ms)" using f(5) some(2) by auto
          moreover have "\<forall>m \<in> set ms. \<exists>r. (k, r) \<in> set (ds_dispatched st') \<and> m = Job_Msg (for_worker r)"
            using some(3) f(1) by auto
          ultimately show ?thesis using some(1) by blast
        qed
      qed
    qed
  qed
qed

lemma sent_start:
  assumes "slots_exact d h"
  shows "sent_well env (available_client_list h) (drain_start env q h aff)"
    and "sent_only h (drain_start env q h aff)"
proof -
  have "outbox h (cs_id c) \<noteq> None" if "c \<in> set (available_client_list h)" for c
    using available_client_ids [OF assms that] by (auto simp: outbox_def)
  then show "sent_well env (available_client_list h) (drain_start env q h aff)"
    by (simp add: sent_well_def drain_start_def)
  show "sent_only h (drain_start env q h aff)"
    unfolding sent_only_def
  proof
    fix k
    show "\<exists>ms. (outbox h k = None \<and> outbox (ds_hub (drain_start env q h aff)) k = None) \<or>
        (\<exists>cl ms0. outbox h k = Some (cl, ms0) \<and>
           outbox (ds_hub (drain_start env q h aff)) k = Some (cl, ms0 @ ms) \<and>
           (\<forall>m \<in> set ms. \<exists>r. (k, r) \<in> set (ds_dispatched (drain_start env q h aff)) \<and>
              m = Job_Msg (for_worker r)))"
      by (cases "outbox h k") (auto simp: drain_start_def intro!: exI [of _ "[]"])
  qed
qed

text \<open>
  C5. A drain sends a request only to a client that may and can serve it: the pairing allows the
  requester there, the client serves the model the request was resolved to and the requester's
  key may use it, the estimate fits the client's context window and its modalities cover the
  request's; the hub has the job on record under that client, and the job is in its send buffer.
\<close>

theorem drain_sends_suitable:
  assumes "drain_ready q h" and "alias_views env"
    and "\<And>c. c \<in> set (available_client_list h) \<Longrightarrow> model_set (cs_models c)"
    and "drain_queue env q h aff = Some st" and "(cid, r) \<in> set (ds_dispatched st)"
  shows "(\<exists>c \<in> set (available_client_list h). cs_id c = cid \<and> suits env c r) \<and>
    recorded (ds_hub st) cid r \<and> boxed (ds_hub st) cid r"
proof -
  have "slots_exact (\<lambda>_. 0) h" using assms(1) by (simp add: drain_ready_def hub_exact_def)
  from drain_queue_rule [where keep = "sent_well env (available_client_list h)",
      OF assms(1,4) sent_start(1) [OF this]] sent_well_step [OF _ _ assms(2,3)]
  have "sent_well env (available_client_list h) st" by blast
  then show ?thesis using assms(5) by (auto simp: sent_well_def)
qed

text \<open>
  A worker learns nothing of who is asking: every message a drain adds to a client's send
  buffer is a job whose request has no owner, no key label and no list of allowed models, and
  the messages buffered before are still there, in order, before it.
\<close>

theorem drain_sends_blind:
  assumes "drain_ready q h" and "drain_queue env q h aff = Some st"
    and "mget (hb_clients h) k = Some c"
  shows "\<exists>c' ms. mget (hb_clients (ds_hub st)) k = Some c' \<and> cl_send c' = cl_send c @ ms \<and>
    list_all (\<lambda>m. case m of
        Job_Msg r \<Rightarrow> rq_owner r = [] \<and> rq_api_key_label r = [] \<and> rq_allowed_models r = None
      | _ \<Rightarrow> False) ms"
proof -
  let ?keep = "\<lambda>st. sent_only h st \<and>
      (\<forall>c \<in> set (available_client_list h). outbox (ds_hub st) (cs_id c) \<noteq> None)"
  have ex: "slots_exact (\<lambda>_. 0) h" using assms(1) by (simp add: drain_ready_def hub_exact_def)
  have k0: "?keep (drain_start env q h aff)"
    using sent_start [OF ex] by (simp add: sent_well_def)
  have "?keep st'"
    if "drain_base q h st" "?keep st" "drain_step env (available_client_list h) st = (b, st')" for st b st'
  proof -
    have only: "sent_only h st'" using sent_only_step [OF that(1) _ _ that(3)] that(2) by blast
    moreover have "outbox (ds_hub st') (cs_id c) \<noteq> None" if "c \<in> set (available_client_list h)" for c
    proof -
      have "outbox h (cs_id c) \<noteq> None" using k0 that by (simp add: drain_start_def)
      with only show ?thesis unfolding sent_only_def by (metis option.distinct(1))
    qed
    ultimately show ?thesis by blast
  qed
  with drain_queue_rule [where keep = ?keep, OF assms(1,2) k0] have "sent_only h st" by blast
  moreover have "outbox h k = Some (cl_send_closed c, cl_send c)" using assms(3) by (simp add: outbox_def)
  ultimately obtain ms where ms: "outbox (ds_hub st) k = Some (cl_send_closed c, cl_send c @ ms)"
    "\<forall>m \<in> set ms. \<exists>r. (k, r) \<in> set (ds_dispatched st) \<and> m = Job_Msg (for_worker r)"
    unfolding sent_only_def by (metis (no_types, lifting) Pair_inject option.inject option.distinct(1))
  from ms(1) obtain c' where "mget (hb_clients (ds_hub st)) k = Some c'" "cl_send c' = cl_send c @ ms"
    by (auto simp: outbox_def)
  moreover have "list_all (\<lambda>m. case m of
        Job_Msg r \<Rightarrow> rq_owner r = [] \<and> rq_api_key_label r = [] \<and> rq_allowed_models r = None
      | _ \<Rightarrow> False) ms"
    using ms(2) by (force simp: list_all_iff)
  ultimately show ?thesis by blast
qed

section \<open>The prefix map\<close>

lemma record_affinity_bound:
  "length aff \<le> prefix_affinity_max \<Longrightarrow> length (record_affinity env best aff) \<le> prefix_affinity_max"
proof -
  assume len: "length aff \<le> prefix_affinity_max"
  have len_put: "length (mput k v m) = (if mget m k = None then Suc (length m) else length m)"
    for k v and m :: "(string, prefix_entry) gomap"
    by (induction m) auto
  show ?thesis using len unfolding record_affinity_def Let_def
    by (auto simp: len_put prefix_affinity_max_def simp del: not_None_eq)
qed

lemma prefix_step:
  assumes "length (ds_prefix_aff st) \<le> prefix_affinity_max" and step: "drain_step env cs st = (b, st')"
  shows "length (ds_prefix_aff st') \<le> prefix_affinity_max"
proof -
  have d: "length (ds_prefix_aff s') \<le> prefix_affinity_max"
    if "dispatch_best env best r s = (b', s')" "length (ds_prefix_aff s) \<le> prefix_affinity_max" for best r s b' s'
    using that by (cases rule: dispatch_best_cases) (auto intro: record_affinity_bound)
  show ?thesis using assms
    by (auto simp: drain_step_def Let_def split: option.splits prod.splits if_splits intro: d)
qed

text \<open>
  The scheduler's memory of conversations is bounded: a drain keeps the prefix map within
  prefixAffinityMax entries, however many new prefixes it sees.
\<close>

theorem prefix_map_bounded:
  assumes "length aff \<le> prefix_affinity_max" and "drain_queue env q h aff = Some st"
  shows "length (ds_prefix_aff st) \<le> prefix_affinity_max"
proof -
  let ?keep = "\<lambda>st. length (ds_prefix_aff st) \<le> prefix_affinity_max"
  have k0: "?keep (drain_start env q h aff)"
    using assms(1) le_trans [OF length_filter_le assms(1)]
    by (simp add: drain_start_def prune_prefix_affinity_def)
  show ?thesis
    using drain_loop_rule [where keep = ?keep and post = ?keep, OF _ k0] prefix_step assms(2) k0
    by (auto simp: drain_queue_def Let_def split: if_splits)
qed

end
