(* ===== verification/Sample_Mesh.thy ===== *)
theory Sample_Mesh
  imports Scheduler_Outcome
begin

text \<open>
  One small mesh, built with the model's own operations, on which the witnesses of the
  properties evaluate: a worker of alice's with two slots and one of bob's with one, an alias
  over their two models, and three waiting requests.
\<close>

definition blank_request :: inference_request where
  "blank_request = \<lparr>rq_id = [], rq_model = [], rq_messages = [], rq_max_tokens = 0,
     rq_temperature = None, rq_top_p = None, rq_stop = [], rq_stream = False, rq_tools = [],
     rq_tool_choice = [], rq_source_fmt = [], rq_priority = priority_normal, rq_owner = [],
     rq_api_key_label = [], rq_word_count = 0, rq_modalities = [], rq_enqueued_at = 0,
     rq_attempts = 0, rq_requested_model = [], rq_allowed_models = None\<rparr>"

definition request :: "string \<Rightarrow> string \<Rightarrow> string \<Rightarrow> gotime \<Rightarrow> inference_request" where
  "request rid m own t = blank_request\<lparr>rq_id := rid, rq_model := m, rq_owner := own, rq_enqueued_at := t\<rparr>"

definition blank_inbound :: inbound_msg where
  "blank_inbound = \<lparr>im_type = [], im_models = [], im_max_concurrent = 0, im_version = [], im_kind = [],
     im_request_id = [], im_delta = [], im_reasoning_delta = [], im_tool_calls_delta = [],
     im_done = False, im_finish_reason = [], im_usage = None, im_message = [], im_final = False,
     im_reason = [], im_slots = 0\<rparr>"

definition register_of :: "string \<Rightarrow> int \<Rightarrow> inbound_msg" where
  "register_of m n = blank_inbound\<lparr>im_type := ''register'', im_max_concurrent := n,
     im_models := [\<lparr>mi_name = m, mi_context_size = 100, mi_context_train = 0, mi_modalities = []\<rparr>]\<rparr>"

definition join :: "hub \<Rightarrow> string \<Rightarrow> string \<Rightarrow> string \<Rightarrow> int \<Rightarrow> (string, int) gomap \<Rightarrow> hub" where
  "join h cid own m n slots =
     fst (dispatch (connect h cid cid own cid slots) 0 cid (Some (register_of m n)))"

definition sample_hub :: hub where
  "sample_hub = join (join (hub_new 100) ''w1'' ''alice'' ''llama'' 2 [(''*'', 1)])
     ''w2'' ''bob'' ''qwen'' 1 []"

definition sample_queue :: queue where
  "sample_queue = push (push (push queue_new (request ''r1'' ''fast'' ''carol'' 1))
     (request ''r2'' ''llama'' ''alice'' 2)) (request ''r3'' ''llama'' ''carol'' 3)"

definition sample_env :: drain_env where
  "sample_env = \<lparr>en_aliases = [(''fast'', [''llama'', ''qwen''])],
     en_targets = [(''fast'', [\<lparr>at_model = ''llama'', at_priority = 1\<rparr>, \<lparr>at_model = ''qwen'', at_priority = 2\<rparr>])],
     en_opts = \<lparr>op_coalesce_normalize = False, op_prefix_affinity = True, op_clean_requests = False,
       op_clean_aggressive = False, op_clamp_params = False\<rparr>,
     en_pair = (\<lambda>own c. (owner_pairing own c)\<lparr>pr_per_requester_max := 2, pr_idle_only := True\<rparr>),
     en_prefix_key = rq_owner, en_now = 10\<rparr>"

definition sample_result :: drain_state where
  "sample_result = the (drain_queue sample_env sample_queue sample_hub [])"

section \<open>What holds of the sample\<close>

lemma hub_new_settled: "settled (hub_new d)"
  by (simp add: hub_exact_def job_index_def slots_exact_def hub_new_def)

lemma join_settled:
  assumes "settled h" and "\<And>rid. holder_of h rid = None"
  shows "settled (join h cid own m n slots)" and "holder_of (join h cid own m n slots) rid = None"
proof -
  have "settled (connect h cid cid own cid slots)"
    by (rule connect_exact [OF assms(1)]) (simp_all add: assms(2))
  then show "settled (join h cid own m n slots)" unfolding join_def by (rule dispatch_exact)
  have "hb_jobs (join h cid own m n slots) = hb_jobs (connect h cid cid own cid slots)"
    by (simp add: join_def dispatch_def register_of_def dispatch_register_def Let_def send_to_client_hub)
  then show "holder_of (join h cid own m n slots) rid = None"
    using assms(2) by (simp add: holder_of_def connect_def)
qed

lemma sample_hub_settled: "settled sample_hub" "holder_of sample_hub rid = None"
proof -
  have none: "holder_of (hub_new 100) k = None" for k by (simp add: holder_of_def hub_new_def)
  note one = join_settled [OF hub_new_settled none]
  show "settled sample_hub" "holder_of sample_hub rid = None"
    unfolding sample_hub_def by (rule join_settled [OF one])+
qed

lemma request_id [simp]: "rq_id (request rid m own t) = rid"
  by (simp add: request_def)

lemma sample_queue_wf: "queue_wf sample_queue"
  unfolding sample_queue_def push_def by (intro push_locked_wf queue_wf_new) simp_all

lemma sample_queue_ids: "queue_ids sample_queue = {''r1'', ''r2'', ''r3''}"
proof -
  have "map rq_id (qu_items sample_queue) = [''r1'', ''r2'', ''r3'']" by code_simp
  then have "set (map rq_id (qu_items sample_queue)) = set [''r1'', ''r2'', ''r3'']" by simp
  then show ?thesis by simp
qed

lemma sample_ready: "drain_ready sample_queue sample_hub"
  unfolding drain_ready_def using sample_queue_wf sample_hub_settled sample_queue_ids by simp

lemma sample_runs: "drain_queue sample_env sample_queue sample_hub [] = Some sample_result"
  unfolding sample_result_def
  using drain_returns [OF queue_wf_index_ok [OF sample_queue_wf], of sample_env sample_hub "[]"]
  by auto

lemma sample_dispatched:
  "map (\<lambda>(c, r). (c, rq_id r, rq_model r)) (ds_dispatched sample_result) =
     [(''w1'', ''r2'', ''llama''), (''w2'', ''r1'', ''qwen'')]"
  by code_simp

text \<open>The clients of the sample as the scheduler sees them.\<close>

definition sample_client :: "nat \<Rightarrow> client_summary" where
  "sample_client i = available_client_list sample_hub ! i"

lemma sample_clients: "available_client_list sample_hub = [sample_client 0, sample_client 1]"
proof -
  have "length (available_client_list sample_hub) = 2" by code_simp
  then show ?thesis by (auto simp: sample_client_def length_Suc_conv eval_nat_numeral)
qed

lemma sample_client_in: "sample_client 0 \<in> set (available_client_list sample_hub)"
  "sample_client 1 \<in> set (available_client_list sample_hub)"
  by (simp_all add: sample_clients)

text \<open>The hub after the drain, with two jobs running.\<close>

lemma sample_result_base: "drain_base sample_queue sample_hub sample_result"
  using drain_queue_base [OF _ _ _ _ sample_runs] sample_ready by (simp add: drain_ready_def)

lemma sample_result_settled: "settled (ds_hub sample_result)"
  using sample_result_base by (simp add: drain_base_def)

end
