(* ===== verification/Scheduler_Order.thy ===== *)
theory Scheduler_Order
  imports Sample_Mesh
begin

text \<open>
  Where the selection is not what its comments promise: the comparison of candidates has
  cycles, a request that fails a client's context check hides the others from it, and a request
  put back after a failed send stays tied to the model it was resolved to. And where it is: no
  other request beats the chosen one when the clients ask for different requests.
\<close>

text \<open>
  The selection returns a best pair when the clients' candidates hold pairwise different
  requests: no other candidate beats the chosen one under betterCandidate.
\<close>

theorem selection_is_best:
  assumes "select_best env st cs None = Some cand"
    and "distinct (map (\<lambda>a. rq_id (ca_req a)) (List.map_filter (candidate_for env st) cs))"
    and "c \<in> set cs" and "candidate_for env st c = Some other"
    and "rq_id (ca_req other) \<noteq> rq_id (ca_req cand)"
  shows "\<not> better_candidate other cand"
  using assms by (rule select_best_maximal)

text \<open>
  In general there is no best candidate: betterCandidate has cycles. One request on its
  preferred tier beats the same request on a warm client, which beats a more urgent request by
  affinity, which beats the first by priority; so which of the three a drain picks depends on
  the order in which it visits the clients.
\<close>

theorem candidate_order_cycles:
  "\<exists>a b c. better_candidate a b \<and> better_candidate b c \<and> better_candidate c a"
proof -
  let ?c = "\<lambda>i. \<lparr>cs_id = i, cs_owner = [], cs_token = [], cs_models = [], cs_max_concurrent = 1,
      cs_in_flight = 0, cs_local_busy = 0, cs_context_sizes = [], cs_owner_slots = [], cs_modalities = []\<rparr>"
  let ?cand = "\<lambda>i r aff tier. \<lparr>ca_client = ?c i, ca_req = r, ca_affinity = aff, ca_resolved = [], ca_tier = tier\<rparr>"
  let ?r1 = "request ''r1'' ''fast'' ''carol'' 1"
  let ?r2 = "(request ''r2'' ''fast'' ''carol'' 1)\<lparr>rq_priority := priority_high\<rparr>"
  have "better_candidate (?cand ''a'' ?r1 False 1) (?cand ''b'' ?r1 True 2) \<and>
      better_candidate (?cand ''b'' ?r1 True 2) (?cand ''c'' ?r2 False 0) \<and>
      better_candidate (?cand ''c'' ?r2 False 0) (?cand ''a'' ?r1 False 1)"
    by code_simp
  then show ?thesis by blast
qed

definition long_request :: inference_request where
  "long_request = (request ''r0'' ''llama'' ''carol'' 0)\<lparr>rq_word_count := 1000\<rparr>"

definition blocked_queue :: queue where
  "blocked_queue = push (push queue_new long_request) (request ''r1'' ''llama'' ''carol'' 1)"

text \<open>
  A request whose estimate exceeds a client's context window hides every later request from
  that client: on a mesh with an idle worker a drain dispatches nothing while the long request
  waits in front, and dispatches the short one when it waits alone.
\<close>

theorem long_request_blocks_client:
  "map_option (\<lambda>st. map (rq_id \<circ> snd) (ds_dispatched st)) (drain_queue sample_env blocked_queue sample_hub [])
     = Some [] \<and>
   map_option (\<lambda>st. map (rq_id \<circ> snd) (ds_dispatched st))
     (drain_queue sample_env (push queue_new (request ''r1'' ''llama'' ''carol'' 1)) sample_hub [])
     = Some [''r1'']"
  by code_simp

text \<open>
  A request that is put back because its client refused the message waits under the concrete
  model it was resolved to, not under the name the caller asked for.
\<close>

theorem requeue_pins_model:
  assumes "queue_wf q" and "pop_by_id q rid = Some (r, q')" and "rid \<noteq> []"
    and "dispatch_best env best r (st\<lparr>ds_queue := q'\<rparr>) = (False, st')"
  shows "queue_content (ds_queue st') = (queue_content q)(rid \<mapsto> rewrite_model r (ca_resolved best))
    \<and> rq_model (rewrite_model r (ca_resolved best)) = ca_resolved best"
proof -
  have "ds_queue st' = push q' (rewrite_model r (ca_resolved best))"
    using assms(4) by (cases rule: dispatch_best_cases) simp_all
  moreover have "rq_id (rewrite_model r (ca_resolved best)) = rid"
    using pop_by_id_Some(2) [OF assms(1,2)] by simp
  ultimately show ?thesis
    using jobs.pop_put(1) [OF assms(1,2) _ assms(3)] by simp
qed

end
