(* ===== verification/Mesh.thy ===== *)
theory Mesh
  imports Scheduler_Outcome Hub_Outcomes
begin

text \<open>
  The router as a whole: queue, hub and scheduler wired as \<open>router/cmd/router/main.go\<close> wires
  them, driven by callers (\<open>router/internal/api/handler.go\<close>), workers, the lease reaper and
  the portal. One step is one handler; a request offered again by the hub (\<open>OnRelease\<close>) is
  pushed in the same step. The invariant holds in every state the router can reach.
\<close>

section \<open>The system\<close>

record mesh =
  me_queue :: queue
  me_hub :: hub
  me_aff :: "(string, prefix_entry) gomap"

datatype mesh_label =
    L_Submit inference_request bool
  | L_Drain "(string \<times> inference_request) list"
  | L_Message string "hub_event list"
  | L_Connect string
  | L_Closing string
  | L_Disconnect string "hub_event list"
  | L_Cancel_Queued string
  | L_Cancel_Running string
  | L_Reap gotime
  | L_Write string
  | L_Admin

text \<open>
  \<open>L_Closing\<close> is the window in which a connection's send channel is closed and the client is
  still registered: a dispatch to it then fails at the send.

  \<open>OnRelease\<close>: each request the hub gives back goes into the queue.\<close>

definition requeue :: "hub_event list \<Rightarrow> queue \<Rightarrow> queue" where
  "requeue evs q = fold (\<lambda>r q. push q r) (released evs) q"

inductive mesh_step :: "mesh \<Rightarrow> mesh_label \<Rightarrow> mesh \<Rightarrow> bool" where
  on_submit: "rq_id r \<noteq> [] \<Longrightarrow> rq_id r \<notin> queue_ids (me_queue m) \<Longrightarrow> holder_of (me_hub m) (rq_id r) = None \<Longrightarrow>
    rq_attempts r = 0 \<Longrightarrow> try_push (me_queue m) r = (b, q) \<Longrightarrow>
    mesh_step m (L_Submit r b) (m\<lparr>me_queue := q\<rparr>)"
| on_drain: "drain_queue env (me_queue m) (me_hub m) (me_aff m) = Some st \<Longrightarrow>
    mesh_step m (L_Drain (ds_dispatched st))
      \<lparr>me_queue = ds_queue st, me_hub = ds_hub st, me_aff = ds_prefix_aff st\<rparr>"
| on_message: "dispatch (me_hub m) now cid data = (h, evs) \<Longrightarrow>
    mesh_step m (L_Message cid evs) (m\<lparr>me_hub := h, me_queue := requeue evs (me_queue m)\<rparr>)"
| on_connect: "cid \<notin> online (me_hub m) \<Longrightarrow>
    mesh_step m (L_Connect cid) (m\<lparr>me_hub := connect (me_hub m) cid name own token slots\<rparr>)"
| on_closing: "mesh_step m (L_Closing cid) (m\<lparr>me_hub := upd_client (me_hub m) cid close_send\<rparr>)"
| on_disconnect: "disconnect (me_hub m) now cid = (h, c, evs) \<Longrightarrow>
    mesh_step m (L_Disconnect cid evs) (m\<lparr>me_hub := h, me_queue := requeue evs (me_queue m)\<rparr>)"
| on_cancel_queued: "mesh_step m (L_Cancel_Queued rid) (m\<lparr>me_queue :=
      (case pop_by_id (me_queue m) rid of None \<Rightarrow> me_queue m | Some (r, q) \<Rightarrow> q)\<rparr>)"
| on_cancel_running: "cancel_request (me_hub m) rid = (h, evs) \<Longrightarrow>
    mesh_step m (L_Cancel_Running rid) (m\<lparr>me_hub := h\<rparr>)"
| on_reap: "handle_expired_leases (me_hub m) now = (h, evs) \<Longrightarrow> mesh_step m (L_Reap now) (m\<lparr>me_hub := h\<rparr>)"
| on_write: "write_loop_step (me_hub m) cid ok = (msg, h) \<Longrightarrow> mesh_step m (L_Write cid) (m\<lparr>me_hub := h\<rparr>)"
| on_close_token: "mesh_step m L_Admin (m\<lparr>me_hub := close_by_token (me_hub m) token\<rparr>)"
| on_owner_slots: "mesh_step m L_Admin (m\<lparr>me_hub := set_client_owner_slots (me_hub m) token model n\<rparr>)"

inductive_cases mesh_stepE: "mesh_step m l m'"

text \<open>The router as \<open>main\<close> starts it: empty, with its queue limit and lease.\<close>

definition mesh_start :: "int \<Rightarrow> duration \<Rightarrow> mesh" where
  "mesh_start max_depth lease =
     \<lparr>me_queue = queue_new\<lparr>qu_max_depth := max_depth\<rparr>, me_hub = hub_new lease, me_aff = []\<rparr>"

inductive mesh_reach :: "mesh \<Rightarrow> mesh_label list \<Rightarrow> mesh \<Rightarrow> bool" where
  reach_start: "mesh_reach m [] m"
| reach_step: "mesh_reach m ls m' \<Longrightarrow> mesh_step m' l m'' \<Longrightarrow> mesh_reach m (ls @ [l]) m''"

section \<open>The drain and the invariant\<close>

lemma same_frame_incr [simp]: "same_frame h (incr_in_flight h' cid) = same_frame h h'"
  by (simp add: incr_in_flight_def)

lemma same_frame_incr_left [simp]: "same_frame (incr_in_flight h cid) h' = same_frame h h'"
  using same_frame_incr [of "incr_in_flight h cid" h cid] by (simp add: same_frame_def incr_in_flight_def)

lemma same_frame_track: "track_job h now cid req = (b, h', evs) \<Longrightarrow> same_frame h h'"
  by (auto simp: track_job_def same_frame_def wired_def online_def split: option.splits)

lemma same_frame_untrack: "untrack_job h now cid rid = (b, h', evs) \<Longrightarrow> same_frame h h'"
  by (erule untrack_job_cases) simp_all

lemma dispatch_best_frame:
  assumes "dispatch_best env best r st = (b, st')"
  shows "same_frame (ds_hub st) (ds_hub st')"
proof -
  have send: "same_frame h h'" if "send_to_client h c m = (s, h')" for h c m s h'
    using same_frame_send [of h h c m] that by simp
  show ?thesis
    using assms
  proof (cases rule: dispatch_best_cases)
    case (refused h2 evs)
    from same_frame_track [OF refused(2)] show ?thesis using refused(3) by simp
  next
    case (unsent h2 evs h3 h4 evs2)
    from same_frame_trans [OF same_frame_track [OF unsent(2)]
        same_frame_trans [OF send [OF unsent(3)] same_frame_untrack [OF unsent(4)]]]
    show ?thesis using unsent(5) by simp
  next
    case (sent h2 evs h3)
    from same_frame_trans [OF same_frame_track [OF sent(2)] send [OF sent(3)]]
    show ?thesis using sent(4) by simp
  qed
qed

text \<open>A property of requests that rewriting the model keeps is kept by the drain.\<close>

definition all_requests :: "(inference_request \<Rightarrow> bool) \<Rightarrow> queue \<Rightarrow> hub \<Rightarrow> bool" where
  "all_requests Q q h \<longleftrightarrow> (\<forall>r \<in> set (qu_items q). Q r) \<and>
     (\<forall>rid fr. mget (hb_jobs h) rid = Some fr \<longrightarrow> Q (fr_req fr))"

lemma all_requests_step:
  assumes base: "drain_base q0 h0 st" and queued: "waiting_as_queued q0 st"
    and rw: "\<And>r m. Q r \<Longrightarrow> Q (rewrite_model r m)"
    and keep: "all_requests Q (ds_queue st) (ds_hub st) \<and> same_frame h0 (ds_hub st)"
    and step: "drain_step env cs st = (b, st')"
  shows "all_requests Q (ds_queue st') (ds_hub st') \<and> same_frame h0 (ds_hub st')"
proof -
  have wf: "queue_wf (ds_queue st)" using base by (simp add: drain_base_def)
  from drain_step_base [OF base queued step] have base': "drain_base q0 h0 st'" by blast
  show ?thesis
    using wf step
  proof (cases rule: drain_step_cases)
    case stop
    then show ?thesis using keep by simp
  next
    case (attempt best c q')
    let ?st = "(seed_running env cs st)\<lparr>ds_queue := q'\<rparr>"
    let ?req = "rewrite_model (ca_req best) (ca_resolved best)"
    have item: "ca_req best \<in> set (qu_items (ds_queue st))"
      by (rule pop_by_id_Some(3) [OF wf attempt(4)])
    have fresh: "holder_of (ds_hub ?st) (rq_id (ca_req best)) = None"
      using drain_base_waiting [OF base, of "rq_id (ca_req best)"] item by simp
    have Q: "Q (ca_req best)" "Q ?req" using keep item rw by (auto simp: all_requests_def)
    note rec = dispatch_best_records [OF fresh attempt(5)]
    have ne: "rq_id (ca_req best) \<noteq> []"
      using drain_base_waiting [OF base, of "rq_id (ca_req best)"] item by blast
    note items = pop_by_id_items [OF wf attempt(4)]
      put_back(3) [OF wf attempt(4) ne, of ?req]
    have "set (qu_items (ds_queue st')) \<subseteq> insert ?req (set (qu_items (ds_queue st)))"
      using attempt(5) by (cases rule: dispatch_best_cases) (use items in auto)
    then have q: "\<forall>r \<in> set (qu_items (ds_queue st')). Q r" using keep Q by (auto simp: all_requests_def)
    have "Q (fr_req fr)" if fr: "mget (hb_jobs (ds_hub st')) rid = Some fr" for rid fr
    proof (cases "rid = rq_id (ca_req best)")
      case False
      then show ?thesis using rec(2) [of rid] fr keep by (simp add: all_requests_def)
    next
      case True
      show ?thesis
      proof (cases b)
        case True
        then show ?thesis using rec(1) fr \<open>rid = _\<close> Q(2) by (auto simp: recorded_def)
      next
        case False
        have "queue_ids (ds_queue st') = queue_ids (ds_queue st)"
          using attempt(5) False put_back(2) [OF wf attempt(4) ne, of ?req]
          by (cases rule: dispatch_best_cases) auto
        with drain_base_waiting [OF base', of rid] item True have "holder_of (ds_hub st') rid = None"
          by auto
        with fr show ?thesis by (simp add: holder_of_def)
      qed
    qed
    moreover have "same_frame h0 (ds_hub st')"
      using dispatch_best_frame [OF attempt(5)] keep same_frame_trans by auto
    ultimately show ?thesis using q by (auto simp: all_requests_def)
  qed
qed

lemma all_requests_drain:
  assumes ready: "drain_ready q h" and run: "drain_queue env q h aff = Some st"
    and rw: "\<And>r m. Q r \<Longrightarrow> Q (rewrite_model r m)" and all: "all_requests Q q h"
  shows "all_requests Q (ds_queue st) (ds_hub st)" and "same_frame h (ds_hub st)"
proof -
  let ?keep = "\<lambda>st. all_requests Q (ds_queue st) (ds_hub st) \<and> same_frame h (ds_hub st)"
  have "?keep (drain_start env q h aff)" using all by (simp add: drain_start_def)
  then have "?keep st"
  proof (rule drain_queue_rule [where keep = ?keep, OF ready run])
    show "?keep st'" if "drain_base q h st" "waiting_as_queued q st" "?keep st"
      "drain_step env (available_client_list h) st = (b, st')" for st b st'
      by (rule all_requests_step [OF that(1,2) _ that(3,4)]) (rule rw)
  qed
  then show "all_requests Q (ds_queue st) (ds_hub st)" and "same_frame h (ds_hub st)" by simp_all
qed

section \<open>The invariant\<close>

definition fresh_enough :: "inference_request \<Rightarrow> bool" where
  "fresh_enough r \<longleftrightarrow> rq_attempts r < max_attempts"

definition mesh_ok :: "mesh \<Rightarrow> bool" where
  "mesh_ok m \<longleftrightarrow> drain_ready (me_queue m) (me_hub m) \<and> wired (me_hub m) \<and>
     holder_of (me_hub m) [] = None \<and>
     (\<forall>rid cid. holder_of (me_hub m) rid = Some cid \<longrightarrow> cid \<in> online (me_hub m)) \<and>
     all_requests fresh_enough (me_queue m) (me_hub m)"

lemma fresh_enough_rewrite: "fresh_enough r \<Longrightarrow> fresh_enough (rewrite_model r m)"
  by (simp add: fresh_enough_def rewrite_model_def Let_def)

lemma all_requests_core:
  "all_requests Q q h \<longleftrightarrow> (\<forall>r \<in> set (qu_items q). Q r) \<and> (\<forall>rid c r. core_of h rid = Some (c, r) \<longrightarrow> Q r)"
  by (force simp: all_requests_def core_of_def job_core_def)

lemma fair_release_fresh: "fair_release rec r \<Longrightarrow> fresh_enough (fr_req rec) \<Longrightarrow> fresh_enough r"
  by (auto simp: fair_release_def fresh_enough_def unresolve_def)

lemma requeue_push:
  assumes "drain_ready q h" and "rq_id r \<noteq> []" and "holder_of h (rq_id r) = None"
  shows "drain_ready (push q r) h" and "set (qu_items (push q r)) \<subseteq> insert r (set (qu_items q))"
    and "queue_ids (push q r) = insert (rq_id r) (queue_ids q)"
proof -
  have wf: "queue_wf q" using assms(1) by (simp add: drain_ready_def)
  note items = push_locked_items [OF wf assms(2)]
  show "set (qu_items (push q r)) \<subseteq> insert r (set (qu_items q))" using items by (auto simp: push_def)
  show ids: "queue_ids (push q r) = insert (rq_id r) (queue_ids q)" using items by (auto simp: push_def)
  show "drain_ready (push q r) h"
    using assms push_locked_wf [OF wf assms(2)] unfolding drain_ready_def ids by (simp add: push_def)
qed

lemma requeue_ready:
  assumes "drain_ready q h" and "\<And>r. r \<in> set (released evs) \<Longrightarrow> rq_id r \<noteq> [] \<and> holder_of h (rq_id r) = None"
  shows "drain_ready (requeue evs q) h \<and>
    set (qu_items (requeue evs q)) \<subseteq> set (released evs) \<union> set (qu_items q) \<and>
    queue_ids (requeue evs q) = rq_id ` set (released evs) \<union> queue_ids q"
proof -
  have "drain_ready (fold (\<lambda>r q. push q r) rs q) h \<and>
      set (qu_items (fold (\<lambda>r q. push q r) rs q)) \<subseteq> set rs \<union> set (qu_items q) \<and>
      queue_ids (fold (\<lambda>r q. push q r) rs q) = rq_id ` set rs \<union> queue_ids q"
    if "drain_ready q h" "\<And>r. r \<in> set rs \<Longrightarrow> rq_id r \<noteq> [] \<and> holder_of h (rq_id r) = None" for rs q
    using that
  proof (induction rs arbitrary: q)
    case Nil
    then show ?case by simp
  next
    case (Cons r rs)
    note p = requeue_push [OF Cons.prems(1), of r]
    have r: "rq_id r \<noteq> []" "holder_of h (rq_id r) = None" using Cons.prems(2) [of r] by simp_all
    have "drain_ready (fold (\<lambda>r q. push q r) rs (push q r)) h \<and>
      set (qu_items (fold (\<lambda>r q. push q r) rs (push q r))) \<subseteq> set rs \<union> set (qu_items (push q r)) \<and>
      queue_ids (fold (\<lambda>r q. push q r) rs (push q r)) = rq_id ` set rs \<union> queue_ids (push q r)"
      by (rule Cons.IH [OF p(1) [OF r]]) (rule Cons.prems(2), simp)
    then show ?case using p(2,3) [OF r] by auto
  qed
  then show ?thesis using assms by (simp add: requeue_def)
qed

text \<open>A hub that holds fewer jobs and has the same counters is as good.\<close>

lemma mesh_ok_after:
  assumes ok: "mesh_ok m" and settled: "settled h'" and w: "wired h'"
    and on: "\<And>rid cid. holder_of h' rid = Some cid \<Longrightarrow> cid \<in> online h'"
    and less: "\<And>k. core_of h' k = None \<or> core_of h' k = core_of (me_hub m) k"
    and rel: "\<And>r. r \<in> set (released evs) \<Longrightarrow>
      (\<exists>rec. mget (hb_jobs (me_hub m)) (rq_id r) = Some rec \<and> fair_release rec r) \<and>
      core_of h' (rq_id r) = None"
  shows "mesh_ok (m\<lparr>me_hub := h', me_queue := requeue evs (me_queue m)\<rparr>)"
proof -
  let ?h = "me_hub m" and ?q = "me_queue m"
  have ready: "drain_ready ?q ?h" and empty: "holder_of ?h [] = None"
    and all: "all_requests fresh_enough ?q ?h"
    using ok by (simp_all add: mesh_ok_def)
  have held: "holder_of h' k = None \<or> holder_of h' k = holder_of ?h k" for k
    using less [of k] by (auto simp: holder_core)
  have ready': "drain_ready ?q h'"
    using ready settled held unfolding drain_ready_def by metis
  have rid: "rq_id r \<noteq> [] \<and> holder_of h' (rq_id r) = None" if "r \<in> set (released evs)" for r
    using rel [OF that] empty by (auto simp: holder_core holder_of_def core_of_def)
  note rq = requeue_ready [OF ready', of evs, OF rid]
  have new: "fresh_enough r" if "r \<in> set (released evs)" for r
    using rel [OF that] all fair_release_fresh by (auto simp: all_requests_def)
  have q: "\<forall>r \<in> set (qu_items (requeue evs ?q)). fresh_enough r"
  proof
    fix r assume "r \<in> set (qu_items (requeue evs ?q))"
    then have "r \<in> set (released evs) \<or> r \<in> set (qu_items ?q)" using rq by blast
    then show "fresh_enough r" using new all by (auto simp: all_requests_def)
  qed
  have j: "\<forall>rid c r. core_of h' rid = Some (c, r) \<longrightarrow> fresh_enough r"
    using all less unfolding all_requests_core by (metis option.distinct(1))
  have "holder_of h' [] = None" using held [of "[]"] empty by auto
  then show ?thesis using rq q j w on by (simp add: mesh_ok_def all_requests_core)
qed

lemma mesh_ok_frame:
  assumes ok: "mesh_ok m" and settled: "settled h'" and frame: "same_frame (me_hub m) h'"
    and less: "\<And>k. core_of h' k = None \<or> core_of h' k = core_of (me_hub m) k"
  shows "mesh_ok (m\<lparr>me_hub := h'\<rparr>)"
proof -
  have on: "cid \<in> online h'" if "holder_of h' rid = Some cid" for rid cid
  proof -
    have "holder_of h' rid = holder_of (me_hub m) rid" using less [of rid] that by (auto simp: holder_core)
    then show ?thesis using ok that frame by (simp add: mesh_ok_def same_frame_def)
  qed
  have w: "wired h'" using ok frame by (simp add: mesh_ok_def same_frame_def)
  from mesh_ok_after [where evs = "[]", OF ok settled w on less] show ?thesis
    by (simp add: requeue_def)
qed

lemma requeue_none [simp]: "released evs = [] \<Longrightarrow> requeue evs q = q"
  by (simp add: requeue_def)

lemma message_ok:
  assumes ok: "mesh_ok m" and d: "dispatch (me_hub m) now cid data = (h', evs)"
  shows "mesh_ok (m\<lparr>me_hub := h', me_queue := requeue evs (me_queue m)\<rparr>)"
proof -
  have ix: "job_index (me_hub m)" and w: "wired (me_hub m)" and st: "settled (me_hub m)"
    using ok by (simp_all add: mesh_ok_def drain_ready_def hub_exact_def)
  have e: "message_effect (me_hub m) cid h' evs" by (rule dispatch_effect [OF ix w d])
  show ?thesis
  proof (rule mesh_ok_after [OF ok])
    show "settled h'" using dispatch_exact [OF st, of now cid data] d by simp
    show "wired h'" using e w by (simp add: message_effect_def same_frame_def)
    show less: "core_of h' k = None \<or> core_of h' k = core_of (me_hub m) k" for k
      using e by (auto simp: message_effect_def)
    show "k \<in> online h'" if "holder_of h' rid = Some k" for rid k
    proof -
      have "holder_of h' rid = holder_of (me_hub m) rid" using less [of rid] that by (auto simp: holder_core)
      then show ?thesis using ok that e by (simp add: mesh_ok_def message_effect_def same_frame_def)
    qed
    show "(\<exists>rec. mget (hb_jobs (me_hub m)) (rq_id r) = Some rec \<and> fair_release rec r) \<and>
        core_of h' (rq_id r) = None" if r: "r \<in> set (released evs)" for r
    proof -
      from e r obtain rid rec where x: "mget (hb_jobs (me_hub m)) rid = Some rec"
        "core_of h' = (core_of (me_hub m))(rid := None)" "fair_release rec r"
        by (auto simp: message_effect_def)
      with fair_release_id [OF ix x(1,3)] show ?thesis by auto
    qed
  qed
qed

lemma disconnect_ok:
  assumes ok: "mesh_ok m" and d: "disconnect (me_hub m) now cid = (h', c', evs)"
  shows "mesh_ok (m\<lparr>me_hub := h', me_queue := requeue evs (me_queue m)\<rparr>)"
proof (cases "mget (hb_clients (me_hub m)) cid")
  case None
  then have "h' = me_hub m" "evs = []" using d by (simp_all add: disconnect_def)
  then show ?thesis using ok by (simp add: requeue_def)
next
  case (Some c)
  let ?h = "me_hub m"
  have ix: "job_index ?h" and w: "wired ?h" and st: "settled ?h"
    using ok by (simp_all add: mesh_ok_def drain_ready_def hub_exact_def)
  have e: "disconnect_effect ?h cid h' evs" by (rule disconnect_effect [OF ix w Some d])
  have core: "core_of h' = (\<lambda>k. if holder_of ?h k = Some cid then None else core_of ?h k)"
    and on: "online h' = online ?h - {cid}" "wired h' = wired ?h"
    using e by (simp_all add: disconnect_effect_def)
  show ?thesis
  proof (rule mesh_ok_after [OF ok])
    show "settled h'" using disconnect_split(1) [OF st Some d] .
    show "wired h'" using on w by simp
    show "core_of h' k = None \<or> core_of h' k = core_of (me_hub m) k" for k using core by simp
    show "k \<in> online h'" if "holder_of h' rid = Some k" for rid k
    proof -
      have "holder_of h' rid = (if holder_of (me_hub m) rid = Some cid then None else holder_of (me_hub m) rid)"
        by (simp add: holder_core [of h'] holder_core [of "me_hub m", symmetric] core)
      then show ?thesis using ok on that by (auto simp: mesh_ok_def split: if_splits)
    qed
    show "(\<exists>rec. mget (hb_jobs (me_hub m)) (rq_id r) = Some rec \<and> fair_release rec r) \<and>
        core_of h' (rq_id r) = None" if "r \<in> set (released evs)" for r
      using that e core by (auto simp: disconnect_effect_def)
  qed
qed

section \<open>The invariant holds in every reachable state\<close>

lemma online_map_values:
  "online (h\<lparr>hb_clients := map (\<lambda>(k, c). (k, f c)) (hb_clients h)\<rparr>) = online h"
  by (force simp: online_def)

lemma same_frame_map_values:
  "same_frame h' (h\<lparr>hb_clients := map (\<lambda>(k, c). (k, f k c)) (hb_clients h)\<rparr>) = same_frame h' h"
proof -
  have "fst ` set (map (\<lambda>(k, c). (k, f k c)) (hb_clients h)) = fst ` set (hb_clients h)"
    by (force simp: image_iff)
  then show ?thesis unfolding same_frame_def online_def wired_def by simp
qed

lemma core_clients [simp]: "core_of (h\<lparr>hb_clients := cs\<rparr>) = core_of h"
  by (simp add: core_of_def fun_eq_iff)

lemma cancel_core:
  assumes "cancel_request h rid = (h', evs)"
  shows "same_frame h h'" and "core_of h' = (core_of h)(rid := None)"
proof -
  have "same_frame h (fst (cancel_request h rid)) \<and> core_of (fst (cancel_request h rid)) = (core_of h)(rid := None)"
    unfolding cancel_request_def cancel_untrack_def broadcast_def
    by (auto simp: same_frame_map_values core_of_def split: option.split)
  then show "same_frame h h'" and "core_of h' = (core_of h)(rid := None)" using assms by simp_all
qed

lemma drop_expired_core:
  "same_frame h (drop_expired rs h) \<and>
   core_of (drop_expired rs h) k = (if k \<in> fst ` set rs then None else core_of h k)"
proof (induction rs arbitrary: h)
  case Nil
  then show ?case by (simp add: drop_expired_def)
next
  case (Cons p rs)
  obtain rid r where p: "p = (rid, r)" by fastforce
  have "drop_expired (p # rs) h = drop_expired rs (drop_job h rid (fr_client_id r))"
    by (simp add: drop_expired_def p)
  moreover have "same_frame h (drop_job h rid (fr_client_id r))" by simp
  ultimately show ?case
    using Cons.IH [of "drop_job h rid (fr_client_id r)"] p
      same_frame_trans [of h "drop_job h rid (fr_client_id r)" "drop_expired (p # rs) h"] by auto
qed

lemma reclaim_core: "same_frame h (fold reclaim_one rs h) \<and> core_of (fold reclaim_one rs h) = core_of h"
proof (induction rs arbitrary: h)
  case Nil
  then show ?case by simp
next
  case (Cons p rs)
  have "same_frame h (reclaim_one p h)" "core_of (reclaim_one p h) = core_of h"
    by (simp_all add: reclaim_one_def Let_def)
  then show ?case using Cons.IH [of "reclaim_one p h"] same_frame_trans by auto
qed

lemma reap_core:
  assumes "handle_expired_leases h now = (h', evs)"
  shows "same_frame h h'" and "core_of h' k =
    (if k \<in> fst ` set (expired_jobs h now) then None else core_of h k)"
proof -
  have "h' = fold reclaim_one (expired_jobs h now) (drop_expired (expired_jobs h now) h)"
    using assms by (auto simp: handle_expired_leases_def Let_def split: if_splits)
  then show "same_frame h h'" and "core_of h' k =
      (if k \<in> fst ` set (expired_jobs h now) then None else core_of h k)"
    using drop_expired_core [of h "expired_jobs h now" k]
      reclaim_core [of "drop_expired (expired_jobs h now) h" "expired_jobs h now"] same_frame_trans
    by auto
qed

lemma write_loop_exact:
  assumes "settled h" and "write_loop_step h cid ok = (msg, h')"
  shows "settled h'" and "same_frame h h'" and "core_of h' = core_of h"
proof -
  have "h' = h \<or> (\<exists>f. h' = upd_client h cid f \<and> (\<forall>c. cl_id (f c) = cl_id c) \<and>
      (\<forall>c. cl_in_flight (f c) = cl_in_flight c))"
    using assms(2)
    by (auto simp: write_loop_step_def client_close_def split: option.splits list.splits if_splits)
  then show "settled h'" and "same_frame h h'" and "core_of h' = core_of h"
    using assms(1) hub_exact_upd by auto
qed

lemma dispatched_online:
  assumes ready: "drain_ready q h" and run: "drain_queue env q h aff = Some st"
  shows "(cid, r) \<in> set (ds_dispatched st) \<Longrightarrow> cid \<in> online h"
proof -
  let ?cs = "available_client_list h"
  let ?keep = "\<lambda>st. fst ` set (ds_dispatched st) \<subseteq> cs_id ` set ?cs"
  have ex: "slots_exact (\<lambda>_. 0) h" using ready by (simp add: drain_ready_def hub_exact_def)
  have "?keep (drain_start env q h aff)" by (simp add: drain_start_def)
  then have "?keep st"
  proof (rule drain_queue_rule [where keep = ?keep, OF ready run])
    fix st b st'
    assume base: "drain_base q h st" and keep: "?keep st" and step: "drain_step env ?cs st = (b, st')"
    have wf: "queue_wf (ds_queue st)" using base by (simp add: drain_base_def)
    show "?keep st'"
      using wf step
    proof (cases rule: drain_step_cases)
      case stop
      then show ?thesis using keep by simp
    next
      case (attempt best c q')
      have "ds_dispatched st' = ds_dispatched st \<or>
          (\<exists>x. ds_dispatched st' = ds_dispatched st @ [(cs_id c, x)])"
        using attempt(5) attempt(3)
        by (cases rule: dispatch_best_cases) (auto simp: account_dispatch_def Let_def)
      then show ?thesis using keep imageI [OF attempt(1), of cs_id]
        by (elim disjE exE) simp_all
    qed
  qed
  then show "cid \<in> online h" if "(cid, r) \<in> set (ds_dispatched st)"
  proof -
    from that \<open>?keep st\<close> obtain s where s: "s \<in> set ?cs" "cs_id s = cid" by force
    from available_client_ids [OF ex s(1)] s(2) obtain c where "mget (hb_clients h) cid = Some c" by blast
    then show ?thesis by (auto simp: online_def dest: mget_SomeD intro: rev_image_eqI)
  qed
qed

lemma drain_ok:
  assumes ok: "mesh_ok m" and run: "drain_queue env (me_queue m) (me_hub m) (me_aff m) = Some st"
  shows "mesh_ok \<lparr>me_queue = ds_queue st, me_hub = ds_hub st, me_aff = ds_prefix_aff st\<rparr>"
proof -
  let ?q = "me_queue m" and ?h = "me_hub m"
  have ready: "drain_ready ?q ?h" and all: "all_requests fresh_enough ?q ?h"
    using ok by (simp_all add: mesh_ok_def)
  note a = all_requests_drain [OF ready run fresh_enough_rewrite all]
  have base: "drain_base ?q ?h st"
    using drain_queue_base [of ?q ?h env "me_aff m" st] ready run by (simp add: drain_ready_def)
  have b: "[] \<notin> queue_ids ?q" "queue_wf (ds_queue st)" "settled (ds_hub st)"
    "set (dispatch_ids st) \<union> queue_ids (ds_queue st) = queue_ids ?q"
    "holder_of (ds_hub st) = holder_of ?h ++ map_of (map (\<lambda>(cid, r). (rq_id r, cid)) (ds_dispatched st))"
    using base by (simp_all add: drain_base_def)
  have ne: "[] \<notin> set (dispatch_ids st)" "[] \<notin> queue_ids (ds_queue st)" using b(1,4) by blast+
  have "\<forall>rid \<in> queue_ids (ds_queue st). holder_of (ds_hub st) rid = None"
    by (intro ballI) (rule conjunct2 [OF drain_base_waiting [OF base]])
  then have "drain_ready (ds_queue st) (ds_hub st)" using b ne by (simp add: drain_ready_def)
  moreover have "holder_of (ds_hub st) [] = None"
  proof -
    have "map_of (map (\<lambda>(cid, r). (rq_id r, cid)) (ds_dispatched st)) [] = None"
      using ne(1) unfolding mget_None_iff dispatch_ids_keys .
    then show ?thesis using b(5) ok by (simp add: mesh_ok_def map_add_def)
  qed
  moreover have "cid \<in> online (ds_hub st)" if held: "holder_of (ds_hub st) rid = Some cid" for rid cid
  proof (cases "map_of (map (\<lambda>(cid, r). (rq_id r, cid)) (ds_dispatched st)) rid")
    case None
    then have "holder_of ?h rid = Some cid" using held b(5) by (simp add: map_add_def)
    then show ?thesis using ok a(2) by (simp add: mesh_ok_def same_frame_def)
  next
    case (Some k)
    then have "k = cid" using held b(5) by (simp add: map_add_def)
    with mget_SomeD [OF Some] obtain r where "(cid, r) \<in> set (ds_dispatched st)" by auto
    then have "cid \<in> online ?h" using dispatched_online [OF ready run] by blast
    then show ?thesis using a(2) by (simp add: same_frame_def)
  qed
  ultimately show ?thesis using a ok by (simp add: mesh_ok_def same_frame_def)
qed

lemma reap_ok:
  assumes ok: "mesh_ok m" and run: "handle_expired_leases (me_hub m) now = (h', evs)"
  shows "mesh_ok (m\<lparr>me_hub := h'\<rparr>)"
proof (rule mesh_ok_frame [OF ok])
  have "settled (me_hub m)" using ok by (simp add: mesh_ok_def drain_ready_def)
  then show "settled h'" using handle_expired_leases_exact run by (metis fst_conv)
  show "same_frame (me_hub m) h'" by (rule reap_core(1) [OF run])
  show "core_of h' k = None \<or> core_of h' k = core_of (me_hub m) k" for k
    using reap_core(2) [OF run, of k] by simp
qed

lemma connect_ok:
  assumes ok: "mesh_ok m" and new: "cid \<notin> online (me_hub m)"
  shows "mesh_ok (m\<lparr>me_hub := connect (me_hub m) cid name own token slots\<rparr>)"
proof -
  let ?h = "me_hub m"
  let ?h' = "connect ?h cid name own token slots"
  have "holder_of ?h rid \<noteq> Some cid" for rid using ok new by (auto simp: mesh_ok_def)
  moreover have "settled ?h" using ok by (simp add: mesh_ok_def drain_ready_def)
  ultimately have "settled ?h'" by (intro connect_exact) simp_all
  moreover have "wired ?h' = wired ?h" "online ?h' = insert cid (online ?h)" "core_of ?h' = core_of ?h"
    by (simp_all add: connect_def wired_def online_def core_of_def fun_eq_iff)
  ultimately show ?thesis using ok
    by (simp add: mesh_ok_def drain_ready_def all_requests_core)
qed

lemma drain_ready_idle: "drain_ready q h \<Longrightarrow> k \<in> queue_ids q \<Longrightarrow> holder_of h k = None"
  unfolding drain_ready_def by (elim conjE) (rule bspec)

lemma pop_ready:
  assumes ready: "drain_ready q h" and pop: "pop_by_id q rid = Some (r, q')"
  shows "drain_ready q' h" and "set (qu_items q') \<subseteq> set (qu_items q)"
proof -
  have wf: "queue_wf q" using ready by (simp add: drain_ready_def)
  note items = pop_by_id_items [OF wf pop]
  show sub: "set (qu_items q') \<subseteq> set (qu_items q)" using items by auto
  then have ids: "queue_ids q' \<subseteq> queue_ids q" by (rule image_mono)
  have "holder_of h k = None" if "k \<in> queue_ids q'" for k
    by (rule drain_ready_idle [OF ready subsetD [OF ids that]])
  then have "\<forall>k \<in> queue_ids q'. holder_of h k = None" by (rule ballI)
  moreover have "[] \<notin> queue_ids q'" using ready ids by (metis drain_ready_def subsetD)
  ultimately show "drain_ready q' h"
    using ready pop_by_id_Some(4) [OF wf pop] by (simp add: drain_ready_def)
qed

lemma mesh_step_ok:
  assumes "mesh_step m l m'" and ok: "mesh_ok m"
  shows "mesh_ok m'"
  using assms(1)
proof cases
  case (on_submit r b q)
  have ready: "drain_ready (me_queue m) (me_hub m)" using ok by (simp add: mesh_ok_def)
  have "fresh_enough r" using on_submit by (simp add: fresh_enough_def max_attempts_def)
  moreover note requeue_push [OF ready on_submit(3,5)]
  moreover have "q = me_queue m \<or> q = push (me_queue m) r"
    using on_submit by (auto simp: try_push_def push_def split: if_splits)
  ultimately show ?thesis using ok on_submit by (auto simp: mesh_ok_def all_requests_def)
next
  case (on_cancel_queued rid)
  have ready: "drain_ready (me_queue m) (me_hub m)" using ok by (simp add: mesh_ok_def)
  show ?thesis
  proof (cases "pop_by_id (me_queue m) rid")
    case None
    then show ?thesis using ok on_cancel_queued by simp
  next
    case (Some p)
    then show ?thesis using pop_ready [OF ready, of rid "fst p" "snd p"] ok on_cancel_queued
      by (cases p) (auto simp: mesh_ok_def all_requests_def)
  qed
next
  case (on_cancel_running rid h evs)
  have "settled (me_hub m)" using ok by (simp add: mesh_ok_def drain_ready_def)
  then have "settled h" using cancel_request_exact on_cancel_running by (metis fst_conv)
  then show ?thesis using mesh_ok_frame [OF ok] cancel_core on_cancel_running by simp
next
  case (on_write cid b msg h)
  have "settled (me_hub m)" using ok by (simp add: mesh_ok_def drain_ready_def)
  note w = write_loop_exact [OF this on_write(3)]
  show ?thesis unfolding on_write(2) by (rule mesh_ok_frame [OF ok w(1,2)]) (simp add: w(3))
next
  case (on_closing cid)
  have s: "settled (me_hub m)" using ok by (simp add: mesh_ok_def drain_ready_def)
  show ?thesis unfolding on_closing(2)
    by (rule mesh_ok_frame [OF ok hub_exact_upd [OF s]]) (simp_all add: close_send_def)
next
  case (on_close_token token)
  have s: "settled (me_hub m)" using ok by (simp add: mesh_ok_def drain_ready_def)
  show ?thesis unfolding on_close_token(2)
    by (rule mesh_ok_frame [OF ok close_by_token_exact [OF s]])
      (simp_all add: close_by_token_def same_frame_map_values)
next
  case (on_owner_slots token model n)
  have s: "settled (me_hub m)" using ok by (simp add: mesh_ok_def drain_ready_def)
  show ?thesis unfolding on_owner_slots(2)
    by (rule mesh_ok_frame [OF ok set_client_owner_slots_exact [OF s]])
      (simp_all add: set_client_owner_slots_def same_frame_map_values)
next
  case (on_drain env st)
  then show ?thesis using drain_ok [OF ok] by simp
next
  case (on_message now cid data h evs)
  then show ?thesis using message_ok [OF ok] by simp
next
  case (on_connect cid name own token slots)
  then show ?thesis using connect_ok [OF ok] by simp
next
  case (on_disconnect now cid h c evs)
  then show ?thesis using disconnect_ok [OF ok] by simp
next
  case (on_reap now h evs)
  then show ?thesis using reap_ok [OF ok] by simp
qed

lemma mesh_start_ok: "mesh_ok (mesh_start max_depth lease)"
  by (simp add: mesh_ok_def mesh_start_def drain_ready_def queue_wf_def queue_new_def hub_new_def
      wired_def holder_of_def all_requests_def hub_exact_def job_index_def slots_exact_def)

lemma mesh_reach_ok: "mesh_reach m ls m' \<Longrightarrow> mesh_ok m \<Longrightarrow> mesh_ok m'"
  by (induction rule: mesh_reach.induct) (auto intro: mesh_step_ok)

section \<open>No request appears or disappears unnoticed\<close>

definition present :: "mesh \<Rightarrow> string \<Rightarrow> bool" where
  "present m rid \<longleftrightarrow> rid \<in> queue_ids (me_queue m) \<or> holder_of (me_hub m) rid \<noteq> None"

text \<open>
  What can end a request: the hub tells the caller so (a final chunk or an error), someone
  cancels it, or its lease has passed.
\<close>

fun ended :: "mesh \<Rightarrow> mesh_label \<Rightarrow> string \<Rightarrow> bool" where
  "ended m (L_Message cid evs) rid = (rid \<in> set (finished evs))"
| "ended m (L_Disconnect cid evs) rid = (rid \<in> set (finished evs))"
| "ended m (L_Cancel_Queued rid') rid = (rid = rid')"
| "ended m (L_Cancel_Running rid') rid = (rid = rid')"
| "ended m (L_Reap now) rid =
     (\<exists>fr. mget (hb_jobs (me_hub m)) rid = Some fr \<and>
        lease_deadline (hb_lease_duration (me_hub m)) fr < now)"
| "ended m _ rid = False"

fun begun :: "mesh_label \<Rightarrow> string \<Rightarrow> bool" where
  "begun (L_Submit r True) rid = (rq_id r = rid)"
| "begun _ rid = False"

text \<open>\<open>tracks m l m' rid\<close>: if the request was there it still is or it ended; if it is there now
  it was before or it was submitted.\<close>

definition tracks :: "mesh \<Rightarrow> mesh_label \<Rightarrow> mesh \<Rightarrow> string \<Rightarrow> bool" where
  "tracks m l m' rid \<longleftrightarrow> (present m rid \<longrightarrow> present m' rid \<or> ended m l rid) \<and>
     (present m' rid \<longrightarrow> present m rid \<or> begun l rid)"

lemma held_core: "holder_of h rid \<noteq> None \<longleftrightarrow> core_of h rid \<noteq> None"
  by (simp add: holder_core)

lemma tracks_same:
  assumes "me_queue m' = me_queue m" and "core_of (me_hub m') = core_of (me_hub m)"
  shows "tracks m l m' rid"
  using assms by (simp add: tracks_def present_def holder_core)

lemma requeue_ids:
  assumes ok: "mesh_ok m'" and q: "me_queue m' = requeue evs q" and ready: "drain_ready q (me_hub m')"
    and rel: "\<And>r. r \<in> set (released evs) \<Longrightarrow> rq_id r \<noteq> [] \<and> holder_of (me_hub m') (rq_id r) = None"
  shows "queue_ids (me_queue m') = rq_id ` set (released evs) \<union> queue_ids q"
  using requeue_ready [OF ready, of evs, OF rel] q by simp

lemma tracks_message:
  assumes ok: "mesh_ok m" and d: "dispatch (me_hub m) now cid data = (h', evs)"
  shows "tracks m (L_Message cid evs) (m\<lparr>me_hub := h', me_queue := requeue evs (me_queue m)\<rparr>) rid"
proof -
  let ?h = "me_hub m" and ?q = "me_queue m"
  have ix: "job_index ?h" and w: "wired ?h" and ready: "drain_ready ?q ?h" and empty: "holder_of ?h [] = None"
    using ok by (simp_all add: mesh_ok_def drain_ready_def hub_exact_def)
  from dispatch_effect [OF ix w d] consider
      (quiet) "core_of h' = core_of ?h" "released evs = []"
    | (over) k rec where "mget (hb_jobs ?h) k = Some rec" "core_of h' = (core_of ?h)(k := None)"
        "released evs = []" "finished evs = [k]"
    | (again) k rec r where "mget (hb_jobs ?h) k = Some rec" "core_of h' = (core_of ?h)(k := None)"
        "released evs = [r]" "fair_release rec r"
    by (auto simp: message_effect_def)
  then show ?thesis
  proof cases
    case quiet
    then show ?thesis by (intro tracks_same) simp_all
  next
    case over
    then show ?thesis unfolding tracks_def present_def held_core by auto
  next
    case again
    have id: "rq_id r = k" by (rule fair_release_id [OF ix again(1,4)])
    have k: "core_of ?h k \<noteq> None" using again(1) by (simp add: core_of_def)
    then have ne: "k \<noteq> []" using empty by (auto simp: holder_core)
    have settled: "settled h'"
      using dispatch_exact [of "\<lambda>_. 0" ?h now cid data] d ready by (simp add: drain_ready_def)
    have sub: "holder_of h' x = None" if "x \<in> queue_ids ?q" for x
      using drain_ready_idle [OF ready that] again(2) by (simp add: holder_core)
    have "drain_ready ?q h'"
      using ready settled sub unfolding drain_ready_def by metis
    moreover have "holder_of h' (rq_id r) = None" using again(2) id by (simp add: holder_core)
    ultimately have "queue_ids (push ?q r) = insert k (queue_ids ?q)"
      using requeue_push(3) [of ?q h' r] id ne by simp
    then have "queue_ids (requeue evs ?q) = insert k (queue_ids ?q)"
      by (simp add: requeue_def again(3))
    then show ?thesis using again(2) k unfolding tracks_def present_def held_core by auto
  qed
qed

lemma tracks_disconnect:
  assumes ok: "mesh_ok m" and d: "disconnect (me_hub m) now cid = (h', c', evs)"
  shows "tracks m (L_Disconnect cid evs) (m\<lparr>me_hub := h', me_queue := requeue evs (me_queue m)\<rparr>) rid"
proof (cases "mget (hb_clients (me_hub m)) cid")
  case None
  then have "h' = me_hub m" "evs = []" using d by (simp_all add: disconnect_def)
  then show ?thesis by (intro tracks_same) (simp_all add: requeue_def)
next
  case (Some c)
  let ?h = "me_hub m" and ?q = "me_queue m"
  have ix: "job_index ?h" and w: "wired ?h" and ready: "drain_ready ?q ?h" and st: "settled ?h"
    and empty: "holder_of ?h [] = None"
    using ok by (simp_all add: mesh_ok_def drain_ready_def hub_exact_def)
  have e: "disconnect_effect ?h cid h' evs" by (rule disconnect_effect [OF ix w Some d])
  have core: "core_of h' = (\<lambda>k. if holder_of ?h k = Some cid then None else core_of ?h k)"
    and ids: "\<And>k. holder_of ?h k = Some cid \<longleftrightarrow> k \<in> rq_id ` set (released evs) \<union> set (finished evs)"
    using e by (auto simp: disconnect_effect_def)
  have settled: "settled h'" using disconnect_split(1) [OF st Some d] .
  have sub: "holder_of h' x = None" if "x \<in> queue_ids ?q" for x
    using drain_ready_idle [OF ready that] core by (simp add: holder_core)
  have ready': "drain_ready ?q h'" using ready settled sub unfolding drain_ready_def by metis
  have rel: "rq_id r \<noteq> [] \<and> holder_of h' (rq_id r) = None" if "r \<in> set (released evs)" for r
  proof -
    have held: "holder_of ?h (rq_id r) = Some cid" using ids that by blast
    then have "rq_id r \<noteq> []" using empty by auto
    then show ?thesis using held core by (simp add: holder_core [of h'])
  qed
  from requeue_ready [OF ready', of evs, OF rel]
  have q: "queue_ids (requeue evs ?q) = rq_id ` set (released evs) \<union> queue_ids ?q" by blast
  have held': "holder_of h' rid = (if holder_of ?h rid = Some cid then None else holder_of ?h rid)"
    by (simp add: holder_core [of h'] holder_core [of ?h, symmetric] core)
  show ?thesis
  proof (cases "holder_of ?h rid = Some cid")
    case True
    then have "rid \<in> rq_id ` set (released evs) \<or> rid \<in> set (finished evs)" using ids by blast
    then show ?thesis using True q by (auto simp: tracks_def present_def)
  next
    case False
    then have "rid \<notin> rq_id ` set (released evs)" using ids by blast
    then have "rid \<in> queue_ids (requeue evs ?q) \<longleftrightarrow> rid \<in> queue_ids ?q" unfolding q by blast
    then show ?thesis using False held' unfolding tracks_def present_def by simp
  qed
qed

lemma tracks_drain:
  assumes ok: "mesh_ok m" and run: "drain_queue env (me_queue m) (me_hub m) (me_aff m) = Some st"
  shows "tracks m (L_Drain ds) \<lparr>me_queue = ds_queue st, me_hub = ds_hub st, me_aff = ds_prefix_aff st\<rparr> rid"
proof -
  have "drain_base (me_queue m) (me_hub m) st"
    using drain_queue_base [of "me_queue m" "me_hub m" env "me_aff m" st] ok run
    by (simp add: drain_ready_def mesh_ok_def)
  then have ids: "set (dispatch_ids st) \<union> queue_ids (ds_queue st) = queue_ids (me_queue m)"
    and holder: "holder_of (ds_hub st) = holder_of (me_hub m) ++
      map_of (map (\<lambda>(cid, r). (rq_id r, cid)) (ds_dispatched st))"
    by (simp_all add: drain_base_def)
  have "holder_of (ds_hub st) rid \<noteq> None \<longleftrightarrow> holder_of (me_hub m) rid \<noteq> None \<or> rid \<in> set (dispatch_ids st)"
    using mget_None_iff [of "map (\<lambda>(cid, r). (rq_id r, cid)) (ds_dispatched st)" rid]
    unfolding dispatch_ids_keys holder by (auto simp: map_add_None)
  then show ?thesis unfolding tracks_def present_def using ids by auto
qed

lemma mesh_step_tracks:
  assumes "mesh_step m l m'" and ok: "mesh_ok m"
  shows "tracks m l m' rid"
  using assms(1)
proof cases
  case (on_submit r b q)
  have ready: "drain_ready (me_queue m) (me_hub m)" using ok by (simp add: mesh_ok_def)
  have "(b \<and> q = push (me_queue m) r) \<or> (\<not> b \<and> q = me_queue m)"
    using on_submit by (auto simp: try_push_def push_def split: if_splits)
  then show ?thesis
  proof
    assume "b \<and> q = push (me_queue m) r"
    with requeue_push(3) [OF ready on_submit(3,5)]
    have "b" "queue_ids q = insert (rq_id r) (queue_ids (me_queue m))" by simp_all
    then show ?thesis using on_submit(1,2) unfolding tracks_def present_def by auto
  qed (use on_submit in \<open>simp add: tracks_def\<close>)
next
  case (on_cancel_queued k)
  have wf: "queue_wf (me_queue m)" using ok by (simp add: mesh_ok_def drain_ready_def)
  show ?thesis
  proof (cases "pop_by_id (me_queue m) k")
    case None
    then show ?thesis using on_cancel_queued by (intro tracks_same) simp_all
  next
    case (Some p)
    obtain r q where p: "p = (r, q)" by fastforce
    have "set (qu_items q) = {x \<in> set (qu_items (me_queue m)). rq_id x \<noteq> k}"
      using pop_by_id_items [OF wf] Some p by simp
    then have "queue_ids q = queue_ids (me_queue m) - {k}" by auto
    moreover have "me_queue m' = q" "me_hub m' = me_hub m" using on_cancel_queued Some p by simp_all
    ultimately show ?thesis unfolding tracks_def present_def on_cancel_queued(1) by auto
  qed
next
  case (on_cancel_running k h evs)
  then have "core_of h = (core_of (me_hub m))(k := None)" using cancel_core by blast
  then show ?thesis using on_cancel_running(1,2) unfolding tracks_def present_def held_core by auto
next
  case (on_reap now h evs)
  note c = reap_core(2) [OF on_reap(3), of rid]
  have ix: "job_index (me_hub m)" using ok by (simp add: mesh_ok_def drain_ready_def hub_exact_def)
  have "ended m l rid" if "rid \<in> fst ` set (expired_jobs (me_hub m) now)"
    using that expired_jobs_in [OF ix] on_reap(1) by fastforce
  then show ?thesis using c on_reap(2) unfolding tracks_def present_def held_core by auto
next
  case (on_write cid b msg h)
  have "settled (me_hub m)" using ok by (simp add: mesh_ok_def drain_ready_def)
  from write_loop_exact(3) [OF this on_write(3)] on_write show ?thesis by (intro tracks_same) simp_all
next
  case (on_drain env st)
  then show ?thesis using tracks_drain [OF ok] by simp
next
  case (on_message now cid data h evs)
  then show ?thesis using tracks_message [OF ok] by simp
next
  case (on_connect cid name own token slots)
  then show ?thesis by (intro tracks_same) (simp_all add: connect_def core_of_def fun_eq_iff)
next
  case (on_disconnect now cid h c evs)
  then show ?thesis using tracks_disconnect [OF ok] by simp
next
  case (on_closing cid)
  then show ?thesis by (intro tracks_same) simp_all
next
  case (on_close_token token)
  then show ?thesis by (intro tracks_same) (simp_all add: close_by_token_def)
next
  case (on_owner_slots token model n)
  then show ?thesis by (intro tracks_same) (simp_all add: set_client_owner_slots_def)
qed

end
