(* ===== verification/Mesh_Findings.thy ===== *)
theory Mesh_Findings
  imports Sample_Mesh Mesh
begin

text \<open>
  Two runs the code allows and its comments do not: a worker writes into the stream of a job
  another worker holds, and a cancelled request stays in the queue.
\<close>

text \<open>
  A worker can write into another worker's stream: a chunk with text for a job that a
  different client holds is forwarded to that job's caller, and counted as the job's output, even
  though the hub leaves the job with its holder and does not stamp the chunk with a model.
\<close>

theorem foreign_chunk_is_forwarded:
  assumes "wired h" and "mget (hb_jobs h) (im_request_id im) = Some r" and "fr_client_id r \<noteq> cid"
    and "im_type im = ''chunk''" and "im_delta im \<noteq> []" and "fr_live r = Some l"
    and "dispatch h now cid (Some im) = (h', evs)"
  shows "Ev_Chunk (chunk_of im) \<in> set evs \<and>
    map_option delta_count (mget (hb_jobs h') (im_request_id im)) = Some (lv_delta_count l + 1)"
proof -
  have req: "ck_request_id (chunk_of im) = im_request_id im" "ck_delta (chunk_of im) = im_delta im"
    by (simp_all add: chunk_of_def)
  obtain h1 evs1 where live: "chunk_live h now cid (chunk_of im) = (chunk_of im, h1, evs1)"
    and h1: "h1 = upd_live h (im_request_id im) (count_delta now)"
    using assms(2,3,5) req by (simp add: chunk_live_def Let_def)
  have job: "mget (hb_jobs h1) (im_request_id im) = Some (r\<lparr>fr_live := Some (count_delta now l)\<rparr>)"
    using h1 assms(2,6) by (simp add: gomap_simps)
  then have un: "untrack_job_rec h1 now (im_request_id im) cid = (None, h1, [])"
    using assms(3) by (simp add: untrack_job_rec_def)
  have "h' = h1" and "Ev_Chunk (chunk_of im) \<in> set evs"
    using assms(1,4,7) live un req by (auto simp: dispatch_def dispatch_chunk_def wired_def split: if_splits)
  then show ?thesis using job by (simp add: delta_count_def count_delta_def)
qed

section \<open>A cancel that misses\<close>

definition race_env :: drain_env where
  "race_env = sample_env"

definition race_start :: mesh where
  "race_start = mesh_start 0 100"

definition race_joined :: mesh where
  "race_joined = race_start\<lparr>me_hub := fst (dispatch
     (connect (me_hub race_start) ''w1'' ''w1'' ''alice'' ''w1'' []) 0 ''w1'' (Some (register_of ''llama'' 2)))\<rparr>"

definition race_queued :: mesh where
  "race_queued = race_joined\<lparr>me_queue := push (me_queue race_joined) (request ''r1'' ''llama'' ''carol'' 1)\<rparr>"

definition race_drained :: drain_state where
  "race_drained = the (drain_queue race_env (me_queue race_queued) (me_hub race_queued) (me_aff race_queued))"

definition race_running :: mesh where
  "race_running = \<lparr>me_queue = ds_queue race_drained, me_hub = ds_hub race_drained,
     me_aff = ds_prefix_aff race_drained\<rparr>"

definition race_failed :: mesh where
  "race_failed = (case dispatch (me_hub race_running) 20 ''w1''
       (Some (blank_inbound\<lparr>im_type := ''error'', im_request_id := ''r1''\<rparr>)) of
     (h, evs) \<Rightarrow> race_running\<lparr>me_hub := h, me_queue := requeue evs (me_queue race_running)\<rparr>)"

definition race_cancelled :: mesh where
  "race_cancelled = race_failed\<lparr>me_hub := fst (cancel_request (me_hub race_failed) ''r1'')\<rparr>"

lemma race_joins: "mesh_reach race_start [L_Connect ''w1'', L_Message ''w1'' [Ev_Available]] race_joined"
proof -
  let ?h = "connect (me_hub race_start) ''w1'' ''w1'' ''alice'' ''w1'' []"
  let ?m = "race_start\<lparr>me_hub := ?h\<rparr>"
  let ?d = "dispatch (me_hub ?m) 0 ''w1'' (Some (register_of ''llama'' 2))"
  have "''w1'' \<notin> online (me_hub race_start)"
    by (simp add: online_def race_start_def mesh_start_def hub_new_def)
  from mesh_step.on_connect [OF this] have s1: "mesh_step race_start (L_Connect ''w1'') ?m" .
  have "?d = (fst ?d, [Ev_Available])"
    by (simp add: dispatch_def register_of_def dispatch_register_def Let_def ev_available_def
        race_start_def mesh_start_def hub_new_def connect_def)
  from mesh_step.on_message [OF this]
  have s2: "mesh_step ?m (L_Message ''w1'' [Ev_Available]) race_joined"
    by (simp add: race_joined_def requeue_def)
  from mesh_reach.reach_step [OF mesh_reach.reach_step [OF mesh_reach.reach_start s1] s2]
  show ?thesis by simp
qed

lemma race_state:
  "pop_by_id (me_queue race_running) ''r1'' = None"
  "''r1'' \<in> set (map rq_id (qu_items (me_queue race_cancelled)))"
  "rq_id (request ''r1'' ''llama'' ''carol'' 1) \<notin> set (map rq_id (qu_items (me_queue race_joined)))"
  "mget (hb_jobs (me_hub race_joined)) (rq_id (request ''r1'' ''llama'' ''carol'' 1)) = None"
  by code_simp+

lemma race_runs:
  "\<exists>ds. mesh_step race_joined (L_Submit (request ''r1'' ''llama'' ''carol'' 1) True) race_queued \<and>
     mesh_step race_queued (L_Drain ds) race_running"
proof -
  let ?r = "request ''r1'' ''llama'' ''carol'' 1"
  have depth: "qu_max_depth (me_queue race_joined) = 0"
    by (simp add: race_joined_def race_start_def mesh_start_def)
  have sub: "mesh_step race_joined (L_Submit ?r True) (race_joined\<lparr>me_queue := push (me_queue race_joined) ?r\<rparr>)"
  proof (rule mesh_step.on_submit)
    show "rq_id ?r \<noteq> []" "rq_attempts ?r = 0" by (simp_all add: request_def blank_request_def)
    show "rq_id ?r \<notin> queue_ids (me_queue race_joined)" using race_state(3) by simp
    show "holder_of (me_hub race_joined) (rq_id ?r) = None" using race_state(4) by (simp add: holder_of_def)
    show "try_push (me_queue race_joined) ?r = (True, push (me_queue race_joined) ?r)"
      by (simp add: try_push_def push_def depth)
  qed
  have "queue_wf (me_queue race_joined)"
    by (simp add: race_joined_def race_start_def mesh_start_def queue_wf_def queue_new_def)
  then have "index_ok (me_queue race_queued)"
    by (simp add: race_queued_def push_index_ok queue_wf_index_ok)
  from drain_returns [OF this] have "drain_queue race_env (me_queue race_queued) (me_hub race_queued)
      (me_aff race_queued) = Some race_drained"
    unfolding race_drained_def by (metis option.sel)
  from mesh_step.on_drain [OF this] sub show ?thesis
    unfolding race_running_def race_queued_def by blast
qed

lemma race_reaches:
  "\<exists>ls ds. mesh_reach (mesh_start 0 100) ls race_queued \<and> mesh_step race_queued (L_Drain ds) race_running"
  using race_runs mesh_reach.reach_step [OF race_joins] by (auto simp: race_start_def)

text \<open>
  Cancelling can miss: the handler first takes the request out of the queue and then cancels it
  at the hub, and a worker's error between the two moves it from the hub back into the queue, so
  that after both halves it still waits for a worker although its caller is gone.
\<close>

theorem cancel_can_miss:
  "\<exists>pre evs m. mesh_reach (mesh_start 0 100)
     (pre @ [L_Cancel_Queued ''r1'', L_Message ''w1'' evs, L_Cancel_Running ''r1'']) m \<and>
     ''r1'' \<in> queue_ids (me_queue m)"
proof -
  from race_runs obtain ds where
    run: "mesh_step race_joined (L_Submit (request ''r1'' ''llama'' ''carol'' 1) True) race_queued"
      "mesh_step race_queued (L_Drain ds) race_running" by blast
  note r2 = mesh_reach.reach_step [OF mesh_reach.reach_step [OF race_joins run(1)] run(2)]
  have c: "mesh_step race_running (L_Cancel_Queued ''r1'') race_running"
    using mesh_step.on_cancel_queued [of race_running "''r1''"] race_state(1) by simp
  obtain h evs where d: "dispatch (me_hub race_running) 20 ''w1''
      (Some (blank_inbound\<lparr>im_type := ''error'', im_request_id := ''r1''\<rparr>)) = (h, evs)" by fastforce
  from mesh_step.on_message [OF d] have e: "mesh_step race_running (L_Message ''w1'' evs) race_failed"
    by (simp add: race_failed_def d)
  obtain h2 evs2 where x: "cancel_request (me_hub race_failed) ''r1'' = (h2, evs2)" by fastforce
  from mesh_step.on_cancel_running [OF x] have f: "mesh_step race_failed (L_Cancel_Running ''r1'') race_cancelled"
    by (simp add: race_cancelled_def x)
  from mesh_reach.reach_step [OF mesh_reach.reach_step [OF mesh_reach.reach_step [OF r2 c] e] f]
  have "\<exists>pre. mesh_reach race_start (pre @ [L_Cancel_Queued ''r1'', L_Message ''w1'' evs, L_Cancel_Running ''r1'']) race_cancelled"
    by (metis append.assoc append_Cons append_Nil)
  then show ?thesis using race_state(2) by (auto simp: race_start_def)
qed

end
