(* ===== verification/Witnesses.thy ===== *)
theory Witnesses
  imports Queue_Properties Hub_Properties Scheduler_Order Mesh_Findings
begin

text \<open>
  Each property of the queue, the hub and the scheduler that has hypotheses, applied at a
  concrete state of the sample mesh where they hold.
\<close>

section \<open>Queue\<close>

definition sample_ops :: "queue_op list" where
  "sample_ops = [Op_Push (request ''r1'' ''llama'' ''carol'' 1), Op_Try_Push (request ''r2'' ''llama'' ''alice'' 2),
     Op_Push (request ''r1'' ''qwen'' ''carol'' 3), Op_Pop ''r1'', Op_Pop ''r9'']"

theorem queue_refines_map_witness:
  "snd (run_steps queue_step queue_new sample_ops) = snd (run_steps spec_step (queue_abs queue_new) sample_ops) \<and>
   snd (run_steps queue_step queue_new sample_ops) = [Res_Unit, Res_Accepted True, Res_Unit,
     Res_Popped (Some (request ''r1'' ''qwen'' ''carol'' 3)), Res_Popped None]"
proof -
  have "list_all op_has_id sample_ops" by code_simp
  from queue_refines_map [OF queue_wf_new this]
  have "snd (run_steps queue_step queue_new sample_ops) = snd (run_steps spec_step (queue_abs queue_new) sample_ops)"
    by blast
  moreover have "snd (run_steps queue_step queue_new sample_ops) = [Res_Unit, Res_Accepted True, Res_Unit,
     Res_Popped (Some (request ''r1'' ''qwen'' ''carol'' 3)), Res_Popped None]"
    by (simp add: sample_ops_def push_def push_locked_def push_append_def try_push_def queue_new_def
        pop_by_id_def remove_at_def Let_def)
  ultimately show ?thesis by blast
qed

theorem peek_returns_first_witness:
  "peek_best_for_client sample_queue [(''llama'', True)] [] ''carol'' None
     = Some (request ''r3'' ''llama'' ''carol'' 3) \<and>
   \<not> better_for_client (request ''r2'' ''llama'' ''alice'' 2) (request ''r3'' ''llama'' ''carol'' 3) ''carol''"
proof -
  have p: "peek_best_for_client sample_queue [(''llama'', True)] [] ''carol'' None
     = Some (request ''r3'' ''llama'' ''carol'' 3)" by code_simp
  have "request ''r2'' ''llama'' ''alice'' 2 \<in> set (qu_items sample_queue)" by code_simp
  moreover have "offered [(''llama'', True)] [] None (request ''r2'' ''llama'' ''alice'' 2)" by code_simp
  ultimately show ?thesis
    using peek_returns_first [where q = sample_queue and models = "[(''llama'', True)]" and aliases = "[]"
        and p = "''carol''" and eligible = None] p
    by (auto simp: list_all_iff)
qed

theorem peek_then_pop_witness:
  "\<exists>q'. pop_by_id sample_queue ''r3'' = Some (request ''r3'' ''llama'' ''carol'' 3, q') \<and> queue_wf q'"
proof -
  have "peek_best_for_client sample_queue [(''llama'', True)] [] ''carol'' None
     = Some (request ''r3'' ''llama'' ''carol'' 3)" by code_simp
  from peek_then_pop [OF sample_queue_wf this] show ?thesis by auto
qed

section \<open>Hub\<close>

definition done_chunk :: inbound_msg where
  "done_chunk = blank_inbound\<lparr>im_type := ''chunk'', im_request_id := ''r2'', im_done := True\<rparr>"

definition text_chunk :: inbound_msg where
  "text_chunk = blank_inbound\<lparr>im_type := ''chunk'', im_request_id := ''r2'', im_delta := ''hi''\<rparr>"

definition busy_hub :: hub where
  "busy_hub = ds_hub sample_result"

lemma busy_settled: "settled busy_hub"
  unfolding busy_hub_def by (rule sample_result_settled)

lemma busy_wired: "wired busy_hub"
proof -
  have "all_requests (\<lambda>_. True) sample_queue sample_hub" by (simp add: all_requests_def)
  then have "same_frame sample_hub busy_hub"
    unfolding busy_hub_def by (intro all_requests_drain [OF sample_ready sample_runs, where Q = "\<lambda>_. True"])
  moreover have "wired sample_hub" unfolding wired_def by code_simp
  ultimately show ?thesis by (simp add: same_frame_def)
qed

lemma busy_held: "holder_of busy_hub ''r2'' = Some ''w1''" "holder_of busy_hub ''r1'' = Some ''w2''"
  by code_simp+

theorem message_keeps_slots_exact_witness:
  "settled (fst (dispatch busy_hub 20 ''w1'' (Some done_chunk))) \<and>
   length (jobs_of (fst (dispatch busy_hub 20 ''w1'' (Some done_chunk))) ''w1'') = 0"
  using message_keeps_slots_exact [OF busy_settled, of 20 "''w1''" "Some done_chunk"]
  by (rule conjI) code_simp


theorem disconnect_settles_each_job_once_witness:
  "settled (fst (disconnect busy_hub 20 ''w1'')) \<and>
   set (map rq_id (released (snd (snd (disconnect busy_hub 20 ''w1'')))) @
        finished (snd (snd (disconnect busy_hub 20 ''w1'')))) = {k. holder_of busy_hub k = Some ''w1''}"
proof -
  have "(case mget (hb_clients busy_hub) ''w1'' of None \<Rightarrow> False | Some _ \<Rightarrow> True)" by code_simp
  then obtain c where c: "mget (hb_clients busy_hub) ''w1'' = Some c" by (auto split: option.splits)
  obtain h' c' evs where d: "disconnect busy_hub 20 ''w1'' = (h', c', evs)" by (metis prod_cases3)
  from disconnect_settles_each_job_once [OF busy_settled busy_wired c d] show ?thesis
    unfolding d fst_conv snd_conv by blast
qed

theorem reaper_reclaims_exactly_expired_witness:
  "settled (fst (handle_expired_leases busy_hub 200)) \<and>
   holder_of (fst (handle_expired_leases busy_hub 200)) ''r2'' = None"
proof -
  have "(case mget (hb_jobs busy_hub) ''r2'' of None \<Rightarrow> False
      | Some r \<Rightarrow> lease_deadline (hb_lease_duration busy_hub) r < 200)" by code_simp
  then show ?thesis
    using reaper_reclaims_exactly_expired [OF busy_settled, of 200 "''r2''"] by (auto split: option.splits)
qed

theorem output_renews_lease_witness:
  "\<exists>r'. mget (hb_jobs (fst (dispatch busy_hub 90 ''w1'' (Some text_chunk)))) ''r2'' = Some r' \<and>
     90 + 100 \<le> lease_deadline 100 r'"
proof -
  have "(case mget (hb_jobs busy_hub) ''r2'' of None \<Rightarrow> False
      | Some r \<Rightarrow> fr_client_id r = ''w1'' \<and> fr_live r = Some live_new)" by code_simp
  then obtain r where r: "mget (hb_jobs busy_hub) (im_request_id text_chunk) = Some r"
    "fr_client_id r = ''w1''" "fr_live r = Some live_new"
    by (auto simp: text_chunk_def split: option.splits)
  have c: "im_type text_chunk = ''chunk''" "\<not> im_done text_chunk" "im_delta text_chunk \<noteq> []"
    by (simp_all add: text_chunk_def blank_inbound_def)
  let ?d = "dispatch busy_hub 90 ''w1'' (Some text_chunk)"
  have "?d = (fst ?d, snd ?d)" by simp
  from output_renews_lease [OF r c(1,2) _ _ this, of 100] c(3) show ?thesis
    by (auto simp: text_chunk_def)
qed

theorem cancel_frees_one_slot_witness:
  "settled (fst (cancel_request busy_hub ''r2'')) \<and>
   holder_of (fst (cancel_request busy_hub ''r2'')) ''r2'' = None \<and>
   holder_of (fst (cancel_request busy_hub ''r2'')) ''r1'' = Some ''w2''"
  using cancel_frees_one_slot [OF busy_settled, of "''r2''"] busy_held by simp

theorem token_states_agree_witness:
  "mget (token_states busy_hub) ''w1'' = Some \<lparr>ts_connections = connected_count_by_token busy_hub ''w1'',
     ts_models = sort (connected_models busy_hub ''w1''), ts_version = connected_version busy_hub ''w1'',
     ts_last_seen = last_seen_time busy_hub ''w1''\<rparr>"
proof -
  have "wf_map (hb_last_seen busy_hub)" by code_simp
  moreover have "length (by_token busy_hub ''w1'') = 1" by code_simp
  then have "by_token busy_hub ''w1'' \<noteq> []" by auto
  ultimately show ?thesis using token_states_agree [of busy_hub "''w1''"] by simp
qed

section \<open>Scheduler\<close>

lemma sample_available: "available_client_list sample_hub \<noteq> []"
  by (simp add: sample_clients)

theorem drain_terminates_witness:
  "\<exists>st. drain_queue sample_env sample_queue sample_hub [] = Some st \<and>
     drain_loop (2 * queue_len sample_queue + 1 + 5) sample_env (available_client_list sample_hub)
       (drain_start sample_env sample_queue sample_hub []) = Some st"
  by (rule drain_terminates [OF queue_wf_index_ok [OF sample_queue_wf] sample_available])

lemma sample_small: "mget (hb_clients sample_hub) k = Some c \<Longrightarrow> cl_max_concurrent c < 2 ^ 31"
proof -
  have "list_all (\<lambda>(_, c). cl_max_concurrent c < 2 ^ 31) (hb_clients sample_hub)" by code_simp
  then show "mget (hb_clients sample_hub) k = Some c \<Longrightarrow> cl_max_concurrent c < 2 ^ 31"
    by (auto simp: list_all_iff dest: mget_SomeD)
qed

theorem drain_within_capacity_witness:
  "\<exists>c'. mget (hb_clients (ds_hub sample_result)) ''w2'' = Some c' \<and> client_busy c' \<le> cl_max_concurrent c'"
proof -
  have "(case mget (hb_clients (ds_hub sample_result)) ''w2'' of None \<Rightarrow> False
      | Some c \<Rightarrow> cl_in_flight c = 1 \<and> client_busy c = 1 \<and> cl_max_concurrent c = 1)" by code_simp
  then obtain c' where c': "mget (hb_clients (ds_hub sample_result)) ''w2'' = Some c'" "cl_in_flight c' = 1"
    "client_busy c' = 1" "cl_max_concurrent c' = 1" by (auto split: option.splits)
  from drain_within_capacity [OF sample_ready sample_small sample_runs c'(1)]
  show ?thesis using c' by auto
qed

lemma sample_client_1:
  "cs_id (sample_client 1) = ''w2''" "cs_max_concurrent (sample_client 1) = 1"
  "\<not> pr_owner_side (en_pair sample_env ''carol'' (sample_client 1))"
  "pr_idle_only (en_pair sample_env ''carol'' (sample_client 1))"
  "pr_per_requester_max (en_pair sample_env ''carol'' (sample_client 1)) = 2"
  by code_simp+

theorem drain_keeps_reserved_slots_witness:
  "\<exists>r. (''w2'', r) \<in> set (ds_dispatched sample_result) \<and>
     int (outsider_jobs sample_env (sample_client 1) ''qwen'' (ds_hub sample_result)) \<le>
       1 - reserved_for (en_pair sample_env (rq_owner r) (sample_client 1)) ''qwen''"
proof -
  have "outsider_jobs sample_env (sample_client 1) ''qwen'' (ds_hub sample_result) \<noteq>
      outsider_jobs sample_env (sample_client 1) ''qwen'' sample_hub" by code_simp
  with drain_keeps_reserved_slots [OF sample_ready sample_runs sample_client_in(2), of "''qwen''"]
  show ?thesis using sample_client_1(1,2) by auto
qed

theorem drain_keeps_requester_cap_witness:
  "int (requester_jobs (sample_client 1) ''carol'' (ds_hub sample_result)) \<le> 2"
proof -
  have "requester_jobs (sample_client 1) ''carol'' sample_hub = 0" by code_simp
  with drain_keeps_requester_cap [OF sample_ready sample_runs sample_client_in(2) sample_client_1(3)]
  show ?thesis using sample_client_1(5) by auto
qed

lemma sample_sent: "\<exists>r. (''w2'', r) \<in> set (ds_dispatched sample_result) \<and> rq_owner r = ''carol''"
proof -
  have "list_ex (\<lambda>(c, r). c = ''w2'' \<and> rq_owner r = ''carol'') (ds_dispatched sample_result)" by code_simp
  then show ?thesis by (auto simp: list_ex_iff)
qed

theorem drain_idle_only_witness:
  "cs_local_busy (sample_client 1) \<le> 0 \<and>
   list_all (\<lambda>j. \<not> pr_owner_side (en_pair sample_env (jr_owner j) (sample_client 1)))
     (job_refs_on sample_hub ''w2'')"
proof -
  from sample_sent obtain r where r: "(cs_id (sample_client 1), r) \<in> set (ds_dispatched sample_result)"
    "rq_owner r = ''carol''" using sample_client_1(1) by auto
  from drain_idle_only [OF sample_ready sample_runs sample_client_in(2) r(1)]
  show ?thesis using sample_client_1 r(2) by (simp add: list_all_iff)
qed


theorem drain_conserves_witness:
  "drain_ready (ds_queue sample_result) (ds_hub sample_result) \<and>
   holder_of (ds_hub sample_result) ''r3'' = None \<and> (\<exists>cid. holder_of (ds_hub sample_result) ''r1'' = Some cid)"
proof -
  have ids: "map rq_id (qu_items (ds_queue sample_result)) = [''r3'']" by code_simp
  then have q: "queue_ids (ds_queue sample_result) = {''r3''}"
    by (metis list.set(1) list.set(2) set_map)
  show ?thesis
    using drain_conserves [OF sample_ready sample_runs, of "''r1''"]
      drain_conserves [OF sample_ready sample_runs, of "''r3''"]
    unfolding q sample_queue_ids by auto
qed

lemma sample_views: "alias_views sample_env"
  by (simp add: alias_views_def sample_env_def get_or_def)

lemma sample_models: "c \<in> set (available_client_list sample_hub) \<Longrightarrow> model_set (cs_models c)"
proof -
  have "list_all (\<lambda>c. list_all (\<lambda>m. get_or False (cs_models c) m) (mkeys (cs_models c)))
      (available_client_list sample_hub)" by code_simp
  then show "c \<in> set (available_client_list sample_hub) \<Longrightarrow> model_set (cs_models c)"
    by (force simp: list_all_iff model_set_def)
qed

theorem drain_sends_suitable_witness:
  "\<exists>r. (''w2'', r) \<in> set (ds_dispatched sample_result) \<and> recorded (ds_hub sample_result) ''w2'' r \<and>
     (\<exists>c \<in> set (available_client_list sample_hub). cs_id c = ''w2'' \<and> suits sample_env c r)"
  using drain_sends_suitable [OF sample_ready sample_views sample_models sample_runs] sample_sent by blast

theorem drain_sends_blind_witness:
  "\<exists>c c' ms. mget (hb_clients sample_hub) ''w2'' = Some c \<and>
     mget (hb_clients (ds_hub sample_result)) ''w2'' = Some c' \<and> cl_send c' = cl_send c @ ms \<and> length ms = 1"
proof -
  have len: "map_option (\<lambda>c. length (cl_send c)) (mget (hb_clients sample_hub) ''w2'') = Some 1"
    "map_option (\<lambda>c. length (cl_send c)) (mget (hb_clients (ds_hub sample_result)) ''w2'') = Some 2"
    by code_simp+
  then obtain c where c: "mget (hb_clients sample_hub) ''w2'' = Some c" "length (cl_send c) = 1" by auto
  from drain_sends_blind [OF sample_ready sample_runs c(1)] obtain c' ms where
    "mget (hb_clients (ds_hub sample_result)) ''w2'' = Some c'" "cl_send c' = cl_send c @ ms" by blast
  then show ?thesis using c len(2) by auto
qed

theorem prefix_map_bounded_witness: "length (ds_prefix_aff sample_result) \<le> 4096"
  using prefix_map_bounded [OF _ sample_runs] by (simp add: prefix_affinity_max_def)

definition sample_start :: drain_state where
  "sample_start = drain_start sample_env sample_queue sample_hub []"

definition first_choice :: candidate where
  "first_choice = the (select_best sample_env sample_start (available_client_list sample_hub) None)"

definition second_choice :: candidate where
  "second_choice = the (candidate_for sample_env sample_start (sample_client 1))"

lemma sample_choices:
  "map_option (\<lambda>_. ()) (select_best sample_env sample_start (available_client_list sample_hub) None) = Some ()"
  "map_option (\<lambda>_. ()) (candidate_for sample_env sample_start (sample_client 1)) = Some ()"
  "distinct (map (\<lambda>a. rq_id (ca_req a))
     (List.map_filter (candidate_for sample_env sample_start) (available_client_list sample_hub)))"
  "rq_id (ca_req second_choice) \<noteq> rq_id (ca_req first_choice)"
  by code_simp+

theorem selection_is_best_witness: "\<not> better_candidate second_choice first_choice"
proof -
  have "select_best sample_env sample_start (available_client_list sample_hub) None = Some first_choice"
    using sample_choices(1) by (auto simp: first_choice_def)
  moreover have "candidate_for sample_env sample_start (sample_client 1) = Some second_choice"
    using sample_choices(2) by (auto simp: second_choice_def)
  ultimately show ?thesis
    using selection_is_best sample_choices(3,4) sample_client_in(2) by blast
qed

text \<open>The sample with bob's worker unable to take another message.\<close>

definition clogged_start :: drain_state where
  "clogged_start = sample_start\<lparr>ds_hub := upd_client sample_hub ''w2''
     (\<lambda>c. c\<lparr>cl_send := replicate send_capacity (Cancel_Msg [])\<rparr>)\<rparr>"

theorem requeue_pins_model_witness:
  "\<exists>r q' st'. pop_by_id sample_queue ''r1'' = Some (r, q') \<and> rq_model r = ''fast'' \<and>
     dispatch_best sample_env second_choice r (clogged_start\<lparr>ds_queue := q'\<rparr>) = (False, st') \<and>
     map_option rq_model (queue_content (ds_queue st') ''r1'') = Some ''qwen''"
proof -
  have "map_option (\<lambda>(r, _). rq_model r) (pop_by_id sample_queue ''r1'') = Some ''fast''" by code_simp
  then obtain r q' where p: "pop_by_id sample_queue ''r1'' = Some (r, q')" "rq_model r = ''fast''" by auto
  have "map_option (\<lambda>(r, q'). fst (dispatch_best sample_env second_choice r (clogged_start\<lparr>ds_queue := q'\<rparr>)))
      (pop_by_id sample_queue ''r1'') = Some False" by code_simp
  then obtain st' where d: "dispatch_best sample_env second_choice r (clogged_start\<lparr>ds_queue := q'\<rparr>) = (False, st')"
    using p by (cases "dispatch_best sample_env second_choice r (clogged_start\<lparr>ds_queue := q'\<rparr>)") auto
  have "ca_resolved second_choice = ''qwen''" by code_simp
  then show ?thesis using requeue_pins_model [OF sample_queue_wf p(1) _ d] p d by auto
qed

section \<open>Mesh\<close>

theorem foreign_chunk_is_forwarded_witness:
  "Ev_Chunk (chunk_of text_chunk) \<in> set (snd (dispatch busy_hub 20 ''w2'' (Some text_chunk)))"
proof -
  have "(case mget (hb_jobs busy_hub) ''r2'' of None \<Rightarrow> False
      | Some r \<Rightarrow> fr_client_id r \<noteq> ''w2'' \<and> fr_live r = Some live_new)" by code_simp
  then obtain r where r: "mget (hb_jobs busy_hub) (im_request_id text_chunk) = Some r"
    "fr_client_id r \<noteq> ''w2''" "fr_live r = Some live_new"
    by (auto simp: text_chunk_def split: option.splits)
  have c: "im_type text_chunk = ''chunk''" "im_delta text_chunk \<noteq> []"
    by (simp_all add: text_chunk_def blank_inbound_def)
  let ?d = "dispatch busy_hub 20 ''w2'' (Some text_chunk)"
  have "?d = (fst ?d, snd ?d)" by simp
  from foreign_chunk_is_forwarded [OF busy_wired r(1,2) c r(3) this] show ?thesis by blast
qed

end
