(* ===== verification/Access_Globs.thy ===== *)
theory Access_Globs
  imports Go_Prelude
begin

text \<open>
  \<open>router/internal/authz/match.go\<close>, the patterns of access rules: \<open>Glob\<close> as the loop
  the code runs, a recursive meaning for patterns, and how far the two agree. A string is its
  bytes.
\<close>

abbreviation star :: char where "star \<equiv> CHR ''*''"
abbreviation question :: char where "question \<equiv> CHR ''?''"

section \<open>The matcher\<close>

text \<open>
  The loop of \<open>Glob\<close>: the positions in pattern and name, and the last star tried with the
  position in the name it was tried at (\<open>None\<close> while \<open>starP\<close> is -1). The branches are in
  the order of the code's \<open>switch\<close>.
\<close>

function glob_loop ::
  "string \<Rightarrow> string \<Rightarrow> nat \<Rightarrow> nat \<Rightarrow> (nat \<times> nat) option \<Rightarrow> nat option" where
  "glob_loop pattern name p n st =
     (if n < length name then
        if p < length pattern \<and> (pattern ! p = question \<or> pattern ! p = name ! n)
        then glob_loop pattern name (p + 1) (n + 1) st
        else if p < length pattern \<and> pattern ! p = star
        then glob_loop pattern name (p + 1) n (Some (p, n))
        else (case st of
            Some (sp, sn) \<Rightarrow> glob_loop pattern name (sp + 1) (sn + 1) (Some (sp, sn + 1))
          | None \<Rightarrow> None)
      else Some p)"
  by pat_completeness auto

termination
proof (relation "measures
    [\<lambda>(pattern, name, p, n, st). case st of None \<Rightarrow> 0
       | Some (sp, sn) \<Rightarrow> if sp < p \<and> sn \<le> n then 0 else 1,
     \<lambda>(pattern, name, p, n, st). case st of None \<Rightarrow> Suc (length pattern)
       | Some (sp, sn) \<Rightarrow> length pattern - sp,
     \<lambda>(pattern, name, p, n, st). case st of None \<Rightarrow> 0 | Some (sp, sn) \<Rightarrow> length name - sn,
     \<lambda>(pattern, name, p, n, st). (length name - n) + (length pattern - p)]", goal_cases)
  case 1
  show ?case by simp
next
  case (2 pattern name p n st)
  then show ?case by (auto split: option.splits)
next
  case (3 pattern name p n st)
  then show ?case by (auto split: option.splits)
next
  case (4 pattern name p n st a sp sn)
  then show ?case by (cases "sp < p \<and> sn \<le> n") (auto split: if_splits)
qed

declare glob_loop.simps [simp del]

definition glob_rest :: "string \<Rightarrow> nat \<Rightarrow> bool" where
  "glob_rest pattern p \<longleftrightarrow> list_all (\<lambda>c. c = star) (drop p pattern)"

definition glob :: "string \<Rightarrow> string \<Rightarrow> bool" where
  "glob pattern name =
     (case glob_loop pattern name 0 0 None of None \<Rightarrow> False | Some p \<Rightarrow> glob_rest pattern p)"

definition glob_any :: "string list \<Rightarrow> string \<Rightarrow> bool" where
  "glob_any patterns name = list_ex (\<lambda>p. glob p name) patterns"

section \<open>What a pattern means\<close>

fun covers :: "string \<Rightarrow> string \<Rightarrow> bool" where
  "covers [] name = (name = [])"
| "covers (c # cs) [] = (c = star \<and> covers cs [])"
| "covers (c # cs) (x # xs) =
     (if c = star then covers cs (x # xs) \<or> covers (c # cs) xs
      else (c = question \<or> c = x) \<and> covers cs xs)"

lemma covers_star: "covers (star # cs) xs \<longleftrightarrow> (\<exists>k \<le> length xs. covers cs (drop k xs))"
proof (induction xs)
  case Nil
  then show ?case by simp
next
  case (Cons x xs)
  have "(\<exists>k \<le> length (x # xs). covers cs (drop k (x # xs))) \<longleftrightarrow>
      covers cs (x # xs) \<or> (\<exists>k \<le> length xs. covers cs (drop k xs))"
    by (metis (no_types, lifting) drop0 drop_Suc_Cons le_Suc_eq length_Cons not0_implies_Suc
        nat_le_linear Suc_le_mono zero_le)
  then show ?case using Cons by simp
qed

lemma covers_Nil: "covers cs [] \<longleftrightarrow> list_all (\<lambda>c. c = star) cs"
  by (induction cs) auto

text \<open>A piece without stars covers exactly what it spells out.\<close>

lemma covers_plain:
  assumes "star \<notin> set seg"
  shows "covers (seg @ cs) xs \<longleftrightarrow>
    length seg \<le> length xs \<and> list_all2 (\<lambda>c x. c = question \<or> c = x) seg (take (length seg) xs)
    \<and> covers cs (drop (length seg) xs)"
  using assms
proof (induction seg arbitrary: xs)
  case Nil
  then show ?case by simp
next
  case (Cons c seg)
  then show ?case by (cases xs) auto
qed

text \<open>
  What the loop has still to decide: the rest of the pattern here, or again behind the last star
  further on.
\<close>

definition open_ways :: "string \<Rightarrow> string \<Rightarrow> nat \<Rightarrow> nat \<Rightarrow> (nat \<times> nat) option \<Rightarrow> bool" where
  "open_ways pattern name p n st \<longleftrightarrow> covers (drop p pattern) (drop n name) \<or>
     (case st of None \<Rightarrow> False
      | Some (sp, sn) \<Rightarrow> \<exists>k > sn. k \<le> length name \<and> covers (drop (sp + 1) pattern) (drop k name))"

definition in_step :: "string \<Rightarrow> nat \<Rightarrow> nat \<Rightarrow> (nat \<times> nat) option \<Rightarrow> bool" where
  "in_step pattern p n st \<longleftrightarrow> p \<le> length pattern \<and>
     (case st of None \<Rightarrow> True
      | Some (sp, sn) \<Rightarrow> sp < p \<and> n = sn + (p - (sp + 1)) \<and>
          star \<notin> set (take (p - (sp + 1)) (drop (sp + 1) pattern)))"

text \<open>Positions behind the last star lose nothing to the star at hand.\<close>

lemma later_star_suffices:
  assumes "in_step pattern p n (Some (sp, sn))" and "p < length pattern" and "pattern ! p = star"
    and "k > sn" and "k \<le> length name" and "covers (drop (sp + 1) pattern) (drop k name)"
  shows "covers (drop p pattern) (drop n name)"
proof -
  let ?seg = "take (p - (sp + 1)) (drop (sp + 1) pattern)"
  have sp: "sp < p" "n = sn + (p - (sp + 1))" "star \<notin> set ?seg"
    using assms(1) by (simp_all add: in_step_def)
  have "drop (sp + 1) pattern = ?seg @ drop p pattern"
    using sp(1) append_take_drop_id [of "p - (sp + 1)" "drop (sp + 1) pattern"] by simp
  moreover have len: "length ?seg = p - (sp + 1)" using assms(2) sp(1) by simp
  ultimately have c: "covers (drop p pattern) (drop (k + (p - (sp + 1))) name)"
    using assms(6) covers_plain [OF sp(3), of "drop p pattern" "drop k name"]
    by (simp add: add.commute)
  have d: "drop p pattern = star # drop (p + 1) pattern"
    using assms(2,3) by (metis Cons_nth_drop_Suc Suc_eq_plus1)
  obtain j where j: "covers (drop (p + 1) pattern) (drop j (drop (k + (p - (sp + 1))) name))"
    "j \<le> length (drop (k + (p - (sp + 1))) name)"
    using c unfolding d covers_star by blast
  let ?i = "k + (p - (sp + 1)) - n + j"
  have "k + (p - (sp + 1)) \<ge> n" using sp(2) assms(4) by simp
  then have "drop ?i (drop n name) = drop j (drop (k + (p - (sp + 1))) name)" by (simp add: add_ac)
  then have i: "covers (drop (p + 1) pattern) (drop ?i (drop n name))" using j(1) by simp
  show ?thesis
  proof (cases "?i \<le> length (drop n name)")
    case True
    then show ?thesis unfolding d covers_star using i by blast
  next
    case False
    then have "drop ?i (drop n name) = drop (length (drop n name)) (drop n name)" by simp
    then show ?thesis unfolding d covers_star using i by (metis le_refl)
  qed
qed

lemma later_star_too_late:
  assumes "in_step pattern p (length name) (Some (sp, sn))" and "k > sn" and "k \<le> length name"
  shows "\<not> covers (drop (sp + 1) pattern) (drop k name)"
proof
  assume c: "covers (drop (sp + 1) pattern) (drop k name)"
  let ?seg = "take (p - (sp + 1)) (drop (sp + 1) pattern)"
  have sp: "sp < p" "length name = sn + (p - (sp + 1))" "star \<notin> set ?seg" "p \<le> length pattern"
    using assms(1) by (simp_all add: in_step_def)
  have "drop (sp + 1) pattern = ?seg @ drop p pattern"
    using sp(1) append_take_drop_id [of "p - (sp + 1)" "drop (sp + 1) pattern"] by simp
  then have "length ?seg \<le> length (drop k name)" using c covers_plain [OF sp(3)] by metis
  then show False using sp assms(2,3) by simp
qed

lemma covers_step:
  assumes "p < length pattern" and "n < length name"
  shows "covers (drop p pattern) (drop n name) \<longleftrightarrow>
    (if pattern ! p = star
     then covers (drop (p + 1) pattern) (drop n name) \<or> covers (drop p pattern) (drop (n + 1) name)
     else (pattern ! p = question \<or> pattern ! p = name ! n)
       \<and> covers (drop (p + 1) pattern) (drop (n + 1) name))"
  using assms by (simp add: Cons_nth_drop_Suc [symmetric] del: Cons_nth_drop_Suc)

lemma covers_past: "\<not> p < length pattern \<Longrightarrow> n < length name \<Longrightarrow> \<not> covers (drop p pattern) (drop n name)"
  by simp

lemma in_step_same:
  assumes "in_step pattern p n st" and "p < length pattern" and "pattern ! p \<noteq> star"
  shows "in_step pattern (p + 1) (n + 1) st"
proof (cases st)
  case (Some s)
  then obtain sp sn where s: "st = Some (sp, sn)" by (cases s) auto
  then have "sp < p" using assms(1) by (simp add: in_step_def)
  then have "take (p + 1 - (sp + 1)) (drop (sp + 1) pattern)
      = take (p - (sp + 1)) (drop (sp + 1) pattern) @ [pattern ! p]"
    using assms(2) take_Suc_conv_app_nth [of "p - (sp + 1)" "drop (sp + 1) pattern"]
    by (simp add: Suc_diff_Suc)
  then show ?thesis using assms s \<open>sp < p\<close> by (simp add: in_step_def)
qed (use assms in \<open>simp add: in_step_def\<close>)

lemma open_star:
  assumes "p < length pattern" and "pattern ! p = star" and "n < length name"
  shows "covers (drop p pattern) (drop n name) \<longleftrightarrow> open_ways pattern name (p + 1) n (Some (p, n))"
proof -
  have d: "drop p pattern = star # drop (p + 1) pattern"
    using assms(1,2) by (metis Cons_nth_drop_Suc Suc_eq_plus1)
  have "(\<exists>k \<le> length (drop n name). covers cs (drop k (drop n name))) \<longleftrightarrow>
      covers cs (drop n name) \<or> (\<exists>k > n. k \<le> length name \<and> covers cs (drop k name))"
    (is "?L \<longleftrightarrow> ?R") for cs
  proof
    assume ?L
    then obtain k where "k \<le> length (drop n name)" "covers cs (drop (k + n) name)" by auto
    then show ?R using assms(3) by (cases "k = 0") (auto intro!: exI [of _ "k + n"])
  next
    assume ?R
    then consider "covers cs (drop n name)" | k where "k > n" "k \<le> length name" "covers cs (drop k name)"
      by blast
    then show ?L
    proof cases
      case 1
      then show ?thesis by (auto intro!: exI [of _ 0])
    next
      case 2
      then show ?thesis by (auto intro!: exI [of _ "k - n"])
    qed
  qed
  then show ?thesis unfolding d covers_star by (simp add: open_ways_def)
qed

lemma open_next:
  assumes "sn < length name"
  shows "(\<exists>k > sn. k \<le> length name \<and> Q k) \<longleftrightarrow>
    Q (Suc sn) \<or> (\<exists>k > Suc sn. k \<le> length name \<and> Q k)"
  using assms by (metis Suc_leI Suc_lessD lessI le_neq_implies_less)

lemma glob_loop_exact:
  assumes "star \<notin> set name" and "in_step pattern p n st" and "n \<le> length name"
  shows "(case glob_loop pattern name p n st of None \<Rightarrow> False | Some p' \<Rightarrow> glob_rest pattern p')
    \<longleftrightarrow> open_ways pattern name p n st"
  using assms
proof (induction pattern name p n st rule: glob_loop.induct)
  case (1 pattern name p n st)
  show ?case
  proof (cases "n < length name")
    case False
    then have "n = length name" using 1(6) by simp
    then show ?thesis using later_star_too_late 1(5)
      by (fastforce simp: glob_loop.simps glob_rest_def open_ways_def covers_Nil split: option.splits)
  next
    case n: True
    then have nm: "name ! n \<noteq> star" using 1(4) nth_mem by metis
    consider (same) "p < length pattern" "pattern ! p = question \<or> pattern ! p = name ! n"
      | (star) "p < length pattern" "pattern ! p = star"
      | (retry) "\<not> (p < length pattern \<and> (pattern ! p = question \<or> pattern ! p = name ! n))"
          "\<not> (p < length pattern \<and> pattern ! p = star)"
      by blast
    then show ?thesis
    proof cases
      case same
      have ns: "pattern ! p \<noteq> star" using same(2) nm by auto
      have step: "in_step pattern (p + 1) (n + 1) st"
        using in_step_same [OF 1(5) same(1) ns] .
      have "open_ways pattern name p n st \<longleftrightarrow> open_ways pattern name (p + 1) (n + 1) st"
        using same ns n by (simp add: open_ways_def covers_step)
      then show ?thesis using 1(1) [OF n _ 1(4) step] same n
        by (subst glob_loop.simps) simp
    next
      case star
      have step: "in_step pattern (p + 1) n (Some (p, n))" using star by (simp add: in_step_def)
      have "open_ways pattern name p n st \<longleftrightarrow> covers (drop p pattern) (drop n name)"
        using later_star_suffices [where name = name] 1(5) star
        by (fastforce simp: open_ways_def split: option.splits)
      also have "\<dots> \<longleftrightarrow> open_ways pattern name (p + 1) n (Some (p, n))"
        using open_star [OF star] n by simp
      finally show ?thesis using 1(2) [OF n _ _ 1(4) step] star nm n
        by (subst glob_loop.simps) auto
    next
      case retry
      have here: "\<not> covers (drop p pattern) (drop n name)"
        using retry n by (cases "p < length pattern") (simp_all add: covers_step covers_past)
      show ?thesis
      proof (cases st)
        case None
        then show ?thesis using here retry n by (subst glob_loop.simps) (auto simp: open_ways_def)
      next
        case (Some s)
        then obtain sp sn where s: "st = Some (sp, sn)" by (cases s) auto
        have "sn < length name" and len: "sp < p" "p \<le> length pattern"
          using 1(5) n s by (auto simp: in_step_def)
        then have step: "in_step pattern (sp + 1) (sn + 1) (Some (sp, sn + 1))"
          by (simp add: in_step_def)
        have "open_ways pattern name p n st \<longleftrightarrow> open_ways pattern name (sp + 1) (sn + 1) (Some (sp, sn + 1))"
          using here \<open>sn < length name\<close> by (simp add: open_ways_def s open_next)
        then show ?thesis using 1(3) [OF n _ _ s refl 1(4) step] retry n s \<open>sn < length name\<close>
          by (subst glob_loop.simps) auto
      qed
    qed
  qed
qed

lemma glob_exact:
  assumes "star \<notin> set name"
  shows "glob pattern name \<longleftrightarrow> covers pattern name"
  using glob_loop_exact [OF assms, of pattern 0 0 None]
  by (simp add: glob_def in_step_def open_ways_def)

text \<open>Whatever the name, what the loop accepts the pattern covers.\<close>

lemma covers_same:
  assumes "p < length pattern" and "n < length name"
    and "pattern ! p = question \<or> pattern ! p = name ! n"
    and "covers (drop (p + 1) pattern) (drop (n + 1) name)"
  shows "covers (drop p pattern) (drop n name)"
proof (cases "pattern ! p = star")
  case True
  then have d: "drop p pattern = star # drop (p + 1) pattern"
    using assms(1) by (metis Cons_nth_drop_Suc Suc_eq_plus1)
  show ?thesis unfolding d covers_star
    using assms(2,4) by (auto intro!: exI [of _ 1])
qed (use assms in \<open>simp add: covers_step\<close>)

lemma glob_loop_sound:
  assumes "glob_loop pattern name p n st = Some p'" and "glob_rest pattern p'"
    and "\<And>sp sn. st = Some (sp, sn) \<Longrightarrow> sn \<le> n" and "n \<le> length name"
  shows "open_ways pattern name p n st"
  using assms
proof (induction pattern name p n st rule: glob_loop.induct)
  case (1 pattern name p n st)
  note loop = 1(4) [unfolded glob_loop.simps [of pattern name p n st]]
  show ?case
  proof (cases "n < length name")
    case False
    then show ?thesis using loop 1(5,7) by (simp add: open_ways_def glob_rest_def covers_Nil)
  next
    case n: True
    consider (same) "p < length pattern" "pattern ! p = question \<or> pattern ! p = name ! n"
      | (star) "\<not> (pattern ! p = question \<or> pattern ! p = name ! n)" "p < length pattern" "pattern ! p = star"
      | (retry) sp sn where "\<not> (p < length pattern \<and> (pattern ! p = question \<or> pattern ! p = name ! n))"
          "\<not> (p < length pattern \<and> pattern ! p = star)" "st = Some (sp, sn)"
      using loop n by (auto split: if_splits option.splits)
    then show ?thesis
    proof cases
      case same
      then have "glob_loop pattern name (p + 1) (n + 1) st = Some p'" using loop n by simp
      from 1(1) [OF n _ this 1(5)] same n 1(6) have "open_ways pattern name (p + 1) (n + 1) st"
        by (simp add: le_SucI)
      then show ?thesis using covers_same [OF same(1) n same(2)] by (auto simp: open_ways_def)
    next
      case star
      then have "glob_loop pattern name (p + 1) n (Some (p, n)) = Some p'" using loop n by simp
      from 1(2) [OF n _ _ this 1(5)] star n have "open_ways pattern name (p + 1) n (Some (p, n))"
        by simp
      then show ?thesis using open_star [OF star(2,3) n] by (simp add: open_ways_def)
    next
      case retry
      then have r: "glob_loop pattern name (sp + 1) (sn + 1) (Some (sp, sn + 1)) = Some p'"
        using loop n by auto
      have sn: "sn < length name" using 1(6) [OF retry(3)] n by simp
      from 1(3) [OF n _ _ retry(3) refl r 1(5)] retry sn
      have "open_ways pattern name (sp + 1) (sn + 1) (Some (sp, sn + 1))" by auto
      then show ?thesis using sn by (auto simp: open_ways_def retry(3) intro: Suc_lessD)
    qed
  qed
qed

lemma glob_sound: "glob pattern name \<Longrightarrow> covers pattern name"
  using glob_loop_sound [of pattern name 0 0 None]
  by (auto simp: glob_def open_ways_def split: option.splits)

text \<open>Patterns without wildcards are names, and a single star covers every name.\<close>

lemma covers_all: "covers [star] name"
  by (simp add: covers_star) (metis drop_all le_refl covers.simps(1) drop_eq_Nil)

lemma covers_literal:
  assumes "star \<notin> set pattern" and "question \<notin> set pattern"
  shows "covers pattern name \<longleftrightarrow> name = pattern"
  using assms
proof (induction pattern arbitrary: name)
  case Nil
  then show ?case by simp
next
  case (Cons c cs)
  then show ?case by (cases name) auto
qed

end
