(* ===== verification/Access_Roles.thy ===== *)
theory Access_Roles
  imports Access_Globs
begin

text \<open>
  \<open>router/internal/authz/types.go\<close>, \<open>actions.go\<close> and \<open>roles.go\<close>: who acts, on
  what and in which circumstances, the catalogue of actions, the permissions that roles are made
  of, and the roles every router has. An error value is a constructor of \<open>access_error\<close> with
  what its message names.
\<close>

section \<open>Requests for access\<close>

definition kind_user :: string where "kind_user = ''user''"
definition kind_team :: string where "kind_team = ''team''"

record binding =
  bi_role :: string
  bi_team :: string

record subject =
  su_id :: string
  su_kind :: string
  su_bindings :: "binding list"
  su_teams :: "string list"
  su_managed_by :: string
  su_attrs :: "(string, string) gomap"
  su_rev :: string

definition has_team :: "subject \<Rightarrow> string \<Rightarrow> bool" where
  "has_team s team = list_ex (\<lambda>t. t = team) (su_teams s)"

text \<open>
  What an attribute can hold (\<open>any\<close>). A \<open>float64\<close> is not a number, an infinity or the
  rational it stands for (a zero loses its sign); an address is invalid (the zero \<open>netip.Addr\<close>), of 32 bits, or of 128
  bits with a zone.
\<close>

datatype float64 = Fl_NaN | Fl_Inf bool | Fl_Fin rat

datatype ip_addr = No_Addr | Addr4 "32 word" | Addr6 "128 word" string

datatype go_value =
    Val_String string
  | Val_Bool bool
  | Val_Float float64
  | Val_Int int
  | Val_Int64 int
  | Val_Strings "string list"
  | Val_List "go_value list"
  | Val_Time gotime
  | Val_Addr ip_addr
  | Val_Other

record sharing =
  sh_mode :: string
  sh_with :: "string list"
  sh_reserved_slots :: "(string, int) gomap"
  sh_per_requester_max :: int
  sh_reclaim :: bool

record resource =
  rs_type :: string
  rs_id :: string
  rs_owner :: string
  rs_team :: string
  rs_attrs :: "(string, go_value) gomap"
  rs_sharing :: "sharing option"

record access_context =
  ac_time :: gotime
  ac_source_ip :: ip_addr
  ac_endpoint :: string
  ac_priority :: string
  ac_credential_kind :: string
  ac_prompt_tokens :: int
  ac_extra :: "(string, go_value) gomap"

record access_request =
  ar_subject :: subject
  ar_action :: string
  ar_resource :: resource
  ar_context :: access_context

datatype access_error =
    Err_Permission_Needs_Scope string
  | Err_Unknown_Permission string
  | Err_Permission_Takes_No_Scope string string
  | Err_Unknown_Scope string string
  | Err_Role_No_Id
  | Err_In_Role string access_error
  | Err_Duplicate_Role string
  | Err_In_Policy string access_error
  | Err_Duplicate_Policy string
  | Err_Policy_No_Id
  | Err_Effect
  | Err_No_Actions
  | Err_Action_Matches_Nothing string
  | Err_Empty_Pattern
  | Err_Too_Deep
  | Err_Cond_Shape
  | Err_Unknown_Operator string
  | Err_Arity string int int
  | Err_Unknown_Attribute string string
  | Err_Exists_Literal
  | Err_Cidr_Literal
  | Err_Cidr_Prefix
  | Err_Clock_Literal
  | Err_Clock string
  | Err_Zone_Literal
  | Err_Zone
  | Err_Glob_Literal
  | Err_Sharing_Mode string
  | Err_Sharing_Entry string
  | Err_Reserved_Negative string
  | Err_Per_Requester_Negative
  | Err_Panic

record decision =
  de_allowed :: bool
  de_by :: string
  de_reason :: string

definition effect_allow :: string where "effect_allow = ''allow''"
definition effect_deny :: string where "effect_deny = ''deny''"

section \<open>The catalogue of actions\<close>

datatype scope = Scope_Own | Scope_Team | Scope_Any

definition scope_text :: "scope \<Rightarrow> string" where
  "scope_text s = (case s of Scope_Own \<Rightarrow> ''own'' | Scope_Team \<Rightarrow> ''team'' | Scope_Any \<Rightarrow> ''any'')"

definition scope_of :: "string \<Rightarrow> scope option" where
  "scope_of s =
     (if s = ''own'' then Some Scope_Own else if s = ''team'' then Some Scope_Team
      else if s = ''any'' then Some Scope_Any else None)"

record action_info =
  ai_scoped :: bool
  ai_needs_grant :: bool

definition plain_action :: action_info where
  "plain_action = \<lparr>ai_scoped = False, ai_needs_grant = False\<rparr>"
definition scoped_action :: action_info where
  "scoped_action = \<lparr>ai_scoped = True, ai_needs_grant = False\<rparr>"
definition granted_action :: action_info where
  "granted_action = \<lparr>ai_scoped = False, ai_needs_grant = True\<rparr>"

definition catalogue :: "(string, action_info) gomap" where
  "catalogue =
     [(''model.use'', granted_action), (''client.use'', granted_action),
      (''key.create'', scoped_action), (''key.manage'', scoped_action),
      (''key.view'', scoped_action), (''key.limits'', scoped_action),
      (''client.create'', scoped_action), (''client.manage'', scoped_action),
      (''client.view'', scoped_action), (''client.share'', scoped_action),
      (''usage.view'', scoped_action), (''job.view'', scoped_action),
      (''job.cancel'', scoped_action), (''team.create'', plain_action),
      (''team.manage'', scoped_action), (''team.view'', scoped_action),
      (''fleet.view'', plain_action), (''user.view'', plain_action),
      (''user.manage'', plain_action), (''role.manage'', plain_action),
      (''alias.manage'', plain_action), (''pricing.manage'', plain_action),
      (''settings.view'', plain_action), (''settings.manage'', plain_action),
      (''queue.cancel'', plain_action), (''policy.view'', plain_action),
      (''policy.manage'', plain_action), (''policy.simulate'', plain_action),
      (''audit.view'', plain_action), (''owner.manage'', plain_action)]"

text \<open>Reading an action that is not in the catalogue gives the zero \<open>actionInfo\<close>.\<close>

definition action_info_of :: "string \<Rightarrow> action_info" where
  "action_info_of action = get_or plain_action catalogue action"

definition known_action :: "string \<Rightarrow> bool" where
  "known_action action = (case mget catalogue action of None \<Rightarrow> False | Some _ \<Rightarrow> True)"

definition actions :: "string list" where
  "actions = mkeys catalogue"

definition needs_grant :: "string \<Rightarrow> bool" where
  "needs_grant action = ai_needs_grant (action_info_of action)"

definition scoped :: "string \<Rightarrow> bool" where
  "scoped action = ai_scoped (action_info_of action)"

section \<open>Permissions\<close>

record permission =
  pm_action :: string
  pm_scope :: scope

definition parse_permission :: "string \<Rightarrow> access_error + permission" where
  "parse_permission s =
     (case mget catalogue s of
        Some info \<Rightarrow>
          if ai_scoped info then Inl (Err_Permission_Needs_Scope s)
          else Inr \<lparr>pm_action = s, pm_scope = Scope_Any\<rparr>
      | None \<Rightarrow>
          (case cut_last_byte (CHR ''.'') s of
             None \<Rightarrow> Inl (Err_Unknown_Permission s)
           | Some (action, sc) \<Rightarrow>
               (case mget catalogue action of
                  None \<Rightarrow> Inl (Err_Unknown_Permission s)
                | Some info \<Rightarrow>
                    if \<not> ai_scoped info then Inl (Err_Permission_Takes_No_Scope s action)
                    else (case scope_of sc of
                        Some sc' \<Rightarrow> Inr \<lparr>pm_action = action, pm_scope = sc'\<rparr>
                      | None \<Rightarrow> Inl (Err_Unknown_Scope s sc)))))"

definition permission_string :: "permission \<Rightarrow> string" where
  "permission_string p =
     (if scoped (pm_action p) then pm_action p @ ''.'' @ scope_text (pm_scope p) else pm_action p)"

section \<open>Roles\<close>

record role =
  ro_id :: string
  ro_name :: string
  ro_builtin :: bool
  ro_permissions :: "string list"

definition all_permissions :: "string list \<Rightarrow> string list" where
  "all_permissions except =
     sort (List.map_filter
       (\<lambda>(action, info).
          if list_ex (\<lambda>e. e = action) except then None
          else Some (if ai_scoped info then action @ ''.any'' else action))
       catalogue)"

definition role_owner :: string where "role_owner = ''owner''"
definition role_admin :: string where "role_admin = ''admin''"
definition role_operator :: string where "role_operator = ''operator''"
definition role_auditor :: string where "role_auditor = ''auditor''"
definition role_member :: string where "role_member = ''member''"
definition role_viewer :: string where "role_viewer = ''viewer''"
definition role_team_maintainer :: string where "role_team_maintainer = ''team-maintainer''"
definition role_team_member :: string where "role_team_member = ''team-member''"

lemmas role_ids = role_owner_def role_admin_def role_operator_def role_auditor_def
  role_member_def role_viewer_def role_team_maintainer_def role_team_member_def

definition builtin_role :: "string \<Rightarrow> string \<Rightarrow> string list \<Rightarrow> role" where
  "builtin_role rid name ps =
     \<lparr>ro_id = rid, ro_name = name, ro_builtin = True, ro_permissions = ps\<rparr>"

definition builtin_roles :: "role list" where
  "builtin_roles =
     [builtin_role role_owner ''Owner'' (all_permissions []),
      builtin_role role_admin ''Admin'' (all_permissions [''owner.manage'']),
      builtin_role role_operator ''Operator''
        [''model.use'', ''client.use'',
         ''key.create.own'', ''key.manage.own'', ''key.view.own'', ''key.limits.any'',
         ''client.create.any'', ''client.manage.any'', ''client.view.any'', ''client.share.any'',
         ''usage.view.any'', ''job.view.any'', ''job.cancel.any'', ''queue.cancel'',
         ''fleet.view'', ''alias.manage'', ''pricing.manage'',
         ''settings.view'', ''team.create'', ''team.view.any''],
      builtin_role role_auditor ''Auditor''
        [''key.view.any'', ''client.view.any'', ''usage.view.any'', ''job.view.any'',
         ''team.view.any'', ''fleet.view'', ''user.view'', ''settings.view'',
         ''policy.view'', ''policy.simulate'', ''audit.view''],
      builtin_role role_member ''Member''
        [''model.use'', ''client.use'',
         ''key.create.own'', ''key.manage.own'', ''key.view.own'',
         ''client.create.own'', ''client.manage.own'', ''client.view.own'', ''client.share.own'',
         ''usage.view.own'', ''job.view.own'', ''job.cancel.own'',
         ''team.view.own''],
      builtin_role role_viewer ''Viewer'' [''usage.view.own'', ''job.view.own'', ''team.view.own''],
      builtin_role role_team_maintainer ''Team maintainer''
        [''key.create.team'', ''key.manage.team'', ''key.view.team'',
         ''client.create.team'', ''client.manage.team'', ''client.view.team'', ''client.share.team'',
         ''usage.view.team'', ''job.view.team'', ''job.cancel.team'',
         ''team.manage.team'', ''team.view.team''],
      builtin_role role_team_member ''Team member''
        [''key.view.team'', ''client.view.team'',
         ''usage.view.team'', ''job.view.team'', ''job.cancel.own'',
         ''team.view.team'']]"

text \<open>A role with its permissions parsed and indexed by action.\<close>

record compiled_role =
  cr_role :: role
  cr_grants :: "(string, scope list) gomap"

fun compile_grants ::
  "string list \<Rightarrow> (string, scope list) gomap \<Rightarrow> access_error + (string, scope list) gomap" where
  "compile_grants [] grants = Inr grants"
| "compile_grants (s # ss) grants =
     (case parse_permission s of
        Inl err \<Rightarrow> Inl err
      | Inr p \<Rightarrow>
          compile_grants ss
            (mput (pm_action p) (get_or [] grants (pm_action p) @ [pm_scope p]) grants))"

definition compile_role :: "role \<Rightarrow> access_error + compiled_role" where
  "compile_role r =
     (if ro_id r = [] then Inl Err_Role_No_Id
      else (case compile_grants (ro_permissions r) [] of
          Inl err \<Rightarrow> Inl (Err_In_Role (ro_id r) err)
        | Inr grants \<Rightarrow> Inr \<lparr>cr_role = r, cr_grants = grants\<rparr>))"

section \<open>Facts on permissions and roles\<close>

lemma wf_catalogue: "wf_map catalogue"
  by code_simp

lemma scope_of_text [simp]: "scope_of (scope_text s) = Some s"
  by (cases s) (simp_all add: scope_of_def scope_text_def)

lemma scope_text_of: "scope_of s = Some sc \<Longrightarrow> scope_text sc = s"
  by (auto simp: scope_of_def scope_text_def split: if_splits)

lemma scope_text_no_dot: "CHR ''.'' \<notin> set (scope_text s)"
  by (cases s) (simp_all add: scope_text_def)

lemma cut_byte_append: "c \<notin> set xs \<Longrightarrow> cut_byte c (xs @ c # ys) = (xs, ys, True)"
  by (induction xs) auto

lemma cut_byte_True: "cut_byte c s = (a, b, True) \<Longrightarrow> s = a @ c # b \<and> c \<notin> set a"
  by (induction s arbitrary: a) (auto split: if_splits prod.splits)

lemma cut_last_byte_append:
  assumes "c \<notin> set ys"
  shows "cut_last_byte c (xs @ c # ys) = Some (xs, ys)"
  using cut_byte_append [of c "rev ys" "rev xs"] assms by (simp add: cut_last_byte_def)

lemma cut_last_byte_Some:
  assumes "cut_last_byte c s = Some (a, b)"
  shows "s = a @ c # b" and "c \<notin> set b"
proof -
  obtain x y where xy: "cut_byte c (rev s) = (x, y, True)" "a = rev y" "b = rev x"
    using assms by (auto simp: cut_last_byte_def split: prod.splits if_splits)
  from cut_byte_True [OF xy(1)] have "s = rev (x @ c # y)" by (metis rev_rev_ident)
  then show "s = a @ c # b" using xy by simp
  show "c \<notin> set b" using cut_byte_True [OF xy(1)] xy(3) by simp
qed

text \<open>No action of the catalogue is another one with a scope behind it.\<close>

lemma no_action_ends_in_scope:
  "list_all (\<lambda>(a, info). list_all (\<lambda>sc. mget catalogue (a @ ''.'' @ scope_text sc) = None)
     [Scope_Own, Scope_Team, Scope_Any]) catalogue"
  by code_simp

lemma scoped_text_unknown:
  assumes "mget catalogue a = Some info"
  shows "mget catalogue (a @ ''.'' @ scope_text sc) = None"
proof -
  have "(a, info) \<in> set catalogue" using assms by (rule mget_SomeD)
  then have "list_all (\<lambda>sc. mget catalogue (a @ ''.'' @ scope_text sc) = None)
      [Scope_Own, Scope_Team, Scope_Any]"
    using no_action_ends_in_scope by (auto simp: list_all_iff)
  then show ?thesis by (cases sc) simp_all
qed

text \<open>Which permissions can be written down at all.\<close>

definition permission_ok :: "permission \<Rightarrow> bool" where
  "permission_ok p \<longleftrightarrow> known_action (pm_action p) \<and> (scoped (pm_action p) \<or> pm_scope p = Scope_Any)"

lemma parse_permission_string:
  assumes "permission_ok p"
  shows "parse_permission (permission_string p) = Inr p"
proof -
  obtain info where info: "mget catalogue (pm_action p) = Some info"
    using assms by (auto simp: permission_ok_def known_action_def split: option.splits)
  then have sc: "scoped (pm_action p) = ai_scoped info"
    by (simp add: scoped_def action_info_of_def get_or_def)
  show ?thesis
  proof (cases "ai_scoped info")
    case False
    then show ?thesis using assms info sc
      by (simp add: parse_permission_def permission_string_def permission_ok_def)
  next
    case True
    then show ?thesis
      using info sc scoped_text_unknown [OF info, of "pm_scope p"]
        cut_last_byte_append [OF scope_text_no_dot, of "pm_action p" "pm_scope p"]
      by (simp add: parse_permission_def permission_string_def)
  qed
qed

lemma parse_permission_Inr:
  assumes "parse_permission s = Inr p"
  shows "permission_string p = s" and "permission_ok p"
proof -
  have "permission_string p = s \<and> permission_ok p"
  proof (cases "mget catalogue s")
    case (Some info)
    then show ?thesis using assms
      by (auto simp: parse_permission_def permission_string_def permission_ok_def known_action_def
          scoped_def action_info_of_def get_or_def split: if_splits)
  next
    case None
    then obtain action sc info sc' where parts: "cut_last_byte (CHR ''.'') s = Some (action, sc)"
      "mget catalogue action = Some info" "ai_scoped info" "scope_of sc = Some sc'"
      "p = \<lparr>pm_action = action, pm_scope = sc'\<rparr>"
      using assms by (auto simp: parse_permission_def split: option.splits prod.splits if_splits)
    from cut_last_byte_Some(1) [OF parts(1)] scope_text_of [OF parts(4)]
    show ?thesis using parts(2,3,5)
      by (simp add: permission_string_def permission_ok_def known_action_def scoped_def
          action_info_of_def get_or_def)
  qed
  then show "permission_string p = s" "permission_ok p" by simp_all
qed

text \<open>The compiled grants are the parsed permissions, grouped by action.\<close>

lemma compile_grants_get:
  "compile_grants ss g = Inr g' \<Longrightarrow>
     get_or [] g' a = get_or [] g a @
       List.map_filter (\<lambda>s. case parse_permission s of Inl _ \<Rightarrow> None
          | Inr p \<Rightarrow> if pm_action p = a then Some (pm_scope p) else None) ss"
proof (induction ss arbitrary: g)
  case Nil
  then show ?case by (simp add: map_filter_Nil)
next
  case (Cons s ss)
  then obtain p where p: "parse_permission s = Inr p" by (auto split: sum.splits)
  have "compile_grants ss (mput (pm_action p) (get_or [] g (pm_action p) @ [pm_scope p]) g) = Inr g'"
    using Cons.prems p by simp
  from Cons.IH [OF this] show ?case
    by (auto simp: map_filter_Cons p gomap_simps)
qed

lemma compile_grants_parse:
  "compile_grants ss g = Inr g' \<Longrightarrow> s \<in> set ss \<Longrightarrow> \<exists>p. parse_permission s = Inr p"
  by (induction ss arbitrary: g) (auto split: sum.splits)

lemma granted_scope:
  "(case parse_permission s of Inl _ \<Rightarrow> None
      | Inr p \<Rightarrow> if pm_action p = a then Some (pm_scope p) else None) = Some sc \<longleftrightarrow>
   parse_permission s = Inr \<lparr>pm_action = a, pm_scope = sc\<rparr>"
proof (cases "parse_permission s")
  case (Inr p)
  then show ?thesis by (cases p) auto
qed simp

lemma compile_role_grants:
  assumes "compile_role r = Inr cr"
  shows "cr_role cr = r" and "ro_id r \<noteq> []" and
    "sc \<in> set (get_or [] (cr_grants cr) a) \<longleftrightarrow>
       (\<exists>s \<in> set (ro_permissions r). parse_permission s = Inr \<lparr>pm_action = a, pm_scope = sc\<rparr>)"
proof -
  obtain g where g: "compile_grants (ro_permissions r) [] = Inr g" "cr = \<lparr>cr_role = r, cr_grants = g\<rparr>"
    and "ro_id r \<noteq> []"
    using assms by (auto simp: compile_role_def split: if_splits sum.splits)
  then show "cr_role cr = r" "ro_id r \<noteq> []" by simp_all
  show "sc \<in> set (get_or [] (cr_grants cr) a) \<longleftrightarrow>
       (\<exists>s \<in> set (ro_permissions r). parse_permission s = Inr \<lparr>pm_action = a, pm_scope = sc\<rparr>)"
    using compile_grants_get [OF g(1), of a] g(2) by (simp add: map_filter_in granted_scope)
qed

end
