(* ===== verification/Access_Conditions.thy ===== *)
theory Access_Conditions
  imports Access_Roles
begin

unbundle bit_operations_syntax

text \<open>
  \<open>router/internal/authz/cond.go\<close>: the conditions of access rules, what makes one valid,
  and their three-valued evaluation. A Go panic (an index out of range, a failed type assertion)
  is \<open>None\<close> in the evaluation and in \<open>prepare\<close>; an error is its \<open>access_error\<close>.
  The parts of the standard library whose results rest on text grammars or on the time-zone
  database are arguments, collected in \<open>rule_lib\<close>: \<open>netip.ParseAddr\<close> and
  \<open>netip.ParsePrefix\<close>, \<open>time.LoadLocation\<close> with the minute of the day a zone puts an
  instant in, and the texts \<open>fmt\<close> gives a \<open>float64\<close> and a quoted string.
\<close>

section \<open>Numbers, addresses and times\<close>

record ip_prefix =
  px_addr :: ip_addr
  px_bits :: nat

record rule_lib =
  li_parse_addr :: "string \<Rightarrow> ip_addr option"
  li_parse_prefix :: "string \<Rightarrow> ip_prefix option"
  li_zone :: "string \<Rightarrow> bool"
  li_minute :: "string \<Rightarrow> gotime \<Rightarrow> int"
  li_float_text :: "float64 \<Rightarrow> string"
  li_quote :: "string \<Rightarrow> string"

text \<open>Conversion of an \<open>int\<close> to \<open>float64\<close>: the nearest 53-bit number, ties to even.\<close>

fun bit_length :: "nat \<Rightarrow> nat" where
  "bit_length n = (if n = 0 then 0 else Suc (bit_length (n div 2)))"

declare bit_length.simps [simp del]

definition float_of_int :: "int \<Rightarrow> float64" where
  "float_of_int i =
     (let a = nat \<bar>i\<bar>; len = bit_length a
      in if len \<le> 53 then Fl_Fin (of_int i)
         else
           (let k = len - 53; q = a div 2 ^ k; r = a mod 2 ^ k; half = 2 ^ (k - 1);
                q' = (if r > half \<or> (r = half \<and> odd q) then q + 1 else q)
            in Fl_Fin (of_int (sgn i * int (q' * 2 ^ k)))))"

definition fl_less :: "float64 \<Rightarrow> float64 \<Rightarrow> bool" where
  "fl_less x y =
     (case x of
        Fl_NaN \<Rightarrow> False
      | Fl_Inf p \<Rightarrow> (case y of Fl_NaN \<Rightarrow> False | Fl_Inf q \<Rightarrow> \<not> p \<and> q | Fl_Fin _ \<Rightarrow> \<not> p)
      | Fl_Fin a \<Rightarrow> (case y of Fl_NaN \<Rightarrow> False | Fl_Inf q \<Rightarrow> q | Fl_Fin b \<Rightarrow> a < b))"

definition fl_eq :: "float64 \<Rightarrow> float64 \<Rightarrow> bool" where
  "fl_eq x y \<longleftrightarrow> x = y \<and> x \<noteq> Fl_NaN"

text \<open>The decimal text of an \<open>int\<close>.\<close>

fun nat_text :: "nat \<Rightarrow> string" where
  "nat_text n =
     (if n < 10 then [char_of (48 + n)] else nat_text (n div 10) @ [char_of (48 + n mod 10)])"

declare nat_text.simps [simp del]

definition int_text :: "int \<Rightarrow> string" where
  "int_text i = (if i < 0 then CHR ''-'' # nat_text (nat (- i)) else nat_text (nat i))"

text \<open>\<open>netip.Addr\<close>: \<open>Unmap\<close> turns an IPv4-mapped IPv6 address into the IPv4 one.\<close>

definition addr_valid :: "ip_addr \<Rightarrow> bool" where
  "addr_valid a \<longleftrightarrow> a \<noteq> No_Addr"

definition addr_unmap :: "ip_addr \<Rightarrow> ip_addr" where
  "addr_unmap a =
     (case a of
        Addr6 w z \<Rightarrow> if drop_bit 32 w = 0xFFFF then Addr4 (ucast w) else a
      | _ \<Rightarrow> a)"

definition prefix_contains :: "ip_prefix \<Rightarrow> ip_addr \<Rightarrow> bool" where
  "prefix_contains p ip =
     (case px_addr p of
        No_Addr \<Rightarrow> False
      | Addr4 v \<Rightarrow>
          (case ip of Addr4 w \<Rightarrow> drop_bit (32 - px_bits p) (w XOR v) = 0 | _ \<Rightarrow> False)
      | Addr6 v _ \<Rightarrow>
          (case ip of Addr6 w z \<Rightarrow> z = [] \<and> drop_bit (128 - px_bits p) (w XOR v) = 0 | _ \<Rightarrow> False))"

text \<open>\<open>time.Parse("15:04", s)\<close>: one or two digits, a colon, two digits.\<close>

definition is_digit :: "char \<Rightarrow> bool" where
  "is_digit c \<longleftrightarrow> 48 \<le> (of_char c :: nat) \<and> (of_char c :: nat) \<le> 57"

definition digit_value :: "char \<Rightarrow> int" where
  "digit_value c = int (of_char c) - 48"

definition get_num :: "bool \<Rightarrow> string \<Rightarrow> (int \<times> string) option" where
  "get_num fixed s =
     (case s of
        [] \<Rightarrow> None
      | c # cs \<Rightarrow>
          if \<not> is_digit c then None
          else (case cs of
              [] \<Rightarrow> if fixed then None else Some (digit_value c, [])
            | d # ds \<Rightarrow>
                if is_digit d then Some (digit_value c * 10 + digit_value d, ds)
                else if fixed then None else Some (digit_value c, cs)))"

definition parse_clock :: "string \<Rightarrow> int option" where
  "parse_clock s =
     (case get_num False s of
        None \<Rightarrow> None
      | Some (hour, rest) \<Rightarrow>
          if 24 \<le> hour then None
          else (case rest of
              [] \<Rightarrow> None
            | c # cs \<Rightarrow>
                if c \<noteq> CHR '':'' then None
                else (case get_num True cs of
                    None \<Rightarrow> None
                  | Some (minute, rest') \<Rightarrow>
                      if 60 \<le> minute \<or> rest' \<noteq> [] then None else Some (hour * 60 + minute))))"

section \<open>Conditions\<close>

record cond_arg =
  ag_ref :: string
  ag_lit :: go_value

record prepared =
  pp_zone :: "string option"
  pp_from :: int
  pp_to :: int
  pp_prefix :: "ip_prefix option"

definition unprepared :: prepared where
  "unprepared = \<lparr>pp_zone = None, pp_from = 0, pp_to = 0, pp_prefix = None\<rparr>"

datatype cond = Cond
  (cd_all: "cond list option")
  (cd_any: "cond list option")
  (cd_not: "cond option")
  (cd_op: string)
  (cd_args: "cond_arg list")
  (cd_prep: prepared)

text \<open>\<open>clone\<close>: appending to a nil slice leaves an empty list nil.\<close>

fun clone :: "cond \<Rightarrow> cond" where
  "clone (Cond al an nt op args pp) =
     Cond (case al of None \<Rightarrow> None | Some cs \<Rightarrow> if cs = [] then None else Some (map clone cs))
       (case an of None \<Rightarrow> None | Some cs \<Rightarrow> if cs = [] then None else Some (map clone cs))
       (case nt of None \<Rightarrow> None | Some c \<Rightarrow> Some (clone c))
       op args unprepared"

definition lit_string :: "cond_arg list \<Rightarrow> nat \<Rightarrow> string option" where
  "lit_string args i =
     (if i < length args then (case ag_lit (args ! i) of Val_String s \<Rightarrow> Some s | _ \<Rightarrow> None) else None)"

text \<open>
  \<open>prepare\<close>, which parses the literals of a leaf once; \<open>None\<close> when a type assertion or an
  index of the code would panic.
\<close>

definition prepare_leaf :: "rule_lib \<Rightarrow> string \<Rightarrow> cond_arg list \<Rightarrow> prepared \<Rightarrow> prepared option" where
  "prepare_leaf L op args pp =
     (if op = ''time_between''
      then (case (lit_string args 1, lit_string args 2, lit_string args 3) of
              (Some f, Some t, Some z) \<Rightarrow>
                Some (pp\<lparr>pp_from := (case parse_clock f of None \<Rightarrow> 0 | Some n \<Rightarrow> n),
                         pp_to := (case parse_clock t of None \<Rightarrow> 0 | Some n \<Rightarrow> n),
                         pp_zone := (if li_zone L z then Some z else None)\<rparr>)
            | _ \<Rightarrow> None)
      else if op = ''cidr''
      then (case lit_string args 1 of
              None \<Rightarrow> None
            | Some s \<Rightarrow> Some (case li_parse_prefix L s of None \<Rightarrow> pp | Some p \<Rightarrow> pp\<lparr>pp_prefix := Some p\<rparr>))
      else Some pp)"

fun prepare :: "rule_lib \<Rightarrow> cond \<Rightarrow> cond option" where
  "prepare L (Cond al an nt op args pp) =
     (case (case al of None \<Rightarrow> Some None | Some cs \<Rightarrow> map_option Some (those (map (prepare L) cs))) of
        None \<Rightarrow> None
      | Some al' \<Rightarrow>
          (case (case an of None \<Rightarrow> Some None | Some cs \<Rightarrow> map_option Some (those (map (prepare L) cs))) of
             None \<Rightarrow> None
           | Some an' \<Rightarrow>
               (case (case nt of None \<Rightarrow> Some None | Some c \<Rightarrow> map_option Some (prepare L c)) of
                  None \<Rightarrow> None
                | Some nt' \<Rightarrow> map_option (Cond al' an' nt' op args) (prepare_leaf L op args pp))))"

section \<open>Validation\<close>

definition operators :: "(string, int) gomap" where
  "operators =
     [(''eq'', 2), (''ne'', 2), (''in'', 2), (''not_in'', 2), (''has'', 2), (''glob'', 2),
      (''cidr'', 2), (''lt'', 2), (''le'', 2), (''gt'', 2), (''ge'', 2), (''exists'', 1),
      (''time_between'', 4)]"

definition max_cond_depth :: int where "max_cond_depth = 16"

definition valid_ref :: "string \<Rightarrow> bool" where
  "valid_ref ref =
     (case cut_byte (CHR ''.'') ref of
        (ns, rest, ok) \<Rightarrow>
          if \<not> ok \<or> rest = [] then False
          else if ns = ''subject''
          then rest \<in> {''id'', ''kind'', ''roles'', ''teams'', ''managed_by''} \<or>
               (has_prefix rest ''attrs.'' \<and> length rest > length ''attrs.'')
          else if ns = ''resource'' then True
          else if ns = ''context''
          then rest \<in> {''time'', ''source_ip'', ''endpoint'', ''priority'', ''credential_kind'',
                        ''via_upstream'', ''prompt_tokens''} \<or>
               (has_prefix rest ''extra.'' \<and> length rest > length ''extra.'')
          else False)"

fun first_error :: "access_error option list \<Rightarrow> access_error option" where
  "first_error [] = None"
| "first_error (None # es) = first_error es"
| "first_error (Some e # es) = Some e"

definition clock_error :: "cond_arg list \<Rightarrow> nat \<Rightarrow> access_error option" where
  "clock_error args i =
     (case lit_string args i of
        None \<Rightarrow> Some Err_Clock_Literal
      | Some s \<Rightarrow> (case parse_clock s of None \<Rightarrow> Some (Err_Clock s) | Some _ \<Rightarrow> None))"

definition leaf_error :: "rule_lib \<Rightarrow> string \<Rightarrow> cond_arg list \<Rightarrow> access_error option" where
  "leaf_error L op args =
     (if op = ''exists''
      then (if ag_ref (args ! 0) = [] then Some Err_Exists_Literal else None)
      else if op = ''cidr''
      then (case lit_string args 1 of
              None \<Rightarrow> Some Err_Cidr_Literal
            | Some s \<Rightarrow> (case li_parse_prefix L s of None \<Rightarrow> Some Err_Cidr_Prefix | Some _ \<Rightarrow> None))
      else if op = ''time_between''
      then first_error [clock_error args 1, clock_error args 2,
             (case lit_string args 3 of
                None \<Rightarrow> Some Err_Zone_Literal
              | Some z \<Rightarrow> if li_zone L z then None else Some Err_Zone)]
      else if op = ''glob''
      then (case lit_string args 1 of None \<Rightarrow> Some Err_Glob_Literal | Some _ \<Rightarrow> None)
      else None)"

definition op_error :: "rule_lib \<Rightarrow> string \<Rightarrow> cond_arg list \<Rightarrow> access_error option" where
  "op_error L op args =
     (case mget operators op of
        None \<Rightarrow> Some (Err_Unknown_Operator op)
      | Some want \<Rightarrow>
          if int (length args) \<noteq> want then Some (Err_Arity op want (int (length args)))
          else (case first_error (map (\<lambda>a. if ag_ref a \<noteq> [] \<and> \<not> valid_ref (ag_ref a)
                       then Some (Err_Unknown_Attribute op (ag_ref a)) else None) args) of
              Some e \<Rightarrow> Some e
            | None \<Rightarrow> leaf_error L op args))"

fun cond_error :: "rule_lib \<Rightarrow> int \<Rightarrow> cond \<Rightarrow> access_error option" where
  "cond_error L depth (Cond al an nt op args pp) =
     (if depth > max_cond_depth then Some Err_Too_Deep
      else if (if al = None then 0 else 1) + (if an = None then 0 else 1) +
              (if nt = None then 0 else 1) + (if op = [] then 0 else 1) \<noteq> (1 :: nat)
      then Some Err_Cond_Shape
      else (case first_error
                  (map (cond_error L (depth + 1)) (case al of None \<Rightarrow> [] | Some cs \<Rightarrow> cs) @
                   map (cond_error L (depth + 1)) (case an of None \<Rightarrow> [] | Some cs \<Rightarrow> cs)) of
              Some e \<Rightarrow> Some e
            | None \<Rightarrow>
                (case nt of
                   Some c \<Rightarrow> cond_error L (depth + 1) c
                 | None \<Rightarrow> if op = [] then None else op_error L op args)))"

fun context_dependent :: "cond \<Rightarrow> bool" where
  "context_dependent (Cond al an nt op args pp) =
     (if list_ex context_dependent ((case al of None \<Rightarrow> [] | Some cs \<Rightarrow> cs) @
           (case an of None \<Rightarrow> [] | Some cs \<Rightarrow> cs))
      then True
      else (case nt of
          Some c \<Rightarrow> context_dependent c
        | None \<Rightarrow> list_ex (\<lambda>a. has_prefix (ag_ref a) ''context.'') args))"

section \<open>Evaluation\<close>

datatype tri = Tri_False | Tri_True | Tri_Unknown

definition tri_of :: "bool \<Rightarrow> tri" where
  "tri_of b = (if b then Tri_True else Tri_False)"

fun tri_not :: "tri \<Rightarrow> tri" where
  "tri_not Tri_True = Tri_False"
| "tri_not Tri_False = Tri_True"
| "tri_not Tri_Unknown = Tri_Unknown"

definition resolve_subject :: "subject \<Rightarrow> string \<Rightarrow> go_value option" where
  "resolve_subject s rest =
     (if rest = ''id'' then (if su_id s \<noteq> [] then Some (Val_String (su_id s)) else None)
      else if rest = ''kind'' then (if su_kind s \<noteq> [] then Some (Val_String (su_kind s)) else None)
      else if rest = ''roles'' then Some (Val_Strings (map bi_role (su_bindings s)))
      else if rest = ''teams'' then Some (Val_Strings (su_teams s))
      else if rest = ''managed_by'' then Some (Val_String (su_managed_by s))
      else if has_prefix rest ''attrs.''
      then map_option Val_String (mget (su_attrs s) (drop (length ''attrs.'') rest))
      else None)"

definition resolve_resource :: "resource \<Rightarrow> string \<Rightarrow> go_value option" where
  "resolve_resource r rest =
     (if rest = ''type'' then (if rs_type r \<noteq> [] then Some (Val_String (rs_type r)) else None)
      else if rest = ''id'' then (if rs_id r \<noteq> [] then Some (Val_String (rs_id r)) else None)
      else if rest = ''owner'' then (if rs_owner r \<noteq> [] then Some (Val_String (rs_owner r)) else None)
      else if rest = ''team'' then (if rs_team r \<noteq> [] then Some (Val_String (rs_team r)) else None)
      else mget (rs_attrs r) rest)"

definition resolve_context :: "access_context \<Rightarrow> string \<Rightarrow> go_value option" where
  "resolve_context c rest =
     (if rest = ''time'' then (if ac_time c \<noteq> zero_time then Some (Val_Time (ac_time c)) else None)
      else if rest = ''source_ip''
      then (if addr_valid (ac_source_ip c) then Some (Val_Addr (ac_source_ip c)) else None)
      else if rest = ''endpoint'' then (if ac_endpoint c \<noteq> [] then Some (Val_String (ac_endpoint c)) else None)
      else if rest = ''priority'' then (if ac_priority c \<noteq> [] then Some (Val_String (ac_priority c)) else None)
      else if rest = ''credential_kind''
      then (if ac_credential_kind c \<noteq> [] then Some (Val_String (ac_credential_kind c)) else None)
      else if rest = ''via_upstream'' then Some (Val_Bool False)
      else if rest = ''prompt_tokens'' then Some (Val_Float (float_of_int (ac_prompt_tokens c)))
      else if has_prefix rest ''extra.'' then mget (ac_extra c) (drop (length ''extra.'') rest)
      else None)"

definition resolve :: "access_request \<Rightarrow> string \<Rightarrow> go_value option" where
  "resolve req ref =
     (case cut_byte (CHR ''.'') ref of
        (ns, rest, ok) \<Rightarrow>
          if ns = ''subject'' then resolve_subject (ar_subject req) rest
          else if ns = ''resource'' then resolve_resource (ar_resource req) rest
          else if ns = ''context'' then resolve_context (ar_context req) rest
          else None)"

definition as_string :: "rule_lib \<Rightarrow> go_value \<Rightarrow> string option" where
  "as_string L v =
     (case v of
        Val_String s \<Rightarrow> Some s
      | Val_Bool b \<Rightarrow> Some (if b then ''true'' else ''false'')
      | Val_Float x \<Rightarrow> Some (li_float_text L x)
      | Val_Int i \<Rightarrow> Some (int_text i)
      | _ \<Rightarrow> None)"

definition as_strings :: "rule_lib \<Rightarrow> go_value \<Rightarrow> string list option" where
  "as_strings L v =
     (case v of
        Val_Strings ss \<Rightarrow> Some ss
      | Val_List vs \<Rightarrow> those (map (as_string L) vs)
      | _ \<Rightarrow> None)"

definition as_number :: "go_value \<Rightarrow> float64 option" where
  "as_number v =
     (case v of
        Val_Float x \<Rightarrow> if x = Fl_NaN then None else Some x
      | Val_Int i \<Rightarrow> Some (float_of_int i)
      | Val_Int64 i \<Rightarrow> Some (float_of_int i)
      | _ \<Rightarrow> None)"

definition value_equal :: "rule_lib \<Rightarrow> go_value \<Rightarrow> go_value \<Rightarrow> bool" where
  "value_equal L a b =
     (case (as_number a, as_number b) of
        (Some x, Some y) \<Rightarrow> fl_eq x y
      | _ \<Rightarrow>
          (case (as_strings L a, as_strings L b) of
             (Some x, Some y) \<Rightarrow> sort x = sort y
           | _ \<Rightarrow>
               (case (as_string L a, as_string L b) of
                  (Some x, Some y) \<Rightarrow> x = y
                | _ \<Rightarrow> False)))"

fun arg_values :: "access_request \<Rightarrow> cond_arg list \<Rightarrow> go_value list option" where
  "arg_values req [] = Some []"
| "arg_values req (a # as) =
     (case (if ag_ref a = [] then Some (ag_lit a) else resolve req (ag_ref a)) of
        None \<Rightarrow> None
      | Some v \<Rightarrow> map_option ((#) v) (arg_values req as))"

text \<open>The operators; indexing past the arguments panics.\<close>

definition on_two :: "(go_value \<Rightarrow> go_value \<Rightarrow> tri) \<Rightarrow> go_value list \<Rightarrow> tri option" where
  "on_two f vals = (case vals of a # b # _ \<Rightarrow> Some (f a b) | _ \<Rightarrow> None)"

definition op_member :: "rule_lib \<Rightarrow> bool \<Rightarrow> go_value \<Rightarrow> go_value \<Rightarrow> tri" where
  "op_member L want x ls =
     (case as_strings L ls of
        None \<Rightarrow> Tri_Unknown
      | Some list \<Rightarrow>
          (case as_string L x of
             None \<Rightarrow> Tri_Unknown
           | Some s \<Rightarrow> tri_of (list_ex (\<lambda>e. e = s) list = want)))"

definition op_glob :: "rule_lib \<Rightarrow> go_value \<Rightarrow> go_value \<Rightarrow> tri" where
  "op_glob L x p =
     (case (as_string L x, p) of
        (Some s, Val_String pat) \<Rightarrow> tri_of (glob pat s)
      | _ \<Rightarrow> Tri_Unknown)"

definition op_compare :: "string \<Rightarrow> go_value \<Rightarrow> go_value \<Rightarrow> tri" where
  "op_compare op x y =
     (case (as_number x, as_number y) of
        (Some a, Some b) \<Rightarrow>
          tri_of (if op = ''lt'' then fl_less a b
                  else if op = ''le'' then fl_less a b \<or> fl_eq a b
                  else if op = ''gt'' then fl_less b a
                  else fl_less b a \<or> fl_eq a b)
      | _ \<Rightarrow> Tri_Unknown)"

definition value_addr :: "rule_lib \<Rightarrow> go_value \<Rightarrow> ip_addr option" where
  "value_addr L v =
     (case v of Val_Addr a \<Rightarrow> Some a | Val_String s \<Rightarrow> li_parse_addr L s | _ \<Rightarrow> None)"

definition op_cidr :: "rule_lib \<Rightarrow> prepared \<Rightarrow> go_value list \<Rightarrow> tri option" where
  "op_cidr L pp vals =
     (case vals of
        [] \<Rightarrow> None
      | v # vs \<Rightarrow>
          (case value_addr L v of
             None \<Rightarrow> Some Tri_Unknown
           | Some addr \<Rightarrow>
               (case pp_prefix pp of
                  Some p \<Rightarrow>
                    Some (if addr_valid addr then tri_of (prefix_contains p (addr_unmap addr))
                          else Tri_Unknown)
                | None \<Rightarrow>
                    (case vs of
                       Val_String s # _ \<Rightarrow>
                         (case li_parse_prefix L s of
                            None \<Rightarrow> Some Tri_Unknown
                          | Some p \<Rightarrow>
                              Some (if addr_valid addr then tri_of (prefix_contains p (addr_unmap addr))
                                    else Tri_Unknown))
                     | _ \<Rightarrow> None))))"

definition in_window :: "int \<Rightarrow> int \<Rightarrow> int \<Rightarrow> bool" where
  "in_window from to m = (if from \<le> to then m \<ge> from \<and> m < to else m \<ge> from \<or> m < to)"

definition op_time_between :: "rule_lib \<Rightarrow> prepared \<Rightarrow> go_value list \<Rightarrow> tri option" where
  "op_time_between L pp vals =
     (case vals of
        [] \<Rightarrow> None
      | v # vs \<Rightarrow>
          (case v of
             Val_Time t \<Rightarrow>
               if t = zero_time then Some Tri_Unknown
               else (case pp_zone pp of
                   Some z \<Rightarrow> Some (tri_of (in_window (pp_from pp) (pp_to pp) (li_minute L z t)))
                 | None \<Rightarrow>
                     (case vs of
                        Val_String f # Val_String u # Val_String z # _ \<Rightarrow>
                          if li_zone L z
                          then Some (tri_of (in_window
                                 (case parse_clock f of None \<Rightarrow> 0 | Some n \<Rightarrow> n)
                                 (case parse_clock u of None \<Rightarrow> 0 | Some n \<Rightarrow> n) (li_minute L z t)))
                          else Some Tri_Unknown
                      | _ \<Rightarrow> None))
           | _ \<Rightarrow> Some Tri_Unknown))"

definition run_op :: "rule_lib \<Rightarrow> string \<Rightarrow> prepared \<Rightarrow> go_value list \<Rightarrow> tri option" where
  "run_op L op pp vals =
     (if op = ''exists'' then Some Tri_True
      else if op = ''eq'' then on_two (\<lambda>a b. tri_of (value_equal L a b)) vals
      else if op = ''ne'' then on_two (\<lambda>a b. tri_of (\<not> value_equal L a b)) vals
      else if op = ''in'' then on_two (op_member L True) vals
      else if op = ''not_in'' then on_two (op_member L False) vals
      else if op = ''has'' then on_two (\<lambda>a b. op_member L True b a) vals
      else if op = ''glob'' then on_two (op_glob L) vals
      else if op = ''cidr'' then op_cidr L pp vals
      else if op = ''lt'' \<or> op = ''le'' \<or> op = ''gt'' \<or> op = ''ge'' then on_two (op_compare op) vals
      else if op = ''time_between'' then op_time_between L pp vals
      else Some Tri_Unknown)"

definition eval_op :: "rule_lib \<Rightarrow> access_request \<Rightarrow> string \<Rightarrow> cond_arg list \<Rightarrow> prepared \<Rightarrow> tri option" where
  "eval_op L req op args pp =
     (case arg_values req args of
        None \<Rightarrow> Some (if op = ''exists'' then Tri_False else Tri_Unknown)
      | Some vals \<Rightarrow> run_op L op pp vals)"

text \<open>The loops over \<open>all\<close> and \<open>any\<close>, which stop at the first false or true condition.\<close>

fun all_loop :: "tri option list \<Rightarrow> tri \<Rightarrow> tri option" where
  "all_loop [] out = Some out"
| "all_loop (None # vs) out = None"
| "all_loop (Some v # vs) out =
     (case v of
        Tri_False \<Rightarrow> Some Tri_False
      | Tri_Unknown \<Rightarrow> all_loop vs Tri_Unknown
      | Tri_True \<Rightarrow> all_loop vs out)"

fun any_loop :: "tri option list \<Rightarrow> tri \<Rightarrow> tri option" where
  "any_loop [] out = Some out"
| "any_loop (None # vs) out = None"
| "any_loop (Some v # vs) out =
     (case v of
        Tri_True \<Rightarrow> Some Tri_True
      | Tri_Unknown \<Rightarrow> any_loop vs Tri_Unknown
      | Tri_False \<Rightarrow> any_loop vs out)"

fun cond_eval :: "rule_lib \<Rightarrow> access_request \<Rightarrow> cond \<Rightarrow> tri option" where
  "cond_eval L req (Cond al an nt op args pp) =
     (case al of
        Some cs \<Rightarrow> all_loop (map (cond_eval L req) cs) Tri_True
      | None \<Rightarrow>
          (case an of
             Some cs \<Rightarrow> any_loop (map (cond_eval L req) cs) Tri_False
           | None \<Rightarrow>
               (case nt of
                  Some c \<Rightarrow> map_option tri_not (cond_eval L req c)
                | None \<Rightarrow> eval_op L req op args pp)))"

end
