(* ===== verification/Access_Logic.thy ===== *)
theory Access_Logic
  imports Access_Conditions
begin

text \<open>
  What the evaluation of conditions guarantees: it is Kleene's three-valued logic, it never panics
  on a condition that was validated and prepared, preparing changes no value, a condition that
  reads nothing of the context does not depend on it, and attributes a request does not carry only
  ever make a value unknown.
\<close>

lemma cond_induct [case_names Cond]:
  assumes "\<And>al an nt op args pp.
    (\<And>cs c. al = Some cs \<Longrightarrow> c \<in> set cs \<Longrightarrow> P c) \<Longrightarrow>
    (\<And>cs c. an = Some cs \<Longrightarrow> c \<in> set cs \<Longrightarrow> P c) \<Longrightarrow>
    (\<And>c. nt = Some c \<Longrightarrow> P c) \<Longrightarrow> P (Cond al an nt op args pp)"
  shows "P c"
  by (induction c) (auto intro!: assms)

section \<open>Kleene's logic\<close>

text \<open>Truth values in the order in which \<open>all\<close> takes the least and \<open>any\<close> the greatest.\<close>

definition tri_rank :: "tri \<Rightarrow> nat" where
  "tri_rank t = (case t of Tri_False \<Rightarrow> 0 | Tri_Unknown \<Rightarrow> 1 | Tri_True \<Rightarrow> 2)"

lemma tri_rank_inj: "tri_rank s = tri_rank t \<longleftrightarrow> s = t"
  by (cases s; cases t) (simp_all add: tri_rank_def)

instantiation tri :: linorder
begin

definition less_eq_tri :: "tri \<Rightarrow> tri \<Rightarrow> bool" where
  "s \<le> t \<longleftrightarrow> tri_rank s \<le> tri_rank t"

definition less_tri :: "tri \<Rightarrow> tri \<Rightarrow> bool" where
  "s < t \<longleftrightarrow> tri_rank s < tri_rank t"

instance
  by standard (auto simp: less_eq_tri_def less_tri_def tri_rank_inj)

end

lemmas tri_order = less_eq_tri_def less_tri_def tri_rank_def

lemma tri_not_antitone: "s \<le> t \<Longrightarrow> tri_not t \<le> tri_not s"
  by (cases s; cases t) (simp_all add: tri_order)

lemma tri_bounds [simp]: "Tri_False \<le> t" "t \<le> Tri_True"
  by (cases t; simp add: tri_order)+

lemma tri_min_max:
  "min Tri_False t = Tri_False" "min Tri_True t = t" "min Tri_Unknown Tri_True = Tri_Unknown"
  "min Tri_Unknown Tri_False = Tri_False" "min Tri_Unknown Tri_Unknown = Tri_Unknown"
  "max Tri_True t = Tri_True" "max Tri_False t = t" "max Tri_Unknown Tri_True = Tri_True"
  "max Tri_Unknown Tri_False = Tri_Unknown" "max Tri_Unknown Tri_Unknown = Tri_Unknown"
  by (cases t; simp add: min_def max_def tri_order)+

lemma all_loop_min: "out \<noteq> Tri_False \<Longrightarrow> all_loop (map Some vs) out = Some (fold min vs out)"
proof (induction vs arbitrary: out)
  case Nil
  then show ?case by simp
next
  case (Cons v vs)
  have low: "fold min vs Tri_False = Tri_False"
    by (induction vs) (simp_all add: min_absorb2)
  show ?case
    using Cons by (cases v; cases out) (simp_all add: low tri_min_max)
qed

lemma any_loop_max: "out \<noteq> Tri_True \<Longrightarrow> any_loop (map Some vs) out = Some (fold max vs out)"
proof (induction vs arbitrary: out)
  case Nil
  then show ?case by simp
next
  case (Cons v vs)
  have high: "fold max vs Tri_True = Tri_True"
    by (induction vs) (simp_all add: max_absorb2)
  show ?case
    using Cons by (cases v; cases out) (simp_all add: high tri_min_max)
qed

text \<open>The value of a loop is determined by which values occur.\<close>

lemma fold_min_tri: "fold min vs Tri_True = (if Tri_False \<in> set vs then Tri_False
    else if Tri_Unknown \<in> set vs then Tri_Unknown else Tri_True)"
proof -
  have "fold min vs out = (if Tri_False \<in> set (out # vs) then Tri_False
      else if Tri_Unknown \<in> set (out # vs) then Tri_Unknown else Tri_True)" for out
  proof (induction vs arbitrary: out)
    case (Cons v vs)
    show ?case by (simp add: Cons) (cases v; cases out; simp add: tri_min_max)
  next
    case Nil
    show ?case by (cases out) simp_all
  qed
  then show ?thesis by simp
qed

lemma fold_max_tri: "fold max vs Tri_False = (if Tri_True \<in> set vs then Tri_True
    else if Tri_Unknown \<in> set vs then Tri_Unknown else Tri_False)"
proof -
  have "fold max vs out = (if Tri_True \<in> set (out # vs) then Tri_True
      else if Tri_Unknown \<in> set (out # vs) then Tri_Unknown else Tri_False)" for out
  proof (induction vs arbitrary: out)
    case (Cons v vs)
    show ?case by (simp add: Cons) (cases v; cases out; simp add: tri_min_max)
  next
    case Nil
    show ?case by (cases out) simp_all
  qed
  then show ?thesis by simp
qed

section \<open>No panic\<close>

definition two_ops :: "string list" where
  "two_ops = [''eq'', ''ne'', ''in'', ''not_in'', ''has'', ''glob'', ''lt'', ''le'', ''gt'', ''ge'']"

text \<open>What a leaf needs so that none of its operators panics.\<close>

definition leaf_ready :: "string \<Rightarrow> cond_arg list \<Rightarrow> prepared \<Rightarrow> bool" where
  "leaf_ready op args pp \<longleftrightarrow>
     (op \<in> set two_ops \<longrightarrow> 2 \<le> length args) \<and>
     (op = ''cidr'' \<longrightarrow> args \<noteq> [] \<and> pp_prefix pp \<noteq> None) \<and>
     (op = ''time_between'' \<longrightarrow> args \<noteq> [] \<and> pp_zone pp \<noteq> None)"

fun cond_ready :: "cond \<Rightarrow> bool" where
  "cond_ready (Cond al an nt op args pp) \<longleftrightarrow>
     leaf_ready op args pp \<and>
     (case al of None \<Rightarrow> True | Some cs \<Rightarrow> list_all cond_ready cs) \<and>
     (case an of None \<Rightarrow> True | Some cs \<Rightarrow> list_all cond_ready cs) \<and>
     (case nt of None \<Rightarrow> True | Some c \<Rightarrow> cond_ready c)"

lemma arg_values_length: "arg_values req args = Some vals \<Longrightarrow> length vals = length args"
  by (induction args arbitrary: vals) (auto split: option.splits)

lemma on_two_Some: "2 \<le> length vals \<Longrightarrow> on_two f vals \<noteq> None"
  by (cases vals; cases "tl vals") (auto simp: on_two_def)

lemma run_op_Some:
  assumes "leaf_ready op args pp" and "length vals = length args"
  shows "run_op L op pp vals \<noteq> None"
proof -
  have two: "op \<in> set two_ops \<Longrightarrow> 2 \<le> length vals" using assms by (simp add: leaf_ready_def)
  have cidr: "op = ''cidr'' \<Longrightarrow> op_cidr L pp vals \<noteq> None"
    using assms by (cases vals) (auto simp: leaf_ready_def op_cidr_def split: option.splits)
  have time: "op = ''time_between'' \<Longrightarrow> op_time_between L pp vals \<noteq> None"
    using assms
    by (cases vals) (auto simp: leaf_ready_def op_time_between_def split: option.splits go_value.splits)
  show ?thesis
    unfolding run_op_def using two [THEN on_two_Some] cidr time
    by (simp add: two_ops_def split: if_split)
qed

lemma eval_op_Some: "leaf_ready op args pp \<Longrightarrow> eval_op L req op args pp \<noteq> None"
  unfolding eval_op_def using run_op_Some arg_values_length by (auto split: option.split)

lemma all_loop_Some: "None \<notin> set vs \<Longrightarrow> all_loop vs out \<noteq> None"
proof (induction vs arbitrary: out)
  case (Cons v vs)
  then show ?case by (cases v) (auto split: tri.split)
qed simp

lemma any_loop_Some: "None \<notin> set vs \<Longrightarrow> any_loop vs out \<noteq> None"
proof (induction vs arbitrary: out)
  case (Cons v vs)
  then show ?case by (cases v) (auto split: tri.split)
qed simp

lemma cond_eval_Some: "cond_ready c \<Longrightarrow> cond_eval L req c \<noteq> None"
proof (induction c rule: cond_induct)
  case (Cond al an nt op args pp)
  have all: "al = Some cs \<Longrightarrow> None \<notin> set (map (cond_eval L req) cs)" for cs
    using Cond.IH(1) [of cs] Cond.prems by (fastforce simp: list_all_iff)
  have any: "an = Some cs \<Longrightarrow> None \<notin> set (map (cond_eval L req) cs)" for cs
    using Cond.IH(2) [of cs] Cond.prems by (fastforce simp: list_all_iff)
  have nt: "nt = Some c \<Longrightarrow> cond_eval L req c \<noteq> None" for c
    using Cond.IH(3) [of c] Cond.prems by simp
  have leaf: "eval_op L req op args pp \<noteq> None" using Cond.prems eval_op_Some by simp
  show ?case
    unfolding cond_eval.simps
    using all [THEN all_loop_Some] any [THEN any_loop_Some] nt leaf
    by (simp split: option.split)
qed

section \<open>Preparing\<close>

lemma first_error_None: "first_error es = None \<longleftrightarrow> set es \<subseteq> {None}"
  by (induction es rule: first_error.induct) auto

lemma those_map_Some:
  "(\<And>x. x \<in> set xs \<Longrightarrow> f x = Some (g x)) \<Longrightarrow> those (map f xs) = Some (map g xs)"
  by (induction xs) simp_all

lemma op_error_leaf:
  assumes "op_error L op args = None"
  shows "\<exists>pp. prepare_leaf L op args unprepared = Some pp \<and> leaf_ready op args pp"
proof -
  from assms obtain want where want: "mget operators op = Some want" "int (length args) = want"
    and leaf: "leaf_error L op args = None"
    by (auto simp: op_error_def split: option.splits if_splits)
  have two: "op \<in> set two_ops \<Longrightarrow> 2 \<le> length args"
    using want by (auto simp: two_ops_def operators_def)
  have arity: "op = ''cidr'' \<Longrightarrow> args \<noteq> []" "op = ''time_between'' \<Longrightarrow> args \<noteq> []"
    using want by (auto simp: operators_def)
  have clock: "clock_error args i = None \<Longrightarrow> \<exists>s. lit_string args i = Some s" for i
    by (auto simp: clock_error_def split: option.splits)
  show ?thesis
  proof (cases "op = ''time_between''")
    case True
    with leaf have "clock_error args 1 = None" "clock_error args 2 = None"
      "\<exists>z. lit_string args 3 = Some z \<and> li_zone L z"
      by (auto simp: leaf_error_def first_error_None split: option.splits if_splits)
    then obtain f t z where "lit_string args 1 = Some f" "lit_string args 2 = Some t"
      "lit_string args 3 = Some z" "li_zone L z"
      using clock by blast
    then show ?thesis
      using arity(2) True by (simp add: prepare_leaf_def leaf_ready_def two_ops_def)
  next
    case False
    show ?thesis
    proof (cases "op = ''cidr''")
      case True
      with leaf obtain s p where "lit_string args 1 = Some s" "li_parse_prefix L s = Some p"
        by (auto simp: leaf_error_def split: option.splits)
      then show ?thesis
        using arity(1) True by (auto simp: prepare_leaf_def leaf_ready_def two_ops_def)
    next
      case False
      then show ?thesis using two \<open>op \<noteq> ''time_between''\<close>
        by (auto simp: prepare_leaf_def leaf_ready_def)
    qed
  qed
qed

text \<open>The condition \<open>Compile\<close> stores, as a function of a condition that validates.\<close>

fun prepared_of :: "rule_lib \<Rightarrow> cond \<Rightarrow> cond" where
  "prepared_of L (Cond al an nt op args pp) =
     Cond (case al of None \<Rightarrow> None | Some cs \<Rightarrow> if cs = [] then None else Some (map (prepared_of L) cs))
       (case an of None \<Rightarrow> None | Some cs \<Rightarrow> if cs = [] then None else Some (map (prepared_of L) cs))
       (case nt of None \<Rightarrow> None | Some c \<Rightarrow> Some (prepared_of L c))
       op args (the (prepare_leaf L op args unprepared))"

lemma cond_error_parts:
  assumes "cond_error L d (Cond al an nt op args pp) = None"
  shows "al = Some cs \<Longrightarrow> c \<in> set cs \<Longrightarrow> cond_error L (d + 1) c = None"
    and "an = Some cs \<Longrightarrow> c \<in> set cs \<Longrightarrow> cond_error L (d + 1) c = None"
    and "nt = Some c \<Longrightarrow> cond_error L (d + 1) c = None"
    and "op \<noteq> [] \<Longrightarrow> al = None \<and> an = None \<and> nt = None \<and> op_error L op args = None"
proof -
  note fe = assms [unfolded cond_error.simps]
  have lists: "first_error
      (map (cond_error L (d + 1)) (case al of None \<Rightarrow> [] | Some cs \<Rightarrow> cs) @
       map (cond_error L (d + 1)) (case an of None \<Rightarrow> [] | Some cs \<Rightarrow> cs)) = None"
    using fe by (auto split: if_splits option.splits)
  then show "al = Some cs \<Longrightarrow> c \<in> set cs \<Longrightarrow> cond_error L (d + 1) c = None"
    "an = Some cs \<Longrightarrow> c \<in> set cs \<Longrightarrow> cond_error L (d + 1) c = None"
    by (auto simp: first_error_None)
  show "nt = Some c \<Longrightarrow> cond_error L (d + 1) c = None"
    using fe lists by (auto split: if_splits)
  show "op \<noteq> [] \<Longrightarrow> al = None \<and> an = None \<and> nt = None \<and> op_error L op args = None"
    using fe lists by (auto split: if_splits option.splits)
qed

lemma prepare_leaf_ready:
  assumes "cond_error L d (Cond al an nt op args pp) = None"
  shows "\<exists>pp'. prepare_leaf L op args unprepared = Some pp' \<and> leaf_ready op args pp'"
proof (cases "op = []")
  case True
  then show ?thesis by (auto simp: prepare_leaf_def leaf_ready_def two_ops_def)
next
  case False
  then show ?thesis using cond_error_parts(4) [OF assms] op_error_leaf by blast
qed

lemma prepare_clone:
  "cond_error L d c = None \<Longrightarrow> prepare L (clone c) = Some (prepared_of L c) \<and> cond_ready (prepared_of L c)"
proof (induction c arbitrary: d rule: cond_induct)
  case (Cond al an nt op args pp)
  obtain pp' where leaf: "prepare_leaf L op args unprepared = Some pp'" "leaf_ready op args pp'"
    using prepare_leaf_ready [OF Cond.prems] by blast
  note IH = Cond.IH(1) [OF _ _ cond_error_parts(1) [OF Cond.prems]]
    Cond.IH(2) [OF _ _ cond_error_parts(2) [OF Cond.prems]]
    Cond.IH(3) [OF _ cond_error_parts(3) [OF Cond.prems]]
  have al: "al = Some cs \<Longrightarrow> those (map (prepare L \<circ> clone) cs) = Some (map (prepared_of L) cs)" for cs
    using IH(1) by (intro those_map_Some) auto
  have an: "an = Some cs \<Longrightarrow> those (map (prepare L \<circ> clone) cs) = Some (map (prepared_of L) cs)" for cs
    using IH(2) by (intro those_map_Some) auto
  have ready: "al = Some cs \<Longrightarrow> list_all (cond_ready \<circ> prepared_of L) cs"
    "an = Some cs \<Longrightarrow> list_all (cond_ready \<circ> prepared_of L) cs"
    "nt = Some c \<Longrightarrow> prepare L (clone c) = Some (prepared_of L c) \<and> cond_ready (prepared_of L c)" for cs c
    using IH by (auto simp: list_all_iff)
  show ?case using leaf al an ready
    by (cases al; cases an; cases nt) (simp_all add: list.pred_map)
qed

section \<open>Preparing changes no value\<close>

text \<open>
  A condition as \<open>UnmarshalJSON\<close> builds it: no list is empty, an argument is a reference or a
  literal and not both, and nothing is prepared yet.
\<close>

definition arg_plain :: "cond_arg \<Rightarrow> bool" where
  "arg_plain a \<longleftrightarrow> ag_ref a = [] \<or> ag_lit a = Val_Other"

fun cond_plain :: "cond \<Rightarrow> bool" where
  "cond_plain (Cond al an nt op args pp) \<longleftrightarrow>
     (case al of None \<Rightarrow> True | Some cs \<Rightarrow> cs \<noteq> [] \<and> list_all cond_plain cs) \<and>
     (case an of None \<Rightarrow> True | Some cs \<Rightarrow> cs \<noteq> [] \<and> list_all cond_plain cs) \<and>
     (case nt of None \<Rightarrow> True | Some c \<Rightarrow> cond_plain c) \<and>
     list_all arg_plain args \<and> pp = unprepared"

lemma arg_values_nth:
  "arg_values req args = Some vals \<Longrightarrow> i < length args \<Longrightarrow> ag_ref (args ! i) = [] \<Longrightarrow>
     vals ! i = ag_lit (args ! i)"
proof (induction args arbitrary: vals i)
  case Nil
  then show ?case by simp
next
  case (Cons a args)
  then show ?case by (cases i) (auto split: option.splits if_splits)
qed

lemma lit_string_value:
  assumes "list_all arg_plain args" and "lit_string args i = Some s" and "arg_values req args = Some vals"
  shows "i < length vals" and "vals ! i = Val_String s"
proof -
  have i: "i < length args" "ag_lit (args ! i) = Val_String s"
    using assms(2) by (auto simp: lit_string_def split: if_splits go_value.splits)
  then show "i < length vals" using arg_values_length [OF assms(3)] by simp
  have "ag_ref (args ! i) = []" using assms(1) i by (auto simp: list_all_length arg_plain_def)
  then show "vals ! i = Val_String s" using arg_values_nth [OF assms(3) i(1)] i(2) by simp
qed

lemma four_elements:
  "3 < length vals \<Longrightarrow> \<exists>rest. vals = vals ! 0 # vals ! 1 # vals ! 2 # vals ! 3 # rest"
  by (cases vals; cases "tl vals"; cases "tl (tl vals)"; cases "tl (tl (tl vals))") auto

lemma two_elements: "1 < length vals \<Longrightarrow> \<exists>rest. vals = vals ! 0 # vals ! 1 # rest"
  by (cases vals; cases "tl vals") auto

lemma prepared_time:
  assumes "list_all arg_plain args" and "leaf_error L ''time_between'' args = None"
    and "arg_values req args = Some vals"
  shows "op_time_between L (the (prepare_leaf L ''time_between'' args unprepared)) vals
    = op_time_between L unprepared vals"
proof -
  have "clock_error args 1 = None" "clock_error args 2 = None"
    and "\<exists>z. lit_string args 3 = Some z \<and> li_zone L z"
    using assms(2) by (auto simp: leaf_error_def first_error_None split: option.splits if_splits)
  then obtain f t z where lits: "lit_string args 1 = Some f" "lit_string args 2 = Some t"
    "lit_string args 3 = Some z" "li_zone L z"
    by (auto simp: clock_error_def split: option.splits)
  note vals = lit_string_value [OF assms(1) lits(1) assms(3)]
    lit_string_value [OF assms(1) lits(2) assms(3)] lit_string_value [OF assms(1) lits(3) assms(3)]
  obtain v rest where "vals = v # Val_String f # Val_String t # Val_String z # rest"
    using four_elements [OF vals(5)] vals(2,4,6) by metis
  then show ?thesis using lits
    by (auto simp: prepare_leaf_def unprepared_def op_time_between_def split: go_value.split)
qed

lemma prepared_cidr:
  assumes "list_all arg_plain args" and "leaf_error L ''cidr'' args = None"
    and "arg_values req args = Some vals"
  shows "op_cidr L (the (prepare_leaf L ''cidr'' args unprepared)) vals = op_cidr L unprepared vals"
proof -
  obtain s p where lits: "lit_string args 1 = Some s" "li_parse_prefix L s = Some p"
    using assms(2) by (auto simp: leaf_error_def split: option.splits)
  note vals = lit_string_value [OF assms(1) lits(1) assms(3)]
  obtain v rest where "vals = v # Val_String s # rest" using two_elements vals by metis
  then show ?thesis using lits
    by (auto simp: prepare_leaf_def unprepared_def op_cidr_def split: option.split)
qed

lemma prepared_op:
  assumes "list_all arg_plain args" and "op_error L op args = None"
  shows "eval_op L req op args (the (prepare_leaf L op args unprepared)) = eval_op L req op args unprepared"
proof (cases "arg_values req args")
  case None
  then show ?thesis by (simp add: eval_op_def)
next
  case (Some vals)
  have leaf: "leaf_error L op args = None"
    using assms(2) by (auto simp: op_error_def split: option.splits if_splits)
  consider "op = ''time_between''" | "op = ''cidr''" | "op \<noteq> ''time_between'' \<and> op \<noteq> ''cidr''" by blast
  then show ?thesis
  proof cases
    case 1
    then show ?thesis using prepared_time [OF assms(1) _ Some] leaf Some
      by (simp add: eval_op_def run_op_def)
  next
    case 2
    then show ?thesis using prepared_cidr [OF assms(1) _ Some] leaf Some
      by (simp add: eval_op_def run_op_def)
  next
    case 3
    then show ?thesis by (simp add: prepare_leaf_def)
  qed
qed

lemma prepared_eval:
  "cond_plain c \<Longrightarrow> cond_error L d c = None \<Longrightarrow> cond_eval L req (prepared_of L c) = cond_eval L req c"
proof (induction c arbitrary: d rule: cond_induct)
  case (Cond al an nt op args pp)
  note err = cond_error_parts [OF Cond.prems(2)]
  have al: "al = Some cs \<Longrightarrow> map (cond_eval L req \<circ> prepared_of L) cs = map (cond_eval L req) cs \<and> cs \<noteq> []" for cs
    using Cond.IH(1) [of cs _ "d + 1"] Cond.prems(1) err(1) [of cs] by (auto simp: list_all_iff)
  have an: "an = Some cs \<Longrightarrow> map (cond_eval L req \<circ> prepared_of L) cs = map (cond_eval L req) cs \<and> cs \<noteq> []" for cs
    using Cond.IH(2) [of cs _ "d + 1"] Cond.prems(1) err(2) [of cs] by (auto simp: list_all_iff)
  have nt: "nt = Some c \<Longrightarrow> cond_eval L req (prepared_of L c) = cond_eval L req c" for c
    using Cond.IH(3) [of c "d + 1"] Cond.prems(1) err(3) [of c] by auto
  have leaf: "eval_op L req op args (the (prepare_leaf L op args unprepared)) = eval_op L req op args pp"
  proof (cases "op = []")
    case True
    then show ?thesis using Cond.prems(1) by (simp add: prepare_leaf_def)
  next
    case False
    then show ?thesis using prepared_op [of args L op req] Cond.prems(1) err(4) by simp
  qed
  show ?case using al an nt leaf
    by (cases al; cases an; cases nt) (simp_all cong: map_cong)
qed

section \<open>What a value depends on\<close>

text \<open>Two requests that differ in nothing but the context.\<close>

definition same_but_context :: "access_request \<Rightarrow> access_request \<Rightarrow> bool" where
  "same_but_context r r' \<longleftrightarrow> ar_subject r = ar_subject r' \<and> ar_action r = ar_action r'
     \<and> ar_resource r = ar_resource r'"

lemma context_ref:
  assumes "cut_byte (CHR ''.'') ref = (''context'', rest, ok)" and "\<not> has_prefix ref ''context.''"
  shows "ref = ''context''"
proof (cases ok)
  case True
  then show ?thesis using cut_byte_True assms by (fastforce simp: has_prefix_def)
next
  case False
  have "cut_byte c s = (a, b, False) \<Longrightarrow> a = s" for c s a b
    by (induction s arbitrary: a b) (auto split: if_splits prod.splits)
  moreover have "cut_byte (CHR ''.'') ref = (''context'', rest, False)" using assms(1) False by simp
  ultimately show ?thesis by metis
qed

lemma resolve_same:
  assumes "same_but_context r r'" and "\<not> has_prefix ref ''context.''"
  shows "resolve r ref = resolve r' ref"
proof (cases "cut_byte (CHR ''.'') ref")
  case (fields ns rest ok)
  have "resolve_context (ar_context r) rest = resolve_context (ar_context r') rest" if "ns = ''context''"
  proof -
    have "ref = ''context''" using context_ref fields that assms(2) by blast
    then have "rest = []" using fields by auto
    then show ?thesis by (simp add: resolve_context_def has_prefix_def)
  qed
  then show ?thesis using assms(1) fields by (simp add: resolve_def same_but_context_def)
qed

lemma arg_values_same:
  assumes "same_but_context r r'" and "\<not> list_ex (\<lambda>a. has_prefix (ag_ref a) ''context.'') args"
  shows "arg_values r args = arg_values r' args"
  using assms(2)
proof (induction args)
  case (Cons a args)
  then show ?case using resolve_same [OF assms(1), of "ag_ref a"]
    by (simp cong: option.case_cong)
qed simp

lemma context_independent:
  "same_but_context r r' \<Longrightarrow> \<not> context_dependent c \<Longrightarrow> cond_eval L r c = cond_eval L r' c"
proof (induction c rule: cond_induct)
  case (Cond al an nt op args pp)
  have al: "al = Some cs \<Longrightarrow> map (cond_eval L r) cs = map (cond_eval L r') cs" for cs
    using Cond.IH(1) [of cs] Cond.prems by (auto simp: list_ex_iff split: if_splits)
  have an: "an = Some cs \<Longrightarrow> map (cond_eval L r) cs = map (cond_eval L r') cs" for cs
    using Cond.IH(2) [of cs] Cond.prems by (auto simp: list_ex_iff split: if_splits)
  have nt: "nt = Some c \<Longrightarrow> cond_eval L r c = cond_eval L r' c" for c
    using Cond.IH(3) [of c] Cond.prems by (auto split: if_splits)
  have "nt = None \<Longrightarrow> arg_values r args = arg_values r' args"
    using arg_values_same [OF Cond.prems(1)] Cond.prems(2) by (simp split: if_splits)
  then show ?case using al an nt
    by (cases al; cases an; cases nt) (simp_all add: eval_op_def cong: map_cong)
qed

lemma prepared_context: "context_dependent (prepared_of L c) = context_dependent c"
proof (induction c rule: cond_induct)
  case (Cond al an nt op args pp)
  have al: "al = Some cs \<Longrightarrow> list_ex (context_dependent \<circ> prepared_of L) cs = list_ex context_dependent cs" for cs
    using Cond.IH(1) [of cs] by (auto simp: list_ex_iff)
  have an: "an = Some cs \<Longrightarrow> list_ex (context_dependent \<circ> prepared_of L) cs = list_ex context_dependent cs" for cs
    using Cond.IH(2) [of cs] by (auto simp: list_ex_iff)
  have comp: "list_ex P (map f xs) = list_ex (P \<circ> f) xs" for P f and xs :: "cond list"
    by (simp add: list_ex_iff)
  show ?case using al an Cond.IH(3) by (cases al; cases an; cases nt) (auto simp: comp)
qed

section \<open>Missing attributes\<close>

text \<open>
  A request carries at least what another does when every attribute the other resolves has the
  same value. Operators other than \<open>exists\<close> then keep every value that is known.
\<close>

definition carries_more :: "access_request \<Rightarrow> access_request \<Rightarrow> bool" where
  "carries_more r r' \<longleftrightarrow> (\<forall>ref v. resolve r ref = Some v \<longrightarrow> resolve r' ref = Some v)"

fun exists_free :: "cond \<Rightarrow> bool" where
  "exists_free (Cond al an nt op args pp) \<longleftrightarrow> op \<noteq> ''exists'' \<and>
     (case al of None \<Rightarrow> True | Some cs \<Rightarrow> list_all exists_free cs) \<and>
     (case an of None \<Rightarrow> True | Some cs \<Rightarrow> list_all exists_free cs) \<and>
     (case nt of None \<Rightarrow> True | Some c \<Rightarrow> exists_free c)"

text \<open>The order of information: an unknown value may become anything.\<close>

definition refines :: "tri \<Rightarrow> tri \<Rightarrow> bool" where
  "refines a b \<longleftrightarrow> a = Tri_Unknown \<or> a = b"

lemma arg_values_more:
  "carries_more r r' \<Longrightarrow> arg_values r args = Some vals \<Longrightarrow> arg_values r' args = Some vals"
proof (induction args arbitrary: vals)
  case (Cons a args)
  then show ?case by (auto simp: carries_more_def split: option.splits if_splits)
qed simp

lemma refines_sets:
  "list_all2 refines vs ws \<Longrightarrow>
     (t \<noteq> Tri_Unknown \<and> t \<in> set vs \<longrightarrow> t \<in> set ws) \<and> (Tri_Unknown \<notin> set vs \<longrightarrow> vs = ws)"
  by (induction vs ws rule: list_all2_induct) (auto simp: refines_def)

lemma all_refines:
  "list_all2 refines vs ws \<Longrightarrow> refines (fold min vs Tri_True) (fold min ws Tri_True)"
  using refines_sets [of vs ws Tri_False] unfolding fold_min_tri by (auto simp: refines_def)

lemma any_refines:
  "list_all2 refines vs ws \<Longrightarrow> refines (fold max vs Tri_False) (fold max ws Tri_False)"
  using refines_sets [of vs ws Tri_True] unfolding fold_max_tri by (auto simp: refines_def)

lemma more_refines:
  assumes "carries_more r r'"
  shows "cond_ready c \<Longrightarrow> exists_free c \<Longrightarrow>
    refines (the (cond_eval L r c)) (the (cond_eval L r' c))"
proof (induction c rule: cond_induct)
  case (Cond al an nt op args pp)
  have some: "cond_ready c \<Longrightarrow> cond_eval L req c = Some (the (cond_eval L req c))" for req c
    using cond_eval_Some by (metis option.exhaust_sel)
  have loop: "map (cond_eval L req) cs = map Some (map (\<lambda>c. the (cond_eval L req c)) cs)"
    if "list_all cond_ready cs" for req cs
    using that some by (auto simp: list_all_iff)
  have kids: "list_all2 refines (map (\<lambda>c. the (cond_eval L r c)) cs) (map (\<lambda>c. the (cond_eval L r' c)) cs)"
    if "\<And>c. c \<in> set cs \<Longrightarrow> refines (the (cond_eval L r c)) (the (cond_eval L r' c))" for cs
    using that by (auto simp: list_all2_conv_all_nth)
  show ?case
  proof (cases al)
    case (Some cs)
    then have "list_all cond_ready cs" using Cond.prems(1) by simp
    moreover have "list_all2 refines (map (\<lambda>c. the (cond_eval L r c)) cs) (map (\<lambda>c. the (cond_eval L r' c)) cs)"
      using Cond.IH(1) Cond.prems Some by (intro kids) (auto simp: list_all_iff)
    ultimately show ?thesis using Some by (simp add: loop all_loop_min all_refines del: map_map)
  next
    case none: None
    show ?thesis
    proof (cases an)
      case (Some cs)
      then have "list_all cond_ready cs" using Cond.prems(1) by simp
      moreover have "list_all2 refines (map (\<lambda>c. the (cond_eval L r c)) cs) (map (\<lambda>c. the (cond_eval L r' c)) cs)"
        using Cond.IH(2) Cond.prems Some by (intro kids) (auto simp: list_all_iff)
      ultimately show ?thesis using none Some by (simp add: loop any_loop_max any_refines del: map_map)
    next
      case none': None
      show ?thesis
      proof (cases nt)
        case (Some c)
        then have "refines (the (cond_eval L r c)) (the (cond_eval L r' c))" and "cond_ready c"
          using Cond.IH(3) Cond.prems by simp_all
        then show ?thesis using none none' Some some [of c r] some [of c r']
          by (auto simp: refines_def option.map_sel)
      next
        case none'': None
        show ?thesis
        proof (cases "arg_values r args")
          case None
          then show ?thesis using none none' none'' Cond.prems(2)
            by (simp add: eval_op_def refines_def)
        next
          case (Some vals)
          then show ?thesis using none none' none'' arg_values_more [OF assms Some]
            by (simp add: eval_op_def refines_def)
        qed
      qed
    qed
  qed
qed

end
