(* ===== verification/Access_Engine.thy ===== *)
theory Access_Engine
  imports Access_Logic
begin

text \<open>
  \<open>router/internal/authz/match.go\<close> (the matchers), \<open>sharing.go\<close> and \<open>engine.go\<close>:
  compiling roles and policies into an engine, deciding a request with it, the cache of decisions,
  and pairing a requester with a client. The engine is passed as a value; the only part of it that
  ever changes is the cache. \<open>None\<close> is a panic. Descriptions of roles and policies, which no
  code here reads, are left out.
\<close>

section \<open>Matchers\<close>

record subject_matcher =
  sm_ids :: "string list"
  sm_kinds :: "string list"
  sm_roles :: "string list"
  sm_teams :: "string list"
  sm_attrs :: "(string, string) gomap"

definition subject_matches :: "subject_matcher \<Rightarrow> subject \<Rightarrow> bool" where
  "subject_matches m s =
     (if sm_ids m \<noteq> [] \<and> \<not> glob_any (sm_ids m) (su_id s) then False
      else if sm_kinds m \<noteq> [] \<and> \<not> list_ex (\<lambda>k. k = su_kind s) (sm_kinds m) then False
      else if sm_roles m \<noteq> [] \<and>
              \<not> list_ex (\<lambda>b. list_ex (\<lambda>r. bi_role b = r) (sm_roles m)) (su_bindings s) then False
      else if sm_teams m \<noteq> [] \<and> \<not> list_ex (has_team s) (sm_teams m) then False
      else list_all (\<lambda>(k, pattern).
             case mget (su_attrs s) k of None \<Rightarrow> False | Some v \<Rightarrow> glob pattern v) (sm_attrs m))"

record resource_matcher =
  rm_type :: string
  rm_ids :: "string list"
  rm_owners :: "string list"
  rm_teams :: "string list"

definition resource_matches :: "resource_matcher \<Rightarrow> resource \<Rightarrow> bool" where
  "resource_matches m r =
     (if rm_type m \<noteq> [] \<and> rm_type m \<noteq> rs_type r then False
      else if rm_ids m \<noteq> [] \<and> \<not> glob_any (rm_ids m) (rs_id r) then False
      else if rm_owners m \<noteq> [] \<and> \<not> glob_any (rm_owners m) (rs_owner r) then False
      else if rm_teams m \<noteq> [] \<and> \<not> list_ex (\<lambda>t. t = rs_team r) (rm_teams m) then False
      else True)"

definition resource_matcher_error :: "resource_matcher \<Rightarrow> access_error option" where
  "resource_matcher_error m =
     (if list_ex (\<lambda>g. g = []) (rm_ids m @ rm_owners m) then Some Err_Empty_Pattern else None)"

section \<open>Sharing\<close>

definition share_private :: string where "share_private = ''private''"
definition share_idle :: string where "share_idle = ''idle''"
definition share_open :: string where "share_open = ''shared''"

definition sharing_error :: "sharing \<Rightarrow> access_error option" where
  "sharing_error s =
     (if sh_mode s \<noteq> share_private \<and> sh_mode s \<noteq> share_idle \<and> sh_mode s \<noteq> share_open
      then Some (Err_Sharing_Mode (sh_mode s))
      else (case find (\<lambda>w. \<not> has_prefix w ''user:'' \<and> \<not> has_prefix w ''team:'' \<and>
                      \<not> has_prefix w ''role:'') (sh_with s) of
          Some w \<Rightarrow> Some (Err_Sharing_Entry w)
        | None \<Rightarrow>
            (case find (\<lambda>(m, n). n < 0) (sh_reserved_slots s) of
               Some (m, n) \<Rightarrow> Some (Err_Reserved_Negative m)
             | None \<Rightarrow>
                 if sh_per_requester_max s < 0 then Some Err_Per_Requester_Negative else None)))"

definition is_owner_side :: "subject \<Rightarrow> resource \<Rightarrow> bool" where
  "is_owner_side s client \<longleftrightarrow>
     (if rs_owner client \<noteq> [] \<and> su_id s = rs_owner client then True
      else rs_team client \<noteq> [] \<and> has_team s (rs_team client))"

text \<open>One entry of a client's list of those it serves.\<close>

definition entry_admits :: "subject \<Rightarrow> string \<Rightarrow> bool" where
  "entry_admits s w =
     (if w = su_id s then True
      else if has_prefix w ''team:'' \<and> has_team s (trim_prefix w ''team:'') then True
      else if has_prefix w ''role:''
      then list_ex (\<lambda>b. bi_role b = trim_prefix w ''role:'' \<and> bi_team b = []) (su_bindings s)
      else False)"

definition sharing_admits :: "subject \<Rightarrow> resource \<Rightarrow> bool" where
  "sharing_admits s client =
     (if is_owner_side s client then True
      else (case rs_sharing client of
          None \<Rightarrow> True
        | Some sh \<Rightarrow>
            if sh_mode sh = share_private then False
            else if sh_with sh = [] then True
            else list_ex (entry_admits s) (sh_with sh)))"

section \<open>Policies\<close>

record policy =
  po_id :: string
  po_name :: string
  po_effect :: string
  po_enabled :: bool
  po_subject :: subject_matcher
  po_actions :: "string list"
  po_resource :: resource_matcher
  po_condition :: "cond option"

record compiled_policy =
  cp_policy :: policy
  cp_context_dependent :: bool

text \<open>\<open>applies\<close>.\<close>

definition policy_applies :: "rule_lib \<Rightarrow> policy \<Rightarrow> access_request \<Rightarrow> tri option" where
  "policy_applies L p req =
     (if \<not> subject_matches (po_subject p) (ar_subject req) \<or>
         \<not> resource_matches (po_resource p) (ar_resource req) then Some Tri_False
      else (case po_condition p of
          None \<Rightarrow> Some Tri_True
        | Some c \<Rightarrow> cond_eval L req c))"

definition expand_actions :: "string list \<Rightarrow> string list" where
  "expand_actions patterns = sort (filter (\<lambda>a. glob_any patterns a) (mkeys catalogue))"

definition policy_error :: "rule_lib \<Rightarrow> policy \<Rightarrow> access_error option" where
  "policy_error L p =
     (if po_id p = [] then Some Err_Policy_No_Id
      else if po_effect p \<noteq> effect_allow \<and> po_effect p \<noteq> effect_deny then Some Err_Effect
      else if po_actions p = [] then Some Err_No_Actions
      else (case find (\<lambda>a. expand_actions [a] = []) (po_actions p) of
          Some a \<Rightarrow> Some (Err_Action_Matches_Nothing a)
        | None \<Rightarrow>
            (case resource_matcher_error (po_resource p) of
               Some e \<Rightarrow> Some e
             | None \<Rightarrow>
                 (case po_condition p of None \<Rightarrow> None | Some c \<Rightarrow> cond_error L 0 c))))"

section \<open>Compiling an engine\<close>

record engine =
  eg_roles :: "(string, compiled_role) gomap"
  eg_deny :: "(string, compiled_policy list) gomap"
  eg_allow :: "(string, compiled_policy list) gomap"
  eg_context_dependent :: "(string, bool) gomap"
  eg_cache :: "(string, decision) gomap"

definition max_cache_entries :: int where "max_cache_entries = 65536"

definition engine_new :: engine where
  "engine_new = \<lparr>eg_roles = [], eg_deny = [], eg_allow = [], eg_context_dependent = [], eg_cache = []\<rparr>"

fun compile_roles ::
  "role list \<Rightarrow> (string, compiled_role) gomap \<Rightarrow> access_error + (string, compiled_role) gomap" where
  "compile_roles [] roles = Inr roles"
| "compile_roles (r # rs) roles =
     (case mget roles (ro_id r) of
        Some _ \<Rightarrow> Inl (Err_Duplicate_Role (ro_id r))
      | None \<Rightarrow>
          (case compile_role r of
             Inl e \<Rightarrow> Inl e
           | Inr cr \<Rightarrow> compile_roles rs (mput (ro_id r) cr roles)))"

definition put_policy ::
  "compiled_policy \<Rightarrow> string \<Rightarrow> (string, compiled_policy list) gomap \<Rightarrow> (string, compiled_policy list) gomap"
where
  "put_policy cp action m = mput action (get_or [] m action @ [cp]) m"

definition add_policy :: "compiled_policy \<Rightarrow> string \<Rightarrow> engine \<Rightarrow> engine" where
  "add_policy cp action e =
     (let e1 = (if po_effect (cp_policy cp) = effect_deny
                then e\<lparr>eg_deny := put_policy cp action (eg_deny e)\<rparr>
                else e\<lparr>eg_allow := put_policy cp action (eg_allow e)\<rparr>)
      in if cp_context_dependent cp
         then e1\<lparr>eg_context_dependent := mput action True (eg_context_dependent e1)\<rparr>
         else e1)"

text \<open>An enabled policy with its condition cloned and prepared.\<close>

definition compile_policy :: "rule_lib \<Rightarrow> policy \<Rightarrow> compiled_policy option" where
  "compile_policy L p =
     (case po_condition p of
        None \<Rightarrow> Some \<lparr>cp_policy = p, cp_context_dependent = False\<rparr>
      | Some c \<Rightarrow>
          (case prepare L (clone c) of
             None \<Rightarrow> None
           | Some c' \<Rightarrow> Some \<lparr>cp_policy = p\<lparr>po_condition := Some c'\<rparr>,
                             cp_context_dependent = context_dependent c'\<rparr>))"

fun compile_policies :: "rule_lib \<Rightarrow> policy list \<Rightarrow> string list \<Rightarrow> engine \<Rightarrow> access_error + engine" where
  "compile_policies L [] seen e = Inr e"
| "compile_policies L (p # ps) seen e =
     (case policy_error L p of
        Some err \<Rightarrow> Inl (Err_In_Policy (po_id p) err)
      | None \<Rightarrow>
          if po_id p \<in> set seen then Inl (Err_Duplicate_Policy (po_id p))
          else if \<not> po_enabled p then compile_policies L ps (po_id p # seen) e
          else (case compile_policy L p of
              None \<Rightarrow> Inl Err_Panic
            | Some cp \<Rightarrow>
                compile_policies L ps (po_id p # seen)
                  (fold (add_policy cp) (expand_actions (po_actions p)) e)))"

definition sort_policies ::
  "(string, compiled_policy list) gomap \<Rightarrow> (string, compiled_policy list) gomap" where
  "sort_policies m = map (\<lambda>(a, ps). (a, sort_key (\<lambda>cp. po_id (cp_policy cp)) ps)) m"

definition compile_engine :: "rule_lib \<Rightarrow> role list \<Rightarrow> policy list \<Rightarrow> access_error + engine" where
  "compile_engine L roles policies =
     (case compile_roles roles [] of
        Inl e \<Rightarrow> Inl e
      | Inr rs \<Rightarrow>
          (case compile_policies L policies [] (engine_new\<lparr>eg_roles := rs\<rparr>) of
             Inl e \<Rightarrow> Inl e
           | Inr e \<Rightarrow> Inr (e\<lparr>eg_deny := sort_policies (eg_deny e),
                             eg_allow := sort_policies (eg_allow e)\<rparr>)))"

section \<open>Deciding\<close>

text \<open>How far one permission of a role held by a binding reaches.\<close>

definition scope_reaches :: "access_request \<Rightarrow> binding \<Rightarrow> scope \<Rightarrow> bool" where
  "scope_reaches req b sc =
     (if bi_team b \<noteq> []
      then (if \<not> scoped (ar_action req) then False else rs_team (ar_resource req) = bi_team b)
      else (case sc of
          Scope_Any \<Rightarrow> True
        | Scope_Own \<Rightarrow> rs_owner (ar_resource req) \<noteq> [] \<and>
            rs_owner (ar_resource req) = su_id (ar_subject req)
        | Scope_Team \<Rightarrow> rs_team (ar_resource req) \<noteq> [] \<and>
            has_team (ar_subject req) (rs_team (ar_resource req))))"

definition binding_allows :: "engine \<Rightarrow> access_request \<Rightarrow> binding \<Rightarrow> string option" where
  "binding_allows e req b =
     (case mget (eg_roles e) (bi_role b) of
        None \<Rightarrow> None
      | Some r \<Rightarrow>
          if list_ex (scope_reaches req b) (get_or [] (cr_grants r) (ar_action req))
          then Some (''role:'' @ ro_id (cr_role r)) else None)"

fun bindings_allow :: "engine \<Rightarrow> access_request \<Rightarrow> binding list \<Rightarrow> string option" where
  "bindings_allow e req [] = None"
| "bindings_allow e req (b # bs) =
     (case binding_allows e req b of Some by \<Rightarrow> Some by | None \<Rightarrow> bindings_allow e req bs)"

definition role_allows :: "engine \<Rightarrow> access_request \<Rightarrow> string option" where
  "role_allows e req = bindings_allow e req (su_bindings (ar_subject req))"

text \<open>The first policy of a list with an acceptable verdict.\<close>

fun first_policy ::
  "rule_lib \<Rightarrow> access_request \<Rightarrow> (tri \<Rightarrow> bool) \<Rightarrow> compiled_policy list \<Rightarrow> policy option option" where
  "first_policy L req ok [] = Some None"
| "first_policy L req ok (cp # cps) =
     (case policy_applies L (cp_policy cp) req of
        None \<Rightarrow> None
      | Some t \<Rightarrow> if ok t then Some (Some (cp_policy cp)) else first_policy L req ok cps)"

definition policy_label :: "rule_lib \<Rightarrow> policy \<Rightarrow> string" where
  "policy_label L p = (if po_name p \<noteq> [] then li_quote L (po_name p) else po_id p)"

definition refuse :: "string \<Rightarrow> string \<Rightarrow> decision" where
  "refuse by reason = \<lparr>de_allowed = False, de_by = by, de_reason = reason\<rparr>"

definition permit :: "string \<Rightarrow> decision" where
  "permit by = \<lparr>de_allowed = True, de_by = by, de_reason = []\<rparr>"

definition decide_granted :: "access_request \<Rightarrow> string option \<Rightarrow> string \<Rightarrow> decision" where
  "decide_granted req role_by grant_by =
     (if role_by = None then refuse ''default'' (''no role permits '' @ ar_action req)
      else
        (let grant_by' =
               (if ar_action req = ''client.use''
                then (if sharing_admits (ar_subject req) (ar_resource req) then ''sharing'' else [])
                else grant_by)
         in if grant_by' = []
            then refuse ''default'' (''no grant for '' @ ar_action req @ '' on '' @
                   rs_type (ar_resource req) @ '' '' @ rs_id (ar_resource req))
            else permit grant_by'))"

definition decide_plain :: "access_request \<Rightarrow> string option \<Rightarrow> string \<Rightarrow> decision" where
  "decide_plain req role_by grant_by =
     (case role_by of
        Some by \<Rightarrow> permit by
      | None \<Rightarrow>
          if grant_by \<noteq> [] then permit grant_by
          else refuse ''default'' (''no role or policy permits '' @ ar_action req))"

definition decide_rules :: "rule_lib \<Rightarrow> engine \<Rightarrow> access_request \<Rightarrow> action_info \<Rightarrow> decision option" where
  "decide_rules L e req info =
     (case first_policy L req (\<lambda>t. t \<noteq> Tri_False) (get_or [] (eg_deny e) (ar_action req)) of
        None \<Rightarrow> None
      | Some (Some p) \<Rightarrow> Some (refuse (po_id p) (''denied by policy '' @ policy_label L p))
      | Some None \<Rightarrow>
          (case first_policy L req (\<lambda>t. t = Tri_True) (get_or [] (eg_allow e) (ar_action req)) of
             None \<Rightarrow> None
           | Some granted \<Rightarrow>
               (let grant_by = (case granted of None \<Rightarrow> [] | Some p \<Rightarrow> po_id p)
                in Some (if ai_needs_grant info then decide_granted req (role_allows e req) grant_by
                         else decide_plain req (role_allows e req) grant_by))))"

text \<open>The key of the cache: the fields that identify the question, each ended by a zero byte.\<close>

definition zero_byte :: char where "zero_byte = CHR 0x00"

definition key_fields :: "access_request \<Rightarrow> string list" where
  "key_fields req =
     [su_id (ar_subject req), su_rev (ar_subject req), ar_action req, rs_type (ar_resource req),
      rs_id (ar_resource req), rs_owner (ar_resource req), rs_team (ar_resource req)]"

definition join_fields :: "string list \<Rightarrow> string" where
  "join_fields fs = concat (map (\<lambda>s. s @ [zero_byte]) fs)"

definition cache_key :: "engine \<Rightarrow> access_request \<Rightarrow> string option" where
  "cache_key e req =
     (if su_rev (ar_subject req) = [] \<or> get_or False (eg_context_dependent e) (ar_action req) then None
      else if rs_attrs (ar_resource req) \<noteq> [] \<or> rs_sharing (ar_resource req) \<noteq> None then None
      else Some (join_fields (key_fields req)))"

definition store_decision :: "engine \<Rightarrow> string \<Rightarrow> decision \<Rightarrow> engine" where
  "store_decision e key d =
     (let cache = (if int (length (eg_cache e)) \<ge> max_cache_entries then [] else eg_cache e)
      in e\<lparr>eg_cache := mput key d cache\<rparr>)"

definition decide :: "rule_lib \<Rightarrow> engine \<Rightarrow> access_request \<Rightarrow> decision option \<times> engine" where
  "decide L e req =
     (case mget catalogue (ar_action req) of
        None \<Rightarrow> (Some (refuse ''default'' (''unknown action '' @ ar_action req)), e)
      | Some info \<Rightarrow>
          (case cache_key e req of
             None \<Rightarrow> (decide_rules L e req info, e)
           | Some key \<Rightarrow>
               (case mget (eg_cache e) key of
                  Some d \<Rightarrow> (Some d, e)
                | None \<Rightarrow>
                    (case decide_rules L e req info of
                       None \<Rightarrow> (None, e)
                     | Some d \<Rightarrow> (Some d, store_decision e key d)))))"

definition can :: "rule_lib \<Rightarrow> engine \<Rightarrow> access_request \<Rightarrow> bool option \<times> engine" where
  "can L e req = (case decide L e req of (d, e') \<Rightarrow> (map_option de_allowed d, e'))"

section \<open>Pairing\<close>

definition ask :: "subject \<Rightarrow> string \<Rightarrow> resource \<Rightarrow> access_context \<Rightarrow> access_request" where
  "ask s action r ctx = \<lparr>ar_subject = s, ar_action = action, ar_resource = r, ar_context = ctx\<rparr>"

record access_pairing =
  ap_allowed :: bool
  ap_idle_only :: bool
  ap_reserved :: int
  ap_decision :: decision

definition can_pair ::
  "rule_lib \<Rightarrow> engine \<Rightarrow> subject \<Rightarrow> resource \<Rightarrow> resource \<Rightarrow> access_context \<Rightarrow> access_pairing option \<times> engine"
where
  "can_pair L e s model client ctx =
     (case decide L e (ask s ''model.use'' model ctx) of
        (None, e1) \<Rightarrow> (None, e1)
      | (Some d, e1) \<Rightarrow>
          if \<not> de_allowed d
          then (Some \<lparr>ap_allowed = False, ap_idle_only = False, ap_reserved = 0, ap_decision = d\<rparr>, e1)
          else
            (case decide L e1 (ask s ''client.use'' client ctx) of
               (None, e2) \<Rightarrow> (None, e2)
             | (Some d2, e2) \<Rightarrow>
                 if \<not> de_allowed d2
                 then (Some \<lparr>ap_allowed = False, ap_idle_only = False, ap_reserved = 0,
                             ap_decision = d2\<rparr>, e2)
                 else
                   (let p = \<lparr>ap_allowed = True, ap_idle_only = False, ap_reserved = 0, ap_decision = d2\<rparr>
                    in if is_owner_side s client then (Some p, e2)
                       else (case rs_sharing client of
                           None \<Rightarrow> (Some p, e2)
                         | Some sh \<Rightarrow>
                             (Some (p\<lparr>ap_idle_only := (sh_mode sh = share_idle),
                                      ap_reserved :=
                                        (case mget (sh_reserved_slots sh) (rs_id model) of
                                           Some n \<Rightarrow> n
                                         | None \<Rightarrow> get_or 0 (sh_reserved_slots sh) ''*'')\<rparr>), e2)))))"

record client_pairing =
  cq_allowed :: bool
  cq_owner_side :: bool
  cq_idle_only :: bool
  cq_reserved :: "(string, int) gomap"
  cq_per_requester_max :: int
  cq_decision :: decision

definition client_reserved_for :: "client_pairing \<Rightarrow> string \<Rightarrow> int" where
  "client_reserved_for p model =
     (case mget (cq_reserved p) model of Some n \<Rightarrow> n | None \<Rightarrow> get_or 0 (cq_reserved p) ''*'')"

definition bare_pairing :: "bool \<Rightarrow> decision \<Rightarrow> bool \<Rightarrow> client_pairing" where
  "bare_pairing allowed d side =
     \<lparr>cq_allowed = allowed, cq_owner_side = side, cq_idle_only = False, cq_reserved = [],
      cq_per_requester_max = 0, cq_decision = d\<rparr>"

definition pair_client ::
  "rule_lib \<Rightarrow> engine \<Rightarrow> subject \<Rightarrow> resource \<Rightarrow> access_context \<Rightarrow> client_pairing option \<times> engine"
where
  "pair_client L e s client ctx =
     (case decide L e (ask s ''client.use'' client ctx) of
        (None, e1) \<Rightarrow> (None, e1)
      | (Some d, e1) \<Rightarrow>
          if \<not> de_allowed d then (Some (bare_pairing False d False), e1)
          else
            (let p = bare_pairing True d (is_owner_side s client)
             in if cq_owner_side p then (Some p, e1)
                else (case rs_sharing client of
                    None \<Rightarrow> (Some p, e1)
                  | Some sh \<Rightarrow>
                      (Some (p\<lparr>cq_idle_only := (sh_mode sh = share_idle),
                               cq_reserved := sh_reserved_slots sh,
                               cq_per_requester_max := sh_per_requester_max sh\<rparr>), e1))))"

end
