(* ===== verification/Access_Decisions.thy ===== *)
theory Access_Decisions
  imports Access_Engine
begin

text \<open>
  What a compiled engine is made of, in terms of the roles and policies it was compiled from: the
  index of policies by action holds exactly the enabled policies that cover the action, the
  compiled conditions have the values of the conditions as written, and no decision panics.
\<close>

section \<open>Actions a policy covers\<close>

definition covers_action :: "policy \<Rightarrow> string \<Rightarrow> bool" where
  "covers_action p a \<longleftrightarrow> known_action a \<and> glob_any (po_actions p) a"

lemma expand_actions_iff: "a \<in> set (expand_actions ps) \<longleftrightarrow> known_action a \<and> glob_any ps a"
  by (auto simp: expand_actions_def known_action_def mget_None_iff image_iff split: option.splits)
    (metis fst_conv mget_SomeD)

lemma expand_actions_distinct: "distinct (expand_actions ps)"
  using wf_catalogue by (simp add: expand_actions_def distinct_filter)

section \<open>Roles\<close>

lemma compile_roles_get:
  "compile_roles rs m = Inr m' \<Longrightarrow>
     mget m' k = Some cr \<longleftrightarrow> mget m k = Some cr \<or> (\<exists>r \<in> set rs. ro_id r = k \<and> compile_role r = Inr cr)"
proof (induction rs arbitrary: m)
  case Nil
  then show ?case by simp
next
  case (Cons r rs)
  then obtain c where c: "mget m (ro_id r) = None" "compile_role r = Inr c"
    "compile_roles rs (mput (ro_id r) c m) = Inr m'"
    by (auto split: option.splits sum.splits)
  from Cons.IH [OF c(3)] c(1,2) show ?case by (auto simp: gomap_simps)
qed

lemma compile_roles_all: "compile_roles rs m = Inr m' \<Longrightarrow> r \<in> set rs \<Longrightarrow> \<exists>cr. compile_role r = Inr cr"
  by (induction rs arbitrary: m) (auto split: option.splits sum.splits)

section \<open>Policies\<close>

lemma policy_error_parts:
  assumes "policy_error L p = None"
  shows "po_id p \<noteq> []" and "po_effect p = effect_allow \<or> po_effect p = effect_deny"
    and "po_condition p = Some c \<Longrightarrow> cond_error L 0 c = None"
  using assms by (auto simp: policy_error_def split: if_splits option.splits)

text \<open>The compiled form of a valid policy.\<close>

definition policy_prepared :: "rule_lib \<Rightarrow> policy \<Rightarrow> policy" where
  "policy_prepared L p = p\<lparr>po_condition := map_option (prepared_of L) (po_condition p)\<rparr>"

definition policy_in_context :: "policy \<Rightarrow> bool" where
  "policy_in_context p = (case po_condition p of None \<Rightarrow> False | Some c \<Rightarrow> context_dependent c)"

definition compiled_of :: "rule_lib \<Rightarrow> policy \<Rightarrow> compiled_policy" where
  "compiled_of L p = \<lparr>cp_policy = policy_prepared L p, cp_context_dependent = policy_in_context p\<rparr>"

lemma compile_policy_valid:
  assumes "policy_error L p = None"
  shows "compile_policy L p = Some (compiled_of L p)"
proof (cases "po_condition p")
  case None
  then have "policy_prepared L p = p" by (simp add: policy_prepared_def)
  then show ?thesis using None
    by (simp add: compile_policy_def compiled_of_def policy_in_context_def)
next
  case (Some c)
  then show ?thesis using prepare_clone [OF policy_error_parts(3) [OF assms Some]] prepared_context [of L c]
    by (simp add: compile_policy_def compiled_of_def policy_prepared_def policy_in_context_def)
qed

lemma policy_prepared_simps [simp]:
  "po_id (policy_prepared L p) = po_id p" "po_name (policy_prepared L p) = po_name p"
  "po_effect (policy_prepared L p) = po_effect p" "po_subject (policy_prepared L p) = po_subject p"
  "po_actions (policy_prepared L p) = po_actions p" "po_resource (policy_prepared L p) = po_resource p"
  "po_condition (policy_prepared L p) = map_option (prepared_of L) (po_condition p)"
  by (simp_all add: policy_prepared_def)

definition policy_plain :: "policy \<Rightarrow> bool" where
  "policy_plain p = (case po_condition p of None \<Rightarrow> True | Some c \<Rightarrow> cond_plain c)"

lemma applies_prepared:
  assumes "policy_error L p = None" and "policy_plain p"
  shows "policy_applies L (policy_prepared L p) req = policy_applies L p req"
  using assms policy_error_parts(3) [OF assms(1)] prepared_eval
  by (auto simp: policy_applies_def policy_plain_def split: option.split)

lemma applies_some:
  assumes "policy_error L p = None"
  shows "\<exists>t. policy_applies L (policy_prepared L p) req = Some t"
proof (cases "po_condition p")
  case None
  then show ?thesis by (simp add: policy_applies_def)
next
  case (Some c)
  have "cond_ready (prepared_of L c)"
    using prepare_clone [OF policy_error_parts(3) [OF assms Some]] by simp
  then obtain t where "cond_eval L req (prepared_of L c) = Some t" using cond_eval_Some by blast
  then show ?thesis using Some by (simp add: policy_applies_def)
qed

section \<open>The index of policies\<close>

text \<open>An engine as a set of policies per effect and action, and the actions that read the context.\<close>

abbreviation denying :: "engine \<Rightarrow> string \<Rightarrow> compiled_policy set" where
  "denying e a \<equiv> set (get_or [] (eg_deny e) a)"

abbreviation allowing :: "engine \<Rightarrow> string \<Rightarrow> compiled_policy set" where
  "allowing e a \<equiv> set (get_or [] (eg_allow e) a)"

lemma add_policy_get:
  "denying (add_policy cp action e) a =
     denying e a \<union> (if a = action \<and> po_effect (cp_policy cp) = effect_deny then {cp} else {})"
  "allowing (add_policy cp action e) a =
     allowing e a \<union> (if a = action \<and> po_effect (cp_policy cp) \<noteq> effect_deny then {cp} else {})"
  "get_or False (eg_context_dependent (add_policy cp action e)) a =
     (get_or False (eg_context_dependent e) a \<or> (a = action \<and> cp_context_dependent cp))"
  "eg_roles (add_policy cp action e) = eg_roles e"
  "eg_cache (add_policy cp action e) = eg_cache e"
  by (auto simp: add_policy_def put_policy_def gomap_simps Let_def)

lemma fold_add_policy_get:
  "denying (fold (add_policy cp) acts e) a =
     denying e a \<union> (if a \<in> set acts \<and> po_effect (cp_policy cp) = effect_deny then {cp} else {})"
  "allowing (fold (add_policy cp) acts e) a =
     allowing e a \<union> (if a \<in> set acts \<and> po_effect (cp_policy cp) \<noteq> effect_deny then {cp} else {})"
  "get_or False (eg_context_dependent (fold (add_policy cp) acts e)) a =
     (get_or False (eg_context_dependent e) a \<or> (a \<in> set acts \<and> cp_context_dependent cp))"
  "eg_roles (fold (add_policy cp) acts e) = eg_roles e"
  "eg_cache (fold (add_policy cp) acts e) = eg_cache e"
  by (induction acts arbitrary: e) (auto simp: add_policy_get)

definition in_force :: "policy list \<Rightarrow> string \<Rightarrow> string \<Rightarrow> policy \<Rightarrow> bool" where
  "in_force policies effect a p \<longleftrightarrow>
     p \<in> set policies \<and> po_enabled p \<and> po_effect p = effect \<and> covers_action p a"

lemma compile_policies_get:
  assumes "compile_policies L ps seen e = Inr e'"
  shows "list_all (\<lambda>p. policy_error L p = None) ps"
    and "denying e' a = denying e a \<union> compiled_of L ` {p. in_force ps effect_deny a p}"
    and "allowing e' a = allowing e a \<union> compiled_of L ` {p. in_force ps effect_allow a p}"
    and "get_or False (eg_context_dependent e') a \<longleftrightarrow> get_or False (eg_context_dependent e) a \<or>
      (\<exists>p \<in> set ps. po_enabled p \<and> covers_action p a \<and> policy_in_context p)"
    and "eg_roles e' = eg_roles e" and "eg_cache e' = eg_cache e"
    and "distinct (map po_id ps) \<and> set (map po_id ps) \<inter> set seen = {}"
proof -
  have "list_all (\<lambda>p. policy_error L p = None) ps \<and>
    denying e' a = denying e a \<union> compiled_of L ` {p. in_force ps effect_deny a p} \<and>
    allowing e' a = allowing e a \<union> compiled_of L ` {p. in_force ps effect_allow a p} \<and>
    (get_or False (eg_context_dependent e') a \<longleftrightarrow> get_or False (eg_context_dependent e) a \<or>
      (\<exists>p \<in> set ps. po_enabled p \<and> covers_action p a \<and> policy_in_context p)) \<and>
    eg_roles e' = eg_roles e \<and> eg_cache e' = eg_cache e \<and>
    distinct (map po_id ps) \<and> set (map po_id ps) \<inter> set seen = {}"
    using assms
  proof (induction ps arbitrary: seen e)
    case Nil
    then show ?case by (simp add: in_force_def)
  next
    case (Cons p ps)
    from Cons.prems have valid: "policy_error L p = None" and new: "po_id p \<notin> set seen"
      by (auto split: option.splits if_splits)
    have eff: "po_effect p \<noteq> effect_deny \<longleftrightarrow> po_effect p = effect_allow"
      using policy_error_parts(2) [OF valid] by (auto simp: effect_allow_def effect_deny_def)
    have split: "{q. in_force (p # ps) eff a q} =
        (if po_enabled p \<and> po_effect p = eff \<and> covers_action p a then {p} else {}) \<union> {q. in_force ps eff a q}"
      for eff by (auto simp: in_force_def)
    have cov: "a \<in> set (expand_actions (po_actions p)) \<longleftrightarrow> covers_action p a"
      by (simp add: expand_actions_iff covers_action_def)
    show ?case
    proof (cases "po_enabled p")
      case False
      then have "compile_policies L ps (po_id p # seen) e = Inr e'" using Cons.prems valid new by simp
      from Cons.IH [OF this] show ?thesis using False valid new by (auto simp: split)
    next
      case True
      let ?e = "fold (add_policy (compiled_of L p)) (expand_actions (po_actions p)) e"
      have "compile_policies L ps (po_id p # seen) ?e = Inr e'"
        using Cons.prems valid new True compile_policy_valid [OF valid] by simp
      from Cons.IH [OF this] have IH: "list_all (\<lambda>p. policy_error L p = None) ps"
        "denying e' a = denying ?e a \<union> compiled_of L ` {p. in_force ps effect_deny a p}"
        "allowing e' a = allowing ?e a \<union> compiled_of L ` {p. in_force ps effect_allow a p}"
        "get_or False (eg_context_dependent e') a \<longleftrightarrow> get_or False (eg_context_dependent ?e) a \<or>
          (\<exists>p \<in> set ps. po_enabled p \<and> covers_action p a \<and> policy_in_context p)"
        "eg_roles e' = eg_roles ?e" "eg_cache e' = eg_cache ?e"
        "distinct (map po_id ps)" "set (map po_id ps) \<inter> set (po_id p # seen) = {}" by simp_all
      have c: "po_effect (cp_policy (compiled_of L p)) = po_effect p"
        "cp_context_dependent (compiled_of L p) = policy_in_context p"
        by (simp_all add: compiled_of_def)
      show ?thesis
      proof (intro conjI)
        show "denying e' a = denying e a \<union> compiled_of L ` {q. in_force (p # ps) effect_deny a q}"
          unfolding IH(2) split fold_add_policy_get c cov using True by auto
        show "allowing e' a = allowing e a \<union> compiled_of L ` {q. in_force (p # ps) effect_allow a q}"
          unfolding IH(3) split fold_add_policy_get c cov eff using True by auto
        show "get_or False (eg_context_dependent e') a \<longleftrightarrow> get_or False (eg_context_dependent e) a \<or>
          (\<exists>q \<in> set (p # ps). po_enabled q \<and> covers_action q a \<and> policy_in_context q)"
          unfolding IH(4) fold_add_policy_get c cov using True by auto
      qed (use IH valid new in \<open>auto simp: fold_add_policy_get\<close>)
    qed
  qed
  then show "list_all (\<lambda>p. policy_error L p = None) ps"
    "denying e' a = denying e a \<union> compiled_of L ` {p. in_force ps effect_deny a p}"
    "allowing e' a = allowing e a \<union> compiled_of L ` {p. in_force ps effect_allow a p}"
    "get_or False (eg_context_dependent e') a \<longleftrightarrow> get_or False (eg_context_dependent e) a \<or>
      (\<exists>p \<in> set ps. po_enabled p \<and> covers_action p a \<and> policy_in_context p)"
    "eg_roles e' = eg_roles e" "eg_cache e' = eg_cache e"
    "distinct (map po_id ps) \<and> set (map po_id ps) \<inter> set seen = {}"
    by blast+
qed

lemma sort_policies_get: "set (get_or [] (sort_policies m) a) = set (get_or [] m a)"
  by (induction m) (auto simp: sort_policies_def get_or_def)

text \<open>What a compiled engine holds.\<close>

definition compiled_from :: "rule_lib \<Rightarrow> role list \<Rightarrow> policy list \<Rightarrow> engine \<Rightarrow> bool" where
  "compiled_from L roles policies e \<longleftrightarrow>
     list_all (\<lambda>p. policy_error L p = None) policies \<and> distinct (map po_id policies) \<and>
     (\<forall>a. denying e a = compiled_of L ` {p. in_force policies effect_deny a p}) \<and>
     (\<forall>a. allowing e a = compiled_of L ` {p. in_force policies effect_allow a p}) \<and>
     (\<forall>a. get_or False (eg_context_dependent e) a \<longleftrightarrow>
        (\<exists>p \<in> set policies. po_enabled p \<and> covers_action p a \<and> policy_in_context p)) \<and>
     (\<forall>k cr. mget (eg_roles e) k = Some cr \<longleftrightarrow> (\<exists>r \<in> set roles. ro_id r = k \<and> compile_role r = Inr cr)) \<and>
     (\<forall>r \<in> set roles. \<exists>cr. compile_role r = Inr cr)"

lemma compile_engine_compiled:
  assumes "compile_engine L roles policies = Inr e"
  shows "compiled_from L roles policies e" and "eg_cache e = []"
proof -
  obtain rs e1 where c: "compile_roles roles [] = Inr rs"
    "compile_policies L policies [] (engine_new\<lparr>eg_roles := rs\<rparr>) = Inr e1"
    "e = e1\<lparr>eg_deny := sort_policies (eg_deny e1), eg_allow := sort_policies (eg_allow e1)\<rparr>"
    using assms by (auto simp: compile_engine_def split: sum.splits)
  note g = compile_policies_get [OF c(2)]
  show "eg_cache e = []" using g(6) c(3) by (simp add: engine_new_def)
  show "compiled_from L roles policies e"
    unfolding compiled_from_def
  proof (intro conjI allI ballI)
    show "\<exists>cr. compile_role r = Inr cr" if "r \<in> set roles" for r
      using compile_roles_all [OF c(1) that] .
    show "list_all (\<lambda>p. policy_error L p = None) policies" by (rule g(1))
    show "distinct (map po_id policies)" using g(7) by simp
    show "denying e a = compiled_of L ` {p. in_force policies effect_deny a p}" for a
      using g(2) [of a] c(3) by (simp add: sort_policies_get engine_new_def)
    show "allowing e a = compiled_of L ` {p. in_force policies effect_allow a p}" for a
      using g(3) [of a] c(3) by (simp add: sort_policies_get engine_new_def)
    show "get_or False (eg_context_dependent e) a \<longleftrightarrow>
        (\<exists>p \<in> set policies. po_enabled p \<and> covers_action p a \<and> policy_in_context p)" for a
      using g(4) [of a] c(3) by (simp add: engine_new_def)
    show "mget (eg_roles e) k = Some cr \<longleftrightarrow> (\<exists>r \<in> set roles. ro_id r = k \<and> compile_role r = Inr cr)" for k cr
      using compile_roles_get [OF c(1), of k cr] g(5) c(3) by simp
  qed
qed

section \<open>The first policy that applies\<close>

lemma first_policy_split:
  assumes "\<And>cp. cp \<in> set cps \<Longrightarrow> \<exists>t. policy_applies L (cp_policy cp) req = Some t"
  shows "\<exists>r. first_policy L req ok cps = Some r \<and>
    (r = None \<longleftrightarrow> (\<forall>cp \<in> set cps. \<not> ok (the (policy_applies L (cp_policy cp) req)))) \<and>
    (\<forall>p. r = Some p \<longrightarrow> (\<exists>cp \<in> set cps. cp_policy cp = p \<and> ok (the (policy_applies L p req))))"
  using assms
proof (induction cps)
  case Nil
  then show ?case by simp
next
  case (Cons cp cps)
  then obtain t where t: "policy_applies L (cp_policy cp) req = Some t" by fastforce
  from Cons obtain r where "first_policy L req ok cps = Some r"
    "(r = None \<longleftrightarrow> (\<forall>cp \<in> set cps. \<not> ok (the (policy_applies L (cp_policy cp) req))))"
    "(\<forall>p. r = Some p \<longrightarrow> (\<exists>cp \<in> set cps. cp_policy cp = p \<and> ok (the (policy_applies L p req))))"
    by fastforce
  then show ?case using t by (cases "ok t") auto
qed

end
