(* ===== verification/Access_Cache.thy ===== *)
theory Access_Cache
  imports Access_Decisions
begin

text \<open>
  What \<open>Decide\<close> answers: the documented rule over the roles and policies as written, and
  the same answer whatever the cache holds from earlier questions.
\<close>

section \<open>The documented rule\<close>

text \<open>A role permits an action on a resource: some binding holds it with a permission that reaches.\<close>

definition role_permits :: "role list \<Rightarrow> access_request \<Rightarrow> bool" where
  "role_permits roles req \<longleftrightarrow>
     (\<exists>b \<in> set (su_bindings (ar_subject req)). \<exists>r \<in> set roles. ro_id r = bi_role b \<and>
        (\<exists>s \<in> set (ro_permissions r). \<exists>sc.
           parse_permission s = Inr \<lparr>pm_action = ar_action req, pm_scope = sc\<rparr> \<and> scope_reaches req b sc))"

definition policy_denies :: "rule_lib \<Rightarrow> policy list \<Rightarrow> access_request \<Rightarrow> bool" where
  "policy_denies L policies req \<longleftrightarrow>
     (\<exists>p. in_force policies effect_deny (ar_action req) p \<and> policy_applies L p req \<noteq> Some Tri_False)"

definition policy_grants :: "rule_lib \<Rightarrow> policy list \<Rightarrow> access_request \<Rightarrow> bool" where
  "policy_grants L policies req \<longleftrightarrow>
     (\<exists>p. in_force policies effect_allow (ar_action req) p \<and> policy_applies L p req = Some Tri_True)"

definition documented :: "rule_lib \<Rightarrow> role list \<Rightarrow> policy list \<Rightarrow> access_request \<Rightarrow> bool" where
  "documented L roles policies req \<longleftrightarrow>
     known_action (ar_action req) \<and> \<not> policy_denies L policies req \<and>
     (if needs_grant (ar_action req)
      then role_permits roles req \<and>
        (if ar_action req = ''client.use'' then sharing_admits (ar_subject req) (ar_resource req)
         else policy_grants L policies req)
      else role_permits roles req \<or> policy_grants L policies req)"

section \<open>The engine follows it\<close>

lemma bindings_allow_iff:
  "bindings_allow e req bs \<noteq> None \<longleftrightarrow> (\<exists>b \<in> set bs. binding_allows e req b \<noteq> None)"
  by (induction bs) (auto split: option.splits)

lemma role_reaches_iff:
  assumes "compile_role r = Inr cr"
  shows "(\<exists>sc \<in> set (get_or [] (cr_grants cr) a). scope_reaches req b sc) \<longleftrightarrow>
    (\<exists>s \<in> set (ro_permissions r). \<exists>sc. parse_permission s = Inr \<lparr>pm_action = a, pm_scope = sc\<rparr> \<and>
       scope_reaches req b sc)"
  using compile_role_grants(3) [OF assms] by blast

lemma binding_allows_iff:
  assumes "compiled_from L roles policies e"
  shows "binding_allows e req b \<noteq> None \<longleftrightarrow> (\<exists>r \<in> set roles. ro_id r = bi_role b \<and>
    (\<exists>s \<in> set (ro_permissions r). \<exists>sc.
       parse_permission s = Inr \<lparr>pm_action = ar_action req, pm_scope = sc\<rparr> \<and> scope_reaches req b sc))"
proof -
  have roles: "mget (eg_roles e) k = Some cr \<longleftrightarrow> (\<exists>r \<in> set roles. ro_id r = k \<and> compile_role r = Inr cr)" for k cr
    using assms by (simp add: compiled_from_def)
  have all: "r \<in> set roles \<Longrightarrow> \<exists>cr. compile_role r = Inr cr" for r
    using assms by (simp add: compiled_from_def)
  have "binding_allows e req b \<noteq> None \<longleftrightarrow> (\<exists>cr. mget (eg_roles e) (bi_role b) = Some cr \<and>
      (\<exists>sc \<in> set (get_or [] (cr_grants cr) (ar_action req)). scope_reaches req b sc))"
    by (auto simp: binding_allows_def list_ex_iff split: option.splits)
  also have "\<dots> \<longleftrightarrow> (\<exists>r \<in> set roles. ro_id r = bi_role b \<and> (\<exists>cr. compile_role r = Inr cr \<and>
      (\<exists>sc \<in> set (get_or [] (cr_grants cr) (ar_action req)). scope_reaches req b sc)))"
    unfolding roles by blast
  also have "\<dots> \<longleftrightarrow> (\<exists>r \<in> set roles. ro_id r = bi_role b \<and>
    (\<exists>s \<in> set (ro_permissions r). \<exists>sc.
       parse_permission s = Inr \<lparr>pm_action = ar_action req, pm_scope = sc\<rparr> \<and> scope_reaches req b sc))"
  proof -
    have "(\<exists>cr. compile_role r = Inr cr \<and>
        (\<exists>sc \<in> set (get_or [] (cr_grants cr) (ar_action req)). scope_reaches req b sc)) \<longleftrightarrow>
      (\<exists>s \<in> set (ro_permissions r). \<exists>sc.
         parse_permission s = Inr \<lparr>pm_action = ar_action req, pm_scope = sc\<rparr> \<and> scope_reaches req b sc)"
      if r: "r \<in> set roles" for r
    proof -
      obtain cr where cr: "compile_role r = Inr cr" using all [OF r] by blast
      show ?thesis using role_reaches_iff [OF cr] by (simp add: cr)
    qed
    then show ?thesis by blast
  qed
  finally show ?thesis .
qed

lemma role_allows_iff:
  assumes "compiled_from L roles policies e"
  shows "role_allows e req \<noteq> None \<longleftrightarrow> role_permits roles req"
  unfolding role_allows_def bindings_allow_iff role_permits_def binding_allows_iff [OF assms] ..

lemma decide_rules_exact:
  assumes c: "compiled_from L roles policies e" and plain: "list_all policy_plain policies"
    and known: "mget catalogue (ar_action req) = Some info"
  shows "\<exists>d. decide_rules L e req info = Some d \<and> (de_allowed d \<longleftrightarrow> documented L roles policies req)"
proof -
  let ?a = "ar_action req"
  have valid: "p \<in> set policies \<Longrightarrow> policy_error L p = None"
    and pl: "p \<in> set policies \<Longrightarrow> policy_plain p" for p
    using c plain by (auto simp: compiled_from_def list_all_iff)
  have deny: "denying e ?a = compiled_of L ` {p. in_force policies effect_deny ?a p}"
    and allow: "allowing e ?a = compiled_of L ` {p. in_force policies effect_allow ?a p}"
    using c by (simp_all add: compiled_from_def)
  have total: "\<exists>t. policy_applies L (cp_policy cp) req = Some t"
    if "cp \<in> denying e ?a \<or> cp \<in> allowing e ?a" for cp
    using that applies_some valid unfolding deny allow by (auto simp: compiled_of_def in_force_def)
  have vals: "policy_applies L (cp_policy (compiled_of L p)) req = policy_applies L p req \<and>
      policy_applies L p req \<noteq> None" if "p \<in> set policies" for p
    using applies_prepared [OF valid [OF that] pl [OF that], of req] applies_some [OF valid [OF that], of req]
    by (auto simp: compiled_of_def)
  obtain dr where dr: "first_policy L req (\<lambda>t. t \<noteq> Tri_False) (get_or [] (eg_deny e) ?a) = Some dr"
    "dr = None \<longleftrightarrow> (\<forall>cp \<in> denying e ?a. \<not> the (policy_applies L (cp_policy cp) req) \<noteq> Tri_False)"
    using first_policy_split [of "get_or [] (eg_deny e) ?a" L req "\<lambda>t. t \<noteq> Tri_False"] total by blast
  have denied: "dr \<noteq> None \<longleftrightarrow> policy_denies L policies req"
    unfolding dr(2) deny policy_denies_def using vals by (force simp: in_force_def)
  obtain gr where gr: "first_policy L req (\<lambda>t. t = Tri_True) (get_or [] (eg_allow e) ?a) = Some gr"
    "gr = None \<longleftrightarrow> (\<forall>cp \<in> allowing e ?a. \<not> the (policy_applies L (cp_policy cp) req) = Tri_True)"
    "\<forall>p. gr = Some p \<longrightarrow> (\<exists>cp \<in> allowing e ?a. cp_policy cp = p)"
    using first_policy_split [of "get_or [] (eg_allow e) ?a" L req "\<lambda>t. t = Tri_True"] total by blast
  have granted: "gr \<noteq> None \<longleftrightarrow> policy_grants L policies req"
    unfolding gr(2) allow policy_grants_def using vals by (force simp: in_force_def)
  have id: "gr = Some p \<Longrightarrow> po_id p \<noteq> []" for p
    using gr(3) allow valid policy_error_parts(1) by (fastforce simp: compiled_of_def in_force_def)
  have info: "needs_grant ?a = ai_needs_grant info" "known_action ?a"
    using known by (simp_all add: needs_grant_def action_info_of_def get_or_def known_action_def)
  show ?thesis
  proof (cases dr)
    case (Some p)
    then show ?thesis using dr(1) denied by (simp add: decide_rules_def documented_def refuse_def)
  next
    case None
    then show ?thesis
      using dr(1) gr(1) denied granted id info role_allows_iff [OF c, of req]
      by (cases gr)
        (auto simp: decide_rules_def documented_def decide_granted_def decide_plain_def refuse_def
          permit_def Let_def split: option.split)
  qed
qed

section \<open>The cache\<close>

lemma decide_rules_store [simp]: "decide_rules L (e\<lparr>eg_cache := c\<rparr>) req info = decide_rules L e req info"
proof -
  have "binding_allows (e\<lparr>eg_cache := c\<rparr>) req = binding_allows e req"
    by (simp add: binding_allows_def fun_eq_iff)
  then have "bindings_allow (e\<lparr>eg_cache := c\<rparr>) req bs = bindings_allow e req bs" for bs
    by (induction bs) (simp_all split: option.split)
  then have "role_allows (e\<lparr>eg_cache := c\<rparr>) req = role_allows e req" by (simp add: role_allows_def)
  moreover have "eg_deny (e\<lparr>eg_cache := c\<rparr>) = eg_deny e" "eg_allow (e\<lparr>eg_cache := c\<rparr>) = eg_allow e"
    by simp_all
  ultimately show ?thesis unfolding decide_rules_def by (simp only:)
qed

text \<open>Fields without zero bytes are determined by the key they are joined to.\<close>

definition zero_free :: "string \<Rightarrow> bool" where
  "zero_free s \<longleftrightarrow> zero_byte \<notin> set s"

lemma split_at_zero:
  assumes "zero_free a" and "zero_free b" and "a @ zero_byte # s = b @ zero_byte # t"
  shows "a = b \<and> s = t"
  using assms
proof (induction a arbitrary: b)
  case Nil
  then show ?case by (cases b) (auto simp: zero_free_def)
next
  case (Cons x a)
  then show ?case by (cases b) (auto simp: zero_free_def)
qed

lemma join_fields_inj:
  "list_all zero_free fs \<Longrightarrow> list_all zero_free gs \<Longrightarrow> length fs = length gs \<Longrightarrow>
     join_fields fs = join_fields gs \<Longrightarrow> fs = gs"
proof (induction fs gs rule: list_induct2')
  case (4 f fs g gs)
  then have "f @ zero_byte # join_fields fs = g @ zero_byte # join_fields gs"
    by (simp add: join_fields_def)
  with 4 split_at_zero [of f g] have "f = g \<and> join_fields fs = join_fields gs" by simp
  with 4 show ?case by simp
qed simp_all

text \<open>
  What the callers promise: the fields of a question hold no zero byte, and a subject with a
  revision is determined by its id and its revision.
\<close>

definition clean_request :: "access_request \<Rightarrow> bool" where
  "clean_request req \<longleftrightarrow> list_all zero_free (key_fields req)"

definition same_revisions :: "access_request list \<Rightarrow> bool" where
  "same_revisions reqs \<longleftrightarrow> list_all (\<lambda>r. list_all (\<lambda>r'.
     su_rev (ar_subject r) \<noteq> [] \<and> su_id (ar_subject r) = su_id (ar_subject r') \<and>
     su_rev (ar_subject r) = su_rev (ar_subject r') \<longrightarrow> ar_subject r = ar_subject r') reqs) reqs"

lemma same_key_same_question:
  assumes "cache_key e r = Some k" and "cache_key e r' = Some k"
    and "clean_request r" and "clean_request r'" and "r \<in> set reqs" and "r' \<in> set reqs"
    and "same_revisions reqs"
  shows "same_but_context r r'"
proof -
  have keys: "join_fields (key_fields r) = join_fields (key_fields r')"
    and rev: "su_rev (ar_subject r) \<noteq> []"
    and bare: "rs_attrs (ar_resource r) = []" "rs_sharing (ar_resource r) = None"
      "rs_attrs (ar_resource r') = []" "rs_sharing (ar_resource r') = None"
    using assms(1,2) by (auto simp: cache_key_def split: if_splits)
  have "length (key_fields r) = length (key_fields r')" by (simp add: key_fields_def)
  from join_fields_inj [OF _ _ this keys] assms(3,4) have "key_fields r = key_fields r'"
    by (simp add: clean_request_def)
  then have f: "su_id (ar_subject r) = su_id (ar_subject r')" "su_rev (ar_subject r) = su_rev (ar_subject r')"
    "ar_action r = ar_action r'" "rs_type (ar_resource r) = rs_type (ar_resource r')"
    "rs_id (ar_resource r) = rs_id (ar_resource r')" "rs_owner (ar_resource r) = rs_owner (ar_resource r')"
    "rs_team (ar_resource r) = rs_team (ar_resource r')"
    by (simp_all add: key_fields_def)
  have "ar_subject r = ar_subject r'"
    using assms(5-7) f(1,2) rev by (simp add: same_revisions_def list_all_iff)
  moreover have "ar_resource r = ar_resource r'"
    using f bare by (intro resource.equality) simp_all
  ultimately show ?thesis using f(3) by (simp add: same_but_context_def)
qed

lemma applies_same:
  assumes "same_but_context r r'" and "\<not> policy_in_context p"
  shows "policy_applies L (policy_prepared L p) r = policy_applies L (policy_prepared L p) r'"
proof (cases "po_condition p")
  case None
  then show ?thesis using assms(1) by (simp add: policy_applies_def same_but_context_def)
next
  case (Some c)
  have "\<not> context_dependent (prepared_of L c)"
    using assms(2) Some by (simp add: policy_in_context_def prepared_context)
  from context_independent [OF assms(1) this] show ?thesis
    using assms(1) Some by (simp add: policy_applies_def same_but_context_def)
qed

lemma first_policy_same:
  assumes "\<And>cp. cp \<in> set cps \<Longrightarrow> policy_applies L (cp_policy cp) r = policy_applies L (cp_policy cp) r'"
  shows "first_policy L r ok cps = first_policy L r' ok cps"
  using assms by (induction cps) (simp_all split: option.split)

lemma scope_reaches_same: "same_but_context r r' \<Longrightarrow> scope_reaches r = scope_reaches r'"
  by (simp add: fun_eq_iff scope_reaches_def same_but_context_def split: scope.split)

lemma role_allows_same:
  assumes "same_but_context r r'"
  shows "role_allows e r = role_allows e r'"
proof -
  have "binding_allows e r = binding_allows e r'"
    using assms
    unfolding fun_eq_iff binding_allows_def scope_reaches_same [OF assms] same_but_context_def
    by (simp only:) simp
  then have "bindings_allow e r bs = bindings_allow e r' bs" for bs
    by (induction bs) (simp_all split: option.split)
  then show ?thesis using assms by (simp add: role_allows_def same_but_context_def)
qed

lemma decide_rules_same:
  assumes c: "compiled_from L roles policies e" and same: "same_but_context r r'"
    and indep: "\<not> get_or False (eg_context_dependent e) (ar_action r)"
  shows "decide_rules L e r info = decide_rules L e r' info"
proof -
  let ?a = "ar_action r"
  have no: "in_force policies eff ?a p \<Longrightarrow> \<not> policy_in_context p" for p eff
    using c indep by (auto simp: compiled_from_def in_force_def)
  have cps: "policy_applies L (cp_policy cp) r = policy_applies L (cp_policy cp) r'"
    if cp: "cp \<in> denying e ?a \<or> cp \<in> allowing e ?a" for cp
  proof -
    have d: "denying e ?a = compiled_of L ` {p. in_force policies effect_deny ?a p}"
      "allowing e ?a = compiled_of L ` {p. in_force policies effect_allow ?a p}"
      using c by (simp_all add: compiled_from_def)
    have img: "\<exists>p. cp = f p \<and> Q p" if "cp \<in> f ` {p. Q p}" for f and Q :: "policy \<Rightarrow> bool"
      using that by auto
    have "\<exists>p eff. cp = compiled_of L p \<and> in_force policies eff ?a p"
      using cp d img [of "compiled_of L" "in_force policies effect_deny ?a"]
        img [of "compiled_of L" "in_force policies effect_allow ?a"] by blast
    then obtain p eff where p: "cp = compiled_of L p" "in_force policies eff ?a p" by blast
    show ?thesis using applies_same [OF same no [OF p(2)]] p(1) by (simp add: compiled_of_def)
  qed
  have f: "first_policy L r ok (get_or [] (eg_deny e) ?a) = first_policy L r' ok (get_or [] (eg_deny e) ?a)"
    "first_policy L r ok (get_or [] (eg_allow e) ?a) = first_policy L r' ok (get_or [] (eg_allow e) ?a)" for ok
    using cps by (auto intro!: first_policy_same)
  have a: "ar_action r' = ?a" "ar_subject r' = ar_subject r" "ar_resource r' = ar_resource r"
    using same by (simp_all add: same_but_context_def)
  have g: "decide_granted r = decide_granted r'" "decide_plain r = decide_plain r'"
    unfolding fun_eq_iff decide_granted_def decide_plain_def a by simp_all
  show ?thesis unfolding decide_rules_def a role_allows_same [OF same] f g ..
qed

text \<open>
  A run of questions against one engine, each with the cache the earlier ones left; and the state
  of the cache between them: every entry is the answer to the questions with that key.
\<close>

fun decide_run ::
  "rule_lib \<Rightarrow> engine \<Rightarrow> access_request list \<Rightarrow> decision option list \<times> engine" where
  "decide_run L e [] = ([], e)"
| "decide_run L e (r # rs) =
     (case decide L e r of
        (d, e1) \<Rightarrow> (case decide_run L e1 rs of (ds, e2) \<Rightarrow> (d # ds, e2)))"

definition fresh_answer :: "rule_lib \<Rightarrow> engine \<Rightarrow> access_request \<Rightarrow> decision option" where
  "fresh_answer L e req = fst (decide L (e\<lparr>eg_cache := []\<rparr>) req)"

definition cache_sound :: "rule_lib \<Rightarrow> engine \<Rightarrow> access_request list \<Rightarrow> bool" where
  "cache_sound L e reqs \<longleftrightarrow> (\<forall>r \<in> set reqs. \<forall>k d info. mget catalogue (ar_action r) = Some info \<longrightarrow>
     cache_key e r = Some k \<longrightarrow> mget (eg_cache e) k = Some d \<longrightarrow> decide_rules L e r info = Some d)"

lemma cache_key_store [simp]: "cache_key (e\<lparr>eg_cache := c\<rparr>) r = cache_key e r"
  by (simp add: cache_key_def)

lemma fresh_answer_cases:
  "fresh_answer L e r = (case mget catalogue (ar_action r) of
     None \<Rightarrow> Some (refuse ''default'' (''unknown action '' @ ar_action r))
   | Some info \<Rightarrow> decide_rules L e r info)"
  by (auto simp: fresh_answer_def decide_def split: option.split)

lemma decide_answer:
  assumes "cache_sound L e reqs" and "r \<in> set reqs"
  shows "fst (decide L e r) = fresh_answer L e r"
  using assms by (auto simp: fresh_answer_cases decide_def cache_sound_def split: option.split)

lemma compiled_store: "compiled_from L roles policies (e\<lparr>eg_cache := c\<rparr>) = compiled_from L roles policies e"
  by (simp add: compiled_from_def)

lemma decide_effect:
  "snd (decide L e r) = e \<or> (\<exists>info k d. mget catalogue (ar_action r) = Some info \<and> cache_key e r = Some k \<and>
     decide_rules L e r info = Some d \<and> snd (decide L e r) = store_decision e k d)"
proof (cases "mget catalogue (ar_action r)")
  case None
  then show ?thesis by (simp add: decide_def)
next
  case info: (Some info)
  show ?thesis
  proof (cases "cache_key e r")
    case None
    then show ?thesis using info by (simp add: decide_def)
  next
    case (Some k)
    then show ?thesis using info
      by (cases "mget (eg_cache e) k"; cases "decide_rules L e r info") (simp_all add: decide_def)
  qed
qed

lemma decide_state:
  assumes c: "compiled_from L roles policies e" and sound: "cache_sound L e reqs" and r: "r \<in> set reqs"
    and clean: "list_all clean_request reqs" and rev: "same_revisions reqs"
  shows "\<exists>c'. snd (decide L e r) = e\<lparr>eg_cache := c'\<rparr> \<and> cache_sound L (snd (decide L e r)) reqs"
proof -
  consider (keep) "snd (decide L e r) = e" |
    (store) info k d where "mget catalogue (ar_action r) = Some info" "cache_key e r = Some k"
      "decide_rules L e r info = Some d" "snd (decide L e r) = store_decision e k d"
    using decide_effect by blast
  then show ?thesis
  proof cases
    case keep
    then show ?thesis using sound by (intro exI [of _ "eg_cache e"]) simp
  next
    case store
    define cache where "cache = mput k d (if int (length (eg_cache e)) \<ge> max_cache_entries then [] else eg_cache e)"
    have e: "snd (decide L e r) = e\<lparr>eg_cache := cache\<rparr>"
      using store(4) by (simp add: store_decision_def cache_def Let_def)
    have "cache_sound L (e\<lparr>eg_cache := cache\<rparr>) reqs"
      unfolding cache_sound_def
    proof (intro ballI allI impI)
      fix r' k' d' info'
      assume r': "r' \<in> set reqs" and info': "mget catalogue (ar_action r') = Some info'"
        and key: "cache_key (e\<lparr>eg_cache := cache\<rparr>) r' = Some k'"
        and hit: "mget (eg_cache (e\<lparr>eg_cache := cache\<rparr>)) k' = Some d'"
      show "decide_rules L (e\<lparr>eg_cache := cache\<rparr>) r' info' = Some d'"
      proof (cases "k' = k")
        case True
        have "same_but_context r r'"
          using same_key_same_question [of e r k r' reqs] store(2) key True clean r r' rev
          by (simp add: list_all_iff)
        moreover have "\<not> get_or False (eg_context_dependent e) (ar_action r)"
          using store(2) by (auto simp: cache_key_def split: if_splits)
        ultimately have "decide_rules L e r' info = Some d" "ar_action r' = ar_action r"
          using decide_rules_same [OF c, of r r' info] store(3) by (simp_all add: same_but_context_def)
        then show ?thesis using hit True info' store(1) by (simp add: cache_def gomap_simps)
      next
        case False
        then have "mget (eg_cache e) k' = Some d'"
          using hit by (simp add: cache_def gomap_simps split: if_splits)
        then show ?thesis using sound r' info' key by (simp add: cache_sound_def)
      qed
    qed
    then show ?thesis using e by auto
  qed
qed

lemma fresh_answer_store [simp]: "fresh_answer L (e\<lparr>eg_cache := c\<rparr>) r = fresh_answer L e r"
  by (simp add: fresh_answer_def)

lemma decide_run_answers:
  assumes "compiled_from L roles policies e" and "cache_sound L e reqs" and "set rs \<subseteq> set reqs"
    and "list_all clean_request reqs" and "same_revisions reqs"
  shows "fst (decide_run L e rs) = map (fresh_answer L e) rs"
  using assms(1-3)
proof (induction rs arbitrary: e)
  case Nil
  then show ?case by simp
next
  case (Cons r rs)
  from decide_state [OF Cons.prems(1,2) _ assms(4,5), of r] Cons.prems(3) obtain c' where
    c': "snd (decide L e r) = e\<lparr>eg_cache := c'\<rparr>" "cache_sound L (e\<lparr>eg_cache := c'\<rparr>) reqs" by auto
  have "fst (decide_run L (e\<lparr>eg_cache := c'\<rparr>) rs) = map (fresh_answer L (e\<lparr>eg_cache := c'\<rparr>)) rs"
    using Cons.IH [OF _ c'(2)] Cons.prems by (simp add: compiled_store)
  then show ?case
    using decide_answer [OF Cons.prems(2), of r] Cons.prems(3) c'(1)
    by (auto simp: split: prod.splits)
qed

text \<open>Every decision of a compiled engine exists, whatever the conditions look like.\<close>

lemma first_policy_total:
  assumes "compiled_from L roles policies e"
    and "cps = get_or [] (eg_deny e) a \<or> cps = get_or [] (eg_allow e) a"
  shows "first_policy L req ok cps \<noteq> None"
proof -
  have valid: "p \<in> set policies \<Longrightarrow> policy_error L p = None" for p
    using assms(1) by (auto simp: compiled_from_def list_all_iff)
  have d: "denying e a = compiled_of L ` {p. in_force policies effect_deny a p}"
    "allowing e a = compiled_of L ` {p. in_force policies effect_allow a p}"
    using assms(1) by (simp_all add: compiled_from_def)
  have "set cps \<subseteq> compiled_of L ` set policies" using assms(2) d by (auto simp: in_force_def)
  then have "\<exists>t. policy_applies L (cp_policy cp) req = Some t" if "cp \<in> set cps" for cp
    using that applies_some valid by (fastforce simp: compiled_of_def)
  then show ?thesis using first_policy_split [of cps L req ok] by auto
qed

lemma decide_total:
  assumes "compile_engine L roles policies = Inr e"
  shows "\<exists>d. fst (decide L e req) = Some d"
proof -
  note c = compile_engine_compiled [OF assms]
  have "decide_rules L e req info \<noteq> None" for info
  proof -
    obtain dr gr where
      "first_policy L req (\<lambda>t. t \<noteq> Tri_False) (get_or [] (eg_deny e) (ar_action req)) = Some dr"
      "first_policy L req (\<lambda>t. t = Tri_True) (get_or [] (eg_allow e) (ar_action req)) = Some gr"
      using first_policy_total [OF c(1)] by (metis option.exhaust)
    then show ?thesis by (simp add: decide_rules_def Let_def split: option.split)
  qed
  then have "fresh_answer L e req \<noteq> None" by (simp add: fresh_answer_cases split: option.split)
  moreover have "fst (decide L e req) = fresh_answer L e req"
    using decide_answer [of L e "[req]" req] c(2) by (simp add: cache_sound_def)
  ultimately show ?thesis by auto
qed

end
