(* ===== verification/Access_Store.thy ===== *)
theory Access_Store
  imports Access_Cache Scheduler_Outcome
begin

text \<open>
  The portal's state as access decisions use it: principals (\<open>router/internal/admin/access_store.go\<close>,
  \<open>access_portal.go\<close>), the subject a key acts as and the models it may reach
  (\<open>model_access.go\<close>), sharing settings, isolation rules and the scheduler's pairing policy
  (\<open>sharing_store.go\<close>), and the log of denials (\<open>policy_pages.go\<close>). What a query of the
  database answers is a field of \<open>access_db\<close>; a database error is \<open>None\<close>. The caches in front
  of the queries are state.
\<close>

section \<open>Principals\<close>

definition user_principal :: "string \<Rightarrow> string" where "user_principal name = ''user:'' @ name"
definition team_principal :: "string \<Rightarrow> string" where "team_principal tid = ''team:'' @ tid"

definition owner_principal :: "string \<Rightarrow> string" where
  "owner_principal owner =
     (if owner = [] \<or> contains_sub owner '':'' then owner else user_principal owner)"

definition valid_username :: "string \<Rightarrow> bool" where
  "valid_username name =
     (if name = [] then False
      else if length name > 64 then False
      else \<not> list_ex (\<lambda>c. c \<in> set ('':/ '' @ [CHR 0x09, CHR 0x0D, CHR 0x0A])) name)"

definition owned_resource :: "string \<Rightarrow> string \<Rightarrow> string \<Rightarrow> resource" where
  "owned_resource typ rid owner =
     (let p = owner_principal owner
      in \<lparr>rs_type = typ, rs_id = rid, rs_owner = p,
          rs_team = (if has_prefix p ''team:'' then drop (length ''team:'') p else []),
          rs_attrs = [], rs_sharing = None\<rparr>)"

section \<open>What the database answers\<close>

text \<open>The sharing column: empty, text that is not a sharing setting, or a setting.\<close>

datatype sharing_column = Col_Empty | Col_Unreadable | Col_Sharing sharing

record user_row =
  ur_managed_by :: string
  ur_attrs :: "(string, string) gomap"

record team_row =
  tr_id :: string
  tr_managed_by :: string

record key_scope =
  ks_models :: "string list"
  ks_endpoints :: "string list"

record api_key =
  ak_owner :: string
  ak_priority :: string
  ak_scope :: key_scope

record access_db =
  db_user :: "string \<Rightarrow> user_row option"
  db_team :: "string \<Rightarrow> team_row option"
  db_bindings :: "string \<Rightarrow> binding list option"
  db_teams_of :: "string \<Rightarrow> string list option"
  db_sharing :: "string \<Rightarrow> sharing_column"
  db_api_key :: "string \<Rightarrow> api_key option"

text \<open>\<open>SubjectFor\<close> and \<open>SubjectForTeam\<close>; \<open>None\<close> is their error.\<close>

definition subject_for :: "access_db \<Rightarrow> string \<Rightarrow> subject option" where
  "subject_for db username =
     (case db_user db username of
        None \<Rightarrow> None
      | Some u \<Rightarrow>
          (case db_bindings db (user_principal username) of
             None \<Rightarrow> None
           | Some bs \<Rightarrow>
               (case db_teams_of db username of
                  None \<Rightarrow> None
                | Some ts \<Rightarrow>
                    Some \<lparr>su_id = user_principal username, su_kind = kind_user, su_bindings = bs,
                          su_teams = ts, su_managed_by = ur_managed_by u, su_attrs = ur_attrs u,
                          su_rev = []\<rparr>)))"

definition subject_for_team :: "access_db \<Rightarrow> string \<Rightarrow> subject option" where
  "subject_for_team db team =
     (case db_team db team of
        None \<Rightarrow> None
      | Some t \<Rightarrow>
          (case db_bindings db (team_principal (tr_id t)) of
             None \<Rightarrow> None
           | Some bs \<Rightarrow>
               Some \<lparr>su_id = team_principal (tr_id t), su_kind = kind_team, su_bindings = bs,
                     su_teams = [tr_id t], su_managed_by = tr_managed_by t, su_attrs = [], su_rev = []\<rparr>))"

definition bare_subject :: "string \<Rightarrow> string \<Rightarrow> binding list \<Rightarrow> subject" where
  "bare_subject sid kind bs =
     \<lparr>su_id = sid, su_kind = kind, su_bindings = bs, su_teams = [], su_managed_by = [],
      su_attrs = [], su_rev = []\<rparr>"

definition key_subject :: "access_db \<Rightarrow> string \<Rightarrow> subject" where
  "key_subject db owner =
     (if has_prefix owner ''team:''
      then (case subject_for_team db (drop (length ''team:'') owner) of
              Some s \<Rightarrow> s
            | None \<Rightarrow> bare_subject owner kind_team [])
      else (case subject_for db owner of
              Some s \<Rightarrow> s
            | None \<Rightarrow>
                if contains_sub owner '':'' then bare_subject owner kind_user []
                else bare_subject (owner_principal owner) kind_user
                       [\<lparr>bi_role = role_member, bi_team = []\<rparr>]))"

section \<open>Recent denials\<close>

record denial =
  dn_at :: gotime
  dn_subject :: string
  dn_action :: string
  dn_resource :: string
  dn_by :: string
  dn_reason :: string

definition max_denials :: nat where "max_denials = 200"

definition zero_denial :: denial where
  "zero_denial = \<lparr>dn_at = zero_time, dn_subject = [], dn_action = [], dn_resource = [], dn_by = [],
     dn_reason = []\<rparr>"

record denial_log =
  dl_ring :: "denial list"
  dl_next :: nat
  dl_full :: bool

definition denial_log_new :: denial_log where
  "denial_log_new = \<lparr>dl_ring = [], dl_next = 0, dl_full = False\<rparr>"

definition add_denial :: "denial_log \<Rightarrow> denial \<Rightarrow> denial_log" where
  "add_denial d x =
     (let ring = (if dl_ring d = [] then replicate max_denials zero_denial else dl_ring d);
          next' = (dl_next d + 1) mod max_denials
      in \<lparr>dl_ring = ring[dl_next d := x], dl_next = next', dl_full = (dl_full d \<or> next' = 0)\<rparr>)"

definition recent_denials :: "denial_log \<Rightarrow> denial list" where
  "recent_denials d =
     (let n = (if dl_full d then max_denials else dl_next d)
      in map (\<lambda>i. dl_ring d ! ((dl_next d + max_denials - 1 - i) mod max_denials)) [0..<n])"

section \<open>The models a key may reach\<close>

definition contains_string :: "string list \<Rightarrow> string \<Rightarrow> bool" where
  "contains_string ls s = list_ex (\<lambda>e. e = s) ls"

definition glob_any_string :: "string list \<Rightarrow> string \<Rightarrow> bool" where
  "glob_any_string patterns s = list_ex (\<lambda>p. glob p s) patterns"

text \<open>The loop over the candidates: the models allowed so far, and the first reason for a refusal.\<close>

fun authorize_loop ::
  "rule_lib \<Rightarrow> engine \<Rightarrow> subject \<Rightarrow> key_scope \<Rightarrow> access_context \<Rightarrow> (string, (string, go_value) gomap) gomap \<Rightarrow>
     string list \<Rightarrow> string list \<Rightarrow> string \<Rightarrow> (string list \<times> string \<times> engine) option"
where
  "authorize_loop L e subj sc ctx attrs [] allowed reason = Some (allowed, reason, e)"
| "authorize_loop L e subj sc ctx attrs (m # ms) allowed reason =
     (if ks_models sc \<noteq> [] \<and> \<not> glob_any_string (ks_models sc) m
      then authorize_loop L e subj sc ctx attrs ms allowed
             (if reason = [] then ''this API key is not scoped to model '' @ m else reason)
      else
        (case decide L e (ask subj ''model.use''
                \<lparr>rs_type = ''model'', rs_id = m, rs_owner = [], rs_team = [], rs_attrs = get_or [] attrs m,
                 rs_sharing = None\<rparr> ctx) of
           (None, e1) \<Rightarrow> None
         | (Some d, e1) \<Rightarrow>
             if de_allowed d then authorize_loop L e1 subj sc ctx attrs ms (allowed @ [m]) reason
             else authorize_loop L e1 subj sc ctx attrs ms allowed
                    (if reason = [] then de_reason d else reason)))"

record access_state =
  as_engine :: "engine option"
  as_subjects :: "(string, subject) gomap"
  as_sharing :: "(string, sharing option) gomap"
  as_denials :: denial_log

definition key_context :: "rule_lib \<Rightarrow> gotime \<Rightarrow> api_key \<Rightarrow> string \<Rightarrow> string \<Rightarrow> access_context" where
  "key_context L now k endpoint source_ip =
     \<lparr>ac_time = now, ac_source_ip = (case li_parse_addr L source_ip of None \<Rightarrow> No_Addr | Some a \<Rightarrow> a),
      ac_endpoint = endpoint, ac_priority = ak_priority k, ac_credential_kind = ''key'',
      ac_prompt_tokens = 0, ac_extra = []\<rparr>"

definition authorize_models ::
  "rule_lib \<Rightarrow> access_db \<Rightarrow> access_state \<Rightarrow> gotime \<Rightarrow> string \<Rightarrow> string \<Rightarrow> string \<Rightarrow> string list \<Rightarrow>
     (string, (string, go_value) gomap) gomap \<Rightarrow> (string list \<times> string \<times> access_state) option"
where
  "authorize_models L db s now key endpoint source_ip candidates attrs =
     (case db_api_key db key of
        None \<Rightarrow> Some ([], ''invalid API key'', s)
      | Some k \<Rightarrow>
          if ks_endpoints (ak_scope k) \<noteq> [] \<and> endpoint \<noteq> [] \<and>
             \<not> contains_string (ks_endpoints (ak_scope k)) endpoint
          then Some ([], ''this API key may not use '' @ endpoint, s)
          else
            (case as_engine s of
               None \<Rightarrow> Some ([], ''access policies are not loaded'', s)
             | Some e \<Rightarrow>
                 (case authorize_loop L e (key_subject db (ak_owner k)) (ak_scope k)
                         (key_context L now k endpoint source_ip) attrs candidates [] [] of
                    None \<Rightarrow> None
                  | Some (allowed, reason, e') \<Rightarrow>
                      (let s' = s\<lparr>as_engine := Some e'\<rparr>
                       in if allowed \<noteq> [] then Some (allowed, [], s')
                          else
                            (let reason' = (if reason = [] then ''no model available to this API key'' else reason)
                             in Some ([], reason', s'\<lparr>as_denials := add_denial (as_denials s')
                                  \<lparr>dn_at = now, dn_subject = su_id (key_subject db (ak_owner k)),
                                   dn_action = ''model.use'', dn_resource = join_with '', '' candidates,
                                   dn_by = [], dn_reason = reason'\<rparr>\<rparr>))))))"

section \<open>Pairing for the scheduler\<close>

text \<open>\<open>requesterSubject\<close> and \<open>ClientSharing\<close>, each through its cache, and \<open>invalidateAccess\<close>.\<close>

definition requester_subject :: "access_db \<Rightarrow> access_state \<Rightarrow> string \<Rightarrow> subject \<times> access_state" where
  "requester_subject db s owner =
     (case mget (as_subjects s) owner of
        Some subj \<Rightarrow> (subj, s)
      | None \<Rightarrow> (let subj = key_subject db owner
                in (subj, s\<lparr>as_subjects := mput owner subj (as_subjects s)\<rparr>)))"

definition read_sharing :: "sharing_column \<Rightarrow> sharing option" where
  "read_sharing col =
     (case col of
        Col_Empty \<Rightarrow> None
      | Col_Unreadable \<Rightarrow>
          Some \<lparr>sh_mode = share_private, sh_with = [], sh_reserved_slots = [], sh_per_requester_max = 0,
                sh_reclaim = False\<rparr>
      | Col_Sharing sh \<Rightarrow> Some sh)"

definition client_sharing :: "access_db \<Rightarrow> access_state \<Rightarrow> string \<Rightarrow> sharing option \<times> access_state" where
  "client_sharing db s token =
     (case mget (as_sharing s) token of
        Some sh \<Rightarrow> (sh, s)
      | None \<Rightarrow> (let sh = read_sharing (db_sharing db token)
                in (sh, s\<lparr>as_sharing := mput token sh (as_sharing s)\<rparr>)))"

definition invalidate_access :: "access_state \<Rightarrow> access_state" where
  "invalidate_access s = s\<lparr>as_subjects := [], as_sharing := []\<rparr>"

definition zero_context :: access_context where
  "zero_context = \<lparr>ac_time = zero_time, ac_source_ip = No_Addr, ac_endpoint = [], ac_priority = [],
     ac_credential_kind = [], ac_prompt_tokens = 0, ac_extra = []\<rparr>"

definition no_pairing :: client_pairing where
  "no_pairing = bare_pairing False \<lparr>de_allowed = False, de_by = [], de_reason = []\<rparr> False"

definition state_pair_client ::
  "rule_lib \<Rightarrow> access_db \<Rightarrow> access_state \<Rightarrow> string \<Rightarrow> string \<Rightarrow> string \<Rightarrow> client_pairing option \<times> access_state"
where
  "state_pair_client L db s req_owner client_owner token =
     (case as_engine s of
        None \<Rightarrow> (Some no_pairing, s)
      | Some e \<Rightarrow>
          (case client_sharing db s token of
             (sh, s1) \<Rightarrow>
               (case requester_subject db s1 req_owner of
                  (subj, s2) \<Rightarrow>
                    (case pair_client L e subj
                            ((owned_resource ''client'' token client_owner)\<lparr>rs_sharing := sh\<rparr>) zero_context of
                       (p, e') \<Rightarrow> (p, s2\<lparr>as_engine := Some e'\<rparr>)))))"

definition scheduler_pair ::
  "rule_lib \<Rightarrow> access_db \<Rightarrow> access_state \<Rightarrow> string \<Rightarrow> client_summary \<Rightarrow> pairing option \<times> access_state" where
  "scheduler_pair L db s req_owner c =
     (case state_pair_client L db s req_owner (cs_owner c) (cs_token c) of
        (p, s') \<Rightarrow>
          (map_option (\<lambda>d. \<lparr>pr_allowed = cq_allowed d, pr_owner_side = cq_owner_side d,
              pr_idle_only = cq_idle_only d, pr_reserved = cq_reserved d,
              pr_per_requester_max = cq_per_requester_max d\<rparr>) p, s'))"

section \<open>Rules the store writes\<close>

definition any_one :: subject_matcher where
  "any_one = \<lparr>sm_ids = [], sm_kinds = [], sm_roles = [], sm_teams = [], sm_attrs = []\<rparr>"

definition default_model_policy :: policy where
  "default_model_policy =
     \<lparr>po_id = ''models-default'', po_name = ''Everyone may use every model'', po_effect = effect_allow,
      po_enabled = True, po_subject = any_one, po_actions = [''model.use''],
      po_resource = \<lparr>rm_type = ''model'', rm_ids = [''*''], rm_owners = [], rm_teams = []\<rparr>,
      po_condition = None\<rparr>"

text \<open>\<open>condFromJSON\<close> on the two built-in conditions: one attribute differs from a principal.\<close>

definition differs_from :: "string \<Rightarrow> string \<Rightarrow> cond" where
  "differs_from ref p =
     Cond None None None ''ne'' [\<lparr>ag_ref = ref, ag_lit = Val_Other\<rparr>, \<lparr>ag_ref = [], ag_lit = Val_String p\<rparr>]
       unprepared"

definition isolation_policies :: "string \<Rightarrow> policy \<times> policy" where
  "isolation_policies username =
     (let p = user_principal username
      in (\<lparr>po_id = ''isolation-send-'' @ username, po_name = username @ '': requests stay on own clients'',
           po_effect = effect_deny, po_enabled = True, po_subject = any_one\<lparr>sm_ids := [p]\<rparr>,
           po_actions = [''client.use''],
           po_resource = \<lparr>rm_type = ''client'', rm_ids = [], rm_owners = [], rm_teams = []\<rparr>,
           po_condition = Some (differs_from ''resource.owner'' p)\<rparr>,
          \<lparr>po_id = ''isolation-receive-'' @ username, po_name = username @ '': clients serve only their owner'',
           po_effect = effect_deny, po_enabled = True, po_subject = any_one,
           po_actions = [''client.use''],
           po_resource = \<lparr>rm_type = ''client'', rm_ids = [], rm_owners = [p], rm_teams = []\<rparr>,
           po_condition = Some (differs_from ''subject.id'' p)\<rparr>))"

end
