(* ===== verification/Access_Isolation.thy ===== *)
theory Access_Isolation
  imports Access_Store
begin

text \<open>
  What the portal's rules promise of the scheduler: the pairing a drain asks for is the engine's
  decision whatever the store has cached, isolation rules keep requests and clients apart through
  a whole drain, and a key reaches exactly the models its owner may use within its scope.
\<close>

section \<open>Subjects of keys are never cached by the engine\<close>

lemma key_subject_rev [simp]: "su_rev (key_subject db owner) = []"
  by (simp add: key_subject_def subject_for_def subject_for_team_def bare_subject_def
      split: option.split)

lemma has_prefixE:
  assumes "has_prefix s p"
  obtains t where "s = p @ t"
  using assms append_take_drop_id [of "length p" s] unfolding has_prefix_def by metis

lemma key_subject_user:
  assumes "\<not> contains_sub name '':''" and "name \<noteq> []"
  shows "su_id (key_subject db name) = user_principal name"
proof -
  have "contains_sub s '':''" if "has_prefix s ''team:''" for s
  proof -
    from that obtain t where "s = ''team:'' @ t" by (rule has_prefixE)
    then show ?thesis by (simp add: has_prefix_def)
  qed
  then have "\<not> has_prefix name ''team:''" using assms(1) by blast
  then show ?thesis using assms
    by (simp add: key_subject_def subject_for_def bare_subject_def owner_principal_def split: option.split)
qed

lemma decide_unrevised:
  assumes "su_rev (ar_subject req) = []"
  shows "decide L e req = (fresh_answer L e req, e)"
  using assms by (simp add: fresh_answer_cases decide_def cache_key_def split: option.split)

lemma fresh_answer_exact:
  assumes "compile_engine L roles policies = Inr e" and "list_all policy_plain policies"
  shows "\<exists>d. fresh_answer L e req = Some d \<and> (de_allowed d \<longleftrightarrow> documented L roles policies req)"
proof (cases "mget catalogue (ar_action req)")
  case None
  then show ?thesis by (simp add: fresh_answer_cases documented_def known_action_def refuse_def)
next
  case (Some info)
  then show ?thesis
    using decide_rules_exact [OF compile_engine_compiled(1) [OF assms(1)] assms(2) Some]
    by (simp add: fresh_answer_cases)
qed

section \<open>Pairing, with and without the caches\<close>

definition client_resource :: "access_db \<Rightarrow> string \<Rightarrow> string \<Rightarrow> resource" where
  "client_resource db token client_owner =
     (owned_resource ''client'' token client_owner)\<lparr>rs_sharing := read_sharing (db_sharing db token)\<rparr>"

definition client_question :: "access_db \<Rightarrow> string \<Rightarrow> client_summary \<Rightarrow> access_request" where
  "client_question db req_owner c =
     ask (key_subject db req_owner) ''client.use'' (client_resource db (cs_token c) (cs_owner c)) zero_context"

text \<open>The caches hold nothing but what the database answers now.\<close>

definition caches_agree :: "access_db \<Rightarrow> access_state \<Rightarrow> bool" where
  "caches_agree db s \<longleftrightarrow>
     (\<forall>ow s'. mget (as_subjects s) ow = Some s' \<longrightarrow> s' = key_subject db ow) \<and>
     (\<forall>t sh. mget (as_sharing s) t = Some sh \<longrightarrow> sh = read_sharing (db_sharing db t))"

lemma caches_agree_invalidated: "caches_agree db (invalidate_access s)"
  by (simp add: caches_agree_def invalidate_access_def)

lemma client_sharing_agrees:
  assumes "caches_agree db s"
  shows "fst (client_sharing db s t) = read_sharing (db_sharing db t)"
    and "caches_agree db (snd (client_sharing db s t))"
    and "as_engine (snd (client_sharing db s t)) = as_engine s"
  using assms
  by (auto simp: client_sharing_def caches_agree_def gomap_simps Let_def split: option.split)

lemma requester_subject_agrees:
  assumes "caches_agree db s"
  shows "fst (requester_subject db s ow) = key_subject db ow"
    and "caches_agree db (snd (requester_subject db s ow))"
    and "as_engine (snd (requester_subject db s ow)) = as_engine s"
  using assms
  by (auto simp: requester_subject_def caches_agree_def gomap_simps Let_def split: option.split)

lemma ask_simps [simp]:
  "ar_subject (ask s a r c) = s" "ar_action (ask s a r c) = a" "ar_resource (ask s a r c) = r"
  "ar_context (ask s a r c) = c"
  by (simp_all add: ask_def)

text \<open>The pairing a question to the database and the engine gives.\<close>

definition pair_terms :: "rule_lib \<Rightarrow> access_db \<Rightarrow> engine \<Rightarrow> string \<Rightarrow> client_summary \<Rightarrow> pairing option" where
  "pair_terms L db e ow c =
     map_option (\<lambda>d. \<lparr>pr_allowed = cq_allowed d, pr_owner_side = cq_owner_side d,
         pr_idle_only = cq_idle_only d, pr_reserved = cq_reserved d,
         pr_per_requester_max = cq_per_requester_max d\<rparr>)
       (fst (pair_client L e (key_subject db ow) (client_resource db (cs_token c) (cs_owner c)) zero_context))"

lemma pair_client_engine:
  assumes "su_rev s = []"
  shows "snd (pair_client L e s cl ctx) = e"
  using decide_unrevised [of "ask s ''client.use'' cl ctx" L e] assms
  by (simp add: pair_client_def Let_def split: option.split)

lemma scheduler_pair_agrees:
  assumes "caches_agree db s" and "as_engine s = Some e"
  shows "fst (scheduler_pair L db s ow c) = pair_terms L db e ow c"
    and "caches_agree db (snd (scheduler_pair L db s ow c))"
    and "as_engine (snd (scheduler_pair L db s ow c)) = Some e"
proof -
  obtain sh s1 where s1: "client_sharing db s (cs_token c) = (sh, s1)" by (cases "client_sharing db s (cs_token c)")
  obtain subj s2 where s2: "requester_subject db s1 ow = (subj, s2)" by (cases "requester_subject db s1 ow")
  note a = client_sharing_agrees [OF assms(1), of "cs_token c", unfolded s1]
  note b = requester_subject_agrees [of db s1 ow, unfolded s2]
  have subj: "subj = key_subject db ow" "caches_agree db s2" "as_engine s2 = Some e" "sh = read_sharing (db_sharing db (cs_token c))"
    using a b assms(2) by simp_all
  obtain p where p: "pair_client L e subj
      ((owned_resource ''client'' (cs_token c) (cs_owner c))\<lparr>rs_sharing := sh\<rparr>) zero_context = (p, e)"
    using pair_client_engine [of subj L e] subj(1) by (metis key_subject_rev prod.collapse)
  have run: "state_pair_client L db s ow (cs_owner c) (cs_token c) = (p, s2\<lparr>as_engine := Some e\<rparr>)"
    using assms(2) s1 s2 p by (simp add: state_pair_client_def)
  show "fst (scheduler_pair L db s ow c) = pair_terms L db e ow c"
    using run p subj by (simp add: scheduler_pair_def pair_terms_def client_resource_def)
  show "caches_agree db (snd (scheduler_pair L db s ow c))" "as_engine (snd (scheduler_pair L db s ow c)) = Some e"
    using run subj(2) by (simp_all add: scheduler_pair_def caches_agree_def)
qed

lemma pair_terms_allowed:
  assumes "compile_engine L roles policies = Inr e" and "list_all policy_plain policies"
  shows "\<exists>p. pair_terms L db e ow c = Some p \<and>
    (pr_allowed p \<longleftrightarrow> documented L roles policies (client_question db ow c))"
proof -
  let ?q = "client_question db ow c"
  obtain d where d: "fresh_answer L e ?q = Some d" "de_allowed d \<longleftrightarrow> documented L roles policies ?q"
    using fresh_answer_exact [OF assms] by blast
  have "decide L e ?q = (Some d, e)" using decide_unrevised [of ?q L e] d(1) by (simp add: client_question_def)
  then show ?thesis using d(2)
    by (auto simp: pair_terms_def pair_client_def client_question_def bare_pairing_def Let_def
        split: option.split)
qed

section \<open>Isolation rules\<close>

lemma glob_same: "glob s s"
proof -
  have "n \<le> length s \<Longrightarrow> glob_loop s s n n None = Some (length s)" for n
  proof (induction "length s - n" arbitrary: n)
    case 0
    then show ?case by (subst glob_loop.simps) simp
  next
    case (Suc k)
    then show ?case by (subst glob_loop.simps) simp
  qed
  from this [of 0] show ?thesis by (simp add: glob_def glob_rest_def)
qed

lemma as_number_String [simp]: "as_number (Val_String s) = None"
  by (simp add: as_number_def)

lemma value_equal_String [simp]: "value_equal L (Val_String s) (Val_String t) \<longleftrightarrow> s = t"
  by (simp add: value_equal_def as_strings_def as_string_def)

text \<open>The rule's condition holds, or is unknown, unless the attribute is the principal.\<close>

lemma differs_from_eval:
  assumes "ref \<noteq> []" and "resolve req ref = None \<or> resolve req ref = Some (Val_String v)" and "v \<noteq> p"
  shows "cond_eval L req (differs_from ref p) \<noteq> Some Tri_False"
  using assms by (auto simp: differs_from_def eval_op_def run_op_def on_two_def tri_of_def)

lemma resolve_owner: "resolve req ''resource.owner'' =
    (if rs_owner (ar_resource req) \<noteq> [] then Some (Val_String (rs_owner (ar_resource req))) else None)"
  by (simp add: resolve_def resolve_resource_def)

lemma resolve_subject_id: "resolve req ''subject.id'' =
    (if su_id (ar_subject req) \<noteq> [] then Some (Val_String (su_id (ar_subject req))) else None)"
  by (simp add: resolve_def resolve_subject_def)

lemma covers_client_use: "po_actions p = [''client.use''] \<Longrightarrow> covers_action p ''client.use''"
  by (simp add: covers_action_def glob_any_def glob_same known_action_def catalogue_def)

lemma user_principal_nonempty [simp]: "user_principal name \<noteq> []"
  by (simp add: user_principal_def)

lemma send_isolation_denies:
  assumes "fst (isolation_policies name) \<in> set policies"
    and "ar_action req = ''client.use''" and "rs_type (ar_resource req) = ''client''"
    and "su_id (ar_subject req) = user_principal name"
    and "rs_owner (ar_resource req) \<noteq> user_principal name"
  shows "policy_denies L policies req"
  unfolding policy_denies_def
proof (intro exI conjI)
  let ?p = "fst (isolation_policies name)"
  show "in_force policies effect_deny (ar_action req) ?p"
    using assms(1,2) covers_client_use [of ?p] by (simp add: in_force_def isolation_policies_def Let_def)
  show "policy_applies L ?p req \<noteq> Some Tri_False"
    using assms(3-5) differs_from_eval [of "''resource.owner''" req "rs_owner (ar_resource req)" "user_principal name" L,
      unfolded resolve_owner]
    by (auto simp: policy_applies_def isolation_policies_def Let_def subject_matches_def any_one_def
        resource_matches_def glob_any_def glob_same resolve_owner)
qed

lemma receive_isolation_denies:
  assumes "snd (isolation_policies name) \<in> set policies"
    and "ar_action req = ''client.use''" and "rs_type (ar_resource req) = ''client''"
    and "rs_owner (ar_resource req) = user_principal name"
    and "su_id (ar_subject req) \<noteq> user_principal name"
  shows "policy_denies L policies req"
  unfolding policy_denies_def
proof (intro exI conjI)
  let ?p = "snd (isolation_policies name)"
  show "in_force policies effect_deny (ar_action req) ?p"
    using assms(1,2) covers_client_use [of ?p] by (simp add: in_force_def isolation_policies_def Let_def)
  show "policy_applies L ?p req \<noteq> Some Tri_False"
    using assms(3-5) differs_from_eval [of "''subject.id''" req "su_id (ar_subject req)" "user_principal name" L,
      unfolded resolve_subject_id]
    by (auto simp: policy_applies_def isolation_policies_def Let_def subject_matches_def any_one_def
        resource_matches_def glob_any_def glob_same resolve_subject_id)
qed

text \<open>Every pairing a drain uses is the engine's.\<close>

definition paired_by :: "rule_lib \<Rightarrow> access_db \<Rightarrow> access_state \<Rightarrow> drain_env \<Rightarrow> bool" where
  "paired_by L db s env \<longleftrightarrow> (\<forall>ow c. fst (scheduler_pair L db s ow c) = Some (en_pair env ow c))"

lemma dispatched_documented:
  assumes "compile_engine L roles policies = Inr e" and "list_all policy_plain policies"
    and "caches_agree db s" and "as_engine s = Some e" and "paired_by L db s env"
    and "drain_ready q h" and "alias_views env"
    and "\<And>c. c \<in> set (available_client_list h) \<Longrightarrow> model_set (cs_models c)"
    and "drain_queue env q h aff = Some st" and "(cid, r) \<in> set (ds_dispatched st)"
  shows "\<exists>c \<in> set (available_client_list h). cs_id c = cid \<and>
    documented L roles policies (client_question db (rq_owner r) c)"
proof -
  have "slots_exact (\<lambda>_. 0) h" using assms(6) by (simp add: drain_ready_def hub_exact_def)
  from drain_queue_rule [where keep = "sent_well env (available_client_list h)",
      OF assms(6,9) sent_start(1) [OF this]] sent_well_step [OF _ _ assms(7,8)]
  have "sent_well env (available_client_list h) st" by blast
  then obtain c where c: "c \<in> set (available_client_list h)" "cs_id c = cid"
    "pr_allowed (en_pair env (rq_owner r) c)"
    using assms(10) unfolding sent_well_def suits_def by (elim conjE) (drule (1) bspec, force)
  have "pair_terms L db e (rq_owner r) c = Some (en_pair env (rq_owner r) c)"
    using assms(5) scheduler_pair_agrees(1) [OF assms(3,4)] by (simp add: paired_by_def)
  then have "documented L roles policies (client_question db (rq_owner r) c)"
    using pair_terms_allowed [OF assms(1,2), of db "rq_owner r" c] c(3) by auto
  then show ?thesis using c by blast
qed

lemma client_question_simps [simp]:
  "ar_action (client_question db ow c) = ''client.use''"
  "ar_subject (client_question db ow c) = key_subject db ow"
  "rs_type (ar_resource (client_question db ow c)) = ''client''"
  "rs_owner (ar_resource (client_question db ow c)) = owner_principal (cs_owner c)"
  by (simp_all add: client_question_def client_resource_def owned_resource_def Let_def)

text \<open>
  C29. Isolation holds through the whole system. Take an engine compiled from rules that hold a
  user's two isolation policies, a scheduler that pairs by it through the store's caches, and any
  drain: a request of that user is sent to the user's own clients only, and a client of that user
  is sent requests of no other principal.
\<close>

theorem isolation_holds_through_drain:
  assumes "compile_engine L roles policies = Inr e" and "list_all policy_plain policies"
    and "caches_agree db s" and "as_engine s = Some e" and "paired_by L db s env"
    and "drain_ready q h" and "alias_views env"
    and "\<And>c. c \<in> set (available_client_list h) \<Longrightarrow> model_set (cs_models c)"
    and "drain_queue env q h aff = Some st" and "(cid, r) \<in> set (ds_dispatched st)"
    and "fst (isolation_policies name) \<in> set policies" and "snd (isolation_policies name) \<in> set policies"
    and "name \<noteq> []" and "\<not> contains_sub name '':''"
  shows "\<exists>c \<in> set (available_client_list h). cs_id c = cid \<and>
    (rq_owner r = name \<longrightarrow> owner_principal (cs_owner c) = user_principal name) \<and>
    (owner_principal (cs_owner c) = user_principal name \<longrightarrow>
       su_id (key_subject db (rq_owner r)) = user_principal name)"
proof -
  from dispatched_documented [OF assms(1-10)] obtain c where c: "c \<in> set (available_client_list h)"
    "cs_id c = cid" "documented L roles policies (client_question db (rq_owner r) c)" by blast
  let ?q = "client_question db (rq_owner r) c"
  have no: "\<not> policy_denies L policies ?q" using c(3) by (simp add: documented_def)
  have "rq_owner r = name \<Longrightarrow> owner_principal (cs_owner c) = user_principal name"
    using send_isolation_denies [OF assms(11), of ?q L] no key_subject_user [OF assms(14,13)] by auto
  moreover have "owner_principal (cs_owner c) = user_principal name \<Longrightarrow>
      su_id (key_subject db (rq_owner r)) = user_principal name"
    using receive_isolation_denies [OF assms(12), of ?q L] no by auto
  ultimately show ?thesis using c(1,2) by blast
qed

section \<open>The models a key may reach\<close>

definition model_question ::
  "access_db \<Rightarrow> api_key \<Rightarrow> access_context \<Rightarrow> (string, (string, go_value) gomap) gomap \<Rightarrow> string \<Rightarrow> access_request" where
  "model_question db k ctx attrs m =
     ask (key_subject db (ak_owner k)) ''model.use''
       \<lparr>rs_type = ''model'', rs_id = m, rs_owner = [], rs_team = [], rs_attrs = get_or [] attrs m,
        rs_sharing = None\<rparr> ctx"

definition in_scope :: "key_scope \<Rightarrow> string \<Rightarrow> bool" where
  "in_scope sc m \<longleftrightarrow> ks_models sc = [] \<or> list_ex (\<lambda>p. glob p m) (ks_models sc)"

lemma authorize_loop_exact:
  assumes "compile_engine L roles policies = Inr e" and "list_all policy_plain policies"
  shows "\<exists>reason'. authorize_loop L e (key_subject db (ak_owner k)) sc ctx attrs ms allowed reason =
    Some (allowed @ filter (\<lambda>m. in_scope sc m \<and> documented L roles policies (model_question db k ctx attrs m)) ms,
      reason', e)"
proof (induction ms arbitrary: allowed reason)
  case Nil
  then show ?case by simp
next
  case (Cons m ms)
  let ?q = "model_question db k ctx attrs m"
  obtain d where d: "fresh_answer L e ?q = Some d" "de_allowed d \<longleftrightarrow> documented L roles policies ?q"
    using fresh_answer_exact [OF assms] by blast
  have "decide L e ?q = (Some d, e)"
    using decide_unrevised [of ?q L e] d(1) by (simp add: model_question_def)
  then have dec: "decide L e (ask (key_subject db (ak_owner k)) ''model.use''
      \<lparr>rs_type = ''model'', rs_id = m, rs_owner = [], rs_team = [], rs_attrs = get_or [] attrs m,
       rs_sharing = None\<rparr> ctx) = (Some d, e)" by (simp add: model_question_def)
  let ?keep = "\<lambda>m. in_scope sc m \<and> documented L roles policies (model_question db k ctx attrs m)"
  have scope: "(ks_models sc \<noteq> [] \<and> \<not> glob_any_string (ks_models sc) m) = (\<not> in_scope sc m)"
    by (auto simp: in_scope_def glob_any_string_def)
  have "\<exists>reason'. authorize_loop L e (key_subject db (ak_owner k)) sc ctx attrs (m # ms) allowed reason =
      authorize_loop L e (key_subject db (ak_owner k)) sc ctx attrs ms (if ?keep m then allowed @ [m] else allowed) reason'"
  proof (cases "in_scope sc m")
    case True
    then show ?thesis using d(2)
      by (cases "de_allowed d") (auto simp only: authorize_loop.simps scope dec prod.case option.case
          not_True_eq_False if_False if_True simp_thms)
  next
    case False
    then show ?thesis by (auto simp only: authorize_loop.simps scope not_False_eq_True if_True if_False simp_thms)
  qed
  then show ?case using Cons.IH [of "if ?keep m then allowed @ [m] else allowed"]
    by (cases "?keep m") fastforce+
qed

lemma authorize_models_exact:
  assumes "compile_engine L roles policies = Inr e" and "list_all policy_plain policies"
    and "as_engine s = Some e"
  shows "\<exists>allowed reason s'. authorize_models L db s now key endpoint ip candidates attrs = Some (allowed, reason, s') \<and>
    (reason = [] \<longleftrightarrow> allowed \<noteq> []) \<and>
    allowed = (case db_api_key db key of
        None \<Rightarrow> []
      | Some k \<Rightarrow>
          if ks_endpoints (ak_scope k) \<noteq> [] \<and> endpoint \<noteq> [] \<and> endpoint \<notin> set (ks_endpoints (ak_scope k)) then []
          else filter (\<lambda>m. in_scope (ak_scope k) m \<and>
                 documented L roles policies (model_question db k (key_context L now k endpoint ip) attrs m)) candidates)"
proof (cases "db_api_key db key")
  case None
  then show ?thesis by (simp add: authorize_models_def)
next
  case (Some k)
  have contains: "contains_string es x \<longleftrightarrow> x \<in> set es" for es x
    by (auto simp: contains_string_def list_ex_iff)
  obtain reason where "authorize_loop L e (key_subject db (ak_owner k)) (ak_scope k)
      (key_context L now k endpoint ip) attrs candidates [] [] =
    Some (filter (\<lambda>m. in_scope (ak_scope k) m \<and>
        documented L roles policies (model_question db k (key_context L now k endpoint ip) attrs m)) candidates,
      reason, e)"
    using authorize_loop_exact [OF assms(1,2), of db k "ak_scope k" _ attrs candidates "[]" "[]"] by auto
  then show ?thesis using Some assms(3)
    by (auto simp: authorize_models_def contains Let_def)
qed

text \<open>
  C30. A key reaches exactly what it should: with rules compiled, \<open>AuthorizeModels\<close> answers with
  those candidates, in order, that the key's scope covers and the rules allow its owner; none for
  an unknown key or an endpoint outside the scope; and it gives a reason exactly when it answers
  with none.
\<close>

theorem key_reaches_exactly:
  assumes "compile_engine L roles policies = Inr e" and "list_all policy_plain policies"
    and "as_engine s = Some e"
  shows "\<exists>allowed reason s'. authorize_models L db s now key endpoint ip candidates attrs = Some (allowed, reason, s') \<and>
    (reason = [] \<longleftrightarrow> allowed \<noteq> []) \<and>
    allowed = (case db_api_key db key of
        None \<Rightarrow> []
      | Some k \<Rightarrow>
          if ks_endpoints (ak_scope k) \<noteq> [] \<and> endpoint \<noteq> [] \<and> endpoint \<notin> set (ks_endpoints (ak_scope k)) then []
          else filter (\<lambda>m. in_scope (ak_scope k) m \<and>
                 documented L roles policies (model_question db k (key_context L now k endpoint ip) attrs m)) candidates)"
  using authorize_models_exact [OF assms] .

end
