(* ===== verification/Access_Properties.thy ===== *)
theory Access_Properties
  imports Access_Cache
begin

text \<open>
  The properties of access decisions (\<open>router/internal/authz\<close>): patterns, permissions,
  conditions, the decision rule, its cache, the built-in roles and pairing.
\<close>

section \<open>Patterns and permissions\<close>

text \<open>
  The iterative matcher with one-star backtracking decides what a pattern means: for a name
  without a star, \<open>Glob\<close> answers yes exactly when the pattern covers the name.
\<close>

theorem glob_decides_patterns:
  assumes "star \<notin> set name"
  shows "glob pattern name \<longleftrightarrow> covers pattern name"
  using assms by (rule glob_exact)

text \<open>Rules and requests that witnesses and findings are evaluated on.\<close>

definition any_subject :: subject_matcher where
  "any_subject = \<lparr>sm_ids = [], sm_kinds = [], sm_roles = [], sm_teams = [], sm_attrs = []\<rparr>"

definition model_policy :: "string \<Rightarrow> string \<Rightarrow> string list \<Rightarrow> policy" where
  "model_policy pid effect ids =
     \<lparr>po_id = pid, po_name = pid, po_effect = effect, po_enabled = True, po_subject = any_subject,
      po_actions = [''model.use''],
      po_resource = \<lparr>rm_type = ''model'', rm_ids = ids, rm_owners = [], rm_teams = []\<rparr>,
      po_condition = None\<rparr>"

definition sample_lib :: rule_lib where
  "sample_lib = \<lparr>li_parse_addr = (\<lambda>_. None), li_parse_prefix = (\<lambda>_. None), li_zone = (\<lambda>z. z = ''UTC''),
     li_minute = (\<lambda>_ t. t div 60000000000 mod 1440), li_float_text = (\<lambda>_. ''0''), li_quote = (\<lambda>s. s)\<rparr>"

definition member_subject :: "string \<Rightarrow> subject" where
  "member_subject sid = \<lparr>su_id = sid, su_kind = kind_user,
     su_bindings = [\<lparr>bi_role = role_member, bi_team = []\<rparr>], su_teams = [], su_managed_by = [],
     su_attrs = [], su_rev = ''1''\<rparr>"

definition sample_roles :: "role list" where
  "sample_roles = [builtin_role role_member ''Member'' [''model.use'', ''client.use'', ''usage.view.own'']]"

definition empty_context :: access_context where
  "empty_context = \<lparr>ac_time = zero_time, ac_source_ip = No_Addr, ac_endpoint = [], ac_priority = [],
     ac_credential_kind = [], ac_prompt_tokens = 0, ac_extra = []\<rparr>"

definition plain_resource :: "string \<Rightarrow> string \<Rightarrow> resource" where
  "plain_resource typ rid = \<lparr>rs_type = typ, rs_id = rid, rs_owner = [], rs_team = [], rs_attrs = [],
     rs_sharing = None\<rparr>"

definition use_model :: "string \<Rightarrow> access_request" where
  "use_model m = ask (member_subject ''user:ann'') ''model.use'' (plain_resource ''model'' m) empty_context"

definition deny_all_rules :: "policy list" where
  "deny_all_rules =
     [model_policy ''allow-x'' effect_allow [], model_policy ''deny-all'' effect_deny [''*'']]"

definition engine_of :: "rule_lib \<Rightarrow> role list \<Rightarrow> policy list \<Rightarrow> engine" where
  "engine_of L roles policies =
     (case compile_engine L roles policies of Inl _ \<Rightarrow> engine_new | Inr e \<Rightarrow> e)"

text \<open>
  A star in a name breaks the matcher: the first branch takes the pattern's star for the
  name's, so the pattern of one star, which covers everything, does not match \<open>*x\<close>, and a rule
  that denies every model does not deny a model of that name.
\<close>

theorem star_name_escapes_deny:
  "covers ''*'' ''*x'' \<and> \<not> glob ''*'' ''*x'' \<and>
   (\<exists>e. compile_engine sample_lib sample_roles deny_all_rules = Inr e \<and>
      map_option de_allowed (fst (decide sample_lib e (use_model ''x''))) = Some False \<and>
      map_option de_allowed (fst (decide sample_lib e (use_model ''*x''))) = Some True)"
proof -
  let ?e = "engine_of sample_lib sample_roles deny_all_rules"
  have "case compile_engine sample_lib sample_roles deny_all_rules of Inl _ \<Rightarrow> False | Inr _ \<Rightarrow> True"
    by code_simp
  then have "compile_engine sample_lib sample_roles deny_all_rules = Inr ?e"
    by (auto simp: engine_of_def split: sum.splits)
  moreover have "map_option de_allowed (fst (decide sample_lib ?e (use_model ''x''))) = Some False"
    "map_option de_allowed (fst (decide sample_lib ?e (use_model ''*x''))) = Some True"
    by code_simp+
  moreover have "covers ''*'' ''*x''" "\<not> glob ''*'' ''*x''" by code_simp+
  ultimately show ?thesis by blast
qed

text \<open>
  Reading and writing a permission are inverse: a text parses to a permission exactly when the
  permission names a known action, with a scope where the action takes one, and the text is how
  it is written.
\<close>

theorem permission_roundtrip:
  "parse_permission s = Inr p \<longleftrightarrow> permission_ok p \<and> permission_string p = s"
  using parse_permission_string [of p] parse_permission_Inr [of s p] by blast

section \<open>Conditions\<close>

text \<open>
  Compiling a condition changes no decision and cannot panic: for a condition that validates,
  the stored copy with its literals parsed once evaluates, on every request, to the value the
  condition as written has, and that value exists.
\<close>

theorem prepared_condition_same_value:
  assumes "cond_plain c" and "cond_error L 0 c = None"
  shows "\<exists>c' t. prepare L (clone c) = Some c' \<and> cond_eval L req c' = Some t \<and> cond_eval L req c = Some t"
proof -
  have c': "prepare L (clone c) = Some (prepared_of L c)" "cond_ready (prepared_of L c)"
    using prepare_clone [OF assms(2)] by simp_all
  obtain t where "cond_eval L req (prepared_of L c) = Some t"
    using cond_eval_Some [OF c'(2)] by blast
  then show ?thesis using c'(1) prepared_eval [OF assms] by auto
qed


section \<open>Decisions\<close>

text \<open>
  C26. The compiled engine decides as documented. Over the roles and policies as the administrators
  wrote them: an action is allowed exactly when it is known, no enabled deny policy that covers it
  is true or unknown, and, for an action that needs a grant, a role permits it and an allow policy
  is true (for \<open>client.use\<close>: the client's sharing admits the subject), and otherwise a role
  permits it or an allow policy is true. The decision always exists.
\<close>

theorem engine_decides_as_documented:
  assumes "compile_engine L roles policies = Inr e" and "list_all policy_plain policies"
  shows "\<exists>d. fst (decide L e req) = Some d \<and> (de_allowed d \<longleftrightarrow> documented L roles policies req)"
proof -
  note c = compile_engine_compiled [OF assms(1)]
  have "fst (decide L e req) = fresh_answer L e req"
    using decide_answer [of L e "[req]" req] c(2) by (simp add: cache_sound_def)
  moreover have "\<exists>d. fresh_answer L e req = Some d \<and> (de_allowed d \<longleftrightarrow> documented L roles policies req)"
  proof (cases "mget catalogue (ar_action req)")
    case None
    then show ?thesis by (simp add: fresh_answer_cases documented_def known_action_def refuse_def)
  next
    case (Some info)
    then show ?thesis using decide_rules_exact [OF c(1) assms(2) Some]
      by (simp add: fresh_answer_cases)
  qed
  ultimately show ?thesis by simp
qed

text \<open>
  C27. The cache never changes an answer: over any sequence of questions to one compiled engine,
  whatever it has cached or thrown away in between, every answer is the one a fresh engine gives,
  provided subjects with the same id and revision are the same and the fields of the key hold no
  zero byte.
\<close>

theorem cache_never_changes_an_answer:
  assumes "compile_engine L roles policies = Inr e"
    and "list_all clean_request reqs" and "same_revisions reqs"
  shows "fst (decide_run L e reqs) = map (\<lambda>r. fst (decide L e r)) reqs"
proof -
  note c = compile_engine_compiled [OF assms(1)]
  have sound: "cache_sound L e reqs" using c(2) by (simp add: cache_sound_def)
  have "fst (decide_run L e reqs) = map (fresh_answer L e) reqs"
    using decide_run_answers [OF c(1) sound _ assms(2,3)] by simp
  also have "\<dots> = map (\<lambda>r. fst (decide L e r)) reqs"
    using decide_answer [OF sound] by simp
  finally show ?thesis .
qed

text \<open>
  A role held within a team stays there: a subject all of whose roles are confined to teams
  is allowed an action by its roles only if the action takes a scope and the resource belongs to
  one of those teams; without an allow policy in force for the action it is allowed nothing else.
\<close>

theorem team_roles_stay_in_team:
  assumes "compile_engine L roles policies = Inr e" and "list_all policy_plain policies"
    and "list_all (\<lambda>b. bi_team b \<noteq> []) (su_bindings (ar_subject req))"
    and "\<not> policy_grants L policies req"
    and "fst (decide L e req) = Some d" and "de_allowed d"
  shows "scoped (ar_action req) \<and>
    (\<exists>b \<in> set (su_bindings (ar_subject req)). bi_team b = rs_team (ar_resource req))"
proof -
  note c = compile_engine_compiled [OF assms(1)]
  have "fst (decide L e req) = fresh_answer L e req"
    using decide_answer [of L e "[req]" req] c(2) by (simp add: cache_sound_def)
  then have doc: "documented L roles policies req"
    using decide_rules_exact [OF c(1) assms(2)] assms(5,6)
    by (fastforce simp: fresh_answer_cases refuse_def split: option.splits)
  then have "role_permits roles req" using assms(4) by (auto simp: documented_def split: if_splits)
  then obtain b sc where b: "b \<in> set (su_bindings (ar_subject req))" "scope_reaches req b sc"
    by (auto simp: role_permits_def)
  then have "bi_team b \<noteq> []" using assms(3) by (auto simp: list_all_iff)
  then show ?thesis using b by (auto simp: scope_reaches_def split: if_splits)
qed

section \<open>The built-in roles\<close>

definition builtin_permissions :: "string \<Rightarrow> string list" where
  "builtin_permissions rid = concat (map ro_permissions (filter (\<lambda>r. ro_id r = rid) builtin_roles))"

definition auditor_actions :: "string list" where
  "auditor_actions = [''key.view'', ''client.view'', ''usage.view'', ''job.view'', ''team.view'',
     ''fleet.view'', ''user.view'', ''settings.view'', ''policy.view'', ''policy.simulate'', ''audit.view'']"

lemma auditor_viewer_permissions:
  "list_all (\<lambda>s. case parse_permission s of Inl _ \<Rightarrow> False | Inr p \<Rightarrow> list_ex (\<lambda>a. a = pm_action p) auditor_actions)
     (builtin_permissions role_auditor @ builtin_permissions role_viewer)"
  by code_simp

text \<open>
  Auditors and viewers change nothing: with the built-in roles and no allow policy in force, a
  subject that holds no role but auditor and viewer is allowed only the actions that read.
\<close>

theorem auditors_only_read:
  assumes "compile_engine L builtin_roles policies = Inr e" and "list_all policy_plain policies"
    and "list_all (\<lambda>b. bi_role b = role_auditor \<or> bi_role b = role_viewer) (su_bindings (ar_subject req))"
    and "\<not> policy_grants L policies req"
    and "fst (decide L e req) = Some d" and "de_allowed d"
  shows "ar_action req \<in> set auditor_actions"
proof -
  note c = compile_engine_compiled [OF assms(1)]
  have "fst (decide L e req) = fresh_answer L e req"
    using decide_answer [of L e "[req]" req] c(2) by (simp add: cache_sound_def)
  then have doc: "documented L builtin_roles policies req"
    using decide_rules_exact [OF c(1) assms(2)] assms(5,6)
    by (fastforce simp: fresh_answer_cases refuse_def split: option.splits)
  then have "role_permits builtin_roles req" using assms(4) by (auto simp: documented_def split: if_splits)
  then obtain b r s sc where r: "b \<in> set (su_bindings (ar_subject req))" "r \<in> set builtin_roles"
    "ro_id r = bi_role b" "s \<in> set (ro_permissions r)"
    "parse_permission s = Inr \<lparr>pm_action = ar_action req, pm_scope = sc\<rparr>"
    by (auto simp: role_permits_def)
  then have "s \<in> set (builtin_permissions role_auditor @ builtin_permissions role_viewer)"
    using assms(3) by (fastforce simp: builtin_permissions_def list_all_iff)
  then have "case parse_permission s of Inl _ \<Rightarrow> False
      | Inr p \<Rightarrow> list_ex (\<lambda>a. a = pm_action p) auditor_actions"
    using auditor_viewer_permissions unfolding list_all_iff by blast
  then show ?thesis using r(5) by (auto simp: list_ex_iff)
qed

section \<open>Pairing\<close>

text \<open>
  The scheduler's half of a pairing is exact: over a compiled engine, a request may run on a
  client by \<open>CanPair\<close> exactly when the subject may use the model and \<open>PairClient\<close> allows the
  client, and then both give the same terms: idle-only, and the slots reserved for the model.
\<close>

theorem pair_client_is_client_half:
  assumes "compile_engine L roles policies = Inr e"
    and "same_revisions [ask s ''model.use'' m ctx, ask s ''client.use'' cl ctx]"
    and "list_all clean_request [ask s ''model.use'' m ctx, ask s ''client.use'' cl ctx]"
  shows "\<exists>d p q. fst (decide L e (ask s ''model.use'' m ctx)) = Some d \<and>
    fst (can_pair L e s m cl ctx) = Some p \<and> fst (pair_client L e s cl ctx) = Some q \<and>
    ap_allowed p = (de_allowed d \<and> cq_allowed q) \<and>
    (ap_allowed p \<longrightarrow> ap_idle_only p = cq_idle_only q \<and> ap_reserved p = client_reserved_for q (rs_id m))"
proof -
  note c = compile_engine_compiled [OF assms(1)]
  let ?rm = "ask s ''model.use'' m ctx" and ?rc = "ask s ''client.use'' cl ctx"
  have sound: "cache_sound L e [?rm, ?rc]" using c(2) by (simp add: cache_sound_def)
  obtain c' where c': "snd (decide L e ?rm) = e\<lparr>eg_cache := c'\<rparr>" "cache_sound L (e\<lparr>eg_cache := c'\<rparr>) [?rm, ?rc]"
    using decide_state [OF c(1) sound _ assms(3,2), of ?rm] by auto
  have same: "fst (decide L (e\<lparr>eg_cache := c'\<rparr>) ?rc) = fst (decide L e ?rc)"
    using decide_answer [OF sound, of ?rc] decide_answer [OF c'(2), of ?rc] by simp
  obtain d where d: "fst (decide L e ?rm) = Some d"
    using decide_total [OF assms(1)] by blast
  obtain d2 where d2: "fst (decide L e ?rc) = Some d2"
    using decide_total [OF assms(1)] by blast
  have dm: "decide L e ?rm = (Some d, e\<lparr>eg_cache := c'\<rparr>)" using d c'(1) by (metis prod.collapse)
  obtain e2 where dc': "decide L (e\<lparr>eg_cache := c'\<rparr>) ?rc = (Some d2, e2)"
    using same d2 by (metis prod.collapse)
  obtain e3 where dc: "decide L e ?rc = (Some d2, e3)" using d2 by (metis prod.collapse)
  show ?thesis
    using dm dc' dc
    by (cases "rs_sharing cl")
      (auto simp: can_pair_def pair_client_def bare_pairing_def client_reserved_for_def Let_def
        cong: option.case_cong)
qed

end
