(* ===== verification/Store_Witnesses.thy ===== *)
theory Store_Witnesses
  imports Access_Isolation Access_Properties Sample_Mesh
begin

text \<open>The portal's rules at work on the sample mesh: alice's requests and clients are isolated.\<close>

definition iso_rules :: "policy list" where
  "iso_rules =
     [\<lparr>po_id = ''clients-open'', po_name = ''Everyone may use every client'', po_effect = effect_allow,
       po_enabled = True, po_subject = any_one, po_actions = [''client.use''],
       po_resource = \<lparr>rm_type = ''client'', rm_ids = [], rm_owners = [], rm_teams = []\<rparr>,
       po_condition = None\<rparr>,
      default_model_policy, fst (isolation_policies ''alice''), snd (isolation_policies ''alice'')]"

definition iso_roles :: "role list" where
  "iso_roles = [builtin_role role_member ''Member'' [''model.use'', ''client.use'']]"

definition iso_engine :: engine where
  "iso_engine = engine_of sample_lib iso_roles iso_rules"

lemma iso_engine_compiled: "compile_engine sample_lib iso_roles iso_rules = Inr iso_engine"
proof -
  have "case compile_engine sample_lib iso_roles iso_rules of Inl _ \<Rightarrow> False | Inr _ \<Rightarrow> True" by code_simp
  then show ?thesis by (auto simp: iso_engine_def engine_of_def split: sum.splits)
qed

lemma iso_rules_plain: "list_all policy_plain iso_rules"
  by code_simp

definition iso_db :: access_db where
  "iso_db = \<lparr>db_user = (\<lambda>_. None), db_team = (\<lambda>_. None), db_bindings = (\<lambda>_. None),
     db_teams_of = (\<lambda>_. None), db_sharing = (\<lambda>_. Col_Empty),
     db_api_key = (\<lambda>k. if k = ''key-1''
        then Some \<lparr>ak_owner = ''carol'', ak_priority = ''normal'',
               ak_scope = \<lparr>ks_models = [''llama*''], ks_endpoints = []\<rparr>\<rparr> else None)\<rparr>"

definition iso_state :: access_state where
  "iso_state = \<lparr>as_engine = Some iso_engine, as_subjects = [], as_sharing = [], as_denials = denial_log_new\<rparr>"

definition iso_pair :: "string \<Rightarrow> client_summary \<Rightarrow> pairing" where
  "iso_pair ow c = the (fst (scheduler_pair sample_lib iso_db iso_state ow c))"

definition iso_env :: drain_env where
  "iso_env = sample_env\<lparr>en_pair := iso_pair\<rparr>"

definition iso_result :: drain_state where
  "iso_result = the (drain_queue iso_env sample_queue sample_hub [])"

section \<open>The pairings of the sample\<close>

definition w1_summary :: client_summary where
  "w1_summary = \<lparr>cs_id = ''w1'', cs_owner = ''alice'', cs_token = ''w1'',
     cs_models = [(''llama'', True)], cs_max_concurrent = 2, cs_in_flight = 0, cs_local_busy = 0,
     cs_context_sizes = [(''llama'', 100)], cs_owner_slots = [(''*'', 1)], cs_modalities = []\<rparr>"

definition w2_summary :: client_summary where
  "w2_summary = \<lparr>cs_id = ''w2'', cs_owner = ''bob'', cs_token = ''w2'',
     cs_models = [(''qwen'', True)], cs_max_concurrent = 1, cs_in_flight = 0, cs_local_busy = 0,
     cs_context_sizes = [(''qwen'', 100)], cs_owner_slots = [], cs_modalities = []\<rparr>"

definition pairing_of :: "bool \<Rightarrow> bool \<Rightarrow> pairing" where
  "pairing_of allowed owner_side = \<lparr>pr_allowed = allowed, pr_owner_side = owner_side, pr_idle_only = False,
     pr_reserved = [], pr_per_requester_max = 0\<rparr>"

lemma iso_pairs:
  "iso_pair ''alice'' w1_summary = pairing_of True True"
  "iso_pair ''alice'' w2_summary = pairing_of False False"
  "iso_pair ''carol'' w1_summary = pairing_of False False"
  "iso_pair ''carol'' w2_summary = pairing_of True False"
  by code_simp+

text \<open>So that evaluating a drain does not ask the engine again.\<close>

lemma iso_pair_table [code]:
  "iso_pair ow c =
     (if ow = ''alice'' \<and> c = w1_summary then pairing_of True True
      else if ow = ''alice'' \<and> c = w2_summary then pairing_of False False
      else if ow = ''carol'' \<and> c = w1_summary then pairing_of False False
      else if ow = ''carol'' \<and> c = w2_summary then pairing_of True False
      else the (fst (scheduler_pair sample_lib iso_db iso_state ow c)))"
  using iso_pairs by (auto simp only: iso_pair_def split: if_split)

lemma iso_dispatched:
  "map (\<lambda>(c, r). (c, rq_id r, rq_owner r)) (ds_dispatched iso_result) =
     [(''w1'', ''r2'', ''alice''), (''w2'', ''r1'', ''carol'')]"
  by code_simp

lemma iso_caches: "caches_agree iso_db iso_state"
  by (simp add: caches_agree_def iso_state_def)

lemma iso_paired: "paired_by sample_lib iso_db iso_state iso_env"
proof -
  have e: "as_engine iso_state = Some iso_engine" by (simp add: iso_state_def)
  show ?thesis
    unfolding paired_by_def
  proof (intro allI)
    fix ow c
    obtain p where "pair_terms sample_lib iso_db iso_engine ow c = Some p"
      using pair_terms_allowed [OF iso_engine_compiled iso_rules_plain] by blast
    then show "fst (scheduler_pair sample_lib iso_db iso_state ow c) = Some (en_pair iso_env ow c)"
      using scheduler_pair_agrees(1) [OF iso_caches e] by (simp add: iso_env_def iso_pair_def)
  qed
qed

lemma iso_runs: "drain_queue iso_env sample_queue sample_hub [] = Some iso_result"
  unfolding iso_result_def
  using drain_returns [OF queue_wf_index_ok [OF sample_queue_wf], of iso_env sample_hub "[]"] by auto

lemma iso_models:
  assumes "c \<in> set (available_client_list sample_hub)"
  shows "model_set (cs_models c)"
proof -
  have "list_all (\<lambda>c. list_all (\<lambda>m. get_or False (cs_models c) m) (map fst (cs_models c)))
      (available_client_list sample_hub)" by code_simp
  then show ?thesis using assms by (force simp: list_all_iff model_set_def)
qed

text \<open>Alice's request went to her own client.\<close>

theorem isolation_holds_through_drain_witness:
  "\<exists>c :: client_summary. cs_id c = ''w1'' \<and> owner_principal (cs_owner c) = ''user:alice''"
proof -
  obtain r where r: "(''w1'', r) \<in> set (ds_dispatched iso_result)" "rq_owner r = ''alice''"
    using iso_dispatched by (cases "ds_dispatched iso_result") auto
  have rules: "fst (isolation_policies ''alice'') \<in> set iso_rules" "snd (isolation_policies ''alice'') \<in> set iso_rules"
    by (simp_all add: iso_rules_def)
  have e: "as_engine iso_state = Some iso_engine" by (simp add: iso_state_def)
  have views: "alias_views iso_env"
    by (simp add: alias_views_def iso_env_def sample_env_def get_or_def)
  have name: "''alice'' \<noteq> []" "\<not> contains_sub ''alice'' '':''" by code_simp+
  have alice: "user_principal ''alice'' = ''user:alice''" by code_simp
  have "\<exists>c \<in> set (available_client_list sample_hub). cs_id c = ''w1'' \<and>
      (rq_owner r = ''alice'' \<longrightarrow> owner_principal (cs_owner c) = user_principal ''alice'') \<and>
      (owner_principal (cs_owner c) = user_principal ''alice'' \<longrightarrow>
         su_id (key_subject iso_db (rq_owner r)) = user_principal ''alice'')"
    by (rule isolation_holds_through_drain [OF iso_engine_compiled iso_rules_plain iso_caches e iso_paired
      sample_ready views iso_models iso_runs r(1) rules name])
  with r(2)
  obtain c :: client_summary where "cs_id c = ''w1''" "owner_principal (cs_owner c) = user_principal ''alice''" by blast
  then show ?thesis unfolding alice by blast
qed

text \<open>The key of carol reaches the one candidate its scope covers.\<close>

theorem key_reaches_exactly_witness:
  "map_option (\<lambda>(ms, reason, s). (ms, reason)) (authorize_models sample_lib iso_db iso_state 5 ''key-1'' ''chat'' ''''
     [''qwen'', ''llama-3''] []) = Some ([''llama-3''], [])"
proof -
  have e: "as_engine iso_state = Some iso_engine" by (simp add: iso_state_def)
  obtain ms reason s where run: "authorize_models sample_lib iso_db iso_state 5 ''key-1'' ''chat'' ''''
      [''qwen'', ''llama-3''] [] = Some (ms, reason, s)" "reason = [] \<longleftrightarrow> ms \<noteq> []"
    using key_reaches_exactly [OF iso_engine_compiled iso_rules_plain e] by blast
  have "map_option fst (authorize_models sample_lib iso_db iso_state 5 ''key-1'' ''chat'' ''''
      [''qwen'', ''llama-3''] []) = Some [''llama-3'']" by code_simp
  then show ?thesis using run by simp
qed

section \<open>Decisions at concrete rules\<close>

text \<open>The properties of access decisions applied to concrete rules and requests.\<close>

theorem glob_decides_patterns_witness:
  "glob ''llama-*-8?'' ''llama-3-8b'' \<and> \<not> glob ''llama-*-8?'' ''llama-3-70b''"
proof -
  have "star \<notin> set ''llama-3-8b''" "star \<notin> set ''llama-3-70b''" by code_simp+
  from this [THEN glob_decides_patterns, of "''llama-*-8?''"]
  show ?thesis by (simp add: covers.simps)
qed

text \<open>Weekdays from nine to five, or on the marketing team's own client.\<close>

definition ref_arg :: "string \<Rightarrow> cond_arg" where
  "ref_arg r = \<lparr>ag_ref = r, ag_lit = Val_Other\<rparr>"

definition lit_arg :: "string \<Rightarrow> cond_arg" where
  "lit_arg s = \<lparr>ag_ref = [], ag_lit = Val_String s\<rparr>"

definition leaf :: "string \<Rightarrow> cond_arg list \<Rightarrow> cond" where
  "leaf op args = Cond None None None op args unprepared"

definition office_hours :: cond where
  "office_hours = Cond None (Some
     [leaf ''time_between'' [ref_arg ''context.time'', lit_arg ''9:00'', lit_arg ''17:00'', lit_arg ''UTC''],
      leaf ''eq'' [ref_arg ''resource.owner'', lit_arg ''team:marketing'']]) None [] [] unprepared"

definition at_noon :: access_request where
  "at_noon = (use_model ''llama'')\<lparr>ar_context := empty_context\<lparr>ac_time := 43200000000000\<rparr>\<rparr>"

theorem prepared_condition_same_value_witness:
  "cond_eval sample_lib at_noon office_hours = Some Tri_True"
proof -
  have "cond_plain office_hours" "cond_error sample_lib 0 office_hours = None" by code_simp+
  from prepared_condition_same_value [OF this, of at_noon] obtain c' t where
    c': "prepare sample_lib (clone office_hours) = Some c'" "cond_eval sample_lib at_noon c' = Some t"
      "cond_eval sample_lib at_noon office_hours = Some t" by blast
  have "map_option (cond_eval sample_lib at_noon) (prepare sample_lib (clone office_hours)) = Some (Some Tri_True)"
    by code_simp
  then show ?thesis using c' by simp
qed

text \<open>Ann's department is known in the larger request only.\<close>

definition finance_only :: cond where
  "finance_only = Cond None None (Some (leaf ''eq'' [ref_arg ''subject.attrs.department'', lit_arg ''finance'']))
     [] [] unprepared"

definition ann_in_sales :: access_request where
  "ann_in_sales = (use_model ''llama'')\<lparr>ar_subject :=
     (member_subject ''user:ann'')\<lparr>su_attrs := [(''department'', ''sales'')]\<rparr>\<rparr>"

lemma ann_carries_more: "carries_more (use_model ''llama'') ann_in_sales"
proof -
  have "resolve_subject (ar_subject (use_model ''llama'')) rest = Some v \<Longrightarrow>
      resolve_subject (ar_subject ann_in_sales) rest = Some v" for rest v
    by (auto simp: resolve_subject_def ann_in_sales_def use_model_def ask_def member_subject_def
        split: if_splits)
  moreover have "ar_resource ann_in_sales = ar_resource (use_model ''llama'')"
    "ar_context ann_in_sales = ar_context (use_model ''llama'')" by (simp_all add: ann_in_sales_def)
  ultimately show ?thesis
    by (auto simp: carries_more_def resolve_def split: prod.splits if_splits)
qed


text \<open>A rule set: members use every model but one, which is kept for office hours.\<close>

definition sample_rules :: "policy list" where
  "sample_rules =
     [model_policy ''models-default'' effect_allow [''*''],
      (model_policy ''big-model'' effect_deny [''llama-405b''])\<lparr>po_condition := Some office_hours\<rparr>]"

definition sample_engine :: engine where
  "sample_engine = engine_of sample_lib sample_roles sample_rules"

lemma sample_engine_compiled: "compile_engine sample_lib sample_roles sample_rules = Inr sample_engine"
proof -
  have "case compile_engine sample_lib sample_roles sample_rules of Inl _ \<Rightarrow> False | Inr _ \<Rightarrow> True"
    by code_simp
  then show ?thesis by (auto simp: sample_engine_def engine_of_def split: sum.splits)
qed

lemma sample_rules_plain: "list_all policy_plain sample_rules"
  by code_simp

theorem engine_decides_as_documented_witness:
  "documented sample_lib sample_roles sample_rules (use_model ''llama'')"
proof -
  have "map_option de_allowed (fst (decide sample_lib sample_engine (use_model ''llama''))) = Some True"
    by code_simp
  with engine_decides_as_documented [OF sample_engine_compiled sample_rules_plain, of "use_model ''llama''"]
  show ?thesis by auto
qed

definition question_run :: "access_request list" where
  "question_run =
     [ask (member_subject ''user:ann'') ''usage.view'' (plain_resource ''usage'' ''u1'') empty_context,
      use_model ''llama'',
      ask (member_subject ''user:ann'') ''usage.view'' (plain_resource ''usage'' ''u1'') empty_context]"

theorem cache_never_changes_an_answer_witness:
  "fst (decide_run sample_lib sample_engine question_run) =
   map (\<lambda>r. fst (decide sample_lib sample_engine r)) question_run"
proof -
  have "list_all clean_request question_run"
    by code_simp
  moreover have "same_revisions question_run"
    by (simp add: same_revisions_def question_run_def ask_def use_model_def)
  ultimately show ?thesis by (rule cache_never_changes_an_answer [OF sample_engine_compiled])
qed

definition team_role :: role where
  "team_role = builtin_role role_team_member ''Team member'' [''usage.view.team'', ''fleet.view'']"

definition team_engine :: engine where
  "team_engine = engine_of sample_lib [team_role] []"

lemma team_engine_compiled: "compile_engine sample_lib [team_role] [] = Inr team_engine"
proof -
  have "case compile_engine sample_lib [team_role] [] of Inl _ \<Rightarrow> False | Inr _ \<Rightarrow> True" by code_simp
  then show ?thesis by (auto simp: team_engine_def engine_of_def split: sum.splits)
qed

definition team_question :: access_request where
  "team_question = ask ((member_subject ''user:bob'')\<lparr>su_bindings :=
     [\<lparr>bi_role = role_team_member, bi_team = ''research''\<rparr>]\<rparr>) ''usage.view''
     ((plain_resource ''usage'' ''u1'')\<lparr>rs_team := ''research''\<rparr>) empty_context"

lemma no_policy_grants: "\<not> policy_grants L [] req"
  by (simp add: policy_grants_def in_force_def)

theorem team_roles_stay_in_team_witness: "scoped (ar_action team_question)"
proof -
  obtain d where "fst (decide sample_lib team_engine team_question) = Some d"
    using decide_total [OF team_engine_compiled] by blast
  moreover have "map_option de_allowed (fst (decide sample_lib team_engine team_question)) = Some True"
    by code_simp
  moreover have "list_all (\<lambda>b. bi_team b \<noteq> []) (su_bindings (ar_subject team_question))" by code_simp
  ultimately show ?thesis
    using team_roles_stay_in_team [OF team_engine_compiled _ _ no_policy_grants] by simp
qed

definition auditor_question :: access_request where
  "auditor_question = ask ((member_subject ''user:eve'')\<lparr>su_bindings :=
     [\<lparr>bi_role = role_auditor, bi_team = []\<rparr>]\<rparr>) ''audit.view'' (plain_resource ''audit'' []) empty_context"

definition builtin_engine :: engine where
  "builtin_engine = engine_of sample_lib builtin_roles []"

lemma builtin_engine_compiled: "compile_engine sample_lib builtin_roles [] = Inr builtin_engine"
proof -
  have "case compile_engine sample_lib builtin_roles [] of Inl _ \<Rightarrow> False | Inr _ \<Rightarrow> True" by code_simp
  then show ?thesis by (auto simp: builtin_engine_def engine_of_def split: sum.splits)
qed

theorem auditors_only_read_witness: "ar_action auditor_question \<in> set auditor_actions"
proof -
  obtain d where "fst (decide sample_lib builtin_engine auditor_question) = Some d"
    using decide_total [OF builtin_engine_compiled] by blast
  moreover have "map_option de_allowed (fst (decide sample_lib builtin_engine auditor_question)) = Some True"
    by code_simp
  moreover have "list_all (\<lambda>b. bi_role b = role_auditor \<or> bi_role b = role_viewer)
      (su_bindings (ar_subject auditor_question))" by code_simp
  ultimately show ?thesis
    using auditors_only_read [OF builtin_engine_compiled _ _ no_policy_grants] by simp
qed

definition shared_client :: resource where
  "shared_client = (plain_resource ''client'' ''tok'')\<lparr>rs_owner := ''user:bob'', rs_sharing :=
     Some \<lparr>sh_mode = share_idle, sh_with = [], sh_reserved_slots = [(''llama'', 1)],
           sh_per_requester_max = 2, sh_reclaim = False\<rparr>\<rparr>"

theorem pair_client_is_client_half_witness:
  "map_option ap_idle_only (fst (can_pair sample_lib sample_engine (member_subject ''user:ann'')
     (plain_resource ''model'' ''llama'') shared_client empty_context)) = Some True"
proof -
  let ?s = "member_subject ''user:ann''" and ?m = "plain_resource ''model'' ''llama''"
  let ?qs = "[ask ?s ''model.use'' ?m empty_context, ask ?s ''client.use'' shared_client empty_context]"
  have "same_revisions ?qs" by (simp add: same_revisions_def ask_def)
  moreover have "list_all clean_request ?qs"
    by code_simp
  ultimately obtain p q where pq: "fst (can_pair sample_lib sample_engine ?s ?m shared_client empty_context) = Some p"
    "fst (pair_client sample_lib sample_engine ?s shared_client empty_context) = Some q"
    "ap_allowed p \<longrightarrow> ap_idle_only p = cq_idle_only q"
    using pair_client_is_client_half [OF sample_engine_compiled] by blast
  have "map_option cq_idle_only (fst (pair_client sample_lib sample_engine ?s shared_client empty_context)) = Some True"
    "map_option ap_allowed (fst (can_pair sample_lib sample_engine ?s ?m shared_client empty_context)) = Some True"
    by code_simp+
  then show ?thesis using pq by simp
qed

end
