(* ===== verification/Dedup.thy ===== *)
theory Dedup
  imports Wire_Types
begin

text \<open>
  \<open>router/internal/dedup/dedup.go\<close>: identical concurrent requests are answered once. The first
  caller is the original; later ones follow it, given what was emitted so far and a channel for
  the rest. Each operation is atomic under the entry's lock. Channels live in a store, since a
  follower keeps reading its channel after the entry has let go of it; \<open>None\<close> is a panic. What
  is only logged (how many followers an operation failed) is left out.
\<close>

section \<open>The registry\<close>

record subscriber =
  sb_ch :: nat
  sb_overflow :: bool
  sb_delivered :: bool

record dedup_entry =
  dx_chunks :: "chunk_msg list"
  dx_subs :: "subscriber list"
  dx_done :: bool
  dx_replay_dropped :: bool

record registry =
  rg_entries :: "(string, dedup_entry) gomap"
  rg_chans :: "(nat, chunk_msg chan) gomap"
  rg_next :: nat

definition max_replay_chunks :: int where "max_replay_chunks = 2048"

definition live_capacity :: nat where "live_capacity = 256"

definition registry_new :: registry where
  "registry_new = \<lparr>rg_entries = [], rg_chans = [], rg_next = 0\<rparr>"

definition empty_entry :: dedup_entry where
  "empty_entry = \<lparr>dx_chunks = [], dx_subs = [], dx_done = False, dx_replay_dropped = False\<rparr>"

text \<open>
  \<open>RegisterOrSubscribe\<close>. A follower of a finished entry has no live channel.
\<close>

datatype role_in = Role_Original | Role_Follower "chunk_msg list" "nat option" | Role_Independent

definition register_or_subscribe :: "registry \<Rightarrow> string \<Rightarrow> role_in \<times> registry" where
  "register_or_subscribe r hash =
     (case mget (rg_entries r) hash of
        None \<Rightarrow> (Role_Original, r\<lparr>rg_entries := mput hash empty_entry (rg_entries r)\<rparr>)
      | Some e \<Rightarrow>
          if dx_replay_dropped e then (Role_Independent, r)
          else if dx_done e then (Role_Follower (dx_chunks e) None, r)
          else
            (let ch = rg_next r;
                 e' = e\<lparr>dx_subs := dx_subs e @ [\<lparr>sb_ch = ch, sb_overflow = False, sb_delivered = False\<rparr>]\<rparr>
             in (Role_Follower (dx_chunks e) (Some ch),
                 r\<lparr>rg_entries := mput hash e' (rg_entries r),
                   rg_chans := mput ch (make_chan live_capacity) (rg_chans r),
                   rg_next := Suc ch\<rparr>)))"

text \<open>The loop of \<open>Forward\<close> over the subscribers, and the one that closes their channels.\<close>

fun fan_out ::
  "(nat, chunk_msg chan) gomap \<Rightarrow> subscriber list \<Rightarrow> chunk_msg \<Rightarrow>
     ((nat, chunk_msg chan) gomap \<times> subscriber list) option"
where
  "fan_out chans [] c = Some (chans, [])"
| "fan_out chans (s # ss) c =
     (if sb_overflow s then
        (case fan_out chans ss c of None \<Rightarrow> None | Some (chans', ss') \<Rightarrow> Some (chans', s # ss'))
      else
        (case mget chans (sb_ch s) of
           None \<Rightarrow> None
         | Some ch \<Rightarrow>
             (case try_send ch c of
                Send_Panic \<Rightarrow> None
              | Sent ch' \<Rightarrow>
                  (case fan_out (mput (sb_ch s) ch' chans) ss c of
                     None \<Rightarrow> None
                   | Some (chans', ss') \<Rightarrow> Some (chans', s\<lparr>sb_delivered := True\<rparr> # ss'))
              | Send_Full \<Rightarrow>
                  (case fan_out chans ss c of
                     None \<Rightarrow> None
                   | Some (chans', ss') \<Rightarrow> Some (chans', s\<lparr>sb_overflow := True\<rparr> # ss')))))"

fun close_subs ::
  "(nat, chunk_msg chan) gomap \<Rightarrow> subscriber list \<Rightarrow> (nat, chunk_msg chan) gomap option"
where
  "close_subs chans [] = Some chans"
| "close_subs chans (s # ss) =
     (case mget chans (sb_ch s) of
        None \<Rightarrow> None
      | Some ch \<Rightarrow>
          (case close_chan ch of
             None \<Rightarrow> None
           | Some ch' \<Rightarrow> close_subs (mput (sb_ch s) ch' chans) ss))"

definition buffer_chunk :: "dedup_entry \<Rightarrow> chunk_msg \<Rightarrow> dedup_entry" where
  "buffer_chunk e c =
     (if dx_replay_dropped e then e
      else if int (length (dx_chunks e)) \<ge> max_replay_chunks
      then e\<lparr>dx_replay_dropped := True, dx_chunks := []\<rparr>
      else e\<lparr>dx_chunks := dx_chunks e @ [c]\<rparr>)"

definition forward :: "registry \<Rightarrow> string \<Rightarrow> chunk_msg \<Rightarrow> registry option" where
  "forward r hash c =
     (case mget (rg_entries r) hash of
        None \<Rightarrow> Some r
      | Some e \<Rightarrow>
          (case fan_out (rg_chans r) (dx_subs e) c of
             None \<Rightarrow> None
           | Some (chans, ss) \<Rightarrow>
               (let e1 = (buffer_chunk e c)\<lparr>dx_subs := ss\<rparr>
                in if ck_done c then
                     (case close_subs chans ss of
                        None \<Rightarrow> None
                      | Some chans' \<Rightarrow>
                          Some (r\<lparr>rg_entries := mput hash (e1\<lparr>dx_done := True, dx_subs := []\<rparr>) (rg_entries r),
                                  rg_chans := chans'\<rparr>))
                   else Some (r\<lparr>rg_entries := mput hash e1 (rg_entries r), rg_chans := chans\<rparr>))))"

definition reset_sub :: "(nat, chunk_msg chan) gomap \<Rightarrow> subscriber \<Rightarrow> subscriber" where
  "reset_sub chans s =
     (if sb_overflow s then s
      else if (case mget chans (sb_ch s) of None \<Rightarrow> 0 | Some ch \<Rightarrow> length (cn_buf ch)) > 0 \<or> sb_delivered s
      then s\<lparr>sb_overflow := True\<rparr>
      else s)"

definition reset_entry :: "registry \<Rightarrow> string \<Rightarrow> registry" where
  "reset_entry r hash =
     (case mget (rg_entries r) hash of
        None \<Rightarrow> r
      | Some e \<Rightarrow>
          if dx_done e then r
          else r\<lparr>rg_entries := mput hash (e\<lparr>dx_chunks := [],
                   dx_subs := map (reset_sub (rg_chans r)) (dx_subs e)\<rparr>) (rg_entries r)\<rparr>)"

definition has_subscribers :: "registry \<Rightarrow> string \<Rightarrow> bool" where
  "has_subscribers r hash =
     (case mget (rg_entries r) hash of
        None \<Rightarrow> False
      | Some e \<Rightarrow> \<not> dx_done e \<and> dx_subs e \<noteq> [])"

definition unregister :: "registry \<Rightarrow> string \<Rightarrow> registry option" where
  "unregister r hash =
     (case mget (rg_entries r) hash of
        None \<Rightarrow> Some (r\<lparr>rg_entries := mdel hash (rg_entries r)\<rparr>)
      | Some e \<Rightarrow>
          (let r1 = r\<lparr>rg_entries := mdel hash (rg_entries r)\<rparr>
           in if dx_done e then Some r1
              else
                (case close_subs (rg_chans r) (dx_subs e) of
                   None \<Rightarrow> None
                 | Some chans \<Rightarrow> Some (r1\<lparr>rg_chans := chans\<rparr>))))"

section \<open>Which requests are identical\<close>

text \<open>
  The fields that are hashed. \<open>encoding/json\<close>, SHA-256 and hexadecimal are arguments of
  the functions below: \<open>hl_marshal\<close> is the bytes \<open>json.Marshal\<close> gives for the fields,
  \<open>hl_sha\<close> the hexadecimal digest of bytes, \<open>hl_canonical\<close> what decoding a raw JSON value
  and encoding it again gives, strings trimmed, if it decodes.
\<close>

record hash_input =
  hi_model :: string
  hi_messages :: "message list"
  hi_max_tokens :: int
  hi_temperature :: "rat option"
  hi_top_p :: "rat option"
  hi_stop :: "string list"
  hi_tools :: raw_json
  hi_tool_choice :: raw_json

record hash_lib =
  hl_marshal :: "hash_input \<Rightarrow> string"
  hl_sha :: "string \<Rightarrow> string"
  hl_canonical :: "raw_json \<Rightarrow> raw_json option"

definition canonical_json :: "hash_lib \<Rightarrow> raw_json \<Rightarrow> raw_json" where
  "canonical_json H raw =
     (if raw = [] then raw
      else (case hl_canonical H raw of None \<Rightarrow> raw | Some out \<Rightarrow> out))"

definition hash_fields :: "hash_lib \<Rightarrow> inference_request \<Rightarrow> bool \<Rightarrow> hash_input" where
  "hash_fields H req canon =
     \<lparr>hi_model = rq_model req,
      hi_messages =
        (if canon
         then map (\<lambda>m. m\<lparr>ms_content := canonical_json H (ms_content m),
                         ms_tool_calls := canonical_json H (ms_tool_calls m)\<rparr>) (rq_messages req)
         else rq_messages req),
      hi_max_tokens = rq_max_tokens req, hi_temperature = rq_temperature req, hi_top_p = rq_top_p req,
      hi_stop = rq_stop req,
      hi_tools = (if canon then canonical_json H (rq_tools req) else rq_tools req),
      hi_tool_choice = (if canon then canonical_json H (rq_tool_choice req) else rq_tool_choice req)\<rparr>"

definition content_hash_opts :: "hash_lib \<Rightarrow> inference_request \<Rightarrow> bool \<Rightarrow> string" where
  "content_hash_opts H req canon = hl_sha H (hl_marshal H (hash_fields H req canon))"

definition content_hash_scoped :: "hash_lib \<Rightarrow> inference_request \<Rightarrow> bool \<Rightarrow> string \<Rightarrow> string" where
  "content_hash_scoped H req canon scope =
     (if scope = [] then content_hash_opts H req canon
      else hl_sha H (content_hash_opts H req canon @ [CHR 0x00] @ scope))"

section \<open>What a follower reads\<close>

text \<open>
  \<open>MakeSubscriberChan\<close> gives a follower's handler one channel: the replay, then the live
  channel until it ends. A follower is what it was given and what it has read; the stream is
  everything it has been sent so far, and has ended when the live channel is closed.
\<close>

record follower =
  fo_hash :: string
  fo_replay :: "chunk_msg list"
  fo_live :: "nat option"
  fo_read :: "chunk_msg list"

definition follower_stream :: "registry \<Rightarrow> follower \<Rightarrow> chunk_msg list" where
  "follower_stream r f =
     fo_replay f @ fo_read f @
       (case fo_live f of
          None \<Rightarrow> []
        | Some ch \<Rightarrow> (case mget (rg_chans r) ch of None \<Rightarrow> [] | Some c \<Rightarrow> cn_buf c))"

definition follower_read :: "registry \<Rightarrow> follower \<Rightarrow> registry \<times> follower" where
  "follower_read r f =
     (case fo_live f of
        None \<Rightarrow> (r, f)
      | Some k \<Rightarrow>
          (case mget (rg_chans r) k of
             None \<Rightarrow> (r, f)
           | Some ch \<Rightarrow>
               (case recv_chan ch of
                  (Got x, ch') \<Rightarrow>
                    (r\<lparr>rg_chans := mput k ch' (rg_chans r)\<rparr>, f\<lparr>fo_read := fo_read f @ [x]\<rparr>)
                | (_, ch') \<Rightarrow> (r, f))))"

end
