(* ===== verification/Dedup_Followers.thy ===== *)
theory Dedup_Followers
  imports Dedup
begin

text \<open>
  What followers of a coalesced request receive: the registry with its followers and, beside
  them, the history an observer keeps (what each attempt forwarded, and which answers were
  completed), and the invariant that ties the followers' streams to it.
\<close>

section \<open>Delivering to the subscribers\<close>

definition room_in :: "(nat, chunk_msg chan) gomap \<Rightarrow> nat \<Rightarrow> bool" where
  "room_in chans k \<longleftrightarrow> (\<exists>ch. mget chans k = Some ch \<and> length (cn_buf ch) < cn_cap ch)"

definition open_in :: "(nat, chunk_msg chan) gomap \<Rightarrow> nat \<Rightarrow> bool" where
  "open_in chans k \<longleftrightarrow> (\<exists>ch. mget chans k = Some ch \<and> \<not> cn_closed ch)"

definition unread :: "(nat, chunk_msg chan) gomap \<Rightarrow> nat \<Rightarrow> chunk_msg list" where
  "unread chans k = (case mget chans k of None \<Rightarrow> [] | Some ch \<Rightarrow> cn_buf ch)"

definition served :: "(nat, chunk_msg chan) gomap \<Rightarrow> subscriber \<Rightarrow> subscriber" where
  "served chans s =
     (if sb_overflow s then s
      else if room_in chans (sb_ch s) then s\<lparr>sb_delivered := True\<rparr>
      else s\<lparr>sb_overflow := True\<rparr>)"

definition receives :: "(nat, chunk_msg chan) gomap \<Rightarrow> subscriber list \<Rightarrow> nat \<Rightarrow> bool" where
  "receives chans ss k \<longleftrightarrow> room_in chans k \<and> (\<exists>s \<in> set ss. sb_ch s = k \<and> \<not> sb_overflow s)"

lemma served_ch [simp]: "sb_ch (served chans s) = sb_ch s"
  by (simp add: served_def)

lemma reset_sub_ch [simp]: "sb_ch (reset_sub chans s) = sb_ch s"
  by (simp add: reset_sub_def)

lemma open_in_cong: "mget chans k = mget chans' k \<Longrightarrow> open_in chans k = open_in chans' k"
  "mget chans k = mget chans' k \<Longrightarrow> room_in chans k = room_in chans' k"
  "mget chans k = mget chans' k \<Longrightarrow> unread chans k = unread chans' k"
  by (simp_all add: open_in_def room_in_def unread_def)

lemma fan_out_serves:
  assumes "distinct (map sb_ch ss)" and "\<forall>s \<in> set ss. open_in chans (sb_ch s)"
  shows "\<exists>chans'. fan_out chans ss c = Some (chans', map (served chans) ss) \<and>
    (\<forall>k. mget chans' k = (if receives chans ss k
       then map_option (\<lambda>ch. ch\<lparr>cn_buf := cn_buf ch @ [c]\<rparr>) (mget chans k) else mget chans k))"
  using assms
proof (induction ss arbitrary: chans)
  case Nil
  then show ?case by (simp add: receives_def)
next
  case (Cons s ss)
  obtain ch where ch: "mget chans (sb_ch s) = Some ch" "\<not> cn_closed ch"
    using Cons.prems(2) by (auto simp: open_in_def)
  have other: "sb_ch s \<notin> sb_ch ` set ss" using Cons.prems(1) by simp
  show ?case
  proof (cases "sb_overflow s \<or> \<not> room_in chans (sb_ch s)")
    case True
    obtain chans' where IH: "fan_out chans ss c = Some (chans', map (served chans) ss)"
      "\<forall>k. mget chans' k = (if receives chans ss k
         then map_option (\<lambda>ch. ch\<lparr>cn_buf := cn_buf ch @ [c]\<rparr>) (mget chans k) else mget chans k)"
      using Cons.IH [of chans] Cons.prems by auto
    have "receives chans (s # ss) k = receives chans ss k" for k
      using True by (auto simp: receives_def)
    moreover have "fan_out chans (s # ss) c = Some (chans', served chans s # map (served chans) ss)"
      using True IH(1) ch by (auto simp: try_send_def served_def room_in_def)
    ultimately show ?thesis using IH(2) by auto
  next
    case False
    let ?c1 = "mput (sb_ch s) (ch\<lparr>cn_buf := cn_buf ch @ [c]\<rparr>) chans"
    have same: "mget ?c1 (sb_ch t) = mget chans (sb_ch t)" if "t \<in> set ss" for t
    proof -
      have "sb_ch t \<noteq> sb_ch s" using that other by (metis image_eqI)
      then show ?thesis by (simp add: gomap_simps)
    qed
    have "\<forall>t \<in> set ss. open_in ?c1 (sb_ch t)"
      using Cons.prems(2) open_in_cong(1) [OF same] by simp
    then obtain chans' where IH: "fan_out ?c1 ss c = Some (chans', map (served ?c1) ss)"
      "\<forall>k. mget chans' k = (if receives ?c1 ss k
         then map_option (\<lambda>ch. ch\<lparr>cn_buf := cn_buf ch @ [c]\<rparr>) (mget ?c1 k) else mget ?c1 k)"
      using Cons.IH [of ?c1] Cons.prems(1) by auto
    have "map (served ?c1) ss = map (served chans) ss"
      using open_in_cong(2) [OF same] by (simp add: served_def)
    moreover have "served chans s = s\<lparr>sb_delivered := True\<rparr>" using False by (simp add: served_def)
    moreover have "fan_out chans (s # ss) c = Some (chans', s\<lparr>sb_delivered := True\<rparr> # map (served ?c1) ss)"
      using False IH(1) ch by (auto simp: try_send_def room_in_def)
    moreover have "mget chans' k = (if receives chans (s # ss) k
         then map_option (\<lambda>ch. ch\<lparr>cn_buf := cn_buf ch @ [c]\<rparr>) (mget chans k) else mget chans k)" for k
    proof (cases "k = sb_ch s")
      case True
      then have "\<not> receives ?c1 ss k" using other unfolding receives_def by (metis image_eqI)
      moreover have "receives chans (s # ss) k" using True False by (auto simp: receives_def)
      ultimately show ?thesis using IH(2) ch True by (simp add: gomap_simps)
    next
      case neq: False
      then have "mget ?c1 k = mget chans k" by (simp add: gomap_simps)
      moreover from this have "receives ?c1 ss k = receives chans (s # ss) k"
        using neq by (auto simp: receives_def room_in_def)
      ultimately show ?thesis using IH(2) by simp
    qed
    ultimately show ?thesis by auto
  qed
qed

lemma close_subs_closes:
  assumes "distinct (map sb_ch ss)" and "\<forall>s \<in> set ss. open_in chans (sb_ch s)"
  shows "\<exists>chans'. close_subs chans ss = Some chans' \<and>
    (\<forall>k. mget chans' k = (if k \<in> sb_ch ` set ss
       then map_option (\<lambda>ch. ch\<lparr>cn_closed := True\<rparr>) (mget chans k) else mget chans k))"
  using assms
proof (induction ss arbitrary: chans)
  case Nil
  then show ?case by simp
next
  case (Cons s ss)
  obtain ch where ch: "mget chans (sb_ch s) = Some ch" "\<not> cn_closed ch"
    using Cons.prems(2) by (auto simp: open_in_def)
  let ?c1 = "mput (sb_ch s) (ch\<lparr>cn_closed := True\<rparr>) chans"
  have "\<forall>t \<in> set ss. open_in ?c1 (sb_ch t)"
    using Cons.prems by (auto simp: open_in_def gomap_simps image_iff)
  then obtain chans' where IH: "close_subs ?c1 ss = Some chans'"
    "\<forall>k. mget chans' k = (if k \<in> sb_ch ` set ss
       then map_option (\<lambda>ch. ch\<lparr>cn_closed := True\<rparr>) (mget ?c1 k) else mget ?c1 k)"
    using Cons.IH [of ?c1] Cons.prems(1) by auto
  then show ?case using ch Cons.prems(1) by (auto simp: close_chan_def gomap_simps)
qed

section \<open>The registry, its followers and the observer\<close>

record dedup_world =
  dw_reg :: registry
  dw_followers :: "follower list"
  dw_history :: "(string, chunk_msg list) gomap"
  dw_answers :: "(string \<times> chunk_msg list) list"

datatype dedup_op =
    Op_Join string
  | Op_Forward string chunk_msg
  | Op_Reset string
  | Op_Unregister string
  | Op_Read nat

definition dedup_start :: dedup_world where
  "dedup_start = \<lparr>dw_reg = registry_new, dw_followers = [], dw_history = [], dw_answers = []\<rparr>"

definition attempt_so_far :: "dedup_world \<Rightarrow> string \<Rightarrow> chunk_msg list" where
  "attempt_so_far w hash = get_or [] (dw_history w) hash"

text \<open>
  The operations, and what the observer notes: an attempt starts empty with its registration and
  with each \<open>Reset\<close> that takes effect, and is an answer once its last chunk is forwarded.
\<close>

fun dedup_step :: "dedup_world \<Rightarrow> dedup_op \<Rightarrow> dedup_world option" where
  "dedup_step w (Op_Join hash) =
     (case register_or_subscribe (dw_reg w) hash of
        (Role_Original, r) \<Rightarrow> Some (w\<lparr>dw_reg := r, dw_history := mput hash [] (dw_history w)\<rparr>)
      | (Role_Follower buf live, r) \<Rightarrow>
          Some (w\<lparr>dw_reg := r, dw_followers := dw_followers w @
             [\<lparr>fo_hash = hash, fo_replay = buf, fo_live = live, fo_read = []\<rparr>]\<rparr>)
      | (Role_Independent, r) \<Rightarrow> Some (w\<lparr>dw_reg := r\<rparr>))"
| "dedup_step w (Op_Forward hash c) =
     (case forward (dw_reg w) hash c of
        None \<Rightarrow> None
      | Some r \<Rightarrow>
          (if mget (rg_entries (dw_reg w)) hash = None then Some (w\<lparr>dw_reg := r\<rparr>)
           else
             (let so_far = attempt_so_far w hash @ [c]
              in Some (w\<lparr>dw_reg := r, dw_history := mput hash so_far (dw_history w),
                   dw_answers := (if ck_done c then (hash, so_far) # dw_answers w else dw_answers w)\<rparr>))))"
| "dedup_step w (Op_Reset hash) =
     Some (w\<lparr>dw_reg := reset_entry (dw_reg w) hash,
       dw_history := (case mget (rg_entries (dw_reg w)) hash of
          None \<Rightarrow> dw_history w
        | Some e \<Rightarrow> if dx_done e then dw_history w else mput hash [] (dw_history w))\<rparr>)"
| "dedup_step w (Op_Unregister hash) = map_option (\<lambda>r. w\<lparr>dw_reg := r\<rparr>) (unregister (dw_reg w) hash)"
| "dedup_step w (Op_Read i) =
     (if i < length (dw_followers w)
      then (case follower_read (dw_reg w) (dw_followers w ! i) of
              (r, f) \<Rightarrow> Some (w\<lparr>dw_reg := r, dw_followers := (dw_followers w)[i := f]\<rparr>))
      else Some w)"

text \<open>
  The original's handler stops at the chunk that is \<open>Done\<close>. A \<open>Reset\<close> is harmless to the
  followers when none of them was given a replay and nothing more.
\<close>

definition entry_done :: "registry \<Rightarrow> string \<Rightarrow> bool" where
  "entry_done r hash \<longleftrightarrow> (case mget (rg_entries r) hash of None \<Rightarrow> False | Some e \<Rightarrow> dx_done e)"

definition harmless_reset :: "dedup_world \<Rightarrow> string \<Rightarrow> bool" where
  "harmless_reset w hash \<longleftrightarrow>
     list_all (\<lambda>f. fo_hash f = hash \<and> fo_replay f \<noteq> [] \<and> fo_live f \<noteq> None \<longrightarrow>
        (case mget (rg_entries (dw_reg w)) hash of
           None \<Rightarrow> True
         | Some e \<Rightarrow> list_all (\<lambda>s. fo_live f = Some (sb_ch s) \<longrightarrow> sb_overflow s \<or> sb_delivered s) (dx_subs e)))
       (dw_followers w)"

fun disciplined :: "bool \<Rightarrow> dedup_world \<Rightarrow> dedup_op \<Rightarrow> bool" where
  "disciplined safe w (Op_Forward hash c) = (\<not> entry_done (dw_reg w) hash)"
| "disciplined safe w (Op_Reset hash) = (safe \<longrightarrow> harmless_reset w hash)"
| "disciplined safe w _ = True"

inductive dedup_reach :: "bool \<Rightarrow> dedup_world \<Rightarrow> bool" for safe where
  reach_start: "dedup_reach safe dedup_start"
| reach_step: "dedup_reach safe w \<Longrightarrow> disciplined safe w a \<Longrightarrow> dedup_step w a = Some w' \<Longrightarrow> dedup_reach safe w'"

section \<open>The registry and its followers fit together\<close>

definition live_unique :: "follower list \<Rightarrow> bool" where
  "live_unique fs \<longleftrightarrow> distinct (filter (\<lambda>k. k \<noteq> None) (map fo_live fs))"

definition links :: "registry \<Rightarrow> follower list \<Rightarrow> bool" where
  "links r fs \<longleftrightarrow>
     (\<forall>h e. mget (rg_entries r) h = Some e \<longrightarrow> distinct (map sb_ch (dx_subs e)) \<and> (dx_done e \<longrightarrow> dx_subs e = []) \<and>
        (\<forall>s \<in> set (dx_subs e). open_in (rg_chans r) (sb_ch s) \<and>
           (\<exists>f \<in> set fs. fo_live f = Some (sb_ch s) \<and> fo_hash f = h))) \<and>
     live_unique fs \<and>
     (\<forall>f \<in> set fs. \<forall>k. fo_live f = Some k \<longrightarrow> mget (rg_chans r) k \<noteq> None \<and>
        (open_in (rg_chans r) k \<longrightarrow>
           (\<exists>e. mget (rg_entries r) (fo_hash f) = Some e \<and> k \<in> sb_ch ` set (dx_subs e)))) \<and>
     (\<forall>k. mget (rg_chans r) k \<noteq> None \<longrightarrow> k < rg_next r)"

lemma linksI:
  assumes "\<And>h e. mget (rg_entries r) h = Some e \<Longrightarrow> distinct (map sb_ch (dx_subs e))"
    and "\<And>h e. mget (rg_entries r) h = Some e \<Longrightarrow> dx_done e \<Longrightarrow> dx_subs e = []"
    and "\<And>h e s. mget (rg_entries r) h = Some e \<Longrightarrow> s \<in> set (dx_subs e) \<Longrightarrow>
      open_in (rg_chans r) (sb_ch s) \<and> (\<exists>f \<in> set fs. fo_live f = Some (sb_ch s) \<and> fo_hash f = h)"
    and "live_unique fs"
    and "\<And>f k. f \<in> set fs \<Longrightarrow> fo_live f = Some k \<Longrightarrow> mget (rg_chans r) k \<noteq> None"
    and "\<And>f k. f \<in> set fs \<Longrightarrow> fo_live f = Some k \<Longrightarrow> open_in (rg_chans r) k \<Longrightarrow>
      \<exists>e. mget (rg_entries r) (fo_hash f) = Some e \<and> k \<in> sb_ch ` set (dx_subs e)"
    and "\<And>k. mget (rg_chans r) k \<noteq> None \<Longrightarrow> k < rg_next r"
  shows "links r fs"
  unfolding links_def using assms by blast

lemma linksD:
  assumes "links r fs"
  shows "mget (rg_entries r) h = Some e \<Longrightarrow> distinct (map sb_ch (dx_subs e))"
    and "mget (rg_entries r) h = Some e \<Longrightarrow> dx_done e \<Longrightarrow> dx_subs e = []"
    and "mget (rg_entries r) h = Some e \<Longrightarrow> s \<in> set (dx_subs e) \<Longrightarrow> open_in (rg_chans r) (sb_ch s)"
    and "mget (rg_entries r) h = Some e \<Longrightarrow> s \<in> set (dx_subs e) \<Longrightarrow>
      \<exists>f \<in> set fs. fo_live f = Some (sb_ch s) \<and> fo_hash f = h"
    and "live_unique fs"
    and "f \<in> set fs \<Longrightarrow> fo_live f = Some k \<Longrightarrow> mget (rg_chans r) k \<noteq> None"
    and "f \<in> set fs \<Longrightarrow> fo_live f = Some k \<Longrightarrow> open_in (rg_chans r) k \<Longrightarrow>
      \<exists>e. mget (rg_entries r) (fo_hash f) = Some e \<and> k \<in> sb_ch ` set (dx_subs e)"
    and "mget (rg_chans r) k \<noteq> None \<Longrightarrow> k < rg_next r"
  using assms unfolding links_def by blast+

lemma live_unique_same:
  assumes "live_unique fs" and "f \<in> set fs" and "g \<in> set fs" and "fo_live f = Some k" and "fo_live g = Some k"
  shows "f = g"
  using assms
proof (induction fs)
  case Nil
  then show ?case by simp
next
  case (Cons a fs)
  have "\<And>x. x \<in> set fs \<Longrightarrow> fo_live x = Some k \<Longrightarrow> fo_live a \<noteq> Some k"
    using Cons.prems(1) by (force simp: live_unique_def)
  moreover have "live_unique fs" using Cons.prems(1) by (auto simp: live_unique_def split: if_splits)
  ultimately show ?case using Cons by auto
qed

lemma live_unique_index:
  assumes "live_unique fs" and "i < length fs" and "j < length fs" and "fo_live (fs ! i) = Some k"
    and "fo_live (fs ! j) = Some k"
  shows "i = j"
  using assms
proof (induction fs arbitrary: i j)
  case Nil
  then show ?case by simp
next
  case (Cons a fs)
  have "fo_live a \<noteq> Some k" if "x \<in> set fs" "fo_live x = Some k" for x
    using Cons.prems(1) that by (force simp: live_unique_def)
  then have a: "fo_live a \<noteq> Some k" if "n < length fs" "fo_live (fs ! n) = Some k" for n
    using that nth_mem by blast
  have "live_unique fs" using Cons.prems(1) by (auto simp: live_unique_def split: if_splits)
  then show ?case using Cons.IH Cons.prems a by (cases i; cases j) auto
qed

lemma live_unique_update:
  assumes "fo_live f = fo_live (fs ! i)"
  shows "live_unique (fs[i := f]) = live_unique fs"
proof (cases "i < length fs")
  case True
  then have "map fo_live (fs[i := f]) = map fo_live fs"
    using assms by (simp add: map_update list_update_same_conv)
  then show ?thesis by (simp add: live_unique_def)
qed (simp add: list_update_beyond)

text \<open>Channels of different entries are different.\<close>

lemma links_disjoint:
  assumes "links r fs" and "mget (rg_entries r) h = Some e" and "s \<in> set (dx_subs e)"
    and "mget (rg_entries r) h' = Some e'" and "s' \<in> set (dx_subs e')" and "sb_ch s = sb_ch s'"
  shows "h = h'"
proof -
  obtain f where f: "f \<in> set fs" "fo_live f = Some (sb_ch s)" "fo_hash f = h"
    using linksD(4) [OF assms(1-3)] by blast
  obtain g where g: "g \<in> set fs" "fo_live g = Some (sb_ch s')" "fo_hash g = h'"
    using linksD(4) [OF assms(1,4,5)] by blast
  show ?thesis using live_unique_same [OF linksD(5) [OF assms(1)] f(1) g(1) f(2)] f g assms(6) by simp
qed

lemma links_start: "links registry_new []"
  by (auto simp: links_def registry_new_def live_unique_def)

lemma links_join:
  assumes "links r fs" and "register_or_subscribe r h = (role, r')"
  shows "case role of
      Role_Follower buf live \<Rightarrow> links r' (fs @ [\<lparr>fo_hash = h, fo_replay = buf, fo_live = live, fo_read = []\<rparr>])
    | _ \<Rightarrow> links r' fs"
proof (cases "mget (rg_entries r) h")
  case None
  then have r': "role = Role_Original" "r' = r\<lparr>rg_entries := mput h empty_entry (rg_entries r)\<rparr>"
    using assms(2) by (simp_all add: register_or_subscribe_def)
  have other: "fo_hash f \<noteq> h" if "f \<in> set fs" "fo_live f = Some k" "open_in (rg_chans r) k" for f k
    using linksD(7) [OF assms(1) that] None by auto
  have "links r' fs"
    using linksD [OF assms(1)] None other unfolding r'(2)
    by (intro linksI) (auto simp: gomap_simps empty_entry_def split: if_splits)
  then show ?thesis using r'(1) by simp
next
  case (Some e)
  consider "dx_replay_dropped e" | "\<not> dx_replay_dropped e" "dx_done e" | "\<not> dx_replay_dropped e" "\<not> dx_done e" by blast
  then show ?thesis
  proof cases
    case 1
    then show ?thesis using Some assms by (simp add: register_or_subscribe_def)
  next
    case 2
    then have "role = Role_Follower (dx_chunks e) None" "r' = r"
      using Some assms(2) by (simp_all add: register_or_subscribe_def)
    moreover have "live_unique (fs @ [\<lparr>fo_hash = h, fo_replay = b, fo_live = None, fo_read = []\<rparr>])" for b
      using linksD(5) [OF assms(1)] by (simp add: live_unique_def)
    ultimately show ?thesis using linksD [OF assms(1)] by (auto intro!: linksI)
  next
    case 3
    let ?ch = "rg_next r"
    let ?s = "\<lparr>sb_ch = ?ch, sb_overflow = False, sb_delivered = False\<rparr>"
    let ?f = "\<lparr>fo_hash = h, fo_replay = dx_chunks e, fo_live = Some ?ch, fo_read = []\<rparr>"
    let ?r' = "r\<lparr>rg_entries := mput h (e\<lparr>dx_subs := dx_subs e @ [?s]\<rparr>) (rg_entries r),
             rg_chans := mput ?ch (make_chan live_capacity) (rg_chans r), rg_next := Suc ?ch\<rparr>"
    have r': "role = Role_Follower (dx_chunks e) (Some ?ch)" "r' = ?r'"
      using 3 Some assms(2) by (simp_all add: register_or_subscribe_def Let_def)
    have fresh: "mget (rg_chans r) ?ch = None" using linksD(8) [OF assms(1)] by blast
    have old: "mget (rg_chans r) k \<noteq> None \<Longrightarrow> k \<noteq> ?ch" for k using fresh by auto
    have live_old: "f \<in> set fs \<Longrightarrow> fo_live f = Some k \<Longrightarrow> k \<noteq> ?ch" for f k
      using linksD(6) [OF assms(1)] old by blast
    have sub_old: "mget (rg_entries r) h' = Some e' \<Longrightarrow> s \<in> set (dx_subs e') \<Longrightarrow> sb_ch s \<noteq> ?ch" for h' e' s
      using linksD(3) [OF assms(1)] fresh by (metis open_in_def option.distinct(1))
    have none_next: "\<forall>f \<in> set fs. fo_live f \<noteq> Some ?ch" using live_old by blast
    have "links r' (fs @ [?f])"
      unfolding r'(2)
    proof (rule linksI)
      show "live_unique (fs @ [?f])"
        using linksD(5) [OF assms(1)] none_next by (auto simp: live_unique_def image_iff)
    next
      fix h' e' s
      assume s: "mget (rg_entries (?r')) h' = Some e'" "s \<in> set (dx_subs e')"
      show "open_in (rg_chans ?r') (sb_ch s) \<and>
          (\<exists>f \<in> set (fs @ [?f]). fo_live f = Some (sb_ch s) \<and> fo_hash f = h')"
      proof (cases "h' = h \<and> s = ?s")
        case True
        then show ?thesis by (simp add: open_in_def gomap_simps)
      next
        case False
        then obtain e0 where "mget (rg_entries r) h' = Some e0" "s \<in> set (dx_subs e0)"
          using s Some by (auto simp: gomap_simps split: if_splits)
        then show ?thesis
          using linksD(3,4) [OF assms(1), of h' e0 s] sub_old [of h' e0 s] by (auto simp: open_in_def gomap_simps)
      qed
    next
      fix f k
      assume f: "f \<in> set (fs @ [?f])" "fo_live f = Some k" "open_in (rg_chans ?r') k"
      show "\<exists>e. mget (rg_entries ?r') (fo_hash f) = Some e \<and> k \<in> sb_ch ` set (dx_subs e)"
      proof (cases "f = ?f")
        case True
        then show ?thesis using f(2) by (simp add: gomap_simps)
      next
        case False
        then have "f \<in> set fs" using f(1) by auto
        moreover from this f(2,3) have "open_in (rg_chans r) k"
          using live_old by (auto simp: open_in_def gomap_simps split: if_splits)
        ultimately obtain e0 where "mget (rg_entries r) (fo_hash f) = Some e0" "k \<in> sb_ch ` set (dx_subs e0)"
          using linksD(7) [OF assms(1) _ f(2)] by blast
        then show ?thesis using Some by (auto simp: gomap_simps)
      qed
    next
      fix h' e'
      assume "mget (rg_entries ?r') h' = Some e'"
      then show "distinct (map sb_ch (dx_subs e'))"
        using linksD(1) [OF assms(1)] sub_old [OF Some] Some by (force simp: gomap_simps split: if_splits)
    next
      fix h' e'
      assume "mget (rg_entries ?r') h' = Some e'" "dx_done e'"
      then show "dx_subs e' = []"
        using linksD(2) [OF assms(1)] 3 Some by (auto simp: gomap_simps split: if_splits)
    next
      fix f k
      assume "f \<in> set (fs @ [?f])" "fo_live f = Some k"
      then show "mget (rg_chans ?r') k \<noteq> None"
        using linksD(6) [OF assms(1)] by (auto simp: gomap_simps)
    next
      fix k
      assume "mget (rg_chans ?r') k \<noteq> None"
      then show "k < rg_next ?r'"
        using linksD(8) [OF assms(1), of k] by (auto simp: gomap_simps split: if_splits)
    qed
    then show ?thesis using r'(1) by simp
  qed
qed

text \<open>What \<open>Forward\<close> does to an entry that is there, in closed form.\<close>

lemma forward_some:
  assumes "links r fs" and "mget (rg_entries r) h = Some e"
  shows "\<exists>chans'. forward r h c = Some (r\<lparr>rg_entries := mput h
        (if ck_done c then (buffer_chunk e c)\<lparr>dx_done := True, dx_subs := []\<rparr>
         else (buffer_chunk e c)\<lparr>dx_subs := map (served (rg_chans r)) (dx_subs e)\<rparr>) (rg_entries r),
      rg_chans := chans'\<rparr>) \<and>
    (\<forall>k. mget chans' k = map_option (\<lambda>ch. ch
        \<lparr>cn_buf := (if receives (rg_chans r) (dx_subs e) k then cn_buf ch @ [c] else cn_buf ch),
         cn_closed := cn_closed ch \<or> ck_done c \<and> k \<in> sb_ch ` set (dx_subs e)\<rparr>) (mget (rg_chans r) k))"
proof -
  have d: "distinct (map sb_ch (dx_subs e))" and o1: "\<forall>s \<in> set (dx_subs e). open_in (rg_chans r) (sb_ch s)"
    using linksD(1,3) [OF assms(1) assms(2)] by auto
  obtain c1 where c1: "fan_out (rg_chans r) (dx_subs e) c = Some (c1, map (served (rg_chans r)) (dx_subs e))"
    "\<forall>k. mget c1 k = (if receives (rg_chans r) (dx_subs e) k
       then map_option (\<lambda>ch. ch\<lparr>cn_buf := cn_buf ch @ [c]\<rparr>) (mget (rg_chans r) k) else mget (rg_chans r) k)"
    using fan_out_serves [OF d o1] by blast
  let ?ss = "map (served (rg_chans r)) (dx_subs e)"
  have chs: "map sb_ch ?ss = map sb_ch (dx_subs e)" by simp
  have "open_in c1 k" if "open_in (rg_chans r) k" for k
    using that c1(2) by (auto simp: open_in_def)
  then have o2: "\<forall>s \<in> set ?ss. open_in c1 (sb_ch s)" using o1 by simp
  obtain c2 where c2: "close_subs c1 ?ss = Some c2"
    "\<forall>k. mget c2 k = (if k \<in> sb_ch ` set ?ss
       then map_option (\<lambda>ch. ch\<lparr>cn_closed := True\<rparr>) (mget c1 k) else mget c1 k)"
    using close_subs_closes [OF _ o2] d chs by metis
  have same: "k \<in> sb_ch ` set ?ss \<longleftrightarrow> k \<in> sb_ch ` set (dx_subs e)" for k by (simp add: image_image)
  show ?thesis
  proof (cases "ck_done c")
    case True
    have "forward r h c = Some (r\<lparr>rg_entries := mput h ((buffer_chunk e c)\<lparr>dx_done := True, dx_subs := []\<rparr>) (rg_entries r),
        rg_chans := c2\<rparr>)"
      using True assms(2) c1(1) c2(1) by (simp add: forward_def Let_def)
    moreover have "mget c2 k = map_option (\<lambda>ch. ch
        \<lparr>cn_buf := (if receives (rg_chans r) (dx_subs e) k then cn_buf ch @ [c] else cn_buf ch),
         cn_closed := cn_closed ch \<or> ck_done c \<and> k \<in> sb_ch ` set (dx_subs e)\<rparr>) (mget (rg_chans r) k)" for k
      using c1(2) c2(2) True same by (cases "mget (rg_chans r) k") auto
    ultimately show ?thesis using True by auto
  next
    case False
    have "forward r h c = Some (r\<lparr>rg_entries := mput h ((buffer_chunk e c)\<lparr>dx_subs := ?ss\<rparr>) (rg_entries r),
        rg_chans := c1\<rparr>)"
      using False assms(2) c1(1) by (simp add: forward_def Let_def)
    moreover have "mget c1 k = map_option (\<lambda>ch. ch
        \<lparr>cn_buf := (if receives (rg_chans r) (dx_subs e) k then cn_buf ch @ [c] else cn_buf ch),
         cn_closed := cn_closed ch \<or> ck_done c \<and> k \<in> sb_ch ` set (dx_subs e)\<rparr>) (mget (rg_chans r) k)" for k
      using c1(2) False by (cases "mget (rg_chans r) k") auto
    ultimately show ?thesis using False by auto
  qed
qed

lemma buffer_chunk_keeps [simp]:
  "dx_subs (buffer_chunk e c) = dx_subs e" "dx_done (buffer_chunk e c) = dx_done e"
  by (simp_all add: buffer_chunk_def)

lemma links_forward:
  assumes "links r fs" and "forward r h c = Some r'" and "\<not> entry_done r h"
  shows "links r' fs"
proof (cases "mget (rg_entries r) h")
  case None
  then show ?thesis using assms by (simp add: forward_def)
next
  case (Some e)
  obtain chans' where r': "r' = r\<lparr>rg_entries := mput h
        (if ck_done c then (buffer_chunk e c)\<lparr>dx_done := True, dx_subs := []\<rparr>
         else (buffer_chunk e c)\<lparr>dx_subs := map (served (rg_chans r)) (dx_subs e)\<rparr>) (rg_entries r),
      rg_chans := chans'\<rparr>"
    and chans': "\<And>k. mget chans' k = map_option (\<lambda>ch. ch
        \<lparr>cn_buf := (if receives (rg_chans r) (dx_subs e) k then cn_buf ch @ [c] else cn_buf ch),
         cn_closed := cn_closed ch \<or> ck_done c \<and> k \<in> sb_ch ` set (dx_subs e)\<rparr>) (mget (rg_chans r) k)"
    using forward_some [OF assms(1) Some, of c] assms(2) by auto
  have dom: "mget chans' k = None \<longleftrightarrow> mget (rg_chans r) k = None" for k by (simp add: chans')
  have op: "open_in chans' k \<longleftrightarrow> open_in (rg_chans r) k \<and> \<not> (ck_done c \<and> k \<in> sb_ch ` set (dx_subs e))" for k
    by (cases "mget (rg_chans r) k") (auto simp: open_in_def chans')
  have same: "sb_ch ` set (map (served (rg_chans r)) (dx_subs e)) = sb_ch ` set (dx_subs e)" by (simp add: image_image)
  have nd: "\<not> dx_done e" using assms(3) Some by (simp add: entry_done_def)
  show ?thesis
  proof (rule linksI)
    fix h' e'
    assume "mget (rg_entries r') h' = Some e'"
    then show "distinct (map sb_ch (dx_subs e'))"
      using linksD(1) [OF assms(1)] Some by (auto simp: r' gomap_simps o_def split: if_splits)
  next
    fix h' e'
    assume "mget (rg_entries r') h' = Some e'" "dx_done e'"
    then show "dx_subs e' = []"
      using linksD(2) [OF assms(1)] Some nd by (auto simp: r' gomap_simps split: if_splits)
  next
    fix h' e' s
    assume s: "mget (rg_entries r') h' = Some e'" "s \<in> set (dx_subs e')"
    show "open_in (rg_chans r') (sb_ch s) \<and> (\<exists>f \<in> set fs. fo_live f = Some (sb_ch s) \<and> fo_hash f = h')"
    proof (cases "h' = h")
      case True
      then obtain s0 where "s0 \<in> set (dx_subs e)" "sb_ch s0 = sb_ch s" "\<not> ck_done c"
        using s by (auto simp: r' gomap_simps split: if_splits)
      then show ?thesis
        using linksD(3,4) [OF assms(1) Some, of s0] True by (simp add: r' op)
    next
      case False
      then have s1: "mget (rg_entries r) h' = Some e'" using s(1) by (simp add: r' gomap_simps)
      have "sb_ch s \<notin> sb_ch ` set (dx_subs e)"
        using links_disjoint [OF assms(1) s1 s(2) Some] False by auto
      then show ?thesis using linksD(3,4) [OF assms(1) s1 s(2)] by (simp add: r' op)
    qed
  next
    fix f k
    assume f: "f \<in> set fs" "fo_live f = Some k"
    show "mget (rg_chans r') k \<noteq> None" using linksD(6) [OF assms(1) f] dom by (simp add: r')
    assume "open_in (rg_chans r') k"
    then have k: "open_in (rg_chans r) k" "\<not> (ck_done c \<and> k \<in> sb_ch ` set (dx_subs e))"
      by (simp_all add: r' op)
    obtain e0 where e0: "mget (rg_entries r) (fo_hash f) = Some e0" "k \<in> sb_ch ` set (dx_subs e0)"
      using linksD(7) [OF assms(1) f k(1)] by blast
    show "\<exists>e. mget (rg_entries r') (fo_hash f) = Some e \<and> k \<in> sb_ch ` set (dx_subs e)"
    proof (cases "fo_hash f = h")
      case True
      then have "k \<in> sb_ch ` set (dx_subs e)" using e0 Some by simp
      then show ?thesis using True k(2) same by (auto simp: r' gomap_simps)
    next
      case False
      then show ?thesis using e0 by (simp add: r' gomap_simps)
    qed
  next
    fix k
    assume "mget (rg_chans r') k \<noteq> None"
    then show "k < rg_next r'" using linksD(8) [OF assms(1)] dom by (simp add: r')
  qed (rule linksD(5) [OF assms(1)])
qed

lemma links_reset:
  assumes "links r fs"
  shows "links (reset_entry r h) fs"
proof (cases "mget (rg_entries r) h")
  case None
  then show ?thesis using assms by (simp add: reset_entry_def)
next
  case (Some e)
  have same: "sb_ch ` set (map (reset_sub (rg_chans r)) (dx_subs e)) = sb_ch ` set (dx_subs e)"
    by (simp add: image_image)
  show ?thesis
  proof (cases "dx_done e")
    case True
    then show ?thesis using assms Some by (simp add: reset_entry_def)
  next
    case False
    let ?e = "e\<lparr>dx_chunks := [], dx_subs := map (reset_sub (rg_chans r)) (dx_subs e)\<rparr>"
    have r': "reset_entry r h = r\<lparr>rg_entries := mput h ?e (rg_entries r)\<rparr>"
      using Some False by (simp add: reset_entry_def)
    show ?thesis
    proof (rule linksI)
      fix h' e' s
      assume s: "mget (rg_entries (reset_entry r h)) h' = Some e'" "s \<in> set (dx_subs e')"
      then obtain e0 s0 where "mget (rg_entries r) h' = Some e0" "s0 \<in> set (dx_subs e0)" "sb_ch s0 = sb_ch s"
        using Some by (auto simp: r' gomap_simps split: if_splits)
      then show "open_in (rg_chans (reset_entry r h)) (sb_ch s) \<and>
          (\<exists>f \<in> set fs. fo_live f = Some (sb_ch s) \<and> fo_hash f = h')"
        using linksD(3,4) [OF assms, of h' e0 s0] by (simp add: r')
    next
      fix f k
      assume f: "f \<in> set fs" "fo_live f = Some k" "open_in (rg_chans (reset_entry r h)) k"
      then obtain e0 where "mget (rg_entries r) (fo_hash f) = Some e0" "k \<in> sb_ch ` set (dx_subs e0)"
        using linksD(7) [OF assms f(1,2)] by (auto simp: r')
      then show "\<exists>e. mget (rg_entries (reset_entry r h)) (fo_hash f) = Some e \<and> k \<in> sb_ch ` set (dx_subs e)"
        using Some same by (auto simp: r' gomap_simps)
    qed (use linksD [OF assms] Some False in \<open>auto simp: r' gomap_simps o_def split: if_splits\<close>)
  qed
qed

lemma unregister_some:
  assumes "links r fs"
  shows "\<exists>chans'. unregister r h = Some (r\<lparr>rg_entries := mdel h (rg_entries r), rg_chans := chans'\<rparr>) \<and>
    (\<forall>k. mget chans' k = map_option (\<lambda>ch. ch\<lparr>cn_closed := cn_closed ch \<or>
        (\<exists>e. mget (rg_entries r) h = Some e \<and> k \<in> sb_ch ` set (dx_subs e))\<rparr>) (mget (rg_chans r) k))"
proof (cases "mget (rg_entries r) h")
  case None
  then show ?thesis by (auto simp: unregister_def option.map_ident intro!: exI [of _ "rg_chans r"])
next
  case (Some e)
  have d: "distinct (map sb_ch (dx_subs e))" and op: "\<forall>s \<in> set (dx_subs e). open_in (rg_chans r) (sb_ch s)"
    using linksD(1,3) [OF assms Some] by auto
  obtain c2 where c2: "close_subs (rg_chans r) (dx_subs e) = Some c2"
    "\<forall>k. mget c2 k = (if k \<in> sb_ch ` set (dx_subs e)
       then map_option (\<lambda>ch. ch\<lparr>cn_closed := True\<rparr>) (mget (rg_chans r) k) else mget (rg_chans r) k)"
    using close_subs_closes [OF d op] by blast
  show ?thesis
  proof (cases "dx_done e")
    case True
    then have "dx_subs e = []" using linksD(2) [OF assms Some] by blast
    then show ?thesis using True Some
      by (auto simp: unregister_def Let_def option.map_ident intro!: exI [of _ "rg_chans r"])
  next
    case False
    have "mget c2 k = map_option (\<lambda>ch. ch\<lparr>cn_closed := cn_closed ch \<or>
        (\<exists>e. mget (rg_entries r) h = Some e \<and> k \<in> sb_ch ` set (dx_subs e))\<rparr>) (mget (rg_chans r) k)" for k
      using c2(2) Some by (cases "mget (rg_chans r) k") auto
    then show ?thesis using False Some c2(1) by (auto simp: unregister_def Let_def)
  qed
qed

lemma links_unregister:
  assumes "links r fs" and "unregister r h = Some r'"
  shows "links r' fs"
proof -
  obtain chans' where r': "r' = r\<lparr>rg_entries := mdel h (rg_entries r), rg_chans := chans'\<rparr>"
    and chans': "\<And>k. mget chans' k = map_option (\<lambda>ch. ch\<lparr>cn_closed := cn_closed ch \<or>
        (\<exists>e. mget (rg_entries r) h = Some e \<and> k \<in> sb_ch ` set (dx_subs e))\<rparr>) (mget (rg_chans r) k)"
    using unregister_some [OF assms(1), of h] assms(2) by auto
  have op: "open_in chans' k \<longleftrightarrow> open_in (rg_chans r) k \<and>
      \<not> (\<exists>e. mget (rg_entries r) h = Some e \<and> k \<in> sb_ch ` set (dx_subs e))" for k
    by (cases "mget (rg_chans r) k") (auto simp: open_in_def chans')
  show ?thesis
  proof (rule linksI)
    fix h' e' s
    assume s: "mget (rg_entries r') h' = Some e'" "s \<in> set (dx_subs e')"
    then have h': "h' \<noteq> h" "mget (rg_entries r) h' = Some e'" by (auto simp: r' gomap_simps split: if_splits)
    have "\<not> (\<exists>e. mget (rg_entries r) h = Some e \<and> sb_ch s \<in> sb_ch ` set (dx_subs e))"
      using links_disjoint [OF assms(1) h'(2) s(2)] h'(1) by auto
    then show "open_in (rg_chans r') (sb_ch s) \<and> (\<exists>f \<in> set fs. fo_live f = Some (sb_ch s) \<and> fo_hash f = h')"
      using linksD(3,4) [OF assms(1) h'(2) s(2)] by (simp add: r' op)
  next
    fix f k
    assume f: "f \<in> set fs" "fo_live f = Some k" "open_in (rg_chans r') k"
    then obtain e0 where e0: "mget (rg_entries r) (fo_hash f) = Some e0" "k \<in> sb_ch ` set (dx_subs e0)"
      using linksD(7) [OF assms(1) f(1,2)] by (auto simp: r' op)
    moreover have "fo_hash f \<noteq> h" using f(3) e0 by (auto simp: r' op)
    ultimately show "\<exists>e. mget (rg_entries r') (fo_hash f) = Some e \<and> k \<in> sb_ch ` set (dx_subs e)"
      by (simp add: r' gomap_simps)
  next
    fix f k
    assume "f \<in> set fs" "fo_live f = Some k"
    then show "mget (rg_chans r') k \<noteq> None" using linksD(6) [OF assms(1)] by (simp add: r' chans')
  next
    fix k
    assume "mget (rg_chans r') k \<noteq> None"
    then show "k < rg_next r'" using linksD(8) [OF assms(1), of k] by (simp add: r' chans')
  qed (use linksD(1,2,5) [OF assms(1)] in \<open>auto simp: r' gomap_simps split: if_splits\<close>)
qed

text \<open>Reading moves a chunk from the channel to the follower: no stream changes.\<close>

lemma follower_read_cases:
  assumes "follower_read r f = (r', f')"
  obtains "r' = r" "f' = f"
  | k ch x where "fo_live f = Some k" "mget (rg_chans r) k = Some ch" "cn_buf ch = x # tl (cn_buf ch)"
      "r' = r\<lparr>rg_chans := mput k (ch\<lparr>cn_buf := tl (cn_buf ch)\<rparr>) (rg_chans r)\<rparr>"
      "f' = f\<lparr>fo_read := fo_read f @ [x]\<rparr>"
proof (cases "fo_live f")
  case None
  then show thesis using that(1) assms by (simp add: follower_read_def)
next
  case live: (Some k)
  show thesis
  proof (cases "mget (rg_chans r) k")
    case None
    then show thesis using that(1) assms live by (simp add: follower_read_def)
  next
    case (Some ch)
    from recv_chan_cases [of ch] show thesis
    proof
      assume "\<exists>x. recv_chan ch = (Got x, ch\<lparr>cn_buf := tl (cn_buf ch)\<rparr>) \<and> cn_buf ch = x # tl (cn_buf ch)"
      then show thesis using that(2) live Some assms by (auto simp: follower_read_def)
    next
      assume "cn_buf ch = [] \<and> recv_chan ch = (if cn_closed ch then Ended else Nothing_Yet, ch)"
      then show thesis using that(1) live Some assms by (auto simp: follower_read_def split: if_splits)
    qed
  qed
qed

lemma follower_read_keeps:
  assumes "follower_read r f = (r', f')"
  shows "fo_live f' = fo_live f" "fo_hash f' = fo_hash f" "fo_replay f' = fo_replay f"
    and "rg_entries r' = rg_entries r" "rg_next r' = rg_next r"
    and "follower_stream r' f' = follower_stream r f"
    and "\<And>g. fo_live g \<noteq> fo_live f \<Longrightarrow> follower_stream r' g = follower_stream r g"
    and "open_in (rg_chans r') k = open_in (rg_chans r) k"
    and "mget (rg_chans r') k = None \<longleftrightarrow> mget (rg_chans r) k = None"
  using assms
  by (cases rule: follower_read_cases;
      auto simp: follower_stream_def open_in_def gomap_simps split: option.splits)+

lemma links_read:
  assumes "links r fs" and "follower_read r (fs ! i) = (r', f')" and "i < length fs"
  shows "links r' (fs[i := f'])"
proof -
  note k = follower_read_keeps [OF assms(2)]
  have old: "\<exists>g \<in> set fs. fo_live g = fo_live f \<and> fo_hash g = fo_hash f" if "f \<in> set (fs[i := f'])" for f
  proof (cases "f = f'")
    case True
    then show ?thesis using k(1,2) assms(3) nth_mem by metis
  next
    case False
    then have "f \<in> set fs" using that by (auto dest!: set_update_subset_insert [THEN subsetD])
    then show ?thesis by blast
  qed
  have new: "\<exists>g \<in> set (fs[i := f']). fo_live g = fo_live f \<and> fo_hash g = fo_hash f" if "f \<in> set fs" for f
  proof -
    from that obtain j where j: "j < length fs" "fs ! j = f" by (auto simp: in_set_conv_nth)
    have "fo_live (fs[i := f'] ! j) = fo_live f \<and> fo_hash (fs[i := f'] ! j) = fo_hash f"
      using j k(1,2) by (cases "i = j") simp_all
    then show ?thesis using j(1) by (metis length_list_update nth_mem)
  qed
  show ?thesis
  proof (rule linksI)
    show "live_unique (fs[i := f'])"
      using live_unique_update [OF k(1)] linksD(5) [OF assms(1)] by simp
  next
    fix h e s
    assume "mget (rg_entries r') h = Some e" "s \<in> set (dx_subs e)"
    then have e: "mget (rg_entries r) h = Some e" "s \<in> set (dx_subs e)" by (simp_all add: k(4))
    from linksD(4) [OF assms(1) e] obtain f where "f \<in> set fs" "fo_live f = Some (sb_ch s)" "fo_hash f = h" by blast
    then show "open_in (rg_chans r') (sb_ch s) \<and>
        (\<exists>f \<in> set (fs[i := f']). fo_live f = Some (sb_ch s) \<and> fo_hash f = h)"
      using linksD(3) [OF assms(1) e] new [of f] by (simp add: k(8))
  next
    fix f j
    assume f: "f \<in> set (fs[i := f'])" "fo_live f = Some j"
    from old [OF f(1)] obtain g where g: "g \<in> set fs" "fo_live g = Some j" "fo_hash g = fo_hash f" using f(2) by auto
    have "(mget (rg_chans r') j = None) = (mget (rg_chans r) j = None)" by (rule k(9))
    from linksD(6) [OF assms(1) g(1,2)] show "mget (rg_chans r') j \<noteq> None"
      unfolding \<open>(mget (rg_chans r') j = None) = (mget (rg_chans r) j = None)\<close> .
    show "\<exists>e. mget (rg_entries r') (fo_hash f) = Some e \<and> j \<in> sb_ch ` set (dx_subs e)"
      if "open_in (rg_chans r') j"
      using linksD(7) [OF assms(1) g(1,2)] that g(3) by (simp add: k(4,8))
  qed (use linksD(1,2,8) [OF assms(1)] k(4,5,9) in auto)
qed

lemma links_step:
  assumes "links (dw_reg w) (dw_followers w)" and "disciplined safe w a" and "dedup_step w a = Some w'"
  shows "links (dw_reg w') (dw_followers w')"
proof (cases a)
  case (Op_Join h)
  obtain role r' where j: "register_or_subscribe (dw_reg w) h = (role, r')" by (cases "register_or_subscribe (dw_reg w) h")
  show ?thesis using links_join [OF assms(1) j] assms(3) j Op_Join by (cases role) auto
next
  case (Op_Forward h c)
  then obtain r' where "forward (dw_reg w) h c = Some r'" using assms(3) by (auto split: option.splits)
  then show ?thesis using links_forward [OF assms(1)] assms(2,3) Op_Forward
    by (auto simp: Let_def split: if_splits)
next
  case (Op_Reset h)
  then show ?thesis using links_reset [OF assms(1)] assms(3) by auto
next
  case (Op_Unregister h)
  then show ?thesis using links_unregister [OF assms(1)] assms(3) by auto
next
  case (Op_Read i)
  obtain r' f' where "follower_read (dw_reg w) (dw_followers w ! i) = (r', f')"
    by (cases "follower_read (dw_reg w) (dw_followers w ! i)")
  then show ?thesis using links_read [OF assms(1)] assms(1,3) Op_Read by (auto split: if_splits)
qed

lemma reach_links: "dedup_reach safe w \<Longrightarrow> links (dw_reg w) (dw_followers w)"
proof (induction rule: dedup_reach.induct)
  case reach_start
  show ?case by (simp add: dedup_start_def links_start)
next
  case (reach_step w a w')
  then show ?case using links_step by blast
qed

text \<open>No operation panics.\<close>

lemma dedup_step_total:
  assumes "links (dw_reg w) (dw_followers w)"
  shows "dedup_step w a \<noteq> None"
proof (cases a)
  case (Op_Join h)
  obtain role r' where "register_or_subscribe (dw_reg w) h = (role, r')" by (cases "register_or_subscribe (dw_reg w) h")
  then show ?thesis using Op_Join by (cases role) simp_all
next
  case (Op_Forward h c)
  have "forward (dw_reg w) h c \<noteq> None"
    using forward_some [OF assms, of h _ c] by (cases "mget (rg_entries (dw_reg w)) h") (auto simp: forward_def)
  then show ?thesis using Op_Forward by (auto simp: Let_def split: option.split)
next
  case (Op_Unregister h)
  then show ?thesis using unregister_some [OF assms, of h] by auto
next
  case (Op_Read i)
  then show ?thesis by (auto split: prod.split)
qed simp

end
