(* ===== verification/Dedup_Properties.thy ===== *)
theory Dedup_Properties
  imports Dedup_Followers
begin

text \<open>
  The promises of coalescing: a follower that reaches an end receives one attempt's whole answer,
  or its channel ends without one; nobody waits on a channel no one will close; and callers are
  coalesced only with equal rights. \<open>Reset\<close> breaks the first promise for a follower that was
  given a replay.
\<close>

section \<open>Streams are the history of one attempt\<close>

definition no_end :: "chunk_msg list \<Rightarrow> bool" where
  "no_end cs \<longleftrightarrow> list_all (\<lambda>c. \<not> ck_done c) cs"

lemma no_end_simps [simp]:
  "no_end []" "no_end (a @ b) \<longleftrightarrow> no_end a \<and> no_end b" "no_end (c # a) \<longleftrightarrow> \<not> ck_done c \<and> no_end a"
  by (auto simp: no_end_def)

text \<open>What a subscriber's flags say of its follower's stream.\<close>

definition tracked :: "chunk_msg list \<Rightarrow> chunk_msg list \<Rightarrow> subscriber \<Rightarrow> follower \<Rightarrow> bool" where
  "tracked stream so_far s f \<longleftrightarrow>
     no_end stream \<and> (\<not> sb_overflow s \<longrightarrow> stream = so_far) \<and>
     (\<not> sb_overflow s \<and> \<not> sb_delivered s \<longrightarrow> stream = fo_replay f)"

definition faithful :: "dedup_world \<Rightarrow> bool" where
  "faithful w \<longleftrightarrow>
     (\<forall>h e. mget (rg_entries (dw_reg w)) h = Some e \<longrightarrow>
        (\<not> dx_replay_dropped e \<longrightarrow> dx_chunks e = attempt_so_far w h) \<and>
        (dx_done e \<longrightarrow> (h, attempt_so_far w h) \<in> set (dw_answers w)) \<and>
        (\<not> dx_done e \<longrightarrow> no_end (attempt_so_far w h))) \<and>
     (\<forall>h e s f. mget (rg_entries (dw_reg w)) h = Some e \<longrightarrow> s \<in> set (dx_subs e) \<longrightarrow>
        f \<in> set (dw_followers w) \<longrightarrow> fo_live f = Some (sb_ch s) \<longrightarrow>
          tracked (follower_stream (dw_reg w) f) (attempt_so_far w h) s f) \<and>
     (\<forall>f \<in> set (dw_followers w). \<not> no_end (follower_stream (dw_reg w) f) \<longrightarrow>
        (fo_hash f, follower_stream (dw_reg w) f) \<in> set (dw_answers w))"

lemma faithfulI:
  assumes "\<And>h e. mget (rg_entries (dw_reg w)) h = Some e \<Longrightarrow> \<not> dx_replay_dropped e \<Longrightarrow> dx_chunks e = attempt_so_far w h"
    and "\<And>h e. mget (rg_entries (dw_reg w)) h = Some e \<Longrightarrow> dx_done e \<Longrightarrow> (h, attempt_so_far w h) \<in> set (dw_answers w)"
    and "\<And>h e. mget (rg_entries (dw_reg w)) h = Some e \<Longrightarrow> \<not> dx_done e \<Longrightarrow> no_end (attempt_so_far w h)"
    and "\<And>h e s f. mget (rg_entries (dw_reg w)) h = Some e \<Longrightarrow> s \<in> set (dx_subs e) \<Longrightarrow>
        f \<in> set (dw_followers w) \<Longrightarrow> fo_live f = Some (sb_ch s) \<Longrightarrow>
          tracked (follower_stream (dw_reg w) f) (attempt_so_far w h) s f"
    and "\<And>f. f \<in> set (dw_followers w) \<Longrightarrow> \<not> no_end (follower_stream (dw_reg w) f) \<Longrightarrow>
        (fo_hash f, follower_stream (dw_reg w) f) \<in> set (dw_answers w)"
  shows "faithful w"
  unfolding faithful_def using assms by blast

lemma faithfulD:
  assumes "faithful w"
  shows "mget (rg_entries (dw_reg w)) h = Some e \<Longrightarrow> \<not> dx_replay_dropped e \<Longrightarrow> dx_chunks e = attempt_so_far w h"
    and "mget (rg_entries (dw_reg w)) h = Some e \<Longrightarrow> dx_done e \<Longrightarrow> (h, attempt_so_far w h) \<in> set (dw_answers w)"
    and "mget (rg_entries (dw_reg w)) h = Some e \<Longrightarrow> \<not> dx_done e \<Longrightarrow> no_end (attempt_so_far w h)"
    and "mget (rg_entries (dw_reg w)) h = Some e \<Longrightarrow> s \<in> set (dx_subs e) \<Longrightarrow>
        f \<in> set (dw_followers w) \<Longrightarrow> fo_live f = Some (sb_ch s) \<Longrightarrow>
          tracked (follower_stream (dw_reg w) f) (attempt_so_far w h) s f"
    and "f \<in> set (dw_followers w) \<Longrightarrow> \<not> no_end (follower_stream (dw_reg w) f) \<Longrightarrow>
        (fo_hash f, follower_stream (dw_reg w) f) \<in> set (dw_answers w)"
  using assms unfolding faithful_def by blast+

lemma faithful_start: "faithful dedup_start"
  by (simp add: faithful_def dedup_start_def registry_new_def)

lemma stream_cong:
  assumes "\<And>k. fo_live f = Some k \<Longrightarrow> map_option cn_buf (mget (rg_chans r) k) = map_option cn_buf (mget (rg_chans r') k)"
  shows "follower_stream r f = follower_stream r' f"
  using assms by (cases "fo_live f") (auto simp: follower_stream_def split: option.splits)

lemma faithful_join:
  assumes inv: "faithful w" and l: "links (dw_reg w) (dw_followers w)" and step: "dedup_step w (Op_Join h) = Some w'"
  shows "faithful w'"
proof -
  let ?r = "dw_reg w"
  have streams: "follower_stream (?r\<lparr>rg_entries := x\<rparr>) f = follower_stream ?r f" for x f
    by (rule stream_cong) simp
  show ?thesis
  proof (cases "mget (rg_entries ?r) h")
    case None
    then have w': "w' = w\<lparr>dw_reg := ?r\<lparr>rg_entries := mput h empty_entry (rg_entries ?r)\<rparr>,
        dw_history := mput h [] (dw_history w)\<rparr>"
      using step by (simp add: register_or_subscribe_def)
    show ?thesis
      unfolding w'
      by (rule faithfulI)
        (use faithfulD [OF inv] None in
          \<open>auto simp: gomap_simps empty_entry_def attempt_so_far_def streams split: if_splits\<close>)
  next
    case (Some e)
    consider "dx_replay_dropped e" | "\<not> dx_replay_dropped e" "dx_done e" | "\<not> dx_replay_dropped e" "\<not> dx_done e" by blast
    then show ?thesis
    proof cases
      case 1
      then show ?thesis using step Some inv by (simp add: register_or_subscribe_def)
    next
      case 2
      let ?f = "\<lparr>fo_hash = h, fo_replay = dx_chunks e, fo_live = None, fo_read = []\<rparr>"
      have w': "w' = w\<lparr>dw_followers := dw_followers w @ [?f]\<rparr>"
        using step Some 2 by (simp add: register_or_subscribe_def)
      have "follower_stream ?r ?f = attempt_so_far w h"
        using faithfulD(1) [OF inv Some] 2 by (simp add: follower_stream_def)
      then show ?thesis
        unfolding w' using faithfulD [OF inv] faithfulD(2) [OF inv Some] 2
        by (intro faithfulI) (auto simp: attempt_so_far_def)
    next
      case 3
      let ?ch = "rg_next ?r"
      let ?s = "\<lparr>sb_ch = ?ch, sb_overflow = False, sb_delivered = False\<rparr>"
      let ?f = "\<lparr>fo_hash = h, fo_replay = dx_chunks e, fo_live = Some ?ch, fo_read = []\<rparr>"
      let ?r' = "?r\<lparr>rg_entries := mput h (e\<lparr>dx_subs := dx_subs e @ [?s]\<rparr>) (rg_entries ?r),
             rg_chans := mput ?ch (make_chan live_capacity) (rg_chans ?r), rg_next := Suc ?ch\<rparr>"
      have w': "w' = w\<lparr>dw_reg := ?r', dw_followers := dw_followers w @ [?f]\<rparr>"
        using step Some 3 by (simp add: register_or_subscribe_def Let_def)
      have fresh: "mget (rg_chans ?r) ?ch = None" using linksD(8) [OF l] by blast
      have live_old: "fo_live f \<noteq> Some ?ch" if "f \<in> set (dw_followers w)" for f
        using linksD(6) [OF l that] fresh by blast
      have old: "follower_stream ?r' f = follower_stream ?r f" if "f \<in> set (dw_followers w)" for f
        using live_old [OF that] by (intro stream_cong) (auto simp: gomap_simps)
      have sub_old: "sb_ch s \<noteq> ?ch" if "mget (rg_entries ?r) h' = Some e'" "s \<in> set (dx_subs e')" for h' e' s
        using linksD(3) [OF l that] fresh by (metis open_in_def option.distinct(1))
      have new: "follower_stream ?r' ?f = attempt_so_far w h" "fo_replay ?f = attempt_so_far w h"
        using faithfulD(1) [OF inv Some] 3 by (simp_all add: follower_stream_def gomap_simps)
      have ne: "no_end (attempt_so_far w h)" using faithfulD(3) [OF inv Some] 3 by blast
      have same: "attempt_so_far w' = attempt_so_far w" by (simp add: w' attempt_so_far_def fun_eq_iff)
      have views: "rg_entries (dw_reg w') = mput h (e\<lparr>dx_subs := dx_subs e @ [?s]\<rparr>) (rg_entries ?r)"
        "dw_answers w' = dw_answers w" by (simp_all add: w')
      show ?thesis
      proof (rule faithfulI)
        fix h' e' s f
        assume a: "mget (rg_entries (dw_reg w')) h' = Some e'" "s \<in> set (dx_subs e')"
          "f \<in> set (dw_followers w')" "fo_live f = Some (sb_ch s)"
        show "tracked (follower_stream (dw_reg w') f) (attempt_so_far w' h') s f"
        proof (cases "f = ?f")
          case True
          then have "sb_ch s = ?ch" using a(4) by simp
          then have "h' = h" using a(1,2) sub_old by (auto simp: w' gomap_simps split: if_splits)
          then show ?thesis using True new ne by (simp add: same tracked_def) (simp add: w')
        next
          case False
          then have f: "f \<in> set (dw_followers w)" using a(3) by (auto simp: w')
          then have "sb_ch s \<noteq> ?ch" using live_old a(4) by metis
          then obtain e0 where "mget (rg_entries ?r) h' = Some e0" "s \<in> set (dx_subs e0)"
            using a(1,2) Some by (auto simp: w' gomap_simps split: if_splits)
          from faithfulD(4) [OF inv this f a(4)] show ?thesis
            unfolding same using old [OF f] by (simp add: w')
        qed
      next
        fix f
        assume a: "f \<in> set (dw_followers w')" "\<not> no_end (follower_stream (dw_reg w') f)"
        then have f: "f \<in> set (dw_followers w)" using new(1) ne by (auto simp: w')
        then show "(fo_hash f, follower_stream (dw_reg w') f) \<in> set (dw_answers w')"
          using faithfulD(5) [OF inv f] a(2) old [OF f] by (simp add: w')
      qed (use faithfulD(1-3) [OF inv] Some 3 in \<open>auto simp: views same gomap_simps split: if_splits\<close>)
    qed
  qed
qed

lemma faithful_forward:
  assumes inv: "faithful w" and l: "links (dw_reg w) (dw_followers w)"
    and nd: "\<not> entry_done (dw_reg w) h" and step: "dedup_step w (Op_Forward h c) = Some w'"
  shows "faithful w'"
proof (cases "mget (rg_entries (dw_reg w)) h")
  case None
  then show ?thesis using inv step by (simp add: forward_def)
next
  case (Some e)
  let ?r = "dw_reg w"
  obtain chans' where fw: "forward ?r h c = Some (?r\<lparr>rg_entries := mput h
        (if ck_done c then (buffer_chunk e c)\<lparr>dx_done := True, dx_subs := []\<rparr>
         else (buffer_chunk e c)\<lparr>dx_subs := map (served (rg_chans ?r)) (dx_subs e)\<rparr>) (rg_entries ?r),
      rg_chans := chans'\<rparr>)"
    and chans': "\<And>k. mget chans' k = map_option (\<lambda>ch. ch
        \<lparr>cn_buf := (if receives (rg_chans ?r) (dx_subs e) k then cn_buf ch @ [c] else cn_buf ch),
         cn_closed := cn_closed ch \<or> ck_done c \<and> k \<in> sb_ch ` set (dx_subs e)\<rparr>) (mget (rg_chans ?r) k)"
    using forward_some [OF l Some, of c] by blast
  let ?so_far = "attempt_so_far w h @ [c]"
  have w': "dw_followers w' = dw_followers w" "rg_chans (dw_reg w') = chans'"
    "dw_answers w' = (if ck_done c then (h, ?so_far) # dw_answers w else dw_answers w)"
    "rg_entries (dw_reg w') = mput h
        (if ck_done c then (buffer_chunk e c)\<lparr>dx_done := True, dx_subs := []\<rparr>
         else (buffer_chunk e c)\<lparr>dx_subs := map (served (rg_chans ?r)) (dx_subs e)\<rparr>) (rg_entries ?r)"
    "attempt_so_far w' h' = (if h' = h then ?so_far else attempt_so_far w h')" for h'
    using step fw Some by (auto simp: Let_def attempt_so_far_def gomap_simps)
  have d: "\<not> dx_done e" using nd Some by (simp add: entry_done_def)
  have stream: "follower_stream (dw_reg w') f = follower_stream ?r f @
      (case fo_live f of None \<Rightarrow> [] | Some k \<Rightarrow> if receives (rg_chans ?r) (dx_subs e) k then [c] else [])"
    if "f \<in> set (dw_followers w)" for f
  proof (cases "fo_live f")
    case None
    then show ?thesis by (simp add: follower_stream_def)
  next
    case k: (Some k)
    with linksD(6) [OF l that] obtain ch where "mget (rg_chans ?r) k = Some ch" by blast
    then show ?thesis using k by (simp add: follower_stream_def w'(2) chans')
  qed
  have unsub: "follower_stream (dw_reg w') f = follower_stream ?r f"
    if "f \<in> set (dw_followers w)" "\<And>k. fo_live f = Some k \<Longrightarrow> k \<notin> sb_ch ` set (dx_subs e)" for f
    using stream [OF that(1)] that(2) by (auto simp: receives_def image_iff split: option.splits)
  have sub: "follower_stream (dw_reg w') f =
      (if \<not> sb_overflow s \<and> room_in (rg_chans ?r) (sb_ch s) then ?so_far else follower_stream ?r f)"
    "no_end (follower_stream ?r f)"
    if "f \<in> set (dw_followers w)" "s \<in> set (dx_subs e)" "fo_live f = Some (sb_ch s)" for f s
  proof -
    have t: "tracked (follower_stream ?r f) (attempt_so_far w h) s f"
      by (rule faithfulD(4) [OF inv Some that(2,1,3)])
    then show "no_end (follower_stream ?r f)" by (simp add: tracked_def)
    have "receives (rg_chans ?r) (dx_subs e) (sb_ch s) \<longleftrightarrow> \<not> sb_overflow s \<and> room_in (rg_chans ?r) (sb_ch s)"
    proof -
      have "t = s" if "t \<in> set (dx_subs e)" "sb_ch t = sb_ch s" for t
        using that \<open>s \<in> set (dx_subs e)\<close> linksD(1) [OF l Some] by (metis distinct_map inj_onD)
      then show ?thesis using that(2) by (auto simp: receives_def)
    qed
    then show "follower_stream (dw_reg w') f =
      (if \<not> sb_overflow s \<and> room_in (rg_chans ?r) (sb_ch s) then ?so_far else follower_stream ?r f)"
      using stream [OF that(1)] that(3) t by (auto simp: tracked_def)
  qed
  show ?thesis
  proof (rule faithfulI)
    fix h' e'
    assume "mget (rg_entries (dw_reg w')) h' = Some e'" "\<not> dx_replay_dropped e'"
    then show "dx_chunks e' = attempt_so_far w' h'"
      using faithfulD(1) [OF inv] Some
      by (auto simp: w' gomap_simps buffer_chunk_def split: if_splits)
  next
    fix h' e'
    assume "mget (rg_entries (dw_reg w')) h' = Some e'" "dx_done e'"
    then show "(h', attempt_so_far w' h') \<in> set (dw_answers w')"
      using faithfulD(2) [OF inv] d by (auto simp: w' gomap_simps split: if_splits)
  next
    fix h' e'
    assume "mget (rg_entries (dw_reg w')) h' = Some e'" "\<not> dx_done e'"
    then show "no_end (attempt_so_far w' h')"
      using faithfulD(3) [OF inv] faithfulD(3) [OF inv Some d] by (auto simp: w' gomap_simps split: if_splits)
  next
    fix h' e' s' f
    assume a: "mget (rg_entries (dw_reg w')) h' = Some e'" "s' \<in> set (dx_subs e')"
      "f \<in> set (dw_followers w')" "fo_live f = Some (sb_ch s')"
    have f: "f \<in> set (dw_followers w)" using a(3) by (simp add: w')
    show "tracked (follower_stream (dw_reg w') f) (attempt_so_far w' h') s' f"
    proof (cases "h' = h")
      case True
      then obtain s where s: "s \<in> set (dx_subs e)" "s' = served (rg_chans ?r) s" and nc: "\<not> ck_done c"
        using a(1,2) by (auto simp: w' gomap_simps split: if_splits)
      have live: "fo_live f = Some (sb_ch s)" using a(4) s(2) by simp
      have t: "tracked (follower_stream ?r f) (attempt_so_far w h) s f"
        by (rule faithfulD(4) [OF inv Some s(1) f live])
      show ?thesis
        using t nc faithfulD(3) [OF inv Some d]
        unfolding w'(5) True s(2) sub(1) [OF f s(1) live]
        by (auto simp: tracked_def served_def)
    next
      case False
      then have e': "mget (rg_entries ?r) h' = Some e'" using a(1) by (simp add: w' gomap_simps)
      have "sb_ch s' \<notin> sb_ch ` set (dx_subs e)"
        using links_disjoint [OF l e' a(2) Some] False by auto
      then have "follower_stream (dw_reg w') f = follower_stream ?r f"
        using unsub [OF f] a(4) by simp
      then show ?thesis using faithfulD(4) [OF inv e' a(2) f a(4)] False by (simp add: w')
    qed
  next
    fix f
    assume a: "f \<in> set (dw_followers w')" "\<not> no_end (follower_stream (dw_reg w') f)"
    have f: "f \<in> set (dw_followers w)" using a(1) by (simp add: w')
    show "(fo_hash f, follower_stream (dw_reg w') f) \<in> set (dw_answers w')"
    proof (cases "\<exists>s \<in> set (dx_subs e). fo_live f = Some (sb_ch s)")
      case True
      then obtain s where s: "s \<in> set (dx_subs e)" "fo_live f = Some (sb_ch s)" by blast
      have "follower_stream (dw_reg w') f = ?so_far"
        using sub [OF f s] a(2) by (auto split: if_splits)
      moreover have "ck_done c" using a(2) calculation faithfulD(3) [OF inv Some d] by simp
      moreover have "fo_hash f = h"
      proof -
        obtain g where "g \<in> set (dw_followers w)" "fo_live g = Some (sb_ch s)" "fo_hash g = h"
          using linksD(4) [OF l Some s(1)] by blast
        then show ?thesis using live_unique_same [OF linksD(5) [OF l] f] s(2) by metis
      qed
      ultimately show ?thesis by (simp add: w')
    next
      case False
      then have "follower_stream (dw_reg w') f = follower_stream ?r f" using unsub [OF f] by auto
      then show ?thesis using faithfulD(5) [OF inv f] a(2) by (simp add: w')
    qed
  qed
qed

lemma faithful_reset:
  assumes inv: "faithful w" and l: "links (dw_reg w) (dw_followers w)"
    and ok: "harmless_reset w h" and step: "dedup_step w (Op_Reset h) = Some w'"
  shows "faithful w'"
proof (cases "\<exists>e. mget (rg_entries (dw_reg w)) h = Some e \<and> \<not> dx_done e")
  case False
  then have "w' = w" using step
    by (auto simp: reset_entry_def split: option.splits)
  then show ?thesis using inv by simp
next
  case True
  then obtain e where e: "mget (rg_entries (dw_reg w)) h = Some e" "\<not> dx_done e" by blast
  let ?r = "dw_reg w"
  let ?e = "e\<lparr>dx_chunks := [], dx_subs := map (reset_sub (rg_chans ?r)) (dx_subs e)\<rparr>"
  have w': "dw_followers w' = dw_followers w" "rg_chans (dw_reg w') = rg_chans ?r" "dw_answers w' = dw_answers w"
    "rg_entries (dw_reg w') = mput h ?e (rg_entries ?r)"
    "attempt_so_far w' h' = (if h' = h then [] else attempt_so_far w h')" for h'
    using step e by (auto simp: reset_entry_def attempt_so_far_def gomap_simps)
  have stream: "follower_stream (dw_reg w') f = follower_stream ?r f" for f
    by (rule stream_cong) (simp add: w')
  show ?thesis
  proof (rule faithfulI)
    fix h' e' s' f
    assume a: "mget (rg_entries (dw_reg w')) h' = Some e'" "s' \<in> set (dx_subs e')"
      "f \<in> set (dw_followers w')" "fo_live f = Some (sb_ch s')"
    have f: "f \<in> set (dw_followers w)" using a(3) by (simp add: w')
    show "tracked (follower_stream (dw_reg w') f) (attempt_so_far w' h') s' f"
    proof (cases "h' = h")
      case True
      then obtain s where s: "s \<in> set (dx_subs e)" "s' = reset_sub (rg_chans ?r) s"
        using a(1,2) by (auto simp: w' gomap_simps)
      have live: "fo_live f = Some (sb_ch s)" using a(4) s(2) by simp
      have t: "tracked (follower_stream ?r f) (attempt_so_far w h) s f"
        by (rule faithfulD(4) [OF inv e(1) s(1) f live])
      have hash: "fo_hash f = h"
      proof -
        obtain g where "g \<in> set (dw_followers w)" "fo_live g = Some (sb_ch s)" "fo_hash g = h"
          using linksD(4) [OF l e(1) s(1)] by blast
        then show ?thesis using live_unique_same [OF linksD(5) [OF l] f] live by metis
      qed
      have "fo_replay f = []" if "\<not> sb_overflow s" "\<not> sb_delivered s"
        using ok f s(1) live that hash e(1) by (auto simp: harmless_reset_def list_all_iff)
      then show ?thesis using t
        unfolding stream w'(5) True s(2) by (auto simp: tracked_def reset_sub_def)
    next
      case False
      then have e': "mget (rg_entries ?r) h' = Some e'" using a(1) by (simp add: w' gomap_simps)
      show ?thesis using faithfulD(4) [OF inv e' a(2) f a(4)] False by (simp add: stream w'(5))
    qed
  qed (use faithfulD(1-3,5) [OF inv] e in \<open>auto simp: w' stream gomap_simps split: if_splits\<close>)
qed

lemma faithful_unregister:
  assumes inv: "faithful w" and l: "links (dw_reg w) (dw_followers w)"
    and step: "dedup_step w (Op_Unregister h) = Some w'"
  shows "faithful w'"
proof -
  let ?r = "dw_reg w"
  obtain chans' where un: "unregister ?r h = Some (?r\<lparr>rg_entries := mdel h (rg_entries ?r), rg_chans := chans'\<rparr>)"
    and chans': "\<And>k. mget chans' k = map_option (\<lambda>ch. ch\<lparr>cn_closed := cn_closed ch \<or>
        (\<exists>e. mget (rg_entries ?r) h = Some e \<and> k \<in> sb_ch ` set (dx_subs e))\<rparr>) (mget (rg_chans ?r) k)"
    using unregister_some [OF l, of h] by blast
  have w': "dw_followers w' = dw_followers w" "rg_chans (dw_reg w') = chans'" "dw_answers w' = dw_answers w"
    "rg_entries (dw_reg w') = mdel h (rg_entries ?r)" "attempt_so_far w' = attempt_so_far w"
    using step un by (auto simp: attempt_so_far_def fun_eq_iff)
  have stream: "follower_stream (dw_reg w') f = follower_stream ?r f" for f
    by (rule stream_cong) (simp add: w' chans' option.map_comp comp_def)
  show ?thesis
    by (rule faithfulI)
      (use faithfulD [OF inv] in \<open>auto simp: w' stream gomap_simps split: if_splits\<close>)
qed

lemma faithful_read:
  assumes inv: "faithful w" and l: "links (dw_reg w) (dw_followers w)"
    and step: "dedup_step w (Op_Read i) = Some w'"
  shows "faithful w'"
proof (cases "i < length (dw_followers w)")
  case False
  then show ?thesis using inv step by simp
next
  case True
  let ?f = "dw_followers w ! i"
  obtain r' f' where rd: "follower_read (dw_reg w) ?f = (r', f')" by (cases "follower_read (dw_reg w) ?f")
  note k = follower_read_keeps [OF rd]
  have w': "w' = w\<lparr>dw_reg := r', dw_followers := (dw_followers w)[i := f']\<rparr>"
    using step True rd by simp
  have old: "\<exists>g \<in> set (dw_followers w). fo_live g = fo_live f \<and> fo_hash g = fo_hash f \<and> fo_replay g = fo_replay f \<and>
      follower_stream r' f = follower_stream (dw_reg w) g" if "f \<in> set ((dw_followers w)[i := f'])" for f
  proof (cases "f = f'")
    case same: True
    then show ?thesis using k(1-3,6) True nth_mem by metis
  next
    case False
    from that obtain j where "j < length (dw_followers w)" "(dw_followers w)[i := f'] ! j = f"
      by (auto simp: in_set_conv_nth)
    with False True have j: "j < length (dw_followers w)" "j \<noteq> i" "dw_followers w ! j = f"
      by (auto simp: nth_list_update split: if_splits)
    have "follower_stream r' f = follower_stream (dw_reg w) f"
    proof (cases "fo_live f")
      case None
      then show ?thesis by (simp add: follower_stream_def)
    next
      case (Some k0)
      then have "fo_live f \<noteq> fo_live ?f"
        using live_unique_index [OF linksD(5) [OF l] j(1) True, of k0] j(2,3) by auto
      then show ?thesis by (rule k(7))
    qed
    then show ?thesis using j(1,3) nth_mem by blast
  qed
  have views: "rg_entries (dw_reg w') = rg_entries (dw_reg w)" "dw_answers w' = dw_answers w"
    "attempt_so_far w' = attempt_so_far w" "dw_followers w' = (dw_followers w)[i := f']" "dw_reg w' = r'"
    by (simp_all add: w' k attempt_so_far_def fun_eq_iff)
  show ?thesis
  proof (rule faithfulI)
    fix h e s f
    assume a: "mget (rg_entries (dw_reg w')) h = Some e" "s \<in> set (dx_subs e)"
      "f \<in> set (dw_followers w')" "fo_live f = Some (sb_ch s)"
    obtain g where g: "g \<in> set (dw_followers w)" "fo_live g = Some (sb_ch s)" "fo_replay g = fo_replay f"
      "follower_stream r' f = follower_stream (dw_reg w) g" using old [of f] a(3,4) by (auto simp: views)
    have "tracked (follower_stream (dw_reg w) g) (attempt_so_far w h) s g"
      using faithfulD(4) [OF inv _ a(2) g(1,2)] a(1) by (simp add: views k(4))
    then show "tracked (follower_stream (dw_reg w') f) (attempt_so_far w' h) s f"
      using g(3,4) unfolding tracked_def views by metis
  next
    fix f
    assume "f \<in> set (dw_followers w')" "\<not> no_end (follower_stream (dw_reg w') f)"
    then show "(fo_hash f, follower_stream (dw_reg w') f) \<in> set (dw_answers w')"
      using old [of f] faithfulD(5) [OF inv] unfolding views by metis
  qed (use faithfulD(1-3) [OF inv] in \<open>auto simp: views k(4)\<close>)
qed

lemma reach_faithful: "dedup_reach True w \<Longrightarrow> faithful w"
proof (induction rule: dedup_reach.induct)
  case reach_start
  show ?case by (rule faithful_start)
next
  case (reach_step w a w')
  note l = reach_links [OF reach_step.hyps(1)]
  show ?case
  proof (cases a)
    case (Op_Join h)
    show ?thesis using faithful_join [OF reach_step.IH l] reach_step.hyps(3) Op_Join by blast
  next
    case (Op_Forward h c)
    then have "\<not> entry_done (dw_reg w) h" using reach_step.hyps(2) by simp
    then show ?thesis using faithful_forward [OF reach_step.IH l] reach_step.hyps(3) Op_Forward by blast
  next
    case (Op_Reset h)
    then have "harmless_reset w h" using reach_step.hyps(2) by simp
    then show ?thesis using faithful_reset [OF reach_step.IH l] reach_step.hyps(3) Op_Reset by blast
  next
    case (Op_Unregister h)
    show ?thesis using faithful_unregister [OF reach_step.IH l] reach_step.hyps(3) Op_Unregister by blast
  next
    case (Op_Read i)
    show ?thesis using faithful_read [OF reach_step.IH l] reach_step.hyps(3) Op_Read by blast
  qed
qed

section \<open>Properties\<close>


text \<open>
  C38. Coalescing never panics and strands nobody: in every reachable state each operation runs
  without a send on a closed channel or a second close, and a follower whose channel is open
  subscribes to an entry that is still registered and not done, so the original that owns the
  entry will close it.
\<close>

theorem coalescing_strands_nobody:
  assumes "dedup_reach safe w"
  shows "dedup_step w a \<noteq> None \<and>
    (f \<in> set (dw_followers w) \<and> fo_live f = Some k \<and> open_in (rg_chans (dw_reg w)) k \<longrightarrow>
       has_subscribers (dw_reg w) (fo_hash f))"
proof (intro conjI impI)
  note l = reach_links [OF assms]
  show "dedup_step w a \<noteq> None" by (rule dedup_step_total [OF l])
  assume f: "f \<in> set (dw_followers w) \<and> fo_live f = Some k \<and> open_in (rg_chans (dw_reg w)) k"
  then obtain e where e: "mget (rg_entries (dw_reg w)) (fo_hash f) = Some e" "k \<in> sb_ch ` set (dx_subs e)"
    using linksD(7) [OF l] by blast
  then show "has_subscribers (dw_reg w) (fo_hash f)"
    using linksD(2) [OF l e(1)] by (auto simp: has_subscribers_def)
qed

text \<open>A concrete retry: the follower joins after the first chunk, the attempt is then abandoned.\<close>

definition text_of :: "string \<Rightarrow> bool \<Rightarrow> chunk_msg" where
  "text_of s final = \<lparr>ck_request_id = ''r1'', ck_delta = s, ck_tool_calls_delta = [], ck_reasoning_delta = [],
     ck_done = final, ck_finish_reason = [], ck_usage = None, ck_model = [], ck_error = []\<rparr>"

fun run_dedup :: "dedup_world \<Rightarrow> dedup_op list \<Rightarrow> dedup_world option" where
  "run_dedup w [] = Some w"
| "run_dedup w (a # as) = (case dedup_step w a of None \<Rightarrow> None | Some w' \<Rightarrow> run_dedup w' as)"

definition stitched_run :: "dedup_op list" where
  "stitched_run = [Op_Join ''h'', Op_Forward ''h'' (text_of ''It is '' False), Op_Join ''h'', Op_Reset ''h'',
     Op_Forward ''h'' (text_of ''Answer: 4'' True)]"

text \<open>
  \<open>Reset\<close> does not do what its comment says. A follower that was given the abandoned
  attempt's chunks as its replay, but no chunk of its own yet, is not failed: it rides the retry
  and receives the abandoned output followed by the retry's whole answer, as a complete response
  that no attempt produced.
\<close>

theorem reset_stitches_answers:
  "map_option (\<lambda>w. (map (\<lambda>f. map ck_delta (follower_stream (dw_reg w) f)) (dw_followers w),
        map (\<lambda>(h, cs). map ck_delta cs) (dw_answers w))) (run_dedup dedup_start stitched_run) =
   Some ([[''It is '', ''Answer: 4'']], [[''Answer: 4'']])"
  by code_simp

end
