(* ===== verification/Correlation.thy ===== *)
theory Correlation
  imports Wire_Types
begin

unbundle bit_operations_syntax

text \<open>
  \<open>router/internal/correlation/store.go\<close>: the channel each waiting handler reads its chunks from.
  A send may wait on a full channel while another goroutine deletes the entry, so the model keeps
  the goroutines: every call of \<open>Send\<close>, \<open>Delete\<close> and \<open>DrainAll\<close> in flight is a record with the
  point it has reached, and a run is a sequence of their atomic steps in any order.
\<close>

section \<open>Shards\<close>

text \<open>\<open>hash/fnv\<close>, 32-bit FNV-1a, and the mask of \<open>shardFor\<close>.\<close>

definition fnv_byte :: "32 word \<Rightarrow> char \<Rightarrow> 32 word" where
  "fnv_byte h c = (h XOR of_char c) * 16777619"

definition fnv32a :: "string \<Rightarrow> 32 word" where
  "fnv32a s = foldl fnv_byte 2166136261 s"

definition shard_count :: nat where "shard_count = 32"

definition shard_for :: "string \<Rightarrow> nat" where
  "shard_for rid = unat (fnv32a rid AND 31)"

section \<open>State\<close>

text \<open>
  An entry: its channel, whether \<open>done\<close> is closed, and the wait group of senders.
\<close>

record corr_entry =
  ce_ch :: "chunk_msg chan"
  ce_done :: bool
  ce_senders :: nat

definition chan_buffer :: nat where "chan_buffer = 2048"

datatype send_result = Send_OK | Send_Not_Found | Send_Full_Result

text \<open>A \<open>Send\<close> that has found its entry: about to try, or parked on the full channel.\<close>

record sending =
  sd_entry :: nat
  sd_msg :: chunk_msg
  sd_parked :: bool

text \<open>
  A \<open>Delete\<close> or \<open>DrainAll\<close> that has taken an entry out of its map: the terminal chunk still to be
  offered (only \<open>DrainAll\<close>), \<open>done\<close> still to be closed, or waiting for the senders to leave.
\<close>

datatype close_phase = Offer_Final | Close_Done | Await_Senders

record closing =
  cl_entry :: nat
  cl_id :: string
  cl_phase :: close_phase

record corr_store =
  co_shards :: "(string, nat) gomap list"
  co_entries :: "(nat, corr_entry) gomap"
  co_next :: nat
  co_sending :: "sending list"
  co_closing :: "closing list"
  co_results :: "(chunk_msg \<times> send_result) list"

definition corr_new :: corr_store where
  "corr_new = \<lparr>co_shards = replicate shard_count [], co_entries = [], co_next = 0, co_sending = [],
     co_closing = [], co_results = []\<rparr>"

definition corr_lookup :: "corr_store \<Rightarrow> string \<Rightarrow> nat option" where
  "corr_lookup s rid = mget (co_shards s ! shard_for rid) rid"

text \<open>The outcome of a step: the next state, nothing to do now, or a panic.\<close>

datatype corr_outcome = Next corr_store | Blocked | Panic

section \<open>Operations\<close>

definition create :: "corr_store \<Rightarrow> string \<Rightarrow> nat \<times> corr_store" where
  "create s rid =
     (case corr_lookup s rid of
        Some k \<Rightarrow> (k, s)
      | None \<Rightarrow>
          (let k = co_next s; i = shard_for rid
           in (k, s\<lparr>co_shards := (co_shards s)[i := mput rid k (co_shards s ! i)],
                    co_entries := mput k \<lparr>ce_ch = make_chan chan_buffer, ce_done = False, ce_senders = 0\<rparr>
                      (co_entries s),
                    co_next := Suc k\<rparr>)))"

text \<open>\<open>Send\<close> under the shard's lock.\<close>

definition send_start :: "corr_store \<Rightarrow> chunk_msg \<Rightarrow> corr_store" where
  "send_start s m =
     (case corr_lookup s (ck_request_id m) of
        None \<Rightarrow> s\<lparr>co_results := co_results s @ [(m, Send_Not_Found)]\<rparr>
      | Some k \<Rightarrow>
          (case mget (co_entries s) k of
             None \<Rightarrow> s
           | Some e \<Rightarrow>
               s\<lparr>co_entries := mput k (e\<lparr>ce_senders := Suc (ce_senders e)\<rparr>) (co_entries s),
                 co_sending := co_sending s @ [\<lparr>sd_entry = k, sd_msg = m, sd_parked = False\<rparr>]\<rparr>))"

definition drop_at :: "nat \<Rightarrow> 'a list \<Rightarrow> 'a list" where
  "drop_at i xs = take i xs @ drop (Suc i) xs"

definition send_return :: "corr_store \<Rightarrow> nat \<Rightarrow> corr_entry \<Rightarrow> send_result \<Rightarrow> corr_store" where
  "send_return s i e res =
     (let sd = co_sending s ! i
      in s\<lparr>co_entries := mput (sd_entry sd) (e\<lparr>ce_senders := ce_senders e - 1\<rparr>) (co_entries s),
           co_sending := drop_at i (co_sending s),
           co_results := co_results s @ [(sd_msg sd, res)]\<rparr>)"

text \<open>
  The \<open>select\<close>s of \<open>Send\<close>: the case that is taken is a choice, among those that are ready.
\<close>

datatype send_choice = Take_Send | Take_Done | Take_Default | Take_Timer

definition send_select :: "corr_store \<Rightarrow> nat \<Rightarrow> send_choice \<Rightarrow> corr_outcome" where
  "send_select s i choice =
     (if i \<ge> length (co_sending s) then Blocked
      else
        (let sd = co_sending s ! i
         in case mget (co_entries s) (sd_entry sd) of
              None \<Rightarrow> Blocked
            | Some e \<Rightarrow>
                (case choice of
                   Take_Send \<Rightarrow>
                     (case try_send (ce_ch e) (sd_msg sd) of
                        Send_Panic \<Rightarrow> Panic
                      | Send_Full \<Rightarrow> Blocked
                      | Sent ch \<Rightarrow> Next (send_return s i (e\<lparr>ce_ch := ch\<rparr>) Send_OK))
                 | Take_Done \<Rightarrow> if ce_done e then Next (send_return s i e Send_Not_Found) else Blocked
                 | Take_Default \<Rightarrow>
                     if sd_parked sd \<or> ce_done e \<or> try_send (ce_ch e) (sd_msg sd) \<noteq> Send_Full then Blocked
                     else Next (s\<lparr>co_sending := (co_sending s)[i := sd\<lparr>sd_parked := True\<rparr>]\<rparr>)
                 | Take_Timer \<Rightarrow>
                     if sd_parked sd then Next (send_return s i e Send_Full_Result) else Blocked)))"

definition delete_start :: "corr_store \<Rightarrow> string \<Rightarrow> corr_store" where
  "delete_start s rid =
     (let i = shard_for rid;
          s1 = s\<lparr>co_shards := (co_shards s)[i := mdel rid (co_shards s ! i)]\<rparr>
      in case corr_lookup s rid of
           None \<Rightarrow> s1
         | Some k \<Rightarrow> s1\<lparr>co_closing := co_closing s @ [\<lparr>cl_entry = k, cl_id = rid, cl_phase = Close_Done\<rparr>]\<rparr>)"

text \<open>\<open>DrainAll\<close> takes a whole shard's entries at once.\<close>

definition drain_shard :: "corr_store \<Rightarrow> nat \<Rightarrow> corr_store" where
  "drain_shard s i =
     s\<lparr>co_shards := (co_shards s)[i := []],
       co_closing := co_closing s @
         map (\<lambda>(rid, k). \<lparr>cl_entry = k, cl_id = rid, cl_phase = Offer_Final\<rparr>) (co_shards s ! i)\<rparr>"

definition final_chunk :: "string \<Rightarrow> chunk_msg" where
  "final_chunk rid = \<lparr>ck_request_id = rid, ck_delta = [], ck_tool_calls_delta = [], ck_reasoning_delta = [],
     ck_done = True, ck_finish_reason = ''error'', ck_usage = None, ck_model = [], ck_error = []\<rparr>"

definition close_step :: "corr_store \<Rightarrow> nat \<Rightarrow> corr_outcome" where
  "close_step s i =
     (if i \<ge> length (co_closing s) then Blocked
      else
        (let c = co_closing s ! i
         in case mget (co_entries s) (cl_entry c) of
              None \<Rightarrow> Blocked
            | Some e \<Rightarrow>
                (case cl_phase c of
                   Offer_Final \<Rightarrow>
                     (case try_send (ce_ch e) (final_chunk (cl_id c)) of
                        Send_Panic \<Rightarrow> Panic
                      | Send_Full \<Rightarrow> Next (s\<lparr>co_closing := (co_closing s)[i := c\<lparr>cl_phase := Close_Done\<rparr>]\<rparr>)
                      | Sent ch \<Rightarrow>
                          Next (s\<lparr>co_entries := mput (cl_entry c) (e\<lparr>ce_ch := ch\<rparr>) (co_entries s),
                                  co_closing := (co_closing s)[i := c\<lparr>cl_phase := Close_Done\<rparr>]\<rparr>))
                 | Close_Done \<Rightarrow>
                     if ce_done e then Panic
                     else Next (s\<lparr>co_entries := mput (cl_entry c) (e\<lparr>ce_done := True\<rparr>) (co_entries s),
                                  co_closing := (co_closing s)[i := c\<lparr>cl_phase := Await_Senders\<rparr>]\<rparr>)
                 | Await_Senders \<Rightarrow>
                     if ce_senders e > 0 then Blocked
                     else
                       (case close_chan (ce_ch e) of
                          None \<Rightarrow> Panic
                        | Some ch \<Rightarrow>
                            Next (s\<lparr>co_entries := mput (cl_entry c) (e\<lparr>ce_ch := ch\<rparr>) (co_entries s),
                                    co_closing := drop_at i (co_closing s)\<rparr>)))))"

definition handler_recv :: "corr_store \<Rightarrow> nat \<Rightarrow> chunk_msg received \<times> corr_store" where
  "handler_recv s k =
     (case mget (co_entries s) k of
        None \<Rightarrow> (Nothing_Yet, s)
      | Some e \<Rightarrow>
          (case recv_chan (ce_ch e) of
             (res, ch) \<Rightarrow> (res, s\<lparr>co_entries := mput k (e\<lparr>ce_ch := ch\<rparr>) (co_entries s)\<rparr>)))"

section \<open>Runs\<close>

datatype corr_action =
    Do_Create string
  | Do_Send chunk_msg
  | Do_Select nat send_choice
  | Do_Delete string
  | Do_Drain nat
  | Do_Close nat
  | Do_Recv nat

fun corr_step :: "corr_store \<Rightarrow> corr_action \<Rightarrow> corr_outcome" where
  "corr_step s (Do_Create rid) = Next (snd (create s rid))"
| "corr_step s (Do_Send m) = Next (send_start s m)"
| "corr_step s (Do_Select i choice) = send_select s i choice"
| "corr_step s (Do_Delete rid) = Next (delete_start s rid)"
| "corr_step s (Do_Drain i) = (if i < shard_count then Next (drain_shard s i) else Blocked)"
| "corr_step s (Do_Close i) = close_step s i"
| "corr_step s (Do_Recv k) = Next (snd (handler_recv s k))"

inductive corr_reach :: "corr_store \<Rightarrow> bool" where
  corr_start: "corr_reach corr_new"
| corr_run: "corr_reach s \<Longrightarrow> corr_step s a = Next s' \<Longrightarrow> corr_reach s'"

end
