(* ===== verification/Correlation_Safety.thy ===== *)
theory Correlation_Safety
  imports Correlation
begin

text \<open>
  Why waiting senders and closing deleters of one entry do not meet: the invariant of every
  interleaving of \<open>Create\<close>, \<open>Send\<close>, \<open>Delete\<close> and \<open>DrainAll\<close>, and what follows from it.
\<close>

section \<open>Shards\<close>

lemma shard_for_less: "shard_for rid < shard_count"
proof -
  have "fnv32a rid AND 31 = take_bit 5 (fnv32a rid)"
    by (simp add: take_bit_eq_mask mask_eq_exp_minus_1)
  then have "shard_for rid = take_bit 5 (unat (fnv32a rid))"
    by (simp add: shard_for_def unsigned_take_bit_eq)
  then show ?thesis using take_bit_nat_less_exp [of 5 "unat (fnv32a rid)"] by (simp add: shard_count_def)
qed

section \<open>Who owns an entry\<close>

text \<open>An entry is owned by the map that lists it or by the goroutine that is closing it.\<close>

definition owned :: "corr_store \<Rightarrow> nat multiset" where
  "owned s = mset (map cl_entry (co_closing s)) + mset (concat (map (map snd) (co_shards s)))"

definition sending_to :: "corr_store \<Rightarrow> nat \<Rightarrow> nat" where
  "sending_to s k = length (filter (\<lambda>sd. sd_entry sd = k) (co_sending s))"

definition phase_ok :: "close_phase \<Rightarrow> corr_entry \<Rightarrow> bool" where
  "phase_ok p e \<longleftrightarrow> \<not> cn_closed (ce_ch e) \<and> (ce_done e \<longleftrightarrow> p = Await_Senders)"

definition corr_ok :: "corr_store \<Rightarrow> bool" where
  "corr_ok s \<longleftrightarrow>
     length (co_shards s) = shard_count \<and>
     (\<forall>m \<in> set (co_shards s). wf_map m) \<and>
     (\<forall>i < shard_count. \<forall>rid \<in> fst ` set (co_shards s ! i). shard_for rid = i) \<and>
     (\<forall>k. count (owned s) k \<le> 1) \<and>
     (\<forall>k. mget (co_entries s) k \<noteq> None \<longrightarrow> k < co_next s) \<and>
     (\<forall>m \<in> set (co_shards s). \<forall>k \<in> snd ` set m.
        \<exists>e. mget (co_entries s) k = Some e \<and> \<not> ce_done e \<and> \<not> cn_closed (ce_ch e)) \<and>
     (\<forall>c \<in> set (co_closing s). \<exists>e. mget (co_entries s) (cl_entry c) = Some e \<and> phase_ok (cl_phase c) e) \<and>
     (\<forall>k e. mget (co_entries s) k = Some e \<longrightarrow> ce_senders e = sending_to s k \<and>
        (cn_closed (ce_ch e) \<longrightarrow> ce_senders e = 0)) \<and>
     (\<forall>sd \<in> set (co_sending s). mget (co_entries s) (sd_entry sd) \<noteq> None)"

lemma corr_okI:
  assumes "length (co_shards s) = shard_count" and "\<And>m. m \<in> set (co_shards s) \<Longrightarrow> wf_map m"
    and "\<And>i rid. i < shard_count \<Longrightarrow> rid \<in> fst ` set (co_shards s ! i) \<Longrightarrow> shard_for rid = i"
    and "\<And>k. count (owned s) k \<le> 1"
    and "\<And>k. mget (co_entries s) k \<noteq> None \<Longrightarrow> k < co_next s"
    and "\<And>m k. m \<in> set (co_shards s) \<Longrightarrow> k \<in> snd ` set m \<Longrightarrow>
        \<exists>e. mget (co_entries s) k = Some e \<and> \<not> ce_done e \<and> \<not> cn_closed (ce_ch e)"
    and "\<And>c. c \<in> set (co_closing s) \<Longrightarrow> \<exists>e. mget (co_entries s) (cl_entry c) = Some e \<and> phase_ok (cl_phase c) e"
    and "\<And>k e. mget (co_entries s) k = Some e \<Longrightarrow> ce_senders e = sending_to s k"
    and "\<And>k e. mget (co_entries s) k = Some e \<Longrightarrow> cn_closed (ce_ch e) \<Longrightarrow> ce_senders e = 0"
    and "\<And>sd. sd \<in> set (co_sending s) \<Longrightarrow> mget (co_entries s) (sd_entry sd) \<noteq> None"
  shows "corr_ok s"
  unfolding corr_ok_def by (intro conjI allI ballI impI; rule assms; assumption?)

lemma corr_okD:
  assumes "corr_ok s"
  shows "length (co_shards s) = shard_count" and "m \<in> set (co_shards s) \<Longrightarrow> wf_map m"
    and "i < shard_count \<Longrightarrow> rid \<in> fst ` set (co_shards s ! i) \<Longrightarrow> shard_for rid = i"
    and "count (owned s) k \<le> 1"
    and "mget (co_entries s) k \<noteq> None \<Longrightarrow> k < co_next s"
    and "m \<in> set (co_shards s) \<Longrightarrow> k \<in> snd ` set m \<Longrightarrow>
        \<exists>e. mget (co_entries s) k = Some e \<and> \<not> ce_done e \<and> \<not> cn_closed (ce_ch e)"
    and "c \<in> set (co_closing s) \<Longrightarrow> \<exists>e. mget (co_entries s) (cl_entry c) = Some e \<and> phase_ok (cl_phase c) e"
    and "mget (co_entries s) k = Some e \<Longrightarrow> ce_senders e = sending_to s k"
    and "mget (co_entries s) k = Some e \<Longrightarrow> cn_closed (ce_ch e) \<Longrightarrow> ce_senders e = 0"
    and "sd \<in> set (co_sending s) \<Longrightarrow> mget (co_entries s) (sd_entry sd) \<noteq> None"
  using assms unfolding corr_ok_def by metis+

lemma corr_new_ok: "corr_ok corr_new"
  by (rule corr_okI) (auto simp: corr_new_def owned_def sending_to_def)

text \<open>Replacing one shard's map changes what the maps own by that map's entries.\<close>

lemma concat_update_mset:
  assumes "i < length xs"
  shows "mset (concat (map f (xs[i := y]))) + mset (f (xs ! i)) = mset (concat (map f xs)) + mset (f y)"
  using assms
proof (induction xs arbitrary: i)
  case Nil
  then show ?case by simp
next
  case (Cons x xs)
  show ?case
  proof (cases i)
    case 0
    then show ?thesis by simp
  next
    case (Suc j)
    with Cons have "mset (concat (map f (xs[j := y]))) + mset (f (xs ! j)) = mset (concat (map f xs)) + mset (f y)"
      by simp
    then show ?thesis using Suc by (simp add: add.assoc)
  qed
qed

lemma mput_new_snd: "k \<notin> fst ` set m \<Longrightarrow> map snd (mput k v m) = map snd m @ [v]"
  by (induction m) auto

lemma mdel_snd_mset:
  assumes "wf_map m" and "mget m k = Some v"
  shows "mset (map snd m) = add_mset v (mset (map snd (mdel k m)))"
  using assms
proof (induction m)
  case Nil
  then show ?case by simp
next
  case (Cons p m)
  obtain a b where p: "p = (a, b)" by (cases p)
  show ?case
  proof (cases "a = k")
    case True
    then have "mdel k m = m" using Cons.prems(1) p by (intro mdel_absent) auto
    then show ?thesis using Cons.prems True p by simp
  next
    case False
    then show ?thesis using Cons p by simp
  qed
qed

lemma owned_member:
  assumes "i < length (co_shards s)" and "mget (co_shards s ! i) rid = Some k"
  shows "co_shards s ! i \<in> set (co_shards s)" and "k \<in> snd ` set (co_shards s ! i)"
  using assms by (auto dest: mget_SomeD intro: image_eqI [where x = "(rid, k)"])

lemma owned_exists:
  assumes "corr_ok s" and "k \<in># owned s"
  shows "mget (co_entries s) k \<noteq> None"
proof -
  consider c where "c \<in> set (co_closing s)" "k = cl_entry c"
    | m where "m \<in> set (co_shards s)" "k \<in> snd ` set m"
    using assms(2) by (auto simp: owned_def)
  then show ?thesis
    using corr_okD(6,7) [OF assms(1)] by cases (metis option.distinct(1))+
qed

section \<open>Each step keeps it\<close>

lemma create_ok:
  assumes ok: "corr_ok s"
  shows "corr_ok (snd (create s rid))"
proof (cases "corr_lookup s rid")
  case (Some k)
  then show ?thesis using ok by (simp add: create_def)
next
  case None
  let ?i = "shard_for rid" and ?k = "co_next s"
  let ?e = "\<lparr>ce_ch = make_chan chan_buffer, ce_done = False, ce_senders = 0\<rparr>"
  let ?s = "s\<lparr>co_shards := (co_shards s)[?i := mput rid ?k (co_shards s ! ?i)],
    co_entries := mput ?k ?e (co_entries s), co_next := Suc ?k\<rparr>"
  have i: "?i < length (co_shards s)" using shard_for_less corr_okD(1) [OF ok] by simp
  have new: "rid \<notin> fst ` set (co_shards s ! ?i)" using None by (simp add: corr_lookup_def mget_None_iff)
  have fresh: "mget (co_entries s) ?k = None" using corr_okD(5) [OF ok, of ?k] by blast
  have "owned ?s + mset (map snd (co_shards s ! ?i)) =
      owned s + mset (map snd (mput rid ?k (co_shards s ! ?i)))"
    using concat_update_mset [OF i, of "map snd"] by (simp add: owned_def ac_simps)
  then have owned: "owned ?s = add_mset ?k (owned s)" unfolding mput_new_snd [OF new] by simp
  have "?k \<notin># owned s" using owned_exists [OF ok] fresh by blast
  then have one: "count (owned ?s) k \<le> 1" for k
    unfolding owned using corr_okD(4) [OF ok, of k] by (cases "k = ?k") (simp_all add: not_in_iff)
  have "sd_entry sd \<noteq> ?k" if "sd \<in> set (co_sending s)" for sd
    using corr_okD(10) [OF ok that] fresh by metis
  then have no_sender: "sending_to s ?k = 0" by (simp add: sending_to_def filter_empty_conv)
  have shards: "m = mput rid ?k (co_shards s ! ?i) \<or> m \<in> set (co_shards s)" if "m \<in> set (co_shards ?s)" for m
    using that set_update_subset_insert by fastforce
  have old_i: "co_shards s ! ?i \<in> set (co_shards s)" using i by simp
  have "corr_ok ?s"
  proof (rule corr_okI)
    fix m assume "m \<in> set (co_shards ?s)"
    then consider "m = mput rid ?k (co_shards s ! ?i)" | "m \<in> set (co_shards s)" using shards by blast
    then show "wf_map m"
    proof cases
      case 1
      then show ?thesis using wf_map_mput [OF corr_okD(2) [OF ok old_i]] by (simp only:)
    next
      case 2
      then show ?thesis by (rule corr_okD(2) [OF ok])
    qed
  next
    fix j r assume a: "j < shard_count" "r \<in> fst ` set (co_shards ?s ! j)"
    show "shard_for r = j"
    proof (cases "j = ?i \<and> r = rid")
      case False
      then have "r \<in> fst ` set (co_shards s ! j)"
        using a(2) i by (auto simp: nth_list_update split: if_splits)
      then show ?thesis by (rule corr_okD(3) [OF ok a(1)])
    qed simp
  next
    fix m k assume m: "m \<in> set (co_shards ?s)" "k \<in> snd ` set m"
    show "\<exists>e. mget (co_entries ?s) k = Some e \<and> \<not> ce_done e \<and> \<not> cn_closed (ce_ch e)"
    proof (cases "k = ?k")
      case True
      then show ?thesis by (simp add: gomap_simps)
    next
      case False
      have "snd ` set (mput rid ?k (co_shards s ! ?i)) = insert ?k (snd ` set (co_shards s ! ?i))"
        using arg_cong [OF mput_new_snd [OF new, of ?k], of set] by simp
      then obtain m' where "m' \<in> set (co_shards s)" "k \<in> snd ` set m'"
        using shards [OF m(1)] m(2) old_i False by auto
      then show ?thesis using corr_okD(6) [OF ok] False by (simp add: gomap_simps)
    qed
  next
    fix c assume "c \<in> set (co_closing ?s)"
    then obtain e where "mget (co_entries s) (cl_entry c) = Some e" "phase_ok (cl_phase c) e"
      using corr_okD(7) [OF ok] by auto
    then show "\<exists>e. mget (co_entries ?s) (cl_entry c) = Some e \<and> phase_ok (cl_phase c) e"
      using fresh by (auto simp: gomap_simps)
  next
    fix k e assume "mget (co_entries ?s) k = Some e"
    then show "ce_senders e = sending_to ?s k"
      using corr_okD(8) [OF ok] no_sender by (auto simp: gomap_simps sending_to_def split: if_splits)
  qed (use one corr_okD(1,5,9,10) [OF ok] in \<open>auto simp: gomap_simps less_Suc_eq split: if_splits\<close>)
  then show ?thesis using None by (simp add: create_def Let_def)
qed

lemma mapped_entry:
  assumes "corr_ok s" and "corr_lookup s rid = Some k"
  shows "\<exists>e. mget (co_entries s) k = Some e \<and> \<not> ce_done e \<and> \<not> cn_closed (ce_ch e)"
proof -
  have "shard_for rid < length (co_shards s)" using shard_for_less corr_okD(1) [OF assms(1)] by simp
  from owned_member [OF this, of rid k] assms(2) show ?thesis
    using corr_okD(6) [OF assms(1)] by (auto simp: corr_lookup_def)
qed

text \<open>Steps that change one entry and leave the maps and the closers alone.\<close>

lemma entry_step_ok:
  assumes ok: "corr_ok s" and e: "mget (co_entries s) k = Some e"
    and same: "ce_done e' = ce_done e" "cn_closed (ce_ch e') = cn_closed (ce_ch e)"
    and sends: "\<And>j. length (filter (\<lambda>sd. sd_entry sd = j) sds) = (if j = k then ce_senders e' else sending_to s j)"
    and closed: "cn_closed (ce_ch e) \<Longrightarrow> ce_senders e' = 0"
    and found: "\<And>sd. sd \<in> set sds \<Longrightarrow> mget (co_entries s) (sd_entry sd) \<noteq> None"
  shows "corr_ok (s\<lparr>co_entries := mput k e' (co_entries s), co_sending := sds, co_results := rs\<rparr>)"
proof -
  let ?s = "s\<lparr>co_entries := mput k e' (co_entries s), co_sending := sds, co_results := rs\<rparr>"
  have owned: "owned ?s = owned s" by (simp add: owned_def)
  show ?thesis
  proof (rule corr_okI)
    fix m j assume "m \<in> set (co_shards ?s)" "j \<in> snd ` set m"
    then obtain x where "mget (co_entries s) j = Some x" "\<not> ce_done x" "\<not> cn_closed (ce_ch x)"
      using corr_okD(6) [OF ok] by auto
    then show "\<exists>e. mget (co_entries ?s) j = Some e \<and> \<not> ce_done e \<and> \<not> cn_closed (ce_ch e)"
      using e same by (auto simp: gomap_simps)
  next
    fix c assume "c \<in> set (co_closing ?s)"
    then obtain x where "mget (co_entries s) (cl_entry c) = Some x" "phase_ok (cl_phase c) x"
      using corr_okD(7) [OF ok] by auto
    then show "\<exists>e. mget (co_entries ?s) (cl_entry c) = Some e \<and> phase_ok (cl_phase c) e"
      using e same by (auto simp: gomap_simps phase_ok_def)
  next
    fix j x assume "mget (co_entries ?s) j = Some x"
    then show "ce_senders x = sending_to ?s j"
      using corr_okD(8) [OF ok] sends by (auto simp: gomap_simps sending_to_def split: if_splits)
  next
    fix j x assume "mget (co_entries ?s) j = Some x" "cn_closed (ce_ch x)"
    then show "ce_senders x = 0"
      using corr_okD(9) [OF ok] closed same by (auto simp: gomap_simps split: if_splits)
  next
    fix sd assume "sd \<in> set (co_sending ?s)"
    then show "mget (co_entries ?s) (sd_entry sd) \<noteq> None" using found by (auto simp: gomap_simps)
  next
    fix j rid assume "j < shard_count" "rid \<in> fst ` set (co_shards ?s ! j)"
    then show "shard_for rid = j" using corr_okD(3) [OF ok] by simp
  next
    fix j assume "mget (co_entries ?s) j \<noteq> None"
    then show "j < co_next ?s" using corr_okD(5) [OF ok, of j] corr_okD(5) [OF ok, of k] e
      by (auto simp: gomap_simps split: if_splits)
  qed (use corr_okD(1,2,4) [OF ok] owned in auto)
qed

lemma mput_same: "mget m k = Some v \<Longrightarrow> mput k v m = m"
  by (induction m) (auto split: if_splits)

lemma drop_at_filter:
  "i < length xs \<Longrightarrow> length (filter P (drop_at i xs)) = length (filter P xs) - (if P (xs ! i) then 1 else 0)"
  by (subst (2) id_take_nth_drop [of i xs]) (simp_all add: drop_at_def)

lemma drop_at_set: "set (drop_at i xs) \<subseteq> set xs"
  using set_take_subset set_drop_subset unfolding drop_at_def by fastforce

lemma drop_at_mset: "i < length xs \<Longrightarrow> mset xs = add_mset (xs ! i) (mset (drop_at i xs))"
  by (subst id_take_nth_drop [of i xs]) (simp_all add: drop_at_def)

lemma send_start_ok:
  assumes ok: "corr_ok s"
  shows "corr_ok (send_start s m)"
proof (cases "corr_lookup s (ck_request_id m)")
  case None
  have "owned (s\<lparr>co_results := rs\<rparr>) = owned s" "sending_to (s\<lparr>co_results := rs\<rparr>) = sending_to s" for rs
    by (simp_all add: owned_def sending_to_def fun_eq_iff)
  then have "corr_ok (s\<lparr>co_results := rs\<rparr>)" for rs
    using ok unfolding corr_ok_def by simp metis
  then show ?thesis using None by (simp add: send_start_def)
next
  case (Some k)
  then obtain e where e: "mget (co_entries s) k = Some e" "\<not> cn_closed (ce_ch e)"
    using mapped_entry [OF ok] by blast
  have "corr_ok (s\<lparr>co_entries := mput k (e\<lparr>ce_senders := Suc (ce_senders e)\<rparr>) (co_entries s),
      co_sending := co_sending s @ [\<lparr>sd_entry = k, sd_msg = m, sd_parked = False\<rparr>], co_results := co_results s\<rparr>)"
    by (rule entry_step_ok [OF ok e(1)])
      (use e corr_okD(8) [OF ok e(1)] corr_okD(10) [OF ok] in \<open>auto simp: sending_to_def\<close>)
  then show ?thesis using Some e by (simp add: send_start_def)
qed

lemma sender_counted:
  assumes ok: "corr_ok s" and i: "i < length (co_sending s)"
    and e: "mget (co_entries s) (sd_entry (co_sending s ! i)) = Some e"
  shows "ce_senders e > 0" and "\<not> cn_closed (ce_ch e)"
proof -
  have "co_sending s ! i \<in> set (filter (\<lambda>sd. sd_entry sd = sd_entry (co_sending s ! i)) (co_sending s))"
    using i by simp
  then have "sending_to s (sd_entry (co_sending s ! i)) > 0"
    unfolding sending_to_def by (metis length_pos_if_in_set)
  then show "ce_senders e > 0" using corr_okD(8) [OF ok e] by simp
  then show "\<not> cn_closed (ce_ch e)" using corr_okD(9) [OF ok e] by auto
qed

lemma send_return_ok:
  assumes ok: "corr_ok s" and i: "i < length (co_sending s)"
    and e: "mget (co_entries s) (sd_entry (co_sending s ! i)) = Some e"
    and same: "ce_done e' = ce_done e" "cn_closed (ce_ch e') = cn_closed (ce_ch e)" "ce_senders e' = ce_senders e"
  shows "corr_ok (send_return s i e' res)"
proof -
  let ?sd = "co_sending s ! i"
  have "corr_ok (s\<lparr>co_entries := mput (sd_entry ?sd) (e'\<lparr>ce_senders := ce_senders e' - 1\<rparr>) (co_entries s),
      co_sending := drop_at i (co_sending s), co_results := co_results s @ [(sd_msg ?sd, res)]\<rparr>)"
  proof (rule entry_step_ok [OF ok e])
    fix j
    show "length (filter (\<lambda>sd. sd_entry sd = j) (drop_at i (co_sending s))) =
        (if j = sd_entry ?sd then ce_senders (e'\<lparr>ce_senders := ce_senders e' - 1\<rparr>) else sending_to s j)"
      using corr_okD(8) [OF ok e] by (auto simp: drop_at_filter [OF i] sending_to_def same)
  next
    fix sd assume "sd \<in> set (drop_at i (co_sending s))"
    then show "mget (co_entries s) (sd_entry sd) \<noteq> None"
      using corr_okD(10) [OF ok] drop_at_set by (metis subsetD)
  qed (use same sender_counted [OF ok i e] in auto)
  then show ?thesis by (simp add: send_return_def Let_def)
qed

lemma send_select_ok:
  assumes ok: "corr_ok s"
  shows "send_select s i choice \<noteq> Panic" and "send_select s i choice = Next s' \<Longrightarrow> corr_ok s'"
proof -
  have both: "send_select s i choice \<noteq> Panic \<and> (\<forall>s'. send_select s i choice = Next s' \<longrightarrow> corr_ok s')"
  proof (cases "i < length (co_sending s)")
    case False
    then show ?thesis by (simp add: send_select_def)
  next
    case i: True
    let ?sd = "co_sending s ! i"
    show ?thesis
    proof (cases "mget (co_entries s) (sd_entry ?sd)")
      case None
      then show ?thesis using i by (simp add: send_select_def Let_def)
    next
      case (Some e)
      note count = sender_counted [OF ok i Some]
      show ?thesis
      proof (cases choice)
        case Take_Send
        have "try_send (ce_ch e) (sd_msg ?sd) = Sent ch \<Longrightarrow> corr_ok (send_return s i (e\<lparr>ce_ch := ch\<rparr>) Send_OK)" for ch
          by (rule send_return_ok [OF ok i Some]) (auto simp: try_send_def split: if_splits)
        then show ?thesis using i Some Take_Send count
          by (auto simp: send_select_def Let_def try_send_def split: sent.splits if_splits)
      next
        case Take_Done
        then show ?thesis using i Some send_return_ok [OF ok i Some] by (simp add: send_select_def Let_def)
      next
        case Take_Default
        have "corr_ok (s\<lparr>co_entries := mput (sd_entry ?sd) e (co_entries s),
            co_sending := (co_sending s)[i := ?sd\<lparr>sd_parked := True\<rparr>], co_results := co_results s\<rparr>)"
        proof (rule entry_step_ok [OF ok Some])
          fix j
          have "map sd_entry ((co_sending s)[i := ?sd\<lparr>sd_parked := True\<rparr>]) = map sd_entry (co_sending s)"
            by (simp add: map_update list_update_same_conv i)
          then have "length (filter (\<lambda>k. k = j) (map sd_entry ((co_sending s)[i := ?sd\<lparr>sd_parked := True\<rparr>]))) =
              length (filter (\<lambda>k. k = j) (map sd_entry (co_sending s)))" by (simp only:)
          then show "length (filter (\<lambda>sd. sd_entry sd = j) ((co_sending s)[i := ?sd\<lparr>sd_parked := True\<rparr>])) =
              (if j = sd_entry ?sd then ce_senders e else sending_to s j)"
            using corr_okD(8) [OF ok Some] by (simp add: filter_map comp_def sending_to_def)
        next
          fix sd assume "sd \<in> set ((co_sending s)[i := ?sd\<lparr>sd_parked := True\<rparr>])"
          then have "sd = ?sd\<lparr>sd_parked := True\<rparr> \<or> sd \<in> set (co_sending s)"
            using set_update_subset_insert by fastforce
          then show "mget (co_entries s) (sd_entry sd) \<noteq> None"
            using Some corr_okD(10) [OF ok] by auto
        qed (use count in auto)
        then have "corr_ok (s\<lparr>co_sending := (co_sending s)[i := ?sd\<lparr>sd_parked := True\<rparr>]\<rparr>)"
          by (simp add: mput_same [OF Some])
        then show ?thesis using i Some Take_Default by (simp add: send_select_def Let_def)
      next
        case Take_Timer
        then show ?thesis using i Some send_return_ok [OF ok i Some] by (simp add: send_select_def Let_def)
      qed
    qed
  qed
  then show "send_select s i choice \<noteq> Panic" by blast
  show "send_select s i choice = Next s' \<Longrightarrow> corr_ok s'" using both by blast
qed

text \<open>Closers: each holds its entry alone.\<close>

lemma count_map_filter: "count (mset (map f xs)) k = length (filter (\<lambda>x. f x = k) xs)"
  by (induction xs) auto

lemma closer_alone:
  assumes ok: "corr_ok s" and i: "i < length (co_closing s)" and c: "co_closing s ! i = c"
  shows "j < length (co_closing s) \<Longrightarrow> cl_entry (co_closing s ! j) = cl_entry c \<Longrightarrow> j = i"
    and "m \<in> set (co_shards s) \<Longrightarrow> cl_entry c \<notin> snd ` set m"
proof -
  have one: "count (mset (map cl_entry (co_closing s))) (cl_entry c) +
      count (mset (concat (map (map snd) (co_shards s)))) (cl_entry c) \<le> 1"
    using corr_okD(4) [OF ok, of "cl_entry c"] by (simp add: owned_def)
  have here: "cl_entry c \<in> set (map cl_entry (co_closing s))" using i c nth_mem by force
  then have some: "count (mset (map cl_entry (co_closing s))) (cl_entry c) \<ge> 1"
    by (metis Suc_leI One_nat_def count_greater_zero_iff set_mset_mset)
  then have "count (mset (concat (map (map snd) (co_shards s)))) (cl_entry c) = 0" using one by linarith
  then have "cl_entry c \<notin> set (concat (map (map snd) (co_shards s)))" by (metis count_eq_zero_iff set_mset_mset)
  then show "m \<in> set (co_shards s) \<Longrightarrow> cl_entry c \<notin> snd ` set m" by auto
  assume j: "j < length (co_closing s)" "cl_entry (co_closing s ! j) = cl_entry c"
  show "j = i"
  proof (rule ccontr)
    assume "j \<noteq> i"
    have "count (mset (map cl_entry (co_closing s))) (cl_entry c) =
        card {n. n < length (co_closing s) \<and> cl_entry (co_closing s ! n) = cl_entry c}"
      unfolding count_map_filter by (rule length_filter_conv_card)
    moreover have "card {i, j} \<le> card {n. n < length (co_closing s) \<and> cl_entry (co_closing s ! n) = cl_entry c}"
      using i c j by (intro card_mono) auto
    ultimately show False using one \<open>j \<noteq> i\<close> by simp
  qed
qed

lemma closer_step_ok:
  assumes ok: "corr_ok s" and i: "i < length (co_closing s)" and c: "co_closing s ! i = c"
    and e: "mget (co_entries s) (cl_entry c) = Some e" and same: "ce_senders e' = ce_senders e"
    and cs: "cs = drop_at i (co_closing s) \<or>
      (\<exists>c'. cs = (co_closing s)[i := c'] \<and> cl_entry c' = cl_entry c \<and> phase_ok (cl_phase c') e')"
    and closed: "cn_closed (ce_ch e') \<Longrightarrow> ce_senders e = 0"
  shows "corr_ok (s\<lparr>co_entries := mput (cl_entry c) e' (co_entries s), co_closing := cs\<rparr>)"
proof -
  let ?s = "s\<lparr>co_entries := mput (cl_entry c) e' (co_entries s), co_closing := cs\<rparr>"
  note alone = closer_alone [OF ok i c]
  have members: "d \<in> set cs \<Longrightarrow> (\<exists>j < length (co_closing s). j \<noteq> i \<and> d = co_closing s ! j) \<or>
      (cl_entry d = cl_entry c \<and> phase_ok (cl_phase d) e')" for d
  proof -
    assume d: "d \<in> set cs"
    from cs show ?thesis
    proof
      assume "cs = drop_at i (co_closing s)"
      then consider n where "n < i" "d = co_closing s ! n"
        | n where "n + Suc i < length (co_closing s)" "d = co_closing s ! Suc (i + n)"
        using d i by (auto simp: drop_at_def in_set_conv_nth less_diff_conv)
      then have "\<exists>j < length (co_closing s). j \<noteq> i \<and> d = co_closing s ! j"
      proof cases
        case 1
        then show ?thesis using i by (intro exI [of _ n]) auto
      next
        case 2
        then show ?thesis by (intro exI [of _ "Suc (i + n)"]) auto
      qed
      then show ?thesis by blast
    next
      assume "\<exists>c'. cs = (co_closing s)[i := c'] \<and> cl_entry c' = cl_entry c \<and> phase_ok (cl_phase c') e'"
      then obtain c' where c': "cs = (co_closing s)[i := c']" "cl_entry c' = cl_entry c" "phase_ok (cl_phase c') e'" by blast
      then obtain j where j: "j < length (co_closing s)" "d = (co_closing s)[i := c'] ! j"
        using d by (auto simp: in_set_conv_nth)
      then show ?thesis using c'(2,3) by (cases "j = i") auto
    qed
  qed
  have sub: "mset (map cl_entry cs) \<subseteq># mset (map cl_entry (co_closing s))"
    using cs
  proof
    assume "cs = drop_at i (co_closing s)"
    then show ?thesis using drop_at_mset [OF i] by simp
  next
    assume "\<exists>c'. cs = (co_closing s)[i := c'] \<and> cl_entry c' = cl_entry c \<and> phase_ok (cl_phase c') e'"
    then have "map cl_entry cs = map cl_entry (co_closing s)"
      using i c by (auto simp: map_update list_update_same_conv)
    then show ?thesis by simp
  qed
  show ?thesis
  proof (rule corr_okI)
    fix k
    have "count (mset (map cl_entry cs)) k \<le> count (mset (map cl_entry (co_closing s))) k"
      using sub by (rule mset_subset_eq_count)
    then show "count (owned ?s) k \<le> 1" using corr_okD(4) [OF ok, of k] by (simp add: owned_def)
  next
    fix m k assume a: "m \<in> set (co_shards ?s)" "k \<in> snd ` set m"
    then have "m \<in> set (co_shards s)" by simp
    then have "k \<noteq> cl_entry c" using alone(2) [of m] a(2) by blast
    then show "\<exists>e. mget (co_entries ?s) k = Some e \<and> \<not> ce_done e \<and> \<not> cn_closed (ce_ch e)"
      using corr_okD(6) [OF ok, of m k] a by (simp add: gomap_simps)
  next
    fix d assume "d \<in> set (co_closing ?s)"
    then consider j where "j < length (co_closing s)" "j \<noteq> i" "d = co_closing s ! j"
      | "cl_entry d = cl_entry c" "phase_ok (cl_phase d) e'" using members [of d] by auto
    then show "\<exists>e. mget (co_entries ?s) (cl_entry d) = Some e \<and> phase_ok (cl_phase d) e"
    proof cases
      case 1
      then have "cl_entry d \<noteq> cl_entry c" using alone(1) [of j] by auto
      then show ?thesis using corr_okD(7) [OF ok, of d] 1 by (simp add: gomap_simps)
    next
      case 2
      then show ?thesis by (simp add: gomap_simps)
    qed
  next
    fix k x assume "mget (co_entries ?s) k = Some x"
    then show "ce_senders x = sending_to ?s k"
      using corr_okD(8) [OF ok] e same by (auto simp: gomap_simps sending_to_def split: if_splits)
  next
    fix k x assume "mget (co_entries ?s) k = Some x" "cn_closed (ce_ch x)"
    then show "ce_senders x = 0"
      using corr_okD(9) [OF ok] closed same by (auto simp: gomap_simps split: if_splits)
  next
    fix sd assume "sd \<in> set (co_sending ?s)"
    then show "mget (co_entries ?s) (sd_entry sd) \<noteq> None"
      using corr_okD(10) [OF ok, of sd] by (auto simp: gomap_simps)
  next
    fix j rid assume "j < shard_count" "rid \<in> fst ` set (co_shards ?s ! j)"
    then show "shard_for rid = j" using corr_okD(3) [OF ok] by simp
  next
    fix j assume "mget (co_entries ?s) j \<noteq> None"
    then show "j < co_next ?s" using corr_okD(5) [OF ok, of j] corr_okD(5) [OF ok, of "cl_entry c"] e
      by (auto simp: gomap_simps split: if_splits)
  qed (use corr_okD(1,2) [OF ok] in auto)
qed

lemma close_step_ok:
  assumes ok: "corr_ok s"
  shows "close_step s i \<noteq> Panic \<and> (\<forall>s'. close_step s i = Next s' \<longrightarrow> corr_ok s')"
proof (cases "i < length (co_closing s)")
  case False
  then show ?thesis by (simp add: close_step_def)
next
  case i: True
  let ?c = "co_closing s ! i"
  obtain e where e: "mget (co_entries s) (cl_entry ?c) = Some e" "phase_ok (cl_phase ?c) e"
    using corr_okD(7) [OF ok, of ?c] i nth_mem by blast
  note step = closer_step_ok [OF ok i refl e(1)]
  show ?thesis
  proof (cases "cl_phase ?c")
    case Offer_Final
    have next_phase: "corr_ok (s\<lparr>co_entries := mput (cl_entry ?c) (e\<lparr>ce_ch := ch\<rparr>) (co_entries s),
        co_closing := (co_closing s)[i := ?c\<lparr>cl_phase := Close_Done\<rparr>]\<rparr>)" if "\<not> cn_closed ch" for ch
      by (rule step) (use e(2) Offer_Final that in \<open>auto simp: phase_ok_def intro!: exI [of _ "?c\<lparr>cl_phase := Close_Done\<rparr>"]\<close>)
    have full: "corr_ok (s\<lparr>co_closing := (co_closing s)[i := ?c\<lparr>cl_phase := Close_Done\<rparr>]\<rparr>)"
      using next_phase [of "ce_ch e"] e mput_same [OF e(1)] by (simp add: phase_ok_def)
    show ?thesis using i e Offer_Final full next_phase
      by (auto simp: close_step_def Let_def try_send_def phase_ok_def split: if_splits)
  next
    case Close_Done
    have "corr_ok (s\<lparr>co_entries := mput (cl_entry ?c) (e\<lparr>ce_done := True\<rparr>) (co_entries s),
        co_closing := (co_closing s)[i := ?c\<lparr>cl_phase := Await_Senders\<rparr>]\<rparr>)"
      by (rule step) (use e(2) Close_Done in \<open>auto simp: phase_ok_def intro!: exI [of _ "?c\<lparr>cl_phase := Await_Senders\<rparr>"]\<close>)
    then show ?thesis using i e Close_Done by (simp add: close_step_def Let_def phase_ok_def)
  next
    case Await_Senders
    have "corr_ok (s\<lparr>co_entries := mput (cl_entry ?c) (e\<lparr>ce_ch := ch\<rparr>) (co_entries s),
        co_closing := drop_at i (co_closing s)\<rparr>)" if "ce_senders e = 0" for ch
      by (rule step) (use that in auto)
    then show ?thesis using i e Await_Senders by (auto simp: close_step_def Let_def phase_ok_def close_chan_def)
  qed
qed

text \<open>Taking entries out of a map hands them to closers.\<close>

lemma hand_over_ok:
  assumes ok: "corr_ok s" and i: "i < shard_count" and wf: "wf_map m'"
    and sub: "set m' \<subseteq> set (co_shards s ! i)"
    and moved: "mset (map cl_entry new) + mset (map snd m') = mset (map snd (co_shards s ! i))"
    and phases: "\<And>c. c \<in> set new \<Longrightarrow> cl_phase c \<noteq> Await_Senders"
  shows "corr_ok (s\<lparr>co_shards := (co_shards s)[i := m'], co_closing := co_closing s @ new\<rparr>)"
proof -
  let ?s = "s\<lparr>co_shards := (co_shards s)[i := m'], co_closing := co_closing s @ new\<rparr>"
  have i': "i < length (co_shards s)" using i corr_okD(1) [OF ok] by simp
  have "owned ?s + mset (map snd (co_shards s ! i)) = owned s + mset (map snd (co_shards s ! i))"
    using concat_update_mset [OF i', of "map snd" m'] moved by (simp add: owned_def ac_simps)
  then have owned: "owned ?s = owned s" by simp
  have shards: "m = m' \<or> m \<in> set (co_shards s)" if "m \<in> set (co_shards ?s)" for m
    using that set_update_subset_insert by fastforce
  have old_i: "co_shards s ! i \<in> set (co_shards s)" using i' by simp
  have mapped: "\<exists>e. mget (co_entries s) k = Some e \<and> \<not> ce_done e \<and> \<not> cn_closed (ce_ch e)"
    if "k \<in> snd ` set (co_shards s ! i)" for k by (rule corr_okD(6) [OF ok old_i that])
  have new: "cl_entry c \<in> snd ` set (co_shards s ! i)" if "c \<in> set new" for c
  proof -
    have "cl_entry c \<in># mset (map snd (co_shards s ! i))"
      unfolding moved [symmetric] using that by simp
    then show ?thesis by simp
  qed
  show ?thesis
  proof (rule corr_okI)
    fix m assume "m \<in> set (co_shards ?s)"
    then show "wf_map m" using shards wf corr_okD(2) [OF ok] by blast
  next
    fix j r assume a: "j < shard_count" "r \<in> fst ` set (co_shards ?s ! j)"
    then have "r \<in> fst ` set (co_shards s ! j)"
      using sub i' by (cases "j = i") (auto simp: nth_list_update)
    then show "shard_for r = j" by (rule corr_okD(3) [OF ok a(1)])
  next
    fix m k assume a: "m \<in> set (co_shards ?s)" "k \<in> snd ` set m"
    then obtain m0 where "m0 \<in> set (co_shards s)" "k \<in> snd ` set m0"
      using shards [OF a(1)] sub old_i by blast
    then show "\<exists>e. mget (co_entries ?s) k = Some e \<and> \<not> ce_done e \<and> \<not> cn_closed (ce_ch e)"
      using corr_okD(6) [OF ok] by simp
  next
    fix c assume "c \<in> set (co_closing ?s)"
    then consider "c \<in> set (co_closing s)" | "c \<in> set new" by auto
    then show "\<exists>e. mget (co_entries ?s) (cl_entry c) = Some e \<and> phase_ok (cl_phase c) e"
    proof cases
      case 1
      then show ?thesis using corr_okD(7) [OF ok] by simp
    next
      case 2
      then show ?thesis using mapped [OF new [OF 2]] phases [OF 2] by (auto simp: phase_ok_def)
    qed
  next
    fix k e assume "mget (co_entries ?s) k = Some e"
    then show "ce_senders e = sending_to ?s k" using corr_okD(8) [OF ok] by (simp add: sending_to_def)
  qed (use corr_okD(1,4,5,9,10) [OF ok] owned in \<open>auto split: if_splits\<close>)
qed

lemma delete_start_ok:
  assumes ok: "corr_ok s"
  shows "corr_ok (delete_start s rid)"
proof -
  let ?i = "shard_for rid"
  have i: "?i < length (co_shards s)" using shard_for_less corr_okD(1) [OF ok] by simp
  have wf: "wf_map (co_shards s ! ?i)" using corr_okD(2) [OF ok] i by simp
  show ?thesis
  proof (cases "corr_lookup s rid")
    case None
    then have "mdel rid (co_shards s ! ?i) = co_shards s ! ?i"
      by (intro mdel_absent) (simp add: corr_lookup_def mget_None_iff)
    then show ?thesis using None ok by (simp add: delete_start_def Let_def)
  next
    case (Some k)
    let ?new = "[\<lparr>cl_entry = k, cl_id = rid, cl_phase = Close_Done\<rparr>]"
    have "corr_ok (s\<lparr>co_shards := (co_shards s)[?i := mdel rid (co_shards s ! ?i)],
        co_closing := co_closing s @ ?new\<rparr>)"
      by (rule hand_over_ok [OF ok shard_for_less wf_map_mdel [OF wf]])
        (use mdel_snd_mset [OF wf, of rid k] Some in \<open>auto simp: corr_lookup_def set_mdel\<close>)
    then show ?thesis using Some by (simp add: delete_start_def Let_def)
  qed
qed

lemma drain_shard_ok:
  assumes ok: "corr_ok s" and i: "i < shard_count"
  shows "corr_ok (drain_shard s i)"
  unfolding drain_shard_def
  by (rule hand_over_ok [OF ok i]) (auto simp: comp_def case_prod_beta)

lemma handler_recv_ok:
  assumes ok: "corr_ok s"
  shows "corr_ok (snd (handler_recv s k))"
proof (cases "mget (co_entries s) k")
  case None
  then show ?thesis using ok by (simp add: handler_recv_def)
next
  case (Some e)
  obtain res ch where r: "recv_chan (ce_ch e) = (res, ch)" by (cases "recv_chan (ce_ch e)")
  have closed: "cn_closed ch = cn_closed (ce_ch e)" using r by (auto simp: recv_chan_def split: list.splits)
  have "corr_ok (s\<lparr>co_entries := mput k (e\<lparr>ce_ch := ch\<rparr>) (co_entries s), co_sending := co_sending s,
      co_results := co_results s\<rparr>)"
    by (rule entry_step_ok [OF ok Some])
      (auto simp: closed corr_okD(8) [OF ok Some] sending_to_def
        dest: corr_okD(9) [OF ok Some] corr_okD(10) [OF ok])
  then show ?thesis using Some r by (simp add: handler_recv_def)
qed

lemma corr_step_ok:
  assumes "corr_ok s"
  shows "corr_step s a \<noteq> Panic" and "corr_step s a = Next s' \<Longrightarrow> corr_ok s'"
proof -
  have "corr_step s a \<noteq> Panic \<and> (\<forall>s'. corr_step s a = Next s' \<longrightarrow> corr_ok s')"
    using create_ok [OF assms] send_start_ok [OF assms] send_select_ok [OF assms] delete_start_ok [OF assms]
      drain_shard_ok [OF assms] close_step_ok [OF assms] handler_recv_ok [OF assms]
    by (cases a) auto
  then show "corr_step s a \<noteq> Panic" and "corr_step s a = Next s' \<Longrightarrow> corr_ok s'" by blast+
qed

lemma corr_reach_ok: "corr_reach s \<Longrightarrow> corr_ok s"
  by (induction rule: corr_reach.induct) (use corr_new_ok corr_step_ok in blast)+

section \<open>Properties\<close>

text \<open>
  C39. No interleaving of senders with deleters panics: whatever \<open>Create\<close>, \<open>Send\<close>, \<open>Delete\<close>,
  \<open>DrainAll\<close> and readers do, and at whichever point each is stopped, no chunk is sent on a closed
  channel, no channel is closed twice, and an id is only ever listed by its own shard.
\<close>

theorem senders_never_meet_a_closed_channel:
  assumes "corr_reach s"
  shows "corr_step s a \<noteq> Panic \<and>
    (i < shard_count \<and> rid \<in> fst ` set (co_shards s ! i) \<longrightarrow> i = shard_for rid)"
  using corr_step_ok(1) [OF corr_reach_ok [OF assms]] corr_okD(3) [OF corr_reach_ok [OF assms]] by blast

text \<open>
  Deleting an entry cannot hang: a closer that waits for the senders can either close the
  channel now, or some sender of that entry can return now, the parked ones included.
\<close>

theorem closing_is_never_stuck:
  assumes "corr_reach s" and "i < length (co_closing s)" and "cl_phase (co_closing s ! i) = Await_Senders"
  shows "(\<exists>s'. close_step s i = Next s') \<or>
    (\<exists>j s'. j < length (co_sending s) \<and> sd_entry (co_sending s ! j) = cl_entry (co_closing s ! i) \<and>
       send_select s j Take_Done = Next s' \<and> length (co_sending s') < length (co_sending s))"
proof -
  note ok = corr_reach_ok [OF assms(1)]
  let ?c = "co_closing s ! i"
  obtain e where e: "mget (co_entries s) (cl_entry ?c) = Some e" "phase_ok (cl_phase ?c) e"
    using corr_okD(7) [OF ok, of ?c] assms(2) nth_mem by blast
  show ?thesis
  proof (cases "ce_senders e = 0")
    case True
    then show ?thesis using assms(2,3) e
      by (auto simp: close_step_def Let_def phase_ok_def close_chan_def)
  next
    case False
    then have "filter (\<lambda>sd. sd_entry sd = cl_entry ?c) (co_sending s) \<noteq> []"
      using corr_okD(8) [OF ok e(1)] by (auto simp: sending_to_def)
    then obtain sd where "sd \<in> set (co_sending s)" "sd_entry sd = cl_entry ?c"
      by (auto simp: filter_empty_conv)
    then obtain j where j: "j < length (co_sending s)" "sd_entry (co_sending s ! j) = cl_entry ?c"
      by (auto simp: in_set_conv_nth)
    have "send_select s j Take_Done = Next (send_return s j e Send_Not_Found)"
      using j e assms(3) by (simp add: send_select_def Let_def phase_ok_def)
    moreover have "length (co_sending (send_return s j e Send_Not_Found)) < length (co_sending s)"
      using j(1) by (simp add: send_return_def Let_def drop_at_def)
    ultimately show ?thesis using j by blast
  qed
qed

end
