(* ===== verification/Json_Values.thy ===== *)
theory Json_Values
  imports Wire_Types
begin

text \<open>
  JSON as the router's code meets it. What \<open>encoding/json\<close> does is an argument, \<open>json_lib\<close>: how it
  reads one layer of a raw value, which member key it takes for which field, and the text it writes.
  On top of it are the readings a Go struct field gives by its type, and the values the router
  builds to be encoded.
\<close>

section \<open>Reading\<close>

text \<open>One layer of a value: the members and elements are raw, as \<open>json.RawMessage\<close> keeps them.\<close>

datatype json_view =
    V_Null
  | V_Bool bool
  | V_Int int
  | V_Number rat
  | V_String string
  | V_Array "raw_json list"
  | V_Object "(string \<times> raw_json) list"

text \<open>The values the router encodes. The members of a Go map have no order of their own.\<close>

datatype json =
    J_Null
  | J_Int int
  | J_String string
  | J_Raw raw_json
  | J_Array "json list"
  | J_Object "(string \<times> json) list"

record json_lib =
  jl_view :: "raw_json \<Rightarrow> json_view option"
  jl_same_key :: "string \<Rightarrow> string \<Rightarrow> bool"
  jl_text :: "json \<Rightarrow> string option"

text \<open>The member a field is read from: the last one whose key names the field.\<close>

definition member_of :: "json_lib \<Rightarrow> string \<Rightarrow> (string \<times> raw_json) list \<Rightarrow> raw_json option" where
  "member_of L name ms = map_option snd (find (\<lambda>(k, v). jl_same_key L k name) (rev ms))"

text \<open>Readings by type; \<open>None\<close> is an error. A missing member or \<open>null\<close> leaves the zero value.\<close>

definition as_text :: "json_lib \<Rightarrow> raw_json \<Rightarrow> string option" where
  "as_text L raw = (case jl_view L raw of Some V_Null \<Rightarrow> Some [] | Some (V_String s) \<Rightarrow> Some s | _ \<Rightarrow> None)"

definition as_int :: "json_lib \<Rightarrow> raw_json \<Rightarrow> int option" where
  "as_int L raw = (case jl_view L raw of Some V_Null \<Rightarrow> Some 0 | Some (V_Int n) \<Rightarrow> Some n | _ \<Rightarrow> None)"

definition as_flag :: "json_lib \<Rightarrow> raw_json \<Rightarrow> bool option" where
  "as_flag L raw = (case jl_view L raw of Some V_Null \<Rightarrow> Some False | Some (V_Bool b) \<Rightarrow> Some b | _ \<Rightarrow> None)"

definition as_float :: "json_lib \<Rightarrow> raw_json \<Rightarrow> rat option option" where
  "as_float L raw =
     (case jl_view L raw of
        Some V_Null \<Rightarrow> Some None
      | Some (V_Int n) \<Rightarrow> Some (Some (of_int n))
      | Some (V_Number q) \<Rightarrow> Some (Some q)
      | _ \<Rightarrow> None)"

fun all_some :: "'a option list \<Rightarrow> 'a list option" where
  "all_some [] = Some []"
| "all_some (None # xs) = None"
| "all_some (Some x # xs) = map_option ((#) x) (all_some xs)"

definition as_texts :: "json_lib \<Rightarrow> raw_json \<Rightarrow> string list option" where
  "as_texts L raw =
     (case jl_view L raw of
        Some V_Null \<Rightarrow> Some []
      | Some (V_Array xs) \<Rightarrow> all_some (map (as_text L) xs)
      | _ \<Rightarrow> None)"

text \<open>A struct is read from an object, \<open>null\<close> leaving it zero.\<close>

definition as_members :: "json_lib \<Rightarrow> raw_json \<Rightarrow> (string \<times> raw_json) list option" where
  "as_members L raw =
     (case jl_view L raw of Some V_Null \<Rightarrow> Some [] | Some (V_Object ms) \<Rightarrow> Some ms | _ \<Rightarrow> None)"

definition field_of :: "json_lib \<Rightarrow> (raw_json \<Rightarrow> 'a option) \<Rightarrow> 'a \<Rightarrow> string \<Rightarrow> (string \<times> raw_json) list \<Rightarrow> 'a option" where
  "field_of L reading zero name ms =
     (case member_of L name ms of None \<Rightarrow> Some zero | Some raw \<Rightarrow> reading raw)"

definition text_field :: "json_lib \<Rightarrow> string \<Rightarrow> (string \<times> raw_json) list \<Rightarrow> string option" where
  "text_field L = field_of L (as_text L) []"

definition raw_field :: "json_lib \<Rightarrow> string \<Rightarrow> (string \<times> raw_json) list \<Rightarrow> raw_json" where
  "raw_field L name ms = (case member_of L name ms of None \<Rightarrow> [] | Some raw \<Rightarrow> raw)"

definition as_structs :: "json_lib \<Rightarrow> ((string \<times> raw_json) list \<Rightarrow> 'a option) \<Rightarrow> raw_json \<Rightarrow> 'a list option" where
  "as_structs L reading raw =
     (case jl_view L raw of
        Some V_Null \<Rightarrow> Some []
      | Some (V_Array xs) \<Rightarrow>
          all_some (map (\<lambda>x. case as_members L x of None \<Rightarrow> None | Some ms \<Rightarrow> reading ms) xs)
      | _ \<Rightarrow> None)"

lemma all_some_iff: "all_some xs = Some ys \<longleftrightarrow> xs = map Some ys"
proof (induction xs arbitrary: ys)
  case Nil
  then show ?case by auto
next
  case (Cons x xs)
  then show ?case by (cases x; cases ys) auto
qed

lemma all_some_map_Some [simp]: "all_some (map Some xs) = Some xs"
  by (simp add: all_some_iff)

end
