(* ===== verification/Translate.thy ===== *)
theory Translate
  imports Json_Values
begin

text \<open>
  \<open>router/internal/translate/translate.go\<close>: the three API dialects. Inbound, a body becomes a
  request; outbound, chunks become the events of a stream and an answer becomes a document. An
  event of a stream is kept as the value it carries; \<open>event_text\<close> is its text.
\<close>

section \<open>Inbound\<close>

definition zero_request :: inference_request where
  "zero_request = \<lparr>rq_id = [], rq_model = [], rq_messages = [], rq_max_tokens = 0,
     rq_temperature = None, rq_top_p = None, rq_stop = [], rq_stream = False, rq_tools = [],
     rq_tool_choice = [], rq_source_fmt = [], rq_priority = 0, rq_owner = [], rq_api_key_label = [],
     rq_word_count = 0, rq_modalities = [], rq_enqueued_at = zero_time, rq_attempts = 0,
     rq_requested_model = [], rq_allowed_models = None\<rparr>"

definition plain_message :: "string \<Rightarrow> raw_json \<Rightarrow> message" where
  "plain_message role content =
     \<lparr>ms_role = role, ms_content = content, ms_tool_calls = [], ms_tool_call_id = [], ms_name = []\<rparr>"

text \<open>\<open>parseStop\<close>: one string or an array of strings.\<close>

definition parse_stop :: "json_lib \<Rightarrow> raw_json \<Rightarrow> string list" where
  "parse_stop L raw =
     (if raw = [] \<or> raw = ''null'' then []
      else (case as_text L raw of
              Some one \<Rightarrow> if one = [] then [] else [one]
            | None \<Rightarrow> (case as_texts L raw of Some many \<Rightarrow> many | None \<Rightarrow> [])))"

definition openai_message :: "json_lib \<Rightarrow> (string \<times> raw_json) list \<Rightarrow> message option" where
  "openai_message L ms =
     (case (text_field L ''role'' ms, text_field L ''tool_call_id'' ms, text_field L ''name'' ms) of
        (Some role, Some call_id, Some name) \<Rightarrow>
          Some \<lparr>ms_role = role, ms_content = raw_field L ''content'' ms,
                ms_tool_calls = raw_field L ''tool_calls'' ms, ms_tool_call_id = call_id, ms_name = name\<rparr>
      | _ \<Rightarrow> None)"

text \<open>Every field is read, and any field of the wrong type is an error.\<close>

definition openai_inbound :: "json_lib \<Rightarrow> string \<Rightarrow> inference_request option" where
  "openai_inbound L body =
     (case as_members L body of
        None \<Rightarrow> None
      | Some ms \<Rightarrow>
          (case (text_field L ''model'' ms, field_of L (as_structs L (openai_message L)) [] ''messages'' ms,
                 field_of L (as_int L) 0 ''max_tokens'' ms, field_of L (as_float L) None ''temperature'' ms,
                 field_of L (as_float L) None ''top_p'' ms, field_of L (as_flag L) False ''stream'' ms) of
             (Some model, Some messages, Some max_tokens, Some temp, Some top_p, Some stream) \<Rightarrow>
               Some (zero_request\<lparr>rq_model := model, rq_messages := messages, rq_max_tokens := max_tokens,
                 rq_temperature := temp, rq_top_p := top_p, rq_stop := parse_stop L (raw_field L ''stop'' ms),
                 rq_stream := stream, rq_source_fmt := ''openai'', rq_tools := raw_field L ''tools'' ms,
                 rq_tool_choice := raw_field L ''tool_choice'' ms\<rparr>)
           | _ \<Rightarrow> None))"

definition role_message :: "json_lib \<Rightarrow> (string \<times> raw_json) list \<Rightarrow> message option" where
  "role_message L ms =
     map_option (\<lambda>role. plain_message role (raw_field L ''content'' ms)) (text_field L ''role'' ms)"

definition anthropic_inbound :: "json_lib \<Rightarrow> string \<Rightarrow> inference_request option" where
  "anthropic_inbound L body =
     (case as_members L body of
        None \<Rightarrow> None
      | Some ms \<Rightarrow>
          (case (text_field L ''model'' ms, field_of L (as_structs L (role_message L)) [] ''messages'' ms,
                 field_of L (as_int L) 0 ''max_tokens'' ms, field_of L (as_float L) None ''temperature'' ms,
                 field_of L (as_float L) None ''top_p'' ms, field_of L (as_texts L) [] ''stop_sequences'' ms,
                 field_of L (as_flag L) False ''stream'' ms) of
             (Some model, Some messages, Some max_tokens, Some temp, Some top_p, Some stop, Some stream) \<Rightarrow>
               (let system = raw_field L ''system'' ms
                in Some (zero_request\<lparr>rq_model := model,
                     rq_messages := (if system \<noteq> [] \<and> system \<noteq> ''null''
                                     then [plain_message ''system'' system] else []) @ messages,
                     rq_max_tokens := max_tokens, rq_temperature := temp, rq_top_p := top_p,
                     rq_stop := stop, rq_stream := stream, rq_source_fmt := ''anthropic'',
                     rq_tools := raw_field L ''tools'' ms,
                     rq_tool_choice := raw_field L ''tool_choice'' ms\<rparr>))
           | _ \<Rightarrow> None))"

definition responses_inbound :: "json_lib \<Rightarrow> string \<Rightarrow> inference_request option" where
  "responses_inbound L body =
     (case as_members L body of
        None \<Rightarrow> None
      | Some ms \<Rightarrow>
          (case (text_field L ''model'' ms, field_of L (as_int L) 0 ''max_output_tokens'' ms,
                 field_of L (as_flag L) False ''stream'' ms) of
             (Some model, Some max_tokens, Some stream) \<Rightarrow>
               (let input = raw_field L ''input'' ms;
                    req = zero_request\<lparr>rq_model := model, rq_max_tokens := max_tokens, rq_stream := stream,
                            rq_source_fmt := ''openai-responses''\<rparr>
                in case as_text L input of
                     Some _ \<Rightarrow> Some (req\<lparr>rq_messages := [plain_message ''user'' input]\<rparr>)
                   | None \<Rightarrow>
                       map_option (\<lambda>msgs. req\<lparr>rq_messages := msgs\<rparr>) (as_structs L (role_message L) input))
           | _ \<Rightarrow> None))"

section \<open>Usage\<close>

definition openai_usage :: "usage_info \<Rightarrow> json" where
  "openai_usage u = J_Object
     ([(''prompt_tokens'', J_Int (us_prompt_tokens u)), (''completion_tokens'', J_Int (us_completion_tokens u)),
       (''total_tokens'', J_Int (us_total_tokens u))] @
      (if us_cache_read_tokens u > 0
       then [(''prompt_tokens_details'', J_Object [(''cached_tokens'', J_Int (us_cache_read_tokens u))])] else []))"

definition cache_counts :: "usage_info \<Rightarrow> (string \<times> json) list" where
  "cache_counts u =
     (if us_cache_read_tokens u > 0 then [(''cache_read_input_tokens'', J_Int (us_cache_read_tokens u))] else []) @
     (if us_cache_creation_tokens u > 0
      then [(''cache_creation_input_tokens'', J_Int (us_cache_creation_tokens u))] else [])"

definition anthropic_usage :: "usage_info \<Rightarrow> json" where
  "anthropic_usage u = J_Object
     ([(''input_tokens'', J_Int (us_prompt_tokens u)), (''output_tokens'', J_Int (us_completion_tokens u))] @
      cache_counts u)"

section \<open>Outbound streams\<close>

datatype sse_event =
    Data_Event json
  | Done_Event
  | Named_Event string json

definition event_text :: "json_lib \<Rightarrow> sse_event \<Rightarrow> string option" where
  "event_text L ev =
     (case ev of
        Data_Event j \<Rightarrow> map_option (\<lambda>t. ''data: '' @ t) (jl_text L j)
      | Done_Event \<Rightarrow> Some ''data: [DONE]''
      | Named_Event name j \<Rightarrow> map_option (\<lambda>t. ''event: '' @ name @ [CHR 0x0A] @ ''data: '' @ t) (jl_text L j))"

text \<open>Fields marked \<open>omitempty\<close> are left out when empty.\<close>

definition omit_empty :: "string \<Rightarrow> string \<Rightarrow> (string \<times> json) list" where
  "omit_empty name s = (if s = [] then [] else [(name, J_String s)])"

definition openai_delta :: "chunk_msg \<Rightarrow> json" where
  "openai_delta c = J_Object
     (omit_empty ''content'' (ck_delta c) @ omit_empty ''reasoning_content'' (ck_reasoning_delta c) @
      (if ck_tool_calls_delta c = [] then [] else [(''tool_calls'', J_Raw (ck_tool_calls_delta c))]))"

definition openai_sse_chunk :: "int \<Rightarrow> string \<Rightarrow> string \<Rightarrow> chunk_msg \<Rightarrow> sse_event" where
  "openai_sse_chunk now rid model c = Data_Event (J_Object
     ([(''id'', J_String rid), (''object'', J_String ''chat.completion.chunk''), (''created'', J_Int now),
       (''model'', J_String model),
       (''choices'', J_Array [J_Object
          [(''index'', J_Int 0), (''delta'', openai_delta c),
           (''finish_reason'', if ck_done c \<and> ck_finish_reason c \<noteq> [] then J_String (ck_finish_reason c) else J_Null)]])] @
      (case ck_usage c of None \<Rightarrow> [] | Some u \<Rightarrow> [(''usage'', openai_usage u)])))"

definition openai_sse_error :: "string \<Rightarrow> sse_event" where
  "openai_sse_error msg = Data_Event (J_Object
     [(''error'', J_Object [(''message'', J_String msg), (''type'', J_String ''server_error'')])])"

definition anthropic_stop_reason :: "string \<Rightarrow> string" where
  "anthropic_stop_reason r =
     (if r = ''length'' then ''max_tokens''
      else if r = ''tool_calls'' then ''tool_use''
      else ''end_turn'')"

record tool_call =
  tc_id :: string
  tc_name :: string
  tc_args :: string

definition parse_openai_tool_calls :: "json_lib \<Rightarrow> raw_json \<Rightarrow> tool_call list" where
  "parse_openai_tool_calls L raw =
     (if raw = [] then []
      else
        (case as_structs L (\<lambda>ms.
             case (text_field L ''id'' ms, field_of L (as_members L) [] ''function'' ms) of
               (Some cid, Some fn) \<Rightarrow>
                 (case (text_field L ''name'' fn, text_field L ''arguments'' fn) of
                    (Some name, Some args) \<Rightarrow> Some \<lparr>tc_id = cid, tc_name = name, tc_args = args\<rparr>
                  | _ \<Rightarrow> None)
             | _ \<Rightarrow> None) raw of
           None \<Rightarrow> []
         | Some calls \<Rightarrow> calls))"

subsection \<open>The Anthropic streamer\<close>

record streamer =
  st_request_id :: string
  st_model :: string
  st_started :: bool
  st_thinking_open :: bool
  st_text_open :: bool
  st_index :: int
  st_tool_buf :: raw_json

definition new_streamer :: "string \<Rightarrow> string \<Rightarrow> streamer" where
  "new_streamer rid model = \<lparr>st_request_id = rid, st_model = model, st_started = False,
     st_thinking_open = False, st_text_open = False, st_index = 0, st_tool_buf = []\<rparr>"

definition typed_event :: "string \<Rightarrow> (string \<times> json) list \<Rightarrow> sse_event" where
  "typed_event name ms = Named_Event name (J_Object ((''type'', J_String name) # ms))"

definition block_start :: "int \<Rightarrow> (string \<times> json) list \<Rightarrow> sse_event" where
  "block_start i block = typed_event ''content_block_start'' [(''index'', J_Int i), (''content_block'', J_Object block)]"

definition block_delta :: "int \<Rightarrow> (string \<times> json) list \<Rightarrow> sse_event" where
  "block_delta i delta = typed_event ''content_block_delta'' [(''index'', J_Int i), (''delta'', J_Object delta)]"

definition block_stop :: "int \<Rightarrow> sse_event" where
  "block_stop i = typed_event ''content_block_stop'' [(''index'', J_Int i)]"

definition streamer_start :: "streamer \<Rightarrow> sse_event list \<times> streamer" where
  "streamer_start s =
     (if st_started s then ([], s)
      else ([typed_event ''message_start'' [(''message'', J_Object
               [(''id'', J_String (st_request_id s)), (''type'', J_String ''message''),
                (''role'', J_String ''assistant''), (''model'', J_String (st_model s)),
                (''content'', J_Array []), (''stop_reason'', J_Null), (''stop_sequence'', J_Null),
                (''usage'', J_Object [(''input_tokens'', J_Int 0), (''output_tokens'', J_Int 0)])])]],
            s\<lparr>st_started := True\<rparr>))"

definition close_thinking :: "streamer \<Rightarrow> sse_event list \<times> streamer" where
  "close_thinking s = ([block_stop (st_index s)], s\<lparr>st_thinking_open := False, st_index := st_index s + 1\<rparr>)"

text \<open>The part of \<open>Delta\<close> for reasoning, and the one for answer text.\<close>

definition delta_reasoning :: "streamer \<Rightarrow> string \<Rightarrow> sse_event list \<times> streamer" where
  "delta_reasoning s r =
     (if r = [] then ([], s)
      else
        (let (opening, s1) =
               (if \<not> st_thinking_open s \<and> \<not> st_text_open s
                then ([block_start (st_index s) [(''type'', J_String ''thinking''), (''thinking'', J_String [])]],
                      s\<lparr>st_thinking_open := True\<rparr>)
                else ([], s))
         in (opening @
             (if st_thinking_open s1
              then [block_delta (st_index s1) [(''type'', J_String ''thinking_delta''), (''thinking'', J_String r)]]
              else []), s1)))"

definition delta_text :: "streamer \<Rightarrow> string \<Rightarrow> sse_event list \<times> streamer" where
  "delta_text s d =
     (if d = [] then ([], s)
      else
        (let (closing, s1) = (if st_thinking_open s then close_thinking s else ([], s));
             (opening, s2) =
               (if \<not> st_text_open s1
                then ([block_start (st_index s1) [(''type'', J_String ''text''), (''text'', J_String [])]],
                      s1\<lparr>st_text_open := True\<rparr>)
                else ([], s1))
         in (closing @ opening @
             [block_delta (st_index s2) [(''type'', J_String ''text_delta''), (''text'', J_String d)]], s2)))"

definition streamer_delta :: "streamer \<Rightarrow> chunk_msg \<Rightarrow> sse_event list \<times> streamer" where
  "streamer_delta s c =
     (let (e1, s1) = streamer_start s;
          s2 = (if ck_tool_calls_delta c = [] then s1 else s1\<lparr>st_tool_buf := ck_tool_calls_delta c\<rparr>);
          (e2, s3) = delta_reasoning s2 (ck_reasoning_delta c);
          (e3, s4) = delta_text s3 (ck_delta c)
      in (e1 @ e2 @ e3, s4))"

fun tool_events :: "int \<Rightarrow> tool_call list \<Rightarrow> sse_event list" where
  "tool_events i [] = []"
| "tool_events i (tc # tcs) =
     block_start i [(''type'', J_String ''tool_use''), (''id'', J_String (tc_id tc)),
       (''name'', J_String (tc_name tc)), (''input'', J_Object [])] #
     (if tc_args tc = [] then []
      else [block_delta i [(''type'', J_String ''input_json_delta''), (''partial_json'', J_String (tc_args tc))]]) @
     block_stop i # tool_events (i + 1) tcs"

definition streamer_done :: "json_lib \<Rightarrow> streamer \<Rightarrow> string \<Rightarrow> usage_info option \<Rightarrow> sse_event list \<times> streamer" where
  "streamer_done L s finish usage =
     (let (e1, s1) = streamer_start s;
          (e2, s2) = (if st_thinking_open s1 then close_thinking s1 else ([], s1));
          (e3, s3) = (if st_text_open s2
                      then ([block_stop (st_index s2)], s2\<lparr>st_text_open := False, st_index := st_index s2 + 1\<rparr>)
                      else ([], s2));
          tools = parse_openai_tool_calls L (st_tool_buf s3);
          stop = (if tools = [] then anthropic_stop_reason finish else ''tool_use'')
      in (e1 @ e2 @ e3 @ tool_events (st_index s3) tools @
          [typed_event ''message_delta''
             ((''delta'', J_Object [(''stop_reason'', J_String stop), (''stop_sequence'', J_Null)]) #
              (case usage of
                 None \<Rightarrow> []
               | Some u \<Rightarrow> [(''usage'', J_Object
                   ((''output_tokens'', J_Int (us_completion_tokens u)) # cache_counts u))])),
           typed_event ''message_stop'' []],
          s3\<lparr>st_index := st_index s3 + int (length tools)\<rparr>))"

definition anthropic_error_event :: "string \<Rightarrow> sse_event" where
  "anthropic_error_event msg = typed_event ''error''
     [(''error'', J_Object [(''type'', J_String ''api_error''), (''message'', J_String msg)])]"

subsection \<open>The Responses dialect\<close>

definition responses_sse_chunk :: "chunk_msg \<Rightarrow> sse_event" where
  "responses_sse_chunk c = Data_Event (J_Object
     [(''type'', J_String ''response.output_text.delta''), (''delta'', J_String (ck_delta c))])"

definition responses_sse_done :: sse_event where
  "responses_sse_done = Data_Event (J_Object [(''type'', J_String ''response.completed'')])"

definition responses_sse_error :: "string \<Rightarrow> sse_event" where
  "responses_sse_error msg = Data_Event (J_Object
     [(''type'', J_String ''response.failed''),
      (''error'', J_Object [(''message'', J_String msg), (''type'', J_String ''server_error'')])])"

section \<open>Outbound documents\<close>

definition usage_member :: "(usage_info \<Rightarrow> json) \<Rightarrow> usage_info option \<Rightarrow> (string \<times> json) list" where
  "usage_member f usage = (case usage of None \<Rightarrow> [] | Some u \<Rightarrow> [(''usage'', f u)])"

definition openai_full_response ::
  "int \<Rightarrow> string \<Rightarrow> string \<Rightarrow> string \<Rightarrow> string \<Rightarrow> raw_json \<Rightarrow> usage_info option \<Rightarrow> json" where
  "openai_full_response now rid model content finish tool_calls usage = J_Object
     ([(''id'', J_String rid), (''object'', J_String ''chat.completion''), (''created'', J_Int now),
       (''model'', J_String model),
       (''choices'', J_Array [J_Object
          [(''index'', J_Int 0),
           (''message'', J_Object ([(''role'', J_String ''assistant''), (''content'', J_String content)] @
              (if tool_calls = [] then [] else [(''tool_calls'', J_Raw tool_calls)]))),
           (''finish_reason'', J_String finish)]])] @
      usage_member openai_usage usage)"

definition tool_block :: "tool_call \<Rightarrow> json" where
  "tool_block tc = J_Object
     [(''type'', J_String ''tool_use''), (''id'', J_String (tc_id tc)), (''name'', J_String (tc_name tc)),
      (''input'', J_Raw (if tc_args tc = [] then ''{}'' else tc_args tc))]"

definition anthropic_full_response ::
  "json_lib \<Rightarrow> string \<Rightarrow> string \<Rightarrow> string \<Rightarrow> string \<Rightarrow> raw_json \<Rightarrow> usage_info option \<Rightarrow> json" where
  "anthropic_full_response L rid model content finish tool_calls usage =
     (let tools = parse_openai_tool_calls L tool_calls;
          stop = (if tools = [] then anthropic_stop_reason finish else ''tool_use'')
      in J_Object
           ([(''id'', J_String rid), (''type'', J_String ''message''), (''role'', J_String ''assistant''),
             (''model'', J_String model),
             (''content'', J_Array
                ((if content = [] then []
                  else [J_Object [(''type'', J_String ''text''), (''text'', J_String content)]]) @
                 map tool_block tools)),
             (''stop_reason'', J_String stop), (''stop_sequence'', J_Null)] @
            usage_member anthropic_usage usage))"

definition responses_usage :: "usage_info \<Rightarrow> json" where
  "responses_usage u = J_Object
     ([(''input_tokens'', J_Int (us_prompt_tokens u)), (''output_tokens'', J_Int (us_completion_tokens u)),
       (''total_tokens'', J_Int (us_total_tokens u))] @
      (if us_cache_read_tokens u > 0
       then [(''input_tokens_details'', J_Object [(''cached_tokens'', J_Int (us_cache_read_tokens u))])] else []))"

definition responses_full_response :: "int \<Rightarrow> string \<Rightarrow> string \<Rightarrow> string \<Rightarrow> usage_info option \<Rightarrow> json" where
  "responses_full_response now rid model content usage = J_Object
     ([(''id'', J_String rid), (''object'', J_String ''response''), (''created_at'', J_Int now),
       (''model'', J_String model), (''status'', J_String ''completed''),
       (''output'', J_Array [J_Object
          [(''id'', J_String (''msg_'' @ rid)), (''type'', J_String ''message''), (''role'', J_String ''assistant''),
           (''status'', J_String ''completed''),
           (''content'', J_Array [J_Object [(''type'', J_String ''output_text''), (''text'', J_String content)]])]])] @
      usage_member responses_usage usage)"

end
