(* ===== verification/Responses.thy ===== *)
theory Responses
  imports Translate
begin

text \<open>
  \<open>router/internal/api/handler.go\<close>, the answering half: \<open>streamResponse\<close>, \<open>batchResponse\<close> and
  \<open>pumpForFollowers\<close>. Each is a loop around a \<open>select\<close>, here a step function from what the select
  woke up for to what the handler does, in order, and the state it goes on with (\<open>None\<close> when it
  returns). Logging is left out; setting response headers, and flushing, which follows every
  write, are part of the write.
\<close>

section \<open>Events and effects\<close>

text \<open>
  What wakes a handler: a chunk, the end of its channel, the keep-alive ticker, the timer for the
  first chunk, the timer for a silent worker, the timer of a whole batch, or the caller going away
  (with what \<open>HasSubscribers\<close> answers then).
\<close>

datatype wake =
    Wake_Chunk chunk_msg
  | Wake_Closed
  | Wake_Keep_Alive
  | Wake_No_First
  | Wake_Silent
  | Wake_Batch_Timeout
  | Wake_Gone bool

datatype effect =
    Send_Event sse_event
  | Send_Ping
  | Send_Document int json
  | Forward_Chunk chunk_msg
  | Reset_Followers
  | Unregister_Entry
  | Delete_Channel
  | Cancel_Work
  | Discard_Stale
  | Queue_Again inference_request
  | Record_Usage string usage_info
  | Hand_To_Pump

text \<open>
  The handler's fixed inputs: the request, whether chunks are forwarded (the caller is an entry's
  original, which is also when \<open>onDisconnect\<close> is set) and the time stamped on documents.
\<close>

record handling =
  hn_lib :: json_lib
  hn_req :: inference_request
  hn_original :: bool
  hn_now :: int

definition attributed_model :: "inference_request \<Rightarrow> string \<Rightarrow> string" where
  "attributed_model req served = (if served \<noteq> [] then served else rq_model req)"

definition record_stats :: "inference_request \<Rightarrow> usage_info option \<Rightarrow> string \<Rightarrow> effect list" where
  "record_stats req usage served =
     (case usage of None \<Rightarrow> [] | Some u \<Rightarrow> [Record_Usage (attributed_model req served) u])"

definition error_body :: "string \<Rightarrow> string \<Rightarrow> json" where
  "error_body typ msg = J_Object [(''error'', J_Object [(''message'', J_String msg), (''type'', J_String typ)])]"

definition service_unavailable :: "string \<Rightarrow> effect" where
  "service_unavailable msg = Send_Document 503 (error_body ''service_unavailable'' msg)"

definition worker_error :: "string \<Rightarrow> effect" where
  "worker_error msg = Send_Document 502 (error_body ''worker_error'' msg)"

definition worker_error_chunk :: "error_msg \<Rightarrow> chunk_msg" where
  "worker_error_chunk m =
     \<lparr>ck_request_id = em_request_id m, ck_delta = [], ck_tool_calls_delta = [], ck_reasoning_delta = [],
      ck_done = True, ck_finish_reason = ''error'', ck_usage = None, ck_model = [],
      ck_error = (if em_final m \<and> em_message m \<noteq> [] then em_message m
                  else ''the worker could not complete the request'')\<rparr>"

definition write_stream_error :: "inference_request \<Rightarrow> string \<Rightarrow> effect list" where
  "write_stream_error req msg =
     (if rq_source_fmt req = ''anthropic'' then [Send_Event (anthropic_error_event msg)]
      else if rq_source_fmt req = ''openai-responses'' then [Send_Event (responses_sse_error msg)]
      else [Send_Event (openai_sse_error msg), Send_Event Done_Event])"

section \<open>Streaming\<close>

record streaming =
  sg_started :: bool
  sg_served :: string
  sg_streamer :: streamer

definition stream_start :: "handling \<Rightarrow> streaming" where
  "stream_start h = \<lparr>sg_started = False, sg_served = [],
     sg_streamer = new_streamer (rq_id (hn_req h)) (rq_model (hn_req h))\<rparr>"

text \<open>What a chunk writes in each dialect, before and at the end; the result says if it ended.\<close>

definition openai_writes :: "handling \<Rightarrow> chunk_msg \<Rightarrow> string \<Rightarrow> effect list" where
  "openai_writes h c served =
     (let req = hn_req h;
          content = (if ck_delta c \<noteq> [] \<or> ck_reasoning_delta c \<noteq> [] \<or> ck_tool_calls_delta c \<noteq> []
             then [Send_Event (openai_sse_chunk (hn_now h) (rq_id req) (rq_model req)
                     (c\<lparr>ck_done := False, ck_finish_reason := [], ck_usage := None\<rparr>))]
             else [])
      in content @
         (if ck_done c
          then record_stats req (ck_usage c) served @
               [Send_Event (openai_sse_chunk (hn_now h) (rq_id req) (rq_model req)
                  (c\<lparr>ck_delta := [], ck_reasoning_delta := [], ck_tool_calls_delta := []\<rparr>)),
                Send_Event Done_Event]
          else []))"

definition responses_writes :: "handling \<Rightarrow> chunk_msg \<Rightarrow> string \<Rightarrow> effect list" where
  "responses_writes h c served =
     (if ck_delta c \<noteq> [] then [Send_Event (responses_sse_chunk c)] else []) @
     (if ck_done c
      then record_stats (hn_req h) (ck_usage c) served @ [Send_Event responses_sse_done]
      else [])"

definition anthropic_writes ::
  "handling \<Rightarrow> streamer \<Rightarrow> chunk_msg \<Rightarrow> string \<Rightarrow> effect list \<times> streamer" where
  "anthropic_writes h s c served =
     (case streamer_delta s c of
        (evs, s1) \<Rightarrow>
          if ck_done c then
            (case streamer_done (hn_lib h) s1 (ck_finish_reason c) (ck_usage c) of
               (ending, s2) \<Rightarrow>
                 (map Send_Event evs @ record_stats (hn_req h) (ck_usage c) served @ map Send_Event ending, s2))
          else (map Send_Event evs, s1))"

definition stream_chunk :: "handling \<Rightarrow> streaming \<Rightarrow> chunk_msg \<Rightarrow> effect list \<times> streaming option" where
  "stream_chunk h s c =
     (let served = (if ck_model c \<noteq> [] then ck_model c else sg_served s);
          s1 = s\<lparr>sg_started := True, sg_served := served\<rparr>;
          forward = (if hn_original h then [Forward_Chunk c] else [])
      in if ck_done c \<and> ck_error c \<noteq> []
         then (forward @ record_stats (hn_req h) None served @ write_stream_error (hn_req h) (ck_error c), None)
         else
           (let (writes, s2) =
              (if rq_source_fmt (hn_req h) = ''anthropic'' then
                 (case anthropic_writes h (sg_streamer s1) c served of
                    (ws, st) \<Rightarrow> (ws, s1\<lparr>sg_streamer := st\<rparr>))
               else if rq_source_fmt (hn_req h) = ''openai-responses'' then (responses_writes h c served, s1)
               else (openai_writes h c served, s1))
            in (forward @ writes, if ck_done c then None else Some s2)))"

text \<open>The caller going away: with followers left, a pump takes the stream over.\<close>

definition caller_gone :: "handling \<Rightarrow> bool \<Rightarrow> effect list" where
  "caller_gone h followers = (if hn_original h \<and> followers then [Hand_To_Pump] else [Cancel_Work])"

definition stream_step :: "handling \<Rightarrow> streaming \<Rightarrow> wake \<Rightarrow> effect list \<times> streaming option" where
  "stream_step h s w =
     (case w of
        Wake_Chunk c \<Rightarrow> stream_chunk h s c
      | Wake_Closed \<Rightarrow> (write_stream_error (hn_req h) ''response ended unexpectedly'', None)
      | Wake_Keep_Alive \<Rightarrow> ([Send_Ping], Some s)
      | Wake_No_First \<Rightarrow>
          (Cancel_Work # write_stream_error (hn_req h) ''request timed out waiting for a worker'', None)
      | Wake_Silent \<Rightarrow> (Cancel_Work # write_stream_error (hn_req h) ''worker stopped responding'', None)
      | Wake_Gone followers \<Rightarrow> (caller_gone h followers, None)
      | Wake_Batch_Timeout \<Rightarrow> ([], Some s))"

text \<open>
  The first timer is stopped by the first chunk and the other one started by it; a streaming
  handler has no batch timer.
\<close>

definition stream_wakes :: "streaming \<Rightarrow> wake \<Rightarrow> bool" where
  "stream_wakes s w =
     (case w of Wake_No_First \<Rightarrow> \<not> sg_started s | Wake_Silent \<Rightarrow> sg_started s
      | Wake_Batch_Timeout \<Rightarrow> False | _ \<Rightarrow> True)"

section \<open>Batch answers\<close>

record batching =
  bt_req :: inference_request
  bt_text :: string
  bt_tool_calls :: raw_json
  bt_usage :: "usage_info option"
  bt_finish :: string
  bt_served :: string

definition batch_start :: "handling \<Rightarrow> batching" where
  "batch_start h = \<lparr>bt_req = hn_req h, bt_text = [], bt_tool_calls = [], bt_usage = None, bt_finish = ''stop'',
     bt_served = []\<rparr>"

definition write_batch ::
  "handling \<Rightarrow> inference_request \<Rightarrow> string \<Rightarrow> string \<Rightarrow> raw_json \<Rightarrow> usage_info option \<Rightarrow> string \<Rightarrow> effect list" where
  "write_batch h req content finish tool_calls usage served =
     record_stats req usage served @
     [Send_Document 200
        (if rq_source_fmt req = ''anthropic''
         then anthropic_full_response (hn_lib h) (rq_id req) (rq_model req) content finish tool_calls usage
         else if rq_source_fmt req = ''openai-responses''
         then responses_full_response (hn_now h) (rq_id req) (rq_model req) content usage
         else openai_full_response (hn_now h) (rq_id req) (rq_model req) content finish tool_calls usage)]"

definition batch_chunk :: "handling \<Rightarrow> batching \<Rightarrow> chunk_msg \<Rightarrow> effect list \<times> batching option" where
  "batch_chunk h b c =
     (let forward = (if hn_original h then [Forward_Chunk c] else []);
          served = (if ck_model c \<noteq> [] then ck_model c else bt_served b);
          b1 = b\<lparr>bt_served := served, bt_text := bt_text b @ ck_delta c,
                 bt_tool_calls := (if ck_tool_calls_delta c \<noteq> [] then ck_tool_calls_delta c else bt_tool_calls b)\<rparr>
      in if ck_done c \<and> ck_error c \<noteq> []
         then (forward @ record_stats (bt_req b) None served @ [worker_error (ck_error c)], None)
         else if ck_done c then
           (let finish = (if ck_finish_reason c \<noteq> [] then ck_finish_reason c else bt_finish b1);
                usage = (case ck_usage c of Some u \<Rightarrow> Some u | None \<Rightarrow> bt_usage b1)
            in (forward @ write_batch h (bt_req b) (bt_text b1) finish (bt_tool_calls b1) usage served, None))
         else (forward, Some b1))"

definition batch_timeout :: "handling \<Rightarrow> batching \<Rightarrow> effect list \<times> batching option" where
  "batch_timeout h b =
     (let req = (bt_req b)\<lparr>rq_attempts := rq_attempts (bt_req b) + 1\<rparr>
      in if rq_attempts req < max_attempts
         then ([Cancel_Work, Discard_Stale] @ (if hn_original h then [Reset_Followers] else []) @ [Queue_Again req],
               Some \<lparr>bt_req = req, bt_text = [], bt_tool_calls = [], bt_usage = None, bt_finish = ''stop'',
                     bt_served = []\<rparr>)
         else ([service_unavailable ''request timed out'', Cancel_Work], None))"

definition batch_step :: "handling \<Rightarrow> batching \<Rightarrow> wake \<Rightarrow> effect list \<times> batching option" where
  "batch_step h b w =
     (case w of
        Wake_Chunk c \<Rightarrow> batch_chunk h b c
      | Wake_Closed \<Rightarrow> ([service_unavailable ''response ended unexpectedly''], None)
      | Wake_Batch_Timeout \<Rightarrow> batch_timeout h b
      | Wake_Gone followers \<Rightarrow> (caller_gone h followers, None)
      | _ \<Rightarrow> ([], Some b))"

definition batch_wakes :: "wake \<Rightarrow> bool" where
  "batch_wakes w = (case w of Wake_Keep_Alive \<Rightarrow> False | Wake_No_First \<Rightarrow> False | Wake_Silent \<Rightarrow> False | _ \<Rightarrow> True)"

section \<open>The pump\<close>

text \<open>
  \<open>pumpForFollowers\<close>. Returning releases the channel and the entry, in the order the deferred
  calls run. \<open>Wake_Gone\<close> does not occur; the flag is what \<open>HasSubscribers\<close> answers after a chunk.
\<close>

definition pump_step :: "wake \<Rightarrow> bool \<Rightarrow> effect list \<times> unit option" where
  "pump_step w followers =
     (case w of
        Wake_Closed \<Rightarrow> ([Delete_Channel, Unregister_Entry], None)
      | Wake_Chunk c \<Rightarrow>
          if ck_done c then ([Forward_Chunk c, Delete_Channel, Unregister_Entry], None)
          else if \<not> followers then ([Forward_Chunk c, Cancel_Work, Delete_Channel, Unregister_Entry], None)
          else ([Forward_Chunk c], Some ())
      | Wake_Silent \<Rightarrow> ([Cancel_Work, Delete_Channel, Unregister_Entry], None)
      | _ \<Rightarrow> ([], Some ()))"

section \<open>Runs\<close>

text \<open>A handler's run over what wakes it: what it did, and whether it has returned.\<close>

fun handler_run :: "('s \<Rightarrow> wake \<Rightarrow> effect list \<times> 's option) \<Rightarrow> 's \<Rightarrow> wake list \<Rightarrow> effect list \<times> 's option" where
  "handler_run step s [] = ([], Some s)"
| "handler_run step s (w # ws) =
     (case step s w of
        (effs, None) \<Rightarrow> (effs, None)
      | (effs, Some s') \<Rightarrow> (case handler_run step s' ws of (rest, r) \<Rightarrow> (effs @ rest, r)))"

lemma stream_step_simps [simp]:
  "stream_step h s (Wake_Chunk c) = stream_chunk h s c"
  "stream_step h s Wake_Closed = (write_stream_error (hn_req h) ''response ended unexpectedly'', None)"
  "stream_step h s Wake_Keep_Alive = ([Send_Ping], Some s)"
  "stream_step h s Wake_No_First =
     (Cancel_Work # write_stream_error (hn_req h) ''request timed out waiting for a worker'', None)"
  "stream_step h s Wake_Silent = (Cancel_Work # write_stream_error (hn_req h) ''worker stopped responding'', None)"
  "stream_step h s (Wake_Gone followers) = (caller_gone h followers, None)"
  "stream_step h s Wake_Batch_Timeout = ([], Some s)"
  by (simp_all add: stream_step_def)

lemma batch_step_simps [simp]:
  "batch_step h b (Wake_Chunk c) = batch_chunk h b c"
  "batch_step h b Wake_Closed = ([service_unavailable ''response ended unexpectedly''], None)"
  "batch_step h b Wake_Batch_Timeout = batch_timeout h b"
  "batch_step h b (Wake_Gone followers) = (caller_gone h followers, None)"
  "batch_step h b Wake_Keep_Alive = ([], Some b)"
  "batch_step h b Wake_No_First = ([], Some b)"
  "batch_step h b Wake_Silent = ([], Some b)"
  by (simp_all add: batch_step_def)

end
