(* ===== verification/Stream_Protocol.thy ===== *)
theory Stream_Protocol
  imports Translate
begin

text \<open>
  The protocol of an Anthropic message stream, stated on its own as an automaton over what events
  say, and the proof that \<open>AnthropicStreamer\<close> keeps to it and loses no text.
\<close>

section \<open>What an event says\<close>

fun lookup_member :: "string \<Rightarrow> (string \<times> json) list \<Rightarrow> json option" where
  "lookup_member name [] = None"
| "lookup_member name ((k, v) # ms) = (if k = name then Some v else lookup_member name ms)"

definition member :: "string \<Rightarrow> json \<Rightarrow> json option" where
  "member name j = (case j of J_Object ms \<Rightarrow> lookup_member name ms | _ \<Rightarrow> None)"

definition text_at :: "string \<Rightarrow> json \<Rightarrow> string" where
  "text_at name j = (case member name j of Some (J_String s) \<Rightarrow> s | _ \<Rightarrow> [])"

datatype said =
    Says_Start
  | Says_Open int string
  | Says_Delta int string string
  | Says_Close int
  | Says_Summary
  | Says_Stop
  | Says_Other

definition index_at :: "json \<Rightarrow> int" where
  "index_at j = (case member ''index'' j of Some (J_Int i) \<Rightarrow> i | _ \<Rightarrow> -1)"

definition delta_payload :: "json \<Rightarrow> string" where
  "delta_payload d =
     (if text_at ''type'' d = ''text_delta'' then text_at ''text'' d
      else if text_at ''type'' d = ''thinking_delta'' then text_at ''thinking'' d
      else text_at ''partial_json'' d)"

definition says :: "sse_event \<Rightarrow> said" where
  "says ev =
     (case ev of
        Named_Event name j \<Rightarrow>
          if text_at ''type'' j \<noteq> name then Says_Other
          else if name = ''message_start'' then Says_Start
          else if name = ''content_block_start''
          then (case member ''content_block'' j of
                  Some b \<Rightarrow> Says_Open (index_at j) (text_at ''type'' b) | None \<Rightarrow> Says_Other)
          else if name = ''content_block_delta''
          then (case member ''delta'' j of
                  Some d \<Rightarrow> Says_Delta (index_at j) (text_at ''type'' d) (delta_payload d) | None \<Rightarrow> Says_Other)
          else if name = ''content_block_stop'' then Says_Close (index_at j)
          else if name = ''message_delta'' then Says_Summary
          else if name = ''message_stop'' then Says_Stop
          else Says_Other
      | _ \<Rightarrow> Says_Other)"

section \<open>The protocol\<close>

text \<open>
  Before the message, between blocks (the next index and the rank of the last block's kind: first
  thinking, then text, then tools), inside a block, after the summary, and over.
\<close>

datatype protocol =
    Before
  | Between int nat
  | Inside int string
  | Summarised
  | Over

definition kind_rank :: "string \<Rightarrow> nat" where
  "kind_rank k = (if k = ''thinking'' then 1 else if k = ''text'' then 2 else 3)"

definition may_follow :: "nat \<Rightarrow> string \<Rightarrow> bool" where
  "may_follow rank k \<longleftrightarrow> k \<in> set [''thinking'', ''text'', ''tool_use''] \<and>
     (rank < kind_rank k \<or> rank = 3 \<and> k = ''tool_use'')"

definition delta_of :: "string \<Rightarrow> string" where
  "delta_of k = (if k = ''thinking'' then ''thinking_delta'' else if k = ''text'' then ''text_delta''
     else ''input_json_delta'')"

fun protocol_step :: "protocol \<Rightarrow> said \<Rightarrow> protocol option" where
  "protocol_step Before Says_Start = Some (Between 0 0)"
| "protocol_step (Between i rank) (Says_Open j k) = (if j = i \<and> may_follow rank k then Some (Inside i k) else None)"
| "protocol_step (Between i rank) Says_Summary = Some Summarised"
| "protocol_step (Inside i k) (Says_Delta j d t) = (if j = i \<and> d = delta_of k then Some (Inside i k) else None)"
| "protocol_step (Inside i k) (Says_Close j) = (if j = i then Some (Between (i + 1) (kind_rank k)) else None)"
| "protocol_step Summarised Says_Stop = Some Over"
| "protocol_step _ _ = None"

fun protocol_run :: "protocol \<Rightarrow> said list \<Rightarrow> protocol option" where
  "protocol_run p [] = Some p"
| "protocol_run p (s # ss) = (case protocol_step p s of None \<Rightarrow> None | Some p' \<Rightarrow> protocol_run p' ss)"

lemma protocol_run_append:
  "protocol_run p (xs @ ys) = (case protocol_run p xs of None \<Rightarrow> None | Some q \<Rightarrow> protocol_run q ys)"
  by (induction xs arbitrary: p) (auto split: option.split)

text \<open>The text of the blocks of one kind, as a client puts it together.\<close>

fun said_text :: "string \<Rightarrow> said list \<Rightarrow> string" where
  "said_text d [] = []"
| "said_text d (s # ss) = (case s of Says_Delta i d' t \<Rightarrow> if d' = d then t else [] | _ \<Rightarrow> []) @ said_text d ss"

lemma said_text_append [simp]: "said_text d (xs @ ys) = said_text d xs @ said_text d ys"
  by (induction xs) simp_all

section \<open>The streamer's events\<close>

lemmas event_parts = says_def typed_event_def member_def text_at_def index_at_def delta_payload_def

lemma says_events [simp]:
  "says (block_start i ((''type'', J_String k) # ms)) = Says_Open i k"
  "says (block_stop i) = Says_Close i"
  "says (block_delta i [(''type'', J_String ''text_delta''), (''text'', J_String t)]) = Says_Delta i ''text_delta'' t"
  "says (block_delta i [(''type'', J_String ''thinking_delta''), (''thinking'', J_String t)]) =
     Says_Delta i ''thinking_delta'' t"
  "says (block_delta i [(''type'', J_String ''input_json_delta''), (''partial_json'', J_String t)]) =
     Says_Delta i ''input_json_delta'' t"
  "says (typed_event ''message_start'' ms) = Says_Start"
  "says (typed_event ''message_delta'' ms) = Says_Summary"
  "says (typed_event ''message_stop'' ms) = Says_Stop"
  by (simp_all add: event_parts block_start_def block_stop_def block_delta_def)

definition streamer_at :: "streamer \<Rightarrow> protocol \<Rightarrow> bool" where
  "streamer_at s p \<longleftrightarrow>
     \<not> (st_thinking_open s \<and> st_text_open s) \<and>
     (if \<not> st_started s then p = Before \<and> st_index s = 0 \<and> \<not> st_thinking_open s \<and> \<not> st_text_open s
      else if st_thinking_open s then p = Inside (st_index s) ''thinking''
      else if st_text_open s then p = Inside (st_index s) ''text''
      else \<exists>rank. p = Between (st_index s) rank \<and> rank = 0)"

lemma streamer_start_at:
  assumes "streamer_at s p" and "streamer_start s = (evs, s')"
  shows "\<exists>p'. protocol_run p (map says evs) = Some p' \<and> streamer_at s' p'" and "st_started s'"
    and "said_text d (map says evs) = []"
    and "st_text_open s' = st_text_open s" and "st_thinking_open s' = st_thinking_open s"
    and "st_index s' = st_index s" and "st_tool_buf s' = st_tool_buf s"
  using assms by (auto simp: streamer_start_def streamer_at_def split: if_splits)

lemma delta_reasoning_at:
  assumes "streamer_at s p" and "st_started s" and "delta_reasoning s r = (evs, s')"
  shows "\<exists>p'. protocol_run p (map says evs) = Some p' \<and> streamer_at s' p'" and "st_started s'"
    and "said_text ''text_delta'' (map says evs) = []"
    and "said_text ''thinking_delta'' (map says evs) = (if st_text_open s then [] else r)"
    and "st_text_open s' = st_text_open s" and "st_tool_buf s' = st_tool_buf s"
  using assms
  by (auto simp: delta_reasoning_def streamer_at_def may_follow_def kind_rank_def delta_of_def Let_def
      split: if_splits prod.splits)

lemma delta_text_at:
  assumes "streamer_at s p" and "st_started s" and "delta_text s d = (evs, s')"
  shows "\<exists>p'. protocol_run p (map says evs) = Some p' \<and> streamer_at s' p'" and "st_started s'"
    and "said_text ''text_delta'' (map says evs) = d"
    and "said_text ''thinking_delta'' (map says evs) = []"
    and "st_text_open s' = (st_text_open s \<or> d \<noteq> [])" and "st_tool_buf s' = st_tool_buf s"
  using assms
  by (auto simp: delta_text_def close_thinking_def streamer_at_def may_follow_def kind_rank_def delta_of_def Let_def
      split: if_splits prod.splits)

lemma streamer_delta_at:
  assumes "streamer_at s p" and "streamer_delta s c = (evs, s')"
  shows "\<exists>p'. protocol_run p (map says evs) = Some p' \<and> streamer_at s' p'"
    and "said_text ''text_delta'' (map says evs) = ck_delta c"
    and "said_text ''thinking_delta'' (map says evs) = (if st_text_open s then [] else ck_reasoning_delta c)"
    and "st_text_open s' = (st_text_open s \<or> ck_delta c \<noteq> [])"
    and "st_tool_buf s' = (if ck_tool_calls_delta c = [] then st_tool_buf s else ck_tool_calls_delta c)"
proof -
  obtain e1 s1 where a: "streamer_start s = (e1, s1)" by (cases "streamer_start s")
  let ?s2 = "if ck_tool_calls_delta c = [] then s1 else s1\<lparr>st_tool_buf := ck_tool_calls_delta c\<rparr>"
  obtain e2 s3 where b: "delta_reasoning ?s2 (ck_reasoning_delta c) = (e2, s3)"
    by (cases "delta_reasoning ?s2 (ck_reasoning_delta c)")
  obtain e3 s4 where d: "delta_text s3 (ck_delta c) = (e3, s4)" by (cases "delta_text s3 (ck_delta c)")
  note A = streamer_start_at [OF assms(1) a]
  obtain p1 where p1: "protocol_run p (map says e1) = Some p1" "streamer_at s1 p1" using A(1) by blast
  have at2: "streamer_at ?s2 p1" "st_started ?s2" using p1(2) A(2) by (simp_all add: streamer_at_def)
  note B = delta_reasoning_at [OF at2 b]
  obtain p2 where p2: "protocol_run p1 (map says e2) = Some p2" "streamer_at s3 p2" using B(1) by blast
  note D = delta_text_at [OF p2(2) B(2) d]
  have evs: "evs = e1 @ e2 @ e3" "s' = s4"
    using assms(2) a b d by (auto simp: streamer_delta_def Let_def)
  show "\<exists>p'. protocol_run p (map says evs) = Some p' \<and> streamer_at s' p'"
    using p1 p2 D(1) by (auto simp: evs protocol_run_append)
  show "said_text ''text_delta'' (map says evs) = ck_delta c" using A(3) B(3) D(3) by (simp add: evs)
  show "said_text ''thinking_delta'' (map says evs) = (if st_text_open s then [] else ck_reasoning_delta c)"
    using A(3,4) B(4) D(4) by (simp add: evs)
  show "st_text_open s' = (st_text_open s \<or> ck_delta c \<noteq> [])" using A(4) B(5) D(5) by (simp add: evs)
  show "st_tool_buf s' = (if ck_tool_calls_delta c = [] then st_tool_buf s else ck_tool_calls_delta c)"
    using A(7) B(6) D(6) by (simp add: evs)
qed

text \<open>What the handler does with the chunks of an answer, in order.\<close>

fun stream_chunks :: "streamer \<Rightarrow> chunk_msg list \<Rightarrow> sse_event list \<times> streamer" where
  "stream_chunks s [] = ([], s)"
| "stream_chunks s (c # cs) =
     (case streamer_delta s c of
        (evs, s') \<Rightarrow> (case stream_chunks s' cs of (rest, s'') \<Rightarrow> (evs @ rest, s'')))"

text \<open>The reasoning a client is shown: what came before the first answer text or with it.\<close>

fun shown_reasoning :: "chunk_msg list \<Rightarrow> string" where
  "shown_reasoning [] = []"
| "shown_reasoning (c # cs) = ck_reasoning_delta c @ (if ck_delta c = [] then shown_reasoning cs else [])"

fun last_tools :: "raw_json \<Rightarrow> chunk_msg list \<Rightarrow> raw_json" where
  "last_tools t [] = t"
| "last_tools t (c # cs) = last_tools (if ck_tool_calls_delta c = [] then t else ck_tool_calls_delta c) cs"

lemma stream_chunks_at:
  assumes "streamer_at s p" and "stream_chunks s cs = (evs, s')"
  shows "(\<exists>p'. protocol_run p (map says evs) = Some p' \<and> streamer_at s' p') \<and>
    said_text ''text_delta'' (map says evs) = concat (map ck_delta cs) \<and>
    said_text ''thinking_delta'' (map says evs) = (if st_text_open s then [] else shown_reasoning cs) \<and>
    st_tool_buf s' = last_tools (st_tool_buf s) cs"
  using assms
proof (induction cs arbitrary: s p evs s')
  case Nil
  then show ?case by auto
next
  case (Cons c cs)
  obtain e1 s1 where a: "streamer_delta s c = (e1, s1)" by (cases "streamer_delta s c")
  obtain e2 s2 where b: "stream_chunks s1 cs = (e2, s2)" by (cases "stream_chunks s1 cs")
  note A = streamer_delta_at [OF Cons.prems(1) a]
  obtain p1 where p1: "protocol_run p (map says e1) = Some p1" "streamer_at s1 p1" using A(1) by blast
  have evs: "evs = e1 @ e2" "s' = s2" using Cons.prems(2) a b by simp_all
  from Cons.IH [OF p1(2) b] show ?case
    using p1(1) A(2-5) by (auto simp: evs protocol_run_append)
qed

lemma tool_events_at:
  assumes "rank \<le> 3"
  shows "protocol_run (Between i rank) (map says (tool_events i tcs)) =
      Some (Between (i + int (length tcs)) (if tcs = [] then rank else 3))"
    and "said_text ''text_delta'' (map says (tool_events i tcs)) = []"
    and "said_text ''thinking_delta'' (map says (tool_events i tcs)) = []"
proof -
  show "protocol_run (Between i rank) (map says (tool_events i tcs)) =
      Some (Between (i + int (length tcs)) (if tcs = [] then rank else 3))"
    using assms
  proof (induction tcs arbitrary: i rank)
    case Nil
    then show ?case by simp
  next
    case (Cons tc tcs)
    have "may_follow rank ''tool_use''" using Cons.prems by (auto simp: may_follow_def kind_rank_def)
    then show ?case using Cons.IH [of 3 "i + 1"] by (auto simp: kind_rank_def delta_of_def)
  qed
  show "said_text ''text_delta'' (map says (tool_events i tcs)) = []"
    "said_text ''thinking_delta'' (map says (tool_events i tcs)) = []"
    by (induction tcs arbitrary: i) auto
qed

lemma streamer_done_at:
  assumes "streamer_at s p" and "streamer_done L s finish usage = (evs, s')"
  shows "protocol_run p (map says evs) = Some Over \<and> said_text ''text_delta'' (map says evs) = [] \<and>
    said_text ''thinking_delta'' (map says evs) = []"
proof -
  obtain e1 s1 where a: "streamer_start s = (e1, s1)" by (cases "streamer_start s")
  note A = streamer_start_at [OF assms(1) a]
  obtain p1 where p1: "protocol_run p (map says e1) = Some p1" "streamer_at s1 p1" using A(1) by blast
  obtain e2 s2 where m: "(if st_thinking_open s1 then close_thinking s1 else ([], s1)) = (e2, s2)"
    by (cases "if st_thinking_open s1 then close_thinking s1 else ([], s1)")
  obtain e3 s3 where n: "(if st_text_open s2
      then ([block_stop (st_index s2)], s2\<lparr>st_text_open := False, st_index := st_index s2 + 1\<rparr>)
      else ([], s2)) = (e3, s3)" by fastforce
  let ?tools = "parse_openai_tool_calls L (st_tool_buf s3)"
  obtain rest where evs: "evs = e1 @ (e2 @ e3) @ tool_events (st_index s3) ?tools @ rest"
    "map says rest = [Says_Summary, Says_Stop]"
    using assms(2) by (auto simp: streamer_done_def a m n Let_def intro!: that)
  have "\<exists>rank. rank \<le> 3 \<and> protocol_run p1 (map says (e2 @ e3)) = Some (Between (st_index s3) rank)"
    and quiet: "said_text d (map says (e2 @ e3)) = []" for d
    using p1(2) A(2) m n by (auto simp: streamer_at_def close_thinking_def kind_rank_def split: if_splits)
  then obtain rank where rank: "rank \<le> 3"
    "protocol_run p1 (map says (e2 @ e3)) = Some (Between (st_index s3) rank)" by blast
  have "protocol_run p (map says e1 @ map says (e2 @ e3) @
      map says (tool_events (st_index s3) ?tools) @ [Says_Summary, Says_Stop]) = Some Over"
    unfolding protocol_run_append [of p] p1(1) option.case protocol_run_append [of p1] rank(2)
    using tool_events_at(1) [OF rank(1)] by (simp add: protocol_run_append)
  then have run: "protocol_run p (map says evs) = Some Over" by (simp add: evs)
  show ?thesis using run A(3) quiet tool_events_at(2,3) [OF rank(1)] by (simp add: evs)
qed


end
