(* ===== verification/Response_Properties.thy ===== *)
theory Response_Properties
  imports Responses Stream_Protocol
begin

text \<open>
  What callers get from the handlers: a stream's text is exactly what the worker sent and has one
  ending, a batch answer is one attempt's whole output, attempts are bounded, and no handler
  leaves work running that nobody reads.
\<close>

section \<open>Runs\<close>

lemma handler_run_append:
  "handler_run step s (xs @ ys) =
     (case handler_run step s xs of
        (effs, None) \<Rightarrow> (effs, None)
      | (effs, Some s') \<Rightarrow> (case handler_run step s' ys of (rest, r) \<Rightarrow> (effs @ rest, r)))"
  by (induction xs arbitrary: s) (auto split: prod.split option.split)

text \<open>The run up to and with the wake at which the handler returns.\<close>

lemma handler_run_returns:
  assumes "handler_run step s ws = (effs, None)"
  shows "\<exists>before w after e1 s1 e2. ws = before @ w # after \<and> handler_run step s before = (e1, Some s1) \<and>
    step s1 w = (e2, None) \<and> effs = e1 @ e2"
  using assms
proof (induction ws arbitrary: s effs)
  case Nil
  then show ?case by simp
next
  case (Cons w ws)
  obtain e r where st: "step s w = (e, r)" by (cases "step s w")
  show ?case
  proof (cases r)
    case None
    then show ?thesis using Cons.prems st by (intro exI [of _ "[]"] exI [of _ w] exI [of _ ws]) auto
  next
    case (Some s')
    obtain e' r' where run: "handler_run step s' ws = (e', r')" by (cases "handler_run step s' ws")
    then have "r' = None" "effs = e @ e'" using Cons.prems st Some by auto
    with Cons.IH [of s' e'] run obtain before v after e1 s1 e2 where
      "ws = before @ v # after" "handler_run step s' before = (e1, Some s1)" "step s1 v = (e2, None)" "e' = e1 @ e2"
      by blast
    then show ?thesis using st Some \<open>effs = e @ e'\<close>
      by (intro exI [of _ "w # before"] exI [of _ v] exI [of _ after] exI [of _ "e @ e1"]) auto
  qed
qed

section \<open>The text of a stream\<close>

definition content_member :: "json \<Rightarrow> string" where
  "content_member j =
     (case member ''choices'' j of
        Some (J_Array (ch # _)) \<Rightarrow> (case member ''delta'' ch of Some d \<Rightarrow> text_at ''content'' d | None \<Rightarrow> [])
      | _ \<Rightarrow> [])"

text \<open>What a client of each dialect reads from one event.\<close>

definition event_text_of :: "string \<Rightarrow> sse_event \<Rightarrow> string" where
  "event_text_of fmt ev =
     (if fmt = ''anthropic'' then said_text ''text_delta'' [says ev]
      else
        (case ev of
           Data_Event j \<Rightarrow>
             if fmt = ''openai-responses''
             then (if text_at ''type'' j = ''response.output_text.delta'' then text_at ''delta'' j else [])
             else content_member j
         | _ \<Rightarrow> []))"

fun client_text :: "string \<Rightarrow> effect list \<Rightarrow> string" where
  "client_text fmt [] = []"
| "client_text fmt (e # es) = (case e of Send_Event ev \<Rightarrow> event_text_of fmt ev | _ \<Rightarrow> []) @ client_text fmt es"

text \<open>An event that ends a stream, in its dialect.\<close>

definition ends_stream :: "string \<Rightarrow> effect \<Rightarrow> bool" where
  "ends_stream fmt e =
     (case e of
        Send_Event ev \<Rightarrow>
          if fmt = ''anthropic''
          then (case ev of Named_Event name j \<Rightarrow> name = ''message_stop'' \<or> name = ''error'' | _ \<Rightarrow> False)
          else if fmt = ''openai-responses''
          then (case ev of Data_Event j \<Rightarrow> text_at ''type'' j \<in> {''response.completed'', ''response.failed''} | _ \<Rightarrow> False)
          else ev = Done_Event
      | _ \<Rightarrow> False)"

lemma client_text_append [simp]: "client_text fmt (xs @ ys) = client_text fmt xs @ client_text fmt ys"
  by (induction xs) simp_all

lemma client_text_said: "client_text ''anthropic'' (map Send_Event evs) = said_text ''text_delta'' (map says evs)"
  by (induction evs) (simp_all add: event_text_of_def)

lemma client_text_stats [simp]: "client_text fmt (record_stats req usage served) = []"
  by (simp add: record_stats_def split: option.split)

lemma lookup_member_append:
  "lookup_member name (xs @ ys) = (case lookup_member name xs of Some v \<Rightarrow> Some v | None \<Rightarrow> lookup_member name ys)"
  by (induction xs rule: lookup_member.induct) auto

lemma openai_chunk_text: "content_member (case openai_sse_chunk now rid model c of Data_Event j \<Rightarrow> j) = ck_delta c"
  by (simp add: openai_sse_chunk_def content_member_def member_def openai_delta_def text_at_def omit_empty_def)

lemma openai_text_of [simp]:
  "fmt \<noteq> ''anthropic'' \<Longrightarrow> fmt \<noteq> ''openai-responses'' \<Longrightarrow> event_text_of fmt (openai_sse_chunk now rid model c) = ck_delta c"
  using openai_chunk_text [of now rid model c] by (simp add: event_text_of_def openai_sse_chunk_def)

lemma openai_writes_text:
  assumes "fmt \<noteq> ''anthropic''" "fmt \<noteq> ''openai-responses''"
  shows "client_text fmt (openai_writes h c served) = ck_delta c"
  using assms by (auto simp: openai_writes_def Let_def event_text_of_def [of fmt Done_Event])

lemma responses_writes_text: "client_text ''openai-responses'' (responses_writes h c served) = ck_delta c"
  by (simp add: responses_writes_def event_text_of_def responses_sse_chunk_def responses_sse_done_def text_at_def
      member_def)

lemma anthropic_writes_text:
  assumes "streamer_at s p" and "anthropic_writes h s c served = (ws, s')"
  shows "client_text ''anthropic'' ws = ck_delta c" and "\<not> ck_done c \<Longrightarrow> \<exists>p'. streamer_at s' p'"
proof -
  obtain evs s1 where a: "streamer_delta s c = (evs, s1)" by (cases "streamer_delta s c")
  note A = streamer_delta_at [OF assms(1) a]
  obtain p1 where p1: "streamer_at s1 p1" using A(1) by blast
  obtain ending s2 where b: "streamer_done (hn_lib h) s1 (ck_finish_reason c) (ck_usage c) = (ending, s2)"
    by (cases "streamer_done (hn_lib h) s1 (ck_finish_reason c) (ck_usage c)")
  show "client_text ''anthropic'' ws = ck_delta c"
    using assms(2) a b A(2) streamer_done_at [OF p1 b]
    by (auto simp: anthropic_writes_def client_text_said split: if_splits)
  show "\<not> ck_done c \<Longrightarrow> \<exists>p'. streamer_at s' p'"
    using assms(2) a p1 by (auto simp: anthropic_writes_def)
qed

lemma stream_error_text [simp]: "client_text (rq_source_fmt req) (write_stream_error req msg) = []"
  by (simp add: write_stream_error_def event_text_of_def anthropic_error_event_def responses_sse_error_def
      openai_sse_error_def event_parts content_member_def)

definition streaming_ok :: "streaming \<Rightarrow> bool" where
  "streaming_ok s \<longleftrightarrow> (\<exists>p. streamer_at (sg_streamer s) p)"

lemma stream_start_ok: "streaming_ok (stream_start h)"
  by (auto simp: streaming_ok_def stream_start_def streamer_at_def new_streamer_def)

text \<open>The chunks whose text is written: those before the handler returns, but not an error's.\<close>

fun written :: "wake list \<Rightarrow> chunk_msg list" where
  "written [] = []"
| "written (w # ws) =
     (case w of
        Wake_Chunk c \<Rightarrow> if ck_done c \<and> ck_error c \<noteq> [] then [] else if ck_done c then [c] else c # written ws
      | Wake_Keep_Alive \<Rightarrow> written ws
      | Wake_Batch_Timeout \<Rightarrow> written ws
      | _ \<Rightarrow> [])"

lemma stream_chunk_text:
  assumes "streaming_ok s" and "stream_chunk h s c = (effs, r)"
  shows "client_text (rq_source_fmt (hn_req h)) effs = (if ck_done c \<and> ck_error c \<noteq> [] then [] else ck_delta c)"
    and "case r of None \<Rightarrow> ck_done c | Some s' \<Rightarrow> \<not> ck_done c \<and> streaming_ok s'"
proof -
  let ?served = "if ck_model c \<noteq> [] then ck_model c else sg_served s"
  obtain ws st where a: "anthropic_writes h (sg_streamer s) c ?served = (ws, st)"
    by (cases "anthropic_writes h (sg_streamer s) c ?served")
  from assms(1) obtain p where p: "streamer_at (sg_streamer s) p" by (auto simp: streaming_ok_def)
  note A = anthropic_writes_text [OF p a]
  show "client_text (rq_source_fmt (hn_req h)) effs = (if ck_done c \<and> ck_error c \<noteq> [] then [] else ck_delta c)"
    using assms(2) a A(1) openai_writes_text [of "rq_source_fmt (hn_req h)"] responses_writes_text
    by (auto simp: stream_chunk_def Let_def split: if_splits prod.splits)
  show "case r of None \<Rightarrow> ck_done c | Some s' \<Rightarrow> \<not> ck_done c \<and> streaming_ok s'"
    using assms a A(2)
    by (auto simp: stream_chunk_def Let_def streaming_ok_def split: if_splits prod.splits)
qed

lemma stream_run_text:
  assumes "streaming_ok s" and "handler_run (stream_step h) s ws = (effs, r)"
  shows "client_text (rq_source_fmt (hn_req h)) effs = concat (map ck_delta (written ws))"
  using assms
proof (induction ws arbitrary: s effs r)
  case Nil
  then show ?case by simp
next
  case (Cons w ws)
  show ?case
  proof (cases w)
    case (Wake_Chunk c)
    obtain e r1 where st: "stream_chunk h s c = (e, r1)" by (cases "stream_chunk h s c")
    note S = stream_chunk_text [OF Cons.prems(1) st]
    show ?thesis
    proof (cases r1)
      case None
      then show ?thesis using Cons.prems(2) st S Wake_Chunk by simp
    next
      case (Some s')
      obtain e' r' where run: "handler_run (stream_step h) s' ws = (e', r')" by (cases "handler_run (stream_step h) s' ws")
      then have "effs = e @ e'" using Cons.prems(2) st Some Wake_Chunk by simp
      then show ?thesis using Cons.IH [OF _ run] S Some Wake_Chunk by simp
    qed
  next
    case Wake_Keep_Alive
    obtain e' r' where run: "handler_run (stream_step h) s ws = (e', r')" by (cases "handler_run (stream_step h) s ws")
    then have "effs = Send_Ping # e'" using Cons.prems(2) Wake_Keep_Alive by simp
    then show ?thesis using Cons.IH [OF Cons.prems(1) run] Wake_Keep_Alive by simp
  next
    case Wake_Batch_Timeout
    obtain e' r' where run: "handler_run (stream_step h) s ws = (e', r')" by (cases "handler_run (stream_step h) s ws")
    then have "effs = e'" using Cons.prems(2) Wake_Batch_Timeout by simp
    then show ?thesis using Cons.IH [OF Cons.prems(1) run] Wake_Batch_Timeout by simp
  qed (use Cons.prems(2) in \<open>auto simp: caller_gone_def split: if_splits\<close>)
qed

section \<open>The ending of a stream\<close>

definition no_ending :: "string \<Rightarrow> effect list \<Rightarrow> bool" where
  "no_ending fmt effs \<longleftrightarrow> list_all (\<lambda>e. \<not> ends_stream fmt e) effs"

definition one_ending :: "string \<Rightarrow> effect list \<Rightarrow> bool" where
  "one_ending fmt effs \<longleftrightarrow> effs \<noteq> [] \<and> ends_stream fmt (last effs) \<and> no_ending fmt (butlast effs)"

lemma no_ending_simps [simp]:
  "no_ending fmt []" "no_ending fmt (e # es) \<longleftrightarrow> \<not> ends_stream fmt e \<and> no_ending fmt es"
  "no_ending fmt (xs @ ys) \<longleftrightarrow> no_ending fmt xs \<and> no_ending fmt ys"
  by (simp_all add: no_ending_def)

lemma one_ending_append: "no_ending fmt xs \<Longrightarrow> one_ending fmt ys \<Longrightarrow> one_ending fmt (xs @ ys)"
  by (auto simp: one_ending_def butlast_append)

lemma ends_stream_others [simp]:
  "\<not> ends_stream fmt Send_Ping" "\<not> ends_stream fmt (Forward_Chunk c)" "\<not> ends_stream fmt Cancel_Work"
  "\<not> ends_stream fmt (Record_Usage m u)" "\<not> ends_stream fmt Hand_To_Pump"
  by (simp_all add: ends_stream_def)

lemma stats_no_ending [simp]: "no_ending fmt (record_stats req usage served)"
  by (simp add: record_stats_def split: option.split)

lemma protocol_over [simp]: "protocol_step Over x = None"
  by (cases x) simp_all

lemma protocol_other [simp]: "protocol_step p Says_Other = None"
  by (cases p) simp_all

lemma protocol_stop: "protocol_step p Says_Stop = Some q \<Longrightarrow> q = Over"
  by (cases p) simp_all

lemma protocol_to_over: "protocol_step p x = Some Over \<Longrightarrow> x = Says_Stop"
  by (cases "(p, x)" rule: protocol_step.cases) (auto split: if_splits)

lemma protocol_before_over:
  "protocol_run p ss = Some q \<Longrightarrow> q \<noteq> Over \<Longrightarrow> Says_Stop \<notin> set ss \<and> Says_Other \<notin> set ss"
proof (induction ss arbitrary: p)
  case Nil
  then show ?case by simp
next
  case (Cons x ss)
  then obtain p' where p': "protocol_step p x = Some p'" "protocol_run p' ss = Some q" by (auto split: option.splits)
  moreover have "p' \<noteq> Over" using p'(2) Cons.prems(2) by (cases ss) auto
  ultimately show ?case using Cons.IH [OF p'(2) Cons.prems(2)] protocol_stop by auto
qed

lemma protocol_at_over:
  "protocol_run p ss = Some Over \<Longrightarrow> p \<noteq> Over \<Longrightarrow> ss \<noteq> [] \<and> last ss = Says_Stop \<and>
     Says_Stop \<notin> set (butlast ss) \<and> Says_Other \<notin> set (butlast ss)"
proof (induction ss arbitrary: p)
  case Nil
  then show ?case by simp
next
  case (Cons x ss)
  then obtain p' where p': "protocol_step p x = Some p'" "protocol_run p' ss = Some Over" by (auto split: option.splits)
  show ?case
  proof (cases "p' = Over")
    case True
    then have "ss = []" using p'(2) by (cases ss) auto
    then show ?thesis using p'(1) True protocol_to_over by auto
  next
    case False
    then show ?thesis using Cons.IH [OF p'(2)] p'(1) protocol_stop by auto
  qed
qed

lemma anthropic_ending_says:
  "ends_stream ''anthropic'' (Send_Event ev) \<Longrightarrow> says ev = Says_Stop \<or> says ev = Says_Other"
  by (auto simp: ends_stream_def says_def split: sse_event.splits)

lemma says_stop_ends: "says ev = Says_Stop \<Longrightarrow> ends_stream ''anthropic'' (Send_Event ev)"
  by (auto simp: ends_stream_def says_def split: sse_event.splits if_splits option.splits)

lemma events_no_ending:
  "Says_Stop \<notin> set (map says evs) \<Longrightarrow> Says_Other \<notin> set (map says evs) \<Longrightarrow>
     no_ending ''anthropic'' (map Send_Event evs)"
  using anthropic_ending_says by (force simp: no_ending_def list_all_iff image_iff)

lemma streamer_at_open: "streamer_at s p \<Longrightarrow> p \<noteq> Over"
  by (auto simp: streamer_at_def split: if_splits)

lemma anthropic_writes_ending:
  assumes "streamer_at s p" and "anthropic_writes h s c served = (ws, s')"
  shows "if ck_done c then one_ending ''anthropic'' ws else no_ending ''anthropic'' ws"
proof -
  obtain evs s1 where a: "streamer_delta s c = (evs, s1)" by (cases "streamer_delta s c")
  note A = streamer_delta_at [OF assms(1) a]
  obtain p1 where p1: "protocol_run p (map says evs) = Some p1" "streamer_at s1 p1" using A(1) by blast
  have evs: "no_ending ''anthropic'' (map Send_Event evs)"
    using protocol_before_over [OF p1(1) streamer_at_open [OF p1(2)]] by (intro events_no_ending) auto
  obtain ending s2 where b: "streamer_done (hn_lib h) s1 (ck_finish_reason c) (ck_usage c) = (ending, s2)"
    by (cases "streamer_done (hn_lib h) s1 (ck_finish_reason c) (ck_usage c)")
  have run: "protocol_run p1 (map says ending) = Some Over" using streamer_done_at [OF p1(2) b] by blast
  note over = protocol_at_over [OF run streamer_at_open [OF p1(2)]]
  have "one_ending ''anthropic'' (map Send_Event ending)"
    using over says_stop_ends [of "last ending"] events_no_ending [of "butlast ending"]
    by (auto simp: one_ending_def last_map map_butlast)
  then show ?thesis
    using assms(2) a b evs by (auto simp: anthropic_writes_def intro!: one_ending_append split: if_splits)
qed

lemma stream_error_ending: "one_ending (rq_source_fmt req) (write_stream_error req msg)"
  by (simp add: one_ending_def write_stream_error_def ends_stream_def anthropic_error_event_def typed_event_def
      responses_sse_error_def openai_sse_error_def text_at_def member_def)

lemma openai_writes_ending:
  assumes "fmt \<noteq> ''anthropic''" "fmt \<noteq> ''openai-responses''"
  shows "if ck_done c then one_ending fmt (openai_writes h c served) else no_ending fmt (openai_writes h c served)"
  using assms
  by (auto simp: openai_writes_def Let_def ends_stream_def openai_sse_chunk_def one_ending_def butlast_append)

lemma responses_writes_ending:
  "if ck_done c then one_ending ''openai-responses'' (responses_writes h c served)
   else no_ending ''openai-responses'' (responses_writes h c served)"
  by (auto simp: responses_writes_def ends_stream_def responses_sse_chunk_def responses_sse_done_def text_at_def
      member_def one_ending_def butlast_append)

lemma stream_chunk_ending:
  assumes "streaming_ok s" and "stream_chunk h s c = (effs, r)"
  shows "if ck_done c then one_ending (rq_source_fmt (hn_req h)) effs else no_ending (rq_source_fmt (hn_req h)) effs"
proof -
  let ?served = "if ck_model c \<noteq> [] then ck_model c else sg_served s"
  let ?fmt = "rq_source_fmt (hn_req h)"
  obtain ws st where a: "anthropic_writes h (sg_streamer s) c ?served = (ws, st)"
    by (cases "anthropic_writes h (sg_streamer s) c ?served")
  from assms(1) obtain p where p: "streamer_at (sg_streamer s) p" by (auto simp: streaming_ok_def)
  have fwd: "no_ending ?fmt (if hn_original h then [Forward_Chunk c] else [])" by simp
  show ?thesis
  proof (cases "ck_done c \<and> ck_error c \<noteq> []")
    case True
    then have "effs = (if hn_original h then [Forward_Chunk c] else []) @ record_stats (hn_req h) None ?served @
        write_stream_error (hn_req h) (ck_error c)"
      using assms(2) by (auto simp: stream_chunk_def Let_def)
    then show ?thesis using True stream_error_ending
      by (simp only: if_True) (intro one_ending_append fwd stats_no_ending stream_error_ending)
  next
    case False
    define writes where "writes = (if ?fmt = ''anthropic'' then ws
      else if ?fmt = ''openai-responses'' then responses_writes h c ?served else openai_writes h c ?served)"
    have "fst (stream_chunk h s c) = (if hn_original h then [Forward_Chunk c] else []) @ writes"
      unfolding stream_chunk_def Let_def writes_def if_not_P [OF False] using a
      by (cases "?fmt = ''anthropic''"; cases "?fmt = ''openai-responses''") simp_all
    then have effs: "effs = (if hn_original h then [Forward_Chunk c] else []) @ writes"
      using assms(2) by simp
    have "if ck_done c then one_ending ?fmt writes else no_ending ?fmt writes"
      using anthropic_writes_ending [OF p a] openai_writes_ending [of ?fmt c h ?served]
        responses_writes_ending [of c h ?served]
      by (cases "?fmt = ''anthropic''"; cases "?fmt = ''openai-responses''"; cases "ck_done c")
        (simp_all only: writes_def if_True if_False simp_thms)
    then show ?thesis unfolding effs using fwd one_ending_append by (simp split: if_splits)
  qed
qed

lemma stream_run_ending:
  assumes "streaming_ok s" and "handler_run (stream_step h) s ws = (effs, r)"
  shows "case r of
      Some s' \<Rightarrow> no_ending (rq_source_fmt (hn_req h)) effs
    | None \<Rightarrow> list_ex (\<lambda>w. \<exists>b. w = Wake_Gone b) ws \<or> one_ending (rq_source_fmt (hn_req h)) effs"
  using assms
proof (induction ws arbitrary: s effs r)
  case Nil
  then show ?case by auto
next
  case (Cons w ws)
  let ?fmt = "rq_source_fmt (hn_req h)"
  have keep: ?case
    if "stream_step h s w = (e, Some s')" "streaming_ok s'" "no_ending ?fmt e" for e s'
  proof -
    obtain e' r' where run: "handler_run (stream_step h) s' ws = (e', r')" by (cases "handler_run (stream_step h) s' ws")
    then have "effs = e @ e'" "r = r'" using Cons.prems(2) that(1) by auto
    then show ?thesis using Cons.IH [OF that(2) run] that(3) by (auto split: option.splits intro: one_ending_append)
  qed
  have stop: ?case if "stream_step h s w = (e, None)" "one_ending ?fmt e" for e
    using Cons.prems(2) that by auto
  show ?case
  proof (cases w)
    case (Wake_Chunk c)
    obtain e r1 where st: "stream_chunk h s c = (e, r1)" by (cases "stream_chunk h s c")
    show ?thesis
      using keep [of e] stop [of e] st Wake_Chunk stream_chunk_ending [OF Cons.prems(1) st]
        stream_chunk_text(2) [OF Cons.prems(1) st]
      by (cases r1) auto
  next
    case (Wake_Gone b)
    then show ?thesis using Cons.prems(2) by auto
  next
    case Wake_No_First
    show ?thesis
      by (rule stop) (auto simp: Wake_No_First intro!: one_ending_append [of _ "[Cancel_Work]", simplified] stream_error_ending)
  next
    case Wake_Silent
    show ?thesis
      by (rule stop) (auto simp: Wake_Silent intro!: one_ending_append [of _ "[Cancel_Work]", simplified] stream_error_ending)
  next
    case Wake_Closed
    then show ?thesis using stop stream_error_ending by simp
  qed (use keep Cons.prems(1) in auto)
qed

text \<open>
  C34. A stream delivers exactly what the worker sent and ends exactly once: in each of the three
  dialects, whatever chunks, keep-alives and timeouts a streaming handler meets, the text a client
  reads is the text of the chunks in order; while the handler runs it has written no ending, and
  once it returns (other than for a caller that is gone) it has written one, as its last event.
\<close>

theorem stream_delivers_exactly:
  assumes "handler_run (stream_step h) (stream_start h) ws = (effs, r)"
  shows "client_text (rq_source_fmt (hn_req h)) effs = concat (map ck_delta (written ws)) \<and>
    (if r = None
     then list_ex (\<lambda>w. \<exists>b. w = Wake_Gone b) ws \<or> one_ending (rq_source_fmt (hn_req h)) effs
     else no_ending (rq_source_fmt (hn_req h)) effs)"
  using stream_run_text [OF stream_start_ok assms] stream_run_ending [OF stream_start_ok assms]
  by (auto split: option.splits)

end
