(* ===== verification/Batch_Properties.thy ===== *)
theory Batch_Properties
  imports Response_Properties Correlation
begin

text \<open>
  Batch answers: which document a caller gets, how often the work is tried, that no handler leaves
  work running for nobody, and three places where the handlers fall short of their comments.
\<close>

section \<open>The document\<close>

fun documents :: "effect list \<Rightarrow> (int \<times> json) list" where
  "documents [] = []"
| "documents (e # es) = (case e of Send_Document code j \<Rightarrow> [(code, j)] | _ \<Rightarrow> []) @ documents es"

fun queued_again :: "effect list \<Rightarrow> inference_request list" where
  "queued_again [] = []"
| "queued_again (e # es) = (case e of Queue_Again r \<Rightarrow> [r] | _ \<Rightarrow> []) @ queued_again es"

lemma documents_append [simp]: "documents (xs @ ys) = documents xs @ documents ys"
  by (induction xs) simp_all

lemma queued_again_append [simp]: "queued_again (xs @ ys) = queued_again xs @ queued_again ys"
  by (induction xs) simp_all

lemma stats_writes_nothing [simp]:
  "documents (record_stats req usage served) = []" "queued_again (record_stats req usage served) = []"
  by (simp_all add: record_stats_def split: option.split)

text \<open>The chunks of the attempt that is under way, and how many attempts timed out before it.\<close>

fun this_attempt :: "chunk_msg list \<Rightarrow> wake list \<Rightarrow> chunk_msg list" where
  "this_attempt acc [] = acc"
| "this_attempt acc (w # ws) =
     this_attempt (case w of Wake_Chunk c \<Rightarrow> acc @ [c] | Wake_Batch_Timeout \<Rightarrow> [] | _ \<Rightarrow> acc) ws"

definition timeouts :: "wake list \<Rightarrow> int" where
  "timeouts ws = int (length (filter (\<lambda>w. w = Wake_Batch_Timeout) ws))"

lemma this_attempt_snoc:
  "this_attempt acc (ws @ [w]) =
     (case w of Wake_Chunk c \<Rightarrow> this_attempt acc ws @ [c] | Wake_Batch_Timeout \<Rightarrow> [] | _ \<Rightarrow> this_attempt acc ws)"
  by (induction ws arbitrary: acc) (simp_all split: wake.split)

lemma timeouts_snoc [simp]:
  "timeouts [] = 0" "timeouts (ws @ [w]) = timeouts ws + (if w = Wake_Batch_Timeout then 1 else 0)"
  by (simp_all add: timeouts_def)

text \<open>The answer one attempt's chunks amount to.\<close>

definition whole_answer :: "handling \<Rightarrow> chunk_msg list \<Rightarrow> json" where
  "whole_answer h cs =
     (let req = hn_req h; content = concat (map ck_delta cs); tools = last_tools [] cs; usage = ck_usage (last cs);
          finish = (if ck_finish_reason (last cs) \<noteq> [] then ck_finish_reason (last cs) else ''stop'')
      in if rq_source_fmt req = ''anthropic''
         then anthropic_full_response (hn_lib h) (rq_id req) (rq_model req) content finish tools usage
         else if rq_source_fmt req = ''openai-responses''
         then responses_full_response (hn_now h) (rq_id req) (rq_model req) content usage
         else openai_full_response (hn_now h) (rq_id req) (rq_model req) content finish tools usage)"

definition batch_holds :: "handling \<Rightarrow> batching \<Rightarrow> chunk_msg list \<Rightarrow> bool" where
  "batch_holds h b acc \<longleftrightarrow>
     bt_req b = (hn_req h)\<lparr>rq_attempts := rq_attempts (bt_req b)\<rparr> \<and>
     bt_text b = concat (map ck_delta acc) \<and> bt_tool_calls b = last_tools [] acc \<and>
     bt_usage b = None \<and> bt_finish b = ''stop''"

lemma last_tools_snoc:
  "last_tools t (cs @ [c]) = (if ck_tool_calls_delta c = [] then last_tools t cs else ck_tool_calls_delta c)"
  by (induction cs arbitrary: t) simp_all

lemma batch_start_holds: "batch_holds h (batch_start h) []"
  by (simp add: batch_holds_def batch_start_def)

lemma batch_chunk_cases:
  assumes "batch_holds h b acc" and "batch_chunk h b c = (effs, r)"
  shows "if ck_done c
    then r = None \<and> documents effs =
      [if ck_error c \<noteq> [] then (502, error_body ''worker_error'' (ck_error c)) else (200, whole_answer h (acc @ [c]))]
    else documents effs = [] \<and> (\<exists>b'. r = Some b' \<and> batch_holds h b' (acc @ [c]) \<and> bt_req b' = bt_req b)"
    and "queued_again effs = []"
proof -
  let ?fwd = "if hn_original h then [Forward_Chunk c] else []"
  let ?served = "if ck_model c \<noteq> [] then ck_model c else bt_served b"
  have fwd: "documents ?fwd = []" "queued_again ?fwd = []" by simp_all
  have req: "rq_id (bt_req b) = rq_id (hn_req h)" "rq_model (bt_req b) = rq_model (hn_req h)"
    "rq_source_fmt (bt_req b) = rq_source_fmt (hn_req h)"
    using assms(1) unfolding batch_holds_def by (metis inference_request.select_convs inference_request.surjective
        inference_request.update_convs(18))+
  consider "ck_done c" "ck_error c \<noteq> []" | "ck_done c" "ck_error c = []" | "\<not> ck_done c" by blast
  then have both: "(if ck_done c
    then r = None \<and> documents effs =
      [if ck_error c \<noteq> [] then (502, error_body ''worker_error'' (ck_error c)) else (200, whole_answer h (acc @ [c]))]
    else documents effs = [] \<and> (\<exists>b'. r = Some b' \<and> batch_holds h b' (acc @ [c]) \<and> bt_req b' = bt_req b)) \<and>
    queued_again effs = []"
  proof cases
    case 1
    then show ?thesis using assms(2) fwd by (auto simp: batch_chunk_def Let_def worker_error_def)
  next
    case 2
    let ?doc = "write_batch h (bt_req b) (bt_text b @ ck_delta c)
      (if ck_finish_reason c \<noteq> [] then ck_finish_reason c else bt_finish b)
      (if ck_tool_calls_delta c \<noteq> [] then ck_tool_calls_delta c else bt_tool_calls b)
      (case ck_usage c of Some u \<Rightarrow> Some u | None \<Rightarrow> bt_usage b) ?served"
    have "batch_chunk h b c = (?fwd @ ?doc, None)"
      unfolding batch_chunk_def Let_def using 2 by (simp split del: if_split cong: if_cong option.case_cong)
    then have "effs = ?fwd @ ?doc" "r = None" using assms(2) by simp_all
    moreover have "documents ?doc = [(200, whole_answer h (acc @ [c]))]" "queued_again ?doc = []"
      using assms(1) req
      by (auto simp: write_batch_def whole_answer_def batch_holds_def last_tools_snoc Let_def split: option.split)
    ultimately show ?thesis using 2 fwd by simp
  next
    case 3
    then show ?thesis using assms fwd
      by (auto simp: batch_chunk_def Let_def batch_holds_def last_tools_snoc)
  qed
  then show "if ck_done c
    then r = None \<and> documents effs =
      [if ck_error c \<noteq> [] then (502, error_body ''worker_error'' (ck_error c)) else (200, whole_answer h (acc @ [c]))]
    else documents effs = [] \<and> (\<exists>b'. r = Some b' \<and> batch_holds h b' (acc @ [c]) \<and> bt_req b' = bt_req b)"
    and "queued_again effs = []" by blast+
qed

section \<open>Runs of the batch handler\<close>

definition attempt_no :: "handling \<Rightarrow> int \<Rightarrow> inference_request" where
  "attempt_no h k = (hn_req h)\<lparr>rq_attempts := rq_attempts (hn_req h) + k\<rparr>"

definition batch_invariant :: "handling \<Rightarrow> wake list \<Rightarrow> effect list \<Rightarrow> batching \<Rightarrow> bool" where
  "batch_invariant h ws effs b \<longleftrightarrow>
     batch_holds h b (this_attempt [] ws) \<and> bt_req b = attempt_no h (timeouts ws) \<and> documents effs = [] \<and>
     queued_again effs = map (attempt_no h) [1..timeouts ws] \<and>
     (timeouts ws = 0 \<or> rq_attempts (hn_req h) + timeouts ws < max_attempts)"

lemma timeouts_nonneg [simp]: "0 \<le> timeouts ws"
  by (simp add: timeouts_def)

lemma upto_snoc: "0 \<le> k \<Longrightarrow> [1..k + 1] = [1..k] @ [k + (1::int)]"
  using upto_split1 [of 1 "k + 1"] by (simp add: upto_rec2)

lemma caller_gone_writes_nothing [simp]:
  "documents (caller_gone h b) = []" "queued_again (caller_gone h b) = []"
  by (simp_all add: caller_gone_def)

lemma batch_timeout_cases:
  assumes "batch_invariant h ws effs b"
  shows "if rq_attempts (hn_req h) + timeouts ws + 1 < max_attempts
    then \<exists>e b'. batch_timeout h b = (e, Some b') \<and> documents e = [] \<and>
      queued_again e = [attempt_no h (timeouts ws + 1)] \<and> bt_req b' = attempt_no h (timeouts ws + 1) \<and>
      batch_holds h b' []
    else batch_timeout h b = ([service_unavailable ''request timed out'', Cancel_Work], None)"
  using assms
  by (simp add: batch_invariant_def batch_timeout_def attempt_no_def batch_holds_def Let_def add.assoc)

lemma batch_run_invariant:
  "handler_run (batch_step h) (batch_start h) ws = (effs, Some b) \<Longrightarrow> batch_invariant h ws effs b"
proof (induction ws arbitrary: effs b rule: rev_induct)
  case Nil
  then show ?case
    using batch_start_holds [of h] by (auto simp: batch_invariant_def attempt_no_def batch_start_def)
next
  case (snoc w ws)
  from snoc.prems obtain e1 b1 e2 where run: "handler_run (batch_step h) (batch_start h) ws = (e1, Some b1)"
    and st: "batch_step h b1 w = (e2, Some b)" and effs: "effs = e1 @ e2"
    by (auto simp: handler_run_append split: prod.splits option.splits)
  note I = snoc.IH [OF run]
  then have I': "batch_holds h b1 (this_attempt [] ws)" "bt_req b1 = attempt_no h (timeouts ws)"
    "documents e1 = []" "queued_again e1 = map (attempt_no h) [1..timeouts ws]"
    "timeouts ws = 0 \<or> rq_attempts (hn_req h) + timeouts ws < max_attempts"
    by (simp_all add: batch_invariant_def)
  show ?case
  proof (cases w)
    case (Wake_Chunk c)
    then have "batch_chunk h b1 c = (e2, Some b)" using st by simp
    from batch_chunk_cases [OF I'(1) this] show ?thesis
      using I' effs Wake_Chunk by (auto simp: batch_invariant_def this_attempt_snoc split: if_splits)
  next
    case Wake_Batch_Timeout
    then show ?thesis using st batch_timeout_cases [OF I] I' effs
      by (auto simp: batch_invariant_def this_attempt_snoc upto_snoc split: if_splits)
  qed (use st I' effs in \<open>auto simp: batch_invariant_def this_attempt_snoc\<close>)
qed

text \<open>What the step that ends a batch answers, and whether a wake is such a step.\<close>

definition batch_reply :: "handling \<Rightarrow> chunk_msg list \<Rightarrow> wake \<Rightarrow> (int \<times> json) list" where
  "batch_reply h cs w =
     (case w of
        Wake_Chunk c \<Rightarrow>
          [if ck_error c \<noteq> [] then (502, error_body ''worker_error'' (ck_error c))
           else (200, whole_answer h (cs @ [c]))]
      | Wake_Closed \<Rightarrow> [(503, error_body ''service_unavailable'' ''response ended unexpectedly'')]
      | Wake_Batch_Timeout \<Rightarrow> [(503, error_body ''service_unavailable'' ''request timed out'')]
      | _ \<Rightarrow> [])"

definition ends_batch :: "handling \<Rightarrow> wake list \<Rightarrow> wake \<Rightarrow> bool" where
  "ends_batch h ws w =
     (case w of
        Wake_Chunk c \<Rightarrow> ck_done c
      | Wake_Closed \<Rightarrow> True
      | Wake_Gone b \<Rightarrow> True
      | Wake_Batch_Timeout \<Rightarrow> rq_attempts (hn_req h) + timeouts ws + 1 \<ge> max_attempts
      | _ \<Rightarrow> False)"

lemma batch_step_replies:
  assumes inv: "batch_invariant h ws effs b" and st: "batch_step h b w = (e, r)"
  shows "(r = None \<longleftrightarrow> ends_batch h ws w) \<and>
    documents e = (if ends_batch h ws w then batch_reply h (this_attempt [] ws) w else [])"
proof (cases w)
  case (Wake_Chunk c)
  from inv have "batch_holds h b (this_attempt [] ws)" by (simp add: batch_invariant_def)
  moreover from st Wake_Chunk have "batch_chunk h b c = (e, r)" by simp
  ultimately show ?thesis using batch_chunk_cases(1) Wake_Chunk
    by (fastforce simp: ends_batch_def batch_reply_def split: if_splits)
next
  case Wake_Batch_Timeout
  then show ?thesis using st batch_timeout_cases [OF inv]
    by (auto simp: ends_batch_def batch_reply_def service_unavailable_def split: if_splits)
qed (use st in \<open>auto simp: ends_batch_def batch_reply_def service_unavailable_def\<close>)


text \<open>
  A batch request is tried a bounded number of times: what the handler has queued again is, in
  order, the same request with its attempts counted up one by one, and the count stays below
  MaxAttempts.
\<close>

theorem batch_attempts_bounded:
  assumes "handler_run (batch_step h) (batch_start h) ws = (effs, Some b)"
  shows "queued_again effs = map (attempt_no h) [1..timeouts ws] \<and>
    (timeouts ws = 0 \<or> rq_attempts (hn_req h) + timeouts ws < max_attempts)"
  using batch_run_invariant [OF assms] by (simp add: batch_invariant_def)

section \<open>Nobody's work\<close>

text \<open>
  The work behind an answer is over (its last chunk came, or its channel was closed), is being
  cancelled, or is somebody else's.
\<close>

definition work_settled :: "wake \<Rightarrow> effect list \<Rightarrow> bool" where
  "work_settled w effs \<longleftrightarrow>
     (case w of Wake_Chunk c \<Rightarrow> ck_done c | Wake_Closed \<Rightarrow> True | _ \<Rightarrow> False) \<or>
     list_ex (\<lambda>e. e = Cancel_Work \<or> e = Hand_To_Pump) effs"

lemma stream_returns_settled: "stream_step h s w = (effs, None) \<Longrightarrow> work_settled w effs"
  by (cases w) (auto simp: work_settled_def caller_gone_def stream_chunk_def Let_def split: if_splits prod.splits)

lemma batch_returns_settled: "batch_step h b w = (effs, None) \<Longrightarrow> work_settled w effs"
  by (cases w) (auto simp: work_settled_def caller_gone_def batch_chunk_def batch_timeout_def Let_def split: if_splits)

lemma pump_returns_settled: "pump_step w followers = (effs, None) \<Longrightarrow> work_settled w effs"
  by (cases w) (auto simp: pump_step_def work_settled_def split: if_splits)

lemma pump_releases:
  "pump_step w followers = (effs, None) \<Longrightarrow> Delete_Channel \<in> set effs \<and> Unregister_Entry \<in> set effs"
  by (cases w) (auto simp: pump_step_def split: if_splits)

text \<open>
  No handler leaves work running that nobody reads: whichever of the three loops returns, for
  whatever reason, the work is over, is cancelled in that step or was handed to a pump; a handler
  hands it over only when it is an entry's original with followers left, and a pump that returns
  has released both the channel and the entry.
\<close>

theorem handlers_never_abandon_work:
  "(stream_step h s w = (effs, None) \<longrightarrow> work_settled w effs) \<and>
   (batch_step h b w = (effs, None) \<longrightarrow> work_settled w effs) \<and>
   (pump_step w followers = (effs, None) \<longrightarrow>
      work_settled w effs \<and> Hand_To_Pump \<notin> set effs \<and>
      Delete_Channel \<in> set effs \<and> Unregister_Entry \<in> set effs) \<and>
   (Hand_To_Pump \<in> set (caller_gone h gone) \<longleftrightarrow> hn_original h \<and> gone)"
  using stream_returns_settled batch_returns_settled pump_returns_settled pump_releases
  by (auto simp: caller_gone_def pump_step_def split: wake.splits if_splits)

section \<open>Where the handlers fall short\<close>

definition plain_chunk :: "string \<Rightarrow> bool \<Rightarrow> chunk_msg" where
  "plain_chunk s final = \<lparr>ck_request_id = [], ck_delta = s, ck_tool_calls_delta = [], ck_reasoning_delta = [],
     ck_done = final, ck_finish_reason = (if final then ''stop'' else []), ck_usage = None, ck_model = [],
     ck_error = []\<rparr>"

text \<open>
  A follower's batch timeout truncates its answer: a coalesced caller whose timer fires while
  the original is answering forgets the text it has, queues a request of its own under an id that
  no channel was created for, and later answers 200 with only the rest of the original's text.
\<close>

theorem follower_timeout_truncates:
  "let follower = \<lparr>hn_lib = lib, hn_req = (zero_request\<lparr>rq_id := ''f1'', rq_source_fmt := ''openai''\<rparr>),
         hn_original = False, hn_now = now\<rparr>;
       run = handler_run (batch_step follower) (batch_start follower)
         [Wake_Chunk (plain_chunk said False), Wake_Batch_Timeout, Wake_Chunk (plain_chunk rest True)]
   in documents (fst run) = [(200, openai_full_response now ''f1'' [] rest ''stop'' [] None)] \<and>
      map rq_id (queued_again (fst run)) = [''f1'']"
  by (simp add: plain_chunk_def batch_start_def batch_chunk_def batch_timeout_def write_batch_def
      record_stats_def max_attempts_def zero_request_def Let_def)

text \<open>
  A shutdown reads as an answer: the terminal chunk that draining the channels delivers carries
  no error text, so a batch caller that has received part of an answer gets it with status 200.
\<close>

theorem drain_reads_as_success:
  "let caller = \<lparr>hn_lib = lib, hn_req = (zero_request\<lparr>rq_id := ''r1'', rq_source_fmt := ''openai''\<rparr>),
         hn_original = True, hn_now = now\<rparr>
   in documents (fst (handler_run (batch_step caller) (batch_start caller)
        [Wake_Chunk (plain_chunk said False), Wake_Chunk (final_chunk ''r1'')])) =
      [(200, openai_full_response now ''r1'' [] said ''error'' [] None)]"
  by (simp add: plain_chunk_def batch_start_def batch_chunk_def write_batch_def final_chunk_def
      record_stats_def zero_request_def Let_def)

text \<open>
  The loop that throws away what a cancelled attempt left in the channel. It has no case for a
  closed channel, which is always ready to be received from.
\<close>

partial_function (option) discard_stale :: "'a chan \<Rightarrow> 'a chan option" where
  "discard_stale ch = (case recv_chan ch of (x, ch') \<Rightarrow> (case x of Nothing_Yet \<Rightarrow> Some ch' | _ \<Rightarrow> discard_stale ch'))"

lemma discard_open:
  "\<not> cn_closed ch \<Longrightarrow> discard_stale ch = Some (ch\<lparr>cn_buf := []\<rparr>)"
proof (induction "cn_buf ch" arbitrary: ch)
  case Nil
  then show ?case by (subst discard_stale.simps) (simp add: recv_chan_def)
next
  case (Cons x xs)
  then show ?case
    using Cons.hyps(1) [of "ch\<lparr>cn_buf := xs\<rparr>"]
    by (subst discard_stale.simps) (simp add: recv_chan_def flip: Cons.hyps(2))
qed

lemma discard_closed:
  assumes "discard_stale ch = Some ch'"
  shows "\<not> cn_closed ch"
proof (rule discard_stale.raw_induct [where P = "\<lambda>ch _. \<not> cn_closed ch", OF _ assms])
  fix f :: "'a chan \<Rightarrow> 'a chan option" and ch ch'
  assume rest: "\<And>ch ch'. f ch = Some ch' \<Longrightarrow> \<not> cn_closed ch"
    and loop: "(case recv_chan ch of (x, ch') \<Rightarrow> (case x of Nothing_Yet \<Rightarrow> Some ch' | _ \<Rightarrow> f ch')) = Some ch'"
  show "\<not> cn_closed ch"
  proof (cases "cn_buf ch")
    case Nil
    then show ?thesis using loop rest [of ch ch'] by (cases "cn_closed ch") (auto simp: recv_chan_def)
  next
    case (Cons x xs)
    then have "f (ch\<lparr>cn_buf := xs\<rparr>) = Some ch'" using loop by (simp add: recv_chan_def)
    from rest [OF this] show ?thesis by simp
  qed
qed

text \<open>
  Throwing away stale chunks ends, with the channel empty, exactly when the channel is open: on a
  closed one the loop receives for ever and the handler never returns.
\<close>

theorem discarding_ends_iff_open:
  "discard_stale ch = (if cn_closed ch then None else Some (ch\<lparr>cn_buf := []\<rparr>))"
  using discard_open [of ch] discard_closed [of ch] by (cases "discard_stale ch") auto

end
