(* ===== verification/Go_Text.thy ===== *)
theory Go_Text
  imports Go_Prelude
begin

text \<open>
  White space and splitting as packages \<open>strings\<close> and \<open>unicode\<close> have them, on UTF-8 bytes. The
  encoding of a space begins with a byte that no other encoding holds, so looking for one where a
  rune may begin is the same as decoding there.
\<close>

section \<open>White space\<close>

definition bytes_of :: "nat list \<Rightarrow> string" where
  "bytes_of = map char_of"

text \<open>\<open>unicode.IsSpace\<close>: the encodings of its 25 runes.\<close>

definition spaces :: "string list" where
  "spaces = map bytes_of
     ([[9], [10], [11], [12], [13], [32], [0xC2, 0x85], [0xC2, 0xA0], [0xE1, 0x9A, 0x80]] @
      map (\<lambda>n. [0xE2, 0x80, n]) [0x80..<0x8B] @
      [[0xE2, 0x80, 0xA8], [0xE2, 0x80, 0xA9], [0xE2, 0x80, 0xAF], [0xE2, 0x81, 0x9F], [0xE3, 0x80, 0x80]])"

text \<open>How many bytes of the first of these strings \<open>s\<close> begins with; \<open>0\<close> when with none.\<close>

definition width_among :: "string list \<Rightarrow> string \<Rightarrow> nat" where
  "width_among es s = (case find (has_prefix s) es of None \<Rightarrow> 0 | Some e \<Rightarrow> length e)"

lemma has_prefix_append: "has_prefix s p \<longleftrightarrow> (\<exists>t. s = p @ t)"
  unfolding has_prefix_def by (metis append_eq_conv_conj append_take_drop_id)

lemma width_among_le: "width_among es s \<le> length s"
  by (auto simp: width_among_def find_Some_iff has_prefix_append split: option.split)

function drop_among :: "string list \<Rightarrow> string \<Rightarrow> string" where
  "drop_among es s = (case width_among es s of 0 \<Rightarrow> s | Suc n \<Rightarrow> drop_among es (drop (Suc n) s))"
  by auto

termination drop_among
proof (relation "measure (\<lambda>(es, s). length s)")
  fix es :: "string list" and s :: string and n :: nat
  assume "width_among es s = Suc n"
  then show "((es, drop (Suc n) s), (es, s)) \<in> measure (\<lambda>(es, s). length s)"
    using width_among_le [of es s] by auto
qed simp

declare drop_among.simps [simp del]

definition trim_left :: "string \<Rightarrow> string" where
  "trim_left s = drop_among spaces s"

definition trim_right :: "string \<Rightarrow> string" where
  "trim_right s = rev (drop_among (map rev spaces) (rev s))"

definition trim_space :: "string \<Rightarrow> string" where
  "trim_space s = trim_right (trim_left s)"

text \<open>\<open>strings.Fields\<close>, of which only the number of fields is used.\<close>

function fields_from :: "bool \<Rightarrow> string \<Rightarrow> int" where
  "fields_from inside s =
     (case s of
        [] \<Rightarrow> if inside then 1 else 0
      | c # cs \<Rightarrow>
          (case width_among spaces s of
             0 \<Rightarrow> fields_from True cs
           | Suc n \<Rightarrow> (if inside then 1 else 0) + fields_from False (drop (Suc n) s)))"
  by auto

termination fields_from
  by (relation "measure (\<lambda>(inside, s). length s)") auto

declare fields_from.simps [simp del]

definition count_fields :: "string \<Rightarrow> int" where
  "count_fields s = fields_from False s"

section \<open>Splitting\<close>

text \<open>\<open>strings.Split\<close> at a single byte.\<close>

fun split_on :: "char \<Rightarrow> string \<Rightarrow> string list" where
  "split_on c [] = [[]]"
| "split_on c (x # xs) =
     (if x = c then [] # split_on c xs
      else (case split_on c xs of [] \<Rightarrow> [[x]] | p # ps \<Rightarrow> (x # p) # ps))"

lemma split_on_not_Nil [simp]: "split_on c s \<noteq> []"
  by (cases s) (auto split: list.split)

lemma join_split [simp]: "join_with [c] (split_on c s) = s"
proof (induction s)
  case Nil
  then show ?case by simp
next
  case (Cons x xs)
  show ?case
    using Cons.IH by (cases "split_on c xs" rule: remdups_adj.cases) auto
qed

lemma split_on_free: "p \<in> set (split_on c s) \<Longrightarrow> c \<notin> set p"
proof (induction s arbitrary: p)
  case Nil
  then show ?case by simp
next
  case (Cons x xs)
  show ?case
    using Cons.prems Cons.IH by (cases "split_on c xs") (auto split: if_splits)
qed

section \<open>Facts\<close>

lemma drop_among_suffix: "\<exists>p. s = p @ drop_among es s"
proof (induction es s rule: drop_among.induct)
  case (1 es s)
  show ?case
  proof (cases "width_among es s")
    case 0
    then show ?thesis by (subst drop_among.simps) simp
  next
    case (Suc n)
    from 1 [OF Suc] obtain p where p: "drop (Suc n) s = p @ drop_among es (drop (Suc n) s)" by blast
    have step: "drop_among es s = drop_among es (drop (Suc n) s)"
      by (subst drop_among.simps) (simp add: Suc)
    have "s = (take (Suc n) s @ p) @ drop_among es s" unfolding step using p by (metis append_assoc append_take_drop_id)
    then show ?thesis by blast
  qed
qed

lemma drop_among_stops: "width_among es (drop_among es s) = 0"
proof (induction es s rule: drop_among.induct)
  case (1 es s)
  show ?case
  proof (cases "width_among es s")
    case 0
    then show ?thesis by (subst drop_among.simps) simp
  next
    case (Suc n)
    then show ?thesis using 1 by (subst drop_among.simps) simp
  qed
qed

lemma drop_among_done: "width_among es s = 0 \<Longrightarrow> drop_among es s = s"
  by (subst drop_among.simps) simp

lemma drop_among_length: "length (drop_among es s) \<le> length s"
  using drop_among_suffix [of s es] by (metis length_append le_add2)

lemma count_fields_nonneg: "0 \<le> fields_from b s"
proof (induction b s rule: fields_from.induct)
  case (1 b s)
  then show ?case by (subst fields_from.simps) (auto split: list.split nat.split)
qed

lemma count_fields_bound: "fields_from b s \<le> int (length s) + (if b then 1 else 0)"
proof (induction b s rule: fields_from.induct)
  case (1 b s)
  show ?case
  proof (cases s)
    case Nil
    then show ?thesis by (simp add: fields_from.simps)
  next
    case (Cons c cs)
    show ?thesis
    proof (cases "width_among spaces s")
      case 0
      then show ?thesis using 1(1) [OF Cons] Cons by (subst fields_from.simps) simp
    next
      case (Suc n)
      have "Suc n \<le> length s" using width_among_le [of spaces s] Suc by simp
      then show ?thesis using 1(2) [OF Cons Suc] Cons Suc by (subst fields_from.simps) auto
    qed
  qed
qed

end
