(* ===== verification/Reqopt.thy ===== *)
theory Reqopt
  imports Json_Values Go_Text
begin

text \<open>
  \<open>router/internal/reqopt/reqopt.go\<close>: what is done to a request before anything looks at it, and
  the key of its opening turns. A string read from JSON is valid UTF-8, so \<open>collapseSpaces\<close>, which
  goes rune by rune, is modelled on its bytes.
\<close>

section \<open>Strings\<close>

definition plain_string :: "json_lib \<Rightarrow> raw_json \<Rightarrow> string option" where
  "plain_string L raw =
     (case raw of
        [] \<Rightarrow> None
      | c # cs \<Rightarrow>
          if c \<noteq> CHR 0x22 then None
          else (case jl_view L raw of Some (V_String s) \<Rightarrow> Some s | _ \<Rightarrow> None))"

definition is_empty_content :: "raw_json \<Rightarrow> bool" where
  "is_empty_content raw = (let s = trim_space raw in s = [] \<or> s = ''null'' \<or> s = ''[]'')"

definition blank :: "char \<Rightarrow> bool" where
  "blank c \<longleftrightarrow> c = CHR '' '' \<or> c = CHR 0x09"

fun collapse_from :: "bool \<Rightarrow> string \<Rightarrow> string" where
  "collapse_from prev [] = []"
| "collapse_from prev (c # cs) =
     (if blank c then (if prev then [] else '' '') @ collapse_from True cs
      else c # collapse_from False cs)"

definition collapse_spaces :: "string \<Rightarrow> string" where
  "collapse_spaces s = collapse_from False s"

definition trim_blanks_right :: "string \<Rightarrow> string" where
  "trim_blanks_right s = rev (dropWhile blank (rev s))"

definition trim_string :: "string \<Rightarrow> bool \<Rightarrow> string" where
  "trim_string s aggressive =
     (let t = trim_space s
      in if \<not> aggressive \<or> t = [] then t
         else join_with [CHR 0x0A] (map (\<lambda>l. trim_blanks_right (collapse_spaces l)) (split_on CHR 0x0A t)))"

section \<open>Requests\<close>

definition clamp :: "rat \<Rightarrow> rat \<Rightarrow> rat" where
  "clamp upper x = (if x < 0 then 0 else if x > upper then upper else x)"

definition clamp_params :: "inference_request \<Rightarrow> inference_request" where
  "clamp_params req =
     req\<lparr>rq_temperature := map_option (clamp 2) (rq_temperature req),
         rq_top_p := map_option (clamp 1) (rq_top_p req)\<rparr>"

definition tool_payload :: "message \<Rightarrow> bool" where
  "tool_payload m \<longleftrightarrow> ms_tool_calls m \<noteq> [] \<or> ms_tool_call_id m \<noteq> []"

text \<open>One turn of the loop: the message to keep, \<open>None\<close> for the \<open>continue\<close>s.\<close>

definition clean_message :: "json_lib \<Rightarrow> bool \<Rightarrow> message \<Rightarrow> message option" where
  "clean_message L aggressive m =
     (case plain_string L (ms_content m) of
        Some s \<Rightarrow>
          (let t = trim_string s aggressive
           in if t = [] \<and> \<not> tool_payload m then None
              else (case jl_text L (J_String t) of Some b \<Rightarrow> Some (m\<lparr>ms_content := b\<rparr>) | None \<Rightarrow> Some m))
      | None \<Rightarrow> if is_empty_content (ms_content m) \<and> \<not> tool_payload m then None else Some m)"

definition clean :: "json_lib \<Rightarrow> inference_request \<Rightarrow> request_optimization \<Rightarrow> inference_request" where
  "clean L req opts =
     (let req1 = (if op_clamp_params opts then clamp_params req else req)
      in if \<not> op_clean_requests opts then req1
         else (let cleaned = List.map_filter (clean_message L (op_clean_aggressive opts)) (rq_messages req1)
               in if cleaned \<noteq> [] then req1\<lparr>rq_messages := cleaned\<rparr> else req1))"

text \<open>The messages up to and with the first user turn.\<close>

fun first_turns :: "message list \<Rightarrow> message list" where
  "first_turns [] = []"
| "first_turns (m # ms) = (if ms_role m = ''user'' then [m] else m # first_turns ms)"

definition prefix_key :: "(string \<Rightarrow> string) \<Rightarrow> inference_request \<Rightarrow> string" where
  "prefix_key sha req =
     (if rq_messages req = [] then []
      else sha (rq_model req @ [CHR 0x00] @
        concat (map (\<lambda>m. ms_role m @ [CHR 0x00] @ ms_content m @ [CHR 0x00]) (first_turns (rq_messages req)))))"

section \<open>Lemmas\<close>

lemma width_zero_iff:
  "[] \<notin> set es \<Longrightarrow> width_among es s = 0 \<longleftrightarrow> list_all (\<lambda>e. \<not> has_prefix s e) es"
  by (induction es) (auto simp: width_among_def)

lemma spaces_not_Nil: "[] \<notin> set spaces" "[] \<notin> set (map rev spaces)"
  by (simp_all add: spaces_def bytes_of_def)

lemma trim_right_prefix: "\<exists>t. s = trim_right s @ t"
proof -
  from drop_among_suffix [of "rev s" "map rev spaces"] obtain p where
    "rev s = p @ drop_among (map rev spaces) (rev s)" by blast
  then have "s = trim_right s @ rev p" unfolding trim_right_def by (metis rev_append rev_rev_ident)
  then show ?thesis by blast
qed

lemma trim_space_idem: "trim_space (trim_space s) = trim_space s"
proof -
  let ?u = "trim_left s" and ?t = "trim_space s"
  have u: "width_among spaces ?u = 0" by (simp add: trim_left_def drop_among_stops)
  obtain r where r: "?u = ?t @ r" using trim_right_prefix [of ?u] by (auto simp: trim_space_def)
  have "width_among spaces ?t = 0"
    using u r unfolding width_zero_iff [OF spaces_not_Nil(1)] list_all_iff has_prefix_append
    by (metis append_assoc)
  then have "trim_left ?t = ?t" by (simp add: trim_left_def drop_among_done)
  moreover have "width_among (map rev spaces) (rev ?t) = 0"
    by (simp add: trim_space_def trim_right_def drop_among_stops)
  then have "trim_right ?t = ?t" by (simp add: trim_right_def drop_among_done)
  ultimately show ?thesis by (simp add: trim_space_def)
qed

lemma clamp_range: "0 \<le> upper \<Longrightarrow> 0 \<le> clamp upper x \<and> clamp upper x \<le> upper"
  by (simp add: clamp_def)

lemma clamp_same: "0 \<le> x \<Longrightarrow> x \<le> upper \<Longrightarrow> clamp upper x = x"
  by (simp add: clamp_def)

text \<open>What the code relies on: a string is written as a string literal.\<close>

definition writes_strings :: "json_lib \<Rightarrow> bool" where
  "writes_strings L \<longleftrightarrow> (\<forall>s b. jl_text L (J_String s) = Some b \<longrightarrow>
     (\<exists>t cs. jl_view L b = Some (V_String t) \<and> b = CHR 0x22 # cs))"

lemma writes_strings_plain:
  "writes_strings L \<Longrightarrow> jl_text L (J_String s) = Some b \<Longrightarrow> \<exists>t. plain_string L b = Some t"
  by (fastforce simp: writes_strings_def plain_string_def)

text \<open>Content that is neither a plain string nor empty: parts, tool blocks.\<close>

definition structured :: "json_lib \<Rightarrow> message \<Rightarrow> bool" where
  "structured L m \<longleftrightarrow> plain_string L (ms_content m) = None \<and> \<not> is_empty_content (ms_content m)"

definition tool_part :: "message \<Rightarrow> string \<times> raw_json \<times> string \<times> string" where
  "tool_part m = (ms_role m, ms_tool_calls m, ms_tool_call_id m, ms_name m)"

lemma clean_message_cases:
  assumes "writes_strings L"
  shows "case clean_message L aggr m of
      None \<Rightarrow> \<not> tool_payload m \<and> \<not> structured L m
    | Some m' \<Rightarrow> tool_part m' = tool_part m \<and> tool_payload m' = tool_payload m \<and>
        structured L m' = structured L m \<and> (structured L m \<longrightarrow> m' = m)"
  using writes_strings_plain [OF assms]
  by (fastforce simp: clean_message_def structured_def tool_part_def tool_payload_def Let_def split: option.splits)

lemma map_filter_agree:
  assumes "\<And>m. case f m of None \<Rightarrow> \<not> P m | Some m' \<Rightarrow> P m' = P m \<and> (P m \<longrightarrow> g m' = g m)"
  shows "map g (filter P (List.map_filter f ms)) = map g (filter P ms)"
proof (induction ms)
  case Nil
  then show ?case by (simp add: map_filter_Nil)
next
  case (Cons m ms)
  then show ?case using assms [of m] by (cases "f m") (auto simp: map_filter_Cons)
qed

text \<open>
  C40. Cleaning a request loses nothing that carries meaning: the tool part of every message with a
  tool payload is still there, in order; structured content is untouched, in order; a conversation
  is never emptied; and nothing but messages and the two sampling parameters changes, which end in
  [0, 2] and [0, 1] when clamping is on and are unchanged when they were there already.
\<close>

theorem cleaning_loses_nothing:
  assumes "writes_strings L"
  shows "map tool_part (filter tool_payload (rq_messages (clean L req opts))) =
      map tool_part (filter tool_payload (rq_messages req)) \<and>
    filter (structured L) (rq_messages (clean L req opts)) = filter (structured L) (rq_messages req) \<and>
    (rq_messages (clean L req opts) = [] \<longleftrightarrow> rq_messages req = []) \<and>
    clean L req opts = req\<lparr>rq_messages := rq_messages (clean L req opts),
      rq_temperature := (if op_clamp_params opts then map_option (clamp 2) (rq_temperature req) else rq_temperature req),
      rq_top_p := (if op_clamp_params opts then map_option (clamp 1) (rq_top_p req) else rq_top_p req)\<rparr> \<and>
    (op_clamp_params opts \<longrightarrow>
      (\<forall>t. rq_temperature (clean L req opts) = Some t \<longrightarrow> 0 \<le> t \<and> t \<le> 2) \<and>
      (\<forall>p. rq_top_p (clean L req opts) = Some p \<longrightarrow> 0 \<le> p \<and> p \<le> 1))"
proof -
  let ?f = "clean_message L (op_clean_aggressive opts)"
  have tools: "map tool_part (filter tool_payload (List.map_filter ?f ms)) = map tool_part (filter tool_payload ms)" for ms
  proof (rule map_filter_agree)
    show "case ?f m of None \<Rightarrow> \<not> tool_payload m
      | Some m' \<Rightarrow> tool_payload m' = tool_payload m \<and> (tool_payload m \<longrightarrow> tool_part m' = tool_part m)" for m
      using clean_message_cases [OF assms, of m "op_clean_aggressive opts"] by (cases "?f m") simp_all
  qed
  have "map (\<lambda>m. m) (filter (structured L) (List.map_filter ?f ms)) = map (\<lambda>m. m) (filter (structured L) ms)" for ms
  proof (rule map_filter_agree)
    show "case ?f m of None \<Rightarrow> \<not> structured L m
      | Some m' \<Rightarrow> structured L m' = structured L m \<and> (structured L m \<longrightarrow> m' = m)" for m
      using clean_message_cases [OF assms, of m "op_clean_aggressive opts"] by (cases "?f m") simp_all
  qed
  then have parts: "filter (structured L) (List.map_filter ?f ms) = filter (structured L) ms" for ms by simp
  have msgs: "rq_messages (clean L req opts) = rq_messages req \<or>
      (rq_messages (clean L req opts) = List.map_filter ?f (rq_messages req) \<and> rq_messages (clean L req opts) \<noteq> [])"
    by (simp add: clean_def clamp_params_def Let_def)
  have rest: "clean L req opts = req\<lparr>rq_messages := rq_messages (clean L req opts),
      rq_temperature := (if op_clamp_params opts then map_option (clamp 2) (rq_temperature req) else rq_temperature req),
      rq_top_p := (if op_clamp_params opts then map_option (clamp 1) (rq_top_p req) else rq_top_p req)\<rparr>"
    by (simp add: clean_def clamp_params_def Let_def)
  have range: "op_clamp_params opts \<longrightarrow>
      (\<forall>t. rq_temperature (clean L req opts) = Some t \<longrightarrow> 0 \<le> t \<and> t \<le> 2) \<and>
      (\<forall>p. rq_top_p (clean L req opts) = Some p \<longrightarrow> 0 \<le> p \<and> p \<le> 1)"
    by (subst (1 2) rest) (auto simp: clamp_range)
  have "rq_messages (clean L req opts) = [] \<longleftrightarrow> rq_messages req = []"
    using msgs by (auto simp: map_filter_Nil)
  with msgs tools parts rest range show ?thesis by metis
qed

lemma first_turns_append: "ms_role ` set ms \<inter> {''user''} \<noteq> {} \<Longrightarrow> first_turns (ms @ turns) = first_turns ms"
  by (induction ms) auto

text \<open>
  A conversation keeps its key: whatever turns are appended after the first user turn, and
  whatever else of the request changes, the key that routes it to a warm cache is the same.
\<close>

theorem prefix_key_stable:
  assumes "''user'' \<in> ms_role ` set (rq_messages req)"
    and "rq_messages later = rq_messages req @ turns" and "rq_model later = rq_model req"
  shows "prefix_key sha later = prefix_key sha req"
proof -
  have "first_turns (rq_messages later) = first_turns (rq_messages req)"
    unfolding assms(2) by (rule first_turns_append) (use assms(1) in auto)
  then show ?thesis using assms by (auto simp: prefix_key_def)
qed

end
