(* ===== verification/Serving_Witnesses.thy ===== *)
theory Serving_Witnesses
  imports Dedup_Properties Correlation_Safety Batch_Properties Reqopt
begin

text \<open>
  The properties of the serving path at concrete inputs: two callers that share one answer, a send
  and a delete that meet, a stream and a batch of two chunks, and a conversation with a tool call.
\<close>

section \<open>Two callers and one answer\<close>

fun run_checked :: "bool \<Rightarrow> dedup_world \<Rightarrow> dedup_op list \<Rightarrow> dedup_world option" where
  "run_checked safe w [] = Some w"
| "run_checked safe w (a # as) =
     (if disciplined safe w a
      then (case dedup_step w a of None \<Rightarrow> None | Some w' \<Rightarrow> run_checked safe w' as)
      else None)"

lemma run_checked_reach: "dedup_reach safe w \<Longrightarrow> run_checked safe w as = Some w' \<Longrightarrow> dedup_reach safe w'"
  by (induction as arbitrary: w) (auto split: if_splits option.splits intro: reach_step)

definition shared_run :: "dedup_op list" where
  "shared_run = [Op_Join ''h'', Op_Forward ''h'' (text_of ''It is '' False), Op_Join ''h'',
     Op_Forward ''h'' (text_of ''4'' True)]"

definition shared_world :: dedup_world where
  "shared_world = the (run_checked True dedup_start shared_run)"

lemma shared_world_reach: "dedup_reach True shared_world"
proof -
  have "run_checked True dedup_start shared_run \<noteq> None" by code_simp
  then have "run_checked True dedup_start shared_run = Some shared_world" by (simp add: shared_world_def)
  then show ?thesis by (rule run_checked_reach [OF reach_start])
qed

definition shared_follower :: follower where
  "shared_follower = hd (dw_followers shared_world)"

lemma shared_facts:
  "shared_follower \<in> set (dw_followers shared_world)"
  "follower_stream (dw_reg shared_world) shared_follower = [text_of ''It is '' False, text_of ''4'' True]"
  "fo_hash shared_follower = ''h''" "fo_live shared_follower = Some 0"
  by code_simp+


definition joined_world :: dedup_world where
  "joined_world = the (run_checked True dedup_start (take 3 shared_run))"

theorem coalescing_strands_nobody_witness:
  "has_subscribers (dw_reg joined_world) ''h'' \<and> dedup_step joined_world (Op_Unregister ''h'') \<noteq> None"
proof -
  have "run_checked True dedup_start (take 3 shared_run) \<noteq> None" by code_simp
  then have "run_checked True dedup_start (take 3 shared_run) = Some joined_world" by (simp add: joined_world_def)
  then have reach: "dedup_reach True joined_world" by (rule run_checked_reach [OF reach_start])
  have f: "hd (dw_followers joined_world) \<in> set (dw_followers joined_world)"
    "fo_live (hd (dw_followers joined_world)) = Some 0" "fo_hash (hd (dw_followers joined_world)) = ''h''"
    "map_option cn_closed (mget (rg_chans (dw_reg joined_world)) 0) = Some False"
    by code_simp+
  then have "open_in (rg_chans (dw_reg joined_world)) 0" by (auto simp: open_in_def)
  with f show ?thesis using coalescing_strands_nobody [OF reach, of _ "hd (dw_followers joined_world)" 0] by metis
qed

section \<open>A send and a delete\<close>

fun corr_run_from :: "corr_store \<Rightarrow> corr_action list \<Rightarrow> corr_store option" where
  "corr_run_from s [] = Some s"
| "corr_run_from s (a # as) = (case corr_step s a of Next s' \<Rightarrow> corr_run_from s' as | _ \<Rightarrow> None)"

lemma corr_run_from_reach: "corr_reach s \<Longrightarrow> corr_run_from s as = Some s' \<Longrightarrow> corr_reach s'"
  by (induction as arbitrary: s) (auto split: corr_outcome.splits intro: corr_run)

definition meeting :: corr_store where
  "meeting = the (corr_run_from corr_new
     [Do_Create ''r1'', Do_Send (text_of ''4'' True), Do_Delete ''r1'', Do_Close 0])"

lemma meeting_reach: "corr_reach meeting"
proof -
  have "corr_run_from corr_new [Do_Create ''r1'', Do_Send (text_of ''4'' True), Do_Delete ''r1'', Do_Close 0] \<noteq> None"
    by code_simp
  then have "corr_run_from corr_new [Do_Create ''r1'', Do_Send (text_of ''4'' True), Do_Delete ''r1'', Do_Close 0] =
      Some meeting" by (simp add: meeting_def)
  then show ?thesis by (rule corr_run_from_reach [OF corr_start])
qed

theorem senders_never_meet_a_closed_channel_witness:
  "corr_step meeting (Do_Select 0 Take_Send) \<noteq> Panic"
  using senders_never_meet_a_closed_channel [OF meeting_reach] by blast

theorem closing_is_never_stuck_witness:
  "\<exists>j s'. send_select meeting j Take_Done = Next s'"
proof -
  have h: "0 < length (co_closing meeting)" "cl_phase (co_closing meeting ! 0) = Await_Senders" by code_simp+
  have "close_step meeting 0 = Blocked" by code_simp
  then show ?thesis using closing_is_never_stuck [OF meeting_reach h] by auto
qed

section \<open>Answers\<close>

definition no_json :: json_lib where
  "no_json = \<lparr>jl_view = (\<lambda>_. None), jl_same_key = (=), jl_text = (\<lambda>_. None)\<rparr>"

definition two_chunks :: "chunk_msg list" where
  "two_chunks = [plain_chunk ''It is '' False, plain_chunk ''4'' False]"


definition a_caller :: handling where
  "a_caller = \<lparr>hn_lib = no_json, hn_req = (zero_request\<lparr>rq_id := ''r1'', rq_source_fmt := ''openai''\<rparr>),
     hn_original = True, hn_now = 7\<rparr>"

definition two_wakes :: "wake list" where
  "two_wakes = [Wake_Chunk (plain_chunk ''It is '' False), Wake_Keep_Alive, Wake_Chunk (plain_chunk ''4'' True)]"

theorem stream_delivers_exactly_witness:
  "\<exists>effs. handler_run (stream_step a_caller) (stream_start a_caller) two_wakes = (effs, None) \<and>
     client_text ''openai'' effs = ''It is 4'' \<and> one_ending ''openai'' effs"
proof -
  obtain effs r where run: "handler_run (stream_step a_caller) (stream_start a_caller) two_wakes = (effs, r)"
    by (cases "handler_run (stream_step a_caller) (stream_start a_caller) two_wakes")
  have "snd (handler_run (stream_step a_caller) (stream_start a_caller) two_wakes) = None"
    by (simp add: two_wakes_def a_caller_def stream_chunk_def plain_chunk_def Let_def zero_request_def)
  then have "r = None" using run by simp
  moreover have "rq_source_fmt (hn_req a_caller) = ''openai''" by (simp add: a_caller_def)
  moreover have "concat (map ck_delta (written two_wakes)) = ''It is 4''" by (simp add: two_wakes_def plain_chunk_def)
  moreover have "\<not> list_ex (\<lambda>w. \<exists>b. w = Wake_Gone b) two_wakes" by (simp add: two_wakes_def)
  ultimately show ?thesis using run stream_delivers_exactly [OF run] by auto
qed

definition a_retry :: "wake list" where
  "a_retry = [Wake_Chunk (plain_chunk ''It is '' False), Wake_Batch_Timeout, Wake_Chunk (plain_chunk ''Just '' False)]"

lemma a_retry_run: "\<exists>effs b. handler_run (batch_step a_caller) (batch_start a_caller) a_retry = (effs, Some b)"
proof -
  have "snd (handler_run (batch_step a_caller) (batch_start a_caller) a_retry) \<noteq> None"
    by (simp add: a_retry_def a_caller_def batch_start_def batch_chunk_def batch_timeout_def plain_chunk_def
        Let_def zero_request_def max_attempts_def)
  then show ?thesis
    by (cases "handler_run (batch_step a_caller) (batch_start a_caller) a_retry") auto
qed


theorem batch_attempts_bounded_witness:
  "\<exists>effs b. handler_run (batch_step a_caller) (batch_start a_caller) a_retry = (effs, Some b) \<and>
     map rq_attempts (queued_again effs) = [1]"
proof -
  obtain effs b where run: "handler_run (batch_step a_caller) (batch_start a_caller) a_retry = (effs, Some b)"
    using a_retry_run by blast
  have "timeouts a_retry = 1" by (simp add: a_retry_def timeouts_def)
  with batch_attempts_bounded [OF run] run show ?thesis
    by (simp add: attempt_no_def a_caller_def zero_request_def)
qed

theorem handlers_never_abandon_work_witness:
  "work_settled Wake_Silent (fst (pump_step Wake_Silent True))"
  using handlers_never_abandon_work [where w = Wake_Silent and followers = True and
      effs = "[Cancel_Work, Delete_Channel, Unregister_Entry]"]
  by (simp add: pump_step_def)

section \<open>Requests\<close>

definition quoting_json :: json_lib where
  "quoting_json =
     \<lparr>jl_view = (\<lambda>raw. if length raw \<ge> 2 \<and> hd raw = CHR 0x22 then Some (V_String (butlast (tl raw))) else None),
      jl_same_key = (=),
      jl_text = (\<lambda>j. case j of J_String s \<Rightarrow> Some (CHR 0x22 # s @ [CHR 0x22]) | _ \<Rightarrow> None)\<rparr>"

definition a_message :: "string \<Rightarrow> raw_json \<Rightarrow> raw_json \<Rightarrow> message" where
  "a_message role content tools =
     \<lparr>ms_role = role, ms_content = content, ms_tool_calls = tools, ms_tool_call_id = [], ms_name = []\<rparr>"

definition a_conversation :: inference_request where
  "a_conversation = zero_request\<lparr>rq_model := ''m'', rq_temperature := Some 5,
     rq_messages := [a_message ''user'' [CHR 0x22, CHR '' '', CHR 0x22] [],
       a_message ''assistant'' ''null'' ''[{}]'', a_message ''user'' ''[1]'' []]\<rparr>"

definition all_opts :: request_optimization where
  "all_opts = \<lparr>op_coalesce_normalize = True, op_prefix_affinity = True, op_clean_requests = True,
     op_clean_aggressive = True, op_clamp_params = True\<rparr>"

theorem cleaning_loses_nothing_witness:
  "map tool_part (filter tool_payload (rq_messages (clean quoting_json a_conversation all_opts))) =
     [(''assistant'', ''[{}]'', [], [])]"
proof -
  have "writes_strings quoting_json" by (auto simp: writes_strings_def quoting_json_def)
  then show ?thesis using cleaning_loses_nothing [of quoting_json a_conversation all_opts]
    by (simp add: a_conversation_def a_message_def tool_payload_def tool_part_def)
qed

theorem prefix_key_stable_witness:
  "prefix_key (\<lambda>s. s) (a_conversation\<lparr>rq_messages := rq_messages a_conversation @ [a_message ''user'' ''[2]'' []]\<rparr>) =
   prefix_key (\<lambda>s. s) a_conversation"
  by (rule prefix_key_stable [where turns = "[a_message ''user'' ''[2]'' []]"])
    (simp_all add: a_conversation_def a_message_def)

end
