(* ===== verification/Admission.thy ===== *)
theory Admission
  imports Reqopt Responses Request_Queue Hub_Views Dedup Correlation Access_Isolation
begin

text \<open>
  \<open>router/internal/api/handler.go\<close>, the admitting half: \<open>enqueue\<close> from the first look at the key to
  the request in the queue, or the refusal. The collaborators are the ones the handler has, each
  optional where a nil one is; \<open>router_front\<close> connects them as \<open>main.go\<close> does. A refusal keeps what
  its document says instead of the document's text. The handler is one step: what it reads from
  the hub does not change under it.
\<close>

section \<open>Requests over HTTP\<close>

record http_request =
  hq_authorization :: string
  hq_path :: string
  hq_forwarded :: string
  hq_remote :: string
  hq_body :: "string option"

definition extract_bearer :: "http_request \<Rightarrow> string" where
  "extract_bearer q =
     (if \<not> has_prefix (hq_authorization q) ''Bearer '' then []
      else trim_prefix (hq_authorization q) ''Bearer '')"

text \<open>\<open>net.SplitHostPort\<close>, of which only the host is used; \<open>None\<close> is an error.\<close>

definition index_of_byte :: "char \<Rightarrow> string \<Rightarrow> nat option" where
  "index_of_byte c s = (let n = length (takeWhile (\<lambda>x. x \<noteq> c) s) in if n < length s then Some n else None)"

definition split_host :: "string \<Rightarrow> string option" where
  "split_host hp =
     (case cut_last_byte CHR '':'' hp of
        None \<Rightarrow> None
      | Some (before, _) \<Rightarrow>
          (let i = length before
           in if hp ! 0 = CHR ''[''
              then (case index_of_byte CHR '']'' hp of
                      None \<Rightarrow> None
                    | Some e \<Rightarrow>
                        if e + 1 \<noteq> i then None
                        else if CHR ''['' \<in> set (drop 1 hp) then None
                        else if CHR '']'' \<in> set (drop (e + 1) hp) then None
                        else Some (drop 1 (take e hp)))
              else if CHR '':'' \<in> set before then None
              else if CHR ''['' \<in> set hp \<or> CHR '']'' \<in> set hp then None
              else Some before))"

definition policy_ip :: "bool \<Rightarrow> http_request \<Rightarrow> string" where
  "policy_ip trust q =
     (if trust \<and> hq_forwarded q \<noteq> [] then trim_space (hd (split_on CHR '','' (hq_forwarded q)))
      else (case split_host (hq_remote q) of None \<Rightarrow> hq_remote q | Some host \<Rightarrow> host))"

section \<open>What messages carry\<close>

definition per_image_prompt_words :: int where "per_image_prompt_words = 600"
definition per_audio_prompt_words :: int where "per_audio_prompt_words = 400"
definition raw_fallback_word_cap :: int where "raw_fallback_word_cap = 4096"

definition add_modality :: "string \<Rightarrow> string list \<Rightarrow> string list" where
  "add_modality m ms = (if m = [] \<or> m \<in> set ms then ms else ms @ [m])"

definition part_of :: "json_lib \<Rightarrow> (string \<times> raw_json) list \<Rightarrow> (string \<times> string) option" where
  "part_of L ms =
     (case (text_field L ''type'' ms, text_field L ''text'' ms) of (Some t, Some s) \<Rightarrow> Some (t, s) | _ \<Rightarrow> None)"

definition analyze_part :: "string \<times> string \<Rightarrow> int \<times> string list \<Rightarrow> int \<times> string list" where
  "analyze_part p acc =
     (let words = fst acc + count_fields (snd p); m = modality_for_content_type (fst p)
      in if m = modality_vision \<or> m = modality_video then (words + per_image_prompt_words, add_modality m (snd acc))
         else if m = modality_audio then (words + per_audio_prompt_words, add_modality m (snd acc))
         else (words, snd acc))"

definition analyze_message :: "json_lib \<Rightarrow> message \<Rightarrow> int \<times> string list \<Rightarrow> int \<times> string list" where
  "analyze_message L m acc =
     (case as_text L (ms_content m) of
        Some s \<Rightarrow> (fst acc + count_fields s, snd acc)
      | None \<Rightarrow>
          (case as_structs L (part_of L) (ms_content m) of
             Some parts \<Rightarrow> fold analyze_part parts acc
           | None \<Rightarrow>
               (let n = count_fields (ms_content m)
                in (fst acc + (if n > raw_fallback_word_cap then raw_fallback_word_cap else n), snd acc))))"

definition analyze_messages :: "json_lib \<Rightarrow> inference_request \<Rightarrow> int \<times> string list" where
  "analyze_messages L req =
     (case fold (analyze_message L) (rq_messages req) (0, []) of (words, ms) \<Rightarrow> (words, sort ms))"

section \<open>The collaborators\<close>

type_synonym alias_map = "(string, string list) gomap"
type_synonym attr_table = "(string, (string, go_value) gomap) gomap"

record front =
  fn_json :: json_lib
  fn_hash :: hash_lib
  fn_valid_key :: "string \<Rightarrow> bool"
  fn_priority_for :: "string \<Rightarrow> priority"
  fn_owner_for :: "string \<Rightarrow> string"
  fn_label_for :: "string \<Rightarrow> string"
  fn_active_models :: "string list option"
  fn_alias_map :: "alias_map option"
  fn_opts :: "request_optimization option"
  fn_has_worker :: "(string \<Rightarrow> alias_map \<Rightarrow> bool) option"
  fn_max_context :: "(string \<Rightarrow> alias_map \<Rightarrow> int) option"
  fn_modality_verdict :: "(string \<Rightarrow> alias_map \<Rightarrow> string list \<Rightarrow> bool \<times> bool) option"
  fn_key_in_flight :: "(string \<Rightarrow> nat) option"
  fn_max_concurrent :: "(string \<Rightarrow> int) option"
  fn_authorize :: "(access_state \<Rightarrow> gotime \<Rightarrow> string \<Rightarrow> string \<Rightarrow> string \<Rightarrow> string list \<Rightarrow> attr_table \<Rightarrow>
     (string list \<times> string \<times> access_state) option) option"
  fn_model_attrs :: "(string \<Rightarrow> (string, go_value) gomap) list"
  fn_trust_proxy :: bool
  fn_coalesce :: bool
  fn_max_request_bytes :: int

record front_state =
  ft_queue :: queue
  ft_registry :: registry
  ft_channels :: corr_store
  ft_access :: access_state
  ft_count :: int
  ft_oversize :: int
  ft_multimodal :: int
  ft_wakes :: int

definition default_max_request_bytes :: int where "default_max_request_bytes = 8 * 2 ^ 20"
definition max_request_bytes_ceiling :: int where "max_request_bytes_ceiling = 15 * 2 ^ 20"

definition max_request_bytes :: "front \<Rightarrow> int" where
  "max_request_bytes F =
     (let n = (if fn_max_request_bytes F \<le> 0 then default_max_request_bytes else fn_max_request_bytes F)
      in if n > max_request_bytes_ceiling then max_request_bytes_ceiling else n)"

definition model_candidates :: "front \<Rightarrow> string \<Rightarrow> alias_map \<Rightarrow> string list" where
  "model_candidates F model aliases =
     (if model = ''any'' then (case fn_active_models F of None \<Rightarrow> [] | Some ms \<Rightarrow> ms)
      else (case mget aliases model of Some targets \<Rightarrow> targets | None \<Rightarrow> [model]))"

definition model_attr_table :: "front \<Rightarrow> string list \<Rightarrow> attr_table" where
  "model_attr_table F models =
     (if fn_model_attrs F = [] \<or> models = [] then []
      else fold (\<lambda>m out.
        let attrs = fold (\<lambda>src attrs. fold (\<lambda>(k, v) attrs. mput k v attrs) (src m) attrs) (fn_model_attrs F) []
        in if attrs = [] then out else mput m attrs out) models [])"

section \<open>Refusals\<close>

datatype refusal =
    Invalid_Key
  | Key_Busy
  | Body_Too_Large
  | Read_Failed
  | Bad_Body
  | No_Worker string
  | Unsupported_Input string "string list"
  | Too_Long int int string
  | Unknown_Model string "string list"
  | Model_Denied string string
  | Queue_Full

fun status_of :: "refusal \<Rightarrow> int" where
  "status_of Invalid_Key = 401"
| "status_of Key_Busy = 429"
| "status_of Body_Too_Large = 413"
| "status_of Read_Failed = 500"
| "status_of Bad_Body = 400"
| "status_of (No_Worker m) = 503"
| "status_of (Unsupported_Input m ms) = 400"
| "status_of (Too_Long needed most m) = 400"
| "status_of (Unknown_Model m available) = 400"
| "status_of (Model_Denied m reason) = 403"
| "status_of Queue_Full = 429"

text \<open>
  What admission comes to: a refusal; or the request goes on, as the original of an entry, as a
  follower with what it was given, or alone. \<open>Crashed\<close> is a panic in a collaborator.
\<close>

datatype admission =
    Refused refusal
  | Leading inference_request string
  | Following inference_request "chunk_msg list" "nat option"
  | Alone inference_request
  | Crashed

section \<open>The checks, in order\<close>

definition check_key :: "front \<Rightarrow> string \<Rightarrow> refusal option" where
  "check_key F key =
     (if key = [] \<or> \<not> fn_valid_key F key then Some Invalid_Key
      else (case (fn_max_concurrent F, fn_key_in_flight F) of
              (Some limits, Some in_flight) \<Rightarrow>
                if limits key > 0 \<and> int (in_flight (fn_label_for F key)) \<ge> limits key then Some Key_Busy else None
            | _ \<Rightarrow> None))"

definition shape :: "front \<Rightarrow> inference_request \<Rightarrow> inference_request" where
  "shape F req = (case fn_opts F of None \<Rightarrow> req | Some opts \<Rightarrow> clean (fn_json F) req opts)"

definition front_aliases :: "front \<Rightarrow> alias_map" where
  "front_aliases F = (case fn_alias_map F of None \<Rightarrow> [] | Some a \<Rightarrow> a)"

definition check_worker :: "front \<Rightarrow> inference_request \<Rightarrow> refusal option" where
  "check_worker F req =
     (case fn_has_worker F of
        None \<Rightarrow> None
      | Some has \<Rightarrow> if has (rq_model req) (front_aliases F) then None else Some (No_Worker (rq_model req)))"

definition check_modalities :: "front \<Rightarrow> inference_request \<Rightarrow> refusal option" where
  "check_modalities F req =
     (case fn_modality_verdict F of
        None \<Rightarrow> None
      | Some verdict \<Rightarrow>
          if rq_modalities req = [] then None
          else (case verdict (rq_model req) (front_aliases F) (rq_modalities req) of
                  (compatible, unknown) \<Rightarrow>
                    if \<not> compatible \<and> \<not> unknown
                    then Some (Unsupported_Input (rq_model req) (rq_modalities req)) else None))"

definition check_context :: "front \<Rightarrow> inference_request \<Rightarrow> int \<Rightarrow> refusal option" where
  "check_context F req words =
     (case fn_max_context F of
        None \<Rightarrow> None
      | Some max_ctx \<Rightarrow>
          if words \<le> 0 then None
          else (let most = max_ctx (rq_model req) (front_aliases F);
                    needed = estimate_tokens words (rq_max_tokens req)
                in if most > 0 \<and> needed > most then Some (Too_Long needed most (rq_model req)) else None))"

definition check_model :: "front \<Rightarrow> inference_request \<Rightarrow> refusal option" where
  "check_model F req =
     (case fn_active_models F of
        None \<Rightarrow> None
      | Some active \<Rightarrow>
          if rq_model req \<in> set active \<or>
             list_ex (\<lambda>t. t \<in> set active) (get_or [] (front_aliases F) (rq_model req))
          then None else Some (Unknown_Model (rq_model req) active))"

text \<open>The models the key may reach; a panic, or the refusal or the request with the permitted set.\<close>

definition check_access ::
  "front \<Rightarrow> gotime \<Rightarrow> http_request \<Rightarrow> string \<Rightarrow> inference_request \<Rightarrow> access_state \<Rightarrow>
     ((refusal + inference_request) \<times> access_state) option"
where
  "check_access F now q key req acc =
     (case fn_authorize F of
        None \<Rightarrow> Some (Inr req, acc)
      | Some authorize \<Rightarrow>
          (let candidates = model_candidates F (rq_model req) (front_aliases F)
           in case authorize acc now key (hq_path q) (policy_ip (fn_trust_proxy F) q) candidates
                     (model_attr_table F candidates) of
                None \<Rightarrow> None
              | Some (allowed, reason, acc') \<Rightarrow>
                  if allowed = [] then Some (Inl (Model_Denied (rq_model req) reason), acc')
                  else Some (Inr (req\<lparr>rq_allowed_models := Some allowed\<rparr>), acc')))"

section \<open>Into the queue\<close>

definition stamp :: "front \<Rightarrow> string \<Rightarrow> string \<Rightarrow> int \<Rightarrow> gotime \<Rightarrow> inference_request \<Rightarrow> inference_request" where
  "stamp F uuid key words now req =
     req\<lparr>rq_id := uuid, rq_priority := fn_priority_for F key, rq_owner := fn_owner_for F key,
         rq_api_key_label := fn_label_for F key, rq_word_count := words, rq_enqueued_at := now\<rparr>"

text \<open>
  A channel for the answer, then the queue. A full queue deletes the channel, and the deferred
  call deletes it once more.
\<close>

definition submit :: "front_state \<Rightarrow> inference_request \<Rightarrow> bool \<times> front_state" where
  "submit st req =
     (let chans = snd (create (ft_channels st) (rq_id req))
      in case try_push (ft_queue st) req of
           (False, _) \<Rightarrow>
             (False, st\<lparr>ft_channels := delete_start (delete_start chans (rq_id req)) (rq_id req)\<rparr>)
         | (True, queue) \<Rightarrow>
             (True, st\<lparr>ft_channels := chans, ft_queue := queue, ft_wakes := ft_wakes st + 1\<rparr>))"

definition dedup_scope :: "string \<Rightarrow> string list \<Rightarrow> string" where
  "dedup_scope owner allowed = owner @ ''|'' @ join_with '','' allowed"

definition coalesce_hash :: "front \<Rightarrow> string \<Rightarrow> inference_request \<Rightarrow> string" where
  "coalesce_hash F key req =
     content_hash_scoped (fn_hash F) req
       (case fn_opts F of None \<Rightarrow> False | Some opts \<Rightarrow> op_coalesce_normalize opts)
       (dedup_scope (fn_owner_for F key) (case rq_allowed_models req of None \<Rightarrow> [] | Some ms \<Rightarrow> ms))"

definition run_alone :: "front_state \<Rightarrow> inference_request \<Rightarrow> admission \<times> front_state" where
  "run_alone st req =
     (case submit st req of
        (True, st') \<Rightarrow> (Alone req, st')
      | (False, st') \<Rightarrow> (Refused Queue_Full, st'))"

definition launch ::
  "front \<Rightarrow> string \<Rightarrow> string \<Rightarrow> int \<Rightarrow> gotime \<Rightarrow> inference_request \<Rightarrow> front_state \<Rightarrow> admission \<times> front_state"
where
  "launch F uuid key words now req st =
     (let req' = stamp F uuid key words now req; counted = st\<lparr>ft_count := ft_count st + 1\<rparr>
      in if \<not> fn_coalesce F then run_alone counted req'
         else
           (let hash = coalesce_hash F key req
            in case register_or_subscribe (ft_registry st) hash of
                 (Role_Follower buf live, reg) \<Rightarrow> (Following req' buf live, counted\<lparr>ft_registry := reg\<rparr>)
               | (Role_Independent, reg) \<Rightarrow> run_alone (counted\<lparr>ft_registry := reg\<rparr>) req'
               | (Role_Original, reg) \<Rightarrow>
                   (case submit (counted\<lparr>ft_registry := reg\<rparr>) req' of
                      (True, st') \<Rightarrow> (Leading req' hash, st')
                    | (False, st') \<Rightarrow>
                        (case unregister (ft_registry st') hash of
                           None \<Rightarrow> (Crashed, st')
                         | Some reg' \<Rightarrow> (Refused Queue_Full, st'\<lparr>ft_registry := reg'\<rparr>)))))"

text \<open>After the body is read: everything up to the access check, and on.\<close>

definition admit ::
  "front \<Rightarrow> gotime \<Rightarrow> string \<Rightarrow> http_request \<Rightarrow> string \<Rightarrow> inference_request \<Rightarrow> front_state \<Rightarrow> admission \<times> front_state"
where
  "admit F now uuid q key req st =
     (case check_worker F req of
        Some e \<Rightarrow> (Refused e, st)
      | None \<Rightarrow>
          (let (words, ms) = analyze_messages (fn_json F) req;
               req1 = req\<lparr>rq_modalities := ms\<rparr>;
               st1 = (if ms \<noteq> [] then st\<lparr>ft_multimodal := ft_multimodal st + 1\<rparr> else st)
           in case check_modalities F req1 of
                Some e \<Rightarrow> (Refused e, st1)
              | None \<Rightarrow>
                  (case check_context F req1 words of
                     Some e \<Rightarrow> (Refused e, st1)
                   | None \<Rightarrow>
                       (case check_model F req1 of
                          Some e \<Rightarrow> (Refused e, st1)
                        | None \<Rightarrow>
                            (case check_access F now q key req1 (ft_access st1) of
                               None \<Rightarrow> (Crashed, st1)
                             | Some (Inl e, acc) \<Rightarrow> (Refused e, st1\<lparr>ft_access := acc\<rparr>)
                             | Some (Inr req2, acc) \<Rightarrow>
                                 launch F uuid key words now req2 (st1\<lparr>ft_access := acc\<rparr>))))))"

definition enqueue ::
  "front \<Rightarrow> (json_lib \<Rightarrow> string \<Rightarrow> inference_request option) \<Rightarrow> gotime \<Rightarrow> string \<Rightarrow> http_request \<Rightarrow> front_state \<Rightarrow>
     admission \<times> front_state"
where
  "enqueue F inbound now uuid q st =
     (let key = extract_bearer q
      in case check_key F key of
           Some e \<Rightarrow> (Refused e, st)
         | None \<Rightarrow>
             (case hq_body q of
                None \<Rightarrow> (Refused Read_Failed, st)
              | Some body \<Rightarrow>
                  if int (length body) > max_request_bytes F
                  then (Refused Body_Too_Large, st\<lparr>ft_oversize := ft_oversize st + 1\<rparr>)
                  else (case inbound (fn_json F) body of
                          None \<Rightarrow> (Refused Bad_Body, st)
                        | Some req \<Rightarrow> admit F now uuid q key (shape F req) st)))"

section \<open>Lists of models\<close>

definition permitted_models ::
  "front \<Rightarrow> gotime \<Rightarrow> http_request \<Rightarrow> string \<Rightarrow> string list \<Rightarrow> access_state \<Rightarrow> (string list option \<times> access_state) option"
where
  "permitted_models F now q key models acc =
     (case fn_authorize F of
        None \<Rightarrow> Some (None, acc)
      | Some authorize \<Rightarrow>
          (case authorize acc now key (hq_path q) (policy_ip (fn_trust_proxy F) q) models (model_attr_table F models) of
             None \<Rightarrow> None
           | Some (allowed, _, acc') \<Rightarrow> Some (Some allowed, acc')))"

definition may_list :: "string list option \<Rightarrow> string \<Rightarrow> bool" where
  "may_list permitted m = (case permitted of None \<Rightarrow> True | Some ms \<Rightarrow> m \<in> set ms)"

record model_entry =
  me_id :: string
  me_context_window :: int

definition alias_context :: "(string, int) gomap \<Rightarrow> string list \<Rightarrow> int" where
  "alias_context sizes targets =
     fold (\<lambda>t least. let ctx = get_or 0 sizes t
        in if ctx > 0 \<and> (least = 0 \<or> ctx < least) then ctx else least) targets 0"

definition alias_entry ::
  "(string, int) gomap \<Rightarrow> string list option \<Rightarrow> string \<times> string list \<Rightarrow> model_entry option"
where
  "alias_entry sizes permitted a =
     (let targets = filter (may_list permitted) (snd a)
      in if permitted \<noteq> None \<and> targets = [] then None
         else Some \<lparr>me_id = fst a, me_context_window = alias_context sizes targets\<rparr>)"

definition model_entries :: "front \<Rightarrow> model_info list \<Rightarrow> string list option \<Rightarrow> model_entry list" where
  "model_entries F infos permitted =
     (let sizes = fold (\<lambda>m out. mput (mi_name m) (mi_context_size m) out) infos []
      in map (\<lambda>m. \<lparr>me_id = mi_name m, me_context_window = mi_context_size m\<rparr>)
           (filter (\<lambda>m. may_list permitted (mi_name m)) infos) @
         List.map_filter (alias_entry sizes permitted) (front_aliases F))"

definition model_list ::
  "front \<Rightarrow> gotime \<Rightarrow> http_request \<Rightarrow> model_info list \<Rightarrow> access_state \<Rightarrow> (refusal + model_entry list) option"
where
  "model_list F now q infos acc =
     (let key = extract_bearer q
      in if key = [] \<or> \<not> fn_valid_key F key then Some (Inl Invalid_Key)
         else (case permitted_models F now q key (map mi_name infos) acc of
                 None \<Rightarrow> None
               | Some (permitted, _) \<Rightarrow> Some (Inr (model_entries F infos permitted))))"

record slot_entry =
  se_model :: string
  se_available :: int
  se_total :: int
  se_context_window :: int
  se_aliases :: "string list"

definition aliases_of :: "alias_map \<Rightarrow> string \<Rightarrow> string list" where
  "aliases_of aliases m = sort (concat (map (\<lambda>(a, ts). map (\<lambda>t. a) (filter (\<lambda>t. t = m) ts)) aliases))"

definition slot_entries :: "front \<Rightarrow> model_slots list \<Rightarrow> string list option \<Rightarrow> slot_entry list" where
  "slot_entries F slots permitted =
     sort_key se_model
       (map (\<lambda>s. \<lparr>se_model = sl_model s, se_available = sl_available s, se_total = sl_total s,
                  se_context_window = sl_context_size s, se_aliases = aliases_of (front_aliases F) (sl_model s)\<rparr>)
         (filter (\<lambda>s. sl_available s > 0 \<and> may_list permitted (sl_model s)) slots))"

definition model_slots_list ::
  "front \<Rightarrow> gotime \<Rightarrow> http_request \<Rightarrow> (string \<Rightarrow> model_slots list) \<Rightarrow> access_state \<Rightarrow> (refusal + slot_entry list) option"
where
  "model_slots_list F now q slots_by acc =
     (let key = extract_bearer q
      in if key = [] \<or> \<not> fn_valid_key F key then Some (Inl Invalid_Key)
         else (let slots = slots_by (fn_owner_for F key)
               in case permitted_models F now q key (map sl_model slots) acc of
                    None \<Rightarrow> None
                  | Some (permitted, _) \<Rightarrow> Some (Inr (slot_entries F slots permitted))))"

section \<open>The router's wiring\<close>

definition hub_attrs :: "hub \<Rightarrow> string \<Rightarrow> (string, go_value) gomap" where
  "hub_attrs h m =
     (let a = model_attrs_of h m
      in (case ma_context_size a of None \<Rightarrow> [] | Some n \<Rightarrow> [(''context_size'', Val_Float (float_of_int n))]) @
         (case ma_modalities a of None \<Rightarrow> [] | Some ms \<Rightarrow> [(''modalities'', Val_Strings ms)]) @
         (case ma_served_by_kind a of None \<Rightarrow> [] | Some k \<Rightarrow> [(''served_by_kind'', Val_String k)]))"

text \<open>
  \<open>main.go\<close> passes the hub, the portal's state (its keys, aliases, options and limits, and pricing
  attributes are left open) and the access store.
\<close>

definition router_front ::
  "rule_lib \<Rightarrow> access_db \<Rightarrow> hub \<Rightarrow> (string \<Rightarrow> (string, go_value) gomap) \<Rightarrow> front \<Rightarrow> front"
where
  "router_front L db h pricing F =
     F\<lparr>fn_active_models := Some (active_models h),
       fn_has_worker := Some (has_worker_for_model h),
       fn_max_context := Some (max_context_for_model h),
       fn_modality_verdict := Some (model_modality_verdict h),
       fn_key_in_flight := Some (key_in_flight h),
       fn_authorize := Some (authorize_models L db),
       fn_model_attrs := [hub_attrs h, pricing],
       fn_coalesce := True\<rparr>"

end
