(* ===== verification/Admission_Properties.thy ===== *)
theory Admission_Properties
  imports Admission Mesh Correlation_Safety
begin

text \<open>
  What admission promises: a refusal leaves nothing behind, what is admitted is permitted and has a
  worker, an admitted request is a submission of the router's model with its channel in place, and
  two callers share an answer only when they have the same rights.
\<close>

section \<open>Admissions\<close>

fun admitted :: "admission \<Rightarrow> inference_request option" where
  "admitted (Refused e) = None"
| "admitted (Leading r hash) = Some r"
| "admitted (Following r buf live) = Some r"
| "admitted (Alone r) = Some r"
| "admitted Crashed = None"

lemma clean_keeps [simp]:
  "rq_model (clean L req opts) = rq_model req" "rq_attempts (clean L req opts) = rq_attempts req"
  "rq_id (clean L req opts) = rq_id req" "rq_allowed_models (clean L req opts) = rq_allowed_models req"
  by (simp_all add: clean_def clamp_params_def Let_def)

lemma shape_keeps [simp]:
  "rq_model (shape F req) = rq_model req" "rq_attempts (shape F req) = rq_attempts req"
  by (simp_all add: shape_def split: option.split)

lemma stamp_fields [simp]:
  "rq_id (stamp F uuid key words now req) = uuid" "rq_model (stamp F uuid key words now req) = rq_model req"
  "rq_attempts (stamp F uuid key words now req) = rq_attempts req"
  "rq_allowed_models (stamp F uuid key words now req) = rq_allowed_models req"
  by (simp_all add: stamp_def)

lemma submit_cases:
  "submit st req =
     (if fst (try_push (ft_queue st) req)
      then (True, st\<lparr>ft_channels := snd (create (ft_channels st) (rq_id req)),
              ft_queue := snd (try_push (ft_queue st) req), ft_wakes := ft_wakes st + 1\<rparr>)
      else (False, st\<lparr>ft_channels := delete_start (delete_start (snd (create (ft_channels st) (rq_id req))) (rq_id req))
              (rq_id req)\<rparr>))"
  by (simp add: submit_def Let_def split: prod.split bool.split)

text \<open>What an admission went through.\<close>

lemma admittedE:
  assumes "enqueue F inbound now uuid q st = (out, st')" and "admitted out = Some req"
  obtains body req0 words ms req2 acc st1 where
    "check_key F (extract_bearer q) = None" "hq_body q = Some body" "int (length body) \<le> max_request_bytes F"
    "inbound (fn_json F) body = Some req0" "check_worker F (shape F req0) = None"
    "analyze_messages (fn_json F) (shape F req0) = (words, ms)"
    "check_modalities F (shape F req0\<lparr>rq_modalities := ms\<rparr>) = None"
    "check_context F (shape F req0\<lparr>rq_modalities := ms\<rparr>) words = None"
    "check_model F (shape F req0\<lparr>rq_modalities := ms\<rparr>) = None"
    "check_access F now q (extract_bearer q) (shape F req0\<lparr>rq_modalities := ms\<rparr>) (ft_access st) = Some (Inr req2, acc)"
    "launch F uuid (extract_bearer q) words now req2 st1 = (out, st')"
    "ft_queue st1 = ft_queue st" "ft_registry st1 = ft_registry st" "ft_channels st1 = ft_channels st"
proof -
  let ?key = "extract_bearer q"
  from assms obtain body req0 where 1: "check_key F ?key = None" "hq_body q = Some body"
      "int (length body) \<le> max_request_bytes F" "inbound (fn_json F) body = Some req0"
      "admit F now uuid q ?key (shape F req0) st = (out, st')"
    by (auto simp: enqueue_def Let_def split: option.splits if_splits)
  obtain words ms where 2: "analyze_messages (fn_json F) (shape F req0) = (words, ms)"
    by (cases "analyze_messages (fn_json F) (shape F req0)")
  let ?req1 = "shape F req0\<lparr>rq_modalities := ms\<rparr>"
  define st1 where "st1 = (if ms \<noteq> [] then st\<lparr>ft_multimodal := ft_multimodal st + 1\<rparr> else st)"
  have same: "ft_queue st1 = ft_queue st" "ft_registry st1 = ft_registry st" "ft_channels st1 = ft_channels st"
    "ft_access st1 = ft_access st" by (simp_all add: st1_def)
  have w: "check_worker F (shape F req0) = None"
    using 1(5) assms(2) by (auto simp: admit_def split: option.splits)
  have rest: "(case check_modalities F ?req1 of Some e \<Rightarrow> (Refused e, st1)
     | None \<Rightarrow> (case check_context F ?req1 words of Some e \<Rightarrow> (Refused e, st1)
        | None \<Rightarrow> (case check_model F ?req1 of Some e \<Rightarrow> (Refused e, st1)
           | None \<Rightarrow> (case check_access F now q ?key ?req1 (ft_access st1) of
                None \<Rightarrow> (Crashed, st1)
              | Some (Inl e, acc) \<Rightarrow> (Refused e, st1\<lparr>ft_access := acc\<rparr>)
              | Some (Inr req2, acc) \<Rightarrow> launch F uuid ?key words now req2 (st1\<lparr>ft_access := acc\<rparr>))))) = (out, st')"
    using 1(5) unfolding admit_def w option.case 2 prod.case Let_def st1_def [symmetric] .
  have c: "check_modalities F ?req1 = None" "check_context F ?req1 words = None" "check_model F ?req1 = None"
    using rest assms(2) by (auto split: option.splits)
  from rest assms(2) obtain req2 acc where a: "check_access F now q ?key ?req1 (ft_access st) = Some (Inr req2, acc)"
      "launch F uuid ?key words now req2 (st1\<lparr>ft_access := acc\<rparr>) = (out, st')"
    unfolding c option.case same(4) by (auto split: option.splits sum.splits)
  show ?thesis using that [OF 1(1-4) w 2 c a] same by simp
qed

lemma launch_admits:
  assumes "launch F uuid key words now req2 st1 = (out, st')" and "admitted out = Some req"
  shows "req = stamp F uuid key words now req2 \<and>
    (case out of
       Following r buf live \<Rightarrow> ft_queue st' = ft_queue st1 \<and> ft_channels st' = ft_channels st1
     | _ \<Rightarrow> try_push (ft_queue st1) req = (True, ft_queue st') \<and>
         ft_channels st' = snd (create (ft_channels st1) (rq_id req)))"
  using assms
  by (auto simp: launch_def run_alone_def submit_cases Let_def prod_eq_iff split: if_splits prod.splits role_in.splits
      option.splits)

section \<open>Permission\<close>

lemma check_access_permits:
  assumes "compile_engine L roles policies = Inr e" and "list_all policy_plain policies"
    and "as_engine acc = Some e" and "fn_authorize F = Some (authorize_models L db)"
    and "check_access F now q key req1 acc = Some (Inr req2, acc')"
  shows "\<exists>k allowed. db_api_key db key = Some k \<and> allowed \<noteq> [] \<and> req2 = req1\<lparr>rq_allowed_models := Some allowed\<rparr> \<and>
    (\<forall>m \<in> set allowed. m \<in> set (model_candidates F (rq_model req1) (front_aliases F)) \<and> in_scope (ak_scope k) m \<and>
       documented L roles policies (model_question db k
         (key_context L now k (hq_path q) (policy_ip (fn_trust_proxy F) q))
         (model_attr_table F (model_candidates F (rq_model req1) (front_aliases F))) m))"
proof -
  let ?cs = "model_candidates F (rq_model req1) (front_aliases F)"
  obtain allowed reason s' where a: "authorize_models L db acc now key (hq_path q) (policy_ip (fn_trust_proxy F) q)
        ?cs (model_attr_table F ?cs) = Some (allowed, reason, s')"
    and al: "allowed = (case db_api_key db key of
        None \<Rightarrow> []
      | Some k \<Rightarrow>
          if ks_endpoints (ak_scope k) \<noteq> [] \<and> hq_path q \<noteq> [] \<and> hq_path q \<notin> set (ks_endpoints (ak_scope k)) then []
          else filter (\<lambda>m. in_scope (ak_scope k) m \<and>
                 documented L roles policies (model_question db k
                   (key_context L now k (hq_path q) (policy_ip (fn_trust_proxy F) q)) (model_attr_table F ?cs) m)) ?cs)"
    using authorize_models_exact [OF assms(1-3), of db now key "hq_path q" "policy_ip (fn_trust_proxy F) q" ?cs
      "model_attr_table F ?cs"] by blast
  have ok: "allowed \<noteq> []" "req2 = req1\<lparr>rq_allowed_models := Some allowed\<rparr>"
    using assms(5) a assms(4) by (auto simp: check_access_def Let_def split: if_splits)
  define P where "P = (\<lambda>k m. in_scope (ak_scope k) m \<and> documented L roles policies (model_question db k
      (key_context L now k (hq_path q) (policy_ip (fn_trust_proxy F) q)) (model_attr_table F ?cs) m))"
  have "allowed = (case db_api_key db key of None \<Rightarrow> []
      | Some k \<Rightarrow>
          if ks_endpoints (ak_scope k) \<noteq> [] \<and> hq_path q \<noteq> [] \<and> hq_path q \<notin> set (ks_endpoints (ak_scope k)) then []
          else filter (P k) ?cs)"
    unfolding P_def by (rule al)
  then have "\<exists>k. db_api_key db key = Some k \<and> (\<forall>m \<in> set allowed. m \<in> set ?cs \<and> P k m)"
    using ok(1) by (cases "db_api_key db key") (auto split: if_splits)
  then show ?thesis using ok unfolding P_def by blast
qed

text \<open>
  C31. Nothing is admitted without permission: with the router's rules compiled, an admitted request
  was sent with a key of the database and may run on at least one model; and every model it may
  run on is one the caller asked for, is inside the key's scope and is allowed by the rules, as
  documented, to the key's owner at this endpoint, address and time; and some connected worker
  serves the model it names.
\<close>

theorem admission_is_permitted:
  assumes "compile_engine L roles policies = Inr e" and "list_all policy_plain policies"
    and "as_engine (ft_access st) = Some e" and "F = router_front L db h pricing G"
    and "enqueue F inbound now uuid q st = (out, st')" and "admitted out = Some req"
  shows "\<exists>k. db_api_key db (extract_bearer q) = Some k \<and> (\<exists>m. model_allowed req m) \<and>
    has_worker_for_model h (rq_model req) (front_aliases F) \<and>
    (\<forall>m. model_allowed req m \<longrightarrow>
       m \<in> set (model_candidates F (rq_model req) (front_aliases F)) \<and> in_scope (ak_scope k) m \<and>
       documented L roles policies (model_question db k
         (key_context L now k (hq_path q) (policy_ip (fn_trust_proxy F) q))
         (model_attr_table F (model_candidates F (rq_model req) (front_aliases F))) m))"
proof -
  obtain body req0 words ms req2 acc st1 where
    w: "check_worker F (shape F req0) = None"
    and a: "check_access F now q (extract_bearer q) (shape F req0\<lparr>rq_modalities := ms\<rparr>) (ft_access st) =
      Some (Inr req2, acc)"
    and l: "launch F uuid (extract_bearer q) words now req2 st1 = (out, st')"
    by (rule admittedE [OF assms(5,6)]) blast
  have auth: "fn_authorize F = Some (authorize_models L db)" and hw: "fn_has_worker F = Some (has_worker_for_model h)"
    by (simp_all add: assms(4) router_front_def)
  obtain k allowed where k: "db_api_key db (extract_bearer q) = Some k" "allowed \<noteq> []"
      "req2 = shape F req0\<lparr>rq_modalities := ms, rq_allowed_models := Some allowed\<rparr>"
      "\<forall>m \<in> set allowed. m \<in> set (model_candidates F (rq_model req0) (front_aliases F)) \<and> in_scope (ak_scope k) m \<and>
       documented L roles policies (model_question db k
         (key_context L now k (hq_path q) (policy_ip (fn_trust_proxy F) q))
         (model_attr_table F (model_candidates F (rq_model req0) (front_aliases F))) m)"
    using check_access_permits [OF assms(1-3) auth a] by auto
  have req: "req = stamp F uuid (extract_bearer q) words now req2" using launch_admits [OF l assms(6)] by blast
  have "has_worker_for_model h (rq_model req0) (front_aliases F)"
    using w hw by (simp add: check_worker_def split: if_splits)
  moreover have "model_allowed req m \<longleftrightarrow> m \<in> set allowed" for m
    by (auto simp: req k(3) model_allowed_iff)
  moreover have "rq_model req = rq_model req0" by (simp add: req k(3))
  ultimately show ?thesis using k(1,2,4) hd_in_set by metis
qed

section \<open>Submission\<close>

lemma corr_lookup_create:
  assumes "corr_ok s"
  shows "corr_lookup (snd (create s rid)) rid' = (if rid' = rid \<and> corr_lookup s rid = None then Some (co_next s)
     else corr_lookup s rid')"
  using assms shard_for_less [of rid] corr_okD(1) [OF assms]
  by (auto simp: create_def corr_lookup_def Let_def nth_list_update gomap_simps split: option.split)

lemma corr_lookup_delete:
  assumes "corr_ok s"
  shows "corr_lookup (delete_start s rid) rid' = (if rid' = rid then None else corr_lookup s rid')"
  using assms shard_for_less [of rid] corr_okD(1) [OF assms]
  by (auto simp: delete_start_def corr_lookup_def Let_def nth_list_update gomap_simps split: option.split)

definition plain_inbound :: "(json_lib \<Rightarrow> string \<Rightarrow> inference_request option) \<Rightarrow> bool" where
  "plain_inbound inbound \<longleftrightarrow> inbound = openai_inbound \<or> inbound = anthropic_inbound \<or> inbound = responses_inbound"

lemma inbound_fresh:
  assumes "plain_inbound inbound" and "inbound L body = Some req"
  shows "rq_attempts req = 0"
  using assms
  by (auto simp: plain_inbound_def openai_inbound_def anthropic_inbound_def responses_inbound_def zero_request_def Let_def
      split: option.splits if_splits)

text \<open>
  C32. Admission is submission: an admitted request, coming in by any of the three dialects, is
  either coalesced, and then queue and channels are as before, or it is one submission step of the
  router's model with the queue the handler leaves, and the channel its answer will come through
  exists when it can first be dispatched.
\<close>

theorem admission_is_submission:
  assumes "enqueue F inbound now uuid q st = (out, st')" and "admitted out = Some req"
    and "plain_inbound inbound" and "me_queue m = ft_queue st" and "corr_ok (ft_channels st)"
    and "uuid \<noteq> []" and "uuid \<notin> queue_ids (me_queue m)" and "holder_of (me_hub m) uuid = None"
  shows "case out of
      Following r buf live \<Rightarrow> ft_queue st' = ft_queue st \<and> ft_channels st' = ft_channels st
    | _ \<Rightarrow> mesh_step m (L_Submit req True) (m\<lparr>me_queue := ft_queue st'\<rparr>) \<and>
        corr_lookup (ft_channels st') (rq_id req) \<noteq> None"
proof -
  obtain body req0 words ms req2 acc st1 where
    i: "inbound (fn_json F) body = Some req0"
    and a: "check_access F now q (extract_bearer q) (shape F req0\<lparr>rq_modalities := ms\<rparr>) (ft_access st) =
      Some (Inr req2, acc)"
    and l: "launch F uuid (extract_bearer q) words now req2 st1 = (out, st')"
    and same: "ft_queue st1 = ft_queue st" "ft_channels st1 = ft_channels st"
    by (rule admittedE [OF assms(1,2)]) blast
  have "rq_attempts req2 = 0"
    using inbound_fresh [OF assms(3) i] a by (auto simp: check_access_def Let_def split: option.splits if_splits)
  moreover note L = launch_admits [OF l assms(2)]
  ultimately have req: "rq_attempts req = 0" "rq_id req = uuid" by auto
  show ?thesis
  proof (cases "\<exists>r buf live. out = Following r buf live")
    case True
    then show ?thesis using L same by auto
  next
    case False
    then have push: "try_push (me_queue m) req = (True, ft_queue st')"
      and ch: "ft_channels st' = snd (create (ft_channels st) uuid)"
      using L same assms(2,4) req(2) by (cases out; simp)+
    have "mesh_step m (L_Submit req True) (m\<lparr>me_queue := ft_queue st'\<rparr>)"
      by (rule mesh_step.on_submit [OF _ _ _ _ push]) (use assms(6-8) req in auto)
    moreover have "corr_lookup (ft_channels st') (rq_id req) \<noteq> None"
      using corr_lookup_create [OF assms(5)] by (auto simp: ch req)
    ultimately show ?thesis using False by (cases out) auto
  qed
qed

section \<open>Refusals\<close>

text \<open>What the rest of the router can see of the state behind admission.\<close>

definition same_behind :: "front_state \<Rightarrow> front_state \<Rightarrow> bool" where
  "same_behind st st' \<longleftrightarrow> ft_queue st' = ft_queue st \<and> ft_wakes st' = ft_wakes st \<and>
     (\<forall>rid. corr_lookup (ft_channels st') rid = corr_lookup (ft_channels st) rid) \<and>
     (\<forall>hash. mget (rg_entries (ft_registry st')) hash = mget (rg_entries (ft_registry st)) hash) \<and>
     rg_chans (ft_registry st') = rg_chans (ft_registry st)"

lemma submit_refused:
  assumes "submit st req = (False, st')" and "corr_ok (ft_channels st)" and "corr_lookup (ft_channels st) (rq_id req) = None"
  shows "same_behind st st' \<and> ft_registry st' = ft_registry st"
proof -
  have st': "st' = st\<lparr>ft_channels := delete_start (delete_start (snd (create (ft_channels st) (rq_id req))) (rq_id req)) (rq_id req)\<rparr>"
    using assms(1) by (simp add: submit_cases split: if_splits)
  have ok: "corr_ok (snd (create (ft_channels st) (rq_id req)))" by (rule create_ok [OF assms(2)])
  show ?thesis using assms(3) delete_start_ok [OF ok]
    by (auto simp: st' same_behind_def corr_lookup_delete [OF delete_start_ok [OF ok]] corr_lookup_delete [OF ok]
        corr_lookup_create [OF assms(2)])
qed

lemma launch_refused:
  assumes "launch F uuid key words now req st = (Refused e, st')" and "corr_ok (ft_channels st)"
    and "corr_lookup (ft_channels st) uuid = None"
  shows "same_behind st st' \<and> e = Queue_Full"
proof -
  let ?req = "stamp F uuid key words now req" and ?hash = "coalesce_hash F key req"
  let ?st = "st\<lparr>ft_count := ft_count st + 1\<rparr>"
  obtain role reg where r: "register_or_subscribe (ft_registry st) ?hash = (role, reg)"
    by (cases "register_or_subscribe (ft_registry st) ?hash")
  have alone: "same_behind st st' \<and> e = Queue_Full"
    if "run_alone (?st\<lparr>ft_registry := ft_registry st\<rparr>) ?req = (Refused e, st')"
  proof -
    obtain b st2 where s: "submit (?st\<lparr>ft_registry := ft_registry st\<rparr>) ?req = (b, st2)"
      by (cases "submit (?st\<lparr>ft_registry := ft_registry st\<rparr>) ?req")
    with that have "\<not> b" "e = Queue_Full" "st2 = st'" by (simp_all add: run_alone_def split: bool.splits)
    then show ?thesis using submit_refused [of "?st\<lparr>ft_registry := ft_registry st\<rparr>" ?req st'] s assms(2,3)
      by (simp add: same_behind_def)
  qed
  show ?thesis
  proof (cases "fn_coalesce F")
    case False
    then show ?thesis using assms(1) alone by (simp add: launch_def Let_def)
  next
    case True
    show ?thesis
    proof (cases role)
      case Role_Original
      then have reg: "mget (rg_entries (ft_registry st)) ?hash = None"
          "reg = (ft_registry st)\<lparr>rg_entries := mput ?hash empty_entry (rg_entries (ft_registry st))\<rparr>"
        using r by (auto simp: register_or_subscribe_def Let_def split: option.splits if_splits)
      obtain b st2 where s: "submit (?st\<lparr>ft_registry := reg\<rparr>) ?req = (b, st2)"
        by (cases "submit (?st\<lparr>ft_registry := reg\<rparr>) ?req")
      have un: "unregister reg ?hash = Some (reg\<lparr>rg_entries := mdel ?hash (rg_entries reg)\<rparr>)"
        by (simp add: unregister_def reg(2) gomap_simps empty_entry_def)
      have "\<not> b"
        using assms(1) True r Role_Original s by (auto simp: launch_def Let_def split: if_splits bool.splits)
      then have S: "same_behind (?st\<lparr>ft_registry := reg\<rparr>) st2" "ft_registry st2 = reg"
        using submit_refused [of "?st\<lparr>ft_registry := reg\<rparr>" ?req st2] s assms(2,3) by auto
      have "e = Queue_Full" "st' = st2\<lparr>ft_registry := reg\<lparr>rg_entries := mdel ?hash (rg_entries reg)\<rparr>\<rparr>"
        using assms(1) True r Role_Original s \<open>\<not> b\<close> S(2) un by (auto simp: launch_def Let_def)
      then show ?thesis using S(1) reg by (auto simp: same_behind_def gomap_simps)
    next
      case (Role_Follower buf live)
      then show ?thesis using assms(1) True r by (simp add: launch_def Let_def)
    next
      case Role_Independent
      then have "reg = ft_registry st" using r by (auto simp: register_or_subscribe_def Let_def split: option.splits if_splits)
      then show ?thesis using assms(1) True r Role_Independent alone by (simp add: launch_def Let_def)
    qed
  qed
qed

lemma admit_refused:
  assumes "admit F now uuid q key req st = (Refused e, st')" and "corr_ok (ft_channels st)"
    and "corr_lookup (ft_channels st) uuid = None"
  shows "same_behind st st'"
proof -
  obtain words ms where an: "analyze_messages (fn_json F) req = (words, ms)" by (cases "analyze_messages (fn_json F) req")
  define st1 where "st1 = (if ms \<noteq> [] then st\<lparr>ft_multimodal := ft_multimodal st + 1\<rparr> else st)"
  have st1: "same_behind st st1" "ft_channels st1 = ft_channels st" by (simp_all add: st1_def same_behind_def)
  have acc: "same_behind st (st1\<lparr>ft_access := acc\<rparr>)" for acc using st1 by (simp add: same_behind_def)
  have "same_behind st st'" if "launch F uuid key words now req2 (st1\<lparr>ft_access := acc\<rparr>) = (Refused e, st')" for req2 acc
    using launch_refused [OF that] st1 assms(2,3) by (auto simp: same_behind_def)
  moreover have "same_behind st st" by (simp add: same_behind_def)
  ultimately show ?thesis
    using assms(1) st1(1) acc unfolding admit_def an prod.case Let_def st1_def [symmetric]
    by (auto split: option.splits sum.splits)
qed

text \<open>
  C33. A refusal leaves no trace: whichever check refuses a request, the queue is as it was, the
  scheduler is not woken, every waiting handler's channel and every coalescing entry is where it
  was and no channel of a follower is touched; and the caller gets one answer, with a status of 400
  or above.
\<close>

theorem refusals_leave_no_trace:
  assumes "enqueue F inbound now uuid q st = (Refused e, st')" and "corr_ok (ft_channels st)"
    and "corr_lookup (ft_channels st) uuid = None"
  shows "same_behind st st' \<and> status_of e \<ge> 400"
proof -
  have st: "same_behind st st" "same_behind st (st\<lparr>ft_oversize := ft_oversize st + 1\<rparr>)" by (simp_all add: same_behind_def)
  have "same_behind st st'"
    using assms(1) st admit_refused [OF _ assms(2,3)]
    by (auto simp: enqueue_def Let_def split: option.splits if_splits)
  moreover have "status_of e \<ge> 400" by (cases e) simp_all
  ultimately show ?thesis by blast
qed

section \<open>Coalescing\<close>

text \<open>No collision of the digest on these inputs, and a digest in hexadecimal holds no zero byte.\<close>

definition digest_ok :: "hash_lib \<Rightarrow> string list \<Rightarrow> bool" where
  "digest_ok H inputs \<longleftrightarrow>
     list_all (\<lambda>a. list_all (\<lambda>b. hl_sha H a = hl_sha H b \<longrightarrow> a = b) inputs) inputs \<and>
     list_all (\<lambda>a. CHR 0x00 \<notin> set (hl_sha H a)) inputs"

lemma digest_inj:
  assumes "digest_ok H xs" and "a \<in> set xs" and "b \<in> set xs" and "hl_sha H a = hl_sha H b"
  shows "a = b"
  using assms by (simp add: digest_ok_def list_all_iff)

definition marshalled :: "front \<Rightarrow> inference_request \<Rightarrow> string" where
  "marshalled F req = hl_marshal (fn_hash F) (hash_fields (fn_hash F) req
     (case fn_opts F of None \<Rightarrow> False | Some opts \<Rightarrow> op_coalesce_normalize opts))"

definition scoped_input :: "front \<Rightarrow> string \<Rightarrow> inference_request \<Rightarrow> string" where
  "scoped_input F key req = hl_sha (fn_hash F) (marshalled F req) @ [CHR 0x00] @
     dedup_scope (fn_owner_for F key) (case rq_allowed_models req of None \<Rightarrow> [] | Some ms \<Rightarrow> ms)"

definition plain_names :: "string \<Rightarrow> string list \<Rightarrow> bool" where
  "plain_names owner models \<longleftrightarrow> CHR ''|'' \<notin> set owner \<and> list_all (\<lambda>m. m \<noteq> [] \<and> CHR '','' \<notin> set m) models"

lemma coalesce_hash_input: "coalesce_hash F key req = hl_sha (fn_hash F) (scoped_input F key req)"
  by (simp add: coalesce_hash_def content_hash_scoped_def content_hash_opts_def scoped_input_def marshalled_def
      dedup_scope_def)

text \<open>
  Callers share an answer only with equal rights: when two requests get the same coalescing key,
  their owner and the models they are permitted are the same, and so are the fields the answer
  depends on, as encoded; given that SHA-256 does not collide on these inputs and that no name
  holds the separators.
\<close>

theorem coalesced_only_with_equal_rights:
  assumes "coalesce_hash F key1 req1 = coalesce_hash F key2 req2"
    and "rq_allowed_models req1 = Some ms1" and "rq_allowed_models req2 = Some ms2"
    and "digest_ok (fn_hash F) [scoped_input F key1 req1, scoped_input F key2 req2, marshalled F req1, marshalled F req2]"
    and "plain_names (fn_owner_for F key1) ms1" and "plain_names (fn_owner_for F key2) ms2"
  shows "fn_owner_for F key1 = fn_owner_for F key2 \<and> ms1 = ms2 \<and> marshalled F req1 = marshalled F req2"
proof -
  let ?o1 = "fn_owner_for F key1" and ?o2 = "fn_owner_for F key2"
  have "scoped_input F key1 req1 = scoped_input F key2 req2"
    by (rule digest_inj [OF assms(4) _ _ assms(1) [unfolded coalesce_hash_input]]) simp_all
  then have eq: "hl_sha (fn_hash F) (marshalled F req1) @ [CHR 0x00] @ (?o1 @ ''|'' @ join_with '','' ms1) =
      hl_sha (fn_hash F) (marshalled F req2) @ [CHR 0x00] @ (?o2 @ ''|'' @ join_with '','' ms2)"
    by (simp add: scoped_input_def dedup_scope_def assms(2,3))
  have nul: "CHR 0x00 \<notin> set (hl_sha (fn_hash F) (marshalled F req1))" "CHR 0x00 \<notin> set (hl_sha (fn_hash F) (marshalled F req2))"
    using assms(4) by (simp_all add: digest_ok_def)
  from cut_before_byte [OF nul eq] have
    1: "hl_sha (fn_hash F) (marshalled F req1) = hl_sha (fn_hash F) (marshalled F req2)"
    and 2: "?o1 @ [CHR ''|''] @ join_with '','' ms1 = ?o2 @ [CHR ''|''] @ join_with '','' ms2" by auto
  have "marshalled F req1 = marshalled F req2" by (rule digest_inj [OF assms(4) _ _ 1]) simp_all
  moreover have "CHR ''|'' \<notin> set ?o1" "CHR ''|'' \<notin> set ?o2" using assms(5,6) by (simp_all add: plain_names_def)
  from cut_before_byte [OF this 2] have "?o1 = ?o2" "join_with '','' ms1 = join_with '','' ms2" by blast+
  moreover from join_with_comma_inj [OF this(2)] have "ms1 = ms2"
    using assms(5,6) by (auto simp: plain_names_def list_all_iff)
  ultimately show ?thesis by blast
qed

section \<open>Any model\<close>

text \<open>
  A request for "any" model is never admitted, whatever workers are connected, unless a worker
  or an alias bears that very name: the check against the active models has no case for it,
  although the worker check, the candidates, the queue and the scheduler all do.
\<close>

theorem any_is_never_admitted:
  assumes "enqueue F inbound now uuid q st = (out, st')" and "hq_body q = Some body"
    and "inbound (fn_json F) body = Some req0" and "rq_model req0 = ''any''"
    and "fn_active_models F = Some active" and "''any'' \<notin> set active" and "mget (front_aliases F) ''any'' = None"
  shows "admitted out = None"
proof (rule ccontr)
  assume "admitted out \<noteq> None"
  then obtain req where "admitted out = Some req" by blast
  from admittedE [OF assms(1) this] obtain req0' ms where
    "inbound (fn_json F) body = Some req0'" "check_model F (shape F req0'\<lparr>rq_modalities := ms\<rparr>) = None"
    using assms(2) by (metis option.inject)
  then show False using assms(3-7) by (simp add: check_model_def get_or_def)
qed

end
