(* ===== verification/Admission_Witnesses.thy ===== *)
theory Admission_Witnesses
  imports Admission_Properties Store_Witnesses
begin

text \<open>Admission at work on the sample mesh: carol's key, confined to llama models, asks for an alias.\<close>

definition body_json :: json_lib where
  "body_json =
     \<lparr>jl_view = (\<lambda>raw. if raw = ''{model: fast}'' then Some (V_Object [(''model'', ''fast'')])
         else if raw = ''fast'' then Some (V_String ''fast'') else None),
      jl_same_key = (=), jl_text = (\<lambda>_. None)\<rparr>"

text \<open>A stand-in for the digest: the bytes themselves, without the zero byte.\<close>

definition plain_hash :: hash_lib where
  "plain_hash = \<lparr>hl_marshal = hi_model, hl_sha = map (\<lambda>c. if c = CHR 0x00 then CHR ''#'' else c),
     hl_canonical = (\<lambda>_. None)\<rparr>"

definition portal_front :: front where
  "portal_front =
     \<lparr>fn_json = body_json, fn_hash = plain_hash, fn_valid_key = (\<lambda>k. k = ''key-1''), fn_priority_for = (\<lambda>_. 1),
      fn_owner_for = (\<lambda>_. ''carol''), fn_label_for = (\<lambda>k. k), fn_active_models = None,
      fn_alias_map = Some [(''fast'', [''llama'', ''qwen''])], fn_opts = None, fn_has_worker = None,
      fn_max_context = None, fn_modality_verdict = None, fn_key_in_flight = None,
      fn_max_concurrent = Some (\<lambda>_. 3), fn_authorize = None, fn_model_attrs = [], fn_trust_proxy = False,
      fn_coalesce = False, fn_max_request_bytes = 0\<rparr>"

definition sample_front :: front where
  "sample_front = router_front sample_lib iso_db sample_hub (\<lambda>_. []) portal_front"

definition front_start :: front_state where
  "front_start = \<lparr>ft_queue = queue_new, ft_registry = registry_new, ft_channels = corr_new,
     ft_access = iso_state, ft_count = 0, ft_oversize = 0, ft_multimodal = 0, ft_wakes = 0\<rparr>"

definition carols_request :: http_request where
  "carols_request = \<lparr>hq_authorization = ''Bearer key-1'', hq_path = ''/v1/chat/completions'', hq_forwarded = [],
     hq_remote = ''10.0.0.7:4711'', hq_body = Some ''{model: fast}''\<rparr>"

definition carols_admission :: "admission \<times> front_state" where
  "carols_admission = enqueue sample_front openai_inbound 5 ''r9'' carols_request front_start"

lemma carols_run:
  "map_option (\<lambda>r. (rq_id r, rq_owner r, rq_allowed_models r)) (admitted (fst carols_admission)) =
     Some (''r9'', ''carol'', Some [''llama''])"
  "(case fst carols_admission of Leading r hash \<Rightarrow> True | _ \<Rightarrow> False)"
  by code_simp+

theorem admission_is_permitted_witness:
  "\<exists>req (k :: api_key). admitted (fst carols_admission) = Some req \<and> in_scope (ak_scope k) ''llama'' \<and>
     has_worker_for_model sample_hub (rq_model req) [(''fast'', [''llama'', ''qwen''])]"
proof -
  obtain req where r: "admitted (fst carols_admission) = Some req" "rq_allowed_models req = Some [''llama'']"
    using carols_run(1) by auto
  have e: "as_engine (ft_access front_start) = Some iso_engine" by (simp add: front_start_def iso_state_def)
  have run: "enqueue sample_front openai_inbound 5 ''r9'' carols_request front_start =
      (fst carols_admission, snd carols_admission)" by (simp add: carols_admission_def)
  have al: "front_aliases sample_front = [(''fast'', [''llama'', ''qwen''])]"
    by (simp add: front_aliases_def sample_front_def router_front_def portal_front_def)
  from admission_is_permitted [OF iso_engine_compiled iso_rules_plain e sample_front_def run r(1)]
  show ?thesis using r unfolding al by (auto simp: model_allowed_iff)
qed

theorem admission_is_submission_witness:
  "\<exists>req m. mesh_step (mesh_start 0 100) (L_Submit req True) m \<and> rq_id req = ''r9''"
proof -
  obtain req where r: "admitted (fst carols_admission) = Some req" "rq_id req = ''r9''"
    using carols_run(1) by auto
  have run: "enqueue sample_front openai_inbound 5 ''r9'' carols_request front_start =
      (fst carols_admission, snd carols_admission)" by (simp add: carols_admission_def)
  have h: "plain_inbound openai_inbound" "me_queue (mesh_start 0 100) = ft_queue front_start"
    "corr_ok (ft_channels front_start)" "''r9'' \<noteq> []" "''r9'' \<notin> queue_ids (me_queue (mesh_start 0 100))"
    "holder_of (me_hub (mesh_start 0 100)) ''r9'' = None"
    using corr_new_ok
    by (simp_all add: plain_inbound_def mesh_start_def front_start_def queue_new_def holder_of_def hub_new_def)
  from admission_is_submission [OF run r(1) h]
  show ?thesis using carols_run(2) r by (cases "fst carols_admission") auto
qed

theorem refusals_leave_no_trace_witness:
  "\<exists>e st. enqueue sample_front openai_inbound 5 ''r9'' (carols_request\<lparr>hq_body := None\<rparr>) front_start = (Refused e, st) \<and>
     same_behind front_start st \<and> status_of e = 500"
proof -
  have key: "check_key sample_front (extract_bearer (carols_request\<lparr>hq_body := None\<rparr>)) = None" by code_simp
  then have run: "enqueue sample_front openai_inbound 5 ''r9'' (carols_request\<lparr>hq_body := None\<rparr>) front_start =
      (Refused Read_Failed, front_start)"
    by (simp add: enqueue_def)
  have "corr_ok (ft_channels front_start)" "corr_lookup (ft_channels front_start) ''r9'' = None"
    using corr_new_ok shard_for_less [of "''r9''"] by (simp_all add: front_start_def corr_lookup_def corr_new_def)
  from refusals_leave_no_trace [OF run this] run show ?thesis by auto
qed

definition fast_request :: "string \<Rightarrow> inference_request" where
  "fast_request rid = zero_request\<lparr>rq_id := rid, rq_model := ''fast'', rq_allowed_models := Some [''llama'']\<rparr>"

theorem coalesced_only_with_equal_rights_witness:
  "fn_owner_for portal_front ''key-1'' = fn_owner_for portal_front ''key-2''"
proof -
  have h: "coalesce_hash portal_front ''key-1'' (fast_request ''r1'') =
      coalesce_hash portal_front ''key-2'' (fast_request ''r2'')"
    "rq_allowed_models (fast_request ''r1'') = Some [''llama'']"
    "rq_allowed_models (fast_request ''r2'') = Some [''llama'']"
    "digest_ok (fn_hash portal_front) [scoped_input portal_front ''key-1'' (fast_request ''r1''),
       scoped_input portal_front ''key-2'' (fast_request ''r2''), marshalled portal_front (fast_request ''r1''),
       marshalled portal_front (fast_request ''r2'')]"
    "plain_names (fn_owner_for portal_front ''key-1'') [''llama'']"
    "plain_names (fn_owner_for portal_front ''key-2'') [''llama'']"
    by code_simp+
  from coalesced_only_with_equal_rights [OF h] show ?thesis by blast
qed

theorem any_is_never_admitted_witness:
  "admitted (fst (enqueue sample_front (\<lambda>L b. Some (zero_request\<lparr>rq_model := ''any''\<rparr>)) 5 ''r9'' carols_request
     front_start)) = None"
proof -
  let ?in = "\<lambda>L b. Some (zero_request\<lparr>rq_model := ''any''\<rparr>)"
  obtain out st where run: "enqueue sample_front ?in 5 ''r9'' carols_request front_start = (out, st)"
    by (cases "enqueue sample_front ?in 5 ''r9'' carols_request front_start")
  have active: "fn_active_models sample_front = Some (active_models sample_hub)"
    by (simp add: sample_front_def router_front_def)
  have h: "hq_body carols_request = Some ''{model: fast}''" "rq_model (zero_request\<lparr>rq_model := ''any''\<rparr>) = ''any''"
    "mget (front_aliases sample_front) ''any'' = None"
    by (simp_all add: carols_request_def front_aliases_def sample_front_def router_front_def portal_front_def)
  have "''any'' \<notin> set (active_models sample_hub)" by code_simp
  from any_is_never_admitted [OF run h(1) refl h(2) active this h(3)] run show ?thesis by simp
qed

end
