(* ===== verification/Portal_State.thy ===== *)
theory Portal_State
  imports Access_Store Go_Text
begin

text \<open>
  The portal's accounts and credentials, the rows of \<open>router/internal/admin/state.go\<close> and
  \<open>access_store.go\<close> that signing in reads and writes: users, role bindings, teams, API keys, client
  tokens, portal sessions (\<open>sessions.go\<close>) and the links sent by mail (\<open>authtoken.go\<close>). A table is a
  map from its primary key. A statement fails only when a constraint of the schema refuses it; a
  failure of the database itself is not modelled. What is random, a digest or read from a clock is
  an argument, and calls that leave this state (the audit log, mail, the engine's reload, the hub)
  are events.
\<close>

section \<open>What is not the portal's own code\<close>

text \<open>
  SHA-256, bcrypt, the case mapping of runes beyond ASCII, the parser of mail addresses, the order
  in which a Go map is visited, and which of several violated indexes SQLite reports.
\<close>

record portal_lib =
  pl_sha :: "string \<Rightarrow> string"
  pl_password :: "string \<Rightarrow> string \<Rightarrow> bool"
  pl_lower :: "string \<Rightarrow> string"
  pl_address :: "string \<Rightarrow> string option"
  pl_visit :: "string list \<Rightarrow> string list"
  pl_report :: "string list \<Rightarrow> string"

text \<open>A visit of a map reaches every key once, and a report names an index that is violated.\<close>

definition visits :: "portal_lib \<Rightarrow> bool" where
  "visits L \<longleftrightarrow> (\<forall>ks. distinct ks \<longrightarrow> distinct (pl_visit L ks) \<and> set (pl_visit L ks) = set ks)"

definition reports :: "portal_lib \<Rightarrow> bool" where
  "reports L \<longleftrightarrow> (\<forall>vs. vs \<noteq> [] \<longrightarrow> pl_report L vs \<in> set vs)"

text \<open>Times are stored as RFC 3339, to the second.\<close>

definition to_second :: "gotime \<Rightarrow> gotime" where
  "to_second t = t - t mod second_ns"

section \<open>Accounts\<close>

record portal_user =
  pu_username :: string
  pu_password_hash :: string
  pu_disabled :: bool
  pu_csrf_token :: string
  pu_email :: string
  pu_email_verified :: bool
  pu_github_id :: string
  pu_github_login :: string
  pu_google_id :: string
  pu_google_email :: string
  pu_oidc_subject :: string
  pu_oidc_label :: string
  pu_managed_by :: string

definition new_user :: "string \<Rightarrow> portal_user" where
  "new_user name =
     \<lparr>pu_username = name, pu_password_hash = [], pu_disabled = False, pu_csrf_token = [], pu_email = [],
      pu_email_verified = False, pu_github_id = [], pu_github_login = [], pu_google_id = [],
      pu_google_email = [], pu_oidc_subject = [], pu_oidc_label = [], pu_managed_by = []\<rparr>"

text \<open>A row: the fields \<open>User\<close> holds and the columns only single statements touch.\<close>

record user_entry =
  ue_user :: portal_user
  ue_disabled_by :: string
  ue_refresh :: string
  ue_attrs :: "(string, string) gomap"

definition new_entry :: "portal_user \<Rightarrow> user_entry" where
  "new_entry u = \<lparr>ue_user = u, ue_disabled_by = [], ue_refresh = [], ue_attrs = []\<rparr>"

record role_binding =
  rb_principal :: string
  rb_role :: string
  rb_team :: string

record team_entry =
  te_name :: string
  te_disabled :: bool

text \<open>\<open>oauthIdentity\<close>: a provider's account as the router keeps it.\<close>

record oauth_identity =
  oi_id :: string
  oi_label :: string
  oi_username :: string
  oi_claims :: "(string, raw_json) gomap"
  oi_refresh :: string

definition no_identity :: oauth_identity where
  "no_identity = \<lparr>oi_id = [], oi_label = [], oi_username = [], oi_claims = [], oi_refresh = []\<rparr>"

section \<open>Credentials\<close>

datatype expiry = Never | Unreadable | At gotime

text \<open>\<open>expired\<close>.\<close>

fun expired :: "gotime \<Rightarrow> expiry \<Rightarrow> bool" where
  "expired now Never = False"
| "expired now Unreadable = True"
| "expired now (At t) = (\<not> now < t)"

record key_row =
  kr_owner :: string
  kr_expires :: expiry
  kr_last_used :: gotime

record portal_session =
  ss_username :: string
  ss_csrf :: string
  ss_ip :: string
  ss_agent :: string
  ss_created :: gotime
  ss_expires :: gotime
  ss_last_seen :: gotime

record auth_token =
  at_username :: string
  at_purpose :: string
  at_email :: string
  at_expiry :: gotime

definition purpose_login :: string where "purpose_login = ''login''"
definition purpose_verify :: string where "purpose_verify = ''verify''"

definition magic_link_ttl :: duration where "magic_link_ttl = 15 * 60 * second_ns"
definition verify_link_ttl :: duration where "verify_link_ttl = 24 * 3600 * second_ns"
definition session_ttl :: duration where "session_ttl = 24 * 3600 * second_ns"
definition minute_ns :: duration where "minute_ns = 60 * second_ns"

section \<open>The state\<close>

datatype portal_event =
    Ev_Audit string string string string
  | Ev_Mail string string string
  | Ev_Authz_Bump
  | Ev_Invalidate
  | Ev_Close_Token string

record portal =
  pt_users :: "(string, user_entry) gomap"
  pt_bindings :: "role_binding list"
  pt_roles :: "(string, string list) gomap"
  pt_teams :: "(string, team_entry) gomap"
  pt_members :: "(string \<times> string) list"
  pt_keys :: "(string, key_row) gomap"
  pt_tokens :: "(string, string) gomap"
  pt_policies :: "policy list"
  pt_sessions :: "(string, portal_session) gomap"
  pt_seen :: "(string, gotime) gomap"
  pt_links :: "(string, auth_token) gomap"
  pt_touched :: "(string, gotime) gomap"
  pt_events :: "portal_event list"

definition portal_empty :: portal where
  "portal_empty =
     \<lparr>pt_users = [], pt_bindings = [], pt_roles = [], pt_teams = [], pt_members = [], pt_keys = [],
      pt_tokens = [], pt_policies = [], pt_sessions = [], pt_seen = [], pt_links = [], pt_touched = [],
      pt_events = []\<rparr>"

definition emit :: "portal_event \<Rightarrow> portal \<Rightarrow> portal" where
  "emit e p = p\<lparr>pt_events := pt_events p @ [e]\<rparr>"

definition record_audit :: "string \<Rightarrow> string \<Rightarrow> string \<Rightarrow> string \<Rightarrow> portal \<Rightarrow> portal" where
  "record_audit actor action target ip = emit (Ev_Audit actor action target ip)"

definition bump_authz :: "portal \<Rightarrow> portal" where
  "bump_authz = emit Ev_Authz_Bump"

datatype portal_error =
    User_Not_Found
  | Username_Invalid
  | Username_Taken
  | Identity_Taken string
  | Setup_Done
  | No_Free_Username
  | Own_Account
  | Not_Disabled
  | Last_Admin
  | Last_Owner
  | Unknown_Role
  | Bad_Principal
  | Team_Not_Found
  | Team_Invalid
  | Team_Taken
  | Attribute_Invalid
  | Role_Builtin

end
