(* ===== verification/Portal_Accounts.thy ===== *)
theory Portal_Accounts
  imports Portal_State
begin

text \<open>
  The operations on accounts, role bindings and teams: \<open>router/internal/admin/state.go\<close> (users),
  \<open>access_store.go\<close> (bindings, teams, roles, the liveness check of credentials) and the columns of
  \<open>oidc_revalidate.go\<close>. Each is one statement or transaction of the database, or, where the code
  reads first and writes later, the composition of the two.
\<close>

section \<open>Text\<close>

text \<open>\<open>strings.ToLower\<close>: ASCII bytes here, other runes by \<open>pl_lower\<close>.\<close>

definition lower_byte :: "char \<Rightarrow> char" where
  "lower_byte c =
     (let n = of_char c :: nat in if 65 \<le> n \<and> n \<le> 90 then char_of (n + 32) else c)"

definition to_lower :: "portal_lib \<Rightarrow> string \<Rightarrow> string" where
  "to_lower L s = (if list_all (\<lambda>c. (of_char c :: nat) < 128) s then map lower_byte s else pl_lower L s)"

definition normalize_email :: "portal_lib \<Rightarrow> string \<Rightarrow> string" where
  "normalize_email L s = to_lower L (trim_space s)"

definition valid_email :: "portal_lib \<Rightarrow> string \<Rightarrow> bool" where
  "valid_email L s =
     (if s = [] \<or> list_ex (\<lambda>c. c \<in> set ('' <>,;'' @ [CHR 0x0D, CHR 0x0A, CHR 0x22])) s then False
      else (case pl_address L s of
              None \<Rightarrow> False
            | Some a \<Rightarrow> a = s \<and> count_list s (CHR ''@'') = 1))"

definition lower_alnum :: "char \<Rightarrow> bool" where
  "lower_alnum c =
     (let n = of_char c :: nat in 97 \<le> n \<and> n \<le> 122 \<or> 48 \<le> n \<and> n \<le> 57)"

definition valid_team_id :: "string \<Rightarrow> bool" where
  "valid_team_id s =
     (case s of
        [] \<Rightarrow> False
      | c # cs \<Rightarrow> lower_alnum c \<and> length cs \<le> 47 \<and>
          list_all (\<lambda>c. lower_alnum c \<or> c = CHR ''_'' \<or> c = CHR ''-'') cs)"

definition valid_attr_key :: "string \<Rightarrow> bool" where
  "valid_attr_key s =
     (case s of
        [] \<Rightarrow> False
      | c # cs \<Rightarrow> lower_alnum c \<and> \<not> is_digit c \<and> length cs \<le> 31 \<and>
          list_all (\<lambda>c. lower_alnum c \<or> c = CHR ''_'') cs)"

section \<open>Reading accounts\<close>

definition lookup_user :: "portal \<Rightarrow> string \<Rightarrow> portal_user option" where
  "lookup_user p name = map_option ue_user (mget (pt_users p) name)"

definition needs_setup :: "portal \<Rightarrow> bool" where
  "needs_setup p \<longleftrightarrow> pt_users p = []"

definition find_user :: "portal \<Rightarrow> (portal_user \<Rightarrow> bool) \<Rightarrow> portal_user option" where
  "find_user p P = map_option (ue_user \<circ> snd) (find (\<lambda>(n, e). P (ue_user e)) (pt_users p))"

definition provider_github :: string where "provider_github = ''github''"
definition provider_google :: string where "provider_google = ''google''"
definition provider_oidc :: string where "provider_oidc = ''oidc''"

definition oauth_id_columns :: "(string \<times> (portal_user \<Rightarrow> string)) list" where
  "oauth_id_columns =
     [(provider_github, pu_github_id), (provider_google, pu_google_id), (provider_oidc, pu_oidc_subject)]"

definition lookup_user_by_oauth :: "portal \<Rightarrow> string \<Rightarrow> string \<Rightarrow> portal_user option" where
  "lookup_user_by_oauth p provider ident =
     (case mget oauth_id_columns provider of
        None \<Rightarrow> None
      | Some column \<Rightarrow> if ident = [] then None else find_user p (\<lambda>u. column u = ident))"

definition lookup_user_by_verified_email :: "portal_lib \<Rightarrow> portal \<Rightarrow> string \<Rightarrow> portal_user option" where
  "lookup_user_by_verified_email L p email =
     (let email = normalize_email L email
      in if email = [] then None else find_user p (\<lambda>u. pu_email u = email \<and> pu_email_verified u))"

section \<open>The unique indexes\<close>

text \<open>Each partial unique index as the key it files a row under; rows with an empty key are outside it.\<close>

definition unique_indexes :: "(string \<times> (portal_user \<Rightarrow> string)) list" where
  "unique_indexes =
     [(''users.github_user_id'', pu_github_id),
      (''users.google_user_id'', pu_google_id),
      (''users.oidc_subject'', pu_oidc_subject),
      (''users.email'', \<lambda>u. if pu_email_verified u then pu_email u else [])]"

definition index_clash :: "(string, user_entry) gomap \<Rightarrow> portal_user \<Rightarrow> (portal_user \<Rightarrow> string) \<Rightarrow> bool" where
  "index_clash us u key \<longleftrightarrow>
     key u \<noteq> [] \<and> list_ex (\<lambda>(n, e). n \<noteq> pu_username u \<and> key (ue_user e) = key u) us"

definition violated :: "(string, user_entry) gomap \<Rightarrow> portal_user \<Rightarrow> string list" where
  "violated us u = map fst (filter (\<lambda>(c, key). index_clash us u key) unique_indexes)"

text \<open>What an insert violates: the primary key too.\<close>

definition insert_violated :: "(string, user_entry) gomap \<Rightarrow> portal_user \<Rightarrow> string list" where
  "insert_violated us u =
     (if mget us (pu_username u) \<noteq> None then [''users.username''] else []) @ violated us u"

definition identity_conflict_error :: "string \<Rightarrow> portal_error" where
  "identity_conflict_error msg = Identity_Taken msg"

section \<open>Role bindings\<close>

definition same_binding :: "role_binding \<Rightarrow> role_binding \<Rightarrow> bool" where
  "same_binding a b \<longleftrightarrow>
     rb_principal a = rb_principal b \<and> rb_role a = rb_role b \<and> rb_team a = rb_team b"

text \<open>\<open>INSERT OR IGNORE INTO role_bindings\<close>.\<close>

definition insert_binding :: "role_binding \<Rightarrow> portal \<Rightarrow> portal" where
  "insert_binding b p =
     (if list_ex (same_binding b) (pt_bindings p) then p
      else p\<lparr>pt_bindings := pt_bindings p @ [b]\<rparr>)"

definition global_role :: "string \<Rightarrow> string \<Rightarrow> role_binding" where
  "global_role who role = \<lparr>rb_principal = who, rb_role = role, rb_team = []\<rparr>"

definition bind_initial_role :: "string \<Rightarrow> string \<Rightarrow> portal \<Rightarrow> portal" where
  "bind_initial_role username role p =
     (let r = (if role = ''admin'' then role_admin else role_member)
      in bump_authz (insert_binding (global_role (user_principal username) r) p))"

definition global_roles :: "portal \<Rightarrow> string \<Rightarrow> string list" where
  "global_roles p username =
     map rb_role (filter (\<lambda>b. rb_principal b = user_principal username \<and> rb_team b = []) (pt_bindings p))"

definition privileged_role :: "string \<Rightarrow> bool" where
  "privileged_role r \<longleftrightarrow> r = role_owner \<or> r = role_admin"

definition is_privileged :: "portal \<Rightarrow> string \<Rightarrow> bool" where
  "is_privileged p username \<longleftrightarrow> list_ex privileged_role (global_roles p username)"

definition is_owner :: "portal \<Rightarrow> string \<Rightarrow> bool" where
  "is_owner p username \<longleftrightarrow> list_ex (\<lambda>r. r = role_owner) (global_roles p username)"

definition other_active_privileged :: "portal \<Rightarrow> string \<Rightarrow> nat" where
  "other_active_privileged p excluding =
     length (filter (\<lambda>(n, e). \<not> pu_disabled (ue_user e) \<and> n \<noteq> excluding \<and> is_privileged p n) (pt_users p))"

definition active_owner_count :: "portal \<Rightarrow> string \<Rightarrow> nat" where
  "active_owner_count p excluding =
     length (filter
       (\<lambda>b. rb_role b = role_owner \<and> rb_team b = [] \<and> rb_principal b \<noteq> excluding \<and>
         list_ex (\<lambda>(n, e). rb_principal b = user_principal n \<and> \<not> pu_disabled (ue_user e)) (pt_users p))
       (pt_bindings p))"

definition role_exists :: "portal \<Rightarrow> string \<Rightarrow> bool" where
  "role_exists p r \<longleftrightarrow> list_ex (\<lambda>b. ro_id b = r) builtin_roles \<or> mget (pt_roles p) r \<noteq> None"

definition check_binding :: "portal \<Rightarrow> role_binding \<Rightarrow> portal_error option" where
  "check_binding p b =
     (if \<not> role_exists p (rb_role b) then Some Unknown_Role
      else (case cut_byte (CHR '':'') (rb_principal b) of
              (kind, name, ok) \<Rightarrow>
                if \<not> ok then Some Bad_Principal
                else (case (if kind = ''user'' then (if lookup_user p name = None then Some User_Not_Found else None)
                            else if kind = ''team'' then (if mget (pt_teams p) name = None then Some Team_Not_Found else None)
                            else Some Bad_Principal) of
                        Some e \<Rightarrow> Some e
                      | None \<Rightarrow>
                          if rb_team b \<noteq> [] \<and> mget (pt_teams p) (rb_team b) = None then Some Team_Not_Found
                          else None)))"

definition bind_role :: "portal \<Rightarrow> role_binding \<Rightarrow> portal_error + portal" where
  "bind_role p b =
     (case check_binding p b of
        Some e \<Rightarrow> Inl e
      | None \<Rightarrow> Inr (bump_authz (insert_binding b p)))"

definition other_privileged_roles :: "portal \<Rightarrow> role_binding \<Rightarrow> nat" where
  "other_privileged_roles p b =
     length (filter (\<lambda>x. rb_principal x = rb_principal b \<and> rb_team x = [] \<and> privileged_role (rb_role x) \<and>
       rb_role x \<noteq> rb_role b) (pt_bindings p))"

definition unbind_refused :: "portal \<Rightarrow> role_binding \<Rightarrow> portal_error option" where
  "unbind_refused p b =
     (if rb_team b = [] \<and> privileged_role (rb_role b)
      then if rb_role b = role_owner \<and> active_owner_count p (rb_principal b) = 0 then Some Last_Owner
           else if has_prefix (rb_principal b) ''user:'' \<and>
             other_active_privileged p (drop (length ''user:'') (rb_principal b)) = 0 \<and>
             other_privileged_roles p b = 0 then Some Last_Admin
           else None
      else None)"

definition unbind_role :: "portal \<Rightarrow> role_binding \<Rightarrow> portal_error + portal" where
  "unbind_role p b =
     (case unbind_refused p b of
        Some e \<Rightarrow> Inl e
      | None \<Rightarrow> Inr (bump_authz (p\<lparr>pt_bindings := filter (\<lambda>x. \<not> same_binding b x) (pt_bindings p)\<rparr>)))"

section \<open>Adding accounts\<close>

definition insert_user :: "portal_user \<Rightarrow> portal \<Rightarrow> portal" where
  "insert_user u p = p\<lparr>pt_users := pt_users p @ [(pu_username u, new_entry u)]\<rparr>"

definition add_user :: "portal \<Rightarrow> portal_user \<Rightarrow> string \<Rightarrow> portal_error + portal" where
  "add_user p u role =
     (if \<not> valid_username (pu_username u) then Inl Username_Invalid
      else
        let row = (new_user (pu_username u))\<lparr>pu_password_hash := pu_password_hash u,
                     pu_disabled := pu_disabled u, pu_csrf_token := pu_csrf_token u\<rparr>
        in if insert_violated (pt_users p) row \<noteq> [] then Inl Username_Taken
           else Inr (bind_initial_role (pu_username u) role (insert_user row p)))"

definition suffixed :: "string \<Rightarrow> nat \<Rightarrow> string" where
  "suffixed base i = (if i > 1 then base @ ''-'' @ nat_text i else base)"

fun provision_loop ::
  "portal_lib \<Rightarrow> portal \<Rightarrow> string \<Rightarrow> string \<Rightarrow> oauth_identity \<Rightarrow> string \<Rightarrow> nat list \<Rightarrow>
   portal_error + (portal \<times> portal_user)" where
  "provision_loop L p base role ident token [] = Inl No_Free_Username"
| "provision_loop L p base role ident token (i # is) =
     (let row = (new_user (suffixed base i))\<lparr>pu_csrf_token := token, pu_oidc_subject := oi_id ident,
                  pu_oidc_label := oi_label ident, pu_managed_by := provider_oidc\<rparr>;
          vs = insert_violated (pt_users p) row
      in if vs = [] then
           (let p1 = bind_initial_role (suffixed base i) role (insert_user row p)
            in Inr (p1, row))
         else if pl_report L vs = ''users.oidc_subject'' then
           (case lookup_user_by_oauth p provider_oidc (oi_id ident) of
              Some u \<Rightarrow> Inr (p, u)
            | None \<Rightarrow> Inl (Identity_Taken (pl_report L vs)))
         else if pl_report L vs \<noteq> ''users.username'' then Inl (Identity_Taken (pl_report L vs))
         else provision_loop L p base role ident token is)"

definition provision_oidc_user ::
  "portal_lib \<Rightarrow> portal \<Rightarrow> string \<Rightarrow> string \<Rightarrow> oauth_identity \<Rightarrow> string \<Rightarrow>
   portal_error + (portal \<times> portal_user)" where
  "provision_oidc_user L p base role ident token =
     provision_loop L p base role ident token [1..<101]"

definition add_first_admin :: "portal \<Rightarrow> portal_user \<Rightarrow> portal_error + portal" where
  "add_first_admin p u =
     (if \<not> valid_username (pu_username u) then Inl Username_Invalid
      else if pt_users p \<noteq> [] then Inl Setup_Done
      else
        let row = (new_user (pu_username u))\<lparr>pu_password_hash := pu_password_hash u,
                     pu_disabled := pu_disabled u, pu_csrf_token := pu_csrf_token u\<rparr>
        in Inr (bump_authz
             (insert_binding (global_role (user_principal (pu_username u)) role_owner) (insert_user row p))))"

section \<open>Changing accounts\<close>

definition map_entry :: "string \<Rightarrow> (user_entry \<Rightarrow> user_entry) \<Rightarrow> portal \<Rightarrow> portal" where
  "map_entry name f p =
     p\<lparr>pt_users := map (\<lambda>(n, e). if n = name then (n, f e) else (n, e)) (pt_users p)\<rparr>"

definition revoke_sessions :: "portal_lib \<Rightarrow> string \<Rightarrow> string \<Rightarrow> portal \<Rightarrow> portal" where
  "revoke_sessions L username keep p =
     p\<lparr>pt_sessions := filter
          (\<lambda>(h, s). \<not> (ss_username s = username \<and> (keep = [] \<or> h \<noteq> pl_sha L keep))) (pt_sessions p)\<rparr>"

text \<open>
  \<open>UpdateUser\<close> reads the row, changes the copy and writes every column back: \<open>prepared\<close> is the
  copy to write, \<open>write_user\<close> everything from the write on.
\<close>

definition prepared_user :: "portal_lib \<Rightarrow> (portal_user \<Rightarrow> portal_user) \<Rightarrow> portal_user \<Rightarrow> portal_user" where
  "prepared_user L f before =
     (let u = f before;
          u = u\<lparr>pu_email := normalize_email L (pu_email u)\<rparr>
      in if pu_email u = [] then u\<lparr>pu_email_verified := False\<rparr> else u)"

definition write_user ::
  "portal_lib \<Rightarrow> portal \<Rightarrow> string \<Rightarrow> portal_user \<Rightarrow> portal_user \<Rightarrow> portal_error + portal" where
  "write_user L p name before u =
     (let row = u\<lparr>pu_username := name\<rparr>;
          vs = (if mget (pt_users p) name = None then [] else violated (pt_users p) row)
      in if vs \<noteq> [] then Inl (identity_conflict_error (pl_report L vs))
         else
           let p1 = emit Ev_Invalidate (map_entry name (ue_user_update (\<lambda>_. row)) p);
               p2 = (if \<not> pu_disabled u \<and> pu_disabled before
                     then map_entry name (ue_disabled_by_update (\<lambda>_. [])) p1 else p1);
               p3 = (if pu_disabled u \<and> \<not> pu_disabled before then revoke_sessions L name [] p2 else p2)
           in Inr p3)"

definition update_user ::
  "portal_lib \<Rightarrow> portal \<Rightarrow> string \<Rightarrow> (portal_user \<Rightarrow> portal_user) \<Rightarrow> portal_error + portal" where
  "update_user L p name f =
     (case lookup_user p name of
        None \<Rightarrow> Inl User_Not_Found
      | Some before \<Rightarrow> write_user L p name before (prepared_user L f before))"

definition set_refresh_token :: "string \<Rightarrow> string \<Rightarrow> portal \<Rightarrow> portal" where
  "set_refresh_token name token = map_entry name (ue_refresh_update (\<lambda>_. token))"

definition refresh_token_of :: "portal \<Rightarrow> string \<Rightarrow> string" where
  "refresh_token_of p name = (case mget (pt_users p) name of None \<Rightarrow> [] | Some e \<Rightarrow> ue_refresh e)"

definition disabled_by :: "portal \<Rightarrow> string \<Rightarrow> string" where
  "disabled_by p name = (case mget (pt_users p) name of None \<Rightarrow> [] | Some e \<Rightarrow> ue_disabled_by e)"

definition set_disabled_by ::
  "portal_lib \<Rightarrow> portal \<Rightarrow> string \<Rightarrow> bool \<Rightarrow> string \<Rightarrow> portal_error + portal" where
  "set_disabled_by L p name disabled by_whom =
     (case update_user L p name (pu_disabled_update (\<lambda>_. disabled)) of
        Inl e \<Rightarrow> Inl e
      | Inr p1 \<Rightarrow>
          let p2 = map_entry name (ue_disabled_by_update (\<lambda>_. if disabled then by_whom else [])) p1
          in Inr (if disabled then set_refresh_token name [] p2 else p2))"

definition managed_with_refresh :: "portal \<Rightarrow> portal_user list" where
  "managed_with_refresh p =
     map (ue_user \<circ> snd)
       (filter (\<lambda>(n, e). pu_managed_by (ue_user e) = provider_oidc \<and> \<not> pu_disabled (ue_user e) \<and>
          ue_refresh e \<noteq> []) (pt_users p))"

definition user_attrs :: "portal \<Rightarrow> string \<Rightarrow> (string, string) gomap" where
  "user_attrs p name = (case mget (pt_users p) name of None \<Rightarrow> [] | Some e \<Rightarrow> ue_attrs e)"

definition set_user_attrs :: "portal \<Rightarrow> string \<Rightarrow> (string, string) gomap \<Rightarrow> portal_error + portal" where
  "set_user_attrs p name attrs =
     (if lookup_user p name = None then Inl User_Not_Found
      else if list_ex (\<lambda>(k, v). \<not> valid_attr_key k \<or> length v > 128) attrs then Inl Attribute_Invalid
      else Inr (emit Ev_Invalidate (map_entry name (ue_attrs_update (\<lambda>_. attrs)) p)))"

text \<open>\<open>DeletePolicy\<close>, and \<open>syncIsolationPolicies\<close> with both isolations off.\<close>

definition delete_policy :: "string \<Rightarrow> portal \<Rightarrow> portal" where
  "delete_policy pid p = bump_authz (p\<lparr>pt_policies := filter (\<lambda>x. po_id x \<noteq> pid) (pt_policies p)\<rparr>)"

definition drop_isolation_policies :: "string \<Rightarrow> portal \<Rightarrow> portal" where
  "drop_isolation_policies username p =
     (case isolation_policies username of
        (send, recv) \<Rightarrow> delete_policy (po_id recv) (delete_policy (po_id send) p))"

definition delete_rows :: "string \<Rightarrow> portal \<Rightarrow> portal" where
  "delete_rows target p =
     p\<lparr>pt_keys := filter (\<lambda>(h, k). kr_owner k \<noteq> target) (pt_keys p),
       pt_tokens := filter (\<lambda>(h, w). w \<noteq> target) (pt_tokens p),
       pt_members := filter (\<lambda>(t, n). n \<noteq> target) (pt_members p),
       pt_bindings := filter (\<lambda>b. rb_principal b \<noteq> user_principal target) (pt_bindings p),
       pt_sessions := filter (\<lambda>(h, s). ss_username s \<noteq> target) (pt_sessions p),
       pt_users := mdel target (pt_users p)\<rparr>"

definition delete_user :: "portal \<Rightarrow> string \<Rightarrow> string \<Rightarrow> portal_error + portal" where
  "delete_user p actor target =
     (if actor = target then Inl Own_Account
      else (case lookup_user p target of
              None \<Rightarrow> Inl User_Not_Found
            | Some u \<Rightarrow>
                if \<not> pu_disabled u then Inl Not_Disabled
                else if is_privileged p target \<and> other_active_privileged p target = 0 then Inl Last_Admin
                else Inr (bump_authz (drop_isolation_policies target (delete_rows target p)))))"

section \<open>CSRF tokens of accounts\<close>

definition validate_csrf :: "portal_lib \<Rightarrow> portal_user \<Rightarrow> string \<Rightarrow> bool" where
  "validate_csrf L u token =
     (if pu_csrf_token u = [] \<or> token = [] then False else pu_csrf_token u = pl_sha L token)"

definition consume_csrf :: "portal_lib \<Rightarrow> portal \<Rightarrow> string \<Rightarrow> string \<Rightarrow> bool \<times> portal" where
  "consume_csrf L p username token =
     (case lookup_user p username of
        None \<Rightarrow> (False, p)
      | Some u \<Rightarrow>
          if pu_csrf_token u = [] \<or> token = [] then (False, p)
          else if pu_csrf_token u \<noteq> pl_sha L token then (False, p)
          else (True, map_entry username (ue_user_update (pu_csrf_token_update (\<lambda>_. []))) p))"

definition refresh_csrf_token :: "portal_lib \<Rightarrow> portal \<Rightarrow> string \<Rightarrow> string \<Rightarrow> portal_error + portal" where
  "refresh_csrf_token L p username token =
     (if lookup_user p username = None then Inl User_Not_Found
      else Inr (map_entry username (ue_user_update (pu_csrf_token_update (\<lambda>_. pl_sha L token))) p))"

section \<open>Teams and custom roles\<close>

definition create_team :: "portal_lib \<Rightarrow> portal \<Rightarrow> string \<Rightarrow> string \<Rightarrow> string \<Rightarrow> portal_error + portal" where
  "create_team L p tid name creator =
     (let tid = to_lower L (trim_space tid);
          name = trim_space name
      in if \<not> valid_team_id tid then Inl Team_Invalid
         else
           let name = (if name = [] then tid else name);
               p1 = p\<lparr>pt_teams := pt_teams p @ [(tid, \<lparr>te_name = name, te_disabled = False\<rparr>)]\<rparr>;
               p2 = p1\<lparr>pt_bindings := pt_bindings p1 @ [global_role (team_principal tid) role_member]\<rparr>;
               maintain = \<lparr>rb_principal = user_principal creator, rb_role = role_team_maintainer, rb_team = tid\<rparr>
           in if mget (pt_teams p) tid \<noteq> None \<or> list_ex (\<lambda>(i, t). te_name t = name) (pt_teams p) then Inl Team_Taken
              else if list_ex (same_binding (global_role (team_principal tid) role_member)) (pt_bindings p)
              then Inl Team_Taken
              else if creator = [] then Inr (bump_authz p2)
              else if (tid, creator) \<in> set (pt_members p) \<or> list_ex (same_binding maintain) (pt_bindings p)
              then Inl Team_Taken
              else Inr (bump_authz (p2\<lparr>pt_members := pt_members p2 @ [(tid, creator)],
                                       pt_bindings := pt_bindings p2 @ [maintain]\<rparr>)))"

definition set_team_disabled :: "portal \<Rightarrow> string \<Rightarrow> bool \<Rightarrow> portal_error + portal" where
  "set_team_disabled p tid disabled =
     (if mget (pt_teams p) tid = None then Inl Team_Not_Found
      else Inr (bump_authz (p\<lparr>pt_teams :=
             map (\<lambda>(i, t). if i = tid then (i, t\<lparr>te_disabled := disabled\<rparr>) else (i, t)) (pt_teams p)\<rparr>)))"

definition delete_team :: "portal \<Rightarrow> string \<Rightarrow> portal_error + portal" where
  "delete_team p tid =
     (if mget (pt_teams p) tid = None then Inl Team_Not_Found
      else Inr (bump_authz (p\<lparr>
             pt_members := filter (\<lambda>(t, n). t \<noteq> tid) (pt_members p),
             pt_bindings := filter (\<lambda>b. rb_principal b \<noteq> team_principal tid)
                              (filter (\<lambda>b. rb_team b \<noteq> tid) (pt_bindings p)),
             pt_keys := filter (\<lambda>(h, k). kr_owner k \<noteq> team_principal tid) (pt_keys p),
             pt_tokens := filter (\<lambda>(h, w). w \<noteq> team_principal tid) (pt_tokens p),
             pt_teams := mdel tid (pt_teams p)\<rparr>)))"

definition team_bindings_of :: "string \<Rightarrow> string \<Rightarrow> role_binding \<Rightarrow> bool" where
  "team_bindings_of tid username b \<longleftrightarrow>
     rb_principal b = user_principal username \<and> rb_team b = tid \<and>
     (rb_role b = role_team_member \<or> rb_role b = role_team_maintainer)"

definition add_team_member :: "portal \<Rightarrow> string \<Rightarrow> string \<Rightarrow> bool \<Rightarrow> portal_error + portal" where
  "add_team_member p tid username maintainer =
     (if mget (pt_teams p) tid = None then Inl Team_Not_Found
      else if lookup_user p username = None then Inl User_Not_Found
      else
        let role = (if maintainer then role_team_maintainer else role_team_member)
        in Inr (bump_authz (p\<lparr>
             pt_members := (if (tid, username) \<in> set (pt_members p) then pt_members p
                            else pt_members p @ [(tid, username)]),
             pt_bindings := filter (\<lambda>b. \<not> team_bindings_of tid username b) (pt_bindings p) @
               [\<lparr>rb_principal = user_principal username, rb_role = role, rb_team = tid\<rparr>]\<rparr>)))"

definition remove_team_member :: "portal \<Rightarrow> string \<Rightarrow> string \<Rightarrow> portal" where
  "remove_team_member p tid username =
     bump_authz (p\<lparr>
       pt_members := filter (\<lambda>m. m \<noteq> (tid, username)) (pt_members p),
       pt_bindings := filter (\<lambda>b. \<not> (rb_principal b = user_principal username \<and> rb_team b = tid))
                        (pt_bindings p)\<rparr>)"

definition teams_of :: "portal \<Rightarrow> string \<Rightarrow> string list" where
  "teams_of p username =
     sort (map fst (filter
       (\<lambda>(t, n). n = username \<and>
          (case mget (pt_teams p) t of None \<Rightarrow> False | Some e \<Rightarrow> \<not> te_disabled e)) (pt_members p)))"

definition delete_role :: "portal \<Rightarrow> string \<Rightarrow> portal_error + portal" where
  "delete_role p rid =
     (if list_ex (\<lambda>b. ro_id b = rid) builtin_roles then Inl Role_Builtin
      else Inr (bump_authz (p\<lparr>pt_bindings := filter (\<lambda>b. rb_role b \<noteq> rid) (pt_bindings p),
                              pt_roles := mdel rid (pt_roles p)\<rparr>)))"

section \<open>Liveness of credentials\<close>

definition principal_active :: "portal \<Rightarrow> string \<Rightarrow> bool" where
  "principal_active p who =
     (case cut_byte (CHR '':'') who of
        (kind, name, ok) \<Rightarrow>
          if who = [] then True
          else if \<not> ok then False
          else if kind = ''user'' then
            (case mget (pt_users p) name of None \<Rightarrow> True | Some e \<Rightarrow> \<not> pu_disabled (ue_user e))
          else if kind = ''team'' then
            (case mget (pt_teams p) name of None \<Rightarrow> False | Some t \<Rightarrow> \<not> te_disabled t)
          else False)"

definition touch_key :: "gotime \<Rightarrow> string \<Rightarrow> portal \<Rightarrow> portal" where
  "touch_key now h p =
     (let k = ''api_keys'' @ [CHR 0x00] @ h
      in if (case mget (pt_touched p) k of None \<Rightarrow> False | Some prev \<Rightarrow> time_sub now prev < minute_ns) then p
         else p\<lparr>pt_touched := mput k now (pt_touched p),
                pt_keys := map (\<lambda>(i, r). if i = h then (i, r\<lparr>kr_last_used := to_second now\<rparr>) else (i, r))
                             (pt_keys p)\<rparr>)"

definition valid_api_key :: "portal_lib \<Rightarrow> portal \<Rightarrow> gotime \<Rightarrow> string \<Rightarrow> bool \<times> portal" where
  "valid_api_key L p now key =
     (case mget (pt_keys p) (pl_sha L key) of
        None \<Rightarrow> (False, p)
      | Some r \<Rightarrow>
          if expired now (kr_expires r) \<or> \<not> principal_active p (owner_principal (kr_owner r)) then (False, p)
          else (True, touch_key now (pl_sha L key) p))"

end
