(* ===== verification/Portal_Sessions.thy ===== *)
theory Portal_Sessions
  imports Portal_Accounts
begin

text \<open>
  Portal sessions (\<open>router/internal/admin/sessions.go\<close>), the links sent by mail
  (\<open>authtoken.go\<close>), and what the handlers make of them (\<open>auth.go\<close>): who a request is from, the
  CSRF check and the start of a session. One operation reads the clock once.
\<close>

section \<open>Sessions\<close>

definition sweep_sessions :: "gotime \<Rightarrow> portal \<Rightarrow> portal" where
  "sweep_sessions now p =
     p\<lparr>pt_sessions := filter (\<lambda>(h, s). to_second now < ss_expires s) (pt_sessions p)\<rparr>"

text \<open>\<open>createWithMeta\<close>; an id whose hash is taken inserts nothing, and the error is dropped.\<close>

definition create_session ::
  "portal_lib \<Rightarrow> gotime \<Rightarrow> string \<Rightarrow> string \<Rightarrow> string \<Rightarrow> string \<Rightarrow> portal \<Rightarrow> portal" where
  "create_session L now sid username ip agent p =
     (let p1 = sweep_sessions now p;
          row = \<lparr>ss_username = username, ss_csrf = [], ss_ip = ip, ss_agent = take 256 agent,
                 ss_created = to_second now, ss_expires = to_second (now + session_ttl),
                 ss_last_seen = to_second now\<rparr>
      in if mget (pt_sessions p1) (pl_sha L sid) = None
         then p1\<lparr>pt_sessions := pt_sessions p1 @ [(pl_sha L sid, row)]\<rparr> else p1)"

definition delete_session :: "portal_lib \<Rightarrow> string \<Rightarrow> portal \<Rightarrow> portal" where
  "delete_session L sid p = p\<lparr>pt_sessions := mdel (pl_sha L sid) (pt_sessions p)\<rparr>"

definition map_session :: "string \<Rightarrow> (portal_session \<Rightarrow> portal_session) \<Rightarrow> portal \<Rightarrow> portal" where
  "map_session h f p =
     p\<lparr>pt_sessions := map (\<lambda>(i, s). if i = h then (i, f s) else (i, s)) (pt_sessions p)\<rparr>"

text \<open>\<open>lookup\<close>: the session's account, with the write that is made at most once a minute.\<close>

definition lookup_session :: "portal_lib \<Rightarrow> gotime \<Rightarrow> string \<Rightarrow> portal \<Rightarrow> string option \<times> portal" where
  "lookup_session L now sid p =
     (if sid = [] then (None, p)
      else
        let h = pl_sha L sid
        in (case mget (pt_sessions p) h of
              None \<Rightarrow> (None, p)
            | Some s \<Rightarrow>
                if expired now (At (ss_expires s)) then (None, delete_session L sid p)
                else if (case mget (pt_seen p) h of None \<Rightarrow> True | Some prev \<Rightarrow> time_sub now prev \<ge> minute_ns)
                then (Some (ss_username s),
                      map_session h (ss_last_seen_update (\<lambda>_. to_second now)) (p\<lparr>pt_seen := mput h now (pt_seen p)\<rparr>))
                else (Some (ss_username s), p)))"

definition set_csrf :: "portal_lib \<Rightarrow> string \<Rightarrow> string \<Rightarrow> portal \<Rightarrow> portal" where
  "set_csrf L sid token = map_session (pl_sha L sid) (ss_csrf_update (\<lambda>_. token))"

definition get_csrf :: "portal_lib \<Rightarrow> string \<Rightarrow> portal \<Rightarrow> string option" where
  "get_csrf L sid p = map_option ss_csrf (mget (pt_sessions p) (pl_sha L sid))"

definition sessions_of :: "gotime \<Rightarrow> string \<Rightarrow> portal \<Rightarrow> (string \<times> portal_session) list" where
  "sessions_of now username p =
     sort_key (\<lambda>(h, s). - ss_last_seen s)
       (filter (\<lambda>(h, s). ss_username s = username \<and> ss_expires s > to_second now) (pt_sessions p))"

section \<open>Links\<close>

definition sweep_links :: "gotime \<Rightarrow> (string, auth_token) gomap \<Rightarrow> (string, auth_token) gomap" where
  "sweep_links now ts = filter (\<lambda>(h, e). \<not> now > at_expiry e) ts"

definition issue ::
  "portal_lib \<Rightarrow> gotime \<Rightarrow> string \<Rightarrow> string \<Rightarrow> string \<Rightarrow> string \<Rightarrow> duration \<Rightarrow> portal \<Rightarrow> portal" where
  "issue L now tok username purpose email ttl p =
     p\<lparr>pt_links := mput (pl_sha L tok)
          \<lparr>at_username = username, at_purpose = purpose, at_email = email, at_expiry = now + ttl\<rparr>
          (sweep_links now (pt_links p))\<rparr>"

definition lookup_link :: "portal_lib \<Rightarrow> gotime \<Rightarrow> string \<Rightarrow> string \<Rightarrow> portal \<Rightarrow> auth_token option" where
  "lookup_link L now tok purpose p =
     (if tok = [] then None
      else (case mget (pt_links p) (pl_sha L tok) of
              None \<Rightarrow> None
            | Some e \<Rightarrow>
                if now > at_expiry e then None
                else if at_purpose e \<noteq> purpose then None
                else Some e))"

text \<open>\<open>consume\<close> is a lookup and, in a second critical section, the deletion.\<close>

definition spend_link :: "portal_lib \<Rightarrow> string \<Rightarrow> portal \<Rightarrow> portal" where
  "spend_link L tok p = p\<lparr>pt_links := mdel (pl_sha L tok) (pt_links p)\<rparr>"

definition consume_link ::
  "portal_lib \<Rightarrow> gotime \<Rightarrow> string \<Rightarrow> string \<Rightarrow> portal \<Rightarrow> auth_token option \<times> portal" where
  "consume_link L now tok purpose p =
     (case lookup_link L now tok purpose p of
        None \<Rightarrow> (None, p)
      | Some e \<Rightarrow> (Some e, spend_link L tok p))"

definition revoke_links :: "string \<Rightarrow> string \<Rightarrow> portal \<Rightarrow> portal" where
  "revoke_links username purpose p =
     p\<lparr>pt_links := filter (\<lambda>(h, e). \<not> (at_username e = username \<and> at_purpose e = purpose)) (pt_links p)\<rparr>"

section \<open>Requests and replies\<close>

record web_request =
  wq_post :: bool
  wq_form :: "string \<Rightarrow> string"
  wq_bad_form :: bool
  wq_query :: "string \<Rightarrow> string"
  wq_header :: "string \<Rightarrow> string"
  wq_session :: "string option"
  wq_state :: "string option"
  wq_ip :: string
  wq_agent :: string

text \<open>
  What a page says: a text of the handler, the text of an error, or the one text that carries a
  secret.
\<close>

datatype portal_message =
    Text string
  | Error_Text portal_error
  | Reset_Text string string bool

datatype reply =
    Redirect_To string
  | Login_Page
  | Login_Notice portal_message
  | Login_Refused portal_message
  | Setup_Page
  | Setup_Refused portal_message
  | Confirm_Page string
  | Settings_Done portal_message
  | Settings_Refused portal_message
  | Teams_Done portal_message
  | Teams_Refused portal_message
  | Status nat
  | Token_Reply string string

datatype cookie_write =
    Set_Session string
  | Clear_Session
  | Set_State string
  | Clear_State

type_synonym handled = "reply \<times> cookie_write list \<times> portal"

record randoms =
  rd_sid :: string
  rd_csrf :: string
  rd_token :: string
  rd_nonce :: string
  rd_verifier :: string

section \<open>Who a request is from\<close>

definition session_user ::
  "portal_lib \<Rightarrow> gotime \<Rightarrow> web_request \<Rightarrow> portal \<Rightarrow> portal_user option \<times> portal" where
  "session_user L now r p =
     (case wq_session r of
        None \<Rightarrow> (None, p)
      | Some c \<Rightarrow>
          (case lookup_session L now c p of
             (None, p1) \<Rightarrow> (None, p1)
           | (Some username, p1) \<Rightarrow>
               (case lookup_user p1 username of
                  None \<Rightarrow> (None, p1)
                | Some u \<Rightarrow> (if pu_disabled u then None else Some u, p1))))"

text \<open>\<open>requireAuth\<close> and \<open>postWithCSRF\<close> around a handler.\<close>

definition portal_fetch_header :: string where "portal_fetch_header = ''X-Portal-Fetch''"

definition require_auth ::
  "portal_lib \<Rightarrow> gotime \<Rightarrow> web_request \<Rightarrow> portal \<Rightarrow> (portal_user \<Rightarrow> portal \<Rightarrow> handled) \<Rightarrow> handled" where
  "require_auth L now r p next_handler =
     (case session_user L now r p of
        (None, p1) \<Rightarrow>
          if wq_header r portal_fetch_header \<noteq> [] then (Status 401, [], p1)
          else (Redirect_To ''/portal/login'', [], p1)
      | (Some u, p1) \<Rightarrow> next_handler u p1)"

definition post_with_csrf ::
  "portal_lib \<Rightarrow> web_request \<Rightarrow> portal \<Rightarrow> (portal \<Rightarrow> handled) \<Rightarrow> handled" where
  "post_with_csrf L r p handler =
     (if \<not> wq_post r then (Status 405, [], p)
      else
        let token = (if wq_form r ''_csrf'' = [] then wq_header r ''X-CSRF-Token'' else wq_form r ''_csrf'')
        in (case wq_session r of
              None \<Rightarrow> (Status 403, [], p)
            | Some c \<Rightarrow>
                (case get_csrf L c p of
                   None \<Rightarrow> (Status 403, [], p)
                 | Some stored \<Rightarrow>
                     if stored = [] \<or> token \<noteq> stored then (Status 403, [], p) else handler p)))"

text \<open>\<open>startSessionWithCSRF\<close>: the token handed out and the state with the session.\<close>

definition start_session_with_csrf ::
  "portal_lib \<Rightarrow> gotime \<Rightarrow> randoms \<Rightarrow> web_request \<Rightarrow> string \<Rightarrow> string \<Rightarrow> portal \<Rightarrow> string \<times> portal" where
  "start_session_with_csrf L now rd r username csrf p =
     (let p1 = create_session L now (rd_sid rd) username (wq_ip r) (wq_agent r) p;
          csrf = (if csrf = [] then rd_csrf rd else csrf)
      in (csrf, if csrf \<noteq> [] then set_csrf L (rd_sid rd) csrf p1 else p1))"

definition start_session ::
  "portal_lib \<Rightarrow> gotime \<Rightarrow> randoms \<Rightarrow> web_request \<Rightarrow> string \<Rightarrow> portal \<Rightarrow> handled" where
  "start_session L now rd r username p =
     (Redirect_To ''/portal/'', [Set_Session (rd_sid rd)], snd (start_session_with_csrf L now rd r username [] p))"

end
