(* ===== verification/Portal_SignIn.thy ===== *)
theory Portal_SignIn
  imports Portal_Sessions
begin

text \<open>
  Signing in with a password or a link, and the handlers an account has for itself:
  \<open>router/internal/admin/auth.go\<close>, \<open>magiclink.go\<close>, and of \<open>pages.go\<close> and \<open>access_pages.go\<close>
  the password change and the ending of one's own sessions. A handler runs without another in
  between; the races between handlers are modelled where they matter (\<open>Portal_Races\<close>).
\<close>

section \<open>Passwords\<close>

text \<open>\<open>managedElsewhere\<close>: whether another method than the account's provider is refused.\<close>

definition managed_elsewhere :: "portal_user \<Rightarrow> string \<Rightarrow> bool" where
  "managed_elsewhere u method \<longleftrightarrow> \<not> (pu_managed_by u = [] \<or> pu_managed_by u = method)"

definition managed_text :: portal_message where
  "managed_text =
     Text ''This account is managed by your organisation's single sign-on. Sign in with it instead.''"

definition handle_login ::
  "portal_lib \<Rightarrow> gotime \<Rightarrow> randoms \<Rightarrow> web_request \<Rightarrow> portal \<Rightarrow> handled" where
  "handle_login L now rd r p =
     (if \<not> wq_post r then (Login_Page, [], p)
      else (case lookup_user p (wq_form r ''username'') of
              None \<Rightarrow> (Login_Refused (Text ''Invalid credentials.''), [], p)
            | Some u \<Rightarrow>
                if \<not> pl_password L (pu_password_hash u) (wq_form r ''password'')
                then (Login_Refused (Text ''Invalid credentials.''), [], p)
                else if pu_disabled u then (Login_Refused (Text ''Account disabled.''), [], p)
                else if managed_elsewhere u ''password'' then (Login_Refused managed_text, [], p)
                else start_session L now rd r (wq_form r ''username'') p))"

definition handle_logout :: "portal_lib \<Rightarrow> gotime \<Rightarrow> web_request \<Rightarrow> portal \<Rightarrow> handled" where
  "handle_logout L now r p =
     (if \<not> wq_post r then (Status 405, [], p)
      else
        let (username, p1) = (case wq_session r of
              None \<Rightarrow> (None, p)
            | Some c \<Rightarrow> (case lookup_session L now c p of (n, p1) \<Rightarrow> (n, delete_session L c p1)));
            p2 = (case username of
              None \<Rightarrow> p1
            | Some n \<Rightarrow>
                if n = [] then p1
                else (case update_user L p1 n (pu_csrf_token_update (\<lambda>_. [])) of Inl e \<Rightarrow> p1 | Inr p2 \<Rightarrow> p2))
        in (Redirect_To ''/portal/login'', [Clear_Session], p2))"

definition handle_setup ::
  "portal_lib \<Rightarrow> (string \<Rightarrow> string option) \<Rightarrow> web_request \<Rightarrow> portal \<Rightarrow> handled" where
  "handle_setup L hash_password r p =
     (if \<not> needs_setup p then (Redirect_To ''/portal/login'', [], p)
      else if \<not> wq_post r then (Setup_Page, [], p)
      else
        let username = wq_form r ''username''; password = wq_form r ''password''
        in if username = [] \<or> password = []
           then (Setup_Refused (Text ''Username and password are required.''), [], p)
           else if password \<noteq> wq_form r ''confirm'' then (Setup_Refused (Text ''Passwords do not match.''), [], p)
           else (case hash_password password of
                   None \<Rightarrow> (Setup_Refused (Text ''Internal error.''), [], p)
                 | Some hash \<Rightarrow>
                     (case add_first_admin p ((new_user username)\<lparr>pu_password_hash := hash\<rparr>) of
                        Inl e \<Rightarrow> (Setup_Refused (Error_Text e), [], p)
                      | Inr p1 \<Rightarrow> (Redirect_To ''/portal/login'', [], p1))))"

definition handle_change_password ::
  "portal_lib \<Rightarrow> (string \<Rightarrow> string option) \<Rightarrow> web_request \<Rightarrow> portal_user \<Rightarrow> portal \<Rightarrow> handled" where
  "handle_change_password L hash_password r u p =
     (if wq_bad_form r then (Status 400, [], p)
      else if wq_form r ''new'' \<noteq> wq_form r ''confirm''
      then (Settings_Refused (Text ''New passwords do not match.''), [], p)
      else (case lookup_user p (pu_username u) of
              None \<Rightarrow> (Settings_Refused (Text ''Internal error.''), [], p)
            | Some fresh \<Rightarrow>
                if \<not> pl_password L (pu_password_hash fresh) (wq_form r ''current'')
                then (Settings_Refused (Text ''Current password is incorrect.''), [], p)
                else (case hash_password (wq_form r ''new'') of
                        None \<Rightarrow> (Settings_Refused (Text ''Internal error.''), [], p)
                      | Some hash \<Rightarrow>
                          let p1 = (case update_user L p (pu_username u) (pu_password_hash_update (\<lambda>_. hash)) of
                                      Inl e \<Rightarrow> p | Inr p1 \<Rightarrow> p1);
                              keep = (case wq_session r of None \<Rightarrow> [] | Some c \<Rightarrow> c);
                              p2 = revoke_sessions L (pu_username u) keep p1;
                              p3 = record_audit (pu_username u) ''user.password_change'' (pu_username u) (wq_ip r) p2
                          in (Settings_Done (Text ''Password updated. Your other sessions have been signed out.''),
                              [], p3))))"

definition handle_session_revoke ::
  "portal_lib \<Rightarrow> web_request \<Rightarrow> portal_user \<Rightarrow> portal \<Rightarrow> handled" where
  "handle_session_revoke L r u p =
     (let keep = (case wq_session r of None \<Rightarrow> [] | Some c \<Rightarrow> c)
      in if wq_form r ''all_others'' \<noteq> [] then
           (Settings_Done (Text ''Your other sessions have been signed out.''), [],
            record_audit (pu_username u) ''session.revoke_others'' (pu_username u) (wq_ip r)
              (revoke_sessions L (pu_username u) keep p))
         else
           (Settings_Done (Text ''Session signed out.''), [],
            record_audit (pu_username u) ''session.revoke'' (pu_username u) (wq_ip r)
              (p\<lparr>pt_sessions := filter
                   (\<lambda>(h, s). \<not> (h = wq_form r ''session'' \<and> ss_username s = pu_username u)) (pt_sessions p)\<rparr>)))"

section \<open>Links by mail\<close>

definition link_sent :: portal_message where
  "link_sent =
     Text (''If that address belongs to an account here, a sign-in link is on its way. '' @
           ''It expires in 15 minutes.'')"

text \<open>\<open>mail_on\<close> is whether a relay is configured.\<close>

definition handle_magic_link_request ::
  "portal_lib \<Rightarrow> bool \<Rightarrow> gotime \<Rightarrow> randoms \<Rightarrow> web_request \<Rightarrow> portal \<Rightarrow> handled" where
  "handle_magic_link_request L mail_on now rd r p =
     (if \<not> mail_on then (Login_Refused (Text ''Email sign-in is not configured on this router.''), [], p)
      else if wq_bad_form r then (Login_Refused (Text ''Bad request.''), [], p)
      else
        let email = normalize_email L (wq_form r ''email'')
        in if \<not> valid_email L email then (Login_Notice link_sent, [], p)
           else (case lookup_user_by_verified_email L p email of
                   None \<Rightarrow> (Login_Notice link_sent, [], p)
                 | Some u \<Rightarrow>
                     if pu_disabled u then (Login_Notice link_sent, [], p)
                     else
                       let p1 = revoke_links (pu_username u) purpose_login p;
                           p2 = issue L now (rd_token rd) (pu_username u) purpose_login email magic_link_ttl p1;
                           p3 = record_audit (pu_username u) ''auth.magiclink.request'' email (wq_ip r) p2
                       in (Login_Notice link_sent, [], emit (Ev_Mail email purpose_login (rd_token rd)) p3)))"

definition link_dead :: portal_message where
  "link_dead = Text ''That sign-in link is invalid or has expired. Request a new one.''"

definition handle_magic_link_verify ::
  "portal_lib \<Rightarrow> gotime \<Rightarrow> randoms \<Rightarrow> web_request \<Rightarrow> portal \<Rightarrow> handled" where
  "handle_magic_link_verify L now rd r p =
     (let token = wq_form r ''token''
      in if \<not> wq_post r then
           (case lookup_link L now token purpose_login p of
              None \<Rightarrow> (Login_Refused link_dead, [], p)
            | Some e \<Rightarrow> (Confirm_Page token, [], p))
         else
           (case consume_link L now token purpose_login p of
              (None, p1) \<Rightarrow> (Login_Refused link_dead, [], p1)
            | (Some e, p1) \<Rightarrow>
                (case lookup_user p1 (at_username e) of
                   None \<Rightarrow> (Login_Refused (Text ''That sign-in link is no longer valid.''), [], p1)
                 | Some u \<Rightarrow>
                     if pu_disabled u \<or> \<not> pu_email_verified u \<or> pu_email u \<noteq> at_email e
                     then (Login_Refused (Text ''That sign-in link is no longer valid.''), [], p1)
                     else if managed_elsewhere u ''email'' then (Login_Refused managed_text, [], p1)
                     else start_session L now rd r (pu_username u)
                            (record_audit (pu_username u) ''auth.login.magiclink'' (at_email e) (wq_ip r) p1))))"

text \<open>\<open>mail_ok\<close> is whether the relay took the message.\<close>

definition send_verification ::
  "portal_lib \<Rightarrow> bool \<Rightarrow> gotime \<Rightarrow> randoms \<Rightarrow> string \<Rightarrow> string \<Rightarrow> portal \<Rightarrow> handled" where
  "send_verification L mail_ok now rd username email p =
     (let p1 = issue L now (rd_token rd) username purpose_verify email verify_link_ttl
                 (revoke_links username purpose_verify p);
          p2 = emit (Ev_Mail email purpose_verify (rd_token rd)) p1
      in if \<not> mail_ok
         then (Settings_Refused (Text ''Address saved, but the verification email could not be sent: ''), [], p2)
         else (Settings_Done (Text (''A verification link has been sent to '' @ email @
                 ''. Follow it to finish enabling email sign-in.'')), [], p2))"

definition handle_email_update ::
  "portal_lib \<Rightarrow> bool \<Rightarrow> bool \<Rightarrow> gotime \<Rightarrow> randoms \<Rightarrow> web_request \<Rightarrow> portal_user \<Rightarrow> portal \<Rightarrow> handled" where
  "handle_email_update L mail_on mail_ok now rd r u p =
     (if wq_bad_form r then (Status 400, [], p)
      else
        let email = normalize_email L (wq_form r ''email''); name = pu_username u
        in if email = [] then
             (case update_user L p name (\<lambda>x. x\<lparr>pu_email := [], pu_email_verified := False\<rparr>) of
                Inl e \<Rightarrow> (Settings_Refused (Error_Text e), [], p)
              | Inr p1 \<Rightarrow>
                  (Settings_Done (Text ''Email address removed.''), [],
                   record_audit name ''auth.email.clear'' [] (wq_ip r)
                     (revoke_links name purpose_verify (revoke_links name purpose_login p1))))
           else if \<not> valid_email L email
           then (Settings_Refused (Text (wq_form r ''email'' @ '' is not a valid email address.'')), [], p)
           else if email = pu_email u \<and> pu_email_verified u
           then (Settings_Done (Text ''That address is already verified.''), [], p)
           else if (case lookup_user_by_verified_email L p email of
                      None \<Rightarrow> False | Some other \<Rightarrow> pu_username other \<noteq> name)
           then (Settings_Refused (Text ''That email address is already in use by another user.''), [], p)
           else if \<not> mail_on
           then (Settings_Refused
                   (Text ''Email sign-in is not configured on this router, so an address cannot be verified.''), [], p)
           else (case update_user L p name (\<lambda>x. x\<lparr>pu_email := email, pu_email_verified := False\<rparr>) of
                   Inl e \<Rightarrow> (Settings_Refused (Error_Text e), [], p)
                 | Inr p1 \<Rightarrow>
                     send_verification L mail_ok now rd name email
                       (record_audit name ''auth.email.set'' email (wq_ip r) (revoke_links name purpose_login p1))))"

definition handle_email_resend ::
  "portal_lib \<Rightarrow> bool \<Rightarrow> bool \<Rightarrow> gotime \<Rightarrow> randoms \<Rightarrow> web_request \<Rightarrow> portal_user \<Rightarrow> portal \<Rightarrow> handled" where
  "handle_email_resend L mail_on mail_ok now rd r u p =
     (case lookup_user p (pu_username u) of
        None \<Rightarrow> (Settings_Refused (Text ''Set an email address first.''), [], p)
      | Some fresh \<Rightarrow>
          if pu_email fresh = [] then (Settings_Refused (Text ''Set an email address first.''), [], p)
          else if pu_email_verified fresh
          then (Settings_Done (Text ''That address is already verified.''), [], p)
          else if \<not> mail_on
          then (Settings_Refused (Text ''Email sign-in is not configured on this router.''), [], p)
          else send_verification L mail_ok now rd (pu_username u) (pu_email fresh) p)"

definition handle_email_verify :: "portal_lib \<Rightarrow> gotime \<Rightarrow> web_request \<Rightarrow> portal \<Rightarrow> handled" where
  "handle_email_verify L now r p =
     (case lookup_link L now (wq_form r ''token'') purpose_verify p of
        None \<Rightarrow> (Login_Refused (Text
          ''That verification link is invalid or has expired. Request a new one from Settings.''), [], p)
      | Some e \<Rightarrow>
          (case (case lookup_user p (at_username e) of
                   None \<Rightarrow> None | Some u \<Rightarrow> if pu_email u \<noteq> at_email e then None else Some u) of
             None \<Rightarrow> (Login_Refused (Text
               ''That verification link no longer matches the address on the account.''), [], p)
           | Some u \<Rightarrow>
               (case (if pu_email_verified u then Inr p
                      else (case update_user L p (pu_username u) (pu_email_verified_update (\<lambda>_. True)) of
                              Inl err \<Rightarrow> Inl err
                            | Inr p1 \<Rightarrow>
                                Inr (record_audit (pu_username u) ''auth.email.verify'' (at_email e) (wq_ip r) p1))) of
                  Inl err \<Rightarrow> (Login_Refused (Error_Text err), [], p)
                | Inr p1 \<Rightarrow>
                    (case session_user L now r p1 of
                       (Some _, p2) \<Rightarrow> (Redirect_To ''/portal/settings'', [], p2)
                     | (None, p2) \<Rightarrow>
                         (Login_Notice (Text (at_email e @ '' is verified. You can now sign in with an email link.'')),
                          [], p2)))))"

end
