(* ===== verification/Portal_Oidc.thy ===== *)
theory Portal_Oidc
  imports Portal_Accounts Json_Values
begin

text \<open>
  What an identity provider says of an account and what the router makes of it:
  \<open>router/internal/admin/oidc.go\<close> (the configuration and the userinfo document), \<open>oidc_access.go\<close>
  (who may sign in, and as what) and the identity readers of \<open>oauth_providers.go\<close>. JSON is read
  through \<open>json_lib\<close>; the answers of a provider are arguments.
\<close>

section \<open>Configuration\<close>

record oidc_config =
  oc_issuer :: string
  oc_name :: string
  oc_auth_method :: string
  oc_authorize_url :: string
  oc_token_url :: string
  oc_userinfo_url :: string
  oc_extra_scopes :: string
  oc_roles_claim :: string
  oc_provision :: bool
  oc_role_map :: "(string, string) gomap"
  oc_groups_claim :: string
  oc_team_map :: "(string, string) gomap"
  oc_attr_map :: "(string, string) gomap"
  oc_revalidate :: int

definition discovered :: "oidc_config \<Rightarrow> bool" where
  "discovered c \<longleftrightarrow> oc_authorize_url c \<noteq> [] \<and> oc_token_url c \<noteq> [] \<and> oc_userinfo_url c \<noteq> []"

definition oidc_display_name :: "oidc_config \<Rightarrow> string" where
  "oidc_display_name c = (if oc_name c \<noteq> [] then oc_name c else ''Single sign-on'')"

definition access_policy_on :: "oidc_config \<Rightarrow> bool" where
  "access_policy_on c \<longleftrightarrow> oc_roles_claim c \<noteq> []"

definition oidc_auth_basic :: string where "oidc_auth_basic = ''client_secret_basic''"
definition oidc_auth_post :: string where "oidc_auth_post = ''client_secret_post''"

datatype oidc_error =
    No_Role_Mapped
  | Provision_Without_Roles
  | Unknown_Auth_Method
  | Negative_Interval
  | Short_Interval

definition validate_access :: "oidc_config \<Rightarrow> oidc_error option" where
  "validate_access c =
     (if oc_roles_claim c \<noteq> [] \<and> oc_role_map c = [] then Some No_Role_Mapped
      else if oc_provision c \<and> oc_roles_claim c = [] then Some Provision_Without_Roles
      else None)"

text \<open>\<open>strings.Fields\<close>: the words between white space, \<open>w\<close> being the word under way.\<close>

function fields_acc :: "string \<Rightarrow> string \<Rightarrow> string list" where
  "fields_acc w s =
     (case s of
        [] \<Rightarrow> if w = [] then [] else [w]
      | c # cs \<Rightarrow>
          (case width_among spaces s of
             0 \<Rightarrow> fields_acc (w @ [c]) cs
           | Suc n \<Rightarrow> (if w = [] then [] else [w]) @ fields_acc [] (drop (Suc n) s)))"
  by auto

termination fields_acc
  by (relation "measure (\<lambda>(w, s). length s)") auto

declare fields_acc.simps [simp del]

text \<open>\<open>SetOIDC\<close>: the configuration it stores.\<close>

definition set_oidc :: "oidc_config \<Rightarrow> oidc_error + oidc_config" where
  "set_oidc c =
     (let c = (if oc_auth_method c = [] then c\<lparr>oc_auth_method := oidc_auth_basic\<rparr> else c)
      in if oc_auth_method c \<noteq> oidc_auth_basic \<and> oc_auth_method c \<noteq> oidc_auth_post then Inl Unknown_Auth_Method
         else
           let c = c\<lparr>oc_extra_scopes := join_with '' '' (fields_acc [] (oc_extra_scopes c)),
                     oc_roles_claim := trim_space (oc_roles_claim c)\<rparr>
           in (case validate_access c of
                 Some e \<Rightarrow> Inl e
               | None \<Rightarrow>
                   if oc_revalidate c < 0 then Inl Negative_Interval
                   else if oc_revalidate c > 0 \<and> oc_revalidate c < 5 then Inl Short_Interval
                   else Inr (c\<lparr>oc_groups_claim := trim_space (oc_groups_claim c),
                               oc_name := trim_space (oc_name c)\<rparr>)))"

text \<open>\<open>oidcSubjectID\<close>: a subject is unique within its issuer only.\<close>

definition oidc_subject_id :: "string \<Rightarrow> string \<Rightarrow> string" where
  "oidc_subject_id issuer sub = issuer @ ''#'' @ sub"

section \<open>The userinfo document\<close>

definition claim_is_true :: "raw_json \<Rightarrow> bool" where
  "claim_is_true raw = (trim_space raw = ''true'' \<or> trim_space raw = [CHR 0x22] @ ''true'' @ [CHR 0x22])"

text \<open>A JSON object as a Go map: the last of several members of one key stays.\<close>

definition raw_map :: "json_lib \<Rightarrow> raw_json \<Rightarrow> (string, raw_json) gomap option" where
  "raw_map J raw = map_option (\<lambda>ms. fold (\<lambda>(k, v). mput k v) ms []) (as_members J raw)"

definition oidc_identity :: "portal_lib \<Rightarrow> json_lib \<Rightarrow> raw_json \<Rightarrow> oauth_identity option" where
  "oidc_identity L J body =
     (case as_members J body of
        None \<Rightarrow> None
      | Some ms \<Rightarrow>
          (case (text_field J ''sub'' ms, text_field J ''email'' ms, text_field J ''preferred_username'' ms,
                 raw_map J body) of
             (Some sub, Some email, Some username, Some claims) \<Rightarrow>
               let label1 = (if claim_is_true (raw_field J ''email_verified'' ms) then normalize_email L email else []);
                   label2 = (if label1 = [] then trim_space username else label1);
                   label3 = (if label2 = [] then sub else label2)
               in Some \<lparr>oi_id = sub, oi_label = label3, oi_username = trim_space username,
                        oi_claims = claims, oi_refresh = []\<rparr>
           | _ \<Rightarrow> None))"

definition google_identity :: "portal_lib \<Rightarrow> json_lib \<Rightarrow> raw_json \<Rightarrow> oauth_identity option" where
  "google_identity L J body =
     (case as_members J body of
        None \<Rightarrow> None
      | Some ms \<Rightarrow>
          (case (text_field J ''sub'' ms, text_field J ''email'' ms,
                 field_of J (as_flag J) False ''email_verified'' ms) of
             (Some sub, Some email, Some verified) \<Rightarrow>
               let label = (if verified then normalize_email L email else [])
               in Some (no_identity\<lparr>oi_id := sub, oi_label := (if label = [] then sub else label)\<rparr>)
           | _ \<Rightarrow> None))"

definition github_identity :: "json_lib \<Rightarrow> raw_json \<Rightarrow> oauth_identity option" where
  "github_identity J body =
     (case as_members J body of
        None \<Rightarrow> None
      | Some ms \<Rightarrow>
          (case (field_of J (as_int J) 0 ''id'' ms, text_field J ''login'' ms) of
             (Some n, Some login) \<Rightarrow>
               if \<not> in64 n then None
               else if n = 0 then Some no_identity
               else Some (no_identity\<lparr>oi_id := int_text n, oi_label := login\<rparr>)
           | _ \<Rightarrow> None))"

section \<open>Claims\<close>

fun nested_claim_in :: "json_lib \<Rightarrow> (string, raw_json) gomap \<Rightarrow> string list \<Rightarrow> raw_json option" where
  "nested_claim_in J cur [] = None"
| "nested_claim_in J cur [part] = mget cur part"
| "nested_claim_in J cur (part # next # parts) =
     (case mget cur part of
        None \<Rightarrow> None
      | Some raw \<Rightarrow>
          (case raw_map J raw of None \<Rightarrow> None | Some inner \<Rightarrow> nested_claim_in J inner (next # parts)))"

definition nested_claim :: "json_lib \<Rightarrow> (string, raw_json) gomap \<Rightarrow> string \<Rightarrow> raw_json option" where
  "nested_claim J claims path = nested_claim_in J claims (split_on (CHR ''.'') path)"

definition claim_at :: "json_lib \<Rightarrow> (string, raw_json) gomap \<Rightarrow> string \<Rightarrow> raw_json option" where
  "claim_at J claims name =
     (case mget claims name of Some raw \<Rightarrow> Some raw | None \<Rightarrow> nested_claim J claims name)"

text \<open>\<open>claimRoles\<close>: a list of strings, one string, or the keys of an object.\<close>

definition claim_roles :: "json_lib \<Rightarrow> (string, raw_json) gomap \<Rightarrow> string \<Rightarrow> string list" where
  "claim_roles J claims name =
     (case claim_at J claims name of
        None \<Rightarrow> []
      | Some raw \<Rightarrow>
          (case as_texts J raw of
             Some list \<Rightarrow> list
           | None \<Rightarrow>
               (case as_text J raw of
                  Some one \<Rightarrow> [one]
                | None \<Rightarrow> (case raw_map J raw of Some obj \<Rightarrow> mkeys obj | None \<Rightarrow> []))))"

text \<open>\<open>rolesFor\<close>: the roles granted, and whether the identity may sign in.\<close>

definition roles_for :: "json_lib \<Rightarrow> oidc_config \<Rightarrow> (string, raw_json) gomap \<Rightarrow> string list \<times> bool" where
  "roles_for J c claims =
     (if \<not> access_policy_on c then ([], True)
      else
        let held = claim_roles J claims (oc_roles_claim c);
            roles = sort (remdups (map snd (filter (\<lambda>(provider, role). provider \<in> set held) (oc_role_map c))))
        in (roles, roles \<noteq> []))"

definition teams_for ::
  "json_lib \<Rightarrow> oidc_config \<Rightarrow> (string, raw_json) gomap \<Rightarrow> string list \<times> string list" where
  "teams_for J c claims =
     (if oc_groups_claim c = [] \<or> oc_team_map c = [] then ([], [])
      else
        let groups = claim_roles J claims (oc_groups_claim c)
        in (sort (map snd (filter (\<lambda>(group, team). group \<in> set groups) (oc_team_map c))),
            sort (remdups (map snd (oc_team_map c)))))"

text \<open>\<open>attrsFor\<close>; \<open>scalar\<close> is the text \<open>fmt.Sprint\<close> gives a number or a boolean.\<close>

definition attr_text :: "json_lib \<Rightarrow> (json_view \<Rightarrow> string) \<Rightarrow> raw_json \<Rightarrow> string option" where
  "attr_text J scalar raw =
     (case jl_view J raw of
        Some (V_String s) \<Rightarrow> Some s
      | Some (V_Bool b) \<Rightarrow> Some (scalar (V_Bool b))
      | Some (V_Int n) \<Rightarrow> Some (scalar (V_Int n))
      | Some (V_Number q) \<Rightarrow> Some (scalar (V_Number q))
      | _ \<Rightarrow> None)"

definition attrs_for ::
  "json_lib \<Rightarrow> (json_view \<Rightarrow> string) \<Rightarrow> oidc_config \<Rightarrow> (string, raw_json) gomap \<Rightarrow> (string, string) gomap" where
  "attrs_for J scalar c claims =
     fold (\<lambda>(claim, attr) acc.
             (case claim_at J claims claim of
                None \<Rightarrow> acc
              | Some raw \<Rightarrow> (case attr_text J scalar raw of None \<Rightarrow> acc | Some t \<Rightarrow> mput attr t acc)))
       (oc_attr_map c) []"

definition legacy_role_of :: "string list \<Rightarrow> string" where
  "legacy_role_of roles = (if list_ex privileged_role roles then ''admin'' else ''member'')"

section \<open>Usernames\<close>

definition trim_set :: "string \<Rightarrow> string \<Rightarrow> string" where
  "trim_set cs s = rev (dropWhile (\<lambda>c. c \<in> set cs) (rev (dropWhile (\<lambda>c. c \<in> set cs) s)))"

definition username_byte :: "char \<Rightarrow> bool" where
  "username_byte c \<longleftrightarrow> lower_alnum c \<or> c = CHR ''.'' \<or> c = CHR ''_'' \<or> c = CHR ''-''"

text \<open>One rune of \<open>range\<close>: its first byte, and the bytes that continue it are skipped.\<close>

definition continues_rune :: "char \<Rightarrow> bool" where
  "continues_rune c = (let n = of_char c :: nat in 128 \<le> n \<and> n < 192)"

definition provisioned_username :: "portal_lib \<Rightarrow> oauth_identity \<Rightarrow> string" where
  "provisioned_username L ident =
     (let base0 = (if oi_username ident = [] \<and> contains_sub (oi_label ident) ''@'' then oi_label ident
                   else oi_username ident);
          base = (case cut_byte (CHR ''@'') base0 of (a, b, ok) \<Rightarrow> if ok \<and> a \<noteq> [] then a else base0);
          text = map (\<lambda>c. if username_byte c then c else CHR ''-'')
                   (filter (\<lambda>c. \<not> continues_rune c) (to_lower L base));
          name1 = trim_set ''-.'' text;
          name2 = (if length name1 > 32 then trim_set ''-.'' (take 32 name1) else name1)
      in if name2 = [] then ''user'' else name2)"

section \<open>Following the provider\<close>

text \<open>The loops visit maps; a binding that is refused is skipped.\<close>

definition sync_bind :: "string \<Rightarrow> string \<Rightarrow> string \<Rightarrow> portal \<Rightarrow> portal" where
  "sync_bind username ip r p =
     (case bind_role p (global_role (user_principal username) r) of
        Inl e \<Rightarrow> p
      | Inr p1 \<Rightarrow> record_audit username ''role.bind.oidc'' r ip p1)"

definition sync_unbind :: "string \<Rightarrow> string \<Rightarrow> string \<Rightarrow> portal \<Rightarrow> portal" where
  "sync_unbind username ip r p =
     (case unbind_role p (global_role (user_principal username) r) of
        Inl e \<Rightarrow> p
      | Inr p1 \<Rightarrow> record_audit username ''role.unbind.oidc'' r ip p1)"

definition sync_roles :: "portal_lib \<Rightarrow> string \<Rightarrow> string list \<Rightarrow> string \<Rightarrow> portal \<Rightarrow> portal" where
  "sync_roles L username roles ip p =
     (let want = remdups (filter (role_exists p) roles);
          have = remdups (global_roles p username);
          p1 = fold (sync_bind username ip) (filter (\<lambda>r. r \<notin> set have) (pl_visit L want)) p
      in fold (sync_unbind username ip)
           (filter (\<lambda>r. \<not> (r \<in> set want \<or> r = role_owner)) (pl_visit L have)) p1)"

definition sync_team :: "string \<Rightarrow> string \<Rightarrow> string list \<Rightarrow> string list \<Rightarrow> string \<Rightarrow> portal \<Rightarrow> portal" where
  "sync_team username ip member is_in t p =
     (if t \<in> set member \<and> t \<notin> set is_in then
        (case add_team_member p t username False of
           Inl e \<Rightarrow> p
         | Inr p1 \<Rightarrow> record_audit username ''team.member.add.oidc'' t ip p1)
      else if t \<notin> set member \<and> t \<in> set is_in then
        record_audit username ''team.member.remove.oidc'' t ip (remove_team_member p t username)
      else p)"

definition sync_attrs ::
  "json_lib \<Rightarrow> (json_view \<Rightarrow> string) \<Rightarrow> oidc_config \<Rightarrow> string \<Rightarrow> (string, raw_json) gomap \<Rightarrow> portal \<Rightarrow> portal" where
  "sync_attrs J scalar c username claims p =
     (let mapped = attrs_for J scalar c claims;
          attrs = fold (\<lambda>(claim, attr) acc.
                     (case mget mapped attr of Some v \<Rightarrow> mput attr v acc | None \<Rightarrow> mdel attr acc))
                    (oc_attr_map c) (user_attrs p username)
      in (case set_user_attrs p username attrs of Inl e \<Rightarrow> p | Inr p1 \<Rightarrow> p1))"

definition sync_managed_access ::
  "portal_lib \<Rightarrow> json_lib \<Rightarrow> (json_view \<Rightarrow> string) \<Rightarrow> portal_user \<Rightarrow> oidc_config \<Rightarrow> string list \<Rightarrow>
   oauth_identity \<Rightarrow> string \<Rightarrow> portal \<Rightarrow> portal" where
  "sync_managed_access L J scalar u c roles ident ip p =
     (if pu_managed_by u \<noteq> provider_oidc then p
      else
        let name = pu_username u;
            p1 = (if access_policy_on c \<and> roles \<noteq> [] then sync_roles L name roles ip p else p);
            (member, managed) = teams_for J c (oi_claims ident);
            p2 = (if managed \<noteq> [] then fold (sync_team name ip member (teams_of p1 name)) managed p1 else p1)
        in (if oc_attr_map c \<noteq> [] then sync_attrs J scalar c name (oi_claims ident) p2 else p2))"

end
