(* ===== verification/Portal_Oauth.thy ===== *)
theory Portal_Oauth
  imports Portal_SignIn Portal_Oidc
begin

text \<open>
  Federated sign-in: \<open>router/internal/admin/oauth.go\<close> and \<open>oauth_providers.go\<close> (the state cookie,
  the exchange of a code, the three ends of a flow), \<open>oidc_access.go\<close> (\<open>completeOIDCLogin\<close>) and
  \<open>token_login.go\<close>. What the provider answers is an argument; the endpoint overrides of the tests
  and the log lines are left out.
\<close>

section \<open>Providers\<close>

record oauth_config =
  ao_enabled :: bool
  ao_client_id :: string
  ao_client_secret :: string

definition oauth_configured :: "oauth_config \<Rightarrow> bool" where
  "oauth_configured c \<longleftrightarrow> ao_enabled c \<and> ao_client_id c \<noteq> [] \<and> ao_client_secret c \<noteq> []"

record portal_settings =
  pg_oauth :: "string \<Rightarrow> oauth_config"
  pg_oidc :: oidc_config

record oauth_provider =
  op_key :: string
  op_name :: string
  op_authorize_url :: string
  op_token_url :: string
  op_userinfo_url :: string
  op_scope :: string
  op_token_params :: "(string \<times> string) list"
  op_pkce :: bool
  op_basic_auth :: bool
  op_subject_prefix :: string
  op_get :: "portal_user \<Rightarrow> string \<times> string"
  op_set :: "string \<Rightarrow> string \<Rightarrow> portal_user \<Rightarrow> portal_user"

definition github_provider :: oauth_provider where
  "github_provider =
     \<lparr>op_key = provider_github, op_name = ''GitHub'',
      op_authorize_url = ''https://github.com/login/oauth/authorize'',
      op_token_url = ''https://github.com/login/oauth/access_token'',
      op_userinfo_url = ''https://api.github.com/user'', op_scope = ''read:user'', op_token_params = [],
      op_pkce = False, op_basic_auth = False, op_subject_prefix = [],
      op_get = (\<lambda>u. (pu_github_id u, pu_github_login u)),
      op_set = (\<lambda>i l u. u\<lparr>pu_github_id := i, pu_github_login := l\<rparr>)\<rparr>"

definition google_provider :: oauth_provider where
  "google_provider =
     \<lparr>op_key = provider_google, op_name = ''Google'',
      op_authorize_url = ''https://accounts.google.com/o/oauth2/v2/auth'',
      op_token_url = ''https://oauth2.googleapis.com/token'',
      op_userinfo_url = ''https://openidconnect.googleapis.com/v1/userinfo'', op_scope = ''openid email'',
      op_token_params = [(''grant_type'', ''authorization_code'')],
      op_pkce = False, op_basic_auth = False, op_subject_prefix = [],
      op_get = (\<lambda>u. (pu_google_id u, pu_google_email u)),
      op_set = (\<lambda>i l u. u\<lparr>pu_google_id := i, pu_google_email := l\<rparr>)\<rparr>"

definition oidc_scope :: "oidc_config \<Rightarrow> string" where
  "oidc_scope c =
     (let s = ''openid email profile'' @ (if oc_extra_scopes c \<noteq> [] then '' '' @ oc_extra_scopes c else [])
      in if oc_revalidate c > 0 \<and> \<not> contains_sub ('' '' @ s @ '' '') '' offline_access ''
         then s @ '' offline_access'' else s)"

definition oidc_provider :: "oidc_config \<Rightarrow> oauth_provider" where
  "oidc_provider c =
     \<lparr>op_key = provider_oidc, op_name = oidc_display_name c,
      op_authorize_url = oc_authorize_url c, op_token_url = oc_token_url c,
      op_userinfo_url = oc_userinfo_url c, op_scope = oidc_scope c,
      op_token_params = [(''grant_type'', ''authorization_code'')],
      op_pkce = True, op_basic_auth = (oc_auth_method c = oidc_auth_basic),
      op_subject_prefix = (if oc_issuer c \<noteq> [] then oidc_subject_id (oc_issuer c) [] else []),
      op_get = (\<lambda>u. (pu_oidc_subject u, pu_oidc_label u)),
      op_set = (\<lambda>i l u. u\<lparr>pu_oidc_subject := i, pu_oidc_label := l\<rparr>)\<rparr>"

definition provider_for :: "portal_settings \<Rightarrow> string \<Rightarrow> oauth_provider option" where
  "provider_for g key =
     (if key = provider_github then Some github_provider
      else if key = provider_google then Some google_provider
      else if key = provider_oidc then Some (oidc_provider (pg_oidc g))
      else None)"

definition provider_ready :: "portal_settings \<Rightarrow> string \<Rightarrow> oauth_provider option \<times> oauth_config \<times> bool" where
  "provider_ready g key =
     (case provider_for g key of
        None \<Rightarrow> (None, \<lparr>ao_enabled = False, ao_client_id = [], ao_client_secret = []\<rparr>, False)
      | Some v \<Rightarrow>
          (Some v, pg_oauth g key,
           oauth_configured (pg_oauth g key) \<and> op_authorize_url v \<noteq> [] \<and> op_token_url v \<noteq> [] \<and>
             op_userinfo_url v \<noteq> []))"

definition identity_of :: "portal_lib \<Rightarrow> json_lib \<Rightarrow> string \<Rightarrow> raw_json \<Rightarrow> oauth_identity option" where
  "identity_of L J key body =
     (if key = provider_github then github_identity J body
      else if key = provider_google then google_identity L J body
      else oidc_identity L J body)"

section \<open>The state cookie\<close>

definition mode_login :: string where "mode_login = ''login''"
definition mode_link :: string where "mode_link = ''link''"

definition oauth_state_value :: "string \<Rightarrow> string \<Rightarrow> string \<Rightarrow> string \<Rightarrow> string" where
  "oauth_state_value provider mode nonce verifier =
     provider @ '':'' @ mode @ '':'' @ nonce @ '':'' @ verifier"

definition take_oauth_state :: "web_request \<Rightarrow> string \<Rightarrow> (string \<times> string) option" where
  "take_oauth_state r provider =
     (case wq_state r of
        None \<Rightarrow> None
      | Some c \<Rightarrow>
          (case split_on (CHR '':'') c of
             [got, mode, nonce, verifier] \<Rightarrow>
               if nonce = [] \<or> got \<noteq> provider then None
               else if nonce \<noteq> wq_query r ''state'' then None
               else if mode \<noteq> mode_login \<and> mode \<noteq> mode_link then None
               else Some (mode, verifier)
           | _ \<Rightarrow> None))"

text \<open>\<open>beginOAuth\<close>; of the address it redirects to, the query parameters are the nonce and the challenge.\<close>

definition begin_oauth ::
  "portal_lib \<Rightarrow> portal_settings \<Rightarrow> randoms \<Rightarrow> string \<Rightarrow> string \<Rightarrow> portal \<Rightarrow> handled" where
  "begin_oauth L g rd key mode p =
     (case provider_ready g key of
        (None, cfg, ready) \<Rightarrow> (Status 404, [], p)
      | (Some v, cfg, ready) \<Rightarrow>
          if \<not> ready then (Status 404, [], p)
          else
            let verifier = (if op_pkce v then rd_verifier rd else [])
            in (Redirect_To (op_authorize_url v), [Set_State (oauth_state_value key mode (rd_nonce rd) verifier)], p))"

definition handle_oauth_login ::
  "portal_lib \<Rightarrow> portal_settings \<Rightarrow> gotime \<Rightarrow> randoms \<Rightarrow> string \<Rightarrow> web_request \<Rightarrow> portal \<Rightarrow> handled" where
  "handle_oauth_login L g now rd key r p =
     (case session_user L now r p of
        (Some u, p1) \<Rightarrow> (Redirect_To ''/portal/'', [], p1)
      | (None, p1) \<Rightarrow> begin_oauth L g rd key mode_login p1)"

section \<open>The exchange\<close>

text \<open>
  What the provider answers: to a form posted to the token endpoint, and to an access token shown
  to the userinfo endpoint; a status and a body, or nothing when it cannot be reached.
\<close>

record provider_answers =
  pa_token :: "string \<Rightarrow> (string \<times> string) list \<Rightarrow> (int \<times> raw_json) option"
  pa_userinfo :: "string \<Rightarrow> string \<Rightarrow> (int \<times> raw_json) option"

definition fetch_oauth_identity ::
  "portal_lib \<Rightarrow> json_lib \<Rightarrow> provider_answers \<Rightarrow> oauth_provider \<Rightarrow> string \<Rightarrow> oauth_identity option" where
  "fetch_oauth_identity L J A v access_token =
     (case pa_userinfo A (op_userinfo_url v) access_token of
        None \<Rightarrow> None
      | Some (status, body) \<Rightarrow>
          if status \<noteq> 200 then None
          else (case identity_of L J (op_key v) body of
                  None \<Rightarrow> None
                | Some ident \<Rightarrow>
                    if oi_id ident = [] then None
                    else Some (ident\<lparr>oi_id := op_subject_prefix v @ oi_id ident\<rparr>)))"

definition client_fields :: "oauth_provider \<Rightarrow> oauth_config \<Rightarrow> (string \<times> string) list" where
  "client_fields v cfg =
     (if op_basic_auth v then []
      else [(''client_id'', ao_client_id cfg), (''client_secret'', ao_client_secret cfg)])"

definition exchange_oauth_code ::
  "portal_lib \<Rightarrow> json_lib \<Rightarrow> provider_answers \<Rightarrow> oauth_provider \<Rightarrow> oauth_config \<Rightarrow> string \<Rightarrow> string \<Rightarrow>
   string \<Rightarrow> oauth_identity option" where
  "exchange_oauth_code L J A v cfg code redirect_uri verifier =
     (case pa_token A (op_token_url v)
             ([(''code'', code), (''redirect_uri'', redirect_uri)] @ client_fields v cfg @
              (if verifier \<noteq> [] then [(''code_verifier'', verifier)] else []) @ op_token_params v) of
        None \<Rightarrow> None
      | Some (status, body) \<Rightarrow>
          if status \<noteq> 200 then None
          else (case as_members J body of
                  None \<Rightarrow> None
                | Some ms \<Rightarrow>
                    (case (text_field J ''access_token'' ms, text_field J ''refresh_token'' ms,
                           text_field J ''error'' ms, text_field J ''error_description'' ms) of
                       (Some access, Some refresh, Some err, Some _) \<Rightarrow>
                         if err \<noteq> [] then None
                         else if access = [] then None
                         else map_option (oi_refresh_update (\<lambda>_. refresh))
                                (fetch_oauth_identity L J A v access)
                     | _ \<Rightarrow> None)))"

section \<open>The ends of a flow\<close>

definition not_linked :: "oauth_provider \<Rightarrow> portal_message" where
  "not_linked v =
     Text (''That '' @ op_name v @ '' account is not linked to an llmesh account. '' @
           ''Sign in with your password, then link it under Settings.'')"

text \<open>\<open>completeOIDCLogin\<close>, from the account on: the sync, the label, the refresh token, the session.\<close>

definition try_update :: "portal_lib \<Rightarrow> string \<Rightarrow> (portal_user \<Rightarrow> portal_user) \<Rightarrow> portal \<Rightarrow> portal" where
  "try_update L name f p = (case update_user L p name f of Inl e \<Rightarrow> p | Inr p1 \<Rightarrow> p1)"

definition finish_oidc_login ::
  "portal_lib \<Rightarrow> json_lib \<Rightarrow> (json_view \<Rightarrow> string) \<Rightarrow> oidc_config \<Rightarrow> gotime \<Rightarrow> randoms \<Rightarrow> web_request \<Rightarrow>
   string list \<Rightarrow> oauth_identity \<Rightarrow> portal_user \<Rightarrow> portal \<Rightarrow> handled" where
  "finish_oidc_login L J scalar c now rd r roles ident u p =
     (let name = pu_username u;
          p1 = sync_managed_access L J scalar u c roles ident (wq_ip r) p;
          p2 = (if oi_label ident \<noteq> [] \<and> oi_label ident \<noteq> pu_oidc_label u
                then try_update L name (pu_oidc_label_update (\<lambda>_. oi_label ident)) p1 else p1);
          p3 = (if pu_managed_by u = provider_oidc \<and> oc_revalidate c > 0 \<and> oi_refresh ident \<noteq> []
                then set_refresh_token name (oi_refresh ident) p2 else p2);
          p4 = record_audit name ''auth.login.oidc'' (oi_label ident) (wq_ip r) p3
      in start_session L now rd r name p4)"

definition account_for_oidc ::
  "portal_lib \<Rightarrow> oidc_config \<Rightarrow> randoms \<Rightarrow> web_request \<Rightarrow> oauth_provider \<Rightarrow> string list \<Rightarrow> oauth_identity \<Rightarrow>
   portal \<Rightarrow> portal_message + (portal \<times> portal_user)" where
  "account_for_oidc L c rd r v roles ident p =
     (case lookup_user_by_oauth p (op_key v) (oi_id ident) of
        Some u \<Rightarrow> Inr (p, u)
      | None \<Rightarrow>
          if \<not> oc_provision c then Inl (not_linked v)
          else (case provision_oidc_user L p (provisioned_username L ident) (legacy_role_of roles) ident (rd_token rd) of
                  Inl e \<Rightarrow> Inl (Text ''Could not create your llmesh account. Ask an administrator.'')
                | Inr (p1, u) \<Rightarrow>
                    Inr (record_audit (pu_username u) ''user.provision.oidc''
                           (oi_label ident @ '' roles='' @ join_with '','' roles) (wq_ip r) p1, u)))"

definition complete_oidc_login ::
  "portal_lib \<Rightarrow> json_lib \<Rightarrow> (json_view \<Rightarrow> string) \<Rightarrow> oidc_config \<Rightarrow> gotime \<Rightarrow> randoms \<Rightarrow> web_request \<Rightarrow>
   oauth_provider \<Rightarrow> oauth_identity \<Rightarrow> portal \<Rightarrow> handled" where
  "complete_oidc_login L J scalar c now rd r v ident p =
     (case roles_for J c (oi_claims ident) of
        (roles, allowed) \<Rightarrow>
          if \<not> allowed then
            (Login_Refused (Text (''Your '' @ op_name v @ '' account has not been granted access to llmesh.'')), [],
             record_audit [] ''auth.login.oidc.refused'' (oi_label ident) (wq_ip r) p)
          else (case account_for_oidc L c rd r v roles ident p of
                  Inl m \<Rightarrow> (Login_Refused m, [], p)
                | Inr (p1, u) \<Rightarrow>
                    if \<not> pu_disabled u then finish_oidc_login L J scalar c now rd r roles ident u p1
                    else if pu_managed_by u \<noteq> provider_oidc \<or> disabled_by p1 (pu_username u) \<noteq> provider_oidc
                    then (Login_Refused (Text ''Account disabled.''), [], p1)
                    else (case set_disabled_by L p1 (pu_username u) False [] of
                            Inl e \<Rightarrow> (Login_Refused (Text ''Account disabled.''), [], p1)
                          | Inr p2 \<Rightarrow>
                              finish_oidc_login L J scalar c now rd r roles ident u
                                (record_audit (pu_username u) ''user.enable.oidc'' (oi_label ident) (wq_ip r) p2))))"

definition complete_oauth_login ::
  "portal_lib \<Rightarrow> json_lib \<Rightarrow> (json_view \<Rightarrow> string) \<Rightarrow> oidc_config \<Rightarrow> gotime \<Rightarrow> randoms \<Rightarrow> web_request \<Rightarrow>
   oauth_provider \<Rightarrow> oauth_identity \<Rightarrow> portal \<Rightarrow> handled" where
  "complete_oauth_login L J scalar c now rd r v ident p =
     (if op_key v = provider_oidc then complete_oidc_login L J scalar c now rd r v ident p
      else (case lookup_user_by_oauth p (op_key v) (oi_id ident) of
              None \<Rightarrow> (Login_Refused (not_linked v), [], p)
            | Some u \<Rightarrow>
                if pu_disabled u then (Login_Refused (Text ''Account disabled.''), [], p)
                else if managed_elsewhere u (op_key v) then (Login_Refused managed_text, [], p)
                else
                  let p1 = (if oi_label ident \<noteq> [] \<and> oi_label ident \<noteq> snd (op_get v u)
                            then try_update L (pu_username u) (op_set v (oi_id ident) (oi_label ident)) p else p)
                  in start_session L now rd r (pu_username u)
                       (record_audit (pu_username u) (''auth.login.'' @ op_key v) (oi_label ident) (wq_ip r) p1)))"

definition complete_oauth_link ::
  "portal_lib \<Rightarrow> gotime \<Rightarrow> web_request \<Rightarrow> oauth_provider \<Rightarrow> oauth_identity \<Rightarrow> portal \<Rightarrow> handled" where
  "complete_oauth_link L now r v ident p =
     (case session_user L now r p of
        (None, p1) \<Rightarrow> (Redirect_To ''/portal/login'', [], p1)
      | (Some u, p1) \<Rightarrow>
          (case update_user L p1 (pu_username u) (op_set v (oi_id ident) (oi_label ident)) of
             Inl e \<Rightarrow> (Settings_Refused (Error_Text e), [], p1)
           | Inr p2 \<Rightarrow>
               (Settings_Done (Text (op_name v @ '' account '' @ oi_label ident @ '' linked.'')), [],
                record_audit (pu_username u) (''auth.'' @ op_key v @ ''.link'') (oi_label ident) (wq_ip r) p2)))"

definition oauth_failure ::
  "portal_lib \<Rightarrow> gotime \<Rightarrow> web_request \<Rightarrow> string \<Rightarrow> portal_message \<Rightarrow> portal \<Rightarrow> reply \<times> portal" where
  "oauth_failure L now r mode m p =
     (if mode = mode_link then
        (case session_user L now r p of
           (Some u, p1) \<Rightarrow> (Settings_Refused m, p1)
         | (None, p1) \<Rightarrow> (Login_Refused m, p1))
      else (Login_Refused m, p))"

definition handle_oauth_callback ::
  "portal_lib \<Rightarrow> json_lib \<Rightarrow> (json_view \<Rightarrow> string) \<Rightarrow> provider_answers \<Rightarrow> portal_settings \<Rightarrow> string \<Rightarrow> gotime \<Rightarrow>
   randoms \<Rightarrow> string \<Rightarrow> web_request \<Rightarrow> portal \<Rightarrow> handled" where
  "handle_oauth_callback L J scalar A g redirect_uri now rd key r p =
     (case provider_ready g key of
        (None, cfg, ready) \<Rightarrow> (Status 404, [], p)
      | (Some v, cfg, ready) \<Rightarrow>
          if \<not> ready then (Status 404, [], p)
          else
            let fails = (\<lambda>mode m. case oauth_failure L now r mode m p of (x, p1) \<Rightarrow> (x, [Clear_State], p1));
                unverified = Text (''That '' @ op_name v @ '' sign-in attempt could not be verified. Please try again.'')
            in (case take_oauth_state r key of
                  None \<Rightarrow> fails mode_login unverified
                | Some (mode, verifier) \<Rightarrow>
                    if wq_query r ''error'' \<noteq> [] then fails mode (Text (op_name v @ '' sign-in was cancelled.''))
                    else if wq_query r ''code'' = []
                    then fails mode (Text (op_name v @ '' did not return an authorization code.''))
                    else if op_pkce v \<and> verifier = [] then fails mode unverified
                    else (case exchange_oauth_code L J A v cfg (wq_query r ''code'') redirect_uri verifier of
                            None \<Rightarrow> fails mode (Text (''Could not complete '' @ op_name v @ '' sign-in. Please try again.''))
                          | Some ident \<Rightarrow>
                              (case (if mode = mode_link then complete_oauth_link L now r v ident p
                                     else complete_oauth_login L J scalar (pg_oidc g) now rd r v ident p) of
                                 (x, cs, p1) \<Rightarrow> (x, Clear_State # cs, p1)))))"

definition handle_oauth_unlink ::
  "portal_lib \<Rightarrow> portal_settings \<Rightarrow> string \<Rightarrow> web_request \<Rightarrow> portal_user \<Rightarrow> portal \<Rightarrow> handled" where
  "handle_oauth_unlink L g key r u p =
     (case provider_for g key of
        None \<Rightarrow> (Status 404, [], p)
      | Some v \<Rightarrow>
          if pu_managed_by u = key
          then (Settings_Refused (Text (''This account is managed by '' @ op_name v @
                  '' and cannot be unlinked from it.'')), [], p)
          else (case update_user L p (pu_username u) (op_set v [] []) of
                  Inl e \<Rightarrow> (Settings_Refused (Error_Text e), [], p)
                | Inr p1 \<Rightarrow>
                    (Settings_Done (Text (op_name v @ '' account unlinked.'')), [],
                     record_audit (pu_username u) (''auth.'' @ op_key v @ ''.unlink'') (snd (op_get v u)) (wq_ip r) p1)))"

section \<open>Tokens of machines\<close>

definition fetch_token_identity ::
  "portal_lib \<Rightarrow> json_lib \<Rightarrow> provider_answers \<Rightarrow> string \<Rightarrow> string \<Rightarrow> oauth_identity option" where
  "fetch_token_identity L J A url token =
     (case pa_userinfo A url token of
        None \<Rightarrow> None
      | Some (status, body) \<Rightarrow> if status \<noteq> 200 then None else oidc_identity L J body)"

definition admin_for_token_identity ::
  "portal_lib \<Rightarrow> randoms \<Rightarrow> web_request \<Rightarrow> oauth_identity \<Rightarrow> portal \<Rightarrow> (portal \<times> portal_user) option" where
  "admin_for_token_identity L rd r ident p =
     (case lookup_user_by_oauth p provider_oidc (oi_id ident) of
        Some u \<Rightarrow> if pu_disabled u then None else Some (p, u)
      | None \<Rightarrow>
          (case provision_oidc_user L p (provisioned_username L ident) ''admin'' ident (rd_token rd) of
             Inl e \<Rightarrow> None
           | Inr (p1, u) \<Rightarrow>
               Some (record_audit (pu_username u) ''user.provision.oidc.token'' (oi_label ident) (wq_ip r) p1, u)))"

definition handle_token_login ::
  "portal_lib \<Rightarrow> json_lib \<Rightarrow> provider_answers \<Rightarrow> portal_settings \<Rightarrow> gotime \<Rightarrow> randoms \<Rightarrow> web_request \<Rightarrow>
   portal \<Rightarrow> handled" where
  "handle_token_login L J A g now rd r p =
     (let auth = wq_header r ''Authorization''; bearer = ''Bearer ''
      in if \<not> wq_post r then (Status 405, [], p)
         else if \<not> has_prefix auth bearer \<or> trim_space (drop (length bearer) auth) = [] then (Status 401, [], p)
         else if \<not> discovered (pg_oidc g) \<or> oc_userinfo_url (pg_oidc g) = [] then (Status 404, [], p)
         else (case fetch_token_identity L J A (oc_userinfo_url (pg_oidc g)) (trim_space (drop (length bearer) auth)) of
                 None \<Rightarrow> (Status 401, [], p)
               | Some ident \<Rightarrow>
                   if oi_id ident = [] then (Status 401, [], p)
                   else (case admin_for_token_identity L rd r ident p of
                           None \<Rightarrow> (Status 500, [], p)
                         | Some (p1, u) \<Rightarrow>
                             (case start_session_with_csrf L now rd r (pu_username u) []
                                     (record_audit (pu_username u) ''auth.login.token'' (oi_label ident) (wq_ip r) p1) of
                                (csrf, p2) \<Rightarrow> (Token_Reply (pu_username u) csrf, [Set_Session (rd_sid rd)], p2)))))"

end
