(* ===== verification/Portal_Admin.thy ===== *)
theory Portal_Admin
  imports Portal_Oauth
begin

text \<open>
  Managing other people's accounts: the handlers behind \<open>user.manage\<close> in
  \<open>router/internal/admin/pages.go\<close> and \<open>access_pages.go\<close>, the guards of \<open>access_portal.go\<close> they
  share, and the revalidation of provider-managed accounts (\<open>oidc_revalidate.go\<close>). What the
  compiled rules answer the signed-in user is the argument \<open>may\<close>.
\<close>

section \<open>Who may change whom\<close>

type_synonym asks = "string \<Rightarrow> resource \<Rightarrow> bool"

definition kind_resource :: "string \<Rightarrow> string \<Rightarrow> resource" where
  "kind_resource action owner =
     \<lparr>rs_type = fst (cut_byte (CHR ''.'') action), rs_id = [], rs_owner = owner, rs_team = [], rs_attrs = [],
      rs_sharing = None\<rparr>"

definition can_do :: "asks \<Rightarrow> string \<Rightarrow> bool" where
  "can_do may action = may action (kind_resource action [])"

definition can_any :: "asks \<Rightarrow> string \<Rightarrow> bool" where
  "can_any may action = may action (kind_resource action (CHR 0x00 # ''none''))"

definition has_suffix :: "string \<Rightarrow> string \<Rightarrow> bool" where
  "has_suffix s t \<longleftrightarrow> has_prefix (rev s) (rev t)"

definition holds_permission :: "asks \<Rightarrow> string \<Rightarrow> permission \<Rightarrow> bool" where
  "holds_permission may self perm =
     (case pm_scope perm of
        Scope_Own \<Rightarrow> may (pm_action perm) (kind_resource (pm_action perm) self)
      | Scope_Team \<Rightarrow> can_any may (pm_action perm)
      | Scope_Any \<Rightarrow>
          if has_suffix (permission_string perm) ''.any'' then can_any may (pm_action perm)
          else can_do may (pm_action perm))"

definition role_permissions :: "portal \<Rightarrow> string \<Rightarrow> string list option" where
  "role_permissions p rid =
     (case find (\<lambda>b. ro_id b = rid) builtin_roles of
        Some b \<Rightarrow> Some (ro_permissions b)
      | None \<Rightarrow> mget (pt_roles p) rid)"

definition baseline :: "string list" where
  "baseline = (case find (\<lambda>b. ro_id b = role_member) builtin_roles of None \<Rightarrow> [] | Some b \<Rightarrow> ro_permissions b)"

definition can_grant_role :: "asks \<Rightarrow> string \<Rightarrow> portal \<Rightarrow> string \<Rightarrow> bool" where
  "can_grant_role may self p rid =
     (case role_permissions p rid of
        None \<Rightarrow> False
      | Some perms \<Rightarrow>
          list_all (\<lambda>s. s \<in> set baseline \<or>
                      (case parse_permission s of Inl e \<Rightarrow> False | Inr perm \<Rightarrow> holds_permission may self perm)) perms)"

definition owner_only :: portal_message where
  "owner_only = Text ''Only an owner may change another owner's account.''"

definition user_change_refused :: "asks \<Rightarrow> string \<Rightarrow> portal \<Rightarrow> string \<Rightarrow> portal_message option" where
  "user_change_refused may self p target =
     (if is_owner p target \<and> \<not> can_do may ''owner.manage'' then Some owner_only
      else (case find (\<lambda>r. \<not> can_grant_role may self p r) (global_roles p target) of
              Some r \<Rightarrow> Some (Text (''You cannot change '' @ target @ '''s account: they hold the '' @ r @
                          '' role, which you could not grant.''))
            | None \<Rightarrow> None))"

definition role_managed_elsewhere :: "portal \<Rightarrow> string \<Rightarrow> bool" where
  "role_managed_elsewhere p target =
     (case lookup_user p target of None \<Rightarrow> False | Some t \<Rightarrow> pu_managed_by t \<noteq> [])"

definition role_change_refused :: "asks \<Rightarrow> string \<Rightarrow> portal \<Rightarrow> string \<Rightarrow> string \<Rightarrow> portal_message option" where
  "role_change_refused may self p target role =
     (case user_change_refused may self p target of
        Some m \<Rightarrow> Some m
      | None \<Rightarrow>
          if role = role_owner \<and> \<not> can_do may ''owner.manage''
          then Some (Text ''Only an owner may grant or remove the owner role.'')
          else if \<not> can_grant_role may self p role
          then Some (Text (''You cannot grant or remove the '' @ role @
                  '' role: it carries permissions you do not hold.''))
          else if role_managed_elsewhere p target
          then Some (Text (target @ '''s role is managed by single sign-on; change it at the identity provider.''))
          else None)"

section \<open>The handlers\<close>

definition close_tokens_of :: "string \<Rightarrow> portal \<Rightarrow> portal" where
  "close_tokens_of username p =
     fold (\<lambda>(h, w). emit (Ev_Close_Token h)) (filter (\<lambda>(h, w). w = username) (pt_tokens p)) p"

definition handle_add_user ::
  "(string \<Rightarrow> string option) \<Rightarrow> web_request \<Rightarrow> portal_user \<Rightarrow> portal \<Rightarrow> handled" where
  "handle_add_user hash_password r u p =
     (if wq_bad_form r then (Status 400, [], p)
      else
        let username = trim_space (wq_form r ''username''); password = wq_form r ''password''
        in if username = [] \<or> password = []
           then (Settings_Refused (Text ''Username and password are required.''), [], p)
           else if lookup_user p username \<noteq> None
           then (Settings_Refused (Text (''Username '' @ username @ '' already exists.'')), [], p)
           else (case hash_password password of
                   None \<Rightarrow> (Settings_Refused (Text ''Internal error.''), [], p)
                 | Some hash \<Rightarrow>
                     (case add_user p ((new_user username)\<lparr>pu_password_hash := hash\<rparr>) ''member'' of
                        Inl e \<Rightarrow> (Settings_Refused (Error_Text e), [], p)
                      | Inr p1 \<Rightarrow>
                          (Settings_Done (Text (''User '' @ username @ '' created.'')), [],
                           record_audit (pu_username u) ''user.add'' username (wq_ip r) p1))))"

definition handle_user_disable ::
  "portal_lib \<Rightarrow> asks \<Rightarrow> web_request \<Rightarrow> portal_user \<Rightarrow> portal \<Rightarrow> handled" where
  "handle_user_disable L may r u p =
     (if wq_bad_form r then (Status 400, [], p)
      else
        let target = wq_form r ''username''
        in (case user_change_refused may (user_principal (pu_username u)) p target of
              Some m \<Rightarrow> (Settings_Refused m, [], p)
            | None \<Rightarrow>
                if target = pu_username u then (Settings_Refused (Text ''Cannot disable yourself.''), [], p)
                else if is_privileged p target \<and> other_active_privileged p target = 0
                then (Settings_Refused (Text ''Cannot disable the last admin account.''), [], p)
                else (case set_disabled_by L p target True [] of
                        Inl e \<Rightarrow> (Settings_Refused (Error_Text e), [], p)
                      | Inr p1 \<Rightarrow>
                          (Redirect_To ''/portal/settings'', [],
                           record_audit (pu_username u) ''user.disable'' target (wq_ip r) (close_tokens_of target p1)))))"

definition handle_user_enable ::
  "portal_lib \<Rightarrow> asks \<Rightarrow> web_request \<Rightarrow> portal_user \<Rightarrow> portal \<Rightarrow> handled" where
  "handle_user_enable L may r u p =
     (if wq_bad_form r then (Status 400, [], p)
      else
        let target = wq_form r ''username''
        in (case user_change_refused may (user_principal (pu_username u)) p target of
              Some m \<Rightarrow> (Settings_Refused m, [], p)
            | None \<Rightarrow>
                (case update_user L p target (pu_disabled_update (\<lambda>_. False)) of
                   Inl e \<Rightarrow> (Settings_Refused (Error_Text e), [], p)
                 | Inr p1 \<Rightarrow>
                     (Redirect_To ''/portal/settings'', [],
                      record_audit (pu_username u) ''user.enable'' target (wq_ip r) p1))))"

text \<open>\<open>temp\<close> is the temporary password drawn, \<open>None\<close> when the source of randomness fails.\<close>

definition handle_user_reset_password ::
  "portal_lib \<Rightarrow> (string \<Rightarrow> string option) \<Rightarrow> string option \<Rightarrow> asks \<Rightarrow> web_request \<Rightarrow> portal_user \<Rightarrow> portal \<Rightarrow>
   handled" where
  "handle_user_reset_password L hash_password temp may r u p =
     (if wq_bad_form r then (Status 400, [], p)
      else
        let target = wq_form r ''username''
        in (case user_change_refused may (user_principal (pu_username u)) p target of
              Some m \<Rightarrow> (Settings_Refused m, [], p)
            | None \<Rightarrow>
                if target = pu_username u
                then (Settings_Refused (Text ''Use Change Password to update your own account.''), [], p)
                else (case lookup_user p target of
                        None \<Rightarrow> (Settings_Refused (Text (''User '' @ target @ '' not found.'')), [], p)
                      | Some t \<Rightarrow>
                          (case (case temp of None \<Rightarrow> None
                                 | Some pw \<Rightarrow> (case hash_password pw of None \<Rightarrow> None | Some h \<Rightarrow> Some (pw, h))) of
                             None \<Rightarrow> (Settings_Refused (Text ''Internal error.''), [], p)
                           | Some (pw, hash) \<Rightarrow>
                               (case update_user L p target
                                       (\<lambda>x. x\<lparr>pu_password_hash := hash, pu_managed_by := []\<rparr>) of
                                  Inl e \<Rightarrow> (Settings_Refused (Error_Text e), [], p)
                                | Inr p1 \<Rightarrow>
                                    let released = (pu_managed_by t \<noteq> []);
                                        p2 = record_audit (pu_username u) ''user.password_reset'' target (wq_ip r)
                                               (revoke_sessions L target [] p1);
                                        p3 = (if released
                                              then record_audit (pu_username u) ''user.release_managed'' target (wq_ip r) p2
                                              else p2)
                                    in (Settings_Done (Reset_Text target pw released), [], p3))))))"

definition handle_user_delete :: "asks \<Rightarrow> web_request \<Rightarrow> portal_user \<Rightarrow> portal \<Rightarrow> handled" where
  "handle_user_delete may r u p =
     (if wq_bad_form r then (Status 400, [], p)
      else
        let target = wq_form r ''username''
        in (case user_change_refused may (user_principal (pu_username u)) p target of
              Some m \<Rightarrow> (Settings_Refused m, [], p)
            | None \<Rightarrow>
                (case delete_user p (pu_username u) target of
                   Inl e \<Rightarrow> (Settings_Refused (Error_Text e), [], p)
                 | Inr p1 \<Rightarrow>
                     (Settings_Done (Text (''User '' @ target @ '' deleted.'')), [],
                      record_audit (pu_username u) ''user.delete'' target (wq_ip r) p1))))"

definition handle_user_role_add :: "asks \<Rightarrow> web_request \<Rightarrow> portal_user \<Rightarrow> portal \<Rightarrow> handled" where
  "handle_user_role_add may r u p =
     (let target = wq_form r ''username''; role = wq_form r ''role''
      in (case role_change_refused may (user_principal (pu_username u)) p target role of
            Some m \<Rightarrow> (Settings_Refused m, [], p)
          | None \<Rightarrow>
              if role = role_team_maintainer \<or> role = role_team_member
              then (Settings_Refused (Text ''Team roles are granted on the Teams page.''), [], p)
              else (case bind_role p (global_role (user_principal target) role) of
                      Inl e \<Rightarrow> (Settings_Refused (Error_Text e), [], p)
                    | Inr p1 \<Rightarrow>
                        (Settings_Done (Text (target @ '' now has the '' @ role @ '' role.'')), [],
                         record_audit (pu_username u) ''role.bind'' (target @ '' '' @ role) (wq_ip r) p1))))"

definition handle_user_role_remove :: "asks \<Rightarrow> web_request \<Rightarrow> portal_user \<Rightarrow> portal \<Rightarrow> handled" where
  "handle_user_role_remove may r u p =
     (let target = wq_form r ''username''; role = wq_form r ''role''
      in (case role_change_refused may (user_principal (pu_username u)) p target role of
            Some m \<Rightarrow> (Settings_Refused m, [], p)
          | None \<Rightarrow>
              (case unbind_role p (global_role (user_principal target) role) of
                 Inl e \<Rightarrow> (Settings_Refused (Error_Text e), [], p)
               | Inr p1 \<Rightarrow>
                   (Settings_Done (Text (target @ '' no longer has the '' @ role @ '' role.'')), [],
                    record_audit (pu_username u) ''role.unbind'' (target @ '' '' @ role) (wq_ip r) p1))))"

definition handle_user_sign_out ::
  "portal_lib \<Rightarrow> asks \<Rightarrow> web_request \<Rightarrow> portal_user \<Rightarrow> portal \<Rightarrow> handled" where
  "handle_user_sign_out L may r u p =
     (let target = wq_form r ''username''
      in (case user_change_refused may (user_principal (pu_username u)) p target of
            Some m \<Rightarrow> (Settings_Refused m, [], p)
          | None \<Rightarrow>
              (Settings_Done (Text (target @ '' has been signed out everywhere.'')), [],
               record_audit (pu_username u) ''user.sign_out_everywhere'' target (wq_ip r)
                 (revoke_sessions L target [] p))))"

definition handle_role_delete :: "web_request \<Rightarrow> portal_user \<Rightarrow> portal \<Rightarrow> handled" where
  "handle_role_delete r u p =
     (let rid = wq_form r ''id''
      in (case delete_role p rid of
            Inl e \<Rightarrow> (Settings_Refused (Error_Text e), [], p)
          | Inr p1 \<Rightarrow>
              (Settings_Done (Text (''Role '' @ rid @ '' deleted.'')), [],
               record_audit (pu_username u) ''role.delete'' rid (wq_ip r) p1)))"

definition attr_lines :: "string \<Rightarrow> (string, string) gomap option" where
  "attr_lines text =
     foldl (\<lambda>acc line.
        (case acc of
           None \<Rightarrow> None
         | Some attrs \<Rightarrow>
             let line = trim_space line
             in if line = [] then Some attrs
                else (case cut_byte (CHR ''='') line of
                        (k, v, ok) \<Rightarrow> if ok then Some (mput (trim_space k) (trim_space v) attrs) else None)))
       (Some []) (split_on (CHR 0x0A) text)"

definition handle_user_attrs :: "asks \<Rightarrow> web_request \<Rightarrow> portal_user \<Rightarrow> portal \<Rightarrow> handled" where
  "handle_user_attrs may r u p =
     (let target = wq_form r ''username''
      in (case user_change_refused may (user_principal (pu_username u)) p target of
            Some m \<Rightarrow> (Settings_Refused m, [], p)
          | None \<Rightarrow>
              (case attr_lines (wq_form r ''attrs'') of
                 None \<Rightarrow> (Settings_Refused (Text ''not key=value.''), [], p)
               | Some attrs \<Rightarrow>
                   (case set_user_attrs p target attrs of
                      Inl e \<Rightarrow> (Settings_Refused (Error_Text e), [], p)
                    | Inr p1 \<Rightarrow>
                        (Settings_Done (Text (''Attributes for '' @ target @ '' saved.'')), [],
                         record_audit (pu_username u) ''user.attrs'' target (wq_ip r) p1)))))"

section \<open>Teams\<close>

definition team_resource :: "string \<Rightarrow> resource" where
  "team_resource tid =
     \<lparr>rs_type = ''team'', rs_id = tid, rs_owner = team_principal tid, rs_team = tid, rs_attrs = [],
      rs_sharing = None\<rparr>"

definition team_from_form :: "asks \<Rightarrow> web_request \<Rightarrow> portal \<Rightarrow> (string \<times> team_entry) option" where
  "team_from_form may r p =
     (case mget (pt_teams p) (wq_form r ''team'') of
        None \<Rightarrow> None
      | Some t \<Rightarrow>
          if \<not> may ''team.manage'' (team_resource (wq_form r ''team'')) then None
          else Some (wq_form r ''team'', t))"

definition handle_team_create :: "portal_lib \<Rightarrow> web_request \<Rightarrow> portal_user \<Rightarrow> portal \<Rightarrow> handled" where
  "handle_team_create L r u p =
     (case create_team L p (wq_form r ''id'') (wq_form r ''name'') (pu_username u) of
        Inl e \<Rightarrow> (Teams_Refused (Error_Text e), [], p)
      | Inr p1 \<Rightarrow>
          let tid = to_lower L (trim_space (wq_form r ''id''));
              name = (case mget (pt_teams p1) tid of None \<Rightarrow> [] | Some t \<Rightarrow> te_name t)
          in (Teams_Done (Text (''Team '' @ name @ '' created. You maintain it.'')), [],
              record_audit (pu_username u) ''team.create'' tid (wq_ip r) p1))"

definition handle_team_member_add :: "asks \<Rightarrow> web_request \<Rightarrow> portal_user \<Rightarrow> portal \<Rightarrow> handled" where
  "handle_team_member_add may r u p =
     (case team_from_form may r p of
        None \<Rightarrow> (Status 403, [], p)
      | Some (tid, t) \<Rightarrow>
          let username = trim_space (wq_form r ''username''); maintainer = (wq_form r ''maintainer'' \<noteq> [])
          in if maintainer \<and> \<not> can_any may ''team.manage''
             then (Teams_Refused (Text ''Only an admin can appoint team maintainers.''), [], p)
             else (case add_team_member p tid username maintainer of
                     Inl e \<Rightarrow> (Teams_Refused (Error_Text e), [], p)
                   | Inr p1 \<Rightarrow>
                       (Teams_Done (Text (username @ '' added to '' @ te_name t @ ''.'')), [],
                        record_audit (pu_username u) ''team.member.add'' (tid @ '' '' @ username) (wq_ip r) p1)))"

definition handle_team_member_remove :: "asks \<Rightarrow> web_request \<Rightarrow> portal_user \<Rightarrow> portal \<Rightarrow> handled" where
  "handle_team_member_remove may r u p =
     (case team_from_form may r p of
        None \<Rightarrow> (Status 403, [], p)
      | Some (tid, t) \<Rightarrow>
          let username = wq_form r ''username''
          in (Teams_Done (Text (username @ '' removed from '' @ te_name t @ ''.'')), [],
              record_audit (pu_username u) ''team.member.remove'' (tid @ '' '' @ username) (wq_ip r)
                (remove_team_member p tid username)))"

definition handle_team_state :: "asks \<Rightarrow> web_request \<Rightarrow> portal_user \<Rightarrow> portal \<Rightarrow> handled" where
  "handle_team_state may r u p =
     (case team_from_form may r p of
        None \<Rightarrow> (Status 403, [], p)
      | Some (tid, t) \<Rightarrow>
          if \<not> can_any may ''team.manage'' then (Status 403, [], p)
          else
            let action = wq_form r ''action''
            in if action = ''disable'' \<or> action = ''enable'' then
                 (case set_team_disabled p tid (action = ''disable'') of
                    Inl e \<Rightarrow> (Teams_Refused (Error_Text e), [], p)
                  | Inr p1 \<Rightarrow>
                      (Teams_Done (Text (''Team '' @ te_name t @ '' '' @ action @ ''d.'')), [],
                       record_audit (pu_username u) (''team.'' @ action) tid (wq_ip r)
                         (if action = ''disable'' then close_tokens_of (team_principal tid) p1 else p1)))
               else if action = ''delete'' then
                 (let p0 = close_tokens_of (team_principal tid) p
                  in (case delete_team p0 tid of
                        Inl e \<Rightarrow> (Teams_Refused (Error_Text e), [], p0)
                      | Inr p1 \<Rightarrow>
                          (Teams_Done (Text (''Team '' @ te_name t @ '' deleted, with its keys and client tokens.'')), [],
                           record_audit (pu_username u) ''team.delete'' tid (wq_ip r) p1)))
               else (Status 400, [], p))"

text \<open>The routes of these handlers: \<open>requirePerm\<close> around \<open>postWithCSRF\<close>.\<close>

definition require_perm ::
  "portal_lib \<Rightarrow> (portal_user \<Rightarrow> asks) \<Rightarrow> string \<Rightarrow> gotime \<Rightarrow> web_request \<Rightarrow> portal \<Rightarrow>
   (portal_user \<Rightarrow> portal \<Rightarrow> handled) \<Rightarrow> handled" where
  "require_perm L may action now r p next_handler =
     require_auth L now r p
       (\<lambda>u p1. if \<not> can_do (may u) action then (Status 403, [], p1) else next_handler u p1)"

section \<open>Revalidation\<close>

datatype refresh_answer = Identity oauth_identity | Refused string | No_Answer

definition text_or_empty :: "json_lib \<Rightarrow> string \<Rightarrow> (string \<times> raw_json) list \<Rightarrow> string" where
  "text_or_empty J name ms = (case text_field J name ms of None \<Rightarrow> [] | Some s \<Rightarrow> s)"

definition refresh_oidc ::
  "portal_lib \<Rightarrow> json_lib \<Rightarrow> provider_answers \<Rightarrow> portal_settings \<Rightarrow> string \<Rightarrow> refresh_answer" where
  "refresh_oidc L J A g refresh =
     (case provider_ready g provider_oidc of
        (Some v, cfg, True) \<Rightarrow>
          (case pa_token A (op_token_url v)
                  ([(''grant_type'', ''refresh_token''), (''refresh_token'', refresh)] @ client_fields v cfg) of
             None \<Rightarrow> No_Answer
           | Some (status, body) \<Rightarrow>
               let ms = (case as_members J body of None \<Rightarrow> [] | Some ms \<Rightarrow> ms);
                   access = text_or_empty J ''access_token'' ms
               in if text_or_empty J ''error'' ms = ''invalid_grant''
                  then Refused ''refresh token rejected (invalid_grant)''
                  else if status \<noteq> 200 \<or> access = [] then No_Answer
                  else (case fetch_oauth_identity L J A v access of
                          None \<Rightarrow> No_Answer
                        | Some ident \<Rightarrow> Identity (ident\<lparr>oi_refresh := text_or_empty J ''refresh_token'' ms\<rparr>)))
      | _ \<Rightarrow> No_Answer)"

record revalidation =
  rv_user :: portal_user
  rv_ident :: oauth_identity
  rv_refused :: string

definition revalidate_one ::
  "portal_lib \<Rightarrow> json_lib \<Rightarrow> provider_answers \<Rightarrow> portal_settings \<Rightarrow> portal \<Rightarrow> portal_user \<Rightarrow>
   revalidation option" where
  "revalidate_one L J A g p u =
     (case refresh_oidc L J A g (refresh_token_of p (pu_username u)) of
        Identity ident \<Rightarrow>
          if oi_id ident \<noteq> pu_oidc_subject u
          then Some \<lparr>rv_user = u, rv_ident = ident, rv_refused = ''the refreshed identity is a different account''\<rparr>
          else if \<not> snd (roles_for J (pg_oidc g) (oi_claims ident))
          then Some \<lparr>rv_user = u, rv_ident = ident, rv_refused = ''no longer holds a role granting access''\<rparr>
          else Some \<lparr>rv_user = u, rv_ident = ident, rv_refused = []\<rparr>
      | Refused reason \<Rightarrow> Some \<lparr>rv_user = u, rv_ident = no_identity, rv_refused = reason\<rparr>
      | No_Answer \<Rightarrow> None)"

text \<open>
  A run gathers every answer first and applies them later; other handlers may run in between.
\<close>

definition gather ::
  "portal_lib \<Rightarrow> json_lib \<Rightarrow> provider_answers \<Rightarrow> portal_settings \<Rightarrow> portal \<Rightarrow> revalidation list" where
  "gather L J A g p = List.map_filter (revalidate_one L J A g p) (managed_with_refresh p)"

definition disable_by_provider :: "portal_lib \<Rightarrow> portal_user \<Rightarrow> string \<Rightarrow> portal \<Rightarrow> portal" where
  "disable_by_provider L u reason p =
     (let name = pu_username u
      in if is_privileged p name \<and> other_active_privileged p name = 0 then p
         else (case set_disabled_by L p name True provider_oidc of
                 Inl e \<Rightarrow> p
               | Inr p1 \<Rightarrow> record_audit name ''user.disable.oidc'' reason [] (close_tokens_of name p1)))"

definition apply_one ::
  "portal_lib \<Rightarrow> json_lib \<Rightarrow> (json_view \<Rightarrow> string) \<Rightarrow> oidc_config \<Rightarrow> revalidation \<Rightarrow> portal \<Rightarrow> portal" where
  "apply_one L J scalar c x p =
     (if rv_refused x \<noteq> [] then disable_by_provider L (rv_user x) (rv_refused x) p
      else
        let p1 = sync_managed_access L J scalar (rv_user x) c (fst (roles_for J c (oi_claims (rv_ident x))))
                   (rv_ident x) [] p
        in if oi_refresh (rv_ident x) \<noteq> []
           then set_refresh_token (pu_username (rv_user x)) (oi_refresh (rv_ident x)) p1 else p1)"

definition refused_count :: "revalidation list \<Rightarrow> nat" where
  "refused_count xs = length (filter (\<lambda>x. rv_refused x \<noteq> []) xs)"

definition apply_revalidation ::
  "portal_lib \<Rightarrow> json_lib \<Rightarrow> (json_view \<Rightarrow> string) \<Rightarrow> oidc_config \<Rightarrow> revalidation list \<Rightarrow> portal \<Rightarrow> portal" where
  "apply_revalidation L J scalar c xs p =
     (if refused_count xs \<ge> 3 \<and> refused_count xs * 2 > length xs then p
      else fold (apply_one L J scalar c) xs p)"

definition revalidate_oidc ::
  "portal_lib \<Rightarrow> json_lib \<Rightarrow> (json_view \<Rightarrow> string) \<Rightarrow> provider_answers \<Rightarrow> portal_settings \<Rightarrow> portal \<Rightarrow> portal" where
  "revalidate_oidc L J scalar A g p = apply_revalidation L J scalar (pg_oidc g) (gather L J A g p) p"

text \<open>\<open>RunOIDCRevalidation\<close>: whether a tick starts a run.\<close>

definition revalidation_due :: "oidc_config \<Rightarrow> gotime \<Rightarrow> gotime \<Rightarrow> bool" where
  "revalidation_due c now last_run \<longleftrightarrow>
     \<not> (oc_revalidate c \<le> 0 \<or> time_sub now last_run < oc_revalidate c * minute_ns)"

section \<open>Routes and runs\<close>

text \<open>
  The portal's routes (\<open>router/internal/admin/handler.go\<close>), each a handler inside its guards, and
  runs of them in any order. A request the rate limit refuses changes nothing and is no step. The
  handlers of a run do not overlap; \<open>Op_Late\<close> alone is the second half of a revalidation whose
  answers were gathered earlier.
\<close>

text \<open>What a signed-in user does for themselves, and what a user manager does.\<close>

datatype own_action =
    Own_Logout
  | Own_Password "string \<Rightarrow> string option"
  | Own_Session_Revoke
  | Own_Email_Update bool bool randoms
  | Own_Email_Resend bool bool randoms
  | Own_Link portal_settings randoms string
  | Own_Unlink portal_settings string
  | Own_Team_Create
  | Own_Team_Member_Add
  | Own_Team_Member_Remove
  | Own_Team_State

datatype managing_action =
    Managing_Add "string \<Rightarrow> string option"
  | Managing_Disable
  | Managing_Enable
  | Managing_Reset "string \<Rightarrow> string option" "string option"
  | Managing_Delete
  | Managing_Role_Add
  | Managing_Role_Remove
  | Managing_Attrs
  | Managing_Sign_Out
  | Managing_Role_Delete

fun own_handler ::
  "portal_lib \<Rightarrow> asks \<Rightarrow> gotime \<Rightarrow> own_action \<Rightarrow> web_request \<Rightarrow> portal_user \<Rightarrow> portal \<Rightarrow> handled" where
  "own_handler L may now Own_Logout r u p = handle_logout L now r p"
| "own_handler L may now (Own_Password hash) r u p = handle_change_password L hash r u p"
| "own_handler L may now Own_Session_Revoke r u p = handle_session_revoke L r u p"
| "own_handler L may now (Own_Email_Update on ok rd) r u p = handle_email_update L on ok now rd r u p"
| "own_handler L may now (Own_Email_Resend on ok rd) r u p = handle_email_resend L on ok now rd r u p"
| "own_handler L may now (Own_Link g rd key) r u p = begin_oauth L g rd key mode_link p"
| "own_handler L may now (Own_Unlink g key) r u p = handle_oauth_unlink L g key r u p"
| "own_handler L may now Own_Team_Create r u p =
     (if can_do may ''team.create'' then handle_team_create L r u p else (Status 403, [], p))"
| "own_handler L may now Own_Team_Member_Add r u p = handle_team_member_add may r u p"
| "own_handler L may now Own_Team_Member_Remove r u p = handle_team_member_remove may r u p"
| "own_handler L may now Own_Team_State r u p = handle_team_state may r u p"

fun managing_handler ::
  "portal_lib \<Rightarrow> asks \<Rightarrow> managing_action \<Rightarrow> web_request \<Rightarrow> portal_user \<Rightarrow> portal \<Rightarrow> handled" where
  "managing_handler L may (Managing_Add hash) r u p = handle_add_user hash r u p"
| "managing_handler L may Managing_Disable r u p = handle_user_disable L may r u p"
| "managing_handler L may Managing_Enable r u p = handle_user_enable L may r u p"
| "managing_handler L may (Managing_Reset hash temp) r u p = handle_user_reset_password L hash temp may r u p"
| "managing_handler L may Managing_Delete r u p = handle_user_delete may r u p"
| "managing_handler L may Managing_Role_Add r u p = handle_user_role_add may r u p"
| "managing_handler L may Managing_Role_Remove r u p = handle_user_role_remove may r u p"
| "managing_handler L may Managing_Attrs r u p = handle_user_attrs may r u p"
| "managing_handler L may Managing_Sign_Out r u p = handle_user_sign_out L may r u p"
| "managing_handler L may Managing_Role_Delete r u p = handle_role_delete r u p"

fun managing_permission :: "managing_action \<Rightarrow> string" where
  "managing_permission Managing_Role_Delete = ''role.manage''"
| "managing_permission _ = ''user.manage''"

datatype portal_op =
    Op_Login gotime randoms web_request
  | Op_Setup "string \<Rightarrow> string option" web_request
  | Op_Magic_Request bool gotime randoms web_request
  | Op_Magic_Verify gotime randoms web_request
  | Op_Email_Verify gotime web_request
  | Op_OAuth_Login portal_settings gotime randoms string web_request
  | Op_OAuth_Callback json_lib "json_view \<Rightarrow> string" provider_answers portal_settings string gotime randoms
      string web_request
  | Op_Token_Login json_lib provider_answers portal_settings gotime randoms web_request
  | Op_Own "portal_user \<Rightarrow> asks" gotime web_request own_action
  | Op_Managing "portal_user \<Rightarrow> asks" gotime web_request managing_action
  | Op_Revalidate json_lib "json_view \<Rightarrow> string" provider_answers portal_settings
  | Op_Late json_lib "json_view \<Rightarrow> string" oidc_config "revalidation list"
  | Op_Api_Key gotime string

fun perform :: "portal_lib \<Rightarrow> portal_op \<Rightarrow> portal \<Rightarrow> handled" where
  "perform L (Op_Login now rd r) p = handle_login L now rd r p"
| "perform L (Op_Setup hash r) p = handle_setup L hash r p"
| "perform L (Op_Magic_Request on now rd r) p =
     (if wq_post r then handle_magic_link_request L on now rd r p else (Status 405, [], p))"
| "perform L (Op_Magic_Verify now rd r) p = handle_magic_link_verify L now rd r p"
| "perform L (Op_Email_Verify now r) p = handle_email_verify L now r p"
| "perform L (Op_OAuth_Login g now rd key r) p = handle_oauth_login L g now rd key r p"
| "perform L (Op_OAuth_Callback J scalar A g uri now rd key r) p =
     handle_oauth_callback L J scalar A g uri now rd key r p"
| "perform L (Op_Token_Login J A g now rd r) p = handle_token_login L J A g now rd r p"
| "perform L (Op_Own may now r a) p =
     require_auth L now r p (\<lambda>u p1. post_with_csrf L r p1 (own_handler L (may u) now a r u))"
| "perform L (Op_Managing may now r a) p =
     require_perm L may (managing_permission a) now r p
       (\<lambda>u p1. post_with_csrf L r p1 (managing_handler L (may u) a r u))"
| "perform L (Op_Revalidate J scalar A g) p = (Status 0, [], revalidate_oidc L J scalar A g p)"
| "perform L (Op_Late J scalar c xs) p = (Status 0, [], apply_revalidation L J scalar c xs p)"
| "perform L (Op_Api_Key now key) p =
     (case valid_api_key L p now key of (ok, p1) \<Rightarrow> (Status (if ok then 200 else 401), [], p1))"

definition after :: "portal_lib \<Rightarrow> portal_op \<Rightarrow> portal \<Rightarrow> portal" where
  "after L op p = snd (snd (perform L op p))"

definition portal_run :: "portal_lib \<Rightarrow> portal_op list \<Rightarrow> portal \<Rightarrow> portal" where
  "portal_run L ops p = fold (after L) ops p"

end
