(* ===== verification/Portal_Invariant.thy ===== *)
theory Portal_Invariant
  imports Portal_Admin
begin

text \<open>
  What every operation of the portal keeps: the table of accounts obeys its unique indexes, a
  session belongs to an existing enabled account, role bindings are a set, and while there is an
  enabled owner or admin there stays one. A team has a name of at least one byte.
\<close>

section \<open>The invariant\<close>

text \<open>The table of accounts without the columns only single statements touch.\<close>

definition accounts :: "portal \<Rightarrow> (string, portal_user) gomap" where
  "accounts p = map (\<lambda>(n, e). (n, ue_user e)) (pt_users p)"

definition active :: "portal \<Rightarrow> string \<Rightarrow> bool" where
  "active p name = (case lookup_user p name of None \<Rightarrow> False | Some u \<Rightarrow> \<not> pu_disabled u)"

definition key_unique :: "(string, portal_user) gomap \<Rightarrow> (portal_user \<Rightarrow> string) \<Rightarrow> bool" where
  "key_unique us key =
     list_all (\<lambda>(n, u). list_all (\<lambda>(m, v). key u \<noteq> [] \<and> key u = key v \<longrightarrow> n = m) us) us"

definition accounts_ok :: "(string, portal_user) gomap \<Rightarrow> bool" where
  "accounts_ok us \<longleftrightarrow>
     wf_map us \<and>
     list_all (\<lambda>(n, u). pu_username u = n \<and> (pu_email_verified u \<longrightarrow> pu_email u \<noteq> [])) us \<and>
     list_all (\<lambda>(c, key). key_unique us key) unique_indexes"

definition sessions_ok :: "portal \<Rightarrow> bool" where
  "sessions_ok p \<longleftrightarrow>
     wf_map (pt_sessions p) \<and> list_all (\<lambda>(h, s). active p (ss_username s)) (pt_sessions p)"

definition portal_ok :: "portal \<Rightarrow> bool" where
  "portal_ok p \<longleftrightarrow>
     accounts_ok (accounts p) \<and> sessions_ok p \<and> distinct (pt_bindings p) \<and>
     [] \<notin> fst ` set (pt_teams p)"

definition has_admin :: "portal \<Rightarrow> bool" where
  "has_admin p \<longleftrightarrow> list_ex (\<lambda>(n, u). \<not> pu_disabled u \<and> is_privileged p n) (accounts p)"

text \<open>What an operation keeps.\<close>

definition keeps :: "portal \<Rightarrow> portal \<Rightarrow> bool" where
  "keeps p q \<longleftrightarrow> (portal_ok p \<longrightarrow> portal_ok q \<and> (has_admin p \<longrightarrow> has_admin q))"

lemma keeps_refl [simp, intro]: "keeps p p"
  by (simp add: keeps_def)

lemma keeps_trans [trans]: "keeps p q \<Longrightarrow> keeps q r \<Longrightarrow> keeps p r"
  by (auto simp: keeps_def)

section \<open>Tables and primitives\<close>

lemma lookup_user_accounts: "lookup_user p n = mget (accounts p) n"
proof -
  have "map_option ue_user (mget us n) = mget (map (\<lambda>(n, e). (n, ue_user e)) us) n" for us
    by (induction us) auto
  then show ?thesis by (simp add: lookup_user_def accounts_def)
qed

definition amap :: "string \<Rightarrow> (portal_user \<Rightarrow> portal_user) \<Rightarrow> (string, portal_user) gomap \<Rightarrow> (string, portal_user) gomap" where
  "amap name f us = map (\<lambda>(n, u). if n = name then (n, f u) else (n, u)) us"

lemma mget_amap: "mget (amap name f us) m = (if m = name then map_option f (mget us m) else mget us m)"
  by (induction us) (auto simp: amap_def)

lemma keys_amap [simp]: "map fst (amap name f us) = map fst us"
  by (induction us) (auto simp: amap_def)

named_theorems portal_frames \<open>what the primitives leave alone\<close>

lemma emit_frames [portal_frames]:
  "accounts (emit e p) = accounts p" "pt_bindings (emit e p) = pt_bindings p"
  "pt_sessions (emit e p) = pt_sessions p" "pt_links (emit e p) = pt_links p"
  "pt_users (emit e p) = pt_users p" "pt_roles (emit e p) = pt_roles p" "pt_teams (emit e p) = pt_teams p"
  by (simp_all add: emit_def accounts_def)

lemma record_audit_frames [portal_frames]:
  "accounts (record_audit a b c d p) = accounts p" "pt_bindings (record_audit a b c d p) = pt_bindings p"
  "pt_sessions (record_audit a b c d p) = pt_sessions p" "pt_links (record_audit a b c d p) = pt_links p"
  "pt_users (record_audit a b c d p) = pt_users p" "pt_roles (record_audit a b c d p) = pt_roles p"
  "pt_teams (record_audit a b c d p) = pt_teams p"
  by (simp_all add: record_audit_def portal_frames)

lemma bump_authz_frames [portal_frames]:
  "accounts (bump_authz p) = accounts p" "pt_bindings (bump_authz p) = pt_bindings p"
  "pt_sessions (bump_authz p) = pt_sessions p" "pt_links (bump_authz p) = pt_links p"
  "pt_users (bump_authz p) = pt_users p" "pt_roles (bump_authz p) = pt_roles p"
  "pt_teams (bump_authz p) = pt_teams p"
  by (simp_all add: bump_authz_def portal_frames)

lemma map_entry_frames [portal_frames]:
  "pt_bindings (map_entry n f p) = pt_bindings p" "pt_sessions (map_entry n f p) = pt_sessions p"
  "pt_links (map_entry n f p) = pt_links p" "pt_roles (map_entry n f p) = pt_roles p"
  "pt_teams (map_entry n f p) = pt_teams p"
  by (simp_all add: map_entry_def)

lemma accounts_map_entry:
  "(\<And>e. ue_user (f e) = g (ue_user e)) \<Longrightarrow> accounts (map_entry n f p) = amap n g (accounts p)"
  by (auto simp: accounts_def map_entry_def amap_def)

lemma amap_id [simp]: "amap n (\<lambda>u. u) us = us"
  by (induction us) (auto simp: amap_def)

lemma accounts_map_entry_columns [portal_frames]:
  "accounts (map_entry n (ue_disabled_by_update f) p) = accounts p"
  "accounts (map_entry n (ue_refresh_update f) p) = accounts p"
  "accounts (map_entry n (ue_attrs_update g) p) = accounts p"
  "accounts (map_entry n (ue_user_update h) p) = amap n h (accounts p)"
  using accounts_map_entry [of "ue_disabled_by_update f" "\<lambda>u. u" n p]
    accounts_map_entry [of "ue_refresh_update f" "\<lambda>u. u" n p]
    accounts_map_entry [of "ue_attrs_update g" "\<lambda>u. u" n p]
    accounts_map_entry [of "ue_user_update h" h n p]
  by simp_all

lemma accounts_touch [portal_frames]:
  "accounts (p\<lparr>pt_sessions := a\<rparr>) = accounts p" "accounts (p\<lparr>pt_links := b\<rparr>) = accounts p"
  "accounts (p\<lparr>pt_seen := c\<rparr>) = accounts p" "accounts (p\<lparr>pt_bindings := d\<rparr>) = accounts p"
  "accounts (p\<lparr>pt_teams := e\<rparr>) = accounts p" "accounts (p\<lparr>pt_members := f\<rparr>) = accounts p"
  "accounts (p\<lparr>pt_keys := g\<rparr>) = accounts p" "accounts (p\<lparr>pt_tokens := h\<rparr>) = accounts p"
  "accounts (p\<lparr>pt_policies := i\<rparr>) = accounts p" "accounts (p\<lparr>pt_roles := j\<rparr>) = accounts p"
  "accounts (p\<lparr>pt_touched := k\<rparr>) = accounts p"
  by (simp_all add: accounts_def)

text \<open>Two states with the same accounts, bindings and sessions are as good as each other.\<close>

lemma active_cong: "accounts q = accounts p \<Longrightarrow> active q = active p"
  by (rule ext) (simp add: active_def lookup_user_accounts)

lemma is_privileged_cong: "pt_bindings q = pt_bindings p \<Longrightarrow> is_privileged q = is_privileged p"
  by (rule ext) (simp add: is_privileged_def global_roles_def)

lemma portal_ok_cong:
  assumes "accounts q = accounts p" and "pt_bindings q = pt_bindings p" and "pt_sessions q = pt_sessions p"
    and "pt_teams q = pt_teams p"
  shows "portal_ok q = portal_ok p" and "has_admin q = has_admin p"
  using assms active_cong [OF assms(1)] is_privileged_cong [OF assms(2)]
  by (simp_all add: portal_ok_def sessions_ok_def has_admin_def)

lemma keeps_same:
  assumes "keeps p q" and "accounts r = accounts q" and "pt_bindings r = pt_bindings q"
    and "pt_sessions r = pt_sessions q" and "pt_teams r = pt_teams q"
  shows "keeps p r"
  using assms(1) portal_ok_cong [OF assms(2-5)] by (simp add: keeps_def)

lemma in_accounts: "accounts_ok (accounts p) \<Longrightarrow> (n, u) \<in> set (accounts p) \<longleftrightarrow> lookup_user p n = Some u"
  unfolding lookup_user_accounts by (rule wf_map_set_iff) (simp only: accounts_ok_def)

lemma active_iff: "active p n \<longleftrightarrow> (\<exists>u. lookup_user p n = Some u \<and> \<not> pu_disabled u)"
  by (simp add: active_def split: option.split)

lemma has_admin_iff:
  assumes "accounts_ok (accounts p)"
  shows "has_admin p \<longleftrightarrow> (\<exists>n. active p n \<and> is_privileged p n)"
proof -
  have "has_admin p \<longleftrightarrow> (\<exists>n u. (n, u) \<in> set (accounts p) \<and> \<not> pu_disabled u \<and> is_privileged p n)"
    by (auto simp: has_admin_def list_ex_iff)
  then show ?thesis unfolding in_accounts [OF assms] active_iff by blast
qed

lemma is_privileged_iff:
  "is_privileged p n \<longleftrightarrow>
     (\<exists>b \<in> set (pt_bindings p). rb_principal b = user_principal n \<and> rb_team b = [] \<and> privileged_role (rb_role b))"
  by (auto simp: is_privileged_def global_roles_def list_ex_iff)

lemma accounts_ok_name: "accounts_ok (accounts p) \<Longrightarrow> lookup_user p n = Some u \<Longrightarrow> pu_username u = n"
  by (auto simp: accounts_ok_def lookup_user_accounts list_all_iff dest!: mget_SomeD)

lemma other_active_privileged_iff:
  assumes "accounts_ok (accounts p)"
  shows "other_active_privileged p x \<noteq> 0 \<longleftrightarrow> (\<exists>n. n \<noteq> x \<and> active p n \<and> is_privileged p n)"
proof -
  have "other_active_privileged p x \<noteq> 0 \<longleftrightarrow>
    (\<exists>n e. (n, e) \<in> set (pt_users p) \<and> \<not> pu_disabled (ue_user e) \<and> n \<noteq> x \<and> is_privileged p n)"
    by (auto simp: other_active_privileged_def filter_empty_conv)
  also have "\<dots> \<longleftrightarrow> (\<exists>n u. (n, u) \<in> set (accounts p) \<and> \<not> pu_disabled u \<and> n \<noteq> x \<and> is_privileged p n)"
    by (force simp: accounts_def)
  finally show ?thesis unfolding in_accounts [OF assms] active_iff by blast
qed

section \<open>Sessions\<close>

lemma keeps_sessions:
  assumes "keeps p q" and "accounts r = accounts q" and "pt_bindings r = pt_bindings q"
    and "pt_teams r = pt_teams q"
    and "wf_map (pt_sessions q) \<Longrightarrow> wf_map (pt_sessions r)"
    and "\<And>h s. (h, s) \<in> set (pt_sessions r) \<Longrightarrow>
           \<exists>h' s'. (h', s') \<in> set (pt_sessions q) \<and> ss_username s' = ss_username s"
  shows "keeps p r"
proof -
  have "sessions_ok r" if "sessions_ok q"
    using that assms(5,6) unfolding sessions_ok_def active_cong [OF assms(2)] list_all_iff by fastforce
  then show ?thesis
    using assms(1) unfolding keeps_def portal_ok_def has_admin_def assms(2-4) is_privileged_cong [OF assms(3)] by auto
qed

lemma keeps_revoke_sessions [inv_intros]: "keeps p q \<Longrightarrow> keeps p (revoke_sessions L n k q)"
  by (erule keeps_sessions) (auto simp: revoke_sessions_def portal_frames intro: distinct_map_filter)

lemma keeps_delete_session [inv_intros]: "keeps p q \<Longrightarrow> keeps p (delete_session L sid q)"
  by (erule keeps_sessions) (auto simp: delete_session_def portal_frames set_mdel)

lemma keeps_sweep_sessions [inv_intros]: "keeps p q \<Longrightarrow> keeps p (sweep_sessions now q)"
  by (erule keeps_sessions) (auto simp: sweep_sessions_def portal_frames intro: distinct_map_filter)

lemma keys_map_session [simp]:
  "map (fst \<circ> (\<lambda>(i, s). if i = h then (i, f s) else (i, s))) ss = map fst ss"
  by (induction ss) auto

lemma keeps_map_session:
  assumes "\<And>s. ss_username (f s) = ss_username s" and "keeps p q"
  shows "keeps p (map_session h f q)"
proof (rule keeps_sessions [OF assms(2)])
  show "\<exists>h' s'. (h', s') \<in> set (pt_sessions q) \<and> ss_username s' = ss_username s"
    if "(i, s) \<in> set (pt_sessions (map_session h f q))" for i s
    using that assms(1) by (fastforce simp: map_session_def split: if_splits)
  show "wf_map (pt_sessions (map_session h f q))" if "wf_map (pt_sessions q)"
    using that by (simp add: map_session_def)
qed (simp_all add: map_session_def portal_frames)

lemma keeps_set_csrf [inv_intros]: "keeps p q \<Longrightarrow> keeps p (set_csrf L sid t q)"
  unfolding set_csrf_def by (rule keeps_map_session) simp_all

lemma accounts_session_frames [portal_frames]:
  "accounts (revoke_sessions L n k p) = accounts p" "accounts (delete_session L sid p) = accounts p"
  "accounts (sweep_sessions now p) = accounts p" "accounts (map_session h f p) = accounts p"
  "accounts (set_csrf L sid t p) = accounts p"
  "pt_bindings (revoke_sessions L n k p) = pt_bindings p" "pt_bindings (delete_session L sid p) = pt_bindings p"
  "pt_bindings (sweep_sessions now p) = pt_bindings p" "pt_bindings (map_session h f p) = pt_bindings p"
  "pt_bindings (set_csrf L sid t p) = pt_bindings p"
  "pt_teams (revoke_sessions L n k p) = pt_teams p" "pt_teams (delete_session L sid p) = pt_teams p"
  "pt_teams (sweep_sessions now p) = pt_teams p" "pt_teams (map_session h f p) = pt_teams p"
  "pt_teams (set_csrf L sid t p) = pt_teams p"
  by (simp_all add: revoke_sessions_def delete_session_def sweep_sessions_def map_session_def set_csrf_def
      portal_frames)

lemma keeps_lookup_session:
  "keeps p q \<Longrightarrow> lookup_session L now sid q = (res, r) \<Longrightarrow> keeps p r"
  by (auto simp: lookup_session_def Let_def split: if_splits option.splits
      intro!: keeps_delete_session keeps_map_session elim: keeps_same simp: portal_frames)

lemma accounts_lookup_session:
  "lookup_session L now sid q = (res, r) \<Longrightarrow> accounts r = accounts q \<and> pt_bindings r = pt_bindings q \<and> pt_teams r = pt_teams q"
  by (auto simp: lookup_session_def Let_def portal_frames split: if_splits option.splits)

lemma keeps_session_user:
  "keeps p q \<Longrightarrow> session_user L now r q = (res, q') \<Longrightarrow> keeps p q'"
  by (auto simp: session_user_def split: option.splits prod.splits dest: keeps_lookup_session)

lemma session_user_active:
  assumes "session_user L now r q = (Some u, q')"
  shows "lookup_user q' (pu_username u) = Some u \<or> \<not> accounts_ok (accounts q)"
    and "\<exists>n. lookup_user q n = Some u" and "\<not> pu_disabled u" and "accounts q' = accounts q"
    and "pt_bindings q' = pt_bindings q"
proof -
  obtain c n where look: "lookup_session L now c q = (Some n, q')" and u: "lookup_user q' n = Some u"
    and "\<not> pu_disabled u"
    using assms by (auto simp: session_user_def split: option.splits prod.splits if_splits)
  moreover note same = accounts_lookup_session [OF look]
  ultimately show "\<exists>n. lookup_user q n = Some u" "\<not> pu_disabled u" "accounts q' = accounts q"
    "pt_bindings q' = pt_bindings q"
    by (auto simp: lookup_user_accounts)
  show "lookup_user q' (pu_username u) = Some u \<or> \<not> accounts_ok (accounts q)"
    using accounts_ok_name [of q' n u] u same by auto
qed

lemma keeps_create_session:
  assumes keep: "keeps p q" and active: "portal_ok q \<Longrightarrow> active q n"
  shows "keeps p (create_session L now sid n ip agent q)"
proof -
  let ?q = "sweep_sessions now q"
  have swept: "keeps p ?q" using keep by (rule keeps_sweep_sessions)
  have "keeps ?q (create_session L now sid n ip agent q)" if "active q n"
    using that
    by (auto simp: create_session_def Let_def keeps_def portal_ok_def sessions_ok_def portal_frames
        has_admin_def is_privileged_def global_roles_def active_def lookup_user_accounts
        mget_None_iff split: option.splits)
  then show ?thesis
    using swept active keep unfolding keeps_def by blast
qed

lemma keeps_start_session_with_csrf:
  assumes "keeps p q" and "portal_ok q \<Longrightarrow> active q n"
    and "start_session_with_csrf L now rd r n csrf q = (t, q')"
  shows "keeps p q'"
  using assms
  by (auto simp: start_session_with_csrf_def Let_def split: if_splits
      intro!: keeps_set_csrf keeps_create_session)

lemma keeps_start_session:
  assumes "keeps p q" and "portal_ok q \<Longrightarrow> active q n" and "start_session L now rd r n q = (x, cs, q')"
  shows "keeps p q'"
  using assms(3) keeps_start_session_with_csrf [OF assms(1,2), of L now rd r "[]"]
  by (auto simp: start_session_def prod_eq_iff)

section \<open>Links and the rest\<close>

lemma keeps_emit [inv_intros]: "keeps p q \<Longrightarrow> keeps p (emit e q)"
  by (erule keeps_same) (simp_all add: portal_frames)

lemma keeps_record_audit [inv_intros]: "keeps p q \<Longrightarrow> keeps p (record_audit a b c d q)"
  by (simp add: record_audit_def keeps_emit)

lemma keeps_bump_authz [inv_intros]: "keeps p q \<Longrightarrow> keeps p (bump_authz q)"
  by (simp add: bump_authz_def keeps_emit)

lemma link_frames [portal_frames]:
  "accounts (revoke_links n w q) = accounts q" "accounts (issue L now t n w e ttl q) = accounts q"
  "accounts (spend_link L t q) = accounts q"
  "pt_bindings (revoke_links n w q) = pt_bindings q" "pt_bindings (issue L now t n w e ttl q) = pt_bindings q"
  "pt_bindings (spend_link L t q) = pt_bindings q"
  "pt_sessions (revoke_links n w q) = pt_sessions q" "pt_sessions (issue L now t n w e ttl q) = pt_sessions q"
  "pt_sessions (spend_link L t q) = pt_sessions q"
  "pt_teams (revoke_links n w q) = pt_teams q" "pt_teams (issue L now t n w e ttl q) = pt_teams q"
  "pt_teams (spend_link L t q) = pt_teams q"
  by (simp_all add: revoke_links_def issue_def spend_link_def portal_frames)

lemma keeps_links [inv_intros]:
  "keeps p q \<Longrightarrow> keeps p (revoke_links n w q)"
  "keeps p q \<Longrightarrow> keeps p (issue L now t n w e ttl q)"
  "keeps p q \<Longrightarrow> keeps p (spend_link L t q)"
  by (erule keeps_same; simp add: portal_frames)+

lemma keeps_columns [inv_intros]:
  "keeps p q \<Longrightarrow> keeps p (map_entry n (ue_disabled_by_update f) q)"
  "keeps p q \<Longrightarrow> keeps p (set_refresh_token n t q)"
  "keeps p q \<Longrightarrow> keeps p (map_entry n (ue_attrs_update g) q)"
  by (erule keeps_same; simp add: portal_frames set_refresh_token_def)+

lemma keeps_set_user_attrs: "keeps p q \<Longrightarrow> set_user_attrs q n attrs = Inr r \<Longrightarrow> keeps p r"
  by (auto simp: set_user_attrs_def split: if_splits intro!: inv_intros)

lemma close_tokens_frames [portal_frames]:
  "accounts (close_tokens_of n q) = accounts q" "pt_bindings (close_tokens_of n q) = pt_bindings q"
  "pt_sessions (close_tokens_of n q) = pt_sessions q" "pt_links (close_tokens_of n q) = pt_links q"
  "pt_teams (close_tokens_of n q) = pt_teams q"
proof -
  have "accounts (fold (\<lambda>(h, w). emit (Ev_Close_Token h)) ts q) = accounts q \<and>
    pt_bindings (fold (\<lambda>(h, w). emit (Ev_Close_Token h)) ts q) = pt_bindings q \<and>
    pt_sessions (fold (\<lambda>(h, w). emit (Ev_Close_Token h)) ts q) = pt_sessions q \<and>
    pt_links (fold (\<lambda>(h, w). emit (Ev_Close_Token h)) ts q) = pt_links q \<and>
    pt_teams (fold (\<lambda>(h, w). emit (Ev_Close_Token h)) ts q) = pt_teams q" for ts :: "(string \<times> string) list"
    by (induction ts arbitrary: q) (auto simp: portal_frames)
  then show "accounts (close_tokens_of n q) = accounts q" "pt_bindings (close_tokens_of n q) = pt_bindings q"
    "pt_sessions (close_tokens_of n q) = pt_sessions q" "pt_links (close_tokens_of n q) = pt_links q"
    "pt_teams (close_tokens_of n q) = pt_teams q"
    by (simp_all add: close_tokens_of_def)
qed

lemma keeps_close_tokens [inv_intros]: "keeps p q \<Longrightarrow> keeps p (close_tokens_of n q)"
  by (erule keeps_same) (simp_all add: portal_frames)

end
