(* ===== verification/Portal_Keeps.thy ===== *)
theory Portal_Keeps
  imports Portal_Invariant
begin

text \<open>
  Every operation of the portal keeps the invariant and the last administrator: first the changes to
  accounts and bindings, then the handlers, which are made of them.
\<close>

section \<open>Changing an account\<close>

lemma violated_iff:
  "violated us u = [] \<longleftrightarrow> (\<forall>(c, key) \<in> set unique_indexes. \<not> index_clash us u key)"
  by (auto simp: violated_def filter_empty_conv)

lemma index_clash_iff:
  "index_clash (pt_users p) u key \<longleftrightarrow>
     key u \<noteq> [] \<and> (\<exists>(n, v) \<in> set (accounts p). n \<noteq> pu_username u \<and> key v = key u)"
  by (force simp: index_clash_def accounts_def list_ex_iff)

lemma key_unique_iff:
  "key_unique us key \<longleftrightarrow>
     (\<forall>n u m v. (n, u) \<in> set us \<longrightarrow> (m, v) \<in> set us \<longrightarrow> key u \<noteq> [] \<longrightarrow> key u = key v \<longrightarrow> n = m)"
  by (auto simp: key_unique_def list_all_iff)

lemma in_amap:
  "(m, v) \<in> set (amap n (\<lambda>_. u) us) \<Longrightarrow> m = n \<and> v = u \<or> m \<noteq> n \<and> (m, v) \<in> set us"
  by (auto simp: amap_def split: if_splits)

text \<open>A row that clashes with nothing keeps the table in order.\<close>

lemma accounts_ok_amap:
  assumes ok: "accounts_ok (accounts p)" and name: "pu_username u = n"
    and email: "pu_email_verified u \<longrightarrow> pu_email u \<noteq> []" and free: "violated (pt_users p) u = []"
  shows "accounts_ok (amap n (\<lambda>_. u) (accounts p))"
proof -
  have "key_unique (amap n (\<lambda>_. u) (accounts p)) key" if idx: "(c, key) \<in> set unique_indexes" for c key
  proof -
    have old: "key_unique (accounts p) key" using ok idx by (auto simp: accounts_ok_def list_all_iff)
    have "\<not> index_clash (pt_users p) u key" using free idx by (auto simp: violated_iff)
    then have new: "key v \<noteq> key u" if "(m, v) \<in> set (accounts p)" "m \<noteq> n" "key u \<noteq> []" for m v
      using that name by (auto simp: index_clash_iff)
    show ?thesis
      unfolding key_unique_iff
    proof (intro allI impI)
      fix a x b y
      assume "(a, x) \<in> set (amap n (\<lambda>_. u) (accounts p))" "(b, y) \<in> set (amap n (\<lambda>_. u) (accounts p))"
        and key: "key x \<noteq> []" "key x = key y"
      from in_amap [OF this(1)] in_amap [OF this(2)] show "a = b"
        using new [of a x] new [of b y] old key unfolding key_unique_iff by metis
    qed
  qed
  moreover have "list_all (\<lambda>(n, u). pu_username u = n \<and> (pu_email_verified u \<longrightarrow> pu_email u \<noteq> []))
      (amap n (\<lambda>_. u) (accounts p))"
    using ok name email by (fastforce simp: accounts_ok_def list_all_iff dest!: in_amap)
  ultimately show ?thesis using ok by (auto simp: accounts_ok_def list_all_iff)
qed

lemma prepared_user_email: "pu_email_verified (prepared_user L f u) \<longrightarrow> pu_email (prepared_user L f u) \<noteq> []"
  by (simp add: prepared_user_def Let_def)

lemma prepared_user_disabled [simp]: "pu_disabled (prepared_user L f u) = pu_disabled (f u)"
  by (simp add: prepared_user_def Let_def)

lemma write_user_frames:
  assumes "write_user L p n before u = Inr q"
  shows "accounts q = amap n (\<lambda>_. u\<lparr>pu_username := n\<rparr>) (accounts p)"
    and "pt_bindings q = pt_bindings p"
    and "pt_sessions q = (if pu_disabled u \<and> \<not> pu_disabled before
            then filter (\<lambda>(h, s). ss_username s \<noteq> n) (pt_sessions p) else pt_sessions p)"
    and "mget (pt_users p) n \<noteq> None \<Longrightarrow> violated (pt_users p) (u\<lparr>pu_username := n\<rparr>) = []"
    and "pt_links q = pt_links p" and "pt_roles q = pt_roles p" and "pt_teams q = pt_teams p"
  using assms
  by (auto simp: write_user_def Let_def portal_frames revoke_sessions_def amap_def split: if_splits)

lemma update_user_frames:
  assumes "update_user L p n f = Inr q"
  obtains u where "lookup_user p n = Some u"
    and "accounts q = amap n (\<lambda>_. (prepared_user L f u)\<lparr>pu_username := n\<rparr>) (accounts p)"
    and "pt_bindings q = pt_bindings p"
    and "pt_sessions q = (if pu_disabled (f u) \<and> \<not> pu_disabled u
            then filter (\<lambda>(h, s). ss_username s \<noteq> n) (pt_sessions p) else pt_sessions p)"
    and "violated (pt_users p) ((prepared_user L f u)\<lparr>pu_username := n\<rparr>) = []"
    and "pt_links q = pt_links p" and "pt_roles q = pt_roles p" and "pt_teams q = pt_teams p"
proof -
  from assms obtain u where u: "lookup_user p n = Some u"
    and w: "write_user L p n u (prepared_user L f u) = Inr q"
    by (auto simp: update_user_def split: option.splits)
  have "mget (pt_users p) n \<noteq> None" using u by (auto simp: lookup_user_def)
  with u show thesis using write_user_frames [OF w] by (intro that) simp_all
qed

lemma update_user_bindings:
  "update_user L p n f = Inr q \<Longrightarrow> pt_bindings q = pt_bindings p"
  by (erule update_user_frames)

lemma update_user_active:
  assumes "update_user L p n f = Inr q"
  shows "active q m \<longleftrightarrow>
    (if m = n then (\<exists>u. lookup_user p n = Some u \<and> \<not> pu_disabled (f u)) else active p m)"
  using assms
  by (rule update_user_frames) (simp add: active_def lookup_user_accounts mget_amap split: option.split)

lemma update_user_ok:
  assumes up: "update_user L p n f = Inr q" and ok: "portal_ok p"
  shows "portal_ok q"
proof -
  from up obtain u where u: "lookup_user p n = Some u"
    and acc: "accounts q = amap n (\<lambda>_. (prepared_user L f u)\<lparr>pu_username := n\<rparr>) (accounts p)"
    and bind: "pt_bindings q = pt_bindings p"
    and sess: "pt_sessions q = (if pu_disabled (f u) \<and> \<not> pu_disabled u
            then filter (\<lambda>(h, s). ss_username s \<noteq> n) (pt_sessions p) else pt_sessions p)"
    and free: "violated (pt_users p) ((prepared_user L f u)\<lparr>pu_username := n\<rparr>) = []"
    and teams: "pt_teams q = pt_teams p"
    by (rule update_user_frames)
  have "accounts_ok (accounts q)"
    unfolding acc using ok free prepared_user_email by (intro accounts_ok_amap) (auto simp: portal_ok_def)
  moreover have "active q (ss_username s)" if s: "(h, s) \<in> set (pt_sessions q)" for h s
  proof -
    from s have "(h, s) \<in> set (pt_sessions p)" using sess by (auto split: if_splits)
    then have "active p (ss_username s)" using ok by (auto simp: portal_ok_def sessions_ok_def list_all_iff)
    then show ?thesis using u s sess unfolding update_user_active [OF up] by (auto simp: active_def split: if_splits)
  qed
  then have "sessions_ok q"
    using ok sess by (auto simp: portal_ok_def sessions_ok_def list_all_iff intro: distinct_map_filter split: if_splits)
  ultimately show ?thesis using ok bind teams by (simp add: portal_ok_def)
qed

lemma keeps_update_user:
  assumes keep: "keeps p q" and up: "update_user L q n f = Inr r"
    and harmless: "\<And>u. lookup_user q n = Some u \<Longrightarrow> pu_disabled (f u) \<Longrightarrow> portal_ok q \<Longrightarrow>
      pu_disabled u \<or> \<not> is_privileged q n \<or> other_active_privileged q n \<noteq> 0"
  shows "keeps p r"
proof -
  have "keeps q r"
    unfolding keeps_def
  proof (intro impI conjI)
    assume ok: "portal_ok q"
    show ok': "portal_ok r" by (rule update_user_ok [OF up ok])
    assume admin: "has_admin q"
    have acc: "accounts_ok (accounts q)" "accounts_ok (accounts r)" using ok ok' by (simp_all add: portal_ok_def)
    have priv: "is_privileged r = is_privileged q"
      by (rule is_privileged_cong) (rule update_user_bindings [OF up])
    from admin acc(1) obtain m where m: "active q m" "is_privileged q m" by (auto simp: has_admin_iff)
    have "\<exists>k. active r k \<and> is_privileged r k"
    proof (cases "active r m")
      case True
      then show ?thesis using m priv by auto
    next
      case False
      with m obtain u where "m = n" "lookup_user q n = Some u" "pu_disabled (f u)" "\<not> pu_disabled u"
        unfolding update_user_active [OF up] by (auto simp: active_iff split: if_splits)
      with harmless ok m have "other_active_privileged q n \<noteq> 0" by blast
      then obtain k where "k \<noteq> n" "active q k" "is_privileged q k"
        using other_active_privileged_iff [OF acc(1)] by blast
      then show ?thesis unfolding update_user_active [OF up] using priv by auto
    qed
    then show "has_admin r" using acc(2) by (simp add: has_admin_iff)
  qed
  with keep show ?thesis by (rule keeps_trans)
qed

lemma keeps_update_harmless:
  "keeps p q \<Longrightarrow> update_user L q n f = Inr r \<Longrightarrow> (\<And>u. pu_disabled (f u) \<Longrightarrow> pu_disabled u) \<Longrightarrow> keeps p r"
  by (erule keeps_update_user) auto

lemma keeps_set_disabled_by:
  assumes "keeps p q" and "set_disabled_by L q n d w = Inr r"
    and "d \<Longrightarrow> portal_ok q \<Longrightarrow> \<not> (is_privileged q n \<and> other_active_privileged q n = 0)"
  shows "keeps p r"
proof -
  obtain q1 where up: "update_user L q n (pu_disabled_update (\<lambda>_. d)) = Inr q1"
    and r: "r = (let p2 = map_entry n (ue_disabled_by_update (\<lambda>_. if d then w else [])) q1
                 in if d then set_refresh_token n [] p2 else p2)"
    using assms(2) by (auto simp: set_disabled_by_def Let_def split: sum.splits)
  have "keeps p q1" by (rule keeps_update_user [OF assms(1) up]) (use assms(3) in auto)
  then show ?thesis unfolding r Let_def by (auto intro: inv_intros)
qed

text \<open>Updates leave the sessions' owners and the activity of other accounts alone.\<close>

lemma try_update_active:
  assumes "\<And>u. pu_disabled (f u) = pu_disabled u"
  shows "active (try_update L n f p) m = active p m"
proof (cases "update_user L p n f")
  case (Inr q)
  from update_user_active [OF Inr, of m] show ?thesis
    using assms by (simp add: try_update_def Inr active_iff)
qed (simp add: try_update_def)

lemma keeps_try_update:
  "keeps p q \<Longrightarrow> (\<And>u. pu_disabled (f u) \<Longrightarrow> pu_disabled u) \<Longrightarrow> keeps p (try_update L n f q)"
  by (auto simp: try_update_def intro: keeps_update_harmless split: sum.split)

section \<open>Adding accounts\<close>

lemma accounts_insert_user [portal_frames]:
  "accounts (insert_user u p) = accounts p @ [(pu_username u, u)]"
  "pt_bindings (insert_user u p) = pt_bindings p" "pt_sessions (insert_user u p) = pt_sessions p"
  "pt_links (insert_user u p) = pt_links p" "pt_teams (insert_user u p) = pt_teams p"
  by (simp_all add: insert_user_def accounts_def new_entry_def)

lemma insert_binding_frames [portal_frames]:
  "accounts (insert_binding b p) = accounts p" "pt_sessions (insert_binding b p) = pt_sessions p"
  "pt_links (insert_binding b p) = pt_links p" "pt_users (insert_binding b p) = pt_users p"
  "pt_roles (insert_binding b p) = pt_roles p" "pt_teams (insert_binding b p) = pt_teams p"
  by (simp_all add: insert_binding_def portal_frames)

lemma same_binding_iff [simp]: "same_binding a b \<longleftrightarrow> a = b"
  by (cases a; cases b) (auto simp: same_binding_def)

lemma set_insert_binding [simp]: "set (pt_bindings (insert_binding b p)) = insert b (set (pt_bindings p))"
  by (auto simp: insert_binding_def list_ex_iff)

lemma distinct_insert_binding [simp]:
  "distinct (pt_bindings (insert_binding b p)) = distinct (pt_bindings p)"
  by (auto simp: insert_binding_def list_ex_iff)

text \<open>Changes to bindings that take no administrator away.\<close>

lemma keeps_bindings:
  assumes keep: "keeps p q" and acc: "accounts r = accounts q" and sess: "pt_sessions r = pt_sessions q"
    and teams: "[] \<notin> fst ` set (pt_teams q) \<Longrightarrow> [] \<notin> fst ` set (pt_teams r)"
    and dist: "distinct (pt_bindings q) \<Longrightarrow> distinct (pt_bindings r)"
    and stays: "portal_ok q \<Longrightarrow> \<exists>n. active q n \<and> is_privileged q n \<Longrightarrow>
      \<exists>n. active q n \<and> is_privileged r n"
  shows "keeps p r"
proof -
  have act: "active r = active q" by (rule active_cong) (rule acc)
  have "keeps q r"
    unfolding keeps_def
  proof (intro impI conjI)
    assume ok: "portal_ok q"
    show "portal_ok r" using ok dist teams by (simp add: portal_ok_def sessions_ok_def acc sess act)
    assume "has_admin q"
    with ok stays show "has_admin r"
      by (auto simp: portal_ok_def has_admin_iff acc act)
  qed
  with keep show ?thesis by (rule keeps_trans)
qed

lemma keeps_insert_binding [inv_intros]: "keeps p q \<Longrightarrow> keeps p (insert_binding b q)"
  by (erule keeps_bindings) (auto simp: portal_frames is_privileged_iff)

lemma keeps_filter_bindings:
  assumes "keeps p q" and "accounts r = accounts q" and "pt_sessions r = pt_sessions q"
    and "[] \<notin> fst ` set (pt_teams q) \<Longrightarrow> [] \<notin> fst ` set (pt_teams r)"
    and "pt_bindings r = filter P (pt_bindings q)"
    and "\<And>b n. rb_principal b = user_principal n \<Longrightarrow> rb_team b = [] \<Longrightarrow> privileged_role (rb_role b) \<Longrightarrow> P b"
  shows "keeps p r"
  using assms(1-4)
proof (rule keeps_bindings)
  show "distinct (pt_bindings r)" if "distinct (pt_bindings q)" using that assms(5) by simp
  have "is_privileged r n" if "is_privileged q n" for n
    using that assms(5,6) unfolding is_privileged_iff by auto
  then show "\<exists>n. active q n \<and> is_privileged r n" if "\<exists>n. active q n \<and> is_privileged q n"
    using that by blast
qed

lemma keeps_insert_user:
  assumes keep: "keeps p q" and free: "insert_violated (pt_users q) u = []"
    and email: "pu_email_verified u \<longrightarrow> pu_email u \<noteq> []"
  shows "keeps p (insert_user u q)"
proof -
  have new: "mget (pt_users q) (pu_username u) = None" and idx: "violated (pt_users q) u = []"
    using free by (auto simp: insert_violated_def split: if_splits)
  have look: "lookup_user (insert_user u q) n = (if n = pu_username u then Some u else lookup_user q n)" for n
    using new by (auto simp: lookup_user_def insert_user_def new_entry_def map_add_def split: option.splits)
  have "keeps q (insert_user u q)"
    unfolding keeps_def
  proof (intro impI conjI)
    assume ok: "portal_ok q"
    have "key_unique (accounts q @ [(pu_username u, u)]) key" if "(c, key) \<in> set unique_indexes" for c key
    proof -
      have "key_unique (accounts q) key" using ok that by (auto simp: portal_ok_def accounts_ok_def list_all_iff)
      moreover have "\<not> index_clash (pt_users q) u key" using idx that by (auto simp: violated_iff)
      ultimately show ?thesis by (auto simp: key_unique_iff index_clash_iff)
    qed
    moreover have "pu_username u \<notin> fst ` set (accounts q)"
      using new by (force simp: accounts_def mget_None_iff)
    ultimately have acc: "accounts_ok (accounts (insert_user u q))"
      using ok email by (auto simp: portal_ok_def accounts_ok_def list_all_iff portal_frames)
    have "active (insert_user u q) n" if "active q n" for n
      using that new look by (auto simp: active_def lookup_user_def split: option.splits)
    then show "portal_ok (insert_user u q)"
      using ok acc by (auto simp: portal_ok_def sessions_ok_def portal_frames list_all_iff)
    assume "has_admin q"
    then show "has_admin (insert_user u q)"
      by (auto simp: has_admin_def portal_frames is_privileged_def global_roles_def)
  qed
  with keep show ?thesis by (rule keeps_trans)
qed

lemma keeps_bind_initial_role [inv_intros]: "keeps p q \<Longrightarrow> keeps p (bind_initial_role n r q)"
  unfolding bind_initial_role_def Let_def by (intro inv_intros)

lemma keeps_add_user: "keeps p q \<Longrightarrow> add_user q u role = Inr r \<Longrightarrow> keeps p r"
  by (auto simp: add_user_def Let_def new_user_def split: if_splits
      intro!: keeps_bind_initial_role keeps_insert_user)

lemma keeps_add_first_admin: "keeps p q \<Longrightarrow> add_first_admin q u = Inr r \<Longrightarrow> keeps p r"
  by (auto simp: add_first_admin_def Let_def new_user_def insert_violated_def violated_iff index_clash_def
      split: if_splits intro!: inv_intros keeps_insert_user)

lemma keeps_provision_loop:
  "keeps p q \<Longrightarrow> provision_loop L q base role ident tok is = Inr (r, u) \<Longrightarrow> keeps p r"
proof (induction "is")
  case (Cons i "is")
  then show ?case
    by (auto simp: Let_def new_user_def split: if_splits option.splits
        intro!: keeps_bind_initial_role keeps_insert_user)
qed simp

section \<open>Bindings, teams and roles\<close>

lemma user_principal_inj [simp]: "user_principal a = user_principal b \<longleftrightarrow> a = b"
  by (simp add: user_principal_def)

lemma user_is_no_team [simp]: "user_principal a \<noteq> team_principal b" "team_principal b \<noteq> user_principal a"
  by (simp_all add: user_principal_def team_principal_def)

lemma keeps_bind_role: "keeps p q \<Longrightarrow> bind_role q b = Inr r \<Longrightarrow> keeps p r"
  by (auto simp: bind_role_def split: option.splits intro!: inv_intros)

text \<open>Taking a role away leaves an administrator, by the two guards.\<close>

lemma unbind_leaves_admin:
  assumes ok: "portal_ok p" and refused: "unbind_refused p b = None"
    and admin: "\<exists>n. active p n \<and> is_privileged p n"
  shows "\<exists>n. active p n \<and> (\<exists>x \<in> set (pt_bindings p). x \<noteq> b \<and> rb_principal x = user_principal n \<and>
    rb_team x = [] \<and> privileged_role (rb_role x))"
proof -
  from admin obtain n x where n: "active p n" and x: "x \<in> set (pt_bindings p)" "rb_principal x = user_principal n"
    "rb_team x = []" "privileged_role (rb_role x)"
    by (auto simp: is_privileged_iff)
  show ?thesis
  proof (cases "x = b")
    case False
    with n x show ?thesis by blast
  next
    case True
    have prefix: "has_prefix (rb_principal b) ''user:''" "drop (length ''user:'') (rb_principal b) = n"
      using x True by (simp_all add: user_principal_def has_prefix_def)
    with refused x True have "other_active_privileged p n \<noteq> 0 \<or> other_privileged_roles p b \<noteq> 0"
      by (auto simp: unbind_refused_def split: if_splits)
    then show ?thesis
    proof
      assume "other_active_privileged p n \<noteq> 0"
      then obtain m where "m \<noteq> n" "active p m" "is_privileged p m"
        using ok unfolding portal_ok_def by (metis other_active_privileged_iff)
      then obtain y where "y \<in> set (pt_bindings p)" "rb_principal y = user_principal m" "rb_team y = []"
        "privileged_role (rb_role y)"
        by (auto simp: is_privileged_iff)
      then show ?thesis using x True \<open>m \<noteq> n\<close> \<open>active p m\<close>
        by (intro exI [of _ m] conjI bexI [of _ y]) auto
    next
      assume "other_privileged_roles p b \<noteq> 0"
      then obtain y where "y \<in> set (pt_bindings p)" "rb_principal y = rb_principal b" "rb_team y = []"
        "privileged_role (rb_role y)" "rb_role y \<noteq> rb_role b"
        by (auto simp: other_privileged_roles_def filter_empty_conv)
      then show ?thesis using n x True by (intro exI [of _ n]) auto
    qed
  qed
qed

lemma keeps_unbind_role:
  assumes keep: "keeps p q" and "unbind_role q b = Inr r"
  shows "keeps p r"
proof -
  from assms(2) have refused: "unbind_refused q b = None"
    and r: "r = bump_authz (q\<lparr>pt_bindings := filter (\<lambda>x. \<not> same_binding b x) (pt_bindings q)\<rparr>)"
    by (auto simp: unbind_role_def split: option.splits)
  have "keeps p (q\<lparr>pt_bindings := filter (\<lambda>x. \<not> same_binding b x) (pt_bindings q)\<rparr>)"
  proof (rule keeps_bindings [OF keep])
    assume "portal_ok q" and "\<exists>n. active q n \<and> is_privileged q n"
    from unbind_leaves_admin [OF this(1) refused this(2)]
    show "\<exists>n. active q n \<and>
      is_privileged (q\<lparr>pt_bindings := filter (\<lambda>x. \<not> same_binding b x) (pt_bindings q)\<rparr>) n"
      by (fastforce simp: is_privileged_iff)
  qed (simp_all add: portal_frames)
  then show ?thesis unfolding r by (rule inv_intros)
qed

lemma bind_role_frames: "bind_role q b = Inr r \<Longrightarrow> accounts r = accounts q \<and> pt_sessions r = pt_sessions q"
  by (auto simp: bind_role_def portal_frames split: option.splits)

lemma unbind_role_frames:
  "unbind_role q b = Inr r \<Longrightarrow> accounts r = accounts q \<and> pt_sessions r = pt_sessions q"
  by (auto simp: unbind_role_def portal_frames split: option.splits)

lemma keeps_add_bindings:
  assumes "keeps p q" and "accounts r = accounts q" and "pt_sessions r = pt_sessions q"
    and "[] \<notin> fst ` set (pt_teams q) \<Longrightarrow> [] \<notin> fst ` set (pt_teams r)"
    and "distinct (pt_bindings q) \<Longrightarrow> distinct (pt_bindings r)"
    and "set (pt_bindings q) \<subseteq> set (pt_bindings r)"
  shows "keeps p r"
  using assms(1-5)
proof (rule keeps_bindings)
  show "\<exists>n. active q n \<and> is_privileged r n" if "\<exists>n. active q n \<and> is_privileged q n"
    using that assms(6) unfolding is_privileged_iff by blast
qed

lemma keeps_new_team:
  assumes "keeps p q" and "tid \<noteq> []" and "distinct bs" and "set bs \<inter> set (pt_bindings q) = {}"
  shows "keeps p (bump_authz (q\<lparr>pt_teams := pt_teams q @ [(tid, e)], pt_members := ms,
    pt_bindings := pt_bindings q @ bs\<rparr>))"
  by (intro keeps_bump_authz keeps_add_bindings [OF assms(1)]) (use assms(2-4) in \<open>auto simp: accounts_def\<close>)

lemma keeps_create_team:
  assumes keep: "keeps p q" and made: "create_team L q a b c = Inr r"
  shows "keeps p r"
proof -
  define tid where "tid = to_lower L (trim_space a)"
  define e where "e = \<lparr>te_name = if trim_space b = [] then tid else trim_space b, te_disabled = False\<rparr>"
  let ?first = "global_role (team_principal tid) role_member"
  let ?second = "\<lparr>rb_principal = user_principal c, rb_role = role_team_maintainer, rb_team = tid\<rparr>"
  have valid: "tid \<noteq> []" and fresh: "?first \<notin> set (pt_bindings q)"
    using made by (auto simp: create_team_def Let_def tid_def list_ex_iff valid_team_id_def split: if_splits)
  have "r = bump_authz (q\<lparr>pt_teams := pt_teams q @ [(tid, e)], pt_members := pt_members q,
      pt_bindings := pt_bindings q @ [?first]\<rparr>) \<or>
    ?second \<notin> set (pt_bindings q) \<and>
    r = bump_authz (q\<lparr>pt_teams := pt_teams q @ [(tid, e)], pt_members := pt_members q @ [(tid, c)],
      pt_bindings := pt_bindings q @ [?first, ?second]\<rparr>)"
    using made unfolding create_team_def Let_def tid_def [symmetric] e_def
    by (simp add: list_ex_iff split: if_splits)
  moreover have "keeps p (bump_authz (q\<lparr>pt_teams := pt_teams q @ [(tid, e)], pt_members := pt_members q,
      pt_bindings := pt_bindings q @ [?first]\<rparr>))"
    by (rule keeps_new_team [OF keep valid]) (use fresh in auto)
  moreover have "keeps p (bump_authz (q\<lparr>pt_teams := pt_teams q @ [(tid, e)], pt_members := pt_members q @ [(tid, c)],
      pt_bindings := pt_bindings q @ [?first, ?second]\<rparr>))" if "?second \<notin> set (pt_bindings q)"
    by (rule keeps_new_team [OF keep valid]) (use fresh that in \<open>auto simp: global_role_def\<close>)
  ultimately show ?thesis by metis
qed

lemma keeps_set_team_disabled:
  assumes "keeps p q" and "set_team_disabled q a d = Inr r"
  shows "keeps p r"
proof -
  have keys: "fst ` set (map (\<lambda>(i, t). if i = a then (i, t\<lparr>te_disabled := d\<rparr>) else (i, t)) ts) = fst ` set ts" for ts
    by (induction ts) auto
  have r: "r = bump_authz (q\<lparr>pt_teams :=
      map (\<lambda>(i, t). if i = a then (i, t\<lparr>te_disabled := d\<rparr>) else (i, t)) (pt_teams q)\<rparr>)"
    using assms(2) by (simp add: set_team_disabled_def split: if_splits)
  show ?thesis
    unfolding r
    by (intro keeps_bump_authz keeps_add_bindings [OF assms(1)])
      (simp_all add: portal_frames keys del: set_map)
qed

lemma keeps_delete_team:
  assumes "keeps p q" and "delete_team q tid = Inr r" and "tid \<noteq> []"
  shows "keeps p r"
proof -
  have r: "r = bump_authz (q\<lparr>
             pt_members := filter (\<lambda>(t, n). t \<noteq> tid) (pt_members q),
             pt_bindings := filter (\<lambda>b. rb_principal b \<noteq> team_principal tid)
                              (filter (\<lambda>b. rb_team b \<noteq> tid) (pt_bindings q)),
             pt_keys := filter (\<lambda>(h, k). kr_owner k \<noteq> team_principal tid) (pt_keys q),
             pt_tokens := filter (\<lambda>(h, w). w \<noteq> team_principal tid) (pt_tokens q),
             pt_teams := mdel tid (pt_teams q)\<rparr>)"
    using assms(2) by (auto simp: delete_team_def split: if_splits)
  show ?thesis
    unfolding r
    by (intro keeps_bump_authz keeps_filter_bindings
          [OF assms(1), where P = "\<lambda>b. rb_team b \<noteq> tid \<and> rb_principal b \<noteq> team_principal tid"])
      (use assms(3) in \<open>auto simp: accounts_def list_all_iff set_mdel\<close>)
qed

lemma add_team_member_frames:
  "add_team_member q t n m = Inr r \<Longrightarrow> accounts r = accounts q \<and> pt_sessions r = pt_sessions q"
  by (auto simp: add_team_member_def Let_def portal_frames split: if_splits)

lemma team_binding_unprivileged: "team_bindings_of t n b \<Longrightarrow> \<not> privileged_role (rb_role b)"
  by (auto simp: team_bindings_of_def privileged_role_def role_ids)

lemma keeps_append_binding:
  assumes "keeps p q" and "b \<notin> set (pt_bindings q)"
  shows "keeps p (q\<lparr>pt_members := ms, pt_bindings := pt_bindings q @ [b]\<rparr>)"
  by (rule keeps_add_bindings [OF assms(1)]) (auto simp: portal_frames assms(2))

lemma keeps_add_team_member:
  assumes keep: "keeps p q" and added: "add_team_member q t n m = Inr r"
  shows "keeps p r"
proof -
  define b where "b = \<lparr>rb_principal = user_principal n,
    rb_role = if m then role_team_maintainer else role_team_member, rb_team = t\<rparr>"
  define q0 where "q0 = q\<lparr>pt_bindings := filter (\<lambda>b. \<not> team_bindings_of t n b) (pt_bindings q)\<rparr>"
  have "keeps p q0"
    unfolding q0_def
    by (rule keeps_filter_bindings [OF keep, where P = "\<lambda>b. \<not> team_bindings_of t n b"])
      (auto simp: portal_frames dest: team_binding_unprivileged)
  moreover have "b \<notin> set (pt_bindings q0)" by (simp add: q0_def b_def team_bindings_of_def)
  ultimately have "keeps p (q0\<lparr>pt_members := ms, pt_bindings := pt_bindings q0 @ [b]\<rparr>)" for ms
    by (rule keeps_append_binding)
  moreover have "r = bump_authz (q0\<lparr>
      pt_members := (if (t, n) \<in> set (pt_members q) then pt_members q else pt_members q @ [(t, n)]),
      pt_bindings := pt_bindings q0 @ [b]\<rparr>)"
    using added by (auto simp: add_team_member_def Let_def q0_def b_def split: if_splits)
  ultimately show ?thesis by (metis keeps_bump_authz)
qed

lemma remove_team_member_frames [portal_frames]:
  "accounts (remove_team_member q t n) = accounts q" "pt_sessions (remove_team_member q t n) = pt_sessions q"
  by (simp_all add: remove_team_member_def portal_frames)

lemma keeps_remove_team_member:
  assumes "keeps p q" and "t \<noteq> []"
  shows "keeps p (remove_team_member q t n)"
  unfolding remove_team_member_def
  by (rule keeps_bump_authz, rule keeps_filter_bindings
      [OF assms(1), where P = "\<lambda>b. \<not> (rb_principal b = user_principal n \<and> rb_team b = t)"])
    (use assms(2) in \<open>auto simp: accounts_def\<close>)

lemma builtin_privileged: "privileged_role r \<Longrightarrow> list_ex (\<lambda>b. ro_id b = r) builtin_roles"
  by (auto simp: privileged_role_def builtin_roles_def builtin_role_def)

lemma keeps_delete_role:
  assumes "keeps p q" and "delete_role q rid = Inr r"
  shows "keeps p r"
  using assms(2)
  by (auto simp: delete_role_def portal_frames dest: builtin_privileged split: if_splits
      intro!: keeps_bump_authz keeps_filter_bindings [OF assms(1), where P = "\<lambda>b. rb_role b \<noteq> rid"])

section \<open>Deleting an account\<close>

lemma accounts_delete_rows: "accounts (delete_rows n p) = mdel n (accounts p)"
proof -
  have "map (\<lambda>(n, e). (n, ue_user e)) (mdel n us) = mdel n (map (\<lambda>(n, e). (n, ue_user e)) us)" for us
    by (induction us) auto
  then show ?thesis by (simp add: delete_rows_def accounts_def)
qed

lemma keeps_delete_rows:
  assumes keep: "keeps p q" and off: "lookup_user q n = Some u" "pu_disabled u"
  shows "keeps p (delete_rows n q)"
proof -
  let ?r = "delete_rows n q"
  have act: "active ?r m = active q m" for m
    using off by (auto simp: active_def lookup_user_accounts accounts_delete_rows gomap_simps)
  have priv: "is_privileged ?r m" if "m \<noteq> n" "is_privileged q m" for m
    using that by (auto simp: is_privileged_iff delete_rows_def)
  have "keeps q ?r"
    unfolding keeps_def
  proof (intro impI conjI)
    assume ok: "portal_ok q"
    have acc: "accounts_ok (accounts ?r)"
      using ok by (auto simp: portal_ok_def accounts_ok_def accounts_delete_rows list_all_iff key_unique_iff set_mdel)
    have sess: "pt_sessions ?r = filter (\<lambda>(h, s). ss_username s \<noteq> n) (pt_sessions q)"
      "pt_teams ?r = pt_teams q"
      "pt_bindings ?r = filter (\<lambda>b. rb_principal b \<noteq> user_principal n) (pt_bindings q)"
      by (simp_all add: delete_rows_def)
    show "portal_ok ?r"
      using ok acc by (auto simp: portal_ok_def sessions_ok_def act list_all_iff sess intro: distinct_map_filter)
    assume "has_admin q"
    then obtain m where m: "active q m" "is_privileged q m"
      using ok by (auto simp: portal_ok_def has_admin_iff)
    then have "m \<noteq> n" using off by (auto simp: active_def)
    with m priv show "has_admin ?r" using acc by (auto simp: has_admin_iff act)
  qed
  with keep show ?thesis by (rule keeps_trans)
qed

lemma keeps_delete_policy [inv_intros]: "keeps p q \<Longrightarrow> keeps p (delete_policy i q)"
  unfolding delete_policy_def by (rule keeps_bump_authz) (erule keeps_same; simp add: portal_frames)

lemma keeps_delete_user: "keeps p q \<Longrightarrow> delete_user q a n = Inr r \<Longrightarrow> keeps p r"
  by (auto simp: delete_user_def drop_isolation_policies_def Let_def isolation_policies_def
      split: if_splits option.splits intro!: inv_intros keeps_delete_rows)

end
