(* ===== verification/Portal_Soundness.thy ===== *)
theory Portal_Soundness
  imports Portal_Keeps
begin

text \<open>
  Every handler keeps the invariant and the last administrator, and so does every run.
\<close>

lemma keepsI: "(portal_ok p \<Longrightarrow> keeps p q) \<Longrightarrow> keeps p q"
  by (auto simp: keeps_def)

lemma keeps_fold:
  assumes "keeps p q" and "\<And>x q. x \<in> set xs \<Longrightarrow> keeps p q \<Longrightarrow> keeps p (f x q)"
  shows "keeps p (fold f xs q)"
  using assms by (induction xs arbitrary: q) auto

section \<open>Following the provider\<close>

lemma sync_bind_step: "keeps p q \<Longrightarrow> keeps p (sync_bind n ip r q)"
  by (auto simp: sync_bind_def split: sum.splits intro: keeps_record_audit keeps_bind_role)

lemma sync_unbind_step: "keeps p q \<Longrightarrow> keeps p (sync_unbind n ip r q)"
  by (auto simp: sync_unbind_def split: sum.splits intro: keeps_record_audit keeps_unbind_role)

lemma sync_step_frames [portal_frames]:
  "accounts (sync_bind n ip r q) = accounts q" "pt_sessions (sync_bind n ip r q) = pt_sessions q"
  "accounts (sync_unbind n ip r q) = accounts q" "pt_sessions (sync_unbind n ip r q) = pt_sessions q"
  "accounts (sync_team n ip ms is t q) = accounts q" "pt_sessions (sync_team n ip ms is t q) = pt_sessions q"
  by (auto simp: sync_bind_def sync_unbind_def sync_team_def portal_frames split: sum.splits
      dest: bind_role_frames unbind_role_frames add_team_member_frames)

lemma fold_frames:
  assumes "\<And>x q. accounts (f x q) = accounts q" and "\<And>x q. pt_sessions (f x q) = pt_sessions q"
  shows "accounts (fold f xs q) = accounts q" "pt_sessions (fold f xs q) = pt_sessions q"
  using assms by (induction xs arbitrary: q) auto

lemma sync_roles_frames [portal_frames]:
  "accounts (sync_roles L n rs ip q) = accounts q" "pt_sessions (sync_roles L n rs ip q) = pt_sessions q"
  by (simp_all add: sync_roles_def Let_def fold_frames portal_frames)

lemma keeps_sync_roles: "keeps p q \<Longrightarrow> keeps p (sync_roles L n rs ip q)"
  unfolding sync_roles_def Let_def by (intro keeps_fold sync_bind_step sync_unbind_step)

lemma teams_of_named: "t \<in> set (teams_of p n) \<Longrightarrow> [] \<notin> fst ` set (pt_teams p) \<Longrightarrow> t \<noteq> []"
  by (force simp: teams_of_def split: option.splits dest!: mget_SomeD)

lemma keeps_sync_teams:
  assumes "keeps p q"
  shows "keeps p (fold (sync_team n ip ms (teams_of q n)) ts q)"
proof (rule keepsI)
  assume "portal_ok p"
  then have named: "[] \<notin> fst ` set (pt_teams q)" using assms by (simp add: keeps_def portal_ok_def)
  show ?thesis
  proof (rule keeps_fold [OF assms])
    fix t r
    assume "keeps p r"
    then show "keeps p (sync_team n ip ms (teams_of q n) t r)"
      using teams_of_named [OF _ named]
      by (auto simp: sync_team_def split: sum.splits
          intro!: keeps_record_audit keeps_remove_team_member elim: keeps_add_team_member)
  qed
qed

lemma set_user_attrs_frames:
  "set_user_attrs q n attrs = Inr r \<Longrightarrow> accounts r = accounts q \<and> pt_sessions r = pt_sessions q"
  by (auto simp: set_user_attrs_def portal_frames split: if_splits)

lemma sync_attrs_frames [portal_frames]:
  "accounts (sync_attrs J scalar c n claims q) = accounts q"
  "pt_sessions (sync_attrs J scalar c n claims q) = pt_sessions q"
  by (auto simp: sync_attrs_def Let_def split: sum.splits dest: set_user_attrs_frames)

lemma keeps_sync_attrs: "keeps p q \<Longrightarrow> keeps p (sync_attrs J scalar c n claims q)"
  by (auto simp: sync_attrs_def Let_def split: sum.splits intro: keeps_set_user_attrs)

lemma sync_managed_frames [portal_frames]:
  "accounts (sync_managed_access L J scalar u c rs ident ip q) = accounts q"
  "pt_sessions (sync_managed_access L J scalar u c rs ident ip q) = pt_sessions q"
  by (simp_all add: sync_managed_access_def Let_def portal_frames fold_frames split: prod.split)

lemma keeps_sync_managed: "keeps p q \<Longrightarrow> keeps p (sync_managed_access L J scalar u c rs ident ip q)"
  unfolding sync_managed_access_def Let_def
  by (auto split: prod.splits intro!: keeps_sync_attrs keeps_sync_teams keeps_sync_roles)

section \<open>Signing in\<close>

lemma keeps_handle_login:
  "keeps p q \<Longrightarrow> handle_login L now rd r q = (x, cs, q') \<Longrightarrow> keeps p q'"
  by (auto simp: handle_login_def active_def split: if_splits option.splits
      elim!: keeps_start_session [rotated 2])

lemma keeps_handle_setup:
  "keeps p q \<Longrightarrow> handle_setup L hash r q = (x, cs, q') \<Longrightarrow> keeps p q'"
  by (auto simp: handle_setup_def Let_def split: if_splits option.splits sum.splits elim: keeps_add_first_admin)

lemma keeps_magic_link_request:
  "keeps p q \<Longrightarrow> handle_magic_link_request L on now rd r q = (x, cs, q') \<Longrightarrow> keeps p q'"
  by (auto simp: handle_magic_link_request_def Let_def split: if_splits option.splits intro!: inv_intros)

lemma consume_link_frames:
  "consume_link L now t w q = (e, q') \<Longrightarrow> accounts q' = accounts q \<and> pt_bindings q' = pt_bindings q \<and>
     pt_sessions q' = pt_sessions q \<and> pt_teams q' = pt_teams q"
  by (auto simp: consume_link_def portal_frames split: option.splits)

lemma active_portal_ok:
  "portal_ok q \<Longrightarrow> lookup_user q n = Some u \<Longrightarrow> \<not> pu_disabled u \<Longrightarrow> active q (pu_username u)"
  using accounts_ok_name [of q n u] by (auto simp: portal_ok_def active_def)

lemma portal_ok_same:
  "accounts r = accounts q \<Longrightarrow> pt_bindings r = pt_bindings q \<Longrightarrow> pt_sessions r = pt_sessions q \<Longrightarrow>
     pt_teams r = pt_teams q \<Longrightarrow> portal_ok r \<longleftrightarrow> portal_ok q"
  by (rule portal_ok_cong)

lemma active_audit [simp]: "active (record_audit a b c d q) = active q"
  by (rule active_cong) (simp add: portal_frames)

lemma portal_ok_audit [simp]: "portal_ok (record_audit a b c d q) = portal_ok q"
  by (rule portal_ok_same) (simp_all add: portal_frames)

lemma keeps_magic_link_verify:
  assumes "keeps p q" and "handle_magic_link_verify L now rd r q = (x, cs, q')"
  shows "keeps p q'"
proof (cases "consume_link L now (wq_form r ''token'') purpose_login q")
  case (Pair e q1)
  have q1: "keeps p q1" using keeps_same [OF assms(1)] consume_link_frames [OF Pair] by blast
  show ?thesis
    using assms q1 Pair
    by (auto simp: handle_magic_link_verify_def Let_def split: if_splits option.splits
        elim!: keeps_start_session [rotated 2] intro: keeps_record_audit active_portal_ok)
qed

lemma keeps_send_verification:
  "keeps p q \<Longrightarrow> send_verification L ok now rd n e q = (x, cs, q') \<Longrightarrow> keeps p q'"
  by (auto simp: send_verification_def Let_def split: if_splits intro!: inv_intros)

lemma keeps_email_update:
  assumes "keeps p q" and "handle_email_update L on ok now rd r u q = (x, cs, q')"
  shows "keeps p q'"
  using assms
  by (auto simp: handle_email_update_def Let_def split: if_splits option.splits sum.splits
      elim!: keeps_send_verification [rotated] intro!: inv_intros elim: keeps_update_harmless)

lemma keeps_email_resend:
  "keeps p q \<Longrightarrow> handle_email_resend L on ok now rd r u q = (x, cs, q') \<Longrightarrow> keeps p q'"
  by (auto simp: handle_email_resend_def split: if_splits option.splits elim: keeps_send_verification [rotated])

lemma keeps_email_verify:
  assumes "keeps p q" and "handle_email_verify L now r q = (x, cs, q')"
  shows "keeps p q'"
  using assms
  by (auto simp: handle_email_verify_def Let_def split: if_splits option.splits sum.splits prod.splits
      elim!: keeps_session_user [rotated] intro!: keeps_record_audit elim: keeps_update_harmless)

lemma keeps_logout:
  assumes "keeps p q" and "handle_logout L now r q = (x, cs, q')"
  shows "keeps p q'"
proof -
  have "keeps p q1" if "lookup_session L now c q = (n, q1)" for c n q1
    using assms(1) that by (rule keeps_lookup_session)
  then show ?thesis
    using assms
    by (auto simp: handle_logout_def Let_def split: if_splits option.splits sum.splits prod.splits
        intro: keeps_delete_session elim!: keeps_update_harmless [rotated])
qed

lemma keeps_change_password:
  assumes "keeps p q" and "handle_change_password L hash r u q = (x, cs, q')"
  shows "keeps p q'"
  using assms
  by (auto simp: handle_change_password_def Let_def split: if_splits option.splits sum.splits
      intro!: inv_intros elim: keeps_update_harmless)

lemma keeps_session_revoke:
  assumes "keeps p q" and "handle_session_revoke L r u q = (x, cs, q')"
  shows "keeps p q'"
proof -
  let ?f = "filter (\<lambda>(h, s). \<not> (h = wq_form r ''session'' \<and> ss_username s = pu_username u)) (pt_sessions q)"
  have "keeps p (q\<lparr>pt_sessions := ?f\<rparr>)"
    by (rule keeps_sessions [OF assms(1)]) (auto simp: portal_frames intro: distinct_map_filter)
  then show ?thesis
    using assms by (auto simp: handle_session_revoke_def Let_def split: if_splits intro!: inv_intros)
qed

section \<open>Federated sign-in\<close>

lemma active_columns [portal_frames]:
  "active (map_entry n (ue_disabled_by_update f) p) = active p" "active (set_refresh_token n t p) = active p"
  by (rule active_cong; simp add: portal_frames set_refresh_token_def)+

lemma active_sync [portal_frames]:
  "active (sync_managed_access L J scalar u c rs ident ip q) = active q"
  by (rule active_cong) (simp add: portal_frames)

lemma keeps_finish_oidc_login:
  assumes keep: "keeps p q" and act: "portal_ok q \<Longrightarrow> active q (pu_username u)"
    and fin: "finish_oidc_login L J scalar c now rd r rs ident u q = (x, cs, q')"
  shows "keeps p q'"
proof -
  have k: "keeps p (sync_managed_access L J scalar u c rs ident (wq_ip r) q)"
    using keep by (rule keeps_sync_managed)
  show ?thesis
  proof (rule keepsI)
    assume "portal_ok p"
    then have "active q (pu_username u)" using keep act by (simp add: keeps_def)
    then show "keeps p q'"
      using fin k unfolding finish_oidc_login_def Let_def
      by (elim keeps_start_session [rotated 2])
        (auto simp: portal_frames try_update_active intro!: keeps_record_audit keeps_columns keeps_try_update)
  qed
qed

lemma find_user_in: "find_user p P = Some u \<Longrightarrow> \<exists>n. (n, u) \<in> set (accounts p) \<and> P u"
proof -
  assume "find_user p P = Some u"
  then obtain n e where found: "find (\<lambda>(n, e). P (ue_user e)) (pt_users p) = Some (n, e)" and u: "u = ue_user e"
    by (auto simp: find_user_def)
  then have "(n, e) \<in> set (pt_users p)" unfolding find_Some_iff by (metis nth_mem)
  moreover have "P (ue_user e)" using found by (auto simp: find_Some_iff)
  ultimately show ?thesis using u by (auto simp: accounts_def intro!: exI [of _ n] rev_image_eqI)
qed

lemma lookup_by_oauth_in: "lookup_user_by_oauth p w i = Some u \<Longrightarrow> \<exists>n. (n, u) \<in> set (accounts p)"
  by (auto simp: lookup_user_by_oauth_def split: option.splits if_splits dest: find_user_in)

lemma lookup_by_oauth_user:
  "portal_ok p \<Longrightarrow> lookup_user_by_oauth p w i = Some u \<Longrightarrow> lookup_user p (pu_username u) = Some u"
  using lookup_by_oauth_in [of p w i u] in_accounts [of p] accounts_ok_name [of p]
  by (auto simp: portal_ok_def)

lemma provisioned_user:
  "provision_loop L p base role ident tok is = Inr (q, u) \<Longrightarrow> portal_ok q \<Longrightarrow>
     lookup_user q (pu_username u) = Some u"
proof (induction "is")
  case (Cons i "is")
  show ?case
  proof (cases "insert_violated (pt_users p) (new_user (suffixed base i)\<lparr>pu_csrf_token := tok,
      pu_oidc_subject := oi_id ident, pu_oidc_label := oi_label ident, pu_managed_by := provider_oidc\<rparr>) = []")
    case True
    then have "mget (pt_users p) (suffixed base i) = None"
      by (auto simp: insert_violated_def new_user_def split: if_splits)
    then show ?thesis
      using Cons.prems(1) True
      by (auto simp: Let_def bind_initial_role_def lookup_user_def portal_frames insert_user_def new_entry_def
          new_user_def map_add_def)
  next
    case False
    then show ?thesis
      using Cons by (auto simp: Let_def lookup_by_oauth_user split: if_splits option.splits)
  qed
qed simp

lemma keeps_account_for_oidc:
  assumes "keeps p q" and "account_for_oidc L c rd r v rs ident q = Inr (q', u)"
  shows "keeps p q' \<and> (portal_ok q' \<longrightarrow> lookup_user q' (pu_username u) = Some u)"
proof -
  have "lookup_user (record_audit a b d e q1) n = lookup_user q1 n" for a b d e q1 n
    by (simp add: lookup_user_accounts portal_frames)
  then show ?thesis
    using assms
    by (auto simp: account_for_oidc_def provision_oidc_user_def lookup_by_oauth_user
        split: option.splits if_splits sum.splits
        intro: keeps_record_audit elim: keeps_provision_loop provisioned_user)
qed

lemma set_disabled_by_active:
  assumes "set_disabled_by L q n False w = Inr q'"
  shows "active q' n"
  using assms
  by (auto simp: set_disabled_by_def Let_def portal_frames split: sum.splits)
    (auto simp: update_user_active elim!: update_user_frames)

lemma keeps_complete_oidc_login:
  assumes "keeps p q" and "complete_oidc_login L J scalar c now rd r v ident q = (x, cs, q')"
  shows "keeps p q'"
proof (cases "snd (roles_for J c (oi_claims ident))")
  case False
  then show ?thesis
    using assms by (auto simp: complete_oidc_login_def split: prod.splits intro: keeps_record_audit)
next
  case True
  show ?thesis
  proof (cases "account_for_oidc L c rd r v (fst (roles_for J c (oi_claims ident))) ident q")
    case (Inl m)
    then show ?thesis using assms True by (auto simp: complete_oidc_login_def split: prod.splits)
  next
    case (Inr res)
    obtain q1 u where res: "res = (q1, u)" by force
    note acc = keeps_account_for_oidc [OF assms(1) Inr [unfolded res]]
    then have k1: "keeps p q1" and look: "portal_ok q1 \<Longrightarrow> lookup_user q1 (pu_username u) = Some u" by simp_all
    let ?finish = "finish_oidc_login L J scalar c now rd r (fst (roles_for J c (oi_claims ident))) ident u"
    consider "\<not> pu_disabled u" "?finish q1 = (x, cs, q')" | "q' = q1"
      | q2 where "set_disabled_by L q1 (pu_username u) False [] = Inr q2"
        "?finish (record_audit (pu_username u) ''user.enable.oidc'' (oi_label ident) (wq_ip r) q2) = (x, cs, q')"
      using assms(2) True Inr res
      by (auto simp: complete_oidc_login_def split: prod.splits if_splits sum.splits)
    then show ?thesis
    proof cases
      case 1
      from this(2) show ?thesis
        using keeps_finish_oidc_login [OF k1 _ 1(2)] look 1(1) by (auto simp: active_def)
    next
      case 2
      then show ?thesis using k1 by simp
    next
      case (3 q2)
      have "keeps p q2" using k1 3(1) by (rule keeps_set_disabled_by) simp
      then show ?thesis
        using keeps_finish_oidc_login [OF keeps_record_audit _ 3(2)] set_disabled_by_active [OF 3(1)] by simp
    qed
  qed
qed

definition mild :: "oauth_provider \<Rightarrow> bool" where
  "mild v \<longleftrightarrow> (\<forall>i l u. pu_disabled (op_set v i l u) = pu_disabled u)"

lemma provider_for_mild: "provider_for g key = Some v \<Longrightarrow> mild v"
  by (auto simp: provider_for_def mild_def github_provider_def google_provider_def oidc_provider_def split: if_splits)

lemma keeps_complete_oauth_login:
  assumes keep: "keeps p q" and mild: "mild v"
    and com: "complete_oauth_login L J scalar c now rd r v ident q = (x, cs, q')"
  shows "keeps p q'"
proof (cases "op_key v = provider_oidc")
  case True
  then show ?thesis using keeps_complete_oidc_login [OF keep] com by (simp add: complete_oauth_login_def)
next
  case False
  show ?thesis
  proof (rule keepsI)
    assume "portal_ok p"
    with keep have ok: "portal_ok q" by (simp add: keeps_def)
    show "keeps p q'"
    proof (cases "lookup_user_by_oauth q (op_key v) (oi_id ident)")
      case None
      then show ?thesis using com keep False by (auto simp: complete_oauth_login_def)
    next
      case (Some u)
      from lookup_by_oauth_user [OF ok this] have look: "lookup_user q (pu_username u) = Some u" .
      show ?thesis
        using com keep False Some mild active_portal_ok [OF ok look]
        by (auto simp: complete_oauth_login_def Let_def try_update_active mild_def split: if_splits
            elim!: keeps_start_session [rotated 2] intro!: keeps_record_audit keeps_try_update)
    qed
  qed
qed

lemma keeps_complete_oauth_link:
  assumes "keeps p q" and "mild v" and "complete_oauth_link L now r v ident q = (x, cs, q')"
  shows "keeps p q'"
  using assms
  by (auto simp: complete_oauth_link_def mild_def split: prod.splits option.splits sum.splits
      dest: keeps_session_user intro!: keeps_record_audit elim!: keeps_update_harmless [rotated])

lemma keeps_oauth_failure: "keeps p q \<Longrightarrow> oauth_failure L now r m msg q = (x, q') \<Longrightarrow> keeps p q'"
  by (auto simp: oauth_failure_def split: if_splits prod.splits option.splits dest: keeps_session_user)

lemma provider_ready_for: "provider_ready g key = (Some v, cfg, b) \<Longrightarrow> provider_for g key = Some v"
  by (auto simp: provider_ready_def split: option.splits)

lemma keeps_oauth_callback:
  assumes keep: "keeps p q"
    and call: "handle_oauth_callback L J scalar A g uri now rd key r q = (x, cs, q')"
  shows "keeps p q'"
proof (cases "provider_ready g key")
  case (fields w cfg ready)
  show ?thesis
  proof (cases w)
    case None
    then show ?thesis using fields assms by (auto simp: handle_oauth_callback_def)
  next
    case (Some v)
    then have mild: "mild v" using fields provider_ready_for provider_for_mild by blast
    have failing: "keeps p q1" if "oauth_failure L now r m msg q = (y, q1)" for m msg y q1
      using keep that by (rule keeps_oauth_failure)
    have linking: "keeps p q1" if "complete_oauth_link L now r v ident q = (y, c1, q1)" for ident y c1 q1
      using keep mild that by (rule keeps_complete_oauth_link)
    have logging: "keeps p q1"
      if "complete_oauth_login L J scalar (pg_oidc g) now rd r v ident q = (y, c1, q1)" for ident y c1 q1
      using keep mild that by (rule keeps_complete_oauth_login)
    show ?thesis
      using call fields Some keep
      by (auto simp: handle_oauth_callback_def Let_def split: if_splits option.splits prod.splits
          dest: failing linking logging)
  qed
qed

lemma keeps_oauth_unlink:
  assumes "keeps p q" and "handle_oauth_unlink L g key r u q = (x, cs, q')"
  shows "keeps p q'"
  using assms
  by (auto simp: handle_oauth_unlink_def mild_def split: if_splits option.splits sum.splits
      dest!: provider_for_mild intro!: keeps_record_audit elim!: keeps_update_harmless [rotated])

lemma keeps_begin_oauth: "keeps p q \<Longrightarrow> begin_oauth L g rd key m q = (x, cs, q') \<Longrightarrow> keeps p q'"
  by (auto simp: begin_oauth_def Let_def split: prod.splits option.splits if_splits)

lemma keeps_oauth_login:
  assumes "keeps p q" and "handle_oauth_login L g now rd key r q = (x, cs, q')"
  shows "keeps p q'"
  using assms
  by (auto simp: handle_oauth_login_def split: prod.splits option.splits
      dest: keeps_session_user elim!: keeps_begin_oauth [rotated])

lemma provisioned_enabled:
  "provision_loop L q base role ident tok is = Inr (q1, u) \<Longrightarrow>
     lookup_user_by_oauth q provider_oidc (oi_id ident) = None \<Longrightarrow> \<not> pu_disabled u"
  by (induction "is") (auto simp: Let_def new_user_def split: if_splits option.splits)

lemma admin_for_token:
  assumes keep: "keeps p q" and admin: "admin_for_token_identity L rd r ident q = Some (q', u)"
    and ok: "portal_ok q"
  shows "keeps p q' \<and> (portal_ok q' \<longrightarrow> active q' (pu_username u))"
proof (cases "lookup_user_by_oauth q provider_oidc (oi_id ident)")
  case (Some w)
  with admin have "w = u" "q' = q" "\<not> pu_disabled u"
    by (auto simp: admin_for_token_identity_def split: if_splits)
  with Some keep ok show ?thesis by (auto dest: lookup_by_oauth_user intro: active_portal_ok)
next
  case None
  with admin obtain q1 where made: "provision_loop L q (provisioned_username L ident) ''admin'' ident (rd_token rd)
      [1..<101] = Inr (q1, u)"
    and q': "q' = record_audit (pu_username u) ''user.provision.oidc.token'' (oi_label ident) (wq_ip r) q1"
    unfolding admin_for_token_identity_def provision_oidc_user_def
    by (simp split: option.splits sum.splits prod.splits)
  have "keeps p q1" using keep made by (rule keeps_provision_loop)
  moreover have "active q1 (pu_username u)" if "portal_ok q1"
    using provisioned_user [OF made that] provisioned_enabled [OF made None] that by (auto simp: active_iff)
  ultimately show ?thesis unfolding q' by (simp add: keeps_record_audit)
qed

lemma keeps_token_login:
  assumes keep: "keeps p q" and tok: "handle_token_login L J A g now rd r q = (x, cs, q')"
  shows "keeps p q'"
proof (rule keepsI)
  assume "portal_ok p"
  with keep have ok: "portal_ok q" by (simp add: keeps_def)
  have "keeps p q2"
    if "admin_for_token_identity L rd r ident q = Some (q1, u)"
      "start_session_with_csrf L now rd r (pu_username u) [] (record_audit a b c d q1) = (t, q2)"
    for ident q1 u a b c d t q2
    using admin_for_token [OF keep that(1) ok] that(2)
    by (auto elim!: keeps_start_session_with_csrf [rotated 2] intro: keeps_record_audit)
  then show "keeps p q'"
    using tok keep by (auto simp: handle_token_login_def Let_def split: if_splits option.splits prod.splits)
qed

section \<open>Managing accounts and teams\<close>

lemma keeps_user_disable:
  assumes "keeps p q" and "handle_user_disable L may r u q = (x, cs, q')"
  shows "keeps p q'"
  using assms
  by (auto simp: handle_user_disable_def Let_def split: if_splits option.splits sum.splits
      intro!: keeps_record_audit keeps_close_tokens elim!: keeps_set_disabled_by [rotated])

lemma keeps_user_enable:
  assumes "keeps p q" and "handle_user_enable L may r u q = (x, cs, q')"
  shows "keeps p q'"
  using assms
  by (auto simp: handle_user_enable_def Let_def split: if_splits option.splits sum.splits
      intro!: keeps_record_audit elim!: keeps_update_harmless [rotated])

lemma keeps_user_reset:
  assumes "keeps p q" and "handle_user_reset_password L hash tmp may r u q = (x, cs, q')"
  shows "keeps p q'"
  using assms
  by (auto simp: handle_user_reset_password_def Let_def split: if_splits option.splits sum.splits prod.splits
      intro!: keeps_record_audit keeps_revoke_sessions elim!: keeps_update_harmless [rotated])

lemma keeps_user_delete:
  assumes "keeps p q" and "handle_user_delete may r u q = (x, cs, q')"
  shows "keeps p q'"
  using assms
  by (auto simp: handle_user_delete_def Let_def split: if_splits option.splits sum.splits
      intro!: keeps_record_audit elim!: keeps_delete_user [rotated])

lemma keeps_add_user_handler:
  assumes "keeps p q" and "handle_add_user hash r u q = (x, cs, q')"
  shows "keeps p q'"
  using assms
  by (auto simp: handle_add_user_def Let_def split: if_splits option.splits sum.splits
      intro!: keeps_record_audit elim!: keeps_add_user [rotated])

lemma keeps_role_handlers:
  assumes "keeps p q"
  shows "handle_user_role_add may r u q = (x, cs, q') \<Longrightarrow> keeps p q'"
    and "handle_user_role_remove may r u q = (x, cs, q') \<Longrightarrow> keeps p q'"
    and "handle_role_delete r u q = (x, cs, q') \<Longrightarrow> keeps p q'"
    and "handle_user_attrs may r u q = (x, cs, q') \<Longrightarrow> keeps p q'"
    and "handle_user_sign_out L may r u q = (x, cs, q') \<Longrightarrow> keeps p q'"
  using assms
  by (auto simp: handle_user_role_add_def handle_user_role_remove_def handle_role_delete_def
      handle_user_attrs_def handle_user_sign_out_def Let_def split: if_splits option.splits sum.splits
      intro!: keeps_record_audit keeps_revoke_sessions
      elim!: keeps_bind_role [rotated] keeps_unbind_role [rotated] keeps_delete_role [rotated]
        keeps_set_user_attrs [rotated])

lemma team_from_form_named:
  "team_from_form may r q = Some (tid, t) \<Longrightarrow> portal_ok q \<Longrightarrow> tid \<noteq> []"
  by (force simp: team_from_form_def portal_ok_def split: option.splits if_splits dest!: mget_SomeD)

lemma keeps_team_handlers:
  assumes keep: "keeps p q"
  shows "handle_team_create L r u q = (x, cs, q') \<Longrightarrow> keeps p q'"
    and "handle_team_member_add may r u q = (x, cs, q') \<Longrightarrow> keeps p q'"
    and "handle_team_member_remove may r u q = (x, cs, q') \<Longrightarrow> keeps p q'"
    and "handle_team_state may r u q = (x, cs, q') \<Longrightarrow> keeps p q'"
proof -
  show "keeps p q'" if "handle_team_create L r u q = (x, cs, q')"
    using that keep
    by (auto simp: handle_team_create_def Let_def split: sum.splits intro!: keeps_record_audit
        elim!: keeps_create_team [rotated])
  show "keeps p q'" if "handle_team_member_add may r u q = (x, cs, q')"
    using that keep
    by (auto simp: handle_team_member_add_def Let_def split: sum.splits option.splits if_splits
        intro!: keeps_record_audit elim!: keeps_add_team_member [rotated])
  show "keeps p q'" if "handle_team_member_remove may r u q = (x, cs, q')"
  proof (rule keepsI)
    assume "portal_ok p"
    with keep have "portal_ok q" by (simp add: keeps_def)
    with that keep show "keeps p q'"
      by (auto simp: handle_team_member_remove_def Let_def split: option.splits if_splits
          dest: team_from_form_named intro!: keeps_record_audit keeps_remove_team_member)
  qed
  show "keeps p q'" if "handle_team_state may r u q = (x, cs, q')"
  proof (rule keepsI)
    assume "portal_ok p"
    with keep have ok: "portal_ok q" by (simp add: keeps_def)
    have closed: "keeps p (close_tokens_of n q)" for n using keep by (rule keeps_close_tokens)
    have gone: "keeps p q1" if "delete_team (close_tokens_of n q) tid = Inr q1" "tid \<noteq> []" for n q1 tid
      using closed that by (rule keeps_delete_team)
    have set_off: "keeps p q1" if "set_team_disabled q tid d = Inr q1" for d q1 tid
      using keep that by (rule keeps_set_team_disabled)
    from that show "keeps p q'"
      using keep closed gone set_off team_from_form_named [OF _ ok]
      by (auto simp: handle_team_state_def Let_def split: option.splits if_splits sum.splits
          intro!: keeps_record_audit keeps_close_tokens)
  qed
qed

lemma keeps_own_handler:
  assumes "keeps p q" and "own_handler L may now a r u q = (x, cs, q')"
  shows "keeps p q'"
  using assms
  by (cases a) (auto split: if_splits dest: keeps_logout keeps_change_password keeps_session_revoke
      keeps_email_update keeps_email_resend keeps_begin_oauth keeps_oauth_unlink keeps_team_handlers)

lemma keeps_managing_handler:
  assumes "keeps p q" and "managing_handler L may a r u q = (x, cs, q')"
  shows "keeps p q'"
  using assms
  by (cases a) (auto dest: keeps_add_user_handler keeps_user_disable keeps_user_enable keeps_user_reset
      keeps_user_delete keeps_role_handlers)

section \<open>Revalidation\<close>

lemma keeps_disable_by_provider: "keeps p q \<Longrightarrow> keeps p (disable_by_provider L u reason q)"
  by (auto simp: disable_by_provider_def Let_def split: sum.splits
      intro!: keeps_record_audit keeps_close_tokens elim!: keeps_set_disabled_by [rotated])

lemma keeps_apply_one: "keeps p q \<Longrightarrow> keeps p (apply_one L J scalar c x q)"
  by (auto simp: apply_one_def Let_def intro: keeps_disable_by_provider keeps_columns keeps_sync_managed)

lemma keeps_apply_revalidation: "keeps p q \<Longrightarrow> keeps p (apply_revalidation L J scalar c xs q)"
  by (auto simp: apply_revalidation_def intro: keeps_fold keeps_apply_one)

section \<open>Runs\<close>

lemma keeps_require_auth:
  assumes "keeps p q" and "require_auth L now r q h = (x, cs, q')"
    and "\<And>u q1 y c1 q2. keeps p q1 \<Longrightarrow> h u q1 = (y, c1, q2) \<Longrightarrow> keeps p q2"
  shows "keeps p q'"
  using assms
  by (auto simp: require_auth_def split: prod.splits option.splits if_splits dest: keeps_session_user)

lemma keeps_post_with_csrf:
  assumes "keeps p q" and "post_with_csrf L r q h = (x, cs, q')"
    and "\<And>y c1 q2. h q = (y, c1, q2) \<Longrightarrow> keeps p q2"
  shows "keeps p q'"
  using assms by (auto simp: post_with_csrf_def Let_def split: option.splits if_splits)

lemma touch_frames [portal_frames]:
  "accounts (touch_key now h p) = accounts p" "pt_bindings (touch_key now h p) = pt_bindings p"
  "pt_sessions (touch_key now h p) = pt_sessions p" "pt_teams (touch_key now h p) = pt_teams p"
  "pt_users (touch_key now h p) = pt_users p"
  by (simp_all add: touch_key_def Let_def portal_frames)

theorem after_keeps: "keeps p (after L op p)"
proof -
  have "keeps p q" if "perform L op p = (x, cs, q)" for x cs q
  proof (cases op)
    case (Op_Own may now r a)
    then have "require_auth L now r p (\<lambda>u p1. post_with_csrf L r p1 (own_handler L (may u) now a r u)) = (x, cs, q)"
      using that by simp
    then show ?thesis
      by (rule keeps_require_auth [OF keeps_refl]) (auto elim!: keeps_post_with_csrf [rotated] intro: keeps_own_handler)
  next
    case (Op_Managing may now r a)
    then have "require_perm L may (managing_permission a) now r p
        (\<lambda>u p1. post_with_csrf L r p1 (managing_handler L (may u) a r u)) = (x, cs, q)"
      using that by simp
    then show ?thesis
      unfolding require_perm_def
      by (elim keeps_require_auth [OF keeps_refl])
        (auto split: if_splits elim!: keeps_post_with_csrf [rotated] intro: keeps_managing_handler)
  next
    case (Op_Api_Key now key)
    then show ?thesis
      using that by (auto simp: valid_api_key_def portal_frames split: option.splits if_splits
          intro!: keeps_same [OF keeps_refl])
  qed (use that in \<open>auto simp: revalidate_oidc_def split: if_splits
      intro: keeps_handle_login keeps_handle_setup keeps_magic_link_request keeps_magic_link_verify
        keeps_email_verify keeps_oauth_login keeps_oauth_callback keeps_token_login keeps_apply_revalidation\<close>)
  then show ?thesis by (metis after_def prod.collapse)
qed

theorem run_keeps: "keeps p (portal_run L ops p)"
  unfolding portal_run_def by (rule keeps_fold) (auto intro: keeps_trans after_keeps)

end
