(* ===== verification/Portal_Credentials.thy ===== *)
theory Portal_Credentials
  imports Portal_Soundness
begin

text \<open>
  Where sessions come from: only the four ways of signing in start one, and each only for an account
  whose credential the request carries.
\<close>

section \<open>Operations that start no session\<close>

definition session_keys :: "portal \<Rightarrow> string set" where
  "session_keys p = fst ` set (pt_sessions p)"

definition calm :: "portal \<Rightarrow> portal \<Rightarrow> bool" where
  "calm p q \<longleftrightarrow> session_keys q \<subseteq> session_keys p"

lemma session_keys_same: "pt_sessions q = pt_sessions p \<Longrightarrow> session_keys q = session_keys p"
  by (simp add: session_keys_def)

lemma calm_refl [simp, intro]: "calm p p"
  by (simp add: calm_def)

lemma calm_trans: "calm p q \<Longrightarrow> calm q r \<Longrightarrow> calm p r"
  by (auto simp: calm_def)

lemma calm_same: "calm p q \<Longrightarrow> pt_sessions r = pt_sessions q \<Longrightarrow> calm p r"
  using session_keys_same [of r q] by (simp only: calm_def)

lemma calm_filter:
  assumes "calm p q" and "pt_sessions r = filter P (pt_sessions q)"
  shows "calm p r"
proof -
  have "session_keys r \<subseteq> session_keys q" unfolding session_keys_def assms(2) by (rule image_mono [OF filter_is_subset])
  then show ?thesis using assms(1) unfolding calm_def by (rule subset_trans)
qed

named_theorems calm_intros \<open>steps that start no session\<close>

lemma set_refresh_sessions [portal_frames]: "pt_sessions (set_refresh_token n t p) = pt_sessions p"
  by (simp add: set_refresh_token_def portal_frames)

lemma calm_steps [calm_intros]:
  "calm p q \<Longrightarrow> calm p (record_audit a b c d q)" "calm p q \<Longrightarrow> calm p (emit e q)"
  "calm p q \<Longrightarrow> calm p (bump_authz q)" "calm p q \<Longrightarrow> calm p (revoke_links n w q)"
  "calm p q \<Longrightarrow> calm p (issue L now t n w em ttl q)" "calm p q \<Longrightarrow> calm p (spend_link L t q)"
  "calm p q \<Longrightarrow> calm p (close_tokens_of n q)" "calm p q \<Longrightarrow> calm p (set_refresh_token n t q)"
  "calm p q \<Longrightarrow> calm p (map_entry n g q)" "calm p q \<Longrightarrow> calm p (insert_binding rb q)"
  "calm p q \<Longrightarrow> calm p (insert_user w2 q)" "calm p q \<Longrightarrow> calm p (remove_team_member q n m)"
  "calm p q \<Longrightarrow> calm p (sync_managed_access L J scalar u cfg rs ident ip q)"
  "calm p q \<Longrightarrow> calm p (touch_key now h q)"
  by (erule calm_same; simp add: portal_frames)+

lemma calm_map_session [calm_intros]: "calm p q \<Longrightarrow> calm p (map_session h f q)"
proof -
  have "fst ` set (map (\<lambda>(i, s). if i = h then (i, f s) else (i, s)) ss) = fst ` set ss" for ss
    by (induction ss) auto
  then have "session_keys (map_session h f q) = session_keys q"
    by (simp add: session_keys_def map_session_def del: set_map)
  then show "calm p q \<Longrightarrow> calm p (map_session h f q)" by (simp add: calm_def)
qed

lemma calm_sessions [calm_intros]:
  "calm p q \<Longrightarrow> calm p (revoke_sessions L n k q)" "calm p q \<Longrightarrow> calm p (delete_session L sid q)"
  by (auto simp: calm_def session_keys_def revoke_sessions_def delete_session_def)

lemma calm_lookup_session: "calm p q \<Longrightarrow> lookup_session L now sid q = (res, r) \<Longrightarrow> calm p r"
  by (auto simp: lookup_session_def Let_def split: if_splits option.splits intro!: calm_sessions calm_map_session)
    (auto elim: calm_same)

lemma calm_session_user: "calm p q \<Longrightarrow> session_user L now r q = (res, q') \<Longrightarrow> calm p q'"
  by (auto simp: session_user_def split: option.splits prod.splits dest: calm_lookup_session)

lemma calm_update_user: "calm p q \<Longrightarrow> update_user L q n f = Inr r \<Longrightarrow> calm p r"
  by (erule update_user_frames) (auto split: if_splits elim: calm_same calm_filter)

lemma calm_try_update [calm_intros]: "calm p q \<Longrightarrow> calm p (try_update L n f q)"
  by (auto simp: try_update_def split: sum.splits intro: calm_update_user)

lemma calm_set_disabled_by: "calm p q \<Longrightarrow> set_disabled_by L q n d w = Inr r \<Longrightarrow> calm p r"
  by (auto simp: set_disabled_by_def Let_def split: sum.splits if_splits intro!: calm_steps elim: calm_update_user)

lemma calm_bindings:
  "calm p q \<Longrightarrow> bind_role q b = Inr r \<Longrightarrow> calm p r"
  "calm p q \<Longrightarrow> unbind_role q b = Inr r \<Longrightarrow> calm p r"
  "calm p q \<Longrightarrow> add_team_member q t n m = Inr r \<Longrightarrow> calm p r"
  "calm p q \<Longrightarrow> set_user_attrs q n attrs = Inr r \<Longrightarrow> calm p r"
  by (auto elim: calm_same dest: bind_role_frames unbind_role_frames add_team_member_frames set_user_attrs_frames)

lemma calm_tables:
  "calm p q \<Longrightarrow> create_team L q a b c = Inr r \<Longrightarrow> calm p r"
  "calm p q \<Longrightarrow> set_team_disabled q t d = Inr r \<Longrightarrow> calm p r"
  "calm p q \<Longrightarrow> delete_team q t = Inr r \<Longrightarrow> calm p r"
  "calm p q \<Longrightarrow> delete_role q t = Inr r \<Longrightarrow> calm p r"
  "calm p q \<Longrightarrow> add_user q u role = Inr r \<Longrightarrow> calm p r"
  "calm p q \<Longrightarrow> add_first_admin q u = Inr r \<Longrightarrow> calm p r"
  by (auto simp: create_team_def set_team_disabled_def delete_team_def delete_role_def add_user_def
      add_first_admin_def bind_initial_role_def portal_frames Let_def split: if_splits option.splits
      elim!: calm_same)

lemma calm_delete_policy: "calm p q \<Longrightarrow> calm p (delete_policy i q)"
  by (erule calm_same) (simp add: delete_policy_def portal_frames)

lemma calm_delete_rows: "calm p q \<Longrightarrow> calm p (delete_rows n q)"
  by (erule calm_filter) (simp add: delete_rows_def)

lemma calm_delete_user: "calm p q \<Longrightarrow> delete_user q a n = Inr r \<Longrightarrow> calm p r"
  by (auto simp: delete_user_def drop_isolation_policies_def split: if_splits option.splits prod.splits
      intro!: calm_steps calm_delete_policy calm_delete_rows)

lemma calm_provision: "calm p q \<Longrightarrow> provision_loop L q base role ident tok is = Inr (r, u) \<Longrightarrow> calm p r"
  by (induction "is") (auto simp: Let_def bind_initial_role_def split: if_splits option.splits intro!: calm_steps)

text \<open>The handlers that are no sign-in.\<close>

lemma calm_own_handler:
  assumes "calm p q" and "own_handler L may now a r u q = (x, cs, q')"
  shows "calm p q'"
proof -
  have looked: "calm p q1" if "lookup_session L now c q = (n, q1)" for c n q1
    using assms(1) that by (rule calm_lookup_session)
  have filtered: "calm p (q\<lparr>pt_sessions := filter P (pt_sessions q)\<rparr>)" for P
    by (rule calm_filter [OF assms(1)]) simp
  show ?thesis
    using assms looked filtered
    by (cases a)
      (auto simp: handle_logout_def handle_change_password_def handle_session_revoke_def handle_email_update_def
        handle_email_resend_def send_verification_def begin_oauth_def handle_oauth_unlink_def
        handle_team_create_def handle_team_member_add_def handle_team_member_remove_def handle_team_state_def
        Let_def split: if_splits option.splits sum.splits prod.splits
        intro!: calm_intros elim!: calm_update_user [rotated] calm_bindings(3) [rotated]
          calm_tables(1-3) [rotated])
qed

lemma calm_managing_handler:
  assumes "calm p q" and "managing_handler L may a r u q = (x, cs, q')"
  shows "calm p q'"
  using assms
  by (cases a)
    (auto simp: handle_add_user_def handle_user_disable_def handle_user_enable_def
      handle_user_reset_password_def handle_user_delete_def handle_user_role_add_def
      handle_user_role_remove_def handle_user_attrs_def handle_user_sign_out_def handle_role_delete_def
      Let_def split: if_splits option.splits sum.splits prod.splits
      intro!: calm_intros elim!: calm_update_user [rotated] calm_set_disabled_by [rotated]
        calm_bindings(1,2,4) [rotated] calm_tables(4,5) [rotated] calm_delete_user [rotated])

lemma calm_fold: "calm p q \<Longrightarrow> (\<And>x q. calm p q \<Longrightarrow> calm p (f x q)) \<Longrightarrow> calm p (fold f xs q)"
  by (induction xs arbitrary: q) auto

lemma calm_apply_revalidation: "calm p (apply_revalidation L J scalar c xs p)"
  by (auto simp: apply_revalidation_def apply_one_def disable_by_provider_def Let_def split: sum.splits
      intro!: calm_fold calm_intros elim: calm_set_disabled_by)

lemma calm_require_auth:
  assumes "calm p q" and "require_auth L now r q h = (x, cs, q')"
    and "\<And>u q1 y c1 q2. calm p q1 \<Longrightarrow> h u q1 = (y, c1, q2) \<Longrightarrow> calm p q2"
  shows "calm p q'"
  using assms by (auto simp: require_auth_def split: prod.splits option.splits if_splits dest: calm_session_user)

lemma calm_post_with_csrf:
  assumes "calm p q" and "post_with_csrf L r q h = (x, cs, q')"
    and "\<And>y c1 q2. h q = (y, c1, q2) \<Longrightarrow> calm p q2"
  shows "calm p q'"
  using assms by (auto simp: post_with_csrf_def Let_def split: option.splits if_splits)

section \<open>Operations that start one\<close>

text \<open>Every session of \<open>q\<close> that \<open>p\<close> has not is of \<open>n\<close>.\<close>

definition starts :: "portal \<Rightarrow> portal \<Rightarrow> string \<Rightarrow> bool" where
  "starts p q n \<longleftrightarrow> (\<forall>(h, s) \<in> set (pt_sessions q). h \<notin> session_keys p \<longrightarrow> ss_username s = n)"

lemma starts_create:
  assumes "calm p q"
  shows "starts p (set_csrf L sid t (create_session L now sid n ip agent q)) n"
    and "starts p (create_session L now sid n ip agent q) n"
proof -
  have swept: "h \<in> session_keys p" if "(h, s) \<in> set (pt_sessions (sweep_sessions now q))" for h s
    using that assms by (force simp: sweep_sessions_def calm_def session_keys_def)
  then show *: "starts p (create_session L now sid n ip agent q) n"
    by (auto simp: starts_def create_session_def Let_def)
  then show "starts p (set_csrf L sid t (create_session L now sid n ip agent q)) n"
    by (auto simp: starts_def set_csrf_def map_session_def split: if_splits)
qed

lemma starts_session_with_csrf:
  "calm p q \<Longrightarrow> start_session_with_csrf L now rd r n csrf q = (t, q') \<Longrightarrow> starts p q' n"
  by (auto simp: start_session_with_csrf_def Let_def starts_create split: if_splits)

lemma starts_session: "calm p q \<Longrightarrow> start_session L now rd r n q = (x, cs, q') \<Longrightarrow> starts p q' n"
  using starts_session_with_csrf [of p q L now rd r n "[]"]
  by (auto simp: start_session_def prod_eq_iff)

text \<open>
  What entitles the sender of a request to a session of \<open>n\<close>: the account's password; a live sign-in
  link that went to the verified address the account still has; a provider's word for an identity in a
  flow this browser started, where the provider is allowed to speak for the account; or a token the
  OIDC provider knows.
\<close>

fun entitled :: "portal_lib \<Rightarrow> portal_op \<Rightarrow> portal \<Rightarrow> string \<Rightarrow> bool" where
  "entitled L (Op_Login now rd r) p n =
     (case lookup_user p n of
        None \<Rightarrow> False
      | Some u \<Rightarrow> n = wq_form r ''username'' \<and> pl_password L (pu_password_hash u) (wq_form r ''password'') \<and>
          \<not> pu_disabled u \<and> \<not> managed_elsewhere u ''password'')"
| "entitled L (Op_Magic_Verify now rd r) p n =
     (case lookup_link L now (wq_form r ''token'') purpose_login p of
        None \<Rightarrow> False
      | Some e \<Rightarrow> wq_post r \<and>
          (case lookup_user p (at_username e) of
             None \<Rightarrow> False
           | Some u \<Rightarrow> pu_username u = n \<and> \<not> pu_disabled u \<and> pu_email_verified u \<and> pu_email u = at_email e \<and>
               \<not> managed_elsewhere u ''email''))"
| "entitled L (Op_OAuth_Callback J scalar A g uri now rd key r) p n =
     (case (provider_for g key, take_oauth_state r key) of
        (Some v, Some (mode, verifier)) \<Rightarrow>
          mode = mode_login \<and>
          (case exchange_oauth_code L J A v (pg_oauth g key) (wq_query r ''code'') uri verifier of
             None \<Rightarrow> False
           | Some ident \<Rightarrow>
               (key = provider_oidc \<longrightarrow> snd (roles_for J (pg_oidc g) (oi_claims ident))) \<and>
               (case lookup_user_by_oauth p key (oi_id ident) of
                  Some u \<Rightarrow> pu_username u = n \<and>
                    (if key = provider_oidc
                     then pu_disabled u \<longrightarrow> pu_managed_by u = provider_oidc \<and> disabled_by p n = provider_oidc
                     else \<not> pu_disabled u \<and> \<not> managed_elsewhere u key)
                | None \<Rightarrow> key = provider_oidc \<and> oc_provision (pg_oidc g) \<and> lookup_user p n = None))
      | _ \<Rightarrow> False)"
| "entitled L (Op_Token_Login J A g now rd r) p n =
     (case fetch_token_identity L J A (oc_userinfo_url (pg_oidc g))
             (trim_space (drop (length ''Bearer '') (wq_header r ''Authorization''))) of
        None \<Rightarrow> False
      | Some ident \<Rightarrow> oi_id ident \<noteq> [] \<and>
          (case lookup_user_by_oauth p provider_oidc (oi_id ident) of
             Some u \<Rightarrow> pu_username u = n \<and> \<not> pu_disabled u
           | None \<Rightarrow> lookup_user p n = None))"
| "entitled L _ p n = False"

text \<open>A step either starts no session or starts one for an account it is entitled to.\<close>

definition earned :: "portal_lib \<Rightarrow> portal_op \<Rightarrow> portal \<Rightarrow> portal \<Rightarrow> bool" where
  "earned L op p q \<longleftrightarrow> calm p q \<or> (\<exists>n. entitled L op p n \<and> starts p q n)"

lemma earned_calm: "calm p q \<Longrightarrow> earned L op p q"
  by (simp add: earned_def)

lemma earned_starts: "entitled L op p n \<Longrightarrow> starts p q n \<Longrightarrow> earned L op p q"
  unfolding earned_def by blast

lemma earned_start:
  "entitled L op p n \<Longrightarrow> calm p q0 \<Longrightarrow> start_session L now rd r n q0 = (x, cs, q) \<Longrightarrow> earned L op p q"
  by (rule earned_starts [OF _ starts_session])

lemma earned_login: "handle_login L now rd r p = (x, cs, q) \<Longrightarrow> earned L (Op_Login now rd r) p q"
  by (auto simp: handle_login_def split: if_splits option.splits
      intro: earned_calm elim!: earned_start [rotated 2])

lemma earned_magic:
  "handle_magic_link_verify L now rd r p = (x, cs, q) \<Longrightarrow> earned L (Op_Magic_Verify now rd r) p q"
proof -
  have "lookup_user (spend_link L t p) n = lookup_user p n" for t n
    by (simp add: lookup_user_def spend_link_def)
  then show "handle_magic_link_verify L now rd r p = (x, cs, q) \<Longrightarrow> ?thesis"
    by (auto simp: handle_magic_link_verify_def consume_link_def Let_def split: if_splits option.splits
        intro: earned_calm calm_steps elim!: earned_start [rotated 2])
qed

text \<open>Federated sign-in ends in \<open>start_session\<close> for the account it found or made.\<close>

lemma finish_oidc_starts:
  "calm p q \<Longrightarrow> finish_oidc_login L J scalar c now rd r rs ident u q = (x, cs, q') \<Longrightarrow>
     starts p q' (pu_username u)"
  unfolding finish_oidc_login_def Let_def
  by (elim starts_session [rotated]) (auto intro!: calm_intros)

lemma provision_name_free:
  "provision_loop L p base role ident tok is = Inr (q, u) \<Longrightarrow>
     lookup_user_by_oauth p provider_oidc (oi_id ident) = None \<Longrightarrow>
     lookup_user p (pu_username u) = None \<and> \<not> pu_disabled u"
  by (induction "is")
    (auto simp: Let_def new_user_def insert_violated_def lookup_user_def split: if_splits option.splits)

lemma account_for_oidc_facts:
  assumes "account_for_oidc L c rd r v rs ident p = Inr (q, u)" and "op_key v = provider_oidc"
  shows "calm p q"
    and "case lookup_user_by_oauth p provider_oidc (oi_id ident) of
        Some w \<Rightarrow> w = u \<and> q = p
      | None \<Rightarrow> oc_provision c \<and> lookup_user p (pu_username u) = None \<and> \<not> pu_disabled u"
  using assms provision_name_free
  by (auto simp: account_for_oidc_def provision_oidc_user_def split: option.splits if_splits sum.splits
      intro!: calm_steps dest: calm_provision [OF calm_refl])

lemma complete_oidc_starts:
  assumes com: "complete_oidc_login L J scalar c now rd r v ident p = (x, cs, q)"
    and key: "op_key v = provider_oidc" and ended: "\<not> calm p q"
  shows "\<exists>n. starts p q n \<and> snd (roles_for J c (oi_claims ident)) \<and>
    (case lookup_user_by_oauth p provider_oidc (oi_id ident) of
       Some u \<Rightarrow> pu_username u = n \<and>
         (pu_disabled u \<longrightarrow> pu_managed_by u = provider_oidc \<and> disabled_by p n = provider_oidc)
     | None \<Rightarrow> oc_provision c \<and> lookup_user p n = None)"
proof -
  let ?rs = "fst (roles_for J c (oi_claims ident))"
  have allowed: "snd (roles_for J c (oi_claims ident))"
    using com ended by (auto simp: complete_oidc_login_def split: prod.splits if_splits intro: calm_steps)
  obtain q1 u where acc: "account_for_oidc L c rd r v ?rs ident p = Inr (q1, u)"
    using com ended allowed by (auto simp: complete_oidc_login_def split: prod.splits if_splits sum.splits)
  note facts = account_for_oidc_facts [OF this key]
  have "starts p q (pu_username u) \<and> (pu_disabled u \<longrightarrow>
      pu_managed_by u = provider_oidc \<and> disabled_by q1 (pu_username u) = provider_oidc)"
    using com ended allowed acc facts(1)
    by (auto simp: complete_oidc_login_def split: prod.splits if_splits sum.splits
        elim!: finish_oidc_starts [rotated] intro!: calm_steps elim: calm_set_disabled_by)
  then show ?thesis
    using facts(2) allowed by (intro exI [of _ "pu_username u"]) (auto split: option.splits)
qed

lemma complete_oauth_starts:
  assumes "complete_oauth_login L J scalar c now rd r v ident p = (x, cs, q)"
    and "op_key v \<noteq> provider_oidc" and "\<not> calm p q"
  shows "\<exists>u. lookup_user_by_oauth p (op_key v) (oi_id ident) = Some u \<and> starts p q (pu_username u) \<and>
    \<not> pu_disabled u \<and> \<not> managed_elsewhere u (op_key v)"
  using assms
  by (auto simp: complete_oauth_login_def Let_def split: option.splits if_splits
      elim!: starts_session [rotated] intro!: calm_steps calm_try_update)

lemma provider_for_key: "provider_for g key = Some v \<Longrightarrow> op_key v = key"
  by (auto simp: provider_for_def github_provider_def google_provider_def oidc_provider_def split: if_splits)

lemma calm_oauth_failure: "oauth_failure L now r m msg p = (x, q) \<Longrightarrow> calm p q"
  by (auto simp: oauth_failure_def split: if_splits prod.splits option.splits dest: calm_session_user [OF calm_refl])

lemma calm_oauth_link: "complete_oauth_link L now r v ident p = (x, cs, q) \<Longrightarrow> calm p q"
  by (auto simp: complete_oauth_link_def split: prod.splits option.splits sum.splits
      dest: calm_session_user [OF calm_refl] intro!: calm_steps elim!: calm_update_user [rotated])

lemma callback_reaches_login:
  assumes call: "handle_oauth_callback L J scalar A g uri now rd key r p = (x, cs, q)" and started: "\<not> calm p q"
  shows "\<exists>v verifier ident x' cs'. provider_for g key = Some v \<and> take_oauth_state r key = Some (mode_login, verifier) \<and>
    exchange_oauth_code L J A v (pg_oauth g key) (wq_query r ''code'') uri verifier = Some ident \<and>
    complete_oauth_login L J scalar (pg_oidc g) now rd r v ident p = (x', cs', q)"
proof (cases "provider_for g key")
  case None
  then show ?thesis using assms by (auto simp: handle_oauth_callback_def provider_ready_def)
next
  case (Some v)
  have modes: "mode = mode_login \<or> mode = mode_link" if "take_oauth_state r key = Some (mode, w)" for mode w
    using that by (auto simp: take_oauth_state_def split: option.splits list.splits if_splits)
  show ?thesis
    using assms Some modes
    by (auto simp: handle_oauth_callback_def provider_ready_def Let_def mode_login_def mode_link_def
        split: if_splits option.splits prod.splits dest: calm_oauth_failure calm_oauth_link)
qed

lemma earned_callback:
  assumes "handle_oauth_callback L J scalar A g uri now rd key r p = (x, cs, q)"
  shows "earned L (Op_OAuth_Callback J scalar A g uri now rd key r) p q"
proof (cases "calm p q")
  case False
  from callback_reaches_login [OF assms this] obtain v verifier ident x' cs'
    where v: "provider_for g key = Some v" "take_oauth_state r key = Some (mode_login, verifier)"
      "exchange_oauth_code L J A v (pg_oauth g key) (wq_query r ''code'') uri verifier = Some ident"
    and com: "complete_oauth_login L J scalar (pg_oidc g) now rd r v ident p = (x', cs', q)"
    by blast
  note key = provider_for_key [OF v(1)]
  show ?thesis
  proof (cases "key = provider_oidc")
    case True
    with com key have "complete_oidc_login L J scalar (pg_oidc g) now rd r v ident p = (x', cs', q)"
      by (simp add: complete_oauth_login_def)
    from complete_oidc_starts [OF this _ False] key True obtain n where "starts p q n"
      "snd (roles_for J (pg_oidc g) (oi_claims ident))"
      "case lookup_user_by_oauth p provider_oidc (oi_id ident) of
         Some u \<Rightarrow> pu_username u = n \<and>
           (pu_disabled u \<longrightarrow> pu_managed_by u = provider_oidc \<and> disabled_by p n = provider_oidc)
       | None \<Rightarrow> oc_provision (pg_oidc g) \<and> lookup_user p n = None"
      by auto
    then have "entitled L (Op_OAuth_Callback J scalar A g uri now rd key r) p n"
      using v True by (auto split: option.splits)
    then show ?thesis using \<open>starts p q n\<close> by (rule earned_starts)
  next
    case other: False
    with complete_oauth_starts [OF com _ False] key obtain u
      where "lookup_user_by_oauth p key (oi_id ident) = Some u" "starts p q (pu_username u)"
        "\<not> pu_disabled u" "\<not> managed_elsewhere u key"
      by auto
    then have "entitled L (Op_OAuth_Callback J scalar A g uri now rd key r) p (pu_username u)"
      using v other by simp
    then show ?thesis using \<open>starts p q (pu_username u)\<close> by (rule earned_starts)
  qed
qed (rule earned_calm)

lemma earned_token:
  assumes "handle_token_login L J A g now rd r p = (x, cs, q)"
  shows "earned L (Op_Token_Login J A g now rd r) p q"
proof (cases "calm p q")
  case False
  let ?tok = "trim_space (drop (length ''Bearer '') (wq_header r ''Authorization''))"
  from assms False obtain ident q1 u a b c d t where
    ident: "fetch_token_identity L J A (oc_userinfo_url (pg_oidc g)) ?tok = Some ident" "oi_id ident \<noteq> []"
    and adm: "admin_for_token_identity L rd r ident p = Some (q1, u)"
    and st: "start_session_with_csrf L now rd r (pu_username u) [] (record_audit a b c d q1) = (t, q)"
    by (auto simp: handle_token_login_def Let_def split: if_splits option.splits prod.splits)
  have "calm p q1 \<and> (case lookup_user_by_oauth p provider_oidc (oi_id ident) of
      Some w \<Rightarrow> w = u \<and> \<not> pu_disabled u | None \<Rightarrow> lookup_user p (pu_username u) = None)"
    using adm by (auto simp: admin_for_token_identity_def provision_oidc_user_def
        split: option.splits if_splits sum.splits intro!: calm_steps
        dest: calm_provision [OF calm_refl] provision_name_free)
  then have "entitled L (Op_Token_Login J A g now rd r) p (pu_username u)" and c: "calm p q1"
    using ident by (auto split: option.splits)
  then show ?thesis
    using starts_session_with_csrf [OF calm_steps(1) [OF c] st] by (intro earned_starts)
qed (rule earned_calm)

lemma after_earned: "earned L op p (after L op p)"
proof -
  have "earned L op p q" if "perform L op p = (x, cs, q)" for x cs q
  proof (cases op)
    case (Op_Own may now r a)
    then have "require_auth L now r p (\<lambda>u p1. post_with_csrf L r p1 (own_handler L (may u) now a r u)) = (x, cs, q)"
      using that by simp
    then show ?thesis
      by (intro earned_calm, elim calm_require_auth [OF calm_refl])
        (auto elim!: calm_post_with_csrf [rotated] intro: calm_own_handler)
  next
    case (Op_Managing may now r a)
    then have "require_auth L now r p
        (\<lambda>u p1. if \<not> can_do (may u) (managing_permission a) then (Status 403, [], p1)
                else post_with_csrf L r p1 (managing_handler L (may u) a r u)) = (x, cs, q)"
      using that by (simp add: require_perm_def)
    then show ?thesis
      by (intro earned_calm, elim calm_require_auth [OF calm_refl])
        (auto split: if_splits elim!: calm_post_with_csrf [rotated] intro: calm_managing_handler)
  next
    case (Op_OAuth_Login g now rd key r)
    then show ?thesis
      using that by (auto simp: handle_oauth_login_def begin_oauth_def Let_def
          split: prod.splits option.splits if_splits intro!: earned_calm dest: calm_session_user [OF calm_refl])
  next
    case (Op_Email_Verify now r)
    then show ?thesis
      using that by (auto simp: handle_email_verify_def Let_def
          split: prod.splits option.splits if_splits sum.splits intro!: earned_calm
          elim!: calm_session_user [rotated] intro: calm_steps elim: calm_update_user [OF calm_refl])
  next
    case (Op_Magic_Request on now rd r)
    then show ?thesis
      using that by (auto simp: handle_magic_link_request_def Let_def split: option.splits if_splits
          intro!: earned_calm calm_steps)
  next
    case (Op_Setup hash r)
    then show ?thesis
      using that by (auto simp: handle_setup_def Let_def split: option.splits if_splits sum.splits
          intro!: earned_calm elim: calm_tables(6) [OF calm_refl])
  next
    case (Op_Api_Key now key)
    then show ?thesis
      using that by (auto simp: valid_api_key_def split: option.splits if_splits intro!: earned_calm calm_steps)
  qed (use that in \<open>auto simp: revalidate_oidc_def
      intro: earned_login earned_magic earned_callback earned_token earned_calm calm_apply_revalidation\<close>)
  then show ?thesis by (metis after_def prod.collapse)
qed

end
