(* ===== verification/Portal_Lasting.thy ===== *)
theory Portal_Lasting
  imports Portal_Credentials
begin

text \<open>
  What lasts: a property of accounts and links that the single changes keep is kept by every handler,
  proved once in a locale, and two such properties: an account an administrator disabled stays
  disabled, and a link that is gone stays gone.
\<close>

section \<open>Tables the changes leave alone\<close>

definition same_tables :: "portal \<Rightarrow> portal \<Rightarrow> bool" where
  "same_tables p q \<longleftrightarrow> pt_users q = pt_users p \<and> pt_links q = pt_links p"

lemma same_tables_refl [simp]: "same_tables p p"
  by (simp add: same_tables_def)

lemma same_tables_steps [portal_frames]:
  "same_tables p (emit e q) = same_tables p q" "same_tables p (record_audit a b c d q) = same_tables p q"
  "same_tables p (bump_authz q) = same_tables p q" "same_tables p (close_tokens_of n q) = same_tables p q"
  "same_tables p (revoke_sessions L n k q) = same_tables p q"
  "same_tables p (delete_session L sid q) = same_tables p q"
  "same_tables p (sweep_sessions now q) = same_tables p q"
  "same_tables p (map_session h f q) = same_tables p q"
  "same_tables p (set_csrf L sid t q) = same_tables p q"
  "same_tables p (insert_binding rb q) = same_tables p q"
  "same_tables p (remove_team_member q t n) = same_tables p q"
  "same_tables p (touch_key now h q) = same_tables p q"
  "same_tables p (q\<lparr>pt_sessions := ss\<rparr>) = same_tables p q"
proof -
  have "pt_users (fold (\<lambda>(h, w). emit (Ev_Close_Token h)) ts q) = pt_users q" for ts :: "(string \<times> string) list"
    by (induction ts arbitrary: q) (auto simp: portal_frames)
  then have "pt_users (close_tokens_of n q) = pt_users q" by (simp add: close_tokens_of_def)
  then show "same_tables p (close_tokens_of n q) = same_tables p q" by (simp add: same_tables_def portal_frames)
qed (simp_all add: same_tables_def portal_frames revoke_sessions_def delete_session_def sweep_sessions_def
    map_session_def set_csrf_def insert_binding_def remove_team_member_def touch_key_def Let_def)

lemma same_tables_policy [portal_frames]: "same_tables p (delete_policy i q) = same_tables p q"
  by (simp add: same_tables_def delete_policy_def portal_frames)

lemma same_tables_create [portal_frames]:
  "same_tables p (create_session L now sid n ip agent q) = same_tables p q"
  by (simp add: create_session_def Let_def portal_frames)

lemma same_tables_session:
  "start_session_with_csrf L now rd r n csrf q = (t, q') \<Longrightarrow> same_tables q q'"
  "start_session L now rd r n q = (x, cs, q') \<Longrightarrow> same_tables q q'"
  "lookup_session L now sid q = (res, q') \<Longrightarrow> same_tables q q'"
  by (auto simp: start_session_def start_session_with_csrf_def lookup_session_def Let_def portal_frames
      split: if_splits option.splits) (auto simp: same_tables_def)

lemma same_tables_user: "session_user L now r q = (res, q') \<Longrightarrow> same_tables q q'"
  by (auto simp: session_user_def split: option.splits prod.splits dest: same_tables_session)

lemma same_tables_bindings:
  "bind_role q b = Inr r \<Longrightarrow> same_tables q r" "unbind_role q b = Inr r \<Longrightarrow> same_tables q r"
  "add_team_member q t n m = Inr r \<Longrightarrow> same_tables q r" "create_team L q a1 b1 c1 = Inr r \<Longrightarrow> same_tables q r"
  "set_team_disabled q t d = Inr r \<Longrightarrow> same_tables q r" "delete_team q t = Inr r \<Longrightarrow> same_tables q r"
  "delete_role q t = Inr r \<Longrightarrow> same_tables q r"
  by (auto simp: bind_role_def unbind_role_def add_team_member_def create_team_def set_team_disabled_def
      delete_team_def delete_role_def Let_def same_tables_def portal_frames split: if_splits option.splits)

section \<open>Who a revalidation is about\<close>

lemma revalidate_one_user: "revalidate_one L J A g p u = Some x \<Longrightarrow> rv_user x = u"
  by (auto simp: revalidate_one_def split: refresh_answer.splits if_splits)

lemma gather_user:
  assumes "x \<in> set (gather L J A g p)"
  shows "\<exists>n e. (n, e) \<in> set (pt_users p) \<and> rv_user x = ue_user e \<and> \<not> pu_disabled (ue_user e) \<and>
    pu_managed_by (ue_user e) = provider_oidc \<and> ue_refresh e \<noteq> []"
proof -
  from assms obtain u where "u \<in> set (managed_with_refresh p)" "revalidate_one L J A g p u = Some x"
    by (auto simp: gather_def map_filter_in)
  with revalidate_one_user show ?thesis by (fastforce simp: managed_with_refresh_def)
qed

section \<open>Keeping a property of accounts and links\<close>

text \<open>What an operation must not do for the property to last.\<close>

fun spares :: "(string \<Rightarrow> bool) \<Rightarrow> (string \<Rightarrow> bool) \<Rightarrow> portal_op \<Rightarrow> bool" where
  "spares fresh open_to (Op_Magic_Request on now rd r) = fresh (rd_token rd)"
| "spares fresh open_to (Op_Own may now r (Own_Email_Update on ok rd)) = fresh (rd_token rd)"
| "spares fresh open_to (Op_Own may now r (Own_Email_Resend on ok rd)) = fresh (rd_token rd)"
| "spares fresh open_to (Op_Managing may now r Managing_Enable) = open_to (wq_form r ''username'')"
| "spares fresh open_to (Op_Managing may now r Managing_Delete) = open_to (wq_form r ''username'')"
| "spares fresh open_to (Op_Late J scalar c xs) =
     list_all (\<lambda>x. rv_refused x = [] \<or> open_to (pu_username (rv_user x))) xs"
| "spares fresh open_to _ = True"

text \<open>
  \<open>I\<close> is the property; \<open>fresh\<close> the tokens that may be issued, \<open>open_to\<close> the accounts that may be
  enabled by hand, deleted, or disabled in the provider's name.
\<close>

locale portal_keeper =
  fixes L :: portal_lib and I :: "portal \<Rightarrow> bool" and fresh :: "string \<Rightarrow> bool" and open_to :: "string \<Rightarrow> bool"
  assumes same: "I p \<Longrightarrow> same_tables p q \<Longrightarrow> I q"
    and columns: "I p \<Longrightarrow> I (set_refresh_token n t p)" "I p \<Longrightarrow> I (map_entry n (ue_attrs_update g) p)"
    and update: "I p \<Longrightarrow> update_user L p n f = Inr q \<Longrightarrow> (\<And>u. pu_disabled (f u) = pu_disabled u) \<Longrightarrow> I q"
    and insert: "I p \<Longrightarrow> insert_violated (pt_users p) u = [] \<Longrightarrow> I (insert_user u p)"
    and unlink: "I p \<Longrightarrow> I (revoke_links n w p)" "I p \<Longrightarrow> I (spend_link L t p)"
    and link: "I p \<Longrightarrow> fresh t \<Longrightarrow> I (issue L now t n w m ttl p)"
    and disable: "I p \<Longrightarrow> set_disabled_by L p n True w = Inr q \<Longrightarrow> w = [] \<or> open_to n \<Longrightarrow> I q"
    and revive: "I p \<Longrightarrow> disabled_by p n = provider_oidc \<Longrightarrow> set_disabled_by L p n False [] = Inr q \<Longrightarrow> I q"
    and enable: "I p \<Longrightarrow> open_to n \<Longrightarrow> update_user L p n (pu_disabled_update (\<lambda>_. False)) = Inr q \<Longrightarrow> I q"
    and delete: "I p \<Longrightarrow> open_to n \<Longrightarrow> I (delete_rows n p)"
    and enabled_open: "I p \<Longrightarrow> (k, e) \<in> set (pt_users p) \<Longrightarrow> \<not> pu_disabled (ue_user e) \<Longrightarrow>
      open_to (pu_username (ue_user e))"
begin

lemma I_steps:
  "I q \<Longrightarrow> I (record_audit a b c d q)" "I q \<Longrightarrow> I (emit e q)" "I q \<Longrightarrow> I (bump_authz q)"
  "I q \<Longrightarrow> I (revoke_sessions L n k q)" "I q \<Longrightarrow> I (delete_session L sid q)"
  "I q \<Longrightarrow> I (close_tokens_of n q)" "I q \<Longrightarrow> I (insert_binding rb q)"
  "I q \<Longrightarrow> I (remove_team_member q n m)" "I q \<Longrightarrow> I (touch_key now h q)"
  "I q \<Longrightarrow> I (q\<lparr>pt_sessions := ss\<rparr>)" "I q \<Longrightarrow> I (delete_policy i q)"
  by (erule same; simp add: portal_frames)+

lemma I_try_update: "I q \<Longrightarrow> (\<And>u. pu_disabled (f u) = pu_disabled u) \<Longrightarrow> I (try_update L n f q)"
  by (auto simp: try_update_def split: sum.splits intro: update)

lemma I_attrs: "I q \<Longrightarrow> set_user_attrs q n attrs = Inr r \<Longrightarrow> I r"
  by (auto simp: set_user_attrs_def split: if_splits intro!: I_steps columns)

lemma I_fold: "I q \<Longrightarrow> (\<And>x q. x \<in> set xs \<Longrightarrow> I q \<Longrightarrow> I (f x q)) \<Longrightarrow> I (fold f xs q)"
  by (induction xs arbitrary: q) auto

lemma I_sync: "I q \<Longrightarrow> I (sync_managed_access L J scalar u c rs ident ip q)"
proof -
  have attrs: "I (sync_attrs J scalar c n claims q)" if "I q" for n claims q
    using that by (auto simp: sync_attrs_def Let_def split: sum.splits intro: I_attrs)
  have bound: "I (sync_bind n ip' r q)" "I (sync_unbind n ip' r q)" "I (sync_team n ip' ms is r q)"
    if "I q" for n ip' r q ms "is"
    using that by (auto simp: sync_bind_def sync_unbind_def sync_team_def split: sum.splits intro!: I_steps
        dest!: same_tables_bindings intro: same)
  show "I q \<Longrightarrow> ?thesis"
    unfolding sync_managed_access_def sync_roles_def Let_def
    by (auto split: prod.splits intro!: attrs I_fold bound)
qed

lemma I_insert_role: "I q \<Longrightarrow> I (bind_initial_role n role q)"
  by (simp add: bind_initial_role_def Let_def I_steps)

lemma I_provision: "I q \<Longrightarrow> provision_loop L q base role ident tok is = Inr (r, u) \<Longrightarrow> I r"
  by (induction "is") (auto simp: Let_def split: if_splits option.splits intro!: I_insert_role insert)

lemma I_new_user:
  "I q \<Longrightarrow> add_user q u role = Inr r \<Longrightarrow> I r" "I q \<Longrightarrow> add_first_admin q u = Inr r \<Longrightarrow> I r"
  by (auto simp: add_user_def add_first_admin_def Let_def insert_violated_def violated_iff index_clash_def
      split: if_splits intro!: I_insert_role insert I_steps)

lemma I_delete_user: "I q \<Longrightarrow> open_to n \<Longrightarrow> delete_user q a n = Inr r \<Longrightarrow> I r"
  by (auto simp: delete_user_def drop_isolation_policies_def split: if_splits option.splits prod.splits
      intro!: I_steps delete)

lemmas I_bindings = same [OF _ same_tables_bindings(1)] same [OF _ same_tables_bindings(2)]
  same [OF _ same_tables_bindings(3)] same [OF _ same_tables_bindings(4)] same [OF _ same_tables_bindings(5)]
  same [OF _ same_tables_bindings(6)] same [OF _ same_tables_bindings(7)]

lemma I_start: "I q \<Longrightarrow> start_session L now rd r n q = (x, cs, q') \<Longrightarrow> I q'"
  using same same_tables_session(2) by blast

lemma I_user: "I q \<Longrightarrow> session_user L now r q = (res, q') \<Longrightarrow> I q'"
  using same same_tables_user by blast

lemma I_update_result:
  "I q \<Longrightarrow> (\<And>u. pu_disabled (f u) = pu_disabled u) \<Longrightarrow> update_user L q n f = Inr r \<Longrightarrow> I r"
  by (rule update)

lemma I_own:
  assumes I: "I q" and run: "own_handler L may now a r u q = (x, cs, q')"
    and ok: "spares fresh open_to (Op_Own w now r a)"
  shows "I q'"
proof -
  have looked: "I q1" if "lookup_session L now c q = (n, q1)" for c n q1
    using same [OF I same_tables_session(3) [OF that]] .
  have sent: "I q2" if "send_verification L ok' now rd n e q1 = (y, c1, q2)" "I q1" "fresh (rd_token rd)"
    for ok' rd n e q1 y c1 q2
    using that by (auto simp: send_verification_def Let_def split: if_splits intro!: I_steps link unlink)
  show ?thesis
    using I run ok
    by (cases a)
      (auto simp: handle_logout_def handle_change_password_def handle_session_revoke_def handle_email_update_def
        handle_email_resend_def begin_oauth_def handle_oauth_unlink_def
        handle_team_create_def handle_team_member_add_def handle_team_member_remove_def handle_team_state_def
        Let_def split: if_splits option.splits sum.splits prod.splits
        intro!: I_steps unlink elim!: I_update_result [rotated 2] sent I_bindings [rotated] simp: mild_def dest!: provider_for_mild
        dest: looked)
qed

lemma I_managing:
  assumes I: "I q" and run: "managing_handler L may a r u q = (x, cs, q')"
    and ok: "spares fresh open_to (Op_Managing w now r a)"
  shows "I q'"
proof (cases a)
  case Managing_Enable
  then show ?thesis
    using assms by (auto simp: handle_user_enable_def Let_def split: if_splits option.splits sum.splits
        intro!: I_steps elim: enable)
next
  case Managing_Disable
  then show ?thesis
    using assms by (auto simp: handle_user_disable_def Let_def split: if_splits option.splits sum.splits
        intro!: I_steps elim: disable)
qed (use assms in \<open>auto simp: handle_add_user_def
      handle_user_reset_password_def handle_user_delete_def handle_user_role_add_def
      handle_user_role_remove_def handle_user_attrs_def handle_user_sign_out_def handle_role_delete_def
      Let_def split: if_splits option.splits sum.splits prod.splits
      intro!: I_steps elim!: I_update_result [rotated 2] I_bindings [rotated]
        I_new_user [rotated] I_delete_user [rotated 2] I_attrs [rotated]\<close>)

lemma I_finish: "I q \<Longrightarrow> finish_oidc_login L J scalar c now rd r rs ident u q = (x, cs, q') \<Longrightarrow> I q'"
  unfolding finish_oidc_login_def Let_def
  by (elim I_start [rotated]) (auto intro!: I_steps columns I_try_update I_sync)

lemma I_account: "I q \<Longrightarrow> account_for_oidc L c rd r v rs ident q = Inr (q', u) \<Longrightarrow> I q'"
  by (auto simp: account_for_oidc_def provision_oidc_user_def split: option.splits if_splits sum.splits
      intro!: I_steps elim: I_provision)

lemma I_oidc: "I q \<Longrightarrow> complete_oidc_login L J scalar c now rd r v ident q = (x, cs, q') \<Longrightarrow> I q'"
  by (auto simp: complete_oidc_login_def split: prod.splits if_splits sum.splits
      dest: I_account intro!: I_steps elim!: I_finish [rotated] intro: revive)

lemma I_oauth:
  assumes "I q" and "mild v" and "complete_oauth_login L J scalar c now rd r v ident q = (x, cs, q')"
  shows "I q'"
proof (cases "op_key v = provider_oidc")
  case True
  then show ?thesis using assms I_oidc by (simp add: complete_oauth_login_def)
next
  case False
  then show ?thesis
    using assms by (auto simp: complete_oauth_login_def Let_def mild_def split: option.splits if_splits
        elim!: I_start [rotated] intro!: I_steps I_try_update)
qed

lemma I_link_flow:
  assumes "I q" and "mild v" and "complete_oauth_link L now r v ident q = (x, cs, q')"
  shows "I q'"
proof (cases "session_user L now r q")
  case (Pair who q1)
  have "I q1" using assms(1) Pair by (rule I_user)
  then show ?thesis
    using assms(2,3) Pair by (auto simp: complete_oauth_link_def mild_def split: option.splits sum.splits
        intro!: I_steps elim!: I_update_result [rotated 2])
qed

lemma I_failure:
  assumes "I q" and "oauth_failure L now r m msg q = (x, q')"
  shows "I q'"
proof (cases "session_user L now r q")
  case (Pair who q1)
  have "I q1" using assms(1) Pair by (rule I_user)
  then show ?thesis using assms Pair by (auto simp: oauth_failure_def split: if_splits option.splits)
qed

lemma I_callback:
  assumes I: "I q" and call: "handle_oauth_callback L J scalar A g uri now rd key r q = (x, cs, q')"
  shows "I q'"
proof (cases "provider_for g key")
  case None
  then show ?thesis using assms by (auto simp: handle_oauth_callback_def provider_ready_def)
next
  case (Some v)
  note mild = provider_for_mild [OF this]
  have parts: "oauth_failure L now r m msg q = (y, q1) \<Longrightarrow> I q1"
    "complete_oauth_link L now r v ident q = (y1, c1, q1) \<Longrightarrow> I q1"
    "complete_oauth_login L J scalar (pg_oidc g) now rd r v ident q = (y1, c1, q1) \<Longrightarrow> I q1"
    for m msg y ident y1 c1 q1
    using I mild by (blast intro: I_failure I_link_flow I_oauth)+
  show ?thesis
    using assms Some by (auto simp: handle_oauth_callback_def provider_ready_def Let_def
        split: if_splits option.splits prod.splits dest: parts)
qed

lemma I_admin: "I q \<Longrightarrow> admin_for_token_identity L rd r ident q = Some (q1, u) \<Longrightarrow> I q1"
  by (auto simp: admin_for_token_identity_def provision_oidc_user_def
      split: if_splits option.splits sum.splits intro!: I_steps elim: I_provision)

lemma I_token:
  assumes I: "I q" and tok: "handle_token_login L J A g now rd r q = (x, cs, q')"
  shows "I q'"
proof -
  have "I q2" if "admin_for_token_identity L rd r ident q = Some (q1, u)"
    "start_session_with_csrf L now rd r n csrf (record_audit a b c d q1) = (t, q2)" for ident q1 u n csrf a b c d t q2
    using same [OF I_steps(1) [OF I_admin [OF I that(1)]] same_tables_session(1) [OF that(2)]] .
  then show ?thesis
    using I tok by (auto simp: handle_token_login_def Let_def split: if_splits option.splits prod.splits)
qed

lemma I_apply_one:
  "I q \<Longrightarrow> rv_refused x = [] \<or> open_to (pu_username (rv_user x)) \<Longrightarrow> I (apply_one L J scalar c x q)"
  by (auto simp: apply_one_def disable_by_provider_def Let_def split: sum.splits
      intro!: I_steps columns I_sync elim: disable)

lemma I_apply:
  "I q \<Longrightarrow> list_all (\<lambda>x. rv_refused x = [] \<or> open_to (pu_username (rv_user x))) xs \<Longrightarrow>
     I (apply_revalidation L J scalar c xs q)"
  by (auto simp: apply_revalidation_def list_all_iff intro!: I_fold I_apply_one)

lemma I_revalidate: "I q \<Longrightarrow> I (revalidate_oidc L J scalar A g q)"
  unfolding revalidate_oidc_def
proof (rule I_apply)
  assume I: "I q"
  show "list_all (\<lambda>x. rv_refused x = [] \<or> open_to (pu_username (rv_user x))) (gather L J A g q)"
    using enabled_open [OF I] gather_user [of _ L J A g q] by (fastforce simp: list_all_iff)
qed

lemma I_require_auth:
  assumes "I q" and "require_auth L now r q h = (x, cs, q')"
    and "\<And>u q1 y c1 q2. I q1 \<Longrightarrow> h u q1 = (y, c1, q2) \<Longrightarrow> I q2"
  shows "I q'"
  using assms by (auto simp: require_auth_def split: prod.splits option.splits if_splits dest: I_user)

lemma I_post_with_csrf:
  assumes "I q" and "post_with_csrf L r q h = (x, cs, q')" and "\<And>y c1 q2. h q = (y, c1, q2) \<Longrightarrow> I q2"
  shows "I q'"
  using assms by (auto simp: post_with_csrf_def Let_def split: option.splits if_splits)

lemma I_after:
  assumes I: "I p" and ok: "spares fresh open_to op"
  shows "I (after L op p)"
proof -
  note assms = I ok
  have "I q" if "perform L op p = (x, cs, q)" for x cs q
  proof (cases op)
    case (Op_Own may now r a)
    then have "require_auth L now r p (\<lambda>u p1. post_with_csrf L r p1 (own_handler L (may u) now a r u)) = (x, cs, q)"
      using that by simp
    from I this show ?thesis
    proof (rule I_require_auth)
      fix u q1 y c1 q2
      assume "I q1" "post_with_csrf L r q1 (own_handler L (may u) now a r u) = (y, c1, q2)"
      then show "I q2" using I_own ok Op_Own by (blast intro: I_post_with_csrf)
    qed
  next
    case (Op_Managing may now r a)
    then have "require_auth L now r p
        (\<lambda>u p1. if \<not> can_do (may u) (managing_permission a) then (Status 403, [], p1)
                else post_with_csrf L r p1 (managing_handler L (may u) a r u)) = (x, cs, q)"
      using that by (simp add: require_perm_def)
    from I this show ?thesis
    proof (rule I_require_auth)
      fix u q1 y c1 q2
      assume q1: "I q1" and "(if \<not> can_do (may u) (managing_permission a) then (Status 403, [], q1)
          else post_with_csrf L r q1 (managing_handler L (may u) a r u)) = (y, c1, q2)"
      then consider "q2 = q1" | "post_with_csrf L r q1 (managing_handler L (may u) a r u) = (y, c1, q2)"
        by (auto split: if_splits)
      then show "I q2"
        using q1 I_managing ok Op_Managing by cases (blast intro: I_post_with_csrf)+
    qed
  next
    case (Op_Magic_Verify now rd r)
    then show ?thesis
      using that assms by (auto simp: handle_magic_link_verify_def consume_link_def Let_def
          split: if_splits option.splits elim!: I_start [rotated] intro!: I_steps unlink)
  next
    case (Op_Magic_Request on now rd r)
    then show ?thesis
      using that assms by (auto simp: handle_magic_link_request_def Let_def
          split: if_splits option.splits intro!: I_steps unlink link)
  next
    case (Op_Email_Verify now r)
    then show ?thesis
      using that assms by (auto simp: handle_email_verify_def Let_def
          split: if_splits option.splits sum.splits prod.splits elim!: I_user [rotated]
          intro!: I_steps elim!: I_update_result [rotated 2])
  next
    case (Op_OAuth_Login g now rd key r)
    then show ?thesis
      using that assms by (auto simp: handle_oauth_login_def begin_oauth_def Let_def
          split: if_splits option.splits prod.splits dest: I_user)
  qed (use that assms in \<open>auto simp: handle_login_def handle_setup_def valid_api_key_def Let_def
      split: if_splits option.splits prod.splits sum.splits
      dest: I_callback I_token intro: I_revalidate I_apply intro!: I_steps
      elim!: I_start [rotated] I_new_user(2) [rotated]\<close>)
  then show ?thesis by (metis after_def prod.collapse)
qed

lemma I_run: "I p \<Longrightarrow> list_all (spares fresh open_to) ops \<Longrightarrow> I (portal_run L ops p)"
  unfolding portal_run_def by (rule I_fold) (auto simp: list_all_iff intro: I_after)

end

section \<open>Disabled by an administrator\<close>

lemma mget_map_entry:
  "mget (pt_users (map_entry m f p)) n = (if n = m then map_option f (mget (pt_users p) n) else mget (pt_users p) n)"
proof -
  have "mget (map (\<lambda>(k, e). if k = m then (k, f e) else (k, e)) us) n =
    (if n = m then map_option f (mget us n) else mget us n)" for us
    by (induction us) auto
  then show ?thesis by (simp add: map_entry_def)
qed

lemma keys_map_entry [simp]: "map fst (pt_users (map_entry m f p)) = map fst (pt_users p)"
proof -
  have "map fst (map (\<lambda>(k, e). if k = m then (k, f e) else (k, e)) us) = map fst us" for us
    by (induction us) auto
  then show ?thesis by (simp add: map_entry_def del: map_map)
qed

definition well_keyed :: "portal \<Rightarrow> bool" where
  "well_keyed p \<longleftrightarrow>
     wf_map (pt_users p) \<and> (\<forall>n e. mget (pt_users p) n = Some e \<longrightarrow> pu_username (ue_user e) = n)"

definition held_off :: "string \<Rightarrow> portal \<Rightarrow> bool" where
  "held_off n p \<longleftrightarrow>
     (case mget (pt_users p) n of
        None \<Rightarrow> False
      | Some e \<Rightarrow> pu_disabled (ue_user e) \<and> ue_disabled_by e \<noteq> provider_oidc)"

definition off_for_good :: "string \<Rightarrow> portal \<Rightarrow> bool" where
  "off_for_good n p \<longleftrightarrow> held_off n p \<and> well_keyed p"

lemma well_keyed_map_entry:
  "well_keyed p \<Longrightarrow> (\<And>e. mget (pt_users p) m = Some e \<Longrightarrow> pu_username (ue_user (f e)) = m) \<Longrightarrow>
     well_keyed (map_entry m f p)"
  by (auto simp: well_keyed_def mget_map_entry split: if_splits)

lemma same_users_cong:
  "pt_users q = pt_users p \<Longrightarrow> held_off n q = held_off n p \<and> well_keyed q = well_keyed p"
  by (simp add: held_off_def well_keyed_def)

text \<open>The users after an update: one entry is rewritten.\<close>

lemma update_user_entries:
  assumes "update_user L p m f = Inr q"
  shows "\<exists>e. mget (pt_users p) m = Some e \<and>
    pt_users q = pt_users (map_entry m (\<lambda>e'. e'\<lparr>ue_user := (prepared_user L f (ue_user e))\<lparr>pu_username := m\<rparr>,
      ue_disabled_by := (if \<not> pu_disabled (f (ue_user e)) \<and> pu_disabled (ue_user e) then [] else ue_disabled_by e')\<rparr>) p)"
proof -
  have twice: "map (\<lambda>(n, e). if n = m then (n, g e) else (n, e)) (map (\<lambda>(n, e). if n = m then (n, f e) else (n, e)) us) =
    map (\<lambda>(n, e). if n = m then (n, g (f e)) else (n, e)) us" for f g :: "user_entry \<Rightarrow> user_entry" and us
    by (induction us) auto
  from assms obtain u where u: "lookup_user p m = Some u"
    and w: "write_user L p m u (prepared_user L f u) = Inr q"
    by (auto simp: update_user_def split: option.splits)
  then obtain e where e: "mget (pt_users p) m = Some e" "u = ue_user e" by (auto simp: lookup_user_def)
  show ?thesis
    using w e by (auto simp: write_user_def Let_def portal_frames revoke_sessions_def map_entry_def twice
        emit_def split: if_splits)
qed

lemma off_update:
  assumes off: "off_for_good n p" and up: "update_user L p m f = Inr q"
    and stays: "m = n \<Longrightarrow> (\<And>u. pu_disabled u \<Longrightarrow> pu_disabled (f u))"
  shows "off_for_good n q"
proof -
  from update_user_entries [OF up] obtain e where e: "mget (pt_users p) m = Some e"
    and q: "pt_users q = pt_users (map_entry m (\<lambda>e'. e'\<lparr>ue_user := (prepared_user L f (ue_user e))\<lparr>pu_username := m\<rparr>,
      ue_disabled_by := (if \<not> pu_disabled (f (ue_user e)) \<and> pu_disabled (ue_user e) then [] else ue_disabled_by e')\<rparr>) p)"
    by blast
  have "well_keyed q"
    using off same_users_cong [OF q] by (auto simp: off_for_good_def intro: well_keyed_map_entry)
  moreover have "held_off n q"
    using off stays e unfolding off_for_good_def same_users_cong [OF q, THEN conjunct1]
    by (auto simp: held_off_def mget_map_entry split: option.splits)
  ultimately show ?thesis by (simp add: off_for_good_def)
qed

lemma off_columns:
  "off_for_good n p \<Longrightarrow> off_for_good n (set_refresh_token m t p)"
  "off_for_good n p \<Longrightarrow> off_for_good n (map_entry m (ue_attrs_update g) p)"
  by (auto simp: off_for_good_def held_off_def set_refresh_token_def mget_map_entry well_keyed_def
      split: option.splits if_splits)

lemma off_set_disabled:
  assumes off: "off_for_good n p" and dis: "set_disabled_by L p m d w = Inr q"
    and stays: "m = n \<Longrightarrow> d \<and> w \<noteq> provider_oidc"
  shows "off_for_good n q"
proof -
  from dis obtain q1 where up: "update_user L p m (pu_disabled_update (\<lambda>_. d)) = Inr q1"
    and q: "q = (let p2 = map_entry m (ue_disabled_by_update (\<lambda>_. if d then w else [])) q1
                 in if d then set_refresh_token m [] p2 else p2)"
    by (auto simp: set_disabled_by_def Let_def split: sum.splits)
  have "off_for_good n q1" using off up by (rule off_update) (use stays in auto)
  then have "off_for_good n (map_entry m (ue_disabled_by_update (\<lambda>_. if d then w else [])) q1)"
    using stays by (auto simp: off_for_good_def held_off_def mget_map_entry well_keyed_def
        split: option.splits if_splits)
  then show ?thesis unfolding q Let_def by (auto intro: off_columns)
qed

lemma mget_insert_user:
  "mget (pt_users p) (pu_username u) = None \<Longrightarrow>
     mget (pt_users (insert_user u p)) n = (if n = pu_username u then Some (new_entry u) else mget (pt_users p) n)"
  by (simp add: insert_user_def map_add_def split: option.splits)

lemma off_insert:
  assumes off: "off_for_good n p" and fresh: "insert_violated (pt_users p) u = []"
  shows "off_for_good n (insert_user u p)"
proof -
  have none: "mget (pt_users p) (pu_username u) = None"
    using fresh by (simp add: insert_violated_def split: if_splits)
  then have "pu_username u \<noteq> n" using off by (auto simp: off_for_good_def held_off_def)
  then have "held_off n (insert_user u p)"
    using off by (auto simp: off_for_good_def held_off_def mget_insert_user [OF none])
  moreover have "well_keyed (insert_user u p)"
  proof -
    have "wf_map (pt_users (insert_user u p))"
      using off none by (simp add: off_for_good_def well_keyed_def insert_user_def mget_None_iff)
    then show ?thesis
      using off by (simp add: off_for_good_def well_keyed_def mget_insert_user [OF none] new_entry_def)
  qed
  ultimately show ?thesis by (simp add: off_for_good_def)
qed

lemma off_delete: "off_for_good n p \<Longrightarrow> m \<noteq> n \<Longrightarrow> off_for_good n (delete_rows m p)"
  by (auto simp: off_for_good_def held_off_def well_keyed_def delete_rows_def gomap_simps split: option.splits if_splits)

lemma off_enabled:
  assumes off: "off_for_good n p" and e: "(k, e) \<in> set (pt_users p)" and on: "\<not> pu_disabled (ue_user e)"
  shows "pu_username (ue_user e) \<noteq> n"
proof
  assume n: "pu_username (ue_user e) = n"
  have wf: "wf_map (pt_users p)" and keys: "\<And>m d. mget (pt_users p) m = Some d \<Longrightarrow> pu_username (ue_user d) = m"
    using off by (simp_all add: off_for_good_def well_keyed_def)
  have "mget (pt_users p) k = Some e" using wf e by (rule mget_in)
  with keys n have "mget (pt_users p) n = Some e" by blast
  then show False using off on by (simp add: off_for_good_def held_off_def)
qed

lemma off_links:
  "off_for_good n (revoke_links m w p) = off_for_good n p" "off_for_good n (spend_link L t p) = off_for_good n p"
  "off_for_good n (issue L now t m w e ttl p) = off_for_good n p"
  by (simp_all add: off_for_good_def held_off_def well_keyed_def revoke_links_def spend_link_def issue_def)

interpretation off: portal_keeper L "off_for_good n" "\<lambda>t. True" "\<lambda>m. m \<noteq> n" for L n
proof unfold_locales
  show "off_for_good n q" if "off_for_good n p" "same_tables p q" for p q
    using that same_users_cong [of q p n] by (simp only: same_tables_def off_for_good_def)
  show "off_for_good n q" if "off_for_good n p" "update_user L p m f = Inr q"
    "\<And>u. pu_disabled (f u) = pu_disabled u" for p m f q
    using that by (auto intro: off_update)
  show "off_for_good n q" if "off_for_good n p" "set_disabled_by L p m True w = Inr q" "w = [] \<or> m \<noteq> n" for p m w q
    using that off_set_disabled [of n p L m True w q] by (auto simp: provider_oidc_def)
  show "off_for_good n q" if "off_for_good n p" "disabled_by p m = provider_oidc"
    "set_disabled_by L p m False [] = Inr q" for p m q
  proof -
    have "m \<noteq> n" using that(1,2) by (auto simp: off_for_good_def held_off_def disabled_by_def split: option.splits)
    with that(1,3) show ?thesis by (blast intro: off_set_disabled)
  qed
  show "off_for_good n q" if "off_for_good n p" "m \<noteq> n"
    "update_user L p m (pu_disabled_update (\<lambda>_. False)) = Inr q" for p m q
    using that by (auto intro: off_update)
  show "pu_username (ue_user e) \<noteq> n" if "off_for_good n p" "(k, e) \<in> set (pt_users p)"
    "\<not> pu_disabled (ue_user e)" for p k e
    using that by (rule off_enabled)
qed (simp_all add: off_links off_columns off_insert off_delete)

section \<open>A link that is gone\<close>

definition link_gone :: "string \<Rightarrow> portal \<Rightarrow> bool" where
  "link_gone h p \<longleftrightarrow> mget (pt_links p) h = None"

lemma mget_filter_None: "mget m k = None \<Longrightarrow> mget (filter P m) k = None"
  by (induction m) auto

lemma link_gone_links: "pt_links q = pt_links p \<Longrightarrow> link_gone h q = link_gone h p"
  by (simp add: link_gone_def)

lemma link_gone_disabled: "link_gone h p \<Longrightarrow> set_disabled_by L p m d w = Inr q \<Longrightarrow> link_gone h q"
  by (auto simp: set_disabled_by_def Let_def link_gone_def set_refresh_token_def portal_frames
      split: sum.splits if_splits elim!: update_user_frames)

interpretation gone: portal_keeper L "link_gone h" "\<lambda>t. pl_sha L t \<noteq> h" "\<lambda>m. True" for L h
  by unfold_locales
    (auto simp: link_gone_def same_tables_def set_refresh_token_def portal_frames revoke_links_def spend_link_def
      issue_def sweep_links_def delete_rows_def mget_filter_None gomap_simps
      elim: update_user_frames intro: link_gone_disabled [unfolded link_gone_def])

end
