(* ===== verification/Portal_Authority.thy ===== *)
theory Portal_Authority
  imports Portal_Lasting
begin

text \<open>
  Authority over accounts: what a managing action may touch, whom a revalidation disables, and the
  roles an account has after following the identity provider.
\<close>

section \<open>Accounts a step does not touch\<close>

definition untouched :: "string \<Rightarrow> portal \<Rightarrow> portal \<Rightarrow> bool" where
  "untouched n p q \<longleftrightarrow> lookup_user q n = lookup_user p n \<and> global_roles q n = global_roles p n"

lemma untouched_refl [simp]: "untouched n p p"
  by (simp add: untouched_def)

lemma untouched_trans: "untouched n p q \<Longrightarrow> untouched n q r \<Longrightarrow> untouched n p r"
  by (simp add: untouched_def)

lemma untouched_same:
  assumes "untouched n p q" and "accounts r = accounts q" and "pt_bindings r = pt_bindings q"
  shows "untouched n p r"
  using assms by (simp add: untouched_def lookup_user_accounts global_roles_def)

named_theorems untouched_intros \<open>steps that leave an account alone\<close>

lemma untouched_steps [untouched_intros]:
  "untouched n p q \<Longrightarrow> untouched n p (record_audit a b c d q)" "untouched n p q \<Longrightarrow> untouched n p (bump_authz q)"
  "untouched n p q \<Longrightarrow> untouched n p (revoke_sessions L m k q)"
  "untouched n p q \<Longrightarrow> untouched n p (close_tokens_of m q)"
  "untouched n p q \<Longrightarrow> untouched n p (map_entry m (ue_disabled_by_update g) q)"
  "untouched n p q \<Longrightarrow> untouched n p (set_refresh_token m t q)"
  "untouched n p q \<Longrightarrow> untouched n p (map_entry m (ue_attrs_update h) q)"
  "untouched n p q \<Longrightarrow> untouched n p (emit e q)"
  by (erule untouched_same; simp add: portal_frames set_refresh_token_def)+

lemma untouched_delete_policy [untouched_intros]: "untouched n p q \<Longrightarrow> untouched n p (delete_policy i q)"
  unfolding delete_policy_def by (rule untouched_intros, erule untouched_same; simp add: portal_frames)

lemma untouched_update: "untouched n p q \<Longrightarrow> m \<noteq> n \<Longrightarrow> update_user L q m f = Inr r \<Longrightarrow> untouched n p r"
  by (erule update_user_frames)
    (simp add: untouched_def lookup_user_accounts global_roles_def mget_amap)

lemma untouched_set_disabled:
  "untouched n p q \<Longrightarrow> m \<noteq> n \<Longrightarrow> set_disabled_by L q m d w = Inr r \<Longrightarrow> untouched n p r"
  by (auto simp: set_disabled_by_def Let_def split: sum.splits if_splits intro!: untouched_intros
      elim: untouched_update)

lemma untouched_bindings:
  assumes "untouched n p q" and "accounts r = accounts q"
    and "filter (\<lambda>b. rb_principal b = user_principal n) (pt_bindings r) =
         filter (\<lambda>b. rb_principal b = user_principal n) (pt_bindings q)"
  shows "untouched n p r"
proof -
  have "global_roles s n =
      map rb_role (filter (\<lambda>b. rb_team b = []) (filter (\<lambda>b. rb_principal b = user_principal n) (pt_bindings s)))" for s
    by (simp add: global_roles_def conj_commute)
  then have "global_roles r n = global_roles q n" by (simp only: assms(3))
  then show ?thesis using assms(1,2) by (simp add: untouched_def lookup_user_accounts)
qed

lemma untouched_insert_binding:
  "untouched n p q \<Longrightarrow> m \<noteq> n \<Longrightarrow> untouched n p (insert_binding (global_role (user_principal m) r) q)"
  by (erule untouched_bindings) (auto simp: insert_binding_def global_role_def portal_frames)

lemma untouched_bind: "untouched n p q \<Longrightarrow> m \<noteq> n \<Longrightarrow> bind_role q (global_role (user_principal m) r) = Inr s \<Longrightarrow>
     untouched n p s"
  by (auto simp: bind_role_def split: option.splits intro!: untouched_intros untouched_insert_binding)

lemma untouched_unbind: "untouched n p q \<Longrightarrow> m \<noteq> n \<Longrightarrow> unbind_role q (global_role (user_principal m) r) = Inr s \<Longrightarrow>
     untouched n p s"
  by (auto simp: unbind_role_def split: option.splits intro!: untouched_intros elim!: untouched_bindings)
    (auto simp: portal_frames global_role_def intro!: filter_cong)

lemma untouched_delete_rows:
  assumes "untouched n p q" and "m \<noteq> n"
  shows "untouched n p (delete_rows m q)"
proof -
  have "filter (\<lambda>b. rb_principal b = user_principal n \<and> rb_team b = []) (pt_bindings (delete_rows m q)) =
      filter (\<lambda>b. rb_principal b = user_principal n \<and> rb_team b = []) (pt_bindings q)"
    using assms(2) by (auto simp: delete_rows_def intro!: filter_cong)
  then have "global_roles (delete_rows m q) n = global_roles q n" by (simp only: global_roles_def)
  moreover have "lookup_user (delete_rows m q) n = lookup_user q n"
    using assms(2) by (simp add: lookup_user_accounts accounts_delete_rows gomap_simps)
  ultimately show ?thesis using assms(1) by (simp add: untouched_def)
qed

lemma untouched_delete: "untouched n p q \<Longrightarrow> m \<noteq> n \<Longrightarrow> delete_user q a m = Inr r \<Longrightarrow> untouched n p r"
  by (auto simp: delete_user_def drop_isolation_policies_def split: if_splits option.splits prod.splits
      intro!: untouched_intros untouched_delete_rows)

lemma untouched_add:
  assumes "untouched n p q" and "lookup_user p n \<noteq> None" and "add_user q u role = Inr r"
  shows "untouched n p r"
proof -
  have taken: "mget (pt_users q) n \<noteq> None" using assms(1,2) by (auto simp: untouched_def lookup_user_def)
  have "pu_username u \<noteq> n"
    using assms(3) taken by (auto simp: add_user_def Let_def insert_violated_def new_user_def split: if_splits)
  moreover have "untouched n p (insert_user v q)" if "pu_username v \<noteq> n" for v
    using assms(1) that by (auto simp: untouched_def lookup_user_accounts portal_frames global_roles_def
        map_add_def split: option.splits)
  ultimately show ?thesis
    using assms(3) by (auto simp: add_user_def bind_initial_role_def Let_def new_user_def split: if_splits
        intro!: untouched_intros untouched_insert_binding)
qed

section \<open>Managing actions\<close>

definition target_of :: "web_request \<Rightarrow> string" where "target_of r = wq_form r ''username''"

lemma untouched_managing:
  assumes run: "managing_handler L may a r u p = (x, cs, q)" and there: "lookup_user p n \<noteq> None"
    and a: "a \<noteq> Managing_Role_Delete" and other: "n \<noteq> target_of r"
  shows "untouched n p q"
proof -
  note other = other [unfolded target_of_def]
  have start: "untouched n p p" by simp
  show ?thesis
    using run a other start
    by (cases a)
      (auto simp: handle_add_user_def handle_user_disable_def handle_user_enable_def
        handle_user_reset_password_def handle_user_delete_def handle_user_role_add_def
        handle_user_role_remove_def handle_user_attrs_def handle_user_sign_out_def set_user_attrs_def
        Let_def split: if_splits option.splits sum.splits prod.splits
        intro!: untouched_intros
        elim!: untouched_update [rotated 2] untouched_set_disabled [rotated 2] untouched_bind [rotated 2]
          untouched_unbind [rotated 2] untouched_delete [rotated 2] untouched_add [OF _ there, rotated])
qed

lemma refused_managing:
  assumes run: "managing_handler L may a r u p = (x, cs, q)" and there: "lookup_user p (target_of r) \<noteq> None"
    and a: "a \<noteq> Managing_Role_Delete"
    and no: "user_change_refused may (user_principal (pu_username u)) p (target_of r) \<noteq> None"
  shows "untouched (target_of r) p q"
proof (cases a)
  case (Managing_Add hash)
  then show ?thesis
    using run by (auto simp: handle_add_user_def Let_def split: if_splits option.splits sum.splits
        intro!: untouched_intros elim!: untouched_add [OF _ there, rotated])
qed (use run a no in \<open>auto simp: handle_user_disable_def handle_user_enable_def
        handle_user_reset_password_def handle_user_delete_def handle_user_role_add_def
        handle_user_role_remove_def handle_user_attrs_def handle_user_sign_out_def role_change_refused_def
        target_of_def Let_def split: if_splits option.splits\<close>)

text \<open>\<open>session_user\<close> touches sessions alone.\<close>

lemma session_user_roles: "session_user L now r p = (w, q) \<Longrightarrow> pt_roles q = pt_roles p \<and> untouched n p q"
proof -
  have "pt_roles q = pt_roles p \<and> pt_users q = pt_users p \<and> pt_bindings q = pt_bindings p"
    if "lookup_session L now c p = (k, q)" for c k q
    using that by (auto simp: lookup_session_def Let_def delete_session_def map_session_def
        split: if_splits option.splits)
  then show "session_user L now r p = (w, q) \<Longrightarrow> ?thesis"
    by (force simp: session_user_def untouched_def lookup_user_def global_roles_def
        split: option.splits prod.splits)
qed

lemma may_change_same:
  assumes "pt_roles q = pt_roles p" and "untouched n p q"
  shows "user_change_refused may self q n = user_change_refused may self p n"
proof -
  have "can_grant_role may self q = can_grant_role may self p"
    unfolding fun_eq_iff can_grant_role_def role_permissions_def assms(1) by (intro allI refl)
  then show ?thesis using assms(2) by (simp add: user_change_refused_def is_owner_def untouched_def)
qed

lemma user_change_allowed:
  "user_change_refused may self p n = None \<longleftrightarrow>
     (\<not> is_owner p n \<or> can_do may ''owner.manage'') \<and> list_all (can_grant_role may self p) (global_roles p n)"
  by (auto simp: user_change_refused_def list_all_iff split: option.split)
    (metis find_None_iff option.distinct(1))+

lemma managing_reaches_handler:
  assumes "after L (Op_Managing may now r a) p = q"
  shows "(\<exists>w. session_user L now r p = (w, q)) \<or>
    (\<exists>u p1 x cs. session_user L now r p = (Some u, p1) \<and> can_do (may u) (managing_permission a) \<and>
       managing_handler L (may u) a r u p1 = (x, cs, q))"
proof -
  obtain x cs where run: "perform L (Op_Managing may now r a) p = (x, cs, q)"
    using assms by (metis after_def prod.collapse)
  show ?thesis
  proof (cases "session_user L now r p")
    case (Pair w p1)
    then show ?thesis
      using run by (cases w) (auto simp: require_perm_def require_auth_def post_with_csrf_def Let_def
          split: option.splits if_splits)
  qed
qed


section \<open>Revalidation\<close>

lemma untouched_active: "untouched n p q \<Longrightarrow> active q n = active p n"
  by (simp add: untouched_def active_def)

lemma disable_by_provider_other: "n \<noteq> pu_username u \<Longrightarrow> untouched n p (disable_by_provider L u reason p)"
  by (auto simp: disable_by_provider_def Let_def split: sum.splits intro!: untouched_intros
      elim!: untouched_set_disabled [rotated 2])

lemma apply_one_active:
  "active p n \<Longrightarrow> \<not> active (apply_one L J scalar c x p) n \<Longrightarrow> rv_refused x \<noteq> [] \<and> pu_username (rv_user x) = n"
  using untouched_active [OF disable_by_provider_other, of n "rv_user x" L "rv_refused x" p]
  by (auto simp: apply_one_def Let_def active_sync active_columns split: if_splits)

lemma apply_all_active:
  "active p n \<Longrightarrow> \<not> active (fold (apply_one L J scalar c) xs p) n \<Longrightarrow>
     n \<in> (\<lambda>x. pu_username (rv_user x)) ` set (filter (\<lambda>x. rv_refused x \<noteq> []) xs)"
proof (induction xs arbitrary: p)
  case (Cons x xs)
  then show ?case
    using apply_one_active [of p n L J scalar c x] by (cases "active (apply_one L J scalar c x p) n") auto
qed simp

definition turned_away :: "portal_lib \<Rightarrow> json_lib \<Rightarrow> provider_answers \<Rightarrow> portal_settings \<Rightarrow> portal \<Rightarrow> portal_user \<Rightarrow> bool" where
  "turned_away L J A g p u \<longleftrightarrow>
     (case refresh_oidc L J A g (refresh_token_of p (pu_username u)) of
        Identity ident \<Rightarrow> oi_id ident \<noteq> pu_oidc_subject u \<or> \<not> snd (roles_for J (pg_oidc g) (oi_claims ident))
      | Refused reason \<Rightarrow> True
      | No_Answer \<Rightarrow> False)"

lemma revalidate_one_refused:
  "revalidate_one L J A g p u = Some x \<Longrightarrow> rv_refused x \<noteq> [] \<Longrightarrow> turned_away L J A g p u"
  by (auto simp: revalidate_one_def turned_away_def split: refresh_answer.splits if_splits)

text \<open>
  A revalidation disables an account only when the identity provider turned that account away:
  the provider answered, and it rejected the account's refresh token, showed another identity, or
  one without a role that grants access. An account that is not the provider's, or about which it
  gave no answer, stays enabled.
\<close>

theorem revalidation_needs_refusal:
  assumes ok: "portal_ok p" and on: "active p n" and off: "\<not> active (revalidate_oidc L J scalar A g p) n"
  shows "case lookup_user p n of
           None \<Rightarrow> False
         | Some u \<Rightarrow> pu_managed_by u = provider_oidc \<and> turned_away L J A g p u"
proof -
  have "n \<in> (\<lambda>x. pu_username (rv_user x)) ` set (filter (\<lambda>x. rv_refused x \<noteq> []) (gather L J A g p))"
    using on off by (auto simp: revalidate_oidc_def apply_revalidation_def dest: apply_all_active split: if_splits)
  then obtain x where x: "x \<in> set (gather L J A g p)" "rv_refused x \<noteq> []" and n: "pu_username (rv_user x) = n"
    by auto
  from x(1) obtain u where u: "u \<in> set (managed_with_refresh p)" "revalidate_one L J A g p u = Some x"
    by (auto simp: gather_def map_filter_in)
  with n have name: "pu_username u = n" using revalidate_one_user by fastforce
  obtain m where "(m, u) \<in> set (accounts p)" "pu_managed_by u = provider_oidc"
    using u(1) by (force simp: managed_with_refresh_def accounts_def)
  moreover have "lookup_user p m = Some u \<Longrightarrow> pu_username u = m"
    using ok by (auto simp: portal_ok_def intro: accounts_ok_name)
  ultimately show ?thesis
    using ok name in_accounts [of p m u] revalidate_one_refused [OF u(2) x(2)] by (auto simp: portal_ok_def)
qed

text \<open>
  One run disables at most two accounts or half of those it asks about, whichever is more: a
  provider that refuses everybody at once is taken for one that is broken.
\<close>

theorem revalidation_is_bounded:
  "2 * card {n. active p n \<and> \<not> active (revalidate_oidc L J scalar A g p) n} \<le>
     max 4 (length (managed_with_refresh p))"
proof -
  let ?xs = "gather L J A g p"
  let ?off = "{n. active p n \<and> \<not> active (revalidate_oidc L J scalar A g p) n}"
  have "length (List.map_filter f us) \<le> length us" for f :: "portal_user \<Rightarrow> revalidation option" and us
    by (induction us) (auto simp: map_filter_simps split: option.split)
  then have len: "length ?xs \<le> length (managed_with_refresh p)" by (simp add: gather_def)
  show ?thesis
  proof (cases "refused_count ?xs \<ge> 3 \<and> refused_count ?xs * 2 > length ?xs")
    case True
    then have "?off = {}" by (auto simp: revalidate_oidc_def apply_revalidation_def)
    then show ?thesis by (simp only: card.empty)
  next
    case False
    then have "?off \<subseteq> (\<lambda>x. pu_username (rv_user x)) ` set (filter (\<lambda>x. rv_refused x \<noteq> []) ?xs)"
      by (auto simp: revalidate_oidc_def apply_revalidation_def simp del: set_filter dest: apply_all_active)
    then have "card ?off \<le> card ((\<lambda>x. pu_username (rv_user x)) ` set (filter (\<lambda>x. rv_refused x \<noteq> []) ?xs))"
      by (intro card_mono) auto
    also have "\<dots> \<le> refused_count ?xs"
      unfolding refused_count_def by (rule order.trans [OF card_image_le card_length]) simp
    finally show ?thesis using False len by linarith
  qed
qed

section \<open>Roles that follow the provider\<close>

lemma bind_own:
  assumes "lookup_user p n \<noteq> None" and "role_exists p r"
  shows "bind_role p (global_role (user_principal n) r) =
    Inr (bump_authz (insert_binding (global_role (user_principal n) r) p))"
  using assms by (simp add: bind_role_def check_binding_def global_role_def user_principal_def)

lemma in_global_roles: "r \<in> set (global_roles p n) \<longleftrightarrow> global_role (user_principal n) r \<in> set (pt_bindings p)"
proof
  assume "r \<in> set (global_roles p n)"
  then obtain b where b: "b \<in> set (pt_bindings p)" "rb_principal b = user_principal n" "rb_team b = []" "r = rb_role b"
    by (auto simp: global_roles_def)
  have "b = global_role (user_principal n) r"
    by (rule role_binding.equality) (simp_all add: b(2-4) global_role_def)
  with b(1) show "global_role (user_principal n) r \<in> set (pt_bindings p)" by simp
qed (force simp: global_roles_def global_role_def)

lemma global_roles_insert:
  "set (global_roles (insert_binding (global_role (user_principal n) r) p) n) = insert r (set (global_roles p n))"
  unfolding set_eq_iff insert_iff in_global_roles set_insert_binding by (simp add: global_role_def)

lemma role_exists_same: "pt_roles q = pt_roles p \<Longrightarrow> role_exists q = role_exists p"
  by (rule ext) (simp add: role_exists_def)

lemma insert_binding_roles [portal_frames]: "pt_roles (insert_binding b p) = pt_roles p" "pt_users (insert_binding b p) = pt_users p"
  by (simp_all add: insert_binding_def)

text \<open>What the steps of the synchronisation leave of everything but the account's own roles.\<close>

definition beside :: "string \<Rightarrow> portal \<Rightarrow> portal \<Rightarrow> bool" where
  "beside n p q \<longleftrightarrow> pt_users q = pt_users p \<and> pt_roles q = pt_roles p \<and> pt_teams q = pt_teams p \<and>
     (\<forall>m. m \<noteq> n \<longrightarrow> global_roles q m = global_roles p m)"

lemma beside_trans: "beside n p q \<Longrightarrow> beside n q r \<Longrightarrow> beside n p r"
  by (simp add: beside_def)

lemma untouched_global: "(\<And>m. m \<noteq> n \<Longrightarrow> untouched m p q) \<Longrightarrow> m \<noteq> n \<Longrightarrow> global_roles q m = global_roles p m"
  by (simp add: untouched_def)

lemma beside_bind: "beside n p (sync_bind n ip r p)"
proof -
  have "untouched m p (sync_bind n ip r p)" if "m \<noteq> n" for m
    using that by (auto simp: sync_bind_def split: sum.splits intro!: untouched_intros
        elim: untouched_bind [OF untouched_refl, rotated])
  then show ?thesis
    using untouched_global [of n p "sync_bind n ip r p"]
    by (auto simp: beside_def sync_bind_def bind_role_def portal_frames split: sum.splits option.splits)
qed

lemma beside_unbind: "beside n p (sync_unbind n ip r p)"
proof -
  have "untouched m p (sync_unbind n ip r p)" if "m \<noteq> n" for m
    using that by (auto simp: sync_unbind_def split: sum.splits intro!: untouched_intros
        elim: untouched_unbind [OF untouched_refl, rotated])
  then show ?thesis
    using untouched_global [of n p "sync_unbind n ip r p"]
    by (auto simp: beside_def sync_unbind_def unbind_role_def portal_frames split: sum.splits option.splits)
qed

lemma beside_fold: "(\<And>x q. beside n q (f x q)) \<Longrightarrow> beside n p (fold f xs p)"
  by (induction xs arbitrary: p) (auto simp: beside_def)

lemma beside_others:
  assumes "beside n p q"
  shows "other_active_privileged q n = other_active_privileged p n" and "lookup_user q m = lookup_user p m"
    and "role_exists q = role_exists p"
proof -
  have "(\<lambda>(m, e :: user_entry). \<not> pu_disabled (ue_user e) \<and> m \<noteq> n \<and> is_privileged q m) =
    (\<lambda>(m, e :: user_entry). \<not> pu_disabled (ue_user e) \<and> m \<noteq> n \<and> is_privileged p m)"
    using assms by (auto simp: beside_def is_privileged_def fun_eq_iff)
  then show "other_active_privileged q n = other_active_privileged p n"
    using assms unfolding other_active_privileged_def beside_def by metis
  show "lookup_user q m = lookup_user p m" "role_exists q = role_exists p"
    using assms role_exists_same [of q p] unfolding beside_def lookup_user_def by simp_all
qed

lemma sync_bind_roles:
  "lookup_user p n \<noteq> None \<Longrightarrow> list_all (role_exists p) rs \<Longrightarrow>
     set (global_roles (fold (sync_bind n ip) rs p) n) = set rs \<union> set (global_roles p n)"
proof (induction rs arbitrary: p)
  case (Cons r rs)
  have "set (global_roles (sync_bind n ip r p) n) = insert r (set (global_roles p n))"
    using Cons.prems global_roles_insert [of n r p]
    by (simp add: sync_bind_def bind_own global_roles_def portal_frames)
  then show ?case
    using Cons beside_others(2,3) [OF beside_bind, of n ip r p] by simp
qed simp

definition last_admin_role :: "portal \<Rightarrow> string \<Rightarrow> string \<Rightarrow> bool" where
  "last_admin_role p n r \<longleftrightarrow>
     r = role_admin \<and> role_owner \<notin> set (global_roles p n) \<and> other_active_privileged p n = 0"

lemma unbind_own:
  assumes "r \<noteq> role_owner"
  shows "unbind_refused p (global_role (user_principal n) r) = None \<longleftrightarrow> \<not> last_admin_role p n r"
proof -
  have "other_privileged_roles p (global_role (user_principal n) role_admin) = 0 \<longleftrightarrow>
      list_all (\<lambda>x. rb_principal x = user_principal n \<and> rb_team x = [] \<longrightarrow> rb_role x \<noteq> role_owner) (pt_bindings p)"
    by (auto simp: other_privileged_roles_def global_role_def filter_empty_conv list_all_iff
        privileged_role_def role_owner_def role_admin_def)
  also have "\<dots> \<longleftrightarrow> role_owner \<notin> set (global_roles p n)"
    by (force simp: list_all_iff global_roles_def)
  finally have "other_privileged_roles p (global_role (user_principal n) role_admin) = 0 \<longleftrightarrow>
    role_owner \<notin> set (global_roles p n)" .
  then show ?thesis
    using assms by (auto simp: unbind_refused_def last_admin_role_def global_role_def privileged_role_def
        user_principal_def has_prefix_def role_owner_def role_admin_def)
qed

lemma sync_unbind_roles:
  "r \<noteq> role_owner \<Longrightarrow> set (global_roles (sync_unbind n ip r p) n) =
     (if last_admin_role p n r then set (global_roles p n) else set (global_roles p n) - {r})"
  using unbind_own [of r p n]
  by (auto simp: sync_unbind_def unbind_role_def global_roles_def portal_frames global_role_def split: option.splits)

lemma sync_unbinds_roles:
  "role_owner \<notin> set rs \<Longrightarrow>
     set (global_roles (fold (sync_unbind n ip) rs p) n) =
       {r \<in> set (global_roles p n). r \<notin> set rs \<or> last_admin_role p n r}"
proof (induction rs arbitrary: p)
  case (Cons r rs)
  let ?q = "sync_unbind n ip r p"
  have r: "r \<noteq> role_owner" using Cons.prems by auto
  have "last_admin_role ?q n = last_admin_role p n"
    using sync_unbind_roles [OF r, of n ip p] beside_others(1) [OF beside_unbind, of n ip r p] r
    by (auto simp: last_admin_role_def fun_eq_iff)
  then show ?case using Cons sync_unbind_roles [OF r, of n ip p] by auto
qed auto

lemma sync_roles_exact:
  assumes "visits L" and "lookup_user p n \<noteq> None"
  shows "set (global_roles (sync_roles L n roles ip p) n) =
    {r \<in> set roles. role_exists p r} \<union>
    {r \<in> set (global_roles p n). r = role_owner \<or>
       r = role_admin \<and> role_owner \<notin> set roles \<union> set (global_roles p n) \<and> other_active_privileged p n = 0}"
proof -
  let ?want = "remdups (filter (role_exists p) roles)" and ?have = "remdups (global_roles p n)"
  let ?add = "filter (\<lambda>r. r \<notin> set ?have) (pl_visit L ?want)"
  let ?drop = "filter (\<lambda>r. \<not> (r \<in> set ?want \<or> r = role_owner)) (pl_visit L ?have)"
  let ?p1 = "fold (sync_bind n ip) ?add p"
  have visit: "set (pl_visit L ?want) = set ?want" "set (pl_visit L ?have) = set ?have"
    using assms(1) by (simp_all add: visits_def)
  have "list_all (role_exists p) ?add" using visit(1) by (auto simp: list_all_iff)
  from sync_bind_roles [OF assms(2) this]
  have p1: "set (global_roles ?p1 n) = set ?want \<union> set (global_roles p n)" using visit(1) by auto
  have owner: "role_exists p role_owner" by (simp add: role_exists_def builtin_privileged privileged_role_def)
  have "beside n p ?p1" by (rule beside_fold) (rule beside_bind)
  then have last: "last_admin_role ?p1 n r \<longleftrightarrow>
      r = role_admin \<and> role_owner \<notin> set roles \<union> set (global_roles p n) \<and> other_active_privileged p n = 0" for r
    using p1 owner by (auto simp: last_admin_role_def beside_others)
  have "set (global_roles (fold (sync_unbind n ip) ?drop ?p1) n) =
      {r \<in> set (global_roles ?p1 n). r \<notin> set ?drop \<or> last_admin_role ?p1 n r}"
    by (rule sync_unbinds_roles) simp
  then show ?thesis using p1 visit(2) last by (auto simp: sync_roles_def Let_def)
qed

text \<open>The steps for teams and attributes leave the global roles alone.\<close>

lemma sync_team_roles:
  assumes "[] \<notin> fst ` set (pt_teams p)" and "t \<in> set is \<Longrightarrow> t \<noteq> []"
  shows "global_roles (sync_team n ip ms is t p) m = global_roles p m"
    and "pt_teams (sync_team n ip ms is t p) = pt_teams p"
proof -
  let ?P = "\<lambda>b. rb_principal b = user_principal m \<and> rb_team b = []"
  have "filter ?P (pt_bindings q) = filter ?P (pt_bindings p) \<and> pt_teams q = pt_teams p"
    if "add_team_member p t n b = Inr q" for b q
  proof -
    have "mget (pt_teams p) [] = None" using assms(1) unfolding mget_None_iff by blast
    then have "t \<noteq> []" using that by (auto simp: add_team_member_def split: if_splits)
    then show ?thesis
      using that by (auto simp: add_team_member_def portal_frames team_bindings_of_def split: if_splits)
        (auto intro!: filter_cong)
  qed
  moreover have "filter ?P (pt_bindings (remove_team_member p t n)) = filter ?P (pt_bindings p) \<and>
      pt_teams (remove_team_member p t n) = pt_teams p" if "t \<in> set is"
    using assms(2) [OF that] by (auto simp: remove_team_member_def portal_frames intro!: filter_cong)
  ultimately have "filter ?P (pt_bindings (sync_team n ip ms is t p)) = filter ?P (pt_bindings p) \<and>
      pt_teams (sync_team n ip ms is t p) = pt_teams p"
    by (auto simp: sync_team_def portal_frames split: sum.splits)
  then show "global_roles (sync_team n ip ms is t p) m = global_roles p m"
    "pt_teams (sync_team n ip ms is t p) = pt_teams p"
    unfolding global_roles_def by simp_all
qed

lemma sync_teams_roles:
  "[] \<notin> fst ` set (pt_teams p) \<Longrightarrow> [] \<notin> set is \<Longrightarrow>
     global_roles (fold (sync_team n ip ms is) ts p) m = global_roles p m"
proof (induction ts arbitrary: p)
  case (Cons t ts)
  have "t \<in> set is \<Longrightarrow> t \<noteq> []" using Cons.prems(2) by auto
  note step = sync_team_roles [OF Cons.prems(1), where n = n and ip = ip and ms = ms, OF this]
  then show ?case using Cons by simp
qed simp

lemma sync_attrs_roles: "global_roles (sync_attrs J scalar c n claims p) m = global_roles p m"
  by (auto simp: sync_attrs_def Let_def set_user_attrs_def global_roles_def portal_frames split: sum.splits if_splits)

lemma sync_roles_teams: "pt_teams (sync_roles L n roles ip p) = pt_teams p"
proof -
  have "beside n p (sync_roles L n roles ip p)"
    unfolding sync_roles_def Let_def by (rule beside_trans; rule beside_fold) (rule beside_bind beside_unbind)+
  then show ?thesis by (simp add: beside_def)
qed

text \<open>
  C17. At each sign-in and revalidation the provider's word becomes the account's roles: afterwards a
  managed account holds exactly the mapped roles that exist, but for two it is never made to lose,
  the owner role, and the administrator role where the router would be left without an
  administrator. What the team and attribute mappings do does not touch them.
\<close>

theorem roles_follow_provider:
  assumes ok: "portal_ok p" and visit: "visits L" and there: "lookup_user p (pu_username u) \<noteq> None"
    and managed: "pu_managed_by u = provider_oidc" and policy: "access_policy_on c" "roles \<noteq> []"
  shows "set (global_roles (sync_managed_access L J scalar u c roles ident ip p) (pu_username u)) =
    {r \<in> set roles. role_exists p r} \<union>
    {r \<in> set (global_roles p (pu_username u)). r = role_owner \<or>
       r = role_admin \<and> role_owner \<notin> set roles \<union> set (global_roles p (pu_username u)) \<and>
       other_active_privileged p (pu_username u) = 0}"
proof -
  let ?n = "pu_username u"
  let ?p1 = "sync_roles L ?n roles ip p"
  have named: "[] \<notin> fst ` set (pt_teams ?p1)" using ok by (simp add: portal_ok_def sync_roles_teams)
  then have "[] \<notin> set (teams_of ?p1 ?n)" using teams_of_named by blast
  then have "global_roles (sync_managed_access L J scalar u c roles ident ip p) ?n = global_roles ?p1 ?n"
    using named managed policy
    by (simp add: sync_managed_access_def Let_def sync_attrs_roles sync_teams_roles split: prod.split)
  then show ?thesis using sync_roles_exact [OF visit there, of roles ip] by simp
qed

end
