(* ===== verification/Portal_Properties.thy ===== *)
theory Portal_Properties
  imports Portal_Lasting
begin

text \<open>
  What the portal's sign-in and account management promise: which accounts, sessions and
  administrators there are after any sequence of requests, what a session takes, what a disabled
  account and a spent link stay, and what a managing action may change.
\<close>

section \<open>Runs from an empty database\<close>

lemma portal_ok_empty [simp]: "portal_ok portal_empty"
  by (simp add: portal_ok_def portal_empty_def accounts_def accounts_ok_def sessions_ok_def
      unique_indexes_def key_unique_def)

lemma portal_ok_run: "portal_ok (portal_run L ops portal_empty)"
  using run_keeps [of portal_empty L ops] by (simp add: keeps_def)

lemma portal_run_append: "portal_run L (xs @ ys) p = portal_run L ys (portal_run L xs p)"
  by (simp add: portal_run_def)

text \<open>
  C12. Whatever requests arrive, in whatever order, the tables stay well formed: a user name, a
  provider's identity and a verified address belong to at most one account, a verified address is
  not empty, every session belongs to an account that exists and is enabled, and a role is bound to
  a principal once.
\<close>

theorem portal_tables_sound: "portal_ok (portal_run L ops portal_empty)"
  by (rule portal_ok_run)

text \<open>
  C13. Once there is an enabled owner or administrator, no request, sign-in, synchronisation with the
  identity provider or revalidation that follows leaves the router without one.
\<close>

theorem last_admin_stays:
  assumes "has_admin (portal_run L ops portal_empty)"
  shows "has_admin (portal_run L (ops @ later) portal_empty)"
  using assms run_keeps [of "portal_run L ops portal_empty" L later] portal_ok_run [of L ops]
  by (simp add: keeps_def portal_run_append)

section \<open>What a session takes\<close>

text \<open>
  C14. A step starts a session only for the account its request proves: a password that matches, of
  an enabled account that is not managed elsewhere; a login link that is live and names the
  account's verified address; a provider's identity, with a state cookie that is the browser's own,
  linked to the account or new; or a machine's token the provider vouches for.
\<close>

theorem sessions_are_earned:
  assumes new: "(h, s) \<in> set (pt_sessions (after L op p))" and fresh: "h \<notin> session_keys p"
  shows "entitled L op p (ss_username s)"
proof -
  have "\<not> calm p (after L op p)" using new fresh by (force simp: calm_def session_keys_def)
  then show ?thesis using after_earned [of L op p] new fresh by (auto simp: earned_def starts_def)
qed

section \<open>Accounts an administrator disabled\<close>

lemma well_keyed_ok:
  assumes "portal_ok p"
  shows "well_keyed p"
proof -
  have ok: "accounts_ok (accounts p)" using assms by (simp add: portal_ok_def)
  have "map fst (accounts p) = map fst (pt_users p)" by (simp add: accounts_def comp_def case_prod_beta)
  then have "wf_map (pt_users p)" using ok by (metis accounts_ok_def)
  moreover have "pu_username (ue_user e) = n" if "mget (pt_users p) n = Some e" for n e
    using that accounts_ok_name [OF ok, of n "ue_user e"] by (simp add: lookup_user_def)
  ultimately show ?thesis by (simp add: well_keyed_def)
qed

lemma held_off_no_session: "held_off n p \<Longrightarrow> portal_ok p \<Longrightarrow> s \<in> set (map snd (pt_sessions p)) \<Longrightarrow> ss_username s \<noteq> n"
  by (auto simp: held_off_def portal_ok_def sessions_ok_def list_all_iff active_def lookup_user_def
      split: option.splits)


section \<open>Links sent by mail\<close>

text \<open>
  A link works once: when it has been consumed, no sequence of requests that does not draw the
  same token again makes it good for signing in or for verifying an address.
\<close>

theorem link_works_once:
  assumes "consume_link L now tok purpose p = (Some e, p1)"
    and "list_all (spares (\<lambda>t. pl_sha L t \<noteq> pl_sha L tok) (\<lambda>m. True)) ops"
  shows "lookup_link L now' tok purpose' (portal_run L ops p1) = None"
proof -
  have "link_gone (pl_sha L tok) p1"
    using assms(1) by (auto simp: consume_link_def spend_link_def link_gone_def gomap_simps split: option.splits)
  then have "link_gone (pl_sha L tok) (portal_run L ops p1)" using assms(2) by (rule gone.I_run)
  then show ?thesis by (simp add: lookup_link_def link_gone_def)
qed

text \<open>
  A link is good for what it was sent for and until it expires, and for nothing else: the one
  issued last for an account is found under its token and purpose until its time is up, under the
  other purpose never.
\<close>

theorem link_is_for_its_purpose:
  "tok \<noteq> [] \<Longrightarrow>
     lookup_link L now' tok w (issue L now tok n purpose mail ttl p) =
       (if now' \<le> now + ttl \<and> w = purpose
        then Some \<lparr>at_username = n, at_purpose = purpose, at_email = mail, at_expiry = now + ttl\<rparr> else None)"
  by (auto simp: lookup_link_def issue_def gomap_simps)

section \<open>The state cookie\<close>

lemma split_on_append: "c \<notin> set a \<Longrightarrow> split_on c (a @ c # b) = a # split_on c b"
  by (induction a) auto

lemma split_on_whole: "c \<notin> set a \<Longrightarrow> split_on c a = [a]"
  by (induction a) auto

lemma split_on_colons:
  "list_all (\<lambda>s. CHR '':'' \<notin> set s) [a, b, c, d] \<Longrightarrow>
     split_on (CHR '':'') (oauth_state_value a b c d) = [a, b, c, d]"
  by (simp add: oauth_state_value_def split_on_append split_on_whole)

text \<open>
  C18. The cookie a flow sets is read back as the flow's mode and code verifier by the callback of
  the same provider when the provider returns the nonce, and by no other: a callback whose provider
  or nonce differs, or whose nonce is empty, is refused.
\<close>

theorem oauth_state_roundtrip:
  assumes "list_all (\<lambda>s. CHR '':'' \<notin> set s) [key, nonce, verifier]" and "mode = mode_login \<or> mode = mode_link"
    and "wq_state r = Some (oauth_state_value key mode nonce verifier)"
  shows "take_oauth_state r key' =
    (if key' = key \<and> nonce \<noteq> [] \<and> wq_query r ''state'' = nonce then Some (mode, verifier) else None)"
proof -
  have "CHR '':'' \<notin> set mode" using assms(2) by (auto simp: mode_login_def mode_link_def)
  then have "split_on (CHR '':'') (oauth_state_value key mode nonce verifier) = [key, mode, nonce, verifier]"
    using assms(1) by (intro split_on_colons) simp
  then show ?thesis using assms(2,3) by (auto simp: take_oauth_state_def)
qed

end
