(* ===== verification/Portal_Races.thy ===== *)
theory Portal_Races
  imports Portal_Authority Portal_Properties
begin

text \<open>
  Where the portal's promises end: operations that are two critical sections with room between them,
  and the sign-in of machines, which grants more than the browser's.
\<close>

section \<open>One link, two readers\<close>

text \<open>
  \<open>consume\<close> holds the lock for the lookup and again for the deletion. The calls that show one token
  at one time, each at its own point.
\<close>

datatype link_call = Asking | Holding auth_token | Served auth_token | Turned_Away

inductive consume_step ::
  "portal_lib \<Rightarrow> gotime \<Rightarrow> string \<Rightarrow> string \<Rightarrow> portal \<times> link_call list \<Rightarrow> portal \<times> link_call list \<Rightarrow> bool"
  for L now tok w where
  found: "i < length cs \<Longrightarrow> cs ! i = Asking \<Longrightarrow> lookup_link L now tok w p = Some e \<Longrightarrow>
     consume_step L now tok w (p, cs) (p, cs[i := Holding e])"
| missed: "i < length cs \<Longrightarrow> cs ! i = Asking \<Longrightarrow> lookup_link L now tok w p = None \<Longrightarrow>
     consume_step L now tok w (p, cs) (p, cs[i := Turned_Away])"
| spent: "i < length cs \<Longrightarrow> cs ! i = Holding e \<Longrightarrow>
     consume_step L now tok w (p, cs) (spend_link L tok p, cs[i := Served e])"

inductive_cases consume_stepE: "consume_step L now tok w (p, cs) s"

inductive_simps consume_step_simps: "consume_step L now tok w (p, cs) (q, ds)"

lemma lookup_spent: "lookup_link L now tok w (spend_link L tok p) = None"
  by (simp add: lookup_link_def spend_link_def gomap_simps)

text \<open>Two requests with the same link can both be served.\<close>

theorem link_served_twice:
  assumes "lookup_link L now tok w p = Some e"
  shows "\<exists>q. (consume_step L now tok w)\<^sup>*\<^sup>* (p, [Asking, Asking]) (q, [Served e, Served e])"
proof -
  let ?go = "consume_step L now tok w"
  have "?go (p, [Asking, Asking]) (p, [Holding e, Asking])"
    using found [of 0 "[Asking, Asking]" L now tok w p e] assms by simp
  moreover have "?go (p, [Holding e, Asking]) (p, [Holding e, Holding e])"
    using found [of 1 "[Holding e, Asking]" L now tok w p e] assms by simp
  moreover have "?go (p, [Holding e, Holding e]) (spend_link L tok p, [Served e, Holding e])"
    using spent [of 0 "[Holding e, Holding e]" e] by simp
  moreover have "?go (spend_link L tok p, [Served e, Holding e])
      (spend_link L tok (spend_link L tok p), [Served e, Served e])"
    using spent [of 1 "[Served e, Holding e]" e] by simp
  ultimately show ?thesis by (meson converse_rtranclp_into_rtranclp rtranclp.rtrancl_refl)
qed

text \<open>The room is between the sections alone: a call that starts when one has been served is refused.\<close>

definition no_second :: "portal_lib \<Rightarrow> gotime \<Rightarrow> string \<Rightarrow> string \<Rightarrow> portal \<times> link_call list \<Rightarrow> bool" where
  "no_second L now tok w s \<longleftrightarrow>
     lookup_link L now tok w (fst s) = None \<and> list_all (\<lambda>c. c = Turned_Away \<or> c = Asking \<or> (\<exists>e. c = Served e)) (snd s)"

lemma no_second_step:
  assumes "consume_step L now tok w s t" and "no_second L now tok w s"
  shows "no_second L now tok w t \<and> length (snd t) = length (snd s) \<and>
    (\<forall>i e. i < length (snd s) \<longrightarrow> snd t ! i = Served e \<longrightarrow> snd s ! i = Served e)"
  using assms
  by (cases rule: consume_step.cases)
    (auto simp: no_second_def list_all_length nth_list_update)

lemma no_second_steps:
  "(consume_step L now tok w)\<^sup>*\<^sup>* s t \<Longrightarrow> no_second L now tok w s \<Longrightarrow>
     no_second L now tok w t \<and> length (snd t) = length (snd s) \<and>
     (\<forall>i e. i < length (snd s) \<longrightarrow> snd t ! i = Served e \<longrightarrow> snd s ! i = Served e)"
proof (induction rule: rtranclp_induct)
  case (step t u)
  then show ?case using no_second_step [OF step.hyps(2)] by metis
qed simp

text \<open>
  Of requests for a link that begin when it has been spent none is served, whatever the order
  of their sections.
\<close>

theorem spent_link_serves_nobody:
  assumes "(consume_step L now tok w)\<^sup>*\<^sup>* (spend_link L tok p, replicate n Asking) (q, cs)"
  shows "Served e \<notin> set cs"
proof
  assume "Served e \<in> set cs"
  then obtain i where i: "i < length cs" "cs ! i = Served e" by (auto simp: in_set_conv_nth)
  have "no_second L now tok w (spend_link L tok p, replicate n Asking)"
    by (simp add: no_second_def lookup_spent list_all_iff)
  from no_second_steps [OF assms this] i show False by auto
qed

section \<open>A change computed from an old row\<close>

text \<open>
  \<open>UpdateUser\<close> reads the account, computes and writes every column. When an administrator disables
  the account between the two, the write enables it again.
\<close>

theorem stale_update_enables:
  assumes "lookup_user p n = Some before" and "\<not> pu_disabled before" and "\<And>u. pu_disabled (f u) = pu_disabled u"
    and "set_disabled_by L p n True [] = Inr p1"
    and "write_user L p1 n before (prepared_user L f before) = Inr q"
  shows "\<not> active p1 n" and "active q n"
proof -
  obtain p0 where up: "update_user L p n (pu_disabled_update (\<lambda>_. True)) = Inr p0"
    and p1: "accounts p1 = accounts p0"
    using assms(4) by (auto simp: set_disabled_by_def Let_def set_refresh_token_def portal_frames split: sum.splits)
  from update_user_active [OF up, of n] show "\<not> active p1 n" by (simp add: active_cong [OF p1])
  have "lookup_user p1 n \<noteq> None"
    using up p1 by (auto simp: lookup_user_accounts mget_amap elim!: update_user_frames)
  then show "active q n"
    using write_user_frames(1) [OF assms(5)] assms(2,3)
    by (auto simp: active_def lookup_user_accounts mget_amap split: option.splits)
qed

section \<open>An answer applied late\<close>

text \<open>
  A revalidation that gathered a refusal before an administrator disabled the account puts the
  provider's name on the administrator's decision, and the provider may then undo it.
\<close>

theorem late_refusal_overwrites:
  assumes "held_off n p" and "rv_refused x \<noteq> []" and "pu_username (rv_user x) = n"
    and "\<not> (is_privileged p n \<and> other_active_privileged p n = 0)"
    and "set_disabled_by L p n True provider_oidc = Inr p1"
  shows "disabled_by p n \<noteq> provider_oidc"
    and "disabled_by (apply_revalidation L J scalar c [x] p) n = provider_oidc"
proof -
  show "disabled_by p n \<noteq> provider_oidc" using assms(1) by (auto simp: held_off_def disabled_by_def split: option.splits)
  obtain p0 where up: "update_user L p n (pu_disabled_update (\<lambda>_. True)) = Inr p0"
    and p1: "p1 = set_refresh_token n [] (map_entry n (ue_disabled_by_update (\<lambda>_. provider_oidc)) p0)"
    using assms(5) by (auto simp: set_disabled_by_def Let_def split: sum.splits)
  have "mget (pt_users p0) n \<noteq> None"
    using update_user_entries [OF up] by (auto simp: mget_map_entry)
  then have "disabled_by p1 n = provider_oidc"
    by (auto simp: p1 disabled_by_def set_refresh_token_def mget_map_entry)
  moreover have "pt_users (record_audit a b c d (close_tokens_of n p1)) = pt_users p1" for a b c d
    using portal_frames same_tables_steps(4) [of p1 n p1] by (simp add: same_tables_def)
  ultimately show "disabled_by (apply_revalidation L J scalar c [x] p) n = provider_oidc"
    using assms(2-5) by (auto simp add: apply_revalidation_def refused_count_def apply_one_def disable_by_provider_def
        Let_def disabled_by_def)
qed

section \<open>Machines\<close>

text \<open>
  A machine's token the provider vouches for makes an administrator of an identity it has not
  seen, whatever roles the identity holds at the provider and whether or not sign-in may provision
  accounts.
\<close>

theorem token_login_makes_admins:
  assumes "lookup_user_by_oauth p provider_oidc (oi_id ident) = None"
    and "admin_for_token_identity L rd r ident p = Some (q, u)"
  shows "is_privileged q (pu_username u)"
proof -
  have "provision_loop L p base ''admin'' ident tok is = Inr (q1, u) \<Longrightarrow> role_admin \<in> set (global_roles q1 (pu_username u))"
    if "lookup_user_by_oauth p provider_oidc (oi_id ident) = None" for base tok "is" q1
    using that
    by (induction "is") (auto simp: Let_def bind_initial_role_def in_global_roles portal_frames new_user_def
        split: if_splits option.splits)
  then have "role_admin \<in> set (global_roles q (pu_username u))"
    using assms by (auto simp: admin_for_token_identity_def provision_oidc_user_def in_global_roles portal_frames
        split: sum.splits)
  then show ?thesis by (auto simp: is_privileged_def list_ex_iff privileged_role_def)
qed

text \<open>
  The browser's sign-in writes the issuer before the subject, the machine's does not: the two never
  find each other's account when an issuer is configured.
\<close>

theorem token_login_drops_issuer:
  assumes "fetch_oauth_identity L J A (oidc_provider c) token = Some i" and "oc_issuer c \<noteq> []"
  shows "\<exists>j. fetch_token_identity L J A (oc_userinfo_url c) token = Some j \<and>
    oi_id i = oidc_subject_id (oc_issuer c) (oi_id j) \<and> oi_id i \<noteq> oi_id j"
  using assms
  by (auto simp: fetch_oauth_identity_def fetch_token_identity_def oidc_provider_def identity_of_def
      provider_oidc_def provider_github_def provider_google_def oidc_subject_id_def split: option.splits if_splits)

end
