(* ===== verification/Portal_Witnesses.thy ===== *)
theory Portal_Witnesses
  imports Portal_Races
begin

text \<open>The properties of the portal applied to a small database: root, who set it up, and ann and bob.\<close>

definition sample_portal_lib :: portal_lib where
  "sample_portal_lib =
     \<lparr>pl_sha = (\<lambda>s. CHR ''#'' # s), pl_password = (=), pl_lower = (\<lambda>s. s), pl_address = Some,
      pl_visit = (\<lambda>ks. ks), pl_report = hd\<rparr>"

definition sent :: "string option \<Rightarrow> (string \<times> string) list \<Rightarrow> web_request" where
  "sent cookie xs =
     \<lparr>wq_post = True, wq_form = (\<lambda>k. get_or [] xs k), wq_bad_form = False, wq_query = (\<lambda>k. []),
      wq_header = (\<lambda>k. []), wq_session = cookie, wq_state = None, wq_ip = ''10.0.0.7'', wq_agent = ''browser''\<rparr>"

definition drawn :: "string \<Rightarrow> randoms" where
  "drawn n = \<lparr>rd_sid = ''s'' @ n, rd_csrf = ''c'' @ n, rd_token = ''t'' @ n, rd_nonce = ''n'' @ n,
     rd_verifier = ''v'' @ n\<rparr>"

definition all_allowed :: "portal_user \<Rightarrow> asks" where
  "all_allowed u action rs = True"

definition set_up :: portal_op where
  "set_up = Op_Setup Some (sent None [(''username'', ''root''), (''password'', ''pw''), (''confirm'', ''pw'')])"

definition log_in :: "string \<Rightarrow> string \<Rightarrow> portal_op" where
  "log_in n name = Op_Login 0 (drawn n) (sent None [(''username'', name), (''password'', ''pw'')])"

definition managing :: "string \<Rightarrow> managing_action \<Rightarrow> portal_op" where
  "managing name a = Op_Managing all_allowed 1
     (sent (Some ''s1'') [(''_csrf'', ''c1''), (''username'', name), (''password'', ''pw'')]) a"

theorem last_admin_stays_witness:
  "has_admin (portal_run sample_portal_lib ([set_up] @ [log_in ''1'' ''root'']) portal_empty)"
proof -
  have "has_admin (portal_run sample_portal_lib [set_up] portal_empty)" by code_simp
  then show ?thesis by (rule last_admin_stays)
qed

text \<open>Root is signed in and has added ann.\<close>

definition with_ann :: portal where
  "with_ann =
     portal_empty\<lparr>pt_users := [(''root'', new_entry ((new_user ''root'')\<lparr>pu_password_hash := ''pw''\<rparr>)),
         (''ann'', new_entry ((new_user ''ann'')\<lparr>pu_password_hash := ''pw''\<rparr>))],
       pt_bindings := [global_role ''user:root'' role_owner, global_role ''user:ann'' role_member],
       pt_sessions := [(''#s1'', \<lparr>ss_username = ''root'', ss_csrf = ''c1'', ss_ip = ''10.0.0.7'',
         ss_agent = ''browser'', ss_created = 0, ss_expires = session_ttl, ss_last_seen = 0\<rparr>)]\<rparr>"

theorem sessions_are_earned_witness:
  "entitled sample_portal_lib (log_in ''2'' ''ann'') with_ann ''ann''"
proof -
  have "list_ex (\<lambda>(h, s). h = ''#s2'' \<and> ss_username s = ''ann'')
      (pt_sessions (after sample_portal_lib (log_in ''2'' ''ann'') with_ann))"
    by code_simp
  then obtain s where "(''#s2'', s) \<in> set (pt_sessions (after sample_portal_lib (log_in ''2'' ''ann'') with_ann))"
    "ss_username s = ''ann''"
    by (auto simp: list_ex_iff)
  moreover have "''#s2'' \<notin> session_keys with_ann" unfolding session_keys_def by code_simp
  ultimately show ?thesis using sessions_are_earned by metis
qed

definition ann_off :: portal where
  "ann_off = map_entry ''ann'' (ue_user_update (pu_disabled_update (\<lambda>_. True))) with_ann"

lemma with_ann_ok: "portal_ok with_ann" "portal_ok ann_off"
  unfolding portal_ok_def accounts_ok_def sessions_ok_def by code_simp+


text \<open>A sign-in link for ann, good for fifteen minutes.\<close>

definition ann_mailed :: portal where
  "ann_mailed = issue sample_portal_lib 0 ''t9'' ''ann'' purpose_login ''ann@x'' magic_link_ttl with_ann"

theorem link_works_once_witness:
  "lookup_link sample_portal_lib 2 ''t9'' purpose_login
     (portal_run sample_portal_lib [log_in ''2'' ''ann''] (spend_link sample_portal_lib ''t9'' ann_mailed)) = None"
proof -
  have "consume_link sample_portal_lib 1 ''t9'' purpose_login ann_mailed =
    (Some \<lparr>at_username = ''ann'', at_purpose = purpose_login, at_email = ''ann@x'', at_expiry = magic_link_ttl\<rparr>,
     spend_link sample_portal_lib ''t9'' ann_mailed)"
    by code_simp
  moreover have "list_all (spares (\<lambda>t. pl_sha sample_portal_lib t \<noteq> pl_sha sample_portal_lib ''t9'') (\<lambda>m. True))
      [log_in ''2'' ''ann'']"
    by code_simp
  ultimately show ?thesis by (rule link_works_once)
qed

theorem link_is_for_its_purpose_witness:
  "lookup_link sample_portal_lib 1 ''t9'' purpose_verify ann_mailed = None"
  using link_is_for_its_purpose [of "''t9''" sample_portal_lib 1 purpose_verify 0 "''ann''" purpose_login "''ann@x''"
      magic_link_ttl with_ann]
  by (simp add: ann_mailed_def purpose_verify_def purpose_login_def)

definition came_back :: web_request where
  "came_back = (sent None [])\<lparr>wq_post := False, wq_query := (\<lambda>k. if k = ''state'' then ''n1'' else ''code-1''),
     wq_state := Some (oauth_state_value ''oidc'' mode_login ''n1'' ''v1'')\<rparr>"

theorem oauth_state_roundtrip_witness:
  "take_oauth_state came_back ''oidc'' = Some (mode_login, ''v1'') \<and> take_oauth_state came_back ''github'' = None"
proof -
  have "list_all (\<lambda>s. CHR '':'' \<notin> set s) [''oidc'', ''n1'', ''v1'']" by code_simp
  moreover have "wq_state came_back = Some (oauth_state_value ''oidc'' mode_login ''n1'' ''v1'')"
    "wq_query came_back ''state'' = ''n1''"
    by (simp_all add: came_back_def)
  ultimately show ?thesis using oauth_state_roundtrip [of "''oidc''" "''n1''" "''v1''" mode_login came_back] by simp
qed

definition removing_ann :: web_request where
  "removing_ann = sent (Some ''s1'') [(''_csrf'', ''c1''), (''username'', ''ann''), (''password'', ''pw'')]"


text \<open>Bob's account is the provider's; it holds the role member, and the provider has just said no.\<close>

definition says_no :: json_lib where
  "says_no =
     \<lparr>jl_view = (\<lambda>raw. if raw = ''{}'' then Some (V_Object [(''error'', ''no'')])
         else if raw = ''no'' then Some (V_String ''invalid_grant'') else None),
      jl_same_key = (=), jl_text = (\<lambda>_. None)\<rparr>"

definition refusing :: provider_answers where
  "refusing = \<lparr>pa_token = (\<lambda>url form. Some (400, ''{}'')), pa_userinfo = (\<lambda>url token. None)\<rparr>"

definition sample_oidc :: oidc_config where
  "sample_oidc =
     \<lparr>oc_issuer = ''https://id'', oc_name = [], oc_auth_method = oidc_auth_basic, oc_authorize_url = ''https://id/a'',
      oc_token_url = ''https://id/t'', oc_userinfo_url = ''https://id/u'', oc_extra_scopes = [],
      oc_roles_claim = ''roles'', oc_provision = True, oc_role_map = [(''staff'', ''member''), (''ops'', ''admin'')],
      oc_groups_claim = [], oc_team_map = [], oc_attr_map = [], oc_revalidate = 60\<rparr>"

definition sample_settings :: portal_settings where
  "sample_settings =
     \<lparr>pg_oauth = (\<lambda>key. \<lparr>ao_enabled = True, ao_client_id = ''id'', ao_client_secret = ''secret''\<rparr>), pg_oidc = sample_oidc\<rparr>"

definition bobs_identity :: oauth_identity where
  "bobs_identity = \<lparr>oi_id = ''https://id#bob'', oi_label = ''bob'', oi_username = ''bob'', oi_claims = [], oi_refresh = ''r1''\<rparr>"

definition bob :: portal_user where
  "bob = (new_user ''bob'')\<lparr>pu_oidc_subject := ''https://id#bob'', pu_oidc_label := ''bob'',
     pu_managed_by := provider_oidc\<rparr>"

definition with_bob :: portal where
  "with_bob = with_ann\<lparr>pt_users := pt_users with_ann @ [(''bob'', (new_entry bob)\<lparr>ue_refresh := ''r1''\<rparr>)],
     pt_bindings := pt_bindings with_ann @ [global_role ''user:bob'' role_member]\<rparr>"

lemma with_bob_ok: "portal_ok with_bob"
  unfolding portal_ok_def accounts_ok_def sessions_ok_def by code_simp

theorem revalidation_needs_refusal_witness:
  "case lookup_user with_bob ''bob'' of None \<Rightarrow> False
   | Some u \<Rightarrow> turned_away sample_portal_lib says_no refusing sample_settings with_bob u"
proof -
  have on: "active with_bob ''bob''" by code_simp
  have off: "\<not> active (revalidate_oidc sample_portal_lib says_no (\<lambda>v. []) refusing sample_settings with_bob) ''bob''"
    by code_simp
  show ?thesis using revalidation_needs_refusal [OF with_bob_ok on off] by (simp split: option.splits)
qed

theorem roles_follow_provider_witness:
  "set (global_roles (sync_managed_access sample_portal_lib says_no (\<lambda>v. []) bob sample_oidc [''admin''] bobs_identity
      ''10.0.0.7'' with_bob) (pu_username bob)) = {''admin''}"
proof -
  have "visits sample_portal_lib" by (simp add: visits_def sample_portal_lib_def)
  moreover have "lookup_user with_bob (pu_username bob) \<noteq> None" "pu_managed_by bob = provider_oidc"
    "access_policy_on sample_oidc" "role_exists with_bob ''admin''"
    "global_roles with_bob (pu_username bob) = [''member'']"
    by code_simp+
  ultimately show ?thesis
    using roles_follow_provider [OF with_bob_ok, of sample_portal_lib bob sample_oidc "[''admin'']" says_no "\<lambda>v. []"
        bobs_identity "''10.0.0.7''"]
    by (auto simp: role_owner_def role_admin_def)
qed

theorem spent_link_serves_nobody_witness:
  "Served e \<notin> set [Turned_Away]"
proof -
  let ?p = "spend_link sample_portal_lib ''t9'' ann_mailed"
  have "lookup_link sample_portal_lib 1 ''t9'' purpose_login ?p = None" by code_simp
  then have "consume_step sample_portal_lib 1 ''t9'' purpose_login (?p, replicate 1 Asking) (?p, [Turned_Away])"
    using missed [of 0 "[Asking]" sample_portal_lib 1 "''t9''" purpose_login ?p] by simp
  then show ?thesis by (intro spent_link_serves_nobody [OF r_into_rtranclp])
qed

text \<open>A machine the provider vouches for, with no role there.\<close>

theorem token_login_makes_admins_witness:
  "\<exists>q u. admin_for_token_identity sample_portal_lib (drawn ''7'') (sent None []) bobs_identity with_ann =
     Some (q, u) \<and> is_privileged q (pu_username u)"
proof -
  let ?p = "with_ann"
  have "lookup_user_by_oauth ?p provider_oidc (oi_id bobs_identity) = None" by code_simp
  moreover have "admin_for_token_identity sample_portal_lib (drawn ''7'') (sent None []) bobs_identity ?p \<noteq> None"
    by code_simp
  ultimately show ?thesis using token_login_makes_admins by fastforce
qed

end
