(* ===== verification/Statistics.thy ===== *)
theory Statistics
  imports Hub "HOL-Library.Word"
begin

text \<open>
  The router's measurements: the rolling histograms of \<open>router/internal/latency/latency.go\<close> and the
  token counts of \<open>router/internal/stats/stats.go\<close>. Floating-point samples are rationals; times are
  nanoseconds, and the clock is an argument of every operation.
\<close>

section \<open>A histogram\<close>

record observation =
  ob_value :: rat
  ob_at :: gotime

record histogram =
  hg_window :: duration
  hg_obs :: "observation list"

definition new_histogram :: "duration \<Rightarrow> histogram" where
  "new_histogram window = \<lparr>hg_window = window, hg_obs = []\<rparr>"

definition observe :: "gotime \<Rightarrow> rat \<Rightarrow> histogram \<Rightarrow> histogram" where
  "observe now v h = h\<lparr>hg_obs := hg_obs h @ [\<lparr>ob_value = v, ob_at = now\<rparr>]\<rparr>"

definition seconds_of :: "duration \<Rightarrow> rat" where
  "seconds_of d = of_int d / of_int second_ns"

definition observe_duration :: "gotime \<Rightarrow> duration \<Rightarrow> histogram \<Rightarrow> histogram" where
  "observe_duration now d h = observe now (seconds_of d) h"

record snapshot =
  sn_p50 :: rat
  sn_p95 :: rat
  sn_p99 :: rat
  sn_sum :: rat
  sn_count :: nat

definition no_snapshot :: snapshot where
  "no_snapshot = \<lparr>sn_p50 = 0, sn_p95 = 0, sn_p99 = 0, sn_sum = 0, sn_count = 0\<rparr>"

text \<open>
  The position of a percentile. The code takes the ceiling of a floating-point product; 0.95 and 0.99
  are rounded down by less than half a unit in the last place, so that a product that should be whole
  is whole and the ceiling is that of the exact value.
\<close>

definition rank :: "nat \<Rightarrow> nat \<Rightarrow> nat" where
  "rank p n = (n * p + 99) div 100 - 1"

definition snapshot_of_values :: "rat list \<Rightarrow> snapshot" where
  "snapshot_of_values vals =
     (if vals = [] then no_snapshot
      else
        let sorted = sort vals; n = length vals
        in \<lparr>sn_p50 = sorted ! (n * 50 div 100), sn_p95 = sorted ! rank 95 n, sn_p99 = sorted ! rank 99 n,
            sn_sum = sum_list vals, sn_count = n\<rparr>)"

definition take_snapshot :: "gotime \<Rightarrow> histogram \<Rightarrow> snapshot \<times> histogram" where
  "take_snapshot now h =
     (let fresh = filter (\<lambda>ob. now - hg_window h < ob_at ob) (hg_obs h)
      in (snapshot_of_values (map ob_value fresh), h\<lparr>hg_obs := fresh\<rparr>))"

section \<open>The recorder\<close>

type_synonym histograms = "(string, histogram) gomap"

record recorder =
  rc_window :: duration
  rc_queue_wait :: histograms
  rc_ttft :: histograms
  rc_duration :: histograms
  rc_prompt_tps :: histograms
  rc_gen_tps :: histograms
  rc_prompt_tokens :: histograms
  rc_gen_tokens :: histograms

definition recorder_new :: recorder where
  "recorder_new =
     \<lparr>rc_window = 600 * second_ns, rc_queue_wait = [], rc_ttft = [], rc_duration = [], rc_prompt_tps = [],
      rc_gen_tps = [], rc_prompt_tokens = [], rc_gen_tokens = []\<rparr>"

text \<open>An observation in the histogram of a model, which is made when there is none.\<close>

definition observe_in :: "duration \<Rightarrow> gotime \<Rightarrow> string \<Rightarrow> rat \<Rightarrow> histograms \<Rightarrow> histograms" where
  "observe_in window now model v m = mput model (observe now v (get_or (new_histogram window) m model)) m"

definition record_queue_wait :: "gotime \<Rightarrow> string \<Rightarrow> duration \<Rightarrow> recorder \<Rightarrow> recorder" where
  "record_queue_wait now model d r =
     r\<lparr>rc_queue_wait := observe_in (rc_window r) now model (seconds_of d) (rc_queue_wait r)\<rparr>"

definition record_ttft :: "gotime \<Rightarrow> string \<Rightarrow> duration \<Rightarrow> recorder \<Rightarrow> recorder" where
  "record_ttft now model d r = r\<lparr>rc_ttft := observe_in (rc_window r) now model (seconds_of d) (rc_ttft r)\<rparr>"

definition record_duration :: "gotime \<Rightarrow> string \<Rightarrow> duration \<Rightarrow> recorder \<Rightarrow> recorder" where
  "record_duration now model d r =
     r\<lparr>rc_duration := observe_in (rc_window r) now model (seconds_of d) (rc_duration r)\<rparr>"

definition record_prompt_throughput :: "gotime \<Rightarrow> string \<Rightarrow> rat \<Rightarrow> recorder \<Rightarrow> recorder" where
  "record_prompt_throughput now model v r =
     (if v \<le> 0 then r else r\<lparr>rc_prompt_tps := observe_in (rc_window r) now model v (rc_prompt_tps r)\<rparr>)"

definition record_gen_throughput :: "gotime \<Rightarrow> string \<Rightarrow> rat \<Rightarrow> recorder \<Rightarrow> recorder" where
  "record_gen_throughput now model v r =
     (if v \<le> 0 then r else r\<lparr>rc_gen_tps := observe_in (rc_window r) now model v (rc_gen_tps r)\<rparr>)"

definition record_tokens :: "gotime \<Rightarrow> string \<Rightarrow> int \<Rightarrow> int \<Rightarrow> recorder \<Rightarrow> recorder" where
  "record_tokens now model prompt completion r =
     r\<lparr>rc_prompt_tokens := observe_in (rc_window r) now model (of_int prompt) (rc_prompt_tokens r),
       rc_gen_tokens := observe_in (rc_window r) now model (of_int completion) (rc_gen_tokens r)\<rparr>"

text \<open>What the hub records as it goes; its other events are not for the recorder.\<close>

fun record_event :: "gotime \<Rightarrow> hub_event \<Rightarrow> recorder \<Rightarrow> recorder" where
  "record_event now (Ev_Queue_Wait m d) r = record_queue_wait now m d r"
| "record_event now (Ev_TTFT m d) r = record_ttft now m d r"
| "record_event now (Ev_Duration m d) r = record_duration now m d r"
| "record_event now (Ev_Prompt_Throughput m v) r = record_prompt_throughput now m v r"
| "record_event now (Ev_Gen_Throughput m v) r = record_gen_throughput now m v r"
| "record_event now (Ev_Tokens m p c) r = record_tokens now m p c r"
| "record_event now _ r = r"

record model_snapshot =
  mn_queue_wait :: snapshot
  mn_ttft :: snapshot
  mn_duration :: snapshot
  mn_prompt_tps :: snapshot
  mn_gen_tps :: snapshot
  mn_prompt_tokens :: snapshot
  mn_gen_tokens :: snapshot

definition stage_snapshot :: "gotime \<Rightarrow> histogram option \<Rightarrow> snapshot" where
  "stage_snapshot now h = (case h of None \<Rightarrow> no_snapshot | Some h \<Rightarrow> fst (take_snapshot now h))"

definition pruned :: "gotime \<Rightarrow> histograms \<Rightarrow> histograms" where
  "pruned now m = map (\<lambda>(k, h). (k, snd (take_snapshot now h))) m"

definition recorded_models :: "recorder \<Rightarrow> string list" where
  "recorded_models r =
     remdups (concat (map mkeys [rc_queue_wait r, rc_ttft r, rc_duration r, rc_prompt_tps r, rc_gen_tps r,
       rc_prompt_tokens r, rc_gen_tokens r]))"

definition model_snapshot_of :: "gotime \<Rightarrow> recorder \<Rightarrow> string \<Rightarrow> model_snapshot" where
  "model_snapshot_of now r m =
     \<lparr>mn_queue_wait = stage_snapshot now (mget (rc_queue_wait r) m), mn_ttft = stage_snapshot now (mget (rc_ttft r) m),
      mn_duration = stage_snapshot now (mget (rc_duration r) m),
      mn_prompt_tps = stage_snapshot now (mget (rc_prompt_tps r) m), mn_gen_tps = stage_snapshot now (mget (rc_gen_tps r) m),
      mn_prompt_tokens = stage_snapshot now (mget (rc_prompt_tokens r) m),
      mn_gen_tokens = stage_snapshot now (mget (rc_gen_tokens r) m)\<rparr>"

definition snapshot_by_model :: "gotime \<Rightarrow> recorder \<Rightarrow> (string \<times> model_snapshot) list \<times> recorder" where
  "snapshot_by_model now r =
     (map (\<lambda>m. (m, model_snapshot_of now r m)) (recorded_models r),
      r\<lparr>rc_queue_wait := pruned now (rc_queue_wait r), rc_ttft := pruned now (rc_ttft r),
        rc_duration := pruned now (rc_duration r), rc_prompt_tps := pruned now (rc_prompt_tps r),
        rc_gen_tps := pruned now (rc_gen_tps r), rc_prompt_tokens := pruned now (rc_prompt_tokens r),
        rc_gen_tokens := pruned now (rc_gen_tokens r)\<rparr>)"

section \<open>Token counts\<close>

record usage_entry =
  ue_requests :: "64 word"
  ue_prompt_tokens :: "64 word"
  ue_completion_tokens :: "64 word"

record usage_stats =
  ut_by_model :: "(string, usage_entry) gomap"
  ut_by_user :: "(string, usage_entry) gomap"

definition usage_new :: usage_stats where
  "usage_new = \<lparr>ut_by_model = [], ut_by_user = []\<rparr>"

definition zero_usage :: usage_entry where
  "zero_usage = \<lparr>ue_requests = 0, ue_prompt_tokens = 0, ue_completion_tokens = 0\<rparr>"

definition usage_add :: "string \<Rightarrow> int \<Rightarrow> int \<Rightarrow> (string, usage_entry) gomap \<Rightarrow> (string, usage_entry) gomap" where
  "usage_add key prompt completion m =
     (let e = get_or zero_usage m key
      in mput key (e\<lparr>ue_requests := ue_requests e + 1, ue_prompt_tokens := ue_prompt_tokens e + word_of_int prompt,
                     ue_completion_tokens := ue_completion_tokens e + word_of_int completion\<rparr>) m)"

definition record_usage :: "string \<Rightarrow> string \<Rightarrow> int \<Rightarrow> int \<Rightarrow> usage_stats \<Rightarrow> usage_stats" where
  "record_usage model user prompt completion s =
     (if model = [] then s
      else
        let s = s\<lparr>ut_by_model := usage_add model prompt completion (ut_by_model s)\<rparr>
        in if user \<noteq> [] then s\<lparr>ut_by_user := usage_add user prompt completion (ut_by_user s)\<rparr> else s)"

section \<open>What the measurements say\<close>

text \<open>
  What the measurements say: percentiles are nearest ranks, a snapshot covers exactly its window
  however often it was taken, and the token counts are sums.
\<close>

section \<open>Percentiles\<close>

lemma sorted_rank:
  fixes xs :: "'a :: linorder list"
  assumes "sorted xs" and "k < length xs"
  shows "length (filter (\<lambda>x. x < xs ! k) xs) \<le> k" and "k < length (filter (\<lambda>x. x \<le> xs ! k) xs)"
proof -
  have split: "xs = take k xs @ xs ! k # drop (Suc k) xs" using assms(2) by (simp add: id_take_nth_drop)
  have high: "filter (\<lambda>x. x < xs ! k) (drop k xs) = []"
    using assms by (auto simp: filter_empty_conv in_set_conv_nth not_less sorted_nth_mono)
  have "length (filter (\<lambda>x. x < xs ! k) xs) =
      length (filter (\<lambda>x. x < xs ! k) (take k xs)) + length (filter (\<lambda>x. x < xs ! k) (drop k xs))"
    by (metis append_take_drop_id filter_append length_append)
  also have "\<dots> \<le> k" unfolding high using length_filter_le [of "\<lambda>x. x < xs ! k" "take k xs"] assms(2) by simp
  finally show "length (filter (\<lambda>x. x < xs ! k) xs) \<le> k" .
  have "filter (\<lambda>x. x \<le> xs ! k) (take (Suc k) xs) = take (Suc k) xs"
    using assms by (auto simp: filter_id_conv in_set_conv_nth sorted_nth_mono)
  then have "length (filter (\<lambda>x. x \<le> xs ! k) (take (Suc k) xs)) = Suc k" using assms(2) by simp
  moreover have "filter (\<lambda>x. x \<le> xs ! k) xs =
      filter (\<lambda>x. x \<le> xs ! k) (take (Suc k) xs) @ filter (\<lambda>x. x \<le> xs ! k) (drop (Suc k) xs)"
    by (metis append_take_drop_id filter_append)
  ultimately show "k < length (filter (\<lambda>x. x \<le> xs ! k) xs)" by simp
qed

lemma length_filter_sort: "length (filter P (sort xs)) = length (filter P xs)"
  by (metis mset_filter mset_sort size_mset)

definition below :: "rat \<Rightarrow> rat list \<Rightarrow> nat" where
  "below v vals = length (filter (\<lambda>x. x < v) vals)"

definition up_to :: "rat \<Rightarrow> rat list \<Rightarrow> nat" where
  "up_to v vals = length (filter (\<lambda>x. x \<le> v) vals)"

lemma rank_bounds:
  assumes "0 < n" and "0 < p" and "p \<le> 100"
  shows "rank p n < n \<and> 100 * rank p n < n * p \<and> n * p \<le> 100 * (rank p n + 1)"
proof -
  define m q where "m = n * p" and "q = (m + 99) div 100"
  have m: "0 < m" "m \<le> n * 100" using assms by (simp_all add: m_def)
  have q: "m + 99 = 100 * q + (m + 99) mod 100" "(m + 99) mod 100 < 100" by (simp_all add: q_def)
  then obtain j where "q = Suc j" using m(1) by (cases q) auto
  then show ?thesis unfolding rank_def m_def [symmetric] q_def [symmetric] using m q by simp
qed

lemma percentile_rank:
  assumes "k < length vals"
  shows "below (sort vals ! k) vals \<le> k \<and> k < up_to (sort vals ! k) vals"
  using sorted_rank [of "sort vals" k] assms by (simp add: below_def up_to_def length_filter_sort)

text \<open>
  The percentiles of a snapshot are nearest ranks: at least 95 in a hundred of the values are no
  greater than P95 and fewer are smaller than it, likewise for P99, and P50 is an upper median.
\<close>

theorem percentiles_are_nearest_ranks:
  assumes "vals \<noteq> []" and "s = snapshot_of_values vals" and "n = length vals"
  shows "100 * below (sn_p95 s) vals < 95 * n \<and> 95 * n \<le> 100 * up_to (sn_p95 s) vals \<and>
    100 * below (sn_p99 s) vals < 99 * n \<and> 99 * n \<le> 100 * up_to (sn_p99 s) vals \<and>
    2 * below (sn_p50 s) vals \<le> n \<and> n < 2 * up_to (sn_p50 s) vals"
proof -
  have n: "0 < n" using assms(1,3) by simp
  have s: "sn_p95 s = sort vals ! rank 95 n" "sn_p99 s = sort vals ! rank 99 n" "sn_p50 s = sort vals ! (n * 50 div 100)"
    using assms by (simp_all add: snapshot_of_values_def Let_def)
  have "n * 50 div 100 = n div 2" by simp
  then show ?thesis
    using rank_bounds [OF n, of 95] rank_bounds [OF n, of 99] percentile_rank [of "rank 95 n" vals]
      percentile_rank [of "rank 99 n" vals] percentile_rank [of "n div 2" vals] n
    unfolding s assms(3) by auto
qed

section \<open>The window\<close>

definition windowed :: "duration \<Rightarrow> histograms \<Rightarrow> bool" where
  "windowed w hs \<longleftrightarrow> list_all (\<lambda>(k, h). hg_window h = w) hs"

definition recent_values :: "gotime \<Rightarrow> duration \<Rightarrow> string \<Rightarrow> histograms \<Rightarrow> rat list" where
  "recent_values now w model hs =
     map ob_value (filter (\<lambda>ob. now - w < ob_at ob) (hg_obs (get_or (new_histogram w) hs model)))"

lemma windowed_mget: "windowed w hs \<Longrightarrow> mget hs k = Some h \<Longrightarrow> hg_window h = w"
  by (auto simp: windowed_def list_all_iff dest: mget_SomeD)

lemma windowed_update: "windowed w hs \<Longrightarrow> hg_window h = w \<Longrightarrow> windowed w (mput k h hs)"
  unfolding windowed_def by (induction hs) auto

lemma windowed_observe: "windowed w hs \<Longrightarrow> windowed w (observe_in w t k v hs)"
  unfolding observe_in_def
  by (rule windowed_update) (auto simp: observe_def get_or_def new_histogram_def windowed_mget split: option.splits)

lemma in_window_observe:
  "recent_values now w model (observe_in w t k v hs) =
     recent_values now w model hs @ (if k = model \<and> now - w < t then [v] else [])"
  by (auto simp: recent_values_def observe_in_def observe_def gomap_simps)

lemma windowed_pruned: "windowed w hs \<Longrightarrow> windowed w (pruned t hs)"
  by (auto simp: windowed_def pruned_def take_snapshot_def list_all_iff Let_def)

lemma mget_pruned: "mget (pruned t hs) k = map_option (\<lambda>h. snd (take_snapshot t h)) (mget hs k)"
  by (induction hs) (auto simp: pruned_def)

lemma in_window_pruned:
  assumes "windowed w hs" and "t \<le> now"
  shows "recent_values now w model (pruned t hs) = recent_values now w model hs"
proof (cases "mget hs model")
  case (Some h)
  have "hg_window h = w" using assms(1) mget_SomeD [OF Some] by (auto simp: windowed_def list_all_iff)
  moreover have "(now - w < x \<and> t - w < x) = (now - w < x)" for x using assms(2) by auto
  ultimately show ?thesis
    using Some by (simp add: recent_values_def get_or_def mget_pruned take_snapshot_def Let_def conj_commute)
qed (simp add: recent_values_def get_or_def mget_pruned)

lemma snapshot_in_window:
  "windowed w hs \<Longrightarrow> stage_snapshot now (mget hs model) = snapshot_of_values (recent_values now w model hs)"
  using windowed_mget [of w hs model]
  by (auto simp: stage_snapshot_def recent_values_def get_or_def take_snapshot_def new_histogram_def snapshot_of_values_def Let_def
      split: option.split)

text \<open>Events as they come, and the snapshots taken meanwhile, each with its time.\<close>

datatype recorder_op = Op_Event hub_event | Op_Snapshot

fun recorder_do :: "gotime \<times> recorder_op \<Rightarrow> recorder \<Rightarrow> recorder" where
  "recorder_do (t, Op_Event e) r = record_event t e r"
| "recorder_do (t, Op_Snapshot) r = snd (snapshot_by_model t r)"

text \<open>The values that belong in the window, read off the events.\<close>

definition durations_since :: "gotime \<Rightarrow> string \<Rightarrow> (gotime \<times> recorder_op) list \<Rightarrow> rat list" where
  "durations_since cutoff model ops =
     concat (map (\<lambda>(t, op). case op of
         Op_Event (Ev_Duration m d) \<Rightarrow> if m = model \<and> cutoff < t then [seconds_of d] else []
       | _ \<Rightarrow> []) ops)"

definition tokens_since :: "gotime \<Rightarrow> string \<Rightarrow> (gotime \<times> recorder_op) list \<Rightarrow> rat list" where
  "tokens_since cutoff model ops =
     concat (map (\<lambda>(t, op). case op of
         Op_Event (Ev_Tokens m p c) \<Rightarrow> if m = model \<and> cutoff < t then [of_int c] else []
       | _ \<Rightarrow> []) ops)"

definition recorder_ok :: "recorder \<Rightarrow> bool" where
  "recorder_ok r \<longleftrightarrow> windowed (rc_window r) (rc_duration r) \<and> windowed (rc_window r) (rc_gen_tokens r)"

lemma recorder_step:
  assumes "recorder_ok r" and "t \<le> now"
  shows "recorder_ok (recorder_do (t, op) r) \<and> rc_window (recorder_do (t, op) r) = rc_window r \<and>
    recent_values now (rc_window r) model (rc_duration (recorder_do (t, op) r)) =
      recent_values now (rc_window r) model (rc_duration r) @ durations_since (now - rc_window r) model [(t, op)] \<and>
    recent_values now (rc_window r) model (rc_gen_tokens (recorder_do (t, op) r)) =
      recent_values now (rc_window r) model (rc_gen_tokens r) @ tokens_since (now - rc_window r) model [(t, op)]"
proof (cases op)
  case (Op_Event e)
  show ?thesis
    using assms(1) unfolding Op_Event
    by (cases e) (auto simp: recorder_ok_def durations_since_def tokens_since_def record_queue_wait_def record_ttft_def
        record_duration_def record_prompt_throughput_def record_gen_throughput_def record_tokens_def
        in_window_observe windowed_observe)
next
  case Op_Snapshot
  then show ?thesis
    using assms
    by (auto simp: recorder_ok_def durations_since_def tokens_since_def snapshot_by_model_def windowed_pruned
        in_window_pruned)
qed

lemma recorder_run:
  assumes "recorder_ok r" and "list_all (\<lambda>(t, op). t \<le> now) ops"
  shows "recorder_ok (fold recorder_do ops r) \<and> rc_window (fold recorder_do ops r) = rc_window r \<and>
    recent_values now (rc_window r) model (rc_duration (fold recorder_do ops r)) =
      recent_values now (rc_window r) model (rc_duration r) @ durations_since (now - rc_window r) model ops \<and>
    recent_values now (rc_window r) model (rc_gen_tokens (fold recorder_do ops r)) =
      recent_values now (rc_window r) model (rc_gen_tokens r) @ tokens_since (now - rc_window r) model ops"
  using assms
proof (induction ops arbitrary: r)
  case Nil
  then show ?case by (simp add: durations_since_def tokens_since_def)
next
  case (Cons x ops)
  obtain t op where x: "x = (t, op)" by force
  have "t \<le> now" using Cons.prems(2) x by simp
  note step = recorder_step [OF Cons.prems(1) this, of op model]
  with Cons.IH [of "recorder_do x r"] Cons.prems(2) show ?case
    by (simp add: x durations_since_def tokens_since_def)
qed

text \<open>
  A snapshot speaks of its ten minutes and of nothing else: whatever was recorded and however
  often snapshots were taken before, the durations and token counts it reports for a model are those
  of the events of that model in the window; pruning never drops one that still counts.
\<close>

theorem snapshots_cover_their_window:
  assumes "list_all (\<lambda>(t, op). t \<le> now) ops" and "r = fold recorder_do ops recorder_new"
  shows "mn_duration (model_snapshot_of now r model) =
      snapshot_of_values (durations_since (now - 600 * second_ns) model ops) \<and>
    mn_gen_tokens (model_snapshot_of now r model) =
      snapshot_of_values (tokens_since (now - 600 * second_ns) model ops)"
proof -
  have start: "recorder_ok recorder_new" "rc_window recorder_new = 600 * second_ns"
    by (simp_all add: recorder_ok_def recorder_new_def windowed_def)
  have none: "recent_values now w model (rc_duration recorder_new) = []" "recent_values now w model (rc_gen_tokens recorder_new) = []" for w
    by (simp_all add: recent_values_def recorder_new_def new_histogram_def)
  note run = recorder_run [OF start(1) assms(1), of model, unfolded start(2) none, folded assms(2)]
  then have "windowed (600 * second_ns) (rc_duration r)" "windowed (600 * second_ns) (rc_gen_tokens r)"
    unfolding recorder_ok_def by (metis, metis)
  with run show ?thesis by (simp add: model_snapshot_of_def snapshot_in_window)
qed

section \<open>Token counts are sums\<close>

definition usage_of :: "(string \<times> string \<times> int \<times> int) list \<Rightarrow> usage_entry" where
  "usage_of calls =
     \<lparr>ue_requests = of_nat (length calls), ue_prompt_tokens = word_of_int (sum_list (map (\<lambda>(m, u, p, c). p) calls)),
      ue_completion_tokens = word_of_int (sum_list (map (\<lambda>(m, u, p, c). c) calls))\<rparr>"

lemma usage_of_snoc:
  "usage_of (calls @ [(m, u, p, c)]) =
     (usage_of calls)\<lparr>ue_requests := ue_requests (usage_of calls) + 1,
       ue_prompt_tokens := ue_prompt_tokens (usage_of calls) + word_of_int p,
       ue_completion_tokens := ue_completion_tokens (usage_of calls) + word_of_int c\<rparr>"
  by (simp add: usage_of_def)

text \<open>
  The token counts are sums: after any requests, the entry of a model holds the number of requests
  recorded for it and the totals of their tokens, and the entry of a user those of the user's
  requests; requests without a model count nowhere. Counts are 64-bit and wrap.
\<close>

theorem usage_is_a_sum:
  assumes "s = fold (\<lambda>(m, u, p, c). record_usage m u p c) calls usage_new" and "k \<noteq> []"
  shows "get_or zero_usage (ut_by_model s) k = usage_of (filter (\<lambda>x. fst x = k) calls) \<and>
    get_or zero_usage (ut_by_user s) k = usage_of (filter (\<lambda>x. fst x \<noteq> [] \<and> fst (snd x) = k) calls)"
  using assms(1)
proof (induction calls arbitrary: s rule: rev_induct)
  case Nil
  then show ?case by (simp add: usage_new_def usage_of_def zero_usage_def)
next
  case (snoc x calls)
  obtain m u p c where x: "x = (m, u, p, c)" by (cases x) auto
  define s0 where "s0 = fold (\<lambda>(m, u, p, c). record_usage m u p c) calls usage_new"
  have s: "s = record_usage m u p c s0" using snoc.prems by (simp add: x s0_def)
  have before: "get_or zero_usage (ut_by_model s0) k = usage_of (filter (\<lambda>x. fst x = k) calls)"
    "get_or zero_usage (ut_by_user s0) k = usage_of (filter (\<lambda>x. fst x \<noteq> [] \<and> fst (snd x) = k) calls)"
    using snoc.IH [OF s0_def] by auto
  show ?case
    using assms(2) before
    by (cases "m = k"; cases "u = k"; cases "m = []"; cases "u = []")
      (simp_all add: s x record_usage_def usage_add_def gomap_simps usage_of_snoc Let_def)
qed

end
