(* ===== verification/Health_Report.thy ===== *)
theory Health_Report
  imports Hub_Views Statistics
begin

text \<open>
  The public health document (\<open>router/internal/health/health.go\<close>), assembled from the hub, the queue's
  depth, the recorder and the token counts. The JSON encoder is not modelled; an omitted field is \<open>None\<close>.
\<close>

section \<open>The document\<close>

definition state_offline :: string where "state_offline = ''offline''"
definition state_idle :: string where "state_idle = ''idle''"
definition state_processing :: string where "state_processing = ''prompt_processing''"
definition state_decoding :: string where "state_decoding = ''decoding''"

record percentiles =
  pc_p50 :: rat
  pc_p95 :: rat
  pc_p99 :: rat

record recent_health =
  rh_window_seconds :: int
  rh_requests :: nat
  rh_prompt_tokens :: int
  rh_completion_tokens :: int
  rh_prompt_rate :: "percentiles option"
  rh_gen_rate :: "percentiles option"
  rh_ttft_ms :: "percentiles option"
  rh_queue_ms :: "percentiles option"
  rh_duration_ms :: "percentiles option"

record model_health =
  mh_model :: string
  mh_state :: string
  mh_clients :: int
  mh_slots_total :: int
  mh_slots_busy :: int
  mh_slots_free :: int
  mh_prompt_processing :: int
  mh_decoding :: int
  mh_context_window :: int
  mh_modalities :: "string list"
  mh_totals :: usage_entry
  mh_recent :: recent_health

record health_doc =
  hl_status :: string
  hl_version :: string
  hl_clients :: nat
  hl_queue_depth :: nat
  hl_active_jobs :: nat
  hl_models :: "model_health list"

definition model_state :: "model_activity \<Rightarrow> string" where
  "model_state a =
     (if mv_decoding a > 0 then state_decoding
      else if mv_prompt_processing a > 0 then state_processing
      else if mv_clients a = 0 then state_offline
      else state_idle)"

text \<open>\<open>math.Round\<close> is half away from zero; the result has two decimals.\<close>

definition round_half_away :: "rat \<Rightarrow> int" where
  "round_half_away x = (if x < 0 then - \<lfloor>- x + 1 / 2\<rfloor> else \<lfloor>x + 1 / 2\<rfloor>)"

definition round2 :: "rat \<Rightarrow> rat" where
  "round2 v = of_int (round_half_away (v * 100)) / 100"

definition rate_of :: "snapshot \<Rightarrow> percentiles option" where
  "rate_of s =
     (if sn_count s = 0 then None
      else Some \<lparr>pc_p50 = round2 (sn_p50 s), pc_p95 = round2 (sn_p95 s), pc_p99 = round2 (sn_p99 s)\<rparr>)"

definition millis_of :: "snapshot \<Rightarrow> percentiles option" where
  "millis_of s =
     (if sn_count s = 0 then None
      else Some \<lparr>pc_p50 = round2 (sn_p50 s * 1000), pc_p95 = round2 (sn_p95 s * 1000),
                 pc_p99 = round2 (sn_p99 s * 1000)\<rparr>)"

definition truncated :: "rat \<Rightarrow> int" where
  "truncated x = (if x < 0 then \<lceil>x\<rceil> else \<lfloor>x\<rfloor>)"

definition no_recent :: "duration \<Rightarrow> recent_health" where
  "no_recent window =
     \<lparr>rh_window_seconds = truncated (seconds_of window), rh_requests = 0, rh_prompt_tokens = 0,
      rh_completion_tokens = 0, rh_prompt_rate = None, rh_gen_rate = None, rh_ttft_ms = None, rh_queue_ms = None,
      rh_duration_ms = None\<rparr>"

definition recent_of :: "duration \<Rightarrow> model_snapshot \<Rightarrow> recent_health" where
  "recent_of window s =
     (no_recent window)
       \<lparr>rh_requests := sn_count (mn_prompt_tokens s), rh_prompt_tokens := truncated (sn_sum (mn_prompt_tokens s)),
        rh_completion_tokens := truncated (sn_sum (mn_gen_tokens s)), rh_prompt_rate := rate_of (mn_prompt_tps s),
        rh_gen_rate := rate_of (mn_gen_tps s), rh_ttft_ms := millis_of (mn_ttft s),
        rh_queue_ms := millis_of (mn_queue_wait s), rh_duration_ms := millis_of (mn_duration s)\<rparr>"

record health_inputs =
  hi_version :: string
  hi_clients :: nat
  hi_queue_depth :: nat
  hi_active_jobs :: nat
  hi_activity :: "model_activity list"
  hi_window :: duration
  hi_recent :: "(string, model_snapshot) gomap"
  hi_totals :: "(string, usage_entry) gomap"

definition build_model :: "health_inputs \<Rightarrow> model_activity \<Rightarrow> model_health" where
  "build_model i a =
     \<lparr>mh_model = mv_model a, mh_state = model_state a, mh_clients = mv_clients a,
      mh_slots_total = mv_total_slots a, mh_slots_busy = activity_busy a,
      mh_slots_free = max 0 (mv_total_slots a - activity_busy a),
      mh_prompt_processing = mv_prompt_processing a, mh_decoding = mv_decoding a,
      mh_context_window = mv_context_size a, mh_modalities = mv_modalities a,
      mh_totals = get_or zero_usage (hi_totals i) (mv_model a),
      mh_recent = (case mget (hi_recent i) (mv_model a) of
           None \<Rightarrow> no_recent (hi_window i)
         | Some s \<Rightarrow> recent_of (hi_window i) s)\<rparr>"

definition build_health :: "health_inputs \<Rightarrow> health_doc" where
  "build_health i =
     \<lparr>hl_status = ''ok'', hl_version = hi_version i, hl_clients = hi_clients i, hl_queue_depth = hi_queue_depth i,
      hl_active_jobs = hi_active_jobs i, hl_models = map (build_model i) (hi_activity i)\<rparr>"

text \<open>The handler; the recorder and the counts may be absent, and the recorder is pruned.\<close>

definition health_handler ::
  "gotime \<Rightarrow> string \<Rightarrow> hub \<Rightarrow> nat \<Rightarrow> recorder option \<Rightarrow> usage_stats option \<Rightarrow> health_doc \<times> recorder option" where
  "health_handler now version h queue_depth rec counts =
     (let recent = map_option (snapshot_by_model now) rec
      in (build_health
            \<lparr>hi_version = version, hi_clients = active_client_count h, hi_queue_depth = queue_depth,
             hi_active_jobs = length (all_in_flight_jobs h), hi_activity = activity_by_model h,
             hi_window = (case rec of None \<Rightarrow> 0 | Some r \<Rightarrow> rc_window r),
             hi_recent = (case recent of None \<Rightarrow> [] | Some (s, r) \<Rightarrow> s),
             hi_totals = (case counts of None \<Rightarrow> [] | Some c \<Rightarrow> ut_by_model c)\<rparr>,
          map_option snd recent))"

section \<open>What the document says\<close>

lemma recent_by_model:
  "mget (fst (snapshot_by_model now r)) m =
     (if m \<in> set (recorded_models r) then Some (model_snapshot_of now r m) else None)"
  unfolding snapshot_by_model_def fst_conv map_of_map_restrict by (simp add: restrict_map_def)

lemma stage_snapshot_None [simp]: "stage_snapshot now None = no_snapshot"
  by (simp add: stage_snapshot_def)

lemma not_recorded:
  assumes "m \<notin> set (recorded_models r)"
  shows "model_snapshot_of now r m =
    \<lparr>mn_queue_wait = no_snapshot, mn_ttft = no_snapshot, mn_duration = no_snapshot, mn_prompt_tps = no_snapshot,
     mn_gen_tps = no_snapshot, mn_prompt_tokens = no_snapshot, mn_gen_tokens = no_snapshot\<rparr>"
proof -
  have "mget (rc_queue_wait r) m = None" "mget (rc_ttft r) m = None" "mget (rc_duration r) m = None"
    "mget (rc_prompt_tps r) m = None" "mget (rc_gen_tps r) m = None" "mget (rc_prompt_tokens r) m = None"
    "mget (rc_gen_tokens r) m = None"
    using assms unfolding recorded_models_def mget_None_iff by simp_all
  then show ?thesis by (simp add: model_snapshot_of_def)
qed

lemma recent_of_nothing:
  "m \<notin> set (recorded_models r) \<Longrightarrow> recent_of w (model_snapshot_of now r m) = no_recent w"
  by (simp add: not_recorded recent_of_def no_recent_def no_snapshot_def rate_of_def millis_of_def truncated_def)

text \<open>
  The document lists the models the hub serves, in the hub's order, and for each its
  state by precedence, a number of free slots that is never negative nor above the total, and the
  measurements of the window; a percentile block is there exactly if something was measured, and
  what was counted for other names appears nowhere.
\<close>

theorem health_describes_the_hub:
  assumes "health_handler now v h d (Some r) (Some c) = (doc, r')"
  shows "map mh_model (hl_models doc) = map mv_model (activity_by_model h) \<and>
    list_all2 (\<lambda>m a. mh_state m = model_state a \<and> 0 \<le> mh_slots_free m \<and>
        (0 \<le> activity_busy a \<and> 0 \<le> mv_total_slots a \<longrightarrow> mh_slots_free m \<le> mh_slots_total m) \<and>
        mh_totals m = get_or zero_usage (ut_by_model c) (mv_model a) \<and>
        mh_recent m = recent_of (rc_window r) (model_snapshot_of now r (mv_model a)) \<and>
        (rh_duration_ms (mh_recent m) = None \<longleftrightarrow> sn_count (mn_duration (model_snapshot_of now r (mv_model a))) = 0))
      (hl_models doc) (activity_by_model h)"
proof -
  have doc: "hl_models doc = map (build_model
      \<lparr>hi_version = v, hi_clients = active_client_count h, hi_queue_depth = d,
       hi_active_jobs = length (all_in_flight_jobs h), hi_activity = activity_by_model h, hi_window = rc_window r,
       hi_recent = fst (snapshot_by_model now r), hi_totals = ut_by_model c\<rparr>) (activity_by_model h)"
    using assms by (auto simp: health_handler_def build_health_def Let_def split: prod.splits)
  have recent: "(case mget (fst (snapshot_by_model now r)) m of None \<Rightarrow> no_recent w | Some s \<Rightarrow> recent_of w s) =
      recent_of w (model_snapshot_of now r m)" for m w
    by (simp add: recent_by_model recent_of_nothing)
  show ?thesis
    unfolding doc list_all2_map1
  proof (intro conjI list.rel_refl_strong)
    show "map mh_model (map (build_model
      \<lparr>hi_version = v, hi_clients = active_client_count h, hi_queue_depth = d,
       hi_active_jobs = length (all_in_flight_jobs h), hi_activity = activity_by_model h, hi_window = rc_window r,
       hi_recent = fst (snapshot_by_model now r), hi_totals = ut_by_model c\<rparr>) (activity_by_model h)) =
      map mv_model (activity_by_model h)"
      by (simp add: build_model_def)
  next
    fix a
    show "rh_duration_ms (mh_recent (build_model
      \<lparr>hi_version = v, hi_clients = active_client_count h, hi_queue_depth = d,
       hi_active_jobs = length (all_in_flight_jobs h), hi_activity = activity_by_model h, hi_window = rc_window r,
       hi_recent = fst (snapshot_by_model now r), hi_totals = ut_by_model c\<rparr> a)) = None \<longleftrightarrow>
        sn_count (mn_duration (model_snapshot_of now r (mv_model a))) = 0"
      by (simp add: build_model_def recent) (simp add: recent_of_def millis_of_def)
  qed (simp_all add: build_model_def recent)
qed

end
