(* ===== verification/Portal_Stores.thy ===== *)
theory Portal_Stores
  imports Portal_Accounts Health_Report "HOL-Library.Product_Lexorder"
begin

text \<open>
  The portal's smaller tables in \<open>router/internal/admin/state.go\<close> and \<open>pricing.go\<close>: API keys, client
  tokens, model aliases with the two caches the router reads them through, the request-optimisation
  settings with theirs, and the prices. A table is a map from its primary key; a constraint of the
  schema that refuses a row is an error, a failure of the database is not modelled. That a read
  through a cache is two steps is the subject of the last section.
\<close>

section \<open>API keys and client tokens\<close>

record stored_key =
  ky_prefix :: string
  ky_label :: string
  ky_owner :: string
  ky_priority :: string
  ky_max_concurrent :: int
  ky_created_at :: gotime
  ky_expires :: expiry
  ky_created_by :: string
  ky_scope :: key_scope

type_synonym key_table = "(string, stored_key) gomap"

record stored_token =
  cn_prefix :: string
  cn_name :: string
  cn_owner :: string
  cn_created_at :: gotime
  cn_created_by :: string

type_synonym token_table = "(string, stored_token) gomap"

datatype store_error =
    Label_Taken string
  | Name_Taken string
  | Priority_Unknown string
  | Limit_Negative
  | Key_Missing
  | Token_Missing
  | Alias_Blank
  | Tier_Negative
  | Alias_Taken
  | Alias_Missing
  | Setting_Unknown
  | Model_Blank
  | Rate_Negative
  | Rate_Not_A_Number
  | Rate_Not_Finite
  | Rate_Too_High
  | Currency_Too_Long
  | Price_Missing

text \<open>
  \<open>SecretPrefix\<close>: what of a secret the portal shows, ended by an ellipsis.
\<close>

definition secret_prefix :: "string \<Rightarrow> string" where
  "secret_prefix s =
     (if length s > 32 then take (length s - 28) s @ bytes_of [0xE2, 0x80, 0xA6]
      else if length s > 8 then take 8 s @ bytes_of [0xE2, 0x80, 0xA6]
      else ''****'')"

definition lookup_api_key :: "portal_lib \<Rightarrow> key_table \<Rightarrow> string \<Rightarrow> stored_key option" where
  "lookup_api_key L t key = mget t (pl_sha L key)"

definition api_keys_for :: "key_table \<Rightarrow> string \<Rightarrow> bool \<Rightarrow> stored_key list" where
  "api_keys_for t owner is_admin =
     (if is_admin then sort_key (\<lambda>k. (ky_owner k, ky_label k)) (map snd t)
      else sort_key ky_label (filter (\<lambda>k. ky_owner k = owner) (map snd t)))"

definition add_api_key :: "string \<Rightarrow> stored_key \<Rightarrow> key_table \<Rightarrow> store_error + key_table" where
  "add_api_key h k t =
     (if mget t h \<noteq> None \<or> list_ex (\<lambda>(_, k'). ky_owner k' = ky_owner k \<and> ky_label k' = ky_label k) t
      then Inl (Label_Taken (ky_label k))
      else Inr (mput h k t))"

definition update_key :: "string \<Rightarrow> (stored_key \<Rightarrow> stored_key) \<Rightarrow> key_table \<Rightarrow> store_error + key_table" where
  "update_key h f t = (case mget t h of None \<Rightarrow> Inl Key_Missing | Some k \<Rightarrow> Inr (mput h (f k) t))"

definition update_api_key_priority :: "string \<Rightarrow> string \<Rightarrow> key_table \<Rightarrow> store_error + key_table" where
  "update_api_key_priority h prio t =
     (if prio \<notin> set [''high'', ''normal'', ''low''] then Inl (Priority_Unknown prio)
      else update_key h (\<lambda>k. k\<lparr>ky_priority := prio\<rparr>) t)"

definition update_api_key_max_concurrent :: "string \<Rightarrow> int \<Rightarrow> key_table \<Rightarrow> store_error + key_table" where
  "update_api_key_max_concurrent h limit t =
     (if limit < 0 then Inl Limit_Negative else update_key h (\<lambda>k. k\<lparr>ky_max_concurrent := limit\<rparr>) t)"

definition max_concurrent_for :: "portal_lib \<Rightarrow> key_table \<Rightarrow> string \<Rightarrow> int" where
  "max_concurrent_for L t key = (case lookup_api_key L t key of None \<Rightarrow> 0 | Some k \<Rightarrow> ky_max_concurrent k)"

definition priority_for :: "portal_lib \<Rightarrow> key_table \<Rightarrow> string \<Rightarrow> priority" where
  "priority_for L t key =
     (case lookup_api_key L t key of None \<Rightarrow> priority_normal | Some k \<Rightarrow> priority_from_string (ky_priority k))"

definition owner_for :: "portal_lib \<Rightarrow> key_table \<Rightarrow> string \<Rightarrow> string" where
  "owner_for L t key = (case lookup_api_key L t key of None \<Rightarrow> [] | Some k \<Rightarrow> ky_owner k)"

definition label_for :: "portal_lib \<Rightarrow> key_table \<Rightarrow> string \<Rightarrow> string" where
  "label_for L t key = (case lookup_api_key L t key of None \<Rightarrow> [] | Some k \<Rightarrow> ky_owner k @ ''/'' @ ky_label k)"

definition revoke_api_key :: "string \<Rightarrow> string \<Rightarrow> bool \<Rightarrow> key_table \<Rightarrow> store_error + key_table" where
  "revoke_api_key owner h is_admin t =
     (case mget t h of
        None \<Rightarrow> Inl Key_Missing
      | Some k \<Rightarrow> if is_admin \<or> ky_owner k = owner then Inr (mdel h t) else Inl Key_Missing)"

definition lookup_client_token :: "portal_lib \<Rightarrow> token_table \<Rightarrow> string \<Rightarrow> stored_token option" where
  "lookup_client_token L t token = mget t (pl_sha L token)"

definition add_client_token :: "string \<Rightarrow> stored_token \<Rightarrow> token_table \<Rightarrow> store_error + token_table" where
  "add_client_token h k t =
     (if mget t h \<noteq> None \<or> list_ex (\<lambda>(_, k'). cn_owner k' = cn_owner k \<and> cn_name k' = cn_name k) t
      then Inl (Name_Taken (cn_name k))
      else Inr (mput h k t))"

definition client_tokens_for :: "token_table \<Rightarrow> string \<Rightarrow> bool \<Rightarrow> stored_token list" where
  "client_tokens_for t owner is_admin =
     (if is_admin then sort_key (\<lambda>k. (cn_owner k, cn_name k)) (map snd t)
      else sort_key cn_name (filter (\<lambda>k. cn_owner k = owner) (map snd t)))"

definition revoke_client_token :: "string \<Rightarrow> string \<Rightarrow> bool \<Rightarrow> token_table \<Rightarrow> store_error + token_table" where
  "revoke_client_token owner h is_admin t =
     (case mget t h of
        None \<Rightarrow> Inl Token_Missing
      | Some k \<Rightarrow> if is_admin \<or> cn_owner k = owner then Inr (mdel h t) else Inl Token_Missing)"

text \<open>\<open>LookupActiveClientToken\<close> without the note of its use.\<close>

definition lookup_active_client_token :: "portal_lib \<Rightarrow> portal \<Rightarrow> token_table \<Rightarrow> string \<Rightarrow> stored_token option" where
  "lookup_active_client_token L p t token =
     (case lookup_client_token L t token of
        None \<Rightarrow> None
      | Some k \<Rightarrow> if principal_active p (owner_principal (cn_owner k)) then Some k else None)"

text \<open>
  \<open>SetClientReservedSlots\<close> on the sharing setting it reads and writes back, and the slots of older
  databases.
\<close>

definition reserve_slots :: "sharing option \<Rightarrow> string \<Rightarrow> int \<Rightarrow> sharing" where
  "reserve_slots current model slots =
     (let model = (if model = ''any'' then ''*'' else model);
          sh = (case current of
                  None \<Rightarrow> \<lparr>sh_mode = share_open, sh_with = [], sh_reserved_slots = [], sh_per_requester_max = 0,
                           sh_reclaim = False\<rparr>
                | Some c \<Rightarrow> c);
          reserved = sh_reserved_slots sh
      in sh\<lparr>sh_reserved_slots := (if slots > 0 then mput model slots reserved else mdel model reserved)\<rparr>)"

definition reserved_from_owner_slots :: "(string, int) gomap \<Rightarrow> (string, int) gomap" where
  "reserved_from_owner_slots slots =
     fold (\<lambda>(m, n) out. if n \<le> 0 then out else mput (if m = ''any'' then ''*'' else m) n out) slots []"

section \<open>Settings\<close>

text \<open>The toggles of request optimisation, by the key of their row.\<close>

definition opt_setters :: "(string, bool \<Rightarrow> request_optimization \<Rightarrow> request_optimization) gomap" where
  "opt_setters =
     [(''reqopt.coalesce_normalize'', \<lambda>b opts. opts\<lparr>op_coalesce_normalize := b\<rparr>),
      (''reqopt.prefix_affinity'', \<lambda>b opts. opts\<lparr>op_prefix_affinity := b\<rparr>),
      (''reqopt.clean_requests'', \<lambda>b opts. opts\<lparr>op_clean_requests := b\<rparr>),
      (''reqopt.clean_aggressive'', \<lambda>b opts. opts\<lparr>op_clean_aggressive := b\<rparr>),
      (''reqopt.clamp_params'', \<lambda>b opts. opts\<lparr>op_clamp_params := b\<rparr>)]"

definition no_opts :: request_optimization where
  "no_opts =
     \<lparr>op_coalesce_normalize = False, op_prefix_affinity = False, op_clean_requests = False,
      op_clean_aggressive = False, op_clamp_params = False\<rparr>"

definition opt_row :: "string \<times> string \<Rightarrow> request_optimization \<Rightarrow> request_optimization" where
  "opt_row row opts =
     (case mget opt_setters (fst row) of None \<Rightarrow> opts | Some set_it \<Rightarrow> set_it (snd row = ''1'') opts)"

definition read_opts :: "(string, string) gomap \<Rightarrow> request_optimization" where
  "read_opts rows = fold opt_row rows no_opts"

record settings_store =
  st_rows :: "(string, string) gomap"
  st_opt_cache :: "request_optimization option"

definition request_opts :: "settings_store \<Rightarrow> request_optimization \<times> settings_store" where
  "request_opts s =
     (case st_opt_cache s of
        Some opts \<Rightarrow> (opts, s)
      | None \<Rightarrow> (let opts = read_opts (st_rows s) in (opts, s\<lparr>st_opt_cache := Some opts\<rparr>)))"

definition set_request_opt :: "string \<Rightarrow> bool \<Rightarrow> settings_store \<Rightarrow> store_error + settings_store" where
  "set_request_opt key enabled s =
     (if mget opt_setters key = None then Inl Setting_Unknown
      else Inr (s\<lparr>st_rows := mput key (if enabled then ''1'' else ''0'') (st_rows s), st_opt_cache := None\<rparr>))"

definition portal_host :: "settings_store \<Rightarrow> string" where
  "portal_host s = get_or [] (st_rows s) ''portal.host''"

definition set_portal_host :: "string \<Rightarrow> settings_store \<Rightarrow> settings_store" where
  "set_portal_host host s =
     s\<lparr>st_rows := (if host = [] then mdel ''portal.host'' (st_rows s) else mput ''portal.host'' host (st_rows s))\<rparr>"

definition cost_currency :: "settings_store \<Rightarrow> string" where
  "cost_currency s =
     (case mget (st_rows s) ''cost.currency'' of
        None \<Rightarrow> ''USD''
      | Some v \<Rightarrow> if trim_space v = [] then ''USD'' else v)"

definition set_cost_currency :: "string \<Rightarrow> settings_store \<Rightarrow> store_error + settings_store" where
  "set_cost_currency code s =
     (let code = trim_space code;
          code = (if code = [] then ''USD'' else code)
      in if length code > 8 then Inl Currency_Too_Long
         else Inr (s\<lparr>st_rows := mput ''cost.currency'' code (st_rows s)\<rparr>))"

section \<open>Aliases\<close>

text \<open>The primary key is alias and model, the column the tier; the caches hold what was read.\<close>

type_synonym alias_table = "(string \<times> string, int) gomap"

record alias_store =
  al_rows :: alias_table
  al_cache :: "(string, alias_target list) gomap option"
  al_names :: "(string, string list) gomap option"

definition alias_store_new :: alias_store where
  "alias_store_new = \<lparr>al_rows = [], al_cache = None, al_names = None\<rparr>"

definition target_key :: "alias_target \<Rightarrow> int \<times> string" where
  "target_key x = (at_priority x, at_model x)"

definition sorted_rows :: "alias_table \<Rightarrow> (string \<times> alias_target) list" where
  "sorted_rows t =
     sort_key (\<lambda>(a, x). (a, target_key x)) (map (\<lambda>((a, m), n). (a, \<lparr>at_model = m, at_priority = n\<rparr>)) t)"

definition read_targets :: "alias_table \<Rightarrow> (string, alias_target list) gomap" where
  "read_targets t = fold (\<lambda>(a, x) out. mput a (get_or [] out a @ [x]) out) (sorted_rows t) []"

definition alias_targets :: "alias_store \<Rightarrow> (string, alias_target list) gomap \<times> alias_store" where
  "alias_targets s =
     (case al_cache s of
        Some c \<Rightarrow> (c, s)
      | None \<Rightarrow> (let c = read_targets (al_rows s) in (c, s\<lparr>al_cache := Some c\<rparr>)))"

definition alias_model_map :: "alias_store \<Rightarrow> (string, string list) gomap \<times> alias_store" where
  "alias_model_map s =
     (case al_names s of
        Some n \<Rightarrow> (n, s)
      | None \<Rightarrow>
          (case alias_targets s of
             (c, s) \<Rightarrow> (let n = map (\<lambda>(a, xs). (a, map at_model xs)) c in (n, s\<lparr>al_names := Some n\<rparr>))))"

definition invalidate_aliases :: "alias_store \<Rightarrow> alias_store" where
  "invalidate_aliases s = s\<lparr>al_cache := None, al_names := None\<rparr>"

definition add_alias :: "string \<Rightarrow> string \<Rightarrow> int \<Rightarrow> alias_store \<Rightarrow> store_error option \<times> alias_store" where
  "add_alias a m tier s =
     (if a = [] \<or> m = [] then (Some Alias_Blank, s)
      else if tier < 0 then (Some Tier_Negative, s)
      else if mget (al_rows s) (a, m) \<noteq> None then (Some Alias_Taken, s)
      else (None, invalidate_aliases (s\<lparr>al_rows := mput (a, m) tier (al_rows s)\<rparr>)))"

text \<open>An \<open>UPDATE\<close> of a row that is not there changes nothing.\<close>

definition set_tier :: "string \<Rightarrow> nat \<times> string \<Rightarrow> alias_table \<Rightarrow> alias_table" where
  "set_tier a im t = (case im of (i, m) \<Rightarrow> if mget t (a, m) = None then t else mput (a, m) (int i) t)"

definition swapped :: "'e list \<Rightarrow> nat \<Rightarrow> nat \<Rightarrow> 'e list" where
  "swapped xs i j = xs[i := xs ! j, j := xs ! i]"

fun position :: "('e \<Rightarrow> bool) \<Rightarrow> 'e list \<Rightarrow> nat option" where
  "position P [] = None"
| "position P (x # xs) = (if P x then Some 0 else map_option Suc (position P xs))"

definition move_alias_target :: "string \<Rightarrow> string \<Rightarrow> int \<Rightarrow> alias_store \<Rightarrow> store_error option \<times> alias_store" where
  "move_alias_target a m delta s =
     (case alias_targets s of
        (c, s) \<Rightarrow>
          let targets = get_or [] c a
          in (case position (\<lambda>x. at_model x = m) targets of
                None \<Rightarrow> (Some Alias_Missing, s)
              | Some i \<Rightarrow>
                  let dest = int i + delta
                  in if dest < 0 \<or> dest \<ge> int (length targets) then (None, s)
                     else
                       let order = swapped (map at_model targets) i (nat dest)
                       in (None, invalidate_aliases
                             (s\<lparr>al_rows := fold (set_tier a) (enumerate 0 order) (al_rows s)\<rparr>))))"

definition delete_alias :: "string \<Rightarrow> string \<Rightarrow> alias_store \<Rightarrow> store_error option \<times> alias_store" where
  "delete_alias a m s =
     (if mget (al_rows s) (a, m) = None then (Some Alias_Missing, s)
      else (None, invalidate_aliases (s\<lparr>al_rows := mdel (a, m) (al_rows s)\<rparr>)))"

definition delete_alias_group :: "string \<Rightarrow> alias_store \<Rightarrow> store_error option \<times> alias_store" where
  "delete_alias_group a s =
     (if \<not> list_ex (\<lambda>((a', m), n). a' = a) (al_rows s) then (Some Alias_Missing, s)
      else (None, invalidate_aliases (s\<lparr>al_rows := filter (\<lambda>((a', m), n). a' \<noteq> a) (al_rows s)\<rparr>)))"

section \<open>Prices\<close>

record model_pricing =
  mp_input_ppm :: int
  mp_output_ppm :: int
  mp_basis :: string
  mp_updated_at :: gotime

definition basis_actual :: string where "basis_actual = ''actual''"
definition basis_estimated :: string where "basis_estimated = ''estimated''"
definition tokens_per_rate_unit :: int where "tokens_per_rate_unit = 1000000"
definition micro_per_unit :: int where "micro_per_unit = 1000000"
definition max_rate_per_mtok :: int where "max_rate_per_mtok = 1000000"

definition priced :: "model_pricing \<Rightarrow> bool" where
  "priced r \<longleftrightarrow> mp_input_ppm r > 0 \<or> mp_output_ppm r > 0"

definition valid_basis :: "portal_lib \<Rightarrow> string \<Rightarrow> string" where
  "valid_basis L s = (if trim_space (to_lower L s) = basis_actual then basis_actual else basis_estimated)"

text \<open>What \<open>strconv.ParseFloat\<close> makes of a text is an argument.\<close>

datatype float_text = Float_Bad | Float_Not_Finite | Float_Is rat

definition currency_marks :: "string list" where
  "currency_marks = [''$'', bytes_of [0xC2, 0xA3], bytes_of [0xE2, 0x82, 0xAC], bytes_of [0xC2, 0xA5], '' '']"

function trim_marks :: "string \<Rightarrow> string" where
  "trim_marks s =
     (case find (has_prefix s) currency_marks of
        None \<Rightarrow> s
      | Some m \<Rightarrow> if m = [] \<or> s = [] then s else trim_marks (drop (length m) s))"
  by auto
termination by (relation "measure length") auto

definition parse_rate :: "(string \<Rightarrow> float_text) \<Rightarrow> string \<Rightarrow> store_error + int" where
  "parse_rate parse text =
     (let s = trim_space text
      in if s = [] then Inr 0
         else
           (case parse (filter (\<lambda>c. c \<noteq> CHR '','') (trim_marks s)) of
              Float_Bad \<Rightarrow> Inl Rate_Not_A_Number
            | Float_Not_Finite \<Rightarrow> Inl Rate_Not_Finite
            | Float_Is f \<Rightarrow>
                if f < 0 then Inl Rate_Negative
                else if f > of_int max_rate_per_mtok then Inl Rate_Too_High
                else Inr (round_half_away (f * of_int micro_per_unit))))"

text \<open>\<open>CostMicro\<close> in 64 bits.\<close>

definition cost_micro :: "model_pricing \<Rightarrow> int \<Rightarrow> int \<Rightarrow> int" where
  "cost_micro r p c =
     quot_trunc (wrap64 (wrap64 (p * mp_input_ppm r) + wrap64 (c * mp_output_ppm r))) tokens_per_rate_unit"

definition set_model_pricing ::
  "portal_lib \<Rightarrow> gotime \<Rightarrow> string \<Rightarrow> int \<Rightarrow> int \<Rightarrow> string \<Rightarrow> (string, model_pricing) gomap \<Rightarrow>
     store_error + (string, model_pricing) gomap"
where
  "set_model_pricing L now model inp out basis t =
     (let model = trim_space model
      in if model = [] then Inl Model_Blank
         else if inp < 0 \<or> out < 0 then Inl Rate_Negative
         else Inr (mput model \<lparr>mp_input_ppm = inp, mp_output_ppm = out, mp_basis = valid_basis L basis,
                               mp_updated_at = to_second now\<rparr> t))"

definition delete_model_pricing ::
  "string \<Rightarrow> (string, model_pricing) gomap \<Rightarrow> store_error + (string, model_pricing) gomap" where
  "delete_model_pricing model t = (if mget t model = None then Inl Price_Missing else Inr (mdel model t))"

end
