(* ===== verification/Portal_Stores_Properties.thy ===== *)
theory Portal_Stores_Properties
  imports Portal_Stores
begin

text \<open>
  What the stores promise: whatever the order of changes and reads, reading through a cache answers
  as if there were none; a key is revoked only by its owner or an administrator; prices are exact as
  long as 64 bits hold them. And the two places where that ends.
\<close>

section \<open>Stores that answer alike\<close>

text \<open>The answers of a store to a sequence of operations, and when two stores answer alike.\<close>

fun answers :: "('op \<Rightarrow> 's \<Rightarrow> 'a \<times> 's) \<Rightarrow> 'op list \<Rightarrow> 's \<Rightarrow> 'a list" where
  "answers act [] s = []"
| "answers act (x # xs) s = (case act x s of (a, s') \<Rightarrow> a # answers act xs s')"

locale simulation =
  fixes act :: "'op \<Rightarrow> 's \<Rightarrow> 'a \<times> 's" and spec :: "'op \<Rightarrow> 't \<Rightarrow> 'a \<times> 't" and rel :: "'s \<Rightarrow> 't \<Rightarrow> bool"
  assumes step: "rel s t \<Longrightarrow> fst (act x s) = fst (spec x t) \<and> rel (snd (act x s)) (snd (spec x t))"
begin

lemma same_answers: "rel s t \<Longrightarrow> answers act xs s = answers spec xs t"
proof (induction xs arbitrary: s t)
  case (Cons x xs)
  from step [OF Cons.prems, of x] Cons.IH show ?case by (auto split: prod.split)
qed simp

end

section \<open>Ordered preferences\<close>

text \<open>The targets of an alias, most preferred first, as the table has them.\<close>

definition ranked :: "alias_table \<Rightarrow> string \<Rightarrow> alias_target list \<Rightarrow> bool" where
  "ranked t a xs \<longleftrightarrow> sorted (map target_key xs) \<and> distinct (map at_model xs) \<and>
     (\<forall>x. x \<in> set xs \<longleftrightarrow> mget t (a, at_model x) = Some (at_priority x))"

lemma target_key_inj: "inj target_key"
  by (auto simp: inj_def target_key_def intro: alias_target.equality)

lemma distinct_target_key: "distinct (map at_model xs) \<Longrightarrow> distinct (map target_key xs)"
  by (auto simp: distinct_map inj_on_def target_key_def)

lemma ranked_unique:
  assumes "ranked t a xs" and "ranked t a ys"
  shows "xs = ys"
proof (rule map_sorted_distinct_set_unique)
  show "inj_on target_key (set xs \<union> set ys)" using target_key_inj by (auto intro: inj_on_subset)
  show "set xs = set ys" using assms by (auto simp: ranked_def)
qed (use assms distinct_target_key in \<open>auto simp: ranked_def\<close>)

lemma targets_fold:
  "get_or [] (fold (\<lambda>(a, x) out. mput a (get_or [] out a @ [x]) out) rows out) b =
     get_or [] out b @ map snd (filter (\<lambda>r. fst r = b) rows)"
  by (induction rows arbitrary: out) (auto simp: gomap_simps)

lemma targets_of_alias: "get_or [] (read_targets t) a = map snd (filter (\<lambda>r. fst r = a) (sorted_rows t))"
  by (simp add: read_targets_def targets_fold)

lemma distinct_sorted: "distinct (map g xs) \<Longrightarrow> distinct (map g (sort_key f xs))"
  by (metis mset_eq_imp_distinct_iff mset_map mset_sort)

lemma read_ranked:
  assumes "wf_map t"
  shows "ranked t a (get_or [] (read_targets t) a)"
proof -
  let ?key = "\<lambda>(b :: string, x). (b, target_key x)"
  let ?rows = "filter (\<lambda>r. fst r = a) (sorted_rows t)"
  have rows: "map ?key ?rows = map (\<lambda>r. (a, target_key (snd r))) ?rows" by (auto simp: case_prod_beta)
  have "sorted (map ?key ?rows)"
    by (simp add: sorted_rows_def filter_sort)
  then have "sorted (map (\<lambda>r. (a, target_key (snd r))) ?rows)" by (simp only: rows)
  then have sorted: "sorted (map target_key (map snd ?rows))"
    by (simp add: sorted_map sorted_wrt_map)
  have members: "(a, x) \<in> set (sorted_rows t) \<longleftrightarrow> mget t (a, at_model x) = Some (at_priority x)" for x
    using assms by (force simp: sorted_rows_def wf_map_set_iff [symmetric] image_iff)
  have "distinct (map (\<lambda>r. (fst r, at_model (snd r))) (map (\<lambda>((a, m), n). (a, \<lparr>at_model = m, at_priority = n\<rparr>)) t))"
    using assms by (simp add: case_prod_beta comp_def)
  then have "distinct (map (\<lambda>r. (fst r, at_model (snd r))) (sorted_rows t))"
    unfolding sorted_rows_def by (rule distinct_sorted)
  then have "distinct (map at_model (map snd ?rows))"
    by (auto simp: distinct_map inj_on_def)
  then show ?thesis
    unfolding ranked_def targets_of_alias using sorted members by (auto simp: image_iff)
qed

text \<open>What the changes of the table make of a ranking.\<close>

lemma ranked_other:
  assumes "ranked t a xs" and "\<And>m. mget t' (a, m) = mget t (a, m)"
  shows "ranked t' a xs"
  using assms by (simp add: ranked_def)

lemma ranked_add:
  assumes "ranked t a xs" and "mget t (a, m) = None"
  shows "ranked (mput (a, m) n t) a (insort_key target_key \<lparr>at_model = m, at_priority = n\<rparr> xs)"
proof -
  let ?x = "\<lparr>at_model = m, at_priority = n\<rparr>"
  have new: "m \<notin> at_model ` set xs" using assms by (force simp: ranked_def)
  have "distinct (map at_model (?x # xs))" using assms(1) new by (simp add: ranked_def)
  then have "distinct (map at_model (insort_key target_key ?x xs))"
    by (metis mset_eq_imp_distinct_iff mset_insort mset_map mset.simps(2))
  moreover have "x \<in> set (insort_key target_key ?x xs) \<longleftrightarrow>
      mget (mput (a, m) n t) (a, at_model x) = Some (at_priority x)" for x
    using assms new by (cases x) (force simp: ranked_def gomap_simps set_insort_key)
  moreover have "sorted (map target_key (insort_key target_key ?x xs))"
    using assms(1) by (simp add: ranked_def sorted_insort_key)
  ultimately show ?thesis by (simp add: ranked_def)
qed

lemma ranked_delete:
  assumes "ranked t a xs"
  shows "ranked (mdel (a, m) t) a (filter (\<lambda>x. at_model x \<noteq> m) xs)"
  using assms by (auto simp: ranked_def gomap_simps sorted_filter distinct_map_filter)

lemma ranked_here: "ranked t a xs \<Longrightarrow> mget t (a, m) = None \<longleftrightarrow> m \<notin> at_model ` set xs"
proof
  assume r: "ranked t a xs" and "mget t (a, m) = None"
  then show "m \<notin> at_model ` set xs" by (force simp: ranked_def)
next
  assume r: "ranked t a xs" and n: "m \<notin> at_model ` set xs"
  show "mget t (a, m) = None"
  proof (rule ccontr)
    assume "mget t (a, m) \<noteq> None"
    then obtain v where "mget t (a, m) = Some v" by blast
    then have "\<lparr>at_model = m, at_priority = v\<rparr> \<in> set xs" using r by (simp add: ranked_def)
    with n show False by force
  qed
qed

lemma set_tiers:
  assumes "distinct order" and "\<And>m. m \<in> set order \<Longrightarrow> mget t (a, m) \<noteq> None"
  shows "mget (fold (set_tier a) (enumerate n order) t) (b, m) =
    (if b = a \<and> m \<in> set order then map_option (\<lambda>i. int n + int i) (position (\<lambda>x. x = m) order)
     else mget t (b, m))"
  using assms
proof (induction order arbitrary: n t)
  case (Cons x order)
  have here: "mget t (a, x) \<noteq> None" using Cons.prems by simp
  have "mget (set_tier a (n, x) t) (a, m) \<noteq> None" if "m \<in> set order" for m
    using Cons.prems that here by (auto simp: set_tier_def gomap_simps)
  note later = Cons.IH [OF _ this, of "Suc n"]
  show ?case
    using Cons.prems(1) here later
    by (auto simp: set_tier_def gomap_simps option.map_comp comp_def ac_simps)
qed simp

lemma position_nth: "position P xs = Some i \<Longrightarrow> i < length xs \<and> P (xs ! i)"
  by (induction xs arbitrary: i) (auto split: if_splits)

lemma position_distinct: "distinct xs \<Longrightarrow> i < length xs \<Longrightarrow> position (\<lambda>x. x = xs ! i) xs = Some i"
  by (induction xs arbitrary: i) (auto simp: nth_Cons split: nat.splits)

lemma position_None: "position P xs = None \<longleftrightarrow> list_all (\<lambda>x. \<not> P x) xs"
  by (induction xs) auto

lemma wf_set_tiers: "wf_map t \<Longrightarrow> wf_map (fold (set_tier a) ims t)"
  by (induction ims arbitrary: t) (auto simp: set_tier_def)

lemma swapped_perm:
  assumes "i < length xs" and "j < length xs"
  shows "mset (swapped xs i j) = mset xs"
  using assms by (simp add: swapped_def mset_swap)

text \<open>A list of models as a strict chain of tiers.\<close>

definition chain :: "string list \<Rightarrow> alias_target list" where
  "chain order = map (\<lambda>(i, m). \<lparr>at_model = m, at_priority = int i\<rparr>) (enumerate 0 order)"

lemma chain_models [simp]: "map at_model (chain order) = order"
proof -
  have "map at_model (map (\<lambda>(i, m). \<lparr>at_model = m, at_priority = int i\<rparr>) (enumerate n order)) = order" for n
    by (induction order arbitrary: n) auto
  then show ?thesis by (simp add: chain_def)
qed

lemma chain_nth: "i < length order \<Longrightarrow> chain order ! i = \<lparr>at_model = order ! i, at_priority = int i\<rparr>"
  by (simp add: chain_def nth_enumerate_eq)

lemma length_chain [simp]: "length (chain order) = length order"
  by (simp add: chain_def)

lemma ranked_chain:
  assumes "ranked t a xs" and "mset order = mset (map at_model xs)"
  shows "ranked (fold (set_tier a) (enumerate 0 order) t) a (chain order)"
proof -
  have d: "distinct order" using assms by (metis mset_eq_imp_distinct_iff ranked_def)
  have here: "mget t (a, m) \<noteq> None" if "m \<in> set order" for m
    using ranked_here [OF assms(1), of m] that mset_eq_setD [OF assms(2)] by auto
  have gone: "mget t (a, m) = None" if "m \<notin> set order" for m
    using ranked_here [OF assms(1), of m] that mset_eq_setD [OF assms(2)] by auto
  have tiers: "mget (fold (set_tier a) (enumerate 0 order) t) (a, k) =
      (if k \<in> set order then map_option int (position (\<lambda>x. x = k) order) else mget t (a, k))" for k
    using set_tiers [OF d, where t = t and a = a and b = a and n = 0 and m = k] here by simp
  have "sorted (map target_key (chain order))"
    by (auto simp: sorted_iff_nth_mono_less chain_nth target_key_def)
  moreover have "x \<in> set (chain order) \<longleftrightarrow>
      mget (fold (set_tier a) (enumerate 0 order) t) (a, at_model x) = Some (at_priority x)" (is "_ = ?there") for x
  proof -
    have "?there \<longleftrightarrow> (\<exists>i < length order. order ! i = at_model x \<and> at_priority x = int i)"
    proof (cases "at_model x \<in> set order")
      case True
      then obtain i where i: "i < length order" "order ! i = at_model x" by (metis in_set_conv_nth)
      then have pos: "position (\<lambda>m. m = at_model x) order = Some i"
        using position_distinct [OF d i(1)] by simp
      have "j = i" if "j < length order" "order ! j = at_model x" for j
        using d i that nth_eq_iff_index_eq by metis
      then have "(\<exists>j < length order. order ! j = at_model x \<and> at_priority x = int j) \<longleftrightarrow> at_priority x = int i"
        using i by blast
      moreover have "?there \<longleftrightarrow> at_priority x = int i"
        using True pos by (auto simp: tiers)
      ultimately show ?thesis by blast
    next
      case False
      then show ?thesis using gone [OF False] by (auto simp: tiers) (metis nth_mem)
    qed
    also have "\<dots> \<longleftrightarrow> x \<in> set (chain order)"
      by (cases x) (auto simp: in_set_conv_nth chain_nth cong: conj_cong)
    finally show ?thesis by simp
  qed
  ultimately show ?thesis using d by (simp add: ranked_def)
qed

section \<open>Aliases are lists of preferences\<close>

datatype alias_op =
    Op_Add string string int
  | Op_Move string string int
  | Op_Delete string string
  | Op_Delete_Group string
  | Op_Targets string
  | Op_Names string
  | Op_Restart

datatype alias_answer = Said "store_error option" | Ranked "alias_target list" | Named "string list"

fun alias_do :: "alias_op \<Rightarrow> alias_store \<Rightarrow> alias_answer \<times> alias_store" where
  "alias_do (Op_Add a m n) s = map_prod Said id (add_alias a m n s)"
| "alias_do (Op_Move a m delta) s = map_prod Said id (move_alias_target a m delta s)"
| "alias_do (Op_Delete a m) s = map_prod Said id (delete_alias a m s)"
| "alias_do (Op_Delete_Group a) s = map_prod Said id (delete_alias_group a s)"
| "alias_do (Op_Targets a) s = map_prod (\<lambda>c. Ranked (get_or [] c a)) id (alias_targets s)"
| "alias_do (Op_Names a) s = map_prod (\<lambda>n. Named (get_or [] n a)) id (alias_model_map s)"
| "alias_do Op_Restart s = (Said None, s\<lparr>al_cache := None, al_names := None\<rparr>)"

text \<open>The same with a list of targets per alias and nothing else.\<close>

fun ranks_do :: "alias_op \<Rightarrow> (string \<Rightarrow> alias_target list) \<Rightarrow> alias_answer \<times> (string \<Rightarrow> alias_target list)" where
  "ranks_do (Op_Add a m n) r =
     (if a = [] \<or> m = [] then (Said (Some Alias_Blank), r)
      else if n < 0 then (Said (Some Tier_Negative), r)
      else if m \<in> at_model ` set (r a) then (Said (Some Alias_Taken), r)
      else (Said None, r(a := insort_key target_key \<lparr>at_model = m, at_priority = n\<rparr> (r a))))"
| "ranks_do (Op_Move a m delta) r =
     (case position (\<lambda>x. at_model x = m) (r a) of
        None \<Rightarrow> (Said (Some Alias_Missing), r)
      | Some i \<Rightarrow>
          let dest = int i + delta
          in if dest < 0 \<or> dest \<ge> int (length (r a)) then (Said None, r)
             else (Said None, r(a := chain (swapped (map at_model (r a)) i (nat dest)))))"
| "ranks_do (Op_Delete a m) r =
     (if m \<in> at_model ` set (r a) then (Said None, r(a := filter (\<lambda>x. at_model x \<noteq> m) (r a)))
      else (Said (Some Alias_Missing), r))"
| "ranks_do (Op_Delete_Group a) r =
     (if r a = [] then (Said (Some Alias_Missing), r) else (Said None, r(a := [])))"
| "ranks_do (Op_Targets a) r = (Ranked (r a), r)"
| "ranks_do (Op_Names a) r = (Named (map at_model (r a)), r)"
| "ranks_do Op_Restart r = (Said None, r)"

definition alias_rel :: "alias_store \<Rightarrow> (string \<Rightarrow> alias_target list) \<Rightarrow> bool" where
  "alias_rel s r \<longleftrightarrow> wf_map (al_rows s) \<and> (\<forall>a. ranked (al_rows s) a (r a)) \<and>
     (\<forall>c. al_cache s = Some c \<longrightarrow> get_or [] c = r) \<and> (\<forall>n. al_names s = Some n \<longrightarrow> get_or [] n = map at_model \<circ> r)"

lemma alias_rel_targets:
  assumes "alias_rel s r" and "alias_targets s = (c, s')"
  shows "get_or [] c = r \<and> alias_rel s' r \<and> al_rows s' = al_rows s"
proof (cases "al_cache s")
  case None
  have "get_or [] (read_targets (al_rows s)) a = r a" for a
    using assms(1) by (intro ranked_unique [OF read_ranked]) (auto simp: alias_rel_def)
  then have "get_or [] (read_targets (al_rows s)) = r" by blast
  then show ?thesis using assms None by (auto simp: alias_targets_def alias_rel_def Let_def)
qed (use assms in \<open>auto simp: alias_targets_def alias_rel_def\<close>)

lemma get_or_names: "get_or [] (map (\<lambda>(a, xs). (a, map at_model xs)) c) a = map at_model (get_or [] c a)"
  by (auto simp: get_or_def map_of_map split: option.split)

lemma alias_rel_names:
  assumes "alias_rel s r" and "alias_model_map s = (n, s')"
  shows "get_or [] n = map at_model \<circ> r \<and> alias_rel s' r"
proof (cases "al_names s")
  case None
  obtain c s1 where t: "alias_targets s = (c, s1)" by fastforce
  from alias_rel_targets [OF assms(1) t] have c: "get_or [] c = r" and r1: "alias_rel s1 r" by blast+
  have "get_or [] (map (\<lambda>(a, xs). (a, map at_model xs)) c) = map at_model \<circ> r"
    by (rule ext) (simp add: get_or_names c)
  then show ?thesis using assms(2) None t r1 by (auto simp: alias_model_map_def alias_rel_def Let_def)
qed (use assms in \<open>auto simp: alias_model_map_def alias_rel_def\<close>)

lemma alias_rel_change:
  assumes "alias_rel s r" and "wf_map t'" and "ranked t' a xs"
    and "\<And>b m. b \<noteq> a \<Longrightarrow> mget t' (b, m) = mget (al_rows s) (b, m)"
  shows "alias_rel (invalidate_aliases (s\<lparr>al_rows := t'\<rparr>)) (r(a := xs))"
  using assms ranked_other [where t = "al_rows s" and t' = t'] by (simp add: alias_rel_def invalidate_aliases_def)

lemma mget_group:
  "mget (filter (\<lambda>((a', m), n). a' \<noteq> a) t) (b, k) = (if b = a then None else mget t (b, k))"
  by (induction t) auto

lemma group_here: "list_ex (\<lambda>((a', m), n). a' = a) t \<longleftrightarrow> (\<exists>m. mget t (a, m) \<noteq> None)"
  by (induction t) auto

interpretation aliases: simulation alias_do ranks_do alias_rel
proof
  fix s r x
  assume rel: "alias_rel s r"
  then have wf: "wf_map (al_rows s)" and all: "\<And>a. ranked (al_rows s) a (r a)" by (auto simp: alias_rel_def)
  show "fst (alias_do x s) = fst (ranks_do x r) \<and> alias_rel (snd (alias_do x s)) (snd (ranks_do x r))"
  proof (cases x)
    case (Op_Add a m n)
    note here = ranked_here [OF all, of a m]
    show ?thesis
      using rel here Op_Add alias_rel_change [OF rel wf_map_mput [OF wf] ranked_add [OF all]]
      by (auto simp: add_alias_def gomap_simps)
  next
    case (Op_Move a m delta)
    obtain c s1 where t: "alias_targets s = (c, s1)" by fastforce
    from alias_rel_targets [OF rel t] have c: "get_or [] c = r" and rel1: "alias_rel s1 r" by blast+
    show ?thesis
    proof (cases "position (\<lambda>x. at_model x = m) (r a)")
      case None
      then show ?thesis using Op_Move t c rel1 by (simp add: move_alias_target_def)
    next
      case (Some i)
      then have i: "i < length (r a)" using position_nth by blast
      let ?dest = "int i + delta"
      let ?order = "swapped (map at_model (r a)) i (nat ?dest)"
      show ?thesis
      proof (cases "?dest < 0 \<or> ?dest \<ge> int (length (r a))")
        case True
        then show ?thesis using Op_Move t c rel1 Some by (auto simp: move_alias_target_def Let_def)
      next
        case False
        then have "mset ?order = mset (map at_model (r a))" using i by (intro swapped_perm) auto
        from ranked_chain [OF _ this] rel1
        have ranks: "ranked (fold (set_tier a) (enumerate 0 ?order) (al_rows s1)) a (chain ?order)"
          by (auto simp: alias_rel_def)
        have same: "mget (fold (set_tier a) ims t) (b, k) = mget t (b, k)" if "b \<noteq> a" for b k ims t
          using that by (induction ims arbitrary: t) (auto simp: set_tier_def gomap_simps)
        have "wf_map (al_rows s1)" using rel1 by (simp add: alias_rel_def)
        from alias_rel_change [OF rel1 wf_set_tiers [OF this] ranks same]
        show ?thesis using Op_Move t c Some False by (auto simp: move_alias_target_def Let_def)
      qed
    qed
  next
    case (Op_Delete a m)
    note here = ranked_here [OF all, of a m]
    show ?thesis
      using rel here Op_Delete alias_rel_change [OF rel wf_map_mdel [OF wf] ranked_delete [OF all]]
      by (auto simp: delete_alias_def gomap_simps)
  next
    case (Op_Delete_Group a)
    let ?rows = "filter (\<lambda>((a', m), n). a' \<noteq> a) (al_rows s)"
    note rows = mget_group [of a "al_rows s"]
    have none: "list_ex (\<lambda>((a', m), n). a' = a) (al_rows s) \<longleftrightarrow> r a \<noteq> []"
      using ranked_here [OF all, of a] by (auto simp: group_here)
    have "wf_map ?rows" using wf by (simp add: distinct_map_filter)
    from alias_rel_change [OF rel this, of a "[]"] rows
    show ?thesis using Op_Delete_Group rel none by (auto simp: delete_alias_group_def ranked_def)
  next
    case (Op_Targets a)
    then show ?thesis using alias_rel_targets [OF rel] by (cases "alias_targets s") auto
  next
    case (Op_Names a)
    then show ?thesis using alias_rel_names [OF rel] by (cases "alias_model_map s") auto
  next
    case Op_Restart
    then show ?thesis using rel by (auto simp: alias_rel_def)
  qed
qed

text \<open>
  C22. Aliases behave like one ordered list of targets per alias: an addition is inserted by tier and name,
  a move swaps two targets and makes the tiers a strict chain, a removal keeps the order of the rest,
  and what the router reads, through both caches and across restarts, is that list. No sequence of
  changes and reads can tell the table with its caches from the lists.
\<close>

theorem aliases_are_preference_lists:
  "answers alias_do ops alias_store_new = answers ranks_do ops (\<lambda>a. [])"
  by (rule aliases.same_answers) (simp add: alias_rel_def alias_store_new_def ranked_def)

section \<open>Settings are read as they were set\<close>

datatype setting_op = Set_Opt string bool | Set_Host string | Set_Currency string | Read_Opts | Opts_Restart

datatype setting_answer = Set_Refused store_error | Set_Ok | Opts request_optimization

fun settings_do :: "setting_op \<Rightarrow> settings_store \<Rightarrow> setting_answer \<times> settings_store" where
  "settings_do (Set_Opt k b) s = (case set_request_opt k b s of Inl e \<Rightarrow> (Set_Refused e, s) | Inr s' \<Rightarrow> (Set_Ok, s'))"
| "settings_do (Set_Host h) s = (Set_Ok, set_portal_host h s)"
| "settings_do (Set_Currency c) s =
     (case set_cost_currency c s of Inl e \<Rightarrow> (Set_Refused e, s) | Inr s' \<Rightarrow> (Set_Ok, s'))"
| "settings_do Read_Opts s = map_prod Opts id (request_opts s)"
| "settings_do Opts_Restart s = (Set_Ok, s\<lparr>st_opt_cache := None\<rparr>)"

text \<open>The same on the toggles themselves.\<close>

fun opts_do :: "setting_op \<Rightarrow> request_optimization \<Rightarrow> setting_answer \<times> request_optimization" where
  "opts_do (Set_Opt k b) opts =
     (case mget opt_setters k of None \<Rightarrow> (Set_Refused Setting_Unknown, opts) | Some set_it \<Rightarrow> (Set_Ok, set_it b opts))"
| "opts_do (Set_Host h) opts = (Set_Ok, opts)"
| "opts_do (Set_Currency c) opts =
     (if length (trim_space c) > 8 then (Set_Refused Currency_Too_Long, opts) else (Set_Ok, opts))"
| "opts_do Read_Opts opts = (Opts opts, opts)"
| "opts_do Opts_Restart opts = (Set_Ok, opts)"

definition toggled :: "(string, string) gomap \<Rightarrow> string \<Rightarrow> bool \<Rightarrow> bool" where
  "toggled rows k b = (case mget rows k of None \<Rightarrow> b | Some v \<Rightarrow> v = ''1'')"

lemma toggled_Nil [simp]: "toggled [] k b = b"
  by (simp add: toggled_def)

lemma toggled_Cons: "toggled ((k', v) # rows) k b = (if k' = k then v = ''1'' else toggled rows k b)"
  by (simp add: toggled_def)

lemma toggled_fresh: "k \<notin> fst ` set rows \<Longrightarrow> toggled rows k b = b"
  by (simp add: toggled_def mget_None_iff [THEN iffD2])

lemma opt_row_pair:
  "opt_row (k, v) opts =
    (if k = ''reqopt.coalesce_normalize'' then opts\<lparr>op_coalesce_normalize := v = ''1''\<rparr>
     else if k = ''reqopt.prefix_affinity'' then opts\<lparr>op_prefix_affinity := v = ''1''\<rparr>
     else if k = ''reqopt.clean_requests'' then opts\<lparr>op_clean_requests := v = ''1''\<rparr>
     else if k = ''reqopt.clean_aggressive'' then opts\<lparr>op_clean_aggressive := v = ''1''\<rparr>
     else if k = ''reqopt.clamp_params'' then opts\<lparr>op_clamp_params := v = ''1''\<rparr>
     else opts)"
  by (simp add: opt_row_def opt_setters_def)

lemma read_opts_fold:
  assumes "wf_map rows"
  shows "fold opt_row rows opts =
    \<lparr>op_coalesce_normalize = toggled rows ''reqopt.coalesce_normalize'' (op_coalesce_normalize opts),
     op_prefix_affinity = toggled rows ''reqopt.prefix_affinity'' (op_prefix_affinity opts),
     op_clean_requests = toggled rows ''reqopt.clean_requests'' (op_clean_requests opts),
     op_clean_aggressive = toggled rows ''reqopt.clean_aggressive'' (op_clean_aggressive opts),
     op_clamp_params = toggled rows ''reqopt.clamp_params'' (op_clamp_params opts)\<rparr>"
  using assms
proof (induction rows arbitrary: opts)
  case (Cons row rows)
  obtain k v where row: "row = (k, v)" by (cases row)
  have new: "toggled rows k b = b" for b using Cons.prems row by (simp add: toggled_fresh)
  have wf: "wf_map rows" using Cons.prems by simp
  consider "k = ''reqopt.coalesce_normalize''" | "k = ''reqopt.prefix_affinity''" | "k = ''reqopt.clean_requests''"
    | "k = ''reqopt.clean_aggressive''" | "k = ''reqopt.clamp_params''"
    | "k \<noteq> ''reqopt.coalesce_normalize''" "k \<noteq> ''reqopt.prefix_affinity''" "k \<noteq> ''reqopt.clean_requests''"
      "k \<noteq> ''reqopt.clean_aggressive''" "k \<noteq> ''reqopt.clamp_params''" by blast
  then show ?case
    by cases (use new in \<open>simp_all add: Cons.IH [OF wf] row toggled_Cons opt_row_pair\<close>)
qed simp

lemma toggled_mput: "toggled (mput k v rows) k' b = (if k' = k then v = ''1'' else toggled rows k' b)"
  by (simp add: toggled_def gomap_simps)

lemma toggled_mdel: "toggled (mdel k rows) k' b = (if k' = k then b else toggled rows k' b)"
  by (simp add: toggled_def gomap_simps)

lemma read_opts_rows:
  assumes "wf_map rows"
  shows "read_opts rows =
    \<lparr>op_coalesce_normalize = toggled rows ''reqopt.coalesce_normalize'' False,
     op_prefix_affinity = toggled rows ''reqopt.prefix_affinity'' False,
     op_clean_requests = toggled rows ''reqopt.clean_requests'' False,
     op_clean_aggressive = toggled rows ''reqopt.clean_aggressive'' False,
     op_clamp_params = toggled rows ''reqopt.clamp_params'' False\<rparr>"
  unfolding read_opts_def read_opts_fold [OF assms] by (simp add: no_opts_def)

definition settings_rel :: "settings_store \<Rightarrow> request_optimization \<Rightarrow> bool" where
  "settings_rel s opts \<longleftrightarrow> wf_map (st_rows s) \<and> read_opts (st_rows s) = opts \<and>
     (\<forall>c. st_opt_cache s = Some c \<longrightarrow> c = opts)"

interpretation settings: simulation settings_do opts_do settings_rel
proof
  fix s opts x
  assume rel: "settings_rel s opts"
  then have wf: "wf_map (st_rows s)" by (simp add: settings_rel_def)
  show "fst (settings_do x s) = fst (opts_do x opts) \<and> settings_rel (snd (settings_do x s)) (snd (opts_do x opts))"
  proof (cases x)
    case (Set_Opt k b)
    have "read_opts (mput k (if b then ''1'' else ''0'') (st_rows s)) = set_it b (read_opts (st_rows s))"
      if "mget opt_setters k = Some set_it" for set_it
      using that wf by (auto simp: read_opts_rows toggled_mput opt_setters_def split: if_splits)
    then show ?thesis using rel Set_Opt wf
      by (auto simp: set_request_opt_def settings_rel_def split: option.split)
  next
    case (Set_Host h)
    have "read_opts (mput ''portal.host'' h (st_rows s)) = read_opts (st_rows s)"
      "read_opts (mdel ''portal.host'' (st_rows s)) = read_opts (st_rows s)"
      using wf by (simp_all add: read_opts_rows toggled_mput toggled_mdel)
    then show ?thesis using rel Set_Host wf by (simp add: set_portal_host_def settings_rel_def)
  next
    case (Set_Currency c)
    have "read_opts (mput ''cost.currency'' v (st_rows s)) = read_opts (st_rows s)" for v
      using wf by (simp add: read_opts_rows toggled_mput)
    then show ?thesis using rel Set_Currency wf
      by (auto simp: set_cost_currency_def settings_rel_def Let_def)
  next
    case Read_Opts
    then show ?thesis using rel
      by (auto simp: request_opts_def settings_rel_def Let_def split: option.split)
  next
    case Opts_Restart
    then show ?thesis using rel by (simp add: settings_rel_def)
  qed
qed

text \<open>
  The toggles of request optimisation are read as they were last set, whatever else is changed in the
  settings and however often the cache is dropped.
\<close>

theorem toggles_are_read_as_set:
  "answers settings_do ops \<lparr>st_rows = [], st_opt_cache = None\<rparr> = answers opts_do ops no_opts"
  by (rule settings.same_answers) (simp add: settings_rel_def read_opts_def)

section \<open>Keys and tokens\<close>

text \<open>
  Only an administrator or the owner revokes a key, no other key is touched, and the labels of an owner
  stay distinct.
\<close>

definition labels_distinct :: "key_table \<Rightarrow> bool" where
  "labels_distinct t \<longleftrightarrow> wf_map t \<and> (\<forall>h h' k k'. mget t h = Some k \<longrightarrow> mget t h' = Some k' \<longrightarrow>
     ky_owner k = ky_owner k' \<longrightarrow> ky_label k = ky_label k' \<longrightarrow> h = h')"

theorem revoking_needs_ownership:
  assumes "revoke_api_key owner h is_admin t = Inr t'"
  shows "(\<exists>k. mget t h = Some k \<and> (is_admin \<or> ky_owner k = owner)) \<and>
    (\<forall>h'. mget t' h' = (if h' = h then None else mget t h'))"
  using assms by (auto simp: revoke_api_key_def gomap_simps split: option.splits if_splits)

lemma labels_distinct_add:
  assumes "labels_distinct t" and "add_api_key h k t = Inr t'"
  shows "labels_distinct t'"
proof -
  have new: "\<not> (ky_owner k' = ky_owner k \<and> ky_label k' = ky_label k)" if "mget t h' = Some k'" for h' k'
    using assms(2) mget_SomeD [OF that] by (force simp: add_api_key_def list_ex_iff split: if_splits)
  have t': "t' = mput h k t" using assms(2) by (simp add: add_api_key_def split: if_splits)
  have "h1 = h2" if "mget t' h1 = Some k1" "mget t' h2 = Some k2" "ky_owner k1 = ky_owner k2" "ky_label k1 = ky_label k2"
    for h1 h2 k1 k2
    using that new assms(1) unfolding labels_distinct_def t' mget_mput by (metis option.inject)
  then show ?thesis using assms(1) t' unfolding labels_distinct_def by blast
qed

lemma labels_distinct_update:
  assumes "labels_distinct t" and "update_key h f t = Inr t'"
    and "\<And>k. ky_owner (f k) = ky_owner k \<and> ky_label (f k) = ky_label k"
  shows "labels_distinct t'"
  using assms by (auto simp: labels_distinct_def update_key_def gomap_simps split: option.splits if_splits)

lemma labels_distinct_revoke:
  "labels_distinct t \<Longrightarrow> revoke_api_key owner h is_admin t = Inr t' \<Longrightarrow> labels_distinct t'"
  by (auto simp: labels_distinct_def revoke_api_key_def gomap_simps split: option.splits if_splits)

section \<open>Prices\<close>

lemma trim_marks_plain:
  "find (has_prefix s) currency_marks = None \<Longrightarrow> trim_marks s = s"
  by (subst trim_marks.simps) simp

text \<open>Up to nine million tokens a cost is exact at every rate the portal accepts.\<close>

theorem costs_are_exact:
  assumes "0 \<le> p" and "0 \<le> c" and "p + c \<le> 9223372"
    and "mp_input_ppm r \<in> {0 .. 1000000000000}" and "mp_output_ppm r \<in> {0 .. 1000000000000}"
  shows "cost_micro r p c = (p * mp_input_ppm r + c * mp_output_ppm r) div 1000000"
proof -
  have p: "0 \<le> p * mp_input_ppm r" "p * mp_input_ppm r \<le> p * 1000000000000"
    using assms by (auto intro: mult_left_mono)
  have c: "0 \<le> c * mp_output_ppm r" "c * mp_output_ppm r \<le> c * 1000000000000"
    using assms by (auto intro: mult_left_mono)
  have whole: "p * 1000000000000 + c * 1000000000000 < 2 ^ 63" using assms(1-3) by simp
  have "in64 (p * mp_input_ppm r)" "in64 (c * mp_output_ppm r)" "in64 (p * mp_input_ppm r + c * mp_output_ppm r)"
    using p c whole assms(1,2) by (auto simp: in64_def)
  then show ?thesis using p c
    by (auto simp: cost_micro_def wrap64_id quot_trunc_def tokens_per_rate_unit_def sgn_if)
qed

text \<open>One token more at the highest rate it accepts, and the cost is negative.\<close>

theorem highest_rate_overflows:
  "parse_rate (\<lambda>_. Float_Is 1000000) ''1000000'' = Inr 1000000000000 \<and>
   cost_micro \<lparr>mp_input_ppm = 1000000000000, mp_output_ppm = 0, mp_basis = basis_actual, mp_updated_at = 0\<rparr>
     9223373 0 < 0"
  by code_simp

section \<open>A read that overlaps a change\<close>

text \<open>
  A read of a cold cache is a query and then a store, with room between them: a target added there is
  dropped from the cache it had just cleared, and readers do not see it until the next change.
\<close>

definition keep_targets :: "(string, alias_target list) gomap \<Rightarrow> alias_store \<Rightarrow> alias_store" where
  "keep_targets c s = s\<lparr>al_cache := Some c\<rparr>"

lemma alias_targets_in_steps:
  "al_cache s = None \<Longrightarrow> alias_targets s = (read_targets (al_rows s), keep_targets (read_targets (al_rows s)) s)"
  by (simp add: alias_targets_def keep_targets_def Let_def)

theorem stale_alias_cache:
  "let c = read_targets (al_rows alias_store_new);
       s = keep_targets c (snd (add_alias ''fast'' ''llama'' 0 alias_store_new))
   in mget (al_rows s) (''fast'', ''llama'') = Some 0 \<and> get_or [] (fst (alias_targets s)) ''fast'' = []"
  by code_simp

end
