(* ===== verification/Worker_Slots.thy ===== *)
theory Worker_Slots
  imports Go_Prelude
begin

text \<open>
  The slots of a worker (\<open>pkg/wsclient/slotpool.go\<close>): one pool that jobs of the router and requests
  of the machine's own user share, where the latter go first. Each operation is cut into the sections
  it runs under the lock; a broadcast is a step of its own, after the unlock, as in the code.
\<close>

section \<open>The pool under its lock\<close>

record slot_pool =
  sp_capacity :: int
  sp_ready :: bool
  sp_in_flight :: int
  sp_local_waiters :: int
  sp_local_in_flight :: int

definition new_slot_pool :: slot_pool where
  "new_slot_pool =
     \<lparr>sp_capacity = 0, sp_ready = False, sp_in_flight = 0, sp_local_waiters = 0, sp_local_in_flight = 0\<rparr>"

definition pool_init :: "int \<Rightarrow> slot_pool \<Rightarrow> slot_pool" where
  "pool_init capacity p = p\<lparr>sp_capacity := (if capacity < 1 then 1 else capacity), sp_ready := True\<rparr>"

definition local_load :: "slot_pool \<Rightarrow> int" where
  "local_load p = sp_local_in_flight p + sp_local_waiters p"

datatype acquired = Acquired slot_pool | Gave_Up slot_pool | Busy | Must_Wait

text \<open>\<open>AcquireLocal\<close>: the announcement, then a turn of its loop.\<close>

definition announce_local :: "slot_pool \<Rightarrow> slot_pool" where
  "announce_local p = p\<lparr>sp_local_waiters := sp_local_waiters p + 1\<rparr>"

definition acquire_local :: "bool \<Rightarrow> slot_pool \<Rightarrow> acquired" where
  "acquire_local ended p =
     (if \<not> sp_ready p \<or> sp_in_flight p \<ge> sp_capacity p then
        (if ended then Gave_Up (p\<lparr>sp_local_waiters := sp_local_waiters p - 1\<rparr>) else Must_Wait)
      else Acquired (p\<lparr>sp_in_flight := sp_in_flight p + 1, sp_local_in_flight := sp_local_in_flight p + 1,
                       sp_local_waiters := sp_local_waiters p - 1\<rparr>))"

text \<open>A turn of the loop of \<open>acquireRouterOrYield\<close>.\<close>

definition acquire_router :: "bool \<Rightarrow> bool \<Rightarrow> slot_pool \<Rightarrow> acquired" where
  "acquire_router yield ended p =
     (if \<not> sp_ready p \<or> sp_in_flight p \<ge> sp_capacity p \<or> sp_local_waiters p > 0 then
        (if ended then Gave_Up p
         else if yield \<and> sp_ready p \<and> sp_local_in_flight p + sp_local_waiters p > 0 then Busy
         else Must_Wait)
      else Acquired (p\<lparr>sp_in_flight := sp_in_flight p + 1\<rparr>))"

definition pool_release :: "slot_pool \<Rightarrow> slot_pool" where
  "pool_release p = (if sp_in_flight p > 0 then p\<lparr>sp_in_flight := sp_in_flight p - 1\<rparr> else p)"

text \<open>The first section of \<open>ReleaseLocal\<close>; the second is \<open>Release\<close>.\<close>

definition return_local :: "slot_pool \<Rightarrow> slot_pool" where
  "return_local p =
     (if sp_local_in_flight p > 0 then p\<lparr>sp_local_in_flight := sp_local_in_flight p - 1\<rparr> else p)"

section \<open>Callers\<close>

text \<open>
  A call at its point: announced and about to test, parked in \<open>Wait\<close>, holding a slot, between the
  sections of \<open>ReleaseLocal\<close>, or over. The flag of a router's call is whether it yields.
\<close>

datatype slot_call =
    Local_Arrived
  | Local_Testing
  | Local_Parked
  | Local_Holding
  | Local_Returning
  | Router_Testing bool
  | Router_Parked bool
  | Router_Holding
  | Call_Over

fun woken :: "slot_call \<Rightarrow> slot_call" where
  "woken Local_Parked = Local_Testing"
| "woken (Router_Parked y) = Router_Testing y"
| "woken c = c"

text \<open>
  \<open>sl_ended\<close> says whose context has ended; \<open>sl_wakes\<close> counts the broadcasts that are due: an
  operation has left its section and has not broadcast yet.
\<close>

record slots =
  sl_pool :: slot_pool
  sl_calls :: "slot_call list"
  sl_ended :: "bool list"
  sl_wakes :: nat

definition slots_start :: slots where
  "slots_start = \<lparr>sl_pool = new_slot_pool, sl_calls = [], sl_ended = [], sl_wakes = 0\<rparr>"

text \<open>What a test makes of the call that runs it.\<close>

fun tested :: "slot_call \<Rightarrow> acquired \<Rightarrow> nat \<Rightarrow> slots \<Rightarrow> slots" where
  "tested c (Acquired p) i s =
     s\<lparr>sl_pool := p, sl_calls := (sl_calls s)[i := (if c = Local_Testing then Local_Holding else Router_Holding)]\<rparr>"
| "tested c (Gave_Up p) i s =
     s\<lparr>sl_pool := p, sl_calls := (sl_calls s)[i := Call_Over],
       sl_wakes := sl_wakes s + (if c = Local_Testing then 1 else 0)\<rparr>"
| "tested c Busy i s = s\<lparr>sl_calls := (sl_calls s)[i := Call_Over]\<rparr>"
| "tested c Must_Wait i s =
     s\<lparr>sl_calls := (sl_calls s)[i := (case c of Router_Testing y \<Rightarrow> Router_Parked y | _ \<Rightarrow> Local_Parked)]\<rparr>"

inductive slot_step :: "slots \<Rightarrow> slots \<Rightarrow> bool" where
  init: "slot_step s (s\<lparr>sl_pool := pool_init c (sl_pool s), sl_wakes := Suc (sl_wakes s)\<rparr>)"
| arrive: "c = Local_Arrived \<or> c = Router_Testing y \<Longrightarrow>
     slot_step s (s\<lparr>sl_calls := sl_calls s @ [c], sl_ended := sl_ended s @ [False]\<rparr>)"
| announce: "i < length (sl_calls s) \<Longrightarrow> sl_calls s ! i = Local_Arrived \<Longrightarrow>
     slot_step s (s\<lparr>sl_pool := announce_local (sl_pool s), sl_calls := (sl_calls s)[i := Local_Testing]\<rparr>)"
| test_local: "i < length (sl_calls s) \<Longrightarrow> sl_calls s ! i = Local_Testing \<Longrightarrow>
     slot_step s (tested Local_Testing (acquire_local (sl_ended s ! i) (sl_pool s)) i s)"
| test_router: "i < length (sl_calls s) \<Longrightarrow> sl_calls s ! i = Router_Testing y \<Longrightarrow>
     slot_step s (tested (Router_Testing y) (acquire_router y (sl_ended s ! i) (sl_pool s)) i s)"
| return: "i < length (sl_calls s) \<Longrightarrow> sl_calls s ! i = Local_Holding \<Longrightarrow>
     slot_step s (s\<lparr>sl_pool := return_local (sl_pool s), sl_calls := (sl_calls s)[i := Local_Returning]\<rparr>)"
| release: "i < length (sl_calls s) \<Longrightarrow> sl_calls s ! i = Local_Returning \<or> sl_calls s ! i = Router_Holding \<Longrightarrow>
     slot_step s (s\<lparr>sl_pool := pool_release (sl_pool s), sl_calls := (sl_calls s)[i := Call_Over],
                    sl_wakes := Suc (sl_wakes s)\<rparr>)"
| end_context: "i < length (sl_calls s) \<Longrightarrow>
     slot_step s (s\<lparr>sl_ended := (sl_ended s)[i := True], sl_wakes := Suc (sl_wakes s)\<rparr>)"
| broadcast: "sl_wakes s = Suc n \<Longrightarrow>
     slot_step s (s\<lparr>sl_calls := map woken (sl_calls s), sl_wakes := n\<rparr>)"

inductive_cases slot_stepE: "slot_step s t"

definition slots_reach :: "slots \<Rightarrow> bool" where
  "slots_reach s \<longleftrightarrow> slot_step\<^sup>*\<^sup>* slots_start s"

section \<open>Counting callers\<close>

primrec tally :: "('a \<Rightarrow> bool) \<Rightarrow> 'a list \<Rightarrow> int" where
  "tally P [] = 0"
| "tally P (c # cs) = (if P c then 1 else 0) + tally P cs"

lemma tally_append [simp]: "tally P (cs @ ds) = tally P cs + tally P ds"
  by (induction cs) auto

lemma tally_nonneg [simp]: "0 \<le> tally P cs"
  by (induction cs) auto

lemma tally_update:
  "i < length cs \<Longrightarrow>
     tally P (cs[i := c]) = tally P cs - (if P (cs ! i) then 1 else 0) + (if P c then 1 else 0)"
  by (induction cs arbitrary: i) (auto split: nat.splits)

lemma tally_pos: "0 < tally P cs \<longleftrightarrow> (\<exists>i < length cs. P (cs ! i))"
proof (induction cs)
  case (Cons c cs)
  have "0 < tally P (c # cs) \<longleftrightarrow> P c \<or> 0 < tally P cs"
    using tally_nonneg [of P cs] by (simp add: add_pos_nonneg)
  also have "\<dots> \<longleftrightarrow> (\<exists>i < length (c # cs). P ((c # cs) ! i))"
    using Cons.IH by (auto simp: less_Suc_eq_0_disj)
  finally show ?case .
qed simp

fun holding :: "slot_call \<Rightarrow> bool" where
  "holding Local_Holding = True" | "holding Local_Returning = True" | "holding Router_Holding = True"
| "holding _ = False"

fun waiting_local :: "slot_call \<Rightarrow> bool" where
  "waiting_local Local_Testing = True" | "waiting_local Local_Parked = True" | "waiting_local _ = False"

lemma wake_kinds [simp]:
  "holding (woken c) = holding c" "waiting_local (woken c) = waiting_local c"
  "Local_Holding = woken c \<longleftrightarrow> Local_Holding = c"
  by (cases c; simp)+

lemma tally_wake [simp]:
  "tally holding (map woken cs) = tally holding cs" "tally waiting_local (map woken cs) = tally waiting_local cs"
  "tally ((=) Local_Holding) (map woken cs) = tally ((=) Local_Holding) cs"
  by (induction cs) auto

definition counted :: "slots \<Rightarrow> bool" where
  "counted s \<longleftrightarrow>
     sp_in_flight (sl_pool s) = tally holding (sl_calls s) \<and>
     sp_local_in_flight (sl_pool s) = tally ((=) Local_Holding) (sl_calls s) \<and>
     sp_local_waiters (sl_pool s) = tally waiting_local (sl_calls s) \<and>
     length (sl_ended s) = length (sl_calls s) \<and>
     (sp_ready (sl_pool s) \<longrightarrow> 1 \<le> sp_capacity (sl_pool s))"

lemma counted_start: "counted slots_start"
  by (simp add: counted_def slots_start_def new_slot_pool_def)

lemma counted_step:
  assumes "slot_step s t" and "counted s"
  shows "counted t"
  using assms
proof (cases rule: slot_step.cases)
  case (release i)
  with tally_pos [of holding "sl_calls s"] assms(2) show ?thesis
    by (auto simp: counted_def pool_release_def tally_update)
next
  case (return i)
  with tally_pos [of "(=) Local_Holding" "sl_calls s"] assms(2) show ?thesis
    by (auto simp: counted_def return_local_def tally_update)
qed (use assms(2) in \<open>auto simp: counted_def pool_init_def announce_local_def acquire_local_def acquire_router_def
      tally_update\<close>)

lemma counted_reach: "slots_reach s \<Longrightarrow> counted s"
  unfolding slots_reach_def
  by (induction rule: rtranclp_induct) (auto intro: counted_start counted_step)

section \<open>What the pool promises\<close>

text \<open>
  In every state of the pool, whatever arrives, is granted, gives up or is returned and however
  the sections of the operations interleave, the counters are exact: the slots in flight are those
  callers hold, the local ones among them those of local callers, and the waiters counted are the
  local callers that wait.
\<close>

theorem slot_counters_exact:
  assumes "slots_reach s"
  shows "sp_in_flight (sl_pool s) = tally holding (sl_calls s) \<and>
    sp_local_in_flight (sl_pool s) = tally ((=) Local_Holding) (sl_calls s) \<and>
    sp_local_waiters (sl_pool s) = tally waiting_local (sl_calls s)"
  using counted_reach [OF assms] by (simp add: counted_def)

lemma acquired_cases:
  "acquire_local e p = Acquired q \<Longrightarrow> sp_in_flight q \<le> sp_capacity q"
  "acquire_router y e p = Acquired q \<Longrightarrow> sp_in_flight q \<le> sp_capacity q \<and> sp_local_waiters p \<le> 0"
  by (auto simp: acquire_local_def acquire_router_def split: if_splits)

text \<open>
  A slot is granted only while there is one, and to a job of the router only while no local
  request waits.
\<close>

theorem slots_go_to_local_requests_first:
  assumes "slots_reach s" and "slot_step s t" and "i < length (sl_calls s)"
    and "\<not> holding (sl_calls s ! i)" and "holding (sl_calls t ! i)"
  shows "tally holding (sl_calls t) \<le> sp_capacity (sl_pool t) \<and>
    (sl_calls t ! i = Local_Holding \<or> tally waiting_local (sl_calls s) = 0)"
proof -
  have counted: "counted s" "counted t"
    using counted_reach counted_step assms(1,2) by blast+
  from assms(2) show ?thesis
  proof (cases rule: slot_step.cases)
    case (test_local j)
    then have j: "j = i" using assms(4,5)
      by (cases "acquire_local (sl_ended s ! j) (sl_pool s)") (auto simp: nth_list_update split: if_splits)
    then obtain q where "acquire_local (sl_ended s ! i) (sl_pool s) = Acquired q"
      using test_local assms(4,5) by (cases "acquire_local (sl_ended s ! i) (sl_pool s)") (auto simp: assms(3))
    with acquired_cases(1) [OF this] show ?thesis
      using test_local assms(3) counted by (simp add: j counted_def)
  next
    case (test_router j y)
    then have j: "j = i" using assms(4,5)
      by (cases "acquire_router y (sl_ended s ! j) (sl_pool s)") (auto simp: nth_list_update split: if_splits)
    then obtain q where "acquire_router y (sl_ended s ! i) (sl_pool s) = Acquired q"
      using test_router assms(4,5) by (cases "acquire_router y (sl_ended s ! i) (sl_pool s)") (auto simp: assms(3))
    with acquired_cases(2) [OF this] show ?thesis
      using test_router assms(3) counted by (auto simp: j counted_def intro: order.antisym)
  next
    case (broadcast n)
    then show ?thesis using assms(3-5) by simp
  qed (use assms(3-5) in \<open>auto simp: nth_list_update nth_append split: if_splits\<close>)
qed

text \<open>Callers that are parked while no broadcast is due.\<close>

definition patient :: "slots \<Rightarrow> bool" where
  "patient s \<longleftrightarrow>
     (sl_wakes s = 0 \<longrightarrow>
       (\<forall>i < length (sl_calls s).
          (sl_calls s ! i = Local_Parked \<longrightarrow>
             \<not> sl_ended s ! i \<and>
             (sp_ready (sl_pool s) \<longrightarrow> sp_capacity (sl_pool s) \<le> sp_in_flight (sl_pool s))) \<and>
          (\<forall>y. sl_calls s ! i = Router_Parked y \<longrightarrow>
             \<not> sl_ended s ! i \<and>
             (sp_ready (sl_pool s) \<longrightarrow> 0 < sp_in_flight (sl_pool s) \<or> 0 < sp_local_waiters (sl_pool s)))))"

lemma wake_parks [simp]: "woken c \<noteq> Local_Parked" "woken c \<noteq> Router_Parked y"
  by (cases c; simp)+

lemma patient_step:
  assumes "slot_step s t" and "counted s" and "patient s"
  shows "patient t"
proof -
  have nonneg: "0 \<le> sp_in_flight (sl_pool s)" "0 \<le> sp_local_waiters (sl_pool s)"
    using assms(2) by (simp_all add: counted_def)
  from assms(1) show ?thesis
  proof (cases rule: slot_step.cases)
    case (test_local i)
    then show ?thesis
      using assms(2,3) nonneg
      by (cases "acquire_local (sl_ended s ! i) (sl_pool s)")
        (auto simp: patient_def acquire_local_def counted_def nth_list_update split: if_splits)
  next
    case (test_router i y)
    then show ?thesis
      using assms(2,3) nonneg
      by (cases "acquire_router y (sl_ended s ! i) (sl_pool s)")
        (auto simp: patient_def acquire_router_def counted_def nth_list_update split: if_splits)
  qed (use assms(2,3) nonneg in
      \<open>auto simp: patient_def pool_init_def announce_local_def return_local_def nth_list_update nth_append
        counted_def split: if_splits\<close>)
qed

lemma patient_reach: "slots_reach s \<Longrightarrow> patient s"
  unfolding slots_reach_def
proof (induction rule: rtranclp_induct)
  case base
  then show ?case by (simp add: patient_def slots_start_def)
next
  case (step s t)
  then have "counted s" using counted_reach by (simp add: slots_reach_def)
  with step show ?case by (blast intro: patient_step)
qed

text \<open>
  C20. Nobody waits for nothing. When every broadcast has been made, a local request that is parked
  has a live context and finds all slots taken; a parked job of the router has a live context, and
  some caller holds a slot, whose return wakes it, or a local request is about to take one.
\<close>

theorem parked_calls_are_owed_a_wake:
  assumes reach: "slots_reach s" and quiet: "sl_wakes s = 0" and i: "i < length (sl_calls s)"
    and ready: "sp_ready (sl_pool s)"
  shows "(sl_calls s ! i = Local_Parked \<longrightarrow>
      \<not> sl_ended s ! i \<and> sp_capacity (sl_pool s) \<le> tally holding (sl_calls s)) \<and>
    (sl_calls s ! i = Router_Parked y \<longrightarrow>
      \<not> sl_ended s ! i \<and> (\<exists>j < length (sl_calls s). holding (sl_calls s ! j) \<or> sl_calls s ! j = Local_Testing))"
proof -
  have c: "counted s" and p: "patient s" using reach by (simp_all add: counted_reach patient_reach)
  have full: "sl_calls s ! j = Local_Parked \<Longrightarrow> 0 < tally holding (sl_calls s)" if "j < length (sl_calls s)" for j
    using p c quiet ready that by (fastforce simp: patient_def counted_def)
  have "\<exists>j < length (sl_calls s). holding (sl_calls s ! j) \<or> sl_calls s ! j = Local_Testing"
    if "0 < tally holding (sl_calls s) \<or> 0 < tally waiting_local (sl_calls s)"
    using that full unfolding tally_pos by (metis waiting_local.elims(2))
  then show ?thesis using p c quiet ready i by (auto simp: patient_def counted_def)
qed

text \<open>
  A job of the router can be overlooked, all the same: \<open>AcquireLocal\<close> lowers the number of waiters
  without a broadcast when it succeeds, so a job that yielded to it sleeps on although a slot is free
  and no local request waits.
\<close>

definition overlooked :: slots where
  "overlooked =
     \<lparr>sl_pool = \<lparr>sp_capacity = 2, sp_ready = True, sp_in_flight = 1, sp_local_waiters = 0, sp_local_in_flight = 1\<rparr>,
      sl_calls = [Local_Holding, Router_Parked False], sl_ended = [False, False], sl_wakes = 0\<rparr>"

lemma overlooked_reached: "slots_reach overlooked"
proof -
  let ?pool = "\<lambda>n w l. \<lparr>sp_capacity = 2, sp_ready = True, sp_in_flight = n, sp_local_waiters = w, sp_local_in_flight = l\<rparr>"
  let ?s = "\<lambda>p cs es w. \<lparr>sl_pool = p, sl_calls = cs, sl_ended = es, sl_wakes = w\<rparr>"
  have "slot_step slots_start (?s (?pool 0 0 0) [] [] 1)"
    using slot_step.init [of slots_start 2] by (simp add: slots_start_def new_slot_pool_def pool_init_def)
  also have "slot_step\<^sup>*\<^sup>* (?s (?pool 0 0 0) [] [] 1) (?s (?pool 0 0 0) [] [] 0)"
    using slot_step.broadcast [of "?s (?pool 0 0 0) [] [] 1" 0] by auto
  also have "slot_step (?s (?pool 0 0 0) [] [] 0) (?s (?pool 0 0 0) [Local_Arrived] [False] 0)"
    using slot_step.arrive [of Local_Arrived False "?s (?pool 0 0 0) [] [] 0"] by simp
  also have "slot_step (?s (?pool 0 0 0) [Local_Arrived] [False] 0) (?s (?pool 0 1 0) [Local_Testing] [False] 0)"
    using slot_step.announce [of 0 "?s (?pool 0 0 0) [Local_Arrived] [False] 0"] by (simp add: announce_local_def)
  also have "slot_step (?s (?pool 0 1 0) [Local_Testing] [False] 0)
      (?s (?pool 0 1 0) [Local_Testing, Router_Testing False] [False, False] 0)"
    using slot_step.arrive [of "Router_Testing False" False "?s (?pool 0 1 0) [Local_Testing] [False] 0"] by simp
  also have "slot_step (?s (?pool 0 1 0) [Local_Testing, Router_Testing False] [False, False] 0)
      (?s (?pool 0 1 0) [Local_Testing, Router_Parked False] [False, False] 0)"
    using slot_step.test_router [of 1 "?s (?pool 0 1 0) [Local_Testing, Router_Testing False] [False, False] 0" False]
    by (simp add: acquire_router_def)
  also have "slot_step (?s (?pool 0 1 0) [Local_Testing, Router_Parked False] [False, False] 0) overlooked"
    using slot_step.test_local [of 0 "?s (?pool 0 1 0) [Local_Testing, Router_Parked False] [False, False] 0"]
    by (simp add: acquire_local_def overlooked_def)
  finally show ?thesis
    by (auto simp: slots_reach_def dest: tranclp_into_rtranclp)
qed

theorem router_job_overlooked:
  "slots_reach overlooked \<and> sl_wakes overlooked = 0 \<and> sl_calls overlooked ! 1 = Router_Parked False \<and>
   acquire_router False False (sl_pool overlooked) \<noteq> Must_Wait"
  using overlooked_reached by (simp add: overlooked_def acquire_router_def)

end
