(* ===== verification/Worker_Health.thy ===== *)
theory Worker_Health
  imports Wire_Types
begin

text \<open>
  What a worker advertises: the circuit breaker of \<open>client/internal/health/breaker.go\<close>, the part of
  \<open>client/config.go\<close> that names models, and the health checks of \<open>client/internal/ws/conn.go\<close>. What a
  backend answers to a check is an argument; times are nanoseconds.
\<close>

section \<open>The breaker\<close>

definition trip_after :: int where "trip_after = 3"
definition first_cooldown :: duration where "first_cooldown = 30 * second_ns"
definition max_cooldown :: duration where "max_cooldown = 600 * second_ns"

record breaker_state =
  bk_failures :: int
  bk_open_until :: gotime
  bk_cooldown :: duration
  bk_active :: int

type_synonym breaker = "(string, breaker_state) gomap"

definition breaker_closed :: breaker_state where
  "breaker_closed = \<lparr>bk_failures = 0, bk_open_until = zero_time, bk_cooldown = 0, bk_active = 0\<rparr>"

definition breaker_state_of :: "breaker \<Rightarrow> string \<Rightarrow> breaker_state" where
  "breaker_state_of b m = get_or breaker_closed b m"

definition breaker_success :: "string \<Rightarrow> breaker \<Rightarrow> breaker" where
  "breaker_success m b =
     mput m ((breaker_state_of b m)\<lparr>bk_failures := 0, bk_open_until := zero_time, bk_cooldown := 0\<rparr>) b"

definition next_cooldown :: "duration \<Rightarrow> duration" where
  "next_cooldown d =
     (if d = 0 then first_cooldown
      else if d < max_cooldown then (if d * 2 > max_cooldown then max_cooldown else d * 2)
      else d)"

definition breaker_failure :: "gotime \<Rightarrow> string \<Rightarrow> breaker \<Rightarrow> bool \<times> breaker" where
  "breaker_failure now m b =
     (let s = (breaker_state_of b m)\<lparr>bk_failures := bk_failures (breaker_state_of b m) + 1\<rparr>
      in if \<not> bk_cooldown s > 0 \<and> bk_failures s < trip_after then (False, mput m s b)
         else
           let d = next_cooldown (bk_cooldown s)
           in (True, mput m (s\<lparr>bk_cooldown := d, bk_open_until := now + d\<rparr>) b))"

definition breaker_open :: "gotime \<Rightarrow> string \<Rightarrow> breaker \<Rightarrow> bool" where
  "breaker_open now m b = (case mget b m of None \<Rightarrow> False | Some s \<Rightarrow> now < bk_open_until s)"

definition breaker_start :: "string \<Rightarrow> breaker \<Rightarrow> breaker" where
  "breaker_start m b = mput m ((breaker_state_of b m)\<lparr>bk_active := bk_active (breaker_state_of b m) + 1\<rparr>) b"

definition breaker_done :: "string \<Rightarrow> breaker \<Rightarrow> breaker" where
  "breaker_done m b =
     (let s = breaker_state_of b m in mput m (if bk_active s > 0 then s\<lparr>bk_active := bk_active s - 1\<rparr> else s) b)"

definition breaker_active :: "string \<Rightarrow> breaker \<Rightarrow> int" where
  "breaker_active m b = (case mget b m of None \<Rightarrow> 0 | Some s \<Rightarrow> bk_active s)"

section \<open>The models of the configuration\<close>

record model_config =
  mc_name :: string
  mc_endpoint :: string
  mc_template :: string
  mc_modalities :: "string list"

definition effective_modalities :: "model_config \<Rightarrow> string list \<Rightarrow> string list" where
  "effective_modalities m detected =
     (if mc_modalities m = [] then detected
      else modality_text # filter (\<lambda>x. x \<noteq> [] \<and> x \<noteq> modality_text) (mc_modalities m))"

record worker_config =
  wc_models :: "model_config list"
  wc_activity_timeout :: duration
  wc_templates :: "(string, string) gomap"
  wc_names :: "(string, string) gomap"

definition effective_name :: "worker_config \<Rightarrow> model_config \<Rightarrow> string" where
  "effective_name c m = (if mc_name m \<noteq> [] then mc_name m else get_or [] (wc_names c) (mc_endpoint m))"

definition set_resolved_name :: "string \<Rightarrow> string \<Rightarrow> worker_config \<Rightarrow> worker_config" where
  "set_resolved_name e name c = (if name \<noteq> [] then c\<lparr>wc_names := mput e name (wc_names c)\<rparr> else c)"

definition set_detected_template :: "string \<Rightarrow> string \<Rightarrow> worker_config \<Rightarrow> worker_config" where
  "set_detected_template m t c = (if t \<noteq> [] then c\<lparr>wc_templates := mput m t (wc_templates c)\<rparr> else c)"

definition named :: "worker_config \<Rightarrow> string \<Rightarrow> model_config \<Rightarrow> bool" where
  "named c model m \<longleftrightarrow> effective_name c m \<noteq> [] \<and> effective_name c m = model"

definition endpoint_for :: "worker_config \<Rightarrow> string \<Rightarrow> string" where
  "endpoint_for c model = (case find (named c model) (wc_models c) of None \<Rightarrow> [] | Some m \<Rightarrow> mc_endpoint m)"

definition available_model_names :: "worker_config \<Rightarrow> string list" where
  "available_model_names c = filter (\<lambda>n. n \<noteq> []) (map (effective_name c) (wc_models c))"

definition chat_template_override :: "worker_config \<Rightarrow> string \<Rightarrow> string" where
  "chat_template_override c model =
     (case find (named c model) (wc_models c) of None \<Rightarrow> [] | Some m \<Rightarrow> mc_template m)"

definition chat_template_for :: "worker_config \<Rightarrow> string \<Rightarrow> string" where
  "chat_template_for c model =
     (case find (\<lambda>m. named c model m \<and> mc_template m \<noteq> []) (wc_models c) of
        Some m \<Rightarrow> mc_template m
      | None \<Rightarrow> get_or [] (wc_templates c) model)"

definition keep_alive_interval :: "worker_config \<Rightarrow> duration" where
  "keep_alive_interval c =
     (if wc_activity_timeout c \<le> 0 then 60 * second_ns
      else let half = wc_activity_timeout c div 2 in if half > 60 * second_ns then 60 * second_ns else half)"

definition shutdown_drain_timeout :: "duration option \<Rightarrow> duration" where
  "shutdown_drain_timeout set_to =
     (case set_to of None \<Rightarrow> 60 * second_ns | Some d \<Rightarrow> if d < 0 then 0 else d)"

section \<open>Checking a backend\<close>

definition down_after :: int where "down_after = 3"

text \<open>What a backend answers: whether it is ready, the model it names, and its properties.\<close>

record backend_answer =
  ba_ready :: bool
  ba_model_id :: string
  ba_ctx :: int
  ba_ctx_train :: int
  ba_slots :: int
  ba_modalities :: "string list"
  ba_template :: string

record backend_state =
  bs_failures :: int
  bs_last :: "model_info option"
  bs_slots :: int
  bs_up :: bool
  bs_tripped :: bool

definition backend_new :: backend_state where
  "backend_new = \<lparr>bs_failures = 0, bs_last = None, bs_slots = 0, bs_up = False, bs_tripped = False\<rparr>"

definition probe ::
  "breaker \<Rightarrow> backend_answer \<Rightarrow> model_config \<Rightarrow> worker_config \<Rightarrow> backend_state \<Rightarrow>
   (model_info option \<times> int) \<times> worker_config \<times> backend_state" where
  "probe br a m c st =
     (if \<not> ba_ready a then
        (case bs_last st of
           Some i \<Rightarrow>
             if breaker_active (mi_name i) br > 0 then ((Some i, bs_slots st), c, st)
             else
               let st = st\<lparr>bs_failures := bs_failures st + 1\<rparr>
               in if bs_failures st < down_after then ((Some i, bs_slots st), c, st)
                  else ((None, 0), c, st\<lparr>bs_last := None\<rparr>)
         | None \<Rightarrow> ((None, 0), c, st\<lparr>bs_failures := bs_failures st + 1\<rparr>))
      else
        let st = st\<lparr>bs_failures := 0, bs_up := True\<rparr>;
            name = (if mc_name m = [] then ba_model_id a else mc_name m)
        in if name = [] then ((None, 0), c, st\<lparr>bs_last := None\<rparr>)
           else
             let c = (if mc_name m = [] then set_resolved_name (mc_endpoint m) name c else c);
                 i = \<lparr>mi_name = name, mi_context_size = ba_ctx a, mi_context_train = ba_ctx_train a,
                      mi_modalities = effective_modalities m (ba_modalities a)\<rparr>
             in ((Some i, ba_slots a), set_detected_template name (ba_template a) c,
                 st\<lparr>bs_last := Some i, bs_slots := ba_slots a\<rparr>))"

record model_provider =
  mp_config :: worker_config
  mp_backends :: "(string, backend_state) gomap"

text \<open>One model's turn in \<open>Models\<close>, with what its backend answers this time, and the whole.\<close>

definition check_backend ::
  "gotime \<Rightarrow> breaker \<Rightarrow> model_config \<times> backend_answer \<Rightarrow>
   (model_info list \<times> int) \<times> model_provider \<Rightarrow> (model_info list \<times> int) \<times> model_provider" where
  "check_backend now br ma acc =
     (case (ma, acc) of ((m, a), (infos, slots_sum), p) \<Rightarrow>
        let e = mc_endpoint m
        in (case probe br a m (mp_config p) (get_or backend_new (mp_backends p) e) of
              ((found, slots), c, st) \<Rightarrow>
                let keep = (\<lambda>st. p\<lparr>mp_config := c, mp_backends := mput e st (mp_backends p)\<rparr>)
                in (case found of
                      None \<Rightarrow> ((infos, slots_sum), keep st)
                    | Some i \<Rightarrow>
                        if breaker_open now (mi_name i) br
                        then ((infos, slots_sum), keep (st\<lparr>bs_tripped := True\<rparr>))
                        else ((infos @ [i], slots_sum + slots), keep (st\<lparr>bs_tripped := False\<rparr>)))))"

definition provider_models ::
  "gotime \<Rightarrow> breaker \<Rightarrow> backend_answer list \<Rightarrow> model_provider \<Rightarrow>
   (model_info list \<times> int) \<times> model_provider" where
  "provider_models now br answers p =
     fold (check_backend now br) (zip (wc_models (mp_config p)) answers) (([], 0), p)"

section \<open>A job\<close>

text \<open>
  \<open>Handle\<close>: what the backend produced while the ticker of the keep-alive ran, and how it ended;
  \<open>gone\<close> is whether the job's context ended. The result is what is sent, the tokens counted, whether
  the job failed, and the breaker. (A tick between the last message and the return is left out; the
  router ignores it.)
\<close>

datatype infer_event = Inferred chunk_msg | Alive_Tick

datatype infer_end = Infer_Ok | Infer_Failed string bool

datatype worker_msg =
    Worker_Chunk chunk_msg
  | Worker_Error error_msg

definition empty_chunk :: "string \<Rightarrow> chunk_msg" where
  "empty_chunk rid =
     \<lparr>ck_request_id = rid, ck_delta = [], ck_tool_calls_delta = [], ck_reasoning_delta = [], ck_done = False,
      ck_finish_reason = [], ck_usage = None, ck_model = [], ck_error = []\<rparr>"

fun event_msg :: "string \<Rightarrow> infer_event \<Rightarrow> worker_msg" where
  "event_msg rid (Inferred k) = Worker_Chunk (k\<lparr>ck_request_id := rid, ck_model := [], ck_error := []\<rparr>)"
| "event_msg rid Alive_Tick = Worker_Chunk (empty_chunk rid)"

fun event_tokens :: "infer_event \<Rightarrow> int" where
  "event_tokens (Inferred k) =
     (case ck_usage k of Some u \<Rightarrow> if ck_done k then us_completion_tokens u else 0 | None \<Rightarrow> 0)"
| "event_tokens Alive_Tick = 0"

record job_outcome =
  hd_sent :: "worker_msg list"
  hd_tokens :: int
  hd_failed :: bool

definition handle_job ::
  "worker_config \<Rightarrow> gotime \<Rightarrow> inference_request \<Rightarrow> infer_event list \<Rightarrow> infer_end \<Rightarrow> bool \<Rightarrow> breaker \<Rightarrow>
   job_outcome \<times> breaker" where
  "handle_job c now req events ending gone br =
     (let m = rq_model req; error = (\<lambda>msg final. Worker_Error \<lparr>em_request_id = rq_id req, em_message = msg, em_final = final\<rparr>)
      in if endpoint_for c m = [] then
           (\<lparr>hd_sent = [error ''model not available on this client'' False], hd_tokens = 0, hd_failed = False\<rparr>, br)
         else
           let b = breaker_start m br;
               sent = map (event_msg (rq_id req)) events;
               tokens = sum_list (map event_tokens events)
           in (case ending of
                 Infer_Failed msg final \<Rightarrow>
                   if gone then (\<lparr>hd_sent = sent, hd_tokens = tokens, hd_failed = False\<rparr>, breaker_done m b)
                   else
                     (\<lparr>hd_sent = sent @ [error msg final], hd_tokens = tokens, hd_failed = True\<rparr>,
                      breaker_done m (if \<not> final then snd (breaker_failure now m b) else b))
               | Infer_Ok \<Rightarrow>
                   (\<lparr>hd_sent = sent, hd_tokens = tokens, hd_failed = False\<rparr>, breaker_done m (breaker_success m b))))"

section \<open>The breaker's law\<close>

lemma state_of_put [simp]:
  "breaker_state_of (mput m s b) n = (if n = m then s else breaker_state_of b n)"
  by (simp add: breaker_state_of_def gomap_simps)

lemma open_state_of: "zero_time \<le> now \<Longrightarrow> breaker_open now m b \<longleftrightarrow> now < bk_open_until (breaker_state_of b m)"
  by (auto simp: breaker_open_def breaker_state_of_def get_or_def breaker_closed_def split: option.splits)

definition failing :: "string \<Rightarrow> gotime list \<Rightarrow> breaker \<Rightarrow> breaker" where
  "failing m ts b = fold (\<lambda>t b. snd (breaker_failure t m b)) ts b"

text \<open>The cooldown after \<open>k\<close> failures in a row, as the documentation has it.\<close>

definition cooldown_after :: "nat \<Rightarrow> duration" where
  "cooldown_after k = (if k < 3 then 0 else min max_cooldown (first_cooldown * 2 ^ (k - 3)))"

lemma cooldown_after_nonneg [simp]: "0 \<le> cooldown_after k" and
  cooldown_after_pos: "0 < cooldown_after k \<longleftrightarrow> 3 \<le> k"
  by (auto simp: cooldown_after_def first_cooldown_def max_cooldown_def second_ns_def)

lemma next_cooldown_after:
  assumes "2 \<le> k"
  shows "next_cooldown (cooldown_after k) = cooldown_after (Suc k)"
proof (cases "k = 2")
  case False
  with assms obtain i where "k = i + 3" by (metis add.commute le_Suc_ex Suc_leI le_neq_implies_less numeral_3_eq_3 numeral_2_eq_2)
  then show ?thesis
    by (auto simp: cooldown_after_def next_cooldown_def first_cooldown_def max_cooldown_def second_ns_def min_def)
qed (simp add: cooldown_after_def next_cooldown_def first_cooldown_def max_cooldown_def second_ns_def)

lemma failing_states:
  assumes "breaker_state_of b m = s" and "bk_failures s = 0" and "bk_cooldown s = 0"
  shows "breaker_state_of (failing m ts b) n =
    (if n \<noteq> m then breaker_state_of b n
     else s\<lparr>bk_failures := int (length ts), bk_cooldown := cooldown_after (length ts),
            bk_open_until := (if length ts < 3 then bk_open_until s else last ts + cooldown_after (length ts))\<rparr>)"
proof (induction ts rule: rev_induct)
  case Nil
  show ?case using assms by (simp add: failing_def cooldown_after_def)
next
  case (snoc t ts)
  have "failing m (ts @ [t]) b = snd (breaker_failure t m (failing m ts b))"
    by (simp add: failing_def)
  with snoc show ?case
    using next_cooldown_after [of "length ts"]
    by (auto simp: breaker_failure_def Let_def trip_after_def cooldown_after_pos not_less
        cooldown_after_def [of "Suc (length ts)"] cooldown_after_def [of "length ts"])
qed

text \<open>
  C25. A model is withdrawn exactly by its third failure in a row and each one after, for thirty
  seconds, a minute, and so on up to ten minutes after the last of them; a success ends it, and
  failures of one model say nothing of another.
\<close>

theorem breaker_backs_off:
  assumes "zero_time \<le> now" and "ts \<noteq> []"
  shows "(breaker_open now m (failing m ts (breaker_success m b)) \<longleftrightarrow>
      3 \<le> length ts \<and> now < last ts + min (600 * second_ns) (30 * second_ns * 2 ^ (length ts - 3))) \<and>
    (n \<noteq> m \<longrightarrow> breaker_open now n (failing m ts (breaker_success m b)) = breaker_open now n b)"
proof -
  let ?s = "(breaker_state_of b m)\<lparr>bk_failures := 0, bk_open_until := zero_time, bk_cooldown := 0\<rparr>"
  have "breaker_state_of (breaker_success m b) m = ?s" by (simp add: breaker_success_def)
  note run = failing_states [OF this, of ts]
  show ?thesis
    using assms
    by (auto simp: open_state_of run cooldown_after_def first_cooldown_def max_cooldown_def)
      (simp_all add: breaker_success_def)
qed

text \<open>
  Failures of requests that were in flight when the model was withdrawn count like failed retries:
  eight at once withdraw it for ten minutes, where the documentation promises thirty seconds the
  first time.
\<close>

theorem simultaneous_failures_compound:
  assumes "zero_time \<le> t"
  shows "breaker_open (t + 599 * second_ns) m (failing m (replicate 8 t) (breaker_success m b))"
proof -
  have "breaker_state_of (breaker_success m b) m =
      (breaker_state_of b m)\<lparr>bk_failures := 0, bk_open_until := zero_time, bk_cooldown := 0\<rparr>"
    by (simp add: breaker_success_def)
  note run = failing_states [OF this, of "replicate 8 t"]
  show ?thesis
    using assms
    by (simp add: open_state_of run second_ns_def cooldown_after_def first_cooldown_def max_cooldown_def)
qed

section \<open>Health checks\<close>

fun checks ::
  "breaker \<Rightarrow> backend_answer list \<Rightarrow> model_config \<Rightarrow> worker_config \<Rightarrow> backend_state \<Rightarrow>
   (model_info option \<times> int) list" where
  "checks br [] m c st = []"
| "checks br (a # as) m c st = (case probe br a m c st of (x, c, st) \<Rightarrow> x # checks br as m c st)"

lemma checks_withdrawn:
  "list_all (\<lambda>a. \<not> ba_ready a) as \<Longrightarrow> bs_last st = None \<Longrightarrow> checks br as m c st = replicate (length as) (None, 0)"
  by (induction as arbitrary: st) (auto simp: probe_def Let_def)

lemma checks_missed:
  assumes "list_all (\<lambda>a. \<not> ba_ready a) as" and "bs_last st = Some i" and "\<not> breaker_active (mi_name i) br > 0"
    and "bs_failures st = 2 - int k" and "k \<le> 2"
  shows "checks br as m c st =
    replicate (min k (length as)) (Some i, bs_slots st) @ replicate (length as - k) (None, 0)"
  using assms
proof (induction as arbitrary: st k)
  case (Cons a as)
  show ?case
  proof (cases k)
    case 0
    with Cons.prems have "probe br a m c st = ((None, 0), c, st\<lparr>bs_failures := 3, bs_last := None\<rparr>)"
      by (simp add: probe_def down_after_def)
    with 0 Cons.prems(1) show ?thesis by (simp add: checks_withdrawn)
  next
    case (Suc j)
    with Cons.prems have "probe br a m c st = ((Some i, bs_slots st), c, st\<lparr>bs_failures := 2 - int j\<rparr>)"
      by (simp add: probe_def down_after_def)
    moreover have "checks br as m c (st\<lparr>bs_failures := 2 - int j\<rparr>) =
        replicate (min j (length as)) (Some i, bs_slots st) @ replicate (length as - j) (None, 0)"
      using Cons.IH [of "st\<lparr>bs_failures := 2 - int j\<rparr>" j] Cons.prems Suc by simp
    ultimately show ?thesis using Suc by simp
  qed
qed simp

lemma checks_busy:
  "list_all (\<lambda>a. \<not> ba_ready a) as \<Longrightarrow> bs_last st = Some i \<Longrightarrow> breaker_active (mi_name i) br > 0 \<Longrightarrow>
     checks br as m c st = replicate (length as) (Some i, bs_slots st)"
  by (induction as arbitrary: st) (auto simp: probe_def)

text \<open>
  A backend that stops answering keeps its model offered through two missed checks, loses it with
  the third, and gets it back only by answering; while it is busy with requests, missed checks count
  for nothing.
\<close>

theorem missed_checks_withdraw:
  assumes "ba_ready a" and "probe br a m c st = ((Some i, n), c', st')"
    and "list_all (\<lambda>a. \<not> ba_ready a) as"
  shows "checks br as m c' st' =
    (if breaker_active (mi_name i) br > 0 then replicate (length as) (Some i, n)
     else replicate (min 2 (length as)) (Some i, n) @ replicate (length as - 2) (None, 0))"
proof -
  from assms(1,2) have st': "bs_last st' = Some i" "bs_slots st' = n" "bs_failures st' = 0"
    by (auto simp: probe_def Let_def split: if_splits)
  show ?thesis
    using checks_busy [OF assms(3) st'(1)] checks_missed [OF assms(3) st'(1), of br 2] st'(2,3) by simp
qed

section \<open>What is advertised\<close>

text \<open>A name that some configured model goes by.\<close>

definition goes_by :: "worker_config \<Rightarrow> string \<Rightarrow> string \<Rightarrow> bool" where
  "goes_by c e n \<longleftrightarrow> n \<noteq> [] \<and> list_ex (\<lambda>m. mc_endpoint m = e \<and> effective_name c m = n) (wc_models c)"

definition provider_ok :: "model_provider \<Rightarrow> bool" where
  "provider_ok p \<longleftrightarrow>
     (\<forall>e st i. mget (mp_backends p) e = Some st \<longrightarrow> bs_last st = Some i \<longrightarrow> goes_by (mp_config p) e (mi_name i))"

lemma goes_by_other:
  assumes "wc_models c' = wc_models c" and "get_or [] (wc_names c') e = get_or [] (wc_names c) e"
  shows "goes_by c' e n = goes_by c e n"
proof -
  have "(mc_endpoint m = e \<and> effective_name c' m = n) = (mc_endpoint m = e \<and> effective_name c m = n)" for m
    using assms(2) unfolding effective_name_def by metis
  then show ?thesis unfolding goes_by_def assms(1) by simp
qed

lemma endpoint_goes_by:
  assumes "goes_by c e n" and "list_all (\<lambda>m. mc_endpoint m \<noteq> []) (wc_models c)"
  shows "endpoint_for c n \<noteq> []"
proof -
  from assms(1) obtain m where "m \<in> set (wc_models c)" "named c n m"
    by (auto simp: goes_by_def named_def list_ex_iff)
  then obtain m' where "find (named c n) (wc_models c) = Some m'"
    by (metis find_None_iff not_Some_eq)
  moreover from this have "m' \<in> set (wc_models c)" by (auto simp: find_Some_iff)
  ultimately show ?thesis using assms(2) by (simp add: endpoint_for_def list_all_iff)
qed

text \<open>What a check keeps: the models, the names of other endpoints, and that the name it offers is resolved.\<close>

lemma probe_names:
  assumes "probe br a m c st = ((found, n), c', st')" and "m \<in> set (wc_models c)"
    and "\<And>i. bs_last st = Some i \<Longrightarrow> goes_by c (mc_endpoint m) (mi_name i)"
  shows "wc_models c' = wc_models c"
    and "e \<noteq> mc_endpoint m \<Longrightarrow> get_or [] (wc_names c') e = get_or [] (wc_names c) e"
    and "found = Some i \<or> bs_last st' = Some i \<Longrightarrow> goes_by c' (mc_endpoint m) (mi_name i)"
proof -
  show "wc_models c' = wc_models c" "e \<noteq> mc_endpoint m \<Longrightarrow> get_or [] (wc_names c') e = get_or [] (wc_names c) e"
    using assms(1)
    by (auto simp: probe_def Let_def set_resolved_name_def set_detected_template_def gomap_simps
        split: if_splits option.splits)
  show "found = Some i \<or> bs_last st' = Some i \<Longrightarrow> goes_by c' (mc_endpoint m) (mi_name i)"
  proof (cases "ba_ready a")
    case False
    then show "found = Some i \<or> bs_last st' = Some i \<Longrightarrow> ?thesis"
      using assms(1,3) by (auto simp: probe_def Let_def split: if_splits option.splits)
  next
    case True
    let ?name = "if mc_name m = [] then ba_model_id a else mc_name m"
    assume "found = Some i \<or> bs_last st' = Some i"
    with True assms(1) have "?name \<noteq> []" "mi_name i = ?name"
        "c' = set_detected_template ?name (ba_template a)
          (if mc_name m = [] then set_resolved_name (mc_endpoint m) ?name c else c)"
      by (auto simp: probe_def Let_def split: if_splits)
    with assms(2) show ?thesis
      by (auto simp: goes_by_def list_ex_iff effective_name_def set_resolved_name_def set_detected_template_def
          gomap_simps intro!: bexI [of _ m] split: if_splits)
  qed
qed

lemma check_backend_keeps:
  assumes "check_backend now br (m, a) ((infos, n), p) = ((infos', n'), p')"
    and "m \<in> set (wc_models (mp_config p))" and "provider_ok p"
  shows "provider_ok p' \<and> wc_models (mp_config p') = wc_models (mp_config p) \<and>
    (\<forall>e x. e \<noteq> mc_endpoint m \<longrightarrow> goes_by (mp_config p') e x = goes_by (mp_config p) e x) \<and>
    (infos' = infos \<or>
     (\<exists>i. infos' = infos @ [i] \<and> goes_by (mp_config p') (mc_endpoint m) (mi_name i) \<and>
        \<not> breaker_open now (mi_name i) br))"
proof -
  let ?e = "mc_endpoint m"
  let ?st = "get_or backend_new (mp_backends p) ?e"
  obtain found k c' st' where probe: "probe br a m (mp_config p) ?st = ((found, k), c', st')"
    by (metis surj_pair)
  have last: "bs_last ?st = Some i \<Longrightarrow> goes_by (mp_config p) ?e (mi_name i)" for i
    using assms(3) by (auto simp: provider_ok_def get_or_def backend_new_def split: option.splits)
  note names = probe_names [OF probe assms(2) last]
  have other: "e \<noteq> ?e \<Longrightarrow> goes_by c' e x = goes_by (mp_config p) e x" for e x
    using goes_by_other [OF names(1) names(2)] by simp
  have ok: "provider_ok (p\<lparr>mp_config := c', mp_backends := mput ?e (st'\<lparr>bs_tripped := b\<rparr>) (mp_backends p)\<rparr>)"
    "provider_ok (p\<lparr>mp_config := c', mp_backends := mput ?e st' (mp_backends p)\<rparr>)" for b
    using assms(3) names(3) other by (auto simp: provider_ok_def gomap_simps split: if_splits)
  show ?thesis
    using assms(1) names(1,3) other ok
    by (auto simp: check_backend_def probe Let_def split: option.splits if_splits)
qed

lemma provider_models_loop:
  assumes "fold (check_backend now br) mas ((infos, n), p) = ((infos', n'), p')" and "provider_ok p"
    and "distinct (map (mc_endpoint \<circ> fst) mas)" and "fst ` set mas \<subseteq> set (wc_models (mp_config p))"
  shows "provider_ok p' \<and> wc_models (mp_config p') = wc_models (mp_config p) \<and>
    (\<forall>e x. e \<notin> (mc_endpoint \<circ> fst) ` set mas \<longrightarrow> goes_by (mp_config p') e x = goes_by (mp_config p) e x) \<and>
    (\<exists>new. infos' = infos @ new \<and>
       (\<forall>i \<in> set new. \<not> breaker_open now (mi_name i) br \<and> (\<exists>e. goes_by (mp_config p') e (mi_name i))))"
  using assms
proof (induction mas arbitrary: infos n p)
  case (Cons ma mas)
  obtain m a where ma: "ma = (m, a)" by force
  obtain infos1 n1 p1 where one: "check_backend now br (m, a) ((infos, n), p) = ((infos1, n1), p1)"
    by (metis surj_pair)
  have m0: "m \<in> set (wc_models (mp_config p))" using Cons.prems(4) by (simp add: ma)
  note step = check_backend_keeps [OF one m0 Cons.prems(2)]
  have "fold (check_backend now br) mas ((infos1, n1), p1) = ((infos', n'), p')"
    using Cons.prems(1) one by (simp add: ma)
  with Cons.IH [OF this] step Cons.prems(3,4)
  have ih: "provider_ok p' \<and> wc_models (mp_config p') = wc_models (mp_config p1) \<and>
      (\<forall>e x. e \<notin> (mc_endpoint \<circ> fst) ` set mas \<longrightarrow> goes_by (mp_config p') e x = goes_by (mp_config p1) e x) \<and>
      (\<exists>new. infos' = infos1 @ new \<and>
         (\<forall>i \<in> set new. \<not> breaker_open now (mi_name i) br \<and> (\<exists>e. goes_by (mp_config p') e (mi_name i))))"
    and m: "mc_endpoint m \<notin> (mc_endpoint \<circ> fst) ` set mas" "m \<in> set (wc_models (mp_config p))"
    by (auto simp: ma)
  then obtain new where new: "infos' = infos1 @ new"
      "\<forall>i \<in> set new. \<not> breaker_open now (mi_name i) br \<and> (\<exists>e. goes_by (mp_config p') e (mi_name i))" by blast
  from step consider "infos1 = infos"
    | i where "infos1 = infos @ [i]" "goes_by (mp_config p1) (mc_endpoint m) (mi_name i)" "\<not> breaker_open now (mi_name i) br"
    by blast
  then have "\<exists>new. infos' = infos @ new \<and>
      (\<forall>i \<in> set new. \<not> breaker_open now (mi_name i) br \<and> (\<exists>e. goes_by (mp_config p') e (mi_name i)))"
  proof cases
    case (2 i)
    then have "goes_by (mp_config p') (mc_endpoint m) (mi_name i)" using ih m(1) by blast
    with 2 new show ?thesis by (intro exI [of _ "i # new"]) auto
  qed (use new in blast)
  then show ?case using ih step by (simp add: ma)
qed simp

text \<open>
  Where the configured backends are distinct, every model that a round of checks advertises is
  one whose breaker is closed and for which the worker has an endpoint, so that its jobs are never
  refused for want of one; and this stays so over any rounds.
\<close>

theorem advertised_models_are_served:
  assumes "provider_models now br answers p = ((infos, n), p')" and "provider_ok p"
    and "distinct (map mc_endpoint (wc_models (mp_config p)))"
    and "list_all (\<lambda>m. mc_endpoint m \<noteq> []) (wc_models (mp_config p))"
  shows "provider_ok p' \<and> wc_models (mp_config p') = wc_models (mp_config p) \<and>
    list_all (\<lambda>i. \<not> breaker_open now (mi_name i) br \<and> endpoint_for (mp_config p') (mi_name i) \<noteq> []) infos"
proof -
  let ?ms = "wc_models (mp_config p)"
  have "map (mc_endpoint \<circ> fst) (zip ?ms answers) = take (length answers) (map mc_endpoint ?ms)"
    by (simp add: take_map map_fst_zip_take min_def flip: map_map)
  then have "distinct (map (mc_endpoint \<circ> fst) (zip ?ms answers))"
    using assms(3) by (metis distinct_take)
  moreover have "fst ` set (zip ?ms answers) \<subseteq> set ?ms" by (auto dest: set_zip_leftD)
  ultimately show ?thesis
    using provider_models_loop [OF assms(1) [unfolded provider_models_def] assms(2)] assms(4) endpoint_goes_by
    by (fastforce simp: list_all_iff [of _ infos])
qed

lemma provider_ok_start: "provider_ok \<lparr>mp_config = c, mp_backends = []\<rparr>"
  by (simp add: provider_ok_def)

section \<open>Jobs and the breaker\<close>

lemma breaker_active_state: "breaker_active m b = bk_active (breaker_state_of b m)"
  by (auto simp: breaker_active_def breaker_state_of_def get_or_def breaker_closed_def split: option.splits)

text \<open>
  Handling a job leaves the count of running requests as it was and other models' breakers
  untouched; its own model's failures grow by one when the backend failed while the job was wanted
  and the failure is not the request's fault, go back to zero when it succeeded, and otherwise stay.
  A failure of a wanted job is told to the router as the last message, an end without one never is.
\<close>

theorem job_outcomes_move_the_breaker:
  assumes "handle_job c now req events ending gone b = (h, b')" and "0 \<le> breaker_active (rq_model req) b"
  shows "breaker_active m b' = breaker_active m b \<and>
    (m \<noteq> rq_model req \<longrightarrow> breaker_state_of b' m = breaker_state_of b m) \<and>
    bk_failures (breaker_state_of b' (rq_model req)) =
      (if endpoint_for c (rq_model req) = [] then bk_failures (breaker_state_of b (rq_model req))
       else case ending of
         Infer_Ok \<Rightarrow> 0
       | Infer_Failed msg final \<Rightarrow>
           bk_failures (breaker_state_of b (rq_model req)) + (if gone \<or> final then 0 else 1)) \<and>
    (hd_failed h \<longrightarrow> (\<exists>msg final. ending = Infer_Failed msg final \<and>
       last (hd_sent h) = Worker_Error \<lparr>em_request_id = rq_id req, em_message = msg, em_final = final\<rparr>))"
  using assms
  by (auto simp: handle_job_def Let_def breaker_active_state breaker_start_def breaker_done_def breaker_success_def
      breaker_failure_def split: if_splits infer_end.splits)

end
