(* ===== verification/Worker_Conn.thy ===== *)
theory Worker_Conn
  imports Worker_Slots Worker_Health Hub_Dispatch
begin

text \<open>
  A worker's connection to the router (\<open>pkg/wsclient/conn.go\<close>): the frames it receives, the
  goroutines of its jobs, the report of local load, the drain and hand-back at shutdown, and the
  loops that reconnect and watch the models. The state spans connections, since jobs of a lost one
  linger; every section that the code runs between two points where another goroutine could observe
  it is one event, but the turn of the read loop that takes a job and the hand-back are one each.
\<close>

section \<open>The connection\<close>

text \<open>
  A job's goroutine: started, waiting for a slot (the flag is \<open>localBusy\<close> as it read it), about to
  return its job because local requests are busy, inside \<open>Dispatch\<close>, before its deferred deletion of
  the cancel function, or over. \<open>wj_link\<close> is the number of the connection it belongs to and
  \<open>wj_cancelled\<close> whether its context has ended.
\<close>

datatype job_stage =
    Job_Spawned
  | Job_Waiting bool
  | Job_Yielding
  | Job_Running
  | Job_Leaving
  | Job_Over

record worker_job =
  wj_id :: string
  wj_link :: nat
  wj_stage :: job_stage
  wj_cancelled :: bool

datatype worker_out =
    Out_Register register_msg
  | Out_Local_Busy int
  | Out_Draining
  | Out_Release string string
  | Out_Said worker_msg

text \<open>How far the goroutine that waits for the signal has come.\<close>

datatype watcher = Watch_Idle | Watch_Waiting | Watch_Over

text \<open>
  \<open>wl_cancels\<close> maps an id to the goroutine whose cancel function it holds; \<open>wl_link\<close> numbers the current
  connection, \<open>wl_closed\<close> is the end of its context and \<open>wl_gone\<close> that it was dropped; the last three
  fields are the job counters of \<open>ConnStats\<close>.
\<close>

record worker_link =
  wl_cancels :: "(string, nat) gomap"
  wl_jobs :: "worker_job list"
  wl_pool :: slot_pool
  wl_local_busy :: bool
  wl_router_drain :: bool
  wl_draining :: bool
  wl_kicked :: bool
  wl_watcher :: watcher
  wl_link :: nat
  wl_closed :: bool
  wl_gone :: bool
  wl_sent :: "worker_out list"
  wl_active :: int
  wl_jobs_done :: int
  wl_errors :: int

definition link_start :: "slot_pool \<Rightarrow> worker_link" where
  "link_start p =
     \<lparr>wl_cancels = [], wl_jobs = [], wl_pool = p, wl_local_busy = False, wl_router_drain = False,
      wl_draining = False, wl_kicked = False, wl_watcher = Watch_Idle, wl_link = 0, wl_closed = False,
      wl_gone = False, wl_sent = [], wl_active = 0, wl_jobs_done = 0, wl_errors = 0\<rparr>"

definition say :: "worker_out \<Rightarrow> worker_link \<Rightarrow> worker_link" where
  "say m w = (if wl_gone w then w else w\<lparr>wl_sent := wl_sent w @ [m]\<rparr>)"

text \<open>The \<open>send\<close> of a job is that of its own connection; later ones do not see it.\<close>

definition say_for :: "nat \<Rightarrow> worker_out \<Rightarrow> worker_link \<Rightarrow> worker_link" where
  "say_for i m w = (if wj_link (wl_jobs w ! i) = wl_link w then say m w else w)"

definition job_count :: "worker_link \<Rightarrow> nat" where
  "job_count w = length (wl_cancels w)"

definition report_local :: "worker_link \<Rightarrow> worker_link" where
  "report_local w = (if wl_local_busy w then say (Out_Local_Busy (local_load (wl_pool w))) w else w)"

definition report_local_for :: "nat \<Rightarrow> worker_link \<Rightarrow> worker_link" where
  "report_local_for i w = (if wl_local_busy w then say_for i (Out_Local_Busy (local_load (wl_pool w))) w else w)"

definition set_stage :: "nat \<Rightarrow> job_stage \<Rightarrow> worker_link \<Rightarrow> worker_link" where
  "set_stage i s w = w\<lparr>wl_jobs := (wl_jobs w)[i := (wl_jobs w ! i)\<lparr>wj_stage := s\<rparr>]\<rparr>"

definition cancel_job :: "nat \<Rightarrow> worker_link \<Rightarrow> worker_link" where
  "cancel_job i w = w\<lparr>wl_jobs := (wl_jobs w)[i := (wl_jobs w ! i)\<lparr>wj_cancelled := True\<rparr>]\<rparr>"

section \<open>Frames of the router\<close>

definition learn_feature :: "string \<Rightarrow> worker_link \<Rightarrow> worker_link" where
  "learn_feature f w =
     (if f = feature_local_busy then w\<lparr>wl_local_busy := True, wl_kicked := True\<rparr>
      else if f = feature_drain then w\<lparr>wl_router_drain := True\<rparr> else w)"

text \<open>
  One turn of the read loop. \<open>try\<close> is the dispatcher's quick check: \<open>None\<close> accepts the job, otherwise
  it has sent the messages it gives.
\<close>

definition receive ::
  "(inference_request \<Rightarrow> worker_out list option) \<Rightarrow> out_msg \<Rightarrow> worker_link \<Rightarrow> worker_link" where
  "receive try frame w =
     (case frame of
        Registered_Msg fs \<Rightarrow> fold learn_feature fs w
      | Job_Msg r \<Rightarrow>
          if wl_draining w then say (Out_Release (rq_id r) release_shutdown) w
          else (case try r of
                  Some out \<Rightarrow> fold say out w
                | None \<Rightarrow>
                    w\<lparr>wl_cancels := mput (rq_id r) (length (wl_jobs w)) (wl_cancels w),
                      wl_jobs := wl_jobs w @ [\<lparr>wj_id = rq_id r, wj_link = wl_link w, wj_stage = Job_Spawned, wj_cancelled = wl_closed w\<rparr>]\<rparr>)
      | Cancel_Msg rid \<Rightarrow>
          (case mget (wl_cancels w) rid of
             None \<Rightarrow> w
           | Some i \<Rightarrow> (cancel_job i w)\<lparr>wl_cancels := mdel rid (wl_cancels w)\<rparr>))"

section \<open>A job's goroutine\<close>

datatype job_end = Job_Fine | Job_Failed | Job_Panicked

definition job_start :: "nat \<Rightarrow> worker_link \<Rightarrow> worker_link" where
  "job_start i w = (if wj_stage (wl_jobs w ! i) = Job_Spawned then set_stage i (Job_Waiting (wl_local_busy w)) w else w)"

definition job_acquire :: "nat \<Rightarrow> worker_link \<Rightarrow> worker_link" where
  "job_acquire i w =
     (case wj_stage (wl_jobs w ! i) of
        Job_Waiting yield \<Rightarrow>
          (case acquire_router yield (wj_cancelled (wl_jobs w ! i)) (wl_pool w) of
             Acquired p \<Rightarrow> (set_stage i Job_Running w)\<lparr>wl_pool := p, wl_active := wl_active w + 1\<rparr>
           | Gave_Up p \<Rightarrow> set_stage i Job_Leaving w
           | Busy \<Rightarrow> set_stage i Job_Yielding w
           | Must_Wait \<Rightarrow> w)
      | _ \<Rightarrow> w)"

definition job_yield :: "nat \<Rightarrow> worker_link \<Rightarrow> worker_link" where
  "job_yield i w =
     (if wj_stage (wl_jobs w ! i) = Job_Yielding
      then set_stage i Job_Leaving (say_for i (Out_Release (wj_id (wl_jobs w ! i)) release_busy) (report_local_for i w))
      else w)"

definition job_say :: "nat \<Rightarrow> worker_msg \<Rightarrow> worker_link \<Rightarrow> worker_link" where
  "job_say i m w = (if wj_stage (wl_jobs w ! i) = Job_Running then say_for i (Out_Said m) w else w)"

definition worker_panic_error :: "string \<Rightarrow> error_msg" where
  "worker_panic_error rid = \<lparr>em_request_id = rid, em_message = ''internal worker error'', em_final = False\<rparr>"

definition job_return :: "nat \<Rightarrow> job_end \<Rightarrow> worker_link \<Rightarrow> worker_link" where
  "job_return i e w =
     (if wj_stage (wl_jobs w ! i) = Job_Running then
        let w1 = (set_stage i Job_Leaving w)
              \<lparr>wl_pool := pool_release (wl_pool w), wl_active := wl_active w - 1, wl_jobs_done := wl_jobs_done w + 1,
               wl_errors := wl_errors w + (if e = Job_Fine then 0 else 1)\<rparr>
        in if e = Job_Panicked then say_for i (Out_Said (Worker_Error (worker_panic_error (wj_id (wl_jobs w ! i))))) w1
           else w1
      else w)"

text \<open>The deferred end of the goroutine: whatever function the id's entry holds is deleted.\<close>

definition job_leave :: "nat \<Rightarrow> worker_link \<Rightarrow> worker_link" where
  "job_leave i w =
     (if wj_stage (wl_jobs w ! i) = Job_Leaving
      then (set_stage i Job_Over (cancel_job i w))\<lparr>wl_cancels := mdel (wj_id (wl_jobs w ! i)) (wl_cancels w)\<rparr>
      else w)"

section \<open>Shutdown, and the end of the connection\<close>

definition close_link :: "worker_link \<Rightarrow> worker_link" where
  "close_link w = w\<lparr>wl_closed := True, wl_jobs := map (\<lambda>j. j\<lparr>wj_cancelled := True\<rparr>) (wl_jobs w)\<rparr>"

definition shutdown_begin :: "duration \<Rightarrow> worker_link \<Rightarrow> worker_link" where
  "shutdown_begin drain_timeout w =
     (if wl_watcher w \<noteq> Watch_Idle \<or> wl_closed w then w
      else
        let w1 = w\<lparr>wl_watcher := Watch_Waiting\<rparr>
        in if drain_timeout > 0 \<and> wl_router_drain w1 then say Out_Draining (w1\<lparr>wl_draining := True\<rparr>) else w1)"

text \<open>
  A turn of \<open>waitForJobs\<close> and, when it ends, the hand-back; \<open>stop\<close> is whether the timer, the second
  signal or the connection's end has come.
\<close>

definition hand_back :: "bool \<Rightarrow> worker_link \<Rightarrow> worker_link" where
  "hand_back stop w =
     (if wl_watcher w \<noteq> Watch_Waiting then w
      else if wl_draining w \<and> job_count w > 0 \<and> \<not> (stop \<or> wl_closed w) then w
      else
        (close_link (fold (\<lambda>rid. say (Out_Release rid release_shutdown)) (mkeys (wl_cancels w)) w))
          \<lparr>wl_watcher := Watch_Over\<rparr>)"

definition link_lost :: "worker_link \<Rightarrow> worker_link" where
  "link_lost w = (close_link w)\<lparr>wl_gone := True\<rparr>"

text \<open>\<open>connect\<close> again, unless the signal has come; the jobs and their entries are those of before.\<close>

definition link_again :: "worker_link \<Rightarrow> worker_link" where
  "link_again w =
     (if wl_gone w \<and> wl_watcher w = Watch_Idle
      then w\<lparr>wl_link := wl_link w + 1, wl_closed := False, wl_gone := False, wl_local_busy := False,
             wl_router_drain := False\<rparr>
      else w)"

section \<open>Runs\<close>

datatype worker_event =
    Frame out_msg
  | Start nat
  | Acquire nat
  | Yield nat
  | Say nat worker_msg
  | Return nat job_end
  | Leave nat
  | Local_Activity slot_pool
  | Report
  | Register register_msg
  | Shutdown duration
  | Hand_Back bool
  | Lost
  | Again

definition worker_do ::
  "(inference_request \<Rightarrow> worker_out list option) \<Rightarrow> worker_event \<Rightarrow> worker_link \<Rightarrow> worker_link" where
  "worker_do try e w =
     (case e of
        Frame f \<Rightarrow> if wl_gone w then w else receive try f w
      | Start i \<Rightarrow> if i < length (wl_jobs w) then job_start i w else w
      | Acquire i \<Rightarrow> if i < length (wl_jobs w) then job_acquire i w else w
      | Yield i \<Rightarrow> if i < length (wl_jobs w) then job_yield i w else w
      | Say i m \<Rightarrow> if i < length (wl_jobs w) then job_say i m w else w
      | Return i x \<Rightarrow> if i < length (wl_jobs w) then job_return i x w else w
      | Leave i \<Rightarrow> if i < length (wl_jobs w) then job_leave i w else w
      | Local_Activity p \<Rightarrow> w\<lparr>wl_pool := p, wl_kicked := True\<rparr>
      | Report \<Rightarrow> if wl_kicked w \<and> \<not> wl_closed w then report_local (w\<lparr>wl_kicked := False\<rparr>) else w
      | Register m \<Rightarrow>
          if wl_closed w then w else say (Out_Register m) (w\<lparr>wl_pool := pool_init (rm_max_concurrent m) (wl_pool w)\<rparr>)
      | Shutdown d \<Rightarrow> shutdown_begin d w
      | Hand_Back stop \<Rightarrow> hand_back stop w
      | Lost \<Rightarrow> link_lost w
      | Again \<Rightarrow> link_again w)"

definition worker_run ::
  "(inference_request \<Rightarrow> worker_out list option) \<Rightarrow> worker_event list \<Rightarrow> worker_link \<Rightarrow> worker_link" where
  "worker_run try es w = fold (worker_do try) es w"

section \<open>The models announced, and reconnection\<close>

definition concurrency :: "int \<Rightarrow> int \<Rightarrow> int" where
  "concurrency configured detected =
     (let n = (if configured \<le> 0 then detected else configured) in if n < 1 then 1 else n)"

definition registration :: "string \<Rightarrow> string \<Rightarrow> model_info list \<Rightarrow> int \<Rightarrow> register_msg" where
  "registration version kind models conc =
     \<lparr>rm_models = models, rm_max_concurrent = conc, rm_version = version, rm_kind = kind\<rparr>"

text \<open>A turn of \<open>watchModels\<close>: the registration it sends, and what it has announced last.\<close>

definition watch_turn ::
  "string \<Rightarrow> string \<Rightarrow> int \<Rightarrow> model_info list \<times> int \<Rightarrow> model_info list \<times> int \<Rightarrow>
   register_msg option \<times> (model_info list \<times> int)" where
  "watch_turn version kind configured found announced =
     (case found of (next, slots_found) \<Rightarrow>
        let conc = concurrency configured slots_found
        in if (next, conc) = announced then (None, announced)
           else (Some (registration version kind next conc), (next, conc)))"

definition initial_backoff :: duration where "initial_backoff = second_ns"
definition max_backoff :: duration where "max_backoff = 60 * second_ns"

text \<open>
  A turn of \<open>Run\<close> after an attempt: the wait before the next one (to be perturbed by a fifth at most),
  and the backoff kept.
\<close>

definition reconnect :: "bool \<Rightarrow> bool \<Rightarrow> duration \<Rightarrow> duration option \<times> duration" where
  "reconnect registered failed backoff =
     (let b = (if registered then initial_backoff else backoff)
      in if failed then (Some b, if b < max_backoff then b * 2 else b) else (None, b))"

section \<open>What the router reads\<close>

definition empty_inbound :: inbound_msg where
  "empty_inbound =
     \<lparr>im_type = [], im_models = [], im_max_concurrent = 0, im_version = [], im_kind = [], im_request_id = [],
      im_delta = [], im_reasoning_delta = [], im_tool_calls_delta = [], im_done = False, im_finish_reason = [],
      im_usage = None, im_message = [], im_final = False, im_reason = [], im_slots = 0\<rparr>"

text \<open>A message as the struct that the router decodes every frame into.\<close>

fun as_inbound :: "worker_out \<Rightarrow> inbound_msg" where
  "as_inbound (Out_Register m) =
     empty_inbound\<lparr>im_type := ''register'', im_models := rm_models m, im_max_concurrent := rm_max_concurrent m,
       im_version := rm_version m, im_kind := rm_kind m\<rparr>"
| "as_inbound (Out_Local_Busy n) = empty_inbound\<lparr>im_type := ''local_busy'', im_slots := n\<rparr>"
| "as_inbound Out_Draining = empty_inbound\<lparr>im_type := ''draining''\<rparr>"
| "as_inbound (Out_Release rid reason) =
     empty_inbound\<lparr>im_type := ''release'', im_request_id := rid, im_reason := reason\<rparr>"
| "as_inbound (Out_Said (Worker_Chunk k)) =
     empty_inbound\<lparr>im_type := ''chunk'', im_request_id := ck_request_id k, im_delta := ck_delta k,
       im_reasoning_delta := ck_reasoning_delta k, im_tool_calls_delta := ck_tool_calls_delta k,
       im_done := ck_done k, im_finish_reason := ck_finish_reason k, im_usage := ck_usage k\<rparr>"
| "as_inbound (Out_Said (Worker_Error e)) =
     empty_inbound\<lparr>im_type := ''error'', im_request_id := em_request_id e, im_message := em_message e,
       im_final := em_final e\<rparr>"

end
