(* ===== verification/Worker_Promises.thy ===== *)
theory Worker_Promises
  imports Worker_Conn Hub_Outcomes
begin

text \<open>
  What a worker's connection promises: as long as no id is sent to it while a goroutine of that id
  is still there, every job can be cancelled, is waited for and is handed back; and what happens when
  that condition fails.
\<close>

section \<open>Sending changes nothing but what was sent\<close>

lemma say_fields [simp]:
  "wl_cancels (say m w) = wl_cancels w" "wl_jobs (say m w) = wl_jobs w" "wl_closed (say m w) = wl_closed w"
  "wl_gone (say m w) = wl_gone w" "wl_draining (say m w) = wl_draining w" "wl_pool (say m w) = wl_pool w"
  "wl_active (say m w) = wl_active w" "wl_local_busy (say m w) = wl_local_busy w" "wl_link (say m w) = wl_link w"
  "wl_watcher (say m w) = wl_watcher w"
  by (simp_all add: say_def)

lemma fold_say_fields [simp]:
  "wl_cancels (fold say ms w) = wl_cancels w" "wl_jobs (fold say ms w) = wl_jobs w"
  "wl_active (fold say ms w) = wl_active w"
  by (induction ms arbitrary: w) auto

lemma say_for_fields [simp]:
  "wl_cancels (say_for i m w) = wl_cancels w" "wl_jobs (say_for i m w) = wl_jobs w"
  "wl_active (say_for i m w) = wl_active w"
  by (simp_all add: say_for_def)

lemma report_fields [simp]:
  "wl_cancels (report_local w) = wl_cancels w" "wl_jobs (report_local w) = wl_jobs w"
  "wl_active (report_local w) = wl_active w"
  "wl_cancels (report_local_for i w) = wl_cancels w" "wl_jobs (report_local_for i w) = wl_jobs w"
  "wl_active (report_local_for i w) = wl_active w"
  by (simp_all add: report_local_def report_local_for_def)

lemma features_fields [simp]:
  "wl_cancels (fold learn_feature fs w) = wl_cancels w" "wl_jobs (fold learn_feature fs w) = wl_jobs w"
  "wl_active (fold learn_feature fs w) = wl_active w"
  by (induction fs arbitrary: w) (auto simp: learn_feature_def)

lemma fold_releases:
  "fold (\<lambda>rid. say (Out_Release rid reason)) ids w = fold say (map (\<lambda>rid. Out_Release rid reason) ids) w"
  by (induction ids arbitrary: w) auto

lemma sent_fold_say: "\<not> wl_gone w \<Longrightarrow> wl_sent (fold say ms w) = wl_sent w @ ms"
  by (induction ms arbitrary: w) (auto simp: say_def)

section \<open>Jobs are jobs_held\<close>

abbreviation alive :: "worker_job list \<Rightarrow> nat \<Rightarrow> bool" where
  "alive js i \<equiv> i < length js \<and> wj_stage (js ! i) \<noteq> Job_Over"

definition tracked_jobs :: "(string, nat) gomap \<Rightarrow> worker_job list \<Rightarrow> bool" where
  "tracked_jobs m js \<longleftrightarrow> wf_map m \<and>
     (\<forall>rid i. mget m rid = Some i \<longrightarrow> alive js i \<and> wj_id (js ! i) = rid) \<and>
     (\<forall>i. alive js i \<longrightarrow> \<not> wj_cancelled (js ! i) \<longrightarrow> mget m (wj_id (js ! i)) = Some i) \<and>
     (\<forall>i j. alive js i \<longrightarrow> alive js j \<longrightarrow> wj_id (js ! i) = wj_id (js ! j) \<longrightarrow> i = j)"

abbreviation jobs_held :: "worker_link \<Rightarrow> bool" where
  "jobs_held w \<equiv> tracked_jobs (wl_cancels w) (wl_jobs w)"

text \<open>A goroutine's step to another stage, and the marks of a cancelled context.\<close>

lemma tracked_stage:
  "tracked_jobs m js \<Longrightarrow> alive js i \<Longrightarrow> s \<noteq> Job_Over \<Longrightarrow> tracked_jobs m (js[i := (js ! i)\<lparr>wj_stage := s\<rparr>])"
  unfolding tracked_jobs_def by (auto simp: nth_list_update split: if_splits)

lemma tracked_set_stage:
  "jobs_held w \<Longrightarrow> alive (wl_jobs w) i \<Longrightarrow> s \<noteq> Job_Over \<Longrightarrow> jobs_held (set_stage i s w)"
  by (simp add: set_stage_def tracked_stage)

lemma tracked_close: "tracked_jobs m js \<Longrightarrow> tracked_jobs m (map (\<lambda>j. j\<lparr>wj_cancelled := True\<rparr>) js)"
  unfolding tracked_jobs_def by auto

lemma tracked_cancel:
  "tracked_jobs m js \<Longrightarrow> mget m rid = Some i \<Longrightarrow>
     tracked_jobs (mdel rid m) (js[i := (js ! i)\<lparr>wj_cancelled := True\<rparr>])"
  unfolding tracked_jobs_def by (auto simp: nth_list_update gomap_simps split: if_splits)

lemma tracked_leave:
  "tracked_jobs m js \<Longrightarrow> alive js i \<Longrightarrow>
     tracked_jobs (mdel (wj_id (js ! i)) m) (js[i := (js ! i)\<lparr>wj_cancelled := True, wj_stage := Job_Over\<rparr>])"
  unfolding tracked_jobs_def by (auto simp: nth_list_update gomap_simps split: if_splits)

lemma tracked_spawn:
  "tracked_jobs m js \<Longrightarrow> list_all (\<lambda>j. wj_stage j \<noteq> Job_Over \<longrightarrow> wj_id j \<noteq> wj_id k) js \<Longrightarrow>
     wj_stage k \<noteq> Job_Over \<Longrightarrow> tracked_jobs (mput (wj_id k) (length js) m) (js @ [k])"
  unfolding tracked_jobs_def
  by (auto simp: nth_append gomap_simps list_all_length less_Suc_eq split: if_splits)

fun arrives_fresh :: "worker_event \<Rightarrow> worker_link \<Rightarrow> bool" where
  "arrives_fresh (Frame (Job_Msg r)) w = list_all (\<lambda>j. wj_stage j \<noteq> Job_Over \<longrightarrow> wj_id j \<noteq> rq_id r) (wl_jobs w)"
| "arrives_fresh _ w = True"

primrec orderly ::
  "(inference_request \<Rightarrow> worker_out list option) \<Rightarrow> worker_event list \<Rightarrow> worker_link \<Rightarrow> bool" where
  "orderly try [] w = True"
| "orderly try (e # es) w = (arrives_fresh e w \<and> orderly try es (worker_do try e w))"

lemma tracked_receive:
  assumes "jobs_held w" and "arrives_fresh (Frame f) w"
  shows "jobs_held (receive try f w)"
proof (cases f)
  case (Job_Msg r)
  then show ?thesis
    using assms tracked_spawn [OF assms(1), of "\<lparr>wj_id = rq_id r, wj_link = wl_link w, wj_stage = Job_Spawned,
        wj_cancelled = wl_closed w\<rparr>"]
    by (auto simp: receive_def split: option.splits)
next
  case (Cancel_Msg rid)
  then show ?thesis
    using assms tracked_cancel [of "wl_cancels w" "wl_jobs w" rid]
    by (auto simp: receive_def cancel_job_def split: option.splits)
qed (use assms in \<open>simp add: receive_def\<close>)

lemma tracked_do:
  assumes "jobs_held w" and "arrives_fresh e w"
  shows "jobs_held (worker_do try e w)"
proof (cases e)
  case (Frame f)
  then show ?thesis using assms tracked_receive [OF assms(1), of f] by (simp add: worker_do_def)
next
  case (Acquire i)
  then show ?thesis
    using assms(1) tracked_set_stage [OF assms(1), of i]
    by (auto simp: worker_do_def job_acquire_def set_stage_def split: job_stage.splits acquired.splits)
next
  case (Leave i)
  then show ?thesis
    using assms(1) tracked_leave [OF assms(1), of i]
    by (auto simp: worker_do_def job_leave_def set_stage_def cancel_job_def)
next
  case (Hand_Back stop)
  then show ?thesis
    using assms(1) tracked_close
    by (auto simp: worker_do_def hand_back_def close_link_def fold_releases)
next
  case Lost
  then show ?thesis using assms(1) tracked_close by (auto simp: worker_do_def link_lost_def close_link_def)
next
  case (Return i x)
  then show ?thesis
    using assms(1) tracked_set_stage [OF assms(1), of i Job_Leaving]
    by (auto simp: worker_do_def job_return_def Let_def set_stage_def)
next
  case (Yield i)
  then show ?thesis
    using assms(1) tracked_set_stage [OF assms(1), of i Job_Leaving]
    by (auto simp: worker_do_def job_yield_def set_stage_def)
qed (use assms(1) tracked_set_stage [OF assms(1)] in
    \<open>auto simp: worker_do_def job_start_def job_say_def shutdown_begin_def link_again_def Let_def\<close>)

lemma tracked_run: "jobs_held w \<Longrightarrow> orderly try es w \<Longrightarrow> jobs_held (worker_run try es w)"
  by (induction es arbitrary: w) (auto simp: worker_run_def tracked_do)

lemma tracked_start: "jobs_held (link_start p)"
  by (simp add: tracked_jobs_def link_start_def)

text \<open>
  As long as no job arrives under the id of one whose goroutine is still there, every job that is
  not cancelled yet can be cancelled: the router's message for its id cancels that job and no other.
\<close>

theorem cancel_reaches_its_job:
  assumes "orderly try es (link_start p)" and "w = worker_run try es (link_start p)"
    and "i < length (wl_jobs w)" and "wj_stage (wl_jobs w ! i) \<noteq> Job_Over" and "\<not> wj_cancelled (wl_jobs w ! i)"
  shows "wl_jobs (receive try (Cancel_Msg (wj_id (wl_jobs w ! i))) w) =
    (wl_jobs w)[i := (wl_jobs w ! i)\<lparr>wj_cancelled := True\<rparr>]"
proof -
  have "jobs_held w" using tracked_run [OF tracked_start assms(1)] by (simp add: assms(2))
  with assms(3-5) have "mget (wl_cancels w) (wj_id (wl_jobs w ! i)) = Some i" by (simp add: tracked_jobs_def)
  then show ?thesis by (simp add: receive_def cancel_job_def)
qed

definition live_ids :: "worker_link \<Rightarrow> string set" where
  "live_ids w = wj_id ` set (filter (\<lambda>j. wj_stage j \<noteq> Job_Over) (wl_jobs w))"

definition wanted_ids :: "worker_link \<Rightarrow> string set" where
  "wanted_ids w = wj_id ` set (filter (\<lambda>j. wj_stage j \<noteq> Job_Over \<and> \<not> wj_cancelled j) (wl_jobs w))"

lemma shutdown_lemma:
  assumes "orderly try es (link_start p)" and "w = worker_run try es (link_start p)"
    and "wl_watcher w = Watch_Waiting" and "\<not> wl_gone w"
    and "wl_watcher (hand_back stop w) = Watch_Over"
  shows "\<exists>ids. wl_sent (hand_back stop w) = wl_sent w @ map (\<lambda>rid. Out_Release rid release_shutdown) ids \<and>
      distinct ids \<and> wanted_ids w \<subseteq> set ids \<and> set ids \<subseteq> live_ids w \<and>
      list_all wj_cancelled (wl_jobs (hand_back stop w)) \<and>
      (wl_draining w \<and> \<not> stop \<and> \<not> wl_closed w \<longrightarrow> ids = [])"
proof (intro exI conjI)
  let ?ids = "mkeys (wl_cancels w)"
  have t: "jobs_held w" using tracked_run [OF tracked_start assms(1)] by (simp add: assms(2))
  have ends: "hand_back stop w =
      (close_link (fold (\<lambda>rid. say (Out_Release rid release_shutdown)) ?ids w))\<lparr>wl_watcher := Watch_Over\<rparr>"
    and drained: "wl_draining w \<and> \<not> stop \<and> \<not> wl_closed w \<Longrightarrow> ?ids = []"
    using assms(3,5) by (auto simp: hand_back_def job_count_def split: if_splits)
  show "wl_sent (hand_back stop w) = wl_sent w @ map (\<lambda>rid. Out_Release rid release_shutdown) ?ids"
    using assms(4) by (simp add: ends close_link_def fold_releases sent_fold_say)
  show "distinct ?ids" using t by (simp add: tracked_jobs_def)
  show "wanted_ids w \<subseteq> set ?ids"
  proof
    fix rid
    assume "rid \<in> wanted_ids w"
    then obtain i where "alive (wl_jobs w) i" "\<not> wj_cancelled (wl_jobs w ! i)" "rid = wj_id (wl_jobs w ! i)"
      by (auto simp: wanted_ids_def in_set_conv_nth)
    with t have "mget (wl_cancels w) rid = Some i" by (simp add: tracked_jobs_def)
    then show "rid \<in> set ?ids" by (metis mget_SomeD fst_conv image_eqI list.set_map)
  qed
  show "set ?ids \<subseteq> live_ids w"
  proof
    fix rid
    assume "rid \<in> set ?ids"
    then obtain i where "mget (wl_cancels w) rid = Some i" by (metis mget_None_iff list.set_map not_Some_eq)
    with t show "rid \<in> live_ids w" by (force simp: tracked_jobs_def live_ids_def)
  qed
  show "list_all wj_cancelled (wl_jobs (hand_back stop w))"
    by (auto simp: ends close_link_def list_all_iff)
  show "wl_draining w \<and> \<not> stop \<and> \<not> wl_closed w \<longrightarrow> ?ids = []" using drained by blast
qed


text \<open>
  Under the same condition a shutdown hands back what it interrupts: when the wait ends on a live
  connection, one release is sent for every job that still runs or waits and was not cancelled, and
  none for a job that is over; all contexts are cancelled, and a wait that was not cut short ends with
  nothing to hand back.
\<close>

theorem shutdown_hands_back:
  assumes "orderly try es (link_start p)" and "w = worker_run try es (link_start p)"
    and "wl_watcher w = Watch_Waiting" and "\<not> wl_gone w"
    and "wl_watcher (hand_back stop w) = Watch_Over"
  shows "\<exists>ids. wl_sent (hand_back stop w) = wl_sent w @ map (\<lambda>rid. Out_Release rid release_shutdown) ids \<and>
      distinct ids \<and> wanted_ids w \<subseteq> set ids \<and> set ids \<subseteq> live_ids w \<and>
      list_all wj_cancelled (wl_jobs (hand_back stop w)) \<and>
      (wl_draining w \<and> \<not> stop \<and> \<not> wl_closed w \<longrightarrow> ids = [])"
  using assms by (rule shutdown_lemma)

text \<open>
  An id that comes back too early breaks this. The worker loses its connection while job \<open>a\<close> runs,
  gets the job again over the next one, and the first goroutine's deferred deletion then takes the
  entry of the second: that job runs on, but no cancellation reaches it, the drain does not wait for
  it and the shutdown does not hand it back.
\<close>

definition takes_all :: "inference_request \<Rightarrow> worker_out list option" where
  "takes_all r = None"

definition two_slots :: slot_pool where
  "two_slots = pool_init 2 new_slot_pool"

definition resent :: "inference_request \<Rightarrow> worker_event list" where
  "resent r =
     [Frame (Job_Msg r), Start 0, Acquire 0, Lost, Again, Frame (Registered_Msg [feature_drain]),
      Frame (Job_Msg r), Start 1, Acquire 1, Return 0 Job_Fine, Leave 0]"

theorem resent_job_is_forgotten:
  "let w = worker_run takes_all (resent r) (link_start two_slots);
       w' = worker_run takes_all [Shutdown second_ns, Hand_Back False] w
   in rq_id r \<in> wanted_ids w \<and> receive takes_all (Cancel_Msg (rq_id r)) w = w \<and>
      wl_watcher w' = Watch_Over \<and> wl_sent w' = [Out_Draining]"
  by (simp add: worker_run_def worker_do_def resent_def receive_def link_start_def two_slots_def pool_init_def
      new_slot_pool_def job_start_def job_acquire_def acquire_router_def set_stage_def link_lost_def close_link_def
      link_again_def learn_feature_def feature_drain_def feature_local_busy_def takes_all_def job_return_def
      pool_release_def job_leave_def cancel_job_def shutdown_begin_def hand_back_def job_count_def say_def
      wanted_ids_def second_ns_def gomap_simps Let_def) force

section \<open>Counting, draining, announcing\<close>

abbreviation is_running :: "worker_job \<Rightarrow> bool" where
  "is_running j \<equiv> wj_stage j = Job_Running"

lemma tally_cancelled [simp]: "tally is_running (map (\<lambda>j. j\<lparr>wj_cancelled := True\<rparr>) js) = tally is_running js"
  by (induction js) auto

lemma tally_mark [simp]:
  "tally is_running (js[i := (js ! i)\<lparr>wj_cancelled := b\<rparr>]) = tally is_running js"
  by (cases "i < length js") (simp_all add: tally_update list_update_beyond)

lemma active_receive:
  "wl_active w = tally is_running (wl_jobs w) \<Longrightarrow>
     wl_active (receive try f w) = tally is_running (wl_jobs (receive try f w))"
  by (auto simp: receive_def cancel_job_def split: out_msg.splits option.splits)

lemma active_do:
  assumes "wl_active w = tally is_running (wl_jobs w)"
  shows "wl_active (worker_do try e w) = tally is_running (wl_jobs (worker_do try e w))"
proof (cases e)
  case (Frame f)
  then show ?thesis using assms active_receive [OF assms] by (simp add: worker_do_def)
next
  case (Acquire i)
  then show ?thesis
    using assms by (auto simp: worker_do_def job_acquire_def set_stage_def tally_update split: job_stage.splits acquired.splits)
next
  case (Hand_Back stop)
  then show ?thesis using assms by (auto simp: worker_do_def hand_back_def close_link_def fold_releases)
qed (use assms in \<open>auto simp: worker_do_def job_start_def job_yield_def job_say_def job_return_def job_leave_def
    set_stage_def cancel_job_def shutdown_begin_def link_lost_def close_link_def link_again_def Let_def
    tally_update\<close>)

text \<open>
  The count of active jobs that the worker reports is the number of its goroutines inside
  \<open>Dispatch\<close>, after any events.
\<close>

theorem active_count_exact:
  "wl_active (worker_run try es (link_start p)) = tally is_running (wl_jobs (worker_run try es (link_start p)))"
proof -
  have "wl_active (worker_run try es w) = tally is_running (wl_jobs (worker_run try es w))"
    if "wl_active w = tally is_running (wl_jobs w)" for w
    using that by (induction es arbitrary: w) (simp_all add: worker_run_def active_do)
  then show ?thesis by (simp add: link_start_def)
qed

lemma draining_do:
  assumes "wl_draining w"
  shows "wl_draining (worker_do try e w) \<and> length (wl_jobs (worker_do try e w)) = length (wl_jobs w)"
proof (cases e)
  case (Frame f)
  have "wl_draining (fold learn_feature fs w)" for fs
    using assms by (induction fs arbitrary: w) (auto simp: learn_feature_def)
  then show ?thesis using assms Frame
    by (auto simp: worker_do_def receive_def cancel_job_def split: out_msg.splits option.splits)
next
  case (Hand_Back stop)
  have "wl_draining (fold say ms w)" for ms using assms by (induction ms arbitrary: w) auto
  then show ?thesis using assms Hand_Back by (auto simp: worker_do_def hand_back_def close_link_def fold_releases)
qed (use assms in \<open>auto simp: worker_do_def job_start_def job_acquire_def job_yield_def job_say_def job_return_def
    job_leave_def set_stage_def cancel_job_def shutdown_begin_def link_lost_def close_link_def link_again_def
    say_for_def report_local_def report_local_for_def Let_def split: job_stage.splits acquired.splits\<close>)

text \<open>
  Once it drains, a worker takes no job whatever happens, and gives each one that still arrives
  straight back.
\<close>

theorem draining_worker_takes_nothing:
  assumes "wl_draining w" and "w' = worker_run try es w"
  shows "length (wl_jobs w') = length (wl_jobs w) \<and>
    receive try (Job_Msg r) w' = say (Out_Release (rq_id r) release_shutdown) w'"
proof -
  have "wl_draining (worker_run try es w) \<and> length (wl_jobs (worker_run try es w)) = length (wl_jobs w)"
    if "wl_draining w" for w
    using that by (induction es arbitrary: w) (auto simp: worker_run_def draining_do)
  with assms show ?thesis by (simp add: receive_def)
qed

section \<open>What the router makes of a hand-back\<close>

definition deliver :: "gotime \<Rightarrow> string \<Rightarrow> worker_out list \<Rightarrow> hub \<Rightarrow> hub \<times> hub_event list" where
  "deliver now cid ms h =
     fold (\<lambda>m (h, evs). case dispatch h now cid (Some (as_inbound m)) of (h', new) \<Rightarrow> (h', evs @ new)) ms (h, [])"

definition offered_again :: "hub \<Rightarrow> string \<Rightarrow> string \<Rightarrow> inference_request list" where
  "offered_again h cid rid =
     (case mget (hb_jobs h) rid of
        None \<Rightarrow> []
      | Some rec \<Rightarrow> if fr_client_id rec = cid \<and> retryable h rec then [retry_request (fr_req rec)] else [])"

lemma deliver_release:
  assumes "wired h" and "dispatch h now cid (Some (as_inbound (Out_Release rid release_shutdown))) = (h', evs)"
  shows "same_frame h h'"
    and "mget (hb_jobs h') k = (if k = rid \<and> holder_of h k = Some cid then None else mget (hb_jobs h) k)"
    and "released evs = offered_again h cid rid"
proof -
  let ?im = "as_inbound (Out_Release rid release_shutdown)"
  let ?h0 = "upd_client h cid (\<lambda>c. c\<lparr>cl_draining := True\<rparr>)"
  obtain r h1 evs1 where un: "untrack_job_rec ?h0 now rid cid = (r, h1, evs1)" by (metis prod_cases3)
  have run: "dispatch_release h now cid ?im = (h', evs)"
    using assms(2) by (simp add: dispatch_def empty_inbound_def)
  have reason: "im_reason ?im = release_shutdown" "im_request_id ?im = rid" "release_shutdown \<noteq> release_busy"
    by (simp_all add: empty_inbound_def release_shutdown_def release_busy_def)
  note s = same_untrack [OF un] and qu = quiet_untrack [OF un]
  show "same_frame h h'"
    and "mget (hb_jobs h') k = (if k = rid \<and> holder_of h k = Some cid then None else mget (hb_jobs h) k)"
    and "released evs = offered_again h cid rid"
    using run reason un s qu assms(1)
    by (auto simp: dispatch_release_def Let_def untrack_job_rec_def holder_of_def offered_again_def wired_def gomap_simps
        decr_in_flight_def split: option.splits if_splits)
qed

lemma deliver_releases:
  assumes "fold (\<lambda>m (h, evs). case dispatch h now cid (Some (as_inbound m)) of (h', new) \<Rightarrow> (h', evs @ new))
      (map (\<lambda>rid. Out_Release rid release_shutdown) ids) (h, evs) = (h', evs')"
    and "settled h" and "wired h" and "distinct ids"
  shows "settled h' \<and>
    (\<forall>k. mget (hb_jobs h') k = (if k \<in> set ids \<and> holder_of h k = Some cid then None else mget (hb_jobs h) k)) \<and>
    released evs' = released evs @ concat (map (offered_again h cid) ids)"
  using assms
proof (induction ids arbitrary: h evs)
  case (Cons rid ids)
  obtain h1 new where one: "dispatch h now cid (Some (as_inbound (Out_Release rid release_shutdown))) = (h1, new)"
    by force
  note r = deliver_release [OF Cons.prems(3) one]
  have ok: "settled h1" "wired h1"
    using dispatch_exact [OF Cons.prems(2), of now cid] r(1) Cons.prems(3) one
    by (auto simp: same_frame_def) (metis fst_conv)
  have "offered_again h1 cid k = offered_again h cid k" if "k \<in> set ids" for k
    using that Cons.prems(3,4) ok(2) r(2) by (auto simp: offered_again_def retryable_def wired_def split: option.splits)
  then have same: "map (offered_again h1 cid) ids = map (offered_again h cid) ids" by simp
  have "holder_of h1 k = holder_of h k" if "k \<noteq> rid" for k
    using r(2) [of k] that by (simp add: holder_of_def)
  with Cons.IH [of h1 "evs @ new"] Cons.prems(1,4) ok one r(2,3) same show ?case
    by auto
qed simp


section \<open>Reconnecting\<close>

definition backoff_after :: "(bool \<times> bool) list \<Rightarrow> duration \<Rightarrow> duration" where
  "backoff_after attempts b = fold (\<lambda>(registered, failed) b. snd (reconnect registered failed b)) attempts b"

definition backoffs :: "duration set" where
  "backoffs = {second_ns, second_ns * 2, second_ns * 4, second_ns * 8, second_ns * 16, second_ns * 32, second_ns * 64}"

lemma reconnect_keeps: "b \<in> backoffs \<Longrightarrow> snd (reconnect registered failed b) \<in> backoffs"
  by (auto simp: backoffs_def reconnect_def initial_backoff_def max_backoff_def second_ns_def)

lemma backoff_kept: "b \<in> backoffs \<Longrightarrow> backoff_after attempts b \<in> backoffs"
  unfolding backoff_after_def by (induction attempts arbitrary: b) (auto simp: reconnect_keeps)

lemma backoff_doubles: "backoff_after (replicate k (False, True)) initial_backoff = second_ns * 2 ^ min k 6"
proof (induction k)
  case 0
  then show ?case by (simp add: backoff_after_def initial_backoff_def)
next
  case (Suc k)
  have "backoff_after (replicate (Suc k) (False, True)) initial_backoff =
      snd (reconnect False True (second_ns * 2 ^ min k 6))"
    using Suc by (simp add: backoff_after_def flip: replicate_append_same del: replicate.simps)
  moreover have "k < 6 \<Longrightarrow> k \<in> {0, 1, 2, 3, 4, 5}" by auto
  ultimately show ?case
    by (cases "k < 6") (auto simp: reconnect_def max_backoff_def second_ns_def)
qed

text \<open>
  Between attempts that never register the wait doubles from one second to sixty-four, and no
  sequence of attempts takes it below the first or above the last.
\<close>

theorem reconnect_backs_off:
  "fst (reconnect False True (backoff_after (replicate k (False, True)) initial_backoff)) =
     Some (second_ns * 2 ^ min k 6) \<and>
   (case fst (reconnect registered True (backoff_after attempts initial_backoff)) of
      None \<Rightarrow> False
    | Some d \<Rightarrow> second_ns \<le> d \<and> d \<le> 64 * second_ns)"
proof -
  have start: "initial_backoff \<in> backoffs" by (simp add: backoffs_def initial_backoff_def)
  have "b \<in> backoffs \<Longrightarrow> second_ns \<le> b \<and> b \<le> 64 * second_ns" for b
    by (auto simp: backoffs_def second_ns_def)
  from this [OF backoff_kept [OF start, of attempts]] this [OF start] show ?thesis
    by (simp add: reconnect_def Let_def backoff_doubles)
qed

end
