(* ===== verification/Backends.thy ===== *)
theory Backends
  imports Worker_Conn Translate Go_Text
begin

text \<open>
  How a worker reads its backend: the llama.cpp client (\<open>client/internal/llamacpp/client.go\<close>) and the
  shim's upstreams and adapters (\<open>shim/internal/backend\<close>, \<open>shim/internal/worker/worker.go\<close>). What the
  other side sends are the lines of its answer, and how the scanner, the timers and the context end
  it; \<open>encoding/json\<close> is the argument \<open>L\<close>. A chunk for the callback is a chunk message without an id.
\<close>

section \<open>Lines and chunks\<close>

definition piece :: "string \<Rightarrow> string \<Rightarrow> raw_json \<Rightarrow> string \<Rightarrow> chunk_msg" where
  "piece delta reasoning tools finish =
     (empty_chunk [])\<lparr>ck_delta := delta, ck_reasoning_delta := reasoning, ck_tool_calls_delta := tools,
       ck_finish_reason := finish\<rparr>"

definition last_piece :: "string \<Rightarrow> usage_info option \<Rightarrow> chunk_msg" where
  "last_piece finish usage = (empty_chunk [])\<lparr>ck_done := True, ck_finish_reason := finish, ck_usage := usage\<rparr>"

definition sse_data :: "string \<Rightarrow> string option" where
  "sse_data line = (if has_prefix line ''data: '' then Some (trim_prefix line ''data: '') else None)"

datatype read_result = Read_OK | Read_Broken string

text \<open>A pointer field: \<open>null\<close> or no member is \<open>nil\<close>.\<close>

definition pointer_field ::
  "json_lib \<Rightarrow> (raw_json \<Rightarrow> 'a option) \<Rightarrow> string \<Rightarrow> (string \<times> raw_json) list \<Rightarrow> 'a option option" where
  "pointer_field L reading name ms =
     (case member_of L name ms of
        None \<Rightarrow> Some None
      | Some raw \<Rightarrow> if jl_view L raw = Some V_Null then Some None else map_option Some (reading raw))"

definition struct_of :: "json_lib \<Rightarrow> ((string \<times> raw_json) list \<Rightarrow> 'a option) \<Rightarrow> raw_json \<Rightarrow> 'a option" where
  "struct_of L reading raw = (case as_members L raw of None \<Rightarrow> None | Some ms \<Rightarrow> reading ms)"

section \<open>The llama.cpp client\<close>

definition backend_timings :: "json_lib \<Rightarrow> (string \<times> raw_json) list \<Rightarrow> timings option" where
  "backend_timings L ms =
     (case (field_of L (as_int L) 0 ''prompt_n'' ms, field_of L (as_float L) None ''prompt_ms'' ms,
            field_of L (as_int L) 0 ''predicted_n'' ms, field_of L (as_float L) None ''predicted_ms'' ms) of
        (Some pn, Some pms, Some gn, Some gms) \<Rightarrow>
          Some \<lparr>tm_prompt_n = pn, tm_prompt_ms = case_option 0 id pms, tm_predicted_n = gn,
                tm_predicted_ms = case_option 0 id gms\<rparr>
      | _ \<Rightarrow> None)"

definition to_timings :: "timings option \<Rightarrow> timings option" where
  "to_timings t = (if timings_usable t then t else None)"

definition backend_usage :: "json_lib \<Rightarrow> (string \<times> raw_json) list \<Rightarrow> usage_info option" where
  "backend_usage L ms =
     (case (field_of L (as_int L) 0 ''prompt_tokens'' ms, field_of L (as_int L) 0 ''completion_tokens'' ms,
            field_of L (as_int L) 0 ''total_tokens'' ms,
            field_of L (struct_of L (field_of L (as_int L) 0 ''cached_tokens'')) 0 ''prompt_tokens_details'' ms) of
        (Some p, Some c, Some t, Some cached) \<Rightarrow>
          Some \<lparr>us_prompt_tokens = p, us_completion_tokens = c, us_total_tokens = t, us_cache_read_tokens = cached,
                us_cache_creation_tokens = 0, us_timings = None\<rparr>
      | _ \<Rightarrow> None)"

definition attach_timings :: "usage_info option \<Rightarrow> timings option \<Rightarrow> usage_info option" where
  "attach_timings usage t =
     (case (usage, t) of (Some u, Some t) \<Rightarrow> Some (u\<lparr>us_timings := Some t\<rparr>) | _ \<Rightarrow> usage)"

record stream_choice =
  sc_content :: string
  sc_reasoning :: string
  sc_tool_calls :: raw_json
  sc_finish :: string

definition stream_choice_of :: "json_lib \<Rightarrow> string \<Rightarrow> (string \<times> raw_json) list \<Rightarrow> stream_choice option" where
  "stream_choice_of L holder ms =
     (case (field_of L (as_members L) [] holder ms, text_field L ''finish_reason'' ms) of
        (Some d, Some finish) \<Rightarrow>
          (case (text_field L ''content'' d, text_field L ''reasoning_content'' d) of
             (Some c, Some r) \<Rightarrow>
               Some \<lparr>sc_content = c, sc_reasoning = r, sc_tool_calls = raw_field L ''tool_calls'' d, sc_finish = finish\<rparr>
           | _ \<Rightarrow> None)
      | _ \<Rightarrow> None)"

record infer_chunk =
  ic_choices :: "stream_choice list"
  ic_usage :: "usage_info option"
  ic_timings :: "timings option"

definition infer_chunk_of :: "json_lib \<Rightarrow> string \<Rightarrow> raw_json \<Rightarrow> infer_chunk option" where
  "infer_chunk_of L holder raw =
     struct_of L (\<lambda>ms.
       case (field_of L (as_structs L (stream_choice_of L holder)) [] ''choices'' ms,
             pointer_field L (struct_of L (backend_usage L)) ''usage'' ms,
             pointer_field L (struct_of L (backend_timings L)) ''timings'' ms) of
         (Some cs, Some u, Some t) \<Rightarrow> Some \<lparr>ic_choices = cs, ic_usage = u, ic_timings = to_timings t\<rparr>
       | _ \<Rightarrow> None) raw"

record llama_state =
  lm_usage :: "usage_info option"
  lm_timings :: "timings option"
  lm_finish :: string
  lm_first :: bool

definition llama_start :: llama_state where
  "llama_start = \<lparr>lm_usage = None, lm_timings = None, lm_finish = [], lm_first = False\<rparr>"

text \<open>What wakes \<open>readStream\<close>: a line, the scanner's error or its end, the idle timer, the context.\<close>

datatype stream_input =
    Stream_Line string
  | Stream_Error string
  | Stream_End
  | Stream_Idle
  | Stream_Cancelled string

definition llama_done :: "llama_state \<Rightarrow> chunk_msg" where
  "llama_done st = last_piece (lm_finish st) (attach_timings (lm_usage st) (lm_timings st))"

definition llama_payload :: "infer_chunk \<Rightarrow> llama_state \<Rightarrow> chunk_msg list \<times> llama_state" where
  "llama_payload c st =
     (let st = st\<lparr>lm_usage := (if ic_usage c = None then lm_usage st else ic_usage c),
                  lm_timings := (if ic_timings c = None then lm_timings st else ic_timings c)\<rparr>
      in (case ic_choices c of
            [] \<Rightarrow> ([], st)
          | ch # _ \<Rightarrow>
              let st = (if sc_finish ch = [] then st else st\<lparr>lm_finish := sc_finish ch\<rparr>)
              in if sc_content ch \<noteq> [] \<or> sc_reasoning ch \<noteq> [] \<or> sc_tool_calls ch \<noteq> []
                 then ([piece (sc_content ch) (sc_reasoning ch) (sc_tool_calls ch) []], st\<lparr>lm_first := True\<rparr>)
                 else ([], st)))"

text \<open>\<open>None\<close> is a stream that has not ended yet. The idle timer runs only once there was output.\<close>

fun llama_read :: "json_lib \<Rightarrow> stream_input list \<Rightarrow> llama_state \<Rightarrow> chunk_msg list \<times> read_result option" where
  "llama_read L [] st = ([], None)"
| "llama_read L (Stream_End # ins) st =
     (if lm_finish st = [] then ([], Some (Read_Broken ''llama.cpp stream ended before completion''))
      else ([llama_done st], Some Read_OK))"
| "llama_read L (Stream_Error e # ins) st = ([], Some (Read_Broken (''stream read: '' @ e)))"
| "llama_read L (Stream_Idle # ins) st =
     (if lm_first st then ([], Some (Read_Broken ''stream stalled: no token for 5m0s'')) else llama_read L ins st)"
| "llama_read L (Stream_Cancelled e # ins) st = ([], Some (Read_Broken e))"
| "llama_read L (Stream_Line line # ins) st =
     (case sse_data line of
        None \<Rightarrow> llama_read L ins st
      | Some payload \<Rightarrow>
          if payload = ''[DONE]'' then ([llama_done st], Some Read_OK)
          else
            (case infer_chunk_of L ''delta'' payload of
               None \<Rightarrow> llama_read L ins st
             | Some c \<Rightarrow>
                 (case llama_payload c st of
                    (ks, st) \<Rightarrow> (case llama_read L ins st of (ks', r) \<Rightarrow> (ks @ ks', r)))))"

definition llama_batch :: "json_lib \<Rightarrow> string \<Rightarrow> chunk_msg list \<times> read_result" where
  "llama_batch L body =
     (case infer_chunk_of L ''message'' body of
        None \<Rightarrow> ([], Read_Broken ''decode batch'')
      | Some c \<Rightarrow>
          (case ic_choices c of
             [] \<Rightarrow> ([], Read_Broken ''llama.cpp batch response had no choices'')
           | ch # _ \<Rightarrow>
               ([(piece (sc_content ch) (sc_reasoning ch) (sc_tool_calls ch) (sc_finish ch))
                   \<lparr>ck_done := True, ck_usage := attach_timings (ic_usage c) (ic_timings c)\<rparr>], Read_OK)))"

text \<open>A refusal of the backend, with its reason; the number in the text is written by the argument.\<close>

definition final_status :: "int \<Rightarrow> bool" where
  "final_status status \<longleftrightarrow> status = 400 \<or> status = 413 \<or> status = 422"

definition error_reason :: "json_lib \<Rightarrow> string \<Rightarrow> string" where
  "error_reason L body =
     (let shaped = struct_of L (\<lambda>ms. map_option (\<lambda>m. (raw_field L ''error'' ms, m)) (text_field L ''message'' ms)) body;
          found =
            (case shaped of
               None \<Rightarrow> []
             | Some (err, msg) \<Rightarrow>
                 (case struct_of L (text_field L ''message'') err of
                    Some m \<Rightarrow> if m \<noteq> [] then m else (case as_text L err of Some t \<Rightarrow> if t \<noteq> [] then t else msg | None \<Rightarrow> msg)
                  | None \<Rightarrow> (case as_text L err of Some t \<Rightarrow> if t \<noteq> [] then t else msg | None \<Rightarrow> msg)));
          m = (if found = [] then trim_space body else found)
      in if length m > 500 then take 500 m @ bytes_of [0xE2, 0x80, 0xA6] else m)"

definition backend_error :: "(int \<Rightarrow> string) \<Rightarrow> json_lib \<Rightarrow> int \<Rightarrow> string \<Rightarrow> infer_end" where
  "backend_error num L status body =
     (let m = error_reason L (take 4096 body)
      in Infer_Failed (''llama.cpp returned '' @ num status @ (if m = [] then [] else '': '' @ m)) (final_status status))"

text \<open>Health polling before the first output: the answers in turn, and whether the request is aborted.\<close>

definition health_check_failures :: nat where "health_check_failures = 3"

fun watch_health :: "bool list \<Rightarrow> nat \<Rightarrow> bool" where
  "watch_health [] n = False"
| "watch_health (alive # rest) n =
     (if alive then watch_health rest 0
      else if n + 1 < health_check_failures then watch_health rest (n + 1)
      else True)"

datatype http_answer =
    Http_Failed string
  | Http_Refused int string
  | Http_Stream "stream_input list"
  | Http_Body string

definition hung_text :: string where "hung_text = ''llama.cpp stopped answering health checks''"

definition infer_end_of :: "bool \<Rightarrow> read_result \<Rightarrow> infer_end" where
  "infer_end_of hung r =
     (case r of Read_OK \<Rightarrow> Infer_Ok | Read_Broken e \<Rightarrow> Infer_Failed (if hung then hung_text else e) False)"

text \<open>\<open>Infer\<close>; \<open>hung\<close> is whether the health polling aborted the request.\<close>

definition infer ::
  "(int \<Rightarrow> string) \<Rightarrow> json_lib \<Rightarrow> bool \<Rightarrow> http_answer \<Rightarrow> chunk_msg list \<times> infer_end option" where
  "infer num L hung answer =
     (case answer of
        Http_Failed e \<Rightarrow> ([], Some (infer_end_of hung (Read_Broken (''http: '' @ e))))
      | Http_Refused status body \<Rightarrow> ([], Some (backend_error num L status body))
      | Http_Stream ins \<Rightarrow>
          (case llama_read L ins llama_start of (ks, r) \<Rightarrow> (ks, map_option (infer_end_of hung) r))
      | Http_Body body \<Rightarrow> (case llama_batch L body of (ks, r) \<Rightarrow> (ks, Some (infer_end_of hung r))))"

text \<open>\<open>Ready\<close> and the modalities of \<open>ProbeProps\<close>.\<close>

definition backend_ready :: "int option \<Rightarrow> bool" where
  "backend_ready status = (case status of None \<Rightarrow> False | Some s \<Rightarrow> s \<noteq> 503)"

definition props_modalities :: "json_lib \<Rightarrow> raw_json \<Rightarrow> string list" where
  "props_modalities L raw =
     (if raw = [] \<or> raw = ''null'' then []
      else modality_text #
        (case struct_of L (\<lambda>ms. case (field_of L (as_flag L) False ''vision'' ms, field_of L (as_flag L) False ''audio'' ms) of
                 (Some v, Some a) \<Rightarrow> Some (v, a) | _ \<Rightarrow> None) raw of
           None \<Rightarrow> []
         | Some (v, a) \<Rightarrow> (if v then [modality_vision] else []) @ (if a then [modality_audio] else [])))"

section \<open>The shim\<close>

text \<open>
  The shim: what it asks of an upstream, how it reads the answers of OpenAI-compatible and Anthropic
  upstreams and of command adapters (\<open>shim/internal/backend\<close>), and what it makes of a job
  (\<open>shim/internal/worker/worker.go\<close>, \<open>shim/internal/ws/conn.go\<close>).
\<close>

section \<open>Requests\<close>

text \<open>The fields of the body; an omitted one is empty or \<open>None\<close>.\<close>

record upstream_body =
  ub_model :: string
  ub_system :: raw_json
  ub_messages :: "message list"
  ub_max_tokens :: "int option"
  ub_stream :: bool
  ub_include_usage :: bool
  ub_temperature :: "rat option"
  ub_top_p :: "rat option"
  ub_stop :: "string list"
  ub_tools :: raw_json
  ub_tool_choice :: raw_json

definition openai_body :: "inference_request \<Rightarrow> bool \<Rightarrow> upstream_body" where
  "openai_body r stream =
     \<lparr>ub_model = rq_model r, ub_system = [], ub_messages = rq_messages r,
      ub_max_tokens = (if rq_max_tokens r > 0 then Some (rq_max_tokens r) else None), ub_stream = stream,
      ub_include_usage = stream, ub_temperature = rq_temperature r, ub_top_p = rq_top_p r, ub_stop = rq_stop r,
      ub_tools = rq_tools r, ub_tool_choice = rq_tool_choice r\<rparr>"

definition split_system :: "message list \<Rightarrow> raw_json \<times> message list" where
  "split_system ms =
     fold (\<lambda>m (system, rest). if ms_role m = ''system'' then (ms_content m, rest)
             else (system, rest @ [plain_message (ms_role m) (ms_content m)])) ms ([], [])"

definition anthropic_body :: "inference_request \<Rightarrow> bool \<Rightarrow> upstream_body" where
  "anthropic_body r stream =
     (case split_system (rq_messages r) of
        (system, rest) \<Rightarrow>
          \<lparr>ub_model = rq_model r, ub_system = system, ub_messages = rest,
           ub_max_tokens = Some (if rq_max_tokens r = 0 then 4096 else rq_max_tokens r), ub_stream = stream,
           ub_include_usage = False, ub_temperature = rq_temperature r, ub_top_p = rq_top_p r, ub_stop = rq_stop r,
           ub_tools = rq_tools r, ub_tool_choice = rq_tool_choice r\<rparr>)"

definition trim_slashes :: "string \<Rightarrow> string" where
  "trim_slashes s = rev (dropWhile ((=) (CHR ''/'')) (rev s))"

definition has_tail :: "string \<Rightarrow> string \<Rightarrow> bool" where
  "has_tail s t \<longleftrightarrow> has_prefix (rev s) (rev t)"

definition join_url :: "string \<Rightarrow> string \<Rightarrow> string" where
  "join_url base path =
     (let base = trim_slashes base
      in if has_tail base path then base
         else if has_tail base ''/v1'' \<and> has_prefix path ''/v1/'' then base @ trim_prefix path ''/v1''
         else base @ path)"

section \<open>Streams of an upstream\<close>

record openai_state =
  oa_finish :: string
  oa_saw_finish :: bool
  oa_usage :: "usage_info option"

definition openai_start :: openai_state where
  "openai_start = \<lparr>oa_finish = ''stop'', oa_saw_finish = False, oa_usage = None\<rparr>"

text \<open>Of an event, the choices and the counts are decoded, and nothing else.\<close>

definition count_usage :: "json_lib \<Rightarrow> (string \<times> raw_json) list \<Rightarrow> usage_info option" where
  "count_usage L ms =
     (case (field_of L (as_int L) 0 ''prompt_tokens'' ms, field_of L (as_int L) 0 ''completion_tokens'' ms,
            field_of L (as_int L) 0 ''total_tokens'' ms) of
        (Some p, Some c, Some t) \<Rightarrow>
          Some \<lparr>us_prompt_tokens = p, us_completion_tokens = c, us_total_tokens = t, us_cache_read_tokens = 0,
                us_cache_creation_tokens = 0, us_timings = None\<rparr>
      | _ \<Rightarrow> None)"

definition openai_chunk_of :: "json_lib \<Rightarrow> raw_json \<Rightarrow> (stream_choice list \<times> usage_info option) option" where
  "openai_chunk_of L raw =
     struct_of L (\<lambda>ms.
       case (field_of L (as_structs L (stream_choice_of L ''delta'')) [] ''choices'' ms,
             pointer_field L (struct_of L (count_usage L)) ''usage'' ms) of
         (Some cs, Some u) \<Rightarrow> Some (cs, u)
       | _ \<Rightarrow> None) raw"

definition openai_payload ::
  "stream_choice list \<times> usage_info option \<Rightarrow> openai_state \<Rightarrow> chunk_msg list \<times> openai_state" where
  "openai_payload c st =
     (let st = (case snd c of None \<Rightarrow> st | Some u \<Rightarrow> st\<lparr>oa_usage := Some u\<rparr>)
      in (case fst c of
            [] \<Rightarrow> ([], st)
          | ch # _ \<Rightarrow>
              let st = (if sc_finish ch = [] then st else st\<lparr>oa_finish := sc_finish ch, oa_saw_finish := True\<rparr>)
              in (if sc_content ch \<noteq> [] \<or> sc_reasoning ch \<noteq> [] \<or> sc_tool_calls ch \<noteq> []
                  then [piece (sc_content ch) (sc_reasoning ch) (sc_tool_calls ch) (oa_finish st)] else [], st)))"

text \<open>\<open>e\<close> is the scanner's error once the loop is left.\<close>

definition scan_end :: "string option \<Rightarrow> read_result" where
  "scan_end e = (case e of None \<Rightarrow> Read_OK | Some e \<Rightarrow> Read_Broken (''read upstream stream: '' @ e))"

fun openai_read :: "json_lib \<Rightarrow> string option \<Rightarrow> string list \<Rightarrow> openai_state \<Rightarrow> chunk_msg list \<times> read_result" where
  "openai_read L e [] st =
     (if e \<noteq> None then ([], scan_end e)
      else if oa_saw_finish st then ([last_piece (oa_finish st) (oa_usage st)], Read_OK)
      else ([], Read_Broken ''openai stream ended before completion''))"
| "openai_read L e (line # rest) st =
     (case sse_data line of
        None \<Rightarrow> openai_read L e rest st
      | Some payload \<Rightarrow>
          if payload = ''[DONE]'' then ([last_piece (oa_finish st) (oa_usage st)], scan_end e)
          else
            (case openai_chunk_of L payload of
               None \<Rightarrow> openai_read L e rest st
             | Some c \<Rightarrow>
                 (case openai_payload c st of
                    (ks, st) \<Rightarrow> (case openai_read L e rest st of (ks', r) \<Rightarrow> (ks @ ks', r)))))"

text \<open>An event of an Anthropic stream, as far as it is decoded.\<close>

record anthropic_delta =
  ad_type :: string
  ad_text :: string
  ad_thinking :: string
  ad_partial :: string
  ad_stop :: string

record anthropic_event =
  ae_type :: string
  ae_input_tokens :: "int option"
  ae_block :: "(string \<times> string \<times> string) option"
  ae_delta :: "anthropic_delta option"
  ae_output_tokens :: "int option"

definition anthropic_event_of :: "json_lib \<Rightarrow> raw_json \<Rightarrow> anthropic_event option" where
  "anthropic_event_of L raw =
     struct_of L (\<lambda>ms.
       case (text_field L ''type'' ms,
             pointer_field L (struct_of L (pointer_field L (struct_of L (field_of L (as_int L) 0 ''input_tokens'')) ''usage''))
               ''message'' ms,
             pointer_field L (struct_of L (\<lambda>b.
               case (text_field L ''type'' b, text_field L ''id'' b, text_field L ''name'' b) of
                 (Some t, Some i, Some n) \<Rightarrow> Some (t, i, n) | _ \<Rightarrow> None)) ''content_block'' ms,
             pointer_field L (struct_of L (\<lambda>d.
               case (text_field L ''type'' d, text_field L ''text'' d, text_field L ''thinking'' d,
                     text_field L ''partial_json'' d, text_field L ''stop_reason'' d) of
                 (Some t, Some x, Some th, Some p, Some s) \<Rightarrow>
                   Some \<lparr>ad_type = t, ad_text = x, ad_thinking = th, ad_partial = p, ad_stop = s\<rparr>
               | _ \<Rightarrow> None)) ''delta'' ms,
             pointer_field L (struct_of L (field_of L (as_int L) 0 ''output_tokens'')) ''usage'' ms) of
         (Some t, Some m, Some b, Some d, Some u) \<Rightarrow>
           Some \<lparr>ae_type = t, ae_input_tokens = case_option None id m, ae_block = b, ae_delta = d, ae_output_tokens = u\<rparr>
       | _ \<Rightarrow> None) raw"

record anthropic_state =
  an_finish :: string
  an_done :: bool
  an_prompt_tokens :: int
  an_usage :: "usage_info option"
  an_tool_open :: bool
  an_tool :: "string \<times> string \<times> string"
  an_tools :: int

definition anthropic_start :: anthropic_state where
  "anthropic_start =
     \<lparr>an_finish = ''stop'', an_done = False, an_prompt_tokens = 0, an_usage = None, an_tool_open = False,
      an_tool = ([], [], []), an_tools = 0\<rparr>"

definition openai_tool_call :: "int \<Rightarrow> string \<Rightarrow> string \<Rightarrow> string \<Rightarrow> json" where
  "openai_tool_call i tid name args =
     J_Object [(''index'', J_Int i), (''id'', J_String tid), (''type'', J_String ''function''),
       (''function'', J_Object [(''name'', J_String name), (''arguments'', J_String args)])]"

definition counted_usage :: "int \<Rightarrow> int \<Rightarrow> usage_info" where
  "counted_usage p c =
     \<lparr>us_prompt_tokens = p, us_completion_tokens = c, us_total_tokens = p + c, us_cache_read_tokens = 0,
      us_cache_creation_tokens = 0, us_timings = None\<rparr>"

definition anthropic_step ::
  "json_lib \<Rightarrow> anthropic_event \<Rightarrow> anthropic_state \<Rightarrow> chunk_msg list \<times> anthropic_state" where
  "anthropic_step L ev st =
     (let t = ae_type ev
      in if t = ''message_start'' then
           ([], case ae_input_tokens ev of None \<Rightarrow> st | Some n \<Rightarrow> st\<lparr>an_prompt_tokens := n\<rparr>)
         else if t = ''content_block_start'' then
           ([], case ae_block ev of
                  Some (bt, i, n) \<Rightarrow> if bt = ''tool_use'' then st\<lparr>an_tool_open := True, an_tool := (i, n, [])\<rparr> else st
                | None \<Rightarrow> st)
         else if t = ''content_block_delta'' then
           (case ae_delta ev of
              None \<Rightarrow> ([], st)
            | Some d \<Rightarrow>
                if ad_type d = ''input_json_delta'' then
                  ([], case an_tool st of (i, n, a) \<Rightarrow> st\<lparr>an_tool := (i, n, a @ ad_partial d)\<rparr>)
                else if ad_type d = ''thinking_delta'' then ([piece [] (ad_thinking d) [] (an_finish st)], st)
                else if ad_type d = ''signature_delta'' then ([], st)
                else ([piece (ad_text d) [] [] (an_finish st)], st))
         else if t = ''content_block_stop'' then
           (if \<not> an_tool_open st then ([], st)
            else
              (case an_tool st of
                 (i, n, a) \<Rightarrow>
                   ([piece [] [] (case_option [] id (jl_text L (J_Array
                         [openai_tool_call (an_tools st) i n (if a = [] then ''{}'' else a)]))) (an_finish st)],
                    st\<lparr>an_tools := an_tools st + 1, an_tool_open := False\<rparr>)))
         else if t = ''message_delta'' then
           ([], let st = (case ae_delta ev of
                            Some d \<Rightarrow> if ad_stop d \<noteq> [] then st\<lparr>an_finish := ad_stop d\<rparr> else st
                          | None \<Rightarrow> st)
                in (case ae_output_tokens ev of
                      Some n \<Rightarrow> if n > 0 then st\<lparr>an_usage := Some (counted_usage (an_prompt_tokens st) n)\<rparr> else st
                    | None \<Rightarrow> st))
         else if t = ''message_stop'' then ([last_piece (an_finish st) (an_usage st)], st\<lparr>an_done := True\<rparr>)
         else ([], st))"

fun anthropic_read ::
  "json_lib \<Rightarrow> string option \<Rightarrow> string list \<Rightarrow> anthropic_state \<Rightarrow> chunk_msg list \<times> read_result" where
  "anthropic_read L e [] st =
     ([], if e \<noteq> None then scan_end e
          else if an_done st then Read_OK
          else Read_Broken ''anthropic stream ended before message_stop'')"
| "anthropic_read L e (line # rest) st =
     (case sse_data line of
        None \<Rightarrow> anthropic_read L e rest st
      | Some payload \<Rightarrow>
          (case anthropic_event_of L payload of
             None \<Rightarrow> anthropic_read L e rest st
           | Some ev \<Rightarrow>
               (case anthropic_step L ev st of
                  (ks, st) \<Rightarrow> (case anthropic_read L e rest st of (ks', r) \<Rightarrow> (ks @ ks', r)))))"

section \<open>Command adapters\<close>

record adapter_line =
  al_content :: string
  al_delta :: string
  al_reasoning :: string
  al_tool_calls :: raw_json
  al_done :: bool
  al_finish :: string
  al_usage :: "usage_info option"

text \<open>
  Reading a line of an adapter is one application of \<open>encoding/json\<close> to the struct, an argument here.
  \<open>crash\<close> is the exit error of the command while the context lasts, \<open>e\<close> the scanner's.
\<close>

definition adapter_end :: "string option \<Rightarrow> string option \<Rightarrow> read_result" where
  "adapter_end crash e =
     (case crash of
        Some w \<Rightarrow> Read_Broken (''adapter exited before completing: '' @ w)
      | None \<Rightarrow>
          (case e of
             Some e \<Rightarrow> Read_Broken (''adapter stream read error: '' @ e)
           | None \<Rightarrow> Read_Broken ''adapter stream ended without a done chunk''))"

fun adapter_read ::
  "(string \<Rightarrow> adapter_line option) \<Rightarrow> string option \<Rightarrow> string option \<Rightarrow> string list \<Rightarrow> string \<Rightarrow>
   chunk_msg list \<times> read_result" where
  "adapter_read decode crash e [] finish = ([], adapter_end crash e)"
| "adapter_read decode crash e (line # rest) finish =
     (if trim_space line = [] then adapter_read decode crash e rest finish
      else
        (case decode (trim_space line) of
           None \<Rightarrow> adapter_read decode crash e rest finish
         | Some a \<Rightarrow>
             let finish = (if al_finish a = [] then finish else al_finish a);
                 k = (piece (al_delta a) (al_reasoning a) (al_tool_calls a) finish)
                       \<lparr>ck_done := al_done a, ck_usage := al_usage a\<rparr>
             in if al_done a then ([k], Read_OK)
                else (case adapter_read decode crash e rest finish of (ks, r) \<Rightarrow> (k # ks, r))))"

record batch_result =
  br_content :: string
  br_reasoning :: string
  br_tool_calls :: raw_json
  br_finish :: string

definition or_stop :: "string \<Rightarrow> string" where
  "or_stop f = (if f = [] then ''stop'' else f)"

definition adapter_batch ::
  "(string \<Rightarrow> adapter_line option) \<Rightarrow> string option \<Rightarrow> string option \<Rightarrow> string \<Rightarrow> string + batch_result" where
  "adapter_batch decode crash e out =
     (case crash of
        Some w \<Rightarrow> Inl (''adapter: '' @ w)
      | None \<Rightarrow>
          (case e of
             Some e \<Rightarrow> Inl (''read adapter output: '' @ e)
           | None \<Rightarrow>
               (case decode (trim_space out) of
                  None \<Rightarrow> Inl ''adapter returned invalid JSON''
                | Some a \<Rightarrow>
                    Inr \<lparr>br_content = (if al_content a = [] then al_delta a else al_content a), br_reasoning = [],
                         br_tool_calls = al_tool_calls a, br_finish = or_stop (al_finish a)\<rparr>)))"

section \<open>Whole answers of an upstream\<close>

definition openai_batch :: "json_lib \<Rightarrow> string \<Rightarrow> string + batch_result" where
  "openai_batch L out =
     (case struct_of L (field_of L (as_structs L (stream_choice_of L ''message'')) [] ''choices'') out of
        None \<Rightarrow> Inl ''parse openai response''
      | Some [] \<Rightarrow> Inl ''openai response has no choices''
      | Some (ch # _) \<Rightarrow>
          Inr \<lparr>br_content = sc_content ch, br_reasoning = sc_reasoning ch, br_tool_calls = sc_tool_calls ch,
               br_finish = or_stop (sc_finish ch)\<rparr>)"

record anthropic_block =
  ab_type :: string
  ab_text :: string
  ab_thinking :: string
  ab_id :: string
  ab_name :: string
  ab_input :: raw_json

definition anthropic_block_of :: "json_lib \<Rightarrow> (string \<times> raw_json) list \<Rightarrow> anthropic_block option" where
  "anthropic_block_of L b =
     (case (text_field L ''type'' b, text_field L ''text'' b, text_field L ''thinking'' b, text_field L ''id'' b,
            text_field L ''name'' b) of
        (Some t, Some x, Some th, Some i, Some n) \<Rightarrow>
          Some \<lparr>ab_type = t, ab_text = x, ab_thinking = th, ab_id = i, ab_name = n, ab_input = raw_field L ''input'' b\<rparr>
      | _ \<Rightarrow> None)"

definition add_block ::
  "anthropic_block \<Rightarrow> string \<times> string \<times> json list \<Rightarrow> string \<times> string \<times> json list" where
  "add_block b acc =
     (case acc of (text, thinking, tools) \<Rightarrow>
        if ab_type b = ''thinking'' then (text, thinking @ ab_thinking b, tools)
        else if ab_type b = ''tool_use'' then
          (text, thinking, tools @ [openai_tool_call (int (length tools)) (ab_id b) (ab_name b)
             (if ab_input b = [] then ''{}'' else ab_input b)])
        else (text @ ab_text b, thinking, tools))"

definition anthropic_batch :: "json_lib \<Rightarrow> string \<Rightarrow> string + batch_result" where
  "anthropic_batch L out =
     (case struct_of L (\<lambda>ms.
          case (field_of L (as_structs L (anthropic_block_of L)) [] ''content'' ms, text_field L ''stop_reason'' ms) of
            (Some bs, Some f) \<Rightarrow> Some (bs, f) | _ \<Rightarrow> None) out of
        None \<Rightarrow> Inl ''parse anthropic response''
      | Some (bs, f) \<Rightarrow>
          (case fold add_block bs ([], [], []) of
             (text, thinking, tools) \<Rightarrow>
               Inr \<lparr>br_content = text, br_reasoning = thinking,
                    br_tool_calls = (if tools = [] then [] else case_option [] id (jl_text L (J_Array tools))),
                    br_finish = or_stop f\<rparr>))"

section \<open>A job of the shim\<close>

text \<open>
  The messages to the router, the tokens counted and whether the job failed. \<open>gone\<close> is the end of
  the job's context; the ticks of the keep-alive are as in the client and are left out.
\<close>

definition shim_stream :: "string \<Rightarrow> chunk_msg list \<times> read_result \<Rightarrow> bool \<Rightarrow> job_outcome" where
  "shim_stream rid answer gone =
     (case answer of (ks, r) \<Rightarrow>
        let sent = map (\<lambda>k. event_msg rid (Inferred k)) ks;
            tokens = sum_list (map (\<lambda>k. case ck_usage k of None \<Rightarrow> 0 | Some u \<Rightarrow> us_completion_tokens u) ks)
        in (case r of
              Read_OK \<Rightarrow> \<lparr>hd_sent = sent, hd_tokens = tokens, hd_failed = False\<rparr>
            | Read_Broken e \<Rightarrow>
                if gone then \<lparr>hd_sent = sent, hd_tokens = tokens, hd_failed = False\<rparr>
                else \<lparr>hd_sent = sent @ [Worker_Error \<lparr>em_request_id = rid, em_message = e, em_final = False\<rparr>],
                      hd_tokens = tokens, hd_failed = True\<rparr>))"

definition shim_batch :: "string \<Rightarrow> string + batch_result \<Rightarrow> bool \<Rightarrow> job_outcome" where
  "shim_batch rid answer gone =
     (case answer of
        Inl e \<Rightarrow>
          if gone then \<lparr>hd_sent = [], hd_tokens = 0, hd_failed = False\<rparr>
          else \<lparr>hd_sent = [Worker_Error \<lparr>em_request_id = rid, em_message = e, em_final = False\<rparr>], hd_tokens = 0,
                hd_failed = True\<rparr>
      | Inr b \<Rightarrow>
          \<lparr>hd_sent = [event_msg rid (Inferred ((piece (br_content b) (br_reasoning b) (br_tool_calls b) (br_finish b))
             \<lparr>ck_done := True\<rparr>))], hd_tokens = 0, hd_failed = False\<rparr>)"

text \<open>The quick check of a job, and the models of the configuration: names and context sizes.\<close>

definition shim_try :: "string list \<Rightarrow> inference_request \<Rightarrow> worker_out list option" where
  "shim_try models r =
     (if rq_model r \<in> set models then None
      else Some [Out_Said (Worker_Error \<lparr>em_request_id = rq_id r, em_message = ''model not available on this shim'',
        em_final = False\<rparr>)])"

definition shim_models :: "(string \<times> int) list \<Rightarrow> model_info list \<times> int" where
  "shim_models ms =
     (map (\<lambda>(n, c). \<lparr>mi_name = n, mi_context_size = c, mi_context_train = 0, mi_modalities = []\<rparr>) ms, 0)"

end
