(* ===== verification/Backend_Properties.thy ===== *)
theory Backend_Properties
  imports Backends
begin

text \<open>
  What reading a backend guarantees: a successful answer ends with one done chunk, a failure shows
  none, and nothing of the output is lost; and where the shim falls short of it.
\<close>

section \<open>One end\<close>

definition ends_once :: "chunk_msg list \<Rightarrow> bool" where
  "ends_once ks \<longleftrightarrow> ks \<noteq> [] \<and> ck_done (last ks) \<and> list_all (\<lambda>k. \<not> ck_done k) (butlast ks)"

definition unfinished :: "chunk_msg list \<Rightarrow> bool" where
  "unfinished ks \<longleftrightarrow> list_all (\<lambda>k. \<not> ck_done k) ks"

lemma ends_once_append [simp]: "unfinished ks \<Longrightarrow> ends_once (ks @ ks') = ends_once ks'"
  by (cases "ks' = []") (auto simp: ends_once_def unfinished_def list_all_iff butlast_append last_append dest: in_set_butlastD)

lemma unfinished_simps [simp]:
  "unfinished []" "unfinished (k # ks) \<longleftrightarrow> \<not> ck_done k \<and> unfinished ks"
  "unfinished (ks @ ks') \<longleftrightarrow> unfinished ks \<and> unfinished ks'"
  by (simp_all add: unfinished_def)

lemma piece_simps [simp]:
  "\<not> ck_done (piece d r t f)" "ck_done (last_piece f u)" "ck_delta (piece d r t f) = d"
  "ck_reasoning_delta (piece d r t f) = r" "ck_delta (last_piece f u) = []" "ck_reasoning_delta (last_piece f u) = []"
  by (simp_all add: piece_def last_piece_def empty_chunk_def)

lemma ends_once_single [simp]: "ends_once [k] \<longleftrightarrow> ck_done k"
  by (simp add: ends_once_def)

lemma llama_payload_unfinished [simp]: "unfinished (fst (llama_payload c st))"
  by (auto simp: llama_payload_def Let_def split: list.splits)

lemma llama_read_ends:
  "llama_read L ins st = (ks, r) \<Longrightarrow> (case r of Some Read_OK \<Rightarrow> ends_once ks | _ \<Rightarrow> unfinished ks)"
proof (induction L ins st arbitrary: ks r rule: llama_read.induct)
  case (6 L line ins st)
  show ?case
  proof (cases "sse_data line")
    case (Some payload)
    show ?thesis
    proof (cases "payload = ''[DONE]'' \<or> infer_chunk_of L ''delta'' payload = None")
      case False
      then obtain c ks1 st1 ks2 r2 where c: "infer_chunk_of L ''delta'' payload = Some c"
          "llama_payload c st = (ks1, st1)" "llama_read L ins st1 = (ks2, r2)" by (metis option.exhaust surj_pair)
      have "unfinished ks1" using llama_payload_unfinished [of c st] c(2) by simp
      moreover have "case r2 of Some Read_OK \<Rightarrow> ends_once ks2 | _ \<Rightarrow> unfinished ks2"
        using 6 Some False c by auto
      ultimately show ?thesis
        using 6(4) Some False c by (auto split: option.splits read_result.splits)
    qed (use 6 Some in \<open>auto simp: llama_done_def split: if_splits\<close>)
  qed (use 6 in simp)
qed (auto simp: llama_done_def split: if_splits)

lemma llama_batch_ends:
  "llama_batch L body = (ks, r) \<Longrightarrow> (case r of Read_OK \<Rightarrow> ends_once ks | Read_Broken e \<Rightarrow> unfinished ks)"
  by (auto simp: llama_batch_def split: option.splits list.splits)

text \<open>
  The llama.cpp client tells the router the end of a job exactly once: an inference that succeeds
  produced one done chunk, the last, and one that fails produced none, whatever the backend sent,
  however it ended and whether the health polling stepped in.
\<close>

theorem inference_ends_once:
  assumes "infer num L hung answer = (ks, Some e)"
  shows "case e of Infer_Ok \<Rightarrow> ends_once ks | Infer_Failed m final \<Rightarrow> unfinished ks"
  using assms llama_read_ends llama_batch_ends
  by (fastforce simp: infer_def infer_end_of_def backend_error_def Let_def
      split: http_answer.splits prod.splits option.splits read_result.splits)

definition ends :: "worker_msg \<Rightarrow> bool" where
  "ends m = (case m of Worker_Chunk k \<Rightarrow> ck_done k | Worker_Error e \<Rightarrow> True)"

definition inferred :: "infer_event list \<Rightarrow> chunk_msg list" where
  "inferred es = concat (map (\<lambda>e. case e of Inferred k \<Rightarrow> [k] | Alive_Tick \<Rightarrow> []) es)"

lemma ends_event [simp]: "ends (event_msg rid e) = (case e of Inferred k \<Rightarrow> ck_done k | Alive_Tick \<Rightarrow> False)"
  by (cases e) (simp_all add: ends_def empty_chunk_def)

lemma count_ends:
  "length (filter ends (map (event_msg rid) es)) = length (filter ck_done (inferred es))"
  by (induction es) (auto simp: inferred_def split: infer_event.split)

lemma ends_once_count: "ends_once ks \<Longrightarrow> length (filter ck_done ks) = 1"
  by (cases ks rule: rev_cases) (auto simp: ends_once_def list_all_iff filter_empty_conv)

lemma unfinished_count: "unfinished ks \<Longrightarrow> length (filter ck_done ks) = 0"
  by (auto simp: unfinished_def list_all_iff filter_empty_conv)

text \<open>
  C21. The router hears the end of every job exactly once: for a job it still wants, a worker sends one
  done chunk or one error, whatever the backend answered and the ticks of the keep-alive in between,
  and for one it gave up at most one.
\<close>

theorem jobs_end_once:
  assumes "infer num L hung answer = (ks, Some e)" and "inferred events = ks"
    and "handle_job c now req events e gone b = (h, b')"
  shows "length (filter ends (hd_sent h)) \<le> 1 \<and> (\<not> gone \<longrightarrow> length (filter ends (hd_sent h)) = 1)"
proof (cases "endpoint_for c (rq_model req) = []")
  case True
  then show ?thesis using assms(3) by (auto simp: handle_job_def Let_def ends_def)
next
  case False
  have "case e of Infer_Ok \<Rightarrow> ends_once ks | Infer_Failed m final \<Rightarrow> unfinished ks"
    using assms(1) llama_read_ends llama_batch_ends
    by (fastforce simp: infer_def infer_end_of_def backend_error_def Let_def
        split: http_answer.splits prod.splits option.splits read_result.splits)
  then have n: "length (filter ends (map (event_msg rid) events)) = (if e = Infer_Ok then 1 else 0)" for rid
    unfolding count_ends assms(2) using ends_once_count unfinished_count by (cases e) simp_all
  show ?thesis
    using assms(3) False n [of "rq_id req"]
    by (cases e) (auto simp: handle_job_def Let_def ends_def simp del: filter_map split: if_splits)
qed

section \<open>Nothing lost\<close>

text \<open>What the lines that count say: those before the marker or the end, as far as they decode.\<close>

definition counts :: "stream_input \<Rightarrow> bool" where
  "counts i \<longleftrightarrow> i \<noteq> Stream_End \<and> i \<noteq> Stream_Line ''data: [DONE]''"

definition said_by :: "json_lib \<Rightarrow> (stream_choice \<Rightarrow> string) \<Rightarrow> stream_input \<Rightarrow> string" where
  "said_by L f i =
     (case i of
        Stream_Line line \<Rightarrow>
          (case Option.bind (sse_data line) (infer_chunk_of L ''delta'') of
             None \<Rightarrow> []
           | Some c \<Rightarrow> (case ic_choices c of [] \<Rightarrow> [] | ch # _ \<Rightarrow> f ch))
      | _ \<Rightarrow> [])"

lemma sse_done: "sse_data line = Some ''[DONE]'' \<longleftrightarrow> line = ''data: [DONE]''"
  by (auto simp: sse_data_def trim_prefix_def has_prefix_append)

lemma llama_payload_says:
  "concat (map ck_delta (fst (llama_payload c st))) = (case ic_choices c of [] \<Rightarrow> [] | ch # _ \<Rightarrow> sc_content ch)"
  "concat (map ck_reasoning_delta (fst (llama_payload c st))) =
     (case ic_choices c of [] \<Rightarrow> [] | ch # _ \<Rightarrow> sc_reasoning ch)"
  by (auto simp: llama_payload_def Let_def split: list.splits)

lemma llama_read_says:
  "llama_read L ins st = (ks, Some Read_OK) \<Longrightarrow>
     concat (map ck_delta ks) = concat (map (said_by L sc_content) (takeWhile counts ins)) \<and>
     concat (map ck_reasoning_delta ks) = concat (map (said_by L sc_reasoning) (takeWhile counts ins))"
proof (induction L ins st arbitrary: ks rule: llama_read.induct)
  case (6 L line ins st)
  show ?case
  proof (cases "sse_data line")
    case None
    then show ?thesis using 6 by (auto simp: counts_def said_by_def sse_data_def has_prefix_append split: if_splits)
  next
    case (Some payload)
    show ?thesis
    proof (cases "payload = ''[DONE]''")
      case True
      then show ?thesis using 6(4) Some by (auto simp: counts_def llama_done_def sse_done)
    next
      case False
      then have here: "counts (Stream_Line line)" using Some by (auto simp: counts_def sse_done [symmetric])
      show ?thesis
      proof (cases "infer_chunk_of L ''delta'' payload")
        case None
        then show ?thesis using 6(2) [OF Some False None] 6(4) Some False here by (simp add: said_by_def)
      next
        case (Some c)
        obtain ks1 st1 ks2 r2 where c: "llama_payload c st = (ks1, st1)" "llama_read L ins st1 = (ks2, r2)"
          by (metis surj_pair)
        then show ?thesis
          using 6(3) [OF \<open>sse_data line = Some payload\<close> False Some c(1) [symmetric]] 6(4) \<open>sse_data line = Some payload\<close>
            Some False here llama_payload_says [of c st]
          by (auto simp: said_by_def)
      qed
    qed
  qed
qed (auto simp: counts_def said_by_def llama_done_def split: if_splits)

text \<open>
  A stream that is read to its end passes on exactly its text and its reasoning: the deltas of the
  chunks together are the contents of the events up to the marker, in order, and likewise for the
  reasoning; lines that are not events or do not decode add nothing.
\<close>

theorem stream_is_passed_on:
  assumes "infer num L hung (Http_Stream ins) = (ks, Some Infer_Ok)"
  shows "concat (map ck_delta ks) = concat (map (said_by L sc_content) (takeWhile counts ins)) \<and>
    concat (map ck_reasoning_delta ks) = concat (map (said_by L sc_reasoning) (takeWhile counts ins))"
  using assms
  by (intro llama_read_says [of L ins llama_start])
    (auto simp: infer_def infer_end_of_def split: prod.splits option.splits read_result.splits,
      metis read_result.exhaust)

section \<open>The shim\<close>

lemma adapter_read_ends:
  "adapter_read decode crash e ls finish = (ks, r) \<Longrightarrow>
     (case r of Read_OK \<Rightarrow> ends_once ks | Read_Broken m \<Rightarrow> unfinished ks)"
proof (induction decode crash e ls finish arbitrary: ks r rule: adapter_read.induct)
  case (2 decode crash e line rest finish)
  then show ?case
    by (fastforce simp: Let_def piece_def empty_chunk_def ends_once_def unfinished_def split: if_splits option.splits
        prod.splits read_result.splits)
qed (auto simp: adapter_end_def split: option.splits)

lemma openai_payload_unfinished [simp]: "unfinished (fst (openai_payload c st))"
  by (auto simp: openai_payload_def Let_def split: list.splits)

lemma openai_read_ends:
  "openai_read L None ls st = (ks, r) \<Longrightarrow> (case r of Read_OK \<Rightarrow> ends_once ks | Read_Broken m \<Rightarrow> unfinished ks)"
proof (induction L "None :: string option" ls st arbitrary: ks r rule: openai_read.induct)
  case (2 L line rest st)
  show ?case
  proof (cases "sse_data line")
    case (Some payload)
    show ?thesis
    proof (cases "payload = ''[DONE]'' \<or> openai_chunk_of L payload = None")
      case False
      then obtain c ks1 st1 ks2 r2 where c: "openai_chunk_of L payload = Some c"
          "openai_payload c st = (ks1, st1)" "openai_read L None rest st1 = (ks2, r2)"
        by (metis option.exhaust surj_pair)
      have "unfinished ks1" using openai_payload_unfinished [of c st] c(2) by simp
      moreover have "case r2 of Read_OK \<Rightarrow> ends_once ks2 | Read_Broken m \<Rightarrow> unfinished ks2"
        using 2 Some False c by auto
      ultimately show ?thesis using 2(4) Some False c by (auto split: read_result.splits)
    qed (use 2 Some in \<open>auto simp: scan_end_def split: if_splits\<close>)
  qed (use 2 in simp)
qed (auto simp: scan_end_def split: if_splits)

text \<open>
  The shim, too, tells the router one end: reading an adapter, or an OpenAI upstream whose stream
  the scanner read without an error, gives one done chunk at the end when it succeeds and none when
  it fails, so that a job it was not told to drop ends with one done chunk or one error.
\<close>

theorem shim_jobs_end_once:
  assumes "answer = adapter_read decode crash e ls f \<or> answer = openai_read L None ls openai_start"
  shows "length (filter ends (hd_sent (shim_stream rid answer gone))) \<le> 1 \<and>
    (\<not> gone \<longrightarrow> length (filter ends (hd_sent (shim_stream rid answer gone))) = 1)"
proof -
  obtain ks r where a: "answer = (ks, r)" by force
  with assms adapter_read_ends openai_read_ends
  have "case r of Read_OK \<Rightarrow> ends_once ks | Read_Broken m \<Rightarrow> unfinished ks" by metis
  moreover have "filter ends (map (\<lambda>k. event_msg rid (Inferred k)) ks) = map (\<lambda>k. event_msg rid (Inferred k)) (filter ck_done ks)"
    by (simp add: filter_map comp_def ends_def)
  ultimately show ?thesis
    using ends_once_count [of ks] unfinished_count [of ks]
    by (auto simp: a shim_stream_def Let_def ends_def [of "Worker_Error _"] simp del: filter_map split: read_result.splits)
qed

text \<open>
  An Anthropic upstream can have a job end twice: the reader goes on after \<open>message_stop\<close>, so a second
  one is a second done chunk, and an error of the connection afterwards is reported after the end.
\<close>

theorem anthropic_stream_ends_twice:
  assumes "anthropic_event_of L payload = Some ev" and "ae_type ev = ''message_stop''"
  shows "fst (anthropic_read L None [''data: '' @ payload, ''data: '' @ payload] anthropic_start) =
      [last_piece ''stop'' None, last_piece ''stop'' None] \<and>
    anthropic_read L (Some e) [''data: '' @ payload] anthropic_start =
      ([last_piece ''stop'' None], Read_Broken (''read upstream stream: '' @ e))"
  using assms
  by (simp add: sse_data_def trim_prefix_def has_prefix_append anthropic_step_def anthropic_start_def scan_end_def)

text \<open>
  The stop reason of an Anthropic upstream goes to the router as it is, where finish reasons are those
  of OpenAI: a caller of the Anthropic dialect is told that a turn that asks for a tool has ended.
\<close>

theorem upstream_stop_reason_lost:
  assumes "anthropic_event_of L payload = Some ev" and "ae_type ev = ''message_delta''" and "ae_output_tokens ev = None"
    and "ae_delta ev = Some d" and "ad_stop d = ''tool_use''"
    and "anthropic_event_of L stop = Some ev'" and "ae_type ev' = ''message_stop''"
  shows "anthropic_read L None [''data: '' @ payload, ''data: '' @ stop] anthropic_start = ([last_piece ''tool_use'' None], Read_OK) \<and>
    anthropic_stop_reason ''tool_use'' = ''end_turn''"
  using assms
  by (simp add: sse_data_def trim_prefix_def has_prefix_append anthropic_step_def anthropic_start_def scan_end_def
      anthropic_stop_reason_def Let_def)

text \<open>
  Several system messages: an Anthropic upstream is sent the last one only.
\<close>

theorem only_the_last_system_message_is_sent:
  "split_system ms =
     ((case filter (\<lambda>m. ms_role m = ''system'') ms of [] \<Rightarrow> [] | sys \<Rightarrow> ms_content (last sys)),
      map (\<lambda>m. plain_message (ms_role m) (ms_content m)) (filter (\<lambda>m. ms_role m \<noteq> ''system'') ms))"
  unfolding split_system_def
  by (induction ms rule: rev_induct) (auto split: list.splits)

end
