(* ===== verification/Usage_Recorder.thy ===== *)
theory Usage_Recorder
  imports Hub "HOL-Library.Word"
begin

text \<open>
  The portal's usage and performance tables and the recorders that buffer for them
  (\<open>router/internal/admin/usage.go\<close>, \<open>router/internal/admin/perf.go\<close>). Both recorders have the same
  shape: counters per hourly bucket, added up in memory, written out by one goroutine that swaps the
  buffer and puts back what the database refused. The shape is a locale over the counters; each
  kind of counters interprets it. A table is a map from the key of a row to its counters, a write an
  upsert; floating-point sums are rationals.
\<close>

section \<open>Counters\<close>

definition hour_ns :: duration where "hour_ns = 3600 * second_ns"

definition hour_of :: "gotime \<Rightarrow> gotime" where
  "hour_of t = t div hour_ns * hour_ns"

record usage_counters =
  uc_requests :: "64 word"
  uc_prompt_tokens :: "64 word"
  uc_completion_tokens :: "64 word"

definition usage_none :: usage_counters where
  "usage_none = \<lparr>uc_requests = 0, uc_prompt_tokens = 0, uc_completion_tokens = 0\<rparr>"

definition usage_count :: "int \<times> int \<Rightarrow> usage_counters \<Rightarrow> usage_counters" where
  "usage_count s d =
     (case s of (prompt, completion) \<Rightarrow>
        d\<lparr>uc_requests := uc_requests d + 1, uc_prompt_tokens := uc_prompt_tokens d + word_of_int prompt,
          uc_completion_tokens := uc_completion_tokens d + word_of_int completion\<rparr>)"

definition usage_merge :: "usage_counters \<Rightarrow> usage_counters \<Rightarrow> usage_counters" where
  "usage_merge d e =
     \<lparr>uc_requests = uc_requests d + uc_requests e, uc_prompt_tokens = uc_prompt_tokens d + uc_prompt_tokens e,
      uc_completion_tokens = uc_completion_tokens d + uc_completion_tokens e\<rparr>"

record perf_counters =
  pf_samples :: "64 word"
  pf_queue_sum :: rat
  pf_queue_max :: rat
  pf_total_sum :: rat
  pf_total_max :: rat
  pf_ttft_samples :: "64 word"
  pf_ttft_sum :: rat
  pf_ttft_max :: rat
  pf_prefill_samples :: "64 word"
  pf_prefill_sum :: rat
  pf_prefill_tokens :: "64 word"
  pf_decode_samples :: "64 word"
  pf_decode_sum :: rat
  pf_decode_tokens :: "64 word"
  pf_backend_samples :: "64 word"

definition perf_nothing :: perf_counters where
  "perf_nothing =
     \<lparr>pf_samples = 0, pf_queue_sum = 0, pf_queue_max = 0, pf_total_sum = 0, pf_total_max = 0, pf_ttft_samples = 0,
      pf_ttft_sum = 0, pf_ttft_max = 0, pf_prefill_samples = 0, pf_prefill_sum = 0, pf_prefill_tokens = 0,
      pf_decode_samples = 0, pf_decode_sum = 0, pf_decode_tokens = 0, pf_backend_samples = 0\<rparr>"

definition larger :: "rat \<Rightarrow> rat \<Rightarrow> rat" where
  "larger x y = (if y > x then y else x)"

definition perf_add :: "perf_sample \<Rightarrow> perf_counters \<Rightarrow> perf_counters" where
  "perf_add s d =
     (let d = d\<lparr>pf_samples := pf_samples d + 1, pf_queue_sum := pf_queue_sum d + ps_queue_ms s,
                pf_queue_max := larger (pf_queue_max d) (ps_queue_ms s),
                pf_total_sum := pf_total_sum d + ps_total_ms s,
                pf_total_max := larger (pf_total_max d) (ps_total_ms s)\<rparr>;
          d = (if ps_ttft_ms s > 0
               then d\<lparr>pf_ttft_samples := pf_ttft_samples d + 1, pf_ttft_sum := pf_ttft_sum d + ps_ttft_ms s,
                      pf_ttft_max := larger (pf_ttft_max d) (ps_ttft_ms s)\<rparr>
               else d);
          d = (if ps_prefill_ms s > 0 \<and> ps_prefill_tokens s > 0
               then d\<lparr>pf_prefill_samples := pf_prefill_samples d + 1,
                      pf_prefill_sum := pf_prefill_sum d + ps_prefill_ms s,
                      pf_prefill_tokens := pf_prefill_tokens d + word_of_int (ps_prefill_tokens s)\<rparr>
               else d);
          d = (if ps_decode_ms s > 0 \<and> ps_decode_tokens s > 0
               then d\<lparr>pf_decode_samples := pf_decode_samples d + 1, pf_decode_sum := pf_decode_sum d + ps_decode_ms s,
                      pf_decode_tokens := pf_decode_tokens d + word_of_int (ps_decode_tokens s)\<rparr>
               else d)
      in if ps_from_backend s then d\<lparr>pf_backend_samples := pf_backend_samples d + 1\<rparr> else d)"

definition perf_merge :: "perf_counters \<Rightarrow> perf_counters \<Rightarrow> perf_counters" where
  "perf_merge d e =
     \<lparr>pf_samples = pf_samples d + pf_samples e, pf_queue_sum = pf_queue_sum d + pf_queue_sum e,
      pf_queue_max = larger (pf_queue_max d) (pf_queue_max e), pf_total_sum = pf_total_sum d + pf_total_sum e,
      pf_total_max = larger (pf_total_max d) (pf_total_max e), pf_ttft_samples = pf_ttft_samples d + pf_ttft_samples e,
      pf_ttft_sum = pf_ttft_sum d + pf_ttft_sum e, pf_ttft_max = larger (pf_ttft_max d) (pf_ttft_max e),
      pf_prefill_samples = pf_prefill_samples d + pf_prefill_samples e,
      pf_prefill_sum = pf_prefill_sum d + pf_prefill_sum e,
      pf_prefill_tokens = pf_prefill_tokens d + pf_prefill_tokens e,
      pf_decode_samples = pf_decode_samples d + pf_decode_samples e, pf_decode_sum = pf_decode_sum d + pf_decode_sum e,
      pf_decode_tokens = pf_decode_tokens d + pf_decode_tokens e,
      pf_backend_samples = pf_backend_samples d + pf_backend_samples e\<rparr>"

section \<open>Rows and recorders\<close>

text \<open>The key of a row: bucket, owner, label of the API key, model and, for performance, client.\<close>

type_synonym row_key = "gotime \<times> string \<times> string \<times> string \<times> string"

record 'd counting =
  ct_table :: "(row_key, 'd) gomap"
  ct_buf :: "(row_key, 'd) gomap"
  ct_pending :: "(row_key \<times> 'd) list"

definition counting_start :: "'d counting" where
  "counting_start = \<lparr>ct_table = [], ct_buf = [], ct_pending = []\<rparr>"

definition upsert :: "('d \<Rightarrow> 'd \<Rightarrow> 'd) \<Rightarrow> row_key \<Rightarrow> 'd \<Rightarrow> (row_key, 'd) gomap \<Rightarrow> (row_key, 'd) gomap" where
  "upsert merge k d m = (case mget m k of None \<Rightarrow> mput k d m | Some c \<Rightarrow> mput k (merge c d) m)"

text \<open>
  What happens to a recorder: a request is recorded, \<open>Flush\<close> swaps the buffer, and then writes the
  deltas one by one, where the flag is whether the database took it; old rows are pruned.
\<close>

datatype 's count_event =
    Count_Record row_key 's
  | Count_Swap
  | Count_Write bool
  | Count_Prune gotime

fun count_step ::
  "('d \<Rightarrow> 'd \<Rightarrow> 'd) \<Rightarrow> ('s \<Rightarrow> 'd \<Rightarrow> 'd) \<Rightarrow> 'd \<Rightarrow> 's count_event \<Rightarrow> 'd counting \<Rightarrow> 'd counting" where
  "count_step merge add none (Count_Record k s) c =
     c\<lparr>ct_buf := mput k (add s (get_or none (ct_buf c) k)) (ct_buf c)\<rparr>"
| "count_step merge add none Count_Swap c =
     (if ct_pending c = [] then c\<lparr>ct_buf := [], ct_pending := ct_buf c\<rparr> else c)"
| "count_step merge add none (Count_Write taken) c =
     (case ct_pending c of
        [] \<Rightarrow> c
      | (k, d) # rest \<Rightarrow>
          if taken then c\<lparr>ct_table := upsert merge k d (ct_table c), ct_pending := rest\<rparr>
          else c\<lparr>ct_buf := upsert merge k d (ct_buf c), ct_pending := rest\<rparr>)"
| "count_step merge add none (Count_Prune cutoff) c =
     c\<lparr>ct_table := filter (\<lambda>((bucket, _), _). \<not> bucket < cutoff) (ct_table c)\<rparr>"

definition count_run ::
  "('d \<Rightarrow> 'd \<Rightarrow> 'd) \<Rightarrow> ('s \<Rightarrow> 'd \<Rightarrow> 'd) \<Rightarrow> 'd \<Rightarrow> 's count_event list \<Rightarrow> 'd counting" where
  "count_run merge add none es = fold (count_step merge add none) es counting_start"

text \<open>The events of the two recorders: a request without a model is not recorded.\<close>

definition usage_record :: "gotime \<Rightarrow> string \<Rightarrow> string \<Rightarrow> string \<Rightarrow> int \<Rightarrow> int \<Rightarrow> (int \<times> int) count_event list" where
  "usage_record now model owner label prompt completion =
     (if model = [] then [] else [Count_Record (hour_of now, owner, label, model, []) (prompt, completion)])"

definition perf_record :: "gotime \<Rightarrow> perf_sample \<Rightarrow> perf_sample count_event list" where
  "perf_record now s =
     (if ps_model s = [] then []
      else [Count_Record (hour_of now, ps_owner s, ps_key_label s, ps_model s, ps_client s) s])"

section \<open>What the portal shows\<close>

definition avg_of :: "rat \<Rightarrow> 64 word \<Rightarrow> rat" where
  "avg_of x n = (if n = 0 then 0 else x / of_int (sint n))"

definition avg_ttft :: "perf_counters \<Rightarrow> rat" where "avg_ttft p = avg_of (pf_ttft_sum p) (pf_ttft_samples p)"
definition avg_queue :: "perf_counters \<Rightarrow> rat" where "avg_queue p = avg_of (pf_queue_sum p) (pf_samples p)"
definition avg_total :: "perf_counters \<Rightarrow> rat" where "avg_total p = avg_of (pf_total_sum p) (pf_samples p)"

definition tokens_per_sec :: "64 word \<Rightarrow> rat \<Rightarrow> rat" where
  "tokens_per_sec n ms = (if ms \<le> 0 then 0 else of_int (sint n) / (ms / 1000))"

definition prompt_rate :: "perf_counters \<Rightarrow> rat" where
  "prompt_rate p = tokens_per_sec (pf_prefill_tokens p) (pf_prefill_sum p)"

definition gen_rate :: "perf_counters \<Rightarrow> rat" where
  "gen_rate p = tokens_per_sec (pf_decode_tokens p) (pf_decode_sum p)"

definition backend_frac :: "perf_counters \<Rightarrow> rat" where
  "backend_frac p = avg_of (of_int (sint (pf_backend_samples p))) (pf_samples p)"

section \<open>Counting loses nothing\<close>

text \<open>Adding up what may be absent.\<close>

fun joined :: "('d \<Rightarrow> 'd \<Rightarrow> 'd) \<Rightarrow> 'd option \<Rightarrow> 'd option \<Rightarrow> 'd option" where
  "joined merge None y = y"
| "joined merge x None = x"
| "joined merge (Some d) (Some e) = Some (merge d e)"

lemma joined_None [simp]: "joined merge x None = x"
  by (cases x) simp_all

definition samples_of :: "row_key \<Rightarrow> 's count_event list \<Rightarrow> 's list" where
  "samples_of k es = concat (map (\<lambda>e. case e of Count_Record k' s \<Rightarrow> if k' = k then [s] else [] | _ \<Rightarrow> []) es)"

definition total_of :: "('s \<Rightarrow> 'd \<Rightarrow> 'd) \<Rightarrow> 'd \<Rightarrow> 's list \<Rightarrow> 'd option" where
  "total_of add none ss = (if ss = [] then None else Some (fold add ss none))"

definition held :: "('d \<Rightarrow> 'd \<Rightarrow> 'd) \<Rightarrow> row_key \<Rightarrow> 'd counting \<Rightarrow> 'd option" where
  "held merge k c = joined merge (mget (ct_table c) k) (joined merge (mget (ct_pending c) k) (mget (ct_buf c) k))"

definition counting_ok :: "('d \<Rightarrow> bool) \<Rightarrow> 'd counting \<Rightarrow> bool" where
  "counting_ok good c \<longleftrightarrow> wf_map (ct_pending c) \<and> wf_map (ct_buf c) \<and> list_all (\<lambda>(k, d). good d) (ct_buf c) \<and>
     list_all (\<lambda>(k, d). good d) (ct_pending c)"

locale counters =
  fixes merge :: "'d \<Rightarrow> 'd \<Rightarrow> 'd" and add :: "'s \<Rightarrow> 'd \<Rightarrow> 'd" and none :: 'd and good :: "'d \<Rightarrow> bool"
  assumes merge_assoc: "merge (merge d e) f = merge d (merge e f)"
    and merge_comm: "merge d e = merge e d"
    and good_none: "good none" and good_add: "good d \<Longrightarrow> good (add s d)"
    and good_merge: "good d \<Longrightarrow> good e \<Longrightarrow> good (merge d e)"
    and add_merge: "good d \<Longrightarrow> add s d = merge d (add s none)"
begin

lemma joined_assoc: "joined merge (joined merge x y) z = joined merge x (joined merge y z)"
  by (cases x; cases y; cases z) (simp_all add: merge_assoc)

lemma joined_comm: "joined merge x y = joined merge y x"
  by (cases x; cases y) (simp_all add: merge_comm)

lemma joined_left_comm: "joined merge x (joined merge y z) = joined merge y (joined merge x z)"
  by (metis joined_assoc joined_comm)

lemmas joined_ac = joined_assoc joined_comm joined_left_comm

lemma mget_upsert: "mget (upsert merge k d m) k' = (if k' = k then joined merge (mget m k) (Some d) else mget m k')"
  by (auto simp: upsert_def gomap_simps split: option.split)

lemma good_update:
  "list_all (\<lambda>(k, d). good d) m \<Longrightarrow> good d \<Longrightarrow> list_all (\<lambda>(k, d). good d) (mput k d m)"
  by (induction m) auto

lemma good_mget: "list_all (\<lambda>(k, d). good d) m \<Longrightarrow> mget m k = Some d \<Longrightarrow> good d"
  by (auto simp: list_all_iff dest: mget_SomeD)

lemma good_upsert:
  "list_all (\<lambda>(k, d). good d) m \<Longrightarrow> good d \<Longrightarrow> list_all (\<lambda>(k, d). good d) (upsert merge k d m)"
  by (auto simp: upsert_def intro!: good_update good_merge dest: good_mget split: option.split)

lemma wf_upsert: "wf_map m \<Longrightarrow> wf_map (upsert merge k d m)"
  by (auto simp: upsert_def split: option.split)

lemma step_ok: "counting_ok good c \<Longrightarrow> counting_ok good (count_step merge add none e c)"
proof (cases e)
  case (Count_Record k s)
  assume ok: "counting_ok good c"
  then have "good (get_or none (ct_buf c) k)"
    by (auto simp: get_or_def counting_ok_def good_none dest: good_mget split: option.split)
  then show ?thesis using ok Count_Record by (auto simp: counting_ok_def intro!: good_update good_add)
qed (auto simp: counting_ok_def wf_upsert good_upsert split: list.splits)

lemma held_step:
  assumes "counting_ok good c" and "\<And>cutoff. e = Count_Prune cutoff \<Longrightarrow> cutoff \<le> fst k"
  shows "held merge k (count_step merge add none e c) =
    joined merge (held merge k c) (total_of add none (samples_of k [e]))"
proof (cases e)
  case (Count_Record k' s)
  have "good d \<Longrightarrow> merge d (add s none) = add s d" for d using add_merge by simp
  then have "mget (mput k' (add s (get_or none (ct_buf c) k')) (ct_buf c)) k =
      joined merge (mget (ct_buf c) k) (total_of add none (samples_of k [e]))"
    using assms(1) Count_Record
    by (auto simp: gomap_simps get_or_def samples_of_def total_of_def counting_ok_def dest: good_mget split: option.split)
  then show ?thesis using Count_Record by (simp add: held_def joined_assoc)
next
  case (Count_Write taken)
  show ?thesis
  proof (cases "ct_pending c")
    case Nil
    then show ?thesis using Count_Write by (simp add: samples_of_def total_of_def)
  next
    case (Cons x rest)
    obtain k' d where x: "x = (k', d)" by (rule prod.exhaust)
    with assms(1) Cons have "mget rest k' = None" by (simp add: counting_ok_def mget_None_iff)
    then show ?thesis using Count_Write Cons x
      by (cases taken; cases "k' = k")
        (simp_all add: held_def samples_of_def total_of_def mget_upsert joined_ac)
  qed
next
  case (Count_Prune cutoff)
  have "mget (filter (\<lambda>((bucket, _), _). \<not> bucket < cutoff) m) k = mget m k" for m :: "(row_key, 'd) gomap"
    using assms(2) [OF Count_Prune] by (induction m) auto
  then show ?thesis using Count_Prune by (simp add: held_def samples_of_def total_of_def)
qed (auto simp: held_def samples_of_def total_of_def)

lemma good_fold: "good d \<Longrightarrow> good (fold add ss d)"
  by (induction ss arbitrary: d) (simp_all add: good_add)

lemma fold_add:
  assumes "good d" and "ss \<noteq> []"
  shows "fold add ss d = merge d (fold add ss none)"
  using assms(2)
proof (induction ss rule: rev_induct)
  case (snoc t ss)
  show ?case
  proof (cases "ss = []")
    case True
    then show ?thesis using add_merge [OF assms(1)] by simp
  next
    case False
    let ?x = "fold add ss none"
    have x: "good ?x" by (rule good_fold [OF good_none])
    have "fold add (ss @ [t]) d = add t (merge d ?x)" using snoc.IH [OF False] by simp
    also have "\<dots> = merge (merge d ?x) (add t none)" by (rule add_merge [OF good_merge [OF assms(1) x]])
    also have "\<dots> = merge d (add t ?x)" unfolding merge_assoc add_merge [OF x, of t] ..
    finally show ?thesis by simp
  qed
qed simp

lemma total_append:
  "joined merge (total_of add none ss) (total_of add none ts) = total_of add none (ss @ ts)"
  using fold_add [OF good_fold [OF good_none], of ts ss] by (cases "ss = []"; cases "ts = []") (simp_all add: total_of_def)

lemma counting_is_exact:
  assumes "list_all (\<lambda>e. case e of Count_Prune cutoff \<Rightarrow> cutoff \<le> fst k | _ \<Rightarrow> True) es"
  shows "counting_ok good (count_run merge add none es) \<and>
    held merge k (count_run merge add none es) = total_of add none (samples_of k es)"
  using assms
proof (induction es rule: rev_induct)
  case Nil
  then show ?case
    by (simp add: count_run_def counting_ok_def counting_start_def held_def samples_of_def total_of_def)
next
  case (snoc e es)
  let ?c = "count_run merge add none es"
  have run: "count_run merge add none (es @ [e]) = count_step merge add none e ?c" by (simp add: count_run_def)
  have ok: "counting_ok good ?c" and before: "held merge k ?c = total_of add none (samples_of k es)"
    using snoc by auto
  have "held merge k (count_step merge add none e ?c) =
      joined merge (held merge k ?c) (total_of add none (samples_of k [e]))"
    by (rule held_step [OF ok]) (use snoc.prems in simp)
  then show ?case
    unfolding run before total_append using step_ok [OF ok, of e] by (simp add: samples_of_def)
qed

end

section \<open>The two recorders\<close>

interpretation usage: counters usage_merge usage_count usage_none "\<lambda>_. True"
  by unfold_locales (auto simp: usage_merge_def usage_count_def usage_none_def add_ac split: prod.splits)

definition maxima_ok :: "perf_counters \<Rightarrow> bool" where
  "maxima_ok d \<longleftrightarrow> 0 \<le> pf_queue_max d \<and> 0 \<le> pf_total_max d \<and> 0 \<le> pf_ttft_max d"

lemma larger_simps:
  "larger (larger x y) z = larger x (larger y z)" "larger x y = larger y x" "0 \<le> x \<Longrightarrow> larger x (larger 0 y) = larger x y"
  "0 \<le> x \<Longrightarrow> larger x 0 = x" "0 \<le> x \<Longrightarrow> 0 \<le> larger x y" "0 \<le> larger 0 y"
  by (auto simp: larger_def)

lemma perf_merge_ac: "perf_merge (perf_merge d e) f = perf_merge d (perf_merge e f)" "perf_merge d e = perf_merge e d"
  by (simp_all add: perf_merge_def larger_simps(1) add.assoc)
    (simp add: add.commute larger_simps(2) [of "pf_queue_max d"] larger_simps(2) [of "pf_total_max d"]
      larger_simps(2) [of "pf_ttft_max d"])

text \<open>A sample field by field, each with its own condition.\<close>

lemma perf_add_fields:
  "pf_samples (perf_add s d) = pf_samples d + 1"
  "pf_queue_sum (perf_add s d) = pf_queue_sum d + ps_queue_ms s"
  "pf_queue_max (perf_add s d) = larger (pf_queue_max d) (ps_queue_ms s)"
  "pf_total_sum (perf_add s d) = pf_total_sum d + ps_total_ms s"
  "pf_total_max (perf_add s d) = larger (pf_total_max d) (ps_total_ms s)"
  "pf_ttft_samples (perf_add s d) = pf_ttft_samples d + (if ps_ttft_ms s > 0 then 1 else 0)"
  "pf_ttft_sum (perf_add s d) = pf_ttft_sum d + (if ps_ttft_ms s > 0 then ps_ttft_ms s else 0)"
  "pf_ttft_max (perf_add s d) = (if ps_ttft_ms s > 0 then larger (pf_ttft_max d) (ps_ttft_ms s) else pf_ttft_max d)"
  "pf_prefill_samples (perf_add s d) =
     pf_prefill_samples d + (if ps_prefill_ms s > 0 \<and> ps_prefill_tokens s > 0 then 1 else 0)"
  "pf_prefill_sum (perf_add s d) =
     pf_prefill_sum d + (if ps_prefill_ms s > 0 \<and> ps_prefill_tokens s > 0 then ps_prefill_ms s else 0)"
  "pf_prefill_tokens (perf_add s d) =
     pf_prefill_tokens d + (if ps_prefill_ms s > 0 \<and> ps_prefill_tokens s > 0 then word_of_int (ps_prefill_tokens s) else 0)"
  "pf_decode_samples (perf_add s d) =
     pf_decode_samples d + (if ps_decode_ms s > 0 \<and> ps_decode_tokens s > 0 then 1 else 0)"
  "pf_decode_sum (perf_add s d) =
     pf_decode_sum d + (if ps_decode_ms s > 0 \<and> ps_decode_tokens s > 0 then ps_decode_ms s else 0)"
  "pf_decode_tokens (perf_add s d) =
     pf_decode_tokens d + (if ps_decode_ms s > 0 \<and> ps_decode_tokens s > 0 then word_of_int (ps_decode_tokens s) else 0)"
  "pf_backend_samples (perf_add s d) = pf_backend_samples d + (if ps_from_backend s then 1 else 0)"
  by (simp_all add: perf_add_def Let_def)

lemma perf_add_merge:
  assumes "maxima_ok d"
  shows "perf_add s d = perf_merge d (perf_add s perf_nothing)"
proof (rule perf_counters.equality)
  show "pf_queue_max (perf_add s d) = pf_queue_max (perf_merge d (perf_add s perf_nothing))"
    "pf_total_max (perf_add s d) = pf_total_max (perf_merge d (perf_add s perf_nothing))"
    "pf_ttft_max (perf_add s d) = pf_ttft_max (perf_merge d (perf_add s perf_nothing))"
    using assms by (simp_all add: perf_add_fields perf_merge_def perf_nothing_def maxima_ok_def larger_simps(3,4))
qed (simp_all add: perf_add_fields perf_merge_def perf_nothing_def)

interpretation perf: counters perf_merge perf_add perf_nothing maxima_ok
proof unfold_locales
  show "perf_merge (perf_merge d e) f = perf_merge d (perf_merge e f)" "perf_merge d e = perf_merge e d" for d e f
    by (rule perf_merge_ac)+
  show "maxima_ok perf_nothing" by (simp add: maxima_ok_def perf_nothing_def)
  show "maxima_ok (perf_add s d)" if "maxima_ok d" for s d
    using that by (simp add: maxima_ok_def perf_add_def Let_def larger_simps(5))
  show "maxima_ok (perf_merge d e)" if "maxima_ok d" "maxima_ok e" for d e
    using that by (simp add: maxima_ok_def perf_merge_def larger_simps(5))
  show "perf_add s d = perf_merge d (perf_add s perf_nothing)" if "maxima_ok d" for s d
    by (rule perf_add_merge [OF that])
qed

text \<open>
  The usage table loses and invents nothing: after any requests, flushes, refused writes and
  pruning, in any order, what the table, a flush under way and the buffer hold together for a bucket
  that was not pruned is exactly the sum of the requests recorded for it.
\<close>

theorem usage_recorder_is_exact:
  assumes "list_all (\<lambda>e. case e of Count_Prune cutoff \<Rightarrow> cutoff \<le> fst k | _ \<Rightarrow> True) es"
  shows "held usage_merge k (count_run usage_merge usage_count usage_none es) =
    total_of usage_count usage_none (samples_of k es)"
  using usage.counting_is_exact [OF assms] by blast

text \<open>
  C23. The performance recorder loses no sample and counts none twice: however recording, flushing,
  refused writes and pruning interleave, what the table, the flush under way and the buffer hold for a
  row adds up, in sums, sample counts and maxima alike, to all samples recorded for it; only rows older
  than what is pruned are exempt.
\<close>

theorem perf_recorder_is_exact:
  assumes "list_all (\<lambda>e. case e of Count_Prune cutoff \<Rightarrow> cutoff \<le> fst k | _ \<Rightarrow> True) es"
  shows "held perf_merge k (count_run perf_merge perf_add perf_nothing es) =
    total_of perf_add perf_nothing (samples_of k es)"
  using perf.counting_is_exact [OF assms] by blast

end
