(* ===== verification/Log_Ring.thy ===== *)
theory Log_Ring
  imports Go_Prelude
begin

text \<open>
  The log shown in the portal (\<open>router/internal/logring/logring.go\<close>): a ring of recent records per
  category, and the slog handler that fills it. What is promised is a bounded log; the rings
  implement it.
\<close>

section \<open>The sink\<close>

definition default_cap :: nat where "default_cap = 500"

definition known_categories :: "string list" where
  "known_categories =
     [''router'', ''hub'', ''scheduler'', ''api'', ''correlation'', ''upstream'', ''dedup'', ''admin'']"

record log_entry =
  le_time :: gotime
  le_level :: string
  le_message :: string
  le_attrs :: "(string, string) gomap"

definition zero_entry :: log_entry where
  "zero_entry = \<lparr>le_time = zero_time, le_level = [], le_message = [], le_attrs = []\<rparr>"

record sink =
  sk_rings :: "(string, log_entry list) gomap"
  sk_pos :: "(string, nat) gomap"
  sk_lens :: "(string, nat) gomap"
  sk_cap :: nat

definition sink_new :: "nat \<Rightarrow> sink" where
  "sink_new capacity =
     \<lparr>sk_rings = fold (\<lambda>c. mput c (replicate capacity zero_entry)) known_categories [], sk_pos = [], sk_lens = [],
      sk_cap = capacity\<rparr>"

definition ring_of :: "string \<Rightarrow> sink \<Rightarrow> log_entry list" where
  "ring_of c s = get_or (replicate (sk_cap s) zero_entry) (sk_rings s) c"

definition sink_add :: "string \<Rightarrow> log_entry \<Rightarrow> sink \<Rightarrow> sink" where
  "sink_add c e s =
     (let i = get_or 0 (sk_pos s) c; n = get_or 0 (sk_lens s) c
      in s\<lparr>sk_rings := mput c ((ring_of c s)[i := e]) (sk_rings s),
           sk_pos := mput c ((i + 1) mod sk_cap s) (sk_pos s),
           sk_lens := (if n < sk_cap s then mput c (n + 1) (sk_lens s) else sk_lens s)\<rparr>)"

definition newest :: "nat \<Rightarrow> 'e list \<Rightarrow> nat \<Rightarrow> nat \<Rightarrow> 'e list" where
  "newest cap ring pos n = map (\<lambda>i. ring ! ((pos + cap - 1 - i) mod cap)) [0..<n]"

definition sink_query :: "string \<Rightarrow> int \<Rightarrow> sink \<Rightarrow> log_entry list" where
  "sink_query c limit s =
     (case mget (sk_rings s) c of
        None \<Rightarrow> []
      | Some ring \<Rightarrow>
          let n = get_or 0 (sk_lens s) c;
              n = (if limit > 0 \<and> limit < int n then nat limit else n)
          in newest (sk_cap s) ring (get_or 0 (sk_pos s) c) n)"

definition sink_categories :: "sink \<Rightarrow> string list" where
  "sink_categories s =
     known_categories @ sort (filter (\<lambda>c. c \<notin> set known_categories) (mkeys (sk_rings s)))"

section \<open>The handler\<close>

text \<open>A handler of a category; attributes are pairs of a key and the text of a value.\<close>

record log_handler =
  lh_category :: string
  lh_level :: int
  lh_attrs :: "(string \<times> string) list"
  lh_group :: string

definition handler_enabled :: "log_handler \<Rightarrow> int \<Rightarrow> bool" where
  "handler_enabled h level \<longleftrightarrow> lh_level h \<le> level"

definition group_key :: "log_handler \<Rightarrow> string \<Rightarrow> string" where
  "group_key h key = (if lh_group h = [] then key else lh_group h @ ''.'' @ key)"

definition handler_handle ::
  "log_handler \<Rightarrow> gotime \<Rightarrow> string \<Rightarrow> string \<Rightarrow> (string \<times> string) list \<Rightarrow> sink \<Rightarrow> sink" where
  "handler_handle h now level message attrs s =
     sink_add (lh_category h)
       \<lparr>le_time = now, le_level = level, le_message = message,
        le_attrs = fold (\<lambda>(k, v). mput (group_key h k) v) (lh_attrs h @ attrs) []\<rparr> s"

definition with_attrs :: "(string \<times> string) list \<Rightarrow> log_handler \<Rightarrow> log_handler" where
  "with_attrs attrs h = h\<lparr>lh_attrs := lh_attrs h @ attrs\<rparr>"

definition with_group :: "string \<Rightarrow> log_handler \<Rightarrow> log_handler" where
  "with_group name h = h\<lparr>lh_group := (if lh_group h = [] then name else lh_group h @ ''.'' @ name)\<rparr>"

section \<open>Bounded logs, and rings that implement them\<close>

locale bounded_log =
  fixes contents :: "'s \<Rightarrow> 'e list" and add :: "'e \<Rightarrow> 's \<Rightarrow> 's" and good :: "'s \<Rightarrow> bool" and cap :: nat
  assumes add_good: "good s \<Longrightarrow> good (add e s)"
    and add_contents: "good s \<Longrightarrow> contents (add e s) = take cap (e # contents s)"
begin

lemma adds_contents:
  "good s \<Longrightarrow> contents s = take cap es \<Longrightarrow> good (fold add xs s) \<and> contents (fold add xs s) = take cap (rev xs @ es)"
proof (induction xs arbitrary: s es)
  case (Cons x xs)
  have "contents (add x s) = take cap (x # es)"
    using add_contents [OF Cons.prems(1), of x] Cons.prems(2) by (cases cap) (simp_all add: min_def)
  from Cons.IH [OF add_good [OF Cons.prems(1)] this] show ?case by simp
qed simp

end

locale ring_buffer =
  fixes slots_of :: "'s \<Rightarrow> 'e list" and head :: "'s \<Rightarrow> nat" and filled :: "'s \<Rightarrow> nat" and put :: "'e \<Rightarrow> 's \<Rightarrow> 's"
    and ok :: "'s \<Rightarrow> bool" and size_of :: nat
  assumes put_ok: "ok s \<Longrightarrow> ok (put e s)"
    and bounds: "ok s \<Longrightarrow> length (slots_of s) = size_of \<and> head s < size_of \<and> filled s \<le> size_of"
    and put_slots: "ok s \<Longrightarrow> slots_of (put e s) = (slots_of s)[head s := e]"
    and put_head: "ok s \<Longrightarrow> head (put e s) = (head s + 1) mod size_of"
    and put_filled: "ok s \<Longrightarrow> filled (put e s) = min size_of (filled s + 1)"

lemma newest_put:
  assumes "length ring = cap" and "pos < cap" and "n \<le> cap"
  shows "newest cap (ring[pos := e]) ((pos + 1) mod cap) (min cap (n + 1)) = take cap (e # newest cap ring pos n)"
    (is "?l = ?r")
proof (rule nth_equalityI)
  show "length ?l = length ?r" by (simp add: newest_def)
next
  fix i
  assume "i < length ?l"
  then have i: "i < cap" "i < n + 1" by (simp_all add: newest_def)
  have prior: "((pos + 1) mod cap + cap - 1 - i) mod cap = (pos + cap - i) mod cap"
  proof (cases "pos + 1 = cap")
    case True
    have "pos + cap - i = (cap - 1 - i) + cap" using True i by simp
    then have "(pos + cap - i) mod cap = (cap - 1 - i) mod cap" by (simp only: mod_add_self2)
    then show ?thesis using True by simp
  qed (use assms(2) in simp)
  have "?l ! i = ring[pos := e] ! ((pos + cap - i) mod cap)"
    using i prior by (simp add: newest_def)
  also have "\<dots> = ?r ! i"
  proof (cases i)
    case 0
    then show ?thesis using assms i by simp
  next
    case (Suc j)
    have "(pos + cap - i) mod cap \<noteq> pos"
    proof (cases "i \<le> pos")
      case True
      then have "pos + cap - i = (pos - i) + cap" by simp
      then have "(pos + cap - i) mod cap = (pos - i) mod cap" by (simp only: mod_add_self2)
      then show ?thesis using assms(2) Suc True by simp
    qed (use assms(2) i in simp)
    then show ?thesis using i Suc by (simp add: newest_def)
  qed
  finally show "?l ! i = ?r ! i" .
qed

sublocale ring_buffer \<subseteq> bounded_log "\<lambda>s. newest size_of (slots_of s) (head s) (filled s)" put ok size_of
proof unfold_locales
  fix s e
  assume ok: "ok s"
  show "ok (put e s)" using put_ok [OF ok] .
  show "newest size_of (slots_of (put e s)) (head (put e s)) (filled (put e s)) =
      take size_of (e # newest size_of (slots_of s) (head s) (filled s))"
    unfolding put_slots [OF ok] put_head [OF ok] put_filled [OF ok] using bounds [OF ok] by (intro newest_put) auto
qed

section \<open>What the sink promises\<close>

definition ring_ok :: "nat \<Rightarrow> string \<Rightarrow> sink \<Rightarrow> bool" where
  "ring_ok cap c s \<longleftrightarrow> 0 < cap \<and> sk_cap s = cap \<and> length (ring_of c s) = cap \<and>
     get_or 0 (sk_pos s) c < cap \<and> get_or 0 (sk_lens s) c \<le> cap"

interpretation sink_ring: ring_buffer "ring_of c" "\<lambda>s. get_or 0 (sk_pos s) c" "\<lambda>s. get_or 0 (sk_lens s) c"
    "sink_add c" "ring_ok cap c" cap
  for c cap
  by unfold_locales (auto simp: ring_ok_def ring_of_def sink_add_def Let_def gomap_simps)

lemma add_other:
  "d \<noteq> c \<Longrightarrow> ring_of c (sink_add d e s) = ring_of c s \<and> get_or 0 (sk_pos (sink_add d e s)) c = get_or 0 (sk_pos s) c \<and>
     get_or 0 (sk_lens (sink_add d e s)) c = get_or 0 (sk_lens s) c"
  by (auto simp: ring_of_def sink_add_def Let_def gomap_simps)

lemma sink_add_cap [simp]: "sk_cap (sink_add d e s) = sk_cap s"
  by (simp add: sink_add_def Let_def)

abbreviation ring_contents :: "nat \<Rightarrow> string \<Rightarrow> sink \<Rightarrow> log_entry list" where
  "ring_contents cap c s \<equiv> newest cap (ring_of c s) (get_or 0 (sk_pos s) c) (get_or 0 (sk_lens s) c)"

lemma adds_of_category:
  "ring_ok cap c s \<Longrightarrow> ring_contents cap c s = take cap es \<Longrightarrow>
     ring_ok cap c (fold (\<lambda>(d, e). sink_add d e) recs s) \<and>
     ring_contents cap c (fold (\<lambda>(d, e). sink_add d e) recs s) =
       take cap (rev (map snd (filter (\<lambda>(d, e). d = c) recs)) @ es)"
proof (induction recs arbitrary: s es)
  case (Cons x recs)
  obtain d e where x: "x = (d, e)" by force
  show ?case
  proof (cases "d = c")
    case True
    from sink_ring.adds_contents [OF Cons.prems, of "[e]"]
    have "ring_ok cap c (sink_add c e s)" "ring_contents cap c (sink_add c e s) = take cap (e # es)" by simp_all
    from Cons.IH [OF this] show ?thesis using True x by simp
  next
    case False
    then have "ring_ok cap c (sink_add d e s)" "ring_contents cap c (sink_add d e s) = take cap es"
      using Cons.prems add_other [OF False, of e s] by (simp_all add: ring_ok_def)
    from Cons.IH [OF this] show ?thesis using False x by simp
  qed
qed simp

lemma query_contents:
  assumes "ring_ok cap c s"
  shows "sink_query c limit s =
    (if mget (sk_rings s) c = None then []
     else if 0 < limit then take (nat limit) (ring_contents cap c s) else ring_contents cap c s)"
  using assms
  by (auto simp: sink_query_def ring_of_def get_or_def newest_def ring_ok_def Let_def take_map min_def
      split: option.splits)

lemma rings_new: "mget (sk_rings (sink_new cap)) c = (if c \<in> set known_categories then Some (replicate cap zero_entry) else None)"
  by (auto simp: sink_new_def known_categories_def gomap_simps)

lemma rings_adds:
  "mget (sk_rings (fold (\<lambda>(d, e). sink_add d e) recs s)) c = None \<longleftrightarrow>
     mget (sk_rings s) c = None \<and> c \<notin> fst ` set recs"
  by (induction recs arbitrary: s) (auto simp: sink_add_def Let_def gomap_simps split: if_splits)

text \<open>
  C24. The rings are a bounded log: after any records in any categories, a query answers with the
  records of its category, newest first, at most as many as the capacity and, when it sets one, as
  the limit; no record of another category appears.
\<close>

theorem query_returns_newest:
  assumes "0 < cap"
  shows "sink_query c limit (fold (\<lambda>(d, e). sink_add d e) recs (sink_new cap)) =
    take (if 0 < limit then nat limit else cap) (take cap (rev (map snd (filter (\<lambda>(d, e). d = c) recs))))"
proof -
  let ?s = "fold (\<lambda>(d, e). sink_add d e) recs (sink_new cap)"
  have "ring_of c (sink_new cap) = replicate cap zero_entry"
    using rings_new [of cap c] by (auto simp: ring_of_def get_or_def sink_new_def split: option.split if_splits)
  then have "ring_ok cap c (sink_new cap)" "ring_contents cap c (sink_new cap) = take cap []"
    using assms by (simp_all add: ring_ok_def newest_def sink_new_def)
  note run = adds_of_category [OF this, of recs]
  have "mget (sk_rings ?s) c = None \<Longrightarrow> filter (\<lambda>(d, e). d = c) recs = []"
    by (auto simp: rings_adds filter_empty_conv image_iff split: prod.splits)
  then show ?thesis using run by (auto simp: query_contents [OF conjunct1 [OF run]] min_def)
qed

text \<open>
  The handler adds the group to every attribute when it handles a record, also to those that were
  attached before the group was opened, which slog leaves unqualified.
\<close>

theorem group_renames_earlier_attributes:
  "le_attrs (hd (sink_query ''hub'' 1 (handler_handle
     (with_group ''g'' (with_attrs [(''k'', ''v'')] \<lparr>lh_category = ''hub'', lh_level = 0, lh_attrs = [], lh_group = []\<rparr>))
     0 ''INFO'' ''m'' [] (sink_new 2)))) = [(''g.k'', ''v'')]"
  by code_simp

end
