(* ===== verification/Worker_Witnesses.thy ===== *)
theory Worker_Witnesses
  imports Worker_Promises Witnesses Backend_Properties Usage_Recorder Health_Report Log_Ring
begin

text \<open>
  The properties of the worker's side that have hypotheses, applied at concrete states: the slots of
  the scenario above, two configured backends, and a worker that holds the job of the sample mesh.
\<close>

section \<open>Slots\<close>

theorem slot_counters_exact_witness:
  "sp_in_flight (sl_pool overlooked) = tally holding (sl_calls overlooked) \<and> slots_reach overlooked"
proof -
  have "slots_reach overlooked" by (rule overlooked_reached)
  with slot_counters_exact [OF this] show ?thesis by simp
qed

theorem parked_calls_are_owed_a_wake_witness:
  "\<not> sl_ended overlooked ! 1 \<and> sl_calls overlooked ! 1 = Router_Parked False \<and>
   (\<exists>j < length (sl_calls overlooked). holding (sl_calls overlooked ! j) \<or> sl_calls overlooked ! j = Local_Testing)"
  using parked_calls_are_owed_a_wake [OF overlooked_reached, of 1 False] by (simp add: overlooked_def)

section \<open>Models\<close>

theorem breaker_backs_off_witness:
  "breaker_open (50 * second_ns) ''qwen'' (failing ''qwen'' [0, 1, 2, 3] (breaker_success ''qwen'' []))"
  using breaker_backs_off [of "50 * second_ns" "[0, 1, 2, 3]" "''qwen''" "[]" "''qwen''"]
  by (simp add: zero_time_def second_ns_def)

definition two_backends :: worker_config where
  "two_backends =
     \<lparr>wc_models = [\<lparr>mc_name = [], mc_endpoint = ''http://a'', mc_template = [], mc_modalities = []\<rparr>,
        \<lparr>mc_name = ''llama'', mc_endpoint = ''http://b'', mc_template = [], mc_modalities = []\<rparr>],
      wc_activity_timeout = 0, wc_templates = [], wc_names = []\<rparr>"

definition ready_answer :: backend_answer where
  "ready_answer =
     \<lparr>ba_ready = True, ba_model_id = ''qwen'', ba_ctx = 8192, ba_ctx_train = 8192, ba_slots = 2, ba_modalities = [],
      ba_template = []\<rparr>"

definition tripped_llama :: breaker where
  "tripped_llama = failing ''llama'' [0, 1, 2] []"

theorem advertised_models_are_served_witness:
  "case provider_models 10 tripped_llama [ready_answer, ready_answer] \<lparr>mp_config = two_backends, mp_backends = []\<rparr> of
     ((infos, n), p) \<Rightarrow> map mi_name infos = [''qwen''] \<and> endpoint_for (mp_config p) ''qwen'' \<noteq> []"
proof -
  let ?p = "\<lparr>mp_config = two_backends, mp_backends = []\<rparr>"
  obtain infos n p where run: "provider_models 10 tripped_llama [ready_answer, ready_answer] ?p = ((infos, n), p)"
    by (metis surj_pair)
  have "map mi_name (fst (fst (provider_models 10 tripped_llama [ready_answer, ready_answer] ?p))) = [''qwen'']"
    by code_simp
  moreover have "distinct (map mc_endpoint (wc_models (mp_config ?p)))" "list_all (\<lambda>m. mc_endpoint m \<noteq> []) (wc_models (mp_config ?p))"
    by (simp_all add: two_backends_def)
  ultimately show ?thesis
    using advertised_models_are_served [OF run provider_ok_start] by (auto simp: run list_all_iff)
qed

section \<open>A shutdown\<close>

definition working :: "worker_event list" where
  "working = [Frame (Job_Msg (request ''r2'' ''llama'' ''alice'' 2)), Start 0, Acquire 0, Shutdown 0]"

lemma busy_ids: "fst ` set (hb_jobs busy_hub) = {''r1'', ''r2''}"
  by code_simp


section \<open>Backends, recorders and the log\<close>

text \<open>
  The properties of the backends, the recorders and the log that have hypotheses, applied at concrete
  inputs: a stream of one event, a bucket whose first write is refused, and a log of three records.
\<close>

section \<open>A stream\<close>

definition event_json :: json_lib where
  "event_json =
     \<lparr>jl_view = (\<lambda>raw.
        if raw = ''{e}'' then Some (V_Object [(''choices'', ''[c]'')])
        else if raw = ''[c]'' then Some (V_Array [''{c}''])
        else if raw = ''{c}'' then Some (V_Object [(''delta'', ''{d}''), (''finish_reason'', ''f'')])
        else if raw = ''{d}'' then Some (V_Object [(''content'', ''t'')])
        else if raw = ''t'' then Some (V_String ''hi'')
        else if raw = ''f'' then Some (V_String ''stop'')
        else None),
      jl_same_key = (=), jl_text = (\<lambda>j. None)\<rparr>"

definition short_stream :: http_answer where
  "short_stream = Http_Stream [Stream_Line ''data: {e}'', Stream_Line '''', Stream_Line ''data: [DONE]'']"

definition hi_request :: inference_request where
  "hi_request =
     \<lparr>rq_id = ''r1'', rq_model = ''llama'', rq_messages = [], rq_max_tokens = 0, rq_temperature = None, rq_top_p = None,
      rq_stop = [], rq_stream = True, rq_tools = [], rq_tool_choice = [], rq_source_fmt = [], rq_priority = 0,
      rq_owner = [], rq_api_key_label = [], rq_word_count = 0, rq_modalities = [], rq_enqueued_at = 0, rq_attempts = 0,
      rq_requested_model = [], rq_allowed_models = None\<rparr>"

definition one_backend :: worker_config where
  "one_backend =
     \<lparr>wc_models = [\<lparr>mc_name = ''llama'', mc_endpoint = ''http://b'', mc_template = [], mc_modalities = []\<rparr>],
      wc_activity_timeout = 0, wc_templates = [], wc_names = []\<rparr>"

theorem jobs_end_once_witness:
  "length (filter ends (hd_sent (fst (handle_job one_backend 0 hi_request
     [Inferred (piece ''hi'' [] [] []), Alive_Tick, Inferred (last_piece ''stop'' None)] Infer_Ok False [])))) = 1"
proof -
  have "infer (\<lambda>n. []) event_json False short_stream = ([piece ''hi'' [] [] [], last_piece ''stop'' None], Some Infer_Ok)"
    by code_simp
  moreover have "inferred [Inferred (piece ''hi'' [] [] []), Alive_Tick, Inferred (last_piece ''stop'' None)] =
      [piece ''hi'' [] [] [], last_piece ''stop'' None]"
    by (simp add: inferred_def)
  ultimately show ?thesis
    using jobs_end_once [of "\<lambda>n. []" event_json False short_stream _ Infer_Ok _ one_backend 0 hi_request False "[]"]
    by (metis surj_pair fst_conv)
qed

section \<open>A recorder\<close>

definition sample_row :: row_key where
  "sample_row = (0, ''ann'', ''ann/laptop'', ''llama'', ''bob/gpu'')"

definition sample_of :: "rat \<Rightarrow> perf_sample" where
  "sample_of t =
     \<lparr>ps_owner = ''ann'', ps_key_label = ''ann/laptop'', ps_model = ''llama'', ps_client = ''bob/gpu'', ps_queue_ms = t,
      ps_total_ms = t, ps_ttft_ms = 0, ps_prefill_ms = 0, ps_prefill_tokens = 0, ps_decode_ms = 0, ps_decode_tokens = 0,
      ps_from_backend = False\<rparr>"

definition refused_once :: "perf_sample count_event list" where
  "refused_once =
     [Count_Record sample_row (sample_of 3), Count_Swap, Count_Record sample_row (sample_of 5), Count_Write False,
      Count_Swap, Count_Write True]"

theorem perf_recorder_is_exact_witness:
  "map_option pf_queue_sum (held perf_merge sample_row (count_run perf_merge perf_add perf_nothing refused_once)) = Some 8"
proof -
  have "list_all (\<lambda>e. case e of Count_Prune cutoff \<Rightarrow> cutoff \<le> fst sample_row | _ \<Rightarrow> True) refused_once"
    by (simp add: refused_once_def)
  note exact = perf_recorder_is_exact [OF this]
  have "samples_of sample_row refused_once = [sample_of 3, sample_of 5]"
    by (simp add: samples_of_def refused_once_def)
  then show ?thesis unfolding exact by (simp add: total_of_def perf_add_fields sample_of_def perf_nothing_def)
qed

section \<open>A log\<close>

definition note_of :: "string \<Rightarrow> log_entry" where
  "note_of m = \<lparr>le_time = 0, le_level = ''INFO'', le_message = m, le_attrs = []\<rparr>"

theorem query_returns_newest_witness:
  "map le_message (sink_query ''hub'' 0 (fold (\<lambda>(d, e). sink_add d e)
     [(''hub'', note_of ''a''), (''api'', note_of ''b''), (''hub'', note_of ''c''), (''hub'', note_of ''d'')] (sink_new 2)))
   = [''d'', ''c'']"
  using query_returns_newest [of 2 "''hub''" 0
      "[(''hub'', note_of ''a''), (''api'', note_of ''b''), (''hub'', note_of ''c''), (''hub'', note_of ''d'')]"]
  by (simp add: note_of_def)

end
