(* ===== verification/Spec2Isabelle.thy ===== *)
theory Spec2Isabelle
  imports Queue_Properties Hub_Properties Scheduler_Order Mesh_Findings Witnesses Store_Witnesses
    Serving_Witnesses Admission_Witnesses Portal_Witnesses Portal_Stores_Properties
    Worker_Witnesses
begin

text \<open>
  A verification library for llmesh, a router that spreads inference requests over a mesh of workers.
  Callers speak one of three HTTP dialects to the router; workers (the client beside a llama.cpp server,
  or the shim in front of a remote provider) keep a WebSocket to it and are handed jobs. The
  definitions are translated from the Go code under \<open>src/\<close>; each theory opens with what it holds.

  \<^bold>\<open>The path of a request.\<close> \<open>enqueue\<close> of \<open>router/internal/api/handler.go\<close> cleans the request
  (\<open>reqopt\<close>), asks the access engine which models the key may use (\<open>admin/model_access.go\<close>, \<open>authz\<close>),
  coalesces it with an identical one (\<open>dedup\<close>) or opens a channel for its answer (\<open>correlation\<close>) and
  puts it into the queue (\<open>queue\<close>). The scheduler drains the queue: it picks a worker and a request,
  the hub records the job, gives it a lease and sends it. The worker's chunks come back through the hub into the
  channel, where a handler turns them into a stream or a document of the caller's dialect
  (\<open>translate\<close>). Errors, busy workers, lost connections and lapsed leases put the request back until
  MaxAttempts. The portal keeps accounts, roles, sessions and the rules the engine compiles.

  \<^bold>\<open>Shared theories.\<close> \<open>Go_Prelude\<close>: Go's maps (association lists with distinct keys), integers, times
  (nanoseconds as \<open>int\<close>), byte strings, and the locale \<open>choice_order\<close> of a scan for a best element, which the
  queue and the scheduler interpret. \<open>Go_Text\<close>, \<open>Json_Values\<close>: white space, and JSON, whose library is
  the argument \<open>json_lib\<close>. \<open>Wire_Types\<close>: \<open>pkg/types/types.go\<close>, and buffered channels that panic where Go's do.

  \<^bold>\<open>Queue, hub, scheduler.\<close> \<open>Request_Queue\<close> and \<open>Queue_Properties\<close> (\<open>queue.go\<close>; the locale \<open>job_queue\<close> is
  what the scheduler relies on). \<open>Hub\<close>, \<open>Hub_Dispatch\<close>, \<open>Hub_Lifecycle\<close>, \<open>Hub_Views\<close> are \<open>hub.go\<close>: registry, messages,
  ends of jobs and reports; \<open>Hub_Invariant\<close>, \<open>Hub_Outcomes\<close>, \<open>Hub_Properties\<close> prove the counters exact and every
  job settled once (the locale \<open>dispatcher\<close> is what a drain needs of the hub). \<open>Scheduler\<close> is one run
  of \<open>drainQueue\<close>; \<open>Scheduler_Select\<close>, \<open>_Drain\<close>, \<open>_Limits\<close>, \<open>_Sharing\<close>, \<open>_Outcome\<close>, \<open>_Order\<close> prove its choice, termination,
  limits, reserved slots, outcome, and where the order of candidates is none. \<open>Mesh\<close> wires
  the three as \<open>router/cmd/router/main.go\<close> does, a step relation over callers, workers, drains, the
  reaper and the portal; its properties are in this theory. \<open>Sample_Mesh\<close> and \<open>Mesh_Findings\<close> hold small runs.

  \<^bold>\<open>Access.\<close> \<open>Access_Globs\<close>, \<open>_Roles\<close>, \<open>_Conditions\<close>, \<open>_Engine\<close> are \<open>router/internal/authz\<close>; \<open>_Logic\<close>, \<open>_Decisions\<close>, \<open>_Cache\<close>,
  \<open>_Properties\<close> show the compiled engine with its cache to be the documented rule, in three-valued logic.
  \<open>Access_Store\<close> is how the portal's state feeds it (\<open>access_store.go\<close>, \<open>access_portal.go\<close>, \<open>model_access.go\<close>,
  \<open>sharing_store.go\<close>), \<open>Access_Isolation\<close> what that promises through a drain.

  \<^bold>\<open>Serving.\<close> \<open>Admission\<close> and \<open>Responses\<close> are the two halves of \<open>handler.go\<close>; \<open>Translate\<close>, \<open>Stream_Protocol\<close>, \<open>Reqopt\<close>,
  \<open>Dedup\<close>, \<open>Dedup_Followers\<close>, \<open>Correlation\<close> the packages they use, with \<open>Admission_Properties\<close>, \<open>Response_Properties\<close>,
  \<open>Batch_Properties\<close>, \<open>Dedup_Properties\<close>, \<open>Correlation_Safety\<close>: refusals leave no trace, answers are whole and
  in order, followers share one attempt, and no interleaving meets a closed channel.

  \<^bold>\<open>Portal.\<close> \<open>Portal_State\<close> and \<open>Portal_Accounts\<close> are the tables and their operations (\<open>state.go\<close>, \<open>access_store.go\<close>);
  \<open>Portal_Sessions\<close> sessions and mailed links (\<open>sessions.go\<close>, \<open>authtoken.go\<close>); \<open>Portal_SignIn\<close>, \<open>Portal_Oidc\<close>, \<open>Portal_Oauth\<close> the
  ways of signing in (\<open>auth.go\<close>, \<open>magiclink.go\<close>, \<open>oauth*.go\<close>, \<open>oidc*.go\<close>, \<open>token_login.go\<close>); \<open>Portal_Admin\<close> the handlers that
  manage others (\<open>pages.go\<close>, \<open>access_pages.go\<close>), the routes behind their guards, and
  runs. \<open>Portal_Stores\<close> and \<open>Portal_Stores_Properties\<close> are the tables of keys, tokens, aliases, settings and prices
  (\<open>state.go\<close>, \<open>pricing.go\<close>) and their caches. \<open>Portal_Invariant\<close>, \<open>_Keeps\<close>, \<open>_Soundness\<close>, \<open>_Credentials\<close>, \<open>_Lasting\<close> (a locale of what every
  handler keeps), \<open>_Authority\<close>, \<open>_Properties\<close> prove sound tables, a last administrator, earned sessions and
  bounded authority; \<open>Portal_Races\<close> cuts handlers in two where the promises end.

  \<^bold>\<open>Workers.\<close> \<open>Worker_Slots\<close> (\<open>pkg/wsclient/slotpool.go\<close>, a step relation over waiting calls), \<open>Worker_Health\<close> (the
  breaker and the advertised models of \<open>client/\<close>), \<open>Worker_Conn\<close> (\<open>pkg/wsclient/conn.go\<close> and the handling of a
  job) and \<open>Worker_Promises\<close>, where a worker's goodbye meets the router's hub; \<open>Backends\<close> (the llama.cpp
  client and the shim's upstreams and adapters) and \<open>Backend_Properties\<close>.

  \<^bold>\<open>Measurements.\<close> \<open>Statistics\<close> (\<open>latency.go\<close>, \<open>stats.go\<close>), \<open>Health_Report\<close> (\<open>health.go\<close>),
  \<open>Log_Ring\<close> (\<open>logring.go\<close>; the rings are a sublocale of a bounded log) and \<open>Usage_Recorder\<close> (\<open>admin/usage.go\<close>,
  \<open>admin/perf.go\<close>; one locale for both recorders). The theories named \<open>_Witnesses\<close> apply the properties at concrete states.

  \<^bold>\<open>Bounds and fuel.\<close> A drain has fuel for twice the queue's length and one round, which
  \<open>drain_terminates\<close> shows to be enough; no other recursion has fuel. Widths and limits are the code's: 32-bit
  counters per client, 64-bit token sums, MaxAttempts 3, 65536 cached decisions, 4096 prefixes, a replay
  of 2048 chunks, channels of 256 and 2048, 32 shards, a breaker that trips at 3 failures for 30 seconds up
  to 10 minutes, 500 log records per category, a window of 10 minutes, 100 names tried for a new account.

  \<^bold>\<open>Arguments of the model\<close> are what is not under \<open>src/\<close> or draws on the outside: \<open>encoding/json\<close>, SHA-256, bcrypt,
  random numbers, the time-zone database, address parsing, printed numbers, the clock, and what sockets,
  providers and upstreams answer. Floating-point numbers are rationals, without rounding.

  \<^bold>\<open>Not modelled.\<close> SQL as such: tables are lists, a statement is a function on them that succeeds (except in the
  recorders), and schema, migrations and the grouping queries of the reports are left out. HTML, JSON
  rendering and static files; the forms of keys, client tokens, aliases and prices, the saving of roles and policies;
  mail, the limiter of sign-in attempts, discovery of provider endpoints; dialling, pings and deadlines of
  sockets, the client's local API, starting adapter processes; flags, configuration files and metrics. They
  are input and output around the state above, or hold none that another part reads. Handlers of the
  portal are atomic except in \<open>Portal_Races\<close>; hub, queue and scheduler are atomic per critical section,
  correlation and slot pool per lock and channel operation.
\<close>

section \<open>The router as a whole\<close>



section \<open>The same at a concrete run\<close>



end
